(* ===== verification/Prelude.thy ===== *)
theory Prelude
  imports Complex_Main "HOL-Library.Log_Nat" "HOL-Library.AList"
begin

text \<open>
  What the component theories share: the collections of rewrite rules the development keeps
  and the model of Rust's hash maps.
\<close>

named_theorems f64_arith "the f64 operations on finite arguments"

section \<open>Hash maps\<close>

text \<open>
  A \<open>HashMap\<close> or \<open>DashMap\<close> is an association list with distinct keys; the order of the
  list is the order in which an iteration visits the entries.  Rust leaves that order open, so
  the theorems speak about arbitrary lists.
\<close>

type_synonym ('k, 'v) hmap = "('k \<times> 'v) list"

definition hm_get :: "('k, 'v) hmap \<Rightarrow> 'k \<Rightarrow> 'v option" where
  "hm_get m k = map_of m k"

definition hm_insert :: "'k \<Rightarrow> 'v \<Rightarrow> ('k, 'v) hmap \<Rightarrow> ('k, 'v) hmap" where
  "hm_insert k v m = AList.update k v m"

definition hm_remove :: "'k \<Rightarrow> ('k, 'v) hmap \<Rightarrow> ('k, 'v) hmap" where
  "hm_remove k m = AList.delete k m"

text \<open>\<open>get_mut\<close> followed by an update of the entry; an absent key changes nothing.\<close>

definition hm_modify :: "'k \<Rightarrow> ('v \<Rightarrow> 'v) \<Rightarrow> ('k, 'v) hmap \<Rightarrow> ('k, 'v) hmap" where
  "hm_modify k f m = map (\<lambda>(k', v). if k' = k then (k', f v) else (k', v)) m"

definition hm_keys :: "('k, 'v) hmap \<Rightarrow> 'k list" where
  "hm_keys m = map fst m"

definition hm_ok :: "('k, 'v) hmap \<Rightarrow> bool" where
  "hm_ok m \<longleftrightarrow> distinct (map fst m)"

locale hash_map =
  fixes get :: "'m \<Rightarrow> 'k \<Rightarrow> 'v option"
    and ins :: "'k \<Rightarrow> 'v \<Rightarrow> 'm \<Rightarrow> 'm"
    and rem :: "'k \<Rightarrow> 'm \<Rightarrow> 'm"
    and modify :: "'k \<Rightarrow> ('v \<Rightarrow> 'v) \<Rightarrow> 'm \<Rightarrow> 'm"
    and ok :: "'m \<Rightarrow> bool"
  assumes get_ins: "get (ins k v m) k' = (if k' = k then Some v else get m k')"
    and get_rem: "get (rem k m) k' = (if k' = k then None else get m k')"
    and get_modify: "get (modify k f m) k' = (if k' = k then map_option f (get m k) else get m k')"
    and ok_ins: "ok m \<Longrightarrow> ok (ins k v m)"
    and ok_rem: "ok m \<Longrightarrow> ok (rem k m)"
    and ok_modify: "ok m \<Longrightarrow> ok (modify k f m)"
begin

lemma get_ins_same: "get (ins k v m) k = Some v"
  by (simp add: get_ins)

lemma get_ins_other: "k' \<noteq> k \<Longrightarrow> get (ins k v m) k' = get m k'"
  by (simp add: get_ins)

lemma get_rem_same: "get (rem k m) k = None"
  by (simp add: get_rem)

lemma modify_absent: "get m k = None \<Longrightarrow> get (modify k f m) k' = get m k'"
  by (auto simp: get_modify)

lemma modify_twice: "get (modify k f (modify k g m)) k' = get (modify k (f \<circ> g) m) k'"
  by (simp add: get_modify option.map_comp)

end

lemma map_of_modify:
  "map_of (hm_modify k f m) k' = (if k' = k then map_option f (map_of m k) else map_of m k')"
  by (induction m) (auto simp: hm_modify_def)

lemma map_fst_modify: "map fst (hm_modify k f m) = map fst m"
  by (induction m) (auto simp: hm_modify_def)

interpretation hm: hash_map hm_get hm_insert hm_remove hm_modify hm_ok
  by unfold_locales
    (simp_all add: hm_get_def hm_insert_def hm_remove_def hm_ok_def update_conv' delete_conv'
      map_of_modify map_fst_modify distinct_update distinct_delete)

lemma hm_get_Nil [simp]: "hm_get [] k = None"
  by (simp add: hm_get_def)

lemma hm_get_keys: "hm_get m k \<noteq> None \<longleftrightarrow> k \<in> set (hm_keys m)"
  by (auto simp: hm_get_def hm_keys_def map_of_eq_None_iff)

lemma set_hm_insert_keys: "set (hm_keys (hm_insert k v m)) = insert k (set (hm_keys m))"
  by (simp add: hm_keys_def hm_insert_def dom_update)

lemma set_hm_remove_keys: "set (hm_keys (hm_remove k m)) = set (hm_keys m) - {k}"
  by (auto simp: hm_keys_def hm_remove_def AList.delete_eq image_iff)

lemmas hm_simps [simp] = hm.get_ins hm.get_rem hm.get_modify
lemmas hm_ok_intros [intro] = hm.ok_ins hm.ok_rem hm.ok_modify

section \<open>Lists and options\<close>

text \<open>\<open>Option::or\<close>.\<close>

definition opt_or :: "'a option \<Rightarrow> 'a option \<Rightarrow> 'a option" where
  "opt_or a b = (case a of None \<Rightarrow> b | Some _ \<Rightarrow> a)"

text \<open>\<open>Option::unwrap_or\<close>.\<close>

definition unwrap_or :: "'a option \<Rightarrow> 'a \<Rightarrow> 'a" where
  "unwrap_or a d = (case a of None \<Rightarrow> d | Some x \<Rightarrow> x)"

lemma opt_or_simps [simp]: "opt_or None b = b" "opt_or (Some x) b = Some x"
  by (simp_all add: opt_or_def)

lemma unwrap_or_simps [simp]: "unwrap_or None d = d" "unwrap_or (Some x) d = x"
  by (simp_all add: unwrap_or_def)

text \<open>\<open>slice::last\<close> and \<open>first\<close>.\<close>

definition last_opt :: "'a list \<Rightarrow> 'a option" where
  "last_opt xs = (if xs = [] then None else Some (last xs))"

definition nth_opt :: "'a list \<Rightarrow> nat \<Rightarrow> 'a option" where
  "nth_opt xs i = (if i < length xs then Some (xs ! i) else None)"

end
