(* ===== verification/F64.thy ===== *)
theory F64
  imports Prelude
begin

text \<open>
  The binary64 arithmetic the Rust code calls \<open>f64\<close>.  A value is NaN, one of the
  two infinities or a finite number, kept as the rational it denotes; the two zeros are
  one value (Rust's \<open>==\<close> does not tell them apart).  Every operation computes the exact
  rational result and rounds it to the nearest representable number, ties to even, as
  IEEE 754 asks; the definitions run, so that a witness evaluates them.  The lemmas say
  what the components need of rounding: it is monotone, keeps signs, is exact on
  representable numbers and in particular on integers up to \<open>2\<^sup>5\<^sup>3\<close>.
\<close>

section \<open>Rounding a rational to the binary64 grid\<close>

text \<open>The exponent of a positive rational: \<open>2\<^sup>k \<le> x < 2\<^sup>k\<^sup>+\<^sup>1\<close>.\<close>

definition ilog2 :: "rat \<Rightarrow> int" where
  "ilog2 x = (let (p, q) = quotient_of x; k = bitlen p - bitlen q
              in if (2::rat) powi k \<le> x then k else k - 1)"

text \<open>Nearest integer, ties to even.\<close>

definition rhe :: "rat \<Rightarrow> int" where
  "rhe x = (let n = \<lfloor>x\<rfloor>; r = x - of_int n
            in if r < 1/2 then n else if 1/2 < r then n + 1 else if even n then n else n + 1)"

text \<open>The exponent of the grid around \<open>x\<close>: 53 significant bits, subnormal below \<open>2\<^sup>-\<^sup>1\<^sup>0\<^sup>2\<^sup>2\<close>.\<close>

definition gexp :: "rat \<Rightarrow> int" where
  "gexp x = max (-1074) (ilog2 x - 52)"

definition grid :: "rat \<Rightarrow> rat" where
  "grid x = (if x = 0 then 0 else of_int (rhe (x / 2 powi gexp \<bar>x\<bar>)) * 2 powi gexp \<bar>x\<bar>)"

datatype f64 = NaN | Infty bool | Fin rat

text \<open>Numbers of this size and above overflow to infinity.\<close>

definition overflow_bound :: rat where
  "overflow_bound = 2 powi 1024"

definition rnd :: "rat \<Rightarrow> f64" where
  "rnd x = (let y = grid x
            in if overflow_bound \<le> \<bar>y\<bar> then Infty (0 < y) else Fin y)"

text \<open>The finite binary64 numbers are the fixed points of rounding.\<close>

definition representable :: "rat \<Rightarrow> bool" where
  "representable x \<longleftrightarrow> grid x = x \<and> \<bar>x\<bar> < overflow_bound"

section \<open>Operations\<close>

fun is_finite :: "f64 \<Rightarrow> bool" where
  "is_finite (Fin _) = True"
| "is_finite _ = False"

fun is_nan :: "f64 \<Rightarrow> bool" where
  "is_nan NaN = True"
| "is_nan _ = False"

fun f64_uminus :: "f64 \<Rightarrow> f64" where
  "f64_uminus NaN = NaN"
| "f64_uminus (Infty s) = Infty (\<not> s)"
| "f64_uminus (Fin x) = Fin (- x)"

fun f64_plus :: "f64 \<Rightarrow> f64 \<Rightarrow> f64" where
  "f64_plus (Fin x) (Fin y) = rnd (x + y)"
| "f64_plus (Infty s) (Infty t) = (if s = t then Infty s else NaN)"
| "f64_plus (Infty s) (Fin _) = Infty s"
| "f64_plus (Fin _) (Infty t) = Infty t"
| "f64_plus _ _ = NaN"

fun f64_times :: "f64 \<Rightarrow> f64 \<Rightarrow> f64" where
  "f64_times (Fin x) (Fin y) = rnd (x * y)"
| "f64_times (Infty s) (Infty t) = Infty (s = t)"
| "f64_times (Infty s) (Fin y) = (if y = 0 then NaN else Infty (s = (0 < y)))"
| "f64_times (Fin x) (Infty t) = (if x = 0 then NaN else Infty ((0 < x) = t))"
| "f64_times _ _ = NaN"

text \<open>Division by zero takes the zero as positive; the code guards the divisors whose sign matters.\<close>

fun f64_divide :: "f64 \<Rightarrow> f64 \<Rightarrow> f64" where
  "f64_divide (Fin x) (Fin y) =
     (if y = 0 then (if x = 0 then NaN else Infty (0 < x)) else rnd (x / y))"
| "f64_divide (Infty s) (Fin y) = Infty (s = (0 \<le> y))"
| "f64_divide (Fin _) (Infty _) = Fin 0"
| "f64_divide _ _ = NaN"

fun f64_less_eq :: "f64 \<Rightarrow> f64 \<Rightarrow> bool" where
  "f64_less_eq (Fin x) (Fin y) = (x \<le> y)"
| "f64_less_eq (Infty s) (Infty t) = (s \<longrightarrow> t)"
| "f64_less_eq (Infty s) (Fin _) = (\<not> s)"
| "f64_less_eq (Fin _) (Infty t) = t"
| "f64_less_eq _ _ = False"

fun f64_less :: "f64 \<Rightarrow> f64 \<Rightarrow> bool" where
  "f64_less (Fin x) (Fin y) = (x < y)"
| "f64_less (Infty s) (Infty t) = (\<not> s \<and> t)"
| "f64_less (Infty s) (Fin _) = (\<not> s)"
| "f64_less (Fin _) (Infty t) = t"
| "f64_less _ _ = False"

text \<open>The Rust operators are written with the usual symbols.\<close>

instantiation f64 :: "{zero, one, plus, minus, uminus, times, inverse, ord, abs}"
begin

definition zero_f64 :: f64 where "zero_f64 = Fin 0"
definition one_f64 :: f64 where "one_f64 = Fin 1"
definition plus_f64 :: "f64 \<Rightarrow> f64 \<Rightarrow> f64" where "plus_f64 = f64_plus"
definition uminus_f64 :: "f64 \<Rightarrow> f64" where "uminus_f64 = f64_uminus"
definition minus_f64 :: "f64 \<Rightarrow> f64 \<Rightarrow> f64" where "minus_f64 a b = f64_plus a (f64_uminus b)"
definition times_f64 :: "f64 \<Rightarrow> f64 \<Rightarrow> f64" where "times_f64 = f64_times"
definition divide_f64 :: "f64 \<Rightarrow> f64 \<Rightarrow> f64" where "divide_f64 = f64_divide"
definition inverse_f64 :: "f64 \<Rightarrow> f64" where "inverse_f64 = f64_divide (Fin 1)"
definition less_eq_f64 :: "f64 \<Rightarrow> f64 \<Rightarrow> bool" where "less_eq_f64 = f64_less_eq"
definition less_f64 :: "f64 \<Rightarrow> f64 \<Rightarrow> bool" where "less_f64 = f64_less"
definition abs_f64 :: "f64 \<Rightarrow> f64" where
  "abs_f64 a = (case a of NaN \<Rightarrow> NaN | Infty _ \<Rightarrow> Infty True | Fin x \<Rightarrow> Fin \<bar>x\<bar>)"

instance ..

end

text \<open>\<open>==\<close> of Rust: NaN equals nothing.\<close>

definition feq :: "f64 \<Rightarrow> f64 \<Rightarrow> bool" where
  "feq a b \<longleftrightarrow> a \<noteq> NaN \<and> a = b"

fun feq_opt :: "f64 option \<Rightarrow> f64 option \<Rightarrow> bool" where
  "feq_opt None None = True"
| "feq_opt (Some a) (Some b) = feq a b"
| "feq_opt _ _ = False"

text \<open>\<open>f64::max\<close> and \<open>f64::min\<close>: a NaN argument is ignored.\<close>

definition fmax :: "f64 \<Rightarrow> f64 \<Rightarrow> f64" where
  "fmax a b = (if is_nan a then b else if is_nan b then a else if a \<le> b then b else a)"

definition fmin :: "f64 \<Rightarrow> f64 \<Rightarrow> f64" where
  "fmin a b = (if is_nan a then b else if is_nan b then a else if a \<le> b then a else b)"

text \<open>A literal of the source, and the cast \<open>as f64\<close> of an integer.\<close>

definition lit :: "rat \<Rightarrow> f64" where
  "lit x = rnd x"

definition of_integer_f64 :: "int \<Rightarrow> f64" where
  "of_integer_f64 n = rnd (of_int n)"

definition EPSILON :: f64 where
  "EPSILON = Fin (1 / 4503599627370496)"

text \<open>\<open>round\<close> (ties away from zero), \<open>floor\<close> and \<open>ceil\<close>.\<close>

definition round_away :: "rat \<Rightarrow> int" where
  "round_away x = (if 0 \<le> x then \<lfloor>x + 1/2\<rfloor> else - \<lfloor>1/2 - x\<rfloor>)"

fun fround :: "f64 \<Rightarrow> f64" where
  "fround (Fin x) = Fin (of_int (round_away x))"
| "fround a = a"

fun ffloor :: "f64 \<Rightarrow> f64" where
  "ffloor (Fin x) = Fin (of_int \<lfloor>x\<rfloor>)"
| "ffloor a = a"

fun fceil :: "f64 \<Rightarrow> f64" where
  "fceil (Fin x) = Fin (of_int \<lceil>x\<rceil>)"
| "fceil a = a"

text \<open>A finite sum from the left, as \<open>iter().sum()\<close> adds.\<close>

definition fsum :: "f64 list \<Rightarrow> f64" where
  "fsum xs = foldl (+) 0 xs"

text \<open>\<open>format!("{:.d}")\<close>: the exact value rounded to \<open>d\<close> decimals, ties to even.\<close>

fun digits_of :: "nat \<Rightarrow> string" where
  "digits_of n = (if n < 10 then [char_of (48 + n)] else digits_of (n div 10) @ [char_of (48 + n mod 10)])"

declare digits_of.simps [simp del]

text \<open>The same digits of a non-negative integer, in binary arithmetic.\<close>

function int_digits :: "int \<Rightarrow> string" where
  "int_digits n = (if n < 10 then [char_of (48 + n)] else int_digits (n div 10) @ [char_of (48 + n mod 10)])"
  by pat_completeness auto
termination by (relation "measure nat") auto

declare int_digits.simps [simp del]

definition pad_zeros :: "nat \<Rightarrow> string \<Rightarrow> string" where
  "pad_zeros k s = replicate (k - length s) (CHR ''0'') @ s"

definition fmt_fixed :: "nat \<Rightarrow> f64 \<Rightarrow> string" where
  "fmt_fixed d a = (case a of NaN \<Rightarrow> ''NaN'' | Infty s \<Rightarrow> (if s then ''inf'' else ''-inf'')
     | Fin x \<Rightarrow>
        let n = rhe (\<bar>x\<bar> * 10 ^ d);
            frac = (if d = 0 then [] else CHR ''.'' # pad_zeros d (int_digits (n mod 10 ^ d)))
        in (if x < 0 then ''-'' else []) @ int_digits (n div 10 ^ d) @ frac)"

text \<open>
  \<open>Display\<close>: the shortest decimal that reads back as the value (the nearer one of two), without
  exponent.  \<open>shortest\<close> tries one to seventeen significant digits of a positive \<open>x\<close> with leading
  digit at \<open>10 ^ e\<close>; the result is a mantissa with its scale.
\<close>

definition dec_exponent :: "rat \<Rightarrow> int" where
  "dec_exponent x = (if 1 \<le> x then int (length (int_digits \<lfloor>x\<rfloor>)) - 1
     else - int (length (int_digits (\<lceil>1 / x\<rceil> - 1))))"

fun shortest :: "nat \<Rightarrow> rat \<Rightarrow> int \<Rightarrow> int \<times> int" where
  "shortest 0 x s = (\<lfloor>x / 10 powi s\<rfloor>, s)"
| "shortest (Suc n) x s =
     (let lo = \<lfloor>x / 10 powi s\<rfloor>; hi = lo + 1;
          back = (\<lambda>m. rnd (of_int m * 10 powi s) = Fin x)
      in if back lo \<and> (\<not> back hi \<or> x - of_int lo * 10 powi s \<le> of_int hi * 10 powi s - x) then (lo, s)
         else if back hi then (hi, s) else shortest n x (s - 1))"

definition display_f64 :: "f64 \<Rightarrow> string" where
  "display_f64 a = (case a of NaN \<Rightarrow> ''NaN'' | Infty s \<Rightarrow> (if s then ''inf'' else ''-inf'')
     | Fin x \<Rightarrow> if x = 0 then ''0'' else
        let (m, s) = shortest 16 \<bar>x\<bar> (dec_exponent \<bar>x\<bar>); n = m; d = nat (- s);
            body = (if 0 \<le> s then int_digits (n * 10 ^ nat s)
                    else int_digits (n div 10 ^ d) @ CHR ''.'' # pad_zeros d (int_digits (n mod 10 ^ d)))
        in (if x < 0 then ''-'' else []) @ body)"

section \<open>The rounding function\<close>

lemma bitlen_powi:
  assumes "0 < n"
  shows "2 powi (bitlen n - 1) \<le> (of_int n :: rat)" and "of_int n < (2::rat) powi bitlen n"
proof -
  have pos: "0 < bitlen n"
    using assms bitlen_nonneg [of n] by (auto simp: bitlen_eq_zero_iff order_less_le)
  have b: "2 ^ nat (bitlen n - 1) \<le> n" "n < 2 ^ nat (bitlen n)"
    using bitlen_bounds [of n] assms by auto
  have "(of_int (2 ^ nat (bitlen n - 1)) :: rat) \<le> of_int n"
    using b(1) by (simp only: of_int_le_iff)
  then show "2 powi (bitlen n - 1) \<le> (of_int n :: rat)"
    using pos by (simp add: power_int_def)
  have "(of_int n :: rat) < of_int (2 ^ nat (bitlen n))"
    using b(2) by (simp only: of_int_less_iff)
  then show "of_int n < (2::rat) powi bitlen n"
    using pos by (simp add: power_int_def)
qed

lemma ilog2_bounds:
  assumes "0 < x"
  shows "2 powi ilog2 x \<le> x" and "x < 2 powi (ilog2 x + 1)"
proof -
  obtain p q where pq: "quotient_of x = (p, q)" by fastforce
  have q: "0 < q" and x: "x = of_int p / of_int q"
    using quotient_of_denom_pos [OF pq] quotient_of_div [OF pq] by auto
  have p: "0 < p" using assms q by (simp add: x zero_less_divide_iff)
  let ?k = "bitlen p - bitlen q"
  have "x < 2 powi bitlen p / 2 powi (bitlen q - 1)"
    unfolding x using bitlen_powi [OF p] bitlen_powi [OF q] q p
    by (intro frac_less) auto
  then have hi: "x < 2 powi (?k + 1)"
    by (simp flip: power_int_diff add: algebra_simps)
  have "2 powi (bitlen p - 1) / 2 powi bitlen q \<le> x"
    unfolding x using bitlen_powi [OF p] bitlen_powi [OF q] q p
    by (intro frac_le) auto
  then have lo: "2 powi (?k - 1) \<le> x"
    by (simp flip: power_int_diff add: algebra_simps)
  have eq: "ilog2 x = (if 2 powi ?k \<le> x then ?k else ?k - 1)"
    by (simp add: ilog2_def pq Let_def)
  show "2 powi ilog2 x \<le> x" using lo by (simp add: eq)
  show "x < 2 powi (ilog2 x + 1)" using hi by (simp add: eq)
qed

lemma powi_two_mono: "m \<le> n \<Longrightarrow> (2::rat) powi m \<le> 2 powi n"
  by (rule power_int_increasing) auto

lemma powi_two_less_cancel: "(2::rat) powi m < 2 powi n \<Longrightarrow> m < n"
  using powi_two_mono [of n m] by (meson not_le)

lemma ilog2_mono: "0 < x \<Longrightarrow> x \<le> y \<Longrightarrow> ilog2 x \<le> ilog2 y"
  using ilog2_bounds(1) [of x] ilog2_bounds(2) [of y]
    powi_two_less_cancel [of "ilog2 x" "ilog2 y + 1"] by simp

lemma ilog2_eqI: "2 powi k \<le> x \<Longrightarrow> x < 2 powi (k + 1) \<Longrightarrow> ilog2 x = k"
proof -
  assume a: "2 powi k \<le> x" "x < 2 powi (k + 1)"
  have x: "0 < x" using a(1) by (rule less_le_trans [rotated]) simp
  show ?thesis
    using powi_two_less_cancel [of k "ilog2 x + 1"] powi_two_less_cancel [of "ilog2 x" "k + 1"]
      ilog2_bounds [OF x] a by linarith
qed

lemma rhe_bounds: "\<lfloor>x\<rfloor> \<le> rhe x" "rhe x \<le> \<lceil>x\<rceil>"
proof -
  show "\<lfloor>x\<rfloor> \<le> rhe x" by (simp add: rhe_def Let_def)
  show "rhe x \<le> \<lceil>x\<rceil>"
    by (auto simp: rhe_def Let_def) (linarith | (simp add: le_ceiling_iff))+
qed

lemma rhe_of_int [simp]: "rhe (of_int n) = n"
  by (simp add: rhe_def)

lemma rhe_mono: "x \<le> y \<Longrightarrow> rhe x \<le> rhe y"
proof -
  assume xy: "x \<le> y"
  then have f: "\<lfloor>x\<rfloor> \<le> \<lfloor>y\<rfloor>" by (rule floor_mono)
  show ?thesis
  proof (cases "\<lfloor>x\<rfloor> = \<lfloor>y\<rfloor>")
    case True
    then show ?thesis using xy by (auto simp: rhe_def Let_def)
  next
    case False
    with f have "\<lfloor>x\<rfloor> + 1 \<le> \<lfloor>y\<rfloor>" by simp
    moreover have "rhe x \<le> \<lfloor>x\<rfloor> + 1" by (simp add: rhe_def Let_def)
    moreover have "\<lfloor>y\<rfloor> \<le> rhe y" by (rule rhe_bounds)
    ultimately show ?thesis by simp
  qed
qed

lemma rhe_uminus: "rhe (- x) = - rhe x"
proof (cases "x = of_int \<lfloor>x\<rfloor>")
  case True
  then show ?thesis by (metis of_int_minus rhe_of_int)
next
  case False
  then have "\<lfloor>- x\<rfloor> = - \<lfloor>x\<rfloor> - 1"
    by (intro floor_unique) (auto simp: order_less_le, linarith+)
  then show ?thesis by (auto simp: rhe_def Let_def)
qed

lemma gexp_mono: "0 < x \<Longrightarrow> x \<le> y \<Longrightarrow> gexp x \<le> gexp y"
  by (auto simp: gexp_def dest: ilog2_mono)

lemma grid_zero [simp]: "grid 0 = 0"
  by (simp add: grid_def)

lemma grid_uminus: "grid (- x) = - grid x"
  by (simp add: grid_def rhe_uminus flip: minus_divide_left)

lemma rhe_nonneg: "0 \<le> x \<Longrightarrow> 0 \<le> rhe x"
  using rhe_mono [of 0 x] rhe_of_int [of 0] by simp

lemma grid_nonneg: "0 \<le> x \<Longrightarrow> 0 \<le> grid x"
  by (simp add: grid_def rhe_nonneg)

text \<open>A positive number rounds to at most the top of its binade.\<close>

lemma mantissa_le:
  assumes "0 < x"
  shows "rhe (x / 2 powi gexp x) \<le> 2 ^ 53"
proof -
  have "x < 2 powi (ilog2 x + 1)" by (rule ilog2_bounds(2) [OF assms])
  also have "\<dots> \<le> 2 powi (gexp x + 53)" by (rule powi_two_mono) (simp add: gexp_def)
  also have "\<dots> = 2 powi 53 * 2 powi gexp x" by (simp add: power_int_add)
  finally have "x / 2 powi gexp x \<le> of_int (2 ^ 53)" by (simp add: field_simps)
  then show ?thesis using rhe_mono rhe_of_int by metis
qed

lemma grid_le_top:
  assumes "0 < x"
  shows "grid x \<le> 2 powi (gexp x + 53)"
proof -
  have "of_int (rhe (x / 2 powi gexp x)) \<le> (2::rat) ^ 53"
    using mantissa_le [OF assms] by (metis of_int_le_iff of_int_numeral of_int_power)
  with assms show ?thesis by (simp add: grid_def power_int_add)
qed

lemma grid_ge_bottom:
  assumes "0 < x" "-1074 < gexp x"
  shows "2 powi (gexp x + 52) \<le> grid x"
proof -
  have "gexp x + 52 = ilog2 x" using assms(2) by (simp add: gexp_def)
  then have "2 powi (gexp x + 52) \<le> x" using ilog2_bounds(1) [OF assms(1)] by simp
  then have "2 powi 52 \<le> x / 2 powi gexp x" by (simp add: power_int_add field_simps)
  then have "rhe (of_int (2 ^ 52)) \<le> rhe (x / 2 powi gexp x)" by (intro rhe_mono) simp
  then have "(2::rat) ^ 52 \<le> of_int (rhe (x / 2 powi gexp x))"
    unfolding rhe_of_int by (metis of_int_le_iff of_int_numeral of_int_power)
  with assms show ?thesis by (simp add: grid_def power_int_add)
qed

lemma grid_mono_pos:
  assumes "0 < x" "x \<le> y"
  shows "grid x \<le> grid y"
proof (cases "gexp x = gexp y")
  case True
  have "rhe (x / 2 powi gexp y) \<le> rhe (y / 2 powi gexp y)"
    using assms by (intro rhe_mono divide_right_mono) auto
  with assms True show ?thesis by (auto simp: grid_def)
next
  case False
  with gexp_mono [OF assms] have lt: "gexp x < gexp y" by simp
  then have "-1074 < gexp y" by (auto simp: gexp_def)
  then have "2 powi (gexp y + 52) \<le> grid y" using assms by (intro grid_ge_bottom) auto
  moreover have "grid x \<le> 2 powi (gexp x + 53)" using assms(1) by (rule grid_le_top)
  moreover have "(2::rat) powi (gexp x + 53) \<le> 2 powi (gexp y + 52)"
    using lt by (intro powi_two_mono) simp
  ultimately show ?thesis by linarith
qed

lemma grid_mono: "x \<le> y \<Longrightarrow> grid x \<le> grid y"
proof -
  assume xy: "x \<le> y"
  consider "0 < x" | "y < 0" | "x \<le> 0" "0 \<le> y" by linarith
  then show ?thesis
  proof cases
    case 1 then show ?thesis using xy by (rule grid_mono_pos)
  next
    case 2 then show ?thesis using grid_mono_pos [of "- y" "- x"] xy by (simp add: grid_uminus)
  next
    case 3
    then have "0 \<le> grid y" "0 \<le> grid (- x)" by (auto intro: grid_nonneg)
    then show ?thesis by (simp add: grid_uminus)
  qed
qed

text \<open>Numbers with at most 53 significant bits on a grid that is fine enough are fixed points.\<close>

lemma grid_exact:
  assumes "\<bar>m\<bar> \<le> 2 ^ 53" "-1074 \<le> e"
  shows "grid (of_int m * 2 powi e) = of_int m * 2 powi e"
proof -
  have pos: "grid (of_int m * 2 powi e) = of_int m * 2 powi e"
    if m: "0 < m" "m \<le> 2 ^ 53" for m :: int
  proof (cases "m = 2 ^ 53")
    case True
    let ?x = "2 powi (e + 53) :: rat"
    have x: "(of_int m :: rat) * 2 powi e = ?x" by (simp add: True power_int_add)
    have il: "ilog2 ?x = e + 53" by (rule ilog2_eqI) (simp_all add: power_int_add)
    have ge: "gexp ?x = e + 1" using assms(2) by (simp add: gexp_def il)
    have "?x / 2 powi (e + 1) = of_int (2 ^ 52)" by (simp add: power_int_add)
    then have "rhe (?x / 2 powi (e + 1)) = 2 ^ 52" by (simp only: rhe_of_int)
    then have "grid ?x = 2 ^ 52 * 2 powi (e + 1)"
      using ge by (simp add: grid_def del: power_int_mult_distrib_numeral1)
    then show ?thesis unfolding x by (simp add: power_int_add)
  next
    case False
    with m have m2: "m < 2 ^ 53" by simp
    let ?x = "of_int m * 2 powi e :: rat"
    have xpos: "0 < ?x" using m by simp
    have "(of_int m :: rat) < 2 ^ 53" using m2 by (metis of_int_less_iff of_int_numeral of_int_power)
    then have "?x < 2 powi (e + 53)" by (simp add: power_int_add mult.commute)
    with ilog2_bounds(1) [OF xpos] have "ilog2 ?x < e + 53"
      by (meson le_less_trans powi_two_less_cancel)
    then have le: "gexp ?x \<le> e" using assms(2) by (simp add: gexp_def)
    define d where "d = nat (e - gexp ?x)"
    have "?x / 2 powi gexp ?x = of_int m * 2 powi (e - gexp ?x)" by (simp add: power_int_diff)
    also have "\<dots> = of_int (m * 2 ^ d)" using le by (simp add: d_def power_int_def)
    finally have q: "?x / 2 powi gexp ?x = of_int (m * 2 ^ d)" .
    then have "grid ?x = of_int (m * 2 ^ d) * 2 powi gexp ?x"
      using xpos by (simp only: grid_def abs_of_pos rhe_of_int if_False less_irrefl simp_thms) simp
    also have "\<dots> = ?x" unfolding q [symmetric] by simp
    finally show ?thesis .
  qed
  consider "m = 0" | "0 < m" | "0 < - m" by linarith
  then show ?thesis
  proof cases
    case 3
    then show ?thesis using pos [of "- m"] assms(1) by (simp add: grid_uminus)
  qed (use pos [of m] assms(1) in auto)
qed

lemma grid_idem: "grid (grid x) = grid x"
proof -
  have pos: "grid (grid x) = grid x" if "0 < x" for x
  proof -
    have "0 \<le> rhe (x / 2 powi gexp x)" using that by (intro rhe_nonneg) simp
    then have "\<bar>rhe (x / 2 powi gexp x)\<bar> \<le> 2 ^ 53" using mantissa_le [OF that] by simp
    moreover have "-1074 \<le> gexp x" by (simp add: gexp_def)
    ultimately show ?thesis using grid_exact [of "rhe (x / 2 powi gexp x)" "gexp x"] that
      by (simp add: grid_def)
  qed
  consider "x = 0" | "0 < x" | "0 < - x" by linarith
  then show ?thesis using pos [of x] pos [of "- x"] by cases (auto simp: grid_uminus)
qed

lemma overflow_bound_pos: "0 < overflow_bound"
  unfolding overflow_bound_def by (rule zero_less_power_int) simp

lemma overflow_bound_not_le_0 [simp]: "\<not> overflow_bound \<le> 0"
  using overflow_bound_pos by simp

lemma rnd_cases [case_names fin pinf ninf]:
  obtains "rnd x = Fin (grid x)" "\<bar>grid x\<bar> < overflow_bound"
  | "rnd x = Infty True" "overflow_bound \<le> grid x"
  | "rnd x = Infty False" "grid x \<le> - overflow_bound"
proof -
  consider "\<bar>grid x\<bar> < overflow_bound"
    | "overflow_bound \<le> grid x" "0 < grid x" "overflow_bound \<le> \<bar>grid x\<bar>"
    | "grid x \<le> - overflow_bound" "\<not> 0 < grid x" "overflow_bound \<le> \<bar>grid x\<bar>"
    using overflow_bound_pos by linarith
  then show ?thesis
    using that by cases (simp_all add: rnd_def)
qed

lemma rnd_not_NaN [simp]: "rnd x \<noteq> NaN" "NaN \<noteq> rnd x"
  by (cases x rule: rnd_cases; simp)+

lemma rnd_zero [simp]: "rnd 0 = Fin 0"
  by (simp add: rnd_def Let_def)

lemma rnd_exact: "representable x \<Longrightarrow> rnd x = Fin x"
  by (simp add: representable_def rnd_def Let_def)

lemma rnd_mono: "x \<le> y \<Longrightarrow> rnd x \<le> rnd y"
  using grid_mono [of x y] overflow_bound_pos
  by (cases x rule: rnd_cases; cases y rule: rnd_cases) (auto simp: less_eq_f64_def)

lemma rnd_uminus: "rnd (- x) = - rnd x"
  by (cases x rule: rnd_cases)
    (use overflow_bound_pos in \<open>simp_all add: rnd_def grid_uminus uminus_f64_def\<close>)

lemma rnd_representable: "rnd x = Fin y \<Longrightarrow> representable y"
  by (cases x rule: rnd_cases) (auto simp: representable_def grid_idem)

lemma representable_int: "\<bar>n\<bar> \<le> 2 ^ 53 \<Longrightarrow> representable (of_int n)"
proof -
  assume n: "\<bar>n\<bar> \<le> 2 ^ 53"
  have "\<bar>of_int n :: rat\<bar> \<le> 2 ^ 53" using n by (metis of_int_abs of_int_le_iff of_int_numeral of_int_power)
  also have "(2::rat) ^ 53 = 2 powi 53" by simp
  also have "\<dots> < (2::rat) powi 1024" by (rule power_int_strict_increasing) simp_all
  finally have "\<bar>of_int n :: rat\<bar> < overflow_bound" unfolding overflow_bound_def .
  then show ?thesis using grid_exact [of n 0] n by (simp add: representable_def)
qed

section \<open>Facts about the operations\<close>

lemma f64_consts [simp]: "(0 :: f64) \<noteq> NaN" "(1 :: f64) \<noteq> NaN"
  by (simp_all add: zero_f64_def one_f64_def)

text \<open>The operations on finite arguments, as rewrite rules.\<close>

lemma f64_fin_arith [f64_arith]:
  "Fin x + Fin y = rnd (x + y)"
  "Fin x - Fin y = rnd (x - y)"
  "Fin x * Fin y = rnd (x * y)"
  "y \<noteq> 0 \<Longrightarrow> Fin x / Fin y = rnd (x / y)"
  "- Fin x = Fin (- x)"
  "\<bar>Fin x\<bar> = Fin \<bar>x\<bar>"
  "(0::f64) = Fin 0"
  "(1::f64) = Fin 1"
  by (simp_all add: plus_f64_def minus_f64_def times_f64_def divide_f64_def uminus_f64_def
      abs_f64_def zero_f64_def one_f64_def)

lemma f64_fin_order [simp]:
  "Fin x \<le> Fin y \<longleftrightarrow> x \<le> y"
  "Fin x < Fin y \<longleftrightarrow> x < y"
  "0 \<le> Fin x \<longleftrightarrow> 0 \<le> x"
  "0 < Fin x \<longleftrightarrow> 0 < x"
  "Fin x \<le> 0 \<longleftrightarrow> x \<le> 0"
  "Fin x < 0 \<longleftrightarrow> x < 0"
  by (simp_all add: less_eq_f64_def less_f64_def zero_f64_def)

lemma f64_inf_order [simp]:
  "Infty s \<le> Fin y \<longleftrightarrow> \<not> s" "Fin x \<le> Infty t \<longleftrightarrow> t" "Infty s \<le> Infty t \<longleftrightarrow> (s \<longrightarrow> t)"
  "Infty s < Fin y \<longleftrightarrow> \<not> s" "Fin x < Infty t \<longleftrightarrow> t" "Infty s < Infty t \<longleftrightarrow> \<not> s \<and> t"
  "0 \<le> Infty t \<longleftrightarrow> t" "Infty t \<le> 0 \<longleftrightarrow> \<not> t" "0 < Infty t \<longleftrightarrow> t" "Infty t < 0 \<longleftrightarrow> \<not> t"
  by (simp_all add: less_eq_f64_def less_f64_def zero_f64_def)

lemma f64_nan_order [simp]:
  "\<not> NaN \<le> a" "\<not> a \<le> NaN" "\<not> NaN < a" "\<not> a < NaN"
  by (cases a; simp add: less_eq_f64_def less_f64_def)+

lemma f64_inf_bounds [simp]: "Infty False \<le> a \<longleftrightarrow> a \<noteq> NaN" "a \<le> Infty True \<longleftrightarrow> a \<noteq> NaN"
  by (cases a; simp)+

lemma is_finite_iff: "is_finite a \<longleftrightarrow> (\<exists>x. a = Fin x)"
  by (cases a) auto

lemma is_finite_zero [simp]: "is_finite 0" "is_finite 1"
  by (simp_all add: zero_f64_def one_f64_def)

lemma is_nan_iff [simp]: "is_nan a \<longleftrightarrow> a = NaN"
  by (cases a) auto

lemma fle_trans: "(a::f64) \<le> b \<Longrightarrow> b \<le> c \<Longrightarrow> a \<le> c"
  by (cases a; cases b; cases c) auto

lemma flt_le_trans: "(a::f64) < b \<Longrightarrow> b \<le> c \<Longrightarrow> a < c"
  by (cases a; cases b; cases c) auto

lemma fle_lt_trans: "(a::f64) \<le> b \<Longrightarrow> b < c \<Longrightarrow> a < c"
  by (cases a; cases b; cases c) auto

lemma fle_refl: "a \<noteq> NaN \<Longrightarrow> (a::f64) \<le> a"
  by (cases a) auto

lemma fle_antisym: "(a::f64) \<le> b \<Longrightarrow> b \<le> a \<Longrightarrow> a = b"
  by (cases a; cases b) auto

lemma flt_imp_le: "(a::f64) < b \<Longrightarrow> a \<le> b"
  by (cases a; cases b) auto

lemma fle_linear: "a \<noteq> NaN \<Longrightarrow> b \<noteq> NaN \<Longrightarrow> (a::f64) \<le> b \<or> b \<le> a"
  by (cases a; cases b) auto

lemma not_fle_iff: "a \<noteq> NaN \<Longrightarrow> b \<noteq> NaN \<Longrightarrow> \<not> (a::f64) \<le> b \<longleftrightarrow> b < a"
  by (cases a; cases b) auto

lemma not_flt_iff: "a \<noteq> NaN \<Longrightarrow> b \<noteq> NaN \<Longrightarrow> \<not> (a::f64) < b \<longleftrightarrow> b \<le> a"
  by (cases a; cases b) auto

lemma flt_irrefl [simp]: "\<not> (a::f64) < a"
  by (cases a) auto

text \<open>\<open>max\<close> and \<open>min\<close>.\<close>

lemma fmax_ge: "b \<noteq> NaN \<Longrightarrow> b \<le> fmax a b" "a \<noteq> NaN \<Longrightarrow> a \<le> fmax a b"
  by (auto simp: fmax_def fle_refl dest: fle_linear)

lemma fmin_le: "b \<noteq> NaN \<Longrightarrow> fmin a b \<le> b" "a \<noteq> NaN \<Longrightarrow> fmin a b \<le> a"
  by (auto simp: fmin_def fle_refl dest: fle_linear)

lemma fmax_least: "a \<le> c \<Longrightarrow> b \<le> c \<Longrightarrow> fmax a b \<le> c"
  by (simp add: fmax_def)

lemma fmin_greatest: "c \<le> a \<Longrightarrow> c \<le> b \<Longrightarrow> c \<le> fmin a b"
  by (simp add: fmin_def)

lemma fmax_zero_nonneg [simp]: "0 \<le> fmax a 0"
  by (rule fmax_ge(1)) simp

lemma fmax_cases: "fmax a b = a \<or> fmax a b = b"
  by (simp add: fmax_def)

lemma fmin_cases: "fmin a b = a \<or> fmin a b = b"
  by (simp add: fmin_def)

lemma fmax_not_NaN: "b \<noteq> NaN \<Longrightarrow> fmax a b \<noteq> NaN"
  by (simp add: fmax_def)

text \<open>Signs and monotonicity of the arithmetic.\<close>

lemma rnd_nonneg: "0 \<le> x \<Longrightarrow> 0 \<le> rnd x"
  using rnd_mono [of 0 x] by (simp add: zero_f64_def)

lemma rnd_nonpos: "x \<le> 0 \<Longrightarrow> rnd x \<le> 0"
  using rnd_mono [of x 0] by (simp add: zero_f64_def)

lemma fadd_nonneg: "(0::f64) \<le> a \<Longrightarrow> 0 \<le> b \<Longrightarrow> 0 \<le> a + b"
  by (cases a; cases b) (auto simp: f64_fin_arith(1) rnd_nonneg plus_f64_def)

lemma fmult_nonneg:
  "is_finite a \<Longrightarrow> is_finite b \<Longrightarrow> 0 \<le> a \<Longrightarrow> 0 \<le> b \<Longrightarrow> (0::f64) \<le> a * b"
  by (cases a; cases b) (auto simp: f64_fin_arith(3) rnd_nonneg)

lemma fabs_nonneg: "a \<noteq> NaN \<Longrightarrow> (0::f64) \<le> \<bar>a\<bar>"
  by (cases a) (auto simp: abs_f64_def)

lemma is_finite_abs [simp]: "is_finite \<bar>a\<bar> = is_finite a"
  by (cases a) (auto simp: abs_f64_def)

lemma fsub_nonneg: "is_finite a \<Longrightarrow> b \<le> a \<Longrightarrow> (0::f64) \<le> a - b"
  by (cases a; cases b) (auto simp: f64_fin_arith(2) rnd_nonneg minus_f64_def)

lemma fsub_nonpos: "is_finite a \<Longrightarrow> a \<le> b \<Longrightarrow> a - b \<le> (0::f64)"
  by (cases a; cases b) (auto simp: f64_fin_arith(2) rnd_nonpos minus_f64_def)

lemma fadd_mono_left: "a \<le> b \<Longrightarrow> is_finite c \<Longrightarrow> (a::f64) + c \<le> b + c"
  by (cases a; cases b; cases c) (auto simp: f64_fin_arith(1) rnd_mono plus_f64_def)

text \<open>Multiplying by a fraction at most one does not grow a non-negative number.\<close>

lemma fmult_le_self:
  assumes "representable x" "0 \<le> x" "r \<le> 1" "0 \<le> r"
  shows "Fin x * Fin r \<le> Fin x"
proof -
  have "x * r \<le> x" using assms by (simp add: mult_left_le)
  then have "rnd (x * r) \<le> rnd x" by (rule rnd_mono)
  then show ?thesis by (simp add: f64_fin_arith rnd_exact assms(1))
qed

lemma rnd_le_one: "x \<le> 1 \<Longrightarrow> rnd x \<le> Fin 1"
  using rnd_mono [of x 1] rnd_exact [OF representable_int [of 1]] by simp

text \<open>Integers up to \<open>2\<^sup>5\<^sup>3\<close> add and multiply exactly.\<close>

lemma rnd_int [simp]: "\<bar>n\<bar> \<le> 2 ^ 53 \<Longrightarrow> rnd (of_int n) = Fin (of_int n)"
  by (rule rnd_exact [OF representable_int])

lemma fint_arith:
  "\<bar>m + n\<bar> \<le> 2 ^ 53 \<Longrightarrow> Fin (of_int m) + Fin (of_int n) = Fin (of_int (m + n))"
  "\<bar>m - n\<bar> \<le> 2 ^ 53 \<Longrightarrow> Fin (of_int m) - Fin (of_int n) = Fin (of_int (m - n))"
  "\<bar>m * n\<bar> \<le> 2 ^ 53 \<Longrightarrow> Fin (of_int m) * Fin (of_int n) = Fin (of_int (m * n))"
  using rnd_int [of "m + n"] rnd_int [of "m - n"] rnd_int [of "m * n"]
  by (simp_all add: f64_fin_arith)

lemma lit_int: "\<bar>n\<bar> \<le> 2 ^ 53 \<Longrightarrow> lit (of_int n) = Fin (of_int n)"
  by (simp add: lit_def)

lemma EPSILON_pos [simp]: "0 < EPSILON"
  by (simp add: EPSILON_def)

section \<open>Evaluating roundings\<close>

lemma ilog2_unique:
  assumes "0 < x" "2 powi e \<le> x" "x < 2 powi (e + 1)"
  shows "ilog2 x = e"
proof (rule ccontr)
  assume "ilog2 x \<noteq> e"
  then consider "ilog2 x + 1 \<le> e" | "e + 1 \<le> ilog2 x" by linarith
  then show False
  proof cases
    case 1
    then have "(2::rat) powi (ilog2 x + 1) \<le> 2 powi e" by (intro power_int_increasing) auto
    then show False using ilog2_bounds(2) [OF assms(1)] assms(2) by simp
  next
    case 2
    then have "(2::rat) powi (e + 1) \<le> 2 powi ilog2 x" by (intro power_int_increasing) auto
    then show False using ilog2_bounds(1) [OF assms(1)] assms(3) by simp
  qed
qed

lemma rhe_eqI:
  assumes "of_int m - 1 / 2 \<le> x" "x \<le> of_int m + 1 / 2"
    "even m \<or> of_int m - 1 / 2 < x \<and> x < of_int m + 1 / 2"
  shows "rhe x = m"
proof (cases "of_int m \<le> x")
  case True
  then have "\<lfloor>x\<rfloor> = m" using assms(2) by (intro floor_unique) auto
  then show ?thesis using assms True by (auto simp: rhe_def Let_def)
next
  case False
  then have "\<lfloor>x\<rfloor> = m - 1" using assms(1) by (intro floor_unique) auto
  then show ?thesis using assms False by (auto simp: rhe_def Let_def)
qed

text \<open>A rounding at a known exponent: \<open>n\<close> is the number of binary digits after the point.\<close>

lemma rnd_at:
  assumes "2 ^ 52 \<le> x * 2 ^ n" "x * 2 ^ n < 2 ^ 53" "n \<le> 1000"
    and "of_int m - 1 / 2 \<le> x * 2 ^ n" "x * 2 ^ n \<le> of_int m + 1 / 2"
      "even m \<or> of_int m - 1 / 2 < x * 2 ^ n \<and> x * 2 ^ n < of_int m + 1 / 2" "of_int m / 2 ^ n = y"
  shows "rnd x = Fin y"
proof -
  have two: "(2::rat) powi (- int n) = 1 / 2 ^ n" by (simp add: power_int_minus field_simps)
  have "0 < x * 2 ^ n" using assms(1) by (rule less_le_trans [rotated]) simp
  then have x: "0 < x" by (simp add: zero_less_mult_iff)
  have "ilog2 x = 52 - int n"
  proof (rule ilog2_unique [OF x])
    show "2 powi (52 - int n) \<le> x" using assms(1) by (simp add: power_int_diff field_simps)
    show "x < 2 powi (52 - int n + 1)" using assms(2) by (simp add: power_int_diff power_int_add field_simps)
  qed
  then have "gexp \<bar>x\<bar> = - int n" using x assms(3) by (simp add: gexp_def)
  then have g: "grid x = y" using x rhe_eqI [OF assms(4-6)] assms(7) by (simp add: grid_def two)
  have "x \<le> x * 2 ^ n" using x mult_left_mono [of 1 "2 ^ n" x] by simp
  then have "x \<le> of_int (2 ^ 53)" using assms(2) by simp
  then have "grid x \<le> of_int (2 ^ 53)"
    using grid_mono [of x "of_int (2 ^ 53)"] representable_int [of "2 ^ 53"] by (simp add: representable_def)
  moreover have "of_int (2 ^ 53) < overflow_bound" using representable_int [of "2 ^ 53"] by (simp add: representable_def)
  moreover have "0 \<le> grid x" using x by (intro grid_nonneg) simp
  ultimately have "\<bar>y\<bar> < overflow_bound" using g by linarith
  then show ?thesis using g by (simp add: rnd_def)
qed

lemma fround_int: "fround (Fin (of_int m)) = Fin (of_int m)"
proof -
  have "\<lfloor>rat_of_int m + 1 / 2\<rfloor> = m" "\<lfloor>1 / 2 - rat_of_int m\<rfloor> = - m"
    by (rule floor_unique; simp)+
  then show ?thesis by (simp add: round_away_def)
qed

end
