(* ===== verification/ExecutionFill.thy ===== *)
theory ExecutionFill
  imports F64
begin

text \<open>
  The broker execution facts of the sync protocol (\<open>live-sync-protocol/src/execution_fill.rs\<close>
  and \<open>position_accounting.rs\<close>): fills, their cash, invalidations and the accounting of a
  closed position, with their validation functions.  The lemmas say what an accepted fact
  guarantees to the ledgers that store it.
\<close>

section \<open>Strings\<close>

text \<open>
  A Rust \<open>String\<close> is a list of ASCII characters, so that \<open>length\<close> is \<open>len()\<close>; strings with
  other characters are outside the model.  \<open>trim\<close> strips white space at both ends and
  \<open>char::is_control\<close> holds below 32 and for 127.
\<close>

definition is_space :: "char \<Rightarrow> bool" where
  "is_space c \<longleftrightarrow> (let n = of_char c :: nat in n = 32 \<or> (9 \<le> n \<and> n \<le> 13))"

definition trim :: "string \<Rightarrow> string" where
  "trim s = rev (dropWhile is_space (rev (dropWhile is_space s)))"

definition is_control :: "char \<Rightarrow> bool" where
  "is_control c \<longleftrightarrow> (let n = of_char c :: nat in n < 32 \<or> n = 127)"

definition identity :: "string \<Rightarrow> nat \<Rightarrow> bool" where
  "identity value mx \<longleftrightarrow> trim value \<noteq> [] \<and> length value \<le> mx \<and> \<not> list_ex is_control value"

section \<open>Fills\<close>

definition EXECUTION_FILL_VERSION :: nat where
  "EXECUTION_FILL_VERSION = 1"

datatype ExecutionFillSide = FillBuy | FillSell

datatype ExecutionFillEffect = Entry | Exit | Reversal | UnknownEffect

record ExecutionFillCash =
  cash_currency :: string
  cash_gross_pnl :: "f64 option"
  cash_commission :: "f64 option"
  cash_carry :: "f64 option"

definition cash_net :: "ExecutionFillCash \<Rightarrow> f64 option" where
  "cash_net c = (case (cash_gross_pnl c, cash_commission c, cash_carry c) of
       (Some g, Some k, Some s) \<Rightarrow> (let net = g - k + s in if is_finite net then Some net else None)
     | _ \<Rightarrow> None)"

definition opt_finite :: "f64 option \<Rightarrow> bool" where
  "opt_finite a = (case a of None \<Rightarrow> True | Some x \<Rightarrow> is_finite x)"

definition cash_validate :: "ExecutionFillCash \<Rightarrow> string + unit" where
  "cash_validate c =
     (if \<not> identity (cash_currency c) 32
         \<or> \<not> (opt_finite (cash_gross_pnl c) \<and> opt_finite (cash_commission c) \<and> opt_finite (cash_carry c))
         \<or> (cash_gross_pnl c \<noteq> None \<and> cash_commission c \<noteq> None \<and> cash_carry c \<noteq> None
             \<and> cash_net c = None)
      then Inl ''invalid execution fill cash values'' else Inr ())"

record ExecutionFill =
  fill_version :: nat
  fill_provider :: string
  fill_fill_id :: string
  fill_order_id :: string
  fill_position_id :: "string option"
  fill_symbol :: string
  fill_side :: ExecutionFillSide
  fill_effect :: ExecutionFillEffect
  fill_quantity :: f64
  fill_price :: f64
  fill_occurred_at_us :: int
  fill_as_of_us :: int
  fill_cash :: "ExecutionFillCash option"
  fill_account_notional :: "f64 option"

definition opt_identity :: "string option \<Rightarrow> nat \<Rightarrow> bool" where
  "opt_identity a n = (case a of None \<Rightarrow> True | Some s \<Rightarrow> identity s n)"

definition fill_validate :: "ExecutionFill \<Rightarrow> string + unit" where
  "fill_validate f =
     (if fill_version f \<noteq> EXECUTION_FILL_VERSION then Inl ''unsupported execution fill version''
      else if \<not> (identity (fill_provider f) 128 \<and> identity (fill_fill_id f) 128 \<and> identity (fill_order_id f) 128)
           \<or> \<not> identity (fill_symbol f) 256
           \<or> \<not> opt_identity (fill_position_id f) 128
      then Inl ''invalid execution fill identity''
      else if fill_occurred_at_us f \<le> 0 \<or> fill_as_of_us f < fill_occurred_at_us f
      then Inl ''invalid execution fill chronology''
      else if \<not> is_finite (fill_quantity f) \<or> fill_quantity f \<le> 0 \<or> \<not> is_finite (fill_price f)
           \<or> (case fill_account_notional f of None \<Rightarrow> False | Some n \<Rightarrow> \<not> is_finite n \<or> n < 0)
      then Inl ''invalid execution fill quantity/price/notional''
      else (case fill_cash f of
              Some c \<Rightarrow> cash_validate c
            | None \<Rightarrow> if fill_account_notional f \<noteq> None
                     then Inl ''execution fill notional requires a declared currency''
                     else Inr ()))"

text \<open>The derived \<open>PartialEq\<close> compares floats with \<open>==\<close>, so that NaN differs from itself.\<close>

definition cash_eq :: "ExecutionFillCash \<Rightarrow> ExecutionFillCash \<Rightarrow> bool" where
  "cash_eq a b \<longleftrightarrow> cash_currency a = cash_currency b
     \<and> feq_opt (cash_gross_pnl a) (cash_gross_pnl b)
     \<and> feq_opt (cash_commission a) (cash_commission b)
     \<and> feq_opt (cash_carry a) (cash_carry b)"

definition fill_eq :: "ExecutionFill \<Rightarrow> ExecutionFill \<Rightarrow> bool" where
  "fill_eq a b \<longleftrightarrow> fill_version a = fill_version b \<and> fill_provider a = fill_provider b
     \<and> fill_fill_id a = fill_fill_id b \<and> fill_order_id a = fill_order_id b
     \<and> fill_position_id a = fill_position_id b \<and> fill_symbol a = fill_symbol b
     \<and> fill_side a = fill_side b \<and> fill_effect a = fill_effect b
     \<and> feq (fill_quantity a) (fill_quantity b) \<and> feq (fill_price a) (fill_price b)
     \<and> fill_occurred_at_us a = fill_occurred_at_us b \<and> fill_as_of_us a = fill_as_of_us b
     \<and> (case (fill_cash a, fill_cash b) of (None, None) \<Rightarrow> True | (Some c, Some d) \<Rightarrow> cash_eq c d | _ \<Rightarrow> False)
     \<and> feq_opt (fill_account_notional a) (fill_account_notional b)"

definition same_facts :: "ExecutionFill \<Rightarrow> ExecutionFill \<Rightarrow> bool" where
  "same_facts f g = fill_eq f (g\<lparr>fill_as_of_us := fill_as_of_us f\<rparr>)"

record ExecutionFillInput =
  input_insight_id :: "string option"
  input_fill :: ExecutionFill

definition input_validate :: "ExecutionFillInput \<Rightarrow> string + unit" where
  "input_validate i = (case fill_validate (input_fill i) of
       Inl e \<Rightarrow> Inl e
     | Inr _ \<Rightarrow> if \<not> opt_identity (input_insight_id i) 128 then Inl ''invalid execution fill owner'' else Inr ())"

datatype ExecutionFillInvalidationReason = BrokerCancelled | BrokerDeleted

record ExecutionFillInvalidation =
  inv_provider :: string
  inv_fill_id :: string
  inv_order_id :: string
  inv_position_id :: "string option"
  inv_symbol :: string
  inv_side :: ExecutionFillSide
  inv_effect :: ExecutionFillEffect
  inv_occurred_at_us :: int
  inv_as_of_us :: int
  inv_reason :: ExecutionFillInvalidationReason

definition invalidation_validate :: "ExecutionFillInvalidation \<Rightarrow> string + unit" where
  "invalidation_validate v =
     (if \<not> (identity (inv_provider v) 128 \<and> identity (inv_fill_id v) 128 \<and> identity (inv_order_id v) 128)
         \<or> \<not> identity (inv_symbol v) 256 \<or> \<not> opt_identity (inv_position_id v) 128
         \<or> inv_occurred_at_us v \<le> 0 \<or> inv_as_of_us v < inv_occurred_at_us v
      then Inl ''invalid execution fill invalidation'' else Inr ())"

definition invalidation_matches :: "ExecutionFillInvalidation \<Rightarrow> ExecutionFill \<Rightarrow> bool" where
  "invalidation_matches v f \<longleftrightarrow> inv_provider v = fill_provider f \<and> inv_fill_id v = fill_fill_id f
     \<and> inv_order_id v = fill_order_id f \<and> inv_position_id v = fill_position_id f
     \<and> inv_symbol v = fill_symbol f \<and> inv_side v = fill_side f \<and> inv_effect v = fill_effect f"

record ExecutionFillRecord =
  rec_sequence :: nat
  rec_execution_epoch :: nat
  rec_recorded_at_us :: int
  rec_observation :: ExecutionFillInput
  rec_invalidation :: "ExecutionFillInvalidation option"

definition record_as_of_us :: "ExecutionFillRecord \<Rightarrow> int" where
  "record_as_of_us r = (case rec_invalidation r of
       None \<Rightarrow> fill_as_of_us (input_fill (rec_observation r)) | Some v \<Rightarrow> inv_as_of_us v)"

definition record_validate :: "ExecutionFillRecord \<Rightarrow> string + unit" where
  "record_validate r = (case input_validate (rec_observation r) of
       Inl e \<Rightarrow> Inl e
     | Inr _ \<Rightarrow> (case rec_invalidation r of
           None \<Rightarrow> Inr ()
         | Some v \<Rightarrow> (case invalidation_validate v of
               Inl e \<Rightarrow> Inl e
             | Inr _ \<Rightarrow>
                 if \<not> invalidation_matches v (input_fill (rec_observation r))
                    \<or> inv_as_of_us v \<le> fill_as_of_us (input_fill (rec_observation r))
                 then Inl ''invalidation does not supersede its original fill'' else Inr ())))"

section \<open>Accounting of a closed position\<close>

record PositionCloseAccounting =
  pca_version :: nat
  pca_provider :: string
  pca_position_id :: string
  pca_entry_order_id :: string
  pca_currency :: string
  pca_opened_at_us :: int
  pca_closed_at_us :: int
  pca_as_of_us :: int
  pca_net_pnl :: f64
  pca_commission :: f64
  pca_swap :: f64

definition POSITION_CLOSE_ACCOUNTING_VERSION :: nat where
  "POSITION_CLOSE_ACCOUNTING_VERSION = 1"

definition gross_from_net :: "f64 \<Rightarrow> f64 \<Rightarrow> f64 \<Rightarrow> f64 option" where
  "gross_from_net net commission swap =
     (let gross = net + commission - swap
      in if is_finite net \<and> is_finite commission \<and> is_finite swap \<and> is_finite gross
         then Some gross else None)"

definition blank_or_long :: "string \<Rightarrow> nat \<Rightarrow> bool" where
  "blank_or_long s n \<longleftrightarrow> trim s = [] \<or> n < length s"

definition pca_validate :: "PositionCloseAccounting \<Rightarrow> string + unit" where
  "pca_validate a =
     (if pca_version a \<noteq> POSITION_CLOSE_ACCOUNTING_VERSION then Inl ''unsupported position accounting version''
      else if blank_or_long (pca_provider a) 128 \<or> blank_or_long (pca_position_id a) 128
           \<or> blank_or_long (pca_entry_order_id a) 128 \<or> blank_or_long (pca_currency a) 32
      then Inl ''invalid position accounting identity/currency''
      else if pca_opened_at_us a \<le> 0 \<or> pca_closed_at_us a < pca_opened_at_us a
           \<or> pca_as_of_us a < pca_closed_at_us a
      then Inl ''invalid position accounting chronology''
      else if gross_from_net (pca_net_pnl a) (pca_commission a) (pca_swap a) = None
      then Inl ''invalid position accounting values''
      else Inr ())"

definition owns_order :: "PositionCloseAccounting \<Rightarrow> string \<Rightarrow> bool" where
  "owns_order a oid \<longleftrightarrow> pca_entry_order_id a = oid \<or> pca_position_id a = oid"

section \<open>What validation guarantees\<close>

lemma fill_validate_ok:
  assumes "fill_validate f = Inr ()"
  shows "\<exists>q. fill_quantity f = Fin q \<and> 0 < q" and "is_finite (fill_price f)"
    and "0 < fill_occurred_at_us f" and "fill_occurred_at_us f \<le> fill_as_of_us f"
    and "fill_account_notional f \<noteq> None \<Longrightarrow> fill_cash f \<noteq> None"
    and "fill_cash f = Some c \<Longrightarrow> cash_validate c = Inr ()"
  using assms
  by (auto simp: fill_validate_def is_finite_iff split: if_splits option.splits)

lemma cash_validate_net:
  assumes "cash_validate c = Inr ()" "cash_gross_pnl c = Some g" "cash_commission c = Some k"
    "cash_carry c = Some s"
  shows "cash_net c = Some (g - k + s)" and "is_finite (g - k + s)"
  using assms by (auto simp: cash_validate_def cash_net_def Let_def split: if_splits)

lemma pca_validate_values:
  assumes "pca_validate a = Inr ()"
  shows "is_finite (pca_net_pnl a)" "is_finite (pca_commission a)" "is_finite (pca_swap a)"
    and "pca_opened_at_us a \<le> pca_closed_at_us a" "pca_closed_at_us a \<le> pca_as_of_us a"
  using assms by (auto simp: pca_validate_def gross_from_net_def Let_def split: if_splits)

lemma feq_refl: "a \<noteq> NaN \<Longrightarrow> feq a a"
  by (simp add: feq_def)

lemma feq_opt_refl: "opt_finite a \<Longrightarrow> feq_opt a a"
  by (cases a) (auto simp: opt_finite_def feq_def is_finite_iff)

end
