(* ===== verification/BrokerTypes.thy ===== *)
theory BrokerTypes
  imports ExecutionFill
begin

text \<open>
  The broker-neutral data of \<open>src/core/broker/types/mod.rs\<close> and the immutable order request of
  \<open>src/core/broker/commands.rs\<close>: accounts, assets with their fee schedules, orders with bracket
  legs, positions, trade records and events.  The operations are the fee and swap calculations;
  their lemmas give the sign and range facts that the paper broker's accounting rests on.
\<close>

section \<open>Time\<close>

text \<open>
  A \<open>DateTime<Utc>\<close> is its number of nanoseconds since the epoch; \<open>timestamp()\<close> and
  \<open>timestamp_micros()\<close> round down, and the cast \<open>as u64\<close> wraps.
\<close>

type_synonym datetime = int

definition timestamp :: "datetime \<Rightarrow> int" where
  "timestamp t = t div 1000000000"

definition timestamp_micros :: "datetime \<Rightarrow> int" where
  "timestamp_micros t = t div 1000"

definition timestamp_u64 :: "datetime \<Rightarrow> nat" where
  "timestamp_u64 t = nat (timestamp t mod 2 ^ 64)"

section \<open>Fee schedules\<close>

datatype OrderSide = Buy | Sell

definition opposite :: "OrderSide \<Rightarrow> OrderSide" where
  "opposite s = (case s of Buy \<Rightarrow> Sell | Sell \<Rightarrow> Buy)"

datatype AssetFee =
    NoFee
  | Points f64
  | PercentageFee f64
  | FixedFee f64
  | PerContractFee f64
  | PercentagePerContractFee f64

text \<open>The contract size as the fee formulas use it: absent counts as one, and never below one.\<close>

definition contract_factor :: "int option \<Rightarrow> f64" where
  "contract_factor c = of_integer_f64 (max (unwrap_or c 1) 1)"

definition unit_rate :: "f64 \<Rightarrow> bool" where
  "unit_rate r \<longleftrightarrow> is_finite r \<and> 0 < r \<and> r < 1"

definition calculate_with_contract :: "AssetFee \<Rightarrow> f64 \<Rightarrow> f64 \<Rightarrow> int option \<Rightarrow> f64" where
  "calculate_with_contract fee price quantity contract_size =
     (if \<not> is_finite price \<or> \<not> is_finite quantity then 0
      else let quantity = \<bar>quantity\<bar>; cs = contract_factor contract_size
           in case fee of
                NoFee \<Rightarrow> 0
              | Points _ \<Rightarrow> 0
              | PercentageFee rate \<Rightarrow> if unit_rate rate then \<bar>price\<bar> * quantity * rate else 0
              | FixedFee v \<Rightarrow> if is_finite v \<and> 0 < v then v else 0
              | PerContractFee v \<Rightarrow> if is_finite v \<and> 0 < v then v * quantity else 0
              | PercentagePerContractFee rate \<Rightarrow>
                  if unit_rate rate then \<bar>price\<bar> * cs * quantity * rate else 0)"

definition calculate :: "AssetFee \<Rightarrow> f64 \<Rightarrow> f64 \<Rightarrow> f64" where
  "calculate fee price quantity = calculate_with_contract fee price quantity None"

definition calculate_swap ::
  "AssetFee \<Rightarrow> f64 \<Rightarrow> f64 \<Rightarrow> int option \<Rightarrow> f64 option \<Rightarrow> f64 \<Rightarrow> f64" where
  "calculate_swap fee price quantity contract_size point days =
     (if \<not> is_finite price \<or> \<not> is_finite quantity \<or> \<not> is_finite days \<or> days \<le> 0 then 0
      else let quantity = \<bar>quantity\<bar>; cs = contract_factor contract_size
           in case fee of
                NoFee \<Rightarrow> 0
              | Points points \<Rightarrow>
                  if is_finite points
                  then let p = (case point of None \<Rightarrow> 0
                                | Some v \<Rightarrow> if is_finite v \<and> 0 < v then v else 0)
                       in points * p * cs * quantity * days
                  else 0
              | PercentageFee rate \<Rightarrow> if is_finite rate then \<bar>price\<bar> * quantity * rate * days else 0
              | FixedFee v \<Rightarrow> if is_finite v then v * days else 0
              | PerContractFee v \<Rightarrow> if is_finite v then v * quantity * days else 0
              | PercentagePerContractFee rate \<Rightarrow>
                  if is_finite rate then \<bar>price\<bar> * cs * quantity * rate * days else 0)"

record AssetSideFees =
  asf_long :: AssetFee
  asf_short :: AssetFee

definition asf_for_side :: "AssetSideFees \<Rightarrow> OrderSide \<Rightarrow> AssetFee" where
  "asf_for_side f side = (case side of Buy \<Rightarrow> asf_long f | Sell \<Rightarrow> asf_short f)"

record AssetCommissionFees =
  acf_entry :: AssetSideFees
  acf_exit :: AssetSideFees

record AssetSwapFees =
  swf_long :: AssetFee
  swf_short :: AssetFee

definition swf_for_side :: "AssetSwapFees \<Rightarrow> OrderSide \<Rightarrow> AssetFee" where
  "swf_for_side f side = (case side of Buy \<Rightarrow> swf_long f | Sell \<Rightarrow> swf_short f)"

record AssetFees =
  af_commission :: AssetCommissionFees
  af_swap :: AssetSwapFees
  af_entry :: AssetFee
  af_exit :: AssetFee

definition default_fees :: AssetFees where
  "default_fees = \<lparr>
     af_commission = \<lparr>acf_entry = \<lparr>asf_long = NoFee, asf_short = NoFee\<rparr>,
                      acf_exit = \<lparr>asf_long = NoFee, asf_short = NoFee\<rparr>\<rparr>,
     af_swap = \<lparr>swf_long = NoFee, swf_short = NoFee\<rparr>,
     af_entry = NoFee, af_exit = NoFee\<rparr>"

definition entry_commission :: "AssetFees \<Rightarrow> f64 \<Rightarrow> f64 \<Rightarrow> int option \<Rightarrow> f64" where
  "entry_commission f price quantity cs = calculate_with_contract (af_entry f) price quantity cs"

definition exit_commission :: "AssetFees \<Rightarrow> f64 \<Rightarrow> f64 \<Rightarrow> int option \<Rightarrow> f64" where
  "exit_commission f price quantity cs = calculate_with_contract (af_exit f) price quantity cs"

text \<open>
  The side fee decides; only when neither side has one does the legacy schedule apply.
  (\<open>PartialEq\<close> on \<open>AssetFee\<close> is used against \<open>None\<close> alone.)
\<close>

definition entry_commission_for_side ::
  "AssetFees \<Rightarrow> OrderSide \<Rightarrow> f64 \<Rightarrow> f64 \<Rightarrow> int option \<Rightarrow> f64" where
  "entry_commission_for_side f side price quantity cs =
     (let fees = acf_entry (af_commission f); side_fee = asf_for_side fees side
      in if side_fee = NoFee \<and> asf_long fees = NoFee \<and> asf_short fees = NoFee
         then entry_commission f price quantity cs
         else calculate_with_contract side_fee price quantity cs)"

definition exit_commission_for_side ::
  "AssetFees \<Rightarrow> OrderSide \<Rightarrow> f64 \<Rightarrow> f64 \<Rightarrow> int option \<Rightarrow> f64" where
  "exit_commission_for_side f side price quantity cs =
     (let fees = acf_exit (af_commission f); side_fee = asf_for_side fees side
      in if side_fee = NoFee \<and> asf_long fees = NoFee \<and> asf_short fees = NoFee
         then exit_commission f price quantity cs
         else calculate_with_contract side_fee price quantity cs)"

definition swap_for_side ::
  "AssetFees \<Rightarrow> OrderSide \<Rightarrow> f64 \<Rightarrow> f64 \<Rightarrow> int option \<Rightarrow> f64 option \<Rightarrow> f64 \<Rightarrow> f64" where
  "swap_for_side f side price quantity cs point days =
     calculate_swap (swf_for_side (af_swap f) side) price quantity cs point days"

section \<open>Accounts, assets, positions\<close>

datatype AccountType = Paper | Live

record Account =
  acc_account_id :: string
  acc_account_type :: AccountType
  acc_equity :: f64
  acc_cash :: f64
  acc_currency :: string
  acc_buying_power :: f64
  acc_accrued_commission :: f64
  acc_shorting_enabled :: bool
  acc_leverage :: nat
  acc_max_total_orders :: "nat option"

datatype AssetType = Stock | Crypto | Forex | Commodity | Index | ETF | MutualFund | UnknownType string
datatype AssetStatus = Active | Inactive
datatype AssetExchange = NYSE | NASDAQ | AMEX | CME | CBOE | ICE | LSE | SSE | BSE | TSE | UnknownExchange string

record Asset =
  as_id :: string
  as_symbol :: string
  as_name :: string
  as_asset_type :: AssetType
  as_status :: AssetStatus
  as_exchange :: AssetExchange
  as_tradable :: bool
  as_marginable :: bool
  as_shortable :: bool
  as_fractional :: bool
  as_min_order_size :: "f64 option"
  as_quantity_base :: "int option"
  as_max_order_size :: "f64 option"
  as_max_total_size :: "f64 option"
  as_min_price_increment :: "f64 option"
  as_price_base :: "int option"
  as_contract_size :: "int option"
  as_trading_calendar :: "string option"
  as_fees :: AssetFees

record Position =
  pos_account_id :: string
  pos_order_id :: "string option"
  pos_asset :: Asset
  pos_avg_entry_price :: f64
  pos_qty :: f64
  pos_side :: OrderSide
  pos_market_value :: f64
  pos_cost_basis :: f64
  pos_current_price :: f64
  pos_unrealized_pnl :: f64
  pos_realized_pnl :: f64
  pos_entry_commission :: f64
  pos_margin_required :: "f64 option"

section \<open>Orders\<close>

datatype OrderType = Market | Limit | Stop | StopLimit | TrailingStop
datatype TimeInForce = Day | GTC | OPG | IOC | FOK
datatype OrderClass = Simple | Bracket | OCO | OTO | TRO

datatype TradeUpdateEvent =
    Accepted | New | PendingNew | Pending | PartialFilled | Filled
  | Cancelled | Rejected | Expired | Closed | Replaced

record OrderLeg =
  leg_order_id :: "string option"
  leg_limit_price :: "f64 option"
  leg_trail_price :: "f64 option"
  leg_side :: OrderSide
  leg_filled_price :: "f64 option"
  leg_order_type :: OrderType
  leg_status :: TradeUpdateEvent
  leg_order_class :: OrderClass
  leg_created_at :: nat
  leg_updated_at :: nat
  leg_submitted_at :: nat
  leg_filled_at :: "nat option"

record OrderLegs =
  legs_take_profit :: "OrderLeg option"
  legs_stop_loss :: "OrderLeg option"
  legs_trailing_stop :: "OrderLeg option"

definition default_legs :: OrderLegs where
  "default_legs = \<lparr>legs_take_profit = None, legs_stop_loss = None, legs_trailing_stop = None\<rparr>"

record Order =
  ord_order_id :: string
  ord_insight_id :: "string option"
  ord_strategy_type :: "string option"
  ord_asset :: Asset
  ord_qty :: f64
  ord_filled_qty :: f64
  ord_limit_price :: "f64 option"
  ord_filled_price :: "f64 option"
  ord_stop_price :: "f64 option"
  ord_side :: OrderSide
  ord_order_type :: OrderType
  ord_time_in_force :: TimeInForce
  ord_status :: TradeUpdateEvent
  ord_order_class :: OrderClass
  ord_created_at :: nat
  ord_updated_at :: nat
  ord_submitted_at :: nat
  ord_filled_at :: "nat option"
  ord_realized_pnl :: "f64 option"
  ord_position_accounting :: "PositionCloseAccounting option"
  ord_commission :: "f64 option"
  ord_swap :: "f64 option"
  ord_rejection_reason :: "string option"
  ord_legs :: "OrderLegs option"

record BrokerOrderRequest =
  req_client_order_id :: string
  req_insight_id :: string
  req_strategy_type :: string
  req_symbol :: string
  req_quantity :: "f64 option"
  req_side :: OrderSide
  req_order_type :: OrderType
  req_order_class :: OrderClass
  req_limit_price :: "f64 option"
  req_stop_price :: "f64 option"
  req_take_profit_levels :: "f64 list option"
  req_stop_loss_levels :: "f64 list option"
  req_trailing_stop_price :: "f64 option"

section \<open>Events, records, errors, market data\<close>

datatype BrokerClockDomain = BrokerServer | AdapterHost | RuntimeHost | UnknownClock

record BrokerEventMetadata =
  md_analytics_only :: bool
  md_execution_fill :: "ExecutionFill option"
  md_source_occurred_at_us :: "int option"
  md_adapter_queued_at_us :: "int option"
  md_source_clock :: BrokerClockDomain

record BrokerOrderEvent =
  ev_event_id :: string
  ev_source_sequence :: "nat option"
  ev_event :: "Order \<times> TradeUpdateEvent"
  ev_metadata :: BrokerEventMetadata

datatype TradeRecordType = EntryTrade | ExitTrade

record TradeRecord =
  tr_date :: datetime
  tr_symbol :: string
  tr_side :: OrderSide
  tr_qty :: f64
  tr_price :: f64
  tr_order_id :: string
  tr_insight_id :: "string option"
  tr_strategy_type :: "string option"
  tr_commission :: f64
  tr_swap :: f64
  tr_execution_cash :: "ExecutionFillCash option"
  tr_account_notional :: "f64 option"
  tr_valuation_basis :: "string option"
  tr_trade_type :: TradeRecordType

datatype SnapshotKind = AccountSnapshot | PositionsSnapshot | QuoteSnapshot string
datatype SnapshotUnavailable = MissingSnapshot | StaleSnapshot | InvalidSnapshot | AccountChanged | UntrackedSymbol

datatype BrokerError =
    SnapshotUnavailable SnapshotKind SnapshotUnavailable
  | UnsupportedOperation string
  | SubmissionRejected string
  | ConnectionError string
  | DisconnectionError string
  | OrderError string
  | PositionError string
  | AccountError string
  | AssetError string
  | TradeError string
  | DataFeedError string
  | DataFeedConnectionError string
  | DataFeedDisconnectionError string
  | InvalidTicker string
  | OrderCancellationError string

record Bar =
  bar_symbol :: string
  bar_open :: f64
  bar_high :: f64
  bar_low :: f64
  bar_close :: f64
  bar_volume :: f64
  bar_timestamp :: datetime

section \<open>Fees are finite-or-infinite non-negative amounts\<close>

lemma contract_factor_pos: "0 \<le> contract_factor c"
  by (simp add: contract_factor_def of_integer_f64_def rnd_nonneg)

text \<open>A product of non-negative factors is non-negative unless it is the NaN of \<open>0 \<cdot> \<infinity>\<close>.\<close>

lemma fmult_nonneg_or_NaN: "0 \<le> a \<Longrightarrow> 0 \<le> b \<Longrightarrow> a * b = NaN \<or> (0::f64) \<le> a * b"
  by (cases a; cases b) (auto simp: times_f64_def rnd_nonneg)

lemma fmult_nan [simp]: "NaN * a = NaN" "a * NaN = NaN"
  by (cases a; simp add: times_f64_def)+

lemma opposite_involutive [simp]: "opposite (opposite s) = s"
  by (cases s) (simp_all add: opposite_def)

lemma opposite_neq [simp]: "opposite s \<noteq> s" "s \<noteq> opposite s"
  by (cases s; simp add: opposite_def)+

end
