(* ===== verification/TimeFrame.thy ===== *)
theory TimeFrame
  imports BrokerTypes
begin

text \<open>
  Bar intervals (\<open>src/core/utils/timeframe.rs\<close>): parsing and printing of labels, validation,
  alignment of times and the boundaries of the current and the next interval.  The calendar is
  the \<open>chrono\<close> crate; the model takes the calendar functions it calls as a record argument, and
  what the code relies on of them is the predicate \<open>utc_calendar\<close>.
\<close>

section \<open>Labels\<close>

datatype TimeFrameUnit = Second | Minute | Hour | DayUnit | Month

record TimeFrame =
  tf_amount :: nat
  tf_unit :: TimeFrameUnit

datatype TimeFrameError = InvalidTimeFrameUnit | InvalidTimeFrameAmount | InvalidTimeFramePeriod

definition validate_time_frame :: "nat \<Rightarrow> TimeFrameUnit \<Rightarrow> TimeFrameError + TimeFrame" where
  "validate_time_frame amount unit =
     (if amount = 0 then Inl InvalidTimeFrameAmount
      else let is_valid = (case unit of
                 Second \<Rightarrow> amount \<le> 59 | Minute \<Rightarrow> amount \<le> 59
               | Hour \<Rightarrow> amount \<le> 23
               | DayUnit \<Rightarrow> amount = 1 | Month \<Rightarrow> amount = 1)
           in if \<not> is_valid then Inl InvalidTimeFrameAmount
              else Inr \<lparr>tf_amount = amount, tf_unit = unit\<rparr>)"

definition is_ascii_digit :: "char \<Rightarrow> bool" where
  "is_ascii_digit c \<longleftrightarrow> (let n = of_char c :: nat in 48 \<le> n \<and> n \<le> 57)"

definition to_ascii_lowercase_char :: "char \<Rightarrow> char" where
  "to_ascii_lowercase_char c =
     (let n = of_char c :: nat in if 65 \<le> n \<and> n \<le> 90 then char_of (n + 32) else c)"

definition to_ascii_lowercase :: "string \<Rightarrow> string" where
  "to_ascii_lowercase s = map to_ascii_lowercase_char s"

definition decimal_value :: "string \<Rightarrow> nat" where
  "decimal_value s = foldl (\<lambda>acc c. 10 * acc + (of_char c - 48)) 0 s"

text \<open>\<open>str::parse::<u8>\<close> on a string of digits.\<close>

definition parse_u8 :: "string \<Rightarrow> nat option" where
  "parse_u8 s = (if s \<noteq> [] \<and> list_all is_ascii_digit s \<and> decimal_value s < 256
                 then Some (decimal_value s) else None)"

definition unit_of_suffix :: "string \<Rightarrow> TimeFrameUnit option" where
  "unit_of_suffix s =
     (if s = ''s'' then Some Second else if s = ''m'' then Some Minute
      else if s = ''h'' then Some Hour else if s = ''d'' then Some DayUnit
      else if s = ''mo'' then Some Month else None)"

definition parse_timeframe :: "string \<Rightarrow> TimeFrameError + TimeFrame" where
  "parse_timeframe raw =
     (let value = to_ascii_lowercase (trim raw);
          digits = takeWhile is_ascii_digit value;
          rest = dropWhile is_ascii_digit value
      in case parse_u8 digits of
           None \<Rightarrow> Inl InvalidTimeFrameAmount
         | Some amount \<Rightarrow> (case unit_of_suffix rest of
               None \<Rightarrow> Inl InvalidTimeFrameUnit
             | Some unit \<Rightarrow> validate_time_frame amount unit))"

definition unit_suffix :: "TimeFrameUnit \<Rightarrow> string" where
  "unit_suffix u = (case u of Second \<Rightarrow> ''s'' | Minute \<Rightarrow> ''m'' | Hour \<Rightarrow> ''h''
                    | DayUnit \<Rightarrow> ''d'' | Month \<Rightarrow> ''mo'')"

definition compact_label :: "TimeFrame \<Rightarrow> string" where
  "compact_label tf = digits_of (tf_amount tf) @ unit_suffix (tf_unit tf)"

definition tf_valid :: "TimeFrame \<Rightarrow> bool" where
  "tf_valid tf \<longleftrightarrow> validate_time_frame (tf_amount tf) (tf_unit tf) = Inr tf"

section \<open>Interval boundaries\<close>

record calendar =
  cal_second :: "datetime \<Rightarrow> nat"
  cal_minute :: "datetime \<Rightarrow> nat"
  cal_hour :: "datetime \<Rightarrow> nat"
  cal_day :: "datetime \<Rightarrow> nat"
  cal_month :: "datetime \<Rightarrow> nat"
  cal_nanosecond :: "datetime \<Rightarrow> nat"
  cal_add_months :: "datetime \<Rightarrow> int \<Rightarrow> datetime option"
  cal_add_signed :: "datetime \<Rightarrow> int \<Rightarrow> datetime option"
  cal_delta_in_range :: "int \<Rightarrow> bool"

definition ns_second :: int where "ns_second = 1000000000"
definition ns_minute :: int where "ns_minute = 60 * ns_second"
definition ns_hour :: int where "ns_hour = 60 * ns_minute"
definition ns_day :: int where "ns_day = 24 * ns_hour"

definition is_interval_valid :: "calendar \<Rightarrow> TimeFrame \<Rightarrow> datetime \<Rightarrow> bool" where
  "is_interval_valid c tf t = (case tf_unit tf of
       Second \<Rightarrow> cal_second c t mod tf_amount tf = 0
     | Minute \<Rightarrow> cal_minute c t mod tf_amount tf = 0 \<and> cal_second c t = 0
     | Hour \<Rightarrow> cal_hour c t mod tf_amount tf = 0 \<and> cal_minute c t = 0 \<and> cal_second c t = 0
     | DayUnit \<Rightarrow> cal_day c t mod tf_amount tf = 0 \<and> cal_hour c t = 0 \<and> cal_minute c t = 0 \<and> cal_second c t = 0
     | Month \<Rightarrow> cal_month c t mod tf_amount tf = 0 \<and> cal_day c t = 1 \<and> cal_hour c t = 0
                \<and> cal_minute c t = 0 \<and> cal_second c t = 0)"

definition in_i64 :: "int \<Rightarrow> bool" where
  "in_i64 n \<longleftrightarrow> - (2 ^ 63) \<le> n \<and> n < 2 ^ 63"

definition unit_ns :: "TimeFrameUnit \<Rightarrow> int" where
  "unit_ns u = (case u of Second \<Rightarrow> ns_second | Minute \<Rightarrow> ns_minute | Hour \<Rightarrow> ns_hour | DayUnit \<Rightarrow> ns_day
                | Month \<Rightarrow> 0)"

definition add_time_increment ::
  "calendar \<Rightarrow> TimeFrame \<Rightarrow> datetime \<Rightarrow> int \<Rightarrow> TimeFrameError + datetime" where
  "add_time_increment c tf t periods =
     (let count = int (tf_amount tf) * periods
      in if \<not> in_i64 count then Inl InvalidTimeFramePeriod
         else if tf_unit tf = Month
         then (if 2 ^ 32 \<le> \<bar>count\<bar> then Inl InvalidTimeFramePeriod
               else case cal_add_months c t count of None \<Rightarrow> Inl InvalidTimeFramePeriod | Some r \<Rightarrow> Inr r)
         else let d = count * unit_ns (tf_unit tf)
              in if \<not> cal_delta_in_range c d then Inl InvalidTimeFramePeriod
                 else case cal_add_signed c t d of None \<Rightarrow> Inl InvalidTimeFramePeriod | Some r \<Rightarrow> Inr r)"

text \<open>
  \<open>get_current_time_increment\<close> and \<open>get_next_time_increment\<close>; for months the shift is the
  calendar's, and its failure is the panic of \<open>expect\<close> (the value None).
\<close>

definition start_of_day_offset :: "calendar \<Rightarrow> datetime \<Rightarrow> int" where
  "start_of_day_offset c t = int (cal_hour c t) * ns_hour + int (cal_minute c t) * ns_minute
     + int (cal_second c t) * ns_second + int (cal_nanosecond c t)"

definition get_current_time_increment :: "calendar \<Rightarrow> TimeFrame \<Rightarrow> datetime \<Rightarrow> datetime option" where
  "get_current_time_increment c tf t = (case tf_unit tf of
       Second \<Rightarrow> Some (t - (int (cal_second c t mod tf_amount tf) * ns_second + int (cal_nanosecond c t)))
     | Minute \<Rightarrow> Some (t - (int (cal_minute c t mod tf_amount tf) * ns_minute
                    + int (cal_second c t) * ns_second + int (cal_nanosecond c t)))
     | Hour \<Rightarrow> Some (t - (int (cal_hour c t mod tf_amount tf) * ns_hour
                    + int (cal_minute c t) * ns_minute
                    + int (cal_second c t) * ns_second + int (cal_nanosecond c t)))
     | DayUnit \<Rightarrow> Some (t - (int (cal_day c t mod tf_amount tf) * ns_day + start_of_day_offset c t))
     | Month \<Rightarrow> (case cal_add_months c t (- int (cal_month c t mod tf_amount tf)) of
                    None \<Rightarrow> None
                  | Some t' \<Rightarrow> Some (t' - (int (cal_day c t' - 1) * ns_day + start_of_day_offset c t'))))"

definition get_next_time_increment :: "calendar \<Rightarrow> TimeFrame \<Rightarrow> datetime \<Rightarrow> datetime option" where
  "get_next_time_increment c tf t = (case tf_unit tf of
       Second \<Rightarrow> Some (t + (int (tf_amount tf) - int (cal_second c t mod tf_amount tf)) * ns_second
                    - int (cal_nanosecond c t))
     | Minute \<Rightarrow> Some (t + (int (tf_amount tf) - int (cal_minute c t mod tf_amount tf)) * ns_minute
                    - int (cal_second c t) * ns_second - int (cal_nanosecond c t))
     | Hour \<Rightarrow> Some (t + (int (tf_amount tf) - int (cal_hour c t mod tf_amount tf)) * ns_hour
                    - int (cal_minute c t) * ns_minute
                    - int (cal_second c t) * ns_second - int (cal_nanosecond c t))
     | DayUnit \<Rightarrow> Some (t + (int (tf_amount tf) - int (cal_day c t mod tf_amount tf)) * ns_day
                    - int (cal_hour c t) * ns_hour - int (cal_minute c t) * ns_minute
                    - int (cal_second c t) * ns_second - int (cal_nanosecond c t))
     | Month \<Rightarrow> (case cal_add_months c t (int (tf_amount tf) - int (cal_month c t mod tf_amount tf)) of
                    None \<Rightarrow> None
                  | Some t' \<Rightarrow> Some (t' - int (cal_day c t' - 1) * ns_day
                       - int (cal_hour c t') * ns_hour - int (cal_minute c t') * ns_minute
                       - int (cal_second c t') * ns_second - int (cal_nanosecond c t'))))"

text \<open>What the code relies on: the clock fields of a UTC time are those of its day.\<close>

definition utc_calendar :: "calendar \<Rightarrow> bool" where
  "utc_calendar c \<longleftrightarrow> (\<forall>t.
     int (cal_nanosecond c t) = t mod ns_second
     \<and> int (cal_second c t) = t div ns_second mod 60
     \<and> int (cal_minute c t) = t div ns_minute mod 60
     \<and> int (cal_hour c t) = t div ns_hour mod 24)"

section \<open>Labels round-trip\<close>

lemma of_char_char_of_small: "n < 256 \<Longrightarrow> of_char (char_of n :: char) = (n :: nat)"
  by simp

lemma is_ascii_digit_char_of: "n < 10 \<Longrightarrow> is_ascii_digit (char_of (48 + n :: nat))"
  by (simp add: is_ascii_digit_def Let_def)

lemma digits_of_digits: "list_all is_ascii_digit (digits_of n)"
proof (induction n rule: digits_of.induct)
  case (1 n)
  have "is_ascii_digit (char_of (48 + n mod 10))" by (rule is_ascii_digit_char_of) simp
  with 1 show ?case by (subst digits_of.simps) (auto simp: is_ascii_digit_char_of)
qed

lemma digits_of_not_Nil: "digits_of n \<noteq> []"
  by (subst digits_of.simps) simp

lemma decimal_value_digits_of: "decimal_value (digits_of n) = n"
proof (induction n rule: digits_of.induct)
  case (1 n)
  then show ?case by (subst digits_of.simps) (auto simp: decimal_value_def)
qed

lemma digit_facts: "is_ascii_digit c \<Longrightarrow> \<not> is_space c" "is_ascii_digit c \<Longrightarrow> to_ascii_lowercase_char c = c"
  by (auto simp: is_ascii_digit_def is_space_def to_ascii_lowercase_char_def Let_def)

lemma trim_id:
  assumes "s \<noteq> []" "\<not> is_space (hd s)" "\<not> is_space (last s)"
  shows "trim s = s"
proof -
  have "dropWhile is_space s = s" using assms(1,2) by (cases s) auto
  moreover have "dropWhile is_space (rev s) = rev s"
    using assms(1,3) by (cases "rev s") (auto simp: last_rev [symmetric] hd_rev)
  ultimately show ?thesis by (simp add: trim_def)
qed

lemma lowercase_digits: "list_all is_ascii_digit s \<Longrightarrow> map to_ascii_lowercase_char s = s"
  by (induction s) (auto simp: digit_facts)

lemma suffix_facts:
  "unit_suffix u \<noteq> []" "\<not> is_ascii_digit (hd (unit_suffix u))" "\<not> is_space (last (unit_suffix u))"
  "map to_ascii_lowercase_char (unit_suffix u) = unit_suffix u"
  "unit_of_suffix (unit_suffix u) = Some u"
  by (cases u; simp add: unit_suffix_def is_ascii_digit_def is_space_def to_ascii_lowercase_char_def
      unit_of_suffix_def)+

lemma takeWhile_digits:
  assumes "list_all is_ascii_digit s" "r \<noteq> []" "\<not> is_ascii_digit (hd r)"
  shows "takeWhile is_ascii_digit (s @ r) = s" "dropWhile is_ascii_digit (s @ r) = r"
  using assms by (induction s; cases r; auto)+

lemma parse_timeframe_label:
  assumes "n < 256"
  shows "parse_timeframe (digits_of n @ unit_suffix u) = validate_time_frame n u"
proof -
  let ?l = "digits_of n @ unit_suffix u"
  have hd: "\<not> is_space (hd ?l)"
    using digits_of_digits [of n] digits_of_not_Nil [of n]
    by (cases "digits_of n") (auto simp: digit_facts)
  have "trim ?l = ?l"
    by (rule trim_id) (use hd suffix_facts [of u] in auto)
  then have "to_ascii_lowercase (trim ?l) = ?l"
    using suffix_facts [of u] digits_of_digits [of n]
    by (simp add: to_ascii_lowercase_def lowercase_digits)
  moreover have "parse_u8 (digits_of n) = Some n"
    using assms by (simp add: parse_u8_def digits_of_not_Nil digits_of_digits decimal_value_digits_of)
  ultimately show ?thesis
    using takeWhile_digits [OF digits_of_digits [of n], of "unit_suffix u"] suffix_facts [of u]
    by (simp add: parse_timeframe_def Let_def)
qed

lemma tf_valid_amount: "tf_valid tf \<Longrightarrow> 0 < tf_amount tf \<and> tf_amount tf < 60"
  by (cases "tf_unit tf") (auto simp: tf_valid_def validate_time_frame_def split: if_splits)

lemma validate_time_frame_sound:
  "validate_time_frame n u = Inr tf \<Longrightarrow> tf_valid tf"
  by (cases u) (auto simp: tf_valid_def validate_time_frame_def Let_def split: if_splits)

section \<open>Boundaries\<close>

definition tf_cycle :: "TimeFrameUnit \<Rightarrow> int" where
  "tf_cycle u = (case u of Second \<Rightarrow> 60 | Minute \<Rightarrow> 60 | Hour \<Rightarrow> 24 | DayUnit \<Rightarrow> 1 | Month \<Rightarrow> 1)"

text \<open>The interval index reached from time \<open>t\<close>: the unit count, cut to the amount inside its cycle.\<close>

definition interval_index :: "TimeFrame \<Rightarrow> datetime \<Rightarrow> int" where
  "interval_index tf t =
     (let x = t div unit_ns (tf_unit tf) in x - x mod tf_cycle (tf_unit tf) mod int (tf_amount tf))"

lemmas ns_defs = ns_second_def ns_minute_def ns_hour_def ns_day_def

lemma utc_lows:
  assumes "utc_calendar c"
  shows "int (cal_nanosecond c t) = t mod ns_second"
    and "int (cal_second c t) * ns_second + int (cal_nanosecond c t) = t mod ns_minute"
    and "int (cal_minute c t) * ns_minute + int (cal_second c t) * ns_second
           + int (cal_nanosecond c t) = t mod ns_hour"
    and "start_of_day_offset c t = t mod ns_day"
proof -
  have c: "int (cal_nanosecond c t) = t mod ns_second" "int (cal_second c t) = t div ns_second mod 60"
    "int (cal_minute c t) = t div ns_minute mod 60" "int (cal_hour c t) = t div ns_hour mod 24"
    using assms by (simp_all add: utc_calendar_def)
  have m: "t mod ns_minute = (t div ns_second mod 60) * ns_second + t mod ns_second"
    using zmod_zmult2_eq [of 60 t ns_second] by (simp add: ns_minute_def mult.commute)
  have h: "t mod ns_hour = (t div ns_minute mod 60) * ns_minute + t mod ns_minute"
    using zmod_zmult2_eq [of 60 t ns_minute] by (simp add: ns_hour_def mult.commute)
  have d: "t mod ns_day = (t div ns_hour mod 24) * ns_hour + t mod ns_hour"
    using zmod_zmult2_eq [of 24 t ns_hour] by (simp add: ns_day_def mult.commute)
  show "int (cal_nanosecond c t) = t mod ns_second" by (rule c(1))
  show s: "int (cal_second c t) * ns_second + int (cal_nanosecond c t) = t mod ns_minute"
    by (simp add: c m)
  show "int (cal_minute c t) * ns_minute + int (cal_second c t) * ns_second
           + int (cal_nanosecond c t) = t mod ns_hour"
    by (simp add: c h m)
  show "start_of_day_offset c t = t mod ns_day"
    by (simp add: start_of_day_offset_def c d h m)
qed

lemma mod_less_amount: "tf_valid tf \<Longrightarrow> tf_unit tf = DayUnit \<Longrightarrow> (n::nat) mod tf_amount tf = 0"
  by (auto simp: tf_valid_def validate_time_frame_def split: if_splits)

lemma div_mult_mod_sub: "(t::int) - (k * u + t mod u) = u * (t div u - k)"
  by (simp add: algebra_simps minus_mod_eq_mult_div [symmetric])

lemma get_current_eq:
  assumes "utc_calendar c" "tf_valid tf" "tf_unit tf \<noteq> Month"
  shows "get_current_time_increment c tf t = Some (unit_ns (tf_unit tf) * interval_index tf t)"
  using assms utc_lows [OF assms(1), of t] mod_less_amount [OF assms(2)]
  by (cases "tf_unit tf")
    (simp_all add: get_current_time_increment_def interval_index_def unit_ns_def tf_cycle_def
      Let_def div_mult_mod_sub [symmetric] utc_calendar_def zmod_int add.assoc minus_mod_eq_mult_div)

lemma get_next_eq:
  assumes "utc_calendar c" "tf_valid tf" "tf_unit tf \<noteq> Month"
  shows "get_next_time_increment c tf t
    = Some (unit_ns (tf_unit tf) * (interval_index tf t + int (tf_amount tf)))"
proof -
  have "get_next_time_increment c tf t
      = map_option (\<lambda>a. a + unit_ns (tf_unit tf) * int (tf_amount tf)) (get_current_time_increment c tf t)"
    using assms(3)
    by (cases "tf_unit tf")
      (simp_all add: get_next_time_increment_def get_current_time_increment_def unit_ns_def
        start_of_day_offset_def algebra_simps)
  then show ?thesis using get_current_eq [OF assms] by (simp add: algebra_simps)
qed

lemma unit_ns_pos: "u \<noteq> Month \<Longrightarrow> 0 < unit_ns u"
  by (cases u) (simp_all add: unit_ns_def ns_defs)

lemma index_bounds:
  assumes "tf_valid tf" "tf_unit tf \<noteq> Month"
  shows "unit_ns (tf_unit tf) * interval_index tf t \<le> t"
    and "t < unit_ns (tf_unit tf) * (interval_index tf t + int (tf_amount tf))"
proof -
  let ?u = "unit_ns (tf_unit tf)" and ?n = "int (tf_amount tf)"
  let ?x = "t div ?u"
  let ?k = "?x mod tf_cycle (tf_unit tf) mod ?n"
  have u: "0 < ?u" by (rule unit_ns_pos [OF assms(2)])
  have n: "0 < ?n" using tf_valid_amount [OF assms(1)] by simp
  have k: "0 \<le> ?k" "?k < ?n" using n by simp_all
  have t: "?u * ?x \<le> t" "t < ?u * (?x + 1)"
    using u by (simp_all add: algebra_simps) (metis add.commute mult.commute pos_mod_bound
        pos_mod_sign mult_div_mod_eq add_strict_left_mono le_add_same_cancel1)+
  have "?u * (?x - ?k) \<le> ?u * ?x" using u k by (simp add: algebra_simps)
  with t show "?u * interval_index tf t \<le> t" by (simp add: interval_index_def Let_def)
  have "?u * (?x + 1) \<le> ?u * (?x - ?k + ?n)" using u k by simp
  with t show "t < ?u * (interval_index tf t + ?n)" by (simp add: interval_index_def Let_def)
qed

lemma mod_amount_int:
  assumes "int f = x"
  shows "f mod n = 0 \<longleftrightarrow> x mod int n = 0"
  unfolding assms [symmetric] by (metis of_nat_0 of_nat_eq_iff zmod_int)

lemma utc_fields_at:
  assumes "utc_calendar c"
  shows "int (cal_second c (ns_second * y)) = y mod 60"
    and "int (cal_minute c (ns_minute * y)) = y mod 60" and "cal_second c (ns_minute * y) = 0"
    and "int (cal_hour c (ns_hour * y)) = y mod 24" and "cal_minute c (ns_hour * y) = 0"
    and "cal_second c (ns_hour * y) = 0" and "cal_hour c (ns_day * y) = 0"
    and "cal_minute c (ns_day * y) = 0" and "cal_second c (ns_day * y) = 0"
proof -
  have c: "int (cal_second c t) = t div ns_second mod 60"
    "int (cal_minute c t) = t div ns_minute mod 60" "int (cal_hour c t) = t div ns_hour mod 24" for t
    using assms by (simp_all add: utc_calendar_def)
  show "int (cal_second c (ns_second * y)) = y mod 60" "int (cal_minute c (ns_minute * y)) = y mod 60"
    "int (cal_hour c (ns_hour * y)) = y mod 24"
    by (simp_all add: c ns_defs)
  have "int (cal_second c (ns_minute * y)) = 0" "int (cal_minute c (ns_hour * y)) = 0"
    "int (cal_second c (ns_hour * y)) = 0" "int (cal_hour c (ns_day * y)) = 0"
    "int (cal_minute c (ns_day * y)) = 0" "int (cal_second c (ns_day * y)) = 0"
    unfolding c by (simp_all add: ns_defs)
  then show "cal_second c (ns_minute * y) = 0" "cal_minute c (ns_hour * y) = 0"
    "cal_second c (ns_hour * y) = 0" "cal_hour c (ns_day * y) = 0"
    "cal_minute c (ns_day * y) = 0" "cal_second c (ns_day * y) = 0" by simp_all
qed

lemma interval_valid_at:
  assumes "utc_calendar c" "tf_valid tf" "tf_unit tf \<noteq> Month"
  shows "is_interval_valid c tf (unit_ns (tf_unit tf) * y)
    \<longleftrightarrow> y mod tf_cycle (tf_unit tf) mod int (tf_amount tf) = 0"
  using assms(3) mod_less_amount [OF assms(2)] utc_fields_at [OF assms(1), of y]
    mod_amount_int [OF utc_fields_at(1) [OF assms(1), of y], of "tf_amount tf"]
    mod_amount_int [OF utc_fields_at(2) [OF assms(1), of y], of "tf_amount tf"]
    mod_amount_int [OF utc_fields_at(4) [OF assms(1), of y], of "tf_amount tf"]
  by (cases "tf_unit tf") (simp_all only: is_interval_valid_def unit_ns_def tf_cycle_def
      TimeFrameUnit.case simp_thms mod_by_1 mod_0)

lemma index_cycle:
  assumes "0 < (k::int)" "0 < n"
  shows "(x - x mod k mod n) mod k mod n = 0"
proof -
  let ?r = "x mod k"
  have r: "0 \<le> ?r - ?r mod n" "?r - ?r mod n < k"
    using assms pos_mod_bound [of k x] pos_mod_sign [of n ?r] pos_mod_sign [of k x]
      zmod_le_nonneg_dividend [of ?r n] by linarith+
  have "(x - ?r mod n) mod k = (?r - ?r mod n) mod k" by (simp add: mod_diff_left_eq)
  also have "\<dots> = ?r - ?r mod n" using r by simp
  finally show ?thesis by (simp add: minus_mod_eq_mult_div)
qed

lemma tf_cycle_pos: "0 < tf_cycle u"
  by (cases u) (simp_all add: tf_cycle_def)

lemma index_valid:
  "tf_valid tf \<Longrightarrow> interval_index tf t mod tf_cycle (tf_unit tf) mod int (tf_amount tf) = 0"
  unfolding interval_index_def Let_def
  by (rule index_cycle [OF tf_cycle_pos]) (use tf_valid_amount [of tf] in simp)

lemma index_valid_next:
  assumes "tf_valid tf" "int (tf_amount tf) dvd tf_cycle (tf_unit tf)"
  shows "(interval_index tf t + int (tf_amount tf)) mod tf_cycle (tf_unit tf) mod int (tf_amount tf) = 0"
proof -
  have "interval_index tf t mod int (tf_amount tf) = 0"
    using index_valid [OF assms(1), of t] mod_mod_cancel [OF assms(2)] by metis
  then show ?thesis using mod_mod_cancel [OF assms(2)] by simp
qed

section \<open>A concrete calendar\<close>

text \<open>
  The proleptic Gregorian calendar on days since 1970-01-01, used where a theorem about every
  \<open>utc_calendar\<close> is applied to a concrete one.
\<close>

definition civil_of_days :: "int \<Rightarrow> int \<times> int \<times> int" where
  "civil_of_days days =
     (let z = days + 719468; era = z div 146097; doe = z mod 146097;
          yoe = (doe - doe div 1460 + doe div 36524 - doe div 146096) div 365;
          doy = doe - (365 * yoe + yoe div 4 - yoe div 100);
          mp = (5 * doy + 2) div 153;
          d = doy - (153 * mp + 2) div 5 + 1;
          m = (if mp < 10 then mp + 3 else mp - 9)
      in (yoe + era * 400 + (if m \<le> 2 then 1 else 0), m, d))"

definition days_of_civil :: "int \<Rightarrow> int \<Rightarrow> int \<Rightarrow> int" where
  "days_of_civil y m d =
     (let y' = (if m \<le> 2 then y - 1 else y); era = y' div 400; yoe = y' mod 400;
          doy = (153 * ((m + 9) mod 12) + 2) div 5 + d - 1;
          doe = yoe * 365 + yoe div 4 - yoe div 100 + doy
      in era * 146097 + doe - 719468)"

definition civil_add_months :: "datetime \<Rightarrow> int \<Rightarrow> datetime option" where
  "civil_add_months t k =
     (let (y, m, d) = civil_of_days (t div ns_day);
          i = y * 12 + (m - 1) + k; y' = i div 12; m' = i mod 12 + 1;
          len = (if m' = 12 then 31 else days_of_civil y' (m' + 1) 1 - days_of_civil y' m' 1)
      in Some (days_of_civil y' m' (min d len) * ns_day + t mod ns_day))"

definition civil_calendar :: calendar where
  "civil_calendar = \<lparr>
     cal_second = (\<lambda>t. nat (t div ns_second mod 60)),
     cal_minute = (\<lambda>t. nat (t div ns_minute mod 60)),
     cal_hour = (\<lambda>t. nat (t div ns_hour mod 24)),
     cal_day = (\<lambda>t. case civil_of_days (t div ns_day) of (_, _, d) \<Rightarrow> nat d),
     cal_month = (\<lambda>t. case civil_of_days (t div ns_day) of (_, m, _) \<Rightarrow> nat m),
     cal_nanosecond = (\<lambda>t. nat (t mod ns_second)),
     cal_add_months = civil_add_months,
     cal_add_signed = (\<lambda>t d. Some (t + d)),
     cal_delta_in_range = (\<lambda>d. \<bar>d\<bar> \<le> (2 ^ 63 - 1) * 1000000)\<rparr>"

lemma utc_civil_calendar: "utc_calendar civil_calendar"
  by (simp add: utc_calendar_def civil_calendar_def ns_second_def)

section \<open>Properties\<close>

text \<open>C40: Printing a valid interval and parsing the label gives the interval back: \<open>compact_label\<close>
  and \<open>parse_timeframe\<close> agree on all 143 intervals the engine accepts.
\<close>

theorem timeframe_label_roundtrip:
  assumes "tf_valid tf"
  shows "parse_timeframe (compact_label tf) = Inr tf"
proof -
  have "tf_amount tf < 256" using tf_valid_amount [OF assms] by simp
  then show ?thesis
    using parse_timeframe_label assms by (simp add: compact_label_def tf_valid_def)
qed

theorem timeframe_label_roundtrip_witness:
  "tf_valid \<lparr>tf_amount = 15, tf_unit = Minute\<rparr>
   \<and> parse_timeframe (compact_label \<lparr>tf_amount = 15, tf_unit = Minute\<rparr>)
       = Inr \<lparr>tf_amount = 15, tf_unit = Minute\<rparr>"
proof -
  have v: "tf_valid \<lparr>tf_amount = 15, tf_unit = Minute\<rparr>"
    by (simp add: tf_valid_def validate_time_frame_def)
  show ?thesis using v timeframe_label_roundtrip [OF v] by simp
qed

text \<open>For second, minute, hour and day intervals the current boundary is at or before the time,
  is itself an aligned interval start, and the next boundary lies strictly after the time, one
  interval later; it is aligned too when the amount divides its clock cycle (60 or 24).
\<close>

theorem interval_boundaries:
  assumes "utc_calendar c" "tf_valid tf" "tf_unit tf \<noteq> Month"
  shows "\<exists>a b. get_current_time_increment c tf t = Some a \<and> get_next_time_increment c tf t = Some b
    \<and> a \<le> t \<and> t < b \<and> b - a = int (tf_amount tf) * unit_ns (tf_unit tf)
    \<and> is_interval_valid c tf a
    \<and> (int (tf_amount tf) dvd tf_cycle (tf_unit tf) \<longrightarrow> is_interval_valid c tf b)"
proof (intro exI conjI impI)
  let ?u = "unit_ns (tf_unit tf)" and ?i = "interval_index tf t" and ?n = "int (tf_amount tf)"
  show "get_current_time_increment c tf t = Some (?u * ?i)" by (rule get_current_eq [OF assms])
  show "get_next_time_increment c tf t = Some (?u * (?i + ?n))" by (rule get_next_eq [OF assms])
  show "?u * ?i \<le> t" "t < ?u * (?i + ?n)" by (rule index_bounds [OF assms(2,3)])+
  show "?u * (?i + ?n) - ?u * ?i = ?n * ?u" by (simp add: algebra_simps)
  show "is_interval_valid c tf (?u * ?i)"
    using index_valid [OF assms(2)] by (simp only: interval_valid_at [OF assms])
  show "is_interval_valid c tf (?u * (?i + ?n))" if "?n dvd tf_cycle (tf_unit tf)"
    using index_valid_next [OF assms(2) that] by (simp only: interval_valid_at [OF assms])
qed

theorem interval_boundaries_witness:
  "\<exists>a b. get_current_time_increment civil_calendar \<lparr>tf_amount = 15, tf_unit = Minute\<rparr> 1700000000123456789 = Some a
    \<and> get_next_time_increment civil_calendar \<lparr>tf_amount = 15, tf_unit = Minute\<rparr> 1700000000123456789 = Some b
    \<and> a \<le> 1700000000123456789 \<and> 1700000000123456789 < b \<and> b - a = 900000000000
    \<and> is_interval_valid civil_calendar \<lparr>tf_amount = 15, tf_unit = Minute\<rparr> b"
proof -
  let ?tf = "\<lparr>tf_amount = 15, tf_unit = Minute\<rparr>"
  have v: "tf_valid ?tf" "tf_unit ?tf \<noteq> Month"
    by (simp_all add: tf_valid_def validate_time_frame_def)
  have d: "int (tf_amount ?tf) dvd tf_cycle (tf_unit ?tf)" by (simp add: tf_cycle_def)
  have e: "int (tf_amount ?tf) * unit_ns (tf_unit ?tf) = 900000000000"
    by (simp add: unit_ns_def ns_defs)
  show ?thesis
    using interval_boundaries [OF utc_civil_calendar v, of 1700000000123456789] d unfolding e by blast
qed

text \<open>For an amount that does not divide the hour the next boundary need not be an aligned start:
  for seven-minute intervals at 00:59 the next boundary is 01:03, which \<open>is_interval_valid\<close>
  rejects.
\<close>

theorem next_boundary_unaligned:
  "parse_timeframe ''7m'' = Inr \<lparr>tf_amount = 7, tf_unit = Minute\<rparr>
   \<and> get_next_time_increment civil_calendar \<lparr>tf_amount = 7, tf_unit = Minute\<rparr> (59 * ns_minute) = Some (63 * ns_minute)
   \<and> \<not> is_interval_valid civil_calendar \<lparr>tf_amount = 7, tf_unit = Minute\<rparr> (63 * ns_minute)"
  by code_simp

end
