(* ===== verification/BacktestState.thy ===== *)
theory BacktestState
  imports TimeFrame "HOL-Library.List_Lexorder" "HOL-Library.Char_ord"
    "HOL-Library.Product_Lexorder" "HOL-Library.Multiset"
begin

text \<open>
  The shared state of a backtest (\<open>src/core/broker/backtest_state.rs\<close>) with the market streams of
  \<open>src/core/events.rs\<close>: bars per stream, a cursor per stream and a priority queue that merges the
  streams into market steps by time.  The queue is the interface \<open>min_queue\<close>; the scheduler's
  invariant says that it holds exactly the next bar of every unfinished stream.
\<close>

section \<open>Streams and steps\<close>

datatype EventStreamType = BarStream

record MarketStreamKey =
  key_event_type :: EventStreamType
  key_symbol :: string
  key_timeframe :: TimeFrame

definition history_key :: "MarketStreamKey \<Rightarrow> TimeFrame \<Rightarrow> string" where
  "history_key k main_timeframe =
     (if key_timeframe k = main_timeframe then key_symbol k
      else key_symbol k @ '':'' @ compact_label (key_timeframe k))"

record StrategyEventContext =
  ctx_event_type :: EventStreamType
  ctx_symbol :: string
  ctx_timeframe :: TimeFrame
  ctx_history_key :: string
  ctx_is_feature :: bool
  ctx_allow_trading :: bool
  ctx_timestamp :: datetime

record ResolvedEventStream =
  str_key :: MarketStreamKey
  str_history_key :: string
  str_is_feature :: bool
  str_allow_trading :: bool

definition resolved_stream_new ::
  "EventStreamType \<Rightarrow> string \<Rightarrow> TimeFrame \<Rightarrow> TimeFrame \<Rightarrow> bool \<Rightarrow> ResolvedEventStream" where
  "resolved_stream_new event_type symbol timeframe main_timeframe allow_trading =
     (let key = \<lparr>key_event_type = event_type, key_symbol = symbol, key_timeframe = timeframe\<rparr>;
          is_feature = (timeframe \<noteq> main_timeframe)
      in \<lparr>str_key = key, str_history_key = history_key key main_timeframe,
          str_is_feature = is_feature, str_allow_trading = (allow_trading \<or> \<not> is_feature)\<rparr>)"

definition context_at :: "ResolvedEventStream \<Rightarrow> datetime \<Rightarrow> StrategyEventContext" where
  "context_at s t = \<lparr>ctx_event_type = key_event_type (str_key s), ctx_symbol = key_symbol (str_key s),
     ctx_timeframe = key_timeframe (str_key s), ctx_history_key = str_history_key s,
     ctx_is_feature = str_is_feature s, ctx_allow_trading = str_allow_trading s, ctx_timestamp = t\<rparr>"

record MarketDataEvent =
  mev_context :: StrategyEventContext
  mev_bar :: Bar

record BacktestMarketStep =
  step_timestamp :: datetime
  step_events :: "MarketDataEvent list"
  step_execution_bars :: "(string, Bar) hmap"
  step_has_tradable_events :: bool

record ScheduledMarketStream =
  sch_timestamp :: datetime
  sch_key :: MarketStreamKey
  sch_timeframe_label :: string
  sch_index :: nat

text \<open>The order of \<open>Ord for ScheduledMarketStream\<close>, as a key.\<close>

definition sched_ord :: "ScheduledMarketStream \<Rightarrow> datetime \<times> string \<times> string \<times> nat" where
  "sched_ord s = (sch_timestamp s, key_symbol (sch_key s), sch_timeframe_label s, sch_index s)"

section \<open>The priority queue\<close>

text \<open>
  \<open>BinaryHeap<Reverse<_>>\<close>: \<open>pop\<close> and \<open>peek\<close> give a least entry.  The queue is kept as the list
  sorted by \<open>sched_ord\<close>.
\<close>

definition heap_push :: "ScheduledMarketStream \<Rightarrow> ScheduledMarketStream list \<Rightarrow> ScheduledMarketStream list" where
  "heap_push s h = insort_key sched_ord s h"

definition heap_pop :: "ScheduledMarketStream list \<Rightarrow> (ScheduledMarketStream \<times> ScheduledMarketStream list) option" where
  "heap_pop h = (case h of [] \<Rightarrow> None | s # h' \<Rightarrow> Some (s, h'))"

definition heap_peek :: "ScheduledMarketStream list \<Rightarrow> ScheduledMarketStream option" where
  "heap_peek h = (case h of [] \<Rightarrow> None | s # _ \<Rightarrow> Some s)"

definition heap_ok :: "ScheduledMarketStream list \<Rightarrow> bool" where
  "heap_ok h \<longleftrightarrow> sorted (map sched_ord h)"

locale min_queue =
  fixes push :: "'e \<Rightarrow> 'q \<Rightarrow> 'q"
    and pop :: "'q \<Rightarrow> ('e \<times> 'q) option"
    and peek :: "'q \<Rightarrow> 'e option"
    and entries :: "'q \<Rightarrow> 'e multiset"
    and rank :: "'e \<Rightarrow> 'k::linorder"
    and ok :: "'q \<Rightarrow> bool"
  assumes entries_push: "entries (push e q) = add_mset e (entries q)"
    and pop_None: "pop q = None \<longleftrightarrow> entries q = {#}"
    and pop_entries: "pop q = Some (e, q') \<Longrightarrow> entries q = add_mset e (entries q')"
    and pop_least: "ok q \<Longrightarrow> pop q = Some (e, q') \<Longrightarrow> d \<in># entries q \<Longrightarrow> rank e \<le> rank d"
    and peek_pop: "peek q = map_option fst (pop q)"
    and ok_push: "ok q \<Longrightarrow> ok (push e q)"
    and ok_pop: "ok q \<Longrightarrow> pop q = Some (e, q') \<Longrightarrow> ok q'"
begin

lemma pop_mem: "pop q = Some (e, q') \<Longrightarrow> e \<in># entries q"
  by (simp add: pop_entries)

lemma pop_size: "pop q = Some (e, q') \<Longrightarrow> size (entries q) = Suc (size (entries q'))"
  by (simp add: pop_entries)

lemma peek_pop_Some: "peek q = Some e \<Longrightarrow> \<exists>q'. pop q = Some (e, q')"
  by (auto simp: peek_pop)

end

interpretation heap: min_queue heap_push heap_pop heap_peek mset sched_ord heap_ok
  by unfold_locales
    (auto simp: heap_push_def heap_pop_def heap_peek_def heap_ok_def sorted_insort_key
      split: list.splits)

section \<open>The state\<close>

record BacktestState =
  bt_historical_bars :: "(string, Bar list) hmap"
  bt_bar_indices :: "(string, nat) hmap"
  bt_event_stream_bars :: "(MarketStreamKey, Bar list) hmap"
  bt_event_stream_indices :: "(MarketStreamKey, nat) hmap"
  bt_event_streams :: "(MarketStreamKey, ResolvedEventStream) hmap"
  bt_total_bars :: nat
  bt_current_time :: datetime
  bt_previous_time :: "datetime option"
  bt_account_history :: "(datetime \<times> Account) list"
  bt_trade_log :: "TradeRecord list"
  bt_trade_mae_by_order_id :: "(string, f64) hmap"
  bt_backtest_start :: "datetime option"
  bt_backtest_end :: "datetime option"
  bt_executed_at :: datetime
  bt_finished_at :: "datetime option"
  bt_market_scheduler :: "ScheduledMarketStream list"
  bt_market_scheduler_initialized :: bool
  bt_total_event_bars :: nat
  bt_processed_event_bars :: nat

text \<open>\<open>Utc::now()\<close> is the argument \<open>now\<close>.\<close>

definition backtest_new :: "datetime \<Rightarrow> BacktestState" where
  "backtest_new now = \<lparr>
     bt_historical_bars = [], bt_bar_indices = [], bt_event_stream_bars = [],
     bt_event_stream_indices = [], bt_event_streams = [], bt_total_bars = 0,
     bt_current_time = now, bt_previous_time = None, bt_account_history = [], bt_trade_log = [],
     bt_trade_mae_by_order_id = [], bt_backtest_start = None, bt_backtest_end = None,
     bt_executed_at = now, bt_finished_at = None, bt_market_scheduler = [],
     bt_market_scheduler_initialized = False, bt_total_event_bars = 0, bt_processed_event_bars = 0\<rparr>"

definition load_bars :: "string \<Rightarrow> Bar list \<Rightarrow> BacktestState \<Rightarrow> BacktestState" where
  "load_bars symbol bars st = st\<lparr>
     bt_bar_indices := hm_insert symbol 0 (bt_bar_indices st),
     bt_historical_bars := hm_insert symbol bars (bt_historical_bars st),
     bt_total_bars := max (bt_total_bars st) (length bars)\<rparr>"

definition load_event_stream_bars :: "ResolvedEventStream \<Rightarrow> Bar list \<Rightarrow> BacktestState \<Rightarrow> BacktestState" where
  "load_event_stream_bars stream bars st = st\<lparr>
     bt_event_stream_indices := hm_insert (str_key stream) 0 (bt_event_stream_indices st),
     bt_event_stream_bars := hm_insert (str_key stream) bars (bt_event_stream_bars st),
     bt_event_streams := hm_insert (str_key stream) stream (bt_event_streams st),
     bt_total_bars := max (bt_total_bars st) (length bars),
     bt_market_scheduler := [],
     bt_market_scheduler_initialized := False\<rparr>"

definition set_backtest_window :: "datetime \<Rightarrow> datetime \<Rightarrow> BacktestState \<Rightarrow> BacktestState" where
  "set_backtest_window s e st = st\<lparr>bt_backtest_start := Some s, bt_backtest_end := Some e\<rparr>"

definition get_current_bar :: "BacktestState \<Rightarrow> string \<Rightarrow> Bar option" where
  "get_current_bar st symbol = (case hm_get (bt_bar_indices st) symbol of
       None \<Rightarrow> None
     | Some idx \<Rightarrow> (case hm_get (bt_historical_bars st) symbol of
           None \<Rightarrow> None | Some bars \<Rightarrow> nth_opt bars idx))"

definition get_current_bars :: "BacktestState \<Rightarrow> (string, Bar) hmap" where
  "get_current_bars st = List.map_filter (\<lambda>(symbol, idx).
     (case hm_get (bt_historical_bars st) symbol of
        None \<Rightarrow> None
      | Some bars \<Rightarrow> map_option (Pair symbol) (nth_opt bars idx))) (bt_bar_indices st)"

definition get_last_bars :: "BacktestState \<Rightarrow> (string, Bar) hmap" where
  "get_last_bars st = List.map_filter (\<lambda>(symbol, bars). map_option (Pair symbol) (last_opt bars))
     (bt_historical_bars st)"

definition stream_bar :: "BacktestState \<Rightarrow> MarketStreamKey \<Rightarrow> nat \<Rightarrow> Bar option" where
  "stream_bar st key i = (case hm_get (bt_event_stream_bars st) key of
     None \<Rightarrow> None | Some bars \<Rightarrow> nth_opt bars i)"

text \<open>The queue entry of a stream's cursor; absent for an unknown or finished stream.\<close>

definition cursor_entry :: "BacktestState \<Rightarrow> MarketStreamKey \<Rightarrow> ScheduledMarketStream option" where
  "cursor_entry st key = (case hm_get (bt_event_stream_indices st) key of
       None \<Rightarrow> None
     | Some index \<Rightarrow> (case stream_bar st key index of
           None \<Rightarrow> None
         | Some bar \<Rightarrow> Some \<lparr>sch_timestamp = bar_timestamp bar, sch_key = key,
             sch_timeframe_label = compact_label (key_timeframe key), sch_index = index\<rparr>))"

definition schedule_current_stream :: "MarketStreamKey \<Rightarrow> BacktestState \<Rightarrow> BacktestState" where
  "schedule_current_stream key st = (case cursor_entry st key of
       None \<Rightarrow> st
     | Some e \<Rightarrow> st\<lparr>bt_market_scheduler := heap_push e (bt_market_scheduler st)\<rparr>)"

definition is_current_schedule_entry :: "BacktestState \<Rightarrow> ScheduledMarketStream \<Rightarrow> bool" where
  "is_current_schedule_entry st s \<longleftrightarrow>
     hm_get (bt_event_stream_indices st) (sch_key s) = Some (sch_index s)
     \<and> (case stream_bar st (sch_key s) (sch_index s) of
          None \<Rightarrow> False | Some bar \<Rightarrow> bar_timestamp bar = sch_timestamp s)"

definition stream_len :: "BacktestState \<Rightarrow> MarketStreamKey \<Rightarrow> nat" where
  "stream_len st key = (case hm_get (bt_event_stream_bars st) key of None \<Rightarrow> 0 | Some bars \<Rightarrow> length bars)"

definition initialize_market_scheduler :: "BacktestState \<Rightarrow> BacktestState" where
  "initialize_market_scheduler st =
     (if bt_market_scheduler_initialized st then st
      else let st = st\<lparr>bt_market_scheduler := [],
                  bt_total_event_bars := sum_list (map (length \<circ> snd) (bt_event_stream_bars st)),
                  bt_processed_event_bars := sum_list (map (\<lambda>(key, index). min index (stream_len st key))
                                               (bt_event_stream_indices st))\<rparr>;
               st = fold schedule_current_stream (hm_keys (bt_event_stream_indices st)) st
           in st\<lparr>bt_market_scheduler_initialized := True\<rparr>)"

text \<open>
  The first loop of \<open>next_market_step\<close>: pop until an entry is the current one of its stream,
  rescheduling the streams of stale entries.
\<close>

definition stale_entries :: "BacktestState \<Rightarrow> nat" where
  "stale_entries st = size (filter_mset (\<lambda>s. \<not> is_current_schedule_entry st s) (mset (bt_market_scheduler st)))"

lemma stream_bar_scheduler_irrelevant [simp]:
  "stream_bar (st\<lparr>bt_market_scheduler := h\<rparr>) = stream_bar st"
  by (intro ext) (simp add: stream_bar_def)

lemma is_current_scheduler_irrelevant [simp]:
  "is_current_schedule_entry (st\<lparr>bt_market_scheduler := h\<rparr>) = is_current_schedule_entry st"
  by (rule ext) (simp add: is_current_schedule_entry_def)

lemma cursor_entry_scheduler_irrelevant [simp]:
  "cursor_entry (st\<lparr>bt_market_scheduler := h\<rparr>) = cursor_entry st"
  by (rule ext) (simp add: cursor_entry_def split: option.split)

lemma cursor_entry_current: "cursor_entry st key = Some e \<Longrightarrow> is_current_schedule_entry st e"
  by (auto simp: cursor_entry_def is_current_schedule_entry_def split: option.splits)

lemma schedule_current_stale:
  "stale_entries (schedule_current_stream key st) = stale_entries st"
  by (auto simp: schedule_current_stream_def stale_entries_def heap.entries_push
      dest: cursor_entry_current split: option.splits)

function pop_current :: "BacktestState \<Rightarrow> (ScheduledMarketStream \<times> BacktestState) option" where
  "pop_current st = (case heap_pop (bt_market_scheduler st) of
       None \<Rightarrow> None
     | Some (s, h) \<Rightarrow>
         (let st' = st\<lparr>bt_market_scheduler := h\<rparr>
          in if is_current_schedule_entry st' s then Some (s, st')
             else pop_current (schedule_current_stream (sch_key s) st')))"
  by pat_completeness auto
termination
proof (relation "measure stale_entries")
  show "wf (measure stale_entries)" by simp
next
  fix st p s h st'
  assume a: "heap_pop (bt_market_scheduler st) = Some p" "(s, h) = p"
    "st' = st\<lparr>bt_market_scheduler := h\<rparr>" "\<not> is_current_schedule_entry st' s"
  then have "mset (bt_market_scheduler st) = add_mset s (mset h)"
    using heap.pop_entries by metis
  then show "(schedule_current_stream (sch_key s) st', st) \<in> measure stale_entries"
    using a(3,4) by (simp add: schedule_current_stale) (simp add: stale_entries_def)
qed

declare pop_current.simps [simp del]

text \<open>
  The second loop: all further entries of the same time.  A popped entry whose stream is already
  in the step is pushed back, so that the loop does not end on a duplicate entry; the value None
  is that divergence.
\<close>

partial_function (option) pop_same_time ::
  "datetime \<Rightarrow> MarketStreamKey list \<Rightarrow> ScheduledMarketStream list \<Rightarrow> BacktestState
    \<Rightarrow> (ScheduledMarketStream list \<times> BacktestState) option" where
  "pop_same_time ts keys streams st = (case heap_pop (bt_market_scheduler st) of
       None \<Rightarrow> Some (streams, st)
     | Some (s, h) \<Rightarrow>
         (if sch_timestamp s \<noteq> ts then Some (streams, st)
          else let st' = st\<lparr>bt_market_scheduler := h\<rparr>
               in if is_current_schedule_entry st' s \<and> sch_key s \<notin> set keys
                  then pop_same_time ts (sch_key s # keys) (streams @ [s]) st'
                  else pop_same_time ts keys streams (schedule_current_stream (sch_key s) st')))"

text \<open>The events and execution bars of the popped entries.\<close>

fun collect_events ::
  "BacktestState \<Rightarrow> datetime \<Rightarrow> ScheduledMarketStream list
    \<Rightarrow> MarketDataEvent list \<times> (string, Bar) hmap \<times> bool
    \<Rightarrow> MarketDataEvent list \<times> (string, Bar) hmap \<times> bool" where
  "collect_events st ts [] acc = acc"
| "collect_events st ts (s # ss) (events, exec, tradable) =
     (case stream_bar st (sch_key s) (sch_index s) of
        None \<Rightarrow> collect_events st ts ss (events, exec, tradable)
      | Some bar \<Rightarrow>
          if bar_timestamp bar \<noteq> ts then collect_events st ts ss (events, exec, tradable)
          else (case hm_get (bt_event_streams st) (sch_key s) of
              None \<Rightarrow> collect_events st ts ss (events, exec, tradable)
            | Some stream \<Rightarrow>
                let tradable' = (tradable \<or> str_allow_trading stream);
                    exec' = (if str_allow_trading stream \<and> \<not> str_is_feature stream
                             then hm_insert (key_symbol (sch_key s)) bar exec else exec)
                in collect_events st ts ss
                     (events @ [\<lparr>mev_context = context_at stream ts, mev_bar = bar\<rparr>], exec', tradable')))"

text \<open>
  The result is None when the second loop does not return, and otherwise the step (or its
  absence) with the new state.
\<close>

definition next_market_step :: "BacktestState \<Rightarrow> (BacktestMarketStep option \<times> BacktestState) option" where
  "next_market_step st =
     (let st = initialize_market_scheduler st
      in case pop_current st of
           None \<Rightarrow> Some (None, st\<lparr>bt_market_scheduler := []\<rparr>)
         | Some (first, st) \<Rightarrow>
             (let ts = sch_timestamp first
              in case pop_same_time ts [sch_key first] [first] st of
                   None \<Rightarrow> None
                 | Some (streams, st) \<Rightarrow>
                     (let st = st\<lparr>bt_previous_time := Some (bt_current_time st), bt_current_time := ts\<rparr>;
                          (events, exec, tradable) = collect_events st ts streams ([], [], False)
                      in if events = [] then Some (None, st)
                         else Some (Some \<lparr>step_timestamp = ts, step_events = events,
                                step_execution_bars = exec, step_has_tradable_events = tradable\<rparr>, st))))"

definition event_key :: "MarketDataEvent \<Rightarrow> MarketStreamKey" where
  "event_key e = \<lparr>key_event_type = ctx_event_type (mev_context e), key_symbol = ctx_symbol (mev_context e),
     key_timeframe = ctx_timeframe (mev_context e)\<rparr>"

definition advance_event :: "MarketDataEvent \<Rightarrow> BacktestState \<Rightarrow> BacktestState" where
  "advance_event e st =
     (let key = event_key e;
          st = (case hm_get (bt_event_stream_indices st) key of
                  None \<Rightarrow> st
                | Some idx \<Rightarrow>
                    if idx < stream_len st key
                    then st\<lparr>bt_event_stream_indices := hm_insert key (Suc idx) (bt_event_stream_indices st),
                            bt_processed_event_bars := Suc (bt_processed_event_bars st)\<rparr>
                    else st);
          st = schedule_current_stream key st
      in if ctx_is_feature (mev_context e) then st
         else st\<lparr>bt_bar_indices := hm_modify (ctx_symbol (mev_context e)) Suc (bt_bar_indices st)\<rparr>)"

definition advance_market_step :: "BacktestMarketStep \<Rightarrow> BacktestState \<Rightarrow> BacktestState" where
  "advance_market_step step st = fold advance_event (step_events step) st"

definition is_market_stream_complete :: "BacktestState \<Rightarrow> bool" where
  "is_market_stream_complete st =
     (if bt_market_scheduler_initialized st then bt_total_event_bars st \<le> bt_processed_event_bars st
      else list_all (\<lambda>(key, idx). case hm_get (bt_event_stream_bars st) key of
              None \<Rightarrow> True | Some bars \<Rightarrow> length bars \<le> idx) (bt_event_stream_indices st))"

record BacktestProgressSnapshot =
  prog_processed_steps :: nat
  prog_total_steps :: nat
  prog_progress_pct :: f64
  prog_current_time :: "datetime option"
  prog_stream_count :: nat
  prog_tradable_stream_count :: nat

definition progress_snapshot :: "BacktestState \<Rightarrow> BacktestProgressSnapshot" where
  "progress_snapshot st =
     (let (total_steps, processed_steps) =
            (if bt_market_scheduler_initialized st
             then (bt_total_event_bars st, bt_processed_event_bars st)
             else (sum_list (map (length \<circ> snd) (bt_event_stream_bars st)),
                   sum_list (map snd (bt_event_stream_indices st))));
          pct = (if 0 < total_steps
                 then (of_integer_f64 (int (min processed_steps total_steps)) / of_integer_f64 (int total_steps)) * lit 100
                 else 0)
      in \<lparr>prog_processed_steps = min processed_steps total_steps, prog_total_steps = total_steps,
          prog_progress_pct = pct, prog_current_time = Some (bt_current_time st),
          prog_stream_count = length (bt_event_stream_bars st),
          prog_tradable_stream_count = length (filter (str_allow_trading \<circ> snd) (bt_event_streams st))\<rparr>)"

text \<open>\<open>advance\<close> and \<open>is_complete\<close>: the single-timeframe replay.\<close>

definition advance_symbol :: "string \<Rightarrow> BacktestState \<times> bool \<Rightarrow> BacktestState \<times> bool" where
  "advance_symbol symbol p = (case p of (st, any_remaining) \<Rightarrow>
     (case hm_get (bt_bar_indices st) symbol of
        None \<Rightarrow> (st, any_remaining)
      | Some idx \<Rightarrow>
          let bars = unwrap_or (hm_get (bt_historical_bars st) symbol) []
          in if idx + 1 < length bars
             then (st\<lparr>bt_bar_indices := hm_insert symbol (idx + 1) (bt_bar_indices st),
                      bt_current_time := max (bt_current_time st) (bar_timestamp (bars ! (idx + 1)))\<rparr>, True)
             else (st, any_remaining)))"

definition advance :: "BacktestState \<Rightarrow> BacktestState \<times> bool" where
  "advance st = fold advance_symbol (hm_keys (bt_bar_indices st))
     (st\<lparr>bt_previous_time := Some (bt_current_time st)\<rparr>, False)"

definition is_complete :: "BacktestState \<Rightarrow> bool" where
  "is_complete st = list_all (\<lambda>(symbol, idx). case hm_get (bt_historical_bars st) symbol of
       None \<Rightarrow> True | Some bars \<Rightarrow> length bars \<le> idx + 1) (bt_bar_indices st)"

definition snapshot_account :: "Account \<Rightarrow> BacktestState \<Rightarrow> BacktestState" where
  "snapshot_account account st = st\<lparr>bt_account_history := bt_account_history st @ [(bt_current_time st, account)]\<rparr>"

definition record_trade :: "TradeRecord \<Rightarrow> BacktestState \<Rightarrow> BacktestState" where
  "record_trade r st = st\<lparr>bt_trade_log := bt_trade_log st @ [r]\<rparr>"

definition record_trade_mae :: "string \<Rightarrow> f64 \<Rightarrow> BacktestState \<Rightarrow> BacktestState" where
  "record_trade_mae oid mae st = st\<lparr>bt_trade_mae_by_order_id :=
     (case hm_get (bt_trade_mae_by_order_id st) oid of
        Some v \<Rightarrow> hm_insert oid (fmin v mae) (bt_trade_mae_by_order_id st)
      | None \<Rightarrow> hm_insert oid (fmin mae 0) (bt_trade_mae_by_order_id st))\<rparr>"

end
