(* ===== verification/MarketReplay.thy ===== *)
theory MarketReplay
  imports BacktestState
begin

text \<open>
  Correctness of the market scheduler of \<open>BacktestState\<close>: under the invariant that the queue
  holds the cursor entry of every unfinished stream once, \<open>next_market_step\<close> returns, gives the
  earliest time and exactly the streams due at that time, and \<open>advance_market_step\<close> restores the
  invariant.  A whole replay then emits every bar of every stream once and in stream order.
\<close>

section \<open>The invariant\<close>

definition streams_ok :: "BacktestState \<Rightarrow> bool" where
  "streams_ok st \<longleftrightarrow> hm_ok (bt_event_stream_indices st) \<and> hm_ok (bt_event_stream_bars st)
     \<and> set (hm_keys (bt_event_stream_indices st)) = set (hm_keys (bt_event_stream_bars st))
     \<and> (\<forall>k. hm_get (bt_event_stream_indices st) k \<noteq> None
          \<longrightarrow> (\<exists>s. hm_get (bt_event_streams st) k = Some s \<and> str_key s = k))
     \<and> (\<forall>k i. hm_get (bt_event_stream_indices st) k = Some i \<longrightarrow> i \<le> stream_len st k)"

text \<open>The queue holds the cursor entries of the streams outside \<open>K\<close>, each once.\<close>

definition queue_holds :: "MarketStreamKey set \<Rightarrow> BacktestState \<Rightarrow> bool" where
  "queue_holds K st \<longleftrightarrow> heap_ok (bt_market_scheduler st) \<and> distinct (bt_market_scheduler st)
     \<and> (\<forall>e. e \<in> set (bt_market_scheduler st)
          \<longleftrightarrow> sch_key e \<notin> K \<and> cursor_entry st (sch_key e) = Some e)"

lemma cursor_entry_SomeD:
  "cursor_entry st k = Some e \<Longrightarrow> sch_key e = k
    \<and> hm_get (bt_event_stream_indices st) k = Some (sch_index e)
    \<and> (\<exists>b. stream_bar st k (sch_index e) = Some b \<and> bar_timestamp b = sch_timestamp e)"
  by (auto simp: cursor_entry_def split: option.splits)

lemma queue_holds_keys_inj:
  assumes "queue_holds K st" "e \<in> set (bt_market_scheduler st)" "d \<in> set (bt_market_scheduler st)"
    "sch_key e = sch_key d"
  shows "e = d"
  using assms by (auto simp: queue_holds_def)

lemma queue_holds_current:
  "queue_holds K st \<Longrightarrow> e \<in> set (bt_market_scheduler st) \<Longrightarrow> is_current_schedule_entry st e"
  by (auto simp: queue_holds_def dest: cursor_entry_current)

lemma heap_push_facts [simp]:
  "set (heap_push e h) = insert e (set h)"
  "distinct (heap_push e h) \<longleftrightarrow> e \<notin> set h \<and> distinct h"
  by (auto simp: heap_push_def set_insort_key distinct_insort)

text \<open>Scheduling a stream that is not in the queue adds its cursor entry.\<close>

lemma queue_holdsI:
  assumes "heap_ok (bt_market_scheduler st)" "distinct (bt_market_scheduler st)"
    "\<And>e. e \<in> set (bt_market_scheduler st) \<longleftrightarrow> sch_key e \<notin> K \<and> cursor_entry st (sch_key e) = Some e"
  shows "queue_holds K st"
  using assms by (simp add: queue_holds_def)

lemma queue_holdsD:
  assumes "queue_holds K st"
  shows "heap_ok (bt_market_scheduler st)" "distinct (bt_market_scheduler st)"
    "e \<in> set (bt_market_scheduler st) \<longleftrightarrow> sch_key e \<notin> K \<and> cursor_entry st (sch_key e) = Some e"
  using assms unfolding queue_holds_def by blast+

lemma queue_holds_schedule:
  assumes "queue_holds K st" "k \<in> K"
  shows "queue_holds (K - {k}) (schedule_current_stream k st)"
proof (cases "cursor_entry st k")
  case None
  have "sch_key e \<notin> K \<longleftrightarrow> sch_key e \<notin> K - {k}" if "cursor_entry st (sch_key e) = Some e" for e
    using None that by (cases "sch_key e = k") auto
  then have "queue_holds (K - {k}) st"
    using queue_holdsD [OF assms(1)] by (intro queue_holdsI) blast+
  then show ?thesis using None by (simp add: schedule_current_stream_def)
next
  case (Some e)
  let ?h = "heap_push e (bt_market_scheduler st)"
  have key: "sch_key e = k" using Some by (auto dest: cursor_entry_SomeD)
  have new: "e \<notin> set (bt_market_scheduler st)" using queue_holdsD(3) [OF assms(1)] assms(2) key by blast
  have "x \<in> insert e (set (bt_market_scheduler st)) \<longleftrightarrow> sch_key x \<notin> K - {k} \<and> cursor_entry st (sch_key x) = Some x"
    for x
    using queue_holdsD(3) [OF assms(1), of x] Some key assms(2) by (cases "sch_key x = k") auto
  then have "queue_holds (K - {k}) (st\<lparr>bt_market_scheduler := ?h\<rparr>)"
    using queue_holdsD(1,2) [OF assms(1)] new
    by (intro queue_holdsI) (simp_all add: heap.ok_push)
  then show ?thesis using Some by (simp add: schedule_current_stream_def)
qed

lemma queue_holds_fold_schedule:
  assumes "queue_holds K st" "set ks \<subseteq> K" "distinct ks"
  shows "queue_holds (K - set ks) (fold schedule_current_stream ks st)"
  using assms
proof (induction ks arbitrary: K st)
  case (Cons k ks)
  then have "queue_holds (K - {k}) (schedule_current_stream k st)"
    by (intro queue_holds_schedule) auto
  then have "queue_holds (K - {k} - set ks) (fold schedule_current_stream ks (schedule_current_stream k st))"
    using Cons.prems by (intro Cons.IH) auto
  moreover have "K - {k} - set ks = K - set (k # ks)" by auto
  ultimately show ?case by simp
qed simp

section \<open>Initialisation\<close>

lemma schedule_current_frame [simp]:
  "bt_event_stream_indices (schedule_current_stream k st) = bt_event_stream_indices st"
  "bt_event_stream_bars (schedule_current_stream k st) = bt_event_stream_bars st"
  "bt_event_streams (schedule_current_stream k st) = bt_event_streams st"
  "bt_total_event_bars (schedule_current_stream k st) = bt_total_event_bars st"
  "bt_processed_event_bars (schedule_current_stream k st) = bt_processed_event_bars st"
  "bt_market_scheduler_initialized (schedule_current_stream k st) = bt_market_scheduler_initialized st"
  by (auto simp: schedule_current_stream_def split: option.split)

lemma fold_schedule_frame [simp]:
  "bt_event_stream_indices (fold schedule_current_stream ks st) = bt_event_stream_indices st"
  "bt_event_stream_bars (fold schedule_current_stream ks st) = bt_event_stream_bars st"
  "bt_event_streams (fold schedule_current_stream ks st) = bt_event_streams st"
  "bt_total_event_bars (fold schedule_current_stream ks st) = bt_total_event_bars st"
  "bt_processed_event_bars (fold schedule_current_stream ks st) = bt_processed_event_bars st"
  by (induction ks arbitrary: st) auto

lemma cursor_entry_cong:
  "bt_event_stream_indices st = bt_event_stream_indices st' \<Longrightarrow> bt_event_stream_bars st = bt_event_stream_bars st'
    \<Longrightarrow> cursor_entry st = cursor_entry st'"
  by (rule ext) (simp add: cursor_entry_def stream_bar_def split: option.split)

lemma streams_ok_cong:
  "bt_event_stream_indices st = bt_event_stream_indices st' \<Longrightarrow> bt_event_stream_bars st = bt_event_stream_bars st'
    \<Longrightarrow> bt_event_streams st = bt_event_streams st' \<Longrightarrow> streams_ok st = streams_ok st'"
  by (simp add: streams_ok_def stream_len_def)

lemma queue_holds_cong:
  "bt_event_stream_indices st = bt_event_stream_indices st' \<Longrightarrow> bt_event_stream_bars st = bt_event_stream_bars st'
    \<Longrightarrow> bt_market_scheduler st = bt_market_scheduler st' \<Longrightarrow> queue_holds K st = queue_holds K st'"
  using cursor_entry_cong [of st st'] by (simp add: queue_holds_def)

lemma queue_holds_UNIV: "bt_market_scheduler st = [] \<Longrightarrow> queue_holds UNIV st"
  by (simp add: queue_holds_def heap_ok_def)

lemma cursor_None_outside: "k \<notin> set (hm_keys (bt_event_stream_indices st)) \<Longrightarrow> cursor_entry st k = None"
  using hm_get_keys [of "bt_event_stream_indices st" k] by (auto simp: cursor_entry_def)

lemma initialize_establishes:
  assumes "streams_ok st" "\<not> bt_market_scheduler_initialized st"
  shows "queue_holds {} (initialize_market_scheduler st)"
proof -
  let ?s0 = "st\<lparr>bt_market_scheduler := [],
      bt_total_event_bars := sum_list (map (length \<circ> snd) (bt_event_stream_bars st)),
      bt_processed_event_bars := sum_list (map (\<lambda>(key, index). min index (stream_len st key))
                                               (bt_event_stream_indices st))\<rparr>"
  let ?ks = "hm_keys (bt_event_stream_indices st)"
  let ?s1 = "fold schedule_current_stream ?ks ?s0"
  have d: "distinct ?ks" using assms(1) by (simp add: streams_ok_def hm_ok_def hm_keys_def)
  have "queue_holds (UNIV - set ?ks) ?s1"
    by (rule queue_holds_fold_schedule [OF queue_holds_UNIV]) (use d in auto)
  moreover have "cursor_entry ?s1 k = None" if "k \<notin> set ?ks" for k
    using cursor_None_outside [of k st] that by (simp add: cursor_entry_cong [of ?s1 st])
  ultimately have "queue_holds {} ?s1" by (auto simp: queue_holds_def)
  then have "queue_holds {} (?s1\<lparr>bt_market_scheduler_initialized := True\<rparr>)"
    by (subst queue_holds_cong [of _ ?s1]) simp_all
  then show ?thesis using assms(2) by (simp add: initialize_market_scheduler_def Let_def)
qed

lemma initialize_frame [simp]:
  "bt_event_stream_indices (initialize_market_scheduler st) = bt_event_stream_indices st"
  "bt_event_stream_bars (initialize_market_scheduler st) = bt_event_stream_bars st"
  "bt_event_streams (initialize_market_scheduler st) = bt_event_streams st"
  "bt_market_scheduler_initialized (initialize_market_scheduler st)"
  by (simp_all add: initialize_market_scheduler_def Let_def)

section \<open>One step\<close>

definition entry_event :: "BacktestState \<Rightarrow> ScheduledMarketStream \<Rightarrow> MarketDataEvent" where
  "entry_event st e = \<lparr>
     mev_context = context_at (the (hm_get (bt_event_streams st) (sch_key e))) (sch_timestamp e),
     mev_bar = the (stream_bar st (sch_key e) (sch_index e))\<rparr>"

definition due_entries :: "BacktestState \<Rightarrow> ScheduledMarketStream list" where
  "due_entries st = (case bt_market_scheduler st of [] \<Rightarrow> []
     | s # h \<Rightarrow> takeWhile (\<lambda>e. sch_timestamp e = sch_timestamp s) (s # h))"

definition later_entries :: "BacktestState \<Rightarrow> ScheduledMarketStream list" where
  "later_entries st = (case bt_market_scheduler st of [] \<Rightarrow> []
     | s # h \<Rightarrow> dropWhile (\<lambda>e. sch_timestamp e = sch_timestamp s) (s # h))"

lemma scheduler_update_collapse [simp]:
  "st\<lparr>bt_market_scheduler := h\<rparr>\<lparr>bt_market_scheduler := h'\<rparr> = st\<lparr>bt_market_scheduler := h'\<rparr>"
  by simp

lemma pop_same_time_run:
  assumes "\<forall>e \<in> set h. is_current_schedule_entry st e" "distinct (map sch_key h)"
    "set (map sch_key h) \<inter> set keys = {}"
  shows "pop_same_time ts keys streams (st\<lparr>bt_market_scheduler := h\<rparr>)
    = Some (streams @ takeWhile (\<lambda>e. sch_timestamp e = ts) h,
            st\<lparr>bt_market_scheduler := dropWhile (\<lambda>e. sch_timestamp e = ts) h\<rparr>)"
  using assms
proof (induction h arbitrary: keys streams)
  case Nil
  then show ?case by (simp add: pop_same_time.simps heap_pop_def)
next
  case (Cons s h)
  show ?case
  proof (cases "sch_timestamp s = ts")
    case True
    have "pop_same_time ts (sch_key s # keys) (streams @ [s]) (st\<lparr>bt_market_scheduler := h\<rparr>)
      = Some ((streams @ [s]) @ takeWhile (\<lambda>e. sch_timestamp e = ts) h,
            st\<lparr>bt_market_scheduler := dropWhile (\<lambda>e. sch_timestamp e = ts) h\<rparr>)"
      by (rule Cons.IH) (use Cons.prems in auto)
    with True Cons.prems show ?thesis
      by (subst pop_same_time.simps) (simp add: heap_pop_def Let_def)
  next
    case False
    then show ?thesis by (subst pop_same_time.simps) (simp add: heap_pop_def)
  qed
qed

lemma queue_keys_distinct: "queue_holds K st \<Longrightarrow> distinct (map sch_key (bt_market_scheduler st))"
  using queue_holds_keys_inj [of K st] by (auto simp: distinct_map queue_holdsD(2) inj_on_def)

lemma stream_of_cursor:
  assumes "streams_ok st" "cursor_entry st k = Some e"
  shows "\<exists>s. hm_get (bt_event_streams st) k = Some s \<and> str_key s = k"
  using assms cursor_entry_SomeD [OF assms(2)] by (auto simp: streams_ok_def)

lemma collect_events_all:
  assumes "streams_ok st" "\<forall>e \<in> set due. cursor_entry st (sch_key e) = Some e \<and> sch_timestamp e = ts"
  shows "fst (collect_events st ts due acc) = fst acc @ map (entry_event st) due"
  using assms(2)
proof (induction due arbitrary: acc)
  case Nil
  then show ?case by simp
next
  case (Cons e due)
  obtain ev ex tr where acc: "acc = (ev, ex, tr)" by (cases acc)
  have c: "cursor_entry st (sch_key e) = Some e" "sch_timestamp e = ts" using Cons.prems by auto
  obtain b where b: "stream_bar st (sch_key e) (sch_index e) = Some b" "bar_timestamp b = ts"
    using cursor_entry_SomeD [OF c(1)] c(2) by auto
  obtain s where s: "hm_get (bt_event_streams st) (sch_key e) = Some s"
    using stream_of_cursor [OF assms(1) c(1)] by auto
  show ?case using Cons b s c by (simp add: acc Let_def entry_event_def)
qed

lemma due_facts:
  assumes "queue_holds {} st" "e \<in> set (due_entries st)"
  shows "cursor_entry st (sch_key e) = Some e"
    and "sch_timestamp e = sch_timestamp (hd (bt_market_scheduler st))"
    and "e \<in> set (bt_market_scheduler st)"
proof -
  show m: "e \<in> set (bt_market_scheduler st)"
    using assms(2)
    by (cases "bt_market_scheduler st") (auto simp: due_entries_def dest: set_takeWhileD split: if_splits)
  then show "cursor_entry st (sch_key e) = Some e" using queue_holdsD(3) [OF assms(1)] by simp
  show "sch_timestamp e = sch_timestamp (hd (bt_market_scheduler st))"
    using assms(2)
    by (cases "bt_market_scheduler st") (auto simp: due_entries_def dest: set_takeWhileD split: if_splits)
qed

lemma next_market_step_Nil:
  assumes "bt_market_scheduler_initialized st" "bt_market_scheduler st = []"
  shows "next_market_step st = Some (None, st)"
  using assms by (simp add: next_market_step_def initialize_market_scheduler_def
      pop_current.simps heap_pop_def)

lemma next_market_step_Cons:
  assumes ok: "streams_ok st" and init: "bt_market_scheduler_initialized st"
    and q: "queue_holds {} st" and h: "bt_market_scheduler st = s # h"
  shows "\<exists>step. next_market_step st = Some (Some step,
      st\<lparr>bt_market_scheduler := later_entries st, bt_previous_time := Some (bt_current_time st),
         bt_current_time := sch_timestamp s\<rparr>)
    \<and> step_timestamp step = sch_timestamp s \<and> step_events step = map (entry_event st) (due_entries st)"
proof -
  let ?ts = "sch_timestamp s"
  have cur: "\<forall>e \<in> set (s # h). is_current_schedule_entry st e"
    using queue_holds_current [OF q] h by simp
  have dist: "distinct (map sch_key (s # h))" using queue_keys_distinct [OF q] h by simp
  have first: "pop_current st = Some (s, st\<lparr>bt_market_scheduler := h\<rparr>)"
    using cur by (subst pop_current.simps) (simp add: h heap_pop_def)
  have rest: "pop_same_time ?ts [sch_key s] [s] (st\<lparr>bt_market_scheduler := h\<rparr>)
      = Some (due_entries st, st\<lparr>bt_market_scheduler := later_entries st\<rparr>)"
    by (subst pop_same_time_run) (use cur dist in \<open>auto simp: due_entries_def later_entries_def h\<close>)
  let ?st = "st\<lparr>bt_market_scheduler := later_entries st, bt_previous_time := Some (bt_current_time st),
      bt_current_time := ?ts\<rparr>"
  obtain ev ex tr where coll: "collect_events ?st ?ts (due_entries st) ([], [], False) = (ev, ex, tr)"
    by (rule prod_cases3)
  have okst: "streams_ok ?st" by (subst streams_ok_cong [of _ st]) (simp_all add: ok)
  have "fst (collect_events ?st ?ts (due_entries st) ([], [], False)) = [] @ map (entry_event ?st) (due_entries st)"
    using due_facts [OF q] h
    by (subst collect_events_all [OF okst]) (auto simp: cursor_entry_cong [of ?st st])
  then have ev: "ev = map (entry_event st) (due_entries st)"
    by (simp add: coll entry_event_def stream_bar_def)
  have "due_entries st \<noteq> []" by (simp add: due_entries_def h)
  then show ?thesis
    using init first rest coll ev
    by (simp add: next_market_step_def initialize_market_scheduler_def Let_def)
qed

text \<open>The due entries are all entries of the earliest time.\<close>

lemma heap_ok_head_least:
  assumes "heap_ok (s # h)" "e \<in> set h"
  shows "sch_timestamp s \<le> sch_timestamp e"
proof -
  have "sched_ord s \<le> sched_ord e" using assms by (auto simp: heap_ok_def)
  then show ?thesis by (simp add: sched_ord_def less_eq_prod_def) (use order.strict_implies_order in blast)
qed

lemma sorted_split_time:
  assumes "heap_ok h" "\<forall>e \<in> set h. t \<le> sch_timestamp e"
  shows "takeWhile (\<lambda>e. sch_timestamp e = t) h = filter (\<lambda>e. sch_timestamp e = t) h
    \<and> dropWhile (\<lambda>e. sch_timestamp e = t) h = filter (\<lambda>e. sch_timestamp e \<noteq> t) h"
  using assms
proof (induction h)
  case (Cons s h)
  have ok: "heap_ok h" using Cons.prems by (simp add: heap_ok_def)
  show ?case
  proof (cases "sch_timestamp s = t")
    case True then show ?thesis using Cons ok by simp
  next
    case False
    then have "\<forall>e \<in> set h. sch_timestamp e \<noteq> t"
      using heap_ok_head_least [OF Cons.prems(1)] Cons.prems(2) by fastforce
    then show ?thesis using False by (simp add: filter_empty_conv)
  qed
qed simp

lemma due_split:
  assumes "queue_holds {} st" "bt_market_scheduler st = s # h"
  shows "due_entries st = filter (\<lambda>e. sch_timestamp e = sch_timestamp s) (bt_market_scheduler st)"
    and "later_entries st = filter (\<lambda>e. sch_timestamp e \<noteq> sch_timestamp s) (bt_market_scheduler st)"
proof -
  have "heap_ok (s # h)" using queue_holdsD(1) [OF assms(1)] assms(2) by simp
  then show "due_entries st = filter (\<lambda>e. sch_timestamp e = sch_timestamp s) (bt_market_scheduler st)"
    "later_entries st = filter (\<lambda>e. sch_timestamp e \<noteq> sch_timestamp s) (bt_market_scheduler st)"
    using sorted_split_time [of "s # h" "sch_timestamp s"] heap_ok_head_least [of s h] assms(2)
    by (auto simp: due_entries_def later_entries_def)
qed

text \<open>After a step is taken the queue lacks exactly the streams of the step.\<close>

lemma queue_after_step:
  assumes "queue_holds {} st" "bt_market_scheduler st = s # h"
  shows "queue_holds (sch_key ` set (due_entries st)) (st\<lparr>bt_market_scheduler := later_entries st\<rparr>)"
proof (rule queue_holdsI)
  note split = due_split [OF assms] and D = queue_holdsD [OF assms(1)]
  show "heap_ok (bt_market_scheduler (st\<lparr>bt_market_scheduler := later_entries st\<rparr>))"
    using D(1) by (simp add: split heap_ok_def sorted_filter)
  show "distinct (bt_market_scheduler (st\<lparr>bt_market_scheduler := later_entries st\<rparr>))"
    using D(2) by (simp add: split)
  fix e
  have "sch_key e \<notin> sch_key ` set (due_entries st) \<longleftrightarrow> sch_timestamp e \<noteq> sch_timestamp s"
    if "e \<in> set (bt_market_scheduler st)"
    using queue_holds_keys_inj [OF assms(1) that] that by (auto simp: split(1))
  then show "e \<in> set (bt_market_scheduler (st\<lparr>bt_market_scheduler := later_entries st\<rparr>)) \<longleftrightarrow>
      sch_key e \<notin> sch_key ` set (due_entries st)
      \<and> cursor_entry (st\<lparr>bt_market_scheduler := later_entries st\<rparr>) (sch_key e) = Some e"
    using D(3) [of e] by (auto simp: split(2))
qed

section \<open>Advancing\<close>

definition idx_of :: "BacktestState \<Rightarrow> MarketStreamKey \<Rightarrow> nat" where
  "idx_of st k = unwrap_or (hm_get (bt_event_stream_indices st) k) 0"

lemma event_key_entry_event:
  assumes "streams_ok st" "cursor_entry st (sch_key e) = Some e"
  shows "event_key (entry_event st e) = sch_key e"
  using stream_of_cursor [OF assms] by (auto simp: event_key_def entry_event_def context_at_def)

lemma hm_insert_keys: "hm_get m k \<noteq> None \<Longrightarrow> hm_keys (hm_insert k v m) = hm_keys m"
proof (induction m)
  case (Cons p m)
  then show ?case by (cases p) (auto simp: hm_get_def hm_keys_def hm_insert_def)
qed (simp add: hm_get_def)

text \<open>Advancing one event moves that stream's cursor by one and puts its next bar into the queue.\<close>

lemma advance_event_facts:
  assumes ok: "streams_ok st" and q: "queue_holds K st" and k: "event_key e \<in> K"
    and lt: "hm_get (bt_event_stream_indices st) (event_key e) = Some i" "i < stream_len st (event_key e)"
  defines "st' \<equiv> advance_event e st"
  shows "streams_ok st'" and "queue_holds (K - {event_key e}) st'"
    and "\<And>j. idx_of st' j = (if j = event_key e then Suc i else idx_of st j)"
    and "bt_event_stream_bars st' = bt_event_stream_bars st"
    and "bt_event_streams st' = bt_event_streams st"
    and "hm_keys (bt_event_stream_indices st') = hm_keys (bt_event_stream_indices st)"
    and "bt_processed_event_bars st' = Suc (bt_processed_event_bars st)"
    and "bt_total_event_bars st' = bt_total_event_bars st"
    and "bt_market_scheduler_initialized st' = bt_market_scheduler_initialized st"
proof -
  let ?k = "event_key e"
  let ?s1 = "st\<lparr>bt_event_stream_indices := hm_insert ?k (Suc i) (bt_event_stream_indices st),
      bt_processed_event_bars := Suc (bt_processed_event_bars st)\<rparr>"
  let ?s2 = "schedule_current_stream ?k ?s1"
  have st': "st' = (if ctx_is_feature (mev_context e) then ?s2
      else ?s2\<lparr>bt_bar_indices := hm_modify (ctx_symbol (mev_context e)) Suc (bt_bar_indices ?s2)\<rparr>)"
    using lt by (simp add: st'_def advance_event_def Let_def)
  have keys: "hm_keys (bt_event_stream_indices ?s1) = hm_keys (bt_event_stream_indices st)"
    using lt(1) by (simp add: hm_insert_keys)
  have "cursor_entry ?s1 j = cursor_entry st j" if "j \<noteq> ?k" for j
    using that by (simp add: cursor_entry_def stream_bar_def split: option.split)
  then have "queue_holds K ?s1"
    using k queue_holdsD [OF q] by (intro queue_holdsI) (auto, metis+)
  then have q2: "queue_holds (K - {?k}) ?s2" using k by (rule queue_holds_schedule)
  have ok2: "streams_ok ?s2"
    using ok keys lt by (auto simp: streams_ok_def stream_len_def hm_ok_intros)
  show "streams_ok st'" using ok2 by (subst streams_ok_cong [of _ ?s2]) (auto simp: st')
  show "queue_holds (K - {?k}) st'" using q2 by (subst queue_holds_cong [of _ ?s2]) (auto simp: st')
  show "\<And>j. idx_of st' j = (if j = ?k then Suc i else idx_of st j)" by (simp add: idx_of_def st')
  show "bt_event_stream_bars st' = bt_event_stream_bars st" "bt_event_streams st' = bt_event_streams st"
    "hm_keys (bt_event_stream_indices st') = hm_keys (bt_event_stream_indices st)"
    "bt_processed_event_bars st' = Suc (bt_processed_event_bars st)"
    "bt_total_event_bars st' = bt_total_event_bars st"
    "bt_market_scheduler_initialized st' = bt_market_scheduler_initialized st"
    using keys by (simp_all add: st')
qed

lemma advance_all_facts:
  assumes "streams_ok st" "queue_holds (event_key ` set es) st" "distinct (map event_key es)"
    "\<forall>e \<in> set es. idx_of st (event_key e) < stream_len st (event_key e)"
    "\<forall>e \<in> set es. hm_get (bt_event_stream_indices st) (event_key e) \<noteq> None"
  shows "streams_ok (fold advance_event es st)
    \<and> queue_holds {} (fold advance_event es st)
    \<and> (\<forall>j. idx_of (fold advance_event es st) j
         = idx_of st j + (if j \<in> event_key ` set es then 1 else 0))
    \<and> bt_event_stream_bars (fold advance_event es st) = bt_event_stream_bars st
    \<and> hm_keys (bt_event_stream_indices (fold advance_event es st)) = hm_keys (bt_event_stream_indices st)
    \<and> bt_processed_event_bars (fold advance_event es st) = bt_processed_event_bars st + length es
    \<and> bt_total_event_bars (fold advance_event es st) = bt_total_event_bars st
    \<and> bt_market_scheduler_initialized (fold advance_event es st) = bt_market_scheduler_initialized st"
  using assms
proof (induction es arbitrary: st)
  case Nil
  then show ?case by simp
next
  case (Cons e es)
  let ?k = "event_key e" and ?s = "advance_event e st"
  obtain i where i: "hm_get (bt_event_stream_indices st) ?k = Some i" "i < stream_len st ?k"
    using Cons.prems(4,5) by (auto simp: idx_of_def)
  note F = advance_event_facts [OF Cons.prems(1,2) _ i]
  have K: "event_key ` set (e # es) - {?k} = event_key ` set es" using Cons.prems(3) by auto
  have len: "stream_len ?s j = stream_len st j" for j using F(4) by (simp add: stream_len_def)
  have get: "hm_get (bt_event_stream_indices ?s) j \<noteq> None \<longleftrightarrow> hm_get (bt_event_stream_indices st) j \<noteq> None" for j
    using F(6) by (simp only: hm_get_keys) simp
  have ne: "event_key d \<noteq> ?k" if "d \<in> set es" for d
    using that Cons.prems(3) by (metis distinct.simps(2) image_eqI list.simps(9) set_map)
  have IH: "streams_ok (fold advance_event es ?s)
    \<and> queue_holds {} (fold advance_event es ?s)
    \<and> (\<forall>j. idx_of (fold advance_event es ?s) j = idx_of ?s j + (if j \<in> event_key ` set es then 1 else 0))
    \<and> bt_event_stream_bars (fold advance_event es ?s) = bt_event_stream_bars ?s
    \<and> hm_keys (bt_event_stream_indices (fold advance_event es ?s)) = hm_keys (bt_event_stream_indices ?s)
    \<and> bt_processed_event_bars (fold advance_event es ?s) = bt_processed_event_bars ?s + length es
    \<and> bt_total_event_bars (fold advance_event es ?s) = bt_total_event_bars ?s
    \<and> bt_market_scheduler_initialized (fold advance_event es ?s) = bt_market_scheduler_initialized ?s"
  proof (rule Cons.IH)
    show "streams_ok ?s" "queue_holds (event_key ` set es) ?s" using F(1,2) K by simp_all
    show "distinct (map event_key es)" using Cons.prems(3) by simp
    show "\<forall>d \<in> set es. idx_of ?s (event_key d) < stream_len ?s (event_key d)"
      using Cons.prems(4) F(3) ne by (simp add: len)
    show "\<forall>d \<in> set es. hm_get (bt_event_stream_indices ?s) (event_key d) \<noteq> None"
      using Cons.prems(5) get by simp
  qed
  have k1: "idx_of st ?k = i" using i(1) by (simp add: idx_of_def)
  have k2: "?k \<notin> event_key ` set es" using Cons.prems(3) by simp
  have a: "idx_of (fold advance_event es ?s) j = idx_of ?s j + (if j \<in> event_key ` set es then 1 else 0)" for j
    using IH by blast
  have b: "idx_of ?s j = (if j = ?k then Suc i else idx_of st j)" for j by (rule F(3)) simp
  have "idx_of (fold advance_event es ?s) j
      = idx_of st j + (if j \<in> event_key ` set (e # es) then 1 else 0)" for j
    unfolding a b using k1 k2 by auto
  moreover have "bt_event_stream_bars ?s = bt_event_stream_bars st"
    "hm_keys (bt_event_stream_indices ?s) = hm_keys (bt_event_stream_indices st)"
    "bt_processed_event_bars ?s = Suc (bt_processed_event_bars st)"
    "bt_total_event_bars ?s = bt_total_event_bars st"
    "bt_market_scheduler_initialized ?s = bt_market_scheduler_initialized st"
    using F(4,6-9) by simp_all
  ultimately show ?case using IH by simp
qed

section \<open>Replays\<close>

definition stream_keys :: "BacktestState \<Rightarrow> MarketStreamKey set" where
  "stream_keys st = set (hm_keys (bt_event_stream_indices st))"

definition stream_bars :: "BacktestState \<Rightarrow> MarketStreamKey \<Rightarrow> Bar list" where
  "stream_bars st k = unwrap_or (hm_get (bt_event_stream_bars st) k) []"

definition remaining :: "BacktestState \<Rightarrow> nat" where
  "remaining st = (\<Sum>k \<in> stream_keys st. stream_len st k - idx_of st k)"

definition counts_ok :: "BacktestState \<Rightarrow> bool" where
  "counts_ok st \<longleftrightarrow> bt_total_event_bars st = (\<Sum>k \<in> stream_keys st. stream_len st k)
     \<and> bt_processed_event_bars st = (\<Sum>k \<in> stream_keys st. idx_of st k)"

definition replay_inv :: "BacktestState \<Rightarrow> bool" where
  "replay_inv st \<longleftrightarrow> streams_ok st
     \<and> (bt_market_scheduler_initialized st \<longrightarrow> queue_holds {} st \<and> counts_ok st)"

text \<open>The calls \<open>UnifiedBroker::step_market_streams\<close> makes, at most \<open>n\<close> times.\<close>

fun replay :: "nat \<Rightarrow> BacktestState \<Rightarrow> (BacktestMarketStep list \<times> BacktestState) option" where
  "replay 0 st = Some ([], st)"
| "replay (Suc n) st =
     (if is_market_stream_complete st then Some ([], st)
      else case next_market_step st of
             None \<Rightarrow> None
           | Some (None, st') \<Rightarrow> Some ([], st')
           | Some (Some step, st') \<Rightarrow>
               (case replay n (advance_market_step step st') of
                  None \<Rightarrow> None
                | Some (steps, st'') \<Rightarrow> Some (step # steps, st'')))"

definition emitted :: "MarketStreamKey \<Rightarrow> BacktestMarketStep list \<Rightarrow> Bar list" where
  "emitted k steps = map mev_bar (filter (\<lambda>e. event_key e = k) (concat (map step_events steps)))"

lemma hm_sum:
  assumes "hm_ok m"
  shows "sum_list (map (\<lambda>(k, v). f k v) m) = (\<Sum>k \<in> set (hm_keys m). f k (the (hm_get m k)))"
proof -
  have "sum_list (map (\<lambda>(k, v). f k v) m) = sum_list (map (\<lambda>k. f k (the (hm_get m k))) (hm_keys m))"
    unfolding hm_keys_def map_map
    by (rule arg_cong [where f = sum_list], rule map_cong)
      (use assms in \<open>auto simp: hm_ok_def hm_get_def\<close>)
  also have "\<dots> = (\<Sum>k \<in> set (hm_keys m). f k (the (hm_get m k)))"
    using assms by (subst sum.distinct_set_conv_list) (simp_all add: hm_ok_def hm_keys_def)
  finally show ?thesis .
qed

lemma streams_okD:
  assumes "streams_ok st"
  shows "hm_ok (bt_event_stream_indices st)" "hm_ok (bt_event_stream_bars st)"
    "stream_keys st = set (hm_keys (bt_event_stream_bars st))"
    "k \<in> stream_keys st \<Longrightarrow> idx_of st k \<le> stream_len st k"
  using assms hm_get_keys [of "bt_event_stream_indices st" k]
  by (auto simp: streams_ok_def stream_keys_def idx_of_def)

lemma initialize_counts:
  assumes "streams_ok st" "\<not> bt_market_scheduler_initialized st"
  shows "counts_ok (initialize_market_scheduler st)"
proof -
  note D = streams_okD [OF assms(1)]
  let ?st = "initialize_market_scheduler st"
  have same: "stream_keys ?st = stream_keys st" "stream_len ?st = stream_len st" "idx_of ?st = idx_of st"
    by (auto simp: stream_keys_def stream_len_def idx_of_def)
  have "bt_total_event_bars ?st = sum_list (map (\<lambda>(k, v). length v) (bt_event_stream_bars st))"
    using assms(2) by (simp add: initialize_market_scheduler_def Let_def comp_def case_prod_unfold)
  also have "\<dots> = (\<Sum>k \<in> stream_keys st. stream_len st k)"
    unfolding hm_sum [OF D(2)] D(3)
    by (rule sum.cong) (auto simp: stream_len_def hm_get_keys [symmetric])
  finally have t: "bt_total_event_bars ?st = (\<Sum>k \<in> stream_keys st. stream_len st k)" .
  have "bt_processed_event_bars ?st
      = sum_list (map (\<lambda>(k, v). min v (stream_len st k)) (bt_event_stream_indices st))"
    using assms(2) by (simp add: initialize_market_scheduler_def Let_def)
  also have "\<dots> = (\<Sum>k \<in> stream_keys st. min (idx_of st k) (stream_len st k))"
    unfolding hm_sum [OF D(1)] stream_keys_def
    by (rule sum.cong) (auto simp: idx_of_def hm_get_keys [symmetric])
  also have "\<dots> = (\<Sum>k \<in> stream_keys st. idx_of st k)"
    by (rule sum.cong) (use D(4) in \<open>auto simp: min_def dest: antisym\<close>)
  finally show ?thesis using t by (simp add: counts_ok_def same)
qed


lemma initialized_next:
  "next_market_step (initialize_market_scheduler st) = next_market_step st"
proof -
  have "initialize_market_scheduler (initialize_market_scheduler st) = initialize_market_scheduler st"
    using initialize_frame(4) [of st] by (subst initialize_market_scheduler_def) simp
  then show ?thesis by (simp only: next_market_step_def)
qed

lemma finite_stream_keys [simp]: "finite (stream_keys st)"
  by (simp add: stream_keys_def)

lemma complete_iff_remaining:
  assumes "replay_inv st"
  shows "is_market_stream_complete st \<longleftrightarrow> remaining st = 0"
proof -
  have ok: "streams_ok st" using assms by (simp add: replay_inv_def)
  note D = streams_okD [OF ok]
  have sum: "remaining st + (\<Sum>k \<in> stream_keys st. idx_of st k) = (\<Sum>k \<in> stream_keys st. stream_len st k)"
    unfolding remaining_def sum.distrib [symmetric] by (rule sum.cong) (use D(4) in auto)
  show ?thesis
  proof (cases "bt_market_scheduler_initialized st")
    case True
    then have "counts_ok st" using assms by (simp add: replay_inv_def)
    then have "is_market_stream_complete st
        \<longleftrightarrow> (\<Sum>k \<in> stream_keys st. stream_len st k) \<le> (\<Sum>k \<in> stream_keys st. idx_of st k)"
      using True by (simp add: is_market_stream_complete_def counts_ok_def)
    with sum show ?thesis by linarith
  next
    case False
    have ex: "(\<lambda>(key, idx). case hm_get (bt_event_stream_bars st) key of
         None \<Rightarrow> True | Some bars \<Rightarrow> length bars \<le> idx) = (\<lambda>(key, idx). stream_len st key \<le> idx)"
      by (rule ext) (auto simp: stream_len_def split: option.splits)
    have mem: "(k, i) \<in> set (bt_event_stream_indices st) \<longleftrightarrow> k \<in> stream_keys st \<and> i = idx_of st k" for k i
    proof -
      have "(k, i) \<in> set (bt_event_stream_indices st) \<longleftrightarrow> hm_get (bt_event_stream_indices st) k = Some i"
        using D(1) by (simp add: hm_ok_def hm_get_def)
      then show ?thesis
        using hm_get_keys [of "bt_event_stream_indices st" k]
        by (cases "hm_get (bt_event_stream_indices st) k") (auto simp: stream_keys_def idx_of_def)
    qed
    have "is_market_stream_complete st \<longleftrightarrow> (\<forall>k \<in> stream_keys st. stream_len st k \<le> idx_of st k)"
      unfolding is_market_stream_complete_def ex using False mem by (fastforce simp: list_all_iff)
    then show ?thesis by (simp add: remaining_def)
  qed
qed

lemma cursor_entry_exists:
  assumes "k \<in> stream_keys st" "idx_of st k < stream_len st k"
  obtains e where "cursor_entry st k = Some e"
proof -
  obtain i where i: "hm_get (bt_event_stream_indices st) k = Some i"
    using assms(1) hm_get_keys [of "bt_event_stream_indices st" k] by (auto simp: stream_keys_def)
  have "i < stream_len st k" using assms(2) i by (simp add: idx_of_def)
  then show thesis
    using that i by (auto simp: cursor_entry_def stream_bar_def stream_len_def nth_opt_def split: option.splits)
qed

lemma remaining_queue:
  assumes "streams_ok st" "queue_holds {} st" "0 < remaining st"
  shows "bt_market_scheduler st \<noteq> []"
proof -
  obtain k where k: "k \<in> stream_keys st" "idx_of st k < stream_len st k"
  proof -
    have "\<exists>k \<in> stream_keys st. stream_len st k - idx_of st k \<noteq> 0"
    proof (rule ccontr)
      assume "\<not> (\<exists>k \<in> stream_keys st. stream_len st k - idx_of st k \<noteq> 0)"
      then have "remaining st = 0" unfolding remaining_def by (intro sum.neutral) blast
      then show False using assms(3) by simp
    qed
    then obtain k where "k \<in> stream_keys st" "stream_len st k - idx_of st k \<noteq> 0" by blast
    then show thesis using that [of k] by simp
  qed
  obtain e where e: "cursor_entry st k = Some e" using k by (rule cursor_entry_exists)
  then have "e \<in> set (bt_market_scheduler st)"
    using queue_holdsD(3) [OF assms(2), of e] cursor_entry_SomeD [OF e] by simp
  then show ?thesis by auto
qed

lemma cursor_entry_pos:
  assumes "cursor_entry st k = Some e"
  shows "k \<in> stream_keys st" "idx_of st k = sch_index e" "sch_index e < stream_len st k"
    "stream_bar st k (sch_index e) = Some (stream_bars st k ! sch_index e)"
    "bar_timestamp (stream_bars st k ! sch_index e) = sch_timestamp e"
  using assms hm_get_keys [of "bt_event_stream_indices st" k]
  by (auto simp: cursor_entry_def stream_bar_def stream_keys_def idx_of_def stream_len_def stream_bars_def
      nth_opt_def split: option.splits if_splits)

lemma sum_indicator: "finite A \<Longrightarrow> D \<subseteq> A \<Longrightarrow> (\<Sum>k \<in> A. if k \<in> D then 1 else (0::nat)) = card D"
  by (simp add: sum.If_cases Int_absorb1)

text \<open>The contract of one step: next, then advance.\<close>

definition step_contract :: "BacktestState \<Rightarrow> BacktestMarketStep \<Rightarrow> BacktestState \<Rightarrow> bool" where
  "step_contract st step st' \<longleftrightarrow> replay_inv st' \<and> bt_market_scheduler_initialized st'
     \<and> stream_keys st' = stream_keys st \<and> stream_bars st' = stream_bars st
     \<and> remaining st' < remaining st
     \<and> (\<forall>k. drop (idx_of st k) (stream_bars st k) = emitted k [step] @ drop (idx_of st' k) (stream_bars st k))
     \<and> (\<forall>e \<in> set (step_events step). bar_timestamp (mev_bar e) = step_timestamp step)
     \<and> (\<forall>k \<in> stream_keys st. idx_of st k < stream_len st k
          \<longrightarrow> step_timestamp step \<le> bar_timestamp (stream_bars st k ! idx_of st k)
              \<and> (emitted k [step] = [] \<longrightarrow> step_timestamp step \<noteq> bar_timestamp (stream_bars st k ! idx_of st k)))
     \<and> step_events step \<noteq> []"

lemma stream_len_bars: "stream_len st k = length (stream_bars st k)"
  by (simp add: stream_len_def stream_bars_def split: option.split)

lemma filter_single:
  "distinct (map f xs) \<Longrightarrow> x \<in> set xs \<Longrightarrow> filter (\<lambda>y. f y = f x) xs = [x]"
proof (induction xs)
  case (Cons a xs)
  have n: "f y \<noteq> f a" if "y \<in> set xs" for y
    using Cons.prems(1) that by (metis distinct.simps(2) image_eqI list.simps(9) set_map)
  show ?case
  proof (cases "f a = f x")
    case True
    then have "a = x" using Cons.prems(2) n by (metis set_ConsD)
    moreover have "filter (\<lambda>y. f y = f x) xs = []"
    proof -
      have "f y \<noteq> f x" if "y \<in> set xs" for y using n [OF that] True by simp
      then show ?thesis by (simp add: filter_empty_conv)
    qed
    ultimately show ?thesis using True by simp
  next
    case False
    then have "x \<in> set xs" using Cons.prems(2) by (metis set_ConsD)
    moreover have "distinct (map f xs)" using Cons.prems(1) by simp
    ultimately have "filter (\<lambda>y. f y = f x) xs = [x]" by (intro Cons.IH)
    then show ?thesis using False by simp
  qed
qed simp

text \<open>The events of a step for one stream: its cursor bar when it is due, none otherwise.\<close>

lemma emitted_due:
  assumes ok: "streams_ok st" and q: "queue_holds {} st"
    and ev: "step_events step = map (entry_event st) (due_entries st)"
  shows "emitted k [step] = (if k \<in> sch_key ` set (due_entries st) then [stream_bars st k ! idx_of st k] else [])"
proof -
  have key: "event_key (entry_event st e) = sch_key e" if "e \<in> set (due_entries st)" for e
    using event_key_entry_event [OF ok] due_facts(1) [OF q that] by blast
  have eq: "emitted k [step] = map (mev_bar \<circ> entry_event st) (filter (\<lambda>e. sch_key e = k) (due_entries st))"
    by (simp add: emitted_def ev filter_map comp_def key cong: filter_cong)
  have dist: "distinct (map sch_key (due_entries st))"
    using queue_keys_distinct [OF q]
    by (cases "bt_market_scheduler st") (auto simp: due_entries_def distinct_map dest: set_takeWhileD intro: inj_on_subset)
  show ?thesis
  proof (cases "k \<in> sch_key ` set (due_entries st)")
    case True
    then obtain e where e: "e \<in> set (due_entries st)" "k = sch_key e" by auto
    have "emitted k [step] = [mev_bar (entry_event st e)]"
      using eq filter_single [OF dist e(1)] e(2) by simp
    moreover have "mev_bar (entry_event st e) = stream_bars st k ! idx_of st k"
      using cursor_entry_pos [OF due_facts(1) [OF q e(1)]] e(2) by (simp add: entry_event_def)
    ultimately show ?thesis using True by simp
  next
    case False
    then have "filter (\<lambda>e. sch_key e = k) (due_entries st) = []" by (auto simp: filter_empty_conv)
    then show ?thesis using False by (simp add: eq)
  qed
qed

lemma step_contract_holds:
  assumes inv: "replay_inv st" and init: "bt_market_scheduler_initialized st" and pos: "0 < remaining st"
  shows "\<exists>step st1. next_market_step st = Some (Some step, st1)
    \<and> step_contract st step (advance_market_step step st1)"
proof -
  have ok: "streams_ok st" and q: "queue_holds {} st" and cnt: "counts_ok st"
    using inv init by (auto simp: replay_inv_def)
  obtain s h where h: "bt_market_scheduler st = s # h"
    using remaining_queue [OF ok q pos] by (cases "bt_market_scheduler st") auto
  let ?st1 = "st\<lparr>bt_market_scheduler := later_entries st, bt_previous_time := Some (bt_current_time st),
      bt_current_time := sch_timestamp s\<rparr>"
  obtain step where nx: "next_market_step st = Some (Some step, ?st1)"
    and ts: "step_timestamp step = sch_timestamp s"
    and ev: "step_events step = map (entry_event st) (due_entries st)"
    using next_market_step_Cons [OF ok init q h] by blast
  let ?D = "sch_key ` set (due_entries st)" and ?st2 = "advance_market_step step ?st1"
  have c: "cursor_entry st (sch_key e) = Some e" if "e \<in> set (due_entries st)" for e
    using due_facts(1) [OF q that] .
  have keys: "map event_key (step_events step) = map sch_key (due_entries st)"
    unfolding ev map_map by (rule map_cong) (auto simp: event_key_entry_event [OF ok c])
  then have D: "event_key ` set (step_events step) = ?D" by (metis set_map)
  have dist: "distinct (map event_key (step_events step))"
    unfolding keys using queue_keys_distinct [OF q] due_split(1) [OF q h] by (simp add: distinct_map_filter)
  have same1: "idx_of ?st1 = idx_of st" "stream_len ?st1 = stream_len st"
    by (auto simp: idx_of_def stream_len_def)
  have mem: "k \<in> stream_keys st \<and> idx_of st k < stream_len st k" if "k \<in> ?D" for k
    using that cursor_entry_pos [OF c] by auto
  have "streams_ok ?st1" using ok by (subst streams_ok_cong [of _ st]) simp_all
  moreover have "queue_holds ?D ?st1"
    using queue_after_step [OF q h] by (subst queue_holds_cong [of _ "st\<lparr>bt_market_scheduler := later_entries st\<rparr>"]) simp_all
  moreover have "\<forall>e \<in> set (step_events step). idx_of ?st1 (event_key e) < stream_len ?st1 (event_key e)"
    using mem D imageI [of _ _ event_key] by (simp only: same1) metis
  moreover have "\<forall>e \<in> set (step_events step). hm_get (bt_event_stream_indices ?st1) (event_key e) \<noteq> None"
  proof
    fix e assume "e \<in> set (step_events step)"
    then have "event_key e \<in> ?D" using D by blast
    then have "event_key e \<in> stream_keys st" using mem by blast
    then show "hm_get (bt_event_stream_indices ?st1) (event_key e) \<noteq> None"
      using hm_get_keys [of "bt_event_stream_indices st" "event_key e"] by (simp add: stream_keys_def)
  qed
  ultimately have A: "streams_ok ?st2" "queue_holds {} ?st2"
      "\<And>j. idx_of ?st2 j = idx_of st j + (if j \<in> ?D then 1 else 0)"
      "bt_event_stream_bars ?st2 = bt_event_stream_bars st"
      "hm_keys (bt_event_stream_indices ?st2) = hm_keys (bt_event_stream_indices st)"
      "bt_processed_event_bars ?st2 = bt_processed_event_bars st + length (step_events step)"
      "bt_total_event_bars ?st2 = bt_total_event_bars st"
      "bt_market_scheduler_initialized ?st2"
    using advance_all_facts [of ?st1 "step_events step"] dist init
    by (simp_all add: advance_market_step_def D same1)
  have same2: "stream_keys ?st2 = stream_keys st" "stream_bars ?st2 = stream_bars st"
    "stream_len ?st2 = stream_len st"
    using A(4,5) by (auto simp: stream_keys_def stream_bars_def stream_len_def)
  have sub: "?D \<subseteq> stream_keys st" using mem by blast
  have card: "length (step_events step) = card ?D"
    using distinct_card [OF dist] D by (simp add: distinct_card)
  have "(\<Sum>k \<in> stream_keys st. idx_of ?st2 k) = (\<Sum>k \<in> stream_keys st. idx_of st k) + card ?D"
    unfolding A(3) sum.distrib by (simp only: sum_indicator [OF finite_stream_keys sub])
  then have "counts_ok ?st2"
    using cnt A(6,7) card by (simp add: counts_ok_def same2)
  then have inv2: "replay_inv ?st2" using A(1,2) by (simp add: replay_inv_def)
  have k0: "sch_key s \<in> ?D" by (simp add: due_entries_def h)
  have less: "remaining ?st2 < remaining st"
    unfolding remaining_def same2
  proof (rule sum_strict_mono_ex1)
    show "\<forall>k \<in> stream_keys st. stream_len st k - idx_of ?st2 k \<le> stream_len st k - idx_of st k"
      by (simp add: A(3) diff_le_mono2)
    show "\<exists>k \<in> stream_keys st. stream_len st k - idx_of ?st2 k < stream_len st k - idx_of st k"
      using mem [OF k0] k0 by (intro bexI [of _ "sch_key s"]) (auto simp: A(3))
  qed simp
  have em: "drop (idx_of st k) (stream_bars st k) = emitted k [step] @ drop (idx_of ?st2 k) (stream_bars st k)" for k
    using mem [of k] by (simp add: emitted_due [OF ok q ev] A(3) stream_len_bars Cons_nth_drop_Suc)
  have bars: "\<forall>e \<in> set (step_events step). bar_timestamp (mev_bar e) = step_timestamp step"
    using due_facts [OF q] cursor_entry_pos [OF c] by (simp add: ev ts entry_event_def h)
  have least: "sch_timestamp s \<le> bar_timestamp (stream_bars st k ! idx_of st k)
      \<and> (emitted k [step] = [] \<longrightarrow> sch_timestamp s \<noteq> bar_timestamp (stream_bars st k ! idx_of st k))"
    if k: "k \<in> stream_keys st" "idx_of st k < stream_len st k" for k
  proof -
    obtain e where e: "cursor_entry st k = Some e" using k by (rule cursor_entry_exists)
    then have "e \<in> set (s # h)"
      using queue_holdsD(3) [OF q, of e] cursor_entry_SomeD [OF e] by (simp add: h)
    then have "sch_timestamp s \<le> sch_timestamp e"
      using heap_ok_head_least [of s h e] queue_holdsD(1) [OF q] by (auto simp: h)
    moreover have "k \<in> ?D" if "sch_timestamp e = sch_timestamp s"
      using that \<open>e \<in> set (s # h)\<close> cursor_entry_SomeD [OF e] due_split(1) [OF q h]
      by (auto simp: h image_iff)
    ultimately show ?thesis using cursor_entry_pos [OF e] by (auto simp: emitted_due [OF ok q ev])
  qed
  have "step_contract st step ?st2"
    unfolding step_contract_def
    using inv2 A(8) same2 less em bars least ts ev h by (simp add: due_entries_def)
  then show ?thesis using nx by blast
qed

lemma replay_inv_initialize:
  assumes "replay_inv st"
  shows "replay_inv (initialize_market_scheduler st)"
proof (cases "bt_market_scheduler_initialized st")
  case True
  then show ?thesis using assms by (simp add: initialize_market_scheduler_def)
next
  case False
  have "streams_ok st" using assms by (simp add: replay_inv_def)
  then show ?thesis
    using initialize_establishes [OF _ False] initialize_counts [OF _ False]
    by (simp add: replay_inv_def streams_ok_cong [of "initialize_market_scheduler st" st])
qed

lemma initialize_views:
  "stream_keys (initialize_market_scheduler st) = stream_keys st"
  "stream_bars (initialize_market_scheduler st) = stream_bars st"
  "idx_of (initialize_market_scheduler st) = idx_of st"
  "stream_len (initialize_market_scheduler st) = stream_len st"
  "remaining (initialize_market_scheduler st) = remaining st"
proof -
  show a: "stream_keys (initialize_market_scheduler st) = stream_keys st"
    "stream_bars (initialize_market_scheduler st) = stream_bars st"
    "idx_of (initialize_market_scheduler st) = idx_of st"
    "stream_len (initialize_market_scheduler st) = stream_len st"
    by (auto simp: stream_keys_def stream_bars_def idx_of_def stream_len_def)
  show "remaining (initialize_market_scheduler st) = remaining st" by (simp add: remaining_def a)
qed

lemma step_contract_cong:
  "step_contract (initialize_market_scheduler st) step st' = step_contract st step st'"
  by (simp add: step_contract_def initialize_views)

lemma replay_step:
  assumes "replay_inv st" "0 < remaining st"
  obtains step st1 where "next_market_step st = Some (Some step, st1)"
    "step_contract st step (advance_market_step step st1)"
  using step_contract_holds [OF replay_inv_initialize [OF assms(1)]] assms(2)
  by (auto simp: initialized_next step_contract_cong initialize_views)

lemma emitted_Cons: "emitted k (s # steps) = emitted k [s] @ emitted k steps"
  by (simp add: emitted_def)

lemma replay_exhausts:
  assumes "replay_inv st" "remaining st \<le> n"
  shows "\<exists>steps st'. replay n st = Some (steps, st') \<and> is_market_stream_complete st'
    \<and> (\<forall>k \<in> stream_keys st. emitted k steps = drop (idx_of st k) (stream_bars st k))"
  using assms
proof (induction n arbitrary: st)
  case 0
  then show ?case
    by (auto simp: complete_iff_remaining remaining_def emitted_def stream_len_bars)
next
  case (Suc n)
  show ?case
  proof (cases "remaining st = 0")
    case True
    then show ?thesis using Suc.prems(1)
      by (auto simp: complete_iff_remaining remaining_def emitted_def stream_len_bars)
  next
    case False
    then obtain step st1 where nx: "next_market_step st = Some (Some step, st1)"
      and c: "step_contract st step (advance_market_step step st1)"
      using replay_step [OF Suc.prems(1)] by auto
    let ?st2 = "advance_market_step step st1"
    have inv2: "replay_inv ?st2" and rem2: "remaining ?st2 \<le> n"
      and keys: "stream_keys ?st2 = stream_keys st" "stream_bars ?st2 = stream_bars st"
      and em: "\<And>k. drop (idx_of st k) (stream_bars st k) = emitted k [step] @ drop (idx_of ?st2 k) (stream_bars st k)"
      using c Suc.prems(2) by (auto simp: step_contract_def)
    obtain steps st' where r: "replay n ?st2 = Some (steps, st')" "is_market_stream_complete st'"
      "\<forall>k \<in> stream_keys st. emitted k steps = drop (idx_of ?st2 k) (stream_bars st k)"
      using Suc.IH [OF inv2 rem2] keys by auto
    have "\<not> is_market_stream_complete st" using False Suc.prems(1) by (simp add: complete_iff_remaining)
    then have "replay (Suc n) st = Some (step # steps, st')" using nx r(1) by simp
    moreover have "\<forall>k \<in> stream_keys st. emitted k (step # steps) = drop (idx_of st k) (stream_bars st k)"
      using r(3) em by (metis emitted_Cons)
    ultimately show ?thesis using r(2) by blast
  qed
qed

text \<open>Steps come in strictly increasing time when every stream is strictly increasing.\<close>

definition bars_after :: "int \<Rightarrow> BacktestState \<Rightarrow> bool" where
  "bars_after t st \<longleftrightarrow> (\<forall>k \<in> stream_keys st. sorted_wrt (<) (map bar_timestamp (drop (idx_of st k) (stream_bars st k)))
     \<and> (\<forall>b \<in> set (drop (idx_of st k) (stream_bars st k)). t < bar_timestamp b))"

lemma stream_bars_key:
  assumes "streams_ok st" "stream_bars st k \<noteq> []"
  shows "k \<in> stream_keys st"
  using assms(2) streams_okD(3) [OF assms(1)] hm_get_keys [of "bt_event_stream_bars st" k]
  by (auto simp: stream_bars_def)

lemma bars_after_step:
  assumes "step_contract st step st'" "bars_after t st" "replay_inv st"
  shows "t < step_timestamp step" "bars_after (step_timestamp step) st'"
proof -
  have em: "drop (idx_of st k) (stream_bars st k) = emitted k [step] @ drop (idx_of st' k) (stream_bars st k)"
    and keys: "stream_keys st' = stream_keys st" "stream_bars st' = stream_bars st"
    and evs: "\<And>e. e \<in> set (step_events step) \<Longrightarrow> bar_timestamp (mev_bar e) = step_timestamp step"
    and head: "k \<in> stream_keys st \<Longrightarrow> idx_of st k < stream_len st k \<Longrightarrow> emitted k [step] = []
      \<Longrightarrow> step_timestamp step < bar_timestamp (stream_bars st k ! idx_of st k)"
    and ne: "step_events step \<noteq> []" for k
    using assms(1) by (auto simp: step_contract_def order.strict_iff_order)
  have em_ts: "bar_timestamp b = step_timestamp step" if "b \<in> set (emitted k [step])" for b k
    using that evs by (auto simp: emitted_def)
  obtain e where e: "e \<in> set (step_events step)" using ne by (meson list.set_sel(1))
  have b: "mev_bar e \<in> set (emitted (event_key e) [step])" using e by (auto simp: emitted_def)
  then have d: "mev_bar e \<in> set (drop (idx_of st (event_key e)) (stream_bars st (event_key e)))"
    using em [of "event_key e"] by simp
  then have "stream_bars st (event_key e) \<noteq> []" by auto
  then have "event_key e \<in> stream_keys st" using assms(3) by (auto simp: replay_inv_def intro: stream_bars_key)
  then show "t < step_timestamp step" using assms(2) d em_ts [OF b] unfolding bars_after_def by metis
  show "bars_after (step_timestamp step) st'"
    unfolding bars_after_def keys
  proof (intro ballI conjI)
    fix k assume k: "k \<in> stream_keys st"
    have srt: "sorted_wrt (<) (map bar_timestamp (emitted k [step] @ drop (idx_of st' k) (stream_bars st k)))"
      using assms(2) k em [of k] unfolding bars_after_def by metis
    then show "sorted_wrt (<) (map bar_timestamp (drop (idx_of st' k) (stream_bars st k)))"
      by (simp add: sorted_wrt_append)
    fix b assume b: "b \<in> set (drop (idx_of st' k) (stream_bars st k))"
    show "step_timestamp step < bar_timestamp b"
    proof (cases "emitted k [step]")
      case (Cons c cs)
      then have "bar_timestamp c = step_timestamp step" by (intro em_ts [of _ k]) simp
      then show ?thesis using srt b Cons by auto
    next
      case Nil
      then have eq: "drop (idx_of st k) (stream_bars st k) = drop (idx_of st' k) (stream_bars st k)"
        using em [of k] by simp
      then have lt: "idx_of st k < length (stream_bars st k)" using b by (metis drop_all leI length_pos_if_in_set less_numeral_extra(3) list.size(3))
      then have h: "step_timestamp step < bar_timestamp (stream_bars st k ! idx_of st k)"
        using head [OF k _ Nil] by (simp add: stream_len_bars)
      have "drop (idx_of st k) (stream_bars st k) = stream_bars st k ! idx_of st k # drop (Suc (idx_of st k)) (stream_bars st k)"
        using lt by (simp add: Cons_nth_drop_Suc)
      then show ?thesis using srt b h eq Nil by (auto simp: order.strict_trans)
    qed
  qed
qed

lemma replay_increasing:
  assumes "replay_inv st" "bars_after t st" "replay n st = Some (steps, st')"
  shows "sorted_wrt (<) (t # map step_timestamp steps)"
  using assms
proof (induction n arbitrary: st t steps)
  case 0
  then show ?case by simp
next
  case (Suc n)
  show ?case
  proof (cases "remaining st = 0")
    case True
    then show ?thesis using Suc.prems(1,3) by (simp add: complete_iff_remaining)
  next
    case False
    then obtain step st1 where nx: "next_market_step st = Some (Some step, st1)"
      and c: "step_contract st step (advance_market_step step st1)"
      using replay_step [OF Suc.prems(1)] by auto
    note B = bars_after_step [OF c Suc.prems(2,1)]
    have inv2: "replay_inv (advance_market_step step st1)" using c by (simp add: step_contract_def)
    have "\<not> is_market_stream_complete st" using False Suc.prems(1) by (simp add: complete_iff_remaining)
    then obtain steps1 where r: "replay n (advance_market_step step st1) = Some (steps1, st')" "steps = step # steps1"
      using nx Suc.prems(3) by (auto split: option.splits)
    show ?thesis using Suc.IH [OF inv2 B(2) r(1)] B(1) r(2) by auto
  qed
qed

section \<open>A backtest loaded with streams\<close>

definition load_streams :: "datetime \<Rightarrow> (ResolvedEventStream \<times> Bar list) list \<Rightarrow> BacktestState" where
  "load_streams now loads = fold (\<lambda>(s, bars). load_event_stream_bars s bars) loads (backtest_new now)"

lemma load_event_stream_bars_ok:
  assumes "streams_ok st"
  shows "streams_ok (load_event_stream_bars s bars st)"
proof -
  show ?thesis
    using assms by (auto simp: streams_ok_def load_event_stream_bars_def stream_len_def hm_ok_intros set_hm_insert_keys)
qed

lemma load_streams_snoc:
  "load_streams now (loads @ [(s, bars)]) = load_event_stream_bars s bars (load_streams now loads)"
  by (simp add: load_streams_def)

lemma load_streams_inv: "replay_inv (load_streams now loads)"
proof -
  have "streams_ok (load_streams now loads) \<and> \<not> bt_market_scheduler_initialized (load_streams now loads)"
  proof (induction loads rule: rev_induct)
    case Nil
    then show ?case by (simp add: load_streams_def backtest_new_def streams_ok_def hm_ok_def hm_keys_def hm_get_def)
  next
    case (snoc p loads)
    then show ?case
      by (cases p) (auto simp: load_streams_snoc load_event_stream_bars_ok, simp add: load_event_stream_bars_def)
  qed
  then show ?thesis by (simp add: replay_inv_def)
qed

lemma load_streams_views:
  "stream_keys (load_streams now loads) = (str_key \<circ> fst) ` set loads"
  "idx_of (load_streams now loads) k = 0"
  "distinct (map (str_key \<circ> fst) loads) \<Longrightarrow> (s, bars) \<in> set loads
    \<Longrightarrow> stream_bars (load_streams now loads) (str_key s) = bars"
proof (induction loads arbitrary: s bars k rule: rev_induct)
  case Nil
  { case 1 then show ?case by (simp add: load_streams_def backtest_new_def stream_keys_def hm_keys_def) }
  { case 2 then show ?case by (simp add: load_streams_def backtest_new_def idx_of_def hm_get_def) }
  { case 3 then show ?case by simp }
next
  case (snoc p loads)
  obtain t bs where p: "p = (t, bs)" by (cases p)
  note step = p load_streams_snoc load_event_stream_bars_def
  { case 1 then show ?case using snoc(1) by (simp add: step stream_keys_def set_hm_insert_keys) }
  { case 2 then show ?case using snoc(2) [of k] by (simp add: step idx_of_def) }
  { case 3
    then show ?case
      using snoc(3) [of s bars] by (auto simp: step stream_bars_def image_iff) }
qed

lemma load_streams_remaining:
  assumes "distinct (map (str_key \<circ> fst) loads)"
  shows "remaining (load_streams now loads) = sum_list (map (length \<circ> snd) loads)"
proof -
  have "remaining (load_streams now loads)
      = sum_list (map (\<lambda>k. length (stream_bars (load_streams now loads) k)) (map (str_key \<circ> fst) loads))"
    unfolding remaining_def load_streams_views(1,2) stream_len_bars
    using sum.distinct_set_conv_list [OF assms] by (simp add: comp_def image_comp)
  also have "\<dots> = sum_list (map (length \<circ> snd) loads)"
    using load_streams_views(3) [OF assms] by (intro arg_cong [where f = sum_list]) auto
  finally show ?thesis .
qed


section \<open>Properties\<close>

definition sample_bar :: "datetime \<Rightarrow> Bar" where
  "sample_bar t = \<lparr>bar_symbol = ''A'', bar_open = Fin 100, bar_high = Fin 110, bar_low = Fin 90, bar_close = Fin 105,
     bar_volume = Fin 7, bar_timestamp = t\<rparr>"

definition sample_stream :: "string \<Rightarrow> ResolvedEventStream" where
  "sample_stream name = resolved_stream_new BarStream name \<lparr>tf_amount = 1, tf_unit = Minute\<rparr> \<lparr>tf_amount = 1, tf_unit = Minute\<rparr> True"

text \<open>C12: The replay of a backtest loaded with distinct streams returns within as many steps as there
  are bars, ends complete, and for every stream the bars its events carry are exactly the loaded
  bars, in order, none lost and none repeated.\<close>

theorem market_replay_exhaustive:
  assumes "distinct (map (str_key \<circ> fst) loads)" "sum_list (map (length \<circ> snd) loads) \<le> n"
  shows "\<exists>steps st. replay n (load_streams now loads) = Some (steps, st) \<and> is_market_stream_complete st
    \<and> (\<forall>(s, bars) \<in> set loads. emitted (str_key s) steps = bars)"
proof -
  have "remaining (load_streams now loads) \<le> n" using load_streams_remaining assms by simp
  from replay_exhausts [OF load_streams_inv this] obtain steps st where
    r: "replay n (load_streams now loads) = Some (steps, st)" "is_market_stream_complete st"
      "\<forall>k \<in> stream_keys (load_streams now loads). emitted k steps
         = drop (idx_of (load_streams now loads) k) (stream_bars (load_streams now loads) k)"
    by blast
  have "emitted (str_key s) steps = bars" if "(s, bars) \<in> set loads" for s bars
    using r(3) that load_streams_views(3) [OF assms(1) that]
    by (force simp: load_streams_views(1,2))
  then show ?thesis using r(1,2) by blast
qed

theorem market_replay_exhaustive_witness:
  "\<exists>steps st. replay 3 (load_streams 0 [(sample_stream ''A'', [sample_bar 1, sample_bar 2]),
        (sample_stream ''B'', [sample_bar 2])]) = Some (steps, st)
    \<and> is_market_stream_complete st
    \<and> emitted (str_key (sample_stream ''A'')) steps = [sample_bar 1, sample_bar 2]
    \<and> emitted (str_key (sample_stream ''B'')) steps = [sample_bar 2]"
  using market_replay_exhaustive [of "[(sample_stream ''A'', [sample_bar 1, sample_bar 2]), (sample_stream ''B'', [sample_bar 2])]" 3 0]
  by (simp add: sample_stream_def resolved_stream_new_def Let_def)

text \<open>C36: When every stream is loaded with strictly increasing timestamps, the steps of a replay come in
  strictly increasing time, whatever the interleaving of the streams.\<close>

theorem market_replay_chronological:
  assumes "distinct (map (str_key \<circ> fst) loads)"
    and "\<forall>(s, bars) \<in> set loads. sorted_wrt (<) (map bar_timestamp bars)"
    and "replay n (load_streams now loads) = Some (steps, st)"
  shows "sorted_wrt (<) (map step_timestamp steps)"
proof -
  let ?T = "insert 0 (bar_timestamp ` (\<Union>(s, bars) \<in> set loads. set bars))"
  have fin: "finite ?T" by auto
  have "bars_after (Min ?T - 1) (load_streams now loads)"
    unfolding bars_after_def
  proof (intro ballI conjI)
    fix k assume "k \<in> stream_keys (load_streams now loads)"
    then obtain s bars where s: "(s, bars) \<in> set loads" "k = str_key s" by (auto simp: load_streams_views(1))
    have v: "drop (idx_of (load_streams now loads) k) (stream_bars (load_streams now loads) k) = bars"
      using load_streams_views(3) [OF assms(1) s(1)] s(2) by (simp add: load_streams_views(2))
    show "sorted_wrt (<) (map bar_timestamp
        (drop (idx_of (load_streams now loads) k) (stream_bars (load_streams now loads) k)))"
      unfolding v using assms(2) s(1) by auto
    fix b assume "b \<in> set (drop (idx_of (load_streams now loads) k) (stream_bars (load_streams now loads) k))"
    then have "bar_timestamp b \<in> ?T" unfolding v using s(1) by blast
    then have "Min ?T \<le> bar_timestamp b" by (rule Min_le [OF fin])
    then show "Min ?T - 1 < bar_timestamp b" by linarith
  qed
  from replay_increasing [OF load_streams_inv this assms(3)] show ?thesis by simp
qed

theorem market_replay_chronological_witness:
  "\<exists>steps st. replay 3 (load_streams 0 [(sample_stream ''A'', [sample_bar 1, sample_bar 3]),
        (sample_stream ''B'', [sample_bar 2])]) = Some (steps, st)
    \<and> sorted_wrt (<) (map step_timestamp steps)"
proof -
  let ?l = "[(sample_stream ''A'', [sample_bar 1, sample_bar 3]), (sample_stream ''B'', [sample_bar 2])]"
  have d: "distinct (map (str_key \<circ> fst) ?l)"
    by (simp add: sample_stream_def resolved_stream_new_def Let_def)
  have "remaining (load_streams 0 ?l) \<le> 3" unfolding load_streams_remaining [OF d] by simp
  from replay_exhausts [OF load_streams_inv this] obtain steps st where
    r: "replay 3 (load_streams 0 ?l) = Some (steps, st)" by blast
  moreover have "sorted_wrt (<) (map step_timestamp steps)"
    by (rule market_replay_chronological [OF d _ r]) (simp add: sample_bar_def)
  ultimately show ?thesis by blast
qed

text \<open>
  The second loop of \<open>next_market_step\<close> on an entry of a stream that is already in the step: the
  stream is rescheduled, which puts the same entry back at the front.
\<close>

definition stuck_at :: "ScheduledMarketStream \<Rightarrow> ScheduledMarketStream list \<Rightarrow> datetime
    \<Rightarrow> MarketStreamKey list \<Rightarrow> BacktestState \<Rightarrow> bool" where
  "stuck_at e h ts keys st \<longleftrightarrow> bt_market_scheduler st = e # h \<and> heap_ok (e # h) \<and> sch_timestamp e = ts
     \<and> sch_key e \<in> set keys \<and> cursor_entry st (sch_key e) = Some e"

lemma stuck_reschedules:
  assumes "stuck_at e h ts keys st"
  shows "schedule_current_stream (sch_key e) (st\<lparr>bt_market_scheduler := h\<rparr>) = st"
proof -
  have "insort_key sched_ord e h = e # h"
    using assms by (intro insort_is_Cons) (auto simp: stuck_at_def heap_ok_def)
  then show ?thesis
    using assms by (simp add: stuck_at_def schedule_current_stream_def heap_push_def)
qed

lemma pop_same_time_stuck:
  assumes "stuck_at e h ts keys st"
  shows "pop_same_time ts keys streams st = None"
proof -
  have "\<not> stuck_at e h ts keys st" if "pop_same_time ts keys streams st = Some r" for r
  proof (rule pop_same_time.raw_induct [where P = "\<lambda>ts keys streams st r. \<not> stuck_at e h ts keys st", OF _ that])
    fix f :: "datetime \<Rightarrow> MarketStreamKey list \<Rightarrow> ScheduledMarketStream list \<Rightarrow> BacktestState
      \<Rightarrow> (ScheduledMarketStream list \<times> BacktestState) option" and ts keys streams st r
    assume IH: "\<And>ts keys streams st r. f ts keys streams st = Some r \<Longrightarrow> \<not> stuck_at e h ts keys st"
      and eq: "(case heap_pop (bt_market_scheduler st) of None \<Rightarrow> Some (streams, st)
      | Some (s, h) \<Rightarrow>
          if sch_timestamp s \<noteq> ts then Some (streams, st)
          else let st' = st\<lparr>bt_market_scheduler := h\<rparr>
               in if is_current_schedule_entry st' s \<and> sch_key s \<notin> set keys
                  then f ts (sch_key s # keys) (streams @ [s]) st'
                  else f ts keys streams (schedule_current_stream (sch_key s) st')) = Some r"
    show "\<not> stuck_at e h ts keys st"
    proof
      assume s: "stuck_at e h ts keys st"
      then have "f ts keys streams st = Some r"
        using eq stuck_reschedules [OF s] by (simp add: stuck_at_def heap_pop_def Let_def)
      then show False using IH s by blast
    qed
  qed
  then show ?thesis using assms by (cases "pop_same_time ts keys streams st") auto
qed

text \<open>When the first loop of \<open>next_market_step\<close> leaves a second current entry of the popped stream in
  front of the queue, the call does not return: the second loop pops the duplicate and pushes it back
  for ever.  Completing the same step twice reaches such a queue.\<close>

theorem next_market_step_duplicate_diverges:
  assumes "bt_market_scheduler_initialized st" "pop_current st = Some (e, st')"
    "bt_market_scheduler st' = e # h" "heap_ok (e # h)" "cursor_entry st' (sch_key e) = Some e"
  shows "next_market_step st = None"
proof -
  have "stuck_at e h (sch_timestamp e) [sch_key e] st'" using assms by (simp add: stuck_at_def)
  then have "pop_same_time (sch_timestamp e) [sch_key e] [e] st' = None" by (rule pop_same_time_stuck)
  then show ?thesis
    using assms(1,2) by (simp add: next_market_step_def initialize_market_scheduler_def Let_def)
qed

definition sample_event :: MarketDataEvent where
  "sample_event = \<lparr>mev_context = context_at (sample_stream ''A'') 1, mev_bar = sample_bar 1\<rparr>"

definition twice_advanced :: BacktestState where
  "twice_advanced = fold advance_event [sample_event, sample_event]
     ((initialize_market_scheduler (load_streams 0 [(sample_stream ''A'', [sample_bar 1, sample_bar 2, sample_bar 3])]))
        \<lparr>bt_market_scheduler := []\<rparr>)"

definition last_entry :: ScheduledMarketStream where
  "last_entry = \<lparr>sch_timestamp = 3, sch_key = str_key (sample_stream ''A''), sch_timeframe_label = ''1m'', sch_index = 2\<rparr>"

theorem next_market_step_duplicate_diverges_witness: "next_market_step twice_advanced = None"
proof (rule next_market_step_duplicate_diverges)
  show "bt_market_scheduler_initialized twice_advanced" by code_simp
  show "pop_current twice_advanced
      = Some (last_entry, twice_advanced\<lparr>bt_market_scheduler := [last_entry]\<rparr>)" by code_simp
  show "bt_market_scheduler (twice_advanced\<lparr>bt_market_scheduler := [last_entry]\<rparr>) = last_entry # []" by simp
  show "heap_ok (last_entry # [])" by (simp add: heap_ok_def)
  show "cursor_entry (twice_advanced\<lparr>bt_market_scheduler := [last_entry]\<rparr>) (sch_key last_entry) = Some last_entry"
    by code_simp
qed

end
