(* ===== verification/PaperBroker.thy ===== *)
theory PaperBroker
  imports BacktestState
begin

text \<open>
  The paper broker (\<open>src/core/broker/paper_broker.rs\<close> with its \<open>execution.rs\<close>): the state of the
  order management system and every operation that changes it, in the order of the source.  Locks
  are taken for whole operations, so that an operation is a function from a state to a state.
  Random identifiers and the wall clock come from the parameters in \<open>Env\<close>; a subscriber is a number,
  and the calls it receives are logged.
\<close>

section \<open>The environment\<close>

text \<open>
  The n-th draw from the \<open>uuid\<close> crate (\<open>Uuid::new_v4().to_string()\<close>) and the n-th reading of
  \<open>Utc::now()\<close>.
\<close>

record Env =
  env_uuid :: "nat \<Rightarrow> string"
  env_now :: "nat \<Rightarrow> datetime"

section \<open>Retained execution history\<close>

definition PROVIDER :: string where
  "PROVIDER = ''paper-price-units-v1''"

definition MAX_RETAINED_POSITIONS :: nat where
  "MAX_RETAINED_POSITIONS = 1024"

definition MAX_RETAINED_FILLS :: nat where
  "MAX_RETAINED_FILLS = 4096"

definition MAX_HISTORY_FILLS :: nat where
  "MAX_HISTORY_FILLS = 256"

record PaperExecutionHistory =
  ph_positions :: "(string, ExecutionFill list) hmap"
  ph_closed :: "string list"
  ph_rows :: nat

definition history_default :: PaperExecutionHistory where
  "history_default = \<lparr>ph_positions = [], ph_closed = [], ph_rows = 0\<rparr>"

definition history_remove :: "string \<Rightarrow> PaperExecutionHistory \<Rightarrow> PaperExecutionHistory" where
  "history_remove oid h = (case hm_get (ph_positions h) oid of
       None \<Rightarrow> h
     | Some rows \<Rightarrow> h\<lparr>ph_positions := hm_remove oid (ph_positions h), ph_rows := ph_rows h - length rows\<rparr>)"

text \<open>The loop of \<open>make_room\<close>, over the queue of closed positions.\<close>

fun make_room_loop :: "bool \<Rightarrow> string list \<Rightarrow> PaperExecutionHistory \<Rightarrow> bool \<times> PaperExecutionHistory" where
  "make_room_loop new_position ids h =
     (if MAX_RETAINED_FILLS \<le> ph_rows h
         \<or> (new_position \<and> MAX_RETAINED_POSITIONS \<le> length (ph_positions h))
      then (case ids of
              [] \<Rightarrow> (False, h\<lparr>ph_closed := []\<rparr>)
            | oid # rest \<Rightarrow> make_room_loop new_position rest (history_remove oid h))
      else (True, h\<lparr>ph_closed := ids\<rparr>))"

declare make_room_loop.simps [simp del]

definition make_room :: "bool \<Rightarrow> PaperExecutionHistory \<Rightarrow> bool \<times> PaperExecutionHistory" where
  "make_room new_position h = make_room_loop new_position (ph_closed h) h"

definition history_record :: "ExecutionFill \<Rightarrow> bool \<Rightarrow> PaperExecutionHistory \<Rightarrow> PaperExecutionHistory" where
  "history_record fill is_closed h = (case fill_position_id fill of
       None \<Rightarrow> h
     | Some oid \<Rightarrow>
        (let entry = (fill_effect fill = Entry); rows = hm_get (ph_positions h) oid
         in if \<not> entry \<and> rows = None then h
            else if (case rows of None \<Rightarrow> False | Some r \<Rightarrow> MAX_HISTORY_FILLS \<le> length r)
            then history_remove oid h
            else (case make_room (entry \<and> rows = None) h of
                    (False, h) \<Rightarrow> history_remove oid h
                  | (True, h) \<Rightarrow>
                      h\<lparr>ph_positions := hm_insert oid (unwrap_or (hm_get (ph_positions h) oid) [] @ [fill]) (ph_positions h),
                        ph_rows := Suc (ph_rows h),
                        ph_closed := (if is_closed then ph_closed h @ [oid] else ph_closed h)\<rparr>)))"

section \<open>The state\<close>

type_synonym subscriber = nat

record PaperBroker =
  pb_name :: string
  pb_account_type :: AccountType
  pb_connected :: bool
  pb_account :: Account
  pb_starting_cash :: f64
  pb_leverage :: nat
  pb_asset_fees :: AssetFees
  pb_asset_metadata :: "(string, Asset) hmap"
  pb_orders :: "(string, Order) hmap"
  pb_positions :: "(string, (string, Position) hmap) hmap"
  pb_pending_orders :: "string list"
  pb_active_orders :: "(string, string) hmap"
  pb_terminal_orders_pending_release :: "string list"
  pb_update_orders_queue :: "(string \<times> TradeUpdateEvent) list"
  pb_close_orders_queue :: "(string \<times> f64 \<times> f64 option) list"
  pb_trade_events :: "BrokerOrderEvent list"
  pb_trade_stream_subscribers :: "subscriber list"
  pb_deliveries :: "(subscriber \<times> BrokerOrderEvent) list"
  pb_execution_history :: PaperExecutionHistory
  pb_current_time :: datetime
  pb_valuation_as_of_us :: "int option"
  pb_valuation_mark_times :: "(string, int) hmap"
  pb_backtest_state :: "BacktestState option"
  pb_env :: Env
  pb_draws :: nat

definition new_v4 :: "PaperBroker \<Rightarrow> string \<times> PaperBroker" where
  "new_v4 b = (env_uuid (pb_env b) (pb_draws b), b\<lparr>pb_draws := Suc (pb_draws b)\<rparr>)"

definition utc_now :: "PaperBroker \<Rightarrow> datetime \<times> PaperBroker" where
  "utc_now b = (env_now (pb_env b) (pb_draws b), b\<lparr>pb_draws := Suc (pb_draws b)\<rparr>)"

text \<open>\<open>leverage\<close> is a \<open>u8\<close>, below 256.\<close>

definition paper_new :: "Env \<Rightarrow> AccountType \<Rightarrow> f64 \<Rightarrow> nat \<Rightarrow> PaperBroker" where
  "paper_new env account_type cash leverage = \<lparr>
     pb_name = ''PaperBroker'', pb_account_type = account_type, pb_connected = False,
     pb_account = \<lparr>acc_account_id = env_uuid env 0, acc_account_type = account_type, acc_equity = cash,
        acc_cash = cash, acc_currency = ''USD'', acc_buying_power = cash * of_integer_f64 (int leverage),
        acc_accrued_commission = 0, acc_shorting_enabled = True, acc_leverage = leverage,
        acc_max_total_orders = None\<rparr>,
     pb_starting_cash = cash, pb_leverage = leverage, pb_asset_fees = default_fees,
     pb_asset_metadata = [], pb_orders = [], pb_positions = [], pb_pending_orders = [],
     pb_active_orders = [], pb_terminal_orders_pending_release = [], pb_update_orders_queue = [],
     pb_close_orders_queue = [], pb_trade_events = [], pb_trade_stream_subscribers = [],
     pb_deliveries = [], pb_execution_history = history_default, pb_current_time = env_now env 1,
     pb_valuation_as_of_us = None, pb_valuation_mark_times = [], pb_backtest_state = None,
     pb_env = env, pb_draws = 2\<rparr>"

definition with_asset_fees :: "AssetFees \<Rightarrow> PaperBroker \<Rightarrow> PaperBroker" where
  "with_asset_fees fees b = b\<lparr>pb_asset_fees := fees,
     pb_asset_metadata := map (\<lambda>(s, a). (s, a\<lparr>as_fees := fees\<rparr>)) (pb_asset_metadata b)\<rparr>"

definition register_asset_metadata :: "Asset \<Rightarrow> PaperBroker \<Rightarrow> PaperBroker" where
  "register_asset_metadata asset b = b\<lparr>pb_asset_metadata :=
     hm_insert (as_symbol asset) (asset\<lparr>as_fees := pb_asset_fees b\<rparr>) (pb_asset_metadata b)\<rparr>"

definition set_backtest_state :: "BacktestState \<Rightarrow> PaperBroker \<Rightarrow> PaperBroker" where
  "set_backtest_state st b = b\<lparr>pb_backtest_state := Some st\<rparr>"

definition set_time :: "datetime \<Rightarrow> PaperBroker \<Rightarrow> PaperBroker" where
  "set_time t b = b\<lparr>pb_current_time := t\<rparr>"

definition current_time_ts :: "PaperBroker \<Rightarrow> nat" where
  "current_time_ts b = timestamp_u64 (pb_current_time b)"

definition is_terminal_leg_status :: "TradeUpdateEvent \<Rightarrow> bool" where
  "is_terminal_leg_status s \<longleftrightarrow> s = Filled \<or> s = Closed \<or> s = Cancelled \<or> s = Rejected"

section \<open>Executions and events\<close>

definition fill_side_of :: "OrderSide \<Rightarrow> ExecutionFillSide" where
  "fill_side_of s = (case s of Buy \<Rightarrow> FillBuy | Sell \<Rightarrow> FillSell)"

definition entry_execution :: "Order \<Rightarrow> f64 \<Rightarrow> datetime \<Rightarrow> PaperBroker \<Rightarrow> ExecutionFill \<times> PaperBroker" where
  "entry_execution order price t b = (case new_v4 b of (uid, b) \<Rightarrow>
     (\<lparr>fill_version = EXECUTION_FILL_VERSION, fill_provider = PROVIDER, fill_fill_id = uid,
       fill_order_id = ord_order_id order, fill_position_id = Some (ord_order_id order),
       fill_symbol = as_symbol (ord_asset order), fill_side = fill_side_of (ord_side order),
       fill_effect = Entry, fill_quantity = ord_filled_qty order, fill_price = price,
       fill_occurred_at_us = timestamp_micros t, fill_as_of_us = timestamp_micros t,
       fill_cash = Some \<lparr>cash_currency = acc_currency (pb_account b), cash_gross_pnl = Some 0,
         cash_commission = ord_commission order, cash_carry = Some 0\<rparr>,
       fill_account_notional = Some \<bar>ord_filled_qty order * price\<bar>\<rparr>, b))"

record ClosePositionResult =
  cpr_fully_closed :: bool
  cpr_qty :: f64
  cpr_gross_pnl :: f64
  cpr_net_pnl :: f64
  cpr_entry_commission :: f64
  cpr_exit_commission :: f64
  cpr_swap :: f64

definition exit_execution ::
  "Order \<Rightarrow> string \<Rightarrow> f64 \<Rightarrow> datetime \<Rightarrow> ClosePositionResult \<Rightarrow> PaperBroker \<Rightarrow> ExecutionFill \<times> PaperBroker" where
  "exit_execution entry exit_order_id price t result b =
     (case entry_execution entry price t b of (fill, b) \<Rightarrow>
       (fill\<lparr>fill_order_id := exit_order_id,
          fill_side := fill_side_of (opposite (ord_side entry)),
          fill_effect := Exit, fill_quantity := cpr_qty result,
          fill_cash := Some \<lparr>cash_currency = acc_currency (pb_account b),
            cash_gross_pnl = Some (cpr_gross_pnl result),
            cash_commission = Some (cpr_exit_commission result), cash_carry = Some (cpr_swap result)\<rparr>,
          fill_account_notional := Some \<bar>cpr_qty result * price\<bar>\<rparr>, b))"

text \<open>The subscribers are called in their order with the event that was queued.\<close>

definition emit_execution_event ::
  "Order \<Rightarrow> TradeUpdateEvent \<Rightarrow> ExecutionFill option \<Rightarrow> PaperBroker \<Rightarrow> PaperBroker" where
  "emit_execution_event order event fill b =
     (let fill = (case fill of None \<Rightarrow> None
                  | Some f \<Rightarrow> (case fill_validate f of Inl _ \<Rightarrow> None | Inr _ \<Rightarrow> Some f));
          b = (case (pb_backtest_state b, fill) of
                 (None, Some f) \<Rightarrow> b\<lparr>pb_execution_history := history_record f (event = Closed) (pb_execution_history b)\<rparr>
               | _ \<Rightarrow> b);
          (uid, b) = new_v4 b;
          (now, b) = utc_now b;
          envelope = \<lparr>ev_event_id = uid, ev_source_sequence = None, ev_event = (order, event),
            ev_metadata = \<lparr>md_analytics_only = False, md_execution_fill = fill,
              md_source_occurred_at_us = Some (timestamp_micros (pb_current_time b)),
              md_adapter_queued_at_us = Some (timestamp_micros now), md_source_clock = RuntimeHost\<rparr>\<rparr>
      in b\<lparr>pb_trade_events := pb_trade_events b @ [envelope],
           pb_deliveries := pb_deliveries b @ map (\<lambda>s. (s, envelope)) (pb_trade_stream_subscribers b)\<rparr>)"

definition emit_trade_event :: "Order \<Rightarrow> TradeUpdateEvent \<Rightarrow> PaperBroker \<Rightarrow> PaperBroker" where
  "emit_trade_event order event b = emit_execution_event order event None b"

definition mark_order_terminal_for_release :: "string \<Rightarrow> PaperBroker \<Rightarrow> PaperBroker" where
  "mark_order_terminal_for_release oid b =
     (if oid \<in> set (pb_terminal_orders_pending_release b) then b
      else b\<lparr>pb_terminal_orders_pending_release := pb_terminal_orders_pending_release b @ [oid]\<rparr>)"

definition release_terminal_orders :: "PaperBroker \<Rightarrow> PaperBroker" where
  "release_terminal_orders b =
     (let ids = pb_terminal_orders_pending_release b; b = b\<lparr>pb_terminal_orders_pending_release := []\<rparr>
      in if ids = [] then b
         else b\<lparr>pb_pending_orders := filter (\<lambda>i. i \<notin> set ids) (pb_pending_orders b),
                pb_close_orders_queue := filter (\<lambda>(i, _, _). i \<notin> set ids) (pb_close_orders_queue b),
                pb_update_orders_queue := filter (\<lambda>(i, _). i \<notin> set ids) (pb_update_orders_queue b),
                pb_active_orders := fold hm_remove ids (pb_active_orders b),
                pb_orders := fold hm_remove ids (pb_orders b)\<rparr>)"

definition drain_execution_events :: "nat \<Rightarrow> PaperBroker \<Rightarrow> BrokerOrderEvent list \<times> PaperBroker" where
  "drain_execution_events max_events b =
     (let count = min max_events (length (pb_trade_events b));
          events = take count (pb_trade_events b); rest = drop count (pb_trade_events b);
          b = b\<lparr>pb_trade_events := rest\<rparr>
      in (events, if rest = [] \<and> count \<noteq> 0 then release_terminal_orders b else b))"

section \<open>Fills\<close>

definition try_fill_order :: "Order \<Rightarrow> Bar \<Rightarrow> f64 option" where
  "try_fill_order order bar = (case ord_order_type order of
       Market \<Rightarrow> Some (bar_open bar)
     | Limit \<Rightarrow> (case ord_limit_price order of
           None \<Rightarrow> None
         | Some limit \<Rightarrow> (case ord_side order of
               Buy \<Rightarrow> if bar_low bar \<le> limit then Some (fmin limit (bar_open bar)) else None
             | Sell \<Rightarrow> if limit \<le> bar_high bar then Some (fmax limit (bar_open bar)) else None))
     | Stop \<Rightarrow> (case ord_stop_price order of
           None \<Rightarrow> None
         | Some stop \<Rightarrow> (case ord_side order of
               Buy \<Rightarrow> if stop \<le> bar_high bar then Some (fmax stop (bar_open bar)) else None
             | Sell \<Rightarrow> if bar_low bar \<le> stop then Some (fmin stop (bar_open bar)) else None))
     | StopLimit \<Rightarrow> (case (ord_stop_price order, ord_limit_price order) of
           (Some stop, Some limit) \<Rightarrow>
             (let triggered = (case ord_side order of Buy \<Rightarrow> stop \<le> bar_high bar | Sell \<Rightarrow> bar_low bar \<le> stop)
              in if triggered
                 then (case ord_side order of
                         Buy \<Rightarrow> if bar_low bar \<le> limit then Some limit else None
                       | Sell \<Rightarrow> if limit \<le> bar_high bar then Some limit else None)
                 else None)
         | _ \<Rightarrow> None)
     | TrailingStop \<Rightarrow> None)"

text \<open>The margin of a cost: divided by the leverage when there is any.\<close>

definition margin_of :: "PaperBroker \<Rightarrow> f64 \<Rightarrow> f64" where
  "margin_of b cost = (if 1 < pb_leverage b then cost / of_integer_f64 (int (pb_leverage b)) else cost)"

definition insufficient_funds_reason ::
  "PaperBroker \<Rightarrow> OrderSide \<Rightarrow> f64 \<Rightarrow> f64 \<Rightarrow> int option \<Rightarrow> string option" where
  "insufficient_funds_reason b side qty price contract_size =
     (if \<not> is_finite qty \<or> qty \<le> 0 \<or> \<not> is_finite price \<or> price \<le> 0 then None
      else let notional = qty * price;
               commission = entry_commission_for_side (pb_asset_fees b) side price qty contract_size;
               margin_cost = margin_of b notional
           in if acc_buying_power (pb_account b) < notional
              then Some (''Insufficient funds: required buying power '' @ fmt_fixed 2 notional
                         @ '', available '' @ fmt_fixed 2 (acc_buying_power (pb_account b)))
              else if acc_cash (pb_account b) < margin_cost + commission
              then Some (''Insufficient cash: required cash '' @ fmt_fixed 2 (margin_cost + commission)
                         @ '', available '' @ fmt_fixed 2 (acc_cash (pb_account b)))
              else None)"

definition create_bracket_legs :: "nat \<Rightarrow> Order \<Rightarrow> Order" where
  "create_bracket_legs now_ts order =
     (let legs = (case ord_legs order of None \<Rightarrow> default_legs | Some existing \<Rightarrow> existing);
          trailing = (case legs_trailing_stop legs of
              None \<Rightarrow> None
            | Some t \<Rightarrow> Some
                (case (leg_limit_price t, ord_filled_price order, leg_trail_price t) of
                   (None, Some entry, Some gap) \<Rightarrow>
                      t\<lparr>leg_limit_price := Some (case ord_side order of Buy \<Rightarrow> entry - gap | Sell \<Rightarrow> entry + gap),
                        leg_updated_at := now_ts\<rparr>
                 | _ \<Rightarrow> t))
      in order\<lparr>ord_legs := Some (legs\<lparr>legs_trailing_stop := trailing\<rparr>)\<rparr>)"

definition opened_position :: "PaperBroker \<Rightarrow> Order \<Rightarrow> f64 \<Rightarrow> Position" where
  "opened_position b order px =
     \<lparr>pos_account_id = acc_account_id (pb_account b), pos_order_id = Some (ord_order_id order),
      pos_asset = ord_asset order, pos_avg_entry_price = px, pos_qty = ord_filled_qty order,
      pos_side = ord_side order, pos_market_value = px * ord_filled_qty order,
      pos_cost_basis = px * ord_filled_qty order, pos_current_price = px,
      pos_unrealized_pnl = 0, pos_realized_pnl = 0, pos_entry_commission = unwrap_or (ord_commission order) 0,
      pos_margin_required = (if 1 < pb_leverage b
         then Some (px * ord_filled_qty order / of_integer_f64 (int (pb_leverage b))) else None)\<rparr>"

definition open_position :: "Order \<Rightarrow> f64 \<Rightarrow> PaperBroker \<Rightarrow> PaperBroker" where
  "open_position order px b =
     (let symbol = as_symbol (ord_asset order);
          book = unwrap_or (hm_get (pb_positions b) symbol) [];
          commission = unwrap_or (ord_commission order) 0;
          cost = px * ord_filled_qty order;
          account = pb_account b
      in b\<lparr>pb_positions := hm_insert symbol (hm_insert (ord_order_id order) (opened_position b order px) book) (pb_positions b),
           pb_account := account\<lparr>acc_cash := acc_cash account - (margin_of b cost + commission),
             acc_buying_power := fmax (acc_buying_power account - cost - commission) 0,
             acc_accrued_commission := acc_accrued_commission account + commission\<rparr>\<rparr>)"

text \<open>The trade log belongs to the shared backtest state; without one nothing is recorded.\<close>

definition log_trade :: "TradeRecord \<Rightarrow> PaperBroker \<Rightarrow> PaperBroker" where
  "log_trade r b = b\<lparr>pb_backtest_state := map_option (record_trade r) (pb_backtest_state b)\<rparr>"

definition record_entry_trade :: "Order \<Rightarrow> f64 \<Rightarrow> datetime \<Rightarrow> PaperBroker \<Rightarrow> PaperBroker" where
  "record_entry_trade order px t b = log_trade
     \<lparr>tr_date = t, tr_symbol = as_symbol (ord_asset order), tr_side = ord_side order,
      tr_qty = ord_filled_qty order, tr_price = px, tr_order_id = ord_order_id order,
      tr_insight_id = ord_insight_id order, tr_strategy_type = ord_strategy_type order,
      tr_commission = unwrap_or (ord_commission order) 0, tr_swap = 0,
      tr_execution_cash = Some \<lparr>cash_currency = acc_currency (pb_account b), cash_gross_pnl = Some 0,
        cash_commission = Some (unwrap_or (ord_commission order) 0), cash_carry = Some 0\<rparr>,
      tr_account_notional = Some \<bar>px * ord_filled_qty order\<bar>,
      tr_valuation_basis = Some ''paper_price_units'', tr_trade_type = EntryTrade\<rparr> b"

definition put_order :: "Order \<Rightarrow> string \<Rightarrow> PaperBroker \<Rightarrow> PaperBroker" where
  "put_order order oid b = b\<lparr>pb_orders := hm_modify oid (\<lambda>_. order) (pb_orders b)\<rparr>"

text \<open>The order as \<open>process_pending_orders\<close> fills it at a price.\<close>

definition filled_order :: "f64 \<Rightarrow> nat \<Rightarrow> Order \<Rightarrow> Order" where
  "filled_order px now_ts order =
     (let order = order\<lparr>ord_status := Filled, ord_filled_qty := ord_qty order,
            ord_filled_price := Some px, ord_filled_at := Some now_ts, ord_updated_at := now_ts,
            ord_commission := Some (entry_commission_for_side (as_fees (ord_asset order)) (ord_side order)
               px (ord_qty order) (as_contract_size (ord_asset order)))\<rparr>
      in if ord_order_class order = Bracket then create_bracket_legs now_ts order else order)"

definition reject_pending :: "string \<Rightarrow> nat \<Rightarrow> string \<Rightarrow> Order \<Rightarrow> PaperBroker \<Rightarrow> PaperBroker" where
  "reject_pending reason now_ts oid order b =
     (let order = order\<lparr>ord_status := Rejected, ord_rejection_reason := Some reason, ord_updated_at := now_ts\<rparr>;
          b = put_order order oid b;
          b = emit_trade_event order Rejected b
      in mark_order_terminal_for_release oid b)"

definition fill_pending :: "f64 \<Rightarrow> datetime \<Rightarrow> nat \<Rightarrow> string \<Rightarrow> Order \<Rightarrow> PaperBroker \<Rightarrow> PaperBroker" where
  "fill_pending px t now_ts oid order b =
     (let order = filled_order px now_ts order;
          b = put_order order oid b;
          b = open_position order px b;
          b = record_entry_trade order px t b;
          (fill, b) = entry_execution order px t b;
          b = emit_execution_event order Filled (Some fill) b
      in if ord_legs order \<noteq> None
         then b\<lparr>pb_active_orders := hm_insert oid oid (pb_active_orders b)\<rparr> else b)"

text \<open>One pending order: the result says whether it stays pending.\<close>

definition process_pending_order ::
  "(string, Bar) hmap \<Rightarrow> datetime \<Rightarrow> nat \<Rightarrow> string \<Rightarrow> PaperBroker \<Rightarrow> bool \<times> PaperBroker" where
  "process_pending_order bars t now_ts oid b = (case hm_get (pb_orders b) oid of
       None \<Rightarrow> (False, b)
     | Some order \<Rightarrow>
        if ord_status order = Cancelled then (False, b)
        else (case hm_get bars (as_symbol (ord_asset order)) of
           None \<Rightarrow> (True, b)
         | Some bar \<Rightarrow> (case try_fill_order order bar of
              None \<Rightarrow> (True, b)
            | Some px \<Rightarrow>
               (case insufficient_funds_reason b (ord_side order) (ord_qty order) px
                       (as_contract_size (ord_asset order)) of
                  Some reason \<Rightarrow> (False, reject_pending reason now_ts oid order b)
                | None \<Rightarrow> (False, fill_pending px t now_ts oid order b)))))"

fun process_pending_loop ::
  "(string, Bar) hmap \<Rightarrow> datetime \<Rightarrow> nat \<Rightarrow> string list \<Rightarrow> string list \<Rightarrow> PaperBroker \<Rightarrow> string list \<times> PaperBroker" where
  "process_pending_loop bars t now_ts [] remaining b = (remaining, b)"
| "process_pending_loop bars t now_ts (oid # pending) remaining b =
     (case process_pending_order bars t now_ts oid b of
        (True, b) \<Rightarrow> process_pending_loop bars t now_ts pending (remaining @ [oid]) b
      | (False, b) \<Rightarrow> process_pending_loop bars t now_ts pending remaining b)"

definition process_pending_orders :: "(string, Bar) hmap \<Rightarrow> datetime \<Rightarrow> nat \<Rightarrow> PaperBroker \<Rightarrow> PaperBroker" where
  "process_pending_orders bars t now_ts b =
     (case process_pending_loop bars t now_ts (pb_pending_orders b) [] (b\<lparr>pb_pending_orders := []\<rparr>) of
        (remaining, b) \<Rightarrow> b\<lparr>pb_pending_orders := remaining\<rparr>)"

section \<open>Closing positions\<close>

definition swap_days_for_order :: "Order \<Rightarrow> nat \<Rightarrow> f64" where
  "swap_days_for_order order current = (case ord_filled_at order of
       None \<Rightarrow> 0
     | Some opened_at \<Rightarrow>
         if current \<le> opened_at then 0
         else of_integer_f64 (int (current - opened_at)) / lit 86400)"

text \<open>The figures of closing \<open>close_qty\<close> of a position.\<close>

definition close_figures :: "Order \<Rightarrow> Position \<Rightarrow> f64 \<Rightarrow> f64 \<Rightarrow> datetime \<Rightarrow> ClosePositionResult" where
  "close_figures order position close_price close_qty t =
     (let requested_qty = (if close_qty \<le> 0 then pos_qty position else fmin close_qty (pos_qty position));
          fully_closed = (pos_qty position \<le> requested_qty);
          entry_commission = (if EPSILON < pos_qty position
                              then pos_entry_commission position * (requested_qty / pos_qty position) else 0);
          exit_commission = exit_commission_for_side (as_fees (ord_asset order)) (pos_side position)
                              close_price requested_qty (as_contract_size (ord_asset order));
          swap = swap_for_side (as_fees (ord_asset order)) (pos_side position) (pos_avg_entry_price position)
                   requested_qty (as_contract_size (ord_asset order)) (as_min_price_increment (ord_asset order))
                   (swap_days_for_order order (timestamp_u64 t));
          gross_pnl = (case pos_side position of
              Buy \<Rightarrow> (close_price - pos_avg_entry_price position) * requested_qty
            | Sell \<Rightarrow> (pos_avg_entry_price position - close_price) * requested_qty);
          net_pnl = gross_pnl + swap - entry_commission - exit_commission
      in \<lparr>cpr_fully_closed = fully_closed, cpr_qty = requested_qty, cpr_gross_pnl = gross_pnl,
          cpr_net_pnl = net_pnl, cpr_entry_commission = entry_commission,
          cpr_exit_commission = exit_commission, cpr_swap = swap\<rparr>)"

definition settle_account :: "PaperBroker \<Rightarrow> Position \<Rightarrow> ClosePositionResult \<Rightarrow> Account \<Rightarrow> Account" where
  "settle_account b position r account =
     (let cost = pos_avg_entry_price position * cpr_qty r
      in account\<lparr>acc_cash := acc_cash account
                    + (margin_of b cost + cpr_gross_pnl r + cpr_swap r - cpr_exit_commission r),
           acc_buying_power := fmax (acc_buying_power account + cost + cpr_gross_pnl r + cpr_swap r
                    - cpr_exit_commission r) 0,
           acc_accrued_commission := acc_accrued_commission account + cpr_exit_commission r\<rparr>)"

definition reduce_position :: "PaperBroker \<Rightarrow> ClosePositionResult \<Rightarrow> Position \<Rightarrow> Position" where
  "reduce_position b r position =
     (let qty = pos_qty position - cpr_qty r; cost_basis = pos_avg_entry_price position * qty
      in position\<lparr>pos_qty := qty,
           pos_entry_commission := fmax (pos_entry_commission position - cpr_entry_commission r) 0,
           pos_cost_basis := cost_basis,
           pos_market_value := pos_current_price position * qty,
           pos_margin_required := (if 1 < pb_leverage b
              then Some (cost_basis / of_integer_f64 (int (pb_leverage b))) else None)\<rparr>)"

definition exit_trade :: "Order \<Rightarrow> f64 \<Rightarrow> datetime \<Rightarrow> ClosePositionResult \<Rightarrow> string \<Rightarrow> TradeRecord" where
  "exit_trade order close_price t r currency =
     \<lparr>tr_date = t, tr_symbol = as_symbol (ord_asset order), tr_side = ord_side order,
      tr_qty = cpr_qty r, tr_price = close_price, tr_order_id = ord_order_id order,
      tr_insight_id = ord_insight_id order, tr_strategy_type = ord_strategy_type order,
      tr_commission = cpr_exit_commission r, tr_swap = cpr_swap r,
      tr_execution_cash = Some \<lparr>cash_currency = currency, cash_gross_pnl = Some (cpr_gross_pnl r),
        cash_commission = Some (cpr_exit_commission r), cash_carry = Some (cpr_swap r)\<rparr>,
      tr_account_notional = Some \<bar>close_price * cpr_qty r\<bar>,
      tr_valuation_basis = Some ''paper_price_units'', tr_trade_type = ExitTrade\<rparr>"

definition close_position_for_order ::
  "Order \<Rightarrow> f64 \<Rightarrow> f64 \<Rightarrow> datetime \<Rightarrow> PaperBroker \<Rightarrow> ClosePositionResult option \<times> PaperBroker" where
  "close_position_for_order order close_price close_qty t b =
     (let symbol = as_symbol (ord_asset order); oid = ord_order_id order
      in case hm_get (pb_positions b) symbol of
           None \<Rightarrow> (None, b)
         | Some book \<Rightarrow> (case hm_get book oid of
              None \<Rightarrow> (None, b)
            | Some position \<Rightarrow>
               (let r = close_figures order position close_price close_qty t;
                    b = b\<lparr>pb_account := settle_account b position r (pb_account b)\<rparr>;
                    b = log_trade (exit_trade order close_price t r (acc_currency (pb_account b))) b;
                    book = (if cpr_fully_closed r then hm_remove oid book
                            else hm_insert oid (reduce_position b r position) book)
                in (Some r, if book = []
                      then b\<lparr>pb_positions := hm_remove symbol (pb_positions b),
                             pb_valuation_mark_times := hm_remove symbol (pb_valuation_mark_times b)\<rparr>
                      else b\<lparr>pb_positions := hm_insert symbol book (pb_positions b)\<rparr>))))"

section \<open>Bracket legs\<close>

definition cancel_leg_unless_filled :: "nat \<Rightarrow> OrderLeg \<Rightarrow> OrderLeg" where
  "cancel_leg_unless_filled now_ts leg =
     (if leg_status leg \<noteq> Filled then leg\<lparr>leg_status := Cancelled, leg_updated_at := now_ts\<rparr> else leg)"

definition cancel_remaining_legs :: "PaperBroker \<Rightarrow> Order \<Rightarrow> Order" where
  "cancel_remaining_legs b order =
     (let c = cancel_leg_unless_filled (current_time_ts b)
      in order\<lparr>ord_legs := map_option (\<lambda>legs. legs\<lparr>
            legs_take_profit := map_option c (legs_take_profit legs),
            legs_stop_loss := map_option c (legs_stop_loss legs),
            legs_trailing_stop := map_option c (legs_trailing_stop legs)\<rparr>) (ord_legs order)\<rparr>)"

text \<open>The stop of a trailing leg at the start of a bar, and whether the bar reaches it.\<close>

definition update_trailing_stop_leg :: "OrderSide \<Rightarrow> Bar \<Rightarrow> nat \<Rightarrow> OrderLeg \<Rightarrow> bool \<times> OrderLeg" where
  "update_trailing_stop_leg side bar now_ts leg = (case leg_trail_price leg of
       None \<Rightarrow> (False, leg)
     | Some gap \<Rightarrow>
        (let current_stop = unwrap_or (leg_limit_price leg)
                (case side of Buy \<Rightarrow> bar_open bar - gap | Sell \<Rightarrow> bar_open bar + gap);
             triggered = (case side of Buy \<Rightarrow> bar_low bar \<le> current_stop | Sell \<Rightarrow> current_stop \<le> bar_high bar)
         in if triggered then (True, leg)
            else let next_stop = (case side of
                       Buy \<Rightarrow> fmax current_stop (bar_high bar - gap)
                     | Sell \<Rightarrow> fmin current_stop (bar_low bar + gap))
                 in if EPSILON < \<bar>next_stop - current_stop\<bar>
                    then (False, leg\<lparr>leg_limit_price := Some next_stop, leg_updated_at := now_ts\<rparr>)
                    else if leg_limit_price leg = None
                    then (False, leg\<lparr>leg_limit_price := Some current_stop, leg_updated_at := now_ts\<rparr>)
                    else (False, leg)))"

definition fill_leg :: "f64 \<Rightarrow> nat \<Rightarrow> OrderLeg \<Rightarrow> OrderLeg" where
  "fill_leg px now_ts leg = leg\<lparr>leg_status := Filled, leg_filled_price := Some px, leg_filled_at := Some now_ts\<rparr>"

text \<open>The three checks of \<open>process_active_orders\<close>; the close price is present when a leg fills.\<close>

definition check_trailing :: "OrderSide \<Rightarrow> Bar \<Rightarrow> nat \<Rightarrow> OrderLegs \<Rightarrow> f64 option \<times> OrderLegs" where
  "check_trailing side bar now_ts legs = (case legs_trailing_stop legs of
       None \<Rightarrow> (None, legs)
     | Some leg \<Rightarrow>
        if leg_status leg = Filled then (None, legs)
        else (case update_trailing_stop_leg side bar now_ts leg of
            (True, leg) \<Rightarrow>
              (let px = unwrap_or (leg_limit_price leg) (bar_close bar)
               in (Some px, legs\<lparr>legs_trailing_stop := Some (fill_leg px now_ts leg)\<rparr>))
          | (False, leg) \<Rightarrow> (None, legs\<lparr>legs_trailing_stop := Some leg\<rparr>)))"

definition check_stop_loss :: "OrderSide \<Rightarrow> Bar \<Rightarrow> nat \<Rightarrow> OrderLegs \<Rightarrow> f64 option \<times> OrderLegs" where
  "check_stop_loss side bar now_ts legs = (case legs_stop_loss legs of
       None \<Rightarrow> (None, legs)
     | Some leg \<Rightarrow>
        if leg_status leg = Filled then (None, legs)
        else (case leg_limit_price leg of
            None \<Rightarrow> (None, legs)
          | Some price \<Rightarrow>
             if (case side of Buy \<Rightarrow> bar_low bar \<le> price | Sell \<Rightarrow> price \<le> bar_high bar)
             then (Some price, legs\<lparr>legs_stop_loss := Some (fill_leg price now_ts leg)\<rparr>)
             else (None, legs)))"

definition check_take_profit :: "OrderSide \<Rightarrow> Bar \<Rightarrow> nat \<Rightarrow> OrderLegs \<Rightarrow> f64 option \<times> OrderLegs" where
  "check_take_profit side bar now_ts legs = (case legs_take_profit legs of
       None \<Rightarrow> (None, legs)
     | Some leg \<Rightarrow>
        if leg_status leg = Filled then (None, legs)
        else (case leg_limit_price leg of
            None \<Rightarrow> (None, legs)
          | Some price \<Rightarrow>
             if (case side of Buy \<Rightarrow> price \<le> bar_high bar | Sell \<Rightarrow> bar_low bar \<le> price)
             then (Some price, legs\<lparr>legs_take_profit := Some (fill_leg price now_ts leg)\<rparr>)
             else (None, legs)))"

definition check_legs :: "OrderSide \<Rightarrow> Bar \<Rightarrow> nat \<Rightarrow> OrderLegs \<Rightarrow> f64 option \<times> OrderLegs" where
  "check_legs side bar now_ts legs = (case check_trailing side bar now_ts legs of
       (Some px, legs) \<Rightarrow> (Some px, legs)
     | (None, legs) \<Rightarrow> (case check_stop_loss side bar now_ts legs of
           (Some px, legs) \<Rightarrow> (Some px, legs)
         | (None, legs) \<Rightarrow> check_take_profit side bar now_ts legs))"

text \<open>The order of a position that a leg closed.\<close>

definition closed_by_leg :: "PaperBroker \<Rightarrow> f64 \<Rightarrow> nat \<Rightarrow> ClosePositionResult option \<Rightarrow> Order \<Rightarrow> Order" where
  "closed_by_leg b px now_ts result order =
     (let order = order\<lparr>ord_status := Closed, ord_updated_at := now_ts, ord_filled_price := Some px,
            ord_filled_qty := ord_qty order\<rparr>;
          order = (case result of None \<Rightarrow> order
             | Some r \<Rightarrow> order\<lparr>ord_realized_pnl := Some (cpr_net_pnl r),
                 ord_commission := Some (cpr_entry_commission r + cpr_exit_commission r),
                 ord_swap := Some (cpr_swap r)\<rparr>)
      in cancel_remaining_legs b (order\<lparr>ord_qty := 0\<rparr>))"

definition close_active :: "f64 \<Rightarrow> datetime \<Rightarrow> nat \<Rightarrow> string \<Rightarrow> Order \<Rightarrow> PaperBroker \<Rightarrow> PaperBroker" where
  "close_active px t now_ts oid order b =
     (let (result, b) = close_position_for_order order px (ord_qty order) t b;
          order = closed_by_leg b px now_ts result order;
          b = put_order order oid b;
          (fill, b) = (case result of None \<Rightarrow> (None, b)
             | Some r \<Rightarrow> (case exit_execution order (ord_order_id order) px t r b of
                  (f, b) \<Rightarrow> (Some f, b)));
          b = emit_execution_event order Closed fill b
      in mark_order_terminal_for_release oid b)"

definition process_active_order ::
  "(string, Bar) hmap \<Rightarrow> datetime \<Rightarrow> nat \<Rightarrow> string \<Rightarrow> PaperBroker \<times> string list \<Rightarrow> PaperBroker \<times> string list" where
  "process_active_order bars t now_ts oid p = (case p of (b, to_remove) \<Rightarrow>
     (case hm_get (pb_orders b) oid of
        None \<Rightarrow> (b, to_remove)
      | Some order \<Rightarrow> (case hm_get bars (as_symbol (ord_asset order)) of
           None \<Rightarrow> (b, to_remove)
         | Some bar \<Rightarrow> (case ord_legs order of
              None \<Rightarrow> (b, to_remove)
            | Some legs \<Rightarrow> (case check_legs (ord_side order) bar now_ts legs of
                 (None, legs) \<Rightarrow> (put_order (order\<lparr>ord_legs := Some legs\<rparr>) oid b, to_remove)
               | (Some px, legs) \<Rightarrow>
                   (close_active px t now_ts oid (order\<lparr>ord_legs := Some legs\<rparr>) b, to_remove @ [oid]))))))"

definition remove_active :: "string \<Rightarrow> PaperBroker \<Rightarrow> PaperBroker" where
  "remove_active oid b = b\<lparr>
     pb_orders := hm_modify oid (\<lambda>ord. cancel_remaining_legs b (ord\<lparr>ord_status := Closed, ord_qty := 0\<rparr>)) (pb_orders b),
     pb_active_orders := hm_remove oid (pb_active_orders b)\<rparr>"

definition process_active_orders :: "(string, Bar) hmap \<Rightarrow> datetime \<Rightarrow> nat \<Rightarrow> PaperBroker \<Rightarrow> PaperBroker" where
  "process_active_orders bars t now_ts b =
     (case fold (process_active_order bars t now_ts) (hm_keys (pb_active_orders b)) (b, []) of
        (b, to_remove) \<Rightarrow> fold remove_active to_remove b)"

section \<open>Account balance\<close>

definition mark_position :: "Bar option \<Rightarrow> Position \<Rightarrow> Position" where
  "mark_position bar pos = (case bar of
       None \<Rightarrow> pos
     | Some bar \<Rightarrow> pos\<lparr>pos_current_price := bar_close bar, pos_market_value := bar_close bar * pos_qty pos,
         pos_unrealized_pnl := (case pos_side pos of
             Buy \<Rightarrow> (bar_close bar - pos_avg_entry_price pos) * pos_qty pos
           | Sell \<Rightarrow> (pos_avg_entry_price pos - bar_close bar) * pos_qty pos)\<rparr>)"

definition position_mae_pct :: "Bar \<Rightarrow> Position \<Rightarrow> f64" where
  "position_mae_pct bar pos =
     (if EPSILON < \<bar>pos_avg_entry_price pos\<bar>
      then (case pos_side pos of
              Buy \<Rightarrow> ((bar_low bar - pos_avg_entry_price pos) / pos_avg_entry_price pos) * lit 100
            | Sell \<Rightarrow> ((pos_avg_entry_price pos - bar_high bar) / pos_avg_entry_price pos) * lit 100)
      else 0)"

definition mark_time :: "datetime \<Rightarrow> (string, Bar) hmap \<Rightarrow> string \<Rightarrow> (string, int) hmap \<Rightarrow> (string, int) hmap" where
  "mark_time observed_at bars symbol marks = (case hm_get bars symbol of
       None \<Rightarrow> marks
     | Some bar \<Rightarrow>
         if is_finite (bar_close bar) \<and> bar_timestamp bar \<le> observed_at
         then hm_insert symbol (timestamp_micros (bar_timestamp bar)) marks
         else hm_remove symbol marks)"

definition mark_books :: "(string, Bar) hmap \<Rightarrow> (string, (string, Position) hmap) hmap
    \<Rightarrow> (string, (string, Position) hmap) hmap" where
  "mark_books bars books = map (\<lambda>(symbol, book). (symbol, map (\<lambda>(oid, p). (oid, mark_position (hm_get bars symbol) p)) book)) books"

definition all_positions :: "(string, (string, Position) hmap) hmap \<Rightarrow> Position list" where
  "all_positions books = concat (map (\<lambda>(symbol, book). map snd book) books)"

definition mae_updates :: "(string, Bar) hmap \<Rightarrow> (string, (string, Position) hmap) hmap \<Rightarrow> (string \<times> f64) list" where
  "mae_updates bars books = concat (map (\<lambda>(symbol, book). case hm_get bars symbol of
       None \<Rightarrow> [] | Some bar \<Rightarrow> map (\<lambda>(oid, p). (oid, position_mae_pct bar p)) book) books)"

definition update_account_balance :: "(string, Bar) hmap \<Rightarrow> PaperBroker \<Rightarrow> PaperBroker" where
  "update_account_balance bars b =
     (let books = mark_books bars (pb_positions b);
          unrealized = fsum (map pos_unrealized_pnl (all_positions books));
          margin = fsum (map (\<lambda>p. unwrap_or (pos_margin_required p) (pos_cost_basis p)) (all_positions books));
          account = pb_account b
      in b\<lparr>pb_positions := books,
           pb_valuation_mark_times :=
             fold (mark_time (pb_current_time b) bars) (hm_keys (pb_positions b)) (pb_valuation_mark_times b),
           pb_backtest_state := map_option
             (fold (\<lambda>(oid, mae). record_trade_mae oid mae) (mae_updates bars books)) (pb_backtest_state b),
           pb_account := account\<lparr>acc_equity := acc_cash account + unrealized + margin\<rparr>\<rparr>)"

section \<open>Deferred queues\<close>

text \<open>The stored order of a close request that settled, as \<open>process_close_queue\<close> updates it.\<close>

definition accrue_close :: "nat \<Rightarrow> ClosePositionResult \<Rightarrow> Order \<Rightarrow> Order" where
  "accrue_close now_ts r o1 = o1\<lparr>ord_updated_at := now_ts,
     ord_realized_pnl := Some (unwrap_or (ord_realized_pnl o1) 0 + cpr_net_pnl r),
     ord_commission := Some (unwrap_or (ord_commission o1) 0 + cpr_exit_commission r),
     ord_swap := Some (unwrap_or (ord_swap o1) 0 + cpr_swap r)\<rparr>"

definition settle_close ::
  "string \<Rightarrow> f64 \<Rightarrow> datetime \<Rightarrow> nat \<Rightarrow> ClosePositionResult \<Rightarrow> Order \<Rightarrow> PaperBroker \<Rightarrow> bool \<times> PaperBroker" where
  "settle_close oid px t now_ts r o1 b =
     (let remaining_qty = fmax (ord_qty o1 - cpr_qty r) 0;
          terminal_close = (cpr_fully_closed r \<or> remaining_qty \<le> EPSILON);
          o1 = accrue_close now_ts r o1
      in if terminal_close
         then let o1 = cancel_remaining_legs b (o1\<lparr>ord_filled_price := Some px, ord_filled_qty := cpr_qty r,
                     ord_qty := 0, ord_status := Closed\<rparr>);
                  b = put_order o1 oid b;
                  (fill, b) = exit_execution o1 oid px t r b;
                  b = emit_execution_event o1 Closed (Some fill) b
              in (True, mark_order_terminal_for_release oid b)
         else let o1 = o1\<lparr>ord_qty := remaining_qty, ord_filled_qty := remaining_qty, ord_status := Filled\<rparr>;
                  b = put_order o1 oid b;
                  (uid, b) = new_v4 b;
                  exit = o1\<lparr>ord_order_id := uid, ord_side := opposite (ord_side o1), ord_qty := cpr_qty r,
                     ord_filled_qty := cpr_qty r, ord_filled_price := Some px, ord_status := PartialFilled\<rparr>;
                  (fill, b) = exit_execution o1 (ord_order_id exit) px t r b
              in (False, emit_execution_event exit PartialFilled (Some fill) b))"

definition process_close_request ::
  "(string, Bar) hmap \<Rightarrow> datetime \<Rightarrow> nat \<Rightarrow> string \<times> f64 \<times> f64 option \<Rightarrow> PaperBroker \<Rightarrow> PaperBroker" where
  "process_close_request bars t now_ts req b = (case req of (oid, qty, requested_price) \<Rightarrow>
     (case hm_get (pb_orders b) oid of
        None \<Rightarrow> b
      | Some order \<Rightarrow> (case hm_get bars (as_symbol (ord_asset order)) of
           None \<Rightarrow> b
         | Some bar \<Rightarrow>
            (let px = unwrap_or requested_price (bar_close bar)
             in case close_position_for_order order px qty t b of
                  (None, b) \<Rightarrow> b
                | (Some r, b) \<Rightarrow>
                   (let (terminal_close, b) = (case hm_get (pb_orders b) oid of
                          None \<Rightarrow> (cpr_fully_closed r, b)
                        | Some o1 \<Rightarrow> settle_close oid px t now_ts r o1 b)
                    in if terminal_close
                       then b\<lparr>pb_active_orders := hm_remove oid (pb_active_orders b)\<rparr> else b)))))"

definition process_close_queue :: "(string, Bar) hmap \<Rightarrow> datetime \<Rightarrow> nat \<Rightarrow> PaperBroker \<Rightarrow> PaperBroker" where
  "process_close_queue bars t now_ts b =
     fold (process_close_request bars t now_ts) (pb_close_orders_queue b) (b\<lparr>pb_close_orders_queue := []\<rparr>)"

definition process_update_queue :: "nat \<Rightarrow> PaperBroker \<Rightarrow> PaperBroker" where
  "process_update_queue now_ts b = b\<lparr>pb_update_orders_queue := [],
     pb_orders := fold (\<lambda>(oid, status). hm_modify oid (\<lambda>ord. ord\<lparr>ord_status := status, ord_updated_at := now_ts\<rparr>))
       (pb_update_orders_queue b) (pb_orders b)\<rparr>"

section \<open>Steps\<close>

definition process_step :: "(string, Bar) hmap \<Rightarrow> datetime \<Rightarrow> PaperBroker \<Rightarrow> PaperBroker" where
  "process_step bars t b =
     (let now_ts = timestamp_u64 t;
          b = set_time t b;
          b = process_pending_orders bars t now_ts b;
          b = process_active_orders bars t now_ts b;
          b = process_close_queue bars t now_ts b;
          b = process_update_queue now_ts b;
          b = update_account_balance bars b
      in b\<lparr>pb_valuation_as_of_us := Some (timestamp_micros t)\<rparr>)"

definition process_close_queue_at :: "(string, Bar) hmap \<Rightarrow> datetime \<Rightarrow> PaperBroker \<Rightarrow> nat \<times> PaperBroker" where
  "process_close_queue_at bars t b =
     (let queued = length (pb_close_orders_queue b)
      in if queued = 0 then (0, b)
         else let b = set_time t b;
                  b = process_close_queue bars t (timestamp_u64 t) b;
                  b = update_account_balance bars b
              in (queued, b\<lparr>pb_valuation_as_of_us := Some (timestamp_micros t)\<rparr>))"

definition process_live_bar :: "Bar \<Rightarrow> PaperBroker \<Rightarrow> PaperBroker" where
  "process_live_bar bar b = process_step [(bar_symbol bar, bar)] (bar_timestamp bar) b"

section \<open>Requests\<close>

definition opt_uuid :: "'a option \<Rightarrow> PaperBroker \<Rightarrow> ('a \<times> string) option \<times> PaperBroker" where
  "opt_uuid a b = (case a of None \<Rightarrow> (None, b)
     | Some v \<Rightarrow> (case new_v4 b of (uid, b) \<Rightarrow> (Some (v, uid), b)))"

definition new_leg :: "string \<Rightarrow> f64 option \<Rightarrow> f64 option \<Rightarrow> OrderSide \<Rightarrow> OrderType \<Rightarrow> nat \<Rightarrow> OrderLeg" where
  "new_leg uid limit trail side ty now_ts = \<lparr>leg_order_id = Some uid, leg_limit_price = limit,
     leg_trail_price = trail, leg_side = side, leg_filled_price = None, leg_order_type = ty,
     leg_status = Pending, leg_order_class = Bracket, leg_created_at = now_ts, leg_updated_at = now_ts,
     leg_submitted_at = now_ts, leg_filled_at = None\<rparr>"

text \<open>The asset of a request: the registered one with the broker's fees, or a default stock.\<close>

definition request_asset :: "string \<Rightarrow> PaperBroker \<Rightarrow> Asset \<times> PaperBroker" where
  "request_asset symbol b = (case hm_get (pb_asset_metadata b) symbol of
       Some asset \<Rightarrow> (asset\<lparr>as_fees := pb_asset_fees b\<rparr>, b)
     | None \<Rightarrow> (case new_v4 b of (uid, b) \<Rightarrow>
         (\<lparr>as_id = uid, as_symbol = symbol, as_name = symbol, as_asset_type = Stock, as_status = Active,
           as_exchange = NYSE, as_tradable = True, as_marginable = True, as_shortable = True,
           as_fractional = True, as_min_order_size = None, as_quantity_base = None,
           as_max_order_size = None, as_max_total_size = None, as_min_price_increment = None,
           as_price_base = None, as_contract_size = None, as_trading_calendar = None,
           as_fees = pb_asset_fees b\<rparr>, b)))"

definition request_legs :: "BrokerOrderRequest \<Rightarrow> nat \<Rightarrow> PaperBroker \<Rightarrow> OrderLegs option \<times> PaperBroker" where
  "request_legs req now_ts b =
     (if req_order_class req = Bracket
      then let side = opposite (req_side req);
               (tp, b) = opt_uuid (Option.bind (req_take_profit_levels req) last_opt) b;
               (sl, b) = opt_uuid (Option.bind (req_stop_loss_levels req) last_opt) b;
               (trail, b) = opt_uuid (req_trailing_stop_price req) b
           in (Some \<lparr>legs_take_profit = map_option (\<lambda>(p, u). new_leg u (Some p) None side Limit now_ts) tp,
                     legs_stop_loss = map_option (\<lambda>(p, u). new_leg u (Some p) None side Stop now_ts) sl,
                     legs_trailing_stop = map_option (\<lambda>(p, u). new_leg u None (Some p) side TrailingStop now_ts) trail\<rparr>, b)
      else (None, b))"

definition duplicate_identity :: BrokerError where
  "duplicate_identity = OrderError ''Client order identity already exists; reconcile instead of resubmitting''"

definition request_order :: "BrokerOrderRequest \<Rightarrow> f64 \<Rightarrow> Asset \<Rightarrow> OrderLegs option \<Rightarrow> nat \<Rightarrow> Order" where
  "request_order req qty asset legs now_ts =
     \<lparr>ord_order_id = req_client_order_id req, ord_insight_id = Some (req_insight_id req),
      ord_strategy_type = Some (req_strategy_type req), ord_asset = asset, ord_qty = qty,
      ord_filled_qty = 0, ord_limit_price = req_limit_price req, ord_filled_price = None,
      ord_stop_price = req_stop_price req, ord_side = req_side req,
      ord_order_type = req_order_type req, ord_time_in_force = GTC, ord_status = Pending,
      ord_order_class = req_order_class req, ord_created_at = now_ts, ord_updated_at = now_ts,
      ord_submitted_at = now_ts, ord_filled_at = None, ord_realized_pnl = None,
      ord_position_accounting = None, ord_commission = None, ord_swap = None,
      ord_rejection_reason = None, ord_legs = legs\<rparr>"

text \<open>The check up front, when the trigger price is already known.\<close>

definition submission_rejection :: "PaperBroker \<Rightarrow> Order \<Rightarrow> string option" where
  "submission_rejection b order = (case opt_or (ord_limit_price order) (ord_stop_price order) of
       None \<Rightarrow> None
     | Some estimated_price \<Rightarrow> insufficient_funds_reason b (ord_side order) (ord_qty order) estimated_price
          (as_contract_size (ord_asset order)))"

definition submit_order :: "BrokerOrderRequest \<Rightarrow> PaperBroker \<Rightarrow> (BrokerError + Order) \<times> PaperBroker" where
  "submit_order req b = (case req_quantity req of
       None \<Rightarrow> (Inl (OrderError (''Cannot submit order for '' @ req_symbol req @ '' without a quantity'')), b)
     | Some qty \<Rightarrow>
        if \<not> is_finite qty \<or> qty \<le> 0
        then (Inl (OrderError (''Cannot submit order for '' @ req_symbol req @ '' with invalid quantity ''
                 @ display_f64 qty)), b)
        else
         (let oid = req_client_order_id req; now_ts = current_time_ts b;
              (asset, b) = request_asset (req_symbol req) b;
              (legs, b) = request_legs req now_ts b;
              order = request_order req qty asset legs now_ts
          in case hm_get (pb_orders b) oid of
               Some _ \<Rightarrow> (Inl duplicate_identity, b)
             | None \<Rightarrow>
                (case submission_rejection b order of
                   Some reason \<Rightarrow>
                     (let order = order\<lparr>ord_status := Rejected, ord_rejection_reason := Some reason\<rparr>;
                          b = b\<lparr>pb_orders := hm_insert oid order (pb_orders b)\<rparr>;
                          b = emit_trade_event order Rejected b
                      in (Inr order, mark_order_terminal_for_release oid b))
                 | None \<Rightarrow>
                     (let b = b\<lparr>pb_orders := hm_insert oid order (pb_orders b),
                            pb_pending_orders := pb_pending_orders b @ [oid]\<rparr>
                      in (Inr order, emit_trade_event order PendingNew b)))))"

text \<open>Cancelling a leg: the first leg with the identity; a terminal leg is left as it is.\<close>

definition cancel_leg :: "nat \<Rightarrow> OrderLeg \<Rightarrow> OrderLeg" where
  "cancel_leg now_ts leg =
     (if is_terminal_leg_status (leg_status leg) then leg
      else leg\<lparr>leg_status := Cancelled, leg_updated_at := now_ts\<rparr>)"

definition leg_is :: "string \<Rightarrow> OrderLeg option \<Rightarrow> bool" where
  "leg_is oid leg = (case leg of None \<Rightarrow> False | Some l \<Rightarrow> leg_order_id l = Some oid)"

definition cancel_leg_on_parent :: "string \<Rightarrow> nat \<Rightarrow> Order \<Rightarrow> bool \<times> Order" where
  "cancel_leg_on_parent oid now_ts order = (case ord_legs order of
       None \<Rightarrow> (False, order)
     | Some legs \<Rightarrow>
        if leg_is oid (legs_take_profit legs)
        then (True, order\<lparr>ord_legs := Some (legs\<lparr>legs_take_profit := map_option (cancel_leg now_ts) (legs_take_profit legs)\<rparr>)\<rparr>)
        else if leg_is oid (legs_stop_loss legs)
        then (True, order\<lparr>ord_legs := Some (legs\<lparr>legs_stop_loss := map_option (cancel_leg now_ts) (legs_stop_loss legs)\<rparr>)\<rparr>)
        else if leg_is oid (legs_trailing_stop legs)
        then (True, order\<lparr>ord_legs := Some (legs\<lparr>legs_trailing_stop := map_option (cancel_leg now_ts) (legs_trailing_stop legs)\<rparr>)\<rparr>)
        else (False, order))"

definition owns_leg :: "string \<Rightarrow> Order \<Rightarrow> bool" where
  "owns_leg oid order = (case ord_legs order of None \<Rightarrow> False
     | Some legs \<Rightarrow> leg_is oid (legs_take_profit legs) \<or> leg_is oid (legs_stop_loss legs)
         \<or> leg_is oid (legs_trailing_stop legs))"

definition cancel_order :: "string \<Rightarrow> PaperBroker \<Rightarrow> (BrokerError + bool) \<times> PaperBroker" where
  "cancel_order oid b = (case hm_get (pb_orders b) oid of
       Some order \<Rightarrow>
         if ord_status order = Filled \<or> ord_status order = Closed
         then (Inl (OrderCancellationError ''Cannot cancel filled/closed order''), b)
         else let order = order\<lparr>ord_status := Cancelled, ord_updated_at := current_time_ts b\<rparr>;
                  b = put_order order oid b;
                  b = emit_trade_event order Cancelled b
              in (Inr True, mark_order_terminal_for_release oid b)
     | None \<Rightarrow>
        (let now_ts = current_time_ts b; fail = Inl (OrderCancellationError (''Order not found: '' @ oid))
         in case List.find (\<lambda>(_, order). owns_leg oid order) (pb_orders b) of
              None \<Rightarrow> (fail, b)
            | Some (parent_id, _) \<Rightarrow> (case hm_get (pb_orders b) parent_id of
                 None \<Rightarrow> (fail, b)
               | Some parent \<Rightarrow> (case cancel_leg_on_parent oid now_ts parent of
                    (False, parent) \<Rightarrow> (fail, put_order parent parent_id b)
                  | (True, parent) \<Rightarrow>
                     (let parent = parent\<lparr>ord_updated_at := now_ts\<rparr>
                      in (Inr True, emit_trade_event parent Cancelled (put_order parent parent_id b)))))))"

definition is_pending_status :: "TradeUpdateEvent \<Rightarrow> bool" where
  "is_pending_status s \<longleftrightarrow> s = New \<or> s = PendingNew \<or> s = Pending \<or> s = Accepted \<or> s = Replaced"

definition bad_price :: "f64 \<Rightarrow> bool" where
  "bad_price p \<longleftrightarrow> \<not> is_finite p \<or> p \<le> 0"

definition amend_entry_prices ::
  "string \<Rightarrow> f64 option \<Rightarrow> f64 option \<Rightarrow> PaperBroker \<Rightarrow> (BrokerError + bool) \<times> PaperBroker" where
  "amend_entry_prices oid limit_price stop_price b = (case hm_get (pb_orders b) oid of
       None \<Rightarrow> (Inl (UnsupportedOperation ''Pending entry not found''), b)
     | Some order \<Rightarrow>
        if 0 < ord_filled_qty order \<or> \<not> is_pending_status (ord_status order)
        then (Inl (UnsupportedOperation ''Entry has filled or is no longer pending''), b)
        else if (limit_price = None \<and> stop_price = None)
           \<or> (case limit_price of None \<Rightarrow> False | Some p \<Rightarrow> bad_price p)
           \<or> (case stop_price of None \<Rightarrow> False | Some p \<Rightarrow> bad_price p)
           \<or> (limit_price \<noteq> None \<and> ord_order_type order \<noteq> Limit \<and> ord_order_type order \<noteq> StopLimit)
           \<or> (stop_price \<noteq> None \<and> ord_order_type order \<noteq> Stop \<and> ord_order_type order \<noteq> StopLimit)
        then (Inl (UnsupportedOperation ''Invalid entry price amendment''), b)
        else (Inr True, put_order (order\<lparr>ord_limit_price := opt_or limit_price (ord_limit_price order),
                ord_stop_price := opt_or stop_price (ord_stop_price order),
                ord_updated_at := current_time_ts b\<rparr>) oid b))"

definition replace_order :: "string \<Rightarrow> f64 \<Rightarrow> f64 \<Rightarrow> PaperBroker \<Rightarrow> (BrokerError + bool) \<times> PaperBroker" where
  "replace_order oid price qty b = (case hm_get (pb_orders b) oid of
       None \<Rightarrow> (Inl (OrderError ''Order not found''), b)
     | Some order \<Rightarrow>
        if \<not> is_pending_status (ord_status order)
        then (Inl (OrderError ''Only a pending entry can be replaced''), b)
        else if bad_price price \<or> bad_price qty
        then (Inl (OrderError ''Invalid replacement price or quantity''), b)
        else (Inr True, put_order (order\<lparr>ord_limit_price := Some price, ord_qty := qty,
                ord_updated_at := current_time_ts b\<rparr>) oid b))"

definition update_order_leg :: "OrderLeg option \<Rightarrow> string \<Rightarrow> f64 \<Rightarrow> nat \<Rightarrow> OrderLeg option" where
  "update_order_leg leg oid price now_ts = (case leg of
       None \<Rightarrow> None
     | Some l \<Rightarrow> if leg_order_id l \<noteq> Some oid \<or> is_terminal_leg_status (leg_status l) then None
               else Some (l\<lparr>leg_limit_price := Some price, leg_updated_at := now_ts\<rparr>))"

definition is_terminal_order_status :: "TradeUpdateEvent \<Rightarrow> bool" where
  "is_terminal_order_status s \<longleftrightarrow> s = Closed \<or> s = Cancelled \<or> s = Rejected \<or> s = Expired"

text \<open>
  \<open>update_take_profit\<close> and \<open>update_stop_loss\<close> differ in the leg they address (\<open>get\<close>, \<open>put\<close>) and in
  their messages.  An identity that is not an order is searched among the legs of all orders, in the
  iteration order.
\<close>

definition update_order_by_leg ::
  "(OrderLegs \<Rightarrow> OrderLeg option) \<Rightarrow> (OrderLeg \<Rightarrow> OrderLegs \<Rightarrow> OrderLegs) \<Rightarrow> string \<Rightarrow> f64 \<Rightarrow> nat \<Rightarrow> Order \<Rightarrow> Order option" where
  "update_order_by_leg get put oid price now_ts order = (case ord_legs order of
       None \<Rightarrow> None
     | Some legs \<Rightarrow> (case update_order_leg (get legs) oid price now_ts of
          None \<Rightarrow> None
        | Some l \<Rightarrow> Some (order\<lparr>ord_legs := Some (put l legs), ord_updated_at := now_ts\<rparr>)))"

fun update_first :: "('v \<Rightarrow> 'v option) \<Rightarrow> ('k, 'v) hmap \<Rightarrow> ('k, 'v) hmap option" where
  "update_first f [] = None"
| "update_first f ((k, v) # m) = (case f v of
      Some v' \<Rightarrow> Some ((k, v') # m) | None \<Rightarrow> map_option (\<lambda>m'. (k, v) # m') (update_first f m))"

definition update_protective ::
  "(OrderLegs \<Rightarrow> OrderLeg option) \<Rightarrow> (OrderLeg \<Rightarrow> OrderLegs \<Rightarrow> OrderLegs) \<Rightarrow> string \<Rightarrow> string \<Rightarrow> string
    \<Rightarrow> string \<Rightarrow> string \<Rightarrow> f64 \<Rightarrow> PaperBroker \<Rightarrow> (BrokerError + bool) \<times> PaperBroker" where
  "update_protective get put invalid missing no_leg terminal oid price b =
     (if bad_price price then (Inl (OrderError invalid), b)
      else let now_ts = current_time_ts b
       in case hm_get (pb_orders b) oid of
          None \<Rightarrow> (case update_first (update_order_by_leg get put oid price now_ts) (pb_orders b) of
              None \<Rightarrow> (Inl (OrderError missing), b)
            | Some orders \<Rightarrow> (Inr True, b\<lparr>pb_orders := orders\<rparr>))
        | Some order \<Rightarrow>
           if is_terminal_order_status (ord_status order)
           then (Inl (OrderError ''Cannot modify a terminal order''), b)
           else (case Option.bind (ord_legs order) get of
              None \<Rightarrow> (Inl (OrderError no_leg), b)
            | Some l \<Rightarrow>
               if is_terminal_leg_status (leg_status l) then (Inl (OrderError terminal), b)
               else (Inr True, put_order (order\<lparr>
                  ord_legs := map_option (put (l\<lparr>leg_limit_price := Some price, leg_updated_at := now_ts\<rparr>)) (ord_legs order),
                  ord_updated_at := now_ts\<rparr>) oid b)))"

definition update_take_profit :: "string \<Rightarrow> f64 \<Rightarrow> PaperBroker \<Rightarrow> (BrokerError + bool) \<times> PaperBroker" where
  "update_take_profit oid price b = update_protective legs_take_profit
     (\<lambda>l legs. legs\<lparr>legs_take_profit := Some l\<rparr>) ''Invalid take profit price'' ''Take profit order not found''
     ''Order has no take profit leg'' ''Take profit leg is terminal'' oid price b"

definition update_stop_loss :: "string \<Rightarrow> f64 \<Rightarrow> PaperBroker \<Rightarrow> (BrokerError + bool) \<times> PaperBroker" where
  "update_stop_loss oid price b = update_protective legs_stop_loss
     (\<lambda>l legs. legs\<lparr>legs_stop_loss := Some l\<rparr>) ''Invalid stop loss price'' ''Order not found''
     ''Order has no stop loss leg'' ''Stop loss leg is terminal'' oid price b"

definition no_position :: "string \<Rightarrow> string \<Rightarrow> string \<Rightarrow> BrokerError" where
  "no_position what oid symbol = PositionError (what @ oid @ '' ('' @ symbol @ '')'')"

definition close_position :: "string \<Rightarrow> f64 \<Rightarrow> f64 option \<Rightarrow> PaperBroker \<Rightarrow> (BrokerError + bool) \<times> PaperBroker" where
  "close_position oid qty price b = (case hm_get (pb_orders b) oid of
       None \<Rightarrow> (Inl (OrderError (''Order not found for close request: '' @ oid)), b)
     | Some order \<Rightarrow>
        (let symbol = as_symbol (ord_asset order)
         in case hm_get (pb_positions b) symbol of
              None \<Rightarrow> (Inl (no_position ''No position found for order '' oid symbol), b)
            | Some book \<Rightarrow> (case hm_get book oid of
                 None \<Rightarrow> (Inl (no_position ''No open position found for order '' oid symbol), b)
               | Some position \<Rightarrow>
                  (let close_qty = (if qty \<le> 0 then pos_qty position else fmin qty (pos_qty position))
                   in if close_qty \<le> 0
                      then (Inl (no_position ''No closable quantity found for order '' oid symbol), b)
                      else (Inr True, b\<lparr>pb_close_orders_queue := pb_close_orders_queue b @ [(oid, close_qty, price)]\<rparr>)))))"

fun close_each :: "string list \<Rightarrow> PaperBroker \<Rightarrow> (BrokerError + bool) \<times> PaperBroker" where
  "close_each [] b = (Inr True, b)"
| "close_each (oid # ids) b = (case close_position oid 0 None b of
      (Inl e, b) \<Rightarrow> (Inl e, b) | (Inr _, b) \<Rightarrow> close_each ids b)"

definition close_all_positions :: "PaperBroker \<Rightarrow> (BrokerError + bool) \<times> PaperBroker" where
  "close_all_positions b = close_each (concat (map (\<lambda>(_, book). hm_keys book) (pb_positions b))) b"

section \<open>Reads, connection and subscriptions\<close>

definition connect :: "PaperBroker \<Rightarrow> bool \<times> PaperBroker" where
  "connect b = (True, b\<lparr>pb_connected := True\<rparr>)"

definition disconnect :: "PaperBroker \<Rightarrow> bool \<times> PaperBroker" where
  "disconnect b = (True, b\<lparr>pb_connected := False\<rparr>)"

definition add_position :: "Position \<Rightarrow> Position \<Rightarrow> Position" where
  "add_position a pos =
     (let total_qty = pos_qty a + pos_qty pos
      in a\<lparr>pos_order_id := None,
           pos_avg_entry_price := (if 0 < total_qty
              then (pos_avg_entry_price a * pos_qty a + pos_avg_entry_price pos * pos_qty pos) / total_qty
              else pos_avg_entry_price a),
           pos_qty := total_qty,
           pos_market_value := pos_market_value a + pos_market_value pos,
           pos_cost_basis := pos_cost_basis a + pos_cost_basis pos,
           pos_current_price := pos_current_price pos,
           pos_unrealized_pnl := pos_unrealized_pnl a + pos_unrealized_pnl pos,
           pos_realized_pnl := pos_realized_pnl a + pos_realized_pnl pos\<rparr>)"

definition get_aggregate_position :: "PaperBroker \<Rightarrow> string \<Rightarrow> Position option" where
  "get_aggregate_position b symbol = (case hm_get (pb_positions b) symbol of
       None \<Rightarrow> None
     | Some [] \<Rightarrow> None
     | Some ((_, p) # book) \<Rightarrow> Some (foldl add_position p (map snd book)))"

definition get_position :: "PaperBroker \<Rightarrow> string \<Rightarrow> BrokerError + Position" where
  "get_position b symbol = (case get_aggregate_position b symbol of
       None \<Rightarrow> Inl (PositionError ''Position not found'') | Some p \<Rightarrow> Inr p)"

definition get_position_by_order_id :: "PaperBroker \<Rightarrow> string \<Rightarrow> string \<Rightarrow> Position option" where
  "get_position_by_order_id b oid symbol = Option.bind (hm_get (pb_positions b) symbol) (\<lambda>book. hm_get book oid)"

definition get_cached_positions :: "PaperBroker \<Rightarrow> Position list" where
  "get_cached_positions b = all_positions (pb_positions b)"

definition get_order :: "PaperBroker \<Rightarrow> string \<Rightarrow> BrokerError + Order" where
  "get_order b oid = (case hm_get (pb_orders b) oid of
       None \<Rightarrow> Inl (OrderError ''Order not found'') | Some ord \<Rightarrow> Inr ord)"

definition get_orders :: "PaperBroker \<Rightarrow> Order list" where
  "get_orders b = map snd (pb_orders b)"

record BrokerLifecycleSnapshot =
  bls_orders :: "Order list"
  bls_positions :: "Position list"
  bls_snapshot_complete :: bool
  bls_captured_at :: datetime

text \<open>The terminal history of a paper snapshot is always empty.\<close>

definition get_cached_lifecycle_snapshot :: "PaperBroker \<Rightarrow> BrokerLifecycleSnapshot" where
  "get_cached_lifecycle_snapshot b = \<lparr>bls_orders = get_orders b,
     bls_positions = List.map_filter (get_aggregate_position b) (hm_keys (pb_positions b)),
     bls_snapshot_complete = True, bls_captured_at = pb_current_time b\<rparr>"

definition drain_trade_events_bounded :: "nat \<Rightarrow> PaperBroker \<Rightarrow> (Order \<times> TradeUpdateEvent) list \<times> PaperBroker" where
  "drain_trade_events_bounded n b = (case drain_execution_events n b of (es, b) \<Rightarrow> (map ev_event es, b))"

text \<open>\<open>usize::MAX\<close> is at least the length of any queue.\<close>

definition drain_broker_events :: "PaperBroker \<Rightarrow> BrokerOrderEvent list \<times> PaperBroker" where
  "drain_broker_events b = drain_execution_events (length (pb_trade_events b)) b"

definition has_pending_trade_events :: "PaperBroker \<Rightarrow> bool" where
  "has_pending_trade_events b \<longleftrightarrow> pb_trade_events b \<noteq> []"

definition subscribe_to_trade_stream :: "subscriber \<Rightarrow> PaperBroker \<Rightarrow> PaperBroker" where
  "subscribe_to_trade_stream s b = b\<lparr>pb_trade_stream_subscribers := pb_trade_stream_subscribers b @ [s]\<rparr>"

definition unsubscribe_from_trade_stream :: "PaperBroker \<Rightarrow> PaperBroker" where
  "unsubscribe_from_trade_stream b = b\<lparr>pb_trade_stream_subscribers := []\<rparr>"

section \<open>Results\<close>

record BacktestResults =
  res_starting_cash :: f64
  res_final_equity :: f64
  res_total_return_pct :: f64
  res_total_trades :: nat
  res_winning_trades :: nat
  res_losing_trades :: nat
  res_win_rate :: f64
  res_max_drawdown :: f64
  res_trade_log :: "TradeRecord list"
  res_account_history :: "(datetime \<times> Account) list"
  res_executed_at :: datetime
  res_finished_at :: datetime
  res_backtest_start :: "datetime option"
  res_backtest_end :: "datetime option"

fun drawdown_loop :: "Account list \<Rightarrow> f64 \<Rightarrow> f64 \<Rightarrow> f64" where
  "drawdown_loop [] peak max_dd = max_dd"
| "drawdown_loop (acc # accs) peak max_dd =
     (let peak = (if peak < acc_equity acc then acc_equity acc else peak);
          dd = (peak - acc_equity acc) / peak
      in drawdown_loop accs peak (if max_dd < dd then dd else max_dd))"

text \<open>Counting wins and losses: an entry is paired with the first exit of its order.\<close>

fun count_trades :: "TradeRecord list \<Rightarrow> (string, TradeRecord) hmap \<Rightarrow> nat \<Rightarrow> nat \<Rightarrow> nat \<times> nat" where
  "count_trades [] entries wins losses = (wins, losses)"
| "count_trades (r # rs) entries wins losses = (case tr_trade_type r of
       EntryTrade \<Rightarrow> count_trades rs (hm_insert (tr_order_id r) r entries) wins losses
     | ExitTrade \<Rightarrow> (case hm_get entries (tr_order_id r) of
          None \<Rightarrow> count_trades rs entries wins losses
        | Some entry \<Rightarrow>
           (let pnl = (case tr_side entry of
                  Buy \<Rightarrow> (tr_price r - tr_price entry) * tr_qty entry
                | Sell \<Rightarrow> (tr_price entry - tr_price r) * tr_qty entry);
                entries = hm_remove (tr_order_id r) entries
            in if 0 \<le> pnl then count_trades rs entries (Suc wins) losses
               else count_trades rs entries wins (Suc losses))))"

text \<open>\<open>now1\<close>, \<open>now2\<close>, \<open>now3\<close> are the readings of the wall clock that are taken without a state.\<close>

definition compute_results :: "PaperBroker \<Rightarrow> BacktestState option \<Rightarrow> datetime \<Rightarrow> datetime \<Rightarrow> datetime \<Rightarrow> BacktestResults" where
  "compute_results b state now1 now2 now3 =
     (let (trade_log, history, max_dd, executed, finished, start, stop) =
            (case state of
               Some st \<Rightarrow> (bt_trade_log st, bt_account_history st,
                  drawdown_loop (map snd (bt_account_history st)) (pb_starting_cash b) 0,
                  bt_executed_at st, bt_finished_at st, bt_backtest_start st, bt_backtest_end st)
             | None \<Rightarrow> ([], [], 0, now1, Some now2, None, None));
          (wins, losses) = count_trades trade_log [] 0 0;
          total = wins + losses
      in \<lparr>res_starting_cash = pb_starting_cash b, res_final_equity = acc_equity (pb_account b),
          res_total_return_pct = (acc_equity (pb_account b) - pb_starting_cash b) / pb_starting_cash b * lit 100,
          res_total_trades = total, res_winning_trades = wins, res_losing_trades = losses,
          res_win_rate = (if 0 < total then of_integer_f64 (int wins) / of_integer_f64 (int total) else 0),
          res_max_drawdown = max_dd, res_trade_log = trade_log, res_account_history = history,
          res_executed_at = executed, res_finished_at = unwrap_or finished now3,
          res_backtest_start = start, res_backtest_end = stop\<rparr>)"

section \<open>The replay of the unified broker\<close>

text \<open>
  \<open>UnifiedBroker::step\<close>, \<open>step_market_streams\<close> and \<open>flush_backtest_close_queue_at_last_bars\<close>
  (\<open>src/core/broker/mod.rs\<close>) over the paper broker, whose backtest state is the shared one.  The
  replayed quotes go to subscribers of the data side and are left out.
\<close>

definition not_initialized :: BrokerError where
  "not_initialized = TradeError ''BacktestState not initialized''"

definition with_state :: "(BacktestState \<Rightarrow> BacktestState) \<Rightarrow> PaperBroker \<Rightarrow> PaperBroker" where
  "with_state f b = b\<lparr>pb_backtest_state := map_option f (pb_backtest_state b)\<rparr>"

definition unified_step :: "PaperBroker \<Rightarrow> (BrokerError + (string, Bar) hmap option) \<times> PaperBroker" where
  "unified_step b = (case pb_backtest_state b of
       None \<Rightarrow> (Inl not_initialized, b)
     | Some st \<Rightarrow>
        if is_complete st then (Inr None, b)
        else let bars = get_current_bars st;
                 b = process_step bars (bt_current_time st) b;
                 b = with_state (\<lambda>st. snapshot_account (pb_account b) (fst (advance st))) b
             in (Inr (Some bars), b))"

text \<open>The value None is the divergence of \<open>next_market_step\<close>.\<close>

definition step_market_streams ::
  "PaperBroker \<Rightarrow> ((BrokerError + BacktestMarketStep option) \<times> PaperBroker) option" where
  "step_market_streams b = (case pb_backtest_state b of
       None \<Rightarrow> Some (Inl not_initialized, b)
     | Some st \<Rightarrow>
        if is_market_stream_complete st then Some (Inr None, b)
        else (case next_market_step st of
           None \<Rightarrow> None
         | Some (None, st) \<Rightarrow> Some (Inr None, b\<lparr>pb_backtest_state := Some st\<rparr>)
         | Some (Some step, st) \<Rightarrow>
            (let b = b\<lparr>pb_backtest_state := Some st\<rparr>;
                 b = (if step_execution_bars step = [] then b
                      else process_step (step_execution_bars step) (step_timestamp step) b);
                 b = with_state (\<lambda>st. snapshot_account (pb_account b) (advance_market_step step st)) b
             in Some (Inr (Some step), b))))"

definition flush_backtest_close_queue_at_last_bars :: "PaperBroker \<Rightarrow> (BrokerError + nat) \<times> PaperBroker" where
  "flush_backtest_close_queue_at_last_bars b = (case pb_backtest_state b of
       None \<Rightarrow> (Inl not_initialized, b)
     | Some st \<Rightarrow>
        (let last_bars = get_last_bars st;
             close_time = (if last_bars = [] then bt_current_time st
                           else Max (set (map (bar_timestamp \<circ> snd) last_bars)))
         in if last_bars = [] then (Inr 0, b)
            else (case process_close_queue_at last_bars close_time b of
                (processed, b) \<Rightarrow>
                  if processed = 0 then (Inr 0, b)
                  else (Inr processed, with_state (\<lambda>st. snapshot_account (pb_account b)
                     (st\<lparr>bt_previous_time := Some (bt_current_time st), bt_current_time := close_time\<rparr>)) b))))"

end
