(* ===== verification/PaperFrame.thy ===== *)
theory PaperFrame
  imports PaperBroker
begin

text \<open>
  What the helper operations of the paper broker leave unchanged, as rewrite rules, and the lookups
  the proofs speak about: an order by its identity and a position by symbol and order identity.
\<close>

abbreviation order_at :: "PaperBroker \<Rightarrow> string \<Rightarrow> Order option" where
  "order_at b \<equiv> hm_get (pb_orders b)"

definition position_at :: "PaperBroker \<Rightarrow> string \<Rightarrow> string \<Rightarrow> Position option" where
  "position_at b symbol oid = get_position_by_order_id b oid symbol"

lemma position_at_book:
  "position_at b symbol oid = Option.bind (hm_get (pb_positions b) symbol) (\<lambda>book. hm_get book oid)"
  by (simp add: position_at_def get_position_by_order_id_def)

lemma position_at_cong: "pb_positions b = pb_positions b' \<Longrightarrow> position_at b = position_at b'"
  by (intro ext) (simp add: position_at_book)

lemma emit_frame [simp]:
  "pb_account (emit_execution_event order event fill b) = pb_account b"
  "pb_orders (emit_execution_event order event fill b) = pb_orders b"
  "pb_positions (emit_execution_event order event fill b) = pb_positions b"
  "pb_pending_orders (emit_execution_event order event fill b) = pb_pending_orders b"
  "pb_active_orders (emit_execution_event order event fill b) = pb_active_orders b"
  "pb_leverage (emit_execution_event order event fill b) = pb_leverage b"
  "pb_asset_fees (emit_execution_event order event fill b) = pb_asset_fees b"
  "pb_close_orders_queue (emit_execution_event order event fill b) = pb_close_orders_queue b"
  "pb_update_orders_queue (emit_execution_event order event fill b) = pb_update_orders_queue b"
  "pb_terminal_orders_pending_release (emit_execution_event order event fill b) = pb_terminal_orders_pending_release b"
  "pb_backtest_state (emit_execution_event order event fill b) = pb_backtest_state b"
  "pb_current_time (emit_execution_event order event fill b) = pb_current_time b"
  by (auto simp: emit_execution_event_def new_v4_def utc_now_def Let_def split: option.split)

lemma emit_history:
  "pb_execution_history (emit_execution_event order event fill b) = pb_execution_history b
   \<or> (\<exists>f. fill_validate f = Inr () \<and> pb_execution_history (emit_execution_event order event fill b)
       = history_record f (event = Closed) (pb_execution_history b))"
  by (auto simp: emit_execution_event_def new_v4_def utc_now_def Let_def split: option.split sum.split)

lemma mark_frame [simp]:
  "pb_account (mark_order_terminal_for_release oid b) = pb_account b"
  "pb_orders (mark_order_terminal_for_release oid b) = pb_orders b"
  "pb_positions (mark_order_terminal_for_release oid b) = pb_positions b"
  "pb_pending_orders (mark_order_terminal_for_release oid b) = pb_pending_orders b"
  "pb_active_orders (mark_order_terminal_for_release oid b) = pb_active_orders b"
  "pb_leverage (mark_order_terminal_for_release oid b) = pb_leverage b"
  "pb_asset_fees (mark_order_terminal_for_release oid b) = pb_asset_fees b"
  "pb_execution_history (mark_order_terminal_for_release oid b) = pb_execution_history b"
  "pb_backtest_state (mark_order_terminal_for_release oid b) = pb_backtest_state b"
  "pb_update_orders_queue (mark_order_terminal_for_release oid b) = pb_update_orders_queue b"
  "pb_close_orders_queue (mark_order_terminal_for_release oid b) = pb_close_orders_queue b"
  "pb_current_time (mark_order_terminal_for_release oid b) = pb_current_time b"
  by (auto simp: mark_order_terminal_for_release_def)

lemma record_entry_frame [simp]:
  "pb_account (record_entry_trade order px t b) = pb_account b"
  "pb_orders (record_entry_trade order px t b) = pb_orders b"
  "pb_positions (record_entry_trade order px t b) = pb_positions b"
  "pb_leverage (record_entry_trade order px t b) = pb_leverage b"
  "pb_asset_fees (record_entry_trade order px t b) = pb_asset_fees b"
  "pb_active_orders (record_entry_trade order px t b) = pb_active_orders b"
  "pb_pending_orders (record_entry_trade order px t b) = pb_pending_orders b"
  "pb_execution_history (record_entry_trade order px t b) = pb_execution_history b"
  "pb_update_orders_queue (record_entry_trade order px t b) = pb_update_orders_queue b"
  "pb_close_orders_queue (record_entry_trade order px t b) = pb_close_orders_queue b"
  by (auto simp: record_entry_trade_def log_trade_def)

lemma put_order_frame [simp]:
  "pb_account (put_order order oid b) = pb_account b"
  "pb_positions (put_order order oid b) = pb_positions b"
  "pb_leverage (put_order order oid b) = pb_leverage b"
  "pb_asset_fees (put_order order oid b) = pb_asset_fees b"
  "pb_active_orders (put_order order oid b) = pb_active_orders b"
  "pb_pending_orders (put_order order oid b) = pb_pending_orders b"
  "pb_execution_history (put_order order oid b) = pb_execution_history b"
  "pb_update_orders_queue (put_order order oid b) = pb_update_orders_queue b"
  "pb_close_orders_queue (put_order order oid b) = pb_close_orders_queue b"
  "pb_current_time (put_order order oid b) = pb_current_time b"
  "pb_backtest_state (put_order order oid b) = pb_backtest_state b"
  "pb_trade_events (put_order order oid b) = pb_trade_events b"
  by (simp_all add: put_order_def)

lemma order_at_put [simp]:
  "order_at (put_order order oid b) k = (if k = oid then map_option (\<lambda>_. order) (order_at b oid) else order_at b k)"
  by (simp add: put_order_def)

lemma filled_order_facts [simp]:
  "ord_filled_qty (filled_order px ts order) = ord_qty order"
  "ord_asset (filled_order px ts order) = ord_asset order"
  "ord_side (filled_order px ts order) = ord_side order"
  "ord_order_id (filled_order px ts order) = ord_order_id order"
  "ord_qty (filled_order px ts order) = ord_qty order"
  "ord_status (filled_order px ts order) = Filled"
  "ord_commission (filled_order px ts order) = Some (entry_commission_for_side (as_fees (ord_asset order))
     (ord_side order) px (ord_qty order) (as_contract_size (ord_asset order)))"
  by (auto simp: filled_order_def create_bracket_legs_def Let_def)

lemma open_position_frame [simp]:
  "pb_orders (open_position order px b) = pb_orders b"
  "pb_leverage (open_position order px b) = pb_leverage b"
  "pb_asset_fees (open_position order px b) = pb_asset_fees b"
  "pb_active_orders (open_position order px b) = pb_active_orders b"
  "pb_pending_orders (open_position order px b) = pb_pending_orders b"
  "pb_execution_history (open_position order px b) = pb_execution_history b"
  "pb_update_orders_queue (open_position order px b) = pb_update_orders_queue b"
  "pb_close_orders_queue (open_position order px b) = pb_close_orders_queue b"
  "acc_cash (pb_account (open_position order px b))
     = acc_cash (pb_account b) - (margin_of b (px * ord_filled_qty order) + unwrap_or (ord_commission order) 0)"
  by (auto simp: open_position_def Let_def)

lemma opened_position_facts [simp]:
  "pos_qty (opened_position b order px) = ord_filled_qty order"
  "pos_side (opened_position b order px) = ord_side order"
  by (simp_all add: opened_position_def)

lemma position_at_open [simp]:
  "position_at (open_position order px b) s k
    = (if s = as_symbol (ord_asset order) \<and> k = ord_order_id order then Some (opened_position b order px)
       else position_at b s k)"
  by (cases "hm_get (pb_positions b) (as_symbol (ord_asset order))")
    (auto simp: open_position_def Let_def position_at_book)

lemma execution_frame [simp]:
  "snd (entry_execution order px t b) = b\<lparr>pb_draws := Suc (pb_draws b)\<rparr>"
  "snd (exit_execution order xid px t r b) = b\<lparr>pb_draws := Suc (pb_draws b)\<rparr>"
  by (simp_all add: entry_execution_def exit_execution_def new_v4_def)

lemma cancel_remaining_legs_facts [simp]:
  "ord_status (cancel_remaining_legs b order) = ord_status order"
  "ord_qty (cancel_remaining_legs b order) = ord_qty order"
  "ord_order_id (cancel_remaining_legs b order) = ord_order_id order"
  "ord_asset (cancel_remaining_legs b order) = ord_asset order"
  "ord_side (cancel_remaining_legs b order) = ord_side order"
  by (simp_all add: cancel_remaining_legs_def Let_def)

lemma closed_by_leg_facts [simp]:
  "ord_status (closed_by_leg b px ts r order) = Closed"
  "ord_qty (closed_by_leg b px ts r order) = 0"
  "ord_order_id (closed_by_leg b px ts r order) = ord_order_id order"
  "ord_asset (closed_by_leg b px ts r order) = ord_asset order"
  by (simp_all add: closed_by_leg_def Let_def split: option.split)

lemma log_trade_frame [simp]:
  "pb_account (log_trade r b) = pb_account b" "pb_orders (log_trade r b) = pb_orders b"
  "pb_positions (log_trade r b) = pb_positions b" "pb_leverage (log_trade r b) = pb_leverage b"
  "pb_active_orders (log_trade r b) = pb_active_orders b"
  "pb_pending_orders (log_trade r b) = pb_pending_orders b"
  "pb_execution_history (log_trade r b) = pb_execution_history b"
  "pb_update_orders_queue (log_trade r b) = pb_update_orders_queue b"
  "pb_close_orders_queue (log_trade r b) = pb_close_orders_queue b"
  "pb_current_time (log_trade r b) = pb_current_time b"
  "pb_valuation_mark_times (log_trade r b) = pb_valuation_mark_times b"
  by (simp_all add: log_trade_def)

lemma close_position_frame [simp]:
  "pb_orders (snd (close_position_for_order order px q t b)) = pb_orders b"
  "pb_active_orders (snd (close_position_for_order order px q t b)) = pb_active_orders b"
  "pb_pending_orders (snd (close_position_for_order order px q t b)) = pb_pending_orders b"
  "pb_execution_history (snd (close_position_for_order order px q t b)) = pb_execution_history b"
  "pb_update_orders_queue (snd (close_position_for_order order px q t b)) = pb_update_orders_queue b"
  "pb_close_orders_queue (snd (close_position_for_order order px q t b)) = pb_close_orders_queue b"
  "pb_leverage (snd (close_position_for_order order px q t b)) = pb_leverage b"
  "pb_current_time (snd (close_position_for_order order px q t b)) = pb_current_time b"
  by (auto simp: close_position_for_order_def Let_def split: option.split)

lemma margin_of_cong [simp]: "margin_of (b\<lparr>pb_account := a\<rparr>) = margin_of b"
  by (rule ext) (simp add: margin_of_def)

text \<open>What closing does to the positions: only the position of the order changes.\<close>

lemma close_position_None:
  "position_at b (as_symbol (ord_asset order)) (ord_order_id order) = None
    \<Longrightarrow> close_position_for_order order px q t b = (None, b)"
  by (auto simp: position_at_book close_position_for_order_def Let_def bind_eq_None_conv split: option.split)

lemma reduce_position_cong: "pb_leverage b = pb_leverage b' \<Longrightarrow> reduce_position b r p = reduce_position b' r p"
  by (simp add: reduce_position_def Let_def)

lemma close_position_Some:
  assumes "position_at b (as_symbol (ord_asset order)) (ord_order_id order) = Some p"
    and r: "r = close_figures order p px q t"
  shows "fst (close_position_for_order order px q t b) = Some r"
    and "position_at (snd (close_position_for_order order px q t b)) s k
      = (if s = as_symbol (ord_asset order) \<and> k = ord_order_id order
         then (if cpr_fully_closed r then None else Some (reduce_position b r p)) else position_at b s k)"
    and "pb_account (snd (close_position_for_order order px q t b)) = settle_account b p r (pb_account b)"
proof -
  let ?sym = "as_symbol (ord_asset order)" and ?oid = "ord_order_id order"
  obtain book where book: "hm_get (pb_positions b) ?sym = Some book" "hm_get book ?oid = Some p"
    using assms(1) by (auto simp: position_at_book bind_eq_Some_conv)
  let ?b1 = "log_trade (exit_trade order px t r (acc_currency (settle_account b p r (pb_account b))))
      (b\<lparr>pb_account := settle_account b p r (pb_account b)\<rparr>)"
  let ?book = "if cpr_fully_closed r then hm_remove ?oid book else hm_insert ?oid (reduce_position b r p) book"
  have red: "reduce_position ?b1 r p = reduce_position b r p" by (rule reduce_position_cong) simp
  have eq: "close_position_for_order order px q t b = (Some r,
      if ?book = [] then ?b1\<lparr>pb_positions := hm_remove ?sym (pb_positions b),
             pb_valuation_mark_times := hm_remove ?sym (pb_valuation_mark_times b)\<rparr>
      else ?b1\<lparr>pb_positions := hm_insert ?sym ?book (pb_positions b)\<rparr>)"
    using book by (simp add: close_position_for_order_def Let_def r [symmetric] red)
  show "fst (close_position_for_order order px q t b) = Some r" by (simp add: eq)
  show "pb_account (snd (close_position_for_order order px q t b)) = settle_account b p r (pb_account b)"
    by (simp add: eq)
  have get: "hm_get ?book j = (if j = ?oid then (if cpr_fully_closed r then None else Some (reduce_position b r p))
      else hm_get book j)" for j by simp
  show "position_at (snd (close_position_for_order order px q t b)) s k
      = (if s = ?sym \<and> k = ?oid
         then (if cpr_fully_closed r then None else Some (reduce_position b r p)) else position_at b s k)"
  proof (cases "?book = []")
    case True
    then have "hm_get ?book k = None" by (simp only: hm_get_def) simp
    then show ?thesis using get [of k] True book by (auto simp: eq position_at_book split: if_splits)
  next
    case False
    then show ?thesis using get [of k] book by (auto simp: eq position_at_book)
  qed
qed

end
