(* ===== verification/PaperFills.thy ===== *)
theory PaperFills
  imports PaperFrame
begin

text \<open>
  When and at which price the paper broker fills: entry orders against a bar, the protective legs of
  a bracket, and the affordability check in front of every fill.
\<close>

section \<open>Entry fills\<close>

definition bar_ok :: "Bar \<Rightarrow> bool" where
  "bar_ok bar \<longleftrightarrow> is_finite (bar_low bar) \<and> is_finite (bar_open bar) \<and> is_finite (bar_high bar)
     \<and> is_finite (bar_close bar) \<and> 0 < bar_low bar
     \<and> bar_low bar \<le> bar_open bar \<and> bar_open bar \<le> bar_high bar
     \<and> bar_low bar \<le> bar_close bar \<and> bar_close bar \<le> bar_high bar"

lemma fle_not_NaN: "(a::f64) \<le> b \<Longrightarrow> a \<noteq> NaN \<and> b \<noteq> NaN"
  by auto

lemma bar_ok_facts:
  assumes "bar_ok bar"
  shows "bar_open bar \<noteq> NaN" "bar_low bar \<le> bar_high bar" "0 < bar_open bar" "is_finite (bar_open bar)"
  using assms fle_trans [of "bar_low bar" "bar_open bar" "bar_high bar"]
    flt_le_trans [of 0 "bar_low bar" "bar_open bar"]
  by (auto simp: bar_ok_def)

text \<open>An entry fills at the open, at its limit or better, or at its stop or worse, by its type; a
  stop-limit entry fills at its limit once its stop is reached, and a trailing-stop entry never
  fills.\<close>

theorem entry_fill_price:
  assumes "try_fill_order order bar = Some px" "bar_ok bar"
  shows "case ord_order_type order of
      Market \<Rightarrow> px = bar_open bar
    | Limit \<Rightarrow> (\<exists>limit. ord_limit_price order = Some limit
        \<and> (case ord_side order of Buy \<Rightarrow> px \<le> limit | Sell \<Rightarrow> limit \<le> px))
    | Stop \<Rightarrow> (\<exists>stop. ord_stop_price order = Some stop
        \<and> (case ord_side order of Buy \<Rightarrow> stop \<le> px | Sell \<Rightarrow> px \<le> stop))
    | StopLimit \<Rightarrow> ord_limit_price order = Some px \<and> (\<exists>stop. ord_stop_price order = Some stop
        \<and> (case ord_side order of Buy \<Rightarrow> stop \<le> bar_high bar | Sell \<Rightarrow> bar_low bar \<le> stop))
    | TrailingStop \<Rightarrow> False"
  using assms fmin_le fmax_ge
  by (auto simp: try_fill_order_def dest!: fle_not_NaN
      split: OrderType.splits option.splits OrderSide.splits if_splits)

text \<open>A market, limit or stop entry fills inside the range of the bar that fills it.\<close>

theorem entry_fill_within_bar:
  assumes "try_fill_order order bar = Some px" "bar_ok bar" "ord_order_type order \<noteq> StopLimit"
  shows "bar_low bar \<le> px \<and> px \<le> bar_high bar"
proof -
  have b: "bar_open bar \<noteq> NaN" "bar_low bar \<le> bar_open bar" "bar_open bar \<le> bar_high bar"
    using assms(2) by (auto simp: bar_ok_def)
  note facts = b fmin_le(1) [OF b(1)] fmax_ge(1) [OF b(1)] fmin_greatest [OF _ b(2)] fmax_least [OF _ b(3)]
  show ?thesis
    using assms(1,3) facts
    by (auto simp: try_fill_order_def intro: fle_trans split: OrderType.splits option.splits OrderSide.splits if_splits)
qed

definition sample_asset :: Asset where
  "sample_asset = \<lparr>as_id = ''a'', as_symbol = ''X'', as_name = ''X'', as_asset_type = Stock,
     as_status = Active, as_exchange = NYSE, as_tradable = True, as_marginable = True,
     as_shortable = True, as_fractional = True, as_min_order_size = None, as_quantity_base = None,
     as_max_order_size = None, as_max_total_size = None, as_min_price_increment = None,
     as_price_base = None, as_contract_size = None, as_trading_calendar = None, as_fees = default_fees\<rparr>"

definition sample_order :: "OrderType \<Rightarrow> OrderSide \<Rightarrow> f64 option \<Rightarrow> f64 option \<Rightarrow> Order" where
  "sample_order ty side limit stop = \<lparr>ord_order_id = ''o1'', ord_insight_id = Some ''i1'',
     ord_strategy_type = Some ''s'', ord_asset = sample_asset, ord_qty = Fin 2, ord_filled_qty = 0,
     ord_limit_price = limit, ord_filled_price = None, ord_stop_price = stop, ord_side = side,
     ord_order_type = ty, ord_time_in_force = GTC, ord_status = Pending, ord_order_class = Simple,
     ord_created_at = 0, ord_updated_at = 0, ord_submitted_at = 0, ord_filled_at = None,
     ord_realized_pnl = None, ord_position_accounting = None, ord_commission = None, ord_swap = None,
     ord_rejection_reason = None, ord_legs = None\<rparr>"

definition price_bar :: "rat \<Rightarrow> rat \<Rightarrow> rat \<Rightarrow> rat \<Rightarrow> Bar" where
  "price_bar op hi lo cl = \<lparr>bar_symbol = ''X'', bar_open = Fin op, bar_high = Fin hi, bar_low = Fin lo,
     bar_close = Fin cl, bar_volume = Fin 10, bar_timestamp = 60000000000\<rparr>"

theorem entry_fill_price_witness:
  "case ord_order_type (sample_order Limit Buy (Some (Fin 100)) None) of
      Market \<Rightarrow> Fin 98 = bar_open (price_bar 98 103 97 101)
    | Limit \<Rightarrow> (\<exists>limit. ord_limit_price (sample_order Limit Buy (Some (Fin 100)) None) = Some limit
        \<and> (case ord_side (sample_order Limit Buy (Some (Fin 100)) None) of Buy \<Rightarrow> Fin 98 \<le> limit | Sell \<Rightarrow> limit \<le> Fin 98))
    | Stop \<Rightarrow> (\<exists>stop. ord_stop_price (sample_order Limit Buy (Some (Fin 100)) None) = Some stop
        \<and> (case ord_side (sample_order Limit Buy (Some (Fin 100)) None) of Buy \<Rightarrow> stop \<le> Fin 98 | Sell \<Rightarrow> Fin 98 \<le> stop))
    | StopLimit \<Rightarrow> ord_limit_price (sample_order Limit Buy (Some (Fin 100)) None) = Some (Fin 98)
        \<and> (\<exists>stop. ord_stop_price (sample_order Limit Buy (Some (Fin 100)) None) = Some stop
        \<and> (case ord_side (sample_order Limit Buy (Some (Fin 100)) None) of
             Buy \<Rightarrow> stop \<le> bar_high (price_bar 98 103 97 101) | Sell \<Rightarrow> bar_low (price_bar 98 103 97 101) \<le> stop))
    | TrailingStop \<Rightarrow> False"
  by (rule entry_fill_price)
    (simp_all add: try_fill_order_def sample_order_def price_bar_def bar_ok_def fmin_def)

theorem entry_fill_within_bar_witness:
  "bar_low (price_bar 98 103 97 101) \<le> Fin 98 \<and> Fin 98 \<le> bar_high (price_bar 98 103 97 101)"
  by (rule entry_fill_within_bar [of "sample_order Limit Buy (Some (Fin 100)) None"])
    (simp_all add: try_fill_order_def sample_order_def price_bar_def bar_ok_def fmin_def)

text \<open>A stop-limit entry may fill outside the bar: with the stop inside the bar and the limit above
  its high, a buy is filled at the limit, a price at which the bar never traded and which is worse
  than every price of the bar.\<close>

theorem stop_limit_fills_outside_bar:
  "\<exists>order bar px. ord_order_type order = StopLimit \<and> bar_ok bar \<and> try_fill_order order bar = Some px
     \<and> bar_high bar < px"
  by (rule exI [of _ "sample_order StopLimit Buy (Some (Fin 105)) (Some (Fin 100))"],
      rule exI [of _ "price_bar 99 101 98 100"], rule exI [of _ "Fin 105"])
    (simp add: try_fill_order_def sample_order_def price_bar_def bar_ok_def)

section \<open>Protective legs\<close>

datatype LegRole = TrailingRole | StopRole | TargetRole

fun leg_of :: "LegRole \<Rightarrow> OrderLegs \<Rightarrow> OrderLeg option" where
  "leg_of TrailingRole legs = legs_trailing_stop legs"
| "leg_of StopRole legs = legs_stop_loss legs"
| "leg_of TargetRole legs = legs_take_profit legs"

definition is_filled_leg :: "OrderLeg option \<Rightarrow> bool" where
  "is_filled_leg leg = (case leg of None \<Rightarrow> False | Some l \<Rightarrow> leg_status l = Filled)"

definition newly_filled :: "OrderLegs \<Rightarrow> OrderLegs \<Rightarrow> LegRole list" where
  "newly_filled legs legs' = filter (\<lambda>r. \<not> is_filled_leg (leg_of r legs) \<and> is_filled_leg (leg_of r legs'))
     [TrailingRole, StopRole, TargetRole]"

text \<open>The bar reaches the price of an open stop-loss leg.\<close>

definition stop_hit :: "OrderSide \<Rightarrow> Bar \<Rightarrow> OrderLegs \<Rightarrow> bool" where
  "stop_hit side bar legs = (case legs_stop_loss legs of None \<Rightarrow> False
     | Some leg \<Rightarrow> leg_status leg \<noteq> Filled \<and> (case leg_limit_price leg of None \<Rightarrow> False
         | Some p \<Rightarrow> (case side of Buy \<Rightarrow> bar_low bar \<le> p | Sell \<Rightarrow> p \<le> bar_high bar)))"

lemma trailing_status: "update_trailing_stop_leg side bar ts leg = (hit, leg') \<Longrightarrow> leg_status leg' = leg_status leg"
  by (auto simp: update_trailing_stop_leg_def Let_def split: option.splits if_splits)

lemma check_trailing_cases:
  assumes "check_trailing side bar ts legs = (res, legs')"
  shows "legs_stop_loss legs' = legs_stop_loss legs" "legs_take_profit legs' = legs_take_profit legs"
    and "res = None \<Longrightarrow> is_filled_leg (legs_trailing_stop legs') = is_filled_leg (legs_trailing_stop legs)"
    and "res = Some px \<Longrightarrow> \<not> is_filled_leg (legs_trailing_stop legs)
           \<and> (\<exists>l. legs_trailing_stop legs' = Some l \<and> leg_status l = Filled \<and> leg_filled_price l = Some px)"
  using assms trailing_status [of side bar ts]
  by (auto simp: check_trailing_def is_filled_leg_def fill_leg_def Let_def
      split: option.splits if_splits prod.splits bool.splits)

lemma check_stop_loss_cases:
  assumes "check_stop_loss side bar ts legs = (res, legs')"
  shows "legs_trailing_stop legs' = legs_trailing_stop legs" "legs_take_profit legs' = legs_take_profit legs"
    and "res = None \<Longrightarrow> legs' = legs \<and> \<not> stop_hit side bar legs"
    and "res = Some px \<Longrightarrow> \<not> is_filled_leg (legs_stop_loss legs)
           \<and> (\<exists>l. legs_stop_loss legs' = Some l \<and> leg_status l = Filled \<and> leg_filled_price l = Some px)"
  using assms
  by (auto simp: check_stop_loss_def is_filled_leg_def fill_leg_def stop_hit_def
      split: option.splits if_splits OrderSide.splits)

lemma check_take_profit_cases:
  assumes "check_take_profit side bar ts legs = (res, legs')"
  shows "legs_trailing_stop legs' = legs_trailing_stop legs" "legs_stop_loss legs' = legs_stop_loss legs"
    and "res = None \<Longrightarrow> legs' = legs"
    and "res = Some px \<Longrightarrow> \<not> is_filled_leg (legs_take_profit legs)
           \<and> (\<exists>l. legs_take_profit legs' = Some l \<and> leg_status l = Filled \<and> leg_filled_price l = Some px)"
  using assms
  by (auto simp: check_take_profit_def is_filled_leg_def fill_leg_def
      split: option.splits if_splits OrderSide.splits)

lemma stop_hit_cong: "legs_stop_loss legs = legs_stop_loss legs' \<Longrightarrow> stop_hit side bar legs = stop_hit side bar legs'"
  by (simp add: stop_hit_def)

lemmas leg_checks = check_trailing_cases check_stop_loss_cases check_take_profit_cases

text \<open>C37: A bar fills at most one protective leg of a bracket, and records on it the price at which the
  position is closed; a take-profit leg fills only when the bar does not also reach the stop loss.\<close>

theorem bracket_fills_one_leg:
  "case check_legs side bar ts legs of
     (None, legs') \<Rightarrow> newly_filled legs legs' = [] \<and> \<not> stop_hit side bar legs
   | (Some px, legs') \<Rightarrow> (\<exists>role l. newly_filled legs legs' = [role] \<and> leg_of role legs' = Some l
        \<and> leg_filled_price l = Some px \<and> \<not> (role = TargetRole \<and> stop_hit side bar legs))"
proof (cases "check_trailing side bar ts legs")
  case tr: (Pair r1 legs1)
  show ?thesis
  proof (cases r1)
    case (Some px)
    obtain l where l: "legs_trailing_stop legs1 = Some l" "leg_status l = Filled" "leg_filled_price l = Some px"
      and n: "\<not> is_filled_leg (legs_trailing_stop legs)"
      using check_trailing_cases(4) [OF tr Some] by blast
    have "newly_filled legs legs1 = [TrailingRole]"
      using check_trailing_cases(1,2) [OF tr] l n by (simp add: newly_filled_def is_filled_leg_def)
    then show ?thesis using tr Some l by (auto simp: check_legs_def)
  next
    case None
    note t = check_trailing_cases(1,2) [OF tr] check_trailing_cases(3) [OF tr None]
    note st = stop_hit_cong [OF t(1), of side bar]
    obtain r2 legs2 where sl: "check_stop_loss side bar ts legs1 = (r2, legs2)" by fastforce
    show ?thesis
    proof (cases r2)
      case (Some px)
      obtain l where l: "legs_stop_loss legs2 = Some l" "leg_status l = Filled" "leg_filled_price l = Some px"
        and n: "\<not> is_filled_leg (legs_stop_loss legs1)"
        using check_stop_loss_cases(4) [OF sl Some] by blast
      have "newly_filled legs legs2 = [StopRole]"
        using check_stop_loss_cases(1,2) [OF sl] t l n by (simp add: newly_filled_def is_filled_leg_def)
      then show ?thesis using tr None sl Some l by (auto simp: check_legs_def)
    next
      case r2: None
      note s2 = check_stop_loss_cases(3) [OF sl r2]
      obtain r3 legs3 where tp: "check_take_profit side bar ts legs1 = (r3, legs3)" by fastforce
      show ?thesis
      proof (cases r3)
        case (Some px)
        obtain l where l: "legs_take_profit legs3 = Some l" "leg_status l = Filled" "leg_filled_price l = Some px"
          and n: "\<not> is_filled_leg (legs_take_profit legs1)"
          using check_take_profit_cases(4) [OF tp Some] by blast
        have "newly_filled legs legs3 = [TargetRole]"
          using check_take_profit_cases(1,2) [OF tp] t l n by (simp add: newly_filled_def is_filled_leg_def)
        then show ?thesis using tr None sl r2 s2 tp Some l st by (auto simp: check_legs_def)
      next
        case None
        have "newly_filled legs legs1 = []" using t by (simp add: newly_filled_def)
        then show ?thesis
          using tr \<open>r1 = None\<close> sl r2 s2 tp None st check_take_profit_cases(3) [OF tp None]
          by (auto simp: check_legs_def)
      qed
    qed
  qed
qed

text \<open>A trailing stop that a bar does not trigger only moves in favour of the position, and the bar
  stayed on the safe side of the stop it started with.\<close>

theorem trailing_stop_never_loosens:
  assumes "update_trailing_stop_leg side bar ts leg = (False, leg')" "bar_ok bar"
    "leg_trail_price leg = Some gap" "leg_limit_price leg = Some stop" "stop \<noteq> NaN"
  shows "\<exists>stop'. leg_limit_price leg' = Some stop'
    \<and> (case side of Buy \<Rightarrow> stop \<le> stop' \<and> stop < bar_low bar | Sell \<Rightarrow> stop' \<le> stop \<and> bar_high bar < stop)"
proof -
  have b: "bar_low bar \<noteq> NaN" "bar_high bar \<noteq> NaN" using assms(2) by (auto simp: bar_ok_def)
  show ?thesis
    using assms(1,3-5) b fmax_ge(2) [OF assms(5)] fmin_le(2) [OF assms(5)] fle_refl [OF assms(5)]
    by (auto simp: update_trailing_stop_leg_def Let_def not_fle_iff split: OrderSide.splits if_splits)
qed

definition sample_trailing :: OrderLeg where
  "sample_trailing = new_leg ''t'' (Some (Fin 95)) (Some (Fin 5)) Sell TrailingStop 0"

theorem trailing_stop_never_loosens_witness:
  "\<exists>stop'. leg_limit_price (snd (update_trailing_stop_leg Buy (price_bar 100 104 98 103) 60 sample_trailing)) = Some stop'
    \<and> (case Buy of Buy \<Rightarrow> Fin 95 \<le> stop' \<and> Fin 95 < bar_low (price_bar 100 104 98 103)
       | Sell \<Rightarrow> stop' \<le> Fin 95 \<and> bar_high (price_bar 100 104 98 103) < Fin 95)"
proof (rule trailing_stop_never_loosens)
  show "update_trailing_stop_leg Buy (price_bar 100 104 98 103) 60 sample_trailing
      = (False, snd (update_trailing_stop_leg Buy (price_bar 100 104 98 103) 60 sample_trailing))"
    by (rule prod_eqI)
      (simp_all add: update_trailing_stop_leg_def sample_trailing_def new_leg_def price_bar_def Let_def)
qed (simp_all add: price_bar_def bar_ok_def sample_trailing_def new_leg_def)

section \<open>Affordability\<close>

lemma fmult_pos_nonneg: "0 < a \<Longrightarrow> 0 < b \<Longrightarrow> (0::f64) \<le> a * b"
  by (cases a; cases b) (auto simp: times_f64_def rnd_nonneg)

lemma fmult_fin_nonneg: "0 \<le> a \<Longrightarrow> 0 < b \<Longrightarrow> is_finite b \<Longrightarrow> (0::f64) \<le> a * b"
  by (cases a; cases b) (auto simp: times_f64_def rnd_nonneg)

lemma fdiv_fin_nonneg: "0 \<le> a \<Longrightarrow> 0 < b \<Longrightarrow> is_finite b \<Longrightarrow> (0::f64) \<le> a / b"
  by (cases a; cases b) (auto simp: divide_f64_def rnd_nonneg)

lemma fmult_commute: "(a::f64) * b = b * a"
  by (cases a; cases b) (auto simp: times_f64_def mult.commute)

lemma of_integer_pos:
  assumes "1 \<le> n"
  shows "0 < of_integer_f64 n"
proof -
  have "rnd (of_int 1) \<le> rnd (of_int n)" using assms by (intro rnd_mono) simp
  moreover have "rnd (of_int 1) = Fin 1" using rnd_int [of 1] by simp
  ultimately have "Fin 1 \<le> of_integer_f64 n" by (simp add: of_integer_f64_def)
  then show ?thesis by (cases "of_integer_f64 n") auto
qed

lemma of_integer_finite: "\<bar>n\<bar> \<le> 2 ^ 53 \<Longrightarrow> is_finite (of_integer_f64 n)"
  by (simp add: of_integer_f64_def)

lemma commission_nonneg:
  assumes "is_finite price" "0 < price" "is_finite qty" "0 < qty"
  shows "0 \<le> calculate_with_contract fee price qty cs"
proof -
  have abs: "\<bar>price\<bar> = price" "\<bar>qty\<bar> = qty"
    using assms by (cases price; cases qty; auto simp: abs_f64_def)+
  have cs: "0 < contract_factor cs" by (simp add: contract_factor_def of_integer_pos)
  show ?thesis
    using assms cs
    by (cases fee) (simp_all add: calculate_with_contract_def Let_def abs unit_rate_def fle_refl
        fmult_fin_nonneg fmult_pos_nonneg flt_imp_le)
qed

lemma entry_commission_nonneg:
  assumes "is_finite price" "0 < price" "is_finite qty" "0 < qty"
  shows "0 \<le> entry_commission_for_side f side price qty cs"
  using commission_nonneg [OF assms] by (simp add: entry_commission_for_side_def entry_commission_def Let_def)

text \<open>Exact statements about the account need its cash to be a number of the format.\<close>

definition cash_ok :: "PaperBroker \<Rightarrow> bool" where
  "cash_ok b \<longleftrightarrow> (\<exists>c. acc_cash (pb_account b) = Fin c \<and> representable c \<and> 0 \<le> c)"

definition opt_price_ok :: "f64 option \<Rightarrow> bool" where
  "opt_price_ok p = (case p of None \<Rightarrow> True | Some x \<Rightarrow> is_finite x \<and> 0 < x)"

definition entry_ok :: "AssetFees \<Rightarrow> Order \<Rightarrow> bool" where
  "entry_ok fees order \<longleftrightarrow> as_fees (ord_asset order) = fees \<and> is_finite (ord_qty order) \<and> 0 < ord_qty order
     \<and> opt_price_ok (ord_limit_price order) \<and> opt_price_ok (ord_stop_price order)"

lemma fill_price_ok:
  assumes "try_fill_order order bar = Some px" "bar_ok bar" "entry_ok fees order"
  shows "is_finite px \<and> 0 < px"
proof -
  have m: "fmin a c = a \<or> fmin a c = c" "fmax a c = a \<or> fmax a c = c" for a c
    using fmin_cases fmax_cases by auto
  show ?thesis
    using assms(1,3) bar_ok_facts(3,4) [OF assms(2)] m
    by (auto simp: try_fill_order_def entry_ok_def opt_price_ok_def Let_def
        split: OrderType.splits option.splits OrderSide.splits if_splits; metis)
qed

text \<open>Paying an amount that the cash covers leaves a number of the format that is not negative.\<close>

lemma pay_keeps_cash:
  assumes "representable c" "0 \<le> c" "0 \<le> m" "\<not> Fin c < m"
  shows "\<exists>c'. Fin c - m = Fin c' \<and> representable c' \<and> 0 \<le> c'"
proof -
  obtain x where m: "m = Fin x" "0 \<le> x" "x \<le> c" using assms(3,4) by (cases m) (auto split: if_splits)
  have "0 \<le> rnd (c - x)" "rnd (c - x) \<le> rnd c" using m by (auto intro!: rnd_mono rnd_nonneg)
  then obtain y where y: "rnd (c - x) = Fin y" "0 \<le> y"
    using rnd_exact [OF assms(1)] by (cases "rnd (c - x)") (auto split: if_splits)
  then show ?thesis using rnd_representable m by (auto simp: f64_fin_arith)
qed

text \<open>The check in front of a fill covers what the fill then pays.\<close>

lemma affordable_payment:
  assumes "insufficient_funds_reason b side qty px cs = None"
    and "is_finite qty" "0 < qty" "is_finite px" "0 < px" "pb_leverage b < 256"
  defines "due \<equiv> margin_of b (px * qty) + entry_commission_for_side (pb_asset_fees b) side px qty cs"
  shows "\<not> acc_cash (pb_account b) < due" and "0 \<le> due"
proof -
  have np: "\<not> qty \<le> 0" "\<not> px \<le> 0" using assms(2-5) by (cases qty; cases px; auto)+
  then show "\<not> acc_cash (pb_account b) < due"
    using assms(1-5) by (auto simp: insufficient_funds_reason_def due_def fmult_commute [of qty] Let_def split: if_splits)
  have lev: "0 < of_integer_f64 (int (pb_leverage b))" "is_finite (of_integer_f64 (int (pb_leverage b)))"
    if "1 < pb_leverage b"
    using that assms(6) by (auto intro!: of_integer_pos of_integer_finite)
  have "0 \<le> px * qty" using assms(2-5) by (simp add: fmult_pos_nonneg)
  then have "0 \<le> margin_of b (px * qty)" using lev by (simp add: margin_of_def fdiv_fin_nonneg)
  then show "0 \<le> due"
    using entry_commission_nonneg [OF assms(4,5,2,3)] by (simp add: due_def fadd_nonneg)
qed

definition bars_ok :: "(string, Bar) hmap \<Rightarrow> bool" where
  "bars_ok bars \<longleftrightarrow> (\<forall>symbol bar. hm_get bars symbol = Some bar \<longrightarrow> bar_ok bar)"

definition entries_ok :: "PaperBroker \<Rightarrow> bool" where
  "entries_ok b \<longleftrightarrow> pb_leverage b < 256
     \<and> (\<forall>oid order. hm_get (pb_orders b) oid = Some order \<longrightarrow> entry_ok (pb_asset_fees b) order)"

lemma entry_ok_filled: "entry_ok fees order \<Longrightarrow> entry_ok fees (filled_order px ts order)"
  by (auto simp: entry_ok_def filled_order_def create_bracket_legs_def Let_def)

lemma fill_pending_frame [simp]:
  "pb_leverage (fill_pending px t ts oid order b) = pb_leverage b"
  "pb_asset_fees (fill_pending px t ts oid order b) = pb_asset_fees b"
  "pb_orders (fill_pending px t ts oid order b) = pb_orders (put_order (filled_order px ts order) oid b)"
  "acc_cash (pb_account (fill_pending px t ts oid order b)) = acc_cash (pb_account b)
     - (margin_of b (px * ord_qty order) + entry_commission_for_side (as_fees (ord_asset order)) (ord_side order)
          px (ord_qty order) (as_contract_size (ord_asset order)))"
  by (simp_all add: fill_pending_def Let_def case_prod_beta margin_of_def)

lemma reject_pending_frame [simp]:
  "pb_account (reject_pending reason ts oid order b) = pb_account b"
  "pb_positions (reject_pending reason ts oid order b) = pb_positions b"
  "pb_leverage (reject_pending reason ts oid order b) = pb_leverage b"
  "pb_asset_fees (reject_pending reason ts oid order b) = pb_asset_fees b"
  "pb_orders (reject_pending reason ts oid order b) = pb_orders (put_order (order\<lparr>ord_status := Rejected,
     ord_rejection_reason := Some reason, ord_updated_at := ts\<rparr>) oid b)"
  by (simp_all add: reject_pending_def Let_def emit_trade_event_def)

lemma process_pending_order_cases:
  assumes "process_pending_order bars t ts oid b = (keep, b')"
  obtains (unchanged) "b' = b"
  | (rejected) order bar px reason where "\<not> keep" "order_at b oid = Some order" "ord_status order \<noteq> Cancelled"
      "hm_get bars (as_symbol (ord_asset order)) = Some bar" "try_fill_order order bar = Some px"
      "insufficient_funds_reason b (ord_side order) (ord_qty order) px (as_contract_size (ord_asset order)) = Some reason"
      "b' = reject_pending reason ts oid order b"
  | (filled) order bar px where "\<not> keep" "order_at b oid = Some order" "ord_status order \<noteq> Cancelled"
      "hm_get bars (as_symbol (ord_asset order)) = Some bar" "try_fill_order order bar = Some px"
      "insufficient_funds_reason b (ord_side order) (ord_qty order) px (as_contract_size (ord_asset order)) = None"
      "b' = fill_pending px t ts oid order b"
proof (cases "order_at b oid")
  case None
  then show thesis using assms unchanged by (simp add: process_pending_order_def)
next
  case ord: (Some order)
  show thesis
  proof (cases "ord_status order = Cancelled \<or> hm_get bars (as_symbol (ord_asset order)) = None")
    case True
    then show thesis using assms ord unchanged by (auto simp: process_pending_order_def split: if_splits)
  next
    case False
    then obtain bar where bar: "hm_get bars (as_symbol (ord_asset order)) = Some bar" by auto
    show thesis
    proof (cases "try_fill_order order bar")
      case None
      then show thesis using assms ord bar False unchanged by (simp add: process_pending_order_def)
    next
      case px: (Some px)
      show thesis
      proof (cases "insufficient_funds_reason b (ord_side order) (ord_qty order) px (as_contract_size (ord_asset order))")
        case None
        then show thesis using assms ord bar False px filled by (simp add: process_pending_order_def)
      next
        case (Some reason)
        then show thesis using assms ord bar False px rejected by (simp add: process_pending_order_def)
      qed
    qed
  qed
qed

lemma entries_ok_put:
  assumes "entries_ok b" "entry_ok (pb_asset_fees b) order"
    "pb_leverage b' = pb_leverage b" "pb_asset_fees b' = pb_asset_fees b" "pb_orders b' = pb_orders (put_order order oid b)"
  shows "entries_ok b'"
  using assms by (auto simp: entries_ok_def split: if_splits)

lemma process_pending_order_cash:
  assumes p: "process_pending_order bars t ts oid b = (keep, b')"
    and c: "cash_ok b" and e: "entries_ok b" and bars: "bars_ok bars"
  shows "cash_ok b' \<and> entries_ok b'"
  using p
proof (cases rule: process_pending_order_cases)
  case unchanged
  then show ?thesis using c e by simp
next
  case (rejected order bar px reason)
  have ok: "entry_ok (pb_asset_fees b) order" using e rejected(2) by (auto simp: entries_ok_def)
  have "cash_ok b'" using c rejected(7) by (simp add: cash_ok_def)
  moreover have "entries_ok b'" unfolding rejected(7) using ok
    by (intro entries_ok_put [OF e, where oid = oid]) (auto simp: entry_ok_def)
  ultimately show ?thesis by simp
next
  case (filled order bar px)
  have ok: "entry_ok (pb_asset_fees b) order" and lev: "pb_leverage b < 256"
    using e filled(2) by (auto simp: entries_ok_def)
  have px: "is_finite px" "0 < px"
  proof -
    have "bar_ok bar" using bars filled(4) unfolding bars_ok_def by blast
    then show "is_finite px" "0 < px" using fill_price_ok [OF filled(5) _ ok] by blast+
  qed
  have q: "is_finite (ord_qty order)" "0 < ord_qty order" and fees: "as_fees (ord_asset order) = pb_asset_fees b"
    using ok by (auto simp: entry_ok_def)
  obtain cash where cash: "acc_cash (pb_account b) = Fin cash" "representable cash" "0 \<le> cash"
    using c by (auto simp: cash_ok_def)
  note pay = affordable_payment [OF filled(6) q px lev]
  have "cash_ok b'"
    using pay_keeps_cash [OF cash(2,3) pay(2)] pay(1) cash(1) by (simp add: cash_ok_def filled(7) fees)
  moreover have "entries_ok b'" unfolding filled(7) using ok
    by (intro entries_ok_put [OF e, where oid = oid]) (auto simp: entry_ok_filled)
  ultimately show ?thesis by simp
qed

lemma process_pending_loop_cash:
  assumes "cash_ok b" "entries_ok b" "bars_ok bars"
  shows "cash_ok (snd (process_pending_loop bars t ts pending remaining b))"
  using assms
proof (induction pending arbitrary: remaining b)
  case (Cons oid pending)
  obtain keep b' where p: "process_pending_order bars t ts oid b = (keep, b')" by fastforce
  show ?case
    using process_pending_order_cash [OF p Cons.prems] Cons.IH Cons.prems(3) p by (cases keep) auto
qed simp

text \<open>C14: Filling pending orders never overdraws the account: with well-formed bars and orders, cash that
  was not negative is not negative afterwards, whatever is filled in the step; entries the account
  cannot pay are rejected instead.\<close>

theorem pending_fills_never_overdraw:
  assumes "cash_ok b" "entries_ok b" "bars_ok bars"
  shows "0 \<le> acc_cash (pb_account (process_pending_orders bars t ts b))"
proof -
  have "cash_ok (snd (process_pending_loop bars t ts (pb_pending_orders b) [] (b\<lparr>pb_pending_orders := []\<rparr>)))"
    using assms by (intro process_pending_loop_cash) (auto simp: cash_ok_def entries_ok_def)
  then show ?thesis by (auto simp: process_pending_orders_def cash_ok_def split: prod.split)
qed

definition sample_env :: Env where
  "sample_env = \<lparr>env_uuid = (\<lambda>n. ''u'' @ digits_of n), env_now = (\<lambda>n. int n)\<rparr>"

definition sample_broker :: "OrderType \<Rightarrow> PaperBroker" where
  "sample_broker ty = (paper_new sample_env Paper (Fin 1000) 1)
     \<lparr>pb_orders := [(''o1'', sample_order ty Buy (Some (Fin 100)) None)], pb_pending_orders := [''o1'']\<rparr>"

theorem pending_fills_never_overdraw_witness:
  "0 \<le> acc_cash (pb_account (process_pending_orders [(''X'', price_bar 98 103 97 101)] 0 0 (sample_broker Limit)))"
proof (rule pending_fills_never_overdraw)
  have "representable (of_int 1000)" by (rule representable_int) simp
  then show "cash_ok (sample_broker Limit)" by (simp add: cash_ok_def sample_broker_def paper_new_def)
  show "entries_ok (sample_broker Limit)"
    by (auto simp: entries_ok_def sample_broker_def paper_new_def hm_get_def sample_order_def entry_ok_def
        opt_price_ok_def sample_asset_def split: if_splits)
  show "bars_ok [(''X'', price_bar 98 103 97 101)]"
    by (auto simp: bars_ok_def hm_get_def price_bar_def bar_ok_def split: if_splits)
qed

end
