(* ===== verification/PaperInvariant.thy ===== *)
theory PaperInvariant
  imports PaperFills
begin

text \<open>
  The invariant of the paper broker over every public operation: identities, the link between filled
  orders and open positions, the queue of pending entries, and the bounds of the retained execution
  history.  \<open>paper_op\<close> is the relation of one operation and \<open>reachable\<close> the states a broker can
  get into.
\<close>

section \<open>The retained history stays within its bounds\<close>

definition history_ok :: "PaperExecutionHistory \<Rightarrow> bool" where
  "history_ok h \<longleftrightarrow> hm_ok (ph_positions h) \<and> ph_rows h = sum_list (map (length \<circ> snd) (ph_positions h))
     \<and> ph_rows h \<le> MAX_RETAINED_FILLS \<and> length (ph_positions h) \<le> MAX_RETAINED_POSITIONS
     \<and> (\<forall>oid rows. hm_get (ph_positions h) oid = Some rows \<longrightarrow> length rows \<le> MAX_HISTORY_FILLS)"

lemma hm_remove_absent: "k \<notin> fst ` set m \<Longrightarrow> hm_remove k m = m"
  by (force simp: hm_remove_def AList.delete_eq filter_id_conv)

lemma hm_rows_remove:
  assumes "hm_ok m" "hm_get m k = Some rows"
  shows "sum_list (map (length \<circ> snd) m) = length rows + sum_list (map (length \<circ> snd) (hm_remove k m))
    \<and> length m = Suc (length (hm_remove k m))"
  using assms
proof (induction m)
  case (Cons p m)
  then show ?case
    using hm_remove_absent [of k m]
    by (cases p) (auto simp: hm_ok_def hm_get_def hm_remove_def split: if_splits)
qed (simp add: hm_get_def)

lemma hm_rows_insert:
  assumes "hm_ok m"
  shows "sum_list (map (length \<circ> snd) (hm_insert k v m)) = length v + sum_list (map (length \<circ> snd) (hm_remove k m))
    \<and> length (hm_insert k v m) = Suc (length (hm_remove k m))"
  using assms
proof (induction m)
  case (Cons p m)
  then show ?case
    using hm_remove_absent [of k m]
    by (cases p) (auto simp: hm_ok_def hm_insert_def hm_remove_def split: if_splits)
qed (simp add: hm_insert_def hm_remove_def)

lemma hm_remove_none: "hm_get m k = None \<Longrightarrow> hm_remove k m = m"
  by (rule hm_remove_absent) (simp add: hm_get_def map_of_eq_None_iff)

lemma history_remove_ok:
  assumes "history_ok h"
  shows "history_ok (history_remove oid h)" "length (ph_positions (history_remove oid h)) \<le> length (ph_positions h)"
proof -
  have "history_ok (history_remove oid h)
      \<and> length (ph_positions (history_remove oid h)) \<le> length (ph_positions h)"
  proof (cases "hm_get (ph_positions h) oid")
    case None
    then show ?thesis using assms by (simp add: history_remove_def)
  next
    case (Some rows)
    have ok: "hm_ok (ph_positions h)" using assms by (simp add: history_ok_def)
    from hm_rows_remove [OF ok Some] show ?thesis
      using assms Some by (auto simp: history_remove_def history_ok_def hm_ok_intros)
  qed
  then show "history_ok (history_remove oid h)"
    "length (ph_positions (history_remove oid h)) \<le> length (ph_positions h)" by auto
qed

lemma make_room_loop_ok:
  assumes "history_ok h" "make_room_loop new ids h = (room, h')"
  shows "history_ok h' \<and> (room \<longrightarrow> ph_rows h' < MAX_RETAINED_FILLS
      \<and> (new \<longrightarrow> length (ph_positions h') < MAX_RETAINED_POSITIONS))"
  using assms
proof (induction ids arbitrary: h)
  case Nil
  then show ?case by (subst (asm) make_room_loop.simps) (auto simp: history_ok_def split: if_splits)
next
  case (Cons oid ids)
  show ?case
  proof (cases "MAX_RETAINED_FILLS \<le> ph_rows h \<or> (new \<and> MAX_RETAINED_POSITIONS \<le> length (ph_positions h))")
    case True
    then have "make_room_loop new ids (history_remove oid h) = (room, h')"
      using Cons.prems(2) by (subst (asm) make_room_loop.simps) simp
    then show ?thesis using Cons.IH history_remove_ok(1) [OF Cons.prems(1)] by blast
  next
    case False
    then have "room" "h' = h\<lparr>ph_closed := oid # ids\<rparr>"
      using Cons.prems(2) by (subst (asm) make_room_loop.simps, simp)+
    then show ?thesis using False Cons.prems(1) by (auto simp: history_ok_def)
  qed
qed

text \<open>Evicting can drop the history of the recorded position itself; then the count of positions shrank.\<close>

lemma make_room_loop_get:
  assumes "history_ok h" "make_room_loop new ids h = (room, h')"
  shows "length (ph_positions h') \<le> length (ph_positions h)
    \<and> (hm_get (ph_positions h') k = hm_get (ph_positions h) k
       \<or> hm_get (ph_positions h') k = None \<and> length (ph_positions h') < length (ph_positions h))"
  using assms
proof (induction ids arbitrary: h)
  case Nil
  then have "ph_positions h' = ph_positions h" by (subst (asm) make_room_loop.simps) (auto split: if_splits)
  then show ?case by simp
next
  case (Cons oid ids)
  show ?case
  proof (cases "MAX_RETAINED_FILLS \<le> ph_rows h \<or> (new \<and> MAX_RETAINED_POSITIONS \<le> length (ph_positions h))")
    case True
    then have "make_room_loop new ids (history_remove oid h) = (room, h')"
      using Cons.prems(2) by (subst (asm) make_room_loop.simps) simp
    note IH = Cons.IH [OF history_remove_ok(1) [OF Cons.prems(1)] this]
    have le: "length (ph_positions (history_remove oid h)) \<le> length (ph_positions h)"
      by (rule history_remove_ok(2) [OF Cons.prems(1)])
    have "hm_get (ph_positions (history_remove oid h)) k = hm_get (ph_positions h) k
        \<or> hm_get (ph_positions (history_remove oid h)) k = None
          \<and> length (ph_positions (history_remove oid h)) < length (ph_positions h)"
    proof (cases "hm_get (ph_positions h) oid")
      case (Some rows)
      have "hm_ok (ph_positions h)" using Cons.prems(1) by (simp add: history_ok_def)
      then show ?thesis using hm_rows_remove [OF _ Some] Some by (auto simp: history_remove_def)
    qed (simp add: history_remove_def)
    then show ?thesis using IH le by auto
  next
    case False
    then have "h' = h\<lparr>ph_closed := oid # ids\<rparr>"
      using Cons.prems(2) by (subst (asm) make_room_loop.simps) (auto split: if_splits)
    then show ?thesis by simp
  qed
qed

lemma history_record_ok:
  assumes ok: "history_ok h"
  shows "history_ok (history_record fill is_closed h)"
proof (cases "fill_position_id fill")
  case None
  then show ?thesis using ok by (simp add: history_record_def)
next
  case (Some oid)
  let ?rows = "hm_get (ph_positions h) oid" and ?entry = "fill_effect fill = Entry"
  show ?thesis
  proof (cases "(\<not> ?entry \<and> ?rows = None) \<or> (\<exists>r. ?rows = Some r \<and> MAX_HISTORY_FILLS \<le> length r)")
    case True
    then show ?thesis using ok Some history_remove_ok(1) [OF ok] by (auto simp: history_record_def Let_def)
  next
    case False
    then have short: "r < MAX_HISTORY_FILLS" if "map_option length ?rows = Some r" for r using that by force
    obtain room h1 where mr: "make_room (?entry \<and> ?rows = None) h = (room, h1)" by fastforce
    have rec: "history_record fill is_closed h = (if room
        then h1\<lparr>ph_positions := hm_insert oid (unwrap_or (hm_get (ph_positions h1) oid) [] @ [fill]) (ph_positions h1),
              ph_rows := Suc (ph_rows h1), ph_closed := (if is_closed then ph_closed h1 @ [oid] else ph_closed h1)\<rparr>
        else history_remove oid h1)"
      using Some False mr
      by (cases room) (auto simp: history_record_def Let_def split: option.splits)
    note ok1 = make_room_loop_ok [OF ok mr [unfolded make_room_def]]
    note get = make_room_loop_get [OF ok mr [unfolded make_room_def], of oid]
    show ?thesis
    proof (cases room)
      case False
      then show ?thesis using ok1 history_remove_ok(1) by (simp add: rec)
    next
      case True
      have h1: "history_ok h1" "ph_rows h1 < MAX_RETAINED_FILLS" using ok1 True by auto
      have hok: "hm_ok (ph_positions h1)" using h1(1) by (simp add: history_ok_def)
      have lens: "length (ph_positions h) \<le> MAX_RETAINED_POSITIONS" using ok by (simp add: history_ok_def)
      note ins = hm_rows_insert [OF hok, of oid "unwrap_or (hm_get (ph_positions h1) oid) [] @ [fill]"]
      have "Suc (ph_rows h1) = sum_list (map (length \<circ> snd)
            (hm_insert oid (unwrap_or (hm_get (ph_positions h1) oid) [] @ [fill]) (ph_positions h1)))
          \<and> length (hm_insert oid (unwrap_or (hm_get (ph_positions h1) oid) [] @ [fill]) (ph_positions h1))
            \<le> MAX_RETAINED_POSITIONS
          \<and> length (unwrap_or (hm_get (ph_positions h1) oid) [] @ [fill]) \<le> MAX_HISTORY_FILLS"
      proof (cases "hm_get (ph_positions h1) oid")
        case None
        have "length (ph_positions h1) < MAX_RETAINED_POSITIONS"
          using get lens None ok1 True False \<open>\<not> (\<not> ?entry \<and> ?rows = None \<or> _)\<close> by fastforce
        then show ?thesis using ins None h1(1) hm_remove_none [OF None]
          by (simp add: history_ok_def MAX_HISTORY_FILLS_def)
      next
        case (Some r)
        have "?rows = Some r" using get Some by auto
        then have "length r < MAX_HISTORY_FILLS" using short by simp
        then show ?thesis using ins Some hm_rows_remove [OF hok Some] h1(1) by (simp add: history_ok_def)
      qed
      then show ?thesis using h1 True by (auto simp: rec history_ok_def hm_ok_intros)
    qed
  qed
qed

lemma history_default_ok: "history_ok history_default"
  by (simp add: history_ok_def history_default_def hm_ok_def)

section \<open>Quantities\<close>

definition good_qty :: "f64 \<Rightarrow> bool" where
  "good_qty q \<longleftrightarrow> (\<exists>x. q = Fin x \<and> representable x \<and> 0 < x)"

definition qty_ok :: "Position \<Rightarrow> bool" where
  "qty_ok p \<longleftrightarrow> (\<exists>x. pos_qty p = Fin x \<and> representable x \<and> 0 \<le> x)"

lemma good_qty_opened: "good_qty (ord_filled_qty order) \<Longrightarrow> qty_ok (opened_position b order px)"
  by (auto simp: good_qty_def qty_ok_def)

lemma good_qty_pos: "good_qty q \<Longrightarrow> \<not> q \<le> 0"
  by (auto simp: good_qty_def)

text \<open>What is closed of a position is at most the position, and what remains is again a quantity.\<close>

lemma close_figures_qty:
  assumes "qty_ok p"
  shows "cpr_qty (close_figures order p px q t) \<le> pos_qty p" "0 \<le> cpr_qty (close_figures order p px q t)"
proof -
  obtain x where x: "pos_qty p = Fin x" "0 \<le> x" using assms by (auto simp: qty_ok_def)
  have r: "cpr_qty (close_figures order p px q t) = (if q \<le> 0 then pos_qty p else fmin q (pos_qty p))"
    by (simp add: close_figures_def Let_def)
  show "cpr_qty (close_figures order p px q t) \<le> pos_qty p"
    unfolding r using x fmin_le(1) [of "pos_qty p" q] by (auto simp: fle_refl)
  show "0 \<le> cpr_qty (close_figures order p px q t)"
    unfolding r using x by (cases q) (auto simp: fmin_def)
qed

lemma sub_within:
  assumes "representable x" "0 \<le> r" "r \<le> Fin x"
  shows "\<exists>y. Fin x - r = Fin y \<and> representable y \<and> 0 \<le> y \<and> y \<le> x"
proof -
  obtain z where z: "r = Fin z" "0 \<le> z" "z \<le> x" using assms(2,3) by (cases r) auto
  have "0 \<le> rnd (x - z)" "rnd (x - z) \<le> rnd x" using z by (auto intro: rnd_nonneg rnd_mono)
  then obtain y where "rnd (x - z) = Fin y" "0 \<le> y" "y \<le> x"
    using rnd_exact [OF assms(1)] by (cases "rnd (x - z)") auto
  then show ?thesis using rnd_representable z by (auto simp: f64_fin_arith)
qed

lemma reduced_qty:
  assumes "qty_ok p" and r: "r = close_figures order p px q t"
  shows "qty_ok (reduce_position b r p)" "pos_qty (reduce_position b r p) = pos_qty p - cpr_qty r"
    "pos_side (reduce_position b r p) = pos_side p"
proof -
  obtain x where x: "pos_qty p = Fin x" "representable x" using assms(1) by (auto simp: qty_ok_def)
  show q: "pos_qty (reduce_position b r p) = pos_qty p - cpr_qty r"
    and "pos_side (reduce_position b r p) = pos_side p"
    by (simp_all add: reduce_position_def Let_def)
  show "qty_ok (reduce_position b r p)"
    using sub_within [OF x(2), of "cpr_qty r"] close_figures_qty [OF assms(1), of order px q t]
    unfolding qty_ok_def q by (auto simp: x r)
qed

section \<open>The core of the invariant\<close>

text \<open>
  The condition on one stored order, given the positions, the pending queue and the active set.  A
  filled order has an open position of its quantity and side; an order with a position is filled or,
  after a close that left less than the machine epsilon, closed with quantity zero; an order in the
  pending queue has no position and is not active.
\<close>

definition order_ok ::
  "(string \<Rightarrow> string \<Rightarrow> Position option) \<Rightarrow> string list \<Rightarrow> string set \<Rightarrow> string \<Rightarrow> Order \<Rightarrow> bool" where
  "order_ok pm pend act oid ord \<longleftrightarrow> ord_order_id ord = oid
     \<and> (ord_status ord = Filled \<longrightarrow> (\<exists>p. pm (as_symbol (ord_asset ord)) oid = Some p
          \<and> pos_qty p = ord_qty ord \<and> pos_side p = ord_side ord \<and> good_qty (ord_qty ord)))
     \<and> (pm (as_symbol (ord_asset ord)) oid \<noteq> None \<longrightarrow>
          ord_status ord = Filled \<or> ord_status ord = Closed \<and> ord_qty ord = 0)
     \<and> (ord_status ord = Pending \<longrightarrow> good_qty (ord_qty ord))
     \<and> (oid \<in> set pend \<longrightarrow> (ord_status ord = Pending \<or> ord_status ord = Cancelled)
          \<and> (\<forall>s. pm s oid = None) \<and> oid \<notin> act)"

definition core ::
  "(string \<Rightarrow> Order option) \<Rightarrow> (string \<Rightarrow> string \<Rightarrow> Position option) \<Rightarrow> string list \<Rightarrow> string set \<Rightarrow> bool" where
  "core om pm pend act \<longleftrightarrow> distinct pend \<and> set pend \<subseteq> dom om \<and> act \<subseteq> dom om
     \<and> (\<forall>oid ord. om oid = Some ord \<longrightarrow> order_ok pm pend act oid ord)
     \<and> (\<forall>s oid p. pm s oid = Some p \<longrightarrow> qty_ok p)"

lemma coreD:
  assumes "core om pm pend act"
  shows "distinct pend" "set pend \<subseteq> dom om" "act \<subseteq> dom om"
    "om oid = Some ord \<Longrightarrow> order_ok pm pend act oid ord" "pm s oid = Some p \<Longrightarrow> qty_ok p"
  using assms unfolding core_def by blast+

text \<open>An operation on one order touches that order and its own positions only.\<close>

lemma core_update:
  assumes c: "core om pm pend act" and dom: "om oid = Some old"
    and om: "\<And>k. om' k = (if k = oid then Some ord else om k)"
    and pm: "\<And>s k. k \<noteq> oid \<Longrightarrow> pm' s k = pm s k"
    and pend: "distinct pend'" "set pend' \<subseteq> set pend"
    and act: "act' - {oid} \<subseteq> act" 
    and ok: "order_ok pm' pend' act' oid ord" and q: "\<And>s p. pm' s oid = Some p \<Longrightarrow> qty_ok p"
  shows "core om' pm' pend' act'"
  unfolding core_def
proof (intro conjI allI impI)
  show "distinct pend'" by (rule pend)
  have d: "dom om' = insert oid (dom om)" using om by (auto simp: dom_def)
  show "set pend' \<subseteq> dom om'" using pend(2) coreD(2) [OF c] d by blast
  show "act' \<subseteq> dom om'" using act coreD(3) [OF c] d by blast
  fix k o1 assume k: "om' k = Some o1"
  show "order_ok pm' pend' act' k o1"
  proof (cases "k = oid")
    case True then show ?thesis using ok k om by simp
  next
    case False
    then have "order_ok pm pend act k o1" using k om coreD(4) [OF c] by simp
    then show ?thesis using False pm pend act by (auto simp: order_ok_def)
  qed
next
  fix s k p assume "pm' s k = Some p"
  then show "qty_ok p" using q pm coreD(5) [OF c] by (cases "k = oid") auto
qed

lemma core_pend:
  assumes c: "core om pm pend act" and "distinct pend'" "set pend' \<subseteq> set pend" "act' \<subseteq> act"
  shows "core om pm pend' act'"
  using assms unfolding core_def order_ok_def by blast

lemma core_cong:
  assumes "core om pm pend act" "\<And>k. om' k = om k" "\<And>s k. pm' s k = pm s k" "act' = act"
  shows "core om' pm' pend act'"
proof -
  have "om' = om" using assms(2) by (rule ext)
  moreover have "pm' = pm" using assms(3) by (intro ext)
  ultimately show ?thesis using assms by simp
qed

text \<open>The parts of the invariant that are not in \<open>core\<close>.\<close>

definition frame_ok :: "PaperBroker \<Rightarrow> bool" where
  "frame_ok b \<longleftrightarrow> pb_update_orders_queue b = [] \<and> history_ok (pb_execution_history b)"

definition active :: "PaperBroker \<Rightarrow> string set" where
  "active b = set (hm_keys (pb_active_orders b))"

definition core_of :: "string list \<Rightarrow> PaperBroker \<Rightarrow> bool" where
  "core_of pend b \<longleftrightarrow> core (order_at b) (position_at b) pend (active b) \<and> frame_ok b"

definition paper_inv :: "PaperBroker \<Rightarrow> bool" where
  "paper_inv b \<longleftrightarrow> core_of (pb_pending_orders b) b"

lemma frame_ok_emit: "frame_ok b \<Longrightarrow> frame_ok (emit_execution_event order event fill b)"
  using emit_history [of order event fill b] history_record_ok by (auto simp: frame_ok_def)

lemma frame_ok_cong:
  "pb_update_orders_queue b = pb_update_orders_queue b' \<Longrightarrow> pb_execution_history b = pb_execution_history b'
    \<Longrightarrow> frame_ok b = frame_ok b'"
  by (simp add: frame_ok_def)

lemma core_of_cong:
  assumes "core_of pend b" "pb_orders b' = pb_orders b" "pb_positions b' = pb_positions b"
    "pb_active_orders b' = pb_active_orders b" "frame_ok b'"
  shows "core_of pend b'"
  using assms position_at_cong [OF assms(3)] by (simp add: core_of_def active_def)

section \<open>Pending orders\<close>

lemma fill_pending_facts [simp]:
  "pb_update_orders_queue (fill_pending px t ts oid order b) = pb_update_orders_queue b"
  "pb_pending_orders (fill_pending px t ts oid order b) = pb_pending_orders b"
  "position_at (fill_pending px t ts oid order b) s k = (if s = as_symbol (ord_asset order) \<and> k = ord_order_id order
     then Some (opened_position (put_order (filled_order px ts order) oid b) (filled_order px ts order) px)
     else position_at b s k)"
  "active (fill_pending px t ts oid order b) = active b \<union> (if ord_legs (filled_order px ts order) = None then {} else {oid})"
proof -
  let ?o = "filled_order px ts order"
  let ?b1 = "open_position ?o px (put_order ?o oid b)"
  have pos: "pb_positions (fill_pending px t ts oid order b) = pb_positions ?b1"
    by (simp add: fill_pending_def Let_def case_prod_beta)
  have "position_at (put_order ?o oid b) = position_at b" by (rule position_at_cong) simp
  then show "position_at (fill_pending px t ts oid order b) s k = (if s = as_symbol (ord_asset order) \<and> k = ord_order_id order
     then Some (opened_position (put_order ?o oid b) ?o px) else position_at b s k)"
    unfolding position_at_cong [OF pos] by simp
qed (auto simp: fill_pending_def Let_def case_prod_beta active_def set_hm_insert_keys)

lemma frame_ok_fill: "frame_ok b \<Longrightarrow> frame_ok (fill_pending px t ts oid order b)"
proof -
  assume a: "frame_ok b"
  let ?o = "filled_order px ts order"
  let ?b1 = "snd (entry_execution ?o px t (record_entry_trade ?o px t (open_position ?o px (put_order ?o oid b))))"
  have "frame_ok ?b1" using a by (simp add: frame_ok_def)
  then have "frame_ok (emit_execution_event ?o Filled (Some f) ?b1)" for f by (rule frame_ok_emit)
  then show ?thesis by (simp add: fill_pending_def Let_def case_prod_beta frame_ok_def)
qed

lemma core_fill_pending:
  assumes c: "core_of (pre @ oid # rest) b" and ord: "order_at b oid = Some order"
    and st: "ord_status order \<noteq> Cancelled"
  shows "core_of (pre @ rest) (fill_pending px t ts oid order b)"
proof -
  let ?b = "fill_pending px t ts oid order b"
  have core: "core (order_at b) (position_at b) (pre @ oid # rest) (active b)" and fr: "frame_ok b"
    using c by (auto simp: core_of_def)
  have ok: "order_ok (position_at b) (pre @ oid # rest) (active b) oid order" using coreD(4) [OF core ord] .
  then have facts: "ord_order_id order = oid" "ord_status order = Pending" "good_qty (ord_qty order)"
    "\<And>s. position_at b s oid = None" using st by (auto simp: order_ok_def)
  have dist: "distinct (pre @ oid # rest)" by (rule coreD(1) [OF core])
  have "core (order_at ?b) (position_at ?b) (pre @ rest) (active ?b)"
  proof (rule core_update [OF core ord])
    show "order_at ?b k = (if k = oid then Some (filled_order px ts order) else order_at b k)" for k
      using ord by simp
    show "position_at ?b s k = position_at b s k" if "k \<noteq> oid" for s k using that facts(1) by simp
    show "distinct (pre @ rest)" "set (pre @ rest) \<subseteq> set (pre @ oid # rest)" using dist by auto
    show "active ?b - {oid} \<subseteq> active b" by auto
    show "order_ok (position_at ?b) (pre @ rest) (active ?b) oid (filled_order px ts order)"
      using facts dist by (auto simp: order_ok_def)
    show "qty_ok p" if "position_at ?b s oid = Some p" for s p
      using that facts by (auto simp: good_qty_opened split: if_splits)
  qed
  then show ?thesis using frame_ok_fill [OF fr] by (simp add: core_of_def)
qed

lemma core_set_order:
  assumes c: "core_of pend b" and ord: "order_at b oid = Some order"
    and b': "pb_orders b' = pb_orders (put_order order' oid b)" "pb_positions b' = pb_positions b"
      "pb_active_orders b' = pb_active_orders b" "frame_ok b'"
    and pend: "distinct pend'" "set pend' \<subseteq> set pend"
    and ok: "order_ok (position_at b) pend' (active b) oid order'"
  shows "core_of pend' b'"
proof -
  have core: "core (order_at b) (position_at b) pend (active b)" using c by (auto simp: core_of_def)
  have pos: "position_at b' = position_at b" and act: "active b' = active b"
    using position_at_cong [OF b'(2)] b'(3) by (auto simp: active_def)
  have "core (order_at b') (position_at b') pend' (active b')"
    unfolding pos act
  proof (rule core_update [OF core ord])
    show "order_at b' k = (if k = oid then Some order' else order_at b k)" for k using ord b'(1) by simp
    show "qty_ok p" if "position_at b s oid = Some p" for s p by (rule coreD(5) [OF core that])
  qed (use pend ok in auto)
  then show ?thesis using b'(4) by (simp add: core_of_def)
qed

lemma core_process_pending_order:
  assumes c: "core_of (pre @ oid # rest) b" and p: "process_pending_order bars t ts oid b = (keep, b')"
  shows "core_of ((if keep then pre @ [oid] else pre) @ rest) b'"
  using p
proof (cases rule: process_pending_order_cases)
  case unchanged
  then show ?thesis
    using c core_pend [of "order_at b" "position_at b" "pre @ oid # rest" "active b" "pre @ rest" "active b"]
      coreD(1) [of "order_at b" "position_at b" "pre @ oid # rest" "active b"]
    by (auto simp: core_of_def)
next
  case (rejected order bar px reason)
  have core: "core (order_at b) (position_at b) (pre @ oid # rest) (active b)" and fr: "frame_ok b"
    using c by (auto simp: core_of_def)
  have ok: "order_ok (position_at b) (pre @ oid # rest) (active b) oid order" using coreD(4) [OF core rejected(2)] .
  have dist: "distinct (pre @ oid # rest)" by (rule coreD(1) [OF core])
  have "core_of (pre @ rest) (reject_pending reason ts oid order b)"
  proof (rule core_set_order [OF c rejected(2)])
    show "frame_ok (reject_pending reason ts oid order b)"
      using fr by (simp add: reject_pending_def Let_def emit_trade_event_def frame_ok_def)
        (use frame_ok_emit in \<open>simp add: frame_ok_def\<close>)
    show "order_ok (position_at b) (pre @ rest) (active b) oid
        (order\<lparr>ord_status := Rejected, ord_rejection_reason := Some reason, ord_updated_at := ts\<rparr>)"
      using ok dist by (auto simp: order_ok_def)
  qed (use dist in \<open>auto simp: reject_pending_def Let_def emit_trade_event_def\<close>)
  then show ?thesis using rejected by simp
next
  case (filled order bar px)
  then show ?thesis using core_fill_pending [OF c filled(2,3)] by simp
qed

lemma core_pending_loop:
  assumes "core_of (remaining @ pending) b" "process_pending_loop bars t ts pending remaining b = (rem', b')"
  shows "core_of rem' b'"
  using assms
proof (induction pending arbitrary: remaining b)
  case (Cons oid pending)
  obtain keep b1 where p: "process_pending_order bars t ts oid b = (keep, b1)" by fastforce
  have "core_of ((if keep then remaining @ [oid] else remaining) @ pending) b1"
    by (rule core_process_pending_order [OF Cons.prems(1) p])
  moreover have "process_pending_loop bars t ts pending (if keep then remaining @ [oid] else remaining) b1 = (rem', b')"
    using Cons.prems(2) p by (cases keep) simp_all
  ultimately show ?case by (rule Cons.IH)
qed simp

lemma inv_process_pending_orders:
  assumes "paper_inv b"
  shows "paper_inv (process_pending_orders bars t ts b)"
proof -
  obtain rem' b' where p: "process_pending_loop bars t ts (pb_pending_orders b) [] (b\<lparr>pb_pending_orders := []\<rparr>) = (rem', b')"
    by (metis surj_pair)
  have fr: "frame_ok b" using assms by (simp add: paper_inv_def core_of_def)
  have "core_of (pb_pending_orders b) (b\<lparr>pb_pending_orders := []\<rparr>)"
    by (rule core_of_cong [OF assms [unfolded paper_inv_def]]) (use fr in \<open>simp_all add: frame_ok_def\<close>)
  then have c: "core_of rem' b'" using p core_pending_loop [of "[]"] by simp
  then have "frame_ok (b'\<lparr>pb_pending_orders := rem'\<rparr>)" by (simp add: core_of_def frame_ok_def)
  with c have "core_of rem' (b'\<lparr>pb_pending_orders := rem'\<rparr>)"
    by (intro core_of_cong [OF c]) simp_all
  then show ?thesis using p by (simp add: paper_inv_def process_pending_orders_def)
qed

section \<open>Closing\<close>

lemma close_positions:
  assumes core: "core om (position_at b) pend act" and "ord_order_id order = oid"
    and b1_def: "b1 = snd (close_position_for_order order px q t b)"
  shows "k \<noteq> oid \<Longrightarrow> position_at b1 s k = position_at b s k"
    and "position_at b1 s oid = Some p \<Longrightarrow> qty_ok p"
proof -
  let ?sym = "as_symbol (ord_asset order)"
  show "k \<noteq> oid \<Longrightarrow> position_at b1 s k = position_at b s k"
    using close_position_None [of b order px q t] close_position_Some(2) [of b order _ _ px q t s k] assms(2)
    by (cases "position_at b ?sym oid") (auto simp: b1_def)
  assume a: "position_at b1 s oid = Some p"
  show "qty_ok p"
  proof (cases "position_at b ?sym oid")
    case None
    then have "position_at b s oid = Some p" using a close_position_None [of b order px q t] assms(2) by (simp add: b1_def)
    then show ?thesis by (rule coreD(5) [OF core])
  next
    case (Some p0)
    have ok: "qty_ok p0" by (rule coreD(5) [OF core Some])
    have "position_at b ?sym (ord_order_id order) = Some p0" using Some assms(2) by simp
    from close_position_Some(2) [OF this refl, of px q t s oid] show ?thesis
      using a assms(2) reduced_qty(1) [OF ok refl] coreD(5) [OF core] by (auto simp: b1_def split: if_splits)
  qed
qed

text \<open>Closing the position of an order and storing what becomes of the order.\<close>

lemma core_close:
  assumes c: "core_of pend b" and ord: "order_at b oid = Some old" and id: "ord_order_id order = oid"
    and b1: "b1 = snd (close_position_for_order order px q t b)"
    and b': "pb_orders b' = pb_orders (put_order order' oid b)" "pb_positions b' = pb_positions b1"
      "active b' \<subseteq> active b" "frame_ok b'"
    and ok: "order_ok (position_at b1) pend (active b') oid order'"
  shows "core_of pend b'"
proof -
  have core: "core (order_at b) (position_at b) pend (active b)" using c by (auto simp: core_of_def)
  note pos = position_at_cong [OF b'(2)]
  have "core (order_at b') (position_at b') pend (active b')"
    unfolding pos
  proof (rule core_update [OF core ord])
    show "order_at b' k = (if k = oid then Some order' else order_at b k)" for k using ord b'(1) by simp
  qed (use ok b'(3) coreD(1) [OF core] close_positions [OF core id b1] in auto)
  then show ?thesis using b'(4) by (simp add: core_of_def)
qed

lemma order_ok_closed:
  assumes "ord_order_id order = oid" "ord_status order = Closed" "ord_qty order = 0" "oid \<notin> set pend"
  shows "order_ok pm pend act oid order"
  using assms by (simp add: order_ok_def)

lemma close_active_frame:
  "pb_orders (close_active px t ts oid order b) = pb_orders (put_order
      (closed_by_leg (snd (close_position_for_order order px (ord_qty order) t b)) px ts
         (fst (close_position_for_order order px (ord_qty order) t b)) order) oid b)"
  "pb_positions (close_active px t ts oid order b) = pb_positions (snd (close_position_for_order order px (ord_qty order) t b))"
  "pb_active_orders (close_active px t ts oid order b) = pb_active_orders b"
  "pb_pending_orders (close_active px t ts oid order b) = pb_pending_orders b"
  by (auto simp: close_active_def Let_def case_prod_beta put_order_def split: option.split)

lemma frame_ok_close_active: "frame_ok b \<Longrightarrow> frame_ok (close_active px t ts oid order b)"
proof -
  assume a: "frame_ok b"
  let ?b1 = "snd (close_position_for_order order px (ord_qty order) t b)"
  have *: "frame_ok (emit_execution_event o2 Closed f b2)"
    if "pb_update_orders_queue b2 = pb_update_orders_queue b" "pb_execution_history b2 = pb_execution_history b" for o2 f b2
    using a that by (intro frame_ok_emit) (simp add: frame_ok_def)
  have "frame_ok (mark_order_terminal_for_release oid b2) = frame_ok b2" for b2 by (simp add: frame_ok_def)
  then show ?thesis
    by (auto simp: close_active_def Let_def case_prod_beta intro!: * split: option.split)
qed

lemma core_close_active:
  assumes c: "core_of pend b" and ord: "order_at b oid = Some old"
    and same: "ord_order_id order = ord_order_id old" "ord_asset order = ord_asset old" and np: "oid \<notin> set pend"
  shows "core_of pend (close_active px t ts oid order b)"
proof -
  have core: "core (order_at b) (position_at b) pend (active b)" and fr: "frame_ok b"
    using c by (auto simp: core_of_def)
  have id: "ord_order_id order = oid" using coreD(4) [OF core ord] same by (simp add: order_ok_def)
  show ?thesis
    by (rule core_close [OF c ord id refl close_active_frame(1,2)])
      (use fr frame_ok_close_active np id in \<open>simp_all add: active_def close_active_frame order_ok_closed\<close>)
qed

lemma core_process_active_order:
  assumes "core_of pend b" "set tr \<subseteq> active b" "oid \<in> active b"
    and p: "process_active_order bars t ts oid (b, tr) = (b', tr')"
  shows "core_of pend b' \<and> active b' = active b \<and> set tr' \<subseteq> active b' \<and> pb_pending_orders b' = pb_pending_orders b"
proof (cases "order_at b oid")
  case None
  then show ?thesis using assms by (simp add: process_active_order_def)
next
  case ord: (Some order)
  have core: "core (order_at b) (position_at b) pend (active b)" and fr: "frame_ok b"
    using assms(1) by (auto simp: core_of_def)
  have ok: "order_ok (position_at b) pend (active b) oid order" by (rule coreD(4) [OF core ord])
  then have np: "oid \<notin> set pend" using assms(3) by (auto simp: order_ok_def)
  show ?thesis
  proof (cases "hm_get bars (as_symbol (ord_asset order)) = None \<or> ord_legs order = None")
    case True
    then show ?thesis using assms ord by (auto simp: process_active_order_def split: option.splits)
  next
    case False
    then obtain bar legs where bl: "hm_get bars (as_symbol (ord_asset order)) = Some bar" "ord_legs order = Some legs"
      by auto
    obtain res legs' where ch: "check_legs (ord_side order) bar ts legs = (res, legs')" by (metis surj_pair)
    show ?thesis
    proof (cases res)
      case None
      then have b': "b' = put_order (order\<lparr>ord_legs := Some legs'\<rparr>) oid b" "tr' = tr"
        using p ord bl ch by (simp_all add: process_active_order_def)
      have "core_of pend b'"
        by (rule core_set_order [OF assms(1) ord])
          (use b' fr ok coreD(1) [OF core] in \<open>auto simp: frame_ok_def order_ok_def\<close>)
      then show ?thesis using b' assms(2) by (simp add: active_def)
    next
      case (Some px)
      then have b': "b' = close_active px t ts oid (order\<lparr>ord_legs := Some legs'\<rparr>) b" "tr' = tr @ [oid]"
        using p ord bl ch by (simp_all add: process_active_order_def)
      have "core_of pend b'" unfolding b' by (rule core_close_active [OF assms(1) ord _ _ np]) simp_all
      then show ?thesis using b' assms(2,3) by (simp add: active_def close_active_frame)
    qed
  qed
qed

lemma core_active_fold:
  assumes "core_of pend b" "set tr \<subseteq> active b" "set ids \<subseteq> active b"
    "fold (process_active_order bars t ts) ids (b, tr) = (b', tr')"
  shows "core_of pend b' \<and> active b' = active b \<and> set tr' \<subseteq> active b' \<and> pb_pending_orders b' = pb_pending_orders b"
  using assms
proof (induction ids arbitrary: b tr)
  case (Cons oid ids)
  obtain b1 tr1 where p: "process_active_order bars t ts oid (b, tr) = (b1, tr1)" by (metis surj_pair)
  have "core_of pend b1 \<and> active b1 = active b \<and> set tr1 \<subseteq> active b1 \<and> pb_pending_orders b1 = pb_pending_orders b"
    using Cons.prems by (intro core_process_active_order [OF _ _ _ p]) auto
  then show ?case using Cons.IH [of b1 tr1] Cons.prems(3,4) p by auto
qed simp

lemma active_not_pending:
  assumes "core_of pend b" "oid \<in> active b"
  shows "oid \<notin> set pend"
proof -
  have core: "core (order_at b) (position_at b) pend (active b)" using assms(1) by (auto simp: core_of_def)
  then obtain order where "order_at b oid = Some order" using coreD(3) [OF core] assms(2) by auto
  from coreD(4) [OF core this] show ?thesis using assms(2) by (auto simp: order_ok_def)
qed

lemma core_remove_active:
  assumes c: "core_of pend b" and np: "oid \<notin> set pend"
  shows "core_of pend (remove_active oid b)"
proof -
  have core: "core (order_at b) (position_at b) pend (active b)" and fr: "frame_ok b"
    using c by (auto simp: core_of_def)
  have a: "active (remove_active oid b) = active b - {oid}"
    by (simp add: remove_active_def active_def set_hm_remove_keys)
  have pos: "position_at (remove_active oid b) = position_at b" by (rule position_at_cong) (simp add: remove_active_def)
  have "core (order_at (remove_active oid b)) (position_at b) pend (active b - {oid})"
  proof (cases "order_at b oid")
    case None
    then have om: "order_at (remove_active oid b) k = order_at b k" for k by (simp add: remove_active_def)
    have "core (order_at b) (position_at b) pend (active b - {oid})"
      by (rule core_pend [OF core]) (use coreD(1) [OF core] in auto)
    then show ?thesis by (rule core_cong) (simp_all add: om)
  next
    case ord: (Some order)
    let ?o = "cancel_remaining_legs b (order\<lparr>ord_status := Closed, ord_qty := 0\<rparr>)"
    show ?thesis
    proof (rule core_update [OF core ord])
      show "order_at (remove_active oid b) k = (if k = oid then Some ?o else order_at b k)" for k
        using ord by (simp add: remove_active_def)
      show "order_ok (position_at b) pend (active b - {oid}) oid ?o"
        using np coreD(4) [OF core ord] by (intro order_ok_closed) (auto simp: order_ok_def)
    qed (use coreD(1) [OF core] coreD(5) [OF core] in auto)
  qed
  moreover have "frame_ok (remove_active oid b)" using fr by (simp add: remove_active_def frame_ok_def)
  ultimately show ?thesis by (simp add: core_of_def pos a)
qed

lemma core_remove_fold:
  "core_of pend b \<Longrightarrow> set ids \<inter> set pend = {} \<Longrightarrow> core_of pend (fold remove_active ids b)"
  by (induction ids arbitrary: b) (auto simp: core_remove_active)

lemma remove_fold_pending: "pb_pending_orders (fold remove_active ids b) = pb_pending_orders b"
  by (induction ids arbitrary: b) (auto simp: remove_active_def)

lemma inv_process_active_orders:
  assumes "paper_inv b"
  shows "paper_inv (process_active_orders bars t ts b)"
proof -
  let ?pend = "pb_pending_orders b"
  obtain b' tr where f: "fold (process_active_order bars t ts) (hm_keys (pb_active_orders b)) (b, []) = (b', tr)"
    by (metis surj_pair)
  have c: "core_of ?pend b'" "set tr \<subseteq> active b'" "pb_pending_orders b' = ?pend"
    using core_active_fold [OF _ _ _ f] assms by (auto simp: paper_inv_def active_def)
  have "set tr \<inter> set ?pend = {}" using active_not_pending [OF c(1)] c(2) by auto
  then have "core_of ?pend (fold remove_active tr b')" by (rule core_remove_fold [OF c(1)])
  then show ?thesis using f c(3) by (simp add: paper_inv_def process_active_orders_def remove_fold_pending)
qed

section \<open>Deferred closes\<close>

lemma fmax_zero_id: "0 \<le> x \<Longrightarrow> fmax x 0 = x"
  by (cases x) (auto simp: fmax_def zero_f64_def split: if_splits)

text \<open>An order with a position that is not closed by a request keeps matching its position.\<close>

lemma partial_close_ok:
  assumes ok: "order_ok (position_at b) pend act oid order"
    and p: "position_at b (as_symbol (ord_asset order)) oid = Some p" and q: "qty_ok p"
    and r: "r = close_figures order p px qty t"
    and open': "\<not> fmax (ord_qty order - cpr_qty r) 0 \<le> EPSILON"
  shows "ord_status order = Filled" "fmax (ord_qty order - cpr_qty r) 0 = pos_qty p - cpr_qty r"
    "good_qty (pos_qty p - cpr_qty r)" "pos_side p = ord_side order"
proof -
  obtain x where x: "pos_qty p = Fin x" "representable x" "0 \<le> x" using q by (auto simp: qty_ok_def)
  have rb: "0 \<le> cpr_qty r" "cpr_qty r \<le> Fin x" using close_figures_qty [OF q] x by (auto simp: r)
  have st: "ord_status order = Filled \<or> ord_status order = Closed \<and> ord_qty order = 0"
    using ok p by (auto simp: order_ok_def)
  have "ord_qty order \<noteq> 0"
  proof
    assume z: "ord_qty order = 0"
    have "is_finite (cpr_qty r)" using rb by (cases "cpr_qty r") auto
    then have "0 - cpr_qty r \<le> 0" using rb(1) by (intro fsub_nonpos) auto
    then have "fmax (0 - cpr_qty r) 0 = 0" by (cases "0 - cpr_qty r") (auto simp: fmax_def zero_f64_def)
    then show False using open' z EPSILON_pos by (simp add: flt_imp_le)
  qed
  then show f: "ord_status order = Filled" using st by auto
  then have m: "pos_qty p = ord_qty order" "pos_side p = ord_side order" using ok p by (auto simp: order_ok_def)
  show "pos_side p = ord_side order" by (rule m)
  obtain y where y: "Fin x - cpr_qty r = Fin y" "representable y" "0 \<le> y" using sub_within [OF x(2) rb] by auto
  show e: "fmax (ord_qty order - cpr_qty r) 0 = pos_qty p - cpr_qty r"
    using y x m by (simp add: fmax_zero_id)
  have "\<not> Fin y \<le> EPSILON" using open' e y(1) x(1) by simp
  then have "0 < y" by (simp add: EPSILON_def)
  then show "good_qty (pos_qty p - cpr_qty r)" using y x by (auto simp: good_qty_def)
qed

lemma settle_close_frame:
  "pb_positions (snd (settle_close oid px t ts r o1 b)) = pb_positions b"
  "pb_active_orders (snd (settle_close oid px t ts r o1 b)) = pb_active_orders b"
  "pb_pending_orders (snd (settle_close oid px t ts r o1 b)) = pb_pending_orders b"
  "pb_close_orders_queue (snd (settle_close oid px t ts r o1 b)) = pb_close_orders_queue b"
  by (auto simp: settle_close_def Let_def case_prod_beta new_v4_def)

lemma frame_ok_settle:
  assumes "frame_ok b"
  shows "frame_ok (snd (settle_close oid px t ts r o1 b))"
proof -
  have *: "frame_ok (emit_execution_event o2 e f b2)"
    if "pb_update_orders_queue b2 = pb_update_orders_queue b" "pb_execution_history b2 = pb_execution_history b" for o2 e f b2
    using assms that by (intro frame_ok_emit) (simp add: frame_ok_def)
  have "frame_ok (mark_order_terminal_for_release oid b2) = frame_ok b2" for b2 by (simp add: frame_ok_def)
  then show ?thesis by (auto simp: settle_close_def Let_def case_prod_beta new_v4_def intro!: *)
qed

definition settled_order :: "PaperBroker \<Rightarrow> f64 \<Rightarrow> nat \<Rightarrow> ClosePositionResult \<Rightarrow> Order \<Rightarrow> Order" where
  "settled_order b px ts r o1 =
     (let remaining_qty = fmax (ord_qty o1 - cpr_qty r) 0
      in if cpr_fully_closed r \<or> remaining_qty \<le> EPSILON
         then cancel_remaining_legs b ((accrue_close ts r o1)\<lparr>ord_filled_price := Some px,
                ord_filled_qty := cpr_qty r, ord_qty := 0, ord_status := Closed\<rparr>)
         else (accrue_close ts r o1)\<lparr>ord_qty := remaining_qty, ord_filled_qty := remaining_qty, ord_status := Filled\<rparr>)"

lemma settle_close_orders:
  "pb_orders (snd (settle_close oid px t ts r o1 b)) = pb_orders (put_order (settled_order b px ts r o1) oid b)"
  "fst (settle_close oid px t ts r o1 b) \<longleftrightarrow> cpr_fully_closed r \<or> fmax (ord_qty o1 - cpr_qty r) 0 \<le> EPSILON"
  by (auto simp: settle_close_def settled_order_def Let_def case_prod_beta new_v4_def put_order_def)

lemma accrue_close_facts [simp]:
  "ord_order_id (accrue_close ts r o1) = ord_order_id o1" "ord_asset (accrue_close ts r o1) = ord_asset o1"
  "ord_side (accrue_close ts r o1) = ord_side o1" "ord_status (accrue_close ts r o1) = ord_status o1"
  by (simp_all add: accrue_close_def)

text \<open>A close request that settles.\<close>

lemma close_request_settles:
  assumes ord: "order_at b oid = Some order" and id: "ord_order_id order = oid"
    and bar: "hm_get bars (as_symbol (ord_asset order)) = Some bar"
    and p: "position_at b (as_symbol (ord_asset order)) oid = Some p"
    and px_def: "px = unwrap_or price (bar_close bar)"
    and b1_def: "b1 = snd (close_position_for_order order px qty t b)"
    and r_def: "r = close_figures order p px qty t"
  shows "process_close_request bars t ts (oid, qty, price) b =
    (let (terminal, b2) = settle_close oid px t ts r order b1
     in if terminal then b2\<lparr>pb_active_orders := hm_remove oid (pb_active_orders b2)\<rparr> else b2)"
proof -
  have "fst (close_position_for_order order px qty t b) = Some r"
    unfolding r_def by (rule close_position_Some(1)) (use p id in auto)
  then have "close_position_for_order order px qty t b = (Some r, b1)" by (simp add: b1_def prod_eq_iff)
  moreover have "order_at b1 oid = Some order" using ord by (simp add: b1_def)
  ultimately show ?thesis using ord bar by (simp add: process_close_request_def px_def Let_def)
qed

lemma close_request_idle:
  assumes "\<And>order. order_at b oid = Some order \<Longrightarrow> ord_order_id order = oid
      \<and> (hm_get bars (as_symbol (ord_asset order)) = None \<or> position_at b (as_symbol (ord_asset order)) oid = None)"
  shows "process_close_request bars t ts (oid, qty, price) b = b"
  using assms close_position_None [of b _ _ qty t]
  by (auto simp: process_close_request_def Let_def split: option.split)

lemma core_close_request:
  assumes c: "core_of pend b"
  shows "core_of pend (process_close_request bars t ts req b)
    \<and> pb_pending_orders (process_close_request bars t ts req b) = pb_pending_orders b"
proof -
  obtain oid qty price where req: "req = (oid, qty, price)" by (cases req)
  have core: "core (order_at b) (position_at b) pend (active b)" and fr: "frame_ok b"
    using c by (auto simp: core_of_def)
  have id: "ord_order_id order = oid" if "order_at b oid = Some order" for order
    using coreD(4) [OF core that] by (simp add: order_ok_def)
  show ?thesis
  proof (cases "\<exists>order bar p. order_at b oid = Some order \<and> hm_get bars (as_symbol (ord_asset order)) = Some bar
      \<and> position_at b (as_symbol (ord_asset order)) oid = Some p")
    case False
    then have "process_close_request bars t ts (oid, qty, price) b = b"
      using id by (intro close_request_idle) force
    then show ?thesis using c req by simp
  next
    case True
    then obtain order bar p where ord: "order_at b oid = Some order"
      and bar: "hm_get bars (as_symbol (ord_asset order)) = Some bar"
      and p: "position_at b (as_symbol (ord_asset order)) oid = Some p" by blast
    define px where "px = unwrap_or price (bar_close bar)"
    define b1 where "b1 = snd (close_position_for_order order px qty t b)"
    define r where "r = close_figures order p px qty t"
    let ?b2 = "snd (settle_close oid px t ts r order b1)"
    let ?fin = "fst (settle_close oid px t ts r order b1)"
    let ?b' = "if ?fin then ?b2\<lparr>pb_active_orders := hm_remove oid (pb_active_orders ?b2)\<rparr> else ?b2"
    have ok: "order_ok (position_at b) pend (active b) oid order" by (rule coreD(4) [OF core ord])
    then have np: "oid \<notin> set pend" using p by (auto simp: order_ok_def)
    have q: "qty_ok p" by (rule coreD(5) [OF core p])
    have eq: "process_close_request bars t ts req b = ?b'"
      unfolding req close_request_settles [OF ord id [OF ord] bar p px_def b1_def r_def]
      by (simp add: case_prod_beta)
    have orders: "pb_orders ?b' = pb_orders (put_order (settled_order b1 px ts r order) oid b)"
      using settle_close_orders(1) [of oid px t ts r order b1] by (auto simp: put_order_def b1_def)
    have fr': "frame_ok ?b'"
      using frame_ok_settle [of b1] fr by (auto simp: frame_ok_def b1_def)
    have act: "active ?b' \<subseteq> active b"
      by (auto simp: active_def settle_close_frame set_hm_remove_keys b1_def)
    have pos1: "position_at b1 (as_symbol (ord_asset order)) oid
        = (if cpr_fully_closed r then None else Some (reduce_position b r p))"
      using close_position_Some(2) [of b order p r px qty t "as_symbol (ord_asset order)" oid] p id [OF ord]
      by (simp add: b1_def r_def)
    have ok': "order_ok (position_at b1) pend (active ?b') oid (settled_order b1 px ts r order)"
    proof (cases "cpr_fully_closed r \<or> fmax (ord_qty order - cpr_qty r) 0 \<le> EPSILON")
      case True
      then show ?thesis using np id [OF ord] by (intro order_ok_closed) (auto simp: settled_order_def Let_def)
    next
      case False
      note pc = partial_close_ok [OF ok p q r_def] 
      have "\<not> fmax (ord_qty order - cpr_qty r) 0 \<le> EPSILON" using False by simp
      note pc = pc [OF this]
      have "position_at b1 (as_symbol (ord_asset order)) oid = Some (reduce_position b r p)" using pos1 False by simp
      then show ?thesis
        using False np id [OF ord] pc reduced_qty(2,3) [OF q r_def, of b]
        by (simp add: settled_order_def Let_def order_ok_def)
    qed
    have "core_of pend ?b'"
      by (rule core_close [OF c ord id [OF ord] b1_def orders _ act fr' ok']) (simp add: settle_close_frame)
    then show ?thesis unfolding eq by (simp add: settle_close_frame b1_def)
  qed
qed

lemma core_close_fold:
  assumes "core_of pend b"
  shows "core_of pend (fold (process_close_request bars t ts) queue b)
    \<and> pb_pending_orders (fold (process_close_request bars t ts) queue b) = pb_pending_orders b"
  using assms
proof (induction queue arbitrary: b)
  case (Cons req queue)
  then show ?case using core_close_request [OF Cons.prems, of bars t ts req] by simp
qed simp

lemma paper_inv_cong:
  assumes "paper_inv b" "pb_orders b' = pb_orders b" "pb_positions b' = pb_positions b"
    "pb_active_orders b' = pb_active_orders b" "pb_pending_orders b' = pb_pending_orders b"
    "pb_update_orders_queue b' = pb_update_orders_queue b" "pb_execution_history b' = pb_execution_history b"
  shows "paper_inv b'"
  unfolding paper_inv_def assms(5)
  by (rule core_of_cong [OF assms(1) [unfolded paper_inv_def] assms(2-4)])
    (use assms(1,6,7) in \<open>simp add: paper_inv_def core_of_def frame_ok_def\<close>)

lemma inv_process_close_queue:
  assumes "paper_inv b"
  shows "paper_inv (process_close_queue bars t ts b)"
proof -
  have "paper_inv (b\<lparr>pb_close_orders_queue := []\<rparr>)" by (rule paper_inv_cong [OF assms]) simp_all
  then show ?thesis
    using core_close_fold [of "pb_pending_orders b" "b\<lparr>pb_close_orders_queue := []\<rparr>" bars t ts "pb_close_orders_queue b"]
    by (simp add: paper_inv_def process_close_queue_def)
qed

lemma inv_process_update_queue:
  assumes "paper_inv b"
  shows "paper_inv (process_update_queue ts b)"
proof -
  have "pb_update_orders_queue b = []" using assms by (simp add: paper_inv_def core_of_def frame_ok_def)
  then show ?thesis by (intro paper_inv_cong [OF assms]) (simp_all add: process_update_queue_def)
qed

text \<open>Marking to market keeps every quantity and side.\<close>

lemma hm_get_map: "hm_get (map (\<lambda>(k, v). (k, f k v)) m) j = map_option (f j) (hm_get m j)"
  by (induction m) (auto simp: hm_get_def)

lemma position_at_mark:
  "position_at (update_account_balance bars b) s k = map_option (mark_position (hm_get bars s)) (position_at b s k)"
  by (cases "hm_get (pb_positions b) s")
    (simp_all add: update_account_balance_def Let_def position_at_book mark_books_def hm_get_map)

lemma mark_position_facts [simp]:
  "pos_qty (mark_position bar p) = pos_qty p" "pos_side (mark_position bar p) = pos_side p"
  "pos_avg_entry_price (mark_position bar p) = pos_avg_entry_price p"
  by (auto simp: mark_position_def split: option.split)

lemma inv_update_account_balance:
  assumes "paper_inv b"
  shows "paper_inv (update_account_balance bars b)"
proof -
  let ?b = "update_account_balance bars b"
  have same: "pb_orders ?b = pb_orders b" "active ?b = active b" "pb_pending_orders ?b = pb_pending_orders b"
    "frame_ok ?b = frame_ok b"
    by (simp_all add: update_account_balance_def Let_def active_def frame_ok_def)
  have core: "core (order_at b) (position_at b) (pb_pending_orders b) (active b)" and fr: "frame_ok b"
    using assms by (auto simp: paper_inv_def core_of_def)
  have "core (order_at b) (position_at ?b) (pb_pending_orders b) (active b)"
    unfolding core_def
  proof (intro conjI allI impI)
    fix k o1 assume "order_at b k = Some o1"
    from coreD(4) [OF core this] show "order_ok (position_at ?b) (pb_pending_orders b) (active b) k o1"
      by (auto simp: order_ok_def position_at_mark)
  next
    fix s k p assume "position_at ?b s k = Some p"
    then obtain p0 where "position_at b s k = Some p0" "p = mark_position (hm_get bars s) p0"
      by (auto simp: position_at_mark)
    then show "qty_ok p" using coreD(5) [OF core] by (auto simp: qty_ok_def)
  qed (use coreD(1-3) [OF core] in auto)
  then show ?thesis using fr by (simp add: paper_inv_def core_of_def same)
qed

lemma inv_process_step:
  assumes "paper_inv b"
  shows "paper_inv (process_step bars t b)"
proof -
  have "paper_inv (set_time t b)" by (rule paper_inv_cong [OF assms]) (simp_all add: set_time_def)
  then have "paper_inv (update_account_balance bars (process_update_queue (timestamp_u64 t)
      (process_close_queue bars t (timestamp_u64 t) (process_active_orders bars t (timestamp_u64 t)
        (process_pending_orders bars t (timestamp_u64 t) (set_time t b))))))"
    by (intro inv_update_account_balance inv_process_update_queue inv_process_close_queue
        inv_process_active_orders inv_process_pending_orders)
  then show ?thesis
    unfolding process_step_def Let_def by (rule paper_inv_cong) simp_all
qed

lemma inv_process_close_queue_at:
  assumes "paper_inv b"
  shows "paper_inv (snd (process_close_queue_at bars t b))"
proof -
  have "paper_inv (set_time t b)" by (rule paper_inv_cong [OF assms]) (simp_all add: set_time_def)
  then have "paper_inv (update_account_balance bars (process_close_queue bars t (timestamp_u64 t) (set_time t b)))"
    by (intro inv_update_account_balance inv_process_close_queue)
  then have "paper_inv ((update_account_balance bars (process_close_queue bars t (timestamp_u64 t) (set_time t b)))
      \<lparr>pb_valuation_as_of_us := Some (timestamp_micros t)\<rparr>)" by (rule paper_inv_cong) simp_all
  then show ?thesis using assms by (simp add: process_close_queue_at_def Let_def)
qed

section \<open>Requests\<close>

definition same_core :: "Order \<Rightarrow> Order \<Rightarrow> bool" where
  "same_core o1 o2 \<longleftrightarrow> ord_order_id o1 = ord_order_id o2 \<and> ord_asset o1 = ord_asset o2
     \<and> ord_status o1 = ord_status o2 \<and> ord_qty o1 = ord_qty o2 \<and> ord_side o1 = ord_side o2"

lemma order_ok_same: "same_core o1 o2 \<Longrightarrow> order_ok pm pend act oid o1 = order_ok pm pend act oid o2"
  by (simp add: same_core_def order_ok_def)

lemma inv_update_order:
  assumes inv: "paper_inv b" and ord: "order_at b oid = Some order"
    and om: "\<And>k. order_at b' k = (if k = oid then Some order' else order_at b k)"
    and b': "pb_positions b' = pb_positions b" "pb_active_orders b' = pb_active_orders b"
      "pb_pending_orders b' = pb_pending_orders b" "frame_ok b'"
    and ok: "order_ok (position_at b) (pb_pending_orders b) (active b) oid order
      \<Longrightarrow> order_ok (position_at b) (pb_pending_orders b) (active b) oid order'"
  shows "paper_inv b'"
proof -
  have core: "core (order_at b) (position_at b) (pb_pending_orders b) (active b)"
    using inv by (auto simp: paper_inv_def core_of_def)
  have pos: "position_at b' = position_at b" and act: "active b' = active b"
    using position_at_cong [OF b'(1)] b'(2) by (auto simp: active_def)
  have "core (order_at b') (position_at b) (pb_pending_orders b) (active b)"
    by (rule core_update [OF core ord om])
      (use ok coreD(4) [OF core ord] coreD(1) [OF core] coreD(5) [OF core] in auto)
  then show ?thesis using b'(3,4) by (simp add: paper_inv_def core_of_def pos act)
qed

lemma inv_frame: "paper_inv b \<Longrightarrow> frame_ok b"
  by (simp add: paper_inv_def core_of_def)

lemma inv_put_order:
  assumes inv: "paper_inv b" and ord: "order_at b oid = Some order"
    and ok: "order_ok (position_at b) (pb_pending_orders b) (active b) oid order
      \<Longrightarrow> order_ok (position_at b) (pb_pending_orders b) (active b) oid order'"
  shows "paper_inv (put_order order' oid b)"
  by (rule inv_update_order [OF inv ord _ _ _ _ _ ok]) (use inv_frame [OF inv] ord in \<open>auto simp: frame_ok_def\<close>)

lemma inv_emit:
  assumes "paper_inv b"
  shows "paper_inv (emit_trade_event order event b)"
  using core_of_cong [OF assms [unfolded paper_inv_def], of "emit_trade_event order event b"]
    frame_ok_emit [OF inv_frame [OF assms], of order event None]
  by (simp add: paper_inv_def emit_trade_event_def)

lemma inv_mark: "paper_inv b \<Longrightarrow> paper_inv (mark_order_terminal_for_release oid b)"
  by (erule paper_inv_cong) simp_all

lemma request_frame:
  assumes "request_asset symbol b = (asset, b1)" "request_legs req ts b1 = (legs, b2)"
  shows "b2 = b\<lparr>pb_draws := pb_draws b2\<rparr>"
  using assms
  by (auto simp: request_asset_def request_legs_def opt_uuid_def new_v4_def Let_def
      split: option.splits if_splits prod.splits)

text \<open>Storing a new order: its identity is free and no position has it.\<close>

lemma inv_new_order:
  assumes inv: "paper_inv b" and free: "order_at b oid = None" "\<And>s. position_at b s oid = None"
    and order: "ord_order_id order = oid" "good_qty (ord_qty order)"
    and st: "ord_status order = Pending \<and> pend = [oid] \<or> ord_status order = Rejected \<and> pend = []"
  shows "paper_inv (b\<lparr>pb_orders := hm_insert oid order (pb_orders b), pb_pending_orders := pb_pending_orders b @ pend\<rparr>)"
proof -
  let ?b = "b\<lparr>pb_orders := hm_insert oid order (pb_orders b), pb_pending_orders := pb_pending_orders b @ pend\<rparr>"
  have core: "core (order_at b) (position_at b) (pb_pending_orders b) (active b)" and fr: "frame_ok b"
    using inv by (auto simp: paper_inv_def core_of_def)
  have pos: "position_at ?b = position_at b" by (rule position_at_cong) simp
  have new: "oid \<notin> set (pb_pending_orders b)" "oid \<notin> active b"
    using coreD(2,3) [OF core] free(1) by (auto simp: dom_def)
  have "core (order_at ?b) (position_at b) (pb_pending_orders b @ pend) (active b)"
    unfolding core_def
  proof (intro conjI allI impI)
    show "distinct (pb_pending_orders b @ pend)" using coreD(1) [OF core] new st by auto
    have d: "dom (order_at ?b) = insert oid (dom (order_at b))" by (auto simp: dom_def)
    show "set (pb_pending_orders b @ pend) \<subseteq> dom (order_at ?b)" using coreD(2) [OF core] st d by auto
    show "active b \<subseteq> dom (order_at ?b)" using coreD(3) [OF core] d by blast
    fix k o1 assume k: "order_at ?b k = Some o1"
    show "order_ok (position_at b) (pb_pending_orders b @ pend) (active b) k o1"
    proof (cases "k = oid")
      case True
      then show ?thesis using k order st free(2) new by (auto simp: order_ok_def)
    next
      case False
      then have "order_ok (position_at b) (pb_pending_orders b) (active b) k o1" using k coreD(4) [OF core] by simp
      then show ?thesis using False st by (auto simp: order_ok_def)
    qed
  next
    fix s k p assume "position_at b s k = Some p"
    then show "qty_ok p" by (rule coreD(5) [OF core])
  qed
  then show ?thesis using fr by (simp add: paper_inv_def core_of_def pos active_def frame_ok_def)
qed

lemma inv_submit_order:
  assumes inv: "paper_inv b" and fresh: "\<And>s. position_at b s (req_client_order_id req) = None"
    and qty: "\<And>x. req_quantity req = Some (Fin x) \<Longrightarrow> representable x"
  shows "paper_inv (snd (submit_order req b))"
proof (cases "\<exists>q. req_quantity req = Some q \<and> is_finite q \<and> \<not> q \<le> 0")
  case False
  then show ?thesis using inv by (auto simp: submit_order_def split: option.splits)
next
  case True
  then obtain q where q: "req_quantity req = Some q" "is_finite q" "\<not> q \<le> 0" by blast
  let ?oid = "req_client_order_id req" and ?ts = "current_time_ts b"
  obtain asset b1 where r1: "request_asset (req_symbol req) b = (asset, b1)" by (metis surj_pair)
  obtain legs b2 where r2: "request_legs req ?ts b1 = (legs, b2)" by (metis surj_pair)
  note b2 = request_frame [OF r1 r2]
  let ?o = "request_order req q asset legs ?ts"
  have gq: "good_qty q" using q qty by (auto simp: good_qty_def is_finite_iff not_le)
  have pos2: "pb_positions b2 = pb_positions b" by (subst b2) simp
  have inv2: "paper_inv b2" by (subst b2, rule paper_inv_cong [OF inv]) simp_all
  have fresh2: "position_at b2 s ?oid = None" for s using fresh by (simp add: position_at_cong [OF pos2])
  have o: "ord_order_id ?o = ?oid" "ord_qty ?o = q" "ord_status ?o = Pending" by (simp_all add: request_order_def)
  show ?thesis
  proof (cases "order_at b2 ?oid")
    case (Some x)
    then show ?thesis using q r1 r2 inv2 by (simp add: submit_order_def Let_def)
  next
    case None
    show ?thesis
    proof (cases "submission_rejection b2 ?o")
      case ok: None
      have "paper_inv (b2\<lparr>pb_orders := hm_insert ?oid ?o (pb_orders b2), pb_pending_orders := pb_pending_orders b2 @ [?oid]\<rparr>)"
        by (rule inv_new_order [OF inv2 None fresh2]) (use o gq in auto)
      then show ?thesis using q r1 r2 None ok by (simp add: submit_order_def Let_def inv_emit)
    next
      case (Some reason)
      let ?r = "?o\<lparr>ord_status := Rejected, ord_rejection_reason := Some reason\<rparr>"
      have "paper_inv (b2\<lparr>pb_orders := hm_insert ?oid ?r (pb_orders b2), pb_pending_orders := pb_pending_orders b2 @ []\<rparr>)"
        by (rule inv_new_order [OF inv2 None fresh2]) (use o gq in auto)
      then show ?thesis using q r1 r2 None Some by (simp add: submit_order_def Let_def inv_mark inv_emit)
    qed
  qed
qed

lemma inv_cancel_order:
  assumes inv: "paper_inv b"
  shows "paper_inv (snd (cancel_order oid b))"
proof (cases "order_at b oid")
  case (Some order)
  show ?thesis
  proof (cases "ord_status order = Filled \<or> ord_status order = Closed")
    case True
    then show ?thesis using Some inv by (auto simp: cancel_order_def)
  next
    case False
    have "paper_inv (put_order (order\<lparr>ord_status := Cancelled, ord_updated_at := current_time_ts b\<rparr>) oid b)"
      by (rule inv_put_order [OF inv Some]) (use False in \<open>auto simp: order_ok_def\<close>)
    then show ?thesis using False Some by (simp add: cancel_order_def Let_def inv_mark inv_emit)
  qed
next
  case None
  have legs: "same_core parent parent'" if "cancel_leg_on_parent oid ts parent = (hit, parent')" for parent parent' hit ts
    using that by (auto simp: cancel_leg_on_parent_def same_core_def split: option.splits if_splits)
  show ?thesis
  proof (cases "List.find (\<lambda>(_, order). owns_leg oid order) (pb_orders b)")
    case None
    then show ?thesis using inv \<open>order_at b oid = None\<close> by (simp add: cancel_order_def Let_def)
  next
    case (Some entry)
    obtain pid x where e: "entry = (pid, x)" by (cases entry)
    show ?thesis
    proof (cases "order_at b pid")
      case None
      then show ?thesis using inv \<open>order_at b oid = None\<close> Some e by (simp add: cancel_order_def Let_def)
    next
      case p: (Some parent)
      obtain hit parent' where c: "cancel_leg_on_parent oid (current_time_ts b) parent = (hit, parent')" by (metis surj_pair)
      have sc: "same_core parent parent'" "same_core parent (parent'\<lparr>ord_updated_at := ts\<rparr>)" for ts
        using legs [OF c] by (auto simp: same_core_def)
      have "paper_inv (put_order parent' pid b)"
        "paper_inv (put_order (parent'\<lparr>ord_updated_at := current_time_ts b\<rparr>) pid b)"
        using order_ok_same [OF sc(1)] order_ok_same [OF sc(2)] by (auto intro!: inv_put_order [OF inv p])
      then show ?thesis
        using \<open>order_at b oid = None\<close> Some e p c by (cases hit) (simp_all add: cancel_order_def Let_def inv_emit)
    qed
  qed
qed

lemma inv_amend_entry_prices:
  assumes inv: "paper_inv b"
  shows "paper_inv (snd (amend_entry_prices oid limit stop b))"
proof (cases "order_at b oid")
  case None
  then show ?thesis using inv by (simp add: amend_entry_prices_def)
next
  case (Some order)
  have "paper_inv (put_order (order\<lparr>ord_limit_price := l, ord_stop_price := s, ord_updated_at := ts\<rparr>) oid b)" for l s ts
    by (rule inv_put_order [OF inv Some]) (simp add: order_ok_def)
  then show ?thesis using Some inv by (simp add: amend_entry_prices_def)
qed

lemma inv_replace_order:
  assumes inv: "paper_inv b" and qty: "\<And>x. qty = Fin x \<Longrightarrow> representable x"
  shows "paper_inv (snd (replace_order oid price qty b))"
proof (cases "order_at b oid")
  case None
  then show ?thesis using inv by (simp add: replace_order_def)
next
  case (Some order)
  have "paper_inv (put_order (order\<lparr>ord_limit_price := l, ord_qty := qty, ord_updated_at := ts\<rparr>) oid b)"
    if "is_pending_status (ord_status order)" "\<not> bad_price qty" for l ts
  proof (rule inv_put_order [OF inv Some])
    have "good_qty qty" using that(2) qty by (auto simp: bad_price_def good_qty_def is_finite_iff)
    then show "order_ok (position_at b) (pb_pending_orders b) (active b) oid order
      \<Longrightarrow> order_ok (position_at b) (pb_pending_orders b) (active b) oid (order\<lparr>ord_limit_price := l, ord_qty := qty, ord_updated_at := ts\<rparr>)"
      using that(1) by (auto simp: order_ok_def is_pending_status_def)
  qed
  then show ?thesis using Some inv by (simp add: replace_order_def)
qed

lemma update_first_view:
  assumes "update_first f m = Some m'"
  shows "(\<exists>k v v'. hm_get m k = Some v \<and> f v = Some v' \<and> (\<forall>j. hm_get m' j = (if j = k then Some v' else hm_get m j)))
    \<or> (\<forall>j. hm_get m' j = hm_get m j)"
  using assms
proof (induction m arbitrary: m')
  case (Cons p m)
  obtain k v where p: "p = (k, v)" by (cases p)
  show ?case
  proof (cases "f v")
    case (Some v')
    then have "m' = (k, v') # m" using Cons.prems p by simp
    then show ?thesis using Some p by (intro disjI1 exI [of _ k] exI [of _ v] exI [of _ v']) (auto simp: hm_get_def)
  next
    case None
    then obtain m1 where m1: "update_first f m = Some m1" "m' = (k, v) # m1" using Cons.prems p by auto
    from Cons.IH [OF m1(1)] show ?thesis
    proof
      assume "\<exists>k v v'. hm_get m k = Some v \<and> f v = Some v' \<and> (\<forall>j. hm_get m1 j = (if j = k then Some v' else hm_get m j))"
      then obtain k1 v1 v1' where h: "hm_get m k1 = Some v1" "f v1 = Some v1'"
        "\<And>j. hm_get m1 j = (if j = k1 then Some v1' else hm_get m j)" by blast
      show ?thesis
      proof (cases "k1 = k")
        case True
        then show ?thesis using h p m1(2) by (intro disjI2) (auto simp: hm_get_def)
      next
        case False
        then show ?thesis using h p m1(2)
          by (intro disjI1 exI [of _ k1] exI [of _ v1] exI [of _ v1']) (auto simp: hm_get_def)
      qed
    qed (use p m1 in \<open>auto simp: hm_get_def\<close>)
  qed
qed simp

lemma inv_update_protective:
  assumes inv: "paper_inv b"
  shows "paper_inv (snd (update_protective get put e1 e2 e3 e4 oid price b))"
proof (cases "bad_price price")
  case True
  then show ?thesis using inv by (simp add: update_protective_def)
next
  case np: False
  show ?thesis
  proof (cases "order_at b oid")
    case (Some order)
    have "paper_inv (put_order (order\<lparr>ord_legs := l, ord_updated_at := ts\<rparr>) oid b)" for l ts
      by (rule inv_put_order [OF inv Some]) (simp add: order_ok_def)
    then show ?thesis using np Some inv by (auto simp: update_protective_def Let_def split: option.split)
  next
    case None
    show ?thesis
    proof (cases "update_first (update_order_by_leg get put oid price (current_time_ts b)) (pb_orders b)")
      case none: None
      then show ?thesis using np None inv by (simp add: update_protective_def Let_def)
    next
      case (Some orders)
      have res: "snd (update_protective get put e1 e2 e3 e4 oid price b) = b\<lparr>pb_orders := orders\<rparr>"
        using np None Some by (simp add: update_protective_def Let_def)
      have fr: "frame_ok (b\<lparr>pb_orders := orders\<rparr>)" using inv_frame [OF inv] by (simp add: frame_ok_def)
      from update_first_view [OF Some] show ?thesis unfolding res
      proof
        assume "\<exists>k v v'. hm_get (pb_orders b) k = Some v \<and> update_order_by_leg get put oid price (current_time_ts b) v = Some v'
          \<and> (\<forall>j. hm_get orders j = (if j = k then Some v' else hm_get (pb_orders b) j))"
        then obtain k v v' where h: "order_at b k = Some v"
          "update_order_by_leg get put oid price (current_time_ts b) v = Some v'"
          "\<And>j. hm_get orders j = (if j = k then Some v' else order_at b j)" by blast
        have "same_core v v'" using h(2) by (auto simp: update_order_by_leg_def same_core_def split: option.splits)
        then show "paper_inv (b\<lparr>pb_orders := orders\<rparr>)"
          by (intro inv_update_order [OF inv h(1)]) (use h(3) fr order_ok_same in auto)
      next
        assume same: "\<forall>j. hm_get orders j = hm_get (pb_orders b) j"
        then have "order_at (b\<lparr>pb_orders := orders\<rparr>) = order_at b" by (intro ext) simp
        moreover have "position_at (b\<lparr>pb_orders := orders\<rparr>) = position_at b" by (rule position_at_cong) simp
        ultimately show "paper_inv (b\<lparr>pb_orders := orders\<rparr>)"
          using inv fr by (simp add: paper_inv_def core_of_def active_def)
      qed
    qed
  qed
qed

lemma inv_close_position: "paper_inv b \<Longrightarrow> paper_inv (snd (close_position oid qty price b))"
  by (auto simp: close_position_def Let_def split: option.split intro: paper_inv_cong)

lemma inv_close_each: "paper_inv b \<Longrightarrow> paper_inv (snd (close_each ids b))"
proof (induction ids arbitrary: b)
  case (Cons oid ids)
  obtain res b1 where r: "close_position oid 0 None b = (res, b1)" by (metis surj_pair)
  then have "paper_inv b1" using inv_close_position [OF Cons.prems, of oid 0 None] by simp
  then show ?case using Cons.IH r by (cases res) simp_all
qed simp

lemma hm_get_fold_remove: "hm_get (fold hm_remove ids m) k = (if k \<in> set ids then None else hm_get m k)"
  by (induction ids arbitrary: m) auto

lemma keys_fold_remove: "set (hm_keys (fold hm_remove ids m)) = set (hm_keys m) - set ids"
  by (induction ids arbitrary: m) (auto simp: set_hm_remove_keys)

lemma core_release:
  assumes c: "core om pm pend act"
    and om: "\<And>k. om' k = (if k \<in> I then None else om k)"
  shows "core om' pm (filter (\<lambda>i. i \<notin> I) pend) (act - I)"
  unfolding core_def
proof (intro conjI allI impI)
  have d: "dom om' = dom om - I" using om by (auto simp: dom_def)
  show "distinct (filter (\<lambda>i. i \<notin> I) pend)" using coreD(1) [OF c] by simp
  show "set (filter (\<lambda>i. i \<notin> I) pend) \<subseteq> dom om'" "act - I \<subseteq> dom om'"
    using coreD(2,3) [OF c] d by auto
  fix k o1 assume "om' k = Some o1"
  then have "k \<notin> I" "om k = Some o1" using om by (auto split: if_splits)
  from coreD(4) [OF c this(2)] show "order_ok pm (filter (\<lambda>i. i \<notin> I) pend) (act - I) k o1"
    by (auto simp: order_ok_def)
next
  fix s k p assume "pm s k = Some p"
  then show "qty_ok p" by (rule coreD(5) [OF c])
qed

lemma inv_release:
  assumes "paper_inv b"
  shows "paper_inv (release_terminal_orders b)"
proof (cases "pb_terminal_orders_pending_release b = []")
  case True
  then show ?thesis
    using paper_inv_cong [OF assms, of "b\<lparr>pb_terminal_orders_pending_release := []\<rparr>"]
    by (simp add: release_terminal_orders_def Let_def)
next
  case False
  let ?I = "set (pb_terminal_orders_pending_release b)" and ?b = "release_terminal_orders b"
  have core: "core (order_at b) (position_at b) (pb_pending_orders b) (active b)" and fr: "frame_ok b"
    using assms by (auto simp: paper_inv_def core_of_def)
  have f: "pb_pending_orders ?b = filter (\<lambda>i. i \<notin> ?I) (pb_pending_orders b)"
    "active ?b = active b - ?I" "frame_ok ?b"
    "\<And>k. order_at ?b k = (if k \<in> ?I then None else order_at b k)"
    using False fr
    by (simp_all add: release_terminal_orders_def Let_def active_def keys_fold_remove frame_ok_def hm_get_fold_remove)
  have pos: "position_at ?b = position_at b"
    by (rule position_at_cong) (simp add: release_terminal_orders_def Let_def)
  show ?thesis
    using core_release [OF core f(4)] f(3) by (simp add: paper_inv_def core_of_def pos f(1,2))
qed

lemma inv_drain:
  assumes "paper_inv b"
  shows "paper_inv (snd (drain_execution_events n b))"
proof -
  have "paper_inv (b\<lparr>pb_trade_events := es\<rparr>)" for es by (rule paper_inv_cong [OF assms]) simp_all
  then show ?thesis by (simp add: drain_execution_events_def Let_def inv_release)
qed

section \<open>Reachable states\<close>

text \<open>
  One public operation.  Requests carry numbers of the format; a submitted identity must not be that
  of an open position (the client identities of the engine are unique).
\<close>

definition is_number :: "f64 \<Rightarrow> bool" where
  "is_number a = (case a of Fin x \<Rightarrow> representable x | _ \<Rightarrow> True)"

inductive paper_op :: "PaperBroker \<Rightarrow> PaperBroker \<Rightarrow> bool" where
  op_step: "paper_op b (process_step bars t b)"
| op_close_queue_at: "paper_op b (snd (process_close_queue_at bars t b))"
| op_submit: "(\<And>s. position_at b s (req_client_order_id req) = None) \<Longrightarrow>
     (\<And>q. req_quantity req = Some q \<Longrightarrow> is_number q) \<Longrightarrow> paper_op b (snd (submit_order req b))"
| op_cancel: "paper_op b (snd (cancel_order oid b))"
| op_amend: "paper_op b (snd (amend_entry_prices oid limit stop b))"
| op_replace: "is_number qty \<Longrightarrow> paper_op b (snd (replace_order oid price qty b))"
| op_take_profit: "paper_op b (snd (update_take_profit oid price b))"
| op_stop_loss: "paper_op b (snd (update_stop_loss oid price b))"
| op_close: "paper_op b (snd (close_position oid qty price b))"
| op_close_all: "paper_op b (snd (close_all_positions b))"
| op_drain: "paper_op b (snd (drain_execution_events n b))"
| op_connect: "paper_op b (snd (connect b))"
| op_disconnect: "paper_op b (snd (disconnect b))"
| op_subscribe: "paper_op b (subscribe_to_trade_stream s b)"
| op_unsubscribe: "paper_op b (unsubscribe_from_trade_stream b)"
| op_register: "paper_op b (register_asset_metadata asset b)"
| op_fees: "paper_op b (with_asset_fees fees b)"
| op_time: "paper_op b (set_time t b)"
| op_backtest: "paper_op b (set_backtest_state st b)"

lemma paper_op_inv: "paper_op b b' \<Longrightarrow> paper_inv b \<Longrightarrow> paper_inv b'"
proof (induction rule: paper_op.induct)
  case (op_submit b req)
  show ?case
    by (rule inv_submit_order) (use op_submit in \<open>auto simp: is_number_def split: f64.splits\<close>)
next
  case (op_replace qty oid price b)
  then show ?case by (intro inv_replace_order) (auto simp: is_number_def)
qed (auto simp: inv_process_step inv_process_close_queue_at inv_cancel_order inv_amend_entry_prices
    update_take_profit_def update_stop_loss_def inv_update_protective inv_close_position close_all_positions_def
    inv_close_each inv_drain connect_def disconnect_def subscribe_to_trade_stream_def
    unsubscribe_from_trade_stream_def register_asset_metadata_def with_asset_fees_def set_time_def
    set_backtest_state_def intro: paper_inv_cong)

inductive reachable :: "PaperBroker \<Rightarrow> bool" where
  start: "reachable (paper_new env account_type cash leverage)"
| step: "reachable b \<Longrightarrow> paper_op b b' \<Longrightarrow> reachable b'"

lemma paper_new_inv: "paper_inv (paper_new env account_type cash leverage)"
  by (simp add: paper_inv_def core_of_def core_def paper_new_def active_def hm_keys_def position_at_book
      frame_ok_def history_default_ok)

lemma reachable_inv: "reachable b \<Longrightarrow> paper_inv b"
  by (induction rule: reachable.induct) (auto simp: paper_new_inv paper_op_inv)



text \<open>The retained execution history of a reachable broker holds at most 4096 fills of at most 1024
  positions, at most 256 of one position, and its row counter is exact.\<close>

theorem retained_history_bounded:
  assumes "reachable b"
  shows "let h = pb_execution_history b in ph_rows h = sum_list (map (length \<circ> snd) (ph_positions h))
    \<and> ph_rows h \<le> 4096 \<and> length (ph_positions h) \<le> 1024
    \<and> (\<forall>oid rows. hm_get (ph_positions h) oid = Some rows \<longrightarrow> length rows \<le> 256)"
  using reachable_inv [OF assms]
  by (simp add: paper_inv_def core_of_def frame_ok_def history_ok_def MAX_RETAINED_FILLS_def
      MAX_RETAINED_POSITIONS_def MAX_HISTORY_FILLS_def Let_def)

section \<open>A concrete run\<close>

definition sample_request :: BrokerOrderRequest where
  "sample_request = \<lparr>req_client_order_id = ''o1'', req_insight_id = ''i1'', req_strategy_type = ''s'',
     req_symbol = ''X'', req_quantity = Some (Fin 2), req_side = Buy, req_order_type = Market,
     req_order_class = Simple, req_limit_price = None, req_stop_price = None,
     req_take_profit_levels = None, req_stop_loss_levels = None, req_trailing_stop_price = None\<rparr>"

definition sample_new :: PaperBroker where
  "sample_new = paper_new sample_env Paper (Fin 1000) 1"

definition sample_entry :: Order where
  "sample_entry = request_order sample_request (Fin 2) (fst (request_asset ''X'' sample_new)) None (current_time_ts sample_new)"

definition sample_submitted :: PaperBroker where
  "sample_submitted = snd (submit_order sample_request sample_new)"

lemma sample_submitted_facts:
  "pb_orders sample_submitted = [(''o1'', sample_entry)]" "pb_pending_orders sample_submitted = [''o1'']"
  "pb_active_orders sample_submitted = []" "pb_close_orders_queue sample_submitted = []"
  "pb_update_orders_queue sample_submitted = []" "pb_account sample_submitted = pb_account sample_new"
  "pb_leverage sample_submitted = 1" "pb_asset_fees sample_submitted = default_fees"
  by (simp_all add: sample_submitted_def submit_order_def sample_request_def request_asset_def new_v4_def
      request_legs_def submission_rejection_def request_order_def emit_trade_event_def Let_def sample_entry_def
      sample_new_def paper_new_def hm_insert_def current_time_ts_def)

lemma sample_entry_facts:
  "ord_order_type sample_entry = Market" "ord_side sample_entry = Buy" "ord_qty sample_entry = Fin 2"
  "ord_status sample_entry = Pending" "ord_order_class sample_entry = Simple" "ord_legs sample_entry = None"
  "as_symbol (ord_asset sample_entry) = ''X''" "as_fees (ord_asset sample_entry) = default_fees"
  "as_contract_size (ord_asset sample_entry) = None" "ord_order_id sample_entry = ''o1''"
  by (simp_all add: sample_entry_def request_order_def sample_request_def request_asset_def sample_new_def
      paper_new_def new_v4_def)

definition sample_bar_map :: "(string, Bar) hmap" where
  "sample_bar_map = [(''X'', price_bar 100 103 97 101)]"

definition sample_filled :: PaperBroker where
  "sample_filled = process_step sample_bar_map 60000000000 sample_submitted"

lemma sample_reachable: "reachable sample_submitted" "reachable sample_filled"
proof -
  have "reachable sample_new" by (simp add: sample_new_def reachable.start)
  moreover have "paper_op sample_new sample_submitted" unfolding sample_submitted_def
  proof (rule paper_op.op_submit)
    have "representable (of_int 2)" by (rule representable_int) simp
    then show "is_number q" if "req_quantity sample_request = Some q" for q
      using that by (auto simp: sample_request_def is_number_def)
  qed (simp add: sample_new_def paper_new_def position_at_book)
  ultimately show s: "reachable sample_submitted" by (rule reachable.step)
  show "reachable sample_filled" unfolding sample_filled_def by (rule reachable.step [OF s paper_op.op_step])
qed

lemma no_fee [simp]: "entry_commission_for_side default_fees side px q cs = 0"
  by (simp add: default_fees_def entry_commission_for_side_def entry_commission_def asf_for_side_def
      calculate_with_contract_def Let_def split: OrderSide.split)

lemma sample_affordable:
  "insufficient_funds_reason b Buy (Fin 2) (Fin 100) None = None"
  if "pb_account b = pb_account sample_new" "pb_leverage b = 1" "pb_asset_fees b = default_fees"
proof -
  have "Fin 2 * Fin 100 = Fin 200" "Fin 1000 * of_integer_f64 1 = Fin 1000" "Fin 200 + 0 = Fin 200"
    using fint_arith(3) [of 2 100] fint_arith(3) [of 1000 1] fint_arith(1) [of 200 0] rnd_int [of 1]
    by (simp_all add: of_integer_f64_def zero_f64_def)
  then show ?thesis
    using that by (simp add: insufficient_funds_reason_def Let_def margin_of_def sample_new_def paper_new_def)
qed

text \<open>A step without active orders and without queued closes changes orders in its first phase only.\<close>

lemma process_step_orders:
  assumes "b1 = process_pending_orders bars t (timestamp_u64 t) (set_time t b)"
    "pb_active_orders b1 = []" "pb_close_orders_queue b1 = []" "pb_update_orders_queue b1 = []"
  shows "pb_orders (process_step bars t b) = pb_orders b1" "pb_positions (process_step bars t b) = mark_books bars (pb_positions b1)"
proof -
  let ?ts = "timestamp_u64 t"
  have "process_active_orders bars t ?ts b1 = b1"
    using assms(2) by (simp add: process_active_orders_def hm_keys_def)
  moreover have "process_close_queue bars t ?ts b1 = b1" using assms(3) by (simp add: process_close_queue_def)
  moreover have "process_update_queue ?ts b1 = b1" using assms(4) by (simp add: process_update_queue_def)
  ultimately have "process_step bars t b
      = (update_account_balance bars b1)\<lparr>pb_valuation_as_of_us := Some (timestamp_micros t)\<rparr>"
    using assms(1) by (simp add: process_step_def Let_def)
  then show "pb_orders (process_step bars t b) = pb_orders b1"
    "pb_positions (process_step bars t b) = mark_books bars (pb_positions b1)"
    by (simp_all add: update_account_balance_def Let_def)
qed

lemma sample_filled_order:
  "order_at sample_filled ''o1'' = Some (filled_order (Fin 100) (timestamp_u64 60000000000) sample_entry)"
proof -
  let ?t = "60000000000" let ?ts = "timestamp_u64 ?t"
  let ?b0 = "(set_time ?t sample_submitted)\<lparr>pb_pending_orders := []\<rparr>"
  let ?b1 = "fill_pending (Fin 100) ?t ?ts ''o1'' sample_entry ?b0"
  note f = sample_submitted_facts sample_entry_facts
  have "insufficient_funds_reason ?b0 Buy (Fin 2) (Fin 100) None = None"
    by (rule sample_affordable) (simp_all add: set_time_def f)
  then have p: "process_pending_orders sample_bar_map ?t ?ts (set_time ?t sample_submitted) = ?b1"
    by (simp add: process_pending_orders_def process_pending_order_def f set_time_def sample_bar_map_def hm_get_def
        try_fill_order_def price_bar_def)
  have legs: "ord_legs (filled_order px ts sample_entry) = None" for px ts
    by (simp add: filled_order_def f Let_def)
  have "pb_orders (process_step sample_bar_map ?t sample_submitted) = pb_orders ?b1"
    by (rule process_step_orders(1) [OF p [symmetric]])
      (simp_all add: fill_pending_def Let_def case_prod_beta legs set_time_def f)
  then show ?thesis by (simp add: sample_filled_def f set_time_def put_order_def hm_modify_def hm_get_def)
qed



theorem retained_history_bounded_witness:
  "let h = pb_execution_history sample_filled in ph_rows h = sum_list (map (length \<circ> snd) (ph_positions h))
    \<and> ph_rows h \<le> 4096 \<and> length (ph_positions h) \<le> 1024"
  using retained_history_bounded [OF sample_reachable(2)] by (simp add: Let_def)

end
