(* ===== verification/PaperClose.thy ===== *)
theory PaperClose
  imports PaperInvariant
begin

text \<open>
  Settlement and bookkeeping around a close: exact cash on a round trip, the share of the entry
  commission, duplicated and undeliverable close requests, submission identities, the event queue and
  the trade counts of the results.
\<close>

section \<open>Round trips\<close>

lemma no_exit_fee [simp]:
  "exit_commission_for_side default_fees side px q cs = 0" "swap_for_side default_fees side px q cs pt d = 0"
  by (simp_all add: default_fees_def exit_commission_for_side_def exit_commission_def asf_for_side_def
      swap_for_side_def swf_for_side_def calculate_swap_def calculate_with_contract_def Let_def split: OrderSide.split)

text \<open>A whole amount.\<close>

definition money :: "int \<Rightarrow> f64" where
  "money n = Fin (of_int n)"

lemma money_zero: "(0::f64) = money 0"
  by (simp add: zero_f64_def money_def)

lemma money_arith:
  "\<bar>m + n\<bar> \<le> 2 ^ 53 \<Longrightarrow> money m + money n = money (m + n)"
  "\<bar>m - n\<bar> \<le> 2 ^ 53 \<Longrightarrow> money m - money n = money (m - n)"
  "\<bar>m * n\<bar> \<le> 2 ^ 53 \<Longrightarrow> money m * money n = money (m * n)"
  unfolding money_def by (rule fint_arith; assumption)+

lemma money_order: "money m \<le> 0 \<longleftrightarrow> m \<le> 0" "money n \<le> money n" "fmin (money n) (money n) = money n"
  by (simp_all add: money_def fmin_def)

definition signed_gain :: "OrderSide \<Rightarrow> int \<Rightarrow> int \<Rightarrow> int \<Rightarrow> int" where
  "signed_gain side entry exit n = (case side of Buy \<Rightarrow> (exit - entry) * n | Sell \<Rightarrow> (entry - exit) * n)"

text \<open>Whole units below \<open>2\<^sup>5\<^sup>3\<close>: every intermediate result of the settlement is exact.\<close>

definition exact_range :: "int \<Rightarrow> OrderSide \<Rightarrow> int \<Rightarrow> int \<Rightarrow> int \<Rightarrow> bool" where
  "exact_range cash side entry exit n \<longleftrightarrow> (\<forall>v \<in> {entry * n, cash - entry * n, entry - exit, exit - entry,
      signed_gain side entry exit n, entry * n + signed_gain side entry exit n,
      cash + signed_gain side entry exit n}. \<bar>v\<bar> \<le> 2 ^ 53)"

lemma close_figures_whole:
  assumes "as_fees (ord_asset order) = default_fees" "pos_avg_entry_price p = money entry" "pos_qty p = money n"
    "pos_side p = side" "0 < n" "exact_range cash side entry exit n"
  shows "cpr_qty (close_figures order p (money exit) (money n) t) = money n"
    "cpr_gross_pnl (close_figures order p (money exit) (money n) t) = money (signed_gain side entry exit n)"
    "cpr_swap (close_figures order p (money exit) (money n) t) = money 0"
    "cpr_exit_commission (close_figures order p (money exit) (money n) t) = money 0"
    "cpr_fully_closed (close_figures order p (money exit) (money n) t)"
  using assms
  by (auto simp: close_figures_def Let_def money_order money_zero [symmetric] exact_range_def signed_gain_def money_arith
      split: OrderSide.splits)

text \<open>C13: On an account without leverage a fee-free round trip in whole units, with all amounts within the exact range of \<open>2 ^ 53\<close>,
  settles exactly: opening a position and closing it in full changes the cash by the price difference times the quantity, with
  the sign of the side.\<close>

theorem round_trip_cash_exact:
  assumes "acc_cash (pb_account b) = money cash" "pb_leverage b \<le> 1"
    and "as_fees (ord_asset order) = default_fees" "ord_commission order = Some 0"
      "ord_filled_qty order = money n" "ord_side order = side" "0 < n"
    and "exact_range cash side entry exit n"
  shows "acc_cash (pb_account (snd (close_position_for_order order (money exit) (money n) t
      (open_position order (money entry) b)))) = money (cash + signed_gain side entry exit n)"
proof -
  let ?b = "open_position order (money entry) b" and ?p = "opened_position b order (money entry)"
  let ?r = "close_figures order ?p (money exit) (money n) t"
  have pos: "position_at ?b (as_symbol (ord_asset order)) (ord_order_id order) = Some ?p" by simp
  have p: "pos_avg_entry_price ?p = money entry" "pos_qty ?p = money n" "pos_side ?p = side"
    using assms(5,6) by (simp_all add: opened_position_def)
  note r = close_figures_whole [OF assms(3) p assms(7,8), of t]
  have m: "margin_of c x = x" if "pb_leverage c \<le> 1" for c x using that by (simp add: margin_of_def)
  have b1: "\<bar>entry * n\<bar> \<le> 2 ^ 53" "\<bar>cash - entry * n\<bar> \<le> 2 ^ 53"
    "\<bar>entry * n + signed_gain side entry exit n\<bar> \<le> 2 ^ 53" "\<bar>cash + signed_gain side entry exit n\<bar> \<le> 2 ^ 53"
    using assms(8) by (auto simp: exact_range_def)
  have cash1: "acc_cash (pb_account ?b) = money (cash - entry * n)"
    using assms(1,2,4,5) b1 by (simp add: m money_arith money_zero)
  have "acc_cash (pb_account (snd (close_position_for_order order (money exit) (money n) t ?b)))
      = acc_cash (pb_account ?b) + (margin_of ?b (money entry * money n) + money (signed_gain side entry exit n)
          + money 0 - money 0)"
    using close_position_Some(3) [OF pos refl, of "money exit" "money n" t]
    by (simp add: settle_account_def Let_def r p)
  also have "\<dots> = money (cash - entry * n) + money (entry * n + signed_gain side entry exit n)"
    using assms(2) b1 unfolding cash1 by (simp add: m money_arith)
  also have "\<dots> = money (cash + signed_gain side entry exit n)"
    using money_arith(1) [of "cash - entry * n" "entry * n + signed_gain side entry exit n"] b1 by simp
  finally show ?thesis .
qed

theorem round_trip_cash_exact_witness:
  "acc_cash (pb_account (snd (close_position_for_order (sample_entry\<lparr>ord_commission := Some 0, ord_filled_qty := money 2\<rparr>)
      (money 110) (money 2) 0 (open_position (sample_entry\<lparr>ord_commission := Some 0, ord_filled_qty := money 2\<rparr>) (money 100) sample_new))))
    = money (1000 + signed_gain Buy 100 110 2)"
  by (rule round_trip_cash_exact)
    (simp_all add: sample_entry_facts sample_new_def paper_new_def exact_range_def signed_gain_def money_def)

section \<open>Commission shares\<close>

text \<open>Closing part of a position charges a share of its entry commission that is neither negative nor
  more than the commission the position still carries, and never closes more than the position.\<close>

theorem close_share_bounded:
  assumes "qty_ok p" "pos_entry_commission p = Fin c" "representable c" "0 \<le> c"
  shows "let r = close_figures order p px qty t in 0 \<le> cpr_entry_commission r
    \<and> cpr_entry_commission r \<le> pos_entry_commission p \<and> 0 \<le> cpr_qty r \<and> cpr_qty r \<le> pos_qty p"
proof -
  let ?r = "close_figures order p px qty t"
  obtain x where x: "pos_qty p = Fin x" "0 \<le> x" using assms(1) by (auto simp: qty_ok_def)
  note q = close_figures_qty [OF assms(1), of order px qty t]
  obtain y where y: "cpr_qty ?r = Fin y" "0 \<le> y" "y \<le> x" using q x by (cases "cpr_qty ?r") auto
  have ec: "cpr_entry_commission ?r = (if EPSILON < pos_qty p
      then pos_entry_commission p * (cpr_qty ?r / pos_qty p) else 0)"
    by (simp add: close_figures_def Let_def)
  have "0 \<le> cpr_entry_commission ?r \<and> cpr_entry_commission ?r \<le> pos_entry_commission p"
  proof (cases "EPSILON < pos_qty p")
    case True
    then have pos: "0 < x" using x by (simp add: EPSILON_def)
    have "0 \<le> rnd (y / x)" "rnd (y / x) \<le> Fin 1"
      using y pos by (auto intro!: rnd_nonneg rnd_le_one simp: divide_le_eq)
    then obtain z where z: "rnd (y / x) = Fin z" "0 \<le> z" "z \<le> 1" by (cases "rnd (y / x)") auto
    have "cpr_entry_commission ?r = Fin c * Fin z" using True y x pos z by (simp add: ec assms(2) f64_fin_arith)
    moreover have "Fin c * Fin z \<le> Fin c" using fmult_le_self [OF assms(3,4)] z by simp
    moreover have "0 \<le> Fin c * Fin z" using assms(4) z by (intro fmult_nonneg) auto
    ultimately show ?thesis by (simp add: assms(2))
  qed (use assms(2,4) in \<open>simp add: ec fle_refl\<close>)
  then show ?thesis using q by (simp add: Let_def)
qed

theorem close_share_bounded_witness:
  "let p = (opened_position sample_new sample_entry (Fin 100))\<lparr>pos_qty := Fin 2, pos_entry_commission := Fin 3\<rparr>;
       r = close_figures sample_entry p (Fin 110) (Fin 1) 0 in 0 \<le> cpr_entry_commission r
    \<and> cpr_entry_commission r \<le> pos_entry_commission p \<and> 0 \<le> cpr_qty r \<and> cpr_qty r \<le> pos_qty p"
proof -
  have "representable (of_int 2)" "representable (of_int 3)" by (rule representable_int; simp)+
  then show ?thesis
    unfolding Let_def
    by (intro close_share_bounded [of _ 3, unfolded Let_def]) (auto simp: qty_ok_def)
qed

section \<open>Close requests\<close>

lemma settled_position:
  assumes "order_at b oid = Some order" "ord_order_id order = oid"
    "hm_get bars (as_symbol (ord_asset order)) = Some bar"
    "position_at b (as_symbol (ord_asset order)) oid = Some p"
    and r: "r = close_figures order p (unwrap_or price (bar_close bar)) qty t"
  shows "position_at (process_close_request bars t ts (oid, qty, price) b) (as_symbol (ord_asset order)) oid
      = (if cpr_fully_closed r then None else Some (reduce_position b r p))"
    and "\<exists>order'. order_at (process_close_request bars t ts (oid, qty, price) b) oid = Some order'
      \<and> ord_order_id order' = oid \<and> ord_asset order' = ord_asset order
      \<and> (cpr_fully_closed r \<or> fmax (ord_qty order - cpr_qty r) 0 \<le> EPSILON \<longrightarrow> ord_status order' = Closed)"
proof -
  let ?px = "unwrap_or price (bar_close bar)"
  let ?b1 = "snd (close_position_for_order order ?px qty t b)"
  let ?s = "settle_close oid ?px t ts r order ?b1"
  note eq = close_request_settles [OF assms(1-4) refl refl r, of ts]
  have "position_at (process_close_request bars t ts (oid, qty, price) b) = position_at ?b1"
    unfolding eq by (rule position_at_cong) (simp add: case_prod_beta settle_close_frame)
  then show "position_at (process_close_request bars t ts (oid, qty, price) b) (as_symbol (ord_asset order)) oid
      = (if cpr_fully_closed r then None else Some (reduce_position b r p))"
    using close_position_Some(2) [of b order p r ?px qty t] assms(2,4) r by simp
  have "pb_orders (process_close_request bars t ts (oid, qty, price) b) = pb_orders (snd ?s)"
    unfolding eq by (simp add: case_prod_beta)
  then have "order_at (process_close_request bars t ts (oid, qty, price) b) oid = Some (settled_order ?b1 ?px ts r order)"
    using assms(1) by (simp add: settle_close_orders)
  then show "\<exists>order'. order_at (process_close_request bars t ts (oid, qty, price) b) oid = Some order'
      \<and> ord_order_id order' = oid \<and> ord_asset order' = ord_asset order
      \<and> (cpr_fully_closed r \<or> fmax (ord_qty order - cpr_qty r) 0 \<le> EPSILON \<longrightarrow> ord_status order' = Closed)"
    using assms(2) by (auto simp: settled_order_def Let_def)
qed

text \<open>A duplicated close request settles once: when the first copy closes the whole position, the
  second changes nothing, in particular it emits no event and moves no cash.\<close>

theorem duplicate_close_settles_once:
  assumes "reachable b" "order_at b oid = Some order"
    and "get_position_by_order_id b oid (as_symbol (ord_asset order)) = Some p"
    and "qty \<le> 0 \<or> pos_qty p \<le> qty" "hm_get bars (as_symbol (ord_asset order)) = Some bar"
  shows "process_close_request bars t ts (oid, qty, price) (process_close_request bars t ts (oid, qty, price) b)
    = process_close_request bars t ts (oid, qty, price) b"
proof -
  have core: "core (order_at b) (position_at b) (pb_pending_orders b) (active b)"
    using reachable_inv [OF assms(1)] by (simp add: paper_inv_def core_of_def)
  have id: "ord_order_id order = oid" using coreD(4) [OF core assms(2)] by (simp add: order_ok_def)
  have p: "position_at b (as_symbol (ord_asset order)) oid = Some p" using assms(3) by (simp add: position_at_def)
  have q: "qty_ok p" by (rule coreD(5) [OF core p])
  then have "pos_qty p \<noteq> NaN" by (auto simp: qty_ok_def)
  then have full: "cpr_fully_closed (close_figures order p (unwrap_or price (bar_close bar)) qty t)"
    using assms(4) fmin_greatest [of "pos_qty p" qty "pos_qty p"] by (auto simp: close_figures_def Let_def fle_refl)
  let ?b = "process_close_request bars t ts (oid, qty, price) b"
  note S = settled_position [OF assms(2) id assms(5) p refl, where qty = qty and t = t and ts = ts and price = price]
  show ?thesis
  proof (rule close_request_idle)
    fix o1 assume "order_at ?b oid = Some o1"
    then have "ord_order_id o1 = oid" "ord_asset o1 = ord_asset order" using S(2) by auto
    then show "ord_order_id o1 = oid \<and> (hm_get bars (as_symbol (ord_asset o1)) = None
        \<or> position_at ?b (as_symbol (ord_asset o1)) oid = None)"
      using S(1) full by simp
  qed
qed

lemma sample_filled_position:
  "\<exists>p. get_position_by_order_id sample_filled ''o1'' ''X'' = Some p"
proof -
  have "core (order_at sample_filled) (position_at sample_filled) (pb_pending_orders sample_filled) (active sample_filled)"
    using reachable_inv [OF sample_reachable(2)] by (simp add: paper_inv_def core_of_def)
  from coreD(4) [OF this sample_filled_order] show ?thesis
    by (auto simp: order_ok_def position_at_def sample_entry_facts)
qed

theorem duplicate_close_settles_once_witness:
  "process_close_request sample_bar_map 0 0 (''o1'', 0, None) (process_close_request sample_bar_map 0 0 (''o1'', 0, None) sample_filled)
    = process_close_request sample_bar_map 0 0 (''o1'', 0, None) sample_filled"
proof -
  obtain p where p: "get_position_by_order_id sample_filled ''o1'' ''X'' = Some p" using sample_filled_position by blast
  show ?thesis
    by (rule duplicate_close_settles_once [OF sample_reachable(2) sample_filled_order,
          where p = p and bar = "price_bar 100 103 97 101"])
      (simp_all add: sample_entry_facts p sample_bar_map_def hm_get_def zero_f64_def)
qed

text \<open>A close request whose symbol has no bar in the step is dropped: the request leaves the queue and
  nothing else changes, although the caller was told that it was accepted.\<close>

theorem close_without_bar_is_dropped:
  assumes "order_at b oid = Some order" "hm_get bars (as_symbol (ord_asset order)) = None"
    and "pb_close_orders_queue b = [(oid, qty, price)]"
  shows "process_close_queue bars t ts b = b\<lparr>pb_close_orders_queue := []\<rparr>"
  using assms by (simp add: process_close_queue_def process_close_request_def)


theorem close_without_bar_is_dropped_witness:
  "process_close_queue [] 0 0 (sample_submitted\<lparr>pb_close_orders_queue := [(''o1'', Fin 1, None)]\<rparr>)
    = sample_submitted\<lparr>pb_close_orders_queue := [(''o1'', Fin 1, None)], pb_close_orders_queue := []\<rparr>"
  by (rule close_without_bar_is_dropped [where oid = "''o1''" and order = sample_entry and qty = "Fin 1" and price = None])
    (simp_all add: sample_submitted_facts hm_get_def)

section \<open>Submission identities\<close>

text \<open>C38: A client order identity is accepted once: submitting a request under an identity the broker
  already stores is refused with the identity error, whatever the request asks for, and leaves the orders,
  the pending queue, the positions, the account and the event queue as they are.\<close>

theorem duplicate_submission_refused:
  assumes "order_at b (req_client_order_id req) = Some order"
    and "req_quantity req = Some qty" "is_finite qty" "0 < qty"
  shows "fst (submit_order req b) = Inl duplicate_identity
    \<and> pb_orders (snd (submit_order req b)) = pb_orders b
    \<and> pb_pending_orders (snd (submit_order req b)) = pb_pending_orders b
    \<and> pb_positions (snd (submit_order req b)) = pb_positions b
    \<and> pb_account (snd (submit_order req b)) = pb_account b
    \<and> pb_trade_events (snd (submit_order req b)) = pb_trade_events b"
proof -
  obtain asset b1 where r1: "request_asset (req_symbol req) b = (asset, b1)" by (metis surj_pair)
  obtain legs b2 where r2: "request_legs req (current_time_ts b) b1 = (legs, b2)" by (metis surj_pair)
  obtain n where b2: "b2 = b\<lparr>pb_draws := n\<rparr>" using request_frame [OF r1 r2] by blast
  have "\<not> qty \<le> 0" using assms(4) by (cases qty) (auto simp: zero_f64_def)
  then have "submit_order req b = (Inl duplicate_identity, b2)"
    using assms by (simp add: submit_order_def r1 r2 b2)
  then show ?thesis by (simp add: b2)
qed

theorem duplicate_submission_refused_witness:
  "fst (submit_order sample_request sample_submitted) = Inl duplicate_identity
    \<and> pb_orders (snd (submit_order sample_request sample_submitted)) = pb_orders sample_submitted
    \<and> pb_pending_orders (snd (submit_order sample_request sample_submitted)) = pb_pending_orders sample_submitted
    \<and> pb_positions (snd (submit_order sample_request sample_submitted)) = pb_positions sample_submitted
    \<and> pb_account (snd (submit_order sample_request sample_submitted)) = pb_account sample_submitted
    \<and> pb_trade_events (snd (submit_order sample_request sample_submitted)) = pb_trade_events sample_submitted"
  by (rule duplicate_submission_refused [where order = sample_entry and qty = "Fin 2"])
    (simp_all add: sample_submitted_facts sample_request_def hm_get_def zero_f64_def)

section \<open>The event queue\<close>

lemma release_keeps_events [simp]: "pb_trade_events (release_terminal_orders b) = pb_trade_events b"
  by (simp add: release_terminal_orders_def Let_def)

text \<open>Draining the event queue in two batches delivers the events of one larger batch in the same order
  and leaves the same broker, so a consumer may choose any batch size.\<close>

theorem drain_in_batches:
  "(case drain_execution_events n b of (es, b1) \<Rightarrow> (case drain_execution_events m b1 of (fs, b2) \<Rightarrow> (es @ fs, b2)))
    = drain_execution_events (n + m) b"
proof (cases "n < length (pb_trade_events b)")
  case True
  then show ?thesis
    by (cases "n + m < length (pb_trade_events b)")
      (auto simp: drain_execution_events_def Let_def min_def take_add less_diff_conv2 add.commute [of m n])
next
  case False
  then show ?thesis by (auto simp: drain_execution_events_def Let_def)
qed

text \<open>A terminal order stays readable until its consumer has taken every queued event: a drain that
  leaves an event in the queue keeps all orders, and the drain that empties a non-empty queue releases
  exactly the orders marked for release.\<close>

theorem drain_releases_after_last_event:
  assumes "pb_trade_events b \<noteq> []"
  shows "order_at (snd (drain_execution_events n b)) oid =
    (if n < length (pb_trade_events b) then order_at b oid
     else if oid \<in> set (pb_terminal_orders_pending_release b) then None else order_at b oid)"
  using assms by (auto simp: drain_execution_events_def release_terminal_orders_def Let_def hm_get_fold_remove min_def)

theorem drain_releases_after_last_event_witness:
  "order_at (snd (drain_execution_events 1 sample_submitted)) ''o1'' =
    (if 1 < length (pb_trade_events sample_submitted) then order_at sample_submitted ''o1''
     else if ''o1'' \<in> set (pb_terminal_orders_pending_release sample_submitted) then None else order_at sample_submitted ''o1'')"
proof -
  have "pb_trade_events sample_submitted \<noteq> []"
    by (simp add: sample_submitted_def submit_order_def sample_request_def request_asset_def new_v4_def
        request_legs_def submission_rejection_def request_order_def emit_trade_event_def emit_execution_event_def Let_def
        sample_new_def paper_new_def hm_insert_def hm_get_def current_time_ts_def utc_now_def)
  then show ?thesis by (rule drain_releases_after_last_event)
qed

section \<open>Trade counts\<close>

text \<open>An entry of two units with a partial exit at a gain and one at a larger loss.\<close>

definition exit_pair :: "TradeRecord \<Rightarrow> TradeRecord list" where
  "exit_pair entry = [entry, entry\<lparr>tr_trade_type := ExitTrade, tr_qty := Fin 1, tr_price := Fin 101\<rparr>,
     entry\<lparr>tr_trade_type := ExitTrade, tr_qty := Fin 1, tr_price := Fin 98\<rparr>]"

text \<open>The results count a trade at the first exit of its order and with the quantity of its entry: one
  unit sold at a gain before another is sold at twice the loss is reported as one winning trade.\<close>

theorem partial_exits_counted_as_win:
  "count_trades (exit_pair (r\<lparr>tr_trade_type := EntryTrade, tr_side := Buy, tr_qty := Fin 2, tr_price := Fin 100\<rparr>)) [] 0 0
    = (1, 0)"
proof -
  have "Fin 101 - Fin 100 = Fin 1" "Fin 1 * Fin 2 = Fin 2"
    using fint_arith(2) [of 101 100] fint_arith(3) [of 1 2] by simp_all
  then show ?thesis
    by (simp add: exit_pair_def hm_simps hm_insert_def hm_remove_def hm_get_def Let_def zero_f64_def)
qed

end
