(* ===== verification/PaperRequests.thy ===== *)
theory PaperRequests
  imports PaperClose
begin

text \<open>
  The requests a strategy sends to the paper broker: what each accepts, what it refuses and what it
  leaves alone; and the bar loop of \<open>UnifiedBroker::step\<close>.
\<close>

section \<open>Protective targets\<close>

text \<open>An order without what the update of one protective leg may change.\<close>

definition sans_leg :: "(OrderLegs \<Rightarrow> OrderLegs) \<Rightarrow> Order \<Rightarrow> Order" where
  "sans_leg erase order = order\<lparr>ord_legs := map_option erase (ord_legs order), ord_updated_at := 0\<rparr>"

abbreviation sans_take_profit :: "Order \<Rightarrow> Order" where
  "sans_take_profit \<equiv> sans_leg (\<lambda>legs. legs\<lparr>legs_take_profit := None\<rparr>)"

abbreviation sans_stop_loss :: "Order \<Rightarrow> Order" where
  "sans_stop_loss \<equiv> sans_leg (\<lambda>legs. legs\<lparr>legs_stop_loss := None\<rparr>)"

lemma update_first_erased:
  assumes "\<And>v v'. f v = Some v' \<Longrightarrow> g v' = g v" "update_first f m = Some m'"
  shows "map_option g (hm_get m' k) = map_option g (hm_get m k)"
  using update_first_view [OF assms(2)]
proof
  assume "\<exists>k v v'. hm_get m k = Some v \<and> f v = Some v' \<and> (\<forall>j. hm_get m' j = (if j = k then Some v' else hm_get m j))"
  then obtain i v v' where "hm_get m i = Some v" "f v = Some v'"
    "\<And>j. hm_get m' j = (if j = i then Some v' else hm_get m j)" by blast
  then show ?thesis using assms(1) by simp
qed simp

lemma update_protective_frame:
  assumes "\<And>l legs. erase (put l legs) = erase legs"
    and "b' = snd (update_protective get put e1 e2 e3 e4 oid price b)"
  shows "b' = b\<lparr>pb_orders := pb_orders b'\<rparr>"
    and "map_option (sans_leg erase) (order_at b' k) = map_option (sans_leg erase) (order_at b k)"
proof -
  let ?f = "update_order_by_leg get put oid price (current_time_ts b)"
  have f: "sans_leg erase v' = sans_leg erase v" if "?f v = Some v'" for v v'
    using that assms(1) by (auto simp: update_order_by_leg_def sans_leg_def split: option.splits)
  have put: "sans_leg erase (order\<lparr>ord_legs := map_option (put l) (ord_legs order), ord_updated_at := ts\<rparr>) = sans_leg erase order"
    for order l ts using assms(1) by (simp add: sans_leg_def option.map_comp comp_def)
  have u: "map_option (sans_leg erase) (hm_get m' k) = map_option (sans_leg erase) (hm_get m k)"
    if "update_first ?f m = Some m'" for m m' using update_first_erased [where g = "sans_leg erase", OF f that] .
  show "b' = b\<lparr>pb_orders := pb_orders b'\<rparr>"
    unfolding assms(2) by (simp add: update_protective_def Let_def put_order_def split: option.split)
  show "map_option (sans_leg erase) (order_at b' k) = map_option (sans_leg erase) (order_at b k)"
    unfolding assms(2) by (auto simp: update_protective_def Let_def put split: option.split dest: u)
qed

text \<open>Moving a take-profit or a stop-loss never touches the size of anything: whatever the request, it
  leaves the positions, the account, the queues and the events alone, and every order keeps its
  quantities, status, entry prices and other legs; only the addressed kind of leg may change.\<close>

theorem protective_update_keeps_size:
  "(let b' = snd (update_take_profit oid price b) in b' = b\<lparr>pb_orders := pb_orders b'\<rparr>
      \<and> map_option sans_take_profit (order_at b' k) = map_option sans_take_profit (order_at b k))
   \<and> (let b' = snd (update_stop_loss oid price b) in b' = b\<lparr>pb_orders := pb_orders b'\<rparr>
      \<and> map_option sans_stop_loss (order_at b' k) = map_option sans_stop_loss (order_at b k))"
  unfolding Let_def update_take_profit_def update_stop_loss_def
  by (intro conjI; rule update_protective_frame [OF _ refl]) simp_all

section \<open>Amending and replacing entries\<close>

text \<open>Replacing an order succeeds exactly for a stored order that is still pending with a positive finite
  price and quantity; then only its limit price, quantity and time change.  A refused request changes nothing.\<close>

theorem replace_order_contract:
  "(fst (replace_order oid price qty b) = Inr True \<longleftrightarrow> (\<exists>order. order_at b oid = Some order
       \<and> is_pending_status (ord_status order) \<and> is_finite price \<and> 0 < price \<and> is_finite qty \<and> 0 < qty))
   \<and> snd (replace_order oid price qty b) = (case order_at b oid of None \<Rightarrow> b
     | Some order \<Rightarrow> if is_pending_status (ord_status order) \<and> is_finite price \<and> 0 < price \<and> is_finite qty \<and> 0 < qty
         then put_order (order\<lparr>ord_limit_price := Some price, ord_qty := qty, ord_updated_at := current_time_ts b\<rparr>) oid b
         else b)"
proof -
  have np: "bad_price p \<longleftrightarrow> \<not> (is_finite p \<and> 0 < p)" for p
    by (cases p) (auto simp: bad_price_def zero_f64_def)
  have "fst (replace_order oid price qty b) = Inr True \<longleftrightarrow> (\<exists>order. order_at b oid = Some order
       \<and> is_pending_status (ord_status order) \<and> is_finite price \<and> 0 < price \<and> is_finite qty \<and> 0 < qty)"
    by (auto simp: replace_order_def np split: option.split)
  moreover have "snd (replace_order oid price qty b) = (case order_at b oid of None \<Rightarrow> b
     | Some order \<Rightarrow> if is_pending_status (ord_status order) \<and> is_finite price \<and> 0 < price \<and> is_finite qty \<and> 0 < qty
         then put_order (order\<lparr>ord_limit_price := Some price, ord_qty := qty, ord_updated_at := current_time_ts b\<rparr>) oid b
         else b)"
    by (auto simp: replace_order_def np split: option.split)
  ultimately show ?thesis by blast
qed

section \<open>Cancelling\<close>

lemma emit_events: "\<exists>ev. pb_trade_events (emit_trade_event order event b) = pb_trade_events b @ [ev] \<and> ev_event ev = (order, event)"
  by (auto simp: emit_trade_event_def emit_execution_event_def new_v4_def utc_now_def Let_def split: option.split)

text \<open>Cancelling a stored order that is neither filled nor closed always succeeds, also when the order is
  already cancelled or rejected: it sets the status, queues one further Cancelled event and marks the order
  for release; cancelling a filled or closed order is refused and changes nothing.\<close>

theorem cancel_order_contract:
  assumes "order_at b oid = Some order"
  shows "if ord_status order = Filled \<or> ord_status order = Closed
    then cancel_order oid b = (Inl (OrderCancellationError ''Cannot cancel filled/closed order''), b)
    else (let b' = snd (cancel_order oid b); order' = order\<lparr>ord_status := Cancelled, ord_updated_at := current_time_ts b\<rparr>
      in fst (cancel_order oid b) = Inr True \<and> order_at b' oid = Some order'
        \<and> (\<exists>ev. pb_trade_events b' = pb_trade_events b @ [ev] \<and> ev_event ev = (order', Cancelled))
        \<and> oid \<in> set (pb_terminal_orders_pending_release b') \<and> pb_positions b' = pb_positions b \<and> pb_account b' = pb_account b)"
proof (cases "ord_status order = Filled \<or> ord_status order = Closed")
  case False
  let ?o = "order\<lparr>ord_status := Cancelled, ord_updated_at := current_time_ts b\<rparr>"
  let ?b = "emit_trade_event ?o Cancelled (put_order ?o oid b)"
  obtain ev where ev: "pb_trade_events ?b = pb_trade_events b @ [ev]" "ev_event ev = (?o, Cancelled)"
    using emit_events [of ?o Cancelled "put_order ?o oid b"] by auto
  have "cancel_order oid b = (Inr True, mark_order_terminal_for_release oid ?b)"
    using assms False by (simp add: cancel_order_def Let_def)
  then show ?thesis
    using False ev assms by (simp add: Let_def emit_trade_event_def mark_order_terminal_for_release_def)
qed (use assms in \<open>auto simp: cancel_order_def\<close>)

theorem cancel_order_contract_witness:
  "let b' = snd (cancel_order ''o1'' sample_submitted);
       order' = sample_entry\<lparr>ord_status := Cancelled, ord_updated_at := current_time_ts sample_submitted\<rparr>
   in fst (cancel_order ''o1'' sample_submitted) = Inr True \<and> order_at b' ''o1'' = Some order'
     \<and> (\<exists>ev. pb_trade_events b' = pb_trade_events sample_submitted @ [ev] \<and> ev_event ev = (order', Cancelled))"
  using cancel_order_contract [of sample_submitted "''o1''" sample_entry]
  by (simp add: sample_submitted_facts sample_entry_facts hm_get_def Let_def)

section \<open>Closing\<close>

text \<open>A close request on a reachable broker is accepted only for a stored order with an open position;
  then it queues exactly one request, for a positive quantity of at most the position's.  A refused request
  changes nothing.\<close>

theorem close_position_contract:
  assumes "reachable b"
  shows "(fst (close_position oid qty price b) = Inr True
      \<and> (\<exists>order p q. order_at b oid = Some order
          \<and> get_position_by_order_id b oid (as_symbol (ord_asset order)) = Some p \<and> 0 < q \<and> q \<le> pos_qty p
          \<and> snd (close_position oid qty price b) = b\<lparr>pb_close_orders_queue := pb_close_orders_queue b @ [(oid, q, price)]\<rparr>))
    \<or> (\<exists>e. close_position oid qty price b = (Inl e, b))"
proof -
  have core: "core (order_at b) (position_at b) (pb_pending_orders b) (active b)"
    using reachable_inv [OF assms] by (simp add: paper_inv_def core_of_def)
  have q: "0 < q \<and> q \<le> pos_qty p"
    if "position_at b s oid = Some p" "q = (if qty \<le> 0 then pos_qty p else fmin qty (pos_qty p))" "\<not> q \<le> 0" for s p q
  proof -
    have "pos_qty p \<noteq> NaN" using coreD(5) [OF core that(1)] by (auto simp: qty_ok_def)
    then show ?thesis using that(2,3) fmin_le(1) [of "pos_qty p" qty]
      by (cases q; cases "pos_qty p") (auto simp: zero_f64_def fmin_def split: if_splits)
  qed
  show ?thesis
  proof (cases "\<exists>e. close_position oid qty price b = (Inl e, b)")
    case False
    then obtain order book p where op: "order_at b oid = Some order" "hm_get (pb_positions b) (as_symbol (ord_asset order)) = Some book"
      "hm_get book oid = Some p" "\<not> (if qty \<le> 0 then pos_qty p else fmin qty (pos_qty p)) \<le> 0"
      by (auto simp: close_position_def Let_def split: option.splits if_splits)
    then have pos: "position_at b (as_symbol (ord_asset order)) oid = Some p" by (simp add: position_at_book)
    let ?q = "if qty \<le> 0 then pos_qty p else fmin qty (pos_qty p)"
    have "close_position oid qty price b = (Inr True, b\<lparr>pb_close_orders_queue := pb_close_orders_queue b @ [(oid, ?q, price)]\<rparr>)"
      using op by (simp add: close_position_def Let_def)
    then show ?thesis
      using q [OF pos refl op(4)] op(1) pos unfolding position_at_def
      by (intro disjI1 conjI exI [of _ order] exI [of _ p] exI [of _ ?q]) simp_all
  qed blast
qed

theorem close_position_contract_witness:
  "(fst (close_position ''o1'' (Fin 1) None sample_filled) = Inr True
      \<and> (\<exists>order p q. order_at sample_filled ''o1'' = Some order
          \<and> get_position_by_order_id sample_filled ''o1'' (as_symbol (ord_asset order)) = Some p \<and> 0 < q \<and> q \<le> pos_qty p
          \<and> snd (close_position ''o1'' (Fin 1) None sample_filled)
              = sample_filled\<lparr>pb_close_orders_queue := pb_close_orders_queue sample_filled @ [(''o1'', q, None)]\<rparr>))
    \<or> (\<exists>e. close_position ''o1'' (Fin 1) None sample_filled = (Inl e, sample_filled))"
  by (rule close_position_contract [OF sample_reachable(2)])

text \<open>A partial close that leaves no more than the machine epsilon closes the order but not the position:
  the order is Closed, so it will be released and no further close request can address it, while the rest of
  the position stays open.\<close>

theorem dust_close_orphans_position:
  assumes "reachable b" "order_at b oid = Some order" "ord_status order = Filled"
    and "hm_get bars (as_symbol (ord_asset order)) = Some bar"
    and "0 < qty" "qty < ord_qty order" "ord_qty order - qty \<le> EPSILON"
  shows "let b' = process_close_request bars t ts (oid, qty, price) b
    in (\<exists>order'. order_at b' oid = Some order' \<and> ord_status order' = Closed)
     \<and> (\<exists>p. get_position_by_order_id b' oid (as_symbol (ord_asset order)) = Some p)"
proof -
  have core: "core (order_at b) (position_at b) (pb_pending_orders b) (active b)"
    using reachable_inv [OF assms(1)] by (simp add: paper_inv_def core_of_def)
  note ok = coreD(4) [OF core assms(2)]
  have id: "ord_order_id order = oid" using ok by (simp add: order_ok_def)
  obtain p where p: "position_at b (as_symbol (ord_asset order)) oid = Some p" "pos_qty p = ord_qty order"
    using ok assms(3) by (auto simp: order_ok_def)
  let ?r = "close_figures order p (unwrap_or price (bar_close bar)) qty t"
  have n: "\<not> qty \<le> 0" "fmin qty (pos_qty p) = qty" "\<not> pos_qty p \<le> qty"
    using assms(5,6) unfolding p(2) by (cases qty; cases "ord_qty order"; auto simp: zero_f64_def fmin_def)+
  then have r: "cpr_qty ?r = qty" "\<not> cpr_fully_closed ?r" by (simp_all add: close_figures_def Let_def)
  have "fmax (ord_qty order - cpr_qty ?r) 0 \<le> EPSILON"
    unfolding r by (rule fmax_least [OF assms(7)]) (simp add: EPSILON_def)
  with settled_position [OF assms(2) id assms(4) p(1) refl, where qty = qty and t = t and ts = ts and price = price] r(2)
  show ?thesis by (auto simp: Let_def position_at_def)
qed

theorem dust_close_orphans_position_witness:
  "let b' = process_close_request sample_bar_map 0 0 (''o1'', Fin (2 - 1 / 2 ^ 52), None) sample_filled
    in (\<exists>order'. order_at b' ''o1'' = Some order' \<and> ord_status order' = Closed)
     \<and> (\<exists>p. get_position_by_order_id b' ''o1'' ''X'' = Some p)"
proof -
  have "representable (1 / 2 ^ 52)" by code_simp
  then have "Fin 2 - Fin (2 - 1 / 2 ^ 52) = Fin (1 / 2 ^ 52)" by (simp add: f64_fin_arith rnd_exact)
  then show ?thesis
    using dust_close_orphans_position [OF sample_reachable(2) sample_filled_order,
        of sample_bar_map "price_bar 100 103 97 101" "Fin (2 - 1 / 2 ^ 52)" 0 0 None]
    by (simp add: sample_entry_facts sample_bar_map_def hm_get_def EPSILON_def)
qed

section \<open>The bar loop\<close>

text \<open>The bar loop stops one bar early: when every symbol's cursor stands on its last bar,
  \<open>UnifiedBroker::step\<close> reports the end without having processed these bars.\<close>

theorem step_skips_last_bar:
  assumes "pb_backtest_state b = Some st"
    and "\<And>symbol idx. (symbol, idx) \<in> set (bt_bar_indices st)
      \<Longrightarrow> \<exists>bars. hm_get (bt_historical_bars st) symbol = Some bars \<and> Suc idx = length bars"
  shows "unified_step b = (Inr None, b)"
proof -
  have "is_complete st" using assms(2) by (fastforce simp: is_complete_def list_all_iff split: option.split)
  then show ?thesis using assms(1) by (simp add: unified_step_def)
qed

theorem step_skips_last_bar_witness:
  "unified_step (set_backtest_state (load_bars ''X'' [price_bar 100 103 97 101] (backtest_new 0)) sample_submitted)
    = (Inr None, set_backtest_state (load_bars ''X'' [price_bar 100 103 97 101] (backtest_new 0)) sample_submitted)"
  by (rule step_skips_last_bar) (auto simp: set_backtest_state_def load_bars_def backtest_new_def hm_insert_def hm_get_def)

end
