(* ===== verification/PositionEvidence.thy ===== *)
theory PositionEvidence
  imports PaperRequests
begin

text \<open>
  Read-only evidence about positions: the bounded fill history of one position
  (\<open>src/core/broker/fill_history.rs\<close>), the comparison of its ledger with the broker's quantity
  (\<open>live-sync-protocol/src/position_quantity.rs\<close>), position valuations
  (\<open>live-sync-protocol/src/position_valuation.rs\<close>), and the readers of the paper broker that produce
  them (\<open>paper_broker/execution.rs\<close>, \<open>paper_broker/valuation.rs\<close>).
\<close>

section \<open>Fill histories\<close>

record PositionQuantitySnapshot =
  pqs_position_id :: string
  pqs_symbol :: string
  pqs_quantity :: f64
  pqs_side :: "ExecutionFillSide option"
  pqs_as_of_us :: int

record PositionQuantityCheck =
  pqc_definition_version :: string
  pqc_snapshot :: PositionQuantitySnapshot
  pqc_ledger_quantity :: "f64 option"
  pqc_ledger_side :: "ExecutionFillSide option"
  pqc_matched :: bool

text \<open>The clock of a history: its offset in seconds and the window in which it was declared.\<close>

datatype ExecutionHistoryClock = HistoryUtc | HistoryFixedOffset int int int

record ExecutionFillHistory =
  efh_account_id :: string
  efh_entry_order_id :: string
  efh_position_id :: string
  efh_symbol :: string
  efh_as_of_us :: int
  efh_clock :: ExecutionHistoryClock
  efh_fills :: "ExecutionFill list"
  efh_invalidations :: "ExecutionFillInvalidation list"
  efh_position_snapshot :: "PositionQuantitySnapshot option"

definition invalid_history :: BrokerError where
  "invalid_history = TradeError ''invalid or ambiguous execution fill history''"

definition bad_clock :: "ExecutionHistoryClock \<Rightarrow> bool" where
  "bad_clock clock = (case clock of HistoryUtc \<Rightarrow> False
     | HistoryFixedOffset seconds valid_from valid_through \<Rightarrow>
         14 * 3600 < \<bar>seconds\<bar> \<or> valid_from \<le> 0 \<or> valid_through < valid_from)"

definition outside_clock :: "ExecutionHistoryClock \<Rightarrow> int \<Rightarrow> bool" where
  "outside_clock clock t = (case clock of HistoryUtc \<Rightarrow> False
     | HistoryFixedOffset _ valid_from valid_through \<Rightarrow> t < valid_from \<or> valid_through < t)"

text \<open>The variables of the validation loops.\<close>

record HistoryScan =
  hs_ids :: "(string \<times> string) list"
  hs_entry_side :: "ExecutionFillSide option"
  hs_first_entry_us :: int
  hs_currency :: "string option"
  hs_entered :: f64
  hs_exited :: f64
  hs_cancelled_entry :: bool

definition scan_start :: HistoryScan where
  "scan_start = \<lparr>hs_ids = [], hs_entry_side = None, hs_first_entry_us = 2 ^ 63 - 1, hs_currency = None,
     hs_entered = 0, hs_exited = 0, hs_cancelled_entry = False\<rparr>"

definition other_side :: "ExecutionFillSide option \<Rightarrow> ExecutionFillSide \<Rightarrow> bool" where
  "other_side known s \<longleftrightarrow> (case known of None \<Rightarrow> False | Some k \<Rightarrow> k \<noteq> s)"

definition scan_fill :: "ExecutionFillHistory \<Rightarrow> string \<Rightarrow> string \<Rightarrow> string \<Rightarrow> ExecutionFill \<Rightarrow> HistoryScan \<Rightarrow> HistoryScan option" where
  "scan_fill h order symbol provider f s =
     (if fill_validate f \<noteq> Inr () then None
      else if fill_position_id f \<noteq> Some (efh_position_id h) \<or> fill_symbol f \<noteq> symbol
          \<or> fill_as_of_us f \<noteq> efh_as_of_us h \<or> fill_provider f \<noteq> provider
          \<or> (fill_provider f, fill_fill_id f) \<in> set (hs_ids s)
      then None
      else if outside_clock (efh_clock h) (fill_occurred_at_us f) then None
      else if (case (fill_cash f, hs_currency s) of (Some c, Some k) \<Rightarrow> k \<noteq> cash_currency c | _ \<Rightarrow> False) then None
      else (let s = s\<lparr>hs_ids := (fill_provider f, fill_fill_id f) # hs_ids s,
                      hs_currency := (case fill_cash f of None \<Rightarrow> hs_currency s | Some c \<Rightarrow> Some (cash_currency c))\<rparr>
            in case fill_effect f of
                 Entry \<Rightarrow> if fill_order_id f \<noteq> order \<or> other_side (hs_entry_side s) (fill_side f) then None
                          else Some (s\<lparr>hs_entry_side := Some (fill_side f),
                                 hs_first_entry_us := min (hs_first_entry_us s) (fill_occurred_at_us f),
                                 hs_entered := hs_entered s + fill_quantity f\<rparr>)
               | Exit \<Rightarrow> Some (s\<lparr>hs_exited := hs_exited s + fill_quantity f\<rparr>)
               | _ \<Rightarrow> None))"

definition scan_invalidation ::
  "ExecutionFillHistory \<Rightarrow> string \<Rightarrow> string \<Rightarrow> string \<Rightarrow> ExecutionFillInvalidation \<Rightarrow> HistoryScan \<Rightarrow> HistoryScan option" where
  "scan_invalidation h order symbol provider v s =
     (if invalidation_validate v \<noteq> Inr () then None
      else if inv_position_id v \<noteq> Some (efh_position_id h) \<or> inv_symbol v \<noteq> symbol
          \<or> inv_as_of_us v \<noteq> efh_as_of_us h \<or> inv_provider v \<noteq> provider
          \<or> (inv_provider v, inv_fill_id v) \<in> set (hs_ids s)
      then None
      else if outside_clock (efh_clock h) (inv_occurred_at_us v) then None
      else (let s = s\<lparr>hs_ids := (inv_provider v, inv_fill_id v) # hs_ids s\<rparr>
            in case inv_effect v of
                 Entry \<Rightarrow> if inv_order_id v \<noteq> order \<or> other_side (hs_entry_side s) (inv_side v) then None
                          else Some (s\<lparr>hs_entry_side := Some (inv_side v),
                                 hs_first_entry_us := min (hs_first_entry_us s) (inv_occurred_at_us v),
                                 hs_cancelled_entry := True\<rparr>)
               | Exit \<Rightarrow> Some s
               | _ \<Rightarrow> None))"

fun scan_all :: "('a \<Rightarrow> 's \<Rightarrow> 's option) \<Rightarrow> 'a list \<Rightarrow> 's \<Rightarrow> 's option" where
  "scan_all f [] s = Some s"
| "scan_all f (x # xs) s = (case f x s of None \<Rightarrow> None | Some s \<Rightarrow> scan_all f xs s)"

definition bad_snapshot :: "ExecutionFillHistory \<Rightarrow> PositionQuantitySnapshot \<Rightarrow> bool" where
  "bad_snapshot h p \<longleftrightarrow> pqs_position_id p \<noteq> efh_position_id h \<or> pqs_symbol p \<noteq> efh_symbol h
     \<or> pqs_as_of_us p \<noteq> efh_as_of_us h \<or> \<not> is_finite (pqs_quantity p) \<or> pqs_quantity p < 0
     \<or> (feq (pqs_quantity p) 0) \<noteq> (pqs_side p = None)"

definition bad_totals :: "ExecutionFillHistory \<Rightarrow> HistoryScan \<Rightarrow> bool" where
  "bad_totals h s \<longleftrightarrow> hs_entry_side s = None \<or> \<not> is_finite (hs_entered s) \<or> \<not> is_finite (hs_exited s)
     \<or> (\<not> hs_cancelled_entry s
          \<and> hs_entered s + fmax \<bar>hs_entered s\<bar> 1 * lit (1 / 1000000000) < hs_exited s)
     \<or> list_ex (\<lambda>f. fill_effect f = Exit
          \<and> (Some (fill_side f) = hs_entry_side s \<or> fill_occurred_at_us f < hs_first_entry_us s)) (efh_fills h)
     \<or> list_ex (\<lambda>v. inv_effect v = Exit
          \<and> (Some (inv_side v) = hs_entry_side s \<or> inv_occurred_at_us v < hs_first_entry_us s)) (efh_invalidations h)"

definition efh_validate :: "ExecutionFillHistory \<Rightarrow> string \<Rightarrow> string \<Rightarrow> string \<Rightarrow> BrokerError + unit" where
  "efh_validate h account order symbol =
     (if efh_account_id h \<noteq> account \<or> efh_entry_order_id h \<noteq> order \<or> efh_symbol h \<noteq> symbol
         \<or> efh_position_id h = [] \<or> 128 < length (efh_position_id h)
         \<or> (efh_fills h = [] \<and> efh_invalidations h = [])
         \<or> MAX_HISTORY_FILLS < length (efh_fills h) + length (efh_invalidations h) \<or> efh_as_of_us h \<le> 0
      then Inl invalid_history
      else case opt_or (map_option fill_provider (nth_opt (efh_fills h) 0))
                  (map_option inv_provider (nth_opt (efh_invalidations h) 0)) of
             None \<Rightarrow> Inl invalid_history
           | Some provider \<Rightarrow>
              if bad_clock (efh_clock h) then Inl invalid_history
              else (case Option.bind (scan_all (scan_fill h order symbol provider) (efh_fills h) scan_start)
                       (scan_all (scan_invalidation h order symbol provider) (efh_invalidations h)) of
                      None \<Rightarrow> Inl invalid_history
                    | Some s \<Rightarrow>
                       if bad_totals h s then Inl invalid_history
                       else (case efh_position_snapshot h of
                               None \<Rightarrow> Inr ()
                             | Some p \<Rightarrow> if bad_snapshot h p then Inl invalid_history else Inr ())))"

text \<open>The buckets of the comparison, a \<open>BTreeMap\<close>: a list of times in increasing order.\<close>

type_synonym buckets = "(int \<times> f64 \<times> f64) list"

fun bucket_update :: "int \<Rightarrow> (f64 \<times> f64 \<Rightarrow> f64 \<times> f64) \<Rightarrow> buckets \<Rightarrow> buckets" where
  "bucket_update t f [] = [(t, f (0, 0))]"
| "bucket_update t f ((k, v) # m) =
     (if t = k then (k, f v) # m else if t < k then (t, f (0, 0)) # (k, v) # m else (k, v) # bucket_update t f m)"

definition ledger_fill ::
  "ExecutionFill \<Rightarrow> buckets \<times> ExecutionFillSide option \<times> bool \<Rightarrow> buckets \<times> ExecutionFillSide option \<times> bool" where
  "ledger_fill f acc = (case acc of (m, side, ok) \<Rightarrow> (case fill_effect f of
       Entry \<Rightarrow> (bucket_update (fill_occurred_at_us f) (\<lambda>(e, x). (e + fill_quantity f, x)) m, Some (fill_side f),
                 ok \<and> \<not> other_side side (fill_side f))
     | Exit \<Rightarrow> (bucket_update (fill_occurred_at_us f) (\<lambda>(e, x). (e, x + fill_quantity f)) m, side, ok)
     | _ \<Rightarrow> (bucket_update (fill_occurred_at_us f) (\<lambda>v. v) m, side, False)))"

definition tolerance :: "f64 \<Rightarrow> f64 \<Rightarrow> f64" where
  "tolerance a b = fmax \<bar>a\<bar> \<bar>b\<bar> * lit (1 / 1000000000)"

fun ledger_loop :: "(f64 \<times> f64) list \<Rightarrow> f64 \<Rightarrow> bool \<Rightarrow> f64 \<times> bool" where
  "ledger_loop [] remaining ok = (remaining, ok)"
| "ledger_loop ((entries, exits) # bs) remaining ok =
     (let before_exit = remaining + entries;
          remaining = before_exit - exits;
          ok = (ok \<and> is_finite before_exit \<and> is_finite remaining
             \<and> (- fmax \<bar>before_exit\<bar> \<bar>exits\<bar>) * lit (1 / 1000000000) \<le> remaining);
          remaining = (if \<bar>remaining\<bar> \<le> tolerance before_exit exits then 0 else remaining)
      in ledger_loop bs remaining ok)"

definition POSITION_QUANTITY_DEFINITION :: string where
  "POSITION_QUANTITY_DEFINITION = ''aqe-owned-position-quantity-1''"

definition position_check :: "ExecutionFillHistory \<Rightarrow> PositionQuantityCheck option" where
  "position_check h =
     (if efh_validate h (efh_account_id h) (efh_entry_order_id h) (efh_symbol h) \<noteq> Inr () then None
      else case efh_position_snapshot h of
             None \<Rightarrow> None
           | Some snapshot \<Rightarrow>
              (let (m, side, ok) = fold ledger_fill (efh_fills h) ([], None, True);
                   (remaining, ok) = ledger_loop (map snd m) 0 ok;
                   ledger_side = (if ok \<and> 0 < remaining then side else None)
               in Some \<lparr>pqc_definition_version = POSITION_QUANTITY_DEFINITION, pqc_snapshot = snapshot,
                    pqc_ledger_quantity = (if ok then Some remaining else None), pqc_ledger_side = ledger_side,
                    pqc_matched = (ok \<and> ledger_side = pqs_side snapshot
                       \<and> \<bar>remaining - pqs_quantity snapshot\<bar> \<le> tolerance remaining (pqs_quantity snapshot))\<rparr>))"

section \<open>Quantity records\<close>

record PositionQuantityObservation =
  pqo_provider :: string
  pqo_position_id :: string
  pqo_symbol :: string
  pqo_insight_id :: string
  pqo_ledger_sequence :: nat
  pqo_as_of_us :: int
  pqo_check :: "PositionQuantityCheck option"

record PositionQuantityRecord =
  pqr_sequence :: nat
  pqr_execution_epoch :: nat
  pqr_recorded_at_us :: int
  pqr_observation :: PositionQuantityObservation

definition bad_record_scope :: "PositionQuantityRecord \<Rightarrow> bool" where
  "bad_record_scope r \<longleftrightarrow> (let o1 = pqr_observation r in
     pqr_sequence r = 0 \<or> 2 ^ 63 - 1 < pqr_sequence r \<or> pqr_execution_epoch r = 0
     \<or> 2 ^ 63 - 1 < pqr_execution_epoch r \<or> pqr_recorded_at_us r \<le> 0 \<or> pqo_as_of_us o1 \<le> 0
     \<or> pqo_ledger_sequence o1 = 0 \<or> pqr_sequence r \<le> pqo_ledger_sequence o1
     \<or> \<not> identity (pqo_provider o1) 128 \<or> \<not> identity (pqo_position_id o1) 128
     \<or> \<not> identity (pqo_symbol o1) 256 \<or> \<not> identity (pqo_insight_id o1) 128)"

definition bad_comparison :: "PositionQuantityObservation \<Rightarrow> PositionQuantityCheck \<Rightarrow> bool" where
  "bad_comparison o1 c \<longleftrightarrow> (let s = pqc_snapshot c in
     pqc_definition_version c \<noteq> POSITION_QUANTITY_DEFINITION \<or> pqs_position_id s \<noteq> pqo_position_id o1
     \<or> pqs_symbol s \<noteq> pqo_symbol o1 \<or> pqs_as_of_us s \<noteq> pqo_as_of_us o1
     \<or> \<not> is_finite (pqs_quantity s) \<or> pqs_quantity s < 0
     \<or> (feq (pqs_quantity s) 0) \<noteq> (pqs_side s = None)
     \<or> (case pqc_ledger_quantity c of None \<Rightarrow> False | Some q \<Rightarrow> \<not> is_finite q \<or> q < 0)
     \<or> (case pqc_ledger_quantity c of None \<Rightarrow> False | Some q \<Rightarrow> 0 < q) \<noteq> (pqc_ledger_side c \<noteq> None))"

definition comparison_matches :: "PositionQuantityCheck \<Rightarrow> bool" where
  "comparison_matches c = (case pqc_ledger_quantity c of None \<Rightarrow> False
     | Some q \<Rightarrow> pqc_ledger_side c = pqs_side (pqc_snapshot c)
         \<and> \<bar>q - pqs_quantity (pqc_snapshot c)\<bar> \<le> tolerance q (pqs_quantity (pqc_snapshot c)))"

definition pqr_validate :: "PositionQuantityRecord \<Rightarrow> string + unit" where
  "pqr_validate r =
     (if bad_record_scope r then Inl ''invalid position quantity record scope''
      else case pqo_check (pqr_observation r) of
             None \<Rightarrow> Inr ()
           | Some c \<Rightarrow>
              if bad_comparison (pqr_observation r) c then Inl ''invalid position quantity comparison''
              else if comparison_matches c \<noteq> pqc_matched c then Inl ''inconsistent position quantity result''
              else Inr ())"

section \<open>Valuations\<close>

datatype PositionValuationClock = ValuationUtc | ValuationFixedOffset int int int

record PositionQuoteTime =
  pqt_occurred_at_us :: int
  pqt_clock :: PositionValuationClock

datatype PositionNotionalUnavailable = UnsupportedContract | CurrencyConversionUnavailable | InvalidContractMetadata

datatype PositionNotional =
    PaperPriceUnits f64
  | LinearContractSameCurrency f64 f64 string
  | UnavailableNotional PositionNotionalUnavailable

record OpenValuation =
  ov_quantity :: f64
  ov_side :: ExecutionFillSide
  ov_average_entry_price :: f64
  ov_current_price :: f64
  ov_gross_unrealized_pnl :: f64
  ov_carry :: f64
  ov_quote_time :: "PositionQuoteTime option"
  ov_notional :: PositionNotional

datatype PositionValuationState = NotOpen | OpenState OpenValuation

record PositionValuation =
  pv_position_id :: string
  pv_state :: PositionValuationState

record PositionValuations =
  pvs_version :: nat
  pvs_provider :: string
  pvs_account_id :: string
  pvs_account_currency :: string
  pvs_symbol :: string
  pvs_as_of_us :: int
  pvs_positions :: "PositionValuation list"

definition POSITION_VALUATION_VERSION :: nat where
  "POSITION_VALUATION_VERSION = 1"

definition MAX_POSITION_VALUATIONS :: nat where
  "MAX_POSITION_VALUATIONS = 32"

definition validate_position_valuation_request :: "string \<Rightarrow> string \<Rightarrow> string list \<Rightarrow> string + unit" where
  "validate_position_valuation_request account symbol positions =
     (if \<not> identity account 128 \<or> \<not> identity symbol 256 \<or> positions = []
         \<or> MAX_POSITION_VALUATIONS < length positions \<or> list_ex (\<lambda>p. \<not> identity p 128) positions
         \<or> \<not> distinct positions
      then Inl ''invalid position valuation request'' else Inr ())"

text \<open>Saturating arithmetic of \<open>i64\<close>.\<close>

definition sat_i64 :: "int \<Rightarrow> int" where
  "sat_i64 n = max (- (2 ^ 63)) (min (2 ^ 63 - 1) n)"

definition bad_quote_time :: "int \<Rightarrow> PositionQuoteTime \<Rightarrow> string option" where
  "bad_quote_time as_of q =
     (if pqt_occurred_at_us q \<le> 0 \<or> sat_i64 (as_of + 999999) < pqt_occurred_at_us q
      then Some ''invalid position quote time''
      else case pqt_clock q of ValuationUtc \<Rightarrow> None
         | ValuationFixedOffset seconds valid_from valid_through \<Rightarrow>
             if 14 * 3600 < \<bar>seconds\<bar> \<or> valid_from \<le> 0 \<or> valid_through < valid_from
                \<or> pqt_occurred_at_us q < valid_from \<or> valid_through < pqt_occurred_at_us q
             then Some ''invalid position quote clock'' else None)"

definition value_mismatch :: "f64 \<Rightarrow> f64 \<Rightarrow> bool" where
  "value_mismatch account_value expected \<longleftrightarrow> \<not> is_finite account_value \<or> account_value < 0
     \<or> \<not> is_finite expected \<or> tolerance expected account_value < \<bar>account_value - expected\<bar>"

definition bad_notional :: "string \<Rightarrow> OpenValuation \<Rightarrow> string option" where
  "bad_notional currency ov = (case ov_notional ov of
       LinearContractSameCurrency account_value units price_currency \<Rightarrow>
         if value_mismatch account_value \<bar>ov_quantity ov * ov_current_price ov * units\<bar>
            \<or> \<not> is_finite units \<or> units \<le> 0 \<or> price_currency \<noteq> currency
         then Some ''invalid position notional basis'' else None
     | PaperPriceUnits account_value \<Rightarrow>
         if value_mismatch account_value \<bar>ov_quantity ov * ov_current_price ov\<bar>
         then Some ''invalid paper position valuation'' else None
     | UnavailableNotional _ \<Rightarrow> None)"

definition bad_open :: "PositionValuations \<Rightarrow> OpenValuation \<Rightarrow> string option" where
  "bad_open v ov =
     (if \<not> is_finite (ov_quantity ov) \<or> ov_quantity ov \<le> 0 \<or> \<not> is_finite (ov_average_entry_price ov)
         \<or> \<not> is_finite (ov_current_price ov) \<or> \<not> is_finite (ov_gross_unrealized_pnl ov) \<or> \<not> is_finite (ov_carry ov)
      then Some ''invalid open position valuation''
      else case Option.bind (ov_quote_time ov) (bad_quote_time (pvs_as_of_us v)) of
             Some e \<Rightarrow> Some e
           | None \<Rightarrow> bad_notional (pvs_account_currency v) ov)"

fun check_valuations :: "PositionValuations \<Rightarrow> PositionValuation list \<Rightarrow> string list \<Rightarrow> string + unit" where
  "check_valuations v [] expected = Inr ()"
| "check_valuations v (p # ps) expected =
     (if pv_position_id p \<notin> set expected then Inl ''unexpected position valuation identity''
      else case (case pv_state p of NotOpen \<Rightarrow> None | OpenState ov \<Rightarrow> bad_open v ov) of
             Some e \<Rightarrow> Inl e
           | None \<Rightarrow> check_valuations v ps (removeAll (pv_position_id p) expected))"

definition pvs_validate :: "PositionValuations \<Rightarrow> string \<Rightarrow> string \<Rightarrow> string list \<Rightarrow> string + unit" where
  "pvs_validate v account symbol positions = (case validate_position_valuation_request account symbol positions of
       Inl e \<Rightarrow> Inl e
     | Inr _ \<Rightarrow>
        if pvs_version v \<noteq> POSITION_VALUATION_VERSION \<or> \<not> identity (pvs_provider v) 128
           \<or> pvs_account_id v \<noteq> account \<or> pvs_symbol v \<noteq> symbol \<or> \<not> identity (pvs_account_currency v) 32
           \<or> pvs_as_of_us v \<le> 0 \<or> length (pvs_positions v) \<noteq> length positions
        then Inl ''invalid position valuation scope''
        else check_valuations v (pvs_positions v) positions)"

datatype PositionValuationFreshness = Fresh | Stale | UnknownQuoteTime | Future

definition freshness :: "PositionValuations \<Rightarrow> PositionValuation \<Rightarrow> int \<Rightarrow> int \<Rightarrow> PositionValuationFreshness" where
  "freshness v p now max_age =
     (if now < pvs_as_of_us v then Future
      else if max_age \<le> 0 \<or> max_age < sat_i64 (now - pvs_as_of_us v) then Stale
      else case pv_state p of
             NotOpen \<Rightarrow> Fresh
           | OpenState ov \<Rightarrow> (case ov_quote_time ov of
                None \<Rightarrow> UnknownQuoteTime
              | Some q \<Rightarrow> if now < pqt_occurred_at_us q then Future
                         else if max_age < sat_i64 (now - pqt_occurred_at_us q) then Stale
                         else Fresh))"

section \<open>The readers of the paper broker\<close>

text \<open>
  \<open>gate\<close> says whether \<open>valuation_gate.try_read()\<close> succeeds, that is, whether no step holds the gate.
\<close>

definition paper_read_history ::
  "bool \<Rightarrow> PaperBroker \<Rightarrow> string \<Rightarrow> string \<Rightarrow> string \<Rightarrow> BrokerError + ExecutionFillHistory option" where
  "paper_read_history gate b account oid symbol =
     (if \<not> gate then Inr None
      else if \<not> pb_connected b \<or> pb_backtest_state b \<noteq> None then Inr None
      else if acc_account_id (pb_account b) \<noteq> account then Inl (TradeError ''paper history account mismatch'')
      else case pb_valuation_as_of_us b of
             None \<Rightarrow> Inr None
           | Some as_of \<Rightarrow> (case hm_get (ph_positions (pb_execution_history b)) oid of
                None \<Rightarrow> Inr None
              | Some fills \<Rightarrow>
                  if list_ex (\<lambda>f. fill_symbol f \<noteq> symbol \<or> as_of < fill_occurred_at_us f) fills
                  then Inl (TradeError ''paper history symbol/clock mismatch'')
                  else (let fills = map (\<lambda>f. f\<lparr>fill_as_of_us := as_of\<rparr>) fills;
                            (quantity, side) = (case Option.bind (hm_get (pb_positions b) symbol) (\<lambda>book. hm_get book oid) of
                               None \<Rightarrow> (0, None) | Some p \<Rightarrow> (pos_qty p, Some (fill_side_of (pos_side p))));
                            history = \<lparr>efh_account_id = account, efh_entry_order_id = oid, efh_position_id = oid,
                               efh_symbol = symbol, efh_as_of_us = as_of, efh_clock = HistoryUtc, efh_fills = fills,
                               efh_invalidations = [],
                               efh_position_snapshot = Some \<lparr>pqs_position_id = oid, pqs_symbol = symbol,
                                 pqs_quantity = quantity, pqs_side = side, pqs_as_of_us = as_of\<rparr>\<rparr>
                        in case efh_validate history account oid symbol of
                             Inl e \<Rightarrow> Inl e | Inr _ \<Rightarrow> Inr (Some history))))"

definition position_state :: "int option \<Rightarrow> Position option \<Rightarrow> PositionValuationState" where
  "position_state marked pos = (case pos of
       None \<Rightarrow> NotOpen
     | Some p \<Rightarrow> OpenState \<lparr>ov_quantity = pos_qty p, ov_side = fill_side_of (pos_side p),
         ov_average_entry_price = pos_avg_entry_price p, ov_current_price = pos_current_price p,
         ov_gross_unrealized_pnl = pos_unrealized_pnl p, ov_carry = 0,
         ov_quote_time = map_option (\<lambda>t. \<lparr>pqt_occurred_at_us = t, pqt_clock = ValuationUtc\<rparr>) marked,
         ov_notional = PaperPriceUnits \<bar>pos_qty p * pos_current_price p\<bar>\<rparr>)"

definition trade_error :: "string + 'a \<Rightarrow> BrokerError + 'a" where
  "trade_error r = (case r of Inl e \<Rightarrow> Inl (TradeError e) | Inr a \<Rightarrow> Inr a)"

definition paper_read_positions ::
  "bool \<Rightarrow> PaperBroker \<Rightarrow> string \<Rightarrow> string \<Rightarrow> string list \<Rightarrow> BrokerError + PositionValuations option" where
  "paper_read_positions gate b account symbol ids =
     (case trade_error (validate_position_valuation_request account symbol ids) of
        Inl e \<Rightarrow> Inl e
      | Inr _ \<Rightarrow>
         if \<not> gate then Inr None
         else if \<not> pb_connected b \<and> pb_backtest_state b = None then Inr None
         else if acc_account_id (pb_account b) \<noteq> account then Inl (TradeError ''paper valuation account mismatch'')
         else (case pb_valuation_as_of_us b of
              None \<Rightarrow> Inr None
            | Some as_of \<Rightarrow>
               if list_ex (\<lambda>oid. case hm_get (pb_orders b) oid of None \<Rightarrow> False
                      | Some order \<Rightarrow> as_symbol (ord_asset order) \<noteq> symbol) ids
               then Inl (TradeError ''paper valuation symbol mismatch'')
               else (let marked = hm_get (pb_valuation_mark_times b) symbol; book = hm_get (pb_positions b) symbol;
                         positions = map (\<lambda>oid. \<lparr>pv_position_id = oid,
                            pv_state = position_state marked (Option.bind book (\<lambda>m. hm_get m oid))\<rparr>) ids;
                         values = \<lparr>pvs_version = POSITION_VALUATION_VERSION, pvs_provider = ''paper-position-v1'',
                            pvs_account_id = acc_account_id (pb_account b), pvs_account_currency = acc_currency (pb_account b),
                            pvs_symbol = symbol, pvs_as_of_us = as_of, pvs_positions = positions\<rparr>
                     in case trade_error (pvs_validate values account symbol ids) of
                          Inl e \<Rightarrow> Inl e | Inr _ \<Rightarrow> Inr (Some values))))"

section \<open>The comparison is recordable\<close>

lemma fneg_mult_fin: "(- m) * Fin c = - (m * Fin c)"
  by (cases m) (auto simp: f64_fin_arith rnd_uminus times_f64_def uminus_f64_def)

lemma lit_fin: "\<exists>c. lit (1 / 1000000000) = Fin c"
  using rnd_nonneg [of "1 / 1000000000"] rnd_le_one [of "1 / 1000000000"]
  by (cases "rnd (1 / 1000000000)") (auto simp: lit_def)

text \<open>The ledger of a valid comparison is a finite quantity that is not negative.\<close>

lemma ledger_loop_ok_stays: "snd (ledger_loop bs remaining ok) \<Longrightarrow> ok"
  by (induction bs remaining ok rule: ledger_loop.induct) (auto simp: Let_def)

lemma clamped_nonneg:
  assumes "is_finite r" "(- m) * lit (1 / 1000000000) \<le> r" "\<not> \<bar>r\<bar> \<le> m * lit (1 / 1000000000)"
  shows "0 \<le> r"
proof (rule ccontr)
  assume "\<not> 0 \<le> r"
  then obtain x where x: "r = Fin x" "x < 0" using assms(1) by (auto simp: is_finite_iff zero_f64_def)
  obtain c where c: "lit (1 / 1000000000) = Fin c" using lit_fin by blast
  show False using assms(2,3) x unfolding c fneg_mult_fin
    by (cases "m * Fin c") (auto simp: uminus_f64_def abs_f64_def)
qed

lemma ledger_loop_nonneg:
  assumes "snd (ledger_loop bs remaining ok)" "is_finite remaining" "0 \<le> remaining"
  shows "is_finite (fst (ledger_loop bs remaining ok)) \<and> 0 \<le> fst (ledger_loop bs remaining ok)"
  using assms
proof (induction bs remaining ok rule: ledger_loop.induct)
  case (2 e x bs r ok)
  let ?b = "r + e"
  let ?r = "?b - x"
  let ?ok = "ok \<and> is_finite ?b \<and> is_finite ?r \<and> (- fmax \<bar>?b\<bar> \<bar>x\<bar>) * lit (1 / 1000000000) \<le> ?r"
  let ?r' = "if \<bar>?r\<bar> \<le> tolerance ?b x then 0 else ?r"
  have eq: "ledger_loop ((e, x) # bs) r ok = ledger_loop bs ?r' ?ok" by (simp add: Let_def)
  have ok: ?ok using ledger_loop_ok_stays [of bs ?r' ?ok] "2.prems"(1) unfolding eq by blast
  have "is_finite ?r'" "0 \<le> ?r'"
    using ok clamped_nonneg [of ?r "fmax \<bar>?b\<bar> \<bar>x\<bar>"] by (auto simp: tolerance_def zero_f64_def)
  then show ?case using "2.IH" [OF refl refl refl refl] "2.prems"(1) unfolding eq by (simp add: Let_def)
qed simp

text \<open>Without an entry the ledger stays at zero.\<close>

lemma ledger_loop_flat:
  assumes "snd (ledger_loop bs 0 ok)" "\<forall>(e, x) \<in> set bs. e = 0 \<and> 0 \<le> x"
  shows "fst (ledger_loop bs 0 ok) = 0"
  using assms
proof (induction bs arbitrary: ok)
  case (Cons ex bs)
  obtain x where ex: "ex = (0, x)" "0 \<le> x" using Cons.prems(2) by (cases ex) auto
  let ?b = "0 + (0 :: f64)"
  let ?r = "?b - x"
  let ?ok = "ok \<and> is_finite ?b \<and> is_finite ?r \<and> (- fmax \<bar>?b\<bar> \<bar>x\<bar>) * lit (1 / 1000000000) \<le> ?r"
  let ?r' = "if \<bar>?r\<bar> \<le> tolerance ?b x then 0 else ?r"
  have eq: "ledger_loop (ex # bs) 0 ok = ledger_loop bs ?r' ?ok" unfolding ex by (simp add: Let_def)
  have ok: ?ok using ledger_loop_ok_stays [of bs ?r' ?ok] Cons.prems(1) unfolding eq by blast
  have "?r' = 0"
  proof (rule ccontr)
    assume n: "?r' \<noteq> 0"
    then have "0 \<le> ?r" using ok clamped_nonneg [of ?r "fmax \<bar>?b\<bar> \<bar>x\<bar>"] by (auto simp: tolerance_def split: if_splits)
    moreover have "?r \<le> 0" using ex(2) fsub_nonpos [of ?b x] by (simp add: zero_f64_def f64_fin_arith)
    ultimately show False using n fle_antisym by (auto split: if_splits)
  qed
  then show ?case using Cons.IH [of ?ok] Cons.prems unfolding eq by simp
qed simp

lemma bucket_update_all:
  assumes "\<forall>v \<in> set (map snd m). P v" "P (f (0, 0))" "\<And>v. P v \<Longrightarrow> P (f v)"
  shows "\<forall>v \<in> set (map snd (bucket_update t f m)). P v"
  using assms(1)
proof (induction m)
  case (Cons kv m)
  then show ?case using assms(2,3) by (cases kv) auto
qed (simp add: assms(2))

lemma scan_all_each:
  assumes "scan_all f xs s = Some s'" "\<And>x s s'. f x s = Some s' \<Longrightarrow> P x" "x \<in> set xs"
  shows "P x"
  using assms(1,3)
proof (induction xs arbitrary: s)
  case (Cons y xs)
  then show ?case using assms(2) by (auto split: option.splits)
qed simp

lemma efh_validate_fills:
  assumes "efh_validate h account order symbol = Inr ()" "f \<in> set (efh_fills h)"
  shows "fill_validate f = Inr () \<and> (fill_effect f = Entry \<or> fill_effect f = Exit)"
proof -
  obtain provider s where "scan_all (scan_fill h order symbol provider) (efh_fills h) scan_start = Some s"
    using assms(1) by (auto simp: efh_validate_def bind_eq_Some_conv split: if_splits option.splits)
  then show ?thesis
    by (rule scan_all_each) (use assms(2) in \<open>auto simp: scan_fill_def Let_def split: if_splits ExecutionFillEffect.splits\<close>)
qed

definition ledger_ok :: "buckets \<times> ExecutionFillSide option \<times> bool \<Rightarrow> bool" where
  "ledger_ok acc \<longleftrightarrow> (\<forall>(e, x) \<in> set (map snd (fst acc)). 0 \<le> x \<and> (fst (snd acc) = None \<longrightarrow> e = 0))"

lemma ledger_fill_ok:
  assumes "ledger_ok acc" "fill_validate f = Inr ()" "fill_effect f = Entry \<or> fill_effect f = Exit"
  shows "ledger_ok (ledger_fill f acc)"
proof -
  obtain m side ok where acc: "acc = (m, side, ok)" by (cases acc)
  obtain q where q: "fill_quantity f = Fin q" "0 < q" using fill_validate_ok(1) [OF assms(2)] by blast
  have nn: "0 \<le> x + fill_quantity f" if "0 \<le> x" for x using that q by (intro fadd_nonneg) auto
  let ?t = "fill_occurred_at_us f"
  show ?thesis
  proof (cases "fill_effect f = Entry")
    case True
    have "\<forall>v \<in> set (map snd (bucket_update ?t (\<lambda>(e, x). (e + fill_quantity f, x)) m)). 0 \<le> snd v"
      by (rule bucket_update_all) (use assms(1) in \<open>auto simp: ledger_ok_def acc zero_f64_def\<close>)
    then show ?thesis using True by (force simp: ledger_ok_def ledger_fill_def acc)
  next
    case False
    have "\<forall>v \<in> set (map snd (bucket_update ?t (\<lambda>(e, x). (e, x + fill_quantity f)) m)).
        0 \<le> snd v \<and> (side = None \<longrightarrow> fst v = 0)"
      by (rule bucket_update_all) (use assms(1) nn in \<open>auto simp: ledger_ok_def acc zero_f64_def split: prod.splits\<close>)
    then show ?thesis using False assms(3) by (force simp: ledger_ok_def ledger_fill_def acc)
  qed
qed

lemma ledger_fold_ok:
  assumes "\<And>f. f \<in> set fs \<Longrightarrow> fill_validate f = Inr () \<and> (fill_effect f = Entry \<or> fill_effect f = Exit)"
    and "ledger_ok acc"
  shows "ledger_ok (fold ledger_fill fs acc)"
  using assms
proof (induction fs arbitrary: acc)
  case (Cons f fs)
  then show ?case using ledger_fill_ok [of acc f] by simp
qed simp

text \<open>The result of comparing a fill history with the broker's quantity can always be recorded: when the
  record without a comparison is acceptable, the record with the comparison of that position is.  So the
  ledger quantity is finite and not negative, a side is reported exactly for an open quantity, and the two
  implementations of the match agree.\<close>

theorem quantity_check_recordable:
  assumes "position_check h = Some c"
    and "pqr_validate r = Inr ()" "pqo_check (pqr_observation r) = None"
    and "pqo_position_id (pqr_observation r) = efh_position_id h" "pqo_symbol (pqr_observation r) = efh_symbol h"
      "pqo_as_of_us (pqr_observation r) = efh_as_of_us h"
  shows "pqr_validate (r\<lparr>pqr_observation := (pqr_observation r)\<lparr>pqo_check := Some c\<rparr>\<rparr>) = Inr ()"
proof -
  obtain snapshot where v: "efh_validate h (efh_account_id h) (efh_entry_order_id h) (efh_symbol h) = Inr ()"
    "efh_position_snapshot h = Some snapshot"
    using assms(1) by (auto simp: position_check_def split: if_splits option.splits)
  obtain m side ok1 where f: "fold ledger_fill (efh_fills h) ([], None, True) = (m, side, ok1)" by (metis prod_cases3)
  obtain q ok where l: "ledger_loop (map snd m) 0 ok1 = (q, ok)" by (metis surj_pair)
  have c: "c = \<lparr>pqc_definition_version = POSITION_QUANTITY_DEFINITION, pqc_snapshot = snapshot,
      pqc_ledger_quantity = (if ok then Some q else None), pqc_ledger_side = (if ok \<and> 0 < q then side else None),
      pqc_matched = (ok \<and> (if ok \<and> 0 < q then side else None) = pqs_side snapshot
        \<and> \<bar>q - pqs_quantity snapshot\<bar> \<le> tolerance q (pqs_quantity snapshot))\<rparr>"
    using assms(1) v by (auto simp: position_check_def f l Let_def)
  have snap: "\<not> bad_snapshot h snapshot"
    using v by (auto simp: efh_validate_def split: if_splits option.splits)
  have lok: "ledger_ok (m, side, ok1)"
    unfolding f [symmetric] by (rule ledger_fold_ok) (use efh_validate_fills [OF v(1)] in \<open>auto simp: ledger_ok_def\<close>)
  have q: "is_finite q \<and> 0 \<le> q" if ok
    using ledger_loop_nonneg [of "map snd m" 0 ok1] l that by (simp add: zero_f64_def)
  have side: "side \<noteq> None" if ok "0 < q"
  proof
    assume n: "side = None"
    have "fst (ledger_loop (map snd m) 0 ok1) = 0"
      by (rule ledger_loop_flat) (use l that(1) lok n in \<open>auto simp: ledger_ok_def\<close>)
    then show False using l that(2) by (simp add: zero_f64_def)
  qed
  have scope: "\<not> bad_record_scope r" using assms(2) by (auto simp: pqr_validate_def split: if_splits)
  have "\<not> bad_comparison (pqr_observation r) c"
    using snap q side assms(4-6)
    by (cases "0 < q"; cases q) (auto simp: bad_comparison_def bad_snapshot_def c zero_f64_def)
  moreover have "comparison_matches c = pqc_matched c" by (auto simp: comparison_matches_def c)
  ultimately show ?thesis
    using scope by (simp add: pqr_validate_def bad_record_scope_def bad_comparison_def Let_def)
qed

text \<open>A history of one entry of two units, still open.\<close>

definition sample_fill :: ExecutionFill where
  "sample_fill = \<lparr>fill_version = 1, fill_provider = ''p'', fill_fill_id = ''f1'', fill_order_id = ''o1'',
     fill_position_id = Some ''o1'', fill_symbol = ''X'', fill_side = FillBuy, fill_effect = Entry,
     fill_quantity = Fin 2, fill_price = Fin 100, fill_occurred_at_us = 5, fill_as_of_us = 9,
     fill_cash = None, fill_account_notional = None\<rparr>"

definition sample_history :: ExecutionFillHistory where
  "sample_history = \<lparr>efh_account_id = ''a'', efh_entry_order_id = ''o1'', efh_position_id = ''o1'', efh_symbol = ''X'',
     efh_as_of_us = 9, efh_clock = HistoryUtc, efh_fills = [sample_fill], efh_invalidations = [],
     efh_position_snapshot = Some \<lparr>pqs_position_id = ''o1'', pqs_symbol = ''X'', pqs_quantity = Fin 2,
       pqs_side = Some FillBuy, pqs_as_of_us = 9\<rparr>\<rparr>"

definition sample_quantity_record :: PositionQuantityRecord where
  "sample_quantity_record = \<lparr>pqr_sequence = 2, pqr_execution_epoch = 1, pqr_recorded_at_us = 10,
     pqr_observation = \<lparr>pqo_provider = ''p'', pqo_position_id = ''o1'', pqo_symbol = ''X'', pqo_insight_id = ''i'',
       pqo_ledger_sequence = 1, pqo_as_of_us = 9, pqo_check = None\<rparr>\<rparr>"

definition sample_scanned :: HistoryScan where
  "sample_scanned = scan_start\<lparr>hs_ids := [(''p'', ''f1'')], hs_entry_side := Some FillBuy, hs_first_entry_us := 5,
     hs_entered := Fin 2\<rparr>"

lemma sample_history_facts:
  "efh_account_id sample_history = ''a''" "efh_entry_order_id sample_history = ''o1''" "efh_position_id sample_history = ''o1''"
  "efh_symbol sample_history = ''X''" "efh_as_of_us sample_history = 9" "efh_clock sample_history = HistoryUtc"
  "efh_fills sample_history = [sample_fill]" "efh_invalidations sample_history = []"
  "efh_position_snapshot sample_history = Some \<lparr>pqs_position_id = ''o1'', pqs_symbol = ''X'', pqs_quantity = Fin 2,
       pqs_side = Some FillBuy, pqs_as_of_us = 9\<rparr>" "fill_provider sample_fill = ''p''"
  by (simp_all add: sample_history_def sample_fill_def)

lemma sample_scan: "scan_all (scan_fill sample_history ''o1'' ''X'' ''p'') (efh_fills sample_history) scan_start = Some sample_scanned"
proof -
  have "identity ''p'' 128" "identity ''f1'' 128" "identity ''o1'' 128" "identity ''X'' 256" by code_simp+
  moreover have "0 + Fin 2 = Fin 2" using fint_arith(1) [of 0 2] by (simp add: zero_f64_def)
  ultimately show ?thesis
    by (simp add: scan_fill_def sample_fill_def fill_validate_def EXECUTION_FILL_VERSION_def opt_identity_def
        outside_clock_def other_side_def scan_start_def sample_history_def sample_scanned_def Let_def zero_f64_def)
qed

lemma sample_totals: "\<not> bad_totals sample_history sample_scanned"
proof -
  have "0 \<le> lit (1 / 1000000000)" unfolding lit_def by (rule rnd_nonneg) simp
  then have "0 \<le> Fin 2 + fmax \<bar>Fin 2\<bar> 1 * lit (1 / 1000000000)"
    by (intro fadd_nonneg fmult_nonneg) (use lit_fin in \<open>auto simp: abs_f64_def one_f64_def fmax_def\<close>)
  then have "\<not> Fin 2 + fmax \<bar>Fin 2\<bar> 1 * lit (1 / 1000000000) < 0"
    by (metis fle_lt_trans flt_irrefl)
  then show ?thesis
    by (simp add: bad_totals_def sample_scanned_def scan_start_def sample_history_def sample_fill_def)
qed

theorem quantity_check_recordable_witness:
  "\<exists>c. position_check sample_history = Some c \<and> pqr_validate (sample_quantity_record
     \<lparr>pqr_observation := (pqr_observation sample_quantity_record)\<lparr>pqo_check := Some c\<rparr>\<rparr>) = Inr ()"
proof -
  have "efh_validate sample_history ''a'' ''o1'' ''X'' = Inr ()"
    using sample_totals sample_scan
    by (simp add: efh_validate_def sample_history_facts nth_opt_def opt_or_def MAX_HISTORY_FILLS_def bad_clock_def
        bad_snapshot_def feq_def zero_f64_def)
  then have "position_check sample_history \<noteq> None"
    by (simp add: position_check_def sample_history_facts Let_def split: prod.split)
  then obtain c where c: "position_check sample_history = Some c" by blast
  have "identity ''p'' 128" "identity ''o1'' 128" "identity ''X'' 256" "identity ''i'' 128" by code_simp+
  then have "pqr_validate sample_quantity_record = Inr ()"
    by (simp add: pqr_validate_def bad_record_scope_def sample_quantity_record_def)
  then have "pqr_validate (sample_quantity_record
     \<lparr>pqr_observation := (pqr_observation sample_quantity_record)\<lparr>pqo_check := Some c\<rparr>\<rparr>) = Inr ()"
    by (rule quantity_check_recordable [OF c])
      (simp_all add: sample_quantity_record_def sample_history_def)
  with c show ?thesis by blast
qed

section \<open>Scope and freshness of valuations\<close>

lemma check_valuations_covers:
  assumes "check_valuations v ps expected = Inr ()" "distinct expected" "length ps = length expected"
  shows "distinct (map pv_position_id ps) \<and> set (map pv_position_id ps) = set expected"
  using assms
proof (induction ps arbitrary: expected)
  case (Cons p ps)
  have m: "pv_position_id p \<in> set expected"
    and r: "check_valuations v ps (removeAll (pv_position_id p) expected) = Inr ()"
    using Cons.prems(1) by (auto split: if_splits option.splits)
  have "length (removeAll (pv_position_id p) expected) = length expected - 1"
    using m Cons.prems(2) by (metis distinct_remove1_removeAll length_remove1)
  then have "length ps = length (removeAll (pv_position_id p) expected)" using Cons.prems(3) by simp
  from Cons.IH [OF r _ this] Cons.prems(2) m show ?case by (auto simp: distinct_removeAll)
qed simp

text \<open>Accepted valuations answer exactly the request: every requested position once and no other.\<close>

theorem valuations_answer_request:
  assumes "pvs_validate v account symbol positions = Inr ()"
  shows "distinct (map pv_position_id (pvs_positions v)) \<and> set (map pv_position_id (pvs_positions v)) = set positions
    \<and> pvs_account_id v = account \<and> pvs_symbol v = symbol"
proof -
  have "check_valuations v (pvs_positions v) positions = Inr ()" "distinct positions"
    "length (pvs_positions v) = length positions" "pvs_account_id v = account" "pvs_symbol v = symbol"
    using assms by (auto simp: pvs_validate_def validate_position_valuation_request_def split: sum.splits if_splits)
  then show ?thesis using check_valuations_covers by blast
qed

definition sample_valuations :: PositionValuations where
  "sample_valuations = \<lparr>pvs_version = 1, pvs_provider = ''b'', pvs_account_id = ''a'', pvs_account_currency = ''GBP'',
     pvs_symbol = ''X'', pvs_as_of_us = 2000000, pvs_positions = [\<lparr>pv_position_id = ''2'', pv_state = NotOpen\<rparr>,
       \<lparr>pv_position_id = ''1'', pv_state = NotOpen\<rparr>]\<rparr>"

theorem valuations_answer_request_witness:
  "distinct (map pv_position_id (pvs_positions sample_valuations))
    \<and> set (map pv_position_id (pvs_positions sample_valuations)) = set [''1'', ''2'']
    \<and> pvs_account_id sample_valuations = ''a'' \<and> pvs_symbol sample_valuations = ''X''"
  by (rule valuations_answer_request) code_simp

text \<open>A valuation counts as fresh only when both the observation and the quote of an open position are
  at most the allowed age old and neither lies in the future, with the saturating arithmetic of the code.\<close>

theorem fresh_valuation_is_recent:
  assumes "freshness v p now max_age = Fresh" "in_i64 now" "in_i64 (pvs_as_of_us v)" "in_i64 max_age"
  shows "pvs_as_of_us v \<le> now \<and> (case pv_state p of NotOpen \<Rightarrow> True
     | OpenState ov \<Rightarrow> (\<exists>q. ov_quote_time ov = Some q \<and> pqt_occurred_at_us q \<le> now))
   \<and> (max_age < 2 ^ 63 - 1 \<longrightarrow> now - pvs_as_of_us v \<le> max_age \<and> (case pv_state p of NotOpen \<Rightarrow> True
     | OpenState ov \<Rightarrow> (\<exists>q. ov_quote_time ov = Some q \<and> now - pqt_occurred_at_us q \<le> max_age)))"
  using assms
  by (auto simp: freshness_def sat_i64_def in_i64_def min_def max_def
      split: if_splits PositionValuationState.splits option.splits)

theorem fresh_valuation_is_recent_witness:
  "pvs_as_of_us sample_valuations \<le> 2500000 \<and> 2500000 - pvs_as_of_us sample_valuations \<le> 1000000"
  using fresh_valuation_is_recent [of sample_valuations "\<lparr>pv_position_id = ''2'', pv_state = NotOpen\<rparr>" 2500000 1000000]
  by (simp add: freshness_def sample_valuations_def sat_i64_def in_i64_def)

end
