(* ===== verification/Commands.thy ===== *)
theory Commands
  imports TimeFrame
begin

text \<open>
  The immutable commands a strategy sends to its broker worker (\<open>src/core/broker/commands.rs\<close>) with the
  states of an insight they refer to (\<open>src/core/insight/types\<close>).  Digests, name-based identifiers and
  JSON come from third-party crates and are parameters.
\<close>

section \<open>States of an insight\<close>

datatype InsightState = StNew | StExecuted | StFilled | StClosed | StCancelled | StRejected

definition is_active :: "InsightState \<Rightarrow> bool" where
  "is_active s \<longleftrightarrow> s = StNew \<or> s = StExecuted \<or> s = StFilled"

definition is_inactive :: "InsightState \<Rightarrow> bool" where
  "is_inactive s \<longleftrightarrow> s = StClosed \<or> s = StCancelled \<or> s = StRejected"

lemma inactive_iff: "is_inactive s \<longleftrightarrow> \<not> is_active s"
  by (cases s) (simp_all add: is_active_def is_inactive_def)

section \<open>Correlation of submissions\<close>

record SubmissionCorrelation =
  cor_account_id :: string
  cor_key :: string
  cor_fingerprint :: string

text \<open>
  \<open>key_digest\<close> and \<open>terms_digest\<close> stand for the hexadecimal SHA-256 of the JSON of the identity and of
  the complete request; serializing these values does not fail.
\<close>

definition correlation_new ::
  "(string \<Rightarrow> string \<Rightarrow> string) \<Rightarrow> (string \<Rightarrow> BrokerOrderRequest \<Rightarrow> string) \<Rightarrow> string \<Rightarrow> BrokerOrderRequest
    \<Rightarrow> BrokerError + SubmissionCorrelation" where
  "correlation_new key_digest terms_digest account_id request =
     (let account_id = trim account_id
      in if account_id = [] \<or> 512 < length account_id \<or> trim (req_client_order_id request) = []
            \<or> 512 < length (req_client_order_id request)
         then Inl (TradeError ''invalid submission correlation identity'')
         else Inr \<lparr>cor_account_id = account_id, cor_key = key_digest account_id (req_client_order_id request),
                cor_fingerprint = terms_digest account_id request\<rparr>)"

section \<open>Commands\<close>

definition BROKER_COMMAND_VERSION :: nat where
  "BROKER_COMMAND_VERSION = 1"

definition MAX_BROKER_COMMAND_BYTES :: nat where
  "MAX_BROKER_COMMAND_BYTES = 16 * 1024"

record BrokerDispatchConstraints =
  max_total_symbol_quantity :: "f64 option"

definition constraints_empty :: "BrokerDispatchConstraints \<Rightarrow> bool" where
  "constraints_empty c \<longleftrightarrow> max_total_symbol_quantity c = None"

record BrokerOperationGroup =
  grp_id :: string
  grp_version :: nat

datatype BrokerCommandAction =
    AmendEntryAction string "f64 option" "f64 option"
  | SubmitAction BrokerOrderRequest
  | CancelAction string
  | CloseAction string f64 "f64 option"
  | ReplaceAction string f64 f64
  | TakeProfitAction string f64 f64
  | StopLossAction string f64 f64

fun action_order_id :: "BrokerCommandAction \<Rightarrow> string option" where
  "action_order_id (SubmitAction request) = None"
| "action_order_id (CancelAction oid) = Some oid"
| "action_order_id (CloseAction oid quantity price) = Some oid"
| "action_order_id (ReplaceAction oid price quantity) = Some oid"
| "action_order_id (AmendEntryAction oid limit_price stop_price) = Some oid"
| "action_order_id (TakeProfitAction oid price quantity) = Some oid"
| "action_order_id (StopLossAction oid price quantity) = Some oid"

definition is_entry :: "BrokerCommandAction \<Rightarrow> bool" where
  "is_entry a = (case a of SubmitAction _ \<Rightarrow> True | _ \<Rightarrow> False)"

definition is_teardown :: "BrokerCommandAction \<Rightarrow> bool" where
  "is_teardown a = (case a of CancelAction _ \<Rightarrow> True | CloseAction _ _ _ \<Rightarrow> True | _ \<Rightarrow> False)"

definition settled_by_terminal :: "BrokerCommandAction \<Rightarrow> string option \<Rightarrow> InsightState \<Rightarrow> bool" where
  "settled_by_terminal a order_id s \<longleftrightarrow>
     (case action_order_id a of None \<Rightarrow> False | Some oid \<Rightarrow> Some oid = order_id)
     \<and> (case a of
          CloseAction _ _ _ \<Rightarrow> s = StClosed
        | CancelAction _ \<Rightarrow> s = StCancelled \<or> s = StRejected \<or> s = StClosed
        | TakeProfitAction _ _ _ \<Rightarrow> s = StClosed \<or> s = StCancelled
        | StopLossAction _ _ _ \<Rightarrow> s = StClosed \<or> s = StCancelled
        | _ \<Rightarrow> False)"

record BrokerCommand =
  cmd_version :: nat
  cmd_id :: string
  cmd_strategy_id :: string
  cmd_account_id :: string
  cmd_insight_id :: string
  cmd_group :: "BrokerOperationGroup option"
  cmd_dispatch_constraints :: BrokerDispatchConstraints
  cmd_action :: BrokerCommandAction

record BrokerCommandReceipt =
  rcp_id :: string
  rcp_insight_id :: string
  rcp_group :: "BrokerOperationGroup option"

datatype BrokerCommandError = CmdDeclined string | CmdInvalid string | CmdTooLarge | CmdQueueFull | CmdAnalyticsBusy
  | CmdAnalyticsQueueFull | CmdCapturePaused | CmdClosed | CmdStopping | CmdIdentityConflict | CmdJournal string

definition is_analytics_backpressure :: "BrokerCommandError \<Rightarrow> bool" where
  "is_analytics_backpressure e \<longleftrightarrow> e = CmdAnalyticsBusy \<or> e = CmdAnalyticsQueueFull"

datatype BrokerCommandOutcome = OrderResponse Order | Acknowledged | DeclinedOutcome string | Ambiguous string
  | CancelledBeforeDispatch

record BrokerCommandCompletion =
  cpl_receipt :: BrokerCommandReceipt
  cpl_queued_at_us :: int
  cpl_dispatched_at_us :: "int option"
  cpl_completed_at_us :: int
  cpl_outcome :: BrokerCommandOutcome

text \<open>
  \<open>entry_uuid strategy account client_order\<close> is the name-based identifier of an entry (\<open>Uuid::new_v5\<close> of the
  serialized triple), \<open>fresh\<close> a random one.
\<close>

definition command_new_with_constraints ::
  "(string \<Rightarrow> string \<Rightarrow> string \<Rightarrow> string) \<Rightarrow> string \<Rightarrow> string \<Rightarrow> string \<Rightarrow> string \<Rightarrow> BrokerCommandAction
    \<Rightarrow> BrokerOperationGroup option \<Rightarrow> BrokerDispatchConstraints \<Rightarrow> BrokerCommand" where
  "command_new_with_constraints entry_uuid fresh strategy_id account_id insight_id action grp constraints =
     (let strategy_id = trim strategy_id; account_id = trim account_id;
          cid = (case action of SubmitAction request \<Rightarrow> entry_uuid strategy_id account_id (req_client_order_id request)
                 | _ \<Rightarrow> fresh)
      in \<lparr>cmd_version = BROKER_COMMAND_VERSION, cmd_id = cid, cmd_strategy_id = strategy_id,
          cmd_account_id = account_id, cmd_insight_id = insight_id, cmd_group = grp,
          cmd_dispatch_constraints = constraints, cmd_action = action\<rparr>)"

definition command_new ::
  "(string \<Rightarrow> string \<Rightarrow> string \<Rightarrow> string) \<Rightarrow> string \<Rightarrow> string \<Rightarrow> string \<Rightarrow> string \<Rightarrow> BrokerCommandAction
    \<Rightarrow> BrokerOperationGroup option \<Rightarrow> BrokerCommand" where
  "command_new entry_uuid fresh strategy_id account_id insight_id action grp =
     command_new_with_constraints entry_uuid fresh strategy_id account_id insight_id action grp
       \<lparr>max_total_symbol_quantity = None\<rparr>"

definition command_receipt :: "BrokerCommand \<Rightarrow> BrokerCommandReceipt" where
  "command_receipt c = \<lparr>rcp_id = cmd_id c, rcp_insight_id = cmd_insight_id c, rcp_group = cmd_group c\<rparr>"

definition positive :: "f64 \<Rightarrow> bool" where
  "positive v \<longleftrightarrow> is_finite v \<and> 0 < v"

definition opt_positive :: "f64 option \<Rightarrow> bool" where
  "opt_positive a = (case a of None \<Rightarrow> True | Some v \<Rightarrow> positive v)"

definition bad_identity :: "string \<Rightarrow> bool" where
  "bad_identity s \<longleftrightarrow> s = [] \<or> trim s \<noteq> s \<or> 512 < length s"

definition blank_id :: "string \<Rightarrow> bool" where
  "blank_id s \<longleftrightarrow> trim s = [] \<or> 512 < length s"

definition levels_of :: "f64 list option \<Rightarrow> f64 list" where
  "levels_of a = (case a of None \<Rightarrow> [] | Some vs \<Rightarrow> vs)"

definition request_too_large :: "BrokerOrderRequest \<Rightarrow> bool" where
  "request_too_large r \<longleftrightarrow> 512 < length (req_client_order_id r) \<or> 512 < length (req_strategy_type r)
     \<or> 128 < length (req_symbol r) \<or> 256 < length (levels_of (req_take_profit_levels r))
     \<or> 256 < length (levels_of (req_stop_loss_levels r))"

definition request_valid :: "string \<Rightarrow> BrokerOrderRequest \<Rightarrow> bool" where
  "request_valid insight_id r \<longleftrightarrow> req_insight_id r = insight_id \<and> trim (req_client_order_id r) \<noteq> []
     \<and> trim (req_symbol r) \<noteq> [] \<and> (case req_quantity r of None \<Rightarrow> False | Some q \<Rightarrow> positive q)
     \<and> opt_positive (req_limit_price r) \<and> opt_positive (req_stop_price r) \<and> opt_positive (req_trailing_stop_price r)
     \<and> list_all positive (levels_of (req_take_profit_levels r) @ levels_of (req_stop_loss_levels r))"

fun payload_valid :: "string \<Rightarrow> BrokerCommandAction \<Rightarrow> bool" where
  "payload_valid insight_id (SubmitAction request) = request_valid insight_id request"
| "payload_valid insight_id (CancelAction oid) = True"
| "payload_valid insight_id (AmendEntryAction oid limit_price stop_price) =
     ((limit_price \<noteq> None \<or> stop_price \<noteq> None) \<and> opt_positive limit_price \<and> opt_positive stop_price)"
| "payload_valid insight_id (CloseAction oid quantity price) = (positive quantity \<and> opt_positive price)"
| "payload_valid insight_id (ReplaceAction oid price quantity) = (positive quantity \<and> positive price)"
| "payload_valid insight_id (TakeProfitAction oid price quantity) = (positive quantity \<and> positive price)"
| "payload_valid insight_id (StopLossAction oid price quantity) = (positive quantity \<and> positive price)"

definition command_validate :: "(string \<Rightarrow> string \<Rightarrow> string \<Rightarrow> string) \<Rightarrow> BrokerCommand \<Rightarrow> BrokerCommandError + unit" where
  "command_validate entry_uuid c =
     (if cmd_version c \<noteq> BROKER_COMMAND_VERSION then Inl (CmdInvalid ''unsupported command version'')
      else if list_ex bad_identity [cmd_id c, cmd_strategy_id c, cmd_account_id c, cmd_insight_id c]
      then Inl (CmdInvalid ''invalid command identity'')
      else if (case cmd_group c of None \<Rightarrow> False | Some g \<Rightarrow> blank_id (grp_id g))
      then Inl (CmdInvalid ''invalid operation group'')
      else if \<not> opt_positive (max_total_symbol_quantity (cmd_dispatch_constraints c))
           \<or> (\<not> constraints_empty (cmd_dispatch_constraints c) \<and> \<not> is_entry (cmd_action c))
      then Inl (CmdInvalid ''invalid dispatch quantity constraint'')
      else if (case cmd_action c of SubmitAction r \<Rightarrow> request_too_large r | _ \<Rightarrow> False) then Inl CmdTooLarge
      else if (case cmd_action c of
                 SubmitAction r \<Rightarrow> cmd_id c \<noteq> entry_uuid (cmd_strategy_id c) (cmd_account_id c) (req_client_order_id r)
               | _ \<Rightarrow> False)
      then Inl (CmdInvalid ''submit command identity must be stable'')
      else if \<not> payload_valid (cmd_insight_id c) (cmd_action c)
           \<or> (case action_order_id (cmd_action c) of None \<Rightarrow> False | Some oid \<Rightarrow> blank_id oid)
      then Inl (CmdInvalid ''invalid broker command payload'')
      else Inr ())"

text \<open>\<open>to_json\<close> is \<open>serde_json::to_string\<close>, an error message or the text.\<close>

definition command_encode ::
  "(string \<Rightarrow> string \<Rightarrow> string \<Rightarrow> string) \<Rightarrow> (BrokerCommand \<Rightarrow> string + string) \<Rightarrow> BrokerCommand \<Rightarrow> BrokerCommandError + string" where
  "command_encode entry_uuid to_json c = (case command_validate entry_uuid c of
       Inl e \<Rightarrow> Inl e
     | Inr _ \<Rightarrow> (case to_json c of
          Inl e \<Rightarrow> Inl (CmdInvalid e)
        | Inr json \<Rightarrow> if MAX_BROKER_COMMAND_BYTES < length json then Inl CmdTooLarge else Inr json))"

section \<open>Properties\<close>

lemma trim_idem: "trim (trim s) = trim s"
proof -
  have "dropWhile P (rev (dropWhile P (rev xs))) = rev (dropWhile P (rev (dropWhile P xs)))" for P and xs :: string
    by (induction xs) (auto simp: dropWhile_append dest: set_dropWhileD)
  then show ?thesis by (simp add: trim_def)
qed

text \<open>A command built for a strategy passes its own validation: with well-formed identifiers (the
  generated ones included) and a well-formed payload, \<open>new\<close> never produces a command that \<open>validate\<close>
  refuses, although it trims the identities it is given.\<close>

theorem new_command_validates:
  assumes "\<And>s a c. \<not> bad_identity (entry_uuid s a c)" "\<not> bad_identity fresh"
    and "\<not> blank_id (trim strategy)" "\<not> blank_id (trim account)" "\<not> bad_identity insight"
    and "payload_valid insight action"
    and "case action of SubmitAction r \<Rightarrow> \<not> request_too_large r | _ \<Rightarrow> True"
    and "case action_order_id action of None \<Rightarrow> True | Some oid \<Rightarrow> \<not> blank_id oid"
    and "case grp of None \<Rightarrow> True | Some g \<Rightarrow> \<not> blank_id (grp_id g)"
  shows "command_validate entry_uuid (command_new entry_uuid fresh strategy account insight action grp) = Inr ()"
proof -
  have id: "\<not> bad_identity (trim strategy)" "\<not> bad_identity (trim account)"
    using assms(3,4) by (auto simp: bad_identity_def blank_id_def trim_idem)
  show ?thesis
    using assms id
    by (auto simp: command_validate_def command_new_def command_new_with_constraints_def Let_def constraints_empty_def
        opt_positive_def split: BrokerCommandAction.splits option.splits)
qed

theorem new_command_validates_witness:
  "command_validate (\<lambda>s a c. ''e'') (command_new (\<lambda>s a c. ''e'') ''f'' '' strat '' ''acc'' ''i1'' (CloseAction ''o1'' (Fin 2) None) None)
    = Inr ()"
  by (rule new_command_validates) code_simp+

text \<open>The identity of an accepted entry is determined by what it submits: two accepted entries of the same
  strategy, account and client order have the same command identity, so that a retry after a restart cannot
  become a second command.\<close>

theorem entry_identity_stable:
  assumes "command_validate entry_uuid c = Inr ()" "command_validate entry_uuid d = Inr ()"
    and "cmd_action c = SubmitAction r" "cmd_action d = SubmitAction q"
    and "cmd_strategy_id c = cmd_strategy_id d" "cmd_account_id c = cmd_account_id d"
      "req_client_order_id r = req_client_order_id q"
  shows "cmd_id c = cmd_id d"
  using assms by (auto simp: command_validate_def split: if_splits)

definition sample_entry_request :: "f64 \<Rightarrow> BrokerOrderRequest" where
  "sample_entry_request q = \<lparr>req_client_order_id = ''o1'', req_insight_id = ''i1'', req_strategy_type = ''s'',
     req_symbol = ''X'', req_quantity = Some q, req_side = Buy, req_order_type = Market,
     req_order_class = Simple, req_limit_price = None, req_stop_price = None,
     req_take_profit_levels = None, req_stop_loss_levels = None, req_trailing_stop_price = None\<rparr>"

definition sample_entry_command :: "string \<Rightarrow> f64 \<Rightarrow> BrokerCommand" where
  "sample_entry_command fresh q = command_new (\<lambda>s a c. s @ a @ c) fresh ''s'' ''a'' ''i1'' (SubmitAction (sample_entry_request q)) None"

theorem entry_identity_stable_witness:
  "cmd_id (sample_entry_command ''f'' (Fin 2)) = cmd_id (sample_entry_command ''g'' (Fin 3))"
proof (rule entry_identity_stable [where entry_uuid = "\<lambda>s a c. s @ a @ c" and r = "sample_entry_request (Fin 2)"
      and q = "sample_entry_request (Fin 3)"])
  show "command_validate (\<lambda>s a c. s @ a @ c) (sample_entry_command ''f'' (Fin 2)) = Inr ()"
    "command_validate (\<lambda>s a c. s @ a @ c) (sample_entry_command ''g'' (Fin 3)) = Inr ()" by code_simp+
qed (simp_all add: sample_entry_command_def command_new_def command_new_with_constraints_def Let_def sample_entry_request_def)

text \<open>A terminal insight settles a pending command only for the exact order the command addressed, and
  never an entry, a replacement or an amendment, which need evidence of their own.\<close>

theorem settled_only_for_exact_order:
  assumes "settled_by_terminal a order_id s"
  shows "is_inactive s \<and> \<not> is_entry a \<and> (\<exists>oid. action_order_id a = Some oid \<and> order_id = Some oid)
    \<and> (is_teardown a \<or> (\<exists>oid p q. a = TakeProfitAction oid p q \<or> a = StopLossAction oid p q))"
  using assms
  by (cases a) (auto simp: settled_by_terminal_def is_inactive_def is_entry_def is_teardown_def)

theorem settled_only_for_exact_order_witness:
  "is_inactive StClosed \<and> \<not> is_entry (CloseAction ''o1'' (Fin 1) None)
    \<and> (\<exists>oid. action_order_id (CloseAction ''o1'' (Fin 1) None) = Some oid \<and> Some ''o1'' = Some oid)"
  using settled_only_for_exact_order [of "CloseAction ''o1'' (Fin 1) None" "Some ''o1''" StClosed]
  by (simp add: settled_by_terminal_def)

end
