(* ===== verification/InsightTypes.thy ===== *)
theory InsightTypes
  imports Commands "HOL-Library.Stream"
begin

text \<open>
  The data of an insight (\<open>src/core/insight/insight.rs\<close>, \<open>types/mod.rs\<close>): one trading decision with its
  order, fills, exits, pending broker commands and history.

  The clock of an insight is the stream of the readings it will take, of its context's clock or of
  the wall clock.  A line of the history keeps the format and the arguments of its message
  (\<open>Note\<close>) where the source keeps the formatted text.  Child insights are values of a type
  parameter, since no operation of the insight itself looks into them; \<open>InsightTree\<close> ties the knot and adds
  the strategy data attached to an insight (\<open>execution_data\<close>).
\<close>

section \<open>Data\<close>

datatype InsightHistoryKind = StateTransition | Configuration | Execution | Diagnostic

datatype StrategyType = Manual | Testing | Portfolio | CustomStrategy string

definition strategy_label :: "StrategyType \<Rightarrow> string" where
  "strategy_label t = (case t of Manual \<Rightarrow> ''Manual'' | Testing \<Rightarrow> ''Testing'' | Portfolio \<Rightarrow> ''Portfolio''
     | CustomStrategy s \<Rightarrow> s)"

datatype StrategyDependentConfirmation = NoConfirmation | HighRelativeVolumeConfirmationModel
  | LowRelativeVolumeConfirmationModel | HighTimeFrameConfirmationModel | LowTimeFrameConfirmationModel
  | HighConfidenceConfirmationModel | LowConfidenceConfirmationModel | UpStateConfirmationModel
  | DownStateConfirmationModel | FlatStateConfirmationModel | CustomConfirmation string

record PartialCloseResult =
  pcr_order_id :: string
  pcr_side :: OrderSide
  pcr_quantity :: f64
  pcr_entry_price :: f64
  pcr_filled_price :: "f64 option"

definition pcr_new :: "string \<Rightarrow> OrderSide \<Rightarrow> f64 \<Rightarrow> f64 \<Rightarrow> PartialCloseResult" where
  "pcr_new oid side quantity entry_price = \<lparr>pcr_order_id = oid, pcr_side = side, pcr_quantity = quantity,
     pcr_entry_price = entry_price, pcr_filled_price = None\<rparr>"

definition pcr_get_pl :: "PartialCloseResult \<Rightarrow> f64" where
  "pcr_get_pl p = (let fp = unwrap_or (pcr_filled_price p) (pcr_entry_price p)
     in if pcr_side p = Buy then (fp - pcr_entry_price p) * pcr_quantity p
        else (pcr_entry_price p - fp) * pcr_quantity p)"

text \<open>The messages of the history, by format.\<close>

datatype Note =
    NoteText string
  | NoteAccepted string
  | NoteFilled f64 f64 string
  | NotePartialFill f64 f64
  | NotePartialClose f64 f64
  | NoteClosed f64 string
  | NoteRejected string
  | NoteCancelled string
  | NoteChanged InsightState InsightState
  | NoteIgnored InsightState Note
  | NoteQuantity f64
  | NoteLimit f64
  | NoteStop f64
  | NoteTakeProfit "f64 list"
  | NoteStopLoss "f64 list"
  | NoteTrailing "f64 option"
  | NoteClass OrderClass
  | NoteType OrderType
  | NoteParent string
  | NoteSide OrderSide
  | NoteUnfilledTtl "nat option"
  | NoteTakeProfitTtl "nat option"
  | NoteDepends "StrategyDependentConfirmation list"
  | NoteFirstOnFill bool
  | NoteRemainder TradeUpdateEvent f64
  | NoteQueued string
  | NoteAcknowledged string
  | NoteClosePending BrokerCommandError
  | NoteCancelPending BrokerCommandError

text \<open>The pending broker commands of an insight (\<open>src/core/insight/operations.rs\<close>).\<close>

datatype MutationKind = KSubmit | KCancel | KClose | KTakeProfit | KStopLoss | KReplace | KAmendEntry

datatype MutationEffect = ESubmit | ECancel | EClose "f64 option" | ETakeProfit "f64 list option"
  | EStopLoss "f64 list option" | EReplace f64 f64 | EAmendEntry "f64 option" "f64 option"

record PendingInsightMutation =
  pm_kind :: MutationKind
  pm_receipt :: BrokerCommandReceipt
  pm_effect :: MutationEffect

record InsightStrategyContext =
  isc_clock :: "datetime stream"
  isc_position_reader :: "(string \<Rightarrow> string \<Rightarrow> BrokerError + Position option) option"

record 'c Insight =
  ins_id :: string
  ins_parent_id :: "string option"
  ins_is_split_insight :: bool
  ins_state :: InsightState
  ins_children :: "'c list"
  ins_order_id :: "string option"
  ins_side :: OrderSide
  ins_symbol :: string
  ins_quantity :: "f64 option"
  ins_contracts :: "f64 option"
  ins_order_type :: OrderType
  ins_order_class :: OrderClass
  ins_limit_price :: "f64 option"
  ins_stop_price :: "f64 option"
  ins_take_profit_levels :: "f64 list option"
  ins_stop_loss_levels :: "f64 list option"
  ins_trailing_stop_price :: "f64 option"
  ins_strategy_type :: StrategyType
  ins_confidence :: nat
  ins_timeframe :: TimeFrame
  ins_period_unfilled :: "nat option"
  ins_period_till_tp :: "nat option"
  ins_execution_depends :: "StrategyDependentConfirmation list"
  ins_filled_price :: "f64 option"
  ins_close_order_id :: "string option"
  ins_close_price :: "f64 option"
  ins_broker_realized_pnl :: "f64 option"
  ins_position_accounting :: "PositionCloseAccounting option"
  ins_commission :: "f64 option"
  ins_swap :: "f64 option"
  ins_partial_closes :: "PartialCloseResult list"
  ins_created_at :: datetime
  ins_updated_at :: datetime
  ins_filled_at :: "datetime option"
  ins_closed_at :: "datetime option"
  ins_legs :: OrderLegs
  ins_market_changed :: bool
  ins_submitted :: bool
  ins_pending_mutations :: "PendingInsightMutation list"
  ins_suppress_child_entries :: bool
  ins_cancelling :: bool
  ins_closing :: bool
  ins_first_on_fill :: bool
  ins_entry_filled_quantity :: "f64 option"
  ins_partial_filled_quantity :: "f64 option"
  ins_state_history :: "(datetime \<times> InsightState \<times> Note option) list"
  ins_state_history_kinds :: "InsightHistoryKind list"
  ins_context :: "InsightStrategyContext option"
  ins_wall_clock :: "datetime stream"

end
