(* ===== verification/Insight.thy ===== *)
theory Insight
  imports InsightTypes
begin

text \<open>
  The operations of an insight that need no broker (\<open>src/core/insight/insight.rs\<close>, \<open>types/mod.rs\<close>,
  \<open>position.rs\<close>, \<open>position_accounting.rs\<close>): the history, the trade event helpers, the profit figures
  and the setters, with the frame facts the reducer and the broker operations rest on.
\<close>

section \<open>Clock and history\<close>

definition current_time :: "'c Insight \<Rightarrow> datetime \<times> 'c Insight" where
  "current_time i = (case ins_context i of
       Some c \<Rightarrow> (shd (isc_clock c), i\<lparr>ins_context := Some (c\<lparr>isc_clock := stl (isc_clock c)\<rparr>)\<rparr>)
     | None \<Rightarrow> (shd (ins_wall_clock i), i\<lparr>ins_wall_clock := stl (ins_wall_clock i)\<rparr>))"

definition push_state_history ::
  "datetime \<Rightarrow> InsightState \<Rightarrow> Note option \<Rightarrow> InsightHistoryKind \<Rightarrow> 'c Insight \<Rightarrow> 'c Insight" where
  "push_state_history t s message kind i =
     i\<lparr>ins_state_history := ins_state_history i @ [(t, s, message)],
       ins_state_history_kinds := ins_state_history_kinds i @ [kind]\<rparr>"

definition update_state_typed :: "InsightState \<Rightarrow> Note option \<Rightarrow> InsightHistoryKind \<Rightarrow> 'c Insight \<Rightarrow> 'c Insight" where
  "update_state_typed new_state message kind i =
     (let (t, i) = current_time i; i = i\<lparr>ins_updated_at := t\<rparr>
      in if ins_state i = StFilled \<and> (new_state = StCancelled \<or> new_state = StRejected)
         then push_state_history t StFilled
                (Some (NoteIgnored new_state (unwrap_or message (NoteText ''No transition reason was provided''))))
                Diagnostic i
         else let i = (if new_state = StFilled then i\<lparr>ins_cancelling := False\<rparr> else i);
                  i = (if is_inactive new_state then i\<lparr>ins_cancelling := False, ins_closing := False\<rparr> else i);
                  i = (if ins_state i \<noteq> new_state
                       then (push_state_history t new_state (Some (NoteChanged (ins_state i) new_state)) StateTransition i)
                              \<lparr>ins_state := new_state\<rparr>
                       else i)
              in push_state_history t new_state message kind i)"

definition update_state :: "InsightState \<Rightarrow> Note option \<Rightarrow> 'c Insight \<Rightarrow> 'c Insight" where
  "update_state new_state message i = update_state_typed new_state message Diagnostic i"

definition state_log_typed :: "Note option \<Rightarrow> InsightHistoryKind \<Rightarrow> 'c Insight \<Rightarrow> 'c Insight" where
  "state_log_typed message kind i =
     update_state_typed (ins_state i) (Some (unwrap_or message (NoteText ''State log entry''))) kind i"

definition state_log :: "Note option \<Rightarrow> 'c Insight \<Rightarrow> 'c Insight" where
  "state_log message i = state_log_typed message Diagnostic i"

text \<open>A setter's line: the state stays, the change is recorded.\<close>

definition note_change :: "Note \<Rightarrow> 'c Insight \<Rightarrow> 'c Insight" where
  "note_change message i = update_state (ins_state i) (Some message) i"

definition align_time_to :: "datetime \<Rightarrow> 'c Insight \<Rightarrow> 'c Insight" where
  "align_time_to t i = i\<lparr>ins_created_at := t, ins_updated_at := t,
     ins_state_history := map (\<lambda>(_, s, m). (t, s, m)) (ins_state_history i)\<rparr>"

definition bind_context :: "InsightStrategyContext \<Rightarrow> 'c Insight \<Rightarrow> 'c Insight" where
  "bind_context c i = (let (now, i) = current_time (i\<lparr>ins_context := Some c\<rparr>) in align_time_to now i)"

section \<open>Construction\<close>

text \<open>\<open>uuid\<close> is the fresh random identifier; the two readings of the wall clock are its first two.\<close>

definition insight_default :: "string \<Rightarrow> datetime stream \<Rightarrow> 'c Insight" where
  "insight_default uuid wall = \<lparr>ins_id = uuid, ins_parent_id = None, ins_is_split_insight = False,
     ins_state = StNew, ins_children = [], ins_order_id = None, ins_side = Buy, ins_symbol = [],
     ins_quantity = None, ins_contracts = None, ins_order_type = Market, ins_order_class = Simple,
     ins_limit_price = None, ins_stop_price = None, ins_take_profit_levels = None,
     ins_stop_loss_levels = None, ins_trailing_stop_price = None, ins_strategy_type = Manual,
     ins_confidence = 0, ins_timeframe = \<lparr>tf_amount = 1, tf_unit = Minute\<rparr>, ins_period_unfilled = None, ins_period_till_tp = None,
     ins_execution_depends = [], ins_filled_price = None, ins_close_order_id = None,
     ins_close_price = None, ins_broker_realized_pnl = None, ins_position_accounting = None,
     ins_commission = None, ins_swap = None, ins_partial_closes = [], ins_created_at = shd wall,
     ins_updated_at = shd (stl wall), ins_filled_at = None, ins_closed_at = None, ins_legs = default_legs,
     ins_market_changed = False, ins_submitted = False, ins_pending_mutations = [],
     ins_suppress_child_entries = False, ins_cancelling = False, ins_closing = False,
     ins_first_on_fill = False, ins_entry_filled_quantity = None, ins_partial_filled_quantity = None,
     ins_state_history = [], ins_state_history_kinds = [], ins_context = None,
     ins_wall_clock = stl (stl wall)\<rparr>"

definition insight_new ::
  "string \<Rightarrow> datetime stream \<Rightarrow> OrderSide \<Rightarrow> string \<Rightarrow> StrategyType \<Rightarrow> TimeFrame \<Rightarrow> nat \<Rightarrow> string option \<Rightarrow> 'c Insight" where
  "insight_new uuid wall side symbol strategy_type tf confidence parent_id =
     (insight_default uuid wall)\<lparr>ins_side := side, ins_symbol := symbol, ins_strategy_type := strategy_type,
       ins_timeframe := tf,       ins_confidence := confidence, ins_parent_id := parent_id\<rparr>"

section \<open>Figures\<close>

definition entry_price :: "'c Insight \<Rightarrow> f64 option" where
  "entry_price i = opt_or (opt_or (ins_filled_price i) (ins_limit_price i)) (ins_stop_price i)"

definition remaining_quantity :: "'c Insight \<Rightarrow> f64" where
  "remaining_quantity i =
     (let quantity = (if ins_state i = StFilled \<or> ins_state i = StClosed
                      then opt_or (ins_entry_filled_quantity i) (ins_quantity i) else ins_quantity i)
      in fmax (unwrap_or quantity 0 - unwrap_or (ins_partial_filled_quantity i) 0) 0)"

definition round2 :: "f64 \<Rightarrow> f64" where
  "round2 v = fround (v * Fin 100) / Fin 100"

definition get_pl :: "'c Insight \<Rightarrow> f64 option \<Rightarrow> bool \<Rightarrow> f64" where
  "get_pl i current_price include_partial_closes =
     (let price = unwrap_or (opt_or (ins_close_price i) current_price) 0;
          partial_pl = (if include_partial_closes then fsum (map pcr_get_pl (ins_partial_closes i)) else 0);
          entry = unwrap_or (entry_price i) 0;
          remaining_qty = remaining_quantity i
      in case (ins_close_price i, ins_broker_realized_pnl i) of
           (Some _, Some realized_pnl) \<Rightarrow> round2 (realized_pnl + partial_pl)
         | _ \<Rightarrow> let remaining_pl = (if ins_side i = Buy then (price - entry) * remaining_qty
                                     else (entry - price) * remaining_qty)
               in round2 (remaining_pl + partial_pl + unwrap_or (ins_swap i) 0 - unwrap_or (ins_commission i) 0))"

definition get_pl_pct :: "'c Insight \<Rightarrow> f64" where
  "get_pl_pct i = (case entry_price i of
       None \<Rightarrow> 0
     | Some entry \<Rightarrow>
        let qty = unwrap_or (ins_quantity i) 0
        in if \<bar>entry\<bar> \<le> EPSILON \<or> qty \<le> EPSILON then 0
           else case ins_broker_realized_pnl i of
                  Some realized_pnl \<Rightarrow>
                    let notional = entry * qty
                    in if \<bar>notional\<bar> \<le> EPSILON then 0 else round2 (realized_pnl / notional * Fin 100)
                | None \<Rightarrow>
                    (case ins_close_price i of
                       None \<Rightarrow> 0
                     | Some cp \<Rightarrow>
                        let gross_pnl = (case ins_side i of Buy \<Rightarrow> (cp - entry) * qty | Sell \<Rightarrow> (entry - cp) * qty)
                        in round2 ((gross_pnl + unwrap_or (ins_swap i) 0 - unwrap_or (ins_commission i) 0)
                                   / (entry * qty) * Fin 100)))"

definition get_pl_ratio :: "'c Insight \<Rightarrow> f64" where
  "get_pl_ratio i = (case (ins_take_profit_levels i, ins_stop_loss_levels i, ins_limit_price i) of
       (Some tp_levels, Some sl_levels, Some limit) \<Rightarrow>
         (case (last_opt sl_levels, last_opt tp_levels) of
            (Some sl, Some max_tp) \<Rightarrow>
              let risk = \<bar>limit - sl\<bar> in if 0 < risk then round2 (\<bar>max_tp - limit\<bar> / risk) else 0
          | _ \<Rightarrow> 0)
     | _ \<Rightarrow> 0)"

section \<open>Trade events\<close>

definition set_first_on_fill :: "bool \<Rightarrow> 'c Insight \<Rightarrow> 'c Insight" where
  "set_first_on_fill b i = (if ins_first_on_fill i = b then i
     else note_change (NoteFirstOnFill b) (i\<lparr>ins_first_on_fill := b\<rparr>))"

definition order_accepted :: "string \<Rightarrow> 'c Insight \<Rightarrow> 'c Insight" where
  "order_accepted oid i =
     update_state StExecuted (Some (NoteAccepted oid)) (i\<lparr>ins_order_id := Some oid, ins_submitted := True\<rparr>)"

definition position_filled :: "f64 \<Rightarrow> f64 \<Rightarrow> string \<Rightarrow> f64 option \<Rightarrow> 'c Insight \<Rightarrow> 'c Insight" where
  "position_filled filled_price filled_qty oid commission i =
     (let i = i\<lparr>ins_order_id := Some oid, ins_submitted := True, ins_filled_price := Some filled_price,
                ins_entry_filled_quantity := Some filled_qty, ins_commission := commission\<rparr>;
          (t, i) = current_time i;
          i = update_state StFilled (Some (NoteFilled filled_price filled_qty oid)) (i\<lparr>ins_filled_at := Some t\<rparr>)
      in set_first_on_fill True i)"

definition partial_filled :: "f64 \<Rightarrow> f64 \<Rightarrow> string \<Rightarrow> f64 option \<Rightarrow> 'c Insight \<Rightarrow> 'c Insight" where
  "partial_filled filled_qty filled_price oid commission i =
     (if \<not> is_finite filled_qty \<or> filled_qty \<le> unwrap_or (ins_entry_filled_quantity i) 0
         \<or> \<not> is_finite filled_price \<or> filled_price \<le> 0 then i
      else update_state StExecuted (Some (NotePartialFill filled_qty filled_price))
             (i\<lparr>ins_filled_price := Some filled_price, ins_entry_filled_quantity := Some filled_qty,
                ins_commission := opt_or commission (ins_commission i)\<rparr>))"

definition partial_closed :: "f64 \<Rightarrow> f64 \<Rightarrow> string \<Rightarrow> f64 option \<Rightarrow> 'c Insight \<Rightarrow> 'c Insight" where
  "partial_closed close_qty close_price close_order_id commission i =
     (let i = i\<lparr>ins_closing := False,
                ins_partial_filled_quantity := Some (unwrap_or (ins_partial_filled_quantity i) 0 + close_qty),
                ins_commission := opt_or commission (ins_commission i)\<rparr>;
          partial = (pcr_new close_order_id (ins_side i) close_qty (unwrap_or (entry_price i) 0))
                      \<lparr>pcr_filled_price := Some close_price\<rparr>
      in update_state StFilled (Some (NotePartialClose close_qty close_price))
           (i\<lparr>ins_partial_closes := ins_partial_closes i @ [partial]\<rparr>))"

definition position_closed ::
  "f64 \<Rightarrow> string \<Rightarrow> f64 option \<Rightarrow> f64 option \<Rightarrow> f64 option \<Rightarrow> 'c Insight \<Rightarrow> 'c Insight" where
  "position_closed close_price close_order_id broker_realized_pnl commission swap i =
     (let i = i\<lparr>ins_close_price := Some close_price, ins_close_order_id := Some close_order_id,
                ins_broker_realized_pnl := broker_realized_pnl,
                ins_commission := opt_or commission (ins_commission i), ins_swap := opt_or swap (ins_swap i)\<rparr>;
          (t, i) = current_time i
      in update_state StClosed (Some (NoteClosed close_price close_order_id)) (i\<lparr>ins_closed_at := Some t\<rparr>))"

definition order_rejected :: "string \<Rightarrow> 'c Insight \<Rightarrow> 'c Insight" where
  "order_rejected reason i = update_state StRejected (Some (NoteRejected reason)) i"

definition order_cancelled :: "string \<Rightarrow> 'c Insight \<Rightarrow> 'c Insight" where
  "order_cancelled reason i = update_state StCancelled (Some (NoteCancelled reason)) i"

definition SATURATED_I64 :: "int \<Rightarrow> int" where
  "SATURATED_I64 n = max (- (2 ^ 63)) (min n (2 ^ 63 - 1))"

text \<open>The read of the wall clock happens only after the first two conditions passed.\<close>

definition observe_position_accounting :: "PositionCloseAccounting \<Rightarrow> 'c Insight \<Rightarrow> bool \<times> 'c Insight" where
  "observe_position_accounting a i =
     (if ins_state i \<noteq> StClosed \<or> isl (pca_validate a) then (False, i)
      else let now = shd (ins_wall_clock i); i = i\<lparr>ins_wall_clock := stl (ins_wall_clock i)\<rparr>
           in if SATURATED_I64 (timestamp_micros now + 5000000) < pca_as_of_us a
                 \<or> \<not> (case ins_order_id i of None \<Rightarrow> False | Some oid \<Rightarrow> owns_order a oid)
              then (False, i)
              else case ins_position_accounting i of
                     Some p \<Rightarrow>
                       if pca_provider p \<noteq> pca_provider a \<or> pca_position_id p \<noteq> pca_position_id a
                          \<or> pca_entry_order_id p \<noteq> pca_entry_order_id a \<or> pca_currency p \<noteq> pca_currency a
                          \<or> pca_opened_at_us p \<noteq> pca_opened_at_us a \<or> pca_closed_at_us p \<noteq> pca_closed_at_us a
                          \<or> pca_as_of_us a \<le> pca_as_of_us p
                       then (False, i) else (True, i\<lparr>ins_position_accounting := Some a\<rparr>)
                   | None \<Rightarrow> (True, i\<lparr>ins_position_accounting := Some a\<rparr>))"

text \<open>The exact-order position read (\<open>position.rs\<close>).\<close>

definition get_position :: "'c Insight \<Rightarrow> BrokerError + Position option" where
  "get_position i =
     (if ins_state i \<noteq> StExecuted \<and> ins_state i \<noteq> StFilled then Inr None
      else case ins_order_id i of
        None \<Rightarrow> Inr None
      | Some order \<Rightarrow>
         if order = [] then Inr None
         else case (case ins_context i of None \<Rightarrow> None | Some c \<Rightarrow> isc_position_reader c) of
           None \<Rightarrow> Inl (SnapshotUnavailable PositionsSnapshot MissingSnapshot)
         | Some reader \<Rightarrow>
            (case reader order (ins_symbol i) of
               Inl e \<Rightarrow> Inl e
             | Inr None \<Rightarrow> Inr None
             | Inr (Some p) \<Rightarrow>
                 if pos_order_id p \<noteq> Some order \<or> as_symbol (pos_asset p) \<noteq> ins_symbol i
                 then Inl (SnapshotUnavailable PositionsSnapshot InvalidSnapshot) else Inr (Some p)))"

section \<open>Setters\<close>

text \<open>\<open>==\<close> on optional lists of levels.\<close>

fun feq_levels :: "f64 list option \<Rightarrow> f64 list option \<Rightarrow> bool" where
  "feq_levels None None = True"
| "feq_levels (Some xs) (Some ys) = list_all2 feq xs ys"
| "feq_levels _ _ = False"

definition add_level :: "f64 list \<Rightarrow> f64 \<Rightarrow> f64 list" where
  "add_level unique level =
     (if \<not> is_finite level then unique
      else if list_ex (\<lambda>existing. \<bar>existing - level\<bar> \<le> EPSILON) unique then unique else unique @ [level])"

definition normalize_levels :: "f64 list option \<Rightarrow> f64 list option" where
  "normalize_levels levels = (let unique = foldl add_level [] (unwrap_or levels [])
     in if unique = [] then None else Some unique)"

definition set_quantity :: "f64 option \<Rightarrow> 'c Insight \<Rightarrow> 'c Insight" where
  "set_quantity quantity i = (if feq_opt (ins_quantity i) quantity then i
     else note_change (NoteQuantity (unwrap_or quantity 0)) (i\<lparr>ins_quantity := quantity\<rparr>))"

definition has_levels :: "f64 list option \<Rightarrow> bool" where
  "has_levels l = (case l of None \<Rightarrow> False | Some vs \<Rightarrow> vs \<noteq> [])"

definition update_order_class :: "'c Insight \<Rightarrow> 'c Insight" where
  "update_order_class i =
     (let order_class = (if has_levels (ins_take_profit_levels i) \<or> has_levels (ins_stop_loss_levels i)
                            \<or> ins_trailing_stop_price i \<noteq> None then Bracket else Simple)
      in if ins_order_class i = order_class then i
         else note_change (NoteClass order_class) (i\<lparr>ins_order_class := order_class\<rparr>))"

definition update_order_type :: "'c Insight \<Rightarrow> 'c Insight" where
  "update_order_type i =
     (let order_type = (case (ins_limit_price i, ins_stop_price i) of
            (Some _, Some _) \<Rightarrow> StopLimit | (Some _, None) \<Rightarrow> Limit | (None, Some _) \<Rightarrow> Stop
          | (None, None) \<Rightarrow> Market)
      in if ins_order_type i = order_type then i
         else note_change (NoteType order_type) (i\<lparr>ins_order_type := order_type\<rparr>))"

definition entry_fixed :: "'c Insight \<Rightarrow> bool" where
  "entry_fixed i \<longleftrightarrow> ins_state i = StFilled \<or> is_inactive (ins_state i)"

definition set_limit_price :: "f64 option \<Rightarrow> 'c Insight \<Rightarrow> 'c Insight" where
  "set_limit_price limit_price i =
     (if entry_fixed i
      then state_log (Some (NoteText ''Cannot set entry limit price: order has already filled or is inactive'')) i
      else if feq_opt (ins_limit_price i) limit_price then i
      else note_change (NoteLimit (unwrap_or limit_price 0)) (update_order_type (i\<lparr>ins_limit_price := limit_price\<rparr>)))"

definition set_stop_price :: "f64 option \<Rightarrow> 'c Insight \<Rightarrow> 'c Insight" where
  "set_stop_price stop_price i =
     (if entry_fixed i
      then state_log (Some (NoteText ''Cannot set entry stop price: order has already filled or is inactive'')) i
      else if feq_opt (ins_stop_price i) stop_price then i
      else note_change (NoteStop (unwrap_or stop_price 0)) (update_order_type (i\<lparr>ins_stop_price := stop_price\<rparr>)))"

definition set_take_profit_levels :: "f64 list option \<Rightarrow> 'c Insight \<Rightarrow> 'c Insight" where
  "set_take_profit_levels levels i =
     (let normalized = normalize_levels levels
      in if feq_levels (ins_take_profit_levels i) normalized then i
         else note_change (NoteTakeProfit (unwrap_or normalized []))
                (update_order_class (i\<lparr>ins_take_profit_levels := normalized\<rparr>)))"

definition add_take_profit_levels :: "f64 list \<Rightarrow> 'c Insight \<Rightarrow> 'c Insight" where
  "add_take_profit_levels levels i =
     set_take_profit_levels (Some (unwrap_or (ins_take_profit_levels i) [] @ levels)) i"

definition set_stop_loss_levels :: "f64 list option \<Rightarrow> 'c Insight \<Rightarrow> 'c Insight" where
  "set_stop_loss_levels levels i =
     (let normalized = normalize_levels levels
      in if feq_levels (ins_stop_loss_levels i) normalized then i
         else note_change (NoteStopLoss (unwrap_or normalized []))
                (update_order_class (i\<lparr>ins_stop_loss_levels := normalized\<rparr>)))"

definition add_stop_loss_levels :: "f64 list \<Rightarrow> 'c Insight \<Rightarrow> 'c Insight" where
  "add_stop_loss_levels levels i =
     set_stop_loss_levels (Some (unwrap_or (ins_stop_loss_levels i) [] @ levels)) i"

definition set_stop_loss :: "f64 option \<Rightarrow> 'c Insight \<Rightarrow> 'c Insight" where
  "set_stop_loss stop_loss i = set_stop_loss_levels (map_option (\<lambda>v. [v]) stop_loss) i"

definition set_trailing_stop_price :: "f64 option \<Rightarrow> 'c Insight \<Rightarrow> 'c Insight" where
  "set_trailing_stop_price trailing i = (if feq_opt (ins_trailing_stop_price i) trailing then i
     else note_change (NoteTrailing trailing) (update_order_class (i\<lparr>ins_trailing_stop_price := trailing\<rparr>)))"

definition set_parent_id :: "string \<Rightarrow> 'c Insight \<Rightarrow> 'c Insight" where
  "set_parent_id parent i = (if ins_parent_id i = Some parent then i
     else note_change (NoteParent parent) (i\<lparr>ins_parent_id := Some parent\<rparr>))"

definition set_side :: "OrderSide \<Rightarrow> 'c Insight \<Rightarrow> 'c Insight" where
  "set_side side i =
     (if (ins_side i = side \<and> ins_state i \<noteq> StNew) \<or> ins_state i = StFilled \<or> ins_state i = StExecuted then i
      else note_change (NoteSide side) (i\<lparr>ins_side := side\<rparr>))"

definition can_expire :: "'c Insight \<Rightarrow> bool" where
  "can_expire i = (case ins_state i of
       StNew \<Rightarrow> ins_period_unfilled i \<noteq> None | StExecuted \<Rightarrow> ins_period_unfilled i \<noteq> None
     | StFilled \<Rightarrow> ins_period_till_tp i \<noteq> None | _ \<Rightarrow> False)"

definition set_period_unfilled :: "nat option \<Rightarrow> 'c Insight \<Rightarrow> 'c Insight" where
  "set_period_unfilled p i = (if ins_period_unfilled i = p then i
     else note_change (NoteUnfilledTtl p) (i\<lparr>ins_period_unfilled := p\<rparr>))"

definition set_period_till_tp :: "nat option \<Rightarrow> 'c Insight \<Rightarrow> 'c Insight" where
  "set_period_till_tp p i = (if ins_period_till_tp i = p then i
     else note_change (NoteTakeProfitTtl p) (i\<lparr>ins_period_till_tp := p\<rparr>))"

definition set_execution_depends :: "StrategyDependentConfirmation list \<Rightarrow> 'c Insight \<Rightarrow> 'c Insight" where
  "set_execution_depends deps i = (if ins_execution_depends i = deps then i
     else note_change (NoteDepends deps) (i\<lparr>ins_execution_depends := deps\<rparr>))"

definition has_valid_entry_conditions :: "'c Insight \<Rightarrow> bool" where
  "has_valid_entry_conditions i = (case opt_or (ins_limit_price i) (ins_stop_price i) of
       None \<Rightarrow> True
     | Some entry \<Rightarrow>
        (let all_levels = (\<lambda>ok l. case l of None \<Rightarrow> True | Some vs \<Rightarrow> list_all ok vs)
         in case ins_side i of
              Buy \<Rightarrow> all_levels (\<lambda>tp. entry < tp) (ins_take_profit_levels i)
                     \<and> all_levels (\<lambda>sl. sl < entry) (ins_stop_loss_levels i)
            | Sell \<Rightarrow> all_levels (\<lambda>tp. tp < entry) (ins_take_profit_levels i)
                     \<and> all_levels (\<lambda>sl. entry < sl) (ins_stop_loss_levels i)))"

text \<open>
  The entry request of an insight (\<open>From<&Insight> for BrokerOrderRequest\<close> in \<open>commands.rs\<close>): the client
  order is the insight's own identifier, so that every submission of the insight is the same entry.
\<close>

definition request_of_insight :: "'c Insight \<Rightarrow> BrokerOrderRequest" where
  "request_of_insight i = \<lparr>req_client_order_id = ins_id i, req_insight_id = ins_id i,
     req_strategy_type = strategy_label (ins_strategy_type i), req_symbol = ins_symbol i,
     req_quantity = ins_quantity i, req_side = ins_side i, req_order_type = ins_order_type i,
     req_order_class = ins_order_class i, req_limit_price = ins_limit_price i, req_stop_price = ins_stop_price i,
     req_take_profit_levels = ins_take_profit_levels i, req_stop_loss_levels = ins_stop_loss_levels i,
     req_trailing_stop_price = ins_trailing_stop_price i\<rparr>"

definition add_child_insight :: "'d Insight \<Rightarrow> bool option \<Rightarrow> 'd Insight Insight \<Rightarrow> 'd Insight Insight" where
  "add_child_insight child is_split_order i =
     (let child = child\<lparr>ins_strategy_type := CustomStrategy (strategy_label (ins_strategy_type i) @ ''-CHILD''),
                       ins_parent_id := Some (ins_id i), ins_is_split_insight := unwrap_or is_split_order False,
                       ins_quantity := opt_or (ins_quantity child) (ins_quantity i)\<rparr>
      in i\<lparr>ins_children := ins_children i @ [child]\<rparr>)"

section \<open>What a change of state keeps\<close>

lemma current_time_frame [simp]:
  "ins_state (snd (current_time i)) = ins_state i"
  "ins_state_history (snd (current_time i)) = ins_state_history i"
  "ins_state_history_kinds (snd (current_time i)) = ins_state_history_kinds i"
  by (simp_all add: current_time_def split: option.splits)

text \<open>The one guarded transition: a filled insight cannot become cancelled or rejected.\<close>

definition next_state :: "InsightState \<Rightarrow> InsightState \<Rightarrow> InsightState" where
  "next_state s new = (if s = StFilled \<and> (new = StCancelled \<or> new = StRejected) then StFilled else new)"

lemma update_state_typed_state [simp]: "ins_state (update_state_typed new m k i) = next_state (ins_state i) new"
  by (auto simp: update_state_typed_def Let_def current_time_def push_state_history_def next_state_def
      split: option.splits)

lemma update_state_typed_frame [simp]:
  "ins_id (update_state_typed new m k i) = ins_id i"
  "ins_order_id (update_state_typed new m k i) = ins_order_id i"
  "ins_side (update_state_typed new m k i) = ins_side i"
  "ins_symbol (update_state_typed new m k i) = ins_symbol i"
  "ins_quantity (update_state_typed new m k i) = ins_quantity i"
  "ins_limit_price (update_state_typed new m k i) = ins_limit_price i"
  "ins_stop_price (update_state_typed new m k i) = ins_stop_price i"
  "ins_filled_price (update_state_typed new m k i) = ins_filled_price i"
  "ins_close_price (update_state_typed new m k i) = ins_close_price i"
  "ins_broker_realized_pnl (update_state_typed new m k i) = ins_broker_realized_pnl i"
  "ins_commission (update_state_typed new m k i) = ins_commission i"
  "ins_swap (update_state_typed new m k i) = ins_swap i"
  "ins_partial_closes (update_state_typed new m k i) = ins_partial_closes i"
  "ins_pending_mutations (update_state_typed new m k i) = ins_pending_mutations i"
  "ins_suppress_child_entries (update_state_typed new m k i) = ins_suppress_child_entries i"
  "ins_submitted (update_state_typed new m k i) = ins_submitted i"
  "ins_entry_filled_quantity (update_state_typed new m k i) = ins_entry_filled_quantity i"
  "ins_partial_filled_quantity (update_state_typed new m k i) = ins_partial_filled_quantity i"
  "ins_position_accounting (update_state_typed new m k i) = ins_position_accounting i"
  "ins_close_order_id (update_state_typed new m k i) = ins_close_order_id i"
  "ins_legs (update_state_typed new m k i) = ins_legs i"
  "ins_take_profit_levels (update_state_typed new m k i) = ins_take_profit_levels i"
  "ins_stop_loss_levels (update_state_typed new m k i) = ins_stop_loss_levels i"
  "ins_trailing_stop_price (update_state_typed new m k i) = ins_trailing_stop_price i"
  "ins_market_changed (update_state_typed new m k i) = ins_market_changed i"
  "ins_strategy_type (update_state_typed new m k i) = ins_strategy_type i"
  "ins_order_type (update_state_typed new m k i) = ins_order_type i"
  "ins_order_class (update_state_typed new m k i) = ins_order_class i"
  "ins_timeframe (update_state_typed new m k i) = ins_timeframe i"
  "ins_created_at (update_state_typed new m k i) = ins_created_at i"
  "ins_filled_at (update_state_typed new m k i) = ins_filled_at i"
  "ins_period_unfilled (update_state_typed new m k i) = ins_period_unfilled i"
  "ins_period_till_tp (update_state_typed new m k i) = ins_period_till_tp i"
  "ins_first_on_fill (update_state_typed new m k i) = ins_first_on_fill i"
  by (simp_all add: update_state_typed_def Let_def current_time_def push_state_history_def split: option.splits)

lemma next_state_same [simp]: "next_state s s = s"
  by (auto simp: next_state_def)

lemma next_state_active [simp]: "next_state s StExecuted = StExecuted" "next_state s StFilled = StFilled"
    "next_state s StClosed = StClosed"
  by (simp_all add: next_state_def)

declare update_state_def [simp] note_change_def [simp] state_log_def [simp] state_log_typed_def [simp]

text \<open>What a setter of levels or prices keeps: everything that says how much is held and in which state.\<close>

definition same_exposure :: "'c Insight \<Rightarrow> 'c Insight \<Rightarrow> bool" where
  "same_exposure i j \<longleftrightarrow> ins_id j = ins_id i \<and> ins_state j = ins_state i \<and> ins_order_id j = ins_order_id i
     \<and> ins_side j = ins_side i \<and> ins_symbol j = ins_symbol i \<and> ins_quantity j = ins_quantity i
     \<and> ins_filled_price j = ins_filled_price i \<and> ins_close_price j = ins_close_price i
     \<and> ins_limit_price j = ins_limit_price i \<and> ins_stop_price j = ins_stop_price i
     \<and> ins_broker_realized_pnl j = ins_broker_realized_pnl i \<and> ins_commission j = ins_commission i
     \<and> ins_swap j = ins_swap i \<and> ins_partial_closes j = ins_partial_closes i
     \<and> ins_pending_mutations j = ins_pending_mutations i
     \<and> ins_suppress_child_entries j = ins_suppress_child_entries i \<and> ins_submitted j = ins_submitted i
     \<and> ins_entry_filled_quantity j = ins_entry_filled_quantity i
     \<and> ins_partial_filled_quantity j = ins_partial_filled_quantity i
     \<and> ins_position_accounting j = ins_position_accounting i"

lemma same_exposure_refl [simp]: "same_exposure i i"
  by (simp add: same_exposure_def)

lemma same_exposure_trans: "same_exposure i j \<Longrightarrow> same_exposure j k \<Longrightarrow> same_exposure i k"
  by (simp add: same_exposure_def)

lemma same_exposure_note: "same_exposure i j \<Longrightarrow> same_exposure i (update_state_typed (ins_state j) m k j)"
  by (simp add: same_exposure_def)

lemma update_order_class_exposure: "same_exposure i j \<Longrightarrow> same_exposure i (update_order_class j)"
  by (simp add: update_order_class_def Let_def same_exposure_def)

lemma setters_exposure:
  assumes "same_exposure i j"
  shows "same_exposure i (set_take_profit_levels levels j)"
    and "same_exposure i (set_stop_loss_levels levels j)"
    and "same_exposure i (set_trailing_stop_price trailing j)"
  using assms by (simp_all add: set_take_profit_levels_def set_stop_loss_levels_def set_trailing_stop_price_def Let_def
      same_exposure_note update_order_class_exposure [unfolded same_exposure_def] same_exposure_def)

text \<open>The history and its kinds stay aligned.\<close>

definition history_aligned :: "'c Insight \<Rightarrow> bool" where
  "history_aligned i \<longleftrightarrow> length (ins_state_history i) = length (ins_state_history_kinds i)"

lemma history_aligned_update: "history_aligned i \<Longrightarrow> history_aligned (update_state_typed new m k i)"
  by (auto simp: history_aligned_def update_state_typed_def Let_def current_time_def push_state_history_def
      split: option.splits)

lemma remaining_quantity_exposure:
  "same_exposure i j \<Longrightarrow> remaining_quantity j = remaining_quantity i"
  by (simp add: same_exposure_def remaining_quantity_def)

lemma remaining_quantity_nonneg: "0 \<le> remaining_quantity i"
  by (simp add: remaining_quantity_def Let_def)

end
