(* ===== verification/OrderReducer.thy ===== *)
theory OrderReducer
  imports Insight
begin

text \<open>
  The reduction of broker evidence to insights (\<open>src/core/strategy/order_reducer.rs\<close>, with the helpers
  of \<open>src/core/strategy/mod.rs\<close> and the rounding of \<open>src/core/utils/tools.rs\<close>): submit responses,
  streamed events and confirmed history all pass through \<open>reduce_broker_order\<close>, the only function
  that moves an insight through its states.  \<open>Uuid::parse_str\<close> is a parameter.
\<close>

section \<open>Rounding to an asset\<close>

text \<open>
  \<open>10f64.powi(n)\<close> for the digits of an asset: the power for \<open>n\<close> up to 22 is exact, for negative
  \<open>n\<close> its reciprocal.
\<close>

definition pow10 :: "int \<Rightarrow> f64" where
  "pow10 n = (if 0 \<le> n then rnd (10 ^ nat n) else Fin 1 / rnd (10 ^ nat (- n)))"

definition round_to_increment :: "f64 \<Rightarrow> f64 \<Rightarrow> f64" where
  "round_to_increment value increment =
     (if increment \<le> 0 then value else fround (value / increment) * increment)"

definition round_to_digits :: "f64 \<Rightarrow> int \<Rightarrow> f64" where
  "round_to_digits value digits = (let factor = pow10 digits in fround (value * factor) / factor)"

definition dynamic_round_for_asset :: "f64 \<Rightarrow> Asset \<Rightarrow> f64" where
  "dynamic_round_for_asset value asset = (case as_price_base asset of
       Some base \<Rightarrow> round_to_digits value base
     | None \<Rightarrow> round_to_increment value (unwrap_or (as_min_price_increment asset) (lit (1 / 100))))"

definition quantity_round_for_asset :: "f64 \<Rightarrow> Asset \<Rightarrow> f64" where
  "quantity_round_for_asset value asset = (case as_quantity_base asset of
       Some base \<Rightarrow> round_to_digits value base
     | None \<Rightarrow> round_to_increment value (unwrap_or (as_min_order_size asset) 1))"

definition round_order_value :: "Order \<Rightarrow> f64 \<Rightarrow> f64" where
  "round_order_value order value = dynamic_round_for_asset value (ord_asset order)"

definition round_order_option_value :: "Order \<Rightarrow> f64 option \<Rightarrow> f64 option" where
  "round_order_option_value order value = map_option (round_order_value order) value"

section \<open>Reading an order\<close>

definition leg_id_is :: "OrderLeg option \<Rightarrow> string \<Rightarrow> bool" where
  "leg_id_is leg oid = (case leg of None \<Rightarrow> False | Some l \<Rightarrow> leg_order_id l = Some oid)"

definition trade_event_matches_insight :: "'c Insight \<Rightarrow> Order \<Rightarrow> bool" where
  "trade_event_matches_insight i order \<longleftrightarrow>
     ord_insight_id order = Some (ins_id i)
     \<or> ins_order_id i = Some (ord_order_id order)
     \<or> ins_close_order_id i = Some (ord_order_id order)
     \<or> leg_id_is (legs_take_profit (ins_legs i)) (ord_order_id order)
     \<or> leg_id_is (legs_stop_loss (ins_legs i)) (ord_order_id order)
     \<or> leg_id_is (legs_trailing_stop (ins_legs i)) (ord_order_id order)"

definition filled_leg :: "OrderLeg option \<Rightarrow> bool" where
  "filled_leg leg = (case leg of None \<Rightarrow> False | Some l \<Rightarrow> leg_status l = Filled)"

definition filled_leg_price :: "OrderLeg option \<Rightarrow> f64 option" where
  "filled_leg_price leg = (case leg of
       Some l \<Rightarrow> if leg_status l = Filled then opt_or (leg_filled_price l) (leg_limit_price l) else None
     | None \<Rightarrow> None)"

definition close_price_from_order :: "Order \<Rightarrow> f64" where
  "close_price_from_order order =
     (let of_legs = (case ord_legs order of None \<Rightarrow> None
            | Some legs \<Rightarrow> opt_or (opt_or (filled_leg_price (legs_stop_loss legs)) (filled_leg_price (legs_take_profit legs)))
                (filled_leg_price (legs_trailing_stop legs)))
      in unwrap_or (opt_or (opt_or (opt_or of_legs (ord_filled_price order)) (ord_stop_price order)) (ord_limit_price order)) 0)"

definition leg_limit :: "OrderLeg option \<Rightarrow> f64 option" where
  "leg_limit leg = (case leg of None \<Rightarrow> None | Some l \<Rightarrow> leg_limit_price l)"

definition at_most_one_level :: "f64 list option \<Rightarrow> bool" where
  "at_most_one_level levels = (case levels of None \<Rightarrow> True | Some vs \<Rightarrow> length vs \<le> 1)"

definition sync_broker_managed_levels :: "Order \<Rightarrow> 'c Insight \<Rightarrow> 'c Insight" where
  "sync_broker_managed_levels order i = (case ord_legs order of
       None \<Rightarrow> i
     | Some legs \<Rightarrow>
        if ord_status order = Closed \<or> filled_leg (legs_take_profit legs) \<or> filled_leg (legs_stop_loss legs)
           \<or> filled_leg (legs_trailing_stop legs)
        then i\<lparr>ins_legs := legs\<rparr>
        else let i = (case leg_limit (legs_take_profit legs) of
                        Some tp \<Rightarrow> if at_most_one_level (ins_take_profit_levels i)
                                   then set_take_profit_levels (Some [round_order_value order tp]) i else i
                      | None \<Rightarrow> i);
                 i = (case leg_limit (legs_stop_loss legs) of
                        Some sl \<Rightarrow> if at_most_one_level (ins_stop_loss_levels i)
                                   then set_stop_loss_levels (Some [round_order_value order sl]) i else i
                      | None \<Rightarrow> i);
                 i = (case (case legs_trailing_stop legs of None \<Rightarrow> None | Some l \<Rightarrow> leg_trail_price l) of
                        Some gap \<Rightarrow> set_trailing_stop_price (Some (round_order_value order gap)) i
                      | None \<Rightarrow> i)
             in i\<lparr>ins_legs := legs\<rparr>)"

section \<open>The reducer\<close>

datatype OrderEvidenceSource = SubmitResponse | TradeStream | TerminalHistory

datatype OrderReduction = Ignored | Updated | AccountingUpdated | EntryFilled | LateEntryFilled | Terminal

definition belongs :: "'c Insight \<Rightarrow> Order \<Rightarrow> OrderEvidenceSource \<Rightarrow> bool" where
  "belongs i order source \<longleftrightarrow> ord_order_id order \<noteq> [] \<and> ins_symbol i = as_symbol (ord_asset order)
     \<and> ((source = SubmitResponse \<and> ord_insight_id order = None
           \<and> (case ins_order_id i of None \<Rightarrow> True | Some oid \<Rightarrow> oid = ord_order_id order))
        \<or> trade_event_matches_insight i order)"

definition entry_order :: "(string \<Rightarrow> string option) \<Rightarrow> 'c Insight \<Rightarrow> Order \<Rightarrow> bool" where
  "entry_order parse_uuid i order \<longleftrightarrow>
     (case ins_order_id i of None \<Rightarrow> True | Some oid \<Rightarrow> oid = ord_order_id order)
     \<or> ((ins_state i = StNew \<or> ins_state i = StExecuted)
        \<and> (case ord_insight_id order of None \<Rightarrow> False | Some iid \<Rightarrow> parse_uuid iid = Some (ins_id i)))"

definition order_price :: "Order \<Rightarrow> f64" where
  "order_price order = round_order_value order (unwrap_or (opt_or (ord_filled_price order) (ord_limit_price order)) 0)"

definition order_commission :: "Order \<Rightarrow> f64 option" where
  "order_commission order = round_order_option_value order (ord_commission order)"

definition valid_fill :: "Order \<Rightarrow> bool" where
  "valid_fill order \<longleftrightarrow> is_finite (ord_filled_qty order) \<and> 0 < ord_filled_qty order
     \<and> is_finite (order_price order) \<and> 0 < order_price order"

definition observe_optional :: "PositionCloseAccounting option \<Rightarrow> 'c Insight \<Rightarrow> 'c Insight" where
  "observe_optional a i = (case a of None \<Rightarrow> i | Some v \<Rightarrow> snd (observe_position_accounting v i))"

text \<open>What was already closed through this exit order: quantity and notional.\<close>

definition closed_through :: "string \<Rightarrow> 'c Insight \<Rightarrow> f64 \<times> f64" where
  "closed_through oid i = foldl (\<lambda>(quantity, notional) p.
       (quantity + pcr_quantity p, notional + pcr_quantity p * unwrap_or (pcr_filled_price p) (pcr_entry_price p)))
     (0, 0) (filter (\<lambda>p. pcr_order_id p = oid) (ins_partial_closes i))"

definition reduce_partial_exit :: "Order \<Rightarrow> 'c Insight \<Rightarrow> OrderReduction \<times> 'c Insight" where
  "reduce_partial_exit order i =
     (let average_close_price = close_price_from_order order;
          (previously_closed, previous_notional) = closed_through (ord_order_id order) i;
          close_qty = ord_filled_qty order - previously_closed;
          close_price = (ord_filled_qty order * average_close_price - previous_notional) / close_qty
      in if \<not> is_finite (ord_filled_qty order) \<or> \<not> is_finite close_qty \<or> close_qty \<le> 0
            \<or> remaining_quantity i < close_qty \<or> \<not> is_finite close_price \<or> close_price \<le> 0
         then (Ignored, i)
         else (Updated, partial_closed close_qty close_price (ord_order_id order) (order_commission order) i))"

text \<open>The exposure that stays when the remainder of a partially filled entry ends.\<close>

definition filled_remainder :: "bool \<Rightarrow> TradeUpdateEvent \<Rightarrow> 'c Insight \<Rightarrow> (f64 \<times> f64) option" where
  "filled_remainder is_entry_order event i =
     (if (ins_state i = StNew \<or> ins_state i = StExecuted) \<and> is_entry_order
         \<and> (event = Cancelled \<or> event = Expired \<or> event = Rejected)
      then (case (ins_entry_filled_quantity i, ins_filled_price i) of
              (Some q, Some p) \<Rightarrow> if 0 < q \<and> is_finite q \<and> 0 < p \<and> is_finite p then Some (q, p) else None
            | _ \<Rightarrow> None)
      else None)"

definition keep_remainder :: "TradeUpdateEvent \<Rightarrow> string \<Rightarrow> f64 \<times> f64 \<Rightarrow> 'c Insight \<Rightarrow> 'c Insight" where
  "keep_remainder event oid qp i =
     (let (quantity, price) = qp; commission = ins_commission i;
          i = set_quantity (Some quantity) (i\<lparr>ins_suppress_child_entries := True\<rparr>);
          i = position_filled price quantity oid commission i
      in state_log (Some (NoteRemainder event quantity)) i)"

definition closes_history :: "Order \<Rightarrow> TradeUpdateEvent \<Rightarrow> OrderEvidenceSource \<Rightarrow> 'c Insight \<Rightarrow> bool" where
  "closes_history order event source i \<longleftrightarrow> source = TerminalHistory \<and> event = Closed
     \<and> (ins_state i = StNew \<or> ins_state i = StExecuted \<or> ins_state i = StFilled)
     \<and> ins_order_id i = Some (ord_order_id order)
     \<and> (case ord_realized_pnl order of None \<Rightarrow> False | Some v \<Rightarrow> is_finite v)
     \<and> is_finite (order_price order) \<and> 0 < order_price order"

definition accept_if_new :: "Order \<Rightarrow> 'c Insight \<Rightarrow> 'c Insight" where
  "accept_if_new order i = (if ins_state i = StNew then order_accepted (ord_order_id order) i else i)"

text \<open>The entry events of an insight that is not filled yet.\<close>

definition reduce_entry :: "bool \<Rightarrow> bool \<Rightarrow> Order \<Rightarrow> TradeUpdateEvent \<Rightarrow> OrderEvidenceSource \<Rightarrow> 'c Insight \<Rightarrow> OrderReduction \<times> 'c Insight" where
  "reduce_entry entry_side is_entry_order order event source i =
     (if ins_state i = StNew \<and> (event = Accepted \<or> event = PendingNew \<or> event = New \<or> event = Pending)
         \<and> entry_side \<and> is_entry_order
      then (Updated, sync_broker_managed_levels order (order_accepted (ord_order_id order) i))
      else if event = Filled \<and> entry_side \<and> is_entry_order \<and> valid_fill order
      then (EntryFilled, sync_broker_managed_levels order
              (position_filled (order_price order) (ord_filled_qty order) (ord_order_id order) (order_commission order)
                (accept_if_new order i)))
      else if event = PartialFilled \<and> entry_side \<and> is_entry_order \<and> valid_fill order
      then if ord_filled_qty order \<le> unwrap_or (ins_entry_filled_quantity i) 0 then (Ignored, i)
           else (Updated, sync_broker_managed_levels order
                  (partial_filled (ord_filled_qty order) (order_price order) (ord_order_id order) (order_commission order)
                    (accept_if_new order i)))
      else if (event = Cancelled \<or> event = Expired) \<and> is_entry_order
      then (Terminal, order_cancelled ''Order cancelled'' (sync_broker_managed_levels order i))
      else if event = Rejected \<and> is_entry_order
      then (Terminal, order_rejected (unwrap_or (ord_rejection_reason order) ''Order rejected'')
              (sync_broker_managed_levels order i))
      else if ins_state i = StExecuted \<and> event = Replaced \<and> is_entry_order \<and> source = TradeStream
      then let i = (if \<not> feq_opt (ord_limit_price order) (ins_limit_price i)
                    then i\<lparr>ins_limit_price := round_order_option_value order (ord_limit_price order)\<rparr> else i);
               i = (if \<not> feq_opt (ins_quantity i) (Some (ord_qty order))
                    then i\<lparr>ins_quantity := Some (ord_qty order)\<rparr> else i)
           in (Updated, sync_broker_managed_levels order i)
      else (Ignored, i))"

text \<open>The exit events of a filled insight.\<close>

definition reduce_exit :: "bool \<Rightarrow> Order \<Rightarrow> TradeUpdateEvent \<Rightarrow> OrderEvidenceSource \<Rightarrow> 'c Insight \<Rightarrow> OrderReduction \<times> 'c Insight" where
  "reduce_exit entry_side order event source i =
     (if event = PartialFilled \<and> \<not> entry_side \<and> source = TradeStream then reduce_partial_exit order i
      else if (event = Filled \<or> event = Closed) \<and> source = TradeStream \<and> (\<not> entry_side \<or> event = Closed)
      then let close_price = round_order_value order (close_price_from_order order)
           in if \<not> is_finite close_price \<or> close_price \<le> 0 then (Ignored, i)
              else (Terminal, observe_optional (ord_position_accounting order)
                     (position_closed close_price (ord_order_id order)
                       (round_order_option_value order (ord_realized_pnl order)) (order_commission order)
                       (round_order_option_value order (ord_swap order)) (sync_broker_managed_levels order i)))
      else (Ignored, i))"

definition reduce_late :: "bool \<Rightarrow> Order \<Rightarrow> TradeUpdateEvent \<Rightarrow> 'c Insight \<Rightarrow> OrderReduction \<times> 'c Insight" where
  "reduce_late entry_side order event i =
     (if event = Filled \<and> entry_side \<and> valid_fill order
      then (LateEntryFilled, sync_broker_managed_levels order
              (position_filled (order_price order) (ord_filled_qty order) (ord_order_id order) (order_commission order)
                (i\<lparr>ins_suppress_child_entries := True\<rparr>)))
      else (Ignored, i))"

definition reduce_by_state ::
  "bool \<Rightarrow> bool \<Rightarrow> Order \<Rightarrow> TradeUpdateEvent \<Rightarrow> OrderEvidenceSource \<Rightarrow> 'c Insight \<Rightarrow> OrderReduction \<times> 'c Insight" where
  "reduce_by_state entry_side is_entry_order order event source i = (case ins_state i of
       StNew \<Rightarrow> reduce_entry entry_side is_entry_order order event source i
     | StExecuted \<Rightarrow> reduce_entry entry_side is_entry_order order event source i
     | StFilled \<Rightarrow> reduce_exit entry_side order event source i
     | StCancelled \<Rightarrow> reduce_late entry_side order event i
     | StRejected \<Rightarrow> reduce_late entry_side order event i
     | StClosed \<Rightarrow> (Ignored, i))"

text \<open>A closed insight takes newer accounting of its position, and nothing else.\<close>

definition reduce_accounting :: "Order \<Rightarrow> TradeUpdateEvent \<Rightarrow> OrderEvidenceSource \<Rightarrow> 'c Insight \<Rightarrow> bool \<times> 'c Insight" where
  "reduce_accounting order event source i =
     (if ins_state i = StClosed \<and> event = Closed \<and> source \<noteq> SubmitResponse
      then (case ord_position_accounting order of None \<Rightarrow> (False, i) | Some v \<Rightarrow> observe_position_accounting v i)
      else (False, i))"

definition reduce_broker_order ::
  "(string \<Rightarrow> string option) \<Rightarrow> Order \<Rightarrow> TradeUpdateEvent \<Rightarrow> OrderEvidenceSource \<Rightarrow> 'c Insight \<Rightarrow> OrderReduction \<times> 'c Insight" where
  "reduce_broker_order parse_uuid order event source i =
     (if \<not> belongs i order source then (Ignored, i)
      else case reduce_accounting order event source i of
        (True, i) \<Rightarrow> (AccountingUpdated, i)
      | (False, i) \<Rightarrow>
         let entry_side = (ord_side order = ins_side i); is_entry_order = entry_order parse_uuid i order
         in if closes_history order event source i
            then (Terminal, observe_optional (ord_position_accounting order)
                   (position_closed (order_price order) (ord_order_id order) (ord_realized_pnl order)
                     (ord_commission order) (ord_swap order) (i\<lparr>ins_suppress_child_entries := True\<rparr>)))
            else case filled_remainder is_entry_order event i of
                   Some qp \<Rightarrow> (LateEntryFilled, keep_remainder event (ord_order_id order) qp i)
                 | None \<Rightarrow> reduce_by_state entry_side is_entry_order order event source i)"

section \<open>What the reducer does to an insight\<close>

lemma legs_exposure: "same_exposure i j \<Longrightarrow> same_exposure i (j\<lparr>ins_legs := l\<rparr>)"
  by (simp add: same_exposure_def)

lemma sync_exposure: "same_exposure i (sync_broker_managed_levels order i)"
  unfolding sync_broker_managed_levels_def Let_def
  by (auto split: option.splits intro!: legs_exposure setters_exposure)

lemma sync_keeps [simp]:
  "ins_state (sync_broker_managed_levels order i) = ins_state i"
  "ins_id (sync_broker_managed_levels order i) = ins_id i"
  "ins_side (sync_broker_managed_levels order i) = ins_side i"
  "ins_symbol (sync_broker_managed_levels order i) = ins_symbol i"
  "ins_suppress_child_entries (sync_broker_managed_levels order i) = ins_suppress_child_entries i"
  "ins_entry_filled_quantity (sync_broker_managed_levels order i) = ins_entry_filled_quantity i"
  "ins_partial_filled_quantity (sync_broker_managed_levels order i) = ins_partial_filled_quantity i"
  "ins_partial_closes (sync_broker_managed_levels order i) = ins_partial_closes i"
  "ins_order_id (sync_broker_managed_levels order i) = ins_order_id i"
  using sync_exposure [of i order] by (simp_all add: same_exposure_def)

lemma position_filled_fields [simp]:
  "ins_state (position_filled p q oid c i) = StFilled"
  "ins_id (position_filled p q oid c i) = ins_id i"
  "ins_side (position_filled p q oid c i) = ins_side i"
  "ins_symbol (position_filled p q oid c i) = ins_symbol i"
  "ins_order_id (position_filled p q oid c i) = Some oid"
  "ins_entry_filled_quantity (position_filled p q oid c i) = Some q"
  "ins_filled_price (position_filled p q oid c i) = Some p"
  "ins_suppress_child_entries (position_filled p q oid c i) = ins_suppress_child_entries i"
  "ins_partial_filled_quantity (position_filled p q oid c i) = ins_partial_filled_quantity i"
  "ins_partial_closes (position_filled p q oid c i) = ins_partial_closes i"
  "ins_quantity (position_filled p q oid c i) = ins_quantity i"
  by (simp_all add: position_filled_def Let_def current_time_def set_first_on_fill_def split: option.splits)

lemma position_closed_fields [simp]:
  "ins_state (position_closed p oid pnl c w i) = StClosed"
  "ins_id (position_closed p oid pnl c w i) = ins_id i"
  "ins_side (position_closed p oid pnl c w i) = ins_side i"
  "ins_symbol (position_closed p oid pnl c w i) = ins_symbol i"
  "ins_close_price (position_closed p oid pnl c w i) = Some p"
  "ins_broker_realized_pnl (position_closed p oid pnl c w i) = pnl"
  "ins_partial_closes (position_closed p oid pnl c w i) = ins_partial_closes i"
  "ins_entry_filled_quantity (position_closed p oid pnl c w i) = ins_entry_filled_quantity i"
  "ins_partial_filled_quantity (position_closed p oid pnl c w i) = ins_partial_filled_quantity i"
  by (simp_all add: position_closed_def Let_def current_time_def split: option.splits)

lemma observe_only_accounting:
  "(snd (observe_position_accounting v i))\<lparr>ins_position_accounting := a, ins_wall_clock := w\<rparr>
    = i\<lparr>ins_position_accounting := a, ins_wall_clock := w\<rparr>"
  unfolding observe_position_accounting_def Let_def by (simp split: option.splits)

lemma observe_unchanged:
  assumes "\<not> fst (observe_position_accounting v i)"
  shows "(snd (observe_position_accounting v i))\<lparr>ins_wall_clock := w\<rparr> = i\<lparr>ins_wall_clock := w\<rparr>"
proof -
  have "fst (observe_position_accounting v i)
      \<or> (snd (observe_position_accounting v i))\<lparr>ins_wall_clock := w\<rparr> = i\<lparr>ins_wall_clock := w\<rparr>"
    unfolding observe_position_accounting_def Let_def by (simp split: option.split)
  then show ?thesis using assms by simp
qed

lemma observe_keeps [simp]:
  "ins_state (snd (observe_position_accounting v i)) = ins_state i"
  "ins_id (snd (observe_position_accounting v i)) = ins_id i"
  "ins_side (snd (observe_position_accounting v i)) = ins_side i"
  "ins_symbol (snd (observe_position_accounting v i)) = ins_symbol i"
  by (simp_all add: observe_position_accounting_def Let_def split: option.splits)

lemma observe_optional_keeps [simp]:
  "ins_state (observe_optional a i) = ins_state i"
  "ins_id (observe_optional a i) = ins_id i"
  "ins_side (observe_optional a i) = ins_side i"
  "ins_symbol (observe_optional a i) = ins_symbol i"
  by (simp_all add: observe_optional_def split: option.splits)

section \<open>The lifecycle\<close>

text \<open>
  The lifecycle a strategy relies on, as a labelled transition system: which state an insight may move to,
  and what the reducer reports for the move.  Filled leads only to Closed, Closed is final, and a cancelled or
  rejected insight comes back only by the report of a late fill.
\<close>

inductive lifecycle :: "InsightState \<Rightarrow> OrderReduction \<Rightarrow> InsightState \<Rightarrow> bool" where
  ignored: "lifecycle s Ignored s"
| accounting: "lifecycle StClosed AccountingUpdated StClosed"
| accepted: "lifecycle StNew Updated StExecuted"
| working: "lifecycle StExecuted Updated StExecuted"
| scaled_out: "lifecycle StFilled Updated StFilled"
| filled: "s = StNew \<or> s = StExecuted \<Longrightarrow> lifecycle s EntryFilled StFilled"
| late_fill: "s \<noteq> StFilled \<Longrightarrow> s \<noteq> StClosed \<Longrightarrow> lifecycle s LateEntryFilled StFilled"
| ended: "s = StNew \<or> s = StExecuted \<Longrightarrow> is_inactive s' \<Longrightarrow> lifecycle s Terminal s'"
| exited: "lifecycle StFilled Terminal StClosed"

inductive_simps lifecycle_from_closed: "lifecycle StClosed r s"
inductive_simps lifecycle_from_filled: "lifecycle StFilled r s"
inductive_simps lifecycle_from_new: "lifecycle StNew r s"
inductive_simps lifecycle_from_executed: "lifecycle StExecuted r s"

lemma accept_if_new_state [simp]:
  "ins_state i = StNew \<or> ins_state i = StExecuted \<Longrightarrow> ins_state (accept_if_new order i) = StExecuted"
  by (auto simp: accept_if_new_def order_accepted_def)

lemma partial_filled_state: "ins_state i = StExecuted \<Longrightarrow> ins_state (partial_filled q p oid c i) = StExecuted"
  by (simp add: partial_filled_def)

lemma partial_closed_state [simp]: "ins_state (partial_closed q p oid c i) = StFilled"
  by (simp add: partial_closed_def Let_def)

lemma ended_state:
  "ins_state i \<noteq> StFilled \<Longrightarrow> ins_state (order_cancelled m i) = StCancelled"
  "ins_state i \<noteq> StFilled \<Longrightarrow> ins_state (order_rejected m i) = StRejected"
  by (simp_all add: order_cancelled_def order_rejected_def next_state_def)

lemma order_accepted_state [simp]: "ins_state (order_accepted oid i) = StExecuted"
  by (simp add: order_accepted_def)

lemma reduce_entry_lifecycle:
  assumes "ins_state i = StNew \<or> ins_state i = StExecuted"
  shows "lifecycle (ins_state i) (fst (reduce_entry es eo order event source i)) (ins_state (snd (reduce_entry es eo order event source i)))"
  using assms
proof
  assume "ins_state i = StNew"
  then show ?thesis
    by (simp add: reduce_entry_def Let_def lifecycle_from_new ended_state partial_filled_state is_inactive_def)
next
  assume "ins_state i = StExecuted"
  then show ?thesis
    by (simp add: reduce_entry_def Let_def lifecycle_from_executed ended_state partial_filled_state is_inactive_def)
qed

lemma reduce_exit_lifecycle:
  assumes "ins_state i = StFilled"
  shows "lifecycle (ins_state i) (fst (reduce_exit es order event source i)) (ins_state (snd (reduce_exit es order event source i)))"
proof -
  have "lifecycle StFilled (fst (reduce_partial_exit order i)) (ins_state (snd (reduce_partial_exit order i)))"
    by (simp add: reduce_partial_exit_def split_beta Let_def assms lifecycle_from_filled)
  then show ?thesis by (simp add: reduce_exit_def Let_def assms lifecycle_from_filled)
qed

lemma reduce_late_lifecycle:
  assumes "ins_state i = StCancelled \<or> ins_state i = StRejected"
  shows "lifecycle (ins_state i) (fst (reduce_late es order event i)) (ins_state (snd (reduce_late es order event i)))"
  using assms unfolding reduce_late_def by (auto intro: lifecycle.intros)

lemma reduce_by_state_lifecycle:
  "lifecycle (ins_state i) (fst (reduce_by_state es eo order event source i)) (ins_state (snd (reduce_by_state es eo order event source i)))"
proof (cases "ins_state i")
  case StNew
  then show ?thesis using reduce_entry_lifecycle [of i es eo order event source] by (simp add: reduce_by_state_def)
next
  case StExecuted
  then show ?thesis using reduce_entry_lifecycle [of i es eo order event source] by (simp add: reduce_by_state_def)
next
  case StFilled
  then show ?thesis using reduce_exit_lifecycle [of i es order event source] by (simp add: reduce_by_state_def)
next
  case StClosed
  then show ?thesis by (simp add: reduce_by_state_def lifecycle.ignored)
next
  case StCancelled
  then show ?thesis using reduce_late_lifecycle [of i es order event] by (simp add: reduce_by_state_def)
next
  case StRejected
  then show ?thesis using reduce_late_lifecycle [of i es order event] by (simp add: reduce_by_state_def)
qed

lemma keep_remainder_state [simp]: "ins_state (keep_remainder event oid qp i) = StFilled"
  by (simp add: keep_remainder_def split_beta Let_def)

lemma reduce_accounting_keeps:
  assumes "reduce_accounting order event source i = (b, j)"
  shows "ins_state j = ins_state i" and "b \<Longrightarrow> ins_state i = StClosed"
proof -
  have "ins_state (snd (reduce_accounting order event source i)) = ins_state i
      \<and> (fst (reduce_accounting order event source i) \<longrightarrow> ins_state i = StClosed)"
    by (simp add: reduce_accounting_def split: option.split)
  then show "ins_state j = ins_state i" and "b \<Longrightarrow> ins_state i = StClosed" by (simp_all add: assms)
qed

lemma reduce_lifecycle:
  "lifecycle (ins_state i) (fst (reduce_broker_order parse_uuid order event source i))
     (ins_state (snd (reduce_broker_order parse_uuid order event source i)))"
proof (cases "belongs i order source")
  case True
  obtain b j where bj: "reduce_accounting order event source i = (b, j)" by fastforce
  note k = reduce_accounting_keeps [OF bj]
  show ?thesis
  proof (cases b)
    case True
    then show ?thesis using k \<open>belongs i order source\<close> by (auto simp: reduce_broker_order_def bj intro: lifecycle.intros)
  next
    case b: False
    consider (history) "closes_history order event source j"
      | (remainder) qp where "\<not> closes_history order event source j"
          "filled_remainder (entry_order parse_uuid j order) event j = Some qp"
      | (plain) "\<not> closes_history order event source j" "filled_remainder (entry_order parse_uuid j order) event j = None"
      by fastforce
    then show ?thesis
    proof cases
      case history
      then have "ins_state j = StNew \<or> ins_state j = StExecuted \<or> ins_state j = StFilled"
        by (simp add: closes_history_def)
      moreover have "is_inactive StClosed" by (simp add: is_inactive_def)
      ultimately show ?thesis
        using k history True b by (auto simp: reduce_broker_order_def bj Let_def intro: lifecycle.intros)
    next
      case remainder
      then have "ins_state j = StNew \<or> ins_state j = StExecuted"
        by (auto simp: filled_remainder_def split: if_splits)
      then show ?thesis
        using k remainder True b by (auto simp: reduce_broker_order_def bj Let_def intro: lifecycle.intros)
    next
      case plain
      have "reduce_broker_order parse_uuid order event source i
          = reduce_by_state (ord_side order = ins_side j) (entry_order parse_uuid j order) order event source j"
        using plain True b by (simp add: reduce_broker_order_def bj Let_def)
      then show ?thesis using reduce_by_state_lifecycle [of j] k by simp
    qed
  qed
qed (simp add: reduce_broker_order_def lifecycle.ignored)

text \<open>Evidence in the order in which the strategy takes it.\<close>

type_synonym evidence = "Order \<times> TradeUpdateEvent \<times> OrderEvidenceSource"

fun reduce_all :: "(string \<Rightarrow> string option) \<Rightarrow> evidence list \<Rightarrow> 'c Insight \<Rightarrow> OrderReduction list \<times> 'c Insight" where
  "reduce_all parse_uuid [] i = ([], i)"
| "reduce_all parse_uuid ((order, event, source) # es) i =
     (let (r, j) = reduce_broker_order parse_uuid order event source i; (rs, k) = reduce_all parse_uuid es j
      in (r # rs, k))"

inductive lifecycle_path :: "InsightState \<Rightarrow> OrderReduction list \<Rightarrow> InsightState \<Rightarrow> bool" where
  path_nil: "lifecycle_path s [] s"
| path_cons: "lifecycle s r s' \<Longrightarrow> lifecycle_path s' rs s'' \<Longrightarrow> lifecycle_path s (r # rs) s''"

lemma lifecycle_path_filled:
  assumes "lifecycle_path s rs s'" "s = StFilled \<or> s = StClosed"
  shows "(s' = StFilled \<or> s' = StClosed) \<and> EntryFilled \<notin> set rs \<and> LateEntryFilled \<notin> set rs"
  using assms
  by (induction rule: lifecycle_path.induct) (auto simp: lifecycle_from_filled lifecycle_from_closed)

lemma reduce_unless_closed:
  assumes "belongs i order source" "ins_state i \<noteq> StClosed" "event \<noteq> Closed"
    "filled_remainder (entry_order parse_uuid i order) event i = None"
  shows "reduce_broker_order parse_uuid order event source i
    = reduce_by_state (ord_side order = ins_side i) (entry_order parse_uuid i order) order event source i"
  using assms by (simp add: reduce_broker_order_def reduce_accounting_def closes_history_def Let_def)

lemma reduce_closed:
  assumes "ins_state i = StClosed"
  shows "(snd (reduce_broker_order parse_uuid order event source i))\<lparr>ins_position_accounting := a, ins_wall_clock := w\<rparr>
    = i\<lparr>ins_position_accounting := a, ins_wall_clock := w\<rparr>"
proof -
  obtain b j where bj: "reduce_accounting order event source i = (b, j)" by fastforce
  have j: "j\<lparr>ins_position_accounting := a, ins_wall_clock := w\<rparr> = i\<lparr>ins_position_accounting := a, ins_wall_clock := w\<rparr>"
    using bj observe_only_accounting [where i = i and a = a and w = w]
    by (auto simp: reduce_accounting_def split: if_splits option.splits) (metis snd_conv)
  have closed: "ins_state j = StClosed" using reduce_accounting_keeps [OF bj] assms by simp
  then have "\<not> closes_history order event source j" "filled_remainder eo event j = None" for eo
    by (simp_all add: closes_history_def filled_remainder_def)
  then show ?thesis
    using closed j by (cases b) (simp_all add: reduce_broker_order_def bj Let_def reduce_by_state_def)
qed

section \<open>A concrete insight\<close>

definition sample_insight :: "InsightState \<Rightarrow> nat Insight" where
  "sample_insight s = (insight_new ''i1'' (sconst 0) Buy ''X'' Testing \<lparr>tf_amount = 1, tf_unit = Minute\<rparr> 50 None)
     \<lparr>ins_state := s, ins_order_id := Some ''o1'', ins_quantity := Some (Fin 2),
       ins_entry_filled_quantity := Some (Fin 2), ins_filled_price := Some (Fin 100)\<rparr>"

definition plain_asset :: Asset where
  "plain_asset = \<lparr>as_id = ''a'', as_symbol = ''X'', as_name = ''X'', as_asset_type = Stock,
     as_status = Active, as_exchange = NYSE, as_tradable = True, as_marginable = True,
     as_shortable = True, as_fractional = True, as_min_order_size = None, as_quantity_base = None,
     as_max_order_size = None, as_max_total_size = None, as_min_price_increment = Some 1,
     as_price_base = None, as_contract_size = None, as_trading_calendar = None, as_fees = default_fees\<rparr>"

definition broker_order :: "string \<Rightarrow> OrderSide \<Rightarrow> f64 \<Rightarrow> f64 \<Rightarrow> TradeUpdateEvent \<Rightarrow> Order" where
  "broker_order oid side qty price status = \<lparr>ord_order_id = oid, ord_insight_id = Some ''i1'',
     ord_strategy_type = None, ord_asset = plain_asset, ord_qty = qty, ord_filled_qty = qty,
     ord_limit_price = None, ord_filled_price = Some price, ord_stop_price = None, ord_side = side,
     ord_order_type = Market, ord_time_in_force = GTC, ord_status = status, ord_order_class = Simple,
     ord_created_at = 0, ord_updated_at = 0, ord_submitted_at = 0, ord_filled_at = None,
     ord_realized_pnl = None, ord_position_accounting = None, ord_commission = None, ord_swap = None,
     ord_rejection_reason = None, ord_legs = None\<rparr>"

lemma sample_insight_fields [simp]:
  "ins_state (sample_insight s) = s" "ins_id (sample_insight s) = ''i1''" "ins_side (sample_insight s) = Buy"
  "ins_symbol (sample_insight s) = ''X''" "ins_order_id (sample_insight s) = Some ''o1''"
  "ins_partial_closes (sample_insight s) = []" "ins_partial_filled_quantity (sample_insight s) = None"
  "ins_entry_filled_quantity (sample_insight s) = Some (Fin 2)" "ins_filled_price (sample_insight s) = Some (Fin 100)"
  "ins_close_price (sample_insight s) = None"
  by (simp_all add: sample_insight_def insight_new_def insight_default_def)

lemma broker_order_fields [simp]:
  "ord_order_id (broker_order oid side qty price status) = oid"
  "ord_insight_id (broker_order oid side qty price status) = Some ''i1''"
  "ord_asset (broker_order oid side qty price status) = plain_asset"
  "ord_side (broker_order oid side qty price status) = side"
  "ord_filled_qty (broker_order oid side qty price status) = qty"
  "ord_filled_price (broker_order oid side qty price status) = Some price"
  "ord_legs (broker_order oid side qty price status) = None"
  "ord_commission (broker_order oid side qty price status) = None"
  "ord_status (broker_order oid side qty price status) = status"
  "as_symbol plain_asset = ''X''"
  by (simp_all add: broker_order_def plain_asset_def)

lemma broker_order_belongs [simp]:
  "oid \<noteq> [] \<Longrightarrow> ins_id i = ''i1'' \<Longrightarrow> ins_symbol i = ''X'' \<Longrightarrow> belongs i (broker_order oid side qty price status) source"
  by (simp add: belongs_def trade_event_matches_insight_def)

lemma whole_order_price: "order_price (broker_order oid side qty (Fin (of_int n)) status) = Fin (of_int n)" if "\<bar>n\<bar> \<le> 2 ^ 53"
proof -
  have "\<lfloor>rat_of_int n + 1 / 2\<rfloor> = n" "\<lfloor>1 / 2 - rat_of_int n\<rfloor> = - n" by (rule floor_unique; simp)+
  moreover have "Fin (rat_of_int n) / 1 = Fin (of_int n)" "Fin (rat_of_int n) * 1 = Fin (of_int n)"
    using rnd_int [OF that] by (simp_all add: one_f64_def f64_fin_arith)
  moreover have "\<not> (1::f64) \<le> 0" by (simp add: one_f64_def)
  ultimately show ?thesis
    by (simp add: order_price_def round_order_value_def dynamic_round_for_asset_def plain_asset_def round_to_increment_def
        round_away_def)
qed

section \<open>Properties\<close>

text \<open>C26: Broker evidence moves an insight along its lifecycle only: whatever orders, events and sources arrive and
  in whatever order, the reported reductions and the states are a path of the abstract lifecycle, so that a filled insight can
  only become closed, a closed one stays closed, and a position is reported as opened at most once after it was filled.\<close>

theorem evidence_follows_lifecycle:
  "lifecycle_path (ins_state i) (fst (reduce_all parse_uuid es i)) (ins_state (snd (reduce_all parse_uuid es i)))"
proof (induction es arbitrary: i)
  case Nil
  then show ?case by (simp add: path_nil)
next
  case (Cons e es)
  obtain order event source where e: "e = (order, event, source)" by (cases e)
  obtain r j where rj: "reduce_broker_order parse_uuid order event source i = (r, j)" by fastforce
  have "lifecycle (ins_state i) r (ins_state j)"
    using reduce_lifecycle [of i parse_uuid order event source] by (simp add: rj)
  then show ?case using Cons.IH [of j] by (auto simp: e rj split_beta intro: path_cons)
qed

text \<open>C28: A closed insight is final: no further evidence of any kind changes its exit, its profit, its quantities, its
  levels or its history; only its read-only position accounting may be refreshed.\<close>

theorem closed_insight_is_final:
  assumes "ins_state i = StClosed"
  shows "(snd (reduce_all parse_uuid es i))\<lparr>ins_position_accounting := a, ins_wall_clock := w\<rparr>
    = i\<lparr>ins_position_accounting := a, ins_wall_clock := w\<rparr>"
  using assms
proof (induction es arbitrary: i)
  case (Cons e es)
  obtain order event source where e: "e = (order, event, source)" by (cases e)
  obtain r j where rj: "reduce_broker_order parse_uuid order event source i = (r, j)" by fastforce
  have "lifecycle (ins_state i) r (ins_state j)"
    using reduce_lifecycle [of i parse_uuid order event source] by (simp add: rj)
  then have "ins_state j = StClosed" using Cons.prems by (simp add: lifecycle_from_closed) auto
  then show ?case
    using Cons.IH [of j] reduce_closed [OF Cons.prems, where parse_uuid = parse_uuid and order = order and event = event and source = source and a = a and w = w] by (simp add: e rj split_beta)
qed simp

theorem closed_insight_is_final_witness:
  "(snd (reduce_all Some [(broker_order ''o1'' Buy (Fin 2) (Fin 100) Filled, Filled, TradeStream)] (sample_insight StClosed)))
      \<lparr>ins_position_accounting := None, ins_wall_clock := sconst 0\<rparr>
    = (sample_insight StClosed)\<lparr>ins_position_accounting := None, ins_wall_clock := sconst 0\<rparr>"
  by (rule closed_insight_is_final) simp

text \<open>A position is opened once: after an entry fill no evidence of an order on the entry side, in particular a
  repeated or late full fill, a partial fill, an acceptance or a cancellation, changes the insight at all.\<close>

theorem entry_fill_counted_once:
  assumes "fst (reduce_broker_order parse_uuid order event source i) \<in> {EntryFilled, LateEntryFilled}"
    and "j = snd (reduce_broker_order parse_uuid order event source i)"
    and "ord_side later = ins_side j" "event' \<noteq> Closed"
  shows "reduce_broker_order parse_uuid later event' source' j = (Ignored, j)"
proof -
  have "lifecycle (ins_state i) (fst (reduce_broker_order parse_uuid order event source i)) (ins_state j)"
    using reduce_lifecycle [of i parse_uuid order event source] assms(2) by simp
  then have filled: "ins_state j = StFilled"
    using assms(1) by (auto elim: lifecycle.cases)
  then have "filled_remainder (entry_order parse_uuid j later) event' j = None"
    by (simp add: filled_remainder_def)
  then show ?thesis
    using filled assms(3,4) reduce_unless_closed [of j later source' event' parse_uuid]
    by (cases "belongs j later source'") (simp_all add: reduce_broker_order_def reduce_by_state_def reduce_exit_def)
qed

theorem entry_fill_counted_once_witness:
  "(let j = snd (reduce_broker_order Some (broker_order ''o1'' Buy (Fin 2) (Fin 100) Filled) Filled TradeStream (sample_insight StExecuted))
    in reduce_broker_order Some (broker_order ''o1'' Buy (Fin 2) (Fin 100) Filled) Filled SubmitResponse j = (Ignored, j))"
proof -
  let ?o = "broker_order ''o1'' Buy (Fin 2) (Fin 100) Filled"
  let ?i = "sample_insight StExecuted"
  have "entry_order Some ?i ?o" "valid_fill ?o"
    using whole_order_price [of 100 "''o1''" Buy "Fin 2" Filled] by (simp_all add: entry_order_def valid_fill_def)
  then have r: "reduce_broker_order Some ?o Filled TradeStream ?i = reduce_entry True True ?o Filled TradeStream ?i"
    using reduce_unless_closed [of ?i ?o TradeStream Filled Some]
    by (simp add: filled_remainder_def reduce_by_state_def)
  then have "fst (reduce_broker_order Some ?o Filled TradeStream ?i) = EntryFilled"
    using \<open>valid_fill ?o\<close> by (simp add: reduce_entry_def)
  moreover have "ins_side (snd (reduce_broker_order Some ?o Filled TradeStream ?i)) = Buy"
    using r \<open>valid_fill ?o\<close> by (simp add: reduce_entry_def accept_if_new_def)
  ultimately show ?thesis
    using entry_fill_counted_once [of Some ?o Filled TradeStream ?i _ ?o Filled SubmitResponse] by (simp add: Let_def)
qed

end
