(* ===== verification/InsightExposure.thy ===== *)
theory InsightExposure
  imports OrderReducer
begin

text \<open>
  How the exposure of an insight and its profit follow the evidence: partial exits, remainders of cancelled
  entries, redelivered snapshots and the reported profit.
\<close>

section \<open>Exits and exposure\<close>

text \<open>The values an \<open>f64\<close> variable can hold.\<close>

definition is_f64 :: "f64 \<Rightarrow> bool" where
  "is_f64 a = (case a of Fin x \<Rightarrow> representable x | _ \<Rightarrow> True)"

lemma fsub_zero: "is_f64 a \<Longrightarrow> a - 0 = a"
  by (cases a) (simp_all add: is_f64_def minus_f64_def zero_f64_def rnd_exact)

lemma fzero_add: "is_f64 a \<Longrightarrow> 0 + a = a"
  by (cases a) (simp_all add: is_f64_def plus_f64_def zero_f64_def rnd_exact)

lemma fadd_increases:
  assumes "is_f64 p" "is_finite c" "0 \<le> c" "p \<noteq> NaN"
  shows "p \<le> p + c"
proof (cases p)
  case (Fin x)
  obtain y where y: "c = Fin y" "0 \<le> y" using assms by (auto simp: is_finite_iff)
  have "rnd x \<le> rnd (x + y)" by (rule rnd_mono) (use y in simp)
  then show ?thesis using Fin y assms(1) by (simp add: f64_fin_arith is_f64_def rnd_exact)
next
  case (Infty b)
  then show ?thesis using assms by (auto simp: is_finite_iff plus_f64_def)
qed (use assms in simp)

lemma fsub_antimono:
  assumes "a \<le> b" "q - b \<noteq> NaN" "q - a \<noteq> NaN"
  shows "q - b \<le> q - (a :: f64)"
proof (cases "\<exists>x y z. q = Fin x \<and> a = Fin y \<and> b = Fin z")
  case True
  then show ?thesis using assms by (auto simp: f64_fin_arith intro!: rnd_mono)
next
  case False
  then show ?thesis using assms by (cases q; cases a; cases b) (auto simp: minus_f64_def split: if_splits)
qed

lemma remaining_shrinks:
  assumes "is_f64 p" "is_finite c" "0 < c" "c \<le> fmax (q - p) 0"
  shows "fmax (q - (p + c)) 0 \<le> fmax (q - p) 0"
proof -
  have qp: "q - p \<noteq> NaN" "p \<noteq> NaN"
    using assms(3,4) fle_lt_trans [of "fmax (q - p) 0" 0 c] flt_le_trans [of 0 c "fmax (q - p) 0"]
    by (auto simp: fmax_def minus_f64_def)
  have "p \<le> p + c" by (rule fadd_increases) (use assms qp flt_imp_le in auto)
  then have "q - (p + c) \<noteq> NaN \<Longrightarrow> q - (p + c) \<le> q - p"
    using fsub_antimono [of p "p + c" q] qp by simp
  moreover have "q - p \<le> fmax (q - p) 0" using qp by (intro fmax_ge(2))
  ultimately have "q - (p + c) \<noteq> NaN \<Longrightarrow> fmax (q - (p + c)) 0 \<le> fmax (q - p) 0"
    by (intro fmax_least) (auto intro: fle_trans)
  moreover have "fmax NaN 0 \<le> fmax (q - p) 0" by (simp add: fmax_def [of NaN])
  ultimately show ?thesis by (cases "q - (p + c) = NaN") simp_all
qed

lemma partial_closed_fields [simp]:
  "ins_entry_filled_quantity (partial_closed q p oid c i) = ins_entry_filled_quantity i"
  "ins_quantity (partial_closed q p oid c i) = ins_quantity i"
  "ins_partial_filled_quantity (partial_closed q p oid c i)
    = Some (unwrap_or (ins_partial_filled_quantity i) 0 + q)"
  "ins_partial_closes (partial_closed q p oid c i) = ins_partial_closes i
    @ [\<lparr>pcr_order_id = oid, pcr_side = ins_side i, pcr_quantity = q, pcr_entry_price = unwrap_or (entry_price i) 0,
        pcr_filled_price = Some p\<rparr>]"
  "ins_id (partial_closed q p oid c i) = ins_id i"
  "ins_side (partial_closed q p oid c i) = ins_side i"
  "ins_symbol (partial_closed q p oid c i) = ins_symbol i"
  "ins_order_id (partial_closed q p oid c i) = ins_order_id i"
  "ins_close_order_id (partial_closed q p oid c i) = ins_close_order_id i"
  "ins_legs (partial_closed q p oid c i) = ins_legs i"
  by (simp_all add: partial_closed_def Let_def pcr_new_def entry_price_def)

lemma reduce_filled_exit:
  assumes "ins_state i = StFilled" "event \<noteq> Closed"
  shows "reduce_broker_order parse_uuid order event source i
    = (if belongs i order source then reduce_exit (ord_side order = ins_side i) order event source i else (Ignored, i))"
  using assms by (simp add: reduce_broker_order_def reduce_accounting_def closes_history_def filled_remainder_def
      reduce_by_state_def)

text \<open>What an insight holds of its entry, and what its partial exits have closed.\<close>

definition held_quantity :: "'c Insight \<Rightarrow> f64" where
  "held_quantity i = unwrap_or (opt_or (ins_entry_filled_quantity i) (ins_quantity i)) 0"

definition closed_quantity :: "'c Insight \<Rightarrow> f64" where
  "closed_quantity i = unwrap_or (ins_partial_filled_quantity i) 0"

lemma remaining_held: "ins_state i = StFilled \<Longrightarrow> remaining_quantity i = fmax (held_quantity i - closed_quantity i) 0"
  by (simp add: remaining_quantity_def held_quantity_def closed_quantity_def)

lemma whole_remaining:
  assumes "h = Fin (of_int n)" "q = Fin (of_int k)" "0 \<le> k" "k \<le> n" "n \<le> 2 ^ 53"
  shows "fmax (h - q) 0 = Fin (of_int (n - k))"
proof -
  have "h - q = Fin (of_int (n - k))" using rnd_int [of "n - k"] assms by (simp add: f64_fin_arith)
  then show ?thesis using assms by (simp add: fmax_def zero_f64_def)
qed

text \<open>C27: (\<open>reduce_broker_order\<close>, \<open>Insight::partial_closed\<close>) A partial exit the reducer takes adds one exit record, of a positive
  part that is at most the remaining quantity, and adds that part to the closed quantity.  The remaining quantity becomes the held
  quantity less the closed one, in binary64 arithmetic; it does not grow and is not negative.  In whole units up to \<open>2 ^ 53\<close> it falls by
  exactly the part.\<close>

theorem partial_exit_shrinks_exposure:
  assumes "ins_state i = StFilled" "event \<noteq> Closed"
    and "reduce_broker_order parse_uuid order event source i = (Updated, j)"
    and "is_f64 (closed_quantity i)"
  shows "\<exists>p. ins_partial_closes j = ins_partial_closes i @ [p] \<and> pcr_order_id p = ord_order_id order
    \<and> 0 < pcr_quantity p \<and> pcr_quantity p \<le> remaining_quantity i
    \<and> held_quantity j = held_quantity i \<and> closed_quantity j = closed_quantity i + pcr_quantity p
    \<and> remaining_quantity j = fmax (held_quantity i - (closed_quantity i + pcr_quantity p)) 0
    \<and> 0 \<le> remaining_quantity j \<and> remaining_quantity j \<le> remaining_quantity i
    \<and> (\<forall>n k c. held_quantity i = Fin (of_int n) \<and> closed_quantity i = Fin (of_int k) \<and> pcr_quantity p = Fin (of_int c)
         \<and> 0 \<le> k \<and> k \<le> n \<and> n \<le> 2 ^ 53
         \<longrightarrow> remaining_quantity i = Fin (of_int (n - k)) \<and> remaining_quantity j = Fin (of_int (n - k - c)))"
proof -
  have "reduce_partial_exit order i = (Updated, j)"
    using assms(3) reduce_filled_exit [OF assms(1,2), where order = order and source = source and parse_uuid = parse_uuid]
    by (auto simp: reduce_exit_def Let_def split: if_splits)
  then obtain c p where c: "is_finite c" "\<not> c \<le> 0" "\<not> remaining_quantity i < c"
    and j: "j = partial_closed c p (ord_order_id order) (order_commission order) i"
    by (auto simp: reduce_partial_exit_def Let_def split_beta split: if_splits)
  have pos: "0 < c" using c(1,2) not_fle_iff [of c 0] by (auto simp: is_finite_iff)
  have le: "c \<le> remaining_quantity i"
    using c(1,3) not_flt_iff [of "remaining_quantity i" c] remaining_quantity_nonneg [of i]
    by (cases "remaining_quantity i") (auto simp: is_finite_iff)
  note i = remaining_held [OF assms(1)]
  have j': "held_quantity j = held_quantity i" "closed_quantity j = closed_quantity i + c"
    by (simp_all add: j held_quantity_def closed_quantity_def)
  then have rest: "remaining_quantity j = fmax (held_quantity i - (closed_quantity i + c)) 0"
    using assms(1) remaining_held [of j] by (simp add: j)
  have whole: "remaining_quantity i = Fin (of_int (n - k)) \<and> remaining_quantity j = Fin (of_int (n - k - d))"
    if "held_quantity i = Fin (of_int n)" "closed_quantity i = Fin (of_int k)" "c = Fin (of_int d)" "0 \<le> k" "k \<le> n" "n \<le> 2 ^ 53" for n k d
  proof -
    have one: "remaining_quantity i = Fin (of_int (n - k))" using whole_remaining [OF that(1,2,4-6)] i by simp
    then have d: "0 < d" "d \<le> n - k" using pos le that(3) by (simp_all add: zero_f64_def)
    have "closed_quantity i + c = Fin (of_int (k + d))" using rnd_int [of "k + d"] that d by (simp add: f64_fin_arith)
    then show ?thesis using one rest whole_remaining [OF that(1), of "closed_quantity i + c" "k + d"] that d by (simp add: algebra_simps)
  qed
  have "remaining_quantity j \<le> remaining_quantity i"
    using remaining_shrinks [OF assms(4) c(1) pos, of "held_quantity i"] le i rest by simp
  then show ?thesis using pos le j' rest whole by (auto simp: j remaining_quantity_nonneg)
qed
lemma exit_evidence:
  assumes "c - prev = Fin d" "0 < d" "\<not> remaining_quantity i < Fin d" "(c * p - notional) / Fin d = Fin v" "0 < v"
    and "closed_through oid i = (prev, notional)" "is_finite c" "ins_state i = StFilled" "ins_side i = Buy" "ins_id i = ''i1''"
    "ins_symbol i = ''X''" "oid \<noteq> []"
  shows "reduce_broker_order parse_uuid (broker_order oid Sell c p status) PartialFilled TradeStream i
    = (Updated, partial_closed (Fin d) (Fin v) oid None i)"
  using assms reduce_filled_exit [of i PartialFilled parse_uuid "broker_order oid Sell c p status" TradeStream]
  by (simp add: reduce_exit_def reduce_partial_exit_def close_price_from_order_def order_commission_def
      round_order_option_value_def)

lemma sample_exit_evidence:
  "reduce_broker_order Some (broker_order ''x1'' Sell (Fin 1) (Fin 110) PartialFilled) PartialFilled TradeStream (sample_insight StFilled)
    = (Updated, partial_closed (Fin 1) (Fin 110) ''x1'' None (sample_insight StFilled))"
proof -
  have ints: "rnd 1 = Fin 1" "rnd 2 = Fin 2" "rnd 110 = Fin 110" using rnd_int [of 1] rnd_int [of 2] rnd_int [of 110] by simp_all
  show ?thesis
    by (rule exit_evidence [where prev = 0 and notional = 0])
      (simp_all add: closed_through_def remaining_quantity_def f64_fin_arith ints fmax_def)
qed

theorem partial_exit_shrinks_exposure_witness:
  "remaining_quantity (sample_insight StFilled) = Fin 2
   \<and> remaining_quantity (partial_closed (Fin 1) (Fin 110) ''x1'' None (sample_insight StFilled)) = Fin 1"
proof -
  have i: "held_quantity (sample_insight StFilled) = Fin (of_int 2)" "closed_quantity (sample_insight StFilled) = Fin (of_int 0)"
      "ins_state (sample_insight StFilled) = StFilled"
    by (simp_all add: held_quantity_def closed_quantity_def zero_f64_def sample_insight_def insight_new_def insight_default_def Let_def)
  obtain p where "ins_partial_closes (partial_closed (Fin 1) (Fin 110) ''x1'' None (sample_insight StFilled))
      = ins_partial_closes (sample_insight StFilled) @ [p]"
    and whole: "\<forall>n k c. held_quantity (sample_insight StFilled) = Fin (of_int n) \<and> closed_quantity (sample_insight StFilled) = Fin (of_int k)
         \<and> pcr_quantity p = Fin (of_int c) \<and> 0 \<le> k \<and> k \<le> n \<and> n \<le> 2 ^ 53
       \<longrightarrow> remaining_quantity (sample_insight StFilled) = Fin (of_int (n - k))
         \<and> remaining_quantity (partial_closed (Fin 1) (Fin 110) ''x1'' None (sample_insight StFilled)) = Fin (of_int (n - k - c))"
    using partial_exit_shrinks_exposure [OF i(3) _ sample_exit_evidence] i(2) representable_int [of 0] by (auto simp: is_f64_def)
  then have "pcr_quantity p = Fin (of_int 1)" by auto
  then show ?thesis using whole [rule_format, of 2 0 1] i by simp
qed

text \<open>A snapshot of an exit that arrives twice closes only once: redelivering the first partial fill of an exit order changes
  nothing.\<close>

theorem redelivered_exit_ignored:
  assumes "ins_state i = StFilled" "event \<noteq> Closed"
    and "reduce_broker_order parse_uuid order event source i = (Updated, j)"
    and "filter (\<lambda>p. pcr_order_id p = ord_order_id order) (ins_partial_closes i) = []" "is_f64 (ord_filled_qty order)"
  shows "reduce_broker_order parse_uuid order event source j = (Ignored, j)"
proof -
  note red = reduce_filled_exit [OF _ assms(2), where order = order and source = source and parse_uuid = parse_uuid]
  have exit: "belongs i order source" "reduce_partial_exit order i = (Updated, j)" "event = PartialFilled" "ord_side order \<noteq> ins_side i"
      "source = TradeStream"
    using assms(3) red [OF assms(1)] by (auto simp: reduce_exit_def Let_def split: if_splits)
  let ?q = "ord_filled_qty order"
  obtain p where j: "j = partial_closed ?q p (ord_order_id order) (order_commission order) i" and fin: "is_finite ?q"
    using exit(2) assms(4) fsub_zero [OF assms(5)]
    by (auto simp: reduce_partial_exit_def closed_through_def Let_def split: if_splits)
  have "fst (closed_through (ord_order_id order) j) = ?q"
    using assms(4) fzero_add [OF assms(5)] by (simp add: j closed_through_def)
  moreover have "?q - ?q = 0" using fin by (auto simp: is_finite_iff f64_fin_arith)
  ultimately have "reduce_partial_exit order j = (Ignored, j)"
    by (simp add: reduce_partial_exit_def Let_def split_beta) (simp add: zero_f64_def)
  moreover have "belongs j order source" "ins_state j = StFilled" "ins_side j = ins_side i"
    using exit(1) by (simp_all add: j belongs_def trade_event_matches_insight_def)
  ultimately show ?thesis using red [of j] exit(3-5) by (simp add: reduce_exit_def)
qed

theorem redelivered_exit_ignored_witness:
  "reduce_broker_order Some (broker_order ''x1'' Sell (Fin 1) (Fin 110) PartialFilled) PartialFilled TradeStream
      (partial_closed (Fin 1) (Fin 110) ''x1'' None (sample_insight StFilled))
    = (Ignored, partial_closed (Fin 1) (Fin 110) ''x1'' None (sample_insight StFilled))"
  by (rule redelivered_exit_ignored [OF _ _ sample_exit_evidence])
    (simp_all add: is_f64_def representable_int [of 1, simplified])

text \<open>When the remainder of a partially filled entry is cancelled, expires or is rejected, the executed part stays an open
  position of exactly the filled quantity at the average entry price, and no dormant child entries are woken.\<close>

theorem cancelled_remainder_keeps_exposure:
  assumes "belongs i order source" "ins_state i = StNew \<or> ins_state i = StExecuted" "entry_order parse_uuid i order"
    and "event \<in> {Cancelled, Expired, Rejected}"
    and "ins_entry_filled_quantity i = Some (Fin q)" "0 < q" "representable q" "ins_partial_filled_quantity i = None"
    and "ins_filled_price i = Some (Fin p)" "0 < p"
  shows "\<exists>j. reduce_broker_order parse_uuid order event source i = (LateEntryFilled, j) \<and> ins_state j = StFilled
    \<and> remaining_quantity j = Fin q \<and> ins_quantity j = Some (Fin q) \<and> entry_price j = Some (Fin p)
    \<and> ins_suppress_child_entries j"
proof -
  let ?j = "keep_remainder event (ord_order_id order) (Fin q, Fin p) i"
  have "reduce_broker_order parse_uuid order event source i = (LateEntryFilled, ?j)"
    using assms by (auto simp: reduce_broker_order_def reduce_accounting_def closes_history_def filled_remainder_def Let_def)
  moreover have f: "ins_state ?j = StFilled" "ins_entry_filled_quantity ?j = Some (Fin q)" "ins_partial_filled_quantity ?j = None"
    "ins_filled_price ?j = Some (Fin p)" "ins_suppress_child_entries ?j" "ins_quantity ?j = Some (Fin q)"
    using assms(8) by (auto simp: keep_remainder_def Let_def set_quantity_def feq_def elim: feq_opt.elims)
  moreover have "remaining_quantity ?j = Fin q"
    using f assms(6) fsub_zero [of "Fin q"] assms(7) by (simp add: remaining_quantity_def is_f64_def fmax_def)
  ultimately show ?thesis by (simp add: entry_price_def)
qed

theorem cancelled_remainder_keeps_exposure_witness:
  "\<exists>j. reduce_broker_order Some (broker_order ''o1'' Buy 0 (Fin 100) Cancelled) Cancelled TradeStream (sample_insight StExecuted)
      = (LateEntryFilled, j) \<and> ins_state j = StFilled
    \<and> remaining_quantity j = Fin 2 \<and> ins_quantity j = Some (Fin 2) \<and> entry_price j = Some (Fin 100)
    \<and> ins_suppress_child_entries j"
  by (rule cancelled_remainder_keeps_exposure)
    (simp_all add: entry_order_def representable_int [of 2, simplified])

text \<open>The same need not hold for later snapshots of an exit order: after cumulative fills of 0.09 and 0.43 the rounded
  difference leaves a rest, so that a redelivery of the second snapshot is taken as a third exit and recorded at the price 16
  although every fill was at 10.\<close>

definition cumulative_exit :: "rat \<Rightarrow> evidence" where
  "cumulative_exit q = (broker_order ''x1'' Sell (Fin q) (Fin 10) PartialFilled, PartialFilled, TradeStream)"

theorem redelivered_snapshot_taken_again:
  "map pcr_filled_price (ins_partial_closes (snd (reduce_all Some
      (map cumulative_exit [3242591731706757 / 36028797018963968, 7746191359077253 / 18014398509481984, 7746191359077253 / 18014398509481984])
      (sample_insight StFilled)))) = [Some (Fin 10), Some (Fin 10), Some (Fin 16)]"
proof -
  let ?a = "3242591731706757 / 36028797018963968 :: rat" and ?q = "7746191359077253 / 18014398509481984 :: rat" and ?d = "3062447746611937 / 9007199254740992 :: rat" and ?e = "1 / 18014398509481984 :: rat"
  let ?i = "sample_insight StFilled"
  let ?j = "partial_closed (Fin ?a) (Fin 10) ''x1'' None ?i"
  let ?k = "partial_closed (Fin ?d) (Fin 10) ''x1'' None ?j"
  have r0: "rnd (3242591731706757 / 36028797018963968) = Fin (3242591731706757 / 36028797018963968)"
    by (rule rnd_at [where n = 56 and m = 6485183463413514]) simp_all
  have r1: "rnd (16212958658533785 / 18014398509481984) = Fin (2026619832316723 / 2251799813685248)"
    by (rule rnd_at [where n = 53 and m = 8106479329266892]) simp_all
  have r2: "rnd (2026619832316723 / 2251799813685248) = Fin (2026619832316723 / 2251799813685248)"
    by (rule rnd_at [where n = 53 and m = 8106479329266892]) simp_all
  have r3: "rnd (32425917317067568 / 3242591731706757) = Fin (10)"
    by (rule rnd_at [where n = 49 and m = 5629499534213120]) simp_all
  have r4: "rnd (12249790986447749 / 36028797018963968) = Fin (3062447746611937 / 9007199254740992)"
    by (rule rnd_at [where n = 54 and m = 6124895493223874]) simp_all
  have r5: "rnd (38730956795386265 / 9007199254740992) = Fin (4841369599423283 / 1125899906842624)"
    by (rule rnd_at [where n = 50 and m = 4841369599423283]) simp_all
  have r6: "rnd (7656119366529843 / 2251799813685248) = Fin (7656119366529843 / 2251799813685248)"
    by (rule rnd_at [where n = 51 and m = 7656119366529843]) simp_all
  have r7: "rnd (30624477466119372 / 3062447746611937) = Fin (10)"
    by (rule rnd_at [where n = 49 and m = 5629499534213120]) simp_all
  have r8: "rnd (68815002306221179 / 36028797018963968) = Fin (8601875288277647 / 4503599627370496)"
    by (rule rnd_at [where n = 52 and m = 8601875288277647]) simp_all
  have r9: "rnd (2) = Fin (2)"
    by (rule rnd_at [where n = 51 and m = 4503599627370496]) simp_all
  have r10: "rnd (15492382718154505 / 36028797018963968) = Fin (1936547839769313 / 4503599627370496)"
    by (rule rnd_at [where n = 54 and m = 7746191359077252]) simp_all
  have r11: "rnd (15312238733059685 / 4503599627370496) = Fin (3828059683264921 / 1125899906842624)"
    by (rule rnd_at [where n = 51 and m = 7656119366529842]) simp_all
  have r12: "rnd (9682739198846565 / 2251799813685248) = Fin (2420684799711641 / 562949953421312)"
    by (rule rnd_at [where n = 50 and m = 4841369599423282]) simp_all
  have r13: "rnd (1 / 18014398509481984) = Fin (1 / 18014398509481984)"
    by (rule rnd_at [where n = 106 and m = 4503599627370496]) simp_all
  have r14: "rnd (1 / 1125899906842624) = Fin (1 / 1125899906842624)"
    by (rule rnd_at [where n = 102 and m = 4503599627370496]) simp_all
  have r15: "rnd (16) = Fin (16)"
    by (rule rnd_at [where n = 48 and m = 4503599627370496]) simp_all
  have r16: "rnd (7070651414971679 / 4503599627370496) = Fin (7070651414971679 / 4503599627370496)"
    by (rule rnd_at [where n = 52 and m = 7070651414971679]) simp_all
  note r = r0 r1 r2 r3 r4 r5 r6 r7 r8 r9 r10 r11 r12 r13 r14 r15 r16
  have ct: "closed_through ''x1'' ?i = (0, 0)" "closed_through ''x1'' ?j = (Fin ?a, Fin (2026619832316723 / 2251799813685248))"
    "closed_through ''x1'' ?k = (Fin (1936547839769313 / 4503599627370496), Fin (2420684799711641 / 562949953421312))"
    by (simp_all add: closed_through_def f64_fin_arith r)
  have 1: "reduce_broker_order Some (broker_order ''x1'' Sell (Fin ?a) (Fin 10) PartialFilled) PartialFilled TradeStream ?i
      = (Updated, ?j)"
    by (rule exit_evidence [OF _ _ _ _ _ ct(1)]) (simp_all add: f64_fin_arith r remaining_quantity_def fmax_def)
  have 2: "reduce_broker_order Some (broker_order ''x1'' Sell (Fin ?q) (Fin 10) PartialFilled) PartialFilled TradeStream ?j
      = (Updated, ?k)"
    by (rule exit_evidence [OF _ _ _ _ _ ct(2)]) (simp_all add: f64_fin_arith r remaining_quantity_def fmax_def)
  have 3: "reduce_broker_order Some (broker_order ''x1'' Sell (Fin ?q) (Fin 10) PartialFilled) PartialFilled TradeStream ?k
      = (Updated, partial_closed (Fin ?e) (Fin 16) ''x1'' None ?k)"
    by (rule exit_evidence [OF _ _ _ _ _ ct(3)]) (simp_all add: f64_fin_arith r remaining_quantity_def fmax_def)
  show ?thesis by (simp add: cumulative_exit_def 1 2 3)
qed

end
