(* ===== verification/InsightPaper.thy ===== *)
theory InsightPaper
  imports InsightExposure PaperRequests
begin

text \<open>
  Insights and the paper broker together: what an insight makes of the events the paper broker emits when it
  settles the exits of a position.
\<close>

section \<open>Whole amounts\<close>

lemma money_round:
  assumes "\<bar>n * 100\<bar> \<le> 2 ^ 53"
  shows "round2 (money n) = money n" and "round_to_digits (money n) 2 = money n"
proof -
  have "Fin (of_int n) * Fin 100 = Fin (of_int (n * 100))" using fint_arith(3) [of n 100] assms by simp
  moreover have "fround (Fin (of_int (n * 100))) = Fin (of_int (n * 100))"
    by (rule fround_int)
  moreover have "Fin (of_int (n * 100)) / Fin 100 = Fin (of_int n)"
    using rnd_int [of n] assms by (simp add: f64_fin_arith)
  ultimately show "round2 (money n) = money n" by (simp add: round2_def money_def)
  moreover have "pow10 2 = Fin 100" using rnd_int [of 100] by (simp add: pow10_def)
  ultimately show "round_to_digits (money n) 2 = money n" by (simp add: round_to_digits_def round2_def)
qed

lemma money_div: "q \<noteq> 0 \<Longrightarrow> \<bar>p\<bar> \<le> 2 ^ 53 \<Longrightarrow> money (q * p) / money q = money p"
  using rnd_int [of p] by (simp add: money_def f64_fin_arith)

section \<open>The events of a settlement\<close>

lemma emit_execution_events:
  "\<exists>ev. pb_trade_events (emit_execution_event order event fill b) = pb_trade_events b @ [ev] \<and> ev_event ev = (order, event)"
  by (auto simp: emit_execution_event_def new_v4_def utc_now_def Let_def split: option.split)

lemma settle_partial_event:
  assumes "settle_close oid px t ts r o1 b = (False, b1)"
  shows "\<exists>ev n. pb_trade_events b1 = pb_trade_events b @ [ev]
    \<and> ev_event ev = ((accrue_close ts r o1)\<lparr>ord_order_id := env_uuid (pb_env b) n, ord_side := opposite (ord_side o1), ord_qty := cpr_qty r,
         ord_filled_qty := cpr_qty r, ord_filled_price := Some px, ord_status := PartialFilled\<rparr>, PartialFilled)"
proof -
  obtain n fill b' where "b1 = emit_execution_event ((accrue_close ts r o1)\<lparr>ord_order_id := env_uuid (pb_env b) n,
         ord_side := opposite (ord_side o1), ord_qty := cpr_qty r, ord_filled_qty := cpr_qty r,
         ord_filled_price := Some px, ord_status := PartialFilled\<rparr>) PartialFilled (Some fill) b'"
    "pb_trade_events b' = pb_trade_events b"
    using assms by (auto simp: settle_close_def Let_def split_beta new_v4_def accrue_close_def put_order_def split: if_splits)
  then show ?thesis using emit_execution_events by metis
qed

lemma settle_final_event:
  assumes "settle_close oid px t ts r o1 b = (True, b1)"
  shows "\<exists>ev. pb_trade_events b1 = pb_trade_events b @ [ev]
    \<and> ev_event ev = (cancel_remaining_legs b ((accrue_close ts r o1)\<lparr>ord_filled_price := Some px,
         ord_filled_qty := cpr_qty r, ord_qty := 0, ord_status := Closed\<rparr>), Closed)"
proof -
  obtain fill b' where "b1 = mark_order_terminal_for_release oid
      (emit_execution_event (cancel_remaining_legs b ((accrue_close ts r o1)\<lparr>ord_filled_price := Some px,
         ord_filled_qty := cpr_qty r, ord_qty := 0, ord_status := Closed\<rparr>)) Closed (Some fill) b')"
    "pb_trade_events b' = pb_trade_events b"
    using assms by (auto simp: settle_close_def Let_def split_beta split: if_splits)
  then show ?thesis
    using emit_execution_events by (simp add: mark_order_terminal_for_release_def) metis
qed

lemma settle_partial_stored:
  assumes "settle_close oid px t ts r o1 b = (False, b1)" "hm_get (pb_orders b) oid \<noteq> None"
  shows "\<exists>q. hm_get (pb_orders b1) oid = Some ((accrue_close ts r o1)\<lparr>ord_qty := q, ord_filled_qty := q, ord_status := Filled\<rparr>)"
proof -
  obtain fill b' q ev where b1: "b1 = emit_execution_event ev PartialFilled (Some fill) b'"
    "hm_get (pb_orders b') oid = Some ((accrue_close ts r o1)\<lparr>ord_qty := q, ord_filled_qty := q, ord_status := Filled\<rparr>)"
    using assms by (auto simp: settle_close_def Let_def split_beta new_v4_def put_order_def split: if_splits)
  have "pb_orders (emit_execution_event ev PartialFilled (Some fill) b') = pb_orders b'"
    by (simp add: emit_execution_event_def new_v4_def utc_now_def Let_def split: option.split)
  then show ?thesis using b1 by auto
qed

definition as_evidence :: "BrokerOrderEvent \<Rightarrow> evidence" where
  "as_evidence ev = (fst (ev_event ev), snd (ev_event ev), TradeStream)"

text \<open>The insight of a bought position of \<open>q\<close> units at \<open>e\<close>, opened by the order.\<close>

definition holds_position :: "Order \<Rightarrow> int \<Rightarrow> int \<Rightarrow> 'c Insight \<Rightarrow> bool" where
  "holds_position order q e i \<longleftrightarrow> ins_state i = StFilled \<and> ins_side i = Buy \<and> ord_side order = Buy
     \<and> ins_symbol i = as_symbol (ord_asset order) \<and> ins_order_id i = Some (ord_order_id order)
     \<and> ord_insight_id order = Some (ins_id i) \<and> ord_order_id order \<noteq> [] \<and> ins_partial_closes i = []
     \<and> ins_partial_filled_quantity i = None \<and> ins_entry_filled_quantity i = Some (money q)
     \<and> ins_filled_price i = Some (money e) \<and> ord_legs order = None \<and> ord_position_accounting order = None
     \<and> as_price_base (ord_asset order) = Some 2"

lemma reduce_whole_partial_exit:
  assumes "holds_position o1 q e i" "uid \<noteq> []" "0 < q1" "q1 \<le> q" "0 < p1" "\<bar>q * p1\<bar> \<le> 2 ^ 53" "\<bar>q\<bar> \<le> 2 ^ 53"
    and "x = (accrue_close ts r o1)\<lparr>ord_order_id := uid, ord_side := Sell, ord_qty := money q1,
          ord_filled_qty := money q1, ord_filled_price := Some (money p1), ord_status := PartialFilled\<rparr>"
  shows "reduce_broker_order parse_uuid x PartialFilled TradeStream i
    = (Updated, partial_closed (money q1) (money p1) uid (order_commission x) i)"
proof -
  have "q1 * p1 \<le> q * p1" using assms(4,5) by (intro mult_right_mono) auto
  moreover have "p1 \<le> q1 * p1" using mult_right_mono [of 1 q1 p1] assms(3,5) by simp
  ultimately have b: "\<bar>q1 * p1\<bar> \<le> 2 ^ 53" "\<bar>q1\<bar> \<le> 2 ^ 53" "\<bar>p1\<bar> \<le> 2 ^ 53"
    using assms(3-7) by linarith+
  have "close_price_from_order x = money p1"
    using assms(1,8) by (simp add: close_price_from_order_def accrue_close_def holds_position_def)
  moreover have "closed_through uid i = (0, 0)" using assms(1) by (simp add: closed_through_def holds_position_def)
  moreover have "money q1 - 0 = money q1" "money q1 * money p1 - 0 = money (q1 * p1)"
    using b money_arith(2) [of q1 0] money_arith(2) [of "q1 * p1" 0] money_arith(3) [of q1 p1] by (simp_all add: money_zero)
  moreover have "money (q1 * p1) / money q1 = money p1" using money_div [of q1 p1] assms(3) b by simp
  moreover have "remaining_quantity i = money q"
    using assms(1,7) money_arith(2) [of q 0] assms(3,4)
    by (simp add: remaining_quantity_def holds_position_def money_zero fmax_def) (simp add: money_def)
  ultimately have "reduce_partial_exit x i = (Updated, partial_closed (money q1) (money p1) uid (order_commission x) i)"
    using assms(3-5,8) by (simp add: reduce_partial_exit_def Let_def) (simp add: money_def)
  moreover have "belongs i x TradeStream" "ord_side x \<noteq> ins_side i"
    using assms(1,2,8) by (simp_all add: belongs_def trade_event_matches_insight_def accrue_close_def holds_position_def)
  ultimately show ?thesis
    using reduce_filled_exit [of i PartialFilled parse_uuid x TradeStream] assms(1)
    by (simp add: reduce_exit_def holds_position_def)
qed

text \<open>C39: The profit an insight reports counts partial exits twice: when the paper broker closes part of a bought position and
  then the rest, its closing event carries the profit of both exits, and the insight adds the profit of the partial exit once more.\<close>

theorem partial_profit_counted_twice:
  assumes "settle_close oid (money p1) t ts r1 o1 b = (False, b1)" "order_at b oid = Some o1"
    and "settle_close oid (money p2) t ts r2 o2 b1 = (True, b2)" "order_at b1 oid = Some o2"
    and "pb_trade_events b = []" "\<And>n. env_uuid (pb_env b) n \<noteq> []" "holds_position o1 q e i" "ord_realized_pnl o1 = None"
    and "cpr_qty r1 = money q1" "cpr_net_pnl r1 = money n1" "cpr_net_pnl r2 = money n2"
    and "0 < q1" "q1 \<le> q" "0 < p1" "0 < p2" "\<bar>q * p1\<bar> \<le> 2 ^ 53" "\<bar>q\<bar> \<le> 2 ^ 53" "\<bar>p2 * 100\<bar> \<le> 2 ^ 53"
    and "\<bar>n1\<bar> \<le> 2 ^ 53" "\<bar>(n1 + n2) * 100\<bar> \<le> 2 ^ 53" "\<bar>p1 - e\<bar> \<le> 2 ^ 53" "\<bar>(p1 - e) * q1\<bar> \<le> 2 ^ 53"
      "\<bar>(n1 + n2 + (p1 - e) * q1) * 100\<bar> \<le> 2 ^ 53"
  shows "get_pl (snd (reduce_all parse_uuid (map as_evidence (pb_trade_events b2)) i)) None True
    = money (n1 + n2 + (p1 - e) * q1)"
proof -
  note h = assms(7) [unfolded holds_position_def]
  obtain ev1 n where ev1: "pb_trade_events b1 = [ev1]"
    "ev_event ev1 = ((accrue_close ts r1 o1)\<lparr>ord_order_id := env_uuid (pb_env b) n, ord_side := Sell, ord_qty := money q1,
         ord_filled_qty := money q1, ord_filled_price := Some (money p1), ord_status := PartialFilled\<rparr>, PartialFilled)"
    using settle_partial_event [OF assms(1)] h assms(5,9) by (auto simp: opposite_def)
  let ?x = "fst (ev_event ev1)"
  let ?j = "partial_closed (money q1) (money p1) (env_uuid (pb_env b) n) (order_commission ?x) i"
  have step1: "reduce_broker_order parse_uuid ?x PartialFilled TradeStream i = (Updated, ?j)"
    by (rule reduce_whole_partial_exit [OF assms(7,6,12,13,14,16,17)]) (simp add: ev1)
  obtain q' where o2: "o2 = (accrue_close ts r1 o1)\<lparr>ord_qty := q', ord_filled_qty := q', ord_status := Filled\<rparr>"
    using settle_partial_stored [OF assms(1)] assms(2,4) by auto
  obtain ev2 where ev2: "pb_trade_events b2 = [ev1, ev2]"
    "ev_event ev2 = (cancel_remaining_legs b1 ((accrue_close ts r2 o2)\<lparr>ord_filled_price := Some (money p2),
         ord_filled_qty := cpr_qty r2, ord_qty := 0, ord_status := Closed\<rparr>), Closed)"
    using settle_final_event [OF assms(3)] ev1(1) by auto
  let ?c = "fst (ev_event ev2)"
  have c: "ord_order_id ?c = ord_order_id o1" "ord_asset ?c = ord_asset o1" "ord_side ?c = Buy" "ord_legs ?c = None"
    "ord_insight_id ?c = Some (ins_id i)" "ord_position_accounting ?c = None" "ord_filled_price ?c = Some (money p2)"
    "ord_realized_pnl ?c = Some (money (n1 + n2))"
    using h assms(8,10,11,19,20) money_arith(1) [of 0 n1] money_arith(1) [of n1 n2]
    by (simp_all add: ev2 o2 accrue_close_def cancel_remaining_legs_def money_zero)
  have round: "round_order_value ?c (money m) = money m" if "\<bar>m * 100\<bar> \<le> 2 ^ 53" for m
    using money_round(2) [OF that] h c(2) by (simp add: round_order_value_def dynamic_round_for_asset_def)
  have px: "round_order_value ?c (close_price_from_order ?c) = money p2"
    using round [OF assms(18)] c(4,7) by (simp add: close_price_from_order_def)
  have "belongs ?j ?c TradeStream" using h c by (simp add: belongs_def trade_event_matches_insight_def)
  then have step2: "reduce_broker_order parse_uuid ?c Closed TradeStream ?j
      = (Terminal, position_closed (money p2) (ord_order_id ?c) (Some (money (n1 + n2))) (order_commission ?c)
          (round_order_option_value ?c (ord_swap ?c)) (sync_broker_managed_levels ?c ?j))"
    using px assms(15) round [OF assms(20)] c h
    by (simp add: reduce_broker_order_def reduce_accounting_def closes_history_def filled_remainder_def reduce_by_state_def
        reduce_exit_def Let_def round_order_option_value_def observe_optional_def) (simp add: money_def)
  have "entry_price i = Some (money e)" using h by (simp add: entry_price_def)
  then have "fsum (map pcr_get_pl (ins_partial_closes ?j)) = money ((p1 - e) * q1)"
    using h assms(21,22) money_arith(2) [of p1 e] money_arith(3) [of "p1 - e" q1] money_arith(1) [of 0 "(p1 - e) * q1"]
    by (simp add: pcr_get_pl_def fsum_def money_zero)
  then show ?thesis
    using step1 step2 ev1(2) ev2(2) assms(20,23) money_arith(1) [of "n1 + n2" "(p1 - e) * q1"] money_round(1) [OF assms(23)]
    by (simp add: ev2(1) as_evidence_def get_pl_def)
qed

definition sample_open_order :: Order where
  "sample_open_order = (sample_order Market Buy None None)
     \<lparr>ord_asset := sample_asset\<lparr>as_price_base := Some 2\<rparr>, ord_status := Filled, ord_filled_qty := money 2,
       ord_filled_price := Some (money 100)\<rparr>"

definition sample_open :: PaperBroker where
  "sample_open = sample_new\<lparr>pb_orders := [(''o1'', sample_open_order)]\<rparr>"

definition sample_exit :: "bool \<Rightarrow> int \<Rightarrow> ClosePositionResult" where
  "sample_exit full net = \<lparr>cpr_fully_closed = full, cpr_qty = money 1, cpr_gross_pnl = money net,
     cpr_net_pnl = money net, cpr_entry_commission = 0, cpr_exit_commission = 0, cpr_swap = 0\<rparr>"

definition sample_half_closed :: PaperBroker where
  "sample_half_closed = snd (settle_close ''o1'' (money 110) 0 0 (sample_exit False 10) sample_open_order sample_open)"

definition sample_closed :: PaperBroker where
  "sample_closed = snd (settle_close ''o1'' (money 130) 0 0 (sample_exit True 30)
     (the (order_at sample_half_closed ''o1'')) sample_half_closed)"

lemma sample_settlements:
  "settle_close ''o1'' (money 110) 0 0 (sample_exit False 10) sample_open_order sample_open = (False, sample_half_closed)"
  "settle_close ''o1'' (money 130) 0 0 (sample_exit True 30) (the (order_at sample_half_closed ''o1'')) sample_half_closed
    = (True, sample_closed)"
proof -
  have "fst (settle_close ''o1'' (money 110) 0 0 (sample_exit False 10) sample_open_order sample_open) = False"
    using money_arith(2) [of 2 1]
    by (simp add: settle_close_def Let_def split_beta sample_exit_def sample_open_order_def sample_order_def EPSILON_def)
      (simp add: money_def fmax_def)
  then show "settle_close ''o1'' (money 110) 0 0 (sample_exit False 10) sample_open_order sample_open = (False, sample_half_closed)"
    by (simp add: sample_half_closed_def prod_eq_iff)
  show "settle_close ''o1'' (money 130) 0 0 (sample_exit True 30) (the (order_at sample_half_closed ''o1'')) sample_half_closed
    = (True, sample_closed)"
    by (simp add: sample_closed_def prod_eq_iff) (simp add: settle_close_def Let_def split_beta sample_exit_def)
qed

theorem partial_profit_counted_twice_witness:
  "get_pl (snd (reduce_all Some (map as_evidence (pb_trade_events sample_closed)) (sample_insight StFilled))) None True = money 50"
proof -
  have stored: "order_at sample_open ''o1'' = Some sample_open_order" by (simp add: sample_open_def hm_get_def)
  moreover have "order_at sample_half_closed ''o1'' = Some (the (order_at sample_half_closed ''o1''))"
    using settle_partial_stored [OF sample_settlements(1)] stored by auto
  moreover have "holds_position sample_open_order 2 100 (sample_insight StFilled)"
    by (simp add: holds_position_def sample_open_order_def sample_order_def sample_asset_def money_def)
  moreover have "pb_trade_events sample_open = []" "\<And>n. env_uuid (pb_env sample_open) n \<noteq> []" "ord_realized_pnl sample_open_order = None"
    by (simp_all add: sample_open_def sample_new_def paper_new_def sample_env_def sample_open_order_def sample_order_def)
  ultimately show ?thesis
    using partial_profit_counted_twice [OF sample_settlements(1) _ sample_settlements(2), of 2 100 "sample_insight StFilled" 1 10 30 Some]
    by (simp add: sample_exit_def)
qed

end
