(* ===== verification/InsightOperations.thy ===== *)
theory InsightOperations
  imports Insight
begin

text \<open>
  The operations of an insight that go through the broker (\<open>src/core/insight/operations.rs\<close> and the
  validation and expiry of \<open>insight.rs\<close>).  They only enqueue commands and poll their receipts; the
  strategy context they call is a parameter, the record of the functions of the trait
  \<open>StrategyContext\<close> over an arbitrary state.
\<close>

section \<open>The strategy context\<close>

datatype BrokerCommandProgress = Queued | Completed BrokerCommandCompletion | FailedProgress BrokerCommandError

datatype InsightMutationState = Applied | PendingReceipt BrokerCommandReceipt

type_synonym InsightMutationResult = "BrokerCommandError + InsightMutationState"

record 'x StrategyContext =
  ctx_enqueue_broker_command ::
    "'x \<Rightarrow> string \<Rightarrow> BrokerCommandAction \<Rightarrow> BrokerOperationGroup option \<Rightarrow> (BrokerCommandError + BrokerCommandReceipt) \<times> 'x"
  ctx_broker_command_progress :: "'x \<Rightarrow> BrokerCommandReceipt \<Rightarrow> BrokerCommandProgress option"
  ctx_broker_command_reduced :: "'x \<Rightarrow> BrokerCommandReceipt \<Rightarrow> 'x"
  ctx_cancel_pending_entry :: "'x \<Rightarrow> BrokerCommandReceipt \<Rightarrow> (BrokerCommandError + unit) \<times> 'x"
  ctx_current_time :: "'x \<Rightarrow> datetime"
  ctx_universe :: "'x \<Rightarrow> string \<Rightarrow> Asset option"
  ctx_can_amend_limit :: "'x \<Rightarrow> bool"
  ctx_can_amend_stop :: "'x \<Rightarrow> bool"

section \<open>Pending mutations\<close>

definition has_pending_kind :: "MutationKind \<Rightarrow> 'c Insight \<Rightarrow> bool" where
  "has_pending_kind kind i \<longleftrightarrow> list_ex (\<lambda>p. pm_kind p = kind) (ins_pending_mutations i)"

definition has_pending_submit :: "'c Insight \<Rightarrow> bool" where
  "has_pending_submit i = has_pending_kind KSubmit i"

definition has_pending_close :: "'c Insight \<Rightarrow> bool" where
  "has_pending_close i = has_pending_kind KClose i"

definition pending_broker_command :: "'c Insight \<Rightarrow> BrokerCommandReceipt option" where
  "pending_broker_command i = (case ins_pending_mutations i of [] \<Rightarrow> None | p # _ \<Rightarrow> Some (pm_receipt p))"

definition pending_close_price :: "'c Insight \<Rightarrow> f64 option" where
  "pending_close_price i =
     (case List.map_filter (\<lambda>p. case pm_effect p of EClose price \<Rightarrow> price | _ \<Rightarrow> None) (ins_pending_mutations i) of
        [] \<Rightarrow> None | v # _ \<Rightarrow> Some v)"

text \<open>The first pending mutation of a kind, with what is left without it.\<close>

fun take_pending :: "MutationKind \<Rightarrow> PendingInsightMutation list \<Rightarrow> (PendingInsightMutation \<times> PendingInsightMutation list) option" where
  "take_pending kind [] = None"
| "take_pending kind (p # ps) = (if pm_kind p = kind then Some (p, ps)
     else map_option (\<lambda>(q, qs). (q, p # qs)) (take_pending kind ps))"

section \<open>Polling\<close>

definition terminal_cleanup :: "MutationKind \<Rightarrow> 'c Insight \<Rightarrow> bool" where
  "terminal_cleanup kind i \<longleftrightarrow> ins_order_id i \<noteq> None \<and> (case kind of
       KClose \<Rightarrow> ins_state i = StClosed
     | KCancel \<Rightarrow> ins_state i = StCancelled \<or> ins_state i = StRejected \<or> ins_state i = StClosed
     | KTakeProfit \<Rightarrow> ins_state i = StClosed \<or> ins_state i = StCancelled
     | KStopLoss \<Rightarrow> ins_state i = StClosed \<or> ins_state i = StCancelled
     | _ \<Rightarrow> False)"

text \<open>A response that is no evidence for this insight.\<close>

definition unrelated_response ::
  "MutationKind \<Rightarrow> BrokerCommandReceipt \<Rightarrow> BrokerCommandCompletion \<Rightarrow> Order \<Rightarrow> 'c Insight \<Rightarrow> bool" where
  "unrelated_response kind receipt completion order i \<longleftrightarrow>
     (let rejected_submit = (kind = KSubmit \<and> ins_state i = StRejected \<and> ins_order_id i = None
            \<and> ord_status order = Rejected \<and> cpl_receipt completion = receipt \<and> rcp_insight_id receipt = ins_id i)
      in (ins_order_id i \<noteq> Some (ord_order_id order) \<and> \<not> (ins_state i = StFilled \<or> ins_state i = StClosed)
            \<and> \<not> rejected_submit)
         \<or> ins_symbol i \<noteq> as_symbol (ord_asset order) \<or> ins_side i \<noteq> ord_side order
         \<or> (case ord_insight_id order of None \<Rightarrow> False | Some iid \<Rightarrow> iid \<noteq> ins_id i))"

definition first_level :: "f64 list option \<Rightarrow> f64 option" where
  "first_level levels = (case levels of Some (v # _) \<Rightarrow> Some v | _ \<Rightarrow> None)"

definition move_leg :: "f64 option \<Rightarrow> datetime \<Rightarrow> OrderLeg \<Rightarrow> OrderLeg" where
  "move_leg price now leg = leg\<lparr>leg_limit_price := price, leg_updated_at := nat (max (timestamp now) 0)\<rparr>"

definition apply_effect :: "datetime \<Rightarrow> MutationEffect \<Rightarrow> 'c Insight \<Rightarrow> 'c Insight" where
  "apply_effect now effect i = (case effect of
       ESubmit \<Rightarrow> if has_pending_kind KCancel i then i else i\<lparr>ins_cancelling := False\<rparr>
     | ETakeProfit levels \<Rightarrow>
         (let i = set_take_profit_levels levels i
          in i\<lparr>ins_legs := (ins_legs i)\<lparr>legs_take_profit := map_option (move_leg (first_level levels) now)
                 (legs_take_profit (ins_legs i))\<rparr>\<rparr>)
     | EStopLoss levels \<Rightarrow>
         (let i = set_stop_loss_levels levels i
          in i\<lparr>ins_legs := (ins_legs i)\<lparr>legs_stop_loss := map_option (move_leg (first_level levels) now)
                 (legs_stop_loss (ins_legs i))\<rparr>\<rparr>)
     | EAmendEntry limit_price stop_price \<Rightarrow>
         if ins_state i = StExecuted \<and> feq (unwrap_or (ins_entry_filled_quantity i) 0) 0
         then let i = (case limit_price of None \<Rightarrow> i | Some p \<Rightarrow> set_limit_price (Some p) i)
              in (case stop_price of None \<Rightarrow> i | Some p \<Rightarrow> set_stop_price (Some p) i)
         else i
     | EReplace price quantity \<Rightarrow> set_quantity (Some quantity) (set_limit_price (Some price) i)
     | _ \<Rightarrow> i)"

text \<open>What a completion other than an ambiguous one does to the insight whose mutation it was.\<close>

definition settle_mutation ::
  "datetime \<Rightarrow> MutationKind \<Rightarrow> PendingInsightMutation \<Rightarrow> BrokerCommandOutcome \<Rightarrow> 'c Insight \<Rightarrow> InsightMutationResult \<times> 'c Insight" where
  "settle_mutation now kind p outcome i = (case outcome of
       DeclinedOutcome reason \<Rightarrow>
         (Inl (CmdDeclined reason),
          case kind of
            KCancel \<Rightarrow> i\<lparr>ins_cancelling := False\<rparr>
          | KClose \<Rightarrow> i\<lparr>ins_closing := False\<rparr>
          | KSubmit \<Rightarrow> if ins_state i = StNew then order_rejected reason i else i
          | _ \<Rightarrow> i)
     | CancelledBeforeDispatch \<Rightarrow>
         (Inr Applied, if kind = KSubmit \<and> ins_state i = StNew
                       then order_cancelled ''Entry intent cancelled before broker dispatch'' i else i)
     | _ \<Rightarrow>
         (Inr Applied, state_log (Some (NoteAcknowledged (rcp_id (pm_receipt p))))
                         (if is_inactive (ins_state i) then i else apply_effect now (pm_effect p) i)))"

definition poll_mutation ::
  "'x StrategyContext \<Rightarrow> MutationKind \<Rightarrow> 'c Insight \<Rightarrow> 'x \<Rightarrow> InsightMutationResult option \<times> 'c Insight \<times> 'x" where
  "poll_mutation C kind i x = (case take_pending kind (ins_pending_mutations i) of
       None \<Rightarrow> (None, i, x)
     | Some (p, rest) \<Rightarrow>
        let receipt = pm_receipt p; kept = (Some (Inr (PendingReceipt receipt)), i, x);
            removed = i\<lparr>ins_pending_mutations := rest\<rparr>
        in (case ctx_broker_command_progress C x receipt of
              None \<Rightarrow> kept
            | Some Queued \<Rightarrow> kept
            | Some (FailedProgress e) \<Rightarrow> (Some (Inl e), i, x)
            | Some (Completed completion) \<Rightarrow>
                (case cpl_outcome completion of
                   Ambiguous _ \<Rightarrow>
                     if terminal_cleanup kind i
                     then (Some (Inr Applied), removed, ctx_broker_command_reduced C x receipt) else kept
                 | outcome \<Rightarrow>
                     if (case outcome of OrderResponse order \<Rightarrow> unrelated_response kind receipt completion order i
                         | _ \<Rightarrow> False) then kept
                     else let (r, j) = settle_mutation (ctx_current_time C x) kind p outcome removed
                          in (Some r, j, ctx_broker_command_reduced C x receipt))))"

definition poll_pending_submission ::
  "'x StrategyContext \<Rightarrow> 'c Insight \<Rightarrow> 'x \<Rightarrow> InsightMutationResult \<times> 'c Insight \<times> 'x" where
  "poll_pending_submission C i x =
     (let (r, i, x) = poll_mutation C KSubmit i x in (unwrap_or r (Inr Applied), i, x))"

definition poll_terminal_mutations :: "'x StrategyContext \<Rightarrow> 'c Insight \<Rightarrow> 'x \<Rightarrow> 'c Insight \<times> 'x" where
  "poll_terminal_mutations C i x =
     (if \<not> is_inactive (ins_state i) then (i, x)
      else foldl (\<lambda>(i, x) kind. snd (poll_mutation C kind i x)) (i, x)
             [KSubmit, KCancel, KClose, KTakeProfit, KStopLoss, KReplace, KAmendEntry])"

section \<open>Requests\<close>

definition queue_mutation ::
  "'x StrategyContext \<Rightarrow> MutationKind \<Rightarrow> BrokerCommandAction \<Rightarrow> MutationEffect \<Rightarrow> BrokerOperationGroup option
    \<Rightarrow> 'c Insight \<Rightarrow> 'x \<Rightarrow> InsightMutationResult \<times> 'c Insight \<times> 'x" where
  "queue_mutation C kind action effect grp i x =
     (case ctx_enqueue_broker_command C x (ins_id i) action grp of
        (Inl e, x) \<Rightarrow> (Inl e, i, x)
      | (Inr receipt, x) \<Rightarrow>
          (Inr (PendingReceipt receipt),
           state_log (Some (NoteQueued (rcp_id receipt)))
             (i\<lparr>ins_pending_mutations := ins_pending_mutations i
                  @ [\<lparr>pm_kind = kind, pm_receipt = receipt, pm_effect = effect\<rparr>]\<rparr>), x))"

text \<open>The rest of \<open>cancel\<close>, after a pending submission was looked at.\<close>

definition cancel_submitted ::
  "'x StrategyContext \<Rightarrow> 'c Insight \<Rightarrow> 'x \<Rightarrow> InsightMutationResult \<times> 'c Insight \<times> 'x" where
  "cancel_submitted C i x = (case poll_mutation C KCancel i x of
       (Some r, i, x) \<Rightarrow> (r, i, x)
     | (None, i, x) \<Rightarrow>
        if is_inactive (ins_state i) \<or> ins_cancelling i then (Inr Applied, i, x)
        else case ins_order_id i of
               None \<Rightarrow> (Inl (CmdInvalid ''cancel requires a broker order ID''), i, x)
             | Some oid \<Rightarrow>
                (case queue_mutation C KCancel (CancelAction oid) ECancel None i x of
                   (Inl e, i, x) \<Rightarrow> (Inl e, i, x)
                 | (Inr r, i, x) \<Rightarrow> (Inr r, i\<lparr>ins_cancelling := True, ins_suppress_child_entries := True\<rparr>, x)))"

definition cancel :: "'x StrategyContext \<Rightarrow> 'c Insight \<Rightarrow> 'x \<Rightarrow> InsightMutationResult \<times> 'c Insight \<times> 'x" where
  "cancel C i x = (case poll_mutation C KSubmit i x of
       (None, i, x) \<Rightarrow> cancel_submitted C i x
     | (Some (Inl e), i, x) \<Rightarrow> (Inl e, i, x)
     | (Some (Inr Applied), i, x) \<Rightarrow> cancel_submitted C (i\<lparr>ins_cancelling := False\<rparr>) x
     | (Some (Inr (PendingReceipt receipt)), i, x) \<Rightarrow>
        (case ctx_cancel_pending_entry C x receipt of
           (Inl e, x) \<Rightarrow> (Inl e, i, x)
         | (Inr _, x) \<Rightarrow> (Inr (PendingReceipt receipt),
                          i\<lparr>ins_suppress_child_entries := True, ins_cancelling := True\<rparr>, x)))"

definition cancel_order_by_id ::
  "'x StrategyContext \<Rightarrow> string \<Rightarrow> 'c Insight \<Rightarrow> 'x \<Rightarrow> InsightMutationResult \<times> 'c Insight \<times> 'x" where
  "cancel_order_by_id C oid i x = (case poll_mutation C KCancel i x of
       (Some r, i, x) \<Rightarrow> (r, i, x)
     | (None, i, x) \<Rightarrow> queue_mutation C KCancel (CancelAction oid) ECancel None i x)"

definition try_close_partial ::
  "'x StrategyContext \<Rightarrow> f64 \<Rightarrow> f64 option \<Rightarrow> 'c Insight \<Rightarrow> 'x \<Rightarrow> InsightMutationResult \<times> 'c Insight \<times> 'x" where
  "try_close_partial C quantity price i x = (case poll_mutation C KClose i x of
       (Some r, i, x) \<Rightarrow> (r, i, x)
     | (None, i, x) \<Rightarrow>
        if is_inactive (ins_state i) \<or> ins_closing i then (Inr Applied, i, x)
        else if ins_state i \<noteq> StFilled \<or> \<not> is_finite quantity \<or> quantity \<le> 0 \<or> remaining_quantity i < quantity
        then (Inl (CmdInvalid ''close requires a positive quantity within the filled remainder''), i, x)
        else case ins_order_id i of
               None \<Rightarrow> (Inl (CmdInvalid ''close requires a broker order ID''), i, x)
             | Some oid \<Rightarrow>
                (case queue_mutation C KClose (CloseAction oid quantity price) (EClose price) None i x of
                   (Inl e, i, x) \<Rightarrow> (Inl e, i, x)
                 | (Inr r, i, x) \<Rightarrow> (Inr r, i\<lparr>ins_closing := True\<rparr>, x)))"

definition close_insight :: "'x StrategyContext \<Rightarrow> 'c Insight \<Rightarrow> 'x \<Rightarrow> InsightMutationResult \<times> 'c Insight \<times> 'x" where
  "close_insight C i x = try_close_partial C (remaining_quantity i) None i x"

text \<open>
  The two protection updates have one body; \<open>tp\<close> tells them apart.  A group is only given for a
  take-profit.
\<close>

definition leg_ticket :: "bool \<Rightarrow> 'c Insight \<Rightarrow> string option" where
  "leg_ticket tp i = opt_or (case (if tp then legs_take_profit (ins_legs i) else legs_stop_loss (ins_legs i)) of
       None \<Rightarrow> None | Some leg \<Rightarrow> leg_order_id leg) (ins_order_id i)"

definition queue_protection ::
  "'x StrategyContext \<Rightarrow> bool \<Rightarrow> f64 list option \<Rightarrow> BrokerOperationGroup option \<Rightarrow> 'c Insight \<Rightarrow> 'x
    \<Rightarrow> InsightMutationResult \<times> 'c Insight \<times> 'x" where
  "queue_protection C tp levels grp i x =
     (if feq_levels (if tp then ins_take_profit_levels i else ins_stop_loss_levels i) levels then (Inr Applied, i, x)
      else if ins_state i \<noteq> StExecuted \<and> ins_state i \<noteq> StFilled
      then (Inr Applied, if tp then set_take_profit_levels levels i else set_stop_loss_levels levels i, x)
      else case first_level levels of
             None \<Rightarrow> (Inl (CmdInvalid (if tp
                then ''clearing live TP requires an explicit broker clear-protection operation''
                else ''clearing live SL requires an explicit broker clear-protection operation'')), i, x)
           | Some price \<Rightarrow>
              (case leg_ticket tp i of
                 None \<Rightarrow> (Inl (CmdInvalid (if tp then ''TP update requires a broker order ID''
                           else ''SL update requires a broker order ID'')), i, x)
               | Some oid \<Rightarrow>
                  if tp then queue_mutation C KTakeProfit (TakeProfitAction oid price (remaining_quantity i))
                               (ETakeProfit levels) grp i x
                  else queue_mutation C KStopLoss (StopLossAction oid price (remaining_quantity i))
                         (EStopLoss levels) None i x))"

definition update_protection ::
  "'x StrategyContext \<Rightarrow> bool \<Rightarrow> f64 list option \<Rightarrow> BrokerOperationGroup option \<Rightarrow> 'c Insight \<Rightarrow> 'x
    \<Rightarrow> InsightMutationResult \<times> 'c Insight \<times> 'x" where
  "update_protection C tp levels grp i x =
     (let levels = normalize_levels levels
      in case poll_mutation C (if tp then KTakeProfit else KStopLoss) i x of
           (None, i, x) \<Rightarrow> queue_protection C tp levels grp i x
         | (Some (Inr Applied), i, x) \<Rightarrow> queue_protection C tp levels grp i x
         | (Some r, i, x) \<Rightarrow> (r, i, x))"

definition update_take_profit_in_group ::
  "'x StrategyContext \<Rightarrow> f64 list option \<Rightarrow> BrokerOperationGroup option \<Rightarrow> 'c Insight \<Rightarrow> 'x
    \<Rightarrow> InsightMutationResult \<times> 'c Insight \<times> 'x" where
  "update_take_profit_in_group C levels grp i x = update_protection C True levels grp i x"

definition insight_update_stop_loss ::
  "'x StrategyContext \<Rightarrow> f64 list option \<Rightarrow> 'c Insight \<Rightarrow> 'x \<Rightarrow> InsightMutationResult \<times> 'c Insight \<times> 'x" where
  "insight_update_stop_loss C levels i x = update_protection C False levels None i x"

text \<open>\<open>update_entry_price\<close> once no amendment is outstanding: wait for the ticket, check, and enqueue.\<close>

definition amend_ready ::
  "'x StrategyContext \<Rightarrow> f64 \<Rightarrow> bool \<Rightarrow> 'c Insight \<Rightarrow> 'x \<Rightarrow> InsightMutationResult \<times> 'c Insight \<times> 'x" where
  "amend_ready C price stop i x =
     (if \<not> is_finite price \<or> price \<le> 0 then (Inl (CmdInvalid ''Entry price must be finite and positive''), i, x)
      else if ins_state i = StNew \<and> ins_order_id i = None
      then (Inr Applied, if stop then set_stop_price (Some price) i else set_limit_price (Some price) i, x)
      else if ins_state i \<noteq> StExecuted
           \<or> \<not> (ins_order_type i = StopLimit \<or> ins_order_type i = (if stop then Stop else Limit))
           \<or> ins_closing i \<or> ins_cancelling i
      then (Inl (CmdInvalid ''Entry amendment requires a matching, active pending order''), i, x)
      else if feq_opt (if stop then ins_stop_price i else ins_limit_price i) (Some price) then (Inr Applied, i, x)
      else if \<not> (if stop then ctx_can_amend_stop C x else ctx_can_amend_limit C x)
      then (Inl (CmdInvalid ''Broker does not support this entry price amendment''), i, x)
      else case ins_order_id i of
             None \<Rightarrow> (Inl (CmdInvalid ''Entry amendment requires a broker order ID''), i, x)
           | Some oid \<Rightarrow>
              (let limit_price = (if stop then None else Some price); stop_price = (if stop then Some price else None)
               in queue_mutation C KAmendEntry (AmendEntryAction oid limit_price stop_price)
                    (EAmendEntry limit_price stop_price) None i x))"

definition amend_after_submit ::
  "'x StrategyContext \<Rightarrow> f64 \<Rightarrow> bool \<Rightarrow> 'c Insight \<Rightarrow> 'x \<Rightarrow> InsightMutationResult \<times> 'c Insight \<times> 'x" where
  "amend_after_submit C price stop i x =
     (if has_pending_submit i
      then (case poll_pending_submission C i x of
              (Inr Applied, i, x) \<Rightarrow> amend_ready C price stop i x
            | (r, i, x) \<Rightarrow> (r, i, x))
      else amend_ready C price stop i x)"

definition update_entry_price ::
  "'x StrategyContext \<Rightarrow> f64 \<Rightarrow> bool \<Rightarrow> 'c Insight \<Rightarrow> 'x \<Rightarrow> InsightMutationResult \<times> 'c Insight \<times> 'x" where
  "update_entry_price C price stop i x =
     (if ins_state i = StFilled \<or> is_inactive (ins_state i) \<or> 0 < unwrap_or (ins_entry_filled_quantity i) 0
      then let (_, i, x) = poll_mutation C KAmendEntry i x
           in (Inr Applied, state_log (Some (NoteText
                ''Cannot update entry limit/stop price: order has already filled or is inactive'')) i, x)
      else case poll_mutation C KAmendEntry i x of
             (None, i, x) \<Rightarrow> amend_after_submit C price stop i x
           | (Some (Inr Applied), i, x) \<Rightarrow> amend_after_submit C price stop i x
           | (Some r, i, x) \<Rightarrow> (r, i, x))"

definition replace_pending_order ::
  "'x StrategyContext \<Rightarrow> f64 \<Rightarrow> f64 \<Rightarrow> 'c Insight \<Rightarrow> 'x \<Rightarrow> InsightMutationResult \<times> 'c Insight \<times> 'x" where
  "replace_pending_order C price quantity i x = (case poll_mutation C KReplace i x of
       (Some r, i, x) \<Rightarrow> (r, i, x)
     | (None, i, x) \<Rightarrow>
        if ins_state i \<noteq> StExecuted then (Inl (CmdInvalid ''replacement requires an Executed entry''), i, x)
        else case ins_order_id i of
               None \<Rightarrow> (Inl (CmdInvalid ''replacement requires a broker order ID''), i, x)
             | Some oid \<Rightarrow> queue_mutation C KReplace (ReplaceAction oid price quantity) (EReplace price quantity) None i x)"

section \<open>Expiry, validation, submission\<close>

text \<open>The anchor and the number of periods of the expiry, when the insight can expire.\<close>

definition expiry_window :: "'c Insight \<Rightarrow> (datetime \<times> nat) option" where
  "expiry_window i = (case ins_state i of
       StNew \<Rightarrow> map_option (Pair (ins_created_at i)) (ins_period_unfilled i)
     | StExecuted \<Rightarrow> map_option (Pair (ins_created_at i)) (ins_period_unfilled i)
     | StFilled \<Rightarrow> map_option (Pair (unwrap_or (ins_filled_at i) (ins_created_at i))) (ins_period_till_tp i)
     | _ \<Rightarrow> None)"

definition expiry_at :: "calendar \<Rightarrow> 'c Insight \<Rightarrow> datetime \<Rightarrow> nat \<Rightarrow> datetime" where
  "expiry_at cal i anchor periods =
     (case add_time_increment cal (ins_timeframe i) anchor (int periods) of Inl _ \<Rightarrow> anchor | Inr t \<Rightarrow> t)"

definition expire_if_due ::
  "calendar \<Rightarrow> 'x StrategyContext \<Rightarrow> 'c Insight \<Rightarrow> 'x \<Rightarrow> InsightMutationResult option \<times> 'c Insight \<times> 'x" where
  "expire_if_due cal C i x = (case expiry_window i of
       None \<Rightarrow> (None, i, x)
     | Some (anchor, periods) \<Rightarrow>
        if ctx_current_time C x < expiry_at cal i anchor periods then (None, i, x)
        else let was_cancelling = ins_cancelling i; was_closing = ins_closing i;
                 (r, i, x) = (if ins_state i = StNew \<and> \<not> has_pending_submit i \<and> ins_order_id i = None
                              then (Inr Applied, order_rejected ''Expired before submission fill window elapsed'' i, x)
                              else if ins_state i = StFilled then close_insight C i x else cancel C i x);
                 i = (if \<not> was_cancelling \<and> ins_cancelling i
                      then state_log (Some (NoteText ''Expired before fill window elapsed; cancel requested'')) i else i);
                 i = (if \<not> was_closing \<and> ins_closing i
                      then state_log (Some (NoteText ''Take-profit time window expired; closing position'')) i else i)
             in (Some r, i, x))"

definition has_expired ::
  "calendar \<Rightarrow> 'x StrategyContext \<Rightarrow> 'c Insight \<Rightarrow> 'x \<Rightarrow> bool \<times> 'c Insight \<times> 'x" where
  "has_expired cal C i x = (let (r, i, x) = expire_if_due cal C i x in (r \<noteq> None, i, x))"

definition invalid_entry :: "Asset option \<Rightarrow> 'c Insight \<Rightarrow> string option" where
  "invalid_entry asset i = (case asset of
       None \<Rightarrow> Some (''Symbol '' @ ins_symbol i @ '' not in universe'')
     | Some a \<Rightarrow>
        if \<not> as_tradable a then Some (''Asset '' @ ins_symbol i @ '' is not tradable'')
        else if ins_side i = Sell \<and> \<not> as_shortable a then Some (''Asset '' @ ins_symbol i @ '' does not allow shorting'')
        else if ins_market_changed i then Some (''Market changed for '' @ ins_symbol i)
        else case ins_quantity i of
               None \<Rightarrow> Some (''Missing quantity for '' @ ins_symbol i)
             | Some q \<Rightarrow>
                if \<not> is_finite q \<or> q \<le> 0 then Some (''Invalid quantity '' @ display_f64 q @ '' for '' @ ins_symbol i)
                else let mn = as_min_order_size a; mx = as_max_order_size a
                     in if (case mn of None \<Rightarrow> False | Some m \<Rightarrow> q < m)
                        then Some (''Quantity '' @ display_f64 q @ '' is below minimum order size ''
                                   @ display_f64 (unwrap_or mn 0) @ '' for '' @ ins_symbol i)
                        else if (case mx of None \<Rightarrow> False | Some m \<Rightarrow> m < q)
                        then Some (''Quantity '' @ display_f64 q @ '' exceeds maximum order size ''
                                   @ display_f64 (unwrap_or mx 0) @ '' for '' @ ins_symbol i)
                        else None)"

definition insight_validate ::
  "calendar \<Rightarrow> 'x StrategyContext \<Rightarrow> 'c Insight \<Rightarrow> 'x \<Rightarrow> (string + bool) \<times> 'c Insight \<times> 'x" where
  "insight_validate cal C i x = (case invalid_entry (ctx_universe C x (ins_symbol i)) i of
       Some reason \<Rightarrow> (Inl reason, i, x)
     | None \<Rightarrow>
        (let (expired, i, x) = has_expired cal C i x
         in if expired then (Inl (''Insight '' @ ins_id i @ '' has expired''), i, x)
            else if \<not> has_valid_entry_conditions i then (Inl (''Invalid entry conditions for '' @ ins_symbol i), i, x)
            else if ctx_universe C x (ins_symbol i) = None
            then (Inl (''Symbol '' @ ins_symbol i @ '' not in universe''), i, x)
            else (Inr True, i, x)))"

definition submit ::
  "calendar \<Rightarrow> 'x StrategyContext \<Rightarrow> 'c Insight \<Rightarrow> 'x \<Rightarrow> InsightMutationResult \<times> 'c Insight \<times> 'x" where
  "submit cal C i x = (case poll_mutation C KSubmit i x of
       (Some r, i, x) \<Rightarrow> (r, i, x)
     | (None, i, x) \<Rightarrow>
        if ins_submitted i \<or> ins_order_id i \<noteq> None \<or> ins_state i \<noteq> StNew then (Inr Applied, i, x)
        else if ins_suppress_child_entries i \<or> ins_cancelling i \<or> ins_closing i
        then (Inl (CmdInvalid ''Entry is gated for cancellation/cleanup''), i, x)
        else case insight_validate cal C i x of
               (Inl reason, i, x) \<Rightarrow> (Inl (CmdInvalid reason), order_rejected reason i, x)
             | (Inr _, i, x) \<Rightarrow> queue_mutation C KSubmit (SubmitAction (request_of_insight i)) ESubmit None i x)"

definition update_market_changed ::
  "'x StrategyContext \<Rightarrow> bool \<Rightarrow> bool \<Rightarrow> 'c Insight \<Rightarrow> 'x \<Rightarrow> 'c Insight \<times> 'x" where
  "update_market_changed C market_changed should_close_or_cancel i x =
     (let i = note_change (NoteText ''Market changed'') (i\<lparr>ins_market_changed := market_changed\<rparr>)
      in if \<not> should_close_or_cancel then (i, x)
         else if ins_state i = StFilled
         then (case close_insight C i x of
                 (Inl e, i, x) \<Rightarrow> (state_log (Some (NoteClosePending e)) i, x) | (_, i, x) \<Rightarrow> (i, x))
         else (case cancel C i x of
                 (Inl e, i, x) \<Rightarrow> (state_log (Some (NoteCancelPending e)) i, x) | (_, i, x) \<Rightarrow> (i, x)))"

end
