(* ===== verification/CommandDriver.thy ===== *)
theory CommandDriver
  imports InsightOperations
begin

text \<open>
  The owner of a strategy's broker commands (\<open>src/core/strategy/command_driver.rs\<close>) with the sending
  side of its worker (\<open>src/core/broker/command_worker.rs\<close>).  A command is admitted in memory, becomes
  eligible for dispatch when the journal has acknowledged the checkpoint that holds it, is handed to the
  worker through bounded queues, and is forgotten only after its completion was reduced and that reduction
  was acknowledged by the journal.

  The worker task, the journal and the clock are the environment: events and replies arrive as inputs, and
  what building and sending a checkpoint batch returns is a parameter.  \<open>expect\<close> is a branch of its own,
  the result \<open>Panic\<close>.  Of a checkpoint row the model has the fields the driver reads.
\<close>

section \<open>The worker's side\<close>

record EntryGate =
  gate_stopped :: bool
  gate_cancelled :: "string list"
  gate_deadlines :: "(string, datetime) hmap"

record StopFence =
  fence_requested :: bool
  fence_persisted :: bool
  fence_failure :: "BrokerCommandError option"

datatype BrokerCommandWorkerEvent = CompletionEvent BrokerCommandCompletion
  | FailedEvent BrokerCommandReceipt BrokerCommandError

text \<open>The sender with its two bounded channels, and the receiving end of the events.\<close>

record BrokerCommandWorker =
  wk_scope :: "string \<times> string"
  wk_entries :: "BrokerCommand list"
  wk_controls :: "BrokerCommand list"
  wk_entry_capacity :: nat
  wk_control_capacity :: nat
  wk_entries_closed :: bool
  wk_controls_closed :: bool
  wk_gate :: EntryGate
  wk_stop :: StopFence
  wk_events :: "BrokerCommandWorkerEvent list"
  wk_events_closed :: bool

definition fence_pending :: "StopFence \<Rightarrow> bool" where
  "fence_pending f \<longleftrightarrow> fence_requested f \<and> \<not> fence_persisted f"

definition fence_error :: "StopFence \<Rightarrow> BrokerCommandError option" where
  "fence_error f = (if fence_pending f then fence_failure f else None)"

definition execution_stop_error :: "BrokerCommandWorker \<Rightarrow> BrokerCommandError option" where
  "execution_stop_error w = fence_error (wk_stop w)"

definition worker_stop_entries :: "BrokerCommandWorker \<Rightarrow> BrokerCommandWorker" where
  "worker_stop_entries w = w\<lparr>wk_gate := (wk_gate w)\<lparr>gate_stopped := True\<rparr>\<rparr>"

definition worker_request_execution_stop :: "BrokerCommandWorker \<Rightarrow> BrokerCommandWorker" where
  "worker_request_execution_stop w =
     (let w = worker_stop_entries w in w\<lparr>wk_stop := (wk_stop w)\<lparr>fence_requested := True\<rparr>\<rparr>)"

definition worker_cancel_pending_entry :: "string \<Rightarrow> BrokerCommandWorker \<Rightarrow> BrokerCommandWorker" where
  "worker_cancel_pending_entry cid w =
     w\<lparr>wk_gate := (wk_gate w)\<lparr>gate_cancelled := List.insert cid (gate_cancelled (wk_gate w))\<rparr>\<rparr>"

definition release_entry_identity :: "string \<Rightarrow> BrokerCommandWorker \<Rightarrow> BrokerCommandWorker" where
  "release_entry_identity cid w =
     w\<lparr>wk_gate := (wk_gate w)\<lparr>gate_cancelled := removeAll cid (gate_cancelled (wk_gate w)),
         gate_deadlines := hm_remove cid (gate_deadlines (wk_gate w))\<rparr>\<rparr>"

definition set_entry_deadline :: "string \<Rightarrow> datetime option \<Rightarrow> BrokerCommandWorker \<Rightarrow> BrokerCommandWorker" where
  "set_entry_deadline cid deadline w =
     w\<lparr>wk_gate := (wk_gate w)\<lparr>gate_deadlines := (case deadline of
         Some t \<Rightarrow> hm_insert cid t (gate_deadlines (wk_gate w))
       | None \<Rightarrow> hm_remove cid (gate_deadlines (wk_gate w)))\<rparr>\<rparr>"

definition entry_is_gated :: "string \<Rightarrow> BrokerCommandWorker \<Rightarrow> bool" where
  "entry_is_gated cid w \<longleftrightarrow> gate_stopped (wk_gate w) \<or> cid \<in> set (gate_cancelled (wk_gate w))"

definition worker_is_closed :: "BrokerCommandWorker \<Rightarrow> bool" where
  "worker_is_closed w \<longleftrightarrow> wk_entries_closed w \<and> wk_controls_closed w"

text \<open>\<open>try_enqueue_inner\<close>; \<open>encode\<close> is \<open>BrokerCommand::encode\<close> with its parameters.\<close>

definition try_enqueue_inner ::
  "(BrokerCommand \<Rightarrow> BrokerCommandError + string) \<Rightarrow> BrokerCommand \<Rightarrow> bool \<Rightarrow> BrokerCommandWorker
    \<Rightarrow> (BrokerCommandError + BrokerCommandReceipt) \<times> BrokerCommandWorker" where
  "try_enqueue_inner encode command prepared w = (case encode command of
       Inl e \<Rightarrow> (Inl e, w)
     | Inr _ \<Rightarrow>
        if (cmd_strategy_id command, cmd_account_id command) \<noteq> wk_scope w
        then (Inl (CmdInvalid ''command belongs to another worker scope''), w)
        else if gate_stopped (wk_gate w) \<and> is_entry (cmd_action command) \<and> \<not> prepared then (Inl CmdStopping, w)
        else if is_teardown (cmd_action command)
        then (if wk_controls_closed w then (Inl CmdClosed, w)
              else if wk_control_capacity w \<le> length (wk_controls w) then (Inl CmdQueueFull, w)
              else (Inr (command_receipt command), w\<lparr>wk_controls := wk_controls w @ [command]\<rparr>))
        else (if wk_entries_closed w then (Inl CmdClosed, w)
              else if wk_entry_capacity w \<le> length (wk_entries w) then (Inl CmdQueueFull, w)
              else (Inr (command_receipt command), w\<lparr>wk_entries := wk_entries w @ [command]\<rparr>)))"

section \<open>The driver\<close>

record PendingCommand =
  pc_owner_id :: string
  pc_command :: BrokerCommand
  pc_progress :: BrokerCommandProgress
  pc_reduced :: bool
  pc_applying :: bool
  pc_queued_at_us :: int
  pc_admission_order :: nat
  pc_durable :: bool
  pc_dispatch_queued :: bool
  pc_recovery_replay :: bool

record InsightExecutionCheckpoint =
  row_insight_id :: string
  row_revision :: nat
  row_materialized :: bool
  row_owner_receipts :: "BrokerCommandReceipt list"
  row_source_fingerprint :: nat
  row_child_ids :: "string list"
  row_pipeline :: "string option"
  row_parent_id :: "string option"
  row_state :: InsightState
  row_order_id :: "string option"
  row_timeframe :: TimeFrame
  row_created_at :: datetime
  row_period_unfilled :: "nat option"
  row_pending_mutations :: "PendingInsightMutation list"

definition retains :: "InsightExecutionCheckpoint \<Rightarrow> BrokerCommandReceipt \<Rightarrow> bool" where
  "retains row receipt \<longleftrightarrow> list_ex (\<lambda>p. rcp_id (pm_receipt p) = rcp_id receipt) (row_pending_mutations row)
     \<or> list_ex (\<lambda>owned. rcp_id owned = rcp_id receipt) (row_owner_receipts row)"

record SavedExecutionRow =
  sr_revision :: nat
  sr_fingerprint :: nat
  sr_parent :: "string option"
  sr_children :: "string list"
  sr_materialized :: bool
  sr_pipeline :: "string option"
  sr_entry_deadline :: "datetime option"

definition from_checkpoint :: "calendar \<Rightarrow> InsightExecutionCheckpoint \<Rightarrow> SavedExecutionRow" where
  "from_checkpoint cal row = \<lparr>sr_revision = row_revision row, sr_fingerprint = row_source_fingerprint row,
     sr_parent = row_parent_id row, sr_children = row_child_ids row, sr_materialized = row_materialized row,
     sr_pipeline = row_pipeline row,
     sr_entry_deadline = map_option (\<lambda>periods.
       case add_time_increment cal (row_timeframe row) (row_created_at row) (int periods) of
         Inl _ \<Rightarrow> row_created_at row | Inr t \<Rightarrow> t) (row_period_unfilled row)\<rparr>"

text \<open>A reply that has not arrived yet is \<open>None\<close>.\<close>

type_synonym journal_reply = "(BrokerCommandError + unit) option"

record PersistingExecution =
  ps_applied :: "string list"
  ps_prepared :: "string list"
  ps_rows :: "(string \<times> SavedExecutionRow) list"
  ps_reply :: "journal_reply option"

record StrategyCommandDriver =
  sd_worker :: BrokerCommandWorker
  sd_pending :: "(string, PendingCommand) hmap"
  sd_persisting :: "PersistingExecution option"
  sd_by_insight :: "(string, string list) hmap"
  sd_entry_admission :: "string list"
  sd_control_admission :: "string list"
  sd_saved_rows :: "(string, SavedExecutionRow) hmap"
  sd_max_pending :: nat
  sd_ordinary_pending :: nat
  sd_max_ordinary_pending :: nat
  sd_awaiting_completion :: nat
  sd_progress_revision :: nat
  sd_last_admission_order :: nat
  sd_restoring :: bool

datatype 'a result = Panic | Fail BrokerCommandError | Ok 'a

text \<open>The environment of admission: \<open>BrokerCommand::encode\<close>, the fresh and the name-based identifiers, \<open>Uuid::parse_str\<close>.\<close>

record CommandEnv =
  ce_encode :: "BrokerCommand \<Rightarrow> BrokerCommandError + string"
  ce_entry_uuid :: "string \<Rightarrow> string \<Rightarrow> string \<Rightarrow> string"
  ce_parse_uuid :: "string \<Rightarrow> string option"

definition with_worker :: "(BrokerCommandWorker \<Rightarrow> BrokerCommandWorker) \<Rightarrow> StrategyCommandDriver \<Rightarrow> StrategyCommandDriver" where
  "with_worker f d = d\<lparr>sd_worker := f (sd_worker d)\<rparr>"

definition request_execution_stop :: "StrategyCommandDriver \<Rightarrow> StrategyCommandDriver" where
  "request_execution_stop d = with_worker worker_request_execution_stop d"

definition modify_pending :: "string \<Rightarrow> (PendingCommand \<Rightarrow> PendingCommand) \<Rightarrow> StrategyCommandDriver \<Rightarrow> StrategyCommandDriver" where
  "modify_pending cid f d = d\<lparr>sd_pending := hm_modify cid f (sd_pending d)\<rparr>"

subsection \<open>Start\<close>

definition driver_new :: "BrokerCommandWorker \<Rightarrow> nat \<Rightarrow> nat \<Rightarrow> StrategyCommandDriver" where
  "driver_new worker completion_capacity last_admission_order = \<lparr>sd_worker = worker, sd_pending = [],
     sd_persisting = None, sd_by_insight = [], sd_entry_admission = [], sd_control_admission = [],
     sd_saved_rows = [],
     sd_max_pending = wk_entry_capacity worker + wk_control_capacity worker + completion_capacity,
     sd_ordinary_pending = 0, sd_max_ordinary_pending = wk_entry_capacity worker + completion_capacity,
     sd_awaiting_completion = 0, sd_progress_revision = 0, sd_last_admission_order = last_admission_order,
     sd_restoring = False\<rparr>"

definition admit :: "PendingCommand \<Rightarrow> StrategyCommandDriver \<Rightarrow> StrategyCommandDriver" where
  "admit p d =
     (let cid = cmd_id (pc_command p); teardown = is_teardown (cmd_action (pc_command p));
          ids = unwrap_or (hm_get (sd_by_insight d) (pc_owner_id p)) []
      in d\<lparr>sd_ordinary_pending := (if teardown then sd_ordinary_pending d else sd_ordinary_pending d + 1),
           sd_by_insight := hm_insert (pc_owner_id p) (ids @ [cid]) (sd_by_insight d),
           sd_control_admission := (if teardown then sd_control_admission d @ [cid] else sd_control_admission d),
           sd_entry_admission := (if teardown then sd_entry_admission d else sd_entry_admission d @ [cid]),
           sd_pending := hm_insert cid p (sd_pending d),
           sd_awaiting_completion := sd_awaiting_completion d + 1\<rparr>)"

text \<open>
  A recovered command with its journal state: whether it is still queued there, and whether the recovered
  graph still allows its entry (\<open>can_dispatch_entry\<close>).
\<close>

record RecoveredCommand =
  rc_command :: BrokerCommand
  rc_queued_at_us :: int
  rc_admission_order :: nat
  rc_queued :: bool
  rc_can_dispatch_entry :: bool

definition recover_command ::
  "CommandEnv \<Rightarrow> RecoveredCommand \<Rightarrow> StrategyCommandDriver \<Rightarrow> BrokerCommandError + StrategyCommandDriver" where
  "recover_command E c d = (case ce_parse_uuid E (cmd_insight_id (rc_command c)) of
       None \<Rightarrow> Inl (CmdJournal ''command owner is not an Insight UUID'')
     | Some owner \<Rightarrow>
        (let cid = cmd_id (rc_command c);
             cancel_entry = (is_entry (cmd_action (rc_command c)) \<and> \<not> rc_can_dispatch_entry c);
             d = (if cancel_entry then with_worker (worker_cancel_pending_entry cid) d else d)
         in Inr (admit \<lparr>pc_owner_id = owner, pc_command = rc_command c, pc_progress = Queued, pc_reduced = False,
                pc_applying = False, pc_queued_at_us = rc_queued_at_us c,
                pc_admission_order = rc_admission_order c, pc_durable = True, pc_dispatch_queued = False,
                pc_recovery_replay = cancel_entry \<or> \<not> rc_queued c\<rparr> d)))"

fun recover_commands ::
  "CommandEnv \<Rightarrow> RecoveredCommand list \<Rightarrow> StrategyCommandDriver \<Rightarrow> BrokerCommandError + StrategyCommandDriver" where
  "recover_commands E [] d = Inr d"
| "recover_commands E (c # cs) d = (case recover_command E c d of Inl e \<Rightarrow> Inl e | Inr d \<Rightarrow> recover_commands E cs d)"

definition start_recovering ::
  "calendar \<Rightarrow> CommandEnv \<Rightarrow> BrokerCommandWorker \<Rightarrow> nat \<Rightarrow> nat \<Rightarrow> InsightExecutionCheckpoint list \<Rightarrow> RecoveredCommand list
    \<Rightarrow> BrokerCommandError + StrategyCommandDriver" where
  "start_recovering cal E worker completion_capacity order rows commands =
     recover_commands E commands
       ((driver_new worker completion_capacity order)\<lparr>sd_restoring := True,
          sd_saved_rows := fold (\<lambda>row m. hm_insert (row_insight_id row) (from_checkpoint cal row) m) rows []\<rparr>)"

definition finish_recovery :: "StrategyCommandDriver \<Rightarrow> StrategyCommandDriver" where
  "finish_recovery d = d\<lparr>sd_restoring := False\<rparr>"

subsection \<open>Admission\<close>

definition driver_cancel_pending_entry ::
  "BrokerCommandReceipt \<Rightarrow> StrategyCommandDriver \<Rightarrow> (BrokerCommandError + unit) \<times> StrategyCommandDriver" where
  "driver_cancel_pending_entry receipt d = (case hm_get (sd_pending d) (rcp_id receipt) of
       Some p \<Rightarrow> if command_receipt (pc_command p) = receipt \<and> is_entry (cmd_action (pc_command p))
                 then (Inr (), with_worker (worker_cancel_pending_entry (cmd_id (pc_command p))) d)
                 else (Inl CmdIdentityConflict, d)
     | None \<Rightarrow> (Inl CmdIdentityConflict, d))"

definition enqueue_command ::
  "CommandEnv \<Rightarrow> int \<Rightarrow> BrokerCommand \<Rightarrow> StrategyCommandDriver
    \<Rightarrow> (BrokerCommandError + BrokerCommandReceipt) \<times> StrategyCommandDriver" where
  "enqueue_command E now_us command d =
     (if sd_restoring d then (Inl (CmdInvalid ''execution recovery is not installed''), d)
      else case ce_encode E command of
        Inl e \<Rightarrow> (Inl e, d)
      | Inr _ \<Rightarrow>
         (case ce_parse_uuid E (cmd_insight_id command) of
            None \<Rightarrow> (Inl (CmdInvalid ''command owner is not an Insight UUID''), d)
          | Some owner \<Rightarrow>
             if (cmd_strategy_id command, cmd_account_id command) \<noteq> wk_scope (sd_worker d)
             then (Inl (CmdInvalid ''command belongs to another driver scope''), d)
             else case hm_get (sd_pending d) (cmd_id command) of
               Some p \<Rightarrow> if pc_command p = command then (Inr (command_receipt (pc_command p)), d)
                         else (Inl CmdIdentityConflict, d)
             | None \<Rightarrow>
                if sd_max_pending d \<le> length (sd_pending d)
                   \<or> (\<not> is_teardown (cmd_action command) \<and> sd_max_ordinary_pending d \<le> sd_ordinary_pending d)
                then (Inl CmdQueueFull, d)
                else if worker_is_closed (sd_worker d) then (Inl CmdClosed, d)
                else if is_entry (cmd_action command) \<and> gate_stopped (wk_gate (sd_worker d)) then (Inl CmdStopping, d)
                else if 2 ^ 63 \<le> sd_last_admission_order d + 1
                then (Inl (CmdInvalid ''owner admission order exhausted''), d)
                else let order = sd_last_admission_order d + 1
                     in (Inr (command_receipt command),
                         admit \<lparr>pc_owner_id = owner, pc_command = command, pc_progress = Queued, pc_reduced = False,
                           pc_applying = False, pc_queued_at_us = now_us, pc_admission_order = order,
                           pc_durable = False, pc_dispatch_queued = False, pc_recovery_replay = False\<rparr>
                           (d\<lparr>sd_last_admission_order := order\<rparr>))))"

definition enqueue_with_constraints ::
  "CommandEnv \<Rightarrow> string \<Rightarrow> int \<Rightarrow> string \<Rightarrow> BrokerCommandAction \<Rightarrow> BrokerOperationGroup option \<Rightarrow> BrokerDispatchConstraints
    \<Rightarrow> StrategyCommandDriver \<Rightarrow> (BrokerCommandError + BrokerCommandReceipt) \<times> StrategyCommandDriver" where
  "enqueue_with_constraints E fresh now_us insight_id action grp constraints d =
     (case wk_scope (sd_worker d) of (strategy_id, account_id) \<Rightarrow>
        enqueue_command E now_us
          (command_new_with_constraints (ce_entry_uuid E) fresh strategy_id account_id insight_id action grp constraints) d)"

definition progress :: "StrategyCommandDriver \<Rightarrow> BrokerCommandReceipt \<Rightarrow> BrokerCommandProgress option" where
  "progress d receipt = (case hm_get (sd_pending d) (rcp_id receipt) of
       Some p \<Rightarrow> if command_receipt (pc_command p) = receipt then Some (pc_progress p) else None
     | None \<Rightarrow> None)"

subsection \<open>Completions\<close>

definition event_receipt :: "BrokerCommandWorkerEvent \<Rightarrow> BrokerCommandReceipt \<times> BrokerCommandProgress" where
  "event_receipt ev = (case ev of
       CompletionEvent completion \<Rightarrow> (cpl_receipt completion, Completed completion)
     | FailedEvent receipt e \<Rightarrow> (receipt, FailedProgress e))"

definition next_ready ::
  "StrategyCommandDriver \<Rightarrow> (BrokerCommandError + (BrokerCommand \<times> BrokerCommandProgress) option) \<times> StrategyCommandDriver" where
  "next_ready d = (case execution_stop_error (sd_worker d) of
       Some e \<Rightarrow> (Inl e, d)
     | None \<Rightarrow>
        (case wk_events (sd_worker d) of
           [] \<Rightarrow> if wk_events_closed (sd_worker d) then (Inl CmdClosed, request_execution_stop d) else (Inr None, d)
         | ev # evs \<Rightarrow>
            (let (receipt, new_progress) = event_receipt ev; d = with_worker (\<lambda>w. w\<lparr>wk_events := evs\<rparr>) d
             in case hm_get (sd_pending d) (rcp_id receipt) of
                  None \<Rightarrow> (Inl CmdIdentityConflict, request_execution_stop d)
                | Some p \<Rightarrow>
                   if command_receipt (pc_command p) \<noteq> receipt then (Inl CmdIdentityConflict, request_execution_stop d)
                   else let d = (if pc_progress p = Queued
                                 then d\<lparr>sd_awaiting_completion := sd_awaiting_completion d - 1\<rparr> else d);
                            d = modify_pending (rcp_id receipt) (\<lambda>p. p\<lparr>pc_progress := new_progress\<rparr>) d
                        in (Inr (Some (pc_command p, new_progress)),
                            d\<lparr>sd_progress_revision := (sd_progress_revision d + 1) mod 2 ^ 64\<rparr>))))"

definition mark_reduced ::
  "BrokerCommandReceipt \<Rightarrow> StrategyCommandDriver \<Rightarrow> (BrokerCommandError + unit) \<times> StrategyCommandDriver" where
  "mark_reduced receipt d = (case hm_get (sd_pending d) (rcp_id receipt) of
       None \<Rightarrow> (Inl CmdIdentityConflict, d)
     | Some p \<Rightarrow>
        if command_receipt (pc_command p) \<noteq> receipt then (Inl CmdIdentityConflict, d)
        else (case pc_progress p of
                Completed _ \<Rightarrow> (Inr (), modify_pending (rcp_id receipt) (\<lambda>p. p\<lparr>pc_reduced := True\<rparr>) d)
              | _ \<Rightarrow> (Inl (CmdInvalid ''command has no completion to reduce''), d)))"

definition is_ambiguous :: "BrokerCommandCompletion \<Rightarrow> bool" where
  "is_ambiguous c = (case cpl_outcome c of Ambiguous _ \<Rightarrow> True | _ \<Rightarrow> False)"

text \<open>
  The part of \<open>reduce_terminal_command_receipts\<close> that touches the driver: an ambiguous command that the exact
  terminal order settles counts as reduced.
\<close>

definition settles_ambiguous :: "string option \<Rightarrow> InsightState \<Rightarrow> PendingCommand \<Rightarrow> bool" where
  "settles_ambiguous order_id s p \<longleftrightarrow> (case pc_progress p of Completed c \<Rightarrow> is_ambiguous c | _ \<Rightarrow> False)
     \<and> settled_by_terminal (cmd_action (pc_command p)) order_id s"

definition reduce_terminal_receipts :: "string \<Rightarrow> string option \<Rightarrow> InsightState \<Rightarrow> StrategyCommandDriver \<Rightarrow> StrategyCommandDriver" where
  "reduce_terminal_receipts owner order_id s d =
     (if \<not> is_inactive s then d
      else fold (\<lambda>cid d. modify_pending cid (\<lambda>p. if settles_ambiguous order_id s p then p\<lparr>pc_reduced := True\<rparr> else p) d)
             (unwrap_or (hm_get (sd_by_insight d) owner) []) d)"

subsection \<open>Questions\<close>

definition has_in_flight_work :: "StrategyCommandDriver \<Rightarrow> bool" where
  "has_in_flight_work d \<longleftrightarrow> sd_awaiting_completion d \<noteq> 0 \<or> sd_persisting d \<noteq> None \<or> fence_pending (wk_stop (sd_worker d))"

definition has_admission_capacity :: "StrategyCommandDriver \<Rightarrow> bool" where
  "has_admission_capacity d \<longleftrightarrow> length (sd_pending d) < sd_max_pending d \<and> sd_ordinary_pending d < sd_max_ordinary_pending d"

definition has_external_execution_work :: "StrategyCommandDriver \<Rightarrow> bool" where
  "has_external_execution_work d \<longleftrightarrow> sd_persisting d \<noteq> None \<or> fence_pending (wk_stop (sd_worker d))
     \<or> list_ex (\<lambda>(_, p). pc_dispatch_queued p \<and> pc_progress p = Queued) (sd_pending d)"

definition operation_group_ready :: "StrategyCommandDriver \<Rightarrow> BrokerOperationGroup \<Rightarrow> bool" where
  "operation_group_ready d grp =
     (let members = filter (\<lambda>(_, p). cmd_group (pc_command p) = Some grp) (sd_pending d)
      in members \<noteq> [] \<and> list_all (\<lambda>(_, p). pc_progress p \<noteq> Queued) members)"

definition failure_of :: "bool \<Rightarrow> PendingCommand \<Rightarrow> BrokerCommandError option" where
  "failure_of include_ambiguous p = (case pc_progress p of
       FailedProgress e \<Rightarrow> Some e
     | Completed c \<Rightarrow> if include_ambiguous \<and> \<not> pc_reduced p \<and> is_ambiguous c
         then Some (CmdInvalid (''command '' @ cmd_id (pc_command p)
           @ '' has an ambiguous outcome; broker reconciliation is required'')) else None
     | Queued \<Rightarrow> None)"

definition execution_failure :: "bool \<Rightarrow> StrategyCommandDriver \<Rightarrow> BrokerCommandError option" where
  "execution_failure include_ambiguous d = (case execution_stop_error (sd_worker d) of
       Some e \<Rightarrow> Some e
     | None \<Rightarrow> (case List.map_filter (\<lambda>(_, p). failure_of include_ambiguous p) (sd_pending d) of
                 [] \<Rightarrow> None | e # _ \<Rightarrow> Some e))"

definition has_unpersisted_intents :: "StrategyCommandDriver \<Rightarrow> string \<Rightarrow> bool" where
  "has_unpersisted_intents d owner = (case hm_get (sd_by_insight d) owner of
       None \<Rightarrow> False
     | Some ids \<Rightarrow> list_ex (\<lambda>cid. case hm_get (sd_pending d) cid of None \<Rightarrow> False | Some p \<Rightarrow> \<not> pc_durable p) ids)"

definition consumable :: "PendingCommand \<Rightarrow> bool" where
  "consumable p \<longleftrightarrow> pc_reduced p \<and> \<not> pc_applying p \<and> (case pc_progress p of Completed _ \<Rightarrow> True | _ \<Rightarrow> False)"

definition pending_owner_ids :: "StrategyCommandDriver \<Rightarrow> string list" where
  "pending_owner_ids d = map fst (filter (\<lambda>(_, ids). list_ex (\<lambda>cid. case hm_get (sd_pending d) cid of
       None \<Rightarrow> False | Some p \<Rightarrow> \<not> pc_durable p \<or> consumable p) ids) (sd_by_insight d))"

definition owned_commands :: "StrategyCommandDriver \<Rightarrow> string \<Rightarrow> PendingCommand list" where
  "owned_commands d owner = List.map_filter (hm_get (sd_pending d)) (unwrap_or (hm_get (sd_by_insight d) owner) [])"

definition has_consumable_receipts :: "StrategyCommandDriver \<Rightarrow> 'c Insight \<Rightarrow> bool" where
  "has_consumable_receipts d i = list_ex (\<lambda>p. consumable p
       \<and> \<not> list_ex (\<lambda>q. rcp_id (pm_receipt q) = cmd_id (pc_command p)) (ins_pending_mutations i))
     (owned_commands d (ins_id i))"

definition consumable_receipts :: "StrategyCommandDriver \<Rightarrow> InsightExecutionCheckpoint \<Rightarrow> BrokerCommandReceipt list" where
  "consumable_receipts d row = map (\<lambda>p. command_receipt (pc_command p))
     (filter (\<lambda>p. consumable p \<and> \<not> retains row (command_receipt (pc_command p))) (owned_commands d (row_insight_id row)))"

subsection \<open>Checkpoints\<close>

record ExecutionIntent =
  ei_command :: BrokerCommand
  ei_queued_at_us :: int
  ei_admission_order :: nat

text \<open>Why a receipt cannot be acknowledged with these rows, if so.\<close>

definition refuses_receipt ::
  "InsightExecutionCheckpoint list \<Rightarrow> StrategyCommandDriver \<Rightarrow> BrokerCommandReceipt \<Rightarrow> BrokerCommandError option" where
  "refuses_receipt rows d receipt = (case hm_get (sd_pending d) (rcp_id receipt) of
       None \<Rightarrow> Some CmdIdentityConflict
     | Some p \<Rightarrow>
        if command_receipt (pc_command p) \<noteq> receipt then Some CmdIdentityConflict
        else if \<not> pc_reduced p \<or> pc_applying p
        then Some (CmdInvalid ''command has not been reduced or is already persisting'')
        else if (case pc_progress p of
                   Completed c \<Rightarrow> \<not> is_ambiguous c \<or> list_ex (\<lambda>row. row_insight_id row = rcp_insight_id receipt
                     \<and> settled_by_terminal (cmd_action (pc_command p)) (row_order_id row) (row_state row)) rows
                 | _ \<Rightarrow> False)
        then None else Some (CmdInvalid ''ambiguous command requires broker reconciliation''))"

fun refuses_receipts ::
  "InsightExecutionCheckpoint list \<Rightarrow> StrategyCommandDriver \<Rightarrow> BrokerCommandReceipt list \<Rightarrow> BrokerCommandError option" where
  "refuses_receipts rows d [] = None"
| "refuses_receipts rows d (r # rs) = opt_or (refuses_receipt rows d r) (refuses_receipts rows d rs)"

text \<open>The commands an insight owns, or None when an indexed command is missing (the source then panics).\<close>

definition indexed_commands :: "StrategyCommandDriver \<Rightarrow> string \<Rightarrow> PendingCommand list option" where
  "indexed_commands d owner = those (map (hm_get (sd_pending d)) (unwrap_or (hm_get (sd_by_insight d) owner) []))"

definition complete_row :: "string list \<Rightarrow> StrategyCommandDriver \<Rightarrow> InsightExecutionCheckpoint \<Rightarrow> InsightExecutionCheckpoint" where
  "complete_row applied d row = row\<lparr>row_owner_receipts := map (\<lambda>p. command_receipt (pc_command p))
     (filter (\<lambda>p. cmd_id (pc_command p) \<notin> set applied) (owned_commands d (row_insight_id row)))\<rparr>"

definition row_intents :: "StrategyCommandDriver \<Rightarrow> InsightExecutionCheckpoint \<Rightarrow> ExecutionIntent list" where
  "row_intents d row = map (\<lambda>p. \<lparr>ei_command = pc_command p, ei_queued_at_us = pc_queued_at_us p,
       ei_admission_order = pc_admission_order p\<rparr>)
     (filter (\<lambda>p. \<not> pc_durable p) (owned_commands d (row_insight_id row)))"

text \<open>
  The batch for the journal (\<open>ExecutionCheckpointBatch::with_intents\<close> in \<open>command_journal/checkpoints.rs\<close>).
  \<open>encode_batch\<close> stands for the validation and the JSON encoding of the rows with their byte limit; the
  source interleaves these checks with the others, so that only which of several refusals is reported differs.
\<close>

definition MAX_CHECKPOINT_ROWS :: nat where
  "MAX_CHECKPOINT_ROWS = 32"

fun refuses_applied ::
  "InsightExecutionCheckpoint list \<Rightarrow> string list \<Rightarrow> BrokerCommandReceipt list \<Rightarrow> BrokerCommandError option" where
  "refuses_applied rows seen [] = None"
| "refuses_applied rows seen (r # rs) = (case List.find (\<lambda>row. row_insight_id row = rcp_insight_id r) rows of
       None \<Rightarrow> Some (CmdJournal ''applied receipt is missing its reduced insight checkpoint'')
     | Some row \<Rightarrow>
        if retains row r \<or> rcp_id r \<in> set seen \<or> \<not> row_materialized row
        then Some (CmdJournal ''applied receipt is still pending, duplicated, or unmaterialized'')
        else refuses_applied rows (rcp_id r # seen) rs)"

fun refuses_intents ::
  "(BrokerCommand \<Rightarrow> BrokerCommandError + string) \<Rightarrow> InsightExecutionCheckpoint list \<Rightarrow> string list \<Rightarrow> ExecutionIntent list
    \<Rightarrow> BrokerCommandError option" where
  "refuses_intents encode rows seen [] = None"
| "refuses_intents encode rows seen (x # xs) =
     (let receipt = command_receipt (ei_command x)
      in if 2 ^ 63 \<le> ei_admission_order x then Some (CmdJournal ''out of range integral type conversion attempted'')
         else if ei_admission_order x = 0 then Some (CmdJournal ''invalid owner admission order'')
         else if rcp_id receipt \<in> set seen then Some (CmdJournal ''duplicate or already applied checkpoint intent'')
         else case List.find (\<lambda>row. row_insight_id row = rcp_insight_id receipt) rows of
                None \<Rightarrow> Some (CmdJournal ''intent is missing its pending insight checkpoint'')
              | Some row \<Rightarrow>
                 if \<not> row_materialized row
                    \<or> (\<not> list_ex (\<lambda>p. pm_receipt p = receipt) (row_pending_mutations row)
                       \<and> receipt \<notin> set (row_owner_receipts row))
                 then Some (CmdJournal ''intent is not retained by its insight checkpoint'')
                 else case encode (ei_command x) of
                        Inl e \<Rightarrow> Some e
                      | Inr _ \<Rightarrow> refuses_intents encode rows (rcp_id receipt # seen) xs)"

definition with_intents ::
  "(BrokerCommand \<Rightarrow> BrokerCommandError + string)
    \<Rightarrow> (InsightExecutionCheckpoint list \<Rightarrow> BrokerCommandReceipt list \<Rightarrow> ExecutionIntent list \<Rightarrow> BrokerCommandError option)
    \<Rightarrow> InsightExecutionCheckpoint list \<Rightarrow> BrokerCommandReceipt list \<Rightarrow> ExecutionIntent list \<Rightarrow> BrokerCommandError option" where
  "with_intents encode encode_batch rows applied intents =
     (if rows = [] \<or> MAX_CHECKPOINT_ROWS < length rows \<or> 256 < length applied
      then Some (CmdInvalid ''execution checkpoint batch exceeds row/receipt limit'')
      else opt_or (refuses_applied rows [] applied)
        (if 256 < length intents then Some (CmdJournal ''too many checkpoint intents'')
         else opt_or (refuses_intents encode rows (map rcp_id applied) intents)
           (if \<not> distinct (map row_insight_id rows) then Some (CmdJournal ''duplicate checkpoint row'')
            else encode_batch rows applied intents)))"

text \<open>\<open>try_send\<close> is what handing the batch to the journal returns; refusals come before any change.\<close>

definition persist_execution_checkpoints ::
  "calendar \<Rightarrow> CommandEnv
    \<Rightarrow> (InsightExecutionCheckpoint list \<Rightarrow> BrokerCommandReceipt list \<Rightarrow> ExecutionIntent list \<Rightarrow> BrokerCommandError option)
    \<Rightarrow> BrokerCommandError option \<Rightarrow> InsightExecutionCheckpoint list \<Rightarrow> BrokerCommandReceipt list
    \<Rightarrow> StrategyCommandDriver \<Rightarrow> unit result \<times> StrategyCommandDriver" where
  "persist_execution_checkpoints cal E encode_batch try_send rows receipts d =
     (if sd_persisting d \<noteq> None then (Fail CmdQueueFull, d)
      else case refuses_receipts rows d receipts of
        Some e \<Rightarrow> (Fail e, d)
      | None \<Rightarrow>
         if \<not> list_all (\<lambda>row. indexed_commands d (row_insight_id row) \<noteq> None) rows then (Panic, d)
         else let applied = map rcp_id receipts; rows = map (complete_row applied d) rows;
                  intents = concat (map (row_intents d) rows)
              in case opt_or (with_intents (ce_encode E) encode_batch rows receipts intents) try_send of
                   Some e \<Rightarrow> (Fail e, d)
                 | None \<Rightarrow>
                    (Ok (), (fold (\<lambda>cid. modify_pending cid (\<lambda>p. p\<lparr>pc_applying := True\<rparr>)) applied d)
                       \<lparr>sd_persisting := Some \<lparr>ps_applied = applied, ps_prepared = map (\<lambda>x. cmd_id (ei_command x)) intents,
                          ps_rows = map (\<lambda>row. (row_insight_id row, from_checkpoint cal row)) rows,
                          ps_reply = Some None\<rparr>\<rparr>))"

text \<open>A confirmed row also moves the deadlines of entries that wait in the worker.\<close>

definition confirm_row :: "string \<times> SavedExecutionRow \<Rightarrow> StrategyCommandDriver \<Rightarrow> StrategyCommandDriver" where
  "confirm_row idrow d = (case idrow of (owner, row) \<Rightarrow>
     (let entries = filter (\<lambda>p. is_entry (cmd_action (pc_command p))) (owned_commands d owner);
          d = fold (\<lambda>p. with_worker (set_entry_deadline (cmd_id (pc_command p)) (sr_entry_deadline row))) entries d
      in d\<lparr>sd_saved_rows := hm_insert owner row (sd_saved_rows d)\<rparr>))"

text \<open>\<open>get_mut(id).expect(..)\<close> with a change, for a list of commands.\<close>

fun modify_all :: "(PendingCommand \<Rightarrow> PendingCommand) \<Rightarrow> string list \<Rightarrow> StrategyCommandDriver \<Rightarrow> StrategyCommandDriver option" where
  "modify_all f [] d = Some d"
| "modify_all f (cid # cids) d = (if hm_get (sd_pending d) cid = None then None else modify_all f cids (modify_pending cid f d))"

definition forget_command :: "string \<Rightarrow> StrategyCommandDriver \<Rightarrow> StrategyCommandDriver option" where
  "forget_command cid d = (case hm_get (sd_pending d) cid of
       None \<Rightarrow> None
     | Some p \<Rightarrow>
        (let owner = pc_owner_id p; d = d\<lparr>sd_pending := hm_remove cid (sd_pending d)\<rparr>;
             d = (if is_teardown (cmd_action (pc_command p)) then d
                  else d\<lparr>sd_ordinary_pending := sd_ordinary_pending d - 1\<rparr>);
             d = (case hm_get (sd_by_insight d) owner of
                    None \<Rightarrow> d
                  | Some ids \<Rightarrow>
                     (let ids = filter (\<lambda>x. x \<noteq> cid) ids
                      in d\<lparr>sd_by_insight := (if ids = [] then hm_remove owner (sd_by_insight d)
                             else hm_insert owner ids (sd_by_insight d))\<rparr>))
         in Some (with_worker (release_entry_identity cid) d)))"

fun forget_commands :: "string list \<Rightarrow> StrategyCommandDriver \<Rightarrow> StrategyCommandDriver option" where
  "forget_commands [] d = Some d"
| "forget_commands (cid # cids) d = (case forget_command cid d of None \<Rightarrow> None | Some d \<Rightarrow> forget_commands cids d)"

text \<open>The end of \<open>poll_acknowledgements\<close>: at most \<open>max_events\<close> acknowledged commands are forgotten per turn.\<close>

definition release_applied :: "nat \<Rightarrow> PersistingExecution \<Rightarrow> StrategyCommandDriver \<Rightarrow> nat result \<times> StrategyCommandDriver" where
  "release_applied max_events ps d =
     (let n = min (min (length (ps_applied ps)) max_events) 256; rest = drop n (ps_applied ps)
      in case forget_commands (take n (ps_applied ps)) d of
           None \<Rightarrow> (Panic, d)
         | Some d \<Rightarrow>
            (Ok n, d\<lparr>sd_persisting := (if rest = [] then None else Some (ps\<lparr>ps_applied := rest\<rparr>)),
                     sd_progress_revision := (if n = 0 then sd_progress_revision d
                                              else (sd_progress_revision d + 1) mod 2 ^ 64)\<rparr>))"

definition poll_acknowledgements :: "nat \<Rightarrow> StrategyCommandDriver \<Rightarrow> nat result \<times> StrategyCommandDriver" where
  "poll_acknowledgements max_events d =
     (if max_events = 0 then (Ok 0, d)
      else case sd_persisting d of
        None \<Rightarrow> (Ok 0, d)
      | Some ps \<Rightarrow>
         (case ps_reply ps of
            None \<Rightarrow> release_applied max_events ps d
          | Some None \<Rightarrow> (Ok 0, d)
          | Some (Some (Inl e)) \<Rightarrow>
             (case modify_all (\<lambda>p. p\<lparr>pc_applying := False\<rparr>) (ps_applied ps) (d\<lparr>sd_persisting := None\<rparr>) of
                None \<Rightarrow> (Panic, d)
              | Some d \<Rightarrow> (Fail e, request_execution_stop d))
          | Some (Some (Inr _)) \<Rightarrow>
             (let d = fold confirm_row (ps_rows ps) d
              in case modify_all (\<lambda>p. p\<lparr>pc_durable := True\<rparr>) (ps_prepared ps) d of
                   None \<Rightarrow> (Panic, d)
                 | Some d \<Rightarrow> release_applied max_events
                     (ps\<lparr>ps_reply := None, ps_rows := [], ps_prepared := []\<rparr>) d)))"

subsection \<open>Dispatch\<close>

text \<open>The parent chain of an entry, at most 64 saved rows that know each other.\<close>

fun chain_known :: "nat \<Rightarrow> (string, SavedExecutionRow) hmap \<Rightarrow> string \<Rightarrow> bool" where
  "chain_known 0 rows owner = False"
| "chain_known (Suc n) rows owner = (case hm_get rows owner of
       None \<Rightarrow> False
     | Some row \<Rightarrow> (case sr_parent row of
          None \<Rightarrow> True
        | Some parent \<Rightarrow> (case hm_get rows parent of
             None \<Rightarrow> False
           | Some prow \<Rightarrow> owner \<in> set (sr_children prow) \<and> chain_known n rows parent)))"

definition checkpoint_chain_ready :: "StrategyCommandDriver \<Rightarrow> PendingCommand \<Rightarrow> bool" where
  "checkpoint_chain_ready d p \<longleftrightarrow> pc_durable p \<and>
     (pc_recovery_replay p
      \<or> (if is_teardown (cmd_action (pc_command p))
         then (case hm_get (sd_saved_rows d) (pc_owner_id p) of None \<Rightarrow> False | Some row \<Rightarrow> sr_materialized row)
         else chain_known 64 (sd_saved_rows d) (pc_owner_id p)))"

definition entry_allowed :: "bool \<Rightarrow> StrategyCommandDriver \<Rightarrow> PendingCommand \<Rightarrow> bool" where
  "entry_allowed allow_entries d p \<longleftrightarrow> allow_entries \<or> \<not> is_entry (cmd_action (pc_command p))
     \<or> pc_recovery_replay p \<or> entry_is_gated (cmd_id (pc_command p)) (sd_worker d)"

definition front_ready :: "StrategyCommandDriver \<Rightarrow> (PendingCommand \<Rightarrow> bool) \<Rightarrow> string list \<Rightarrow> string option" where
  "front_ready d ok queue = (case queue of
       [] \<Rightarrow> None
     | cid # _ \<Rightarrow> (case hm_get (sd_pending d) cid of
          Some p \<Rightarrow> if checkpoint_chain_ready d p \<and> ok p then Some cid else None
        | None \<Rightarrow> None))"

definition next_dispatch_id :: "bool \<Rightarrow> StrategyCommandDriver \<Rightarrow> string option" where
  "next_dispatch_id allow_entries d =
     (if sd_restoring d then None
      else opt_or (front_ready d (\<lambda>_. True) (sd_control_admission d))
             (front_ready d (entry_allowed allow_entries d) (sd_entry_admission d)))"

definition has_ready_events :: "bool \<Rightarrow> StrategyCommandDriver \<Rightarrow> bool" where
  "has_ready_events allow_entries d \<longleftrightarrow> execution_stop_error (sd_worker d) \<noteq> None
     \<or> wk_events (sd_worker d) \<noteq> [] \<or> next_dispatch_id allow_entries d \<noteq> None"

fun dispatch_loop :: "CommandEnv \<Rightarrow> bool \<Rightarrow> nat \<Rightarrow> nat \<Rightarrow> StrategyCommandDriver \<Rightarrow> nat result \<times> StrategyCommandDriver" where
  "dispatch_loop E allow_entries dispatched 0 d = (Ok dispatched, d)"
| "dispatch_loop E allow_entries dispatched (Suc n) d = (case next_dispatch_id allow_entries d of
       None \<Rightarrow> (Ok dispatched, d)
     | Some cid \<Rightarrow>
        (case hm_get (sd_pending d) cid of
           None \<Rightarrow> (Panic, d)
         | Some p \<Rightarrow>
            if \<not> pc_durable p
            then (Fail (CmdJournal ''dispatch without checkpoint ownership''), request_execution_stop d)
            else let d = (if is_entry (cmd_action (pc_command p))
                          then with_worker (set_entry_deadline cid (case hm_get (sd_saved_rows d) (pc_owner_id p) of
                                 None \<Rightarrow> None | Some row \<Rightarrow> sr_entry_deadline row)) d
                          else d);
                     (r, w) = try_enqueue_inner (ce_encode E) (pc_command p) True (sd_worker d);
                     d = d\<lparr>sd_worker := w\<rparr>
                 in case r of
                      Inr _ \<Rightarrow>
                        (let d = modify_pending cid (\<lambda>p. p\<lparr>pc_dispatch_queued := True\<rparr>) d;
                             d = (if is_teardown (cmd_action (pc_command p))
                                  then d\<lparr>sd_control_admission := tl (sd_control_admission d)\<rparr>
                                  else d\<lparr>sd_entry_admission := tl (sd_entry_admission d)\<rparr>)
                         in dispatch_loop E allow_entries (dispatched + 1) n d)
                    | Inl e \<Rightarrow> if e = CmdQueueFull then (Ok dispatched, d) else (Fail e, request_execution_stop d)))"

definition dispatch_prepared_with_admission ::
  "CommandEnv \<Rightarrow> nat \<Rightarrow> bool \<Rightarrow> StrategyCommandDriver \<Rightarrow> nat result \<times> StrategyCommandDriver" where
  "dispatch_prepared_with_admission E max_events allow_entries d = dispatch_loop E allow_entries 0 (min max_events 256) d"

text \<open>Whether the stop may be asked to complete: no error, nothing owned, nothing in flight.\<close>

definition stop_completable :: "StrategyCommandDriver \<Rightarrow> BrokerCommandError + bool" where
  "stop_completable d = (case execution_failure True d of
       Some e \<Rightarrow> Inl e
     | None \<Rightarrow> Inr (sd_pending d = [] \<and> \<not> has_in_flight_work d \<and> \<not> sd_restoring d))"

section \<open>The strategy's context\<close>

text \<open>
  What the strategy runtime offers its insights (\<open>impl StrategyContext for StrategyState\<close> in
  \<open>src/core/strategy/mod.rs\<close>): the driver, the universe, the pinned insights and the shutdown flag.  Fresh
  identifiers and the clock are streams of readings.
\<close>

record StrategyRuntime =
  rt_driver :: "StrategyCommandDriver option"
  rt_universe :: "(string, Asset) hmap"
  rt_pinned :: "string list"
  rt_shutdown :: bool
  rt_fresh :: "string stream"
  rt_clock_us :: "int stream"
  rt_current_time :: datetime
  rt_amend_limit :: bool
  rt_amend_stop :: bool

definition runtime_enqueue ::
  "CommandEnv \<Rightarrow> StrategyRuntime \<Rightarrow> string \<Rightarrow> BrokerCommandAction \<Rightarrow> BrokerOperationGroup option
    \<Rightarrow> (BrokerCommandError + BrokerCommandReceipt) \<times> StrategyRuntime" where
  "runtime_enqueue E x insight_id action grp =
     (let constraints = (case action of
            SubmitAction request \<Rightarrow> \<lparr>max_total_symbol_quantity = (case hm_get (rt_universe x) (req_symbol request) of
                None \<Rightarrow> None | Some asset \<Rightarrow> as_max_total_size asset)\<rparr>
          | _ \<Rightarrow> \<lparr>max_total_symbol_quantity = None\<rparr>)
      in case rt_driver x of
           None \<Rightarrow> (Inl CmdClosed, x)
         | Some d \<Rightarrow>
            (case enqueue_with_constraints E (shd (rt_fresh x)) (shd (rt_clock_us x)) insight_id action grp constraints d of
               (Inl e, d) \<Rightarrow> (Inl e, x\<lparr>rt_driver := Some d, rt_fresh := stl (rt_fresh x), rt_clock_us := stl (rt_clock_us x)\<rparr>)
             | (Inr receipt, d) \<Rightarrow>
                (Inr receipt, x\<lparr>rt_driver := Some d, rt_fresh := stl (rt_fresh x), rt_clock_us := stl (rt_clock_us x),
                   rt_pinned := List.insert insight_id (rt_pinned x)\<rparr>)))"

definition runtime_progress :: "StrategyRuntime \<Rightarrow> BrokerCommandReceipt \<Rightarrow> BrokerCommandProgress option" where
  "runtime_progress x receipt = (case rt_driver x of None \<Rightarrow> None | Some d \<Rightarrow> progress d receipt)"

definition runtime_reduced :: "StrategyRuntime \<Rightarrow> BrokerCommandReceipt \<Rightarrow> StrategyRuntime" where
  "runtime_reduced x receipt = (case rt_driver x of
       None \<Rightarrow> x
     | Some d \<Rightarrow> (case mark_reduced receipt d of
          (Inl _, d) \<Rightarrow> x\<lparr>rt_driver := Some d, rt_shutdown := True\<rparr>
        | (Inr _, d) \<Rightarrow> x\<lparr>rt_driver := Some d\<rparr>))"

definition runtime_cancel_pending_entry ::
  "StrategyRuntime \<Rightarrow> BrokerCommandReceipt \<Rightarrow> (BrokerCommandError + unit) \<times> StrategyRuntime" where
  "runtime_cancel_pending_entry x receipt = (case rt_driver x of
       None \<Rightarrow> (Inl CmdClosed, x)
     | Some d \<Rightarrow> (let (r, d) = driver_cancel_pending_entry receipt d in (r, x\<lparr>rt_driver := Some d\<rparr>)))"

definition runtime_context :: "CommandEnv \<Rightarrow> StrategyRuntime StrategyContext" where
  "runtime_context E = \<lparr>ctx_enqueue_broker_command = runtime_enqueue E,
     ctx_broker_command_progress = runtime_progress, ctx_broker_command_reduced = runtime_reduced,
     ctx_cancel_pending_entry = runtime_cancel_pending_entry, ctx_current_time = rt_current_time,
     ctx_universe = (\<lambda>x. hm_get (rt_universe x)), ctx_can_amend_limit = rt_amend_limit,
     ctx_can_amend_stop = rt_amend_stop\<rparr>"

section \<open>Admission, in one lemma\<close>

lemma enqueue_success:
  assumes "enqueue_command E now command d = (Inr receipt, d')"
  shows "receipt = command_receipt command" "\<exists>p. hm_get (sd_pending d') (cmd_id command) = Some p \<and> pc_command p = command"
    "sd_restoring d' = sd_restoring d" "wk_scope (sd_worker d') = wk_scope (sd_worker d)"
  using assms by (auto simp: enqueue_command_def admit_def Let_def split: sum.splits option.splits if_splits)

lemma enqueue_failure: "enqueue_command E now command d = (Inl e, d') \<Longrightarrow> d' = d"
  by (auto simp: enqueue_command_def Let_def split: sum.splits option.splits if_splits)

lemma enqueue_keeps_others:
  "hm_get (sd_pending d) cid = Some p \<Longrightarrow> hm_get (sd_pending (snd (enqueue_command E now command d))) cid = Some p"
  by (auto simp: enqueue_command_def admit_def Let_def split: sum.split option.split)

end
