(* ===== verification/CommandDriverInvariant.thy ===== *)
theory CommandDriverInvariant
  imports CommandDriver
begin

text \<open>
  The invariant of the command driver, its reachable states, and what follows: the driver never panics, its
  counters are exact, nothing is dispatched before it is durable or twice, and no command is forgotten before
  the journal has acknowledged its reduction.
\<close>

section \<open>Counting in hash maps\<close>

definition count_vals :: "('v \<Rightarrow> bool) \<Rightarrow> ('k, 'v) hmap \<Rightarrow> nat" where
  "count_vals P m = length (filter (\<lambda>(_, v). P v) m)"

lemma count_vals_insert:
  "hm_get m k = None \<Longrightarrow> count_vals P (hm_insert k v m) = count_vals P m + (if P v then 1 else 0)"
  by (induction m) (auto simp: count_vals_def hm_get_def hm_insert_def split: if_splits)

lemma count_vals_modify:
  "hm_ok m \<Longrightarrow> hm_get m k = Some v \<Longrightarrow>
    count_vals P (hm_modify k f m) + (if P v then 1 else 0) = count_vals P m + (if P (f v) then 1 else 0)"
proof (induction m)
  case (Cons a m)
  obtain k' w where a: "a = (k', w)" by (cases a)
  show ?case
  proof (cases "k' = k")
    case True
    have "hm_modify k f m = m"
      using Cons.prems(1) by (auto simp: a True hm_modify_def hm_ok_def image_iff intro!: map_idI)
    then show ?thesis using Cons.prems(2) by (simp add: a True count_vals_def hm_get_def) (simp add: hm_modify_def)
  next
    case False
    then have "hm_ok m" "hm_get m k = Some v" using Cons.prems by (simp_all add: a hm_ok_def hm_get_def)
    then show ?thesis using Cons.IH False by (simp add: a count_vals_def hm_modify_def)
  qed
qed (simp add: hm_get_def)

lemma count_vals_remove:
  "hm_ok m \<Longrightarrow> hm_get m k = Some v \<Longrightarrow>
    count_vals P (hm_remove k m) + (if P v then 1 else 0) = count_vals P m"
proof (induction m)
  case (Cons a m)
  have other: "fst a = k \<Longrightarrow> AList.delete k m = m"
    using Cons.prems(1) by (auto simp: hm_ok_def intro!: AList.delete_idem)
  show ?case
    using Cons other by (cases a) (auto simp: count_vals_def hm_get_def hm_remove_def hm_ok_def split: if_splits)
qed (simp add: hm_get_def)

lemma count_vals_absent: "hm_get m k = None \<Longrightarrow> hm_modify k f m = m"
  by (induction m) (auto simp: hm_get_def hm_modify_def split: if_splits)

lemma length_modify [simp]: "length (hm_modify k f m) = length m"
  by (simp add: hm_modify_def)

lemma length_insert_fresh: "hm_get m k = None \<Longrightarrow> length (hm_insert k v m) = Suc (length m)"
  by (induction m) (auto simp: hm_get_def hm_insert_def split: if_splits)

lemma length_remove: "length (hm_remove k m) \<le> length m"
  by (simp add: hm_remove_def AList.delete_eq)

section \<open>The invariant\<close>

definition ordinary :: "PendingCommand \<Rightarrow> bool" where
  "ordinary p \<longleftrightarrow> \<not> is_teardown (cmd_action (pc_command p))"

definition is_queued :: "PendingCommand \<Rightarrow> bool" where
  "is_queued p \<longleftrightarrow> pc_progress p = Queued"

text \<open>A command is pending and has a property.\<close>

definition pend :: "(PendingCommand \<Rightarrow> bool) \<Rightarrow> (string, PendingCommand) hmap \<Rightarrow> string \<Rightarrow> bool" where
  "pend P m cid = (case hm_get m cid of None \<Rightarrow> False | Some p \<Rightarrow> P p)"

lemma pend_modify [simp]: "pend P (hm_modify cid f m) cid' = (if cid' = cid then pend (P \<circ> f) m cid else pend P m cid')"
  by (simp add: pend_def split: option.split)

lemma pend_insert [simp]: "pend P (hm_insert cid p m) cid' = (if cid' = cid then P p else pend P m cid')"
  by (simp add: pend_def)

lemma pend_remove [simp]: "pend P (hm_remove cid m) cid' = (cid' \<noteq> cid \<and> pend P m cid')"
  by (simp add: pend_def)

lemma pend_Nil [simp]: "\<not> pend P [] cid"
  by (simp add: pend_def)

lemma pend_get: "hm_get m cid = Some p \<Longrightarrow> pend P m cid = P p"
  by (simp add: pend_def)

lemma pend_none: "hm_get m cid = None \<Longrightarrow> \<not> pend P m cid"
  by (simp add: pend_def)

lemma pend_mono: "pend P m cid \<Longrightarrow> (\<And>p. P p \<Longrightarrow> Q p) \<Longrightarrow> pend Q m cid"
  by (auto simp: pend_def split: option.splits)

definition index_of :: "StrategyCommandDriver \<Rightarrow> string \<Rightarrow> string list" where
  "index_of d owner = unwrap_or (hm_get (sd_by_insight d) owner) []"

definition keyed :: "(string, PendingCommand) hmap \<Rightarrow> bool" where
  "keyed m \<longleftrightarrow> hm_ok m \<and> (\<forall>cid. pend (\<lambda>_. True) m cid \<longrightarrow> pend (\<lambda>p. cmd_id (pc_command p) = cid) m cid)"

definition indexed :: "StrategyCommandDriver \<Rightarrow> bool" where
  "indexed d \<longleftrightarrow> (\<forall>owner cid. cid \<in> set (index_of d owner) \<longleftrightarrow> pend (\<lambda>p. pc_owner_id p = owner) (sd_pending d) cid)"

definition counted :: "StrategyCommandDriver \<Rightarrow> bool" where
  "counted d \<longleftrightarrow> sd_ordinary_pending d = count_vals ordinary (sd_pending d)
     \<and> sd_awaiting_completion d = count_vals is_queued (sd_pending d)
     \<and> length (sd_pending d) \<le> sd_max_pending d"

text \<open>The admission queues hold exactly the commands that were not handed to the worker yet.\<close>

definition waiting :: "bool \<Rightarrow> PendingCommand \<Rightarrow> bool" where
  "waiting teardown p \<longleftrightarrow> \<not> pc_dispatch_queued p \<and> (teardown \<longleftrightarrow> \<not> ordinary p)"

definition queued_once :: "StrategyCommandDriver \<Rightarrow> bool" where
  "queued_once d \<longleftrightarrow> distinct (sd_control_admission d) \<and> distinct (sd_entry_admission d)
     \<and> (\<forall>cid. cid \<in> set (sd_control_admission d) \<longleftrightarrow> pend (waiting True) (sd_pending d) cid)
     \<and> (\<forall>cid. cid \<in> set (sd_entry_admission d) \<longleftrightarrow> pend (waiting False) (sd_pending d) cid)"

text \<open>A completed command was dispatched, and a dispatched one was durable.\<close>

definition stage_ok :: "PendingCommand \<Rightarrow> bool" where
  "stage_ok p \<longleftrightarrow> (is_queued p \<or> pc_dispatch_queued p) \<and> (\<not> pc_dispatch_queued p \<or> pc_durable p)"

definition staged :: "StrategyCommandDriver \<Rightarrow> bool" where
  "staged d \<longleftrightarrow> (\<forall>cid. \<not> pend (\<lambda>p. \<not> stage_ok p) (sd_pending d) cid)"

text \<open>What an open checkpoint acknowledges: commands that completed and were reduced.\<close>

definition finished :: "PendingCommand \<Rightarrow> bool" where
  "finished p \<longleftrightarrow> \<not> is_queued p \<and> pc_reduced p"

definition persist_ok :: "StrategyCommandDriver \<Rightarrow> PersistingExecution \<Rightarrow> bool" where
  "persist_ok d ps \<longleftrightarrow> distinct (ps_applied ps)
     \<and> (\<forall>cid \<in> set (ps_applied ps). pend finished (sd_pending d) cid)
     \<and> (\<forall>cid \<in> set (ps_prepared ps). pend (\<lambda>_. True) (sd_pending d) cid)
     \<and> (ps_reply ps = None \<longrightarrow> ps_prepared ps = [])"

definition persisting_ok :: "StrategyCommandDriver \<Rightarrow> bool" where
  "persisting_ok d \<longleftrightarrow> (\<forall>ps. sd_persisting d = Some ps \<longrightarrow> persist_ok d ps)"

definition driver_inv :: "StrategyCommandDriver \<Rightarrow> bool" where
  "driver_inv d \<longleftrightarrow> keyed (sd_pending d) \<and> indexed d \<and> counted d \<and> queued_once d \<and> staged d \<and> persisting_ok d"

lemmas inv_defs = driver_inv_def indexed_def counted_def queued_once_def staged_def persisting_ok_def persist_ok_def index_of_def

text \<open>Only these fields matter.\<close>

lemma driver_inv_cong:
  assumes "driver_inv d" "sd_pending d' = sd_pending d" "sd_by_insight d' = sd_by_insight d"
    "sd_ordinary_pending d' = sd_ordinary_pending d" "sd_awaiting_completion d' = sd_awaiting_completion d"
    "sd_max_pending d' = sd_max_pending d" "sd_control_admission d' = sd_control_admission d"
    "sd_entry_admission d' = sd_entry_admission d" "sd_persisting d' = sd_persisting d"
  shows "driver_inv d'"
proof -
  have "indexed d' = indexed d" "counted d' = counted d" "queued_once d' = queued_once d" "staged d' = staged d"
    "persist_ok d' = persist_ok d"
    using assms(2-8) by (simp_all add: indexed_def index_of_def counted_def queued_once_def staged_def persist_ok_def fun_eq_iff)
  then show ?thesis using assms(1,2,9) by (simp add: driver_inv_def persisting_ok_def)
qed

lemma driver_inv_worker: "driver_inv d \<Longrightarrow> driver_inv (with_worker f d)"
  by (erule driver_inv_cong) (simp_all add: with_worker_def)

lemma pending_stop [simp]: "sd_pending (request_execution_stop d) = sd_pending d"
  by (simp add: request_execution_stop_def with_worker_def)

lemma driver_inv_stop: "driver_inv d \<Longrightarrow> driver_inv (request_execution_stop d)"
  by (simp add: request_execution_stop_def driver_inv_worker)

text \<open>A change of one command that keeps its identity and its stage.\<close>

definition same_stage :: "PendingCommand \<Rightarrow> PendingCommand \<Rightarrow> bool" where
  "same_stage p q \<longleftrightarrow> pc_owner_id q = pc_owner_id p \<and> pc_command q = pc_command p \<and> pc_progress q = pc_progress p
     \<and> pc_dispatch_queued q = pc_dispatch_queued p \<and> (pc_durable p \<longrightarrow> pc_durable q) \<and> (pc_reduced p \<longrightarrow> pc_reduced q)"

lemma count_vals_same:
  assumes "\<And>v. P (f v) = P v"
  shows "count_vals P (hm_modify k f m) = count_vals P m"
proof -
  have "(\<lambda>(_, v). P v) \<circ> (\<lambda>(k', v). if k' = k then (k', f v) else (k', v)) = (\<lambda>(_, v). P v)"
    using assms by (auto simp: fun_eq_iff)
  then show ?thesis by (simp add: count_vals_def hm_modify_def filter_map)
qed

lemma pend_same: "(\<And>p. P (f p) = P p) \<Longrightarrow> pend P (hm_modify cid f m) cid' = pend P m cid'"
  by (simp add: pend_def split: option.split)

lemma driver_inv_modify:
  assumes "driver_inv d" "\<And>p. same_stage p (f p)"
  shows "driver_inv (modify_pending cid f d)"
proof -
  have f: "pc_owner_id (f p) = pc_owner_id p" "pc_command (f p) = pc_command p" "ordinary (f p) = ordinary p"
    "is_queued (f p) = is_queued p" "waiting b (f p) = waiting b p" "stage_ok p \<Longrightarrow> stage_ok (f p)"
    "finished p \<Longrightarrow> finished (f p)" for p b
    using assms(2) [of p] by (auto simp: finished_def same_stage_def ordinary_def is_queued_def waiting_def stage_ok_def)
  have "pend P (hm_modify cid f m) cid' = pend P m cid'" if "\<And>p. P (f p) = P p" for P m cid'
    using that by (rule pend_same)
  note same = this [of "\<lambda>p. pc_owner_id p = o'" for o'] this [of "\<lambda>p. cmd_id (pc_command p) = c" for c]
    this [of "waiting b" for b] this [of "\<lambda>_. True"]
  have stage: "pend (\<lambda>p. \<not> stage_ok p) (hm_modify cid f m) cid' \<Longrightarrow> pend (\<lambda>p. \<not> stage_ok p) m cid'" for m cid'
    using f(6) by (auto simp: pend_def split: option.splits if_splits)
  note inv = assms(1) [unfolded driver_inv_def]
  let ?d = "modify_pending cid f d"
  have p: "sd_pending ?d = hm_modify cid f (sd_pending d)" by (simp add: modify_pending_def)
  have "keyed (sd_pending ?d)" using inv by (simp add: keyed_def p same f hm.ok_modify del: pend_modify)
  moreover have "indexed ?d" using inv by (simp add: indexed_def index_of_def p same f del: pend_modify) (simp add: modify_pending_def)
  moreover have "counted ?d" using inv by (simp add: counted_def p count_vals_same f) (simp add: modify_pending_def)
  moreover have "queued_once ?d"
    using inv by (simp add: queued_once_def p same f del: pend_modify) (simp add: modify_pending_def)
  moreover have "staged ?d" using inv stage by (auto simp: staged_def p simp del: pend_modify)
  moreover have "pend finished m cid' \<Longrightarrow> pend finished (hm_modify cid f m) cid'" for m cid'
    using f(7) by (auto simp: pend_def split: option.splits)
  then have "persist_ok d ps \<Longrightarrow> persist_ok ?d ps" for ps by (simp add: persist_ok_def p same del: pend_modify)
  then have "persisting_ok ?d" using inv by (simp add: persisting_ok_def) (simp add: modify_pending_def)
  ultimately show ?thesis by (simp add: driver_inv_def)
qed

section \<open>The operations keep it\<close>

lemma driver_inv_new: "driver_inv (driver_new w c n)"
  by (simp add: driver_inv_def keyed_def hm_ok_def indexed_def index_of_def counted_def count_vals_def queued_once_def
      staged_def persisting_ok_def driver_new_def)

lemma driver_inv_admit:
  assumes "driver_inv d" "hm_get (sd_pending d) (cmd_id (pc_command p)) = None" "length (sd_pending d) < sd_max_pending d"
    "is_queued p" "\<not> pc_dispatch_queued p"
  shows "driver_inv (admit p d)"
proof -
  note inv = assms(1) [unfolded driver_inv_def]
  let ?cid = "cmd_id (pc_command p)"
  let ?d = "admit p d"
  have new: "\<not> pend P (sd_pending d) ?cid" for P using assms(2) by (rule pend_none)
  have f: "sd_pending ?d = hm_insert ?cid p (sd_pending d)"
    "index_of ?d owner = (if owner = pc_owner_id p then index_of d owner @ [?cid] else index_of d owner)"
    "sd_persisting ?d = sd_persisting d" "sd_max_pending ?d = sd_max_pending d"
    "sd_control_admission ?d = (if ordinary p then sd_control_admission d else sd_control_admission d @ [?cid])"
    "sd_entry_admission ?d = (if ordinary p then sd_entry_admission d @ [?cid] else sd_entry_admission d)" for owner
    by (simp_all add: admit_def Let_def index_of_def ordinary_def)
  have "keyed (sd_pending ?d)" using inv by (auto simp: keyed_def f hm.ok_ins)
  moreover have "indexed ?d" using inv new by (auto simp: indexed_def f)
  moreover have "counted ?d"
    using inv assms(3,4) count_vals_insert [OF assms(2), of ordinary p] count_vals_insert [OF assms(2), of is_queued p]
      length_insert_fresh [OF assms(2), of p]
    by (simp add: counted_def f) (simp add: admit_def Let_def ordinary_def)
  moreover have "queued_once ?d"
    using inv new assms(5) by (auto simp: queued_once_def f waiting_def)
  moreover have "staged ?d" using inv assms(4,5) by (auto simp: staged_def f stage_ok_def)
  moreover have "persisting_ok ?d" using inv new by (auto simp: persisting_ok_def persist_ok_def f)
  ultimately show ?thesis by (simp add: driver_inv_def)
qed

lemma driver_inv_enqueue: "driver_inv d \<Longrightarrow> driver_inv (snd (enqueue_command E now command d))"
  unfolding enqueue_command_def Let_def
  by (auto split: sum.split option.split intro!: driver_inv_admit simp: is_queued_def elim: driver_inv_cong)

lemma driver_inv_mark_reduced: "driver_inv d \<Longrightarrow> driver_inv (snd (mark_reduced receipt d))"
  unfolding mark_reduced_def
  by (auto split: option.split BrokerCommandProgress.split intro!: driver_inv_modify simp: same_stage_def)

lemma driver_inv_fold_modify:
  "driver_inv d \<Longrightarrow> (\<And>p. same_stage p (f p)) \<Longrightarrow> driver_inv (fold (\<lambda>cid. modify_pending cid f) cids d)"
  by (induction cids arbitrary: d) (auto intro: driver_inv_modify)

lemma driver_inv_terminal: "driver_inv d \<Longrightarrow> driver_inv (reduce_terminal_receipts owner oid s d)"
  unfolding reduce_terminal_receipts_def by (auto intro!: driver_inv_fold_modify simp: same_stage_def)

lemma driver_inv_cancel_entry: "driver_inv d \<Longrightarrow> driver_inv (snd (driver_cancel_pending_entry receipt d))"
  unfolding driver_cancel_pending_entry_def by (auto split: option.split intro: driver_inv_worker)

text \<open>The worker reports only commands it was given.\<close>

definition reports_given :: "StrategyCommandDriver \<Rightarrow> bool" where
  "reports_given d \<longleftrightarrow> (case wk_events (sd_worker d) of
       [] \<Rightarrow> True
     | ev # _ \<Rightarrow> \<not> pend (\<lambda>p. \<not> pc_dispatch_queued p) (sd_pending d) (rcp_id (fst (event_receipt ev))))"

lemma driver_inv_complete:
  assumes "driver_inv d" "hm_get (sd_pending d) cid = Some p" "pc_dispatch_queued p" "q \<noteq> Queued"
  shows "driver_inv (modify_pending cid (\<lambda>p. p\<lparr>pc_progress := q\<rparr>)
    (if pc_progress p = Queued then d\<lparr>sd_awaiting_completion := sd_awaiting_completion d - 1\<rparr> else d))"
proof -
  note inv = assms(1) [unfolded driver_inv_def]
  let ?f = "\<lambda>p. p\<lparr>pc_progress := q\<rparr>"
  let ?d = "modify_pending cid ?f
    (if pc_progress p = Queued then d\<lparr>sd_awaiting_completion := sd_awaiting_completion d - 1\<rparr> else d)"
  have f: "sd_pending ?d = hm_modify cid ?f (sd_pending d)" "sd_by_insight ?d = sd_by_insight d"
    "sd_persisting ?d = sd_persisting d" "sd_max_pending ?d = sd_max_pending d"
    "sd_control_admission ?d = sd_control_admission d" "sd_entry_admission ?d = sd_entry_admission d"
    "sd_ordinary_pending ?d = sd_ordinary_pending d"
    "sd_awaiting_completion ?d = sd_awaiting_completion d - (if is_queued p then 1 else 0)"
    by (simp_all add: modify_pending_def is_queued_def)
  have same: "pend P (hm_modify cid ?f m) cid' = pend P m cid'" if "\<And>p. P (?f p) = P p" for P m cid'
    using that by (rule pend_same)
  have keeps: "ordinary (?f v) = ordinary v" "waiting b (?f v) = waiting b v" for v b
    by (simp_all add: ordinary_def waiting_def)
  have "keyed (sd_pending ?d)" using inv by (simp add: keyed_def f same hm.ok_modify del: pend_modify)
  moreover have "indexed ?d" using inv by (simp add: indexed_def index_of_def f same del: pend_modify)
  moreover have "\<not> is_queued (?f p)" using assms(4) by (simp add: is_queued_def)
  then have "count_vals is_queued (hm_modify cid ?f (sd_pending d)) + (if is_queued p then 1 else 0) = count_vals is_queued (sd_pending d)"
    using inv count_vals_modify [of "sd_pending d" cid p is_queued ?f] assms(2) by (simp add: keyed_def)
  then have "counted ?d"
    using inv by (cases "is_queued p") (simp_all add: counted_def f count_vals_same keeps)
  moreover have "queued_once ?d" using inv by (simp add: queued_once_def f same keeps del: pend_modify)
  moreover have "stage_ok p" using inv assms(2) by (auto simp: staged_def pend_def split: option.splits)
  then have "stage_ok (?f p)" using assms(3) by (simp add: stage_ok_def)
  then have "staged ?d" using inv assms(2) by (simp add: staged_def f pend_get)
  moreover have "pend finished m cid' \<Longrightarrow> pend finished (hm_modify cid ?f m) cid'" for m cid'
    using assms(4) by (auto simp: pend_def finished_def is_queued_def split: option.splits)
  then have "persist_ok d ps \<Longrightarrow> persist_ok ?d ps" for ps by (simp add: persist_ok_def f same del: pend_modify)
  then have "persisting_ok ?d" using inv by (simp add: persisting_ok_def f)
  ultimately show ?thesis by (simp add: driver_inv_def)
qed

lemma driver_inv_next_ready:
  assumes "driver_inv d" "reports_given d"
  shows "driver_inv (snd (next_ready d))"
proof (cases "wk_events (sd_worker d)")
  case Nil
  then show ?thesis using assms(1) by (simp add: next_ready_def driver_inv_stop split: option.split)
next
  case (Cons ev evs)
  obtain receipt q where q: "event_receipt ev = (receipt, q)" by fastforce
  then have "q \<noteq> Queued" by (cases ev) (auto simp: event_receipt_def)
  let ?d = "with_worker (\<lambda>w. w\<lparr>wk_events := evs\<rparr>) d"
  have inv: "driver_inv ?d" using assms(1) by (rule driver_inv_worker)
  have p: "sd_pending ?d = sd_pending d" by (simp add: with_worker_def)
  show ?thesis
  proof (cases "execution_stop_error (sd_worker d) = None \<and> (\<exists>p. hm_get (sd_pending d) (rcp_id receipt) = Some p
      \<and> command_receipt (pc_command p) = receipt)")
    case True
    then obtain p' where p': "hm_get (sd_pending d) (rcp_id receipt) = Some p'" "command_receipt (pc_command p') = receipt" by auto
    have "pc_dispatch_queued p'" using assms(2) p' Cons q by (simp add: reports_given_def pend_get)
    then have "driver_inv (modify_pending (rcp_id receipt) (\<lambda>p. p\<lparr>pc_progress := q\<rparr>)
        (if pc_progress p' = Queued then ?d\<lparr>sd_awaiting_completion := sd_awaiting_completion ?d - 1\<rparr> else ?d))"
      using driver_inv_complete [OF inv] p' p \<open>q \<noteq> Queued\<close> by simp
    then show ?thesis
      using True Cons q p' by (auto simp: next_ready_def Let_def p elim: driver_inv_cong)
  next
    case False
    then show ?thesis
      using assms(1) inv Cons q by (auto simp: next_ready_def Let_def p split: option.split intro: driver_inv_stop)
  qed
qed

subsection \<open>Checkpoints\<close>

definition driver_core :: "StrategyCommandDriver \<Rightarrow> bool" where
  "driver_core d \<longleftrightarrow> keyed (sd_pending d) \<and> indexed d \<and> counted d \<and> queued_once d \<and> staged d"

lemma driver_inv_core: "driver_inv d \<longleftrightarrow> driver_core d \<and> persisting_ok d"
  by (auto simp: driver_inv_def driver_core_def)

lemma driver_core_persisting: "driver_core (d\<lparr>sd_persisting := x, sd_progress_revision := n\<rparr>) = driver_core d"
  "driver_core (d\<lparr>sd_persisting := x\<rparr>) = driver_core d"
  by (simp_all add: driver_core_def indexed_def index_of_def counted_def queued_once_def staged_def)

lemma persist_ok_persisting: "persist_ok (d\<lparr>sd_persisting := x, sd_progress_revision := n\<rparr>) ps = persist_ok d ps"
  "persist_ok (d\<lparr>sd_persisting := x\<rparr>) ps = persist_ok d ps"
  by (simp_all add: persist_ok_def)

lemma driver_inv_persisting:
  assumes "driver_inv d" "\<And>ps. x = Some ps \<Longrightarrow> persist_ok d ps"
  shows "driver_inv (d\<lparr>sd_persisting := x\<rparr>)"
  using assms by (auto simp: driver_inv_core driver_core_persisting persisting_ok_def persist_ok_persisting)

lemma refuses_applied_distinct:
  "refuses_applied rows seen rs = None \<Longrightarrow> distinct (map rcp_id rs) \<and> set (map rcp_id rs) \<inter> set seen = {}"
proof (induction rs arbitrary: seen)
  case (Cons r rs)
  then have "refuses_applied rows (rcp_id r # seen) rs = None" "rcp_id r \<notin> set seen"
    by (auto split: option.splits if_splits)
  then show ?case using Cons.IH [of "rcp_id r # seen"] by auto
qed simp

lemma with_intents_distinct:
  "with_intents encode encode_batch rows applied intents = None \<Longrightarrow> distinct (map rcp_id applied)"
  using refuses_applied_distinct [of rows "[]" applied]
  by (auto simp: with_intents_def opt_or_def split: if_splits option.splits)

lemma refuses_receipts_finished:
  "refuses_receipts rows d rs = None \<Longrightarrow> r \<in> set rs \<Longrightarrow> pend finished (sd_pending d) (rcp_id r)"
  by (induction rs) (auto simp: opt_or_def refuses_receipt_def pend_def finished_def is_queued_def
      split: option.splits if_splits BrokerCommandProgress.splits)

lemma owned_pending:
  assumes "keyed (sd_pending d)" "p \<in> set (owned_commands d owner)"
  shows "pend (\<lambda>_. True) (sd_pending d) (cmd_id (pc_command p))"
proof -
  obtain cid where "hm_get (sd_pending d) cid = Some p"
    using assms(2) by (auto simp: owned_commands_def List.map_filter_def)
  moreover from this have "cmd_id (pc_command p) = cid"
    using assms(1) by (auto simp: keyed_def pend_def split: option.splits)
  ultimately show ?thesis by (simp add: pend_def)
qed

lemma fold_modify_keeps:
  "sd_persisting (fold (\<lambda>cid. modify_pending cid f) cids d) = sd_persisting d"
  "(\<And>p. P (f p) = P p) \<Longrightarrow> pend P (sd_pending (fold (\<lambda>cid. modify_pending cid f) cids d)) cid = pend P (sd_pending d) cid"
  by (induction cids arbitrary: d) (simp_all add: modify_pending_def pend_same del: pend_modify)

lemma driver_inv_persist:
  assumes "driver_inv d"
  shows "driver_inv (snd (persist_execution_checkpoints cal E encode_batch try_send rows receipts d))"
proof (cases "fst (persist_execution_checkpoints cal E encode_batch try_send rows receipts d) = Ok ()")
  case False
  then show ?thesis using assms
    by (auto simp: persist_execution_checkpoints_def Let_def split: option.splits if_splits)
next
  case True
  define applied where "applied = map rcp_id receipts"
  define rows' where "rows' = map (complete_row applied d) rows"
  define intents where "intents = concat (map (row_intents d) rows')"
  let ?mark = "\<lambda>p. p\<lparr>pc_applying := True\<rparr>"
  let ?d = "fold (\<lambda>cid. modify_pending cid ?mark) applied d"
  have refs: "refuses_receipts rows d receipts = None" "with_intents (ce_encode E) encode_batch rows' receipts intents = None"
    using True by (auto simp: persist_execution_checkpoints_def Let_def opt_or_def applied_def rows'_def intents_def
        split: option.splits if_splits)
  have result: "snd (persist_execution_checkpoints cal E encode_batch try_send rows receipts d) =
    ?d\<lparr>sd_persisting := Some \<lparr>ps_applied = applied, ps_prepared = map (\<lambda>x. cmd_id (ei_command x)) intents,
       ps_rows = map (\<lambda>row. (row_insight_id row, from_checkpoint cal row)) rows', ps_reply = Some None\<rparr>\<rparr>"
    using True by (auto simp: persist_execution_checkpoints_def Let_def opt_or_def applied_def rows'_def intents_def
        split: option.splits if_splits)
  have "distinct applied" using with_intents_distinct [OF refs(2)] by (simp add: applied_def)
  moreover have "pend finished (sd_pending ?d) cid" if "cid \<in> set applied" for cid
    using refuses_receipts_finished [OF refs(1)] that
    by (auto simp: applied_def fold_modify_keeps(2) [of finished] finished_def is_queued_def)
  moreover have "pend (\<lambda>_. True) (sd_pending ?d) (cmd_id (ei_command x))" if "x \<in> set intents" for x
    using assms that owned_pending [of d] by (auto simp: driver_inv_def intents_def row_intents_def fold_modify_keeps(2))
  moreover have "driver_inv ?d" using assms by (rule driver_inv_fold_modify) (simp add: same_stage_def)
  ultimately show ?thesis unfolding result
    by (intro driver_inv_persisting) (auto simp: persist_ok_def)
qed

lemma modify_all_pending:
  "(\<And>cid. cid \<in> set cids \<Longrightarrow> pend (\<lambda>_. True) (sd_pending d) cid) \<Longrightarrow>
    modify_all f cids d = Some (fold (\<lambda>cid. modify_pending cid f) cids d)"
proof (induction cids arbitrary: d)
  case (Cons cid cids)
  have "hm_get (sd_pending d) cid \<noteq> None" using Cons.prems [of cid] by (auto simp: pend_def split: option.splits)
  moreover have "pend (\<lambda>_. True) (sd_pending (modify_pending cid f d)) cid'" if "cid' \<in> set cids" for cid'
    using Cons.prems [of cid'] that by (simp add: modify_pending_def pend_same del: pend_modify)
  ultimately show ?case using Cons.IH [of "modify_pending cid f d"] by simp
qed simp

lemma confirm_rows:
  "\<exists>w rows. fold confirm_row xs d = d\<lparr>sd_worker := w, sd_saved_rows := rows\<rparr>"
proof (induction xs arbitrary: d)
  case Nil
  show ?case by (rule exI [of _ "sd_worker d"], rule exI [of _ "sd_saved_rows d"]) simp
next
  case (Cons x xs)
  have worker: "\<exists>w. fold (\<lambda>p. with_worker (g p)) ps d = d\<lparr>sd_worker := w\<rparr>" for g and ps :: "PendingCommand list" and d
  proof (induction ps arbitrary: d)
    case Nil
    show ?case by (rule exI [of _ "sd_worker d"]) simp
  next
    case (Cons p ps)
    show ?case using Cons.IH [of "with_worker (g p) d"] by (auto simp: with_worker_def)
  qed
  have "\<exists>w rows. confirm_row x d = d\<lparr>sd_worker := w, sd_saved_rows := rows\<rparr>"
  proof (cases x)
    case (Pair owner row)
    let ?es = "filter (\<lambda>p. is_entry (cmd_action (pc_command p))) (owned_commands d owner)"
    obtain w where "fold (\<lambda>p. with_worker (set_entry_deadline (cmd_id (pc_command p)) (sr_entry_deadline row))) ?es d = d\<lparr>sd_worker := w\<rparr>"
      using worker [of "\<lambda>p. set_entry_deadline (cmd_id (pc_command p)) (sr_entry_deadline row)" ?es d] by blast
    then show ?thesis by (simp add: confirm_row_def Let_def Pair) blast
  qed
  then obtain w rows where "confirm_row x d = d\<lparr>sd_worker := w, sd_saved_rows := rows\<rparr>" by blast
  moreover obtain w' rows' where "fold confirm_row xs (confirm_row x d) = (confirm_row x d)\<lparr>sd_worker := w', sd_saved_rows := rows'\<rparr>"
    using Cons.IH by blast
  ultimately have "fold confirm_row (x # xs) d = d\<lparr>sd_worker := w', sd_saved_rows := rows'\<rparr>" by simp
  then show ?case by blast
qed

lemma forget_pending:
  assumes "driver_core d" "pend (\<lambda>p. \<not> is_queued p) (sd_pending d) cid"
  obtains d' where "forget_command cid d = Some d'" "driver_core d'" "sd_pending d' = hm_remove cid (sd_pending d)"
    "sd_persisting d' = sd_persisting d"
proof -
  note inv = assms(1) [unfolded driver_core_def]
  obtain p where p: "hm_get (sd_pending d) cid = Some p" "\<not> is_queued p"
    using assms(2) by (auto simp: pend_def split: option.splits)
  have "stage_ok p" using inv p(1) by (auto simp: staged_def pend_def split: option.splits)
  then have sent: "pc_dispatch_queued p" using p(2) by (simp add: stage_ok_def)
  obtain d' where d': "forget_command cid d = Some d'" using p(1) by (simp add: forget_command_def Let_def)
  have f: "sd_pending d' = hm_remove cid (sd_pending d)" "sd_persisting d' = sd_persisting d"
    "sd_max_pending d' = sd_max_pending d" "sd_control_admission d' = sd_control_admission d"
    "sd_entry_admission d' = sd_entry_admission d" "sd_awaiting_completion d' = sd_awaiting_completion d"
    "sd_ordinary_pending d' = sd_ordinary_pending d - (if ordinary p then 1 else 0)"
    "index_of d' owner = (if owner = pc_owner_id p then filter (\<lambda>x. x \<noteq> cid) (index_of d owner) else index_of d owner)" for owner
    using d' p(1) by (auto simp: forget_command_def Let_def with_worker_def index_of_def ordinary_def split: option.splits if_splits)
  have "keyed (sd_pending d')" using inv by (auto simp: keyed_def f)
  moreover have "indexed d'" using inv p(1) by (auto simp: indexed_def f pend_get)
  moreover have "counted d'"
    using inv count_vals_remove [of "sd_pending d" cid p ordinary] count_vals_remove [of "sd_pending d" cid p is_queued] p
      length_remove [of cid "sd_pending d"]
    by (cases "ordinary p") (simp_all add: counted_def f keyed_def)
  moreover have "queued_once d'" using inv p(1) sent by (auto simp: queued_once_def f pend_get waiting_def)
  moreover have "staged d'" using inv by (auto simp: staged_def f)
  ultimately have "driver_core d'" by (simp add: driver_core_def)
  then show ?thesis using that d' f(1,2) by blast
qed

lemma forget_all_pending:
  assumes "driver_core d" "distinct cids" "\<And>cid. cid \<in> set cids \<Longrightarrow> pend (\<lambda>p. \<not> is_queued p) (sd_pending d) cid"
  shows "\<exists>d'. forget_commands cids d = Some d' \<and> driver_core d' \<and> sd_persisting d' = sd_persisting d
    \<and> (\<forall>P cid. pend P (sd_pending d') cid \<longleftrightarrow> cid \<notin> set cids \<and> pend P (sd_pending d) cid)"
  using assms
proof (induction cids arbitrary: d)
  case (Cons cid cids)
  obtain d1 where d1: "forget_command cid d = Some d1" "driver_core d1" "sd_pending d1 = hm_remove cid (sd_pending d)"
    "sd_persisting d1 = sd_persisting d"
    using forget_pending [of d cid] Cons.prems(1,3) by auto
  have "pend (\<lambda>p. \<not> is_queued p) (sd_pending d1) cid'" if "cid' \<in> set cids" for cid'
    using that Cons.prems by (auto simp: d1(3))
  from Cons.IH [OF d1(2) _ this] Cons.prems(2) show ?case by (auto simp: d1)
qed simp

lemma release_ok:
  assumes "driver_core d" "persist_ok d ps" "ps_reply ps = None"
  shows "\<exists>d'. release_applied n ps d = (Ok (min (min (length (ps_applied ps)) n) 256), d') \<and> driver_inv d'
    \<and> sd_persisting d' = (if length (ps_applied ps) \<le> min n 256 then None
         else Some (ps\<lparr>ps_applied := drop (min n 256) (ps_applied ps)\<rparr>))
    \<and> (\<forall>P cid. pend P (sd_pending d') cid \<longleftrightarrow> cid \<notin> set (take (min n 256) (ps_applied ps)) \<and> pend P (sd_pending d) cid)"
proof -
  let ?k = "min (min (length (ps_applied ps)) n) 256"
  have take: "take ?k (ps_applied ps) = take (min n 256) (ps_applied ps)" "drop ?k (ps_applied ps) = drop (min n 256) (ps_applied ps)"
    by (auto simp: min_def)
  have ok: "distinct (ps_applied ps)" "\<And>cid. cid \<in> set (ps_applied ps) \<Longrightarrow> pend finished (sd_pending d) cid" "ps_prepared ps = []"
    using assms(2,3) by (auto simp: persist_ok_def)
  have "\<And>cid. cid \<in> set (take ?k (ps_applied ps)) \<Longrightarrow> pend (\<lambda>p. \<not> is_queued p) (sd_pending d) cid"
    using pend_mono [OF ok(2), of _ "\<lambda>p. \<not> is_queued p"] in_set_takeD by (metis finished_def)
  then obtain d1 where d1: "forget_commands (take ?k (ps_applied ps)) d = Some d1" "driver_core d1" "sd_persisting d1 = sd_persisting d"
      "\<And>P cid. pend P (sd_pending d1) cid \<longleftrightarrow> cid \<notin> set (take ?k (ps_applied ps)) \<and> pend P (sd_pending d) cid"
    using forget_all_pending [OF assms(1), of "take ?k (ps_applied ps)"] ok(1) by auto
  have "persist_ok d1 (ps\<lparr>ps_applied := drop ?k (ps_applied ps)\<rparr>)"
    using ok set_take_disj_set_drop_if_distinct [OF ok(1), of ?k ?k]
    by (auto simp: persist_ok_def d1(4) dest: in_set_dropD)
  then show ?thesis using d1
    by (auto simp: release_applied_def Let_def driver_inv_core driver_core_persisting persisting_ok_def persist_ok_persisting take)
qed

text \<open>Polling an acknowledged checkpoint forgets its next commands and nothing else.\<close>

definition acknowledged :: "PersistingExecution \<Rightarrow> bool" where
  "acknowledged ps \<longleftrightarrow> (case ps_reply ps of None \<Rightarrow> True | Some (Some (Inr _)) \<Rightarrow> True | _ \<Rightarrow> False)"

lemma poll_acknowledged:
  assumes "driver_inv d" "sd_persisting d = Some ps" "acknowledged ps" "n \<noteq> 0"
  shows "\<exists>d' ps'. poll_acknowledgements n d = (Ok (min (min (length (ps_applied ps)) n) 256), d') \<and> driver_inv d'
    \<and> sd_persisting d' = (if length (ps_applied ps) \<le> min n 256 then None else Some ps')
    \<and> acknowledged ps' \<and> ps_applied ps' = drop (min n 256) (ps_applied ps)
    \<and> (\<forall>cid. pend (\<lambda>_. True) (sd_pending d') cid \<longleftrightarrow>
         cid \<notin> set (take (min n 256) (ps_applied ps)) \<and> pend (\<lambda>_. True) (sd_pending d) cid)"
proof (cases "ps_reply ps")
  case None
  have "driver_core d" "persist_ok d ps" using assms(1,2) by (auto simp: driver_inv_core persisting_ok_def)
  from release_ok [OF this None, of n] obtain d' where d': "release_applied n ps d = (Ok (min (min (length (ps_applied ps)) n) 256), d')"
    "driver_inv d'" "sd_persisting d' = (if length (ps_applied ps) \<le> min n 256 then None
       else Some (ps\<lparr>ps_applied := drop (min n 256) (ps_applied ps)\<rparr>))"
    "\<forall>P cid. pend P (sd_pending d') cid \<longleftrightarrow> cid \<notin> set (take (min n 256) (ps_applied ps)) \<and> pend P (sd_pending d) cid" by blast
  have "poll_acknowledgements n d = release_applied n ps d" using assms(2,4) None by (simp add: poll_acknowledgements_def)
  then show ?thesis using d' None
    by (intro exI [of _ d'] exI [of _ "ps\<lparr>ps_applied := drop (min n 256) (ps_applied ps)\<rparr>"]) (simp add: acknowledged_def)
next
  case (Some r)
  then obtain u where r: "r = Some (Inr u)" using assms(3) by (auto simp: acknowledged_def split: option.splits sum.splits)
  obtain w rows where c: "fold confirm_row (ps_rows ps) d = d\<lparr>sd_worker := w, sd_saved_rows := rows\<rparr>"
    using confirm_rows by blast
  let ?d = "d\<lparr>sd_worker := w, sd_saved_rows := rows\<rparr>"
  let ?e = "fold (\<lambda>cid. modify_pending cid (\<lambda>p. p\<lparr>pc_durable := True\<rparr>)) (ps_prepared ps) ?d"
  let ?ps = "ps\<lparr>ps_reply := None, ps_rows := [], ps_prepared := []\<rparr>"
  have "driver_inv ?d" using assms(1) by (rule driver_inv_cong) simp_all
  then have e: "driver_inv ?e" by (rule driver_inv_fold_modify) (simp add: same_stage_def)
  then have "persist_ok ?e ps" using assms(2) by (simp add: driver_inv_core persisting_ok_def fold_modify_keeps(1))
  then have ok: "driver_core ?e" "persist_ok ?e ?ps" "ps_reply ?ps = None" using e by (simp_all add: persist_ok_def driver_inv_core)
  have "persist_ok d ps" using assms(1,2) by (simp add: driver_inv_core persisting_ok_def)
  then have "modify_all (\<lambda>p. p\<lparr>pc_durable := True\<rparr>) (ps_prepared ps) ?d = Some ?e"
    by (intro modify_all_pending) (simp add: persist_ok_def)
  then have "poll_acknowledgements n d = release_applied n ?ps ?e"
    using assms(2,4) Some r by (simp add: poll_acknowledgements_def Let_def c)
  moreover have "pend (\<lambda>_. True) (sd_pending ?e) cid = pend (\<lambda>_. True) (sd_pending d) cid" for cid
    by (simp add: fold_modify_keeps(2))
  moreover from release_ok [OF ok, of n] obtain d' where "release_applied n ?ps ?e = (Ok (min (min (length (ps_applied ps)) n) 256), d')"
    "driver_inv d'" "sd_persisting d' = (if length (ps_applied ps) \<le> min n 256 then None
       else Some (?ps\<lparr>ps_applied := drop (min n 256) (ps_applied ps)\<rparr>))"
    "\<forall>P cid. pend P (sd_pending d') cid \<longleftrightarrow> cid \<notin> set (take (min n 256) (ps_applied ps)) \<and> pend P (sd_pending ?e) cid" by auto
  ultimately show ?thesis
    by (intro exI [of _ d'] exI [of _ "?ps\<lparr>ps_applied := drop (min n 256) (ps_applied ps)\<rparr>"]) (simp add: acknowledged_def)
qed

text \<open>Otherwise nothing is forgotten.\<close>

lemma poll_not_acknowledged:
  assumes "driver_inv d" "n = 0 \<or> sd_persisting d = None \<or> (\<exists>ps. sd_persisting d = Some ps \<and> \<not> acknowledged ps)"
  shows "fst (poll_acknowledgements n d) \<noteq> Panic \<and> driver_inv (snd (poll_acknowledgements n d))
    \<and> (\<forall>cid. pend (\<lambda>_. True) (sd_pending (snd (poll_acknowledgements n d))) cid = pend (\<lambda>_. True) (sd_pending d) cid)"
proof (cases "n = 0 \<or> sd_persisting d = None \<or> (\<exists>ps. sd_persisting d = Some ps \<and> ps_reply ps = Some None)")
  case True
  then show ?thesis using assms(1) by (auto simp: poll_acknowledgements_def)
next
  case False
  then obtain ps where n: "n \<noteq> 0" and ps: "sd_persisting d = Some ps" "\<not> acknowledged ps" "ps_reply ps \<noteq> Some None"
    using assms(2) by auto
  then obtain e where err: "ps_reply ps = Some (Some (Inl e))"
    by (auto simp: acknowledged_def split: option.splits sum.splits)
  let ?d = "d\<lparr>sd_persisting := None\<rparr>" and ?f = "\<lambda>p. p\<lparr>pc_applying := False\<rparr>"
  have "persist_ok d ps" using assms(1) ps(1) by (simp add: driver_inv_core persisting_ok_def)
  then have "pend (\<lambda>_. True) (sd_pending ?d) cid" if "cid \<in> set (ps_applied ps)" for cid
    using that by (auto simp: persist_ok_def elim!: pend_mono)
  then have all: "modify_all ?f (ps_applied ps) ?d = Some (fold (\<lambda>cid. modify_pending cid ?f) (ps_applied ps) ?d)"
    by (rule modify_all_pending)
  have "driver_inv ?d" using assms(1) by (rule driver_inv_persisting) simp
  then have "driver_inv (fold (\<lambda>cid. modify_pending cid ?f) (ps_applied ps) ?d)"
    by (rule driver_inv_fold_modify) (simp add: same_stage_def)
  moreover have "pend (\<lambda>_. True) (sd_pending (fold (\<lambda>cid. modify_pending cid ?f) (ps_applied ps) ?d)) cid
      = pend (\<lambda>_. True) (sd_pending d) cid" for cid
    by (simp add: fold_modify_keeps(2))
  ultimately show ?thesis using n ps(1) err all
    by (simp add: poll_acknowledgements_def driver_inv_stop)
qed

lemma poll_acknowledgements_ok:
  assumes "driver_inv d"
  shows "fst (poll_acknowledgements n d) \<noteq> Panic \<and> driver_inv (snd (poll_acknowledgements n d))"
proof (cases "n = 0 \<or> sd_persisting d = None \<or> (\<exists>ps. sd_persisting d = Some ps \<and> \<not> acknowledged ps)")
  case True
  then show ?thesis using poll_not_acknowledged [OF assms] by blast
next
  case False
  then obtain ps where "sd_persisting d = Some ps" "acknowledged ps" "n \<noteq> 0" by auto
  from poll_acknowledged [OF assms this] show ?thesis by auto
qed

subsection \<open>Dispatch\<close>

lemma next_dispatch_front:
  assumes "driver_inv d" "next_dispatch_id allow d = Some cid"
  obtains p where "hm_get (sd_pending d) cid = Some p" "checkpoint_chain_ready d p" "\<not> pc_dispatch_queued p"
    "entry_allowed allow d p" "cmd_id (pc_command p) = cid"
    "if ordinary p then sd_entry_admission d = cid # tl (sd_entry_admission d)
     else sd_control_admission d = cid # tl (sd_control_admission d)"
proof -
  obtain p where p: "hm_get (sd_pending d) cid = Some p" "checkpoint_chain_ready d p"
      "sd_control_admission d = cid # tl (sd_control_admission d)
       \<or> (sd_entry_admission d = cid # tl (sd_entry_admission d) \<and> entry_allowed allow d p)"
    using assms(2) by (auto simp: next_dispatch_id_def front_ready_def opt_or_def split: if_splits option.splits list.splits)
  have q: "cid \<in> set (sd_control_admission d) \<longleftrightarrow> waiting True p" "cid \<in> set (sd_entry_admission d) \<longleftrightarrow> waiting False p"
    using assms(1) p(1) by (auto simp: driver_inv_def queued_once_def pend_get)
  have "cmd_id (pc_command p) = cid"
    using assms(1) p(1) by (auto simp: driver_inv_def keyed_def pend_def split: option.splits)
  moreover have "\<not> pc_dispatch_queued p \<and> entry_allowed allow d p \<and> (if ordinary p then sd_entry_admission d = cid # tl (sd_entry_admission d)
     else sd_control_admission d = cid # tl (sd_control_admission d))"
    using p(3)
  proof
    assume c: "sd_control_admission d = cid # tl (sd_control_admission d)"
    then have "waiting True p" using q(1) by (metis list.set_intros(1))
    then show ?thesis using c by (auto simp: waiting_def ordinary_def entry_allowed_def is_entry_def is_teardown_def split: BrokerCommandAction.splits)
  next
    assume c: "sd_entry_admission d = cid # tl (sd_entry_admission d) \<and> entry_allowed allow d p"
    then have "waiting False p" using q(2) by (metis list.set_intros(1))
    then show ?thesis using c by (auto simp: waiting_def)
  qed
  ultimately show ?thesis using that p(1,2) by blast
qed

text \<open>The state after one command was given to the worker.\<close>

definition sent :: "PendingCommand \<Rightarrow> BrokerCommandWorker \<Rightarrow> StrategyCommandDriver \<Rightarrow> StrategyCommandDriver" where
  "sent p w d = (modify_pending (cmd_id (pc_command p)) (\<lambda>p. p\<lparr>pc_dispatch_queued := True\<rparr>) (d\<lparr>sd_worker := w\<rparr>))
     \<lparr>sd_control_admission := (if ordinary p then sd_control_admission d else tl (sd_control_admission d)),
      sd_entry_admission := (if ordinary p then tl (sd_entry_admission d) else sd_entry_admission d)\<rparr>"

lemma driver_inv_sent:
  assumes "driver_inv d" "next_dispatch_id allow d = Some (cmd_id (pc_command p))"
    "hm_get (sd_pending d) (cmd_id (pc_command p)) = Some p"
  shows "driver_inv (sent p w d)"
proof -
  let ?cid = "cmd_id (pc_command p)" and ?f = "\<lambda>p. p\<lparr>pc_dispatch_queued := True\<rparr>"
  note inv = assms(1) [unfolded driver_inv_def]
  have p: "checkpoint_chain_ready d p" "\<not> pc_dispatch_queued p"
    "if ordinary p then sd_entry_admission d = ?cid # tl (sd_entry_admission d)
     else sd_control_admission d = ?cid # tl (sd_control_admission d)"
    using next_dispatch_front [OF assms(1,2)] assms(3) by (metis option.inject)+
  have f: "sd_pending (sent p w d) = hm_modify ?cid ?f (sd_pending d)" "sd_by_insight (sent p w d) = sd_by_insight d"
    "sd_persisting (sent p w d) = sd_persisting d" "sd_max_pending (sent p w d) = sd_max_pending d"
    "sd_ordinary_pending (sent p w d) = sd_ordinary_pending d" "sd_awaiting_completion (sent p w d) = sd_awaiting_completion d"
    "sd_control_admission (sent p w d) = (if ordinary p then sd_control_admission d else tl (sd_control_admission d))"
    "sd_entry_admission (sent p w d) = (if ordinary p then tl (sd_entry_admission d) else sd_entry_admission d)"
    by (simp_all add: sent_def modify_pending_def)
  have keeps: "ordinary (?f v) = ordinary v" "is_queued (?f v) = is_queued v" "finished (?f v) = finished v" for v
    by (simp_all add: ordinary_def is_queued_def finished_def)
  have same: "pend P (hm_modify ?cid ?f m) cid' = pend P m cid'" if "\<And>p. P (?f p) = P p" for P m cid'
    using that by (rule pend_same)
  have gone: "\<not> waiting b (?f v)" for b v by (simp add: waiting_def)
  have "keyed (sd_pending (sent p w d))" using inv by (simp add: keyed_def f same hm.ok_modify del: pend_modify)
  moreover have "indexed (sent p w d)" using inv by (simp add: indexed_def index_of_def f same del: pend_modify)
  moreover have "counted (sent p w d)" using inv by (simp add: counted_def f count_vals_same keeps)
  moreover have "queued_once (sent p w d)"
  proof -
    have w: "pend (waiting b) (sd_pending (sent p w d)) cid \<longleftrightarrow> cid \<noteq> ?cid \<and> pend (waiting b) (sd_pending d) cid" for b cid
      using gone by (auto simp: f pend_def split: option.splits)
    have now: "pend (waiting b) (sd_pending d) ?cid \<longleftrightarrow> (b \<longleftrightarrow> \<not> ordinary p)" for b
      using p(2) assms(3) by (simp add: pend_get waiting_def)
    have out: "distinct xs \<and> xs = c # tl xs \<Longrightarrow> distinct (tl xs) \<and> set (tl xs) = set xs - {c}" for xs :: "string list" and c
      by (cases xs) auto
    show ?thesis
      using inv p(3) now [of True] now [of False] out [of "sd_control_admission d" ?cid] out [of "sd_entry_admission d" ?cid]
      unfolding queued_once_def w by (cases "ordinary p") (auto simp: f queued_once_def)
  qed
  moreover have "stage_ok (?f p)"
    using p(1) by (simp add: stage_ok_def checkpoint_chain_ready_def)
  then have "staged (sent p w d)" using inv assms(3) by (simp add: staged_def f pend_get)
  moreover have "persist_ok d ps \<Longrightarrow> persist_ok (sent p w d) ps" for ps by (simp add: persist_ok_def f same keeps del: pend_modify)
  then have "persisting_ok (sent p w d)" using inv by (simp add: persisting_ok_def f)
  ultimately show ?thesis by (simp add: driver_inv_def)
qed

lemma try_enqueue_result:
  assumes "try_enqueue_inner encode c b w = (r, w')"
  shows "case r of Inl _ \<Rightarrow> w' = w
    | Inr _ \<Rightarrow> wk_controls w' = wk_controls w @ (if is_teardown (cmd_action c) then [c] else [])
        \<and> wk_entries w' = wk_entries w @ (if is_teardown (cmd_action c) then [] else [c]) \<and> wk_gate w' = wk_gate w"
  using assms by (auto simp: try_enqueue_inner_def split: sum.splits if_splits)

text \<open>
  What a dispatch turn hands over: commands that were durable, ready and not handed over before, each once,
  and in the order of their admission.
\<close>

definition may_go :: "bool \<Rightarrow> StrategyCommandDriver \<Rightarrow> PendingCommand \<Rightarrow> bool" where
  "may_go allow d p \<longleftrightarrow> checkpoint_chain_ready d p \<and> entry_allowed allow d p \<and> \<not> pc_dispatch_queued p"

definition teardowns :: "BrokerCommand list \<Rightarrow> BrokerCommand list" where
  "teardowns cs = filter (\<lambda>c. is_teardown (cmd_action c)) cs"

definition openings :: "BrokerCommand list \<Rightarrow> BrokerCommand list" where
  "openings cs = filter (\<lambda>c. \<not> is_teardown (cmd_action c)) cs"

definition handed_over :: "bool \<Rightarrow> StrategyCommandDriver \<Rightarrow> BrokerCommand list \<Rightarrow> StrategyCommandDriver \<Rightarrow> bool" where
  "handed_over allow d cs d' \<longleftrightarrow>
     wk_controls (sd_worker d') = wk_controls (sd_worker d) @ teardowns cs
   \<and> wk_entries (sd_worker d') = wk_entries (sd_worker d) @ openings cs
   \<and> sd_control_admission d = map cmd_id (teardowns cs) @ sd_control_admission d'
   \<and> sd_entry_admission d = map cmd_id (openings cs) @ sd_entry_admission d'
   \<and> distinct (map cmd_id cs)
   \<and> (\<forall>c \<in> set cs. pend (\<lambda>p. pc_command p = c \<and> may_go allow d p) (sd_pending d) (cmd_id c))
   \<and> (\<forall>c \<in> set cs. pend pc_dispatch_queued (sd_pending d') (cmd_id c))
   \<and> (\<forall>cid. pend pc_dispatch_queued (sd_pending d) cid \<longrightarrow> pend pc_dispatch_queued (sd_pending d') cid)
   \<and> (\<forall>cid. pend (\<lambda>_. True) (sd_pending d') cid = pend (\<lambda>_. True) (sd_pending d) cid)"

lemma handed_over_refl:
  "wk_controls (sd_worker d') = wk_controls (sd_worker d) \<Longrightarrow> wk_entries (sd_worker d') = wk_entries (sd_worker d) \<Longrightarrow>
    sd_control_admission d' = sd_control_admission d \<Longrightarrow> sd_entry_admission d' = sd_entry_admission d \<Longrightarrow>
    sd_pending d' = sd_pending d \<Longrightarrow> handed_over allow d [] d'"
  by (simp add: handed_over_def teardowns_def openings_def)

lemma handed_over_sent:
  assumes front: "if ordinary p then sd_entry_admission d = cmd_id (pc_command p) # tl (sd_entry_admission d)
      else sd_control_admission d = cmd_id (pc_command p) # tl (sd_control_admission d)"
    and p: "hm_get (sd_pending d) (cmd_id (pc_command p)) = Some p" "may_go allow d p"
    and w: "wk_controls w = wk_controls (sd_worker d) @ (if ordinary p then [] else [pc_command p])"
      "wk_entries w = wk_entries (sd_worker d) @ (if ordinary p then [pc_command p] else [])"
      "wk_gate w = wk_gate (sd_worker d)"
    and rest: "handed_over allow (sent p w d) cs d'"
  shows "handed_over allow d (pc_command p # cs) d'"
proof -
  let ?cid = "cmd_id (pc_command p)" and ?d = "sent p w d"
  have f: "sd_pending ?d = hm_modify ?cid (\<lambda>p. p\<lparr>pc_dispatch_queued := True\<rparr>) (sd_pending d)" "sd_worker ?d = w"
    "sd_saved_rows ?d = sd_saved_rows d"
    "sd_control_admission ?d = (if ordinary p then sd_control_admission d else tl (sd_control_admission d))"
    "sd_entry_admission ?d = (if ordinary p then tl (sd_entry_admission d) else sd_entry_admission d)"
    by (simp_all add: sent_def modify_pending_def)
  have go: "may_go allow ?d = may_go allow d"
    by (simp add: fun_eq_iff may_go_def checkpoint_chain_ready_def entry_allowed_def entry_is_gated_def f w(3))
  have was: "\<forall>c \<in> set cs. pend (\<lambda>p. pc_command p = c \<and> may_go allow d p) (sd_pending ?d) (cmd_id c)"
    using rest unfolding handed_over_def go by blast
  have "\<not> pend (\<lambda>p. pc_command p = c \<and> may_go allow d p) (sd_pending ?d) ?cid" for c
    by (simp add: f pend_def may_go_def split: option.split)
  then have other: "c \<in> set cs \<Longrightarrow> cmd_id c \<noteq> ?cid" for c using was by metis
  have "\<forall>c \<in> set cs. pend (\<lambda>p. pc_command p = c \<and> may_go allow d p) (sd_pending d) (cmd_id c)"
    using was other by (simp add: f)
  moreover have "pend pc_dispatch_queued (sd_pending ?d) ?cid" using p(1) by (simp add: f pend_get)
  then have "pend pc_dispatch_queued (sd_pending d') ?cid" using rest by (simp add: handed_over_def)
  moreover have "pend pc_dispatch_queued (sd_pending d) cid \<Longrightarrow> pend pc_dispatch_queued (sd_pending ?d) cid" for cid
    by (auto simp: f pend_def split: option.splits)
  moreover have "sd_control_admission d = map cmd_id (teardowns (pc_command p # cs)) @ sd_control_admission d'
      \<and> sd_entry_admission d = map cmd_id (openings (pc_command p # cs)) @ sd_entry_admission d'"
  proof (cases "ordinary p")
    case True
    then obtain es where "sd_entry_admission d = ?cid # es" using front by auto
    then show ?thesis using rest True by (simp add: handed_over_def f teardowns_def openings_def ordinary_def)
  next
    case False
    then obtain es where "sd_control_admission d = ?cid # es" using front by auto
    then show ?thesis using rest False by (simp add: handed_over_def f teardowns_def openings_def ordinary_def)
  qed
  moreover have "wk_controls (sd_worker d') = wk_controls (sd_worker d) @ teardowns (pc_command p # cs)"
    "wk_entries (sd_worker d') = wk_entries (sd_worker d) @ openings (pc_command p # cs)"
    using rest w(1,2) by (auto simp: handed_over_def f teardowns_def openings_def ordinary_def)
  moreover have "distinct (map cmd_id (pc_command p # cs))" using rest other [symmetric] by (auto simp: handed_over_def)
  moreover have "\<forall>c \<in> set cs. pend pc_dispatch_queued (sd_pending d') (cmd_id c)"
    "\<forall>cid. pend pc_dispatch_queued (sd_pending ?d) cid \<longrightarrow> pend pc_dispatch_queued (sd_pending d') cid"
    using rest by (simp_all add: handed_over_def)
  moreover have "\<forall>cid. pend (\<lambda>_. True) (sd_pending d') cid = pend (\<lambda>_. True) (sd_pending d) cid"
    using rest by (simp add: handed_over_def f pend_same del: pend_modify)
  moreover have "pend (\<lambda>q. pc_command q = pc_command p \<and> may_go allow d q) (sd_pending d) ?cid" using p by (simp add: pend_get)
  ultimately show ?thesis unfolding handed_over_def by (simp only: list.set ball_simps simp_thms) blast
qed

lemma with_worker_gate_free:
  "driver_inv (with_worker f d) = driver_inv d" "next_dispatch_id allow (with_worker (set_entry_deadline cid t) d) = next_dispatch_id allow d"
proof -
  show "driver_inv (with_worker f d) = driver_inv d"
    using driver_inv_worker [of "with_worker f d" "\<lambda>_. sd_worker d"] driver_inv_worker [of d f] by (auto simp: with_worker_def)
  let ?d = "with_worker (set_entry_deadline cid t) d"
  have f: "sd_pending ?d = sd_pending d" "sd_saved_rows ?d = sd_saved_rows d" "sd_restoring ?d = sd_restoring d"
    "sd_control_admission ?d = sd_control_admission d" "sd_entry_admission ?d = sd_entry_admission d"
    "entry_is_gated x (sd_worker ?d) = entry_is_gated x (sd_worker d)" for x
    by (simp_all add: with_worker_def set_entry_deadline_def entry_is_gated_def)
  have "checkpoint_chain_ready ?d = checkpoint_chain_ready d" "entry_allowed allow ?d = entry_allowed allow d"
    by (simp_all add: fun_eq_iff checkpoint_chain_ready_def entry_allowed_def f)
  moreover from this(1) have "front_ready ?d = front_ready d"
    by (intro ext) (simp add: front_ready_def f split: list.split option.split)
  ultimately show "next_dispatch_id allow ?d = next_dispatch_id allow d" by (simp add: next_dispatch_id_def f)
qed

lemma dispatch_loop_ok:
  "driver_inv d \<Longrightarrow> \<exists>cs. handed_over allow d cs (snd (dispatch_loop E allow k n d))
    \<and> driver_inv (snd (dispatch_loop E allow k n d)) \<and> fst (dispatch_loop E allow k n d) \<noteq> Panic
    \<and> (\<forall>m. fst (dispatch_loop E allow k n d) = Ok m \<longrightarrow> m = k + length cs)"
proof (induction n arbitrary: k d)
  case 0
  then show ?case by (intro exI [of _ "[]"]) (simp add: handed_over_refl)
next
  case (Suc n)
  show ?case
  proof (cases "next_dispatch_id allow d")
    case None
    then show ?thesis using Suc.prems by (intro exI [of _ "[]"]) (simp add: handed_over_refl)
  next
    case (Some cid)
    obtain p where p: "hm_get (sd_pending d) cid = Some p" "checkpoint_chain_ready d p" "\<not> pc_dispatch_queued p"
      "entry_allowed allow d p" "cmd_id (pc_command p) = cid"
      "if ordinary p then sd_entry_admission d = cid # tl (sd_entry_admission d)
       else sd_control_admission d = cid # tl (sd_control_admission d)"
      using next_dispatch_front [OF Suc.prems Some] by blast
    define d1 where "d1 = (if is_entry (cmd_action (pc_command p))
        then with_worker (set_entry_deadline cid (case hm_get (sd_saved_rows d) (pc_owner_id p) of
          None \<Rightarrow> None | Some row \<Rightarrow> sr_entry_deadline row)) d else d)"
    obtain r w where rw: "try_enqueue_inner (ce_encode E) (pc_command p) True (sd_worker d1) = (r, w)" by fastforce
    have f: "sd_pending d1 = sd_pending d" "sd_control_admission d1 = sd_control_admission d"
      "sd_entry_admission d1 = sd_entry_admission d" "sd_saved_rows d1 = sd_saved_rows d"
      "wk_controls (sd_worker d1) = wk_controls (sd_worker d)" "wk_entries (sd_worker d1) = wk_entries (sd_worker d)"
      "gate_stopped (wk_gate (sd_worker d1)) = gate_stopped (wk_gate (sd_worker d))"
      "gate_cancelled (wk_gate (sd_worker d1)) = gate_cancelled (wk_gate (sd_worker d))"
      by (simp_all add: d1_def with_worker_def set_entry_deadline_def)
    have inv1: "driver_inv d1" "next_dispatch_id allow d1 = Some cid"
      using Suc.prems Some by (simp_all add: d1_def with_worker_gate_free)
    have go: "may_go allow d1 = may_go allow d"
      by (simp add: fun_eq_iff may_go_def checkpoint_chain_ready_def entry_allowed_def entry_is_gated_def f)
    have same: "handed_over allow d1 cs d' = handed_over allow d cs d'" for cs d'
      by (simp add: handed_over_def f go)
    have durable: "pc_durable p" using p(2) by (simp add: checkpoint_chain_ready_def)
    show ?thesis
    proof (cases r)
      case (Inl e)
      then have "w = sd_worker d1" using try_enqueue_result [OF rw] by simp
      then have step: "dispatch_loop E allow k (Suc n) d = (if e = CmdQueueFull then (Ok k, d1) else (Fail e, request_execution_stop d1))"
        using Some p(1) durable rw Inl by (simp add: Let_def d1_def [symmetric])
      have "handed_over allow d1 [] d1" "handed_over allow d1 [] (request_execution_stop d1)"
        by (simp_all add: handed_over_refl request_execution_stop_def with_worker_def worker_request_execution_stop_def
            worker_stop_entries_def Let_def)
      then show ?thesis using inv1(1) step by (intro exI [of _ "[]"]) (simp add: same driver_inv_stop)
    next
      case (Inr receipt)
      have "dispatch_loop E allow k (Suc n) d = dispatch_loop E allow (k + 1) n (sent p w d1)"
        using Some p(1,5) durable rw Inr
        by (simp add: Let_def d1_def [symmetric] sent_def ordinary_def modify_pending_def)
      moreover have "driver_inv (sent p w d1)" using driver_inv_sent [OF inv1(1), of allow p w] inv1(2) p(1,5) f(1) by simp
      then obtain cs where cs: "handed_over allow (sent p w d1) cs (snd (dispatch_loop E allow (k + 1) n (sent p w d1)))"
          "driver_inv (snd (dispatch_loop E allow (k + 1) n (sent p w d1)))"
          "fst (dispatch_loop E allow (k + 1) n (sent p w d1)) \<noteq> Panic"
          "\<forall>m. fst (dispatch_loop E allow (k + 1) n (sent p w d1)) = Ok m \<longrightarrow> m = k + 1 + length cs"
        using Suc.IH by blast
      moreover have "handed_over allow d1 (pc_command p # cs) (snd (dispatch_loop E allow (k + 1) n (sent p w d1)))"
        using cs(1) p try_enqueue_result [OF rw] Inr
        by (intro handed_over_sent) (auto simp: f ordinary_def go may_go_def)
      ultimately show ?thesis by (intro exI [of _ "pc_command p # cs"]) (simp add: same)
    qed
  qed
qed

lemma persist_no_panic:
  assumes "driver_inv d"
  shows "fst (persist_execution_checkpoints cal E encode_batch try_send rows receipts d) \<noteq> Panic"
proof -
  have "indexed_commands d owner \<noteq> None" for owner
  proof -
    have "cid \<in> set (index_of d owner) \<Longrightarrow> hm_get (sd_pending d) cid \<noteq> None" for cid
      using assms by (auto simp: driver_inv_def indexed_def pend_def split: option.splits)
    then have "\<And>xs. set xs \<subseteq> set (index_of d owner) \<Longrightarrow> those (map (hm_get (sd_pending d)) xs) \<noteq> None"
    proof -
      fix xs assume "set xs \<subseteq> set (index_of d owner)" "\<And>cid. cid \<in> set (index_of d owner) \<Longrightarrow> hm_get (sd_pending d) cid \<noteq> None"
      then show "those (map (hm_get (sd_pending d)) xs) \<noteq> None" by (induction xs) (auto split: option.split)
    qed
    then show ?thesis by (simp add: indexed_commands_def index_of_def)
  qed
  then show ?thesis
    by (auto simp: persist_execution_checkpoints_def Let_def list_all_iff split: option.splits if_splits)
qed

section \<open>Reachable states\<close>

lemma driver_inv_recover:
  "recover_commands E cs d = Inr d' \<Longrightarrow> driver_inv d \<Longrightarrow> distinct (map (cmd_id \<circ> rc_command) cs) \<Longrightarrow>
    (\<forall>c \<in> set cs. hm_get (sd_pending d) (cmd_id (rc_command c)) = None) \<Longrightarrow>
    length (sd_pending d) + length cs \<le> sd_max_pending d \<Longrightarrow> driver_inv d'"
proof (induction cs arbitrary: d)
  case (Cons c cs)
  obtain d1 where d1: "recover_command E c d = Inr d1" "recover_commands E cs d1 = Inr d'"
    using Cons.prems(1) by (auto split: sum.splits)
  obtain p d0 where p: "d1 = admit p d0" "driver_inv d0" "sd_pending d0 = sd_pending d" "sd_max_pending d0 = sd_max_pending d"
    "pc_command p = rc_command c" "is_queued p" "\<not> pc_dispatch_queued p"
    using d1(1) Cons.prems(2) driver_inv_worker [OF Cons.prems(2)]
    by (fastforce simp: recover_command_def Let_def is_queued_def with_worker_def split: option.splits if_splits)
  have new: "hm_get (sd_pending d) (cmd_id (rc_command c)) = None" using Cons.prems(4) by simp
  have "driver_inv d1" unfolding p(1)
    using p new Cons.prems(5) by (intro driver_inv_admit) simp_all
  moreover have "sd_pending d1 = hm_insert (cmd_id (rc_command c)) p (sd_pending d)" "sd_max_pending d1 = sd_max_pending d"
    using p by (simp_all add: admit_def Let_def)
  moreover have "c' \<in> set cs \<Longrightarrow> cmd_id (rc_command c') \<noteq> cmd_id (rc_command c)" for c'
    using Cons.prems(3) by (force simp: image_iff)
  ultimately show ?case
    using Cons.IH [OF d1(2)] Cons.prems(3,4,5) length_insert_fresh [OF new, of p] by auto
qed simp

text \<open>The journal's answer arrives.\<close>

definition journal_answers :: "BrokerCommandError + unit \<Rightarrow> StrategyCommandDriver \<Rightarrow> StrategyCommandDriver" where
  "journal_answers r d = (case sd_persisting d of
       Some ps \<Rightarrow> if ps_reply ps = Some None then d\<lparr>sd_persisting := Some (ps\<lparr>ps_reply := Some (Some r)\<rparr>)\<rparr> else d
     | None \<Rightarrow> d)"

text \<open>
  One step of the driver or of its environment: the operations, the worker task changing its end of the
  channels and its gate, and the journal's answer.  A completion that is read belongs to a command the worker
  was given, if it belongs to a pending one.
\<close>

inductive driver_step :: "StrategyCommandDriver \<Rightarrow> StrategyCommandDriver \<Rightarrow> bool" where
  enqueue: "driver_step d (snd (enqueue_command E now command d))"
| cancel_entry: "driver_step d (snd (driver_cancel_pending_entry receipt d))"
| completion: "reports_given d \<Longrightarrow> driver_step d (snd (next_ready d))"
| reduce: "driver_step d (snd (mark_reduced receipt d))"
| reduce_terminal: "driver_step d (reduce_terminal_receipts owner oid s d)"
| persist: "driver_step d (snd (persist_execution_checkpoints cal E encode_batch try_send rows receipts d))"
| answer: "driver_step d (journal_answers r d)"
| poll: "driver_step d (snd (poll_acknowledgements n d))"
| dispatch: "driver_step d (snd (dispatch_prepared_with_admission E n allow d))"
| stop: "driver_step d (request_execution_stop d)"
| recovered: "driver_step d (finish_recovery d)"
| worker: "driver_step d (d\<lparr>sd_worker := w\<rparr>)"

inductive driver_reachable :: "StrategyCommandDriver \<Rightarrow> bool" where
  start: "driver_reachable (driver_new w c n)"
| recover: "start_recovering cal E w c n rows commands = Inr d \<Longrightarrow> distinct (map (cmd_id \<circ> rc_command) commands) \<Longrightarrow>
    length commands \<le> wk_entry_capacity w + wk_control_capacity w + c \<Longrightarrow> driver_reachable d"
| step: "driver_reachable d \<Longrightarrow> driver_step d d' \<Longrightarrow> driver_reachable d'"

lemma driver_inv_answer: "driver_inv d \<Longrightarrow> driver_inv (journal_answers r d)"
  by (auto simp: journal_answers_def driver_inv_core driver_core_persisting persisting_ok_def persist_ok_def split: option.split)

lemma driver_inv_step:
  assumes "driver_step d d'" "driver_inv d"
  shows "driver_inv d'"
  using assms
proof cases
  case (worker w)
  then show ?thesis using assms(2) driver_inv_worker [of d "\<lambda>_. w"] by (simp add: with_worker_def)
next
  case recovered
  then show ?thesis using assms(2) by (auto simp: finish_recovery_def elim: driver_inv_cong)
next
  case dispatch
  then show ?thesis using assms(2) dispatch_loop_ok unfolding dispatch_prepared_with_admission_def by blast
qed (use assms(2) poll_acknowledgements_ok in \<open>auto intro: driver_inv_enqueue driver_inv_cancel_entry driver_inv_next_ready
      driver_inv_mark_reduced driver_inv_terminal driver_inv_persist driver_inv_answer driver_inv_stop\<close>)

lemma driver_reachable_inv: "driver_reachable d \<Longrightarrow> driver_inv d"
proof (induction rule: driver_reachable.induct)
  case (recover cal E w c n rows commands d)
  let ?d = "(driver_new w c n)\<lparr>sd_restoring := True,
          sd_saved_rows := fold (\<lambda>row m. hm_insert (row_insight_id row) (from_checkpoint cal row) m) rows []\<rparr>"
  have "driver_inv ?d" using driver_inv_new by (rule driver_inv_cong) simp_all
  then show ?case
    using recover driver_inv_recover [of E commands ?d d] by (simp add: start_recovering_def driver_new_def)
qed (auto intro: driver_inv_new driver_inv_step)

end
