(* ===== verification/CommandDriverProperties.thy ===== *)
theory CommandDriverProperties
  imports CommandDriverInvariant
begin

text \<open>
  What the reachable states of the command driver guarantee: exact bookkeeping, no panic, dispatch of durable
  commands only and only once, no command forgotten before its acknowledgement, acknowledged checkpoints that
  drain, and idempotent admission.
\<close>

section \<open>A run\<close>

definition sample_env :: CommandEnv where
  "sample_env = \<lparr>ce_encode = \<lambda>_. Inr [], ce_entry_uuid = \<lambda>s a c. s @ a @ c, ce_parse_uuid = Some\<rparr>"

definition sample_worker :: BrokerCommandWorker where
  "sample_worker = \<lparr>wk_scope = (''s'', ''a''), wk_entries = [], wk_controls = [], wk_entry_capacity = 4, wk_control_capacity = 4,
     wk_entries_closed = False, wk_controls_closed = False,
     wk_gate = \<lparr>gate_stopped = False, gate_cancelled = [], gate_deadlines = []\<rparr>,
     wk_stop = \<lparr>fence_requested = False, fence_persisted = False, fence_failure = None\<rparr>,
     wk_events = [], wk_events_closed = False\<rparr>"

definition sample_command :: BrokerCommand where
  "sample_command = \<lparr>cmd_version = 1, cmd_id = ''c'', cmd_strategy_id = ''s'', cmd_account_id = ''a'', cmd_insight_id = ''i'',
     cmd_group = None, cmd_dispatch_constraints = \<lparr>max_total_symbol_quantity = None\<rparr>, cmd_action = CancelAction ''o''\<rparr>"

definition sample_row :: InsightExecutionCheckpoint where
  "sample_row = \<lparr>row_insight_id = ''i'', row_revision = 1, row_materialized = True, row_owner_receipts = [],
     row_source_fingerprint = 0, row_child_ids = [], row_pipeline = None, row_parent_id = None, row_state = StExecuted,
     row_order_id = Some ''o'', row_timeframe = \<lparr>tf_amount = 1, tf_unit = Minute\<rparr>, row_created_at = 0,
     row_period_unfilled = None, row_pending_mutations = []\<rparr>"

definition sample_completion :: BrokerCommandCompletion where
  "sample_completion = \<lparr>cpl_receipt = command_receipt sample_command, cpl_queued_at_us = 10, cpl_dispatched_at_us = Some 11,
     cpl_completed_at_us = 12, cpl_outcome = Acknowledged\<rparr>"

definition sample_persist :: "BrokerCommandReceipt list \<Rightarrow> StrategyCommandDriver \<Rightarrow> StrategyCommandDriver" where
  "sample_persist receipts d =
     journal_answers (Inr ()) (snd (persist_execution_checkpoints civil_calendar sample_env (\<lambda>_ _ _. None) None [sample_row] receipts d))"

definition driver_admitted :: StrategyCommandDriver where
  "driver_admitted = snd (enqueue_command sample_env 10 sample_command (driver_new sample_worker 2 0))"

definition driver_durable :: StrategyCommandDriver where
  "driver_durable = snd (poll_acknowledgements 8 (sample_persist [] driver_admitted))"

definition driver_sent :: StrategyCommandDriver where
  "driver_sent = snd (dispatch_prepared_with_admission sample_env 1 True driver_durable)"

definition driver_reported :: StrategyCommandDriver where
  "driver_reported = driver_sent\<lparr>sd_worker := (sd_worker driver_sent)\<lparr>wk_events := [CompletionEvent sample_completion]\<rparr>\<rparr>"

definition driver_reduced :: StrategyCommandDriver where
  "driver_reduced = snd (mark_reduced (command_receipt sample_command) (snd (next_ready driver_reported)))"

definition driver_acknowledged :: StrategyCommandDriver where
  "driver_acknowledged = sample_persist [command_receipt sample_command] driver_reduced"

text \<open>The stages of the run, written out.\<close>

definition sample_pending :: "BrokerCommandProgress \<Rightarrow> bool \<Rightarrow> bool \<Rightarrow> bool \<Rightarrow> bool \<Rightarrow> PendingCommand" where
  "sample_pending q reduced applying durable dispatched = \<lparr>pc_owner_id = ''i'', pc_command = sample_command, pc_progress = q,
     pc_reduced = reduced, pc_applying = applying, pc_queued_at_us = 10, pc_admission_order = 1, pc_durable = durable,
     pc_dispatch_queued = dispatched, pc_recovery_replay = False\<rparr>"

definition sample_saved :: SavedExecutionRow where
  "sample_saved = \<lparr>sr_revision = 1, sr_fingerprint = 0, sr_parent = None, sr_children = [], sr_materialized = True,
     sr_pipeline = None, sr_entry_deadline = None\<rparr>"

definition sample_driver ::
  "PendingCommand \<Rightarrow> string list \<Rightarrow> BrokerCommand list \<Rightarrow> BrokerCommandWorkerEvent list \<Rightarrow> (string, SavedExecutionRow) hmap
    \<Rightarrow> PersistingExecution option \<Rightarrow> nat \<Rightarrow> nat \<Rightarrow> StrategyCommandDriver" where
  "sample_driver p control controls events rows ps awaiting revision = \<lparr>
     sd_worker = sample_worker\<lparr>wk_controls := controls, wk_events := events\<rparr>, sd_pending = [(''c'', p)], sd_persisting = ps,
     sd_by_insight = [(''i'', [''c''])], sd_entry_admission = [], sd_control_admission = control, sd_saved_rows = rows,
     sd_max_pending = 10, sd_ordinary_pending = 0, sd_max_ordinary_pending = 6, sd_awaiting_completion = awaiting,
     sd_progress_revision = revision, sd_last_admission_order = 1, sd_restoring = False\<rparr>"

lemmas sample_defs = sample_env_def sample_worker_def sample_command_def sample_row_def sample_completion_def
  sample_pending_def sample_driver_def sample_saved_def

lemmas list_map_defs = hm_get_def hm_insert_def hm_modify_def hm_remove_def

lemma driver_admitted_eq:
  "driver_admitted = sample_driver (sample_pending Queued False False False False) [''c''] [] [] [] None 1 0"
  by (simp add: driver_admitted_def enqueue_command_def sample_defs driver_new_def worker_is_closed_def is_teardown_def
      is_entry_def admit_def command_receipt_def Let_def hm_insert_def)

lemma driver_durable_eq:
  "driver_durable = sample_driver (sample_pending Queued False False True False) [''c''] [] [] [(''i'', sample_saved)] None 1 0"
  by (simp add: driver_durable_def driver_admitted_eq sample_persist_def persist_execution_checkpoints_def sample_defs
      indexed_commands_def complete_row_def row_intents_def owned_commands_def List.map_filter_def with_intents_def
      MAX_CHECKPOINT_ROWS_def command_receipt_def from_checkpoint_def Let_def list_map_defs journal_answers_def
      poll_acknowledgements_def confirm_row_def is_entry_def release_applied_def modify_pending_def)

lemma driver_sent_eq:
  "driver_sent = sample_driver (sample_pending Queued False False True True) [] [sample_command] [] [(''i'', sample_saved)] None 1 0"
  by (simp add: driver_sent_def driver_durable_eq dispatch_prepared_with_admission_def sample_defs
      next_dispatch_id_def front_ready_def checkpoint_chain_ready_def is_teardown_def is_entry_def try_enqueue_inner_def
      Let_def list_map_defs modify_pending_def)

lemma driver_reduced_eq:
  "driver_reduced = sample_driver (sample_pending (Completed sample_completion) True False True True) [] [sample_command] []
     [(''i'', sample_saved)] None 0 1"
  by (simp add: driver_reduced_def driver_reported_def driver_sent_eq next_ready_def event_receipt_def sample_defs
      execution_stop_error_def fence_error_def fence_pending_def with_worker_def command_receipt_def Let_def list_map_defs
      modify_pending_def mark_reduced_def)

lemma driver_acknowledged_eq:
  "driver_acknowledged = sample_driver (sample_pending (Completed sample_completion) True True True True) [] [sample_command] []
     [(''i'', sample_saved)] (Some \<lparr>ps_applied = [''c''], ps_prepared = [], ps_rows = [(''i'', sample_saved)],
       ps_reply = Some (Some (Inr ()))\<rparr>) 0 1"
  by (simp add: driver_acknowledged_def driver_reduced_eq sample_persist_def persist_execution_checkpoints_def sample_defs
      indexed_commands_def complete_row_def row_intents_def owned_commands_def List.map_filter_def with_intents_def retains_def
      MAX_CHECKPOINT_ROWS_def command_receipt_def from_checkpoint_def Let_def list_map_defs journal_answers_def
      refuses_receipt_def is_ambiguous_def modify_pending_def)

lemma sample_run_reachable:
  "driver_reachable driver_admitted" "driver_reachable driver_durable" "driver_reachable driver_sent"
  "driver_reachable driver_reduced" "driver_reachable driver_acknowledged"
proof -
  have persist: "driver_reachable d \<Longrightarrow> driver_reachable (sample_persist receipts d)" for receipts d
    unfolding sample_persist_def by (rule driver_reachable.step [OF driver_reachable.step [OF _ driver_step.persist] driver_step.answer])
  show admitted: "driver_reachable driver_admitted"
    unfolding driver_admitted_def by (rule driver_reachable.step [OF driver_reachable.start driver_step.enqueue])
  show durable: "driver_reachable driver_durable"
    unfolding driver_durable_def by (rule driver_reachable.step [OF persist [OF admitted] driver_step.poll])
  show sent: "driver_reachable driver_sent"
    unfolding driver_sent_def by (rule driver_reachable.step [OF durable driver_step.dispatch])
  have reported: "driver_reachable driver_reported"
    unfolding driver_reported_def by (rule driver_reachable.step [OF sent driver_step.worker])
  have "reports_given driver_reported"
    by (simp add: reports_given_def driver_reported_def driver_sent_eq sample_defs event_receipt_def pend_def list_map_defs
        command_receipt_def)
  then show reduced: "driver_reachable driver_reduced"
    unfolding driver_reduced_def
    by (intro driver_reachable.step [OF driver_reachable.step [OF reported driver_step.completion] driver_step.reduce])
  show "driver_reachable driver_acknowledged" unfolding driver_acknowledged_def by (rule persist [OF reduced])
qed

section \<open>Properties\<close>

lemma waiting_split: "pend (\<lambda>p. \<not> pc_dispatch_queued p) m cid \<longleftrightarrow> pend (waiting True) m cid \<or> pend (waiting False) m cid"
  by (auto simp: pend_def waiting_def split: option.splits)

text \<open>C5: In every reachable state of the command driver its bookkeeping is exact: the two counters count the
  commands without a completion and the commands that are no teardown, the pending commands are within the
  capacity, and the two admission queues hold, without repetition, exactly the pending commands that were not
  handed to the worker.\<close>

theorem driver_bookkeeping:
  assumes "driver_reachable d"
  shows "sd_awaiting_completion d = length (filter (\<lambda>(_, p). pc_progress p = Queued) (sd_pending d))
    \<and> sd_ordinary_pending d = length (filter (\<lambda>(_, p). \<not> is_teardown (cmd_action (pc_command p))) (sd_pending d))
    \<and> length (sd_pending d) \<le> sd_max_pending d
    \<and> distinct (sd_control_admission d @ sd_entry_admission d)
    \<and> set (sd_control_admission d @ sd_entry_admission d) = {cid. pend (\<lambda>p. \<not> pc_dispatch_queued p) (sd_pending d) cid}"
proof -
  have inv: "counted d" "queued_once d" using driver_reachable_inv [OF assms] by (simp_all add: driver_inv_def)
  have "\<not> (pend (waiting True) m cid \<and> pend (waiting False) m cid)" for m cid
    by (auto simp: pend_def waiting_def split: option.splits)
  then have "set (sd_control_admission d) \<inter> set (sd_entry_admission d) = {}" using inv(2) by (auto simp: queued_once_def)
  then show ?thesis using inv
    by (auto simp: counted_def count_vals_def is_queued_def ordinary_def queued_once_def waiting_split)
qed

theorem driver_bookkeeping_witness:
  "sd_awaiting_completion driver_admitted = 1
    \<and> set (sd_control_admission driver_admitted @ sd_entry_admission driver_admitted)
      = {cid. pend (\<lambda>p. \<not> pc_dispatch_queued p) (sd_pending driver_admitted) cid}"
  using driver_bookkeeping [OF sample_run_reachable(1)] by (simp add: driver_admitted_eq sample_driver_def)

text \<open>C29: No operation of the driver that expects a pending command to exist panics in a reachable state: neither
  sending a checkpoint, nor polling its acknowledgement, nor dispatching.\<close>

theorem driver_never_panics:
  assumes "driver_reachable d"
  shows "fst (persist_execution_checkpoints cal E encode_batch try_send rows receipts d) \<noteq> Panic
    \<and> fst (poll_acknowledgements n d) \<noteq> Panic \<and> fst (dispatch_prepared_with_admission E n allow d) \<noteq> Panic"
proof -
  note inv = driver_reachable_inv [OF assms]
  have "fst (dispatch_loop E allow 0 (min n 256) d) \<noteq> Panic" using dispatch_loop_ok [OF inv] by blast
  then show ?thesis
    using persist_no_panic [OF inv] poll_acknowledgements_ok [OF inv] by (simp add: dispatch_prepared_with_admission_def)
qed

theorem driver_never_panics_witness:
  "fst (poll_acknowledgements 8 driver_acknowledged) \<noteq> Panic"
  using driver_never_panics [OF sample_run_reachable(5)] by blast

text \<open>C3: A dispatch turn gives the worker only commands that the journal has acknowledged, whose chain of saved
  rows is ready, whose entry is allowed and which the worker was not given before; each of them once, and in
  the order of admission within entries and within teardowns.\<close>

theorem dispatch_only_durable_once:
  assumes "driver_reachable d"
  shows "\<exists>cs. handed_over allow d cs (snd (dispatch_prepared_with_admission E n allow d))
    \<and> (case fst (dispatch_prepared_with_admission E n allow d) of Ok m \<Rightarrow> m = length cs | _ \<Rightarrow> True)"
proof -
  obtain cs where "handed_over allow d cs (snd (dispatch_loop E allow 0 (min n 256) d))"
      "\<forall>m. fst (dispatch_loop E allow 0 (min n 256) d) = Ok m \<longrightarrow> m = 0 + length cs"
    using dispatch_loop_ok [OF driver_reachable_inv [OF assms]] by blast
  then show ?thesis unfolding dispatch_prepared_with_admission_def
    by (intro exI [of _ cs]) (simp split: result.split)
qed

theorem dispatch_only_durable_once_witness:
  "\<exists>cs. handed_over True driver_durable cs driver_sent"
  using dispatch_only_durable_once [OF sample_run_reachable(2)] unfolding driver_sent_def by blast

lemma step_keeps_pending:
  assumes "driver_step d d'" "driver_inv d" "pend (\<lambda>_. True) (sd_pending d) cid"
    "\<not> (\<exists>n. d' = snd (poll_acknowledgements n d))"
  shows "pend (\<lambda>_. True) (sd_pending d') cid"
  using assms(1)
proof cases
  case (enqueue E now command)
  obtain p where "hm_get (sd_pending d) cid = Some p" using assms(3) by (auto simp: pend_def split: option.splits)
  then have "hm_get (sd_pending d') cid = Some p" unfolding enqueue by (rule enqueue_keeps_others)
  then show ?thesis by (simp add: pend_def)
next
  case (cancel_entry receipt)
  then show ?thesis using assms(3) by (auto simp: driver_cancel_pending_entry_def with_worker_def split: option.splits)
next
  case completion
  then show ?thesis using assms(3)
    by (auto simp: next_ready_def Let_def with_worker_def modify_pending_def pend_same simp del: pend_modify
        split: option.splits list.splits prod.splits)
next
  case (reduce receipt)
  then show ?thesis using assms(3)
    by (auto simp: mark_reduced_def modify_pending_def pend_same simp del: pend_modify
        split: option.splits BrokerCommandProgress.splits)
next
  case (reduce_terminal owner oid s)
  then show ?thesis using assms(3) by (simp add: reduce_terminal_receipts_def fold_modify_keeps(2))
next
  case (persist cal E encode_batch try_send rows receipts)
  then show ?thesis using assms(3)
    by (auto simp: persist_execution_checkpoints_def Let_def fold_modify_keeps(2) split: option.splits)
next
  case (answer r)
  then show ?thesis using assms(3) by (auto simp: journal_answers_def split: option.splits)
next
  case (poll n)
  then show ?thesis using assms(4) by blast
next
  case (dispatch E n allow)
  obtain cs where "handed_over allow d cs d'"
    using dispatch dispatch_loop_ok [OF assms(2)] unfolding dispatch_prepared_with_admission_def by blast
  then show ?thesis using assms(3) by (simp add: handed_over_def)
qed (use assms(3) in \<open>simp_all add: finish_recovery_def\<close>)

text \<open>C4: Whatever step is taken, a pending command disappears only when the journal has acknowledged a checkpoint
  that lists it as applied, and then it has a completion that was reduced.\<close>

theorem forgotten_only_acknowledged:
  assumes "driver_reachable d" "driver_step d d'" "hm_get (sd_pending d) cid \<noteq> None" "hm_get (sd_pending d') cid = None"
  shows "\<exists>ps p. sd_persisting d = Some ps \<and> acknowledged ps \<and> cid \<in> set (ps_applied ps)
    \<and> hm_get (sd_pending d) cid = Some p \<and> pc_reduced p \<and> pc_progress p \<noteq> Queued"
proof -
  note inv = driver_reachable_inv [OF assms(1)]
  have was: "pend (\<lambda>_. True) (sd_pending d) cid" and gone: "\<not> pend (\<lambda>_. True) (sd_pending d') cid"
    using assms(3,4) by (auto simp: pend_def)
  then obtain n where n: "d' = snd (poll_acknowledgements n d)" using step_keeps_pending [OF assms(2) inv] by blast
  have "\<not> (n = 0 \<or> sd_persisting d = None \<or> (\<exists>ps. sd_persisting d = Some ps \<and> \<not> acknowledged ps))"
  proof
    assume "n = 0 \<or> sd_persisting d = None \<or> (\<exists>ps. sd_persisting d = Some ps \<and> \<not> acknowledged ps)"
    from poll_not_acknowledged [OF inv this] show False using was gone n by simp
  qed
  then obtain ps where ps: "sd_persisting d = Some ps" "acknowledged ps" "n \<noteq> 0" by auto
  have cid: "cid \<in> set (ps_applied ps)"
    using poll_acknowledged [OF inv ps] was gone n by (auto dest: in_set_takeD)
  then have "pend finished (sd_pending d) cid" using inv ps(1) by (simp add: driver_inv_core persisting_ok_def persist_ok_def)
  then show ?thesis using ps(1,2) cid by (auto simp: pend_def finished_def is_queued_def split: option.splits)
qed

theorem forgotten_only_acknowledged_witness:
  "\<exists>ps p. sd_persisting driver_acknowledged = Some ps \<and> acknowledged ps \<and> ''c'' \<in> set (ps_applied ps)
    \<and> hm_get (sd_pending driver_acknowledged) ''c'' = Some p \<and> pc_reduced p \<and> pc_progress p \<noteq> Queued"
proof (rule forgotten_only_acknowledged)
  show "driver_reachable driver_acknowledged" by (rule sample_run_reachable)
  show "driver_step driver_acknowledged (snd (poll_acknowledgements 8 driver_acknowledged))" by (rule driver_step.poll)
  show "hm_get (sd_pending driver_acknowledged) ''c'' \<noteq> None"
    by (simp add: driver_acknowledged_eq sample_driver_def hm_get_def)
  show "hm_get (sd_pending (snd (poll_acknowledgements 8 driver_acknowledged))) ''c'' = None"
    by (simp add: driver_acknowledged_eq sample_defs poll_acknowledgements_def Let_def confirm_row_def owned_commands_def
        List.map_filter_def is_entry_def list_map_defs release_applied_def forget_command_def is_teardown_def with_worker_def)
qed

text \<open>Polling again and again.\<close>

fun polls :: "nat \<Rightarrow> nat \<Rightarrow> StrategyCommandDriver \<Rightarrow> StrategyCommandDriver" where
  "polls 0 n d = d"
| "polls (Suc k) n d = polls k n (snd (poll_acknowledgements n d))"

lemma polls_idle: "sd_persisting d = None \<Longrightarrow> polls k n d = d"
  by (induction k) (auto simp: poll_acknowledgements_def)

lemma polls_drain:
  assumes "driver_inv d" "sd_persisting d = Some ps" "acknowledged ps" "0 < n" "length (ps_applied ps) \<le> Suc k * min n 256"
  shows "sd_persisting (polls (Suc k) n d) = None
    \<and> (\<forall>cid. pend (\<lambda>_. True) (sd_pending (polls (Suc k) n d)) cid \<longleftrightarrow> cid \<notin> set (ps_applied ps) \<and> pend (\<lambda>_. True) (sd_pending d) cid)"
  using assms
proof (induction k arbitrary: d ps)
  case (0 d ps)
  then have n: "take (min n 256) (ps_applied ps) = ps_applied ps" "length (ps_applied ps) \<le> min n 256" "n \<noteq> 0" by simp_all
  obtain d' where "poll_acknowledgements n d = (Ok (min (min (length (ps_applied ps)) n) 256), d')" "sd_persisting d' = None"
    "\<forall>cid. pend (\<lambda>_. True) (sd_pending d') cid \<longleftrightarrow> cid \<notin> set (ps_applied ps) \<and> pend (\<lambda>_. True) (sd_pending d) cid"
    using poll_acknowledged [OF 0(1,2,3) n(3)] unfolding n(1) if_P [OF n(2)] by blast
  then show ?case by simp
next
  case (Suc k d ps)
  obtain d' ps' where d': "poll_acknowledgements n d = (Ok (min (min (length (ps_applied ps)) n) 256), d')" "driver_inv d'"
    "sd_persisting d' = (if length (ps_applied ps) \<le> min n 256 then None else Some ps')" "acknowledged ps'"
    "ps_applied ps' = drop (min n 256) (ps_applied ps)"
    "\<forall>cid. pend (\<lambda>_. True) (sd_pending d') cid \<longleftrightarrow> cid \<notin> set (take (min n 256) (ps_applied ps)) \<and> pend (\<lambda>_. True) (sd_pending d) cid"
    using poll_acknowledged [OF Suc.prems(1,2,3), of n] Suc.prems(4) by blast
  show ?case
  proof (cases "length (ps_applied ps) \<le> min n 256")
    case True
    then have "sd_persisting d' = None" "take (min n 256) (ps_applied ps) = ps_applied ps" using d'(3) by simp_all
    then show ?thesis using d'(1,6) polls_idle [of d'] by simp
  next
    case False
    have "length (ps_applied ps') \<le> Suc k * min n 256" using Suc.prems(5) d'(5) by simp
    then have "sd_persisting (polls (Suc k) n d') = None \<and> (\<forall>cid. pend (\<lambda>_. True) (sd_pending (polls (Suc k) n d')) cid \<longleftrightarrow>
        cid \<notin> set (ps_applied ps') \<and> pend (\<lambda>_. True) (sd_pending d') cid)"
      using Suc.IH [OF d'(2) _ d'(4) Suc.prems(4)] d'(3) False by simp
    moreover have "set (ps_applied ps) = set (take (min n 256) (ps_applied ps)) \<union> set (ps_applied ps')"
      using d'(5) by (metis append_take_drop_id set_append)
    ultimately show ?thesis using d'(1,6) by auto
  qed
qed

text \<open>An acknowledged checkpoint is eventually released: with a positive event budget n, polling as many times
  as batches of at most min n 256 commands are needed leaves no checkpoint open and every applied command
  forgotten, so that the next checkpoint can be sent; commands that were not applied stay.\<close>

theorem acknowledged_checkpoint_drains:
  assumes "driver_reachable d" "sd_persisting d = Some ps" "acknowledged ps" "0 < n" "0 < k"
    "length (ps_applied ps) \<le> k * min n 256"
  shows "sd_persisting (polls k n d) = None
    \<and> {cid. hm_get (sd_pending (polls k n d)) cid \<noteq> None} = {cid. hm_get (sd_pending d) cid \<noteq> None} - set (ps_applied ps)"
proof -
  obtain j where k: "k = Suc j" using assms(5) by (cases k) simp_all
  have "pend (\<lambda>_. True) m cid \<longleftrightarrow> hm_get m cid \<noteq> None" for m cid by (simp add: pend_def split: option.split)
  then show ?thesis
    using polls_drain [OF driver_reachable_inv [OF assms(1)] assms(2,3,4), of j] assms(6) unfolding k by auto
qed

theorem acknowledged_checkpoint_drains_witness:
  "sd_persisting (polls 1 8 driver_acknowledged) = None"
proof -
  obtain ps where ps: "sd_persisting driver_acknowledged = Some ps" "acknowledged ps" "length (ps_applied ps) = 1"
    by (simp add: driver_acknowledged_eq sample_driver_def acknowledged_def)
  then show ?thesis using acknowledged_checkpoint_drains [OF sample_run_reachable(5) ps(1,2), of 8 1] by simp
qed

text \<open>Admission is idempotent on the exact command and refuses a different command under the same identity,
  without any change of state, also when the driver is full or stopping.\<close>

theorem enqueue_exactly_once:
  assumes "enqueue_command E now command d = (Inr receipt, d')"
  shows "enqueue_command E later command d' = (Inr receipt, d') \<and> receipt = command_receipt command
    \<and> progress d' receipt \<noteq> None
    \<and> (\<forall>other. other \<noteq> command \<and> cmd_id other = cmd_id command \<longrightarrow>
         (\<exists>e. enqueue_command E later other d' = (Inl e, d')))"
proof -
  note pending = enqueue_success(2) [OF assms] and same = enqueue_success(3,4,1) [OF assms]
  have ok: "\<not> sd_restoring d" "\<exists>x. ce_encode E command = Inr x" "ce_parse_uuid E (cmd_insight_id command) \<noteq> None"
    "(cmd_strategy_id command, cmd_account_id command) = wk_scope (sd_worker d)"
    using assms by (auto simp: enqueue_command_def split: sum.splits option.splits if_splits)
  then have "enqueue_command E later command d' = (Inr receipt, d')"
    using pending same by (auto simp: enqueue_command_def)
  moreover have "\<exists>e. enqueue_command E later other d' = (Inl e, d')" if "other \<noteq> command" "cmd_id other = cmd_id command" for other
    using pending that by (auto simp: enqueue_command_def split: sum.split option.split)
  moreover have "progress d' receipt \<noteq> None" using pending same(3) by (auto simp: progress_def command_receipt_def)
  ultimately show ?thesis using same(3) by blast
qed

theorem enqueue_exactly_once_witness:
  "enqueue_command sample_env 99 sample_command driver_admitted = (Inr (command_receipt sample_command), driver_admitted)"
proof -
  have "enqueue_command sample_env 10 sample_command (driver_new sample_worker 2 0)
      = (Inr (command_receipt sample_command), driver_admitted)"
    by (simp add: driver_admitted_def enqueue_command_def sample_defs driver_new_def worker_is_closed_def is_teardown_def
        is_entry_def Let_def)
  then show ?thesis using enqueue_exactly_once by blast
qed

end
