(* ===== verification/InsightCommands.thy ===== *)
theory InsightCommands
  imports CommandDriverProperties OrderReducer
begin

text \<open>
  The interface between the insights and the command driver.  What an insight's operations rely on is the
  locale \<open>command_ledger\<close>: a receipt that was handed out stays known.  Its client lemmas are that every
  operation of an insight keeps at most one outstanding command per kind and holds only receipts the ledger
  knows; the strategy runtime with its driver is an instance.
\<close>

section \<open>Outstanding commands of an insight\<close>

definition pending_kinds :: "'c Insight \<Rightarrow> MutationKind list" where
  "pending_kinds i = map pm_kind (ins_pending_mutations i)"

definition one_per_kind :: "'c Insight \<Rightarrow> bool" where
  "one_per_kind i \<longleftrightarrow> distinct (pending_kinds i)"

definition known_to :: "'x StrategyContext \<Rightarrow> 'c Insight \<Rightarrow> 'x \<Rightarrow> bool" where
  "known_to C i x \<longleftrightarrow> list_all (\<lambda>p. ctx_broker_command_progress C x (pm_receipt p) \<noteq> None) (ins_pending_mutations i)"

lemma has_pending_kind_iff: "has_pending_kind kind i \<longleftrightarrow> kind \<in> set (pending_kinds i)"
  by (auto simp: has_pending_kind_def pending_kinds_def list_ex_iff)

named_theorems same_pending "operations that leave the outstanding commands alone"

lemma pending_update_state [same_pending]:
  "ins_pending_mutations (update_state_typed s n k i) = ins_pending_mutations i"
  by (simp add: update_state_typed_def current_time_def push_state_history_def Let_def split: option.split)

lemma pending_history [same_pending]:
  "ins_pending_mutations (update_state s n i) = ins_pending_mutations i"
  "ins_pending_mutations (state_log n i) = ins_pending_mutations i"
  "ins_pending_mutations (note_change m i) = ins_pending_mutations i"
  "ins_pending_mutations (order_rejected reason i) = ins_pending_mutations i"
  "ins_pending_mutations (order_cancelled reason i) = ins_pending_mutations i"
  by (simp_all add: update_state_def state_log_def state_log_typed_def note_change_def order_rejected_def order_cancelled_def
      pending_update_state)

lemma pending_setters [same_pending]:
  "ins_pending_mutations (set_quantity q i) = ins_pending_mutations i"
  "ins_pending_mutations (set_limit_price v i) = ins_pending_mutations i"
  "ins_pending_mutations (set_stop_price v i) = ins_pending_mutations i"
  "ins_pending_mutations (set_take_profit_levels l i) = ins_pending_mutations i"
  "ins_pending_mutations (set_stop_loss_levels l i) = ins_pending_mutations i"
  by (simp_all add: set_quantity_def set_limit_price_def set_stop_price_def set_take_profit_levels_def set_stop_loss_levels_def
      update_order_type_def update_order_class_def Let_def pending_history)

lemma pending_effect [same_pending]: "ins_pending_mutations (apply_effect now e i) = ins_pending_mutations i"
  by (simp add: apply_effect_def Let_def pending_setters split: MutationEffect.split option.split)

lemma pending_settle: "ins_pending_mutations (snd (settle_mutation now kind p outcome i)) = ins_pending_mutations i"
  by (simp add: settle_mutation_def same_pending split: BrokerCommandOutcome.split MutationKind.split)

lemma take_pending_split:
  "take_pending kind ps = Some (p, rest) \<Longrightarrow> \<exists>xs ys. ps = xs @ p # ys \<and> rest = xs @ ys \<and> pm_kind p = kind"
proof (induction ps arbitrary: p rest)
  case (Cons q ps)
  show ?case
  proof (cases "pm_kind q = kind")
    case True
    then show ?thesis using Cons.prems by (intro exI [of _ "[]"] exI [of _ ps]) auto
  next
    case False
    then obtain rest' where "take_pending kind ps = Some (p, rest')" "rest = q # rest'" using Cons.prems by auto
    moreover from Cons.IH [OF this(1)] obtain xs ys where "ps = xs @ p # ys" "rest' = xs @ ys" "pm_kind p = kind" by blast
    ultimately show ?thesis by (intro exI [of _ "q # xs"] exI [of _ ys]) simp
  qed
qed simp

lemma take_pending_none: "take_pending kind ps = None \<longleftrightarrow> kind \<notin> pm_kind ` set ps"
  by (induction ps) auto

section \<open>The ledger interface\<close>

locale command_ledger =
  fixes C :: "'x StrategyContext"
  assumes enqueue_known: "ctx_enqueue_broker_command C x iid action grp = (Inr receipt, x') \<Longrightarrow>
      ctx_broker_command_progress C x' receipt \<noteq> None"
    and enqueue_keeps: "ctx_broker_command_progress C x receipt = Some q \<Longrightarrow>
      ctx_broker_command_progress C (snd (ctx_enqueue_broker_command C x iid action grp)) receipt = Some q"
    and reduced_keeps: "ctx_broker_command_progress C (ctx_broker_command_reduced C x receipt) receipt' = ctx_broker_command_progress C x receipt'"
    and cancel_keeps: "ctx_broker_command_progress C (snd (ctx_cancel_pending_entry C x receipt)) receipt' = ctx_broker_command_progress C x receipt'"
begin

definition sound :: "'c Insight \<Rightarrow> 'x \<Rightarrow> bool" where
  "sound i x \<longleftrightarrow> one_per_kind i \<and> known_to C i x"

lemma sound_cong: "ins_pending_mutations j = ins_pending_mutations i \<Longrightarrow> sound j x = sound i x"
  by (simp add: sound_def one_per_kind_def pending_kinds_def known_to_def)

lemma sound_same:
  "sound (update_state_typed s n k i) x = sound i x" "sound (update_state s n i) x = sound i x"
  "sound (state_log n i) x = sound i x" "sound (order_rejected reason i) x = sound i x"
  "sound (set_limit_price v i) x = sound i x" "sound (set_stop_price v i) x = sound i x"
  "sound (set_take_profit_levels l i) x = sound i x" "sound (set_stop_loss_levels l i) x = sound i x"
  "sound (note_change m i) x = sound i x" "sound (i\<lparr>ins_market_changed := b\<rparr>) x = sound i x"
  by (rule sound_cong, simp add: same_pending)+

lemma sound_poll:
  assumes "poll_mutation C kind i x = (r, j, y)" "sound i x"
  shows "sound j y \<and> set (pending_kinds j) \<subseteq> set (pending_kinds i) \<and> (r = None \<longrightarrow> j = i \<and> y = x)
    \<and> (r = None \<or> r = Some (Inr Applied) \<longrightarrow> kind \<notin> set (pending_kinds j))"
proof (cases "take_pending kind (ins_pending_mutations i)")
  case None
  then have "kind \<notin> set (pending_kinds i)" by (simp add: pending_kinds_def take_pending_none)
  then show ?thesis using assms None by (simp add: poll_mutation_def)
next
  case (Some pr)
  obtain p rest where pr: "pr = (p, rest)" by (cases pr)
  obtain xs ys where split: "ins_pending_mutations i = xs @ p # ys" "rest = xs @ ys" "pm_kind p = kind"
    using take_pending_split Some pr by blast
  let ?i = "i\<lparr>ins_pending_mutations := rest\<rparr>"
  have removed: "sound ?i (ctx_broker_command_reduced C x receipt)" "set (pending_kinds ?i) \<subseteq> set (pending_kinds i)"
    "kind \<notin> set (pending_kinds ?i)" for receipt
    using assms(2) split by (auto simp: sound_def one_per_kind_def known_to_def pending_kinds_def reduced_keeps)
  have cong: "sound j y = sound ?i y" "pending_kinds j = pending_kinds ?i" if "ins_pending_mutations j = rest" for j :: "'c Insight" and y
    using that by (simp_all add: sound_cong [of j ?i] pending_kinds_def)
  have settled: "ins_pending_mutations (snd (settle_mutation now kind p outcome ?i)) = rest" for now outcome
    by (simp add: pending_settle)
  have "(\<exists>e. r = Some e \<and> e \<noteq> Inr Applied \<and> j = i \<and> y = x)
    \<or> (\<exists>e. r = Some e \<and> ins_pending_mutations j = rest \<and> y = ctx_broker_command_reduced C x (pm_receipt p))"
  proof (cases "\<exists>c. ctx_broker_command_progress C x (pm_receipt p) = Some (Completed c)")
    case False
    then show ?thesis using assms(1) Some pr
      by (auto simp: poll_mutation_def Let_def split: option.splits BrokerCommandProgress.splits)
  next
    case True
    then obtain c where c: "ctx_broker_command_progress C x (pm_receipt p) = Some (Completed c)" by blast
    show ?thesis
      using assms(1) Some pr c settled [of "ctx_current_time C x" "cpl_outcome c"]
      by (cases "settle_mutation (ctx_current_time C x) kind p (cpl_outcome c) ?i")
        (auto simp: poll_mutation_def Let_def split: BrokerCommandOutcome.splits if_splits)
  qed
  then consider (kept) e where "r = Some e" "e \<noteq> Inr Applied" "j = i" "y = x"
    | (gone) e where "r = Some e" "ins_pending_mutations j = rest" "y = ctx_broker_command_reduced C x (pm_receipt p)"
    by blast
  then show ?thesis
  proof cases
    case kept
    then show ?thesis using assms(2) by auto
  next
    case gone
    then show ?thesis using cong [OF gone(2)] removed by simp
  qed
qed

lemma sound_queue:
  assumes "queue_mutation C kind action effect grp i x = (r, j, y)" "sound i x" "kind \<notin> set (pending_kinds i)"
  shows "sound j y"
proof -
  obtain s z where e: "ctx_enqueue_broker_command C x (ins_id i) action grp = (s, z)" by fastforce
  have kept: "ctx_broker_command_progress C z receipt \<noteq> None" if "ctx_broker_command_progress C x receipt \<noteq> None" for receipt
    using enqueue_keeps [of x receipt _ "ins_id i" action grp] that e by auto
  then have known: "known_to C i z" using assms(2) by (auto simp: sound_def known_to_def list_all_iff)
  show ?thesis
  proof (cases s)
    case (Inl err)
    then show ?thesis using assms known e by (simp add: queue_mutation_def sound_def)
  next
    case (Inr receipt)
    have "ctx_broker_command_progress C z receipt \<noteq> None" using enqueue_known [of x "ins_id i" action grp receipt z] e Inr by simp
    moreover have "ins_pending_mutations j = ins_pending_mutations i @ [\<lparr>pm_kind = kind, pm_receipt = receipt, pm_effect = effect\<rparr>]" "y = z"
      using assms(1) e Inr by (auto simp: queue_mutation_def same_pending)
    ultimately show ?thesis using assms(2,3) known
      by (simp add: sound_def one_per_kind_def pending_kinds_def known_to_def)
  qed
qed

lemma sound_cancel:
  assumes "cancel C i x = (r, j, y)" "sound i x"
  shows "sound j y"
proof -
  have submitted: "sound j y" if "cancel_submitted C i x = (r, j, y)" "sound i x" for i j :: "'c Insight" and x y r
  proof -
    obtain q k z where poll: "poll_mutation C KCancel i x = (q, k, z)" by (cases "poll_mutation C KCancel i x")
    note p = sound_poll [OF poll that(2)]
    show ?thesis
    proof (cases q)
      case (Some a)
      then show ?thesis using that(1) poll p by (simp add: cancel_submitted_def)
    next
      case None
      show ?thesis using that(1) poll p None sound_queue [of KCancel _ _ _ k z]
        by (auto simp: cancel_submitted_def sound_def one_per_kind_def pending_kinds_def known_to_def
            split: if_splits option.splits prod.splits sum.splits)
    qed
  qed
  obtain q k z where poll: "poll_mutation C KSubmit i x = (q, k, z)" by (cases "poll_mutation C KSubmit i x")
  note p = sound_poll [OF poll assms(2)]
  have flag: "sound (k\<lparr>ins_cancelling := b\<rparr>) z" "sound (k\<lparr>ins_suppress_child_entries := True, ins_cancelling := True\<rparr>) z'"
    if "\<And>r. ctx_broker_command_progress C z' r = ctx_broker_command_progress C z r" for b z'
    using p that by (simp_all add: sound_def one_per_kind_def pending_kinds_def known_to_def)
  consider (none) "q = None" | (err) e where "q = Some (Inl e)" | (applied) "q = Some (Inr Applied)"
    | (pending) receipt where "q = Some (Inr (PendingReceipt receipt))"
    by (metis InsightMutationState.exhaust not_None_eq obj_sumE)
  then show ?thesis
  proof cases
    case none
    then have "cancel_submitted C k z = (r, j, y)" using assms(1) poll by (simp add: cancel_def)
    then show ?thesis using p submitted by blast
  next
    case err
    then show ?thesis using assms(1) poll p by (simp add: cancel_def)
  next
    case applied
    then show ?thesis using assms(1) poll submitted [OF _ flag(1) [OF refl]] by (simp add: cancel_def)
  next
    case (pending receipt)
    obtain s z' where c: "ctx_cancel_pending_entry C z receipt = (s, z')" by fastforce
    have same: "ctx_broker_command_progress C z' r = ctx_broker_command_progress C z r" for r
      using cancel_keeps [of z receipt r] c by simp
    then have "sound k z'" using p by (simp add: sound_def known_to_def)
    then show ?thesis using assms(1) poll pending c flag(2) [OF same] by (cases s) (simp_all add: cancel_def)
  qed
qed

lemma sound_cancel_by_id: "cancel_order_by_id C oid i x = (r, j, y) \<Longrightarrow> sound i x \<Longrightarrow> sound j y"
  using sound_poll [of KCancel i x] sound_queue [of KCancel]
  by (fastforce simp: cancel_order_by_id_def split: prod.splits option.splits)

lemma sound_close:
  assumes "try_close_partial C quantity price i x = (r, j, y)" "sound i x"
  shows "sound j y"
proof -
  obtain q k z where poll: "poll_mutation C KClose i x = (q, k, z)" by (cases "poll_mutation C KClose i x")
  note p = sound_poll [OF poll assms(2)]
  show ?thesis
  proof (cases q)
    case (Some a)
    then show ?thesis using assms(1) poll p by (simp add: try_close_partial_def)
  next
    case None
    show ?thesis using assms(1) poll p None sound_queue [of KClose _ _ _ k z]
      by (auto simp: try_close_partial_def sound_def one_per_kind_def pending_kinds_def known_to_def
          split: if_splits option.splits prod.splits sum.splits)
  qed
qed

lemma sound_protection:
  assumes "update_protection C tp levels grp i x = (r, j, y)" "sound i x"
  shows "sound j y"
proof -
  let ?k = "if tp then KTakeProfit else KStopLoss"
  have queue: "sound j y" if "queue_protection C tp l grp k z = (r, j, y)" "sound k z" "?k \<notin> set (pending_kinds k)" for k l z
    using that sound_queue [of ?k _ _ _ k z]
    by (auto simp: queue_protection_def sound_same split: if_splits option.splits)
  obtain q k z where poll: "poll_mutation C ?k i x = (q, k, z)" by (cases "poll_mutation C ?k i x")
  note p = sound_poll [OF poll assms(2)]
  show ?thesis
    using assms(1) poll p queue by (auto simp: update_protection_def Let_def split: option.splits sum.splits InsightMutationState.splits)
qed

lemma sound_amend:
  assumes "update_entry_price C price stop i x = (r, j, y)" "sound i x"
  shows "sound j y"
proof -
  have ready: "sound j y" if "amend_ready C price stop k z = (r, j, y)" "sound k z" "KAmendEntry \<notin> set (pending_kinds k)" for k z
    using that sound_queue [of KAmendEntry _ _ _ k z]
    by (auto simp: amend_ready_def Let_def sound_same split: if_splits option.splits)
  have after: "sound j y" if "amend_after_submit C price stop k z = (r, j, y)" "sound k z" "KAmendEntry \<notin> set (pending_kinds k)" for k z
  proof (cases "has_pending_submit k")
    case False
    then show ?thesis using that ready by (simp add: amend_after_submit_def)
  next
    case True
    obtain q k' z' where poll: "poll_mutation C KSubmit k z = (q, k', z')" by (cases "poll_mutation C KSubmit k z")
    note p = sound_poll [OF poll that(2)]
    show ?thesis using True that poll p ready
      by (auto simp: amend_after_submit_def poll_pending_submission_def unwrap_or_def
          split: option.splits sum.splits InsightMutationState.splits)
  qed
  obtain q k z where poll: "poll_mutation C KAmendEntry i x = (q, k, z)" by (cases "poll_mutation C KAmendEntry i x")
  note p = sound_poll [OF poll assms(2)]
  show ?thesis
    using assms(1) poll p after
    by (auto simp: update_entry_price_def sound_same split: if_splits option.splits sum.splits InsightMutationState.splits)
qed

lemma sound_replace:
  assumes "replace_pending_order C price quantity i x = (r, j, y)" "sound i x"
  shows "sound j y"
proof -
  obtain q k z where poll: "poll_mutation C KReplace i x = (q, k, z)" by (cases "poll_mutation C KReplace i x")
  note p = sound_poll [OF poll assms(2)]
  show ?thesis using assms(1) poll p sound_queue [of KReplace _ _ _ k z]
    by (auto simp: replace_pending_order_def split: if_splits option.splits)
qed

lemma sound_expire:
  assumes "expire_if_due cal C i x = (r, j, y)" "sound i x"
  shows "sound j y \<and> (r = None \<longrightarrow> j = i \<and> y = x)"
  using assms sound_cancel [of i x] sound_close [of "remaining_quantity i" None i x]
  by (auto simp: expire_if_due_def Let_def close_insight_def sound_same split: option.splits if_splits prod.splits)

lemma sound_submit:
  assumes "submit cal C i x = (r, j, y)" "sound i x"
  shows "sound j y"
proof -
  obtain q k z where poll: "poll_mutation C KSubmit i x = (q, k, z)" by (cases "poll_mutation C KSubmit i x")
  note p = sound_poll [OF poll assms(2)]
  have validate: "sound j y \<and> (\<forall>b. v = Inr b \<longrightarrow> j = k \<and> y = z)" if "insight_validate cal C k z = (v, j, y)" "sound k z" for v j y
    using that sound_expire [of cal k z]
    by (auto simp: insight_validate_def has_expired_def Let_def split: option.splits if_splits prod.splits)
  show ?thesis
    using assms(1) poll p validate sound_queue [of KSubmit _ _ _ k z]
    by (auto simp: submit_def sound_same split: option.splits if_splits prod.splits sum.splits)
qed

lemma sound_market_changed:
  assumes "update_market_changed C changed act i x = (j, y)" "sound i x"
  shows "sound j y"
proof -
  let ?i = "note_change (NoteText ''Market changed'') (i\<lparr>ins_market_changed := changed\<rparr>)"
  have "sound ?i x" using assms(2) by (simp add: sound_same)
  then show ?thesis using assms(1) sound_cancel [of ?i x] sound_close [of "remaining_quantity ?i" None ?i x]
    by (auto simp: update_market_changed_def Let_def close_insight_def sound_same simp del: note_change_def
        split: if_splits prod.splits sum.splits)
qed

lemma sound_poll_terminal:
  assumes "poll_terminal_mutations C i x = (j, y)" "sound i x"
  shows "sound j y"
proof -
  have "sound j y" if "foldl (\<lambda>(i, x) kind. snd (poll_mutation C kind i x)) (i, x) kinds = (j, y)" "sound i x" for kinds and i j :: "'c Insight" and x y
    using that
  proof (induction kinds arbitrary: i x)
    case (Cons kind kinds)
    obtain r k z where poll: "poll_mutation C kind i x = (r, k, z)" by (cases "poll_mutation C kind i x")
    then have "sound k z" using sound_poll Cons.prems(2) by blast
    then show ?case using Cons poll by simp
  qed simp
  note run = this
  show ?thesis
  proof (cases "is_inactive (ins_state i)")
    case True
    show ?thesis by (rule run [OF _ assms(2)]) (use assms(1) True in \<open>unfold poll_terminal_mutations_def, simp only: simp_thms if_False\<close>)
  qed (use assms in \<open>simp add: poll_terminal_mutations_def\<close>)
qed

end

section \<open>The operations as steps\<close>

inductive insight_step :: "calendar \<Rightarrow> 'x StrategyContext \<Rightarrow> 'c Insight \<times> 'x \<Rightarrow> 'c Insight \<times> 'x \<Rightarrow> bool"
  for cal :: calendar and C :: "'x StrategyContext" where
  submit: "insight_step cal C (i, x) (snd (submit cal C i x))"
| cancel: "insight_step cal C (i, x) (snd (cancel C i x))"
| cancel_by_id: "insight_step cal C (i, x) (snd (cancel_order_by_id C oid i x))"
| close_partial: "insight_step cal C (i, x) (snd (try_close_partial C quantity price i x))"
| close: "insight_step cal C (i, x) (snd (close_insight C i x))"
| take_profit: "insight_step cal C (i, x) (snd (update_take_profit_in_group C levels grp i x))"
| stop_loss: "insight_step cal C (i, x) (snd (insight_update_stop_loss C levels i x))"
| entry_price: "insight_step cal C (i, x) (snd (update_entry_price C price stop i x))"
| replace: "insight_step cal C (i, x) (snd (replace_pending_order C price quantity i x))"
| expire: "insight_step cal C (i, x) (snd (expire_if_due cal C i x))"
| market_changed: "insight_step cal C (i, x) (update_market_changed C changed act i x)"
| poll: "insight_step cal C (i, x) (snd (poll_mutation C kind i x))"
| poll_terminal: "insight_step cal C (i, x) (poll_terminal_mutations C i x)"

lemma snd_triple: "(j, y) = snd t \<Longrightarrow> t = (fst t, j, y)"
  by (cases t) auto

context command_ledger
begin

lemma sound_step:
  assumes "insight_step cal C (i, x) (j, y)" "sound i x"
  shows "sound j y"
proof -
  from assms(1) show ?thesis
  proof cases
    case submit
    from submit show ?thesis by (rule sound_submit [OF snd_triple assms(2)])
  next
    case cancel
    from cancel show ?thesis by (rule sound_cancel [OF snd_triple assms(2)])
  next
    case cancel_by_id
    from cancel_by_id show ?thesis by (rule sound_cancel_by_id [OF snd_triple assms(2)])
  next
    case close_partial
    from close_partial show ?thesis by (rule sound_close [OF snd_triple assms(2)])
  next
    case close
    from close [unfolded close_insight_def] show ?thesis by (rule sound_close [OF snd_triple assms(2)])
  next
    case take_profit
    from take_profit [unfolded update_take_profit_in_group_def] show ?thesis by (rule sound_protection [OF snd_triple assms(2)])
  next
    case stop_loss
    from stop_loss [unfolded insight_update_stop_loss_def] show ?thesis by (rule sound_protection [OF snd_triple assms(2)])
  next
    case entry_price
    from entry_price show ?thesis by (rule sound_amend [OF snd_triple assms(2)])
  next
    case replace
    from replace show ?thesis by (rule sound_replace [OF snd_triple assms(2)])
  next
    case expire
    from expire show ?thesis by (rule sound_expire [OF snd_triple assms(2), THEN conjunct1])
  next
    case market_changed
    from market_changed show ?thesis by (rule sound_market_changed [OF sym assms(2)])
  next
    case poll
    from poll show ?thesis by (rule sound_poll [OF snd_triple assms(2), THEN conjunct1])
  next
    case poll_terminal
    from poll_terminal show ?thesis by (rule sound_poll_terminal [OF sym assms(2)])
  qed
qed

end

section \<open>The strategy runtime\<close>

lemma progress_modify:
  "(\<And>p. pc_command (f p) = pc_command p) \<Longrightarrow> (\<And>p. pc_progress (f p) = pc_progress p) \<Longrightarrow>
    progress (modify_pending cid f d) receipt = progress d receipt"
  by (simp add: progress_def modify_pending_def split: option.split)

lemma progress_mark_reduced: "progress (snd (mark_reduced receipt d)) receipt' = progress d receipt'"
  by (simp add: mark_reduced_def progress_modify split: option.split BrokerCommandProgress.split)

lemma runtime_progress_iff:
  "runtime_progress x receipt = Some q \<longleftrightarrow> (\<exists>d p. rt_driver x = Some d \<and> hm_get (sd_pending d) (rcp_id receipt) = Some p
     \<and> command_receipt (pc_command p) = receipt \<and> pc_progress p = q)"
  by (auto simp: runtime_progress_def progress_def split: option.splits if_splits)

lemma runtime_enqueue_driver:
  assumes "rt_driver x = Some d"
  shows "\<exists>now c. rt_driver (snd (runtime_enqueue E x iid action grp)) = Some (snd (enqueue_command E now c d))"
proof -
  obtain fresh now constraints where "runtime_enqueue E x iid action grp =
      (case enqueue_with_constraints E fresh now iid action grp constraints d of
         (Inl e, d) \<Rightarrow> (Inl e, x\<lparr>rt_driver := Some d, rt_fresh := stl (rt_fresh x), rt_clock_us := stl (rt_clock_us x)\<rparr>)
       | (Inr receipt, d) \<Rightarrow>
          (Inr receipt, x\<lparr>rt_driver := Some d, rt_fresh := stl (rt_fresh x), rt_clock_us := stl (rt_clock_us x),
             rt_pinned := List.insert iid (rt_pinned x)\<rparr>))"
    using assms by (simp add: runtime_enqueue_def)
  then have "rt_driver (snd (runtime_enqueue E x iid action grp)) = Some (snd (enqueue_with_constraints E fresh now iid action grp constraints d))"
    by (simp split: prod.split sum.split)
  then show ?thesis by (auto simp: enqueue_with_constraints_def split: prod.splits)
qed

interpretation runtime: command_ledger "runtime_context E" for E
proof
  fix x iid action grp receipt x'
  assume "ctx_enqueue_broker_command (runtime_context E) x iid action grp = (Inr receipt, x')"
  then obtain d now c d' where "enqueue_command E now c d = (Inr receipt, d')" "rt_driver x' = Some d'"
    by (auto simp: runtime_context_def runtime_enqueue_def enqueue_with_constraints_def Let_def split: option.splits prod.splits sum.splits)
  then show "ctx_broker_command_progress (runtime_context E) x' receipt \<noteq> None"
    using enqueue_success [of E now c d receipt d']
    by (auto simp: runtime_context_def runtime_progress_def progress_def command_receipt_def)
next
  fix x receipt q iid action grp
  assume "ctx_broker_command_progress (runtime_context E) x receipt = Some q"
  then obtain d p where d: "rt_driver x = Some d" "hm_get (sd_pending d) (rcp_id receipt) = Some p"
      "command_receipt (pc_command p) = receipt" "pc_progress p = q"
    by (auto simp: runtime_context_def runtime_progress_iff)
  obtain now c where c: "rt_driver (snd (runtime_enqueue E x iid action grp)) = Some (snd (enqueue_command E now c d))"
    using runtime_enqueue_driver [OF d(1)] by blast
  show "ctx_broker_command_progress (runtime_context E) (snd (ctx_enqueue_broker_command (runtime_context E) x iid action grp)) receipt = Some q"
    using c d enqueue_keeps_others [OF d(2), of E now c] by (simp add: runtime_context_def runtime_progress_iff)
next
  fix x receipt receipt'
  show "ctx_broker_command_progress (runtime_context E) (ctx_broker_command_reduced (runtime_context E) x receipt) receipt'
      = ctx_broker_command_progress (runtime_context E) x receipt'"
    using progress_mark_reduced [of receipt _ receipt']
    by (simp add: runtime_context_def runtime_reduced_def runtime_progress_def split: option.split prod.split sum.split)
      (metis snd_conv)
next
  fix x receipt receipt'
  show "ctx_broker_command_progress (runtime_context E) (snd (ctx_cancel_pending_entry (runtime_context E) x receipt)) receipt'
      = ctx_broker_command_progress (runtime_context E) x receipt'"
    by (auto simp: runtime_context_def runtime_cancel_pending_entry_def runtime_progress_def driver_cancel_pending_entry_def
        progress_def with_worker_def Let_def split: option.split prod.split)
qed

section \<open>Properties\<close>

definition sample_runtime :: StrategyRuntime where
  "sample_runtime = \<lparr>rt_driver = Some (driver_new sample_worker 2 0), rt_universe = [(''X'', plain_asset)], rt_pinned = [],
     rt_shutdown = False, rt_fresh = sconst ''f'', rt_clock_us = sconst 0, rt_current_time = 0,
     rt_amend_limit = False, rt_amend_stop = False\<rparr>"

text \<open>C35: Every operation of an insight on the strategy runtime keeps at most one outstanding broker command of each
  kind, and every receipt the insight still holds is known to the command driver, so that a poll can always
  find its progress.\<close>

theorem insight_receipts_known:
  assumes "insight_step cal (runtime_context E) (i, x) (j, y)" "one_per_kind i" "known_to (runtime_context E) i x"
  shows "one_per_kind j \<and> known_to (runtime_context E) j y"
  using runtime.sound_step [OF assms(1)] assms(2,3) by (simp add: runtime.sound_def)

theorem insight_receipts_known_witness:
  "\<exists>j y. snd (close_insight (runtime_context sample_env) (sample_insight StFilled) sample_runtime) = (j, y)
    \<and> one_per_kind j \<and> known_to (runtime_context sample_env) j y"
proof -
  obtain j y where jy: "snd (close_insight (runtime_context sample_env) (sample_insight StFilled) sample_runtime) = (j, y)"
    by fastforce
  have "ins_pending_mutations (sample_insight StFilled) = []"
    by (simp add: sample_insight_def insight_new_def insight_default_def Let_def)
  then have "one_per_kind (sample_insight StFilled)" "known_to (runtime_context sample_env) (sample_insight StFilled) sample_runtime"
    by (simp_all add: one_per_kind_def pending_kinds_def known_to_def)
  moreover have "insight_step civil_calendar (runtime_context sample_env) (sample_insight StFilled, sample_runtime) (j, y)"
    using insight_step.close [of civil_calendar "runtime_context sample_env" "sample_insight StFilled" sample_runtime] jy by simp
  ultimately have "one_per_kind j \<and> known_to (runtime_context sample_env) j y" by (intro insight_receipts_known)
  then show ?thesis using jy by blast
qed

lemma poll_unresolved:
  assumes "take_pending kind (ins_pending_mutations i) = Some (p, rest)"
    "ctx_broker_command_progress C x (pm_receipt p) = Some Queued"
  shows "poll_mutation C kind i x = (Some (Inr (PendingReceipt (pm_receipt p))), i, x)"
  using assms by (simp add: poll_mutation_def)

lemma poll_pending_receipt:
  assumes "poll_mutation C kind i x = (Some (Inr (PendingReceipt receipt)), j, y)"
  shows "j = i \<and> y = x \<and> (\<exists>p rest. take_pending kind (ins_pending_mutations i) = Some (p, rest) \<and> pm_receipt p = receipt)"
  using assms by (auto simp: poll_mutation_def Let_def settle_mutation_def split: option.splits BrokerCommandProgress.splits
      BrokerCommandOutcome.splits if_splits prod.splits)

lemma take_pending_append:
  "take_pending kind ps = None \<Longrightarrow> pm_kind p = kind \<Longrightarrow> take_pending kind (ps @ [p]) = Some (p, ps)"
  by (induction ps) (auto split: if_splits)

lemma poll_none: "poll_mutation C kind i x = (None, j, y) \<Longrightarrow> j = i \<and> y = x \<and> take_pending kind (ins_pending_mutations i) = None"
  by (cases "take_pending kind (ins_pending_mutations i)")
    (auto simp: poll_mutation_def Let_def split: option.splits BrokerCommandProgress.splits BrokerCommandOutcome.splits
      if_splits prod.splits)

lemma validate_keeps:
  assumes "insight_validate cal C i x = (Inr v, j, y)"
  shows "j = i \<and> y = x"
proof -
  have "k = i \<and> z = x" if "expire_if_due cal C i x = (None, k, z)" for k z
    using that by (auto simp: expire_if_due_def Let_def split: option.splits if_splits prod.splits)
  then show ?thesis
    using assms by (auto simp: insight_validate_def has_expired_def Let_def split: option.splits if_splits prod.splits)
qed

lemma queue_result:
  assumes "queue_mutation C kind action effect grp i x = (Inr (PendingReceipt receipt), j, y)"
  shows "ins_pending_mutations j = ins_pending_mutations i @ [\<lparr>pm_kind = kind, pm_receipt = receipt, pm_effect = effect\<rparr>]"
  using assms by (auto simp: queue_mutation_def same_pending split: prod.splits sum.splits)

lemma submit_holds_receipt:
  assumes "submit cal C i x = (Inr (PendingReceipt receipt), j, y)"
  shows "\<exists>p rest. take_pending KSubmit (ins_pending_mutations j) = Some (p, rest) \<and> pm_receipt p = receipt"
proof -
  obtain q k z where poll: "poll_mutation C KSubmit i x = (q, k, z)" by (cases "poll_mutation C KSubmit i x")
  show ?thesis
  proof (cases q)
    case (Some r)
    then have "poll_mutation C KSubmit i x = (Some (Inr (PendingReceipt receipt)), j, y)"
      using assms poll by (simp add: submit_def)
    from poll_pending_receipt [OF this] show ?thesis by simp
  next
    case None
    note same = poll_none [OF poll [unfolded None]]
    obtain v k' z' where valid: "insight_validate cal C i x = (v, k', z')" by (cases "insight_validate cal C i x")
    have "\<exists>b. v = Inr b" "queue_mutation C KSubmit (SubmitAction (request_of_insight k')) ESubmit None k' z' = (Inr (PendingReceipt receipt), j, y)"
      using assms poll None same valid by (auto simp: submit_def split: if_splits sum.splits)
    then have "ins_pending_mutations j = ins_pending_mutations i @ [\<lparr>pm_kind = KSubmit, pm_receipt = receipt, pm_effect = ESubmit\<rparr>]"
      using queue_result validate_keeps valid by metis
    then show ?thesis using take_pending_append same by fastforce
  qed
qed

text \<open>Submitting an entry is idempotent while its command is outstanding: once submit has returned a pending
  receipt, submitting again before the broker answered returns the same receipt and changes neither the insight
  nor the driver, so that no second entry is sent.\<close>

theorem submit_once_outstanding:
  assumes "submit cal (runtime_context E) i x = (Inr (PendingReceipt receipt), j, y)"
    "runtime_progress y receipt = Some Queued"
  shows "submit cal (runtime_context E) j y = (Inr (PendingReceipt receipt), j, y)"
proof -
  obtain p rest where "take_pending KSubmit (ins_pending_mutations j) = Some (p, rest)" "pm_receipt p = receipt"
    using submit_holds_receipt [OF assms(1)] by blast
  then have "poll_mutation (runtime_context E) KSubmit j y = (Some (Inr (PendingReceipt receipt)), j, y)"
    using poll_unresolved [of KSubmit j p rest "runtime_context E" y] assms(2) by (simp add: runtime_context_def)
  then show ?thesis by (simp add: submit_def)
qed

definition fresh_insight :: "nat Insight" where
  "fresh_insight = (insight_new ''i1'' (sconst 0) Buy ''X'' Testing \<lparr>tf_amount = 1, tf_unit = Minute\<rparr> 50 None)
     \<lparr>ins_quantity := Some (Fin 2)\<rparr>"

lemma trim_scope: "trim ''s'' = ''s''" "trim ''a'' = ''a''"
  by code_simp+

lemma fresh_submitted:
  "\<exists>j y. submit civil_calendar (runtime_context sample_env) fresh_insight sample_runtime
      = (Inr (PendingReceipt \<lparr>rcp_id = ''sai1'', rcp_insight_id = ''i1'', rcp_group = None\<rparr>), j, y)
    \<and> runtime_progress y \<lparr>rcp_id = ''sai1'', rcp_insight_id = ''i1'', rcp_group = None\<rparr> = Some Queued"
  by (simp add: trim_scope submit_def poll_mutation_def fresh_insight_def insight_new_def insight_default_def Let_def insight_validate_def
      invalid_entry_def runtime_context_def sample_runtime_def plain_asset_def has_expired_def expire_if_due_def
      expiry_window_def has_valid_entry_conditions_def queue_mutation_def runtime_enqueue_def enqueue_with_constraints_def
      command_new_with_constraints_def request_of_insight_def enqueue_command_def driver_new_def sample_env_def
      sample_worker_def worker_is_closed_def is_teardown_def is_entry_def admit_def command_receipt_def hm_get_def
      hm_insert_def runtime_progress_def progress_def)

theorem submit_once_outstanding_witness:
  "\<exists>receipt j y. submit civil_calendar (runtime_context sample_env) fresh_insight sample_runtime = (Inr (PendingReceipt receipt), j, y)
    \<and> submit civil_calendar (runtime_context sample_env) j y = (Inr (PendingReceipt receipt), j, y)"
  using fresh_submitted submit_once_outstanding by blast

end
