(* ===== verification/IdSets.thy ===== *)
theory IdSets
  imports Prelude "HOL-Library.List_Lexorder" "HOL-Library.Char_ord"
begin

text \<open>
  The sets of identifiers the collection of insights keeps: a \<open>HashSet\<close> is a list without
  duplicates in the order an iteration visits it, a \<open>BTreeSet\<close> a strictly increasing list.  Both
  meet one contract, \<open>id_set\<close>.  A \<open>Uuid\<close> is its hyphenated lower-case text, whose lexicographic
  order is the order of the sixteen bytes.
\<close>

type_synonym uuid = string

locale id_set =
  fixes ins :: "'a \<Rightarrow> 's \<Rightarrow> 's"
    and rem :: "'a \<Rightarrow> 's \<Rightarrow> 's"
    and elems :: "'s \<Rightarrow> 'a set"
    and ok :: "'s \<Rightarrow> bool"
  assumes elems_ins: "elems (ins x s) = insert x (elems s)"
    and elems_rem: "ok s \<Longrightarrow> elems (rem x s) = elems s - {x}"
    and ok_ins: "ok s \<Longrightarrow> ok (ins x s)"
    and ok_rem: "ok s \<Longrightarrow> ok (rem x s)"
begin

lemma rem_ins: "ok s \<Longrightarrow> x \<notin> elems s \<Longrightarrow> elems (rem x (ins x s)) = elems s"
  by (simp add: elems_ins elems_rem ok_ins)

lemma ok_fold_ins: "ok s \<Longrightarrow> ok (fold ins xs s)"
  by (induction xs arbitrary: s) (auto simp: ok_ins)

lemma elems_fold_ins: "elems (fold ins xs s) = set xs \<union> elems s"
  by (induction xs arbitrary: s) (auto simp: elems_ins)

lemma ok_fold_rem: "ok s \<Longrightarrow> ok (fold rem xs s)"
  by (induction xs arbitrary: s) (auto simp: ok_rem)

end

section \<open>Hash sets\<close>

definition hs_insert :: "'a \<Rightarrow> 'a list \<Rightarrow> 'a list" where
  "hs_insert x s = (if x \<in> set s then s else s @ [x])"

definition hs_remove :: "'a \<Rightarrow> 'a list \<Rightarrow> 'a list" where
  "hs_remove x s = remove1 x s"

interpretation hs: id_set hs_insert hs_remove set distinct
  by unfold_locales (auto simp: hs_insert_def hs_remove_def)

section \<open>Ordered sets\<close>

definition bt_insert :: "'a::linorder \<Rightarrow> 'a list \<Rightarrow> 'a list" where
  "bt_insert x s = (if x \<in> set s then s else insort x s)"

definition bt_remove :: "'a::linorder \<Rightarrow> 'a list \<Rightarrow> 'a list" where
  "bt_remove x s = remove1 x s"

definition bt_ok :: "'a::linorder list \<Rightarrow> bool" where
  "bt_ok s \<longleftrightarrow> sorted s \<and> distinct s"

interpretation bt: id_set bt_insert bt_remove set bt_ok
  by unfold_locales
    (auto simp: bt_insert_def bt_remove_def bt_ok_def set_insort_key sorted_insort distinct_insort
      sorted_remove1)

definition bt_last :: "'a list \<Rightarrow> 'a option" where
  "bt_last s = last_opt s"

text \<open>\<open>range((after.map_or(Unbounded, Excluded), Included(upper)))\<close>.\<close>

definition past :: "'a::linorder option \<Rightarrow> 'a \<Rightarrow> bool" where
  "past after x \<longleftrightarrow> (case after of None \<Rightarrow> True | Some a \<Rightarrow> a < x)"

definition bt_range :: "'a::linorder option \<Rightarrow> 'a \<Rightarrow> 'a list \<Rightarrow> 'a list" where
  "bt_range after upper s = filter (\<lambda>x. past after x \<and> x \<le> upper) s"

lemma bt_ok_Nil [simp]: "bt_ok []"
  by (simp add: bt_ok_def)

lemma bt_ok_Cons: "bt_ok (x # s) \<longleftrightarrow> (\<forall>y\<in>set s. x < y) \<and> bt_ok s"
  by (auto simp: bt_ok_def) (metis order_le_less)

lemma bt_ok_append: "bt_ok (s @ t) \<longleftrightarrow> bt_ok s \<and> bt_ok t \<and> (\<forall>x\<in>set s. \<forall>y\<in>set t. x < y)"
  by (induction s) (auto simp: bt_ok_Cons)

lemma bt_ok_filter: "bt_ok s \<Longrightarrow> bt_ok (filter P s)"
  by (induction s) (auto simp: bt_ok_Cons)

lemma bt_ok_take: "bt_ok s \<Longrightarrow> bt_ok (take n s)"
  by (simp add: bt_ok_def sorted_wrt_take)

text \<open>Two ordered sets with the same elements are the same list.\<close>

lemma bt_ok_unique: "bt_ok s \<Longrightarrow> bt_ok t \<Longrightarrow> set s = set t \<Longrightarrow> s = t"
  by (auto simp: bt_ok_def intro: sorted_distinct_set_unique)

lemma bt_ok_dropWhile: "bt_ok s \<Longrightarrow> bt_ok (dropWhile P s)"
  by (induction s) (auto simp: bt_ok_Cons)

lemma bt_last_max: "bt_ok s \<Longrightarrow> bt_last s = Some u \<Longrightarrow> x \<in> set s \<Longrightarrow> x \<le> u"
  by (cases s rule: rev_cases) (auto simp: bt_last_def last_opt_def bt_ok_append split: if_splits)

lemma bt_last_None [simp]: "bt_last s = None \<longleftrightarrow> s = []"
  by (simp add: bt_last_def last_opt_def)

text \<open>Reading on from the last element of a page continues where the page stopped.\<close>

lemma bt_range_resume:
  assumes "bt_ok s" "take n (bt_range after upper s) = page" "page \<noteq> []"
  shows "bt_range (Some (last page)) upper s = drop n (bt_range after upper s)"
proof -
  let ?r = "bt_range after upper s"
  have r: "bt_ok ?r" using assms(1) by (simp add: bt_range_def bt_ok_filter)
  have split: "?r = page @ drop n ?r" using assms(2) by (metis append_take_drop_id)
  have "bt_ok page" using bt_ok_take [OF r, of n] assms(2) by simp
  then have lt: "x \<le> last page" if "x \<in> set page" for x
    using that assms(3) bt_last_max [of page "last page" x] by (simp add: bt_last_def last_opt_def)
  have gt: "last page < x" if "x \<in> set (drop n ?r)" for x
    using r split that assms(3) by (metis bt_ok_append last_in_set)
  have "last page \<in> set ?r" using split assms(3) by (metis Un_iff last_in_set set_append)
  then have in_page: "past after (last page)" "last page \<le> upper" by (simp_all add: bt_range_def)
  have "bt_range (Some (last page)) upper s = filter (\<lambda>x. last page < x) ?r"
    using in_page unfolding bt_range_def filter_filter
    by (intro filter_cong) (auto simp: past_def split: option.splits)
  also have "\<dots> = filter (\<lambda>x. last page < x) page @ filter (\<lambda>x. last page < x) (drop n ?r)"
    by (subst split) simp
  also have "filter (\<lambda>x. last page < x) page = []" using lt by (auto simp: filter_empty_conv not_less)
  also have "filter (\<lambda>x. last page < x) (drop n ?r) = drop n ?r" using gt by (auto simp: filter_id_conv)
  finally show ?thesis by simp
qed

section \<open>Ordered maps\<close>

text \<open>\<open>BTreeMap::insert\<close>.\<close>

definition bm_insert :: "'k::linorder \<Rightarrow> 'v \<Rightarrow> ('k \<times> 'v) list \<Rightarrow> ('k \<times> 'v) list" where
  "bm_insert k v m = (if k \<in> set (map fst m) then hm_modify k (\<lambda>_. v) m else insort_key fst (k, v) m)"

lemma bm_insert_last: "\<forall>k'\<in>set (map fst m). k' < k \<Longrightarrow> bm_insert k v m = m @ [(k, v)]"
proof -
  assume less: "\<forall>k'\<in>set (map fst m). k' < k"
  have "insort_key fst (k, v) m = m @ [(k, v)]" using less by (induction m) auto
  then show ?thesis using less by (auto simp: bm_insert_def)
qed

end
