(* ===== verification/InsightTree.thy ===== *)
theory InsightTree
  imports Insight IdSets
begin

text \<open>
  Insights with the children they own and the strategy data attached to them
  (\<open>src/core/insight/execution_data.rs\<close>, the tree walks of \<open>src/core/insight/quantity.rs\<close>).
  A node is a row of \<open>InsightTypes\<close>, whose own list of children is unused here, with its data
  and its child nodes.

  JSON texts are written and read by \<open>serde_json\<close>, a parameter of the model: \<open>json_laws\<close> names
  what the code relies on, that reading gives back what was written.
\<close>

section \<open>Attached data\<close>

record 'v Json =
  js_parse :: "string \<Rightarrow> string + 'v"
  js_parse_ids :: "string \<Rightarrow> string + uuid list"
  js_write :: "'v \<Rightarrow> string"
  js_of_ids :: "uuid list \<Rightarrow> 'v"

definition json_laws :: "'v Json \<Rightarrow> bool" where
  "json_laws J \<longleftrightarrow> (\<forall>v. js_parse J (js_write J v) = Inr v)
     \<and> (\<forall>ids. js_parse_ids J (js_write J (js_of_ids J ids)) = Inr ids)"

type_synonym ExecutionData = "(string \<times> string) list"

definition RECOVERY_DEPENDENCIES :: string where
  "RECOVERY_DEPENDENCIES = ''aqe:recovery-dependencies:v1''"

definition MAX_RECOVERY_DEPENDENCIES :: nat where "MAX_RECOVERY_DEPENDENCIES = 16"
definition MAX_BYTES :: nat where "MAX_BYTES = 16 * 1024"
definition MAX_KEYS :: nat where "MAX_KEYS = 16"
definition MAX_KEY_BYTES :: nat where "MAX_KEY_BYTES = 128"

definition data_read :: "'v Json \<Rightarrow> ExecutionData \<Rightarrow> string \<Rightarrow> BrokerCommandError + 'v option" where
  "data_read J d key = (case map_of d key of None \<Rightarrow> Inr None
     | Some encoded \<Rightarrow> (case js_parse J encoded of Inl e \<Rightarrow> Inl (CmdInvalid e) | Inr v \<Rightarrow> Inr (Some v)))"

fun strictly_increasing :: "'a::linorder list \<Rightarrow> bool" where
  "strictly_increasing (x # y # xs) = (x < y \<and> strictly_increasing (y # xs))"
| "strictly_increasing _ = True"

definition decode_dependencies :: "'v Json \<Rightarrow> string \<Rightarrow> BrokerCommandError + uuid list" where
  "decode_dependencies J encoded = (case js_parse_ids J encoded of Inl e \<Rightarrow> Inl (CmdInvalid e)
     | Inr ids \<Rightarrow>
        if MAX_RECOVERY_DEPENDENCIES < length ids \<or> \<not> strictly_increasing ids
        then Inl (CmdInvalid ''recovery dependencies must be at most 16 sorted unique UUIDs'')
        else Inr ids)"

definition recovery_dependencies :: "'v Json \<Rightarrow> ExecutionData \<Rightarrow> BrokerCommandError + uuid list" where
  "recovery_dependencies J d = (case map_of d RECOVERY_DEPENDENCIES of None \<Rightarrow> Inr []
     | Some value \<Rightarrow> decode_dependencies J value)"

definition validate_key :: "string \<Rightarrow> BrokerCommandError + unit" where
  "validate_key key = (if trim key = [] \<or> MAX_KEY_BYTES < length key
     then Inl (CmdInvalid ''custom execution data key must contain 1..=128 bytes'') else Inr ())"

definition data_bytes :: "ExecutionData \<Rightarrow> nat" where
  "data_bytes d = sum_list (map (\<lambda>(k, v). length k + length v) d)"

fun validate_entries :: "'v Json \<Rightarrow> ExecutionData \<Rightarrow> BrokerCommandError + unit" where
  "validate_entries J [] = Inr ()"
| "validate_entries J ((key, encoded) # d) = (case validate_key key of Inl e \<Rightarrow> Inl e
     | Inr _ \<Rightarrow> (case js_parse J encoded of Inl e \<Rightarrow> Inl (CmdInvalid e) | Inr _ \<Rightarrow> validate_entries J d))"

definition validate_data :: "'v Json \<Rightarrow> ExecutionData \<Rightarrow> BrokerCommandError + unit" where
  "validate_data J d = (if MAX_KEYS < length d \<or> MAX_BYTES < data_bytes d
     then Inl (CmdInvalid ''custom execution data exceeds its per-insight bound'')
     else case validate_entries J d of Inl e \<Rightarrow> Inl e
       | Inr _ \<Rightarrow> (case recovery_dependencies J d of Inl e \<Rightarrow> Inl e | Inr _ \<Rightarrow> Inr ()))"

text \<open>The writer refuses a text above the bound, with the message of the bound.\<close>

definition bounded_json :: "'v Json \<Rightarrow> 'v \<Rightarrow> BrokerCommandError + string" where
  "bounded_json J v = (let s = js_write J v in
     if MAX_BYTES < length s then Inl (CmdInvalid ''custom execution data exceeds 16 KiB'') else Inr s)"

definition set_data :: "'v Json \<Rightarrow> string \<Rightarrow> 'v \<Rightarrow> ExecutionData \<Rightarrow> BrokerCommandError + ExecutionData" where
  "set_data J key value d = (case validate_key key of Inl e \<Rightarrow> Inl e | Inr _ \<Rightarrow>
     if map_of d key = None \<and> length d = MAX_KEYS
     then Inl (CmdInvalid ''custom execution data exceeds 16 component keys'')
     else case bounded_json J value of Inl e \<Rightarrow> Inl e | Inr encoded \<Rightarrow>
       (case (if key = RECOVERY_DEPENDENCIES then decode_dependencies J encoded else Inr []) of
          Inl e \<Rightarrow> Inl e
        | Inr _ \<Rightarrow>
            if MAX_BYTES < data_bytes (filter (\<lambda>(k, _). k \<noteq> key) d) + length key + length encoded
            then Inl (CmdInvalid ''custom execution data exceeds 16 KiB'')
            else Inr (bm_insert key encoded d)))"

section \<open>Trees\<close>

datatype InsightTree = Tree (tree_row: "unit Insight") (tree_data: ExecutionData) (tree_children: "InsightTree list")

definition insight_id :: "InsightTree \<Rightarrow> uuid" where "insight_id t = ins_id (tree_row t)"
definition tree_state :: "InsightTree \<Rightarrow> InsightState" where "tree_state t = ins_state (tree_row t)"

definition execution_data :: "'v Json \<Rightarrow> InsightTree \<Rightarrow> string \<Rightarrow> BrokerCommandError + 'v option" where
  "execution_data J t key = data_read J (tree_data t) key"

definition set_execution_data :: "'v Json \<Rightarrow> string \<Rightarrow> 'v \<Rightarrow> InsightTree \<Rightarrow> BrokerCommandError + InsightTree" where
  "set_execution_data J key value t = (case set_data J key value (tree_data t) of Inl e \<Rightarrow> Inl e
     | Inr d \<Rightarrow> Inr (Tree (tree_row t) d (tree_children t)))"

definition set_recovery_dependencies :: "'v Json \<Rightarrow> uuid list \<Rightarrow> InsightTree \<Rightarrow> BrokerCommandError + InsightTree" where
  "set_recovery_dependencies J owners t =
     (if MAX_RECOVERY_DEPENDENCIES < length owners
      then Inl (CmdInvalid ''at most 16 recovery dependencies are supported'')
      else set_execution_data J RECOVERY_DEPENDENCIES (js_of_ids J (remdups_adj (sort owners))) t)"

text \<open>
  The iterative walk of a forest: the head of the list is the top of the stack.  A row is skipped
  when its id was seen or when it is terminal; of a visited row the children that pass
  \<open>push\<close> go on the stack, the last one on top.  The result is the sequence of rows the callback gets.
\<close>

function visit_rows :: "(InsightTree \<Rightarrow> bool) \<Rightarrow> uuid list \<Rightarrow> InsightTree list \<Rightarrow> InsightTree list" where
  "visit_rows push seen [] = []"
| "visit_rows push seen (t # stack) =
     (if insight_id t \<in> set seen then visit_rows push seen stack
      else if is_inactive (tree_state t) then visit_rows push (hs_insert (insight_id t) seen) stack
      else t # visit_rows push (hs_insert (insight_id t) seen) (rev (filter push (tree_children t)) @ stack))"
  by pat_completeness auto

lemma size_list_filter: "size_list f (filter P xs) \<le> size_list f xs"
  by (induction xs) auto

lemma size_list_rev [simp]: "size_list f (rev xs) = size_list f xs"
  by (induction xs) auto

lemma tree_size_children: "size_list size (tree_children t) < size t"
  by (cases t) simp

lemma visit_rows_decreases: "size_list size (filter push (tree_children t)) < Suc (size t)"
  using size_list_filter [of size push "tree_children t"] tree_size_children [of t] by simp

termination visit_rows
  by (relation "measure (\<lambda>(_, _, stack). size_list size stack)") (auto simp: visit_rows_decreases)

definition total_quantity :: "InsightTree list \<Rightarrow> f64" where
  "total_quantity ts = foldl (\<lambda>total t. total + remaining_quantity (tree_row t)) 0 ts"

definition tree_quantity_size :: "InsightTree \<Rightarrow> f64" where
  "tree_quantity_size t = total_quantity (visit_rows (\<lambda>_. True) [] [t])"

text \<open>Every id of a tree, as the exclusion of a tree collects them.\<close>

function collect_ids :: "uuid list \<Rightarrow> InsightTree list \<Rightarrow> uuid list" where
  "collect_ids seen [] = seen"
| "collect_ids seen (t # stack) =
     (if insight_id t \<in> set seen then collect_ids seen stack
      else collect_ids (hs_insert (insight_id t) seen) (rev (tree_children t) @ stack))"
  by pat_completeness auto
termination
  by (relation "measure (\<lambda>(_, stack). size_list size stack)")
    (use tree_size_children in \<open>auto simp: less_SucI\<close>)

text \<open>\<open>add_child_insight\<close> on nodes.\<close>

definition add_child :: "InsightTree \<Rightarrow> bool option \<Rightarrow> InsightTree \<Rightarrow> InsightTree" where
  "add_child child is_split_order p =
     (let i = tree_row p; c = tree_row child;
          c = c\<lparr>ins_strategy_type := CustomStrategy (strategy_label (ins_strategy_type i) @ ''-CHILD''),
                ins_parent_id := Some (ins_id i), ins_is_split_insight := unwrap_or is_split_order False,
                ins_quantity := opt_or (ins_quantity c) (ins_quantity i)\<rparr>
      in Tree i (tree_data p) (tree_children p @ [Tree c (tree_data child) (tree_children child)]))"

section \<open>What the walk visits\<close>

lemma visit_rows_active: "t \<in> set (visit_rows push seen stack) \<Longrightarrow> \<not> is_inactive (tree_state t)"
  by (induction push seen stack rule: visit_rows.induct) (auto split: if_splits)

lemma visit_rows_fresh: "t \<in> set (visit_rows push seen stack) \<Longrightarrow> insight_id t \<notin> set seen"
  by (induction push seen stack rule: visit_rows.induct) (auto simp: hs.elems_ins split: if_splits)

lemma visit_rows_distinct: "distinct (map insight_id (visit_rows push seen stack))"
  by (induction push seen stack rule: visit_rows.induct)
    (auto simp: hs.elems_ins dest: visit_rows_fresh)

text \<open>A row of the stack is visited when nothing else that may be pushed carries its id.\<close>

lemma visit_rows_complete:
  assumes "t \<in> set stack" "insight_id t \<notin> set seen" "\<not> is_inactive (tree_state t)"
    and "\<forall>u\<in>set stack. insight_id u = insight_id t \<longrightarrow> u = t"
    and "\<forall>u. insight_id u = insight_id t \<longrightarrow> \<not> push u"
  shows "t \<in> set (visit_rows push seen stack)"
  using assms
proof (induction push seen stack rule: visit_rows.induct)
  case (2 push seen u stack)
  show ?case
  proof (cases "u = t")
    case True
    then show ?thesis using "2.prems" by simp
  next
    case False
    with "2.prems"(4) have "insight_id u \<noteq> insight_id t" by auto
    then show ?thesis using "2.IH" "2.prems" False by (auto simp: hs.elems_ins)
  qed
qed simp

text \<open>Where the visited rows come from: the stack, or a pushed child of a visited row.\<close>

inductive grows :: "(InsightTree \<Rightarrow> bool) \<Rightarrow> InsightTree set \<Rightarrow> InsightTree \<Rightarrow> bool"
  for push :: "InsightTree \<Rightarrow> bool" and roots :: "InsightTree set"
where
  root: "t \<in> roots \<Longrightarrow> grows push roots t"
| child: "grows push roots t \<Longrightarrow> \<not> is_inactive (tree_state t) \<Longrightarrow> c \<in> set (tree_children t) \<Longrightarrow> push c
    \<Longrightarrow> grows push roots c"

lemma visit_rows_grows:
  assumes "\<forall>u\<in>set stack. grows push roots u" "t \<in> set (visit_rows push seen stack)"
  shows "grows push roots t"
  using assms
proof (induction push seen stack rule: visit_rows.induct)
  case (2 push seen u stack)
  have "\<forall>c\<in>set (rev (filter push (tree_children u)) @ stack). grows push roots c"
    if "\<not> is_inactive (tree_state u)" using "2.prems"(1) that by (auto intro: grows.child)
  then show ?case using 2 by (auto split: if_splits)
qed simp

lemma collect_ids_mono: "set seen \<subseteq> set (collect_ids seen stack)"
  by (induction seen stack rule: collect_ids.induct) (auto simp: hs.elems_ins)

lemma collect_ids_stack: "t \<in> set stack \<Longrightarrow> insight_id t \<in> set (collect_ids seen stack)"
proof (induction seen stack rule: collect_ids.induct)
  case (2 seen u stack)
  have "insight_id u \<in> set (collect_ids (hs_insert (insight_id u) seen) (rev (tree_children u) @ stack))"
    by (rule subsetD [OF collect_ids_mono]) (simp add: hs.elems_ins)
  then show ?case using 2 subsetD [OF collect_ids_mono [of seen stack]] by auto
qed simp

section \<open>Attached data stays within its bounds\<close>

lemma strictly_increasing_bt: "strictly_increasing xs \<longleftrightarrow> bt_ok xs"
  by (induction xs rule: strictly_increasing.induct) (auto simp: bt_ok_Cons intro: less_trans)

lemma recovery_dependencies_bound:
  assumes "recovery_dependencies J d = Inr ids"
  shows "bt_ok ids" and "length ids \<le> 16"
  using assms
  by (auto simp: recovery_dependencies_def decode_dependencies_def strictly_increasing_bt
      MAX_RECOVERY_DEPENDENCIES_def split: option.splits sum.splits if_splits)

lemma bt_ok_remdups_sort: "bt_ok (remdups_adj (sort (xs :: 'a::linorder list)))"
proof -
  have "bt_ok (remdups_adj ys)" if "sorted ys" for ys :: "'a list"
    using that by (induction ys rule: remdups_adj.induct) (auto simp: bt_ok_Cons order_le_less)
  then show ?thesis by simp
qed


definition data_ok :: "ExecutionData \<Rightarrow> bool" where
  "data_ok d \<longleftrightarrow> bt_ok (map fst d)"

lemma validate_entries_iff:
  "validate_entries J d = Inr () \<longleftrightarrow>
     (\<forall>(k, v)\<in>set d. validate_key k = Inr () \<and> (\<exists>x. js_parse J v = Inr x))"
  by (induction d) (auto split: sum.splits)

lemma map_of_insort:
  "k \<notin> set (map fst m) \<Longrightarrow> map_of (insort_key fst (k, v) m) = (map_of m)(k \<mapsto> v)"
  by (induction m) (auto simp: fun_eq_iff)

lemma map_of_bm_insert: "map_of (bm_insert k v m) = (map_of m)(k \<mapsto> v)"
proof (cases "k \<in> set (map fst m)")
  case True
  then have "map_of m k \<noteq> None" by (simp add: map_of_eq_None_iff)
  then show ?thesis using True by (auto simp: bm_insert_def map_of_modify fun_eq_iff)
qed (simp add: bm_insert_def map_of_insort)

lemma map_fst_insort: "map fst (insort_key fst (k, v) m) = insort k (map fst m)"
  by (induction m) auto

lemma data_ok_insert: "data_ok d \<Longrightarrow> data_ok (bm_insert k v d)"
  by (simp add: data_ok_def bm_insert_def map_fst_modify map_fst_insort bt_ok_def sorted_insort distinct_insort)

lemma set_bm_insert:
  assumes "data_ok d"
  shows "set (bm_insert k v d) = insert (k, v) {p \<in> set d. fst p \<noteq> k}"
proof -
  have dist: "distinct (map fst d)" "distinct (map fst (bm_insert k v d))"
    using assms data_ok_insert [OF assms, of k v] by (simp_all add: data_ok_def bt_ok_def)
  have "(k', v') \<in> set (bm_insert k v d) \<longleftrightarrow> (k', v') = (k, v) \<or> (k', v') \<in> set d \<and> k' \<noteq> k" for k' v'
    unfolding map_of_eq_Some_iff [OF dist(1), symmetric] map_of_eq_Some_iff [OF dist(2), symmetric]
    by (auto simp: map_of_bm_insert)
  then show ?thesis by auto
qed

lemma data_bytes_insert:
  assumes "data_ok d"
  shows "data_bytes (bm_insert k v d) = data_bytes (filter (\<lambda>(k', _). k' \<noteq> k) d) + length k + length v"
proof -
  let ?f = "\<lambda>(k, v). length k + length v"
  have sum: "data_bytes e = sum ?f (set e)" if "data_ok e" for e
    using that by (simp add: data_bytes_def data_ok_def bt_ok_def distinct_map sum_list_distinct_conv_sum_set)
  have "data_ok (filter (\<lambda>(k', _). k' \<noteq> k) d)"
    using assms by (induction d) (auto simp: data_ok_def bt_ok_Cons)
  moreover have "set (filter (\<lambda>(k', _). k' \<noteq> k) d) = {p \<in> set d. fst p \<noteq> k}" by auto
  ultimately show ?thesis
    using sum [OF data_ok_insert [OF assms]] sum set_bm_insert [OF assms] by simp
qed

lemma length_bm_insert:
  "length (bm_insert k v d) = length d + (if map_of d k = None then 1 else 0)"
  by (auto simp: bm_insert_def hm_modify_def map_of_eq_None_iff)

text \<open>What a successful write has checked.\<close>

lemma set_data_Inr:
  assumes "set_data J key value d = Inr d'"
  shows "validate_key key = Inr ()" "\<not> (map_of d key = None \<and> length d = MAX_KEYS)"
    "d' = bm_insert key (js_write J value) d"
    "key = RECOVERY_DEPENDENCIES \<Longrightarrow> \<exists>ids. decode_dependencies J (js_write J value) = Inr ids"
    "data_bytes (filter (\<lambda>(k, _). k \<noteq> key) d) + length key + length (js_write J value) \<le> MAX_BYTES"
  using assms
  by (auto simp: set_data_def bounded_json_def Let_def split: sum.splits if_splits)

lemma set_data_valid:
  assumes J: "json_laws J" and d: "data_ok d" "validate_data J d = Inr ()"
    and set: "set_data J key value d = Inr d'"
  shows "validate_data J d' = Inr ()"
proof -
  note s = set_data_Inr [OF set]
  have old: "length d \<le> MAX_KEYS" "validate_entries J d = Inr ()" "\<exists>ids. recovery_dependencies J d = Inr ids"
    using d(2) by (auto simp: validate_data_def split: if_splits sum.splits)
  have "length d' \<le> MAX_KEYS" using s(2) old(1) by (auto simp: s(3) length_bm_insert)
  moreover have "data_bytes d' \<le> MAX_BYTES" using s(5) by (simp add: s(3) data_bytes_insert [OF d(1)])
  moreover have "validate_entries J d' = Inr ()"
    using old(2) s(1) J unfolding validate_entries_iff s(3) set_bm_insert [OF d(1)]
    by (auto simp: json_laws_def)
  moreover have "\<exists>ids. recovery_dependencies J d' = Inr ids"
    using old(3) s(4) by (simp add: s(3) recovery_dependencies_def map_of_bm_insert)
  ultimately show ?thesis by (auto simp: validate_data_def)
qed

text \<open>A codec that meets the laws: lists of ids, each after its length in unary.\<close>

definition plain_write :: "uuid list \<Rightarrow> string" where
  "plain_write ids = concat (map (\<lambda>s. replicate (length s) (CHR ''a'') @ CHR ''b'' # s) ids)"

function plain_read :: "string \<Rightarrow> uuid list" where
  "plain_read s = (if s = [] then [] else
     let n = length (takeWhile (\<lambda>c. c = CHR ''a'') s); r = drop (Suc n) s in take n r # plain_read (drop n r))"
  by pat_completeness auto
termination by (relation "measure length") auto

declare plain_read.simps [simp del]

lemma plain_read_write: "plain_read (plain_write ids) = ids"
proof (induction ids)
  case (Cons s ids)
  have "takeWhile (\<lambda>c. c = CHR ''a'') (replicate (length s) (CHR ''a'') @ CHR ''b'' # r) = replicate (length s) (CHR ''a'')" for r
    by (subst takeWhile_append2) auto
  then show ?case
    using Cons by (subst plain_read.simps) (simp add: plain_write_def Let_def)
qed (simp add: plain_write_def plain_read.simps)

definition plain_json :: "uuid list Json" where
  "plain_json = \<lparr>js_parse = (\<lambda>s. Inr (plain_read s)), js_parse_ids = (\<lambda>s. Inr (plain_read s)),
     js_write = plain_write, js_of_ids = (\<lambda>ids. ids)\<rparr>"

lemma plain_json_laws: "json_laws plain_json"
  by (simp add: json_laws_def plain_json_def plain_read_write)

definition sample_row :: "uuid \<Rightarrow> InsightState \<Rightarrow> unit Insight" where
  "sample_row i s = (insight_default i (sconst 0))\<lparr>ins_state := s, ins_symbol := ''ETHUSD'', ins_quantity := Some (Fin 100)\<rparr>"

text \<open>Writing one component's recovery state is atomic and bounded: a successful write keeps the
  data of the insight valid (at most 16 keys, 16 KiB of keys and values, decodable dependencies),
  the value reads back, every other key reads as before, and the row and the children are untouched.\<close>

theorem execution_data_bounded:
  assumes "json_laws J" "data_ok (tree_data t)" "validate_data J (tree_data t) = Inr ()"
    and "set_execution_data J key value t = Inr t'"
  shows "data_ok (tree_data t') \<and> validate_data J (tree_data t') = Inr ()
    \<and> length (tree_data t') \<le> 16 \<and> data_bytes (tree_data t') \<le> 16384
    \<and> execution_data J t' key = Inr (Some value)
    \<and> (key' \<noteq> key \<longrightarrow> execution_data J t' key' = execution_data J t key')
    \<and> tree_row t' = tree_row t \<and> tree_children t' = tree_children t"
proof -
  obtain d where d: "set_data J key value (tree_data t) = Inr d" "t' = Tree (tree_row t) d (tree_children t)"
    using assms(4) by (auto simp: set_execution_data_def split: sum.splits)
  have valid: "validate_data J d = Inr ()" by (rule set_data_valid [OF assms(1-3) d(1)])
  then have "length d \<le> 16" "data_bytes d \<le> 16384"
    by (auto simp: validate_data_def MAX_KEYS_def MAX_BYTES_def split: if_splits)
  then show ?thesis
    using assms(1) valid data_ok_insert [OF assms(2)]
    by (auto simp: d(2) set_data_Inr(3) [OF d(1)] execution_data_def data_read_def map_of_bm_insert
        json_laws_def split: option.splits)
qed

text \<open>An empty store takes its first entry.\<close>

theorem execution_data_bounded_witness:
  "data_ok (tree_data (Tree (sample_row ''p'' StFilled) [(''trail'', plain_write [''3''])] []))
   \<and> length (tree_data (Tree (sample_row ''p'' StFilled) [(''trail'', plain_write [''3''])] [])) \<le> 16"
  using execution_data_bounded [of plain_json "Tree (sample_row ''p'' StFilled) [] []" "''trail''" "[''3'']"
      "Tree (sample_row ''p'' StFilled) [(''trail'', plain_write [''3''])] []" "''other''"] plain_json_laws
  by (simp add: data_ok_def validate_data_def data_bytes_def recovery_dependencies_def set_execution_data_def
      set_data_def validate_key_def trim_def is_space_def MAX_KEY_BYTES_def MAX_KEYS_def MAX_BYTES_def
      bounded_json_def plain_json_def plain_write_def bm_insert_def RECOVERY_DEPENDENCIES_def)

end
