(* ===== verification/RecoveryViews.thy ===== *)
theory RecoveryViews
  imports InsightTree
begin

text \<open>
  The reference-counted recovery data of the collection (\<open>src/core/insight/recovery_views.rs\<close>):
  an active insight names the owners whose data it needs to resume, and the data of an owner that
  leaves the collection is retained until its last dependent is gone.  A panic of the source (an
  unregistered dependency, an underflow of a count, the debug assertion) is the value \<open>None\<close>; the
  lemmas show that no call made from well-formed data reaches one.
\<close>

record Retained =
  rt_id :: uuid
  rt_parent :: "uuid option"
  rt_state :: InsightState
  rt_symbol :: string
  rt_filled_price :: "f64 option"
  rt_materialized :: bool
  rt_data :: ExecutionData

definition capture :: "InsightTree \<Rightarrow> bool \<Rightarrow> Retained" where
  "capture t materialized = \<lparr>rt_id = insight_id t, rt_parent = ins_parent_id (tree_row t),
     rt_state = tree_state t, rt_symbol = ins_symbol (tree_row t),
     rt_filled_price = ins_filled_price (tree_row t), rt_materialized = materialized, rt_data = tree_data t\<rparr>"

record RecoveryViews =
  rv_owners :: "(uuid, uuid list) hmap"
  rv_counts :: "(uuid, nat) hmap"
  rv_retained :: "(uuid, Retained) hmap"

definition rv_default :: RecoveryViews where
  "rv_default = \<lparr>rv_owners = [], rv_counts = [], rv_retained = []\<rparr>"

section \<open>Operations\<close>

definition release :: "uuid \<Rightarrow> RecoveryViews \<Rightarrow> RecoveryViews option" where
  "release i v = (case hm_get (rv_counts v) i of None \<Rightarrow> None
     | Some n \<Rightarrow> if n = 0 then None
        else if n - 1 = 0
        then Some (v\<lparr>rv_counts := hm_remove i (rv_counts v), rv_retained := hm_remove i (rv_retained v)\<rparr>)
        else Some (v\<lparr>rv_counts := hm_insert i (n - 1) (rv_counts v)\<rparr>))"

fun release_all :: "uuid list \<Rightarrow> RecoveryViews \<Rightarrow> RecoveryViews option" where
  "release_all [] v = Some v"
| "release_all (i # is) v = (case release i v of None \<Rightarrow> None | Some v \<Rightarrow> release_all is v)"

definition register :: "uuid \<Rightarrow> RecoveryViews \<Rightarrow> RecoveryViews" where
  "register i v = v\<lparr>rv_counts := hm_insert i (unwrap_or (hm_get (rv_counts v) i) 0 + 1) (rv_counts v)\<rparr>"

definition rv_replace :: "uuid \<Rightarrow> uuid list \<Rightarrow> RecoveryViews \<Rightarrow> RecoveryViews option" where
  "rv_replace owner dependencies v =
     (let previous = unwrap_or (hm_get (rv_owners v) owner) [] in
      if previous = dependencies then Some v
      else case release_all (filter (\<lambda>i. i \<notin> set dependencies) previous) v of None \<Rightarrow> None
      | Some v \<Rightarrow>
         let v = fold register (filter (\<lambda>i. i \<notin> set previous) dependencies) v;
             v = (if dependencies = [] then v\<lparr>rv_owners := hm_remove owner (rv_owners v)\<rparr>
                  else v\<lparr>rv_owners := hm_insert owner dependencies (rv_owners v)\<rparr>)
         in if rv_owners v = []
            then (if rv_counts v = [] \<and> rv_retained v = [] then Some rv_default else None)
            else Some v)"

definition rv_refresh :: "'v Json \<Rightarrow> InsightTree \<Rightarrow> RecoveryViews \<Rightarrow> RecoveryViews option" where
  "rv_refresh J row v =
     (let v = v\<lparr>rv_retained := hm_remove (insight_id row) (rv_retained v)\<rparr> in
      if is_active (tree_state row)
      then (case recovery_dependencies J (tree_data row) of Inl _ \<Rightarrow> None
            | Inr dependencies \<Rightarrow> rv_replace (insight_id row) dependencies v)
      else rv_replace (insight_id row) [] v)"

definition remove_owner :: "uuid \<Rightarrow> RecoveryViews \<Rightarrow> RecoveryViews option" where
  "remove_owner owner v = rv_replace owner [] v"

definition retain_if_counted :: "bool \<Rightarrow> InsightTree \<Rightarrow> RecoveryViews \<Rightarrow> RecoveryViews" where
  "retain_if_counted materialized row v = (if hm_get (rv_counts v) (insight_id row) = None then v
     else v\<lparr>rv_retained := hm_insert (insight_id row) (capture row materialized) (rv_retained v)\<rparr>)"

text \<open>The embedded descendants that were never materialized, in the order the loop takes them.\<close>

function dormant :: "uuid list \<Rightarrow> InsightTree list \<Rightarrow> InsightTree list" where
  "dormant materialized [] = []"
| "dormant materialized (child # pending) =
     (if insight_id child \<in> set materialized then dormant materialized pending
      else child # dormant materialized (rev (tree_children child) @ pending))"
  by pat_completeness auto
termination
  by (relation "measure (\<lambda>(_, stack). size_list size stack)")
    (use tree_size_children in \<open>auto simp: less_SucI\<close>)

definition before_prune :: "InsightTree \<Rightarrow> uuid list \<Rightarrow> RecoveryViews \<Rightarrow> RecoveryViews" where
  "before_prune row materialized v =
     (if \<not> is_inactive (tree_state row) then v
      else fold (retain_if_counted False) (dormant materialized (rev (tree_children row)))
             (retain_if_counted True row v))"

definition recovery_view :: "(uuid, InsightTree) hmap \<Rightarrow> RecoveryViews \<Rightarrow> uuid \<Rightarrow> Retained option" where
  "recovery_view insights v i = (case hm_get insights i of Some row \<Rightarrow> Some (capture row True)
     | None \<Rightarrow> hm_get (rv_retained v) i)"

section \<open>The counts are exact\<close>

definition dependents :: "RecoveryViews \<Rightarrow> uuid \<Rightarrow> uuid set" where
  "dependents v i = {owner. \<exists>ds. hm_get (rv_owners v) owner = Some ds \<and> i \<in> set ds}"

definition rv_ok :: "RecoveryViews \<Rightarrow> bool" where
  "rv_ok v \<longleftrightarrow> hm_ok (rv_owners v)
     \<and> (\<forall>owner ds. hm_get (rv_owners v) owner = Some ds \<longrightarrow> ds \<noteq> [] \<and> distinct ds)
     \<and> (\<forall>i. hm_get (rv_counts v) i = (if dependents v i = {} then None else Some (card (dependents v i))))
     \<and> (\<forall>i. hm_get (rv_retained v) i \<noteq> None \<longrightarrow> hm_get (rv_counts v) i \<noteq> None)"

lemma rv_ok_default [simp]: "rv_ok rv_default"
  by (simp add: rv_ok_def rv_default_def dependents_def hm_ok_def)

lemma finite_dependents: "finite (dependents v i)"
proof (rule finite_subset)
  show "dependents v i \<subseteq> set (hm_keys (rv_owners v))"
    by (auto simp: dependents_def simp flip: hm_get_keys)
qed simp

lemma hm_get_Nil_iff: "m = [] \<longleftrightarrow> (\<forall>k. hm_get m k = None)"
  by (cases m) (auto simp: hm_get_def split: if_splits)

text \<open>Releasing a list of distinct registered ids takes one off each of their counts.\<close>

lemma release_all_counts:
  assumes "distinct is" "\<forall>i\<in>set is. \<exists>n. hm_get (rv_counts v) i = Some (Suc n)"
  shows "\<exists>v'. release_all is v = Some v' \<and> rv_owners v' = rv_owners v
    \<and> (\<forall>i. hm_get (rv_counts v') i = (if i \<in> set is \<and> hm_get (rv_counts v) i = Some 1 then None
            else if i \<in> set is then map_option (\<lambda>n. n - 1) (hm_get (rv_counts v) i) else hm_get (rv_counts v) i))
    \<and> (\<forall>i. hm_get (rv_retained v') i = (if i \<in> set is \<and> hm_get (rv_counts v) i = Some 1 then None
            else hm_get (rv_retained v) i))"
  using assms
proof (induction "is" arbitrary: v)
  case (Cons i "is")
  obtain n where n: "hm_get (rv_counts v) i = Some (Suc n)" using Cons.prems(2) by auto
  define w where "w = (if n = 0
    then v\<lparr>rv_counts := hm_remove i (rv_counts v), rv_retained := hm_remove i (rv_retained v)\<rparr>
    else v\<lparr>rv_counts := hm_insert i n (rv_counts v)\<rparr>)"
  have w: "release i v = Some w" by (simp add: release_def n w_def)
  have "\<forall>j\<in>set is. \<exists>n. hm_get (rv_counts w) j = Some (Suc n)"
    using Cons.prems by (auto simp: w_def)
  with Cons.IH [of w] Cons.prems(1) obtain v' where v': "release_all is w = Some v'"
    "rv_owners v' = rv_owners w"
    "\<forall>j. hm_get (rv_counts v') j = (if j \<in> set is \<and> hm_get (rv_counts w) j = Some 1 then None
            else if j \<in> set is then map_option (\<lambda>n. n - 1) (hm_get (rv_counts w) j) else hm_get (rv_counts w) j)"
    "\<forall>j. hm_get (rv_retained v') j = (if j \<in> set is \<and> hm_get (rv_counts w) j = Some 1 then None
            else hm_get (rv_retained w) j)"
    by auto
  have "i \<notin> set is" using Cons.prems(1) by simp
  then show ?case
    using v' n by (auto simp: w w_def)
qed simp

lemma register_all_counts:
  assumes "distinct is"
  shows "rv_owners (fold register is v) = rv_owners v" "rv_retained (fold register is v) = rv_retained v"
    "hm_get (rv_counts (fold register is v)) i =
       (if i \<in> set is then Some (unwrap_or (hm_get (rv_counts v) i) 0 + 1) else hm_get (rv_counts v) i)"
  using assms by (induction "is" arbitrary: v) (auto simp: register_def)

text \<open>The owners after a replacement, and who depends on what.\<close>

definition set_deps :: "uuid \<Rightarrow> uuid list \<Rightarrow> RecoveryViews \<Rightarrow> RecoveryViews" where
  "set_deps owner ds v = (if ds = [] then v\<lparr>rv_owners := hm_remove owner (rv_owners v)\<rparr>
     else v\<lparr>rv_owners := hm_insert owner ds (rv_owners v)\<rparr>)"

lemma set_deps_get:
  "hm_get (rv_owners (set_deps owner ds v)) i =
     (if i = owner then (if ds = [] then None else Some ds) else hm_get (rv_owners v) i)"
  "rv_counts (set_deps owner ds v) = rv_counts v" "rv_retained (set_deps owner ds v) = rv_retained v"
  by (simp_all add: set_deps_def)

lemma dependents_set_deps:
  "dependents (set_deps owner ds v) i = dependents v i - {owner} \<union> (if i \<in> set ds then {owner} else {})"
  by (auto simp: dependents_def set_deps_get split: if_splits)

lemma owner_dependent_iff: "owner \<in> dependents v i \<longleftrightarrow> i \<in> set (unwrap_or (hm_get (rv_owners v) owner) [])"
  by (cases "hm_get (rv_owners v) owner") (auto simp: dependents_def)

text \<open>Taking the references of an owner away and giving it new ones keeps every count exact.\<close>

lemma counts_after_replace:
  fixes v owner ds
  defines "prev \<equiv> unwrap_or (hm_get (rv_owners v) owner) []"
  assumes ok: "rv_ok v" and ds: "distinct ds"
  obtains w where "release_all (filter (\<lambda>i. i \<notin> set ds) prev) v = Some w" "rv_owners w = rv_owners v"
    "\<And>i. hm_get (rv_counts (fold register (filter (\<lambda>i. i \<notin> set prev) ds) w)) i =
       (let D = dependents (set_deps owner ds v) i in if D = {} then None else Some (card D))"
    "\<And>i. hm_get (rv_retained w) i \<noteq> None \<Longrightarrow> dependents (set_deps owner ds v) i \<noteq> {}"
proof -
  have counts: "hm_get (rv_counts v) i = (if dependents v i = {} then None else Some (card (dependents v i)))" for i
    using ok by (simp add: rv_ok_def)
  have prev: "owner \<in> dependents v i \<longleftrightarrow> i \<in> set prev" for i by (simp add: prev_def owner_dependent_iff)
  have "distinct prev" using ok by (cases "hm_get (rv_owners v) owner") (auto simp: prev_def rv_ok_def)
  then have d: "distinct (filter (\<lambda>i. i \<notin> set ds) prev)" "distinct (filter (\<lambda>i. i \<notin> set prev) ds)"
    using ds by auto
  let ?gone = "filter (\<lambda>i. i \<notin> set ds) prev"
  have "\<exists>n. hm_get (rv_counts v) i = Some (Suc n)" if "i \<in> set ?gone" for i
  proof -
    have "owner \<in> dependents v i" using that prev by simp
    then have "0 < card (dependents v i)" using finite_dependents [of v i] by (auto simp: card_gt_0_iff)
    then show ?thesis
      using counts [of i] gr0_implies_Suc by fastforce
  qed
  then have "\<forall>i\<in>set ?gone. \<exists>n. hm_get (rv_counts v) i = Some (Suc n)" by blast
  from release_all_counts [OF d(1) this] obtain w where W: "release_all ?gone v = Some w \<and> rv_owners w = rv_owners v
    \<and> (\<forall>i. hm_get (rv_counts w) i = (if i \<in> set ?gone \<and> hm_get (rv_counts v) i = Some 1 then None
            else if i \<in> set ?gone then map_option (\<lambda>n. n - 1) (hm_get (rv_counts v) i)
            else hm_get (rv_counts v) i))
    \<and> (\<forall>i. hm_get (rv_retained w) i = (if i \<in> set ?gone \<and> hm_get (rv_counts v) i = Some 1 then None
            else hm_get (rv_retained v) i))" ..
  note w = W [THEN conjunct1] W [THEN conjunct2, THEN conjunct1]
  note wc = W [THEN conjunct2, THEN conjunct2, THEN conjunct1, rule_format]
    and wr = W [THEN conjunct2, THEN conjunct2, THEN conjunct2, rule_format]
  have after: "dependents (set_deps owner ds v) i = (if i \<in> set ds then insert owner (dependents v i)
      else dependents v i - {owner})" for i
    by (auto simp: dependents_set_deps)
  have single: "dependents v i - {owner} = {} \<longleftrightarrow> card (dependents v i) = 1" if "i \<in> set prev" for i
  proof -
    have "owner \<in> dependents v i" using that prev by simp
    then show ?thesis using finite_dependents [of v i] card_Suc_Diff1 [of "dependents v i" owner]
      by (metis One_nat_def Suc_inject card_eq_0_iff finite_Diff)
  qed
  show thesis
  proof (rule that [OF w])
    fix i
    show "hm_get (rv_counts (fold register (filter (\<lambda>i. i \<notin> set prev) ds) w)) i =
       (let D = dependents (set_deps owner ds v) i in if D = {} then None else Some (card D))"
    proof (cases "i \<in> set prev")
      case True
      then have "owner \<in> dependents v i" using prev by simp
      then show ?thesis
        using True single [OF True] finite_dependents [of v i]
        by (auto simp: register_all_counts(3) [OF d(2)] wc after counts Let_def insert_absorb)
    next
      case False
      then have "owner \<notin> dependents v i" using prev by simp
      then show ?thesis
        using False finite_dependents [of v i]
        by (auto simp: register_all_counts(3) [OF d(2)] wc after counts Let_def)
    qed
  next
    fix i assume r: "hm_get (rv_retained w) i \<noteq> None"
    then have "hm_get (rv_retained v) i \<noteq> None" by (auto simp: wr split: if_splits)
    then have "dependents v i \<noteq> {}" using ok counts [of i] by (auto simp: rv_ok_def)
    then show "dependents (set_deps owner ds v) i \<noteq> {}"
      using r single [of i] prev [of i] by (auto simp: wr after counts split: if_splits)
  qed
qed

lemma release_all_retained:
  "release_all is v = Some w \<Longrightarrow> hm_get (rv_retained w) i \<noteq> None \<Longrightarrow> hm_get (rv_retained v) i \<noteq> None"
proof (induction "is" arbitrary: v)
  case (Cons j "is")
  then obtain u where u: "release j v = Some u" "release_all is u = Some w" by (auto split: option.splits)
  then have "hm_get (rv_retained u) i \<noteq> None" using Cons by blast
  then show ?case using u(1) by (auto simp: release_def split: option.splits if_splits)
qed simp

lemma rv_replace_ok:
  assumes ok: "rv_ok v" and ds: "distinct ds"
  shows "\<exists>v'. rv_replace owner ds v = Some v' \<and> rv_ok v'
    \<and> (\<forall>i. hm_get (rv_owners v') i = (if i = owner then (if ds = [] then None else Some ds) else hm_get (rv_owners v) i))
    \<and> (\<forall>i. hm_get (rv_retained v') i \<noteq> None \<longrightarrow> hm_get (rv_retained v) i \<noteq> None)"
proof (cases "unwrap_or (hm_get (rv_owners v) owner) [] = ds")
  case True
  then have "rv_replace owner ds v = Some v" by (simp add: rv_replace_def)
  moreover have "hm_get (rv_owners v) owner = (if ds = [] then None else Some ds)"
    using True ok by (cases "hm_get (rv_owners v) owner") (auto simp: rv_ok_def)
  ultimately show ?thesis using ok by auto
next
  case False
  let ?prev = "unwrap_or (hm_get (rv_owners v) owner) []"
  obtain w where w: "release_all (filter (\<lambda>i. i \<notin> set ds) ?prev) v = Some w" "rv_owners w = rv_owners v"
    and counts: "\<And>i. hm_get (rv_counts (fold register (filter (\<lambda>i. i \<notin> set ?prev) ds) w)) i =
       (let D = dependents (set_deps owner ds v) i in if D = {} then None else Some (card D))"
    and retained: "\<And>i. hm_get (rv_retained w) i \<noteq> None \<Longrightarrow> dependents (set_deps owner ds v) i \<noteq> {}"
    using counts_after_replace [OF ok ds, of owner] by metis
  have kept: "hm_get (rv_retained v) i \<noteq> None" if "hm_get (rv_retained w) i \<noteq> None" for i
    using that release_all_retained [OF w(1)] by blast
  define x where "x = set_deps owner ds (fold register (filter (\<lambda>i. i \<notin> set ?prev) ds) w)"
  have d: "distinct (filter (\<lambda>i. i \<notin> set ?prev) ds)" using ds by simp
  have xo: "rv_owners x = rv_owners (set_deps owner ds v)"
    by (simp add: x_def set_deps_def register_all_counts(1) [OF d] w(2))
  have xr: "rv_retained x = rv_retained w"
    by (simp add: x_def set_deps_get register_all_counts(2) [OF d])
  have dep: "dependents x i = dependents (set_deps owner ds v) i" for i
    by (simp add: dependents_def xo)
  have xc: "hm_get (rv_counts x) i = (if dependents x i = {} then None else Some (card (dependents x i)))" for i
    by (simp add: x_def set_deps_get counts dep [unfolded x_def] Let_def)
  have okx: "rv_ok x"
  proof -
    have "hm_ok (rv_owners x)" using ok by (auto simp: xo set_deps_def rv_ok_def)
    moreover have "ds' \<noteq> [] \<and> distinct ds'" if "hm_get (rv_owners x) i = Some ds'" for i ds'
      using that ok ds by (auto simp: xo set_deps_get rv_ok_def split: if_splits)
    moreover have "hm_get (rv_counts x) i \<noteq> None" if "hm_get (rv_retained x) i \<noteq> None" for i
      using that retained [of i] by (simp add: xr xc dep)
    ultimately show ?thesis unfolding rv_ok_def using xc by blast
  qed
  have step: "rv_replace owner ds v = (if rv_owners x = []
      then (if rv_counts x = [] \<and> rv_retained x = [] then Some rv_default else None) else Some x)"
    unfolding rv_replace_def Let_def w(1) option.case if_not_P [OF False]
    by (simp add: x_def set_deps_def)
  show ?thesis
  proof (cases "rv_owners x = []")
    case True
    then have "dependents x i = {}" for i by (simp add: dependents_def)
    then have "rv_counts x = []" "rv_retained x = []"
      using okx by (auto simp: rv_ok_def hm_get_Nil_iff)
    then show ?thesis
      using True step xo set_deps_get(1) [of owner ds v] by (auto simp: rv_default_def hm_ok_def rv_ok_def dependents_def)
  next
    case False
    then show ?thesis using step okx kept by (simp add: xo set_deps_get xr)
  qed
qed

lemma rv_refresh_ok:
  assumes ok: "rv_ok v" and deps: "recovery_dependencies J (tree_data row) = Inr ds"
  shows "\<exists>v'. rv_refresh J row v = Some v' \<and> rv_ok v'
    \<and> (\<forall>i. hm_get (rv_owners v') i = (if i = insight_id row
          then (if is_active (tree_state row) \<and> ds \<noteq> [] then Some ds else None) else hm_get (rv_owners v) i))
    \<and> (\<forall>i. hm_get (rv_retained v') i \<noteq> None \<longrightarrow> i \<noteq> insight_id row \<and> hm_get (rv_retained v) i \<noteq> None)"
proof -
  let ?v = "v\<lparr>rv_retained := hm_remove (insight_id row) (rv_retained v)\<rparr>"
  let ?ds = "if is_active (tree_state row) then ds else []"
  have "dependents ?v = dependents v" by (simp add: dependents_def fun_eq_iff)
  then have ok': "rv_ok ?v" using ok by (auto simp: rv_ok_def)
  have "distinct ?ds" using recovery_dependencies_bound(1) [OF deps] by (simp add: bt_ok_def)
  from rv_replace_ok [OF ok' this, of "insight_id row"]
  obtain v' where v': "rv_replace (insight_id row) ?ds ?v = Some v'" "rv_ok v'"
    "\<forall>i. hm_get (rv_owners v') i = (if i = insight_id row then (if ?ds = [] then None else Some ?ds) else hm_get (rv_owners ?v) i)"
    "\<forall>i. hm_get (rv_retained v') i \<noteq> None \<longrightarrow> hm_get (rv_retained ?v) i \<noteq> None"
    by blast
  have "rv_refresh J row v = Some v'" using v'(1) by (simp add: rv_refresh_def deps Let_def split: if_splits)
  moreover have "\<forall>i. hm_get (rv_retained v') i \<noteq> None \<longrightarrow> i \<noteq> insight_id row \<and> hm_get (rv_retained v) i \<noteq> None"
    using v'(4) by (metis (no_types, lifting) RecoveryViews.select_convs(3) RecoveryViews.surjective
        RecoveryViews.update_convs(3) hm.get_rem)
  ultimately show ?thesis using v'(2,3) by auto
qed

lemma retain_if_counted_frame [simp]:
  "rv_owners (retain_if_counted m row v) = rv_owners v" "rv_counts (retain_if_counted m row v) = rv_counts v"
  by (simp_all add: retain_if_counted_def)

lemma rv_ok_retained:
  assumes "rv_ok v" "rv_owners w = rv_owners v" "rv_counts w = rv_counts v"
    and "\<And>i. hm_get (rv_retained w) i \<noteq> None \<Longrightarrow> hm_get (rv_counts v) i \<noteq> None"
  shows "rv_ok w"
proof -
  have "dependents w = dependents v" by (simp add: dependents_def assms(2) fun_eq_iff)
  then show ?thesis using assms unfolding rv_ok_def by metis
qed

lemma retain_if_counted_ok: "rv_ok v \<Longrightarrow> rv_ok (retain_if_counted m row v)"
proof (rule rv_ok_retained)
  fix i assume "rv_ok v" "hm_get (rv_retained (retain_if_counted m row v)) i \<noteq> None"
  then show "hm_get (rv_counts v) i \<noteq> None"
    by (cases "i = insight_id row") (auto simp: retain_if_counted_def rv_ok_def split: if_splits)
qed simp_all

lemma fold_retain_ok:
  assumes "rv_ok v"
  shows "rv_ok (fold (retain_if_counted m) rows v) \<and> rv_owners (fold (retain_if_counted m) rows v) = rv_owners v
    \<and> rv_counts (fold (retain_if_counted m) rows v) = rv_counts v"
  using assms
proof (induction rows arbitrary: v)
  case (Cons r rows)
  show ?case using Cons.IH [OF retain_if_counted_ok [OF Cons.prems]] by simp
qed simp

lemma before_prune_ok:
  assumes "rv_ok v"
  shows "rv_ok (before_prune row mat v)" "rv_owners (before_prune row mat v) = rv_owners v"
    "rv_counts (before_prune row mat v) = rv_counts v"
  using assms fold_retain_ok [OF retain_if_counted_ok [OF assms]]
  by (simp_all add: before_prune_def)

text \<open>The retained views are at most the dependencies that active owners name.\<close>

lemma counts_bounded:
  assumes ok: "rv_ok v" and len: "\<And>owner ds. hm_get (rv_owners v) owner = Some ds \<Longrightarrow> length ds \<le> k"
    and fin: "finite A" and owners: "{owner. hm_get (rv_owners v) owner \<noteq> None} \<subseteq> A"
  shows "card {i. hm_get (rv_counts v) i \<noteq> None} \<le> k * card A"
proof -
  let ?deps = "\<lambda>owner. set (unwrap_or (hm_get (rv_owners v) owner) [])"
  have "{i. hm_get (rv_counts v) i \<noteq> None} \<subseteq> (\<Union>owner\<in>A. ?deps owner)"
  proof
    fix i assume "i \<in> {i. hm_get (rv_counts v) i \<noteq> None}"
    then have "dependents v i \<noteq> {}" using ok by (auto simp: rv_ok_def)
    then obtain owner ds where "hm_get (rv_owners v) owner = Some ds" "i \<in> set ds" by (auto simp: dependents_def)
    then show "i \<in> (\<Union>owner\<in>A. ?deps owner)" using owners by force
  qed
  then have "card {i. hm_get (rv_counts v) i \<noteq> None} \<le> card (\<Union>owner\<in>A. ?deps owner)"
    using fin by (intro card_mono) auto
  also have "\<dots> \<le> (\<Sum>owner\<in>A. card (?deps owner))" using fin by (rule card_UN_le)
  also have "\<dots> \<le> (\<Sum>owner\<in>A. k)"
  proof (rule sum_mono)
    fix owner
    show "card (?deps owner) \<le> k"
      using len [of owner] card_length [of "unwrap_or (hm_get (rv_owners v) owner) []"]
      by (cases "hm_get (rv_owners v) owner") (auto intro: order_trans)
  qed
  finally show ?thesis by (simp add: mult.commute)
qed

end
