(* ===== verification/InsightCollection.thy ===== *)
theory InsightCollection
  imports RecoveryViews
begin

text \<open>
  The collection of a strategy's insights (\<open>src/core/insight/mod.rs\<close>): the rows by id, and the
  indexes kept beside them (active ids, active ids by symbol, terminal rows waiting to be pruned, counts by
  state, order ids, dirty ids).  An operation that may reach a panic of the recovery views returns
  an option.
\<close>

record InsightCollection =
  ic_insights :: "(uuid, InsightTree) hmap"
  ic_dirty :: "uuid list"
  ic_active :: "uuid list"
  ic_ordered_active :: "uuid list"
  ic_active_by_symbol :: "(string, uuid list) hmap"
  ic_active_symbol_by_id :: "(uuid, string) hmap"
  ic_terminal_pending_prune :: "uuid list"
  ic_state_counts :: "(InsightState, nat) hmap"
  ic_last_known_state :: "(uuid, InsightState) hmap"
  ic_order_to_insight :: "(string, uuid) hmap"
  ic_insight_to_orders :: "(uuid, string list) hmap"
  ic_order_index_enabled :: bool
  ic_materialized :: "uuid list"
  ic_persistence_enabled :: bool
  ic_execution_dirty :: "uuid list"
  ic_execution_pins :: "uuid list"
  ic_recovery_views :: RecoveryViews

definition collection_new :: InsightCollection where
  "collection_new = \<lparr>ic_insights = [], ic_dirty = [], ic_active = [], ic_ordered_active = [],
     ic_active_by_symbol = [], ic_active_symbol_by_id = [], ic_terminal_pending_prune = [],
     ic_state_counts = [], ic_last_known_state = [], ic_order_to_insight = [], ic_insight_to_orders = [],
     ic_order_index_enabled = True, ic_materialized = [], ic_persistence_enabled = False,
     ic_execution_dirty = [], ic_execution_pins = [], ic_recovery_views = rv_default\<rparr>"

definition set_order_id_index_enabled :: "bool \<Rightarrow> InsightCollection \<Rightarrow> InsightCollection" where
  "set_order_id_index_enabled enabled c =
     (let c = c\<lparr>ic_order_index_enabled := enabled\<rparr>
      in if enabled then c else c\<lparr>ic_order_to_insight := [], ic_insight_to_orders := []\<rparr>)"

section \<open>Index maintenance\<close>

definition leg_id :: "OrderLeg option \<Rightarrow> string option" where
  "leg_id leg = (case leg of None \<Rightarrow> None | Some l \<Rightarrow> leg_order_id l)"

text \<open>\<open>into_iter().flatten()\<close> on options.\<close>

definition somes :: "'a option list \<Rightarrow> 'a list" where
  "somes xs = concat (map (\<lambda>x. case x of None \<Rightarrow> [] | Some y \<Rightarrow> [y]) xs)"

definition leg_ids :: "OrderLegs \<Rightarrow> string list" where
  "leg_ids legs = somes [leg_id (legs_take_profit legs), leg_id (legs_stop_loss legs), leg_id (legs_trailing_stop legs)]"

definition collect_order_ids :: "InsightTree \<Rightarrow> string list" where
  "collect_order_ids t = (let i = tree_row t
     in somes [ins_order_id i, ins_close_order_id i] @ leg_ids (ins_legs i))"

definition decrement_state_count :: "InsightState \<Rightarrow> InsightCollection \<Rightarrow> InsightCollection" where
  "decrement_state_count s c = (case hm_get (ic_state_counts c) s of None \<Rightarrow> c
     | Some n \<Rightarrow> if n - 1 = 0 then c\<lparr>ic_state_counts := hm_remove s (ic_state_counts c)\<rparr>
        else c\<lparr>ic_state_counts := hm_insert s (n - 1) (ic_state_counts c)\<rparr>)"

definition increment_state_count :: "InsightState \<Rightarrow> InsightCollection \<Rightarrow> InsightCollection" where
  "increment_state_count s c =
     c\<lparr>ic_state_counts := hm_insert s (unwrap_or (hm_get (ic_state_counts c) s) 0 + 1) (ic_state_counts c)\<rparr>"

definition update_state_tracking :: "uuid \<Rightarrow> InsightState \<Rightarrow> InsightCollection \<Rightarrow> InsightCollection" where
  "update_state_tracking i current c =
     (let previous = hm_get (ic_last_known_state c) i;
          c = c\<lparr>ic_last_known_state := hm_insert i current (ic_last_known_state c)\<rparr>
      in case previous of
           Some p \<Rightarrow> if p \<noteq> current then increment_state_count current (decrement_state_count p c) else c
         | None \<Rightarrow> increment_state_count current c)"

definition remove_orders :: "string list \<Rightarrow> (string, uuid) hmap \<Rightarrow> (string, uuid) hmap" where
  "remove_orders os m = fold hm_remove os m"

definition insert_orders :: "uuid \<Rightarrow> string list \<Rightarrow> (string, uuid) hmap \<Rightarrow> (string, uuid) hmap" where
  "insert_orders i os m = fold (\<lambda>oid. hm_insert oid i) os m"

definition index_order_ids_for_insight :: "uuid \<Rightarrow> string list \<Rightarrow> InsightCollection \<Rightarrow> InsightCollection" where
  "index_order_ids_for_insight i order_ids c =
     (if \<not> ic_order_index_enabled c then c
      else case hm_get (ic_insight_to_orders c) i of
        Some old \<Rightarrow>
          if old = order_ids then c
          else c\<lparr>ic_order_to_insight := insert_orders i order_ids (remove_orders old (ic_order_to_insight c)),
                 ic_insight_to_orders := (if order_ids = [] then hm_remove i (ic_insight_to_orders c)
                                          else hm_insert i order_ids (ic_insight_to_orders c))\<rparr>
      | None \<Rightarrow>
          if order_ids = [] then c
          else c\<lparr>ic_order_to_insight := insert_orders i order_ids (ic_order_to_insight c),
                 ic_insight_to_orders := hm_insert i order_ids (ic_insight_to_orders c)\<rparr>)"

definition remove_symbol_tracking :: "uuid \<Rightarrow> InsightCollection \<Rightarrow> InsightCollection" where
  "remove_symbol_tracking i c = (case hm_get (ic_active_symbol_by_id c) i of None \<Rightarrow> c
     | Some symbol \<Rightarrow>
        let c = c\<lparr>ic_active_symbol_by_id := hm_remove i (ic_active_symbol_by_id c)\<rparr>
        in case hm_get (ic_active_by_symbol c) symbol of None \<Rightarrow> c
           | Some ids \<Rightarrow> let ids = bt_remove i ids
               in if ids = [] then c\<lparr>ic_active_by_symbol := hm_remove symbol (ic_active_by_symbol c)\<rparr>
                  else c\<lparr>ic_active_by_symbol := hm_insert symbol ids (ic_active_by_symbol c)\<rparr>)"

definition active_symbol :: "InsightCollection \<Rightarrow> uuid \<Rightarrow> string option" where
  "active_symbol c i = (case hm_get (ic_insights c) i of None \<Rightarrow> None
     | Some row \<Rightarrow> if is_inactive (tree_state row) then None else Some (ins_symbol (tree_row row)))"

definition refresh_symbol_tracking :: "uuid \<Rightarrow> InsightCollection \<Rightarrow> InsightCollection" where
  "refresh_symbol_tracking i c =
     (let symbol = active_symbol c i in
      if symbol = hm_get (ic_active_symbol_by_id c) i then c
      else let c = remove_symbol_tracking i c in
        case symbol of None \<Rightarrow> c
        | Some s \<Rightarrow>
            c\<lparr>ic_active_by_symbol := hm_insert s (bt_insert i (unwrap_or (hm_get (ic_active_by_symbol c) s) []))
                                       (ic_active_by_symbol c),
              ic_active_symbol_by_id := hm_insert i s (ic_active_symbol_by_id c)\<rparr>)"

text \<open>The parts of \<open>remove_tracking\<close>: the sets of ids, the last known state with its count, the order ids.\<close>

definition forget_id :: "uuid \<Rightarrow> InsightCollection \<Rightarrow> InsightCollection" where
  "forget_id i c = c\<lparr>ic_dirty := bt_remove i (ic_dirty c), ic_active := hs_remove i (ic_active c),
     ic_ordered_active := bt_remove i (ic_ordered_active c),
     ic_terminal_pending_prune := bt_remove i (ic_terminal_pending_prune c)\<rparr>"

definition forget_state :: "uuid \<Rightarrow> InsightCollection \<Rightarrow> InsightCollection" where
  "forget_state i c = (case hm_get (ic_last_known_state c) i of None \<Rightarrow> c
     | Some previous \<Rightarrow> decrement_state_count previous
         (c\<lparr>ic_last_known_state := hm_remove i (ic_last_known_state c)\<rparr>))"

definition forget_orders :: "uuid \<Rightarrow> InsightCollection \<Rightarrow> InsightCollection" where
  "forget_orders i c = (case hm_get (ic_insight_to_orders c) i of None \<Rightarrow> c
     | Some order_ids \<Rightarrow> c\<lparr>ic_insight_to_orders := hm_remove i (ic_insight_to_orders c),
         ic_order_to_insight := remove_orders order_ids (ic_order_to_insight c)\<rparr>)"

definition remove_tracking :: "uuid \<Rightarrow> InsightCollection \<Rightarrow> InsightCollection option" where
  "remove_tracking i c = (case remove_owner i (ic_recovery_views c) of None \<Rightarrow> None
     | Some v \<Rightarrow> Some (forget_orders i (forget_state i (forget_id i
         (remove_symbol_tracking i (c\<lparr>ic_recovery_views := v\<rparr>))))))"

definition track_activity :: "uuid \<Rightarrow> InsightState \<Rightarrow> InsightCollection \<Rightarrow> InsightCollection" where
  "track_activity i current c =
     (if is_inactive current
      then c\<lparr>ic_terminal_pending_prune := bt_insert i (ic_terminal_pending_prune c),
             ic_active := hs_remove i (ic_active c),
             ic_ordered_active := bt_remove i (ic_ordered_active c)\<rparr>
      else c\<lparr>ic_terminal_pending_prune := bt_remove i (ic_terminal_pending_prune c),
             ic_active := hs_insert i (ic_active c),
             ic_ordered_active := bt_insert i (ic_ordered_active c)\<rparr>)"

definition refresh_runtime_tracking :: "'v Json \<Rightarrow> uuid \<Rightarrow> InsightCollection \<Rightarrow> InsightCollection option" where
  "refresh_runtime_tracking J i c =
     (case hm_get (ic_insights c) i of
        None \<Rightarrow> remove_tracking i (refresh_symbol_tracking i c)
      | Some row \<Rightarrow>
          (case rv_refresh J row (ic_recovery_views c) of None \<Rightarrow> None
           | Some v \<Rightarrow>
              let c = refresh_symbol_tracking i (c\<lparr>ic_recovery_views := v\<rparr>);
                  order_ids = (if ic_order_index_enabled c then collect_order_ids row else []);
                  c = index_order_ids_for_insight i order_ids (update_state_tracking i (tree_state row) c);
                  c = c\<lparr>ic_dirty := bt_insert i (ic_dirty c)\<rparr>;
                  c = (if ic_persistence_enabled c then c\<lparr>ic_execution_dirty := bt_insert i (ic_execution_dirty c)\<rparr> else c)
              in Some (track_activity i (tree_state row) c)))"

section \<open>Operations\<close>

definition add_insight :: "'v Json \<Rightarrow> InsightTree \<Rightarrow> InsightCollection \<Rightarrow> InsightCollection option" where
  "add_insight J t c = refresh_runtime_tracking J (insight_id t)
     (c\<lparr>ic_materialized := hs_insert (insight_id t) (ic_materialized c),
        ic_insights := hm_insert (insight_id t) t (ic_insights c)\<rparr>)"

definition was_materialized :: "InsightCollection \<Rightarrow> uuid \<Rightarrow> bool" where
  "was_materialized c i \<longleftrightarrow> i \<in> set (ic_materialized c)"

definition take_for_update :: "uuid \<Rightarrow> InsightCollection \<Rightarrow> InsightTree option \<times> InsightCollection" where
  "take_for_update i c = (hm_get (ic_insights c) i, c\<lparr>ic_insights := hm_remove i (ic_insights c)\<rparr>)"

definition restore_after_update :: "'v Json \<Rightarrow> InsightTree \<Rightarrow> bool \<Rightarrow> InsightCollection \<Rightarrow> InsightCollection option" where
  "restore_after_update J t changed c =
     (let c = c\<lparr>ic_insights := hm_insert (insight_id t) t (ic_insights c)\<rparr>
      in if changed then refresh_runtime_tracking J (insight_id t) c else Some c)"

definition insight_id_for_order :: "InsightCollection \<Rightarrow> string \<Rightarrow> uuid option" where
  "insight_id_for_order c order_id = hm_get (ic_order_to_insight c) order_id"

definition remove_dirty :: "uuid \<Rightarrow> InsightCollection \<Rightarrow> InsightCollection" where
  "remove_dirty i c = c\<lparr>ic_dirty := bt_remove i (ic_dirty c)\<rparr>"

definition take_dirty_insight_ids :: "InsightCollection \<Rightarrow> uuid list \<times> InsightCollection" where
  "take_dirty_insight_ids c = (ic_dirty c, c\<lparr>ic_dirty := []\<rparr>)"

definition has_dirty_insights :: "InsightCollection \<Rightarrow> bool" where
  "has_dirty_insights c \<longleftrightarrow> ic_dirty c \<noteq> []"

definition held :: "InsightCollection \<Rightarrow> uuid \<Rightarrow> bool" where
  "held c i \<longleftrightarrow> ic_persistence_enabled c \<and> (i \<in> set (ic_execution_dirty c) \<or> i \<in> set (ic_execution_pins c))"

definition prune_terminal_insight :: "uuid \<Rightarrow> InsightCollection \<Rightarrow> InsightCollection option" where
  "prune_terminal_insight i c =
     (if held c i then Some c
      else let removed = hm_get (ic_insights c) i;
               c = c\<lparr>ic_insights := hm_remove i (ic_insights c)\<rparr>;
               c = (case removed of None \<Rightarrow> c
                    | Some row \<Rightarrow> c\<lparr>ic_recovery_views := before_prune row (ic_materialized c) (ic_recovery_views c)\<rparr>)
           in remove_tracking i c)"

fun prune_all :: "uuid list \<Rightarrow> InsightCollection \<Rightarrow> InsightCollection option" where
  "prune_all [] c = Some c"
| "prune_all (i # is) c = (case prune_terminal_insight i c of None \<Rightarrow> None | Some c \<Rightarrow> prune_all is c)"

definition prune_terminal_insights_without_aqs :: "InsightCollection \<Rightarrow> (uuid list \<times> InsightCollection) option" where
  "prune_terminal_insights_without_aqs c =
     (let prune_ids = ic_terminal_pending_prune c;
          prune_ids = (if ic_persistence_enabled c
             then filter (\<lambda>i. i \<notin> set (ic_execution_dirty c) \<and> i \<notin> set (ic_execution_pins c)) prune_ids
             else prune_ids);
          prune_ids = sort prune_ids
      in map_option (Pair prune_ids) (prune_all prune_ids c))"

definition prune_inactive_insights :: "InsightCollection \<Rightarrow> InsightCollection option" where
  "prune_inactive_insights c =
     prune_all (map fst (filter (\<lambda>(_, row). is_inactive (tree_state row)) (ic_insights c))) c"

definition remove_insight :: "uuid \<Rightarrow> InsightCollection \<Rightarrow> (InsightTree option \<times> InsightCollection) option" where
  "remove_insight i c =
     (let removed = hm_get (ic_insights c) i; c = c\<lparr>ic_insights := hm_remove i (ic_insights c)\<rparr>
      in case removed of None \<Rightarrow> Some (None, c)
         | Some row \<Rightarrow> map_option (Pair removed) (remove_tracking i
             (c\<lparr>ic_recovery_views := before_prune row (ic_materialized c) (ic_recovery_views c)\<rparr>)))"

text \<open>\<open>get_mut\<close> with the change \<open>f\<close> its borrower makes, and \<open>get_insight_mut\<close>, which does not mark the row.\<close>

definition get_mut :: "uuid \<Rightarrow> (InsightTree \<Rightarrow> InsightTree) \<Rightarrow> InsightCollection \<Rightarrow> InsightCollection" where
  "get_mut i f c =
     (let c = (if ic_persistence_enabled c \<and> hm_get (ic_insights c) i \<noteq> None
               then c\<lparr>ic_execution_dirty := bt_insert i (ic_execution_dirty c)\<rparr> else c)
      in c\<lparr>ic_insights := hm_modify i f (ic_insights c)\<rparr>)"

definition get_insight_mut :: "uuid \<Rightarrow> (InsightTree \<Rightarrow> InsightTree) \<Rightarrow> InsightCollection \<Rightarrow> InsightCollection" where
  "get_insight_mut i f c = c\<lparr>ic_insights := hm_modify i f (ic_insights c)\<rparr>"

definition collection_ids :: "InsightCollection \<Rightarrow> uuid list" where
  "collection_ids c = sort (hm_keys (ic_insights c))"

definition enable_execution_persistence :: "InsightCollection \<Rightarrow> InsightCollection" where
  "enable_execution_persistence c =
     c\<lparr>ic_persistence_enabled := True,
       ic_execution_dirty := fold bt_insert (hm_keys (ic_insights c)) (ic_execution_dirty c)\<rparr>"

definition execution_dirty_ids :: "InsightCollection \<Rightarrow> nat \<Rightarrow> uuid list" where
  "execution_dirty_ids c limit = take limit (ic_execution_dirty c)"

definition execution_pin :: "uuid \<Rightarrow> InsightCollection \<Rightarrow> InsightCollection" where
  "execution_pin i c = c\<lparr>ic_execution_pins := hs_insert i (ic_execution_pins c)\<rparr>"

definition execution_unpin :: "uuid \<Rightarrow> InsightCollection \<Rightarrow> InsightCollection" where
  "execution_unpin i c = c\<lparr>ic_execution_pins := hs_remove i (ic_execution_pins c)\<rparr>"

definition execution_saved :: "uuid \<Rightarrow> InsightCollection \<Rightarrow> InsightCollection" where
  "execution_saved i c = c\<lparr>ic_execution_dirty := bt_remove i (ic_execution_dirty c)\<rparr>"

definition has_execution_dirty :: "InsightCollection \<Rightarrow> bool" where
  "has_execution_dirty c \<longleftrightarrow> ic_execution_dirty c \<noteq> []"

definition mark_execution_dirty :: "uuid \<Rightarrow> InsightCollection \<Rightarrow> InsightCollection" where
  "mark_execution_dirty i c =
     (if ic_persistence_enabled c then c\<lparr>ic_execution_dirty := bt_insert i (ic_execution_dirty c)\<rparr> else c)"

definition iter_active_insights :: "InsightCollection \<Rightarrow> InsightTree list" where
  "iter_active_insights c = somes (map (hm_get (ic_insights c)) (ic_active c))"

definition get_inactive_insights :: "InsightCollection \<Rightarrow> InsightTree list" where
  "get_inactive_insights c = filter (\<lambda>t. is_inactive (tree_state t)) (map snd (ic_insights c))"

definition get_insights_by_symbol :: "InsightCollection \<Rightarrow> string \<Rightarrow> InsightTree list" where
  "get_insights_by_symbol c symbol = filter (\<lambda>t. ins_symbol (tree_row t) = symbol) (map snd (ic_insights c))"

section \<open>Selection and paging\<close>

text \<open>The lazy union of two ordered sets.\<close>

definition bt_union :: "'a::linorder list \<Rightarrow> 'a list \<Rightarrow> 'a list" where
  "bt_union s t = fold bt_insert s t"

definition opt_take :: "nat option \<Rightarrow> 'a list \<Rightarrow> 'a list" where
  "opt_take limit xs = (case limit of None \<Rightarrow> xs | Some n \<Rightarrow> take n xs)"

text \<open>\<open>select_nth_unstable(limit)\<close> and \<open>truncate(limit)\<close> leave the \<open>limit\<close> smallest ids, which are then sorted.\<close>

definition insight_ids_for_live_sync_limited :: "InsightCollection \<Rightarrow> bool \<Rightarrow> nat option \<Rightarrow> uuid list" where
  "insight_ids_for_live_sync_limited c include_full_reconcile limit =
     (if limit = Some 0 then []
      else if \<not> include_full_reconcile
      then opt_take limit (filter (\<lambda>i. i \<in> set (ic_dirty c) \<or> \<not> held c i)
             (bt_union (ic_dirty c) (ic_terminal_pending_prune c)))
      else opt_take limit (collection_ids c))"

definition opt_max :: "'a::linorder option list \<Rightarrow> 'a option" where
  "opt_max xs = (if somes xs = [] then None else Some (Max (set (somes xs))))"

definition opt_min :: "'a::linorder option list \<Rightarrow> 'a option" where
  "opt_min xs = (if somes xs = [] then None else Some (Min (set (somes xs))))"

definition cloud_recovery_upper_bound :: "InsightCollection \<Rightarrow> uuid option" where
  "cloud_recovery_upper_bound c =
     opt_max [bt_last (ic_ordered_active c), bt_last (ic_dirty c), bt_last (ic_terminal_pending_prune c)]"

definition peek :: "'a list \<Rightarrow> 'a option" where
  "peek xs = (case xs of [] \<Rightarrow> None | x # _ \<Rightarrow> Some x)"

definition skip :: "'a \<Rightarrow> 'a list \<Rightarrow> 'a list" where
  "skip x xs = (if peek xs = Some x then tl xs else xs)"

text \<open>The merge of three ordered iterators, \<open>n\<close> elements at most.\<close>

fun merge3 :: "nat \<Rightarrow> 'a::linorder list \<Rightarrow> 'a list \<Rightarrow> 'a list \<Rightarrow> 'a list" where
  "merge3 0 a d t = []"
| "merge3 (Suc n) a d t = (case opt_min [peek a, peek d, peek t] of None \<Rightarrow> []
     | Some x \<Rightarrow> x # merge3 n (skip x a) (skip x d) (skip x t))"

definition cursor_done :: "uuid option \<Rightarrow> uuid \<Rightarrow> nat \<Rightarrow> bool" where
  "cursor_done after upper limit \<longleftrightarrow> limit = 0 \<or> (case after of None \<Rightarrow> False | Some a \<Rightarrow> upper \<le> a)"

definition cloud_recovery_page :: "InsightCollection \<Rightarrow> uuid option \<Rightarrow> uuid \<Rightarrow> nat \<Rightarrow> uuid list" where
  "cloud_recovery_page c after upper limit = (if cursor_done after upper limit then []
     else merge3 (min limit 128) (bt_range after upper (ic_ordered_active c)) (bt_range after upper (ic_dirty c))
            (bt_range after upper (ic_terminal_pending_prune c)))"

definition active_symbol_upper_bound :: "InsightCollection \<Rightarrow> string \<Rightarrow> uuid option" where
  "active_symbol_upper_bound c symbol = (case hm_get (ic_active_by_symbol c) symbol of None \<Rightarrow> None
     | Some ids \<Rightarrow> bt_last ids)"

definition active_symbol_page :: "InsightCollection \<Rightarrow> string \<Rightarrow> uuid option \<Rightarrow> uuid \<Rightarrow> nat \<Rightarrow> uuid list" where
  "active_symbol_page c symbol after upper limit = (if cursor_done after upper limit then []
     else case hm_get (ic_active_by_symbol c) symbol of None \<Rightarrow> []
       | Some ids \<Rightarrow> take (min limit 256) (bt_range after upper ids))"

definition active_insight_upper_bound :: "InsightCollection \<Rightarrow> uuid option" where
  "active_insight_upper_bound c = bt_last (ic_ordered_active c)"

definition active_insight_page :: "InsightCollection \<Rightarrow> uuid option \<Rightarrow> uuid \<Rightarrow> nat \<Rightarrow> uuid list" where
  "active_insight_page c after upper limit = (if cursor_done after upper limit then []
     else take (min limit 256) (bt_range after upper (ic_ordered_active c)))"

definition child_ids_for_parents :: "InsightCollection \<Rightarrow> uuid list \<Rightarrow> uuid list" where
  "child_ids_for_parents c parents = sort (map fst (filter
     (\<lambda>(_, row). case ins_parent_id (tree_row row) of None \<Rightarrow> False | Some p \<Rightarrow> p \<in> set parents) (ic_insights c)))"

text \<open>One generation: the tracked children of the frontier that were not visited, sorted.\<close>

definition generation :: "InsightCollection \<Rightarrow> uuid list \<Rightarrow> uuid list \<Rightarrow> uuid list" where
  "generation c visited frontier = filter (\<lambda>i. i \<notin> set visited) (child_ids_for_parents c frontier)"

lemma set_generation:
  "i \<in> set (generation c visited frontier) \<Longrightarrow> i \<notin> set visited \<and> i \<in> set (hm_keys (ic_insights c))"
  by (auto simp: generation_def child_ids_for_parents_def hm_keys_def)

function generations :: "InsightCollection \<Rightarrow> uuid list \<Rightarrow> uuid list \<Rightarrow> uuid list list" where
  "generations c visited frontier =
     (if frontier = [] then [] else
      let g = generation c visited frontier
      in if g = [] then [] else g # generations c (visited @ g) g)"
  by pat_completeness auto
termination
proof (relation "measure (\<lambda>(c, visited, _). card (set (hm_keys (ic_insights c)) - set visited))")
  fix c visited frontier g
  assume "g = generation c visited frontier" and "g \<noteq> []"
  then obtain i where i: "i \<in> set g" "i \<notin> set visited" "i \<in> set (hm_keys (ic_insights c))"
    using set_generation [of "hd g" c visited frontier] hd_in_set [of g] by blast
  then have "set (hm_keys (ic_insights c)) - set (visited @ g) \<subset> set (hm_keys (ic_insights c)) - set visited" by auto
  then show "((c, visited @ g, g), c, visited, frontier)
      \<in> measure (\<lambda>(c, visited, _). card (set (hm_keys (ic_insights c)) - set visited))"
    by (auto intro: psubset_card_mono)
qed simp

declare generations.simps [simp del]

definition descendant_ids_for_parents :: "InsightCollection \<Rightarrow> uuid list \<Rightarrow> uuid list" where
  "descendant_ids_for_parents c parents = concat (rev (generations c parents parents))"

text \<open>\<open>Uuid::parse_str\<close> is code of the \<open>uuid\<close> crate, a parameter.\<close>

definition push_mapped :: "InsightCollection \<Rightarrow> string \<Rightarrow> uuid list \<Rightarrow> uuid list" where
  "push_mapped c order_id candidates = (case hm_get (ic_order_to_insight c) order_id of None \<Rightarrow> candidates
     | Some i \<Rightarrow> if i \<in> set candidates then candidates else candidates @ [i])"

definition candidate_insight_ids_for_trade_event ::
  "(string \<Rightarrow> uuid option) \<Rightarrow> InsightCollection \<Rightarrow> Order \<Rightarrow> uuid list" where
  "candidate_insight_ids_for_trade_event parse_str c order =
     (let candidates = (case ord_insight_id order of None \<Rightarrow> []
            | Some s \<Rightarrow> (case parse_str s of None \<Rightarrow> [] | Some i \<Rightarrow> [i]));
          candidates = push_mapped c (ord_order_id order) candidates
      in case ord_legs order of None \<Rightarrow> candidates
         | Some legs \<Rightarrow> fold (push_mapped c) (leg_ids legs) candidates)"

end
