(* ===== verification/InsightCollectionInvariant.thy ===== *)
theory InsightCollectionInvariant
  imports InsightCollection
begin

text \<open>
  The indexes of the collection agree with each other after every operation, whatever the rows
  were changed to in between: the invariant \<open>coll_ok\<close>, its preservation by every operation, and that no
  operation reaches a panic.
\<close>

section \<open>Counts by state\<close>

definition in_state :: "(uuid, InsightState) hmap \<Rightarrow> InsightState \<Rightarrow> uuid set" where
  "in_state lastk s = {i. hm_get lastk i = Some s}"

definition states_ok :: "(uuid, InsightState) hmap \<Rightarrow> (InsightState, nat) hmap \<Rightarrow> bool" where
  "states_ok lastk counts \<longleftrightarrow>
     (\<forall>s. hm_get counts s = (if in_state lastk s = {} then None else Some (card (in_state lastk s))))"

lemma finite_in_state: "finite (in_state lastk s)"
proof (rule finite_subset)
  show "in_state lastk s \<subseteq> set (hm_keys lastk)" by (auto simp: in_state_def simp flip: hm_get_keys)
qed simp

lemma in_state_insert: "in_state (hm_insert i q lastk) s = (if s = q then insert i (in_state lastk s) else in_state lastk s - {i})"
  by (auto simp: in_state_def)

lemma in_state_remove: "in_state (hm_remove i lastk) s = in_state lastk s - {i}"
  by (auto simp: in_state_def)

lemma in_state_other: "hm_get lastk i \<noteq> Some s \<Longrightarrow> in_state lastk s - {i} = in_state lastk s"
  by (auto simp: in_state_def)

lemma decrement_get:
  "hm_get (ic_state_counts (decrement_state_count p c)) s =
     (if s = p then (case hm_get (ic_state_counts c) s of None \<Rightarrow> None | Some n \<Rightarrow> if n \<le> 1 then None else Some (n - 1))
      else hm_get (ic_state_counts c) s)"
  by (auto simp: decrement_state_count_def split: option.splits)

lemma decrement_frame [simp]:
  "ic_insights (decrement_state_count p c) = ic_insights c" "ic_dirty (decrement_state_count p c) = ic_dirty c"
  "ic_active (decrement_state_count p c) = ic_active c"
  "ic_ordered_active (decrement_state_count p c) = ic_ordered_active c"
  "ic_active_by_symbol (decrement_state_count p c) = ic_active_by_symbol c"
  "ic_active_symbol_by_id (decrement_state_count p c) = ic_active_symbol_by_id c"
  "ic_terminal_pending_prune (decrement_state_count p c) = ic_terminal_pending_prune c"
  "ic_last_known_state (decrement_state_count p c) = ic_last_known_state c"
  "ic_order_to_insight (decrement_state_count p c) = ic_order_to_insight c"
  "ic_insight_to_orders (decrement_state_count p c) = ic_insight_to_orders c"
  "ic_order_index_enabled (decrement_state_count p c) = ic_order_index_enabled c"
  "ic_materialized (decrement_state_count p c) = ic_materialized c"
  "ic_persistence_enabled (decrement_state_count p c) = ic_persistence_enabled c"
  "ic_execution_dirty (decrement_state_count p c) = ic_execution_dirty c"
  "ic_execution_pins (decrement_state_count p c) = ic_execution_pins c"
  "ic_recovery_views (decrement_state_count p c) = ic_recovery_views c"
  by (simp_all add: decrement_state_count_def split: option.split)

text \<open>Taking one id out of a state takes one off its count.\<close>

lemma states_ok_remove:
  assumes ok: "states_ok (ic_last_known_state c) (ic_state_counts c)" and p: "hm_get (ic_last_known_state c) i = Some p"
  shows "hm_get (ic_state_counts (decrement_state_count p (c\<lparr>ic_last_known_state := m\<rparr>))) s =
    (if in_state (ic_last_known_state c) s - {i} = {} then None else Some (card (in_state (ic_last_known_state c) s - {i})))"
proof (cases "s = p")
  case True
  have "i \<in> in_state (ic_last_known_state c) p" using p by (simp add: in_state_def)
  then have "card (in_state (ic_last_known_state c) p) = Suc (card (in_state (ic_last_known_state c) p - {i}))"
    using finite_in_state by (metis card.remove)
  then show ?thesis
    using True ok finite_in_state [of "ic_last_known_state c" p] by (auto simp: decrement_get states_ok_def)
next
  case False
  then show ?thesis using ok p in_state_other [of "ic_last_known_state c" i s] by (simp add: decrement_get states_ok_def)
qed

lemma update_state_tracking_frame [simp]:
  "ic_last_known_state (update_state_tracking i s c) = hm_insert i s (ic_last_known_state c)"
  "ic_insights (update_state_tracking i s c) = ic_insights c" "ic_dirty (update_state_tracking i s c) = ic_dirty c"
  "ic_active (update_state_tracking i s c) = ic_active c"
  "ic_ordered_active (update_state_tracking i s c) = ic_ordered_active c"
  "ic_active_by_symbol (update_state_tracking i s c) = ic_active_by_symbol c"
  "ic_active_symbol_by_id (update_state_tracking i s c) = ic_active_symbol_by_id c"
  "ic_terminal_pending_prune (update_state_tracking i s c) = ic_terminal_pending_prune c"
  "ic_order_to_insight (update_state_tracking i s c) = ic_order_to_insight c"
  "ic_insight_to_orders (update_state_tracking i s c) = ic_insight_to_orders c"
  "ic_order_index_enabled (update_state_tracking i s c) = ic_order_index_enabled c"
  "ic_materialized (update_state_tracking i s c) = ic_materialized c"
  "ic_persistence_enabled (update_state_tracking i s c) = ic_persistence_enabled c"
  "ic_execution_dirty (update_state_tracking i s c) = ic_execution_dirty c"
  "ic_execution_pins (update_state_tracking i s c) = ic_execution_pins c"
  "ic_recovery_views (update_state_tracking i s c) = ic_recovery_views c"
  by (simp_all add: update_state_tracking_def increment_state_count_def Let_def split: option.split)

lemma update_state_tracking_ok:
  assumes ok: "states_ok (ic_last_known_state c) (ic_state_counts c)"
  shows "states_ok (ic_last_known_state (update_state_tracking i s c)) (ic_state_counts (update_state_tracking i s c))"
proof -
  let ?L = "ic_last_known_state c"
  let ?c = "c\<lparr>ic_last_known_state := hm_insert i s ?L\<rparr>"
  have fin: "finite (in_state ?L x)" for x by (rule finite_in_state)
  show ?thesis
  proof (cases "hm_get ?L i")
    case None
    then have "i \<notin> in_state ?L x" for x by (simp add: in_state_def)
    then show ?thesis using ok None fin
      by (auto simp: states_ok_def update_state_tracking_def increment_state_count_def in_state_insert)
  next
    case (Some p)
    show ?thesis
    proof (cases "p = s")
      case True
      then have "in_state (hm_insert i s ?L) x = in_state ?L x" for x using Some by (auto simp: in_state_def)
      then show ?thesis using ok Some True by (simp add: states_ok_def update_state_tracking_def)
    next
      case False
      have i: "i \<notin> in_state ?L s" using Some False by (simp add: in_state_def)
      have "update_state_tracking i s c = increment_state_count s (decrement_state_count p ?c)"
        using Some False by (simp add: update_state_tracking_def Let_def)
      moreover note states_ok_remove [OF ok Some, of "hm_insert i s ?L"]
      ultimately have "hm_get (ic_state_counts (update_state_tracking i s c)) x =
          (if in_state (hm_insert i s ?L) x = {} then None else Some (card (in_state (hm_insert i s ?L) x)))" for x
        using i fin [of s] by (cases "x = s") (simp_all add: increment_state_count_def in_state_insert)
      then show ?thesis by (simp add: states_ok_def)
    qed
  qed
qed

section \<open>The order index\<close>

definition orders_ok :: "(string, uuid) hmap \<Rightarrow> (uuid, string list) hmap \<Rightarrow> bool" where
  "orders_ok o2i i2o \<longleftrightarrow> (\<forall>x i. hm_get o2i x = Some i \<longrightarrow> (\<exists>os. hm_get i2o i = Some os \<and> x \<in> set os))"

lemma remove_orders_get: "hm_get (remove_orders os m) x = (if x \<in> set os then None else hm_get m x)"
  unfolding remove_orders_def by (induction os arbitrary: m) auto

lemma insert_orders_get: "hm_get (insert_orders i os m) x = (if x \<in> set os then Some i else hm_get m x)"
  unfolding insert_orders_def by (induction os arbitrary: m) auto

lemma index_order_ids_frame [simp]:
  "ic_insights (index_order_ids_for_insight i os c) = ic_insights c" "ic_dirty (index_order_ids_for_insight i os c) = ic_dirty c"
  "ic_active (index_order_ids_for_insight i os c) = ic_active c"
  "ic_ordered_active (index_order_ids_for_insight i os c) = ic_ordered_active c"
  "ic_active_by_symbol (index_order_ids_for_insight i os c) = ic_active_by_symbol c"
  "ic_active_symbol_by_id (index_order_ids_for_insight i os c) = ic_active_symbol_by_id c"
  "ic_terminal_pending_prune (index_order_ids_for_insight i os c) = ic_terminal_pending_prune c"
  "ic_last_known_state (index_order_ids_for_insight i os c) = ic_last_known_state c"
  "ic_state_counts (index_order_ids_for_insight i os c) = ic_state_counts c"
  "ic_order_index_enabled (index_order_ids_for_insight i os c) = ic_order_index_enabled c"
  "ic_materialized (index_order_ids_for_insight i os c) = ic_materialized c"
  "ic_persistence_enabled (index_order_ids_for_insight i os c) = ic_persistence_enabled c"
  "ic_execution_dirty (index_order_ids_for_insight i os c) = ic_execution_dirty c"
  "ic_execution_pins (index_order_ids_for_insight i os c) = ic_execution_pins c"
  "ic_recovery_views (index_order_ids_for_insight i os c) = ic_recovery_views c"
  by (simp_all add: index_order_ids_for_insight_def split: option.split)

lemma index_order_ids_ok:
  assumes ok: "orders_ok (ic_order_to_insight c) (ic_insight_to_orders c)"
  shows "orders_ok (ic_order_to_insight (index_order_ids_for_insight i os c))
    (ic_insight_to_orders (index_order_ids_for_insight i os c))"
proof (cases "hm_get (ic_insight_to_orders c) i")
  case None
  then show ?thesis using ok
    by (fastforce simp: index_order_ids_for_insight_def orders_ok_def insert_orders_get split: if_splits)
next
  case (Some old)
  have "x \<in> set old" if "hm_get (ic_order_to_insight c) x = Some i" for x
    using ok that Some by (metis option.inject orders_ok_def)
  then show ?thesis using ok Some
    by (fastforce simp: index_order_ids_for_insight_def orders_ok_def insert_orders_get remove_orders_get split: if_splits)
qed

section \<open>The symbol index\<close>

definition ids_of :: "(string, uuid list) hmap \<Rightarrow> string \<Rightarrow> uuid list" where
  "ids_of m s = unwrap_or (hm_get m s) []"

definition symbols_ok :: "(string, uuid list) hmap \<Rightarrow> (uuid, string) hmap \<Rightarrow> bool" where
  "symbols_ok by_symbol by_id \<longleftrightarrow> (\<forall>s. hm_get by_symbol s \<noteq> Some [] \<and> bt_ok (ids_of by_symbol s)
     \<and> set (ids_of by_symbol s) = {i. hm_get by_id i = Some s})"

lemma remove_symbol_frame [simp]:
  "ic_insights (remove_symbol_tracking i c) = ic_insights c" "ic_dirty (remove_symbol_tracking i c) = ic_dirty c"
  "ic_active (remove_symbol_tracking i c) = ic_active c"
  "ic_ordered_active (remove_symbol_tracking i c) = ic_ordered_active c"
  "ic_terminal_pending_prune (remove_symbol_tracking i c) = ic_terminal_pending_prune c"
  "ic_last_known_state (remove_symbol_tracking i c) = ic_last_known_state c"
  "ic_state_counts (remove_symbol_tracking i c) = ic_state_counts c"
  "ic_order_to_insight (remove_symbol_tracking i c) = ic_order_to_insight c"
  "ic_insight_to_orders (remove_symbol_tracking i c) = ic_insight_to_orders c"
  "ic_order_index_enabled (remove_symbol_tracking i c) = ic_order_index_enabled c"
  "ic_materialized (remove_symbol_tracking i c) = ic_materialized c"
  "ic_persistence_enabled (remove_symbol_tracking i c) = ic_persistence_enabled c"
  "ic_execution_dirty (remove_symbol_tracking i c) = ic_execution_dirty c"
  "ic_execution_pins (remove_symbol_tracking i c) = ic_execution_pins c"
  "ic_recovery_views (remove_symbol_tracking i c) = ic_recovery_views c"
  by (simp_all add: remove_symbol_tracking_def Let_def split: option.split)

lemma remove_symbol_ids:
  assumes "symbols_ok (ic_active_by_symbol c) (ic_active_symbol_by_id c)"
  shows "ids_of (ic_active_by_symbol (remove_symbol_tracking i c)) s = bt_remove i (ids_of (ic_active_by_symbol c) s)"
    and "hm_get (ic_active_by_symbol (remove_symbol_tracking i c)) s \<noteq> Some []"
    and "hm_get (ic_active_symbol_by_id (remove_symbol_tracking i c)) j =
      (if j = i then None else hm_get (ic_active_symbol_by_id c) j)"
proof -
  have same: "bt_remove i (ids_of (ic_active_by_symbol c) s) = ids_of (ic_active_by_symbol c) s"
    if "hm_get (ic_active_symbol_by_id c) i \<noteq> Some s" for s
    using assms that by (simp add: symbols_ok_def bt_remove_def remove1_idem)
  show "ids_of (ic_active_by_symbol (remove_symbol_tracking i c)) s = bt_remove i (ids_of (ic_active_by_symbol c) s)"
    using same [of s]
    by (auto simp: remove_symbol_tracking_def Let_def ids_of_def bt_remove_def split: option.split)
  show "hm_get (ic_active_by_symbol (remove_symbol_tracking i c)) s \<noteq> Some []"
    using assms by (auto simp: remove_symbol_tracking_def Let_def symbols_ok_def split: option.split)
  show "hm_get (ic_active_symbol_by_id (remove_symbol_tracking i c)) j =
      (if j = i then None else hm_get (ic_active_symbol_by_id c) j)"
    by (auto simp: remove_symbol_tracking_def Let_def split: option.split)
qed

lemma remove_symbol_ok:
  assumes ok: "symbols_ok (ic_active_by_symbol c) (ic_active_symbol_by_id c)"
  shows "symbols_ok (ic_active_by_symbol (remove_symbol_tracking i c)) (ic_active_symbol_by_id (remove_symbol_tracking i c))"
  unfolding symbols_ok_def remove_symbol_ids(1,3) [OF ok]
  using remove_symbol_ids(2) [OF ok] ok by (auto simp: symbols_ok_def bt.elems_rem intro: bt.ok_rem)

lemma refresh_symbol_frame [simp]:
  "ic_insights (refresh_symbol_tracking i c) = ic_insights c" "ic_dirty (refresh_symbol_tracking i c) = ic_dirty c"
  "ic_active (refresh_symbol_tracking i c) = ic_active c"
  "ic_ordered_active (refresh_symbol_tracking i c) = ic_ordered_active c"
  "ic_terminal_pending_prune (refresh_symbol_tracking i c) = ic_terminal_pending_prune c"
  "ic_last_known_state (refresh_symbol_tracking i c) = ic_last_known_state c"
  "ic_state_counts (refresh_symbol_tracking i c) = ic_state_counts c"
  "ic_order_to_insight (refresh_symbol_tracking i c) = ic_order_to_insight c"
  "ic_insight_to_orders (refresh_symbol_tracking i c) = ic_insight_to_orders c"
  "ic_order_index_enabled (refresh_symbol_tracking i c) = ic_order_index_enabled c"
  "ic_materialized (refresh_symbol_tracking i c) = ic_materialized c"
  "ic_persistence_enabled (refresh_symbol_tracking i c) = ic_persistence_enabled c"
  "ic_execution_dirty (refresh_symbol_tracking i c) = ic_execution_dirty c"
  "ic_execution_pins (refresh_symbol_tracking i c) = ic_execution_pins c"
  "ic_recovery_views (refresh_symbol_tracking i c) = ic_recovery_views c"
  by (simp_all add: refresh_symbol_tracking_def Let_def split: option.split)

lemma refresh_symbol_ok:
  assumes ok: "symbols_ok (ic_active_by_symbol c) (ic_active_symbol_by_id c)"
  shows "symbols_ok (ic_active_by_symbol (refresh_symbol_tracking i c)) (ic_active_symbol_by_id (refresh_symbol_tracking i c))
    \<and> (\<forall>j. hm_get (ic_active_symbol_by_id (refresh_symbol_tracking i c)) j =
        (if j = i then active_symbol c i else hm_get (ic_active_symbol_by_id c) j))"
proof (cases "active_symbol c i = hm_get (ic_active_symbol_by_id c) i")
  case True
  then show ?thesis using ok by (simp add: refresh_symbol_tracking_def)
next
  case False
  let ?r = "remove_symbol_tracking i c"
  have r: "symbols_ok (ic_active_by_symbol ?r) (ic_active_symbol_by_id ?r)" by (rule remove_symbol_ok [OF ok])
  note id = remove_symbol_ids(3) [OF ok, of i]
  show ?thesis
  proof (cases "active_symbol c i")
    case None
    then show ?thesis using False r id by (simp add: refresh_symbol_tracking_def Let_def)
  next
    case (Some s)
    define m where "m = hm_insert s (bt_insert i (ids_of (ic_active_by_symbol ?r) s)) (ic_active_by_symbol ?r)"
    have eq: "refresh_symbol_tracking i c = ?r\<lparr>ic_active_by_symbol := m,
        ic_active_symbol_by_id := hm_insert i s (ic_active_symbol_by_id ?r)\<rparr>"
      using False Some by (simp add: refresh_symbol_tracking_def Let_def m_def ids_of_def)
    have m: "ids_of m x = (if x = s then bt_insert i (ids_of (ic_active_by_symbol ?r) s) else ids_of (ic_active_by_symbol ?r) x)" for x
      by (simp add: m_def ids_of_def)
    have "hm_get m x \<noteq> Some []" for x
      using r by (auto simp: m_def symbols_ok_def dest: arg_cong [where f = set] simp: bt.elems_ins)
    moreover have "bt_ok (ids_of m x)" for x using r bt.ok_ins by (auto simp: m symbols_ok_def)
    moreover have "set (ids_of m x) = {j. hm_get (hm_insert i s (ic_active_symbol_by_id ?r)) j = Some x}" for x
      using r id by (auto simp: m bt.elems_ins symbols_ok_def)
    ultimately show ?thesis using id Some by (simp add: eq symbols_ok_def)
  qed
qed

section \<open>The invariant\<close>

definition row_ok :: "'v Json \<Rightarrow> InsightTree \<Rightarrow> bool" where
  "row_ok J t \<longleftrightarrow> (case recovery_dependencies J (tree_data t) of Inl _ \<Rightarrow> False | Inr _ \<Rightarrow> True)"

definition rows_ok :: "'v Json \<Rightarrow> InsightCollection \<Rightarrow> bool" where
  "rows_ok J c \<longleftrightarrow> hm_ok (ic_insights c)
     \<and> (\<forall>i t. hm_get (ic_insights c) i = Some t \<longrightarrow> insight_id t = i \<and> i \<in> set (ic_materialized c) \<and> row_ok J t)"

definition activity_ok :: "(uuid, InsightState) hmap \<Rightarrow> uuid list \<Rightarrow> uuid list \<Rightarrow> uuid list \<Rightarrow> bool" where
  "activity_ok lastk active ordered terminal \<longleftrightarrow> distinct active \<and> bt_ok ordered \<and> bt_ok terminal
     \<and> set active = {i. \<exists>s. hm_get lastk i = Some s \<and> is_active s} \<and> set ordered = set active
     \<and> set terminal = {i. \<exists>s. hm_get lastk i = Some s \<and> is_inactive s}"

definition views_ok :: "uuid list \<Rightarrow> RecoveryViews \<Rightarrow> bool" where
  "views_ok active v \<longleftrightarrow> rv_ok v
     \<and> (\<forall>owner ds. hm_get (rv_owners v) owner = Some ds \<longrightarrow> owner \<in> set active \<and> length ds \<le> 16)"

definition index_switch_ok :: "InsightCollection \<Rightarrow> bool" where
  "index_switch_ok c \<longleftrightarrow> ic_order_index_enabled c \<or> ic_order_to_insight c = [] \<and> ic_insight_to_orders c = []"

definition dirty_ok :: "InsightCollection \<Rightarrow> bool" where
  "dirty_ok c \<longleftrightarrow> bt_ok (ic_dirty c) \<and> bt_ok (ic_execution_dirty c) \<and> distinct (ic_execution_pins c)
     \<and> (\<forall>i\<in>set (ic_dirty c). hm_get (ic_last_known_state c) i \<noteq> None)
     \<and> (\<forall>i s. hm_get (ic_last_known_state c) i = Some s \<longrightarrow> i \<in> set (ic_materialized c))"

definition coll_ok :: "'v Json \<Rightarrow> InsightCollection \<Rightarrow> bool" where
  "coll_ok J c \<longleftrightarrow> rows_ok J c
     \<and> activity_ok (ic_last_known_state c) (ic_active c) (ic_ordered_active c) (ic_terminal_pending_prune c)
     \<and> states_ok (ic_last_known_state c) (ic_state_counts c)
     \<and> symbols_ok (ic_active_by_symbol c) (ic_active_symbol_by_id c)
     \<and> {i. hm_get (ic_active_symbol_by_id c) i \<noteq> None} = set (ic_active c)
     \<and> orders_ok (ic_order_to_insight c) (ic_insight_to_orders c)
     \<and> views_ok (ic_active c) (ic_recovery_views c) \<and> index_switch_ok c \<and> dirty_ok c"

lemma coll_ok_new: "coll_ok J collection_new"
  by (simp add: coll_ok_def rows_ok_def activity_ok_def states_ok_def symbols_ok_def orders_ok_def views_ok_def
      index_switch_ok_def dirty_ok_def collection_new_def in_state_def ids_of_def rv_ok_default [unfolded rv_default_def]
      rv_default_def hm_ok_def)

lemma track_activity_frame [simp]:
  "ic_insights (track_activity i s c) = ic_insights c" "ic_dirty (track_activity i s c) = ic_dirty c"
  "ic_active_by_symbol (track_activity i s c) = ic_active_by_symbol c"
  "ic_active_symbol_by_id (track_activity i s c) = ic_active_symbol_by_id c"
  "ic_last_known_state (track_activity i s c) = ic_last_known_state c"
  "ic_state_counts (track_activity i s c) = ic_state_counts c"
  "ic_order_to_insight (track_activity i s c) = ic_order_to_insight c"
  "ic_insight_to_orders (track_activity i s c) = ic_insight_to_orders c"
  "ic_order_index_enabled (track_activity i s c) = ic_order_index_enabled c"
  "ic_materialized (track_activity i s c) = ic_materialized c"
  "ic_persistence_enabled (track_activity i s c) = ic_persistence_enabled c"
  "ic_execution_dirty (track_activity i s c) = ic_execution_dirty c"
  "ic_execution_pins (track_activity i s c) = ic_execution_pins c"
  "ic_recovery_views (track_activity i s c) = ic_recovery_views c"
  by (simp_all add: track_activity_def)

lemma track_activity_ok:
  fixes i s
  assumes "activity_ok lastk (ic_active c) (ic_ordered_active c) (ic_terminal_pending_prune c)"
  defines "c' \<equiv> track_activity i s c"
  shows "activity_ok (hm_insert i s lastk) (ic_active c') (ic_ordered_active c') (ic_terminal_pending_prune c')"
    and "set (ic_active c') = (if is_active s then insert i (set (ic_active c)) else set (ic_active c) - {i})"
proof -
  show active: "set (ic_active c') = (if is_active s then insert i (set (ic_active c)) else set (ic_active c) - {i})"
    using assms(1) by (simp add: c'_def track_activity_def inactive_iff activity_ok_def hs.elems_ins hs.elems_rem)
  show "activity_ok (hm_insert i s lastk) (ic_active c') (ic_ordered_active c') (ic_terminal_pending_prune c')"
    using assms(1) active
    by (auto simp: c'_def track_activity_def inactive_iff activity_ok_def hs.elems_ins hs.elems_rem bt.elems_ins bt.elems_rem
        intro: hs.ok_ins hs.ok_rem bt.ok_ins bt.ok_rem split: if_splits)
qed

lemma active_symbol_views [simp]: "active_symbol (c\<lparr>ic_recovery_views := v\<rparr>) i = active_symbol c i"
  by (simp add: active_symbol_def)

lemma views_ok_change:
  assumes "views_ok act v" "rv_ok v'" "\<forall>j. hm_get (rv_owners v') j = (if j = i then x else hm_get (rv_owners v) j)"
    and "\<And>ds. x = Some ds \<Longrightarrow> i \<in> set act' \<and> length ds \<le> 16" "set act - {i} \<subseteq> set act'"
  shows "views_ok act' v'"
  unfolding views_ok_def
proof (intro conjI allI impI)
  fix owner ds assume o: "hm_get (rv_owners v') owner = Some ds"
  have "owner \<in> set act' \<and> length ds \<le> 16"
  proof (cases "owner = i")
    case True
    then show ?thesis using o assms(3,4) by simp
  next
    case False
    then have "hm_get (rv_owners v) owner = Some ds" using o assms(3) by simp
    then show ?thesis using False assms(1,5) by (auto simp: views_ok_def)
  qed
  then show "owner \<in> set act'" "length ds \<le> 16" by auto
qed (rule assms(2))

lemma index_order_ids_switch: "index_switch_ok c \<Longrightarrow> index_switch_ok (index_order_ids_for_insight i os c)"
  by (cases "ic_order_index_enabled c")
    (simp add: index_switch_ok_def, simp add: index_switch_ok_def index_order_ids_for_insight_def)

text \<open>A row present: every index is brought to the row's current state.\<close>

lemma refresh_row_ok:
  assumes ok: "coll_ok J c" and row: "hm_get (ic_insights c) i = Some t"
  shows "\<exists>c'. refresh_runtime_tracking J i c = Some c' \<and> coll_ok J c' \<and> ic_insights c' = ic_insights c
    \<and> ic_materialized c' = ic_materialized c \<and> ic_persistence_enabled c' = ic_persistence_enabled c
    \<and> ic_last_known_state c' = hm_insert i (tree_state t) (ic_last_known_state c)
    \<and> hm_get (ic_active_symbol_by_id c') i = active_symbol c i"
proof -
  have t: "insight_id t = i" "i \<in> set (ic_materialized c)" "row_ok J t"
    using ok row by (auto simp: coll_ok_def rows_ok_def)
  obtain ds where ds: "recovery_dependencies J (tree_data t) = Inr ds"
    using t(3) by (auto simp: row_ok_def split: sum.splits)
  have rv: "rv_ok (ic_recovery_views c)" using ok by (simp add: coll_ok_def views_ok_def)
  obtain v where v: "rv_refresh J t (ic_recovery_views c) = Some v" "rv_ok v"
    "\<forall>j. hm_get (rv_owners v) j = (if j = i then (if is_active (tree_state t) \<and> ds \<noteq> [] then Some ds else None)
        else hm_get (rv_owners (ic_recovery_views c)) j)"
    using rv_refresh_ok [OF rv ds] t(1) by metis
  define c1 where "c1 = refresh_symbol_tracking i (c\<lparr>ic_recovery_views := v\<rparr>)"
  define c2 where "c2 = index_order_ids_for_insight i
    (if ic_order_index_enabled c then collect_order_ids t else []) (update_state_tracking i (tree_state t) c1)"
  define c3 where "c3 = c2\<lparr>ic_dirty := bt_insert i (ic_dirty c2)\<rparr>"
  define c4 where "c4 = (if ic_persistence_enabled c then c3\<lparr>ic_execution_dirty := bt_insert i (ic_execution_dirty c3)\<rparr> else c3)"
  define c' where "c' = track_activity i (tree_state t) c4"
  note defs = c4_def c3_def c2_def c1_def
  have eq: "refresh_runtime_tracking J i c = Some c'"
    by (simp add: refresh_runtime_tracking_def row v(1) c'_def defs Let_def cong: if_cong)
  have act: "activity_ok (ic_last_known_state c) (ic_active c4) (ic_ordered_active c4) (ic_terminal_pending_prune c4)"
    using ok by (simp add: defs coll_ok_def)
  have last: "ic_last_known_state c' = hm_insert i (tree_state t) (ic_last_known_state c)" by (simp add: c'_def defs)
  have active: "set (ic_active c') = (if is_active (tree_state t) then insert i (set (ic_active c)) else set (ic_active c) - {i})"
    using track_activity_ok(2) [OF act, of i "tree_state t"] by (simp add: c'_def) (simp add: defs)
  have views: "ic_recovery_views c' = v" by (simp add: c'_def defs)
  have sym: "symbols_ok (ic_active_by_symbol c) (ic_active_symbol_by_id c)" using ok by (simp add: coll_ok_def)
  have sym': "symbols_ok (ic_active_by_symbol c') (ic_active_symbol_by_id c')"
    "\<forall>j. hm_get (ic_active_symbol_by_id c') j = (if j = i then active_symbol c i else hm_get (ic_active_symbol_by_id c) j)"
    using refresh_symbol_ok [of "c\<lparr>ic_recovery_views := v\<rparr>" i] sym by (simp_all add: c'_def defs)
  have "coll_ok J c'"
    unfolding coll_ok_def
  proof (intro conjI)
    show "rows_ok J c'" using ok by (simp add: c'_def defs coll_ok_def rows_ok_def)
    show "activity_ok (ic_last_known_state c') (ic_active c') (ic_ordered_active c') (ic_terminal_pending_prune c')"
      unfolding last unfolding c'_def by (rule track_activity_ok(1) [OF act])
    show "states_ok (ic_last_known_state c') (ic_state_counts c')"
      using update_state_tracking_ok [of c1 i "tree_state t"] ok by (simp add: c'_def defs coll_ok_def)
    show "{j. hm_get (ic_active_symbol_by_id c') j \<noteq> None} = set (ic_active c')"
      using ok row unfolding coll_ok_def by (auto simp: sym'(2) active active_symbol_def inactive_iff)
    show "orders_ok (ic_order_to_insight c') (ic_insight_to_orders c')"
      using index_order_ids_ok [of "update_state_tracking i (tree_state t) c1" i] ok by (simp add: c'_def defs coll_ok_def)
    show "views_ok (ic_active c') (ic_recovery_views c')"
    proof (rule views_ok_change [OF _ _ v(3) [folded views]])
      show "views_ok (ic_active c) (ic_recovery_views c)" using ok by (simp add: coll_ok_def)
      show "rv_ok (ic_recovery_views c')" using v(2) by (simp add: views)
    qed (use recovery_dependencies_bound(2) [OF ds] in \<open>auto simp: active split: if_splits\<close>)
    show "index_switch_ok c'"
      using index_order_ids_switch [of "update_state_tracking i (tree_state t) c1" i] ok
      by (simp add: c'_def defs index_switch_ok_def coll_ok_def)
    show "dirty_ok c'"
      using ok t(2) by (auto simp: c'_def defs dirty_ok_def coll_ok_def bt.elems_ins intro: bt.ok_ins)
  qed (rule sym'(1))
  then show ?thesis using eq last sym'(2) by (simp add: c'_def defs)
qed

text \<open>A row gone: every trace of the id leaves the indexes.\<close>

lemma forget_id_frame [simp]:
  "ic_insights (forget_id i c) = ic_insights c" "ic_active_by_symbol (forget_id i c) = ic_active_by_symbol c"
  "ic_active_symbol_by_id (forget_id i c) = ic_active_symbol_by_id c"
  "ic_last_known_state (forget_id i c) = ic_last_known_state c" "ic_state_counts (forget_id i c) = ic_state_counts c"
  "ic_order_to_insight (forget_id i c) = ic_order_to_insight c"
  "ic_insight_to_orders (forget_id i c) = ic_insight_to_orders c"
  "ic_order_index_enabled (forget_id i c) = ic_order_index_enabled c" "ic_materialized (forget_id i c) = ic_materialized c"
  "ic_persistence_enabled (forget_id i c) = ic_persistence_enabled c"
  "ic_execution_dirty (forget_id i c) = ic_execution_dirty c" "ic_execution_pins (forget_id i c) = ic_execution_pins c"
  "ic_recovery_views (forget_id i c) = ic_recovery_views c"
  by (simp_all add: forget_id_def)

lemma forget_state_frame [simp]:
  "ic_insights (forget_state i c) = ic_insights c" "ic_dirty (forget_state i c) = ic_dirty c"
  "ic_active (forget_state i c) = ic_active c" "ic_ordered_active (forget_state i c) = ic_ordered_active c"
  "ic_active_by_symbol (forget_state i c) = ic_active_by_symbol c"
  "ic_active_symbol_by_id (forget_state i c) = ic_active_symbol_by_id c"
  "ic_terminal_pending_prune (forget_state i c) = ic_terminal_pending_prune c"
  "ic_order_to_insight (forget_state i c) = ic_order_to_insight c"
  "ic_insight_to_orders (forget_state i c) = ic_insight_to_orders c"
  "ic_order_index_enabled (forget_state i c) = ic_order_index_enabled c"
  "ic_materialized (forget_state i c) = ic_materialized c"
  "ic_persistence_enabled (forget_state i c) = ic_persistence_enabled c"
  "ic_execution_dirty (forget_state i c) = ic_execution_dirty c" "ic_execution_pins (forget_state i c) = ic_execution_pins c"
  "ic_recovery_views (forget_state i c) = ic_recovery_views c"
  by (simp_all add: forget_state_def split: option.split)

lemma forget_state_get [simp]:
  "hm_get (ic_last_known_state (forget_state i c)) j = (if j = i then None else hm_get (ic_last_known_state c) j)"
  by (auto simp: forget_state_def split: option.split)

lemma forget_state_ok:
  assumes "states_ok (ic_last_known_state c) (ic_state_counts c)"
  shows "states_ok (ic_last_known_state (forget_state i c)) (ic_state_counts (forget_state i c))"
proof (cases "hm_get (ic_last_known_state c) i")
  case (Some p)
  show ?thesis
    using states_ok_remove [OF assms Some] by (simp add: forget_state_def Some states_ok_def in_state_remove)
qed (use assms in \<open>simp add: forget_state_def\<close>)

lemma forget_orders_frame [simp]:
  "ic_insights (forget_orders i c) = ic_insights c" "ic_dirty (forget_orders i c) = ic_dirty c"
  "ic_active (forget_orders i c) = ic_active c" "ic_ordered_active (forget_orders i c) = ic_ordered_active c"
  "ic_active_by_symbol (forget_orders i c) = ic_active_by_symbol c"
  "ic_active_symbol_by_id (forget_orders i c) = ic_active_symbol_by_id c"
  "ic_terminal_pending_prune (forget_orders i c) = ic_terminal_pending_prune c"
  "ic_last_known_state (forget_orders i c) = ic_last_known_state c" "ic_state_counts (forget_orders i c) = ic_state_counts c"
  "ic_order_index_enabled (forget_orders i c) = ic_order_index_enabled c"
  "ic_materialized (forget_orders i c) = ic_materialized c"
  "ic_persistence_enabled (forget_orders i c) = ic_persistence_enabled c"
  "ic_execution_dirty (forget_orders i c) = ic_execution_dirty c" "ic_execution_pins (forget_orders i c) = ic_execution_pins c"
  "ic_recovery_views (forget_orders i c) = ic_recovery_views c"
  by (simp_all add: forget_orders_def split: option.split)

lemma forget_orders_ok:
  assumes ok: "orders_ok (ic_order_to_insight c) (ic_insight_to_orders c)"
  shows "orders_ok (ic_order_to_insight (forget_orders i c)) (ic_insight_to_orders (forget_orders i c))"
proof (cases "hm_get (ic_insight_to_orders c) i")
  case (Some os)
  have "x \<in> set os" if "hm_get (ic_order_to_insight c) x = Some i" for x
    using ok that Some by (metis option.inject orders_ok_def)
  then show ?thesis using ok by (fastforce simp: forget_orders_def Some orders_ok_def remove_orders_get)
qed (use ok in \<open>simp add: forget_orders_def\<close>)

lemma forget_orders_switch: "index_switch_ok c \<Longrightarrow> index_switch_ok (forget_orders i c)"
  by (auto simp: index_switch_ok_def forget_orders_def split: option.split)

lemma remove_tracking_ok:
  assumes ok: "coll_ok J c"
  shows "\<exists>c'. remove_tracking i c = Some c' \<and> coll_ok J c' \<and> ic_insights c' = ic_insights c
    \<and> ic_materialized c' = ic_materialized c \<and> ic_persistence_enabled c' = ic_persistence_enabled c
    \<and> (\<forall>j. hm_get (ic_last_known_state c') j = (if j = i then None else hm_get (ic_last_known_state c) j))
    \<and> (\<forall>j. hm_get (rv_retained (ic_recovery_views c')) j \<noteq> None \<longrightarrow> hm_get (rv_retained (ic_recovery_views c)) j \<noteq> None)"
proof -
  have rv: "rv_ok (ic_recovery_views c)" using ok by (simp add: coll_ok_def views_ok_def)
  obtain v where v: "remove_owner i (ic_recovery_views c) = Some v" "rv_ok v"
    "\<forall>j. hm_get (rv_owners v) j = (if j = i then None else hm_get (rv_owners (ic_recovery_views c)) j)"
    "\<forall>j. hm_get (rv_retained v) j \<noteq> None \<longrightarrow> hm_get (rv_retained (ic_recovery_views c)) j \<noteq> None"
    using rv_replace_ok [OF rv distinct.simps(1) [THEN iffD2, OF TrueI], of i] by (auto simp: remove_owner_def)
  define c1 where "c1 = remove_symbol_tracking i (c\<lparr>ic_recovery_views := v\<rparr>)"
  define c' where "c' = forget_orders i (forget_state i (forget_id i c1))"
  have eq: "remove_tracking i c = Some c'" by (simp add: remove_tracking_def v(1) c'_def c1_def)
  have sym: "symbols_ok (ic_active_by_symbol c) (ic_active_symbol_by_id c)" using ok by (simp add: coll_ok_def)
  have views: "ic_recovery_views c' = v" by (simp add: c'_def c1_def)
  have by_id: "hm_get (ic_active_symbol_by_id c') j = (if j = i then None else hm_get (ic_active_symbol_by_id c) j)" for j
    using remove_symbol_ids(3) [of "c\<lparr>ic_recovery_views := v\<rparr>" i j] sym by (simp add: c'_def c1_def)
  have act: "activity_ok (ic_last_known_state c) (ic_active c) (ic_ordered_active c) (ic_terminal_pending_prune c)"
    using ok by (simp add: coll_ok_def)
  then have active: "set (ic_active c') = set (ic_active c) - {i}"
    by (simp add: c'_def c1_def forget_id_def hs.elems_rem activity_ok_def)
  have "coll_ok J c'"
    unfolding coll_ok_def
  proof (intro conjI)
    show "rows_ok J c'" using ok by (simp add: c'_def c1_def coll_ok_def rows_ok_def)
    show "activity_ok (ic_last_known_state c') (ic_active c') (ic_ordered_active c') (ic_terminal_pending_prune c')"
      using act by (auto simp: c'_def c1_def forget_id_def activity_ok_def hs.elems_rem bt.elems_rem
          intro: hs.ok_rem bt.ok_rem split: if_splits)
    show "states_ok (ic_last_known_state c') (ic_state_counts c')"
      using forget_state_ok [of "forget_id i c1" i] ok by (simp add: c'_def c1_def coll_ok_def)
    show "symbols_ok (ic_active_by_symbol c') (ic_active_symbol_by_id c')"
      using remove_symbol_ok [of "c\<lparr>ic_recovery_views := v\<rparr>" i] sym by (simp add: c'_def c1_def)
    show "{j. hm_get (ic_active_symbol_by_id c') j \<noteq> None} = set (ic_active c')"
      using ok unfolding coll_ok_def by (auto simp: by_id active split: if_splits)
    show "orders_ok (ic_order_to_insight c') (ic_insight_to_orders c')"
      using forget_orders_ok [of "forget_state i (forget_id i c1)" i] ok by (simp add: c'_def c1_def coll_ok_def)
    show "views_ok (ic_active c') (ic_recovery_views c')"
    proof (rule views_ok_change [OF _ _ v(3) [folded views]])
      show "views_ok (ic_active c) (ic_recovery_views c)" using ok by (simp add: coll_ok_def)
      show "rv_ok (ic_recovery_views c')" using v(2) by (simp add: views)
    qed (use active in auto)
    show "index_switch_ok c'"
      unfolding c'_def by (rule forget_orders_switch) (use ok in \<open>simp add: c1_def index_switch_ok_def coll_ok_def\<close>)
    show "dirty_ok c'"
      using ok by (auto simp: c'_def c1_def forget_id_def dirty_ok_def coll_ok_def bt.elems_rem intro: bt.ok_rem)
  qed
  moreover have "\<forall>j. hm_get (rv_retained (ic_recovery_views c')) j \<noteq> None \<longrightarrow> hm_get (rv_retained (ic_recovery_views c)) j \<noteq> None"
    using v(4) by (simp add: c'_def c1_def)
  ultimately show ?thesis using eq by (simp add: c'_def c1_def)
qed

text \<open>Taking a symbol out twice is taking it out once.\<close>

lemma remove_symbol_views:
  "remove_symbol_tracking i (c\<lparr>ic_recovery_views := v\<rparr>) = (remove_symbol_tracking i c)\<lparr>ic_recovery_views := v\<rparr>"
  by (simp add: remove_symbol_tracking_def Let_def split: option.split)

lemma remove_symbol_idem:
  "remove_symbol_tracking i (remove_symbol_tracking i c) = remove_symbol_tracking i c"
proof -
  have "hm_get (ic_active_symbol_by_id (remove_symbol_tracking i c)) i = None"
    by (simp add: remove_symbol_tracking_def Let_def split: option.split)
  then show ?thesis by (simp add: remove_symbol_tracking_def [of i "remove_symbol_tracking i c"])
qed

lemma remove_tracking_missing:
  assumes "hm_get (ic_insights c) i = None"
  shows "remove_tracking i (refresh_symbol_tracking i c) = remove_tracking i c"
proof -
  have "refresh_symbol_tracking i c = remove_symbol_tracking i c \<or> refresh_symbol_tracking i c = c"
    using assms by (simp add: refresh_symbol_tracking_def active_symbol_def)
  then show ?thesis
    by (auto simp: remove_tracking_def remove_symbol_views remove_symbol_idem split: option.split)
qed

section \<open>Every operation keeps the invariant\<close>

lemma coll_ok_insights:
  assumes "coll_ok J c" "rows_ok J c'"
    and "c' = c\<lparr>ic_insights := ic_insights c', ic_materialized := ic_materialized c'\<rparr>"
    and "set (ic_materialized c) \<subseteq> set (ic_materialized c')"
  shows "coll_ok J c'"
proof -
  obtain m n where c': "c' = c\<lparr>ic_insights := m, ic_materialized := n\<rparr>" and n: "set (ic_materialized c) \<subseteq> set n"
    using assms(3,4) by metis
  show ?thesis using assms(1,2) n
    by (auto simp: coll_ok_def c' dirty_ok_def index_switch_ok_def)
qed

lemma refresh_ok:
  assumes ok: "coll_ok J c"
  shows "\<exists>c'. refresh_runtime_tracking J i c = Some c' \<and> coll_ok J c' \<and> ic_insights c' = ic_insights c
    \<and> hm_get (ic_last_known_state c') i = map_option tree_state (hm_get (ic_insights c) i)"
proof (cases "hm_get (ic_insights c) i")
  case None
  then show ?thesis
    using remove_tracking_ok [OF ok, of i] by (auto simp: refresh_runtime_tracking_def remove_tracking_missing)
next
  case (Some t)
  then show ?thesis using refresh_row_ok [OF ok Some] by auto
qed

lemma add_insight_ok:
  assumes ok: "coll_ok J c" and t: "row_ok J t"
  shows "\<exists>c'. add_insight J t c = Some c' \<and> coll_ok J c'
    \<and> ic_insights c' = hm_insert (insight_id t) t (ic_insights c)
    \<and> ic_last_known_state c' = hm_insert (insight_id t) (tree_state t) (ic_last_known_state c)"
proof -
  let ?c = "c\<lparr>ic_materialized := hs_insert (insight_id t) (ic_materialized c),
        ic_insights := hm_insert (insight_id t) t (ic_insights c)\<rparr>"
  have "rows_ok J ?c"
    using ok t by (auto simp: rows_ok_def coll_ok_def hs.elems_ins split: if_splits)
  then have "coll_ok J ?c" by (rule coll_ok_insights [OF ok]) (auto simp: hs.elems_ins)
  from refresh_row_ok [OF this, of "insight_id t" t] show ?thesis by (auto simp: add_insight_def)
qed

lemma take_for_update_ok: "coll_ok J c \<Longrightarrow> coll_ok J (snd (take_for_update i c))"
  by (rule coll_ok_insights) (auto simp: take_for_update_def rows_ok_def coll_ok_def split: if_splits)

lemma restore_after_update_ok:
  assumes ok: "coll_ok J c" and t: "row_ok J t" "was_materialized c (insight_id t)"
  shows "\<exists>c'. restore_after_update J t changed c = Some c' \<and> coll_ok J c'"
proof -
  let ?c = "c\<lparr>ic_insights := hm_insert (insight_id t) t (ic_insights c)\<rparr>"
  have "rows_ok J ?c"
    using ok t by (auto simp: rows_ok_def coll_ok_def was_materialized_def split: if_splits)
  then have "coll_ok J ?c" by (rule coll_ok_insights [OF ok]) auto
  then show ?thesis using refresh_ok [of J ?c "insight_id t"] by (cases changed) (auto simp: restore_after_update_def Let_def)
qed

lemma modify_rows_ok:
  assumes ok: "coll_ok J c"
    and f: "\<And>t. hm_get (ic_insights c) i = Some t \<Longrightarrow> insight_id (f t) = i \<and> row_ok J (f t)"
  shows "coll_ok J (c\<lparr>ic_insights := hm_modify i f (ic_insights c)\<rparr>)"
  using ok
proof (rule coll_ok_insights)
  show "rows_ok J (c\<lparr>ic_insights := hm_modify i f (ic_insights c)\<rparr>)"
    using ok f by (auto simp: rows_ok_def coll_ok_def split: if_splits)
qed auto

lemma execution_dirty_ok:
  "coll_ok J c \<Longrightarrow> coll_ok J (c\<lparr>ic_execution_dirty := bt_insert i (ic_execution_dirty c)\<rparr>)"
  "coll_ok J c \<Longrightarrow> coll_ok J (c\<lparr>ic_execution_dirty := bt_remove i (ic_execution_dirty c)\<rparr>)"
  "coll_ok J c \<Longrightarrow> coll_ok J (c\<lparr>ic_execution_pins := hs_insert i (ic_execution_pins c)\<rparr>)"
  "coll_ok J c \<Longrightarrow> coll_ok J (c\<lparr>ic_execution_pins := hs_remove i (ic_execution_pins c)\<rparr>)"
  "coll_ok J c \<Longrightarrow> coll_ok J (c\<lparr>ic_persistence_enabled := b, ic_execution_dirty := fold bt_insert ids (ic_execution_dirty c)\<rparr>)"
  by (auto simp: coll_ok_def rows_ok_def index_switch_ok_def dirty_ok_def bt.elems_ins bt.elems_rem
      intro: bt.ok_ins bt.ok_rem hs.ok_ins hs.ok_rem bt.ok_fold_ins)

lemma get_mut_ok:
  assumes ok: "coll_ok J c"
    and f: "\<And>t. hm_get (ic_insights c) i = Some t \<Longrightarrow> insight_id (f t) = i \<and> row_ok J (f t)"
  shows "coll_ok J (get_mut i f c)"
  using modify_rows_ok [OF ok, of i f] modify_rows_ok [OF execution_dirty_ok(1) [OF ok, of i], of i f] f
  by (simp add: get_mut_def Let_def)

lemma views_before_prune:
  assumes "coll_ok J c"
  shows "coll_ok J (c\<lparr>ic_recovery_views := before_prune row (ic_materialized c) (ic_recovery_views c)\<rparr>)"
  using assms before_prune_ok [of "ic_recovery_views c" row "ic_materialized c"]
  by (auto simp: coll_ok_def rows_ok_def index_switch_ok_def dirty_ok_def views_ok_def)

lemma prune_terminal_insight_ok:
  assumes ok: "coll_ok J c"
  shows "\<exists>c'. prune_terminal_insight i c = Some c' \<and> coll_ok J c'
    \<and> (hm_get (ic_insights c') i \<noteq> None \<longrightarrow> held c i)
    \<and> (\<forall>j. j \<noteq> i \<longrightarrow> hm_get (ic_insights c') j = hm_get (ic_insights c) j)"
proof (cases "held c i")
  case True
  then show ?thesis using ok by (auto simp: prune_terminal_insight_def)
next
  case False
  let ?c = "c\<lparr>ic_insights := hm_remove i (ic_insights c)\<rparr>"
  let ?d = "case hm_get (ic_insights c) i of None \<Rightarrow> ?c
    | Some row \<Rightarrow> ?c\<lparr>ic_recovery_views := before_prune row (ic_materialized ?c) (ic_recovery_views ?c)\<rparr>"
  have c: "coll_ok J ?c" using take_for_update_ok [OF ok, of i] by (simp add: take_for_update_def)
  then have d: "coll_ok J ?d" using views_before_prune [OF c] by (auto split: option.split)
  have rows: "ic_insights ?d = hm_remove i (ic_insights c)" by (simp split: option.split)
  have "prune_terminal_insight i c = remove_tracking i ?d" using False by (simp add: prune_terminal_insight_def Let_def)
  then show ?thesis using remove_tracking_ok [OF d, of i] by (auto simp: rows)
qed

lemma prune_all_ok: "coll_ok J c \<Longrightarrow> \<exists>c'. prune_all is c = Some c' \<and> coll_ok J c'"
proof (induction "is" arbitrary: c)
  case (Cons i "is")
  then show ?case using prune_terminal_insight_ok [OF Cons.prems, of i] by (auto split: option.split)
qed simp

lemma remove_insight_ok:
  assumes ok: "coll_ok J c"
  shows "\<exists>r c'. remove_insight i c = Some (r, c') \<and> coll_ok J c' \<and> hm_get (ic_insights c') i = None"
proof -
  let ?c = "c\<lparr>ic_insights := hm_remove i (ic_insights c)\<rparr>"
  have c: "coll_ok J ?c" using take_for_update_ok [OF ok, of i] by (simp add: take_for_update_def)
  show ?thesis
  proof (cases "hm_get (ic_insights c) i")
    case None
    then show ?thesis using c by (simp add: remove_insight_def)
  next
    case (Some row)
    then show ?thesis using remove_tracking_ok [OF views_before_prune [OF c, of row], of i]
      by (auto simp: remove_insight_def)
  qed
qed

section \<open>Reachable collections\<close>

inductive coll_step :: "'v Json \<Rightarrow> InsightCollection \<Rightarrow> InsightCollection \<Rightarrow> bool" for J :: "'v Json" where
  add: "row_ok J t \<Longrightarrow> add_insight J t c = Some c' \<Longrightarrow> coll_step J c c'"
| take: "coll_step J c (snd (take_for_update i c))"
| restore: "row_ok J t \<Longrightarrow> was_materialized c (insight_id t) \<Longrightarrow> restore_after_update J t changed c = Some c'
    \<Longrightarrow> coll_step J c c'"
| modify: "(\<And>t. hm_get (ic_insights c) i = Some t \<Longrightarrow> insight_id (f t) = i \<and> row_ok J (f t))
    \<Longrightarrow> coll_step J c (get_mut i f c)"
| modify_unmarked: "(\<And>t. hm_get (ic_insights c) i = Some t \<Longrightarrow> insight_id (f t) = i \<and> row_ok J (f t))
    \<Longrightarrow> coll_step J c (get_insight_mut i f c)"
| refresh: "refresh_runtime_tracking J i c = Some c' \<Longrightarrow> coll_step J c c'"
| prune: "prune_terminal_insight i c = Some c' \<Longrightarrow> coll_step J c c'"
| prune_terminal: "prune_terminal_insights_without_aqs c = Some (ids, c') \<Longrightarrow> coll_step J c c'"
| prune_inactive: "prune_inactive_insights c = Some c' \<Longrightarrow> coll_step J c c'"
| remove: "remove_insight i c = Some (r, c') \<Longrightarrow> coll_step J c c'"
| published: "coll_step J c (remove_dirty i c)"
| take_dirty: "coll_step J c (snd (take_dirty_insight_ids c))"
| index_switch: "coll_step J c (set_order_id_index_enabled enabled c)"
| persist: "coll_step J c (enable_execution_persistence c)"
| pin: "coll_step J c (execution_pin i c)"
| unpin: "coll_step J c (execution_unpin i c)"
| saved: "coll_step J c (execution_saved i c)"
| mark: "coll_step J c (mark_execution_dirty i c)"

inductive coll_reachable :: "'v Json \<Rightarrow> InsightCollection \<Rightarrow> bool" for J :: "'v Json" where
  init: "coll_reachable J collection_new"
| step: "coll_reachable J c \<Longrightarrow> coll_step J c c' \<Longrightarrow> coll_reachable J c'"

lemma coll_step_ok:
  assumes "coll_step J c c'" "coll_ok J c"
  shows "coll_ok J c'"
  using assms
proof (induction rule: coll_step.induct)
  case (add t c c')
  then show ?case using add_insight_ok [of J c t] by auto
next
  case (take c i)
  then show ?case by (rule take_for_update_ok)
next
  case (restore t c changed c')
  then show ?case using restore_after_update_ok [of J c t changed] by auto
next
  case (modify c i f)
  then show ?case by (intro get_mut_ok) auto
next
  case (modify_unmarked c i f)
  then show ?case unfolding get_insight_mut_def by (intro modify_rows_ok) auto
next
  case (refresh i c c')
  then show ?case using refresh_ok [of J c i] by auto
next
  case (prune i c c')
  then show ?case using prune_terminal_insight_ok [of J c i] by auto
next
  case (prune_terminal c ids c')
  then show ?case using prune_all_ok [of J c ids] by (auto simp: prune_terminal_insights_without_aqs_def Let_def)
next
  case (prune_inactive c c')
  then show ?case using prune_all_ok [of J c] unfolding prune_inactive_insights_def by (metis option.inject)
next
  case (remove i c r c')
  then show ?case using remove_insight_ok [of J c i] by auto
next
  case (index_switch c enabled)
  then show ?case
    by (auto simp: set_order_id_index_enabled_def Let_def coll_ok_def rows_ok_def index_switch_ok_def dirty_ok_def orders_ok_def)
next
  case (published c i)
  then show ?case
    by (auto simp: remove_dirty_def coll_ok_def rows_ok_def index_switch_ok_def dirty_ok_def bt.elems_rem intro: bt.ok_rem)
next
  case (take_dirty c)
  then show ?case
    by (auto simp: take_dirty_insight_ids_def coll_ok_def rows_ok_def index_switch_ok_def dirty_ok_def)
qed (simp_all add: enable_execution_persistence_def execution_pin_def execution_unpin_def execution_saved_def
    mark_execution_dirty_def execution_dirty_ok)

lemma coll_reachable_ok: "coll_reachable J c \<Longrightarrow> coll_ok J c"
  by (induction rule: coll_reachable.induct) (auto simp: coll_ok_new dest: coll_step_ok)

end
