(* ===== verification/InsightCollectionProperties.thy ===== *)
theory InsightCollectionProperties
  imports InsightCollectionInvariant
begin

text \<open>
  What the collection promises to its callers: the indexes agree, nothing panics, recovery data is
  bounded, a recovery sweep by pages covers every id once, and descendants come before their parents.
\<close>

section \<open>A sample collection\<close>

definition sample_tree :: "uuid \<Rightarrow> uuid option \<Rightarrow> InsightState \<Rightarrow> InsightTree" where
  "sample_tree i p s = Tree ((sample_row i s)\<lparr>ins_parent_id := p, ins_order_id := Some (i @ ''-order'')\<rparr>) [] []"

lemma sample_tree_simps [simp]:
  "insight_id (sample_tree i p s) = i" "tree_state (sample_tree i p s) = s" "tree_data (sample_tree i p s) = []"
  "tree_children (sample_tree i p s) = []" "ins_parent_id (tree_row (sample_tree i p s)) = p"
  "ins_symbol (tree_row (sample_tree i p s)) = ''ETHUSD''"
  "row_ok J (sample_tree i p s)"
  by (simp_all add: sample_tree_def sample_row_def insight_id_def tree_state_def row_ok_def recovery_dependencies_def
      insight_default_def)

lemma sample_tree_orders [simp]: "collect_order_ids (sample_tree i p s) = [i @ ''-order'']"
  by (simp add: collect_order_ids_def sample_tree_def sample_row_def insight_default_def default_legs_def leg_ids_def
      somes_def leg_id_def)

definition sample_collection :: InsightCollection where
  "sample_collection = the (add_insight plain_json (sample_tree ''b'' (Some ''a'') StClosed)
     (the (add_insight plain_json (sample_tree ''a'' None StFilled) collection_new)))"

lemma sample_collection_reachable: "coll_reachable plain_json sample_collection"
proof -
  obtain c where c: "add_insight plain_json (sample_tree ''a'' None StFilled) collection_new = Some c" "coll_ok plain_json c"
    using add_insight_ok [OF coll_ok_new, of plain_json "sample_tree ''a'' None StFilled"] by auto
  obtain d where d: "add_insight plain_json (sample_tree ''b'' (Some ''a'') StClosed) c = Some d"
    using add_insight_ok [OF c(2), of "sample_tree ''b'' (Some ''a'') StClosed"] by auto
  have "coll_reachable plain_json c" by (rule coll_reachable.step [OF coll_reachable.init coll_step.add [OF _ c(1)]]) simp
  then have "coll_reachable plain_json d" by (rule coll_reachable.step [OF _ coll_step.add [OF _ d]]) simp
  then show ?thesis using c(1) d by (simp add: sample_collection_def)
qed

lemmas collection_eval = add_insight_def refresh_runtime_tracking_def collection_new_def rv_refresh_def rv_default_def
  rv_replace_def recovery_dependencies_def hm_get_def hm_insert_def hm_remove_def hs_insert_def hs_remove_def bt_insert_def
  bt_remove_def refresh_symbol_tracking_def remove_symbol_tracking_def active_symbol_def update_state_tracking_def
  increment_state_count_def decrement_state_count_def index_order_ids_for_insight_def insert_orders_def remove_orders_def
  track_activity_def is_active_def is_inactive_def Let_def unwrap_or_def

lemma sample_collection_eval:
  "ic_active sample_collection = [''a'']" "ic_ordered_active sample_collection = [''a'']"
  "ic_dirty sample_collection = [''a'', ''b'']" "ic_terminal_pending_prune sample_collection = [''b'']"
  "ic_last_known_state sample_collection = [(''a'', StFilled), (''b'', StClosed)]"
  "ic_insights sample_collection =
     [(''a'', sample_tree ''a'' None StFilled), (''b'', sample_tree ''b'' (Some ''a'') StClosed)]"
  "ic_materialized sample_collection = [''a'', ''b'']"
  by (simp_all add: sample_collection_def collection_eval)

section \<open>Agreement of the indexes\<close>

lemma bt_ok_sorted_list: "bt_ok s \<Longrightarrow> s = sorted_list_of_set (set s)"
  by (auto simp: bt_ok_def intro: sorted_distinct_set_unique)

text \<open>C9: In every reachable collection the indexes say the same: the active ids (hashed and ordered)
  are those last seen in an active state, the ids waiting for pruning those last seen in a terminal
  one, the count of a state is the number of ids last seen in it, the symbol index lists exactly the
  active ids under their symbol, and an order id leads only to an insight that registered it.\<close>

theorem collection_indexes_agree:
  assumes "coll_reachable J c"
  shows "set (ic_active c) = {i. \<exists>s. hm_get (ic_last_known_state c) i = Some s \<and> is_active s}
    \<and> ic_ordered_active c = sorted_list_of_set (set (ic_active c))
    \<and> ic_terminal_pending_prune c =
        sorted_list_of_set {i. \<exists>s. hm_get (ic_last_known_state c) i = Some s \<and> is_inactive s}
    \<and> unwrap_or (hm_get (ic_state_counts c) s) 0 = card {i. hm_get (ic_last_known_state c) i = Some s}
    \<and> unwrap_or (hm_get (ic_active_by_symbol c) symbol) [] =
        sorted_list_of_set {i. hm_get (ic_active_symbol_by_id c) i = Some symbol}
    \<and> {i. hm_get (ic_active_symbol_by_id c) i \<noteq> None} = set (ic_active c)
    \<and> (insight_id_for_order c x = Some i \<longrightarrow>
        (\<exists>os. hm_get (ic_insight_to_orders c) i = Some os \<and> x \<in> set os))"
proof -
  have ok: "coll_ok J c" by (rule coll_reachable_ok [OF assms])
  have act: "activity_ok (ic_last_known_state c) (ic_active c) (ic_ordered_active c) (ic_terminal_pending_prune c)"
    and states: "states_ok (ic_last_known_state c) (ic_state_counts c)"
    and sym: "symbols_ok (ic_active_by_symbol c) (ic_active_symbol_by_id c)"
    and rest: "{i. hm_get (ic_active_symbol_by_id c) i \<noteq> None} = set (ic_active c)"
      "orders_ok (ic_order_to_insight c) (ic_insight_to_orders c)"
    using ok unfolding coll_ok_def by blast+
  have "unwrap_or (hm_get (ic_state_counts c) s) 0 = card {i. hm_get (ic_last_known_state c) i = Some s}"
    using states by (simp add: states_ok_def in_state_def)
  moreover have "unwrap_or (hm_get (ic_active_by_symbol c) symbol) [] =
        sorted_list_of_set {i. hm_get (ic_active_symbol_by_id c) i = Some symbol}"
    using sym bt_ok_sorted_list [of "ids_of (ic_active_by_symbol c) symbol"] by (simp add: symbols_ok_def ids_of_def)
  moreover have "ic_ordered_active c = sorted_list_of_set (set (ic_active c))"
    "ic_terminal_pending_prune c = sorted_list_of_set {i. \<exists>s. hm_get (ic_last_known_state c) i = Some s \<and> is_inactive s}"
    using act bt_ok_sorted_list [of "ic_ordered_active c"] bt_ok_sorted_list [of "ic_terminal_pending_prune c"]
    by (simp_all add: activity_ok_def)
  ultimately show ?thesis
    using act rest by (simp add: activity_ok_def orders_ok_def insight_id_for_order_def)
qed

theorem collection_indexes_agree_witness:
  "{''a''} = {i. \<exists>s. hm_get [(''a'', StFilled), (''b'', StClosed)] i = Some s \<and> is_active s}
   \<and> card {i. hm_get (ic_last_known_state sample_collection) i = Some StClosed} = 1"
proof -
  have "unwrap_or (hm_get (ic_state_counts sample_collection) StClosed) 0 = 1"
    by (simp add: sample_collection_def collection_eval)
  then show ?thesis
    using collection_indexes_agree [OF sample_collection_reachable, of StClosed "''ETHUSD''" "''a-order''" "''a''"]
    by (simp add: sample_collection_eval)
qed

text \<open>C30: No operation on a reachable collection panics: the reference counts of the recovery views
  never miss a registered dependency nor underflow, and the assertion that nothing is retained
  without an owner holds.\<close>

theorem collection_never_panics:
  assumes "coll_reachable J c" and "row_ok J t"
  shows "add_insight J t c \<noteq> None \<and> refresh_runtime_tracking J i c \<noteq> None \<and> prune_terminal_insight i c \<noteq> None
    \<and> prune_terminal_insights_without_aqs c \<noteq> None \<and> prune_inactive_insights c \<noteq> None \<and> remove_insight i c \<noteq> None
    \<and> (was_materialized c (insight_id t) \<longrightarrow> restore_after_update J t changed c \<noteq> None)"
proof -
  have ok: "coll_ok J c" by (rule coll_reachable_ok [OF assms(1)])
  have all: "prune_all ids c \<noteq> None" for ids using prune_all_ok [OF ok, of ids] by auto
  show ?thesis
    using add_insight_ok [OF ok assms(2)] refresh_ok [OF ok, of i] prune_terminal_insight_ok [OF ok, of i] all
      remove_insight_ok [OF ok, of i] restore_after_update_ok [OF ok assms(2), of changed]
    by (auto simp: prune_terminal_insights_without_aqs_def prune_inactive_insights_def Let_def)
qed

theorem collection_never_panics_witness:
  "add_insight plain_json (sample_tree ''c'' None StNew) sample_collection \<noteq> None
   \<and> remove_insight ''a'' sample_collection \<noteq> None"
  using collection_never_panics [of plain_json sample_collection "sample_tree ''c'' None StNew" "''a''" True]
    sample_collection_reachable by simp

text \<open>C31: The recovery data the collection retains is bounded by its active insights, at most sixteen
  owners for each; when none is active nothing is retained at all.\<close>

theorem recovery_views_bounded:
  assumes "coll_reachable J c"
  shows "card {i. hm_get (rv_retained (ic_recovery_views c)) i \<noteq> None} \<le> 16 * length (ic_active c)
    \<and> (ic_active c = [] \<longrightarrow> ic_recovery_views c = rv_default)"
proof -
  have ok: "coll_ok J c" by (rule coll_reachable_ok [OF assms])
  let ?v = "ic_recovery_views c"
  have v: "rv_ok ?v" and owners: "\<And>owner ds. hm_get (rv_owners ?v) owner = Some ds \<Longrightarrow> owner \<in> set (ic_active c) \<and> length ds \<le> 16"
    using ok by (auto simp: coll_ok_def views_ok_def)
  have "distinct (ic_active c)" using ok by (simp add: coll_ok_def activity_ok_def)
  then have card: "card (set (ic_active c)) = length (ic_active c)" by (rule distinct_card)
  have counts: "card {i. hm_get (rv_counts ?v) i \<noteq> None} \<le> 16 * card (set (ic_active c))"
    by (rule counts_bounded [OF v]) (use owners in auto)
  have sub: "{i. hm_get (rv_retained ?v) i \<noteq> None} \<subseteq> {i. hm_get (rv_counts ?v) i \<noteq> None}"
    using v by (auto simp: rv_ok_def)
  have "{i. hm_get (rv_counts ?v) i \<noteq> None} = set (hm_keys (rv_counts ?v))" unfolding hm_get_keys by simp
  then have "card {i. hm_get (rv_retained ?v) i \<noteq> None} \<le> card {i. hm_get (rv_counts ?v) i \<noteq> None}"
    using sub by (intro card_mono) auto
  moreover have "?v = rv_default" if "ic_active c = []"
  proof -
    have "hm_get (rv_owners ?v) owner = None" for owner using owners [of owner] that by (cases "hm_get (rv_owners ?v) owner") auto
    then have "rv_owners ?v = []" by (simp add: hm_get_Nil_iff)
    moreover from this have "dependents ?v i = {}" for i by (simp add: dependents_def)
    then have "rv_counts ?v = []" "rv_retained ?v = []" using v by (auto simp: rv_ok_def hm_get_Nil_iff)
    ultimately show ?thesis by (simp add: rv_default_def)
  qed
  ultimately show ?thesis using counts card by auto
qed

theorem recovery_views_bounded_witness:
  "card {i. hm_get (rv_retained (ic_recovery_views sample_collection)) i \<noteq> None} \<le> 16"
  using recovery_views_bounded [OF sample_collection_reachable] by (simp add: sample_collection_eval)

section \<open>Recovery sweeps\<close>

text \<open>The reader of the pages: it goes on from the last id of a page until a page is empty.\<close>

fun sweep :: "(uuid option \<Rightarrow> uuid list) \<Rightarrow> nat \<Rightarrow> uuid option \<Rightarrow> uuid list" where
  "sweep page 0 after = []"
| "sweep page (Suc n) after = (let p = page after in if p = [] then [] else p @ sweep page n (Some (last p)))"

text \<open>A paged ordered set is read completely, each element once.\<close>

lemma sweep_complete:
  assumes "bt_ok s" "0 < k" "\<And>after. page after = take k (bt_range after upper s)"
    and "length (bt_range after upper s) \<le> n"
  shows "sweep page n after = bt_range after upper s"
  using assms(4)
proof (induction n arbitrary: after)
  case (Suc n)
  show ?case
  proof (cases "page after = []")
    case True
    then have "bt_range after upper s = []" using assms(2) assms(3) [of after] by auto
    then show ?thesis using True by simp
  next
    case False
    note resume = bt_range_resume [OF assms(1) assms(3) [symmetric] False]
    have "length (bt_range (Some (last (page after))) upper s) \<le> n"
      using Suc.prems assms(2) by (simp add: resume)
    then have "sweep page (Suc n) after = page after @ drop k (bt_range after upper s)"
      using Suc.IH False resume by (simp add: Let_def)
    then show ?thesis using assms(3) [of after] by simp
  qed
qed simp

lemma set_somes: "set (somes xs) = {x. Some x \<in> set xs}"
  by (induction xs) (auto simp: somes_def split: option.splits)

lemma peek_min: "bt_ok s \<Longrightarrow> x \<in> set s \<Longrightarrow> \<exists>y. peek s = Some y \<and> y \<le> x \<and> y \<in> set s"
  by (cases s) (auto simp: peek_def bt_ok_Cons)

lemma peek_None [simp]: "peek s = None \<longleftrightarrow> s = []"
  by (cases s) (simp_all add: peek_def)

lemma peek_in: "peek s = Some x \<Longrightarrow> x \<in> set s"
  by (cases s) (simp_all add: peek_def)

lemma set_skip:
  assumes "bt_ok s" "\<forall>y\<in>set s. x \<le> y"
  shows "set (skip x s) = set s - {x}" "bt_ok (skip x s)"
  using assms by (cases s; auto simp: skip_def peek_def bt_ok_Cons)+

lemma merge3_union:
  assumes "bt_ok a" "bt_ok d" "bt_ok t"
  shows "merge3 n a d t = take n (sorted_list_of_set (set a \<union> set d \<union> set t))"
  using assms
proof (induction n arbitrary: a d t)
  case (Suc n)
  let ?U = "set a \<union> set d \<union> set t"
  show ?case
  proof (cases "?U = {}")
    case True
    then show ?thesis by (simp add: opt_min_def somes_def peek_def)
  next
    case False
    let ?P = "set (somes [peek a, peek d, peek t])"
    have P: "?P = {x. peek a = Some x \<or> peek d = Some x \<or> peek t = Some x}" by (auto simp: set_somes)
    obtain x where x: "x \<in> ?U" using False by (meson ex_in_conv)
    have low: "\<exists>y\<in>?P. y \<le> x" if "x \<in> ?U" for x using that peek_min Suc.prems unfolding P by blast
    have sub: "?P \<subseteq> ?U" unfolding P by (auto dest: peek_in)
    have fin: "finite ?P" by simp
    have ne: "?P \<noteq> {}" using low [OF x] by (auto simp del: set_somes)
    have min: "Min ?P = Min ?U"
    proof (rule antisym)
      show "Min ?U \<le> Min ?P" using sub ne by (intro Min_antimono) auto
      show "Min ?P \<le> Min ?U" using low [of "Min ?U"] False fin by (metis Min_in Min_le_iff finite_UnI List.finite_set ne)
    qed
    have om: "opt_min [peek a, peek d, peek t] = Some (Min ?U)" using ne min by (auto simp: opt_min_def)
    let ?m = "Min ?U"
    have le: "\<forall>y\<in>set a. ?m \<le> y" "\<forall>y\<in>set d. ?m \<le> y" "\<forall>y\<in>set t. ?m \<le> y" by auto
    have "sorted_list_of_set ?U = ?m # sorted_list_of_set (?U - {?m})"
      using False by (intro sorted_list_of_set_nonempty) auto
    moreover have "set (skip ?m a) \<union> set (skip ?m d) \<union> set (skip ?m t) = ?U - {?m}"
      using set_skip(1) [OF Suc.prems(1) le(1)] set_skip(1) [OF Suc.prems(2) le(2)] set_skip(1) [OF Suc.prems(3) le(3)]
      by auto
    ultimately show ?thesis
      using Suc.IH [OF set_skip(2) [OF Suc.prems(1) le(1)] set_skip(2) [OF Suc.prems(2) le(2)]
          set_skip(2) [OF Suc.prems(3) le(3)]] om
      by (simp del: Un_iff)
  qed
qed simp

definition unpublished :: "InsightCollection \<Rightarrow> uuid set" where
  "unpublished c = set (ic_ordered_active c) \<union> set (ic_dirty c) \<union> set (ic_terminal_pending_prune c)"

lemma cloud_page_eq:
  assumes "coll_ok J c" "0 < limit"
  shows "cloud_recovery_page c after upper limit =
    take (min limit 128) (bt_range after upper (sorted_list_of_set (unpublished c)))"
proof -
  have ok: "bt_ok (ic_ordered_active c)" "bt_ok (ic_dirty c)" "bt_ok (ic_terminal_pending_prune c)"
    using assms(1) by (auto simp: coll_ok_def activity_ok_def dirty_ok_def)
  have fin: "finite (unpublished c)" by (simp add: unpublished_def)
  let ?r = "bt_range after upper"
  have s: "bt_ok (sorted_list_of_set (unpublished c))" by (simp add: bt_ok_def)
  have "sorted_list_of_set (set (?r (ic_ordered_active c)) \<union> set (?r (ic_dirty c)) \<union> set (?r (ic_terminal_pending_prune c)))
      = ?r (sorted_list_of_set (unpublished c))"
  proof (rule bt_ok_unique)
    show "bt_ok (?r (sorted_list_of_set (unpublished c)))" unfolding bt_range_def by (rule bt_ok_filter [OF s])
  qed (auto simp: bt_ok_def bt_range_def fin unpublished_def)
  moreover have "bt_range after upper xs = []" if "cursor_done after upper limit" for xs
    using that assms(2) by (auto simp: cursor_done_def bt_range_def past_def filter_empty_conv split: option.splits)
  moreover have "merge3 k (?r (ic_ordered_active c)) (?r (ic_dirty c)) (?r (ic_terminal_pending_prune c)) =
      take k (sorted_list_of_set (set (?r (ic_ordered_active c)) \<union> set (?r (ic_dirty c)) \<union> set (?r (ic_terminal_pending_prune c))))" for k
    by (rule merge3_union) (simp_all add: bt_range_def bt_ok_filter ok)
  ultimately show ?thesis by (simp add: cloud_recovery_page_def)
qed

text \<open>C33: A recovery sweep by pages of any positive size, from the captured upper bound, reads every
  active, dirty or terminal id of the collection exactly once and in order; a page never exceeds the
  limit nor 128 rows.\<close>

theorem recovery_sweep_complete:
  assumes "coll_reachable J c" "0 < limit" "cloud_recovery_upper_bound c = Some upper"
    and "card (unpublished c) \<le> n"
  shows "sweep (\<lambda>after. cloud_recovery_page c after upper limit) n None = sorted_list_of_set (unpublished c)
    \<and> length (cloud_recovery_page c after upper limit) \<le> min limit 128"
proof -
  have ok: "coll_ok J c" by (rule coll_reachable_ok [OF assms(1)])
  have fin: "finite (unpublished c)" by (simp add: unpublished_def)
  have sorted: "bt_ok (ic_ordered_active c)" "bt_ok (ic_dirty c)" "bt_ok (ic_terminal_pending_prune c)"
    using ok by (auto simp: coll_ok_def activity_ok_def dirty_ok_def)
  let ?B = "set (somes [bt_last (ic_ordered_active c), bt_last (ic_dirty c), bt_last (ic_terminal_pending_prune c)])"
  have B: "upper = Max ?B" "?B \<noteq> {}"
    using assms(3) by (auto simp: cloud_recovery_upper_bound_def opt_max_def split: if_splits)
  have le: "x \<le> upper" if "x \<in> unpublished c" for x
  proof -
    have "\<exists>u\<in>?B. x \<le> u"
      using that bt_last_max [OF sorted(1), of _ x] bt_last_max [OF sorted(2), of _ x] bt_last_max [OF sorted(3), of _ x]
      unfolding unpublished_def set_somes by (cases "bt_last (ic_ordered_active c)"; cases "bt_last (ic_dirty c)";
          cases "bt_last (ic_terminal_pending_prune c)") auto
    then obtain u where "u \<in> ?B" "x \<le> u" by blast
    moreover from this have "u \<le> upper" using B by simp
    ultimately show ?thesis by simp
  qed
  let ?s = "sorted_list_of_set (unpublished c)"
  have all: "bt_range None upper ?s = ?s" using le fin by (auto simp: bt_range_def past_def filter_id_conv)
  have "sweep (\<lambda>after. cloud_recovery_page c after upper limit) n None = bt_range None upper ?s"
  proof (rule sweep_complete [where k = "min limit 128"])
    show "bt_ok ?s" by (simp add: bt_ok_def)
    show "length (bt_range None upper ?s) \<le> n" using assms(4) fin by (simp add: all)
  qed (use assms(2) cloud_page_eq [OF ok] in auto)
  then show ?thesis using cloud_page_eq [OF ok assms(2)] by (simp add: all min_def)
qed

theorem recovery_sweep_complete_witness:
  "sweep (\<lambda>after. cloud_recovery_page sample_collection after ''b'' 1) 2 None = sorted_list_of_set (unpublished sample_collection)
   \<and> unpublished sample_collection = {''a'', ''b''}"
proof -
  have "cloud_recovery_upper_bound sample_collection = Some ''b''"
    by (simp add: cloud_recovery_upper_bound_def sample_collection_eval bt_last_def last_opt_def opt_max_def somes_def)
  moreover have "unpublished sample_collection = {''a'', ''b''}" by (auto simp: unpublished_def sample_collection_eval)
  ultimately show ?thesis
    using recovery_sweep_complete [of plain_json sample_collection 1 "''b''" 2 None] sample_collection_reachable by simp
qed

section \<open>Descendants\<close>

definition parent_of :: "InsightCollection \<Rightarrow> uuid \<Rightarrow> uuid option" where
  "parent_of c i = (case hm_get (ic_insights c) i of None \<Rightarrow> None | Some t \<Rightarrow> ins_parent_id (tree_row t))"

lemma child_ids_iff:
  assumes "hm_ok (ic_insights c)"
  shows "i \<in> set (child_ids_for_parents c ps) \<longleftrightarrow> (\<exists>p\<in>set ps. parent_of c i = Some p)"
    and "distinct (child_ids_for_parents c ps)"
proof -
  have d: "distinct (map fst (ic_insights c))" using assms by (simp add: hm_ok_def)
  have "(i, t) \<in> set (ic_insights c) \<longleftrightarrow> hm_get (ic_insights c) i = Some t" for t
    using d by (simp add: hm_get_def)
  then show "i \<in> set (child_ids_for_parents c ps) \<longleftrightarrow> (\<exists>p\<in>set ps. parent_of c i = Some p)"
    by (force simp: child_ids_for_parents_def parent_of_def image_iff split: option.splits)
  show "distinct (child_ids_for_parents c ps)"
    using d by (simp add: child_ids_for_parents_def distinct_map_filter)
qed

lemma generation_iff:
  assumes "hm_ok (ic_insights c)"
  shows "i \<in> set (generation c visited ps) \<longleftrightarrow> i \<notin> set visited \<and> (\<exists>p\<in>set ps. parent_of c i = Some p)"
    and "distinct (generation c visited ps)"
  using child_ids_iff [OF assms] by (auto simp: generation_def)

inductive descends :: "InsightCollection \<Rightarrow> uuid set \<Rightarrow> uuid \<Rightarrow> bool" for c :: InsightCollection and ps :: "uuid set" where
  child: "parent_of c i = Some p \<Longrightarrow> p \<in> ps \<Longrightarrow> descends c ps i"
| grandchild: "parent_of c i = Some p \<Longrightarrow> descends c ps p \<Longrightarrow> descends c ps i"

lemma descends_trans: "descends c qs i \<Longrightarrow> (\<And>q. q \<in> qs \<Longrightarrow> descends c ps q) \<Longrightarrow> descends c ps i"
  by (induction rule: descends.induct) (auto intro: descends.intros)

definition deepest_first :: "InsightCollection \<Rightarrow> uuid list \<Rightarrow> bool" where
  "deepest_first c R \<longleftrightarrow> (\<forall>A p B i. R = A @ p # B \<longrightarrow> i \<in> set R \<longrightarrow> parent_of c i = Some p \<longrightarrow> i \<in> set A)"

text \<open>One more generation at the end of the list.\<close>

lemma deepest_first_append:
  assumes R: "deepest_first c R" and new: "\<And>i p. i \<in> set g \<Longrightarrow> parent_of c i = Some p \<Longrightarrow> p \<notin> set (R @ g)"
    and dist: "set R \<inter> set g = {}"
  shows "deepest_first c (R @ g)"
  unfolding deepest_first_def
proof (intro allI impI)
  fix A p B i
  assume eq: "R @ g = A @ p # B" and i: "i \<in> set (R @ g)" "parent_of c i = Some p"
  have "p \<in> set (R @ g)" unfolding eq by simp
  then have iR: "i \<in> set R" using new i by auto
  show "i \<in> set A"
  proof (cases "length A < length R")
    case True
    then obtain us where "R = A @ us" "us \<noteq> []" "us @ g = p # B" using eq by (auto simp: append_eq_append_conv2)
    then obtain B' where "R = A @ p # B'" by (cases us) auto
    then show ?thesis using R iR i(2) by (auto simp: deepest_first_def)
  next
    case False
    then obtain A' where "A = R @ A'" using eq by (auto simp: append_eq_append_conv2 Cons_eq_append_conv)
    then show ?thesis using iR by simp
  qed
qed

lemma generations_ok:
  assumes "hm_ok (ic_insights c)" "set frontier \<subseteq> set visited"
  shows "let R = concat (rev (generations c visited frontier)) in
     distinct R \<and> set R \<inter> set visited = {} \<and> (\<forall>i\<in>set R. descends c (set frontier) i)
     \<and> (\<forall>i p. parent_of c i = Some p \<longrightarrow> p \<in> set frontier \<union> set R \<longrightarrow> i \<in> set visited \<union> set R)
     \<and> deepest_first c R"
  using assms
proof (induction c visited frontier rule: generations.induct)
  case (1 c visited frontier)
  let ?g = "generation c visited frontier"
  have stop: ?case if "frontier = [] \<or> ?g = []"
  proof -
    have "generations c visited frontier = []" using that by (auto simp: generations.simps)
    moreover have "i \<in> set visited" if "parent_of c i = Some p" "p \<in> set frontier" for i p
      using that \<open>frontier = [] \<or> ?g = []\<close> generation_iff(1) [OF "1.prems"(1), of i visited frontier] by auto
    ultimately show ?thesis by (simp add: Let_def deepest_first_def)
  qed
  show ?case
  proof (cases "frontier = [] \<or> ?g = []")
    case False
    let ?R = "concat (rev (generations c (visited @ ?g) ?g))"
    have eq: "concat (rev (generations c visited frontier)) = ?R @ ?g"
      using False by (subst generations.simps) (simp add: Let_def)
    have IH: "distinct ?R" "set ?R \<inter> set (visited @ ?g) = {}" "\<forall>i\<in>set ?R. descends c (set ?g) i"
      "\<forall>i p. parent_of c i = Some p \<longrightarrow> p \<in> set ?g \<union> set ?R \<longrightarrow> i \<in> set (visited @ ?g) \<union> set ?R" "deepest_first c ?R"
      using "1.IH" False "1.prems"(1) unfolding Let_def by auto
    note g = generation_iff(1) [OF "1.prems"(1), of _ visited frontier] generation_iff(2) [OF "1.prems"(1)]
    have d: "descends c (set frontier) i" if "i \<in> set ?g" for i using that g(1) by (auto intro: descends.child)
    have "deepest_first c (?R @ ?g)"
    proof (rule deepest_first_append [OF IH(5)])
      fix i p assume i: "i \<in> set ?g" "parent_of c i = Some p"
      then have "p \<in> set visited" using g(1) [of i] "1.prems"(2) by auto
      then show "p \<notin> set (?R @ ?g)" using IH(2) g(1) [of p] by auto
    qed (use IH(2) in auto)
    moreover have "i \<in> set visited \<union> set (?R @ ?g)" if "parent_of c i = Some p" "p \<in> set frontier \<union> set (?R @ ?g)" for i p
      using that IH(4) [rule_format, of i p] g(1) [of i] by auto
    moreover have "distinct (?R @ ?g)" "set (?R @ ?g) \<inter> set visited = {}" using IH(1,2) g by auto
    moreover have "descends c (set frontier) i" if "i \<in> set (?R @ ?g)" for i
      using that IH(3) d descends_trans [of c "set ?g" i "set frontier"] by auto
    ultimately show ?thesis unfolding eq Let_def by blast
  qed (rule stop)
qed

text \<open>The descendants of a set of parents are found completely and once each, also when parent
  references form a cycle, and a descendant always comes before its own parent.\<close>

theorem descendants_deepest_first:
  assumes "coll_reachable J c"
  shows "distinct (descendant_ids_for_parents c parents)
    \<and> set (descendant_ids_for_parents c parents) = {i. descends c (set parents) i} - set parents
    \<and> (descendant_ids_for_parents c parents = A @ p # B \<longrightarrow> i \<in> set (descendant_ids_for_parents c parents)
       \<longrightarrow> parent_of c i = Some p \<longrightarrow> i \<in> set A)"
proof -
  have rows: "hm_ok (ic_insights c)" using coll_reachable_ok [OF assms] by (simp add: coll_ok_def rows_ok_def)
  let ?R = "descendant_ids_for_parents c parents"
  have R: "distinct ?R" "set ?R \<inter> set parents = {}" "\<forall>i\<in>set ?R. descends c (set parents) i"
     "\<forall>i p. parent_of c i = Some p \<longrightarrow> p \<in> set parents \<union> set ?R \<longrightarrow> i \<in> set parents \<union> set ?R" "deepest_first c ?R"
    using generations_ok [OF rows, of parents parents] by (auto simp: Let_def descendant_ids_for_parents_def)
  have "i \<in> set parents \<union> set ?R" if "descends c (set parents) i" for i
    using that by induction (use R(4) in auto)
  then have "set ?R = {i. descends c (set parents) i} - set parents" using R(2,3) by auto
  then show ?thesis using R(1,5) by (auto simp: deepest_first_def)
qed

theorem descendants_deepest_first_witness:
  "distinct (descendant_ids_for_parents sample_collection [''a''])
   \<and> descends sample_collection {''a''} ''b''"
  using descendants_deepest_first [OF sample_collection_reachable, of "[''a'']" "[]" "''a''" "[]" "''b''"]
    descends.child [of sample_collection "''b''" "''a''"]
  by (simp add: parent_of_def sample_collection_eval hm_get_def)

end
