(* ===== verification/InsightQuantity.thy ===== *)
theory InsightQuantity
  imports InsightCollectionProperties
begin

text \<open>
  The reservation walk of the collection (\<open>src/core/insight/quantity.rs\<close>): every active insight, and
  every queued descendant that is not a row of its own yet, is counted once; a tree that is being
  resized, with its descendants, is left out.
\<close>

section \<open>The walk\<close>

definition parent_index :: "InsightCollection \<Rightarrow> (uuid, uuid list) hmap" where
  "parent_index c = fold (\<lambda>i m. case parent_of c i of None \<Rightarrow> m
     | Some p \<Rightarrow> hm_insert p (unwrap_or (hm_get m p) [] @ [i]) m) (ic_active c) []"

text \<open>The children that \<open>seen.insert\<close> accepts, in order.\<close>

fun fresh_ids :: "uuid list \<Rightarrow> uuid list \<Rightarrow> uuid list" where
  "fresh_ids [] seen = []"
| "fresh_ids (i # is) seen = (if i \<in> set seen then fresh_ids is seen else i # fresh_ids is (hs_insert i seen))"

lemma set_fresh_ids: "set (fresh_ids is seen) = set is - set seen"
  by (induction "is" seen rule: fresh_ids.induct) (auto simp: hs.elems_ins)

definition index_children :: "(uuid, uuid list) hmap \<Rightarrow> uuid \<Rightarrow> uuid list" where
  "index_children m i = unwrap_or (hm_get m i) []"

lemma index_children_sub: "set (index_children m i) \<subseteq> \<Union> (set ` snd ` set m)"
  by (cases "hm_get m i") (auto simp: index_children_def hm_get_def dest!: map_of_SomeD)

text \<open>The head of the list is the top of the stack.\<close>

function close_ids :: "(uuid, uuid list) hmap \<Rightarrow> uuid list \<Rightarrow> uuid list \<Rightarrow> uuid list" where
  "close_ids m seen [] = seen"
| "close_ids m seen (i # ids) =
     (let new = fresh_ids (index_children m i) seen in close_ids m (seen @ new) (rev new @ ids))"
  by pat_completeness auto
termination
proof (relation "measures [\<lambda>(m, seen, ids). card (\<Union> (set ` snd ` set m) - set seen), \<lambda>(m, seen, ids). length ids]")
  fix m seen i ids new
  assume new: "new = fresh_ids (index_children m i) seen"
  let ?U = "\<Union> (set ` snd ` set m)"
  have sub: "set new \<subseteq> ?U - set seen" using index_children_sub [of m i] by (auto simp: new set_fresh_ids)
  show "((m, seen @ new, rev new @ ids), m, seen, i # ids) \<in>
      measures [\<lambda>(m, seen, ids). card (\<Union> (set ` snd ` set m) - set seen), \<lambda>(m, seen, ids). length ids]"
  proof (cases "new = []")
    case False
    then have "?U - set (seen @ new) \<subset> ?U - set seen" using sub by (cases new) auto
    then have "card (?U - set (seen @ new)) < card (?U - set seen)" by (intro psubset_card_mono) auto
    then show ?thesis by simp
  qed simp
qed simp

definition excluded_ids :: "InsightCollection \<Rightarrow> InsightTree option \<Rightarrow> uuid list" where
  "excluded_ids c exclude = (case exclude of None \<Rightarrow> []
     | Some tree \<Rightarrow> let seen = collect_ids [] [tree] in close_ids (parent_index c) seen (rev seen))"

definition visit_quantity_insights :: "InsightCollection \<Rightarrow> InsightTree option \<Rightarrow> InsightTree list" where
  "visit_quantity_insights c exclude =
     visit_rows (\<lambda>child. insight_id child \<notin> set (ic_materialized c)) (excluded_ids c exclude)
       (rev (iter_active_insights c))"

definition visit_active_insights :: "InsightCollection \<Rightarrow> InsightTree list" where
  "visit_active_insights c = visit_quantity_insights c None"

record InsightQuantitySize =
  qs_total_count :: nat
  qs_total_quantity :: f64
  qs_new :: nat
  qs_executed :: nat
  qs_filled :: nat
  qs_insights :: "InsightTree list"

definition in_symbol :: "string \<Rightarrow> InsightTree \<Rightarrow> bool" where
  "in_symbol symbol t \<longleftrightarrow> ins_symbol (tree_row t) = symbol"

definition total_insight_quantity_size :: "InsightCollection \<Rightarrow> string \<Rightarrow> InsightQuantitySize" where
  "total_insight_quantity_size c symbol =
     (let rows = filter (in_symbol symbol) (visit_quantity_insights c None)
      in \<lparr>qs_total_count = length rows, qs_total_quantity = total_quantity rows,
          qs_new = length (filter (\<lambda>t. tree_state t = StNew) rows),
          qs_executed = length (filter (\<lambda>t. tree_state t = StExecuted) rows),
          qs_filled = length (filter (\<lambda>t. tree_state t = StFilled) rows), qs_insights = rows\<rparr>)"

definition allocated_quantity_excluding :: "InsightCollection \<Rightarrow> string \<Rightarrow> InsightTree \<Rightarrow> f64" where
  "allocated_quantity_excluding c symbol tree =
     total_quantity (filter (in_symbol symbol) (visit_quantity_insights c (Some tree)))"

definition pending_entry :: "InsightTree \<Rightarrow> bool" where
  "pending_entry t \<longleftrightarrow> (tree_state t = StNew \<or> tree_state t = StExecuted) \<and> ins_order_type (tree_row t) \<noteq> Market"

definition pending_order_count_excluding :: "InsightCollection \<Rightarrow> InsightTree \<Rightarrow> nat" where
  "pending_order_count_excluding c tree = length (filter pending_entry (visit_quantity_insights c (Some tree)))"

section \<open>What is excluded\<close>

lemma close_ids_mono: "set seen \<subseteq> set (close_ids m seen ids)"
  by (induction m seen ids rule: close_ids.induct) (auto simp: Let_def)

lemma close_ids_closed:
  assumes "\<forall>i\<in>set seen. i \<in> set ids \<or> set (index_children m i) \<subseteq> set seen"
  shows "\<forall>i\<in>set (close_ids m seen ids). set (index_children m i) \<subseteq> set (close_ids m seen ids)"
  using assms
proof (induction m seen ids rule: close_ids.induct)
  case (2 m seen i ids)
  let ?new = "fresh_ids (index_children m i) seen"
  have "\<forall>j\<in>set (seen @ ?new). j \<in> set (rev ?new @ ids) \<or> set (index_children m j) \<subseteq> set (seen @ ?new)"
    using "2.prems" by (auto simp: set_fresh_ids)
  then show ?case using "2.IH" by (simp add: Let_def)
qed simp

lemma index_children_fold:
  "index_children (fold (\<lambda>i m. case parent_of c i of None \<Rightarrow> m
     | Some p \<Rightarrow> hm_insert p (unwrap_or (hm_get m p) [] @ [i]) m) is m) p =
   index_children m p @ filter (\<lambda>i. parent_of c i = Some p) is"
  by (induction "is" arbitrary: m) (auto simp: index_children_def split: option.split)

lemma parent_index_children: "index_children (parent_index c) p = filter (\<lambda>i. parent_of c i = Some p) (ic_active c)"
  by (simp add: parent_index_def index_children_fold) (simp add: index_children_def)

lemma excluded_tree:
  "insight_id tree \<in> set (excluded_ids c (Some tree))"
  "child \<in> set (tree_children tree) \<Longrightarrow> insight_id child \<in> set (excluded_ids c (Some tree))"
  "p \<in> set (excluded_ids c (Some tree)) \<Longrightarrow> i \<in> set (ic_active c) \<Longrightarrow> parent_of c i = Some p
     \<Longrightarrow> i \<in> set (excluded_ids c (Some tree))"
proof -
  let ?seen = "collect_ids [] [tree]"
  have mono: "set ?seen \<subseteq> set (excluded_ids c (Some tree))"
    unfolding excluded_ids_def option.case Let_def by (rule close_ids_mono)
  show "insight_id tree \<in> set (excluded_ids c (Some tree))"
    using mono collect_ids_stack [of tree "[tree]" "[]"] by auto
  show "insight_id child \<in> set (excluded_ids c (Some tree))" if "child \<in> set (tree_children tree)"
    using mono that collect_ids_stack [of child "rev (tree_children tree)" "hs_insert (insight_id tree) []"] by auto
  show "i \<in> set (excluded_ids c (Some tree))"
    if "p \<in> set (excluded_ids c (Some tree))" "i \<in> set (ic_active c)" "parent_of c i = Some p"
    using close_ids_closed [of ?seen "rev ?seen" "parent_index c"] that
    by (auto simp: excluded_ids_def Let_def parent_index_children)
qed

section \<open>What is counted\<close>

lemma set_iter_active: "set (iter_active_insights c) = {t. \<exists>i\<in>set (ic_active c). hm_get (ic_insights c) i = Some t}"
  by (force simp: iter_active_insights_def set_somes image_iff)

text \<open>C10: The walk counts every active insight of a reachable collection exactly once: no id twice, only
  active rows, every active row that is not excluded, and beside the rows only descendants that were
  never rows themselves; nothing of the excluded tree (itself, its children, and every tracked
  descendant) is counted.\<close>

theorem reservation_counts_once:
  fixes exclude tree
  assumes "coll_reachable J c"
  defines "rows \<equiv> visit_quantity_insights c exclude"
  shows "distinct (map insight_id rows)
    \<and> set rows \<subseteq> {t. is_active (tree_state t) \<and> insight_id t \<notin> set (excluded_ids c exclude)
         \<and> (hm_get (ic_insights c) (insight_id t) = Some t \<or> \<not> was_materialized c (insight_id t))}
    \<and> {t. \<exists>i\<in>set (ic_active c). hm_get (ic_insights c) i = Some t \<and> is_active (tree_state t)
         \<and> i \<notin> set (excluded_ids c exclude)} \<subseteq> set rows
    \<and> (exclude = Some tree \<longrightarrow> insight_id ` insert tree (set (tree_children tree)) \<subseteq> set (excluded_ids c exclude)
         \<and> {i \<in> set (ic_active c). \<exists>p\<in>set (excluded_ids c exclude). parent_of c i = Some p} \<subseteq> set (excluded_ids c exclude))"
proof -
  let ?push = "\<lambda>child. insight_id child \<notin> set (ic_materialized c)"
  have ok: "rows_ok J c" using coll_reachable_ok [OF assms(1)] by (simp add: coll_ok_def)
  then have canon: "insight_id t = i \<and> i \<in> set (ic_materialized c)" if "hm_get (ic_insights c) i = Some t" for i t
    using that by (auto simp: rows_ok_def)
  have "is_active (tree_state t) \<and> insight_id t \<notin> set (excluded_ids c exclude)
      \<and> (hm_get (ic_insights c) (insight_id t) = Some t \<or> \<not> was_materialized c (insight_id t))" if "t \<in> set rows" for t
  proof -
    have t: "t \<in> set (visit_rows ?push (excluded_ids c exclude) (rev (iter_active_insights c)))"
      using that by (simp add: rows_def visit_quantity_insights_def)
    have "grows ?push (set (iter_active_insights c)) t"
      by (rule visit_rows_grows [OF _ t]) (auto intro: grows.root)
    then have "hm_get (ic_insights c) (insight_id t) = Some t \<or> \<not> was_materialized c (insight_id t)"
      by cases (auto simp: set_iter_active was_materialized_def dest: canon)
    then show ?thesis using visit_rows_active [OF t] visit_rows_fresh [OF t] by (simp add: inactive_iff)
  qed
  moreover have "t \<in> set rows"
    if "i \<in> set (ic_active c)" "hm_get (ic_insights c) i = Some t" "is_active (tree_state t)"
      "i \<notin> set (excluded_ids c exclude)" for i t
    unfolding rows_def visit_quantity_insights_def
  proof (rule visit_rows_complete)
    show "\<forall>u\<in>set (rev (iter_active_insights c)). insight_id u = insight_id t \<longrightarrow> u = t"
      using that(2) canon by (auto simp: set_iter_active)
    show "\<forall>u. insight_id u = insight_id t \<longrightarrow> \<not> insight_id u \<notin> set (ic_materialized c)"
      using canon [OF that(2)] by auto
  qed (use that canon [OF that(2)] in \<open>auto simp: set_iter_active inactive_iff\<close>)
  moreover have "distinct (map insight_id rows)"
    by (simp add: rows_def visit_quantity_insights_def visit_rows_distinct)
  moreover have "exclude = Some tree \<longrightarrow> insight_id ` insert tree (set (tree_children tree)) \<subseteq> set (excluded_ids c exclude)
       \<and> {i \<in> set (ic_active c). \<exists>p\<in>set (excluded_ids c exclude). parent_of c i = Some p} \<subseteq> set (excluded_ids c exclude)"
    by (auto intro: excluded_tree)
  ultimately show ?thesis by blast
qed

theorem reservation_counts_once_witness:
  "distinct (map insight_id (visit_quantity_insights sample_collection None))
   \<and> sample_tree ''a'' None StFilled \<in> set (visit_quantity_insights sample_collection None)"
  using reservation_counts_once [OF sample_collection_reachable, of None]
  by (force simp: sample_collection_eval excluded_ids_def hm_get_def is_active_def)

end
