(* ===== verification/QuantitySizing.thy ===== *)
theory QuantitySizing
  imports InsightQuantity
begin

text \<open>
  The sizing helpers of the pipelines (\<open>src/core/utils/quantity_sizing.rs\<close>): rounding a quantity
  down to the broker's grid, splitting it into orders of the allowed size, and capping a tree of
  insights to the quantity and the order slots that are left.

  The strategy context is a record of what these functions read of it: the collection, the broker
  feature flag, the cached account, the universe and the quote reader.  Texts of errors are kept as
  the source formats them.
\<close>

section \<open>Data\<close>

record AssetQuantityLimits =
  lim_max_order_size :: "f64 option"
  lim_max_total_size :: "f64 option"
  lim_min_order_size :: "f64 option"
  lim_quantity_base :: "int option"
  lim_fractional :: bool

definition limits_from_asset :: "Asset \<Rightarrow> AssetQuantityLimits" where
  "limits_from_asset asset = \<lparr>lim_max_order_size = as_max_order_size asset, lim_max_total_size = as_max_total_size asset,
     lim_min_order_size = as_min_order_size asset, lim_quantity_base = as_quantity_base asset,
     lim_fractional = as_fractional asset\<rparr>"

record QuantitySplitResult =
  qsr_parent_quantity :: f64
  qsr_child_count :: nat
  qsr_child_quantity_total :: f64
  qsr_target_quantity :: f64

definition qsr_total_quantity :: "QuantitySplitResult \<Rightarrow> f64" where
  "qsr_total_quantity r = qsr_parent_quantity r + qsr_child_quantity_total r"

record Quote =
  qt_symbol :: string
  qt_bid :: f64
  qt_ask :: f64
  qt_bid_size :: f64
  qt_ask_size :: f64
  qt_last :: "f64 option"
  qt_last_size :: "f64 option"
  qt_timestamp :: datetime

definition valid_market_values :: "Quote \<Rightarrow> bool" where
  "valid_market_values q \<longleftrightarrow> is_finite (qt_bid q) \<and> is_finite (qt_ask q) \<and> 0 < qt_bid q \<and> qt_bid q \<le> qt_ask q
     \<and> is_finite (qt_bid_size q) \<and> is_finite (qt_ask_size q) \<and> 0 \<le> qt_bid_size q \<and> 0 \<le> qt_ask_size q
     \<and> (case qt_last q of None \<Rightarrow> True | Some v \<Rightarrow> is_finite v \<and> 0 < v)
     \<and> (case qt_last_size q of None \<Rightarrow> True | Some v \<Rightarrow> is_finite v \<and> 0 \<le> v)"

record SizingContext =
  sc_insights :: InsightCollection
  sc_max_total_orders :: bool
  sc_cached_account :: "Account option"
  sc_universe :: "string \<Rightarrow> Asset option"
  sc_latest_quote :: "string \<Rightarrow> BrokerError + Quote"

section \<open>Figures\<close>

definition DEFAULT_RISK_PERCENT :: int where "DEFAULT_RISK_PERCENT = 2"

definition normalised_percent_rate :: "int \<Rightarrow> int \<Rightarrow> f64" where
  "normalised_percent_rate value default_percent =
     of_integer_f64 (if 0 < value then value else default_percent) / Fin 100"

definition account_size_from_equity_or_cash :: "Account \<Rightarrow> f64" where
  "account_size_from_equity_or_cash account =
     (if 0 < acc_equity account then acc_equity account else fmax (acc_cash account) (acc_buying_power account))"

definition sizing_entry_price :: "SizingContext \<Rightarrow> 'c Insight \<Rightarrow> BrokerError + f64" where
  "sizing_entry_price ctx i = (case opt_or (ins_limit_price i) (ins_stop_price i) of Some entry \<Rightarrow> Inr entry
     | None \<Rightarrow> (case sc_latest_quote ctx (ins_symbol i) of Inl e \<Rightarrow> Inl e
        | Inr quote \<Rightarrow>
            if qt_symbol quote \<noteq> ins_symbol i \<or> \<not> valid_market_values quote
            then Inl (SnapshotUnavailable (QuoteSnapshot (ins_symbol i)) InvalidSnapshot)
            else Inr (case ins_side i of Buy \<Rightarrow> qt_ask quote | Sell \<Rightarrow> qt_bid quote)))"

definition validate_stop_for_side :: "'c Insight \<Rightarrow> f64 \<Rightarrow> f64 \<Rightarrow> string + unit" where
  "validate_stop_for_side i entry stop_loss =
     (if \<not> is_finite entry \<or> entry \<le> 0 \<or> \<not> is_finite stop_loss \<or> stop_loss \<le> 0
      then Inl ''Entry and stop loss must be finite and positive''
      else if (case ins_side i of Buy \<Rightarrow> entry \<le> stop_loss | Sell \<Rightarrow> stop_loss \<le> entry)
      then Inl ''Stop loss is invalid for the insight side'' else Inr ())"

text \<open>\<open>f64::fract\<close>.\<close>

fun ffract :: "f64 \<Rightarrow> f64" where
  "ffract (Fin x) = Fin (if 0 \<le> x then x - of_int \<lfloor>x\<rfloor> else x - of_int \<lceil>x\<rceil>)"
| "ffract _ = NaN"

definition invalid_asset_quantity :: "bool \<Rightarrow> f64 \<Rightarrow> string option" where
  "invalid_asset_quantity asset_fractional quantity =
     (if \<not> asset_fractional \<and> quantity < Fin 1 then Some ''Asset is not fractionable''
      else if \<not> asset_fractional \<and> EPSILON < \<bar>ffract quantity\<bar> then Some ''Asset requires whole-unit quantity''
      else None)"

definition contract_multiplier :: "Asset \<Rightarrow> f64" where
  "contract_multiplier asset = of_integer_f64 (max (unwrap_or (as_contract_size asset) 1) 1)"

definition validate_sized_quantity :: "string \<Rightarrow> f64 \<Rightarrow> AssetQuantityLimits \<Rightarrow> string + unit" where
  "validate_sized_quantity symbol quantity limits =
     (if \<not> is_finite quantity \<or> quantity \<le> 0 then Inl ''Calculated quantity is zero''
      else case invalid_asset_quantity (lim_fractional limits) quantity of
        Some reason \<Rightarrow> Inl (''Asset '' @ symbol @ '' invalid quantity '' @ fmt_fixed 4 quantity @ '': '' @ reason)
      | None \<Rightarrow>
          (case lim_min_order_size limits of None \<Rightarrow> Inr ()
           | Some min_order_size \<Rightarrow>
              if quantity < min_order_size
              then Inl (''Quantity '' @ fmt_fixed 4 quantity @ '' is below minimum order size '' @ fmt_fixed 4 min_order_size)
              else Inr ()))"

text \<open>\<open>10_f64.powi(-n)\<close>: the positive power is exact up to \<open>10 ^ 12\<close>, its reciprocal is rounded.\<close>

definition quantity_step :: "AssetQuantityLimits \<Rightarrow> f64" where
  "quantity_step limits =
     (if \<not> lim_fractional limits then Fin 1
      else case lim_quantity_base limits of
        Some base \<Rightarrow> Fin 1 / Fin (10 ^ nat (min (max base 0) 12))
      | None \<Rightarrow> (case lim_min_order_size limits of
           Some v \<Rightarrow> if is_finite v \<and> 0 < v then v else lit (1 / 10 ^ 8)
         | None \<Rightarrow> lit (1 / 10 ^ 8)))"

definition floor_quantity :: "f64 \<Rightarrow> AssetQuantityLimits \<Rightarrow> f64" where
  "floor_quantity quantity limits =
     (if \<not> is_finite quantity \<or> quantity \<le> 0 then 0
      else let step = quantity_step limits; units = quantity / step
           in fmin (ffloor (units + \<bar>units\<bar> * EPSILON * Fin 4) * step) quantity)"

definition round_whole_or_fractional_quantity :: "SizingContext \<Rightarrow> string \<Rightarrow> f64 \<Rightarrow> bool \<Rightarrow> string + f64" where
  "round_whole_or_fractional_quantity ctx symbol quantity fractional =
     (case sc_universe ctx symbol of None \<Rightarrow> Inl (''Asset '' @ symbol @ '' not found'')
      | Some asset \<Rightarrow>
         let limits = (limits_from_asset asset)\<lparr>lim_fractional := fractional\<rparr>;
             rounded = floor_quantity quantity limits
         in case validate_sized_quantity symbol rounded limits of Inl e \<Rightarrow> Inl e | Inr _ \<Rightarrow> Inr rounded)"

section \<open>Capacity\<close>

definition available_asset_quantity :: "SizingContext \<Rightarrow> InsightTree \<Rightarrow> f64 option \<Rightarrow> string + f64" where
  "available_asset_quantity ctx t limit = (case limit of None \<Rightarrow> Inr (Infty True)
     | Some l \<Rightarrow> if is_finite l \<and> 0 < l
        then Inr (fmax (l - allocated_quantity_excluding (sc_insights ctx) (ins_symbol (tree_row t)) t) 0)
        else Inl ''Invalid broker Asset max total quantity'')"

definition log_row :: "string \<Rightarrow> InsightTree \<Rightarrow> InsightTree" where
  "log_row msg t = Tree (state_log (Some (NoteText msg)) (tree_row t)) (tree_data t) (tree_children t)"

definition cap_asset_total_quantity ::
  "SizingContext \<Rightarrow> InsightTree \<Rightarrow> f64 \<Rightarrow> AssetQuantityLimits \<Rightarrow> string + f64 \<times> InsightTree" where
  "cap_asset_total_quantity ctx t desired limits =
     (if \<not> is_finite desired \<or> desired \<le> 0 then Inl ''Calculated quantity must be finite and positive''
      else case available_asset_quantity ctx t (lim_max_total_size limits) of Inl e \<Rightarrow> Inl e
      | Inr available \<Rightarrow>
          let capped = fmin desired available
          in Inr (capped, if available < desired
               then log_row (''Reached broker Asset max total quantity in pending insights: requested='' @ fmt_fixed 8 desired
                   @ '' available='' @ fmt_fixed 8 available @ '' capped='' @ fmt_fixed 8 capped) t
               else t))"

definition available_pending_orders :: "SizingContext \<Rightarrow> InsightTree \<Rightarrow> string + nat option" where
  "available_pending_orders ctx t =
     (if \<not> sc_max_total_orders ctx then Inr None
      else case sc_cached_account ctx of None \<Rightarrow> Inl ''Broker account snapshot unavailable for order-limit validation''
      | Some account \<Rightarrow> Inr (map_option (\<lambda>limit. limit - pending_order_count_excluding (sc_insights ctx) t)
          (acc_max_total_orders account)))"

text \<open>The cast \<open>as usize\<close> saturates.\<close>

fun to_usize :: "f64 \<Rightarrow> nat" where
  "to_usize NaN = 0"
| "to_usize (Infty s) = (if s then 2 ^ 64 - 1 else 0)"
| "to_usize (Fin x) = (if x \<le> 0 then 0 else min (nat \<lfloor>x\<rfloor>) (2 ^ 64 - 1))"

text \<open>Orders needed for the levels at a common scale, and the bisection of the scale.\<close>

definition level_orders :: "f64 \<Rightarrow> AssetQuantityLimits \<Rightarrow> f64 \<Rightarrow> f64 \<Rightarrow> nat" where
  "level_orders mx limits scale q = to_usize (fmax (fceil (floor_quantity (q * scale) limits / mx)) (Fin 1))"

definition count_orders :: "f64 list \<Rightarrow> AssetQuantityLimits \<Rightarrow> f64 \<Rightarrow> f64 \<Rightarrow> nat" where
  "count_orders quantities limits mx scale = sum_list (map (level_orders mx limits scale) quantities)"

fun bisect :: "nat \<Rightarrow> (f64 \<Rightarrow> bool) \<Rightarrow> f64 \<Rightarrow> f64 \<Rightarrow> f64" where
  "bisect 0 fits low high = low"
| "bisect (Suc n) fits low high =
     (let mid = (low + high) / Fin 2 in if fits mid then bisect n fits mid high else bisect n fits low mid)"

fun apply_scale :: "string \<Rightarrow> AssetQuantityLimits \<Rightarrow> f64 \<Rightarrow> f64 list \<Rightarrow> string + f64 list" where
  "apply_scale symbol limits scale [] = Inr []"
| "apply_scale symbol limits scale (q # qs) =
     (let q' = floor_quantity (q * scale) limits in
      case validate_sized_quantity symbol q' limits of Inl e \<Rightarrow> Inl e
      | Inr _ \<Rightarrow> (case apply_scale symbol limits scale qs of Inl e \<Rightarrow> Inl e | Inr qs' \<Rightarrow> Inr (q' # qs')))"

text \<open>The scale that fits the order slots, and whether it had to be reduced.\<close>

definition slot_scale :: "f64 list \<Rightarrow> AssetQuantityLimits \<Rightarrow> nat option \<Rightarrow> f64 \<Rightarrow> string + f64 \<times> bool" where
  "slot_scale quantities limits slots scale = (case slots of None \<Rightarrow> Inr (scale, False)
     | Some slots \<Rightarrow>
        if slots < length quantities then Inl ''Insufficient broker pending order slots for DCA levels''
        else case lim_max_order_size limits of None \<Rightarrow> Inr (scale, False)
        | Some mx \<Rightarrow>
            let mx = floor_quantity mx limits in
            if mx \<le> 0 then Inl ''Invalid maximum order size''
            else if slots < count_orders quantities limits mx scale
            then Inr (bisect 48 (\<lambda>s. count_orders quantities limits mx s \<le> slots) 0 scale, True)
            else Inr (scale, False))"

definition scaled_row :: "nat option \<Rightarrow> f64 \<Rightarrow> bool \<Rightarrow> InsightTree \<Rightarrow> InsightTree" where
  "scaled_row slots scale reduced t =
     (if reduced then log_row (''Reached broker max total pending orders: DCA allocation scaled to=''
        @ fmt_fixed 8 scale @ '' available_slots='' @ digits_of (unwrap_or slots 0)) t else t)"

definition cap_quantity_levels ::
  "SizingContext \<Rightarrow> InsightTree \<Rightarrow> f64 list \<Rightarrow> AssetQuantityLimits \<Rightarrow> string + f64 \<times> f64 list \<times> InsightTree" where
  "cap_quantity_levels ctx t quantities limits =
     (if quantities = [] \<or> (\<exists>q\<in>set quantities. \<not> is_finite q \<or> q \<le> 0) then Inl ''Invalid DCA quantity levels''
      else let desired = fsum quantities in
        case cap_asset_total_quantity ctx t desired limits of Inl e \<Rightarrow> Inl e
        | Inr (capped, t) \<Rightarrow>
            (case available_pending_orders ctx t of Inl e \<Rightarrow> Inl e
             | Inr slots \<Rightarrow>
                (case slot_scale quantities limits slots (fmin (capped / desired) (Fin 1)) of Inl e \<Rightarrow> Inl e
                 | Inr (scale, reduced) \<Rightarrow>
                    let t = scaled_row slots scale reduced t
                    in case apply_scale (ins_symbol (tree_row t)) limits scale quantities of Inl e \<Rightarrow> Inl e
                       | Inr qs \<Rightarrow> Inr (scale, qs, t))))"

section \<open>Splitting\<close>

fun plan_loop :: "nat \<Rightarrow> AssetQuantityLimits \<Rightarrow> f64 \<Rightarrow> f64 \<Rightarrow> string + f64 list" where
  "plan_loop 0 limits mx remaining = Inr []"
| "plan_loop (Suc n) limits mx remaining =
     (let part = floor_quantity (fmin remaining mx) limits in
      if part \<le> 0 \<or> (case lim_min_order_size limits of None \<Rightarrow> False | Some m \<Rightarrow> part < m) then Inr []
      else case validate_sized_quantity ''entry'' part limits of Inl e \<Rightarrow> Inl e
        | Inr _ \<Rightarrow> (case plan_loop n limits mx (fmax (remaining - part) 0) of Inl e \<Rightarrow> Inl e
            | Inr parts \<Rightarrow> Inr (part # parts)))"

definition SPLIT_LIMIT :: nat where "SPLIT_LIMIT = 65536"

definition split_max :: "f64 \<Rightarrow> AssetQuantityLimits \<Rightarrow> string + f64" where
  "split_max quantity limits = (case lim_max_order_size limits of
     Some mx \<Rightarrow> if is_finite mx \<and> 0 < mx then Inr (floor_quantity mx limits) else Inl ''Invalid maximum order size''
   | None \<Rightarrow> Inr quantity)"

definition plan_quantity_parts :: "f64 \<Rightarrow> AssetQuantityLimits \<Rightarrow> nat option \<Rightarrow> string + f64 list" where
  "plan_quantity_parts quantity limits max_parts =
     (let quantity = floor_quantity quantity limits in
      case validate_sized_quantity ''entry'' quantity limits of Inl e \<Rightarrow> Inl e | Inr _ \<Rightarrow>
      (case split_max quantity limits of Inl e \<Rightarrow> Inl e | Inr mx \<Rightarrow>
      (case validate_sized_quantity ''entry'' mx limits of Inl e \<Rightarrow> Inl e | Inr _ \<Rightarrow>
         let count = to_usize (fceil (quantity / mx)) in
         if min (unwrap_or max_parts SPLIT_LIMIT) SPLIT_LIMIT < count
         then Inl ''Reached broker max total pending orders or safe split planning limit''
         else plan_loop count limits mx quantity)))"

definition validate_pending_tree_limits :: "SizingContext \<Rightarrow> InsightTree \<Rightarrow> string + unit" where
  "validate_pending_tree_limits ctx t =
     (case sc_universe ctx (ins_symbol (tree_row t)) of None \<Rightarrow> Inl ''Asset is not loaded''
      | Some asset \<Rightarrow>
        (case available_asset_quantity ctx t (as_max_total_size asset) of Inl e \<Rightarrow> Inl e
         | Inr available \<Rightarrow>
            if available + lit (1 / 10 ^ 8) < tree_quantity_size t
            then Inl ''Reached broker Asset max total quantity in pending insights''
            else case available_pending_orders ctx t of Inl e \<Rightarrow> Inl e
            | Inr None \<Rightarrow> Inr ()
            | Inr (Some available) \<Rightarrow>
                let count = length (filter (\<lambda>r. ins_order_type (tree_row r) \<noteq> Market) (visit_rows (\<lambda>_. True) [] [t]))
                in if available < count
                   then Inl (''Reached broker max total pending orders: requested='' @ digits_of count
                             @ '' available='' @ digits_of available)
                   else Inr ()))"

text \<open>A new child: \<open>uuid\<close> and \<open>wall\<close> are its fresh id and the clock it reads.\<close>

definition create_child_insight :: "uuid \<Rightarrow> datetime stream \<Rightarrow> f64 \<Rightarrow> InsightTree \<Rightarrow> InsightTree" where
  "create_child_insight uuid wall quantity parent =
     (let p = tree_row parent;
          child = insight_new uuid wall (ins_side p) (ins_symbol p) (ins_strategy_type p) (ins_timeframe p)
                    (ins_confidence p) (Some (ins_id p));
          child = set_quantity (Some quantity) child;
          child = set_limit_price (ins_limit_price p) child;
          child = set_stop_price (ins_stop_price p) child;
          child = set_stop_loss_levels (ins_stop_loss_levels p) child;
          child = set_take_profit_levels (ins_take_profit_levels p) child;
          child = set_trailing_stop_price (ins_trailing_stop_price p) child;
          child = set_period_unfilled (ins_period_unfilled p) child;
          child = set_period_till_tp (ins_period_till_tp p) child;
          child = set_execution_depends (ins_execution_depends p) child
      in add_child (Tree child [] []) (Some True) parent)"

fun create_children :: "(uuid \<times> datetime stream) stream \<Rightarrow> f64 list \<Rightarrow> InsightTree \<Rightarrow> InsightTree" where
  "create_children fresh [] t = t"
| "create_children fresh (q # qs) t =
     create_children (stl fresh) qs (create_child_insight (fst (shd fresh)) (snd (shd fresh)) q t)"

definition is_split :: "InsightTree \<Rightarrow> bool" where "is_split t = ins_is_split_insight (tree_row t)"

text \<open>The order slots the ordinary descendants take.\<close>

function reserve_slots :: "InsightTree list \<Rightarrow> nat \<Rightarrow> nat" where
  "reserve_slots [] available = available"
| "reserve_slots (child # stack) available =
     (if is_inactive (tree_state child) then reserve_slots stack available
      else reserve_slots (rev (tree_children child) @ stack)
             (if ins_order_type (tree_row child) \<noteq> Market then available - 1 else available))"
  by pat_completeness auto
termination
  by (relation "measure (\<lambda>(stack, _). size_list size stack)")
    (use tree_size_children in \<open>auto simp: less_SucI\<close>)

definition split_target :: "InsightTree \<Rightarrow> AssetQuantityLimits \<Rightarrow> f64 \<Rightarrow> nat option \<Rightarrow> f64 \<times> nat option \<times> InsightTree" where
  "split_target t limits target slots = (case slots of None \<Rightarrow> (target, None, t)
     | Some available \<Rightarrow>
        let available = reserve_slots (rev (filter (\<lambda>c. \<not> is_split c) (tree_children t))) available in
        if ins_order_type (tree_row t) = Market then (target, None, t)
        else case lim_max_order_size limits of None \<Rightarrow> (target, Some available, t)
        | Some mx \<Rightarrow>
            let capacity = floor_quantity mx limits * of_integer_f64 (int available)
            in if capacity < target
               then (capacity, Some available, log_row (''Reached broker max total pending orders: available=''
                      @ digits_of available @ '' quantity reduced from='' @ fmt_fixed 8 target @ '' to='' @ fmt_fixed 8 capacity) t)
               else (target, Some available, t))"

definition apply_max_order_size_with_child_legs ::
  "SizingContext \<Rightarrow> (uuid \<times> datetime stream) stream \<Rightarrow> InsightTree \<Rightarrow> f64 \<Rightarrow> AssetQuantityLimits
    \<Rightarrow> string + QuantitySplitResult \<times> InsightTree" where
  "apply_max_order_size_with_child_legs ctx fresh t target_quantity limits =
     (if \<exists>c\<in>set (tree_children t). is_split c \<and> (ins_submitted (tree_row c) \<or> tree_state c \<noteq> StNew)
      then Inl ''Cannot resize already-active split children''
      else if \<exists>c\<in>set (tree_children t). is_split c \<and> tree_children c \<noteq> []
      then Inl ''Cannot rebuild split children with attached descendants; size the complete stack first''
      else let reserved = fsum (map tree_quantity_size (filter (\<lambda>c. \<not> is_split c) (tree_children t))) in
        case cap_asset_total_quantity ctx t (target_quantity + reserved) limits of Inl e \<Rightarrow> Inl e
        | Inr (capped_total, t) \<Rightarrow>
          let target = floor_quantity (fmax (capped_total - reserved) 0) limits in
          case available_pending_orders ctx t of Inl e \<Rightarrow> Inl e
          | Inr slots \<Rightarrow>
            (case split_target t limits target slots of (target, slots, t) \<Rightarrow>
            (case plan_quantity_parts target limits slots of Inl e \<Rightarrow> Inl e
             | Inr [] \<Rightarrow> Inl ''Calculated quantity is zero''
             | Inr (parent_quantity # rest) \<Rightarrow>
                let old = map (\<lambda>c. ins_quantity (tree_row c)) (filter is_split (tree_children t));
                    unchanged = (length old = length rest \<and> list_all2 feq_opt old (map Some rest));
                    t = (if unchanged then t
                         else create_children fresh rest
                                (Tree (tree_row t) (tree_data t) (filter (\<lambda>c. \<not> is_split c) (tree_children t))))
                in Inr (\<lparr>qsr_parent_quantity = parent_quantity, qsr_child_count = length rest,
                         qsr_child_quantity_total = fsum rest, qsr_target_quantity = target_quantity\<rparr>, t))))"

section \<open>Rounding down\<close>

lemma representable_dyadic:
  assumes m: "\<bar>m\<bar> \<le> 2 ^ 53" and e: "e \<le> 1074"
  shows "representable (of_int m / 2 ^ e)"
proof -
  have eq: "of_int m / 2 ^ e = (of_int m :: rat) * 2 powi (- int e)" by (simp add: power_int_minus field_simps)
  have "\<bar>of_int m / 2 ^ e :: rat\<bar> \<le> \<bar>of_int m\<bar> / 1"
    unfolding abs_divide by (rule divide_left_mono) simp_all
  then have "\<bar>of_int m / 2 ^ e :: rat\<bar> < overflow_bound"
    using representable_int [OF m] by (simp add: representable_def)
  then show ?thesis using grid_exact [OF m, of "- int e"] e by (simp add: representable_def eq)
qed

text \<open>A number at least a small power of two rounds to a positive one.\<close>

lemma rnd_pos: "1 / 2 ^ 1000 \<le> x \<Longrightarrow> 0 < rnd x"
proof -
  assume "1 / 2 ^ 1000 \<le> x"
  then have "rnd (of_int 1 / 2 ^ 1000) \<le> rnd x" by (intro rnd_mono) simp
  moreover have "rnd (of_int 1 / 2 ^ 1000) = Fin (of_int 1 / 2 ^ 1000)" by (rule rnd_exact [OF representable_dyadic]) simp_all
  ultimately show ?thesis by (cases "rnd x") (auto intro: less_le_trans [rotated])
qed

lemma rnd_finite_le_one: "0 \<le> x \<Longrightarrow> x \<le> 1 \<Longrightarrow> is_finite (rnd x)"
  using rnd_le_one [of x] rnd_nonneg [of x] by (cases "rnd x") auto

lemma quantity_step_pos: "is_finite (quantity_step limits) \<and> 0 < quantity_step limits"
proof -
  have small: "1 / 2 ^ 1000 \<le> (1 / 10 ^ n :: rat)" if "n \<le> 12" for n
  proof -
    have "(10::rat) ^ n \<le> 10 ^ 12" using that by (intro power_increasing) auto
    also have "\<dots> \<le> 2 ^ 1000" by simp
    finally show ?thesis by (intro frac_le) auto
  qed
  have r: "is_finite (rnd (1 / 10 ^ n)) \<and> 0 < rnd (1 / 10 ^ n)" if "n \<le> 12" for n
    using rnd_pos [OF small [OF that]] rnd_finite_le_one [of "1 / 10 ^ n"] by simp
  show ?thesis
    using r [of 8] r [of "nat (min (max (the (lim_quantity_base limits)) 0) 12)"]
    by (auto simp: quantity_step_def lit_def f64_fin_arith split: option.split)
qed

lemma ffloor_nonneg: "0 \<le> a \<Longrightarrow> 0 \<le> ffloor a"
  by (cases a) auto

lemma fmult_nonneg': "0 \<le> a \<Longrightarrow> is_finite b \<Longrightarrow> 0 < b \<Longrightarrow> (0::f64) \<le> a * b"
  by (cases a; cases b) (auto simp: f64_fin_arith(3) rnd_nonneg times_f64_def)

lemma fdivide_nonneg: "is_finite a \<Longrightarrow> 0 \<le> a \<Longrightarrow> is_finite b \<Longrightarrow> 0 < b \<Longrightarrow> (0::f64) \<le> a / b"
  by (cases a; cases b) (auto simp: f64_fin_arith(4) rnd_nonneg)

lemma fle_finite: "0 \<le> a \<Longrightarrow> a \<le> b \<Longrightarrow> is_finite b \<Longrightarrow> is_finite (a::f64)"
  by (cases a; cases b) auto

lemma floor_quantity_bounds:
  shows "0 \<le> floor_quantity q limits" "is_finite (floor_quantity q limits)"
    and "is_finite q \<Longrightarrow> 0 \<le> q \<Longrightarrow> floor_quantity q limits \<le> q"
proof -
  let ?u = "q / quantity_step limits"
  let ?w = "ffloor (?u + \<bar>?u\<bar> * EPSILON * Fin 4) * quantity_step limits"
  have main: "0 \<le> fmin ?w q \<and> fmin ?w q \<le> q" if q: "is_finite q" "0 < q"
  proof -
    have u: "0 \<le> ?u" using quantity_step_pos [of limits] q by (auto intro: fdivide_nonneg flt_imp_le)
    then have "0 \<le> \<bar>?u\<bar>" by (intro fabs_nonneg) auto
    then have "0 \<le> \<bar>?u\<bar> * EPSILON * Fin 4" by (auto intro!: fmult_nonneg' simp: EPSILON_def)
    then have "0 \<le> ?w" using u quantity_step_pos [of limits] by (auto intro!: fmult_nonneg' ffloor_nonneg fadd_nonneg)
    moreover have "q \<noteq> NaN" "0 \<le> q" using q by (auto intro: flt_imp_le)
    ultimately show ?thesis using fmin_greatest [of 0 ?w q] fmin_le(1) [of q ?w] by auto
  qed
  have zero: "floor_quantity q limits = 0" if "\<not> (is_finite q \<and> 0 < q)"
    using that by (cases q) (auto simp: floor_quantity_def)
  have eq: "floor_quantity q limits = fmin ?w q" if "is_finite q \<and> 0 < q"
    using that by (cases q) (auto simp: floor_quantity_def Let_def)
  show "0 \<le> floor_quantity q limits" using main zero eq by (cases "is_finite q \<and> 0 < q") (auto simp: fle_refl)
  show "is_finite (floor_quantity q limits)"
    using main zero eq fle_finite [of "fmin ?w q" q] by (cases "is_finite q \<and> 0 < q") auto
  show "floor_quantity q limits \<le> q" if "is_finite q" "0 \<le> q"
    using main zero eq that by (cases "is_finite q \<and> 0 < q") auto
qed

lemma floor_quantity_pos: "\<not> floor_quantity q limits \<le> 0 \<Longrightarrow> is_finite q \<and> 0 < q"
  by (cases q) (auto simp: floor_quantity_def fle_refl split: if_splits)

lemma validate_sized_Inr:
  assumes "validate_sized_quantity symbol q limits = Inr ()"
  shows "is_finite q" "0 < q" "\<And>m. lim_min_order_size limits = Some m \<Longrightarrow> \<not> q < m"
    "invalid_asset_quantity (lim_fractional limits) q = None"
proof -
  show fin: "is_finite q" using assms by (auto simp: validate_sized_quantity_def split: if_splits)
  then show "0 < q" using assms by (cases q) (auto simp: validate_sized_quantity_def split: if_splits)
  show "invalid_asset_quantity (lim_fractional limits) q = None"
    using assms by (auto simp: validate_sized_quantity_def split: if_splits option.splits)
  show "\<not> q < m" if "lim_min_order_size limits = Some m" for m
    using assms that by (auto simp: validate_sized_quantity_def split: if_splits option.splits)
qed

section \<open>Splitting\<close>

definition part_ok :: "AssetQuantityLimits \<Rightarrow> f64 \<Rightarrow> f64 \<Rightarrow> bool" where
  "part_ok limits mx p \<longleftrightarrow> is_finite p \<and> 0 < p \<and> p \<le> mx
     \<and> (case lim_min_order_size limits of None \<Rightarrow> True | Some m \<Rightarrow> \<not> p < m)
     \<and> invalid_asset_quantity (lim_fractional limits) p = None"

lemma plan_loop_ok:
  assumes "plan_loop n limits mx remaining = Inr parts" "mx \<noteq> NaN"
  shows "length parts \<le> n \<and> (\<forall>p\<in>set parts. part_ok limits mx p)"
  using assms
proof (induction n arbitrary: remaining parts)
  case (Suc n)
  let ?part = "floor_quantity (fmin remaining mx) limits"
  show ?case
  proof (cases "?part \<le> 0 \<or> (case lim_min_order_size limits of None \<Rightarrow> False | Some m \<Rightarrow> ?part < m)")
    case True
    then show ?thesis using Suc.prems by (simp add: Let_def)
  next
    case False
    then obtain rest where v: "validate_sized_quantity ''entry'' ?part limits = Inr ()"
      and rest: "plan_loop n limits mx (fmax (remaining - ?part) 0) = Inr rest" "parts = ?part # rest"
      using Suc.prems(1) by (auto simp: Let_def split: sum.splits)
    have "is_finite (fmin remaining mx) \<and> 0 < fmin remaining mx" using False floor_quantity_pos by auto
    then have "?part \<le> fmin remaining mx" by (intro floor_quantity_bounds(3)) (auto intro: flt_imp_le)
    then have "?part \<le> mx" using fmin_le(1) [OF Suc.prems(2)] fle_trans by blast
    then have "part_ok limits mx ?part"
      using validate_sized_Inr [OF v] by (auto simp: part_ok_def split: option.splits)
    then show ?thesis using Suc.IH [OF rest(1) Suc.prems(2)] rest(2) by simp
  qed
qed simp

lemma planned_parts:
  assumes "plan_quantity_parts quantity limits max_parts = Inr parts"
  shows "length parts \<le> min (unwrap_or max_parts 65536) 65536
    \<and> (\<forall>p\<in>set parts. is_finite p \<and> 0 < p
        \<and> (case lim_max_order_size limits of None \<Rightarrow> p \<le> quantity | Some mx \<Rightarrow> p \<le> mx)
        \<and> (case lim_min_order_size limits of None \<Rightarrow> True | Some m \<Rightarrow> \<not> p < m)
        \<and> invalid_asset_quantity (lim_fractional limits) p = None)"
proof -
  let ?q = "floor_quantity quantity limits"
  obtain mx where q: "validate_sized_quantity ''entry'' ?q limits = Inr ()" and mx: "split_max ?q limits = Inr mx"
    and count: "to_usize (fceil (?q / mx)) \<le> min (unwrap_or max_parts SPLIT_LIMIT) SPLIT_LIMIT"
    and loop: "plan_loop (to_usize (fceil (?q / mx))) limits mx ?q = Inr parts"
    using assms by (auto simp: plan_quantity_parts_def Let_def not_less split: sum.splits if_splits)
  have "is_finite quantity \<and> 0 < quantity"
    using validate_sized_Inr(2) [OF q] floor_quantity_bounds(2) [of quantity limits] by (intro floor_quantity_pos [of _ limits])
      (cases "?q"; auto)
  then have le: "?q \<le> quantity" by (intro floor_quantity_bounds(3)) (auto intro: flt_imp_le)
  have mxq: "mx \<noteq> NaN" "case lim_max_order_size limits of None \<Rightarrow> mx \<le> quantity | Some m \<Rightarrow> mx \<le> m"
    using mx le floor_quantity_bounds(2) [of _ limits] floor_quantity_bounds(3) [of _ limits]
    by (fastforce simp: split_max_def is_finite_iff intro: flt_imp_le split: option.splits if_splits)+
  have parts: "length parts \<le> to_usize (fceil (?q / mx))" "\<forall>p\<in>set parts. part_ok limits mx p"
    using plan_loop_ok [OF loop mxq(1)] by auto
  then show ?thesis
    using count mxq(2) by (auto simp: part_ok_def SPLIT_LIMIT_def intro: fle_trans split: option.splits)
qed

lemma planned_part_limits:
  assumes "plan_quantity_parts quantity limits max_parts = Inr parts"
  shows "\<forall>p\<in>set parts. is_finite p \<and> 0 < p \<and> (case lim_max_order_size limits of None \<Rightarrow> True | Some mx \<Rightarrow> p \<le> mx)"
  using planned_parts [OF assms] by (auto split: option.splits)

text \<open>A plan never exceeds the order slots nor 65536 orders, and every order of it is a positive
  finite quantity within the asset's maximum and minimum order size, a whole unit where the asset
  is not fractional.\<close>

theorem plan_parts_within_limits:
  assumes "plan_quantity_parts quantity limits max_parts = Inr parts"
  shows "length parts \<le> min (unwrap_or max_parts 65536) 65536
    \<and> (\<forall>p\<in>set parts. is_finite p \<and> 0 < p
        \<and> (case lim_max_order_size limits of None \<Rightarrow> p \<le> quantity | Some mx \<Rightarrow> p \<le> mx)
        \<and> (case lim_min_order_size limits of None \<Rightarrow> True | Some m \<Rightarrow> \<not> p < m)
        \<and> invalid_asset_quantity (lim_fractional limits) p = None)"
  using planned_parts [OF assms] .

text \<open>Whole units: the arithmetic is exact.\<close>

lemma whole_units_bumped:
  assumes "0 \<le> n" "n \<le> 2 ^ 49"
  shows "ffloor (Fin (of_int n) + \<bar>Fin (of_int n)\<bar> * EPSILON * Fin 4) = Fin (of_int n)"
proof -
  have n53: "\<bar>n\<bar> \<le> 2 ^ 53" using assms by simp
  have "Fin (of_int n) * EPSILON = Fin (of_int n / 2 ^ 52)"
    using rnd_exact [OF representable_dyadic [OF n53, of 52]] by (simp add: EPSILON_def f64_fin_arith)
  moreover have "Fin (of_int n / 2 ^ 52) * Fin 4 = Fin (of_int n / 2 ^ 50)"
    using rnd_exact [OF representable_dyadic [OF n53, of 50]] by (simp add: f64_fin_arith)
  ultimately have bump: "\<bar>Fin (of_int n)\<bar> * EPSILON * Fin 4 = Fin (of_int n / 2 ^ 50)"
    using assms(1) by (simp add: f64_fin_arith(6))
  let ?x = "of_int n + of_int n / 2 ^ 50 :: rat"
  have "(of_int n :: rat) \<le> of_int (2 ^ 49)" using assms(2) by (simp only: of_int_le_iff)
  then have le: "?x \<le> of_int (2 * n + 1) / 2 ^ 1" by simp
  have "rnd (of_int n) \<le> rnd ?x" using assms(1) by (intro rnd_mono) simp
  moreover have "rnd (of_int (2 * n + 1) / 2 ^ 1) = Fin (of_int (2 * n + 1) / 2 ^ 1)"
    by (rule rnd_exact [OF representable_dyadic]) (use assms in simp_all)
  moreover have "rnd ?x \<le> rnd (of_int (2 * n + 1) / 2 ^ 1)" by (rule rnd_mono [OF le])
  ultimately obtain w where w: "rnd ?x = Fin w" "of_int n \<le> w" "w \<le> of_int (2 * n + 1) / 2"
    using n53 by (cases "rnd ?x") auto
  then have "\<lfloor>w\<rfloor> = n" by (intro floor_unique) auto
  then show ?thesis unfolding bump f64_fin_arith(1) w(1) by simp
qed

lemma floor_whole_units:
  assumes "\<not> lim_fractional limits" "1 \<le> n" "n \<le> 2 ^ 49"
  shows "floor_quantity (Fin (of_int n)) limits = Fin (of_int n)"
proof -
  have "Fin (of_int n) / Fin 1 = Fin (of_int n)" "Fin (of_int n) * Fin 1 = Fin (of_int n)"
    using assms by (simp_all add: f64_fin_arith)
  then show ?thesis
    using whole_units_bumped [of n] assms
    by (simp add: floor_quantity_def quantity_step_def Let_def fmin_def)
qed

lemma pow2_above:
  assumes "1 \<le> (m :: int)"
  shows "\<exists>j. m \<le> 2 ^ j \<and> 2 ^ j < 2 * m"
proof -
  define j where "j = (LEAST j. m \<le> 2 ^ j)"
  have "nat m < 2 ^ nat m" by (rule less_exp)
  then have "int (nat m) < int (2 ^ nat m)" by (simp only: of_nat_less_iff)
  then have "m \<le> 2 ^ nat m" using assms by simp
  then have up: "m \<le> 2 ^ j" unfolding j_def by (rule LeastI)
  have "2 ^ j < 2 * m"
  proof (cases j)
    case 0
    then show ?thesis using assms by simp
  next
    case (Suc i)
    then have "\<not> m \<le> 2 ^ i" using not_less_Least [of i "\<lambda>j. m \<le> 2 ^ j"] by (simp add: j_def)
    then show ?thesis by (simp add: Suc)
  qed
  with up show ?thesis by blast
qed

text \<open>The quotient of two whole numbers is rounded on the right side of the integers.\<close>

lemma ceil_whole_quotient:
  assumes n: "1 \<le> n" "n \<le> 2 ^ 49" and m: "1 \<le> m" "m \<le> 2 ^ 49"
    and c: "(c - 1) * m < n" "n \<le> c * m"
  shows "fceil (Fin (of_int n) / Fin (of_int m)) = Fin (of_int c)"
proof -
  have mpos: "(0::rat) < of_int m" using m by simp
  have c1: "1 \<le> c" using n m c by (smt (verit) mult_le_0_iff)
  have cn: "c \<le> n" using c(1) m(1) n(1) c1 by (smt (verit) mult_less_cancel_left1 mult_le_cancel_left1)
  let ?x = "of_int n / of_int m :: rat"
  obtain j where j: "m \<le> 2 ^ j" "2 ^ j < 2 * m" using pow2_above [OF m(1)] by blast
  have "(of_int n :: rat) \<le> of_int (c * m)" using c(2) by (simp only: of_int_le_iff)
  then have hi: "?x \<le> of_int c" using mpos by (simp add: divide_le_eq)
  have "(of_int ((c - 1) * m + 1) :: rat) \<le> of_int n" using c(1) by (simp only: of_int_le_iff)
  then have "of_int ((c - 1) * m + 1) / of_int m \<le> ?x" using mpos by (intro divide_right_mono) auto
  moreover have "of_int ((c - 1) * m + 1) / of_int m = (of_int (c - 1) + 1 / of_int m :: rat)"
    using mpos by (simp add: field_simps)
  moreover have "1 / 2 ^ j \<le> (1 / of_int m :: rat)"
  proof (rule frac_le)
    have "(of_int m :: rat) \<le> of_int (2 ^ j)" using j(1) by (simp only: of_int_le_iff)
    then show "(of_int m :: rat) \<le> 2 ^ j" by simp
  qed (use mpos in auto)
  moreover have "of_int ((c - 1) * 2 ^ j + 1) / 2 ^ j = (of_int (c - 1) + 1 / 2 ^ j :: rat)" by (simp add: field_simps)
  ultimately have lo: "of_int ((c - 1) * 2 ^ j + 1) / 2 ^ j \<le> ?x" by linarith
  have "(c - 1) * 2 ^ j \<le> (c - 1) * (2 * m)" using j(2) c1 by (intro mult_left_mono) auto
  then have num: "(c - 1) * 2 ^ j + 1 \<le> 2 ^ 53" using c(1) n(2) by (simp add: algebra_simps)
  have "0 \<le> (c - 1) * 2 ^ j" using c1 by simp
  have "(2::int) ^ j < 2 ^ 51" using j(2) m(2) by simp
  then have "j < 51" by (rule power_less_imp_less_exp [rotated]) simp
  then have jj: "j \<le> 1074" by simp
  have "rnd (of_int ((c - 1) * 2 ^ j + 1) / 2 ^ j) = Fin (of_int ((c - 1) * 2 ^ j + 1) / 2 ^ j)"
    by (rule rnd_exact [OF representable_dyadic]) (use num jj \<open>0 \<le> (c - 1) * 2 ^ j\<close> in auto)
  moreover have "rnd (of_int c) = Fin (of_int c)" using cn n(2) c1 by (intro rnd_int) simp
  moreover note rnd_mono [OF lo] rnd_mono [OF hi]
  ultimately obtain w where w: "rnd ?x = Fin w" "of_int ((c - 1) * 2 ^ j + 1) / 2 ^ j \<le> w" "w \<le> of_int c"
    by (cases "rnd ?x") auto
  have "of_int (c - 1) < (of_int ((c - 1) * 2 ^ j + 1) / 2 ^ j :: rat)" by (simp add: field_simps)
  then have "\<lceil>w\<rceil> = c" using w by (intro ceiling_unique) auto
  then show ?thesis using mpos w(1) by (simp add: f64_fin_arith(4))
qed

definition whole_parts :: "int \<Rightarrow> int \<Rightarrow> int list" where
  "whole_parts n m = replicate (nat (n div m)) m @ (if n mod m = 0 then [] else [n mod m])"

lemma sum_whole_parts: "0 \<le> n \<Longrightarrow> 1 \<le> m \<Longrightarrow> sum_list (whole_parts n m) = n"
  using div_mult_mod_eq [of n m] by (auto simp: whole_parts_def sum_list_replicate pos_imp_zdiv_nonneg_iff)

lemma whole_parts_step:
  assumes "1 \<le> m" "m < n"
  shows "whole_parts n m = m # whole_parts (n - m) m"
proof -
  have "n div m = (n - m) div m + 1" "n mod m = (n - m) mod m" "0 \<le> (n - m) div m"
    using assms div_add_self2 [of m "n - m"] mod_add_self2 [of "n - m" m] by (simp_all add: pos_imp_zdiv_nonneg_iff)
  then show ?thesis by (simp add: whole_parts_def nat_add_distrib)
qed

lemma whole_part_valid:
  assumes "\<not> lim_fractional limits" "1 \<le> p"
    and "case lim_min_order_size limits of None \<Rightarrow> True | Some s \<Rightarrow> s \<le> Fin 1"
  shows "validate_sized_quantity symbol (Fin (of_int p)) limits = Inr ()"
    "\<not> (case lim_min_order_size limits of None \<Rightarrow> False | Some s \<Rightarrow> Fin (of_int p) < s)"
proof -
  have p: "(1::rat) \<le> of_int p" using assms(2) by simp
  show min: "\<not> (case lim_min_order_size limits of None \<Rightarrow> False | Some s \<Rightarrow> Fin (of_int p) < s)"
  proof (cases "lim_min_order_size limits")
    case (Some s)
    then show ?thesis using assms(3) p by (cases s) auto
  qed simp
  have "\<not> EPSILON < \<bar>ffract (Fin (of_int p))\<bar>" using p by (simp add: EPSILON_def f64_fin_arith(6))
  then show "validate_sized_quantity symbol (Fin (of_int p)) limits = Inr ()"
    using p min assms(1) by (auto simp: validate_sized_quantity_def invalid_asset_quantity_def split: option.splits)
qed

lemma plan_loop_whole:
  assumes L: "\<not> lim_fractional limits" "case lim_min_order_size limits of None \<Rightarrow> True | Some s \<Rightarrow> s \<le> Fin 1"
    and m: "1 \<le> m" "m \<le> 2 ^ 49"
    and n: "0 \<le> n" "n \<le> 2 ^ 49" "(int c - 1) * m < n" "n \<le> int c * m"
  shows "plan_loop c limits (Fin (of_int m)) (Fin (of_int n)) = Inr (map (\<lambda>p. Fin (of_int p)) (whole_parts n m))"
  using n
proof (induction c arbitrary: n)
  case 0
  then show ?case by (simp add: whole_parts_def)
next
  case (Suc c)
  have n1: "1 \<le> n" using Suc.prems(3) m(1) by (smt (verit) mult_nonneg_nonneg of_nat_0_le_iff of_nat_Suc)
  let ?p = "min n m"
  have "fmin (Fin (of_int n)) (Fin (of_int m)) = Fin (of_int ?p)" by (auto simp: fmin_def min_def)
  moreover have p: "1 \<le> ?p" "?p \<le> 2 ^ 49" using n1 m by auto
  ultimately have part: "floor_quantity (fmin (Fin (of_int n)) (Fin (of_int m))) limits = Fin (of_int ?p)"
    using floor_whole_units [OF L(1) p] by simp
  have "\<bar>n - ?p\<bar> \<le> 2 ^ 53" using n1 m Suc.prems(2) by auto
  then have rem: "fmax (Fin (of_int n) - Fin (of_int ?p)) 0 = Fin (of_int (n - ?p))"
    by (subst fint_arith(2)) (auto simp: fmax_def zero_f64_def)
  note valid = whole_part_valid [OF L(1) p(1) L(2)]
  have "\<not> Fin (of_int ?p) \<le> (0 :: f64)" using p(1) by (simp del: min.bounded_iff)
  then have step: "plan_loop (Suc c) limits (Fin (of_int m)) (Fin (of_int n)) =
      (case plan_loop c limits (Fin (of_int m)) (Fin (of_int (n - ?p))) of Inl e \<Rightarrow> Inl e | Inr parts \<Rightarrow> Inr (Fin (of_int ?p) # parts))"
    using valid(2) by (simp add: part rem valid(1) Let_def)
  show ?case
  proof (cases "m < n")
    case True
    have "plan_loop c limits (Fin (of_int m)) (Fin (of_int (n - m))) = Inr (map (\<lambda>p. Fin (of_int p)) (whole_parts (n - m) m))"
      by (rule Suc.IH) (use Suc.prems True m in \<open>auto simp: algebra_simps\<close>)
    then show ?thesis unfolding step whole_parts_step [OF m(1) True] using True by (simp add: min_def)
  next
    case False
    then have "int c * m < 1 * m" using Suc.prems(3) by simp
    then have "c = 0" using m(1) by (simp add: mult_less_cancel_right)
    moreover have "whole_parts n m = [n]" using False n1 m(1) by (cases "n = m") (auto simp: whole_parts_def)
    ultimately show ?thesis unfolding step using False by (simp add: min_def)
  qed
qed

lemma plan_whole_units:
  assumes "\<not> lim_fractional limits" "lim_max_order_size limits = Some (Fin (of_int m))"
    and "case lim_min_order_size limits of None \<Rightarrow> True | Some s \<Rightarrow> s \<le> Fin 1"
    and "1 \<le> m" "m \<le> 2 ^ 49" "1 \<le> n" "n \<le> 2 ^ 49"
    and "n \<le> int (min (unwrap_or max_parts 65536) 65536) * m"
  shows "plan_quantity_parts (Fin (of_int n)) limits max_parts = Inr (map (\<lambda>p. Fin (of_int p)) (whole_parts n m))"
proof -
  let ?k = "min (unwrap_or max_parts 65536) 65536"
  define c where "c = (n + m - 1) div m"
  have c: "(c - 1) * m < n" "n \<le> c * m" "0 \<le> c"
  proof -
    have "(n + m - 1) mod m + c * m = n + m - 1" "0 \<le> (n + m - 1) mod m" "(n + m - 1) mod m < m"
      using assms(4) by (simp_all add: c_def)
    then show "(c - 1) * m < n" "n \<le> c * m" by (auto simp: algebra_simps)
    show "0 \<le> c" using assms by (simp add: c_def pos_imp_zdiv_nonneg_iff)
  qed
  have "(c - 1) * m < int ?k * m" using c(1) assms(8) by simp
  then have ck: "c \<le> int ?k" using assms(4) by (simp add: mult_less_cancel_right)
  then have ck': "nat c \<le> unwrap_or max_parts 65536 \<and> nat c \<le> 65536" by linarith
  have "fceil (Fin (of_int n) / Fin (of_int m)) = Fin (of_int c)"
    by (rule ceil_whole_quotient [OF assms(6,7,4,5) c(1,2)])
  moreover have "to_usize (Fin (of_int c)) = nat c" using c(3) ck by auto
  ultimately have count: "to_usize (fceil (Fin (of_int n) / Fin (of_int m))) = nat c" by simp
  have "plan_loop (nat c) limits (Fin (of_int m)) (Fin (of_int n)) = Inr (map (\<lambda>p. Fin (of_int p)) (whole_parts n m))"
    by (rule plan_loop_whole [OF assms(1,3-5)]) (use assms c in auto)
  then show ?thesis
    using ck' whole_part_valid(1) [OF assms(1) _ assms(3)] floor_whole_units [OF assms(1)] assms
    by (simp add: plan_quantity_parts_def Let_def split_max_def count SPLIT_LIMIT_def not_less)
qed

text \<open>C11: (\<open>plan_quantity_parts\<close>) For an asset traded in whole units with a minimum order size of at most one unit, the plan of a whole
  quantity with a whole maximum, both up to \<open>2 ^ 49\<close>, is the quantity split into orders of the maximum size and the remainder, in exact
  arithmetic, and it is found whenever the number of orders fits.\<close>

theorem plan_whole_units_exact:
  assumes "\<not> lim_fractional limits" "lim_max_order_size limits = Some (Fin (of_int m))"
    and "case lim_min_order_size limits of None \<Rightarrow> True | Some s \<Rightarrow> s \<le> Fin 1"
    and "1 \<le> m" "m \<le> 2 ^ 49" "1 \<le> n" "n \<le> 2 ^ 49"
    and "n \<le> int (min (unwrap_or max_parts 65536) 65536) * m"
  shows "plan_quantity_parts (Fin (of_int n)) limits max_parts = Inr (map (\<lambda>p. Fin (of_int p)) (whole_parts n m))
    \<and> sum_list (whole_parts n m) = n"
  using plan_whole_units [OF assms] sum_whole_parts assms by simp

definition sample_limits :: AssetQuantityLimits where
  "sample_limits = \<lparr>lim_max_order_size = Some (Fin 100), lim_max_total_size = None, lim_min_order_size = Some (Fin 1),
     lim_quantity_base = None, lim_fractional = False\<rparr>"

text \<open>250 units with at most 100 in an order.\<close>

theorem plan_whole_units_exact_witness:
  "plan_quantity_parts (Fin 250) sample_limits None = Inr [Fin 100, Fin 100, Fin 50]"
proof -
  have "whole_parts 250 100 = [100, 100, 50]" by (simp add: whole_parts_def numeral_2_eq_2)
  then show ?thesis
    using plan_whole_units_exact [of sample_limits 100 250 None] by (simp add: sample_limits_def)
qed

theorem plan_parts_within_limits_witness:
  "plan_quantity_parts (Fin 250) sample_limits None = Inr [Fin 100, Fin 100, Fin 50] \<and> Fin 50 \<le> Fin 100"
proof -
  have "whole_parts 250 100 = [100, 100, 50]" by (simp add: whole_parts_def numeral_2_eq_2)
  then have plan: "plan_quantity_parts (Fin 250) sample_limits None = Inr [Fin 100, Fin 100, Fin 50]"
    using plan_whole_units [of sample_limits 100 250 None] by (simp add: sample_limits_def)
  then show ?thesis using plan_parts_within_limits [OF plan] by (simp add: sample_limits_def)
qed

text \<open>
  A quantity one unit in the last place below a whole number is bumped to that number by the
  correction and taken back to itself by the budget, so it stays off the grid and an asset of whole
  units refuses it, where rounding down gives a quantity it takes.
\<close>

lemma near_grid_quantity_refused:
  assumes "\<not> lim_fractional limits"
  shows "floor_quantity (Fin (3 - 1 / 2 ^ 51)) limits = Fin (3 - 1 / 2 ^ 51)
    \<and> (\<exists>e. plan_quantity_parts (Fin (3 - 1 / 2 ^ 51)) limits max_parts = Inl e)
    \<and> floor_quantity (Fin 2) limits = Fin 2"
proof -
  let ?m = "3 * 2 ^ 51 - 1 :: int"
  let ?q = "3 - 1 / 2 ^ 51 :: rat"
  have q: "?q = of_int ?m / 2 ^ 51" by simp
  have m53: "\<bar>?m\<bar> \<le> 2 ^ 53" by simp
  have exact: "rnd ?q = Fin ?q" unfolding q by (rule rnd_exact [OF representable_dyadic [OF m53]]) simp
  have e1: "rnd (?q * (1 / 4503599627370496)) = Fin (of_int ?m / 2 ^ 103)"
    using rnd_exact [OF representable_dyadic [OF m53, of 103]] by simp
  have e2: "rnd (of_int ?m / 2 ^ 103 * 4) = Fin (of_int ?m / 2 ^ 101)"
    using rnd_exact [OF representable_dyadic [OF m53, of 101]] by simp
  let ?x = "?q + of_int ?m / 2 ^ 101"
  have "rnd (of_int 3) \<le> rnd ?x" "rnd ?x \<le> rnd (of_int 7 / 2 ^ 1)" by (rule rnd_mono, simp)+
  then obtain w where w: "rnd ?x = Fin w" "3 \<le> w" "w \<le> 7 / 2"
    using rnd_int [of 3] rnd_exact [OF representable_dyadic [of 7 1]] by (cases "rnd ?x") auto
  have fl: "\<lfloor>w\<rfloor> = 3" using w by (intro floor_unique) auto
  have three: "rnd 3 = Fin 3" using rnd_int [of 3] by simp
  have "ffloor (Fin ?q / Fin 1 + \<bar>Fin ?q / Fin 1\<bar> * EPSILON * Fin 4) * Fin 1 = Fin 3"
    using exact e1 e2 w(1) fl three by (simp add: f64_fin_arith EPSILON_def)
  then have floor: "floor_quantity (Fin ?q) limits = Fin ?q"
    using assms by (simp add: floor_quantity_def quantity_step_def Let_def fmin_def)
  have "\<lfloor>?q\<rfloor> = 2" by (rule floor_unique) simp_all
  then have "\<exists>e. validate_sized_quantity ''entry'' (Fin ?q) limits = Inl e"
    using assms by (simp add: validate_sized_quantity_def invalid_asset_quantity_def EPSILON_def f64_fin_arith(6))
  then have "\<exists>e. plan_quantity_parts (Fin ?q) limits max_parts = Inl e"
    unfolding plan_quantity_parts_def Let_def floor by auto
  then show ?thesis using floor floor_whole_units [OF assms, of 2] by simp
qed

section \<open>Levels of a stack\<close>

lemma bisect_fits: "fits low \<Longrightarrow> fits (bisect n fits low high)"
  by (induction n arbitrary: low high) (auto simp: Let_def)

lemma level_orders_zero:
  assumes "is_finite q" "is_finite mx" "0 < mx"
  shows "level_orders mx limits 0 q = 1"
proof -
  have "q * 0 = 0" using assms(1) by (cases q) (simp_all add: f64_fin_arith)
  moreover have "0 / mx = 0" using assms(2,3) by (cases mx) (simp_all add: f64_fin_arith)
  moreover have "fmax (fceil 0) (Fin 1) = Fin 1" by (simp add: zero_f64_def fmax_def)
  ultimately show ?thesis by (simp add: level_orders_def floor_quantity_def fle_refl)
qed

lemma count_orders_zero:
  assumes "\<forall>q\<in>set quantities. is_finite q" "is_finite mx" "0 < mx"
  shows "count_orders quantities limits mx 0 = length quantities"
  using assms(1) by (induction quantities) (simp_all add: count_orders_def level_orders_zero [OF _ assms(2,3)])

lemma slot_scale_fits:
  assumes "slot_scale quantities limits (Some slots) scale = Inr (s, reduced)" "lim_max_order_size limits = Some mx"
    and "\<forall>q\<in>set quantities. is_finite q"
  shows "count_orders quantities limits (floor_quantity mx limits) s \<le> slots"
proof -
  let ?mx = "floor_quantity mx limits"
  have slots: "length quantities \<le> slots" and mx: "\<not> ?mx \<le> 0"
    and s: "s = (if slots < count_orders quantities limits ?mx scale
        then bisect 48 (\<lambda>s. count_orders quantities limits ?mx s \<le> slots) 0 scale else scale)"
    using assms(1,2) by (auto simp: slot_scale_def Let_def split: if_splits)
  have "is_finite ?mx" "0 < ?mx" using mx floor_quantity_bounds(2) [of mx limits] by (cases "?mx"; auto)+
  then have "count_orders quantities limits ?mx 0 \<le> slots"
    using slots by (simp add: count_orders_zero [OF assms(3)])
  then show ?thesis
    using bisect_fits [of "\<lambda>s. count_orders quantities limits ?mx s \<le> slots" 0 48 scale] by (simp add: s)
qed

lemma apply_scale_Inr:
  assumes "apply_scale symbol limits scale quantities = Inr qs"
  shows "qs = map (\<lambda>q. floor_quantity (q * scale) limits) quantities
    \<and> (\<forall>q\<in>set qs. validate_sized_quantity symbol q limits = Inr ())"
  using assms by (induction quantities arbitrary: qs) (auto simp: Let_def split: sum.splits)

text \<open>Writing to the history of a row changes nothing the walk looks at.\<close>

lemma log_row_simps [simp]:
  "insight_id (log_row m t) = insight_id t" "tree_children (log_row m t) = tree_children t"
  "ins_symbol (tree_row (log_row m t)) = ins_symbol (tree_row t)"
  by (simp_all add: log_row_def insight_id_def)

lemma excluded_log_row [simp]: "excluded_ids c (Some (log_row m t)) = excluded_ids c (Some t)"
  by (simp add: excluded_ids_def)

lemma available_log_row [simp]: "available_pending_orders ctx (log_row m t) = available_pending_orders ctx t"
  by (simp add: available_pending_orders_def pending_order_count_excluding_def visit_quantity_insights_def split: option.split)

lemma cap_asset_total_Inr:
  assumes "cap_asset_total_quantity ctx t desired limits = Inr (capped, t')"
  shows "capped \<le> desired" "\<exists>m. t' = log_row m t \<or> t' = t"
    "available_pending_orders ctx t' = available_pending_orders ctx t"
proof -
  have d: "desired \<noteq> NaN" using assms by (auto simp: cap_asset_total_quantity_def split: if_splits)
  then show "capped \<le> desired" using assms fmin_le(2) [OF d]
    by (auto simp: cap_asset_total_quantity_def Let_def split: if_splits sum.splits)
  show t': "\<exists>m. t' = log_row m t \<or> t' = t"
    using assms by (auto simp: cap_asset_total_quantity_def Let_def split: if_splits sum.splits)
  then show "available_pending_orders ctx t' = available_pending_orders ctx t" by auto
qed

text \<open>C32: A stack of levels that is capped fits the broker's order slots: scaled and rounded down, the levels need
  no more orders of the maximum size than there are slots, and every level is a valid quantity, at most its scaled
  share.\<close>

theorem capped_levels_fit_slots:
  assumes "cap_quantity_levels ctx t quantities limits = Inr (scale, qs, t')"
    and "available_pending_orders ctx t = Inr (Some slots)" "lim_max_order_size limits = Some mx"
  shows "sum_list (map (\<lambda>q. to_usize (fmax (fceil (q / floor_quantity mx limits)) (Fin 1))) qs) \<le> slots
    \<and> length qs = length quantities
    \<and> (\<forall>q\<in>set qs. is_finite q \<and> 0 < q \<and> invalid_asset_quantity (lim_fractional limits) q = None)
    \<and> list_all2 (\<lambda>q' q. q' \<le> q * scale) qs quantities"
proof -
  have fin: "\<forall>q\<in>set quantities. is_finite q"
    using assms(1) by (auto simp: cap_quantity_levels_def split: if_splits)
  obtain capped u reduced v where cap: "cap_asset_total_quantity ctx t (fsum quantities) limits = Inr (capped, u)"
    and slots: "slot_scale quantities limits (Some slots) (fmin (capped / fsum quantities) (Fin 1)) = Inr (scale, reduced)"
    and levels: "apply_scale (ins_symbol (tree_row v)) limits scale quantities = Inr qs"
  proof -
    obtain capped u where cap: "cap_asset_total_quantity ctx t (fsum quantities) limits = Inr (capped, u)"
      using assms(1) by (auto simp: cap_quantity_levels_def Let_def split: if_splits sum.splits)
    then have "available_pending_orders ctx u = Inr (Some slots)" using cap_asset_total_Inr(3) assms(2) by simp
    then show thesis using assms(1) cap that
      by (auto simp: cap_quantity_levels_def Let_def split: if_splits sum.splits)
  qed
  have qs: "qs = map (\<lambda>q. floor_quantity (q * scale) limits) quantities"
    "\<forall>q\<in>set qs. validate_sized_quantity (ins_symbol (tree_row v)) q limits = Inr ()"
    using apply_scale_Inr [OF levels] by auto
  have "count_orders quantities limits (floor_quantity mx limits) scale \<le> slots"
    by (rule slot_scale_fits [OF slots assms(3) fin])
  then have "sum_list (map (\<lambda>q. to_usize (fmax (fceil (q / floor_quantity mx limits)) (Fin 1))) qs) \<le> slots"
    by (simp add: qs(1) count_orders_def level_orders_def [abs_def] comp_def)
  moreover have "floor_quantity (q * scale) limits \<le> q * scale" if "q \<in> set quantities" for q
  proof -
    have "0 < floor_quantity (q * scale) limits" "is_finite (floor_quantity (q * scale) limits)"
      using that qs validate_sized_Inr(1,2) by auto
    then have "is_finite (q * scale) \<and> 0 < q * scale" by (intro floor_quantity_pos [of _ limits]) (cases "floor_quantity (q * scale) limits"; auto)
    then show ?thesis by (intro floor_quantity_bounds(3)) (auto intro: flt_imp_le)
  qed
  ultimately show ?thesis
    using qs validate_sized_Inr by (auto simp: list_all2_map1 list_all2_same)
qed

definition sample_account :: Account where
  "sample_account = \<lparr>acc_account_id = ''acc'', acc_account_type = Paper, acc_equity = Fin 1000, acc_cash = Fin 1000,
     acc_currency = ''USD'', acc_buying_power = Fin 1000, acc_accrued_commission = Fin 0, acc_shorting_enabled = True,
     acc_leverage = 1, acc_max_total_orders = Some 5\<rparr>"

definition sample_context :: "bool \<Rightarrow> SizingContext" where
  "sample_context limited = \<lparr>sc_insights = sample_collection, sc_max_total_orders = limited,
     sc_cached_account = Some sample_account, sc_universe = (\<lambda>_. None),
     sc_latest_quote = (\<lambda>_. Inl (SnapshotUnavailable AccountSnapshot MissingSnapshot))\<rparr>"

lemma sample_slots: "available_pending_orders (sample_context True) (sample_tree ''p'' None StNew) = Inr (Some 5)"
proof -
  have order: "ins_order_type (tree_row (sample_tree i p s)) = Market" for i p s
    by (simp add: sample_tree_def sample_row_def insight_default_def)
  have "visit_quantity_insights sample_collection (Some (sample_tree ''p'' None StNew)) = [sample_tree ''a'' None StFilled]"
    by (simp add: visit_quantity_insights_def excluded_ids_def hs_insert_def parent_index_def sample_collection_eval
        parent_of_def hm_get_def iter_active_insights_def somes_def index_children_def is_inactive_def)
  then show ?thesis
    by (simp add: available_pending_orders_def sample_context_def sample_account_def pending_order_count_excluding_def
        pending_entry_def order)
qed

lemma sample_levels:
  "cap_quantity_levels (sample_context True) (sample_tree ''p'' None StNew) [Fin 100, Fin 200] sample_limits =
     Inr (Fin 1, [Fin 100, Fin 200], sample_tree ''p'' None StNew)"
proof -
  note w = floor_whole_units [of sample_limits 100] floor_whole_units [of sample_limits 200]
    whole_part_valid(1) [of sample_limits 100] whole_part_valid(1) [of sample_limits 200]
    ceil_whole_quotient [of 100 100 1] ceil_whole_quotient [of 200 100 2]
  have r: "rnd 100 = Fin 100" "rnd 200 = Fin 200" "rnd 300 = Fin 300" "rnd 1 = Fin 1"
    using rnd_int [of 100] rnd_int [of 200] rnd_int [of 300] rnd_int [of 1] by simp_all
  have sum: "fsum [Fin 100, Fin 200] = Fin 300" using r by (simp add: fsum_def f64_fin_arith)
  have one: "Fin 300 / Fin 300 = Fin 1" "Fin 100 * Fin 1 = Fin 100" "Fin 200 * Fin 1 = Fin 200"
    using r by (simp_all add: f64_fin_arith)
  have cap: "cap_asset_total_quantity (sample_context True) (sample_tree ''p'' None StNew) (Fin 300) sample_limits =
      Inr (Fin 300, sample_tree ''p'' None StNew)"
    by (simp add: cap_asset_total_quantity_def available_asset_quantity_def sample_limits_def fmin_def)
  have slot: "slot_scale [Fin 100, Fin 200] sample_limits (Some 5) (Fin 1) = Inr (Fin 1, False)"
    using w by (simp add: slot_scale_def count_orders_def level_orders_def one sample_limits_def fmax_def)
  have "apply_scale symbol sample_limits (Fin 1) [Fin 100, Fin 200] = Inr [Fin 100, Fin 200]" for symbol
    using w by (simp add: one sample_limits_def Let_def)
  then show ?thesis
    by (simp add: cap_quantity_levels_def scaled_row_def sum cap sample_slots slot one fmin_def Let_def del: apply_scale.simps)
qed

theorem capped_levels_fit_slots_witness:
  "cap_quantity_levels (sample_context True) (sample_tree ''p'' None StNew) [Fin 100, Fin 200] sample_limits =
     Inr (Fin 1, [Fin 100, Fin 200], sample_tree ''p'' None StNew)
   \<and> sum_list (map (\<lambda>q. to_usize (fmax (fceil (q / floor_quantity (Fin 100) sample_limits)) (Fin 1))) [Fin 100, Fin 200]) \<le> 5"
  using capped_levels_fit_slots [OF sample_levels sample_slots, of "Fin 100"] sample_levels
  by (simp add: sample_limits_def)

section \<open>Resizing a group\<close>

lemma update_order_type_quantity [simp]: "ins_quantity (update_order_type i) = ins_quantity i"
  by (simp add: update_order_type_def Let_def)

lemma update_order_class_quantity [simp]: "ins_quantity (update_order_class i) = ins_quantity i"
  by (simp add: update_order_class_def Let_def)

lemma setters_quantity [simp]:
  "ins_quantity (set_limit_price p i) = ins_quantity i" "ins_quantity (set_stop_price p i) = ins_quantity i"
  "ins_quantity (set_stop_loss_levels ls i) = ins_quantity i" "ins_quantity (set_take_profit_levels ls i) = ins_quantity i"
  "ins_quantity (set_trailing_stop_price p i) = ins_quantity i" "ins_quantity (set_period_unfilled k i) = ins_quantity i"
  "ins_quantity (set_period_till_tp k i) = ins_quantity i" "ins_quantity (set_execution_depends ds i) = ins_quantity i"
  by (simp_all add: set_limit_price_def set_stop_price_def set_stop_loss_levels_def set_take_profit_levels_def
      set_trailing_stop_price_def set_period_unfilled_def set_period_till_tp_def set_execution_depends_def Let_def)

lemma feq_opt_eq: "feq_opt a b \<Longrightarrow> a = b"
  by (cases "(a, b)" rule: feq_opt.cases) (auto simp: feq_def)

lemma set_quantity_value [simp]: "ins_quantity (set_quantity q i) = q"
  by (auto simp: set_quantity_def dest: feq_opt_eq)

text \<open>A created fragment is a split child of the given quantity; the other children stay.\<close>

lemma create_child_children:
  "\<exists>c. tree_children (create_child_insight uuid wall q t) = tree_children t @ [c] \<and> is_split c
     \<and> ins_quantity (tree_row c) = Some q \<and> tree_children c = []"
  by (simp add: create_child_insight_def add_child_def Let_def is_split_def)

lemma create_children_children:
  "\<exists>cs. tree_children (create_children fresh qs t) = tree_children t @ cs \<and> map (\<lambda>c. ins_quantity (tree_row c)) cs = map Some qs
     \<and> (\<forall>c\<in>set cs. is_split c \<and> tree_children c = [])"
proof (induction qs arbitrary: fresh t)
  case (Cons q qs)
  obtain c where c: "tree_children (create_child_insight (fst (shd fresh)) (snd (shd fresh)) q t) = tree_children t @ [c]"
    "is_split c" "ins_quantity (tree_row c) = Some q" "tree_children c = []"
    using create_child_children by blast
  obtain cs where "tree_children (create_children fresh (q # qs) t) = (tree_children t @ [c]) @ cs"
    "map (\<lambda>c. ins_quantity (tree_row c)) cs = map Some qs" "\<forall>c\<in>set cs. is_split c \<and> tree_children c = []"
    using Cons.IH [of "stl fresh" "create_child_insight (fst (shd fresh)) (snd (shd fresh)) q t"] by (auto simp: c(1))
  then show ?case using c by (intro exI [of _ "c # cs"]) simp
qed simp

lemma split_target_children: "split_target t limits target slots = (target', slots', t') \<Longrightarrow> tree_children t' = tree_children t"
  by (auto simp: split_target_def Let_def split: option.splits if_splits)

lemma feq_list_eq: "list_all2 feq_opt xs ys \<Longrightarrow> xs = ys"
  by (induction rule: list_all2_induct) (auto dest: feq_opt_eq)

text \<open>
  The reference for a resize.  What the group may have is the wanted quantity, within the room the limit of the asset leaves beside
  everything reserved and beside the ordinary children, on the grid; and, when orders rest at the broker, within the orders of the
  maximum size its free slots hold.
\<close>

definition ordinary_children :: "InsightTree \<Rightarrow> InsightTree list" where
  "ordinary_children t = filter (\<lambda>c. \<not> is_split c) (tree_children t)"

definition group_slots :: "SizingContext \<Rightarrow> InsightTree \<Rightarrow> nat option" where
  "group_slots ctx t = (case available_pending_orders ctx t of Inr (Some n) \<Rightarrow> 
     if ins_order_type (tree_row t) = Market then None else Some (reserve_slots (rev (ordinary_children t)) n) | _ \<Rightarrow> None)"

definition group_target :: "SizingContext \<Rightarrow> InsightTree \<Rightarrow> f64 \<Rightarrow> AssetQuantityLimits \<Rightarrow> f64" where
  "group_target ctx t wanted limits =
     (let reserved = fsum (map tree_quantity_size (ordinary_children t));
          room = (case lim_max_total_size limits of None \<Rightarrow> Infty True
            | Some l \<Rightarrow> fmax (l - allocated_quantity_excluding (sc_insights ctx) (ins_symbol (tree_row t)) t) 0);
          wish = floor_quantity (fmax (fmin (wanted + reserved) room - reserved) 0) limits
      in case (group_slots ctx t, lim_max_order_size limits) of
           (Some n, Some mx) \<Rightarrow> if floor_quantity mx limits * of_integer_f64 (int n) < wish
             then floor_quantity mx limits * of_integer_f64 (int n) else wish
         | _ \<Rightarrow> wish)"

lemma log_row_more [simp]: "ins_order_type (tree_row (log_row m t)) = ins_order_type (tree_row t)" "tree_data (log_row m t) = tree_data t"
  by (simp_all add: log_row_def)

text \<open>Lines added to the history of a row.\<close>

definition noted :: "string list \<Rightarrow> unit Insight \<Rightarrow> unit Insight" where
  "noted notes i = fold (\<lambda>m. state_log (Some (NoteText m))) notes i"

lemma noted_log: "tree_row (log_row m t) = noted [m] (tree_row t)" "noted [m] (noted ns i) = noted (ns @ [m]) i" "noted [] i = i"
  by (simp_all add: noted_def log_row_def)

lemma created_row: "tree_row (create_children fresh qs t) = tree_row t" "tree_data (create_children fresh qs t) = tree_data t"
  by (induction fresh qs t rule: create_children.induct) (simp_all add: create_child_insight_def add_child_def Let_def)

lemma resize_plan:
  assumes "apply_max_order_size_with_child_legs ctx fresh t target_quantity limits = Inr (r, t')"
  obtains parts v where "plan_quantity_parts (group_target ctx t target_quantity limits) limits (group_slots ctx t) = Inr (qsr_parent_quantity r # parts)"
    "\<exists>notes. tree_row v = noted notes (tree_row t)" "tree_data v = tree_data t" "tree_children v = tree_children t"
    "qsr_child_count r = length parts" "qsr_child_quantity_total r = fsum parts" "qsr_target_quantity r = target_quantity"
    "t' = (let old = map (\<lambda>c. ins_quantity (tree_row c)) (filter is_split (tree_children t)) in
        if length old = length parts \<and> list_all2 feq_opt old (map Some parts) then v
        else create_children fresh parts (Tree (tree_row v) (tree_data v) (ordinary_children t)))"
proof -
  let ?reserved = "fsum (map tree_quantity_size (ordinary_children t))"
  obtain capped u slots target slots' v where cap: "cap_asset_total_quantity ctx t (target_quantity + ?reserved) limits = Inr (capped, u)"
    and av: "available_pending_orders ctx u = Inr slots"
    and st: "split_target u limits (floor_quantity (fmax (capped - ?reserved) 0) limits) slots = (target, slots', v)"
    and rest: "(case plan_quantity_parts target limits slots' of Inl e \<Rightarrow> Inl e
             | Inr [] \<Rightarrow> Inl ''Calculated quantity is zero''
             | Inr (parent_quantity # rest) \<Rightarrow>
                let old = map (\<lambda>c. ins_quantity (tree_row c)) (filter is_split (tree_children v));
                    unchanged = (length old = length rest \<and> list_all2 feq_opt old (map Some rest));
                    t = (if unchanged then v
                         else create_children fresh rest (Tree (tree_row v) (tree_data v) (ordinary_children v)))
                in Inr (\<lparr>qsr_parent_quantity = parent_quantity, qsr_child_count = length rest,
                         qsr_child_quantity_total = fsum rest, qsr_target_quantity = target_quantity\<rparr>, t)) = Inr (r, t')"
    using assms unfolding apply_max_order_size_with_child_legs_def Let_def ordinary_children_def
    by (auto split: if_splits sum.splits prod.splits)
  have u: "u = t \<or> (\<exists>m. u = log_row m t)" and av': "available_pending_orders ctx t = Inr slots"
    using cap_asset_total_Inr(2,3) [OF cap] av by auto
  have v: "v = u \<or> (\<exists>m. v = log_row m u)"
    using st by (auto simp: split_target_def Let_def split: option.splits if_splits)
  have log: "tree_data v = tree_data t" "tree_children v = tree_children t" using u v by auto
  have "\<exists>notes. tree_row u = noted notes (tree_row t)" using u noted_log(1,3) by metis
  then have logs: "\<exists>notes. tree_row v = noted notes (tree_row t)" using v noted_log(1,2) by metis
  have same: "tree_children u = tree_children t" "ins_order_type (tree_row u) = ins_order_type (tree_row t)" using u by auto
  have "capped = fmin (target_quantity + ?reserved) (case lim_max_total_size limits of None \<Rightarrow> Infty True
      | Some l \<Rightarrow> fmax (l - allocated_quantity_excluding (sc_insights ctx) (ins_symbol (tree_row t)) t) 0)"
    using cap by (auto simp: cap_asset_total_quantity_def available_asset_quantity_def Let_def split: if_splits sum.splits option.splits)
  then have target: "target = group_target ctx t target_quantity limits" "slots' = group_slots ctx t"
    using st av' same by (auto simp: split_target_def group_target_def group_slots_def ordinary_children_def Let_def split: option.splits if_splits)
  obtain p parts where plan: "plan_quantity_parts target limits slots' = Inr (p # parts)"
    using rest by (auto split: sum.splits list.splits)
  show thesis
    by (rule that [of parts v]) (use rest plan log logs target in \<open>auto simp: Let_def ordinary_children_def\<close>)
qed

text \<open>C34: (\<open>apply_max_order_size_with_child_legs\<close>) Resizing a group plans exactly the reference target of the group for exactly its
  free order slots and replaces its split fragments by that plan.  Nothing else changes: the ordinary children and the recovery data
  stay, the row of the parent only gets lines in its history, and parent and fragments each keep within the maximum order size.\<close>

theorem resize_replaces_fragments:
  assumes "apply_max_order_size_with_child_legs ctx fresh t target_quantity limits = Inr (r, t')"
  shows "\<exists>parts notes. plan_quantity_parts (group_target ctx t target_quantity limits) limits (group_slots ctx t) = Inr (qsr_parent_quantity r # parts)
    \<and> map (\<lambda>c. ins_quantity (tree_row c)) (filter is_split (tree_children t')) = map Some parts
    \<and> length parts = qsr_child_count r \<and> qsr_child_quantity_total r = fsum parts
    \<and> ordinary_children t' = ordinary_children t \<and> tree_data t' = tree_data t \<and> tree_row t' = noted notes (tree_row t)
    \<and> (\<forall>p\<in>set (qsr_parent_quantity r # parts). is_finite p \<and> 0 < p
        \<and> (case lim_max_order_size limits of None \<Rightarrow> True | Some mx \<Rightarrow> p \<le> mx))"
proof -
  obtain parts v where plan: "plan_quantity_parts (group_target ctx t target_quantity limits) limits (group_slots ctx t) = Inr (qsr_parent_quantity r # parts)"
    and logs: "\<exists>notes. tree_row v = noted notes (tree_row t)" and v: "tree_data v = tree_data t" "tree_children v = tree_children t"
    and r: "qsr_child_count r = length parts" "qsr_child_quantity_total r = fsum parts"
    and t': "t' = (let old = map (\<lambda>c. ins_quantity (tree_row c)) (filter is_split (tree_children t)) in
        if length old = length parts \<and> list_all2 feq_opt old (map Some parts) then v
        else create_children fresh parts (Tree (tree_row v) (tree_data v) (ordinary_children t)))"
    by (rule resize_plan [OF assms])
  define old where "old = map (\<lambda>c. ins_quantity (tree_row c)) (filter is_split (tree_children t))"
  have row: "tree_row t' = tree_row v" "tree_data t' = tree_data v" by (simp_all add: t' Let_def created_row)
  have frag: "map (\<lambda>c. ins_quantity (tree_row c)) (filter is_split (tree_children t')) = map Some parts
      \<and> ordinary_children t' = ordinary_children t"
  proof (cases "length old = length parts \<and> list_all2 feq_opt old (map Some parts)")
    case True
    then show ?thesis using feq_list_eq [of old "map Some parts"] by (simp add: t' old_def v ordinary_children_def)
  next
    case False
    obtain cs where "tree_children t' = ordinary_children t @ cs" "map (\<lambda>c. ins_quantity (tree_row c)) cs = map Some parts"
      "\<forall>c\<in>set cs. is_split c"
      using create_children_children [of fresh parts "Tree (tree_row v) (tree_data v) (ordinary_children t)"] False
      by (auto simp: t' old_def Let_def)
    moreover from this(3) have "filter is_split cs = cs" "filter (\<lambda>c. \<not> is_split c) cs = []"
      by (auto simp: filter_id_conv filter_empty_conv)
    ultimately show ?thesis by (simp add: ordinary_children_def)
  qed
  show ?thesis using plan frag r logs v(1) row planned_part_limits [OF plan] by auto
qed

text \<open>250 units on a row without children: the row keeps 100 and gets two fragments.\<close>

theorem resize_replaces_fragments_witness:
  "map (\<lambda>c. ins_quantity (tree_row c)) (filter is_split (tree_children
       (create_children (sconst (''f'', sconst 0)) [Fin 100, Fin 50] (sample_tree ''p'' None StNew)))) = [Some (Fin 100), Some (Fin 50)]"
proof -
  let ?t = "sample_tree ''p'' None StNew" and ?f = "sconst (''f'', sconst 0)"
  have kids: "tree_children ?t = []" "Tree (tree_row ?t) (tree_data ?t) [] = ?t" by (simp_all add: sample_tree_def)
  then have tree: "Tree (tree_row ?t) [] [] = ?t" by simp
  have zero: "fsum [] = Fin 0" by (simp add: fsum_def zero_f64_def)
  have r: "rnd 250 = Fin 250" using rnd_int [of 250] by simp
  then have add: "Fin 250 + Fin 0 = Fin 250" "Fin 250 - Fin 0 = Fin 250" by (simp_all add: f64_fin_arith)
  have "whole_parts 250 100 = [100, 100, 50]" by (simp add: whole_parts_def numeral_2_eq_2)
  then have plan: "plan_quantity_parts (Fin 250) sample_limits None = Inr [Fin 100, Fin 100, Fin 50]"
    using plan_whole_units [of sample_limits 100 250 None] by (simp add: sample_limits_def)
  have cap: "cap_asset_total_quantity (sample_context False) ?t (Fin 250) sample_limits = Inr (Fin 250, ?t)"
    by (simp add: cap_asset_total_quantity_def available_asset_quantity_def sample_limits_def fmin_def)
  have none: "available_pending_orders (sample_context False) ?t = Inr None"
    by (simp add: available_pending_orders_def sample_context_def)
  have fl: "floor_quantity (fmax (Fin 250) 0) sample_limits = Fin 250"
    using floor_whole_units [of sample_limits 250] by (simp add: sample_limits_def fmax_def)
  have sized: "apply_max_order_size_with_child_legs (sample_context False) ?f ?t (Fin 250) sample_limits =
      Inr (\<lparr>qsr_parent_quantity = Fin 100, qsr_child_count = 2, qsr_child_quantity_total = fsum [Fin 100, Fin 50],
            qsr_target_quantity = Fin 250\<rparr>, create_children ?f [Fin 100, Fin 50] ?t)"
    unfolding apply_max_order_size_with_child_legs_def Let_def
    by (simp add: zero add cap none fl split_target_def plan tree numeral_2_eq_2)
  have "fmin (Fin 250) (Infty True) = Fin 250" by code_simp
  then have "group_target (sample_context False) ?t (Fin 250) sample_limits = Fin 250" "group_slots (sample_context False) ?t = None"
    using fl by (simp_all add: group_target_def group_slots_def none ordinary_children_def kids(1) zero add sample_limits_def)
  then show ?thesis using resize_replaces_fragments [OF sized] plan by auto
qed

end
