(* ===== verification/CapacityLedger.thy ===== *)
theory CapacityLedger
  imports Commands
begin

text \<open>
  The capacity an account has promised to entries that are on their way
  (\<open>src/src/core/broker/command_worker/account_lane.rs\<close>): slots for pending orders, quantity per symbol and
  margin.  Each ledger keeps the last observation of the broker, the reservations, and a queue of the
  confirmed ones with the instant of their completion.

  All three implement one abstract ledger, a map from commands to what they reserve and when they were
  confirmed; the interface \<open>capacity_ledger\<close> says so and is interpreted for each of them.  An \<open>Instant\<close> is an
  integer, and the readings of the clock are arguments.
\<close>

section \<open>Data\<close>

type_synonym instant = int

definition MAX_CAPACITY_RESERVATIONS :: nat where "MAX_CAPACITY_RESERVATIONS = 4096"

datatype ReservationState = AwaitingProof | ReservationConfirmed

record PendingCapacity =
  cap_observation :: "(nat \<times> instant) option"
  cap_completed :: "(string \<times> instant) list"
  cap_reservations :: "(string, ReservationState) hmap"

record SymbolReservation =
  sres_symbol :: string
  sres_quantity :: f64
  sres_state :: ReservationState

record SymbolCapacity =
  scap_observations :: "(string, f64 \<times> instant) hmap"
  scap_completed :: "(string \<times> instant) list"
  scap_reservations :: "(string, SymbolReservation) hmap"

record MarginReservation =
  mres_amount :: f64
  mres_state :: ReservationState

record MarginCapacity =
  mcap_observation :: "(f64 \<times> instant) option"
  mcap_completed :: "(string \<times> instant) list"
  mcap_reservations :: "(string, MarginReservation) hmap"

definition pending_capacity_default :: PendingCapacity where
  "pending_capacity_default = \<lparr>cap_observation = None, cap_completed = [], cap_reservations = []\<rparr>"

definition symbol_capacity_default :: SymbolCapacity where
  "symbol_capacity_default = \<lparr>scap_observations = [], scap_completed = [], scap_reservations = []\<rparr>"

definition margin_capacity_default :: MarginCapacity where
  "margin_capacity_default = \<lparr>mcap_observation = None, mcap_completed = [], mcap_reservations = []\<rparr>"

section \<open>Operations\<close>

text \<open>\<open>is_none_or(|(_, old)| observed > old)\<close>.\<close>

definition newer :: "instant \<Rightarrow> ('v \<times> instant) option \<Rightarrow> bool" where
  "newer observed obs = (case obs of None \<Rightarrow> True | Some (_, old) \<Rightarrow> old < observed)"

text \<open>The loop that pops completions older than an observation from the front of the queue.\<close>

fun pop_retired :: "instant \<Rightarrow> (string \<times> instant) list \<Rightarrow> (string, 'r) hmap
    \<Rightarrow> (string \<times> instant) list \<times> (string, 'r) hmap" where
  "pop_retired observed [] res = ([], res)"
| "pop_retired observed ((i, done) # q) res =
     (if done < observed then pop_retired observed q (hm_remove i res) else ((i, done) # q, res))"

text \<open>
  What the three \<open>finish\<close> methods do alike: \<open>state\<close> reads the state of a reservation and \<open>confirm\<close> sets
  it to confirmed.
\<close>

definition finish_reservation ::
  "('r \<Rightarrow> ReservationState) \<Rightarrow> ('r \<Rightarrow> 'r) \<Rightarrow> string \<Rightarrow> BrokerCommandOutcome \<Rightarrow> instant
    \<Rightarrow> (string \<times> instant) list \<times> (string, 'r) hmap \<Rightarrow> (string \<times> instant) list \<times> (string, 'r) hmap" where
  "finish_reservation state confirm i outcome now cr =
     (let (completed, res) = cr in
      if map_option state (hm_get res i) \<noteq> Some AwaitingProof then (completed, res)
      else case outcome of
          Ambiguous _ \<Rightarrow> (completed, res)
        | DeclinedOutcome _ \<Rightarrow> (completed, hm_remove i res)
        | CancelledBeforeDispatch \<Rightarrow> (completed, hm_remove i res)
        | OrderResponse _ \<Rightarrow> (completed @ [(i, now)], hm_modify i confirm res)
        | Acknowledged \<Rightarrow> (completed @ [(i, now)], hm_modify i confirm res))"

subsection \<open>Pending orders\<close>

definition pending_observe :: "nat \<Rightarrow> instant \<Rightarrow> PendingCapacity \<Rightarrow> PendingCapacity" where
  "pending_observe count observed c =
     (if newer observed (cap_observation c)
      then let (completed, res) = pop_retired observed (cap_completed c) (cap_reservations c)
           in c\<lparr>cap_observation := Some (count, observed), cap_completed := completed, cap_reservations := res\<rparr>
      else c)"

definition pending_available :: "string \<Rightarrow> nat \<Rightarrow> nat \<Rightarrow> PendingCapacity \<Rightarrow> bool" where
  "pending_available i limit count c =
     (let count = (case cap_observation c of None \<Rightarrow> count | Some (n, _) \<Rightarrow> n);
          reservations = length (cap_reservations c)
      in i \<noteq> [] \<and> length i \<le> 512 \<and> hm_get (cap_reservations c) i = None
         \<and> reservations < MAX_CAPACITY_RESERVATIONS \<and> min (count + reservations) (2 ^ 64 - 1) < limit)"

definition pending_insert :: "string \<Rightarrow> PendingCapacity \<Rightarrow> PendingCapacity" where
  "pending_insert i c = c\<lparr>cap_reservations := hm_insert i AwaitingProof (cap_reservations c)\<rparr>"

definition pending_finish :: "string \<Rightarrow> BrokerCommandOutcome \<Rightarrow> instant \<Rightarrow> PendingCapacity \<Rightarrow> PendingCapacity" where
  "pending_finish i outcome now c =
     (let (completed, res) = finish_reservation (\<lambda>s. s) (\<lambda>_. ReservationConfirmed) i outcome now
            (cap_completed c, cap_reservations c)
      in c\<lparr>cap_completed := completed, cap_reservations := res\<rparr>)"

subsection \<open>Margin\<close>

definition margin_observe :: "f64 \<Rightarrow> instant \<Rightarrow> MarginCapacity \<Rightarrow> MarginCapacity" where
  "margin_observe available observed c =
     (if newer observed (mcap_observation c)
      then let (completed, res) = pop_retired observed (mcap_completed c) (mcap_reservations c)
           in c\<lparr>mcap_observation := Some (available, observed), mcap_completed := completed,
                mcap_reservations := res\<rparr>
      else c)"

definition margin_reserved :: "MarginCapacity \<Rightarrow> f64" where
  "margin_reserved c = fsum (map (\<lambda>(_, r). mres_amount r) (mcap_reservations c))"

definition margin_available :: "string \<Rightarrow> f64 \<Rightarrow> f64 \<Rightarrow> MarginCapacity \<Rightarrow> bool" where
  "margin_available i required available c =
     (let available = (case mcap_observation c of None \<Rightarrow> available | Some (v, _) \<Rightarrow> v);
          reserved = margin_reserved c
      in i \<noteq> [] \<and> length i \<le> 512 \<and> is_finite required \<and> 0 \<le> required \<and> is_finite available \<and> 0 \<le> available
         \<and> is_finite reserved \<and> hm_get (mcap_reservations c) i = None
         \<and> length (mcap_reservations c) < MAX_CAPACITY_RESERVATIONS \<and> reserved + required \<le> available)"

definition margin_insert :: "string \<Rightarrow> f64 \<Rightarrow> MarginCapacity \<Rightarrow> MarginCapacity" where
  "margin_insert i amount c = c\<lparr>mcap_reservations :=
     hm_insert i \<lparr>mres_amount = amount, mres_state = AwaitingProof\<rparr> (mcap_reservations c)\<rparr>"

definition margin_finish :: "string \<Rightarrow> BrokerCommandOutcome \<Rightarrow> instant \<Rightarrow> MarginCapacity \<Rightarrow> MarginCapacity" where
  "margin_finish i outcome now c =
     (let (completed, res) = finish_reservation mres_state (\<lambda>r. r\<lparr>mres_state := ReservationConfirmed\<rparr>) i outcome now
            (mcap_completed c, mcap_reservations c)
      in c\<lparr>mcap_completed := completed, mcap_reservations := res\<rparr>)"

subsection \<open>Quantity per symbol\<close>

definition symbol_retired :: "string \<Rightarrow> instant \<Rightarrow> SymbolCapacity \<Rightarrow> string list" where
  "symbol_retired symbol observed c = map fst (filter (\<lambda>(i, done). done < observed
     \<and> (case hm_get (scap_reservations c) i of None \<Rightarrow> False | Some r \<Rightarrow> sres_symbol r = symbol)) (scap_completed c))"

definition symbol_observe :: "string \<Rightarrow> f64 \<Rightarrow> instant \<Rightarrow> SymbolCapacity \<Rightarrow> SymbolCapacity" where
  "symbol_observe symbol quantity observed c =
     (if newer observed (hm_get (scap_observations c) symbol)
      then let retired = symbol_retired symbol observed c
           in c\<lparr>scap_observations := hm_insert symbol (quantity, observed) (scap_observations c),
                scap_completed := filter (\<lambda>(i, _). i \<notin> set retired) (scap_completed c),
                scap_reservations := fold hm_remove retired (scap_reservations c)\<rparr>
      else c)"

definition symbol_reserved :: "string \<Rightarrow> SymbolCapacity \<Rightarrow> f64" where
  "symbol_reserved symbol c =
     fsum (map (\<lambda>(_, r). sres_quantity r) (filter (\<lambda>(_, r). sres_symbol r = symbol) (scap_reservations c)))"

definition symbol_available :: "string \<Rightarrow> string \<Rightarrow> f64 \<Rightarrow> f64 \<Rightarrow> f64 \<Rightarrow> SymbolCapacity \<Rightarrow> bool" where
  "symbol_available i symbol requested limit observed c =
     (let observed = (case hm_get (scap_observations c) symbol of None \<Rightarrow> observed | Some (q, _) \<Rightarrow> q);
          reserved = symbol_reserved symbol c
      in i \<noteq> [] \<and> length i \<le> 512 \<and> symbol \<noteq> [] \<and> length symbol \<le> 128 \<and> is_finite requested \<and> 0 < requested
         \<and> is_finite limit \<and> 0 < limit \<and> is_finite observed \<and> is_finite reserved
         \<and> hm_get (scap_reservations c) i = None \<and> length (scap_reservations c) < MAX_CAPACITY_RESERVATIONS
         \<and> observed + reserved + requested \<le> limit)"

definition symbol_insert :: "string \<Rightarrow> string \<Rightarrow> f64 \<Rightarrow> SymbolCapacity \<Rightarrow> SymbolCapacity" where
  "symbol_insert i symbol quantity c = c\<lparr>scap_reservations := hm_insert i
     \<lparr>sres_symbol = symbol, sres_quantity = quantity, sres_state = AwaitingProof\<rparr> (scap_reservations c)\<rparr>"

definition symbol_finish :: "string \<Rightarrow> BrokerCommandOutcome \<Rightarrow> instant \<Rightarrow> SymbolCapacity \<Rightarrow> SymbolCapacity" where
  "symbol_finish i outcome now c =
     (let (completed, res) = finish_reservation sres_state (\<lambda>r. r\<lparr>sres_state := ReservationConfirmed\<rparr>) i outcome now
            (scap_completed c, scap_reservations c)
      in c\<lparr>scap_completed := completed, scap_reservations := res\<rparr>)"

section \<open>The abstract ledger\<close>

text \<open>
  A command is bound to what it reserves and, once its outcome is known, the instant of its completion.
  A refusal frees the command, an uncertain outcome changes nothing, and an observation frees what was
  completed strictly before it.
\<close>

type_synonym 'w ledger = "string \<Rightarrow> ('w \<times> instant option) option"

definition refuses :: "BrokerCommandOutcome \<Rightarrow> bool" where
  "refuses outcome = (case outcome of DeclinedOutcome _ \<Rightarrow> True | CancelledBeforeDispatch \<Rightarrow> True | _ \<Rightarrow> False)"

definition confirms :: "BrokerCommandOutcome \<Rightarrow> bool" where
  "confirms outcome = (case outcome of OrderResponse _ \<Rightarrow> True | Acknowledged \<Rightarrow> True | _ \<Rightarrow> False)"

definition ledger_retire :: "('w \<Rightarrow> bool) \<Rightarrow> instant \<Rightarrow> 'w ledger \<Rightarrow> 'w ledger" where
  "ledger_retire scope t L = (\<lambda>i. case L i of Some (w, Some done) \<Rightarrow> if scope w \<and> done < t then None else L i | e \<Rightarrow> e)"

definition ledger_finish :: "string \<Rightarrow> BrokerCommandOutcome \<Rightarrow> instant \<Rightarrow> 'w ledger \<Rightarrow> 'w ledger" where
  "ledger_finish i outcome now L = (case L i of
     Some (w, None) \<Rightarrow> if refuses outcome then L(i := None)
        else if confirms outcome then L(i \<mapsto> (w, Some now)) else L
   | _ \<Rightarrow> L)"

text \<open>
  What the queue of completions and the states of the reservations owe each other up to the instant
  \<open>now\<close>: the queue holds exactly the confirmed ones, each once, in the order of the clock.
\<close>

definition queue_ok :: "instant \<Rightarrow> (string \<times> instant) list \<Rightarrow> (string \<Rightarrow> ReservationState option) \<Rightarrow> bool" where
  "queue_ok now completed state \<longleftrightarrow> distinct (map fst completed)
     \<and> (\<forall>i. i \<in> fst ` set completed \<longleftrightarrow> state i = Some ReservationConfirmed)
     \<and> sorted (map snd completed) \<and> (\<forall>d\<in>snd ` set completed. d \<le> now)"

definition entry_of :: "('r \<Rightarrow> 'w) \<Rightarrow> (string \<times> instant) list \<Rightarrow> (string, 'r) hmap \<Rightarrow> 'w ledger" where
  "entry_of weight completed res = (\<lambda>i. map_option (\<lambda>r. (weight r, map_of completed i)) (hm_get res i))"

definition pending_ledger :: "PendingCapacity \<Rightarrow> unit ledger" where
  "pending_ledger c = entry_of (\<lambda>_. ()) (cap_completed c) (cap_reservations c)"

definition margin_ledger :: "MarginCapacity \<Rightarrow> f64 ledger" where
  "margin_ledger c = entry_of mres_amount (mcap_completed c) (mcap_reservations c)"

definition symbol_ledger :: "SymbolCapacity \<Rightarrow> (string \<times> f64) ledger" where
  "symbol_ledger c = entry_of (\<lambda>r. (sres_symbol r, sres_quantity r)) (scap_completed c) (scap_reservations c)"

definition ledger_ok :: "('r \<Rightarrow> ReservationState) \<Rightarrow> instant \<Rightarrow> (string \<times> instant) list \<Rightarrow> (string, 'r) hmap \<Rightarrow> bool" where
  "ledger_ok state now completed res \<longleftrightarrow> hm_ok res \<and> length res \<le> MAX_CAPACITY_RESERVATIONS
     \<and> queue_ok now completed (\<lambda>i. map_option state (hm_get res i))"

definition pending_ok :: "instant \<Rightarrow> PendingCapacity \<Rightarrow> bool" where
  "pending_ok now c \<longleftrightarrow> ledger_ok (\<lambda>s. s) now (cap_completed c) (cap_reservations c)"

definition margin_ok :: "instant \<Rightarrow> MarginCapacity \<Rightarrow> bool" where
  "margin_ok now c \<longleftrightarrow> ledger_ok mres_state now (mcap_completed c) (mcap_reservations c)"

definition symbol_ok :: "instant \<Rightarrow> SymbolCapacity \<Rightarrow> bool" where
  "symbol_ok now c \<longleftrightarrow> ledger_ok sres_state now (scap_completed c) (scap_reservations c)"

section \<open>The representation\<close>

lemma length_hm_remove: "length (hm_remove i m) \<le> length m"
  by (simp add: hm_remove_def length_delete_le)

lemma length_hm_modify [simp]: "length (hm_modify i f m) = length m"
  by (simp add: hm_modify_def)

lemma length_hm_insert: "hm_get m i = None \<Longrightarrow> length (hm_insert i v m) = Suc (length m)"
  by (induction m) (auto simp: hm_get_def hm_insert_def)

lemma fold_hm_remove:
  "hm_get (fold hm_remove is m) i = (if i \<in> set is then None else hm_get m i)"
  by (induction "is" arbitrary: m) auto

lemma fold_hm_remove_ok: "hm_ok m \<Longrightarrow> hm_ok (fold hm_remove is m)"
  by (induction "is" arbitrary: m) auto

lemma fold_hm_remove_length: "length (fold hm_remove is m) \<le> length m"
  by (induction "is" arbitrary: m) (auto intro: order_trans length_hm_remove)

text \<open>On an ordered queue popping from the front removes exactly what is older.\<close>

lemma pop_retired_filter:
  assumes "sorted (map snd q)"
  shows "pop_retired t q res =
    (filter (\<lambda>(_, d). \<not> d < t) q, fold hm_remove (map fst (filter (\<lambda>(_, d). d < t) q)) res)"
  using assms
proof (induction q arbitrary: res)
  case (Cons e q)
  obtain i d where e: "e = (i, d)" by fastforce
  show ?case
  proof (cases "d < t")
    case False
    then have "\<forall>(_, d')\<in>set q. \<not> d' < t" using Cons.prems e by fastforce
    then have "filter (\<lambda>(_, d). \<not> d < t) q = q" "filter (\<lambda>(_, d). d < t) q = []"
      by (auto simp: filter_id_conv filter_empty_conv)
    then show ?thesis using False e by simp
  qed (use Cons e in simp)
qed simp

lemma map_of_filter_keys:
  "distinct (map fst q) \<Longrightarrow> map_of (filter P q) i = (case map_of q i of None \<Rightarrow> None | Some d \<Rightarrow> if P (i, d) then Some d else None)"
proof (induction q)
  case (Cons e q)
  have "map_of q (fst e) = None" using Cons.prems by (simp add: map_of_eq_None_iff)
  with Cons show ?case by (cases e) (auto split: option.splits)
qed simp

lemma queue_ok_filter:
  assumes "queue_ok now q state" "\<And>i. state' i = (if i \<in> fst ` set (filter (\<lambda>e. \<not> P e) q) then None else state i)"
  shows "queue_ok now (filter P q) state'"
proof -
  have d: "distinct (map fst q)" using assms(1) by (simp add: queue_ok_def)
  have "fst ` (set q - set (filter (\<lambda>e. \<not> P e) q)) = fst ` set q - fst ` set (filter (\<lambda>e. \<not> P e) q)"
    using d by (intro inj_on_image_set_diff [where C = "set q"]) (auto simp: distinct_map)
  moreover have "set q - set (filter (\<lambda>e. \<not> P e) q) = set (filter P q)" by auto
  ultimately have same: "fst ` set (filter P q) = fst ` set q - fst ` set (filter (\<lambda>e. \<not> P e) q)" by simp
  have "i \<in> fst ` set (filter P q) \<longleftrightarrow> state' i = Some ReservationConfirmed" for i
  proof -
    have "i \<in> fst ` set q \<longleftrightarrow> state i = Some ReservationConfirmed" using assms(1) by (simp add: queue_ok_def)
    moreover have "i \<in> fst ` set (filter P q) \<longleftrightarrow> i \<in> fst ` set q \<and> i \<notin> fst ` set (filter (\<lambda>e. \<not> P e) q)"
      unfolding same by blast
    ultimately show ?thesis using assms(2) [of i] by auto
  qed
  then show ?thesis using assms(1) d
    by (auto simp: queue_ok_def distinct_map_filter sorted_filter)
qed

text \<open>What an observation leaves, with the retired commands given by a predicate on the queue.\<close>

lemma retire_entries:
  assumes "ledger_ok state now q res" "\<And>i d. (i, d) \<in> set q \<Longrightarrow> P (i, d) \<longleftrightarrow> scope (weight (the (hm_get res i))) \<and> d < t"
  shows "entry_of weight (filter (\<lambda>e. \<not> P e) q) (fold hm_remove (map fst (filter P q)) res)
    = ledger_retire scope t (entry_of weight q res)"
proof
  fix i
  have d: "distinct (map fst q)" using assms(1) by (simp add: ledger_ok_def queue_ok_def)
  have mem: "i \<in> fst ` set (filter P q) \<longleftrightarrow> (case map_of q i of None \<Rightarrow> False | Some x \<Rightarrow> P (i, x))"
    using d by (auto simp: image_iff map_of_eq_None_iff eq_commute split: option.splits dest: map_of_SomeD)
      (metis Some_eq_map_of_iff option.inject)+
  show "entry_of weight (filter (\<lambda>e. \<not> P e) q) (fold hm_remove (map fst (filter P q)) res) i
    = ledger_retire scope t (entry_of weight q res) i"
  proof (cases "map_of q i")
    case None
    then show ?thesis using mem d
      by (simp add: entry_of_def fold_hm_remove map_of_filter_keys ledger_retire_def split: option.splits)
  next
    case (Some x)
    then have "P (i, x) \<longleftrightarrow> scope (weight (the (hm_get res i))) \<and> x < t"
      using assms(2) by (simp add: map_of_SomeD)
    then show ?thesis using mem d Some
      by (cases "hm_get res i") (auto simp: entry_of_def fold_hm_remove map_of_filter_keys ledger_retire_def)
  qed
qed

lemma retire_ok:
  assumes "ledger_ok state now q res"
  shows "ledger_ok state now (filter (\<lambda>e. \<not> P e) q) (fold hm_remove (map fst (filter P q)) res)"
proof -
  have "length (fold hm_remove (map fst (filter P q)) res) \<le> MAX_CAPACITY_RESERVATIONS"
    using assms fold_hm_remove_length order_trans by (fastforce simp: ledger_ok_def)
  moreover have "queue_ok now (filter (\<lambda>e. \<not> P e) q)
      (\<lambda>i. map_option state (hm_get (fold hm_remove (map fst (filter P q)) res) i))"
    using assms by (intro queue_ok_filter [where state = "\<lambda>i. map_option state (hm_get res i)"])
      (auto simp: ledger_ok_def fold_hm_remove)
  ultimately show ?thesis using assms by (simp add: ledger_ok_def fold_hm_remove_ok)
qed

lemma finish_entries:
  assumes "ledger_ok state now q res" "\<And>r. weight (confirm r) = weight r"
    "finish_reservation state confirm i outcome now' (q, res) = (q', res')"
  shows "entry_of weight q' res' = ledger_finish i outcome now' (entry_of weight q res)"
proof -
  have mem: "map_of q i = None \<longleftrightarrow> map_option state (hm_get res i) \<noteq> Some ReservationConfirmed" for i
    using assms(1) by (simp add: ledger_ok_def queue_ok_def map_of_eq_None_iff)
  show ?thesis
  proof (cases "map_option state (hm_get res i) = Some AwaitingProof")
    case False
    then have "entry_of weight q res i = None \<or> (\<exists>w d. entry_of weight q res i = Some (w, Some d))"
      using mem [of i] by (cases "hm_get res i"; cases "map_of q i"; auto simp: entry_of_def)
        (metis ReservationState.exhaust)+
    then show ?thesis using assms(3) False by (auto simp: finish_reservation_def ledger_finish_def)
  next
    case True
    then obtain r where r: "hm_get res i = Some r" by (cases "hm_get res i") auto
    have n: "map_of q i = None" using mem [of i] True by simp
    have old: "entry_of weight q res i = Some (weight r, None)" by (simp add: entry_of_def r n)
    have upd: "map_of (q @ [(i, now')]) j = (if j = i then Some now' else map_of q j)" for j
      using n by (cases "map_of q j") (auto simp: map_add_def)
    have new: "ledger_finish i outcome now' (entry_of weight q res) = (if refuses outcome
        then (entry_of weight q res)(i := None) else if confirms outcome
        then (entry_of weight q res)(i \<mapsto> (weight r, Some now')) else entry_of weight q res)"
      by (simp add: ledger_finish_def old)
    show ?thesis unfolding new using assms(2,3) True n
      by (cases outcome) (auto simp: finish_reservation_def entry_of_def r refuses_def
        confirms_def fun_eq_iff map_add_def split: option.splits)
  qed
qed

lemma queue_ok_later: "queue_ok now q state \<Longrightarrow> now \<le> now' \<Longrightarrow> queue_ok now' q state"
  by (auto simp: queue_ok_def)

lemma finish_ok:
  assumes "ledger_ok state now q res" "now \<le> now'" "\<And>r. state (confirm r) = ReservationConfirmed"
    "finish_reservation state confirm i outcome now' (q, res) = (q', res')"
  shows "ledger_ok state now' q' res'"
proof -
  have old: "ledger_ok state now' q res" using assms(1,2) queue_ok_later by (auto simp: ledger_ok_def)
  show ?thesis
  proof (cases "map_option state (hm_get res i) = Some AwaitingProof")
    case False
    then show ?thesis using assms(4) old by (simp add: finish_reservation_def)
  next
    case True
    then have i: "i \<notin> fst ` set q" using old by (auto simp: ledger_ok_def queue_ok_def)
    have gone: "ledger_ok state now' q (hm_remove i res)"
      using old True i length_hm_remove [of i res] by (auto simp: ledger_ok_def queue_ok_def)
    have last: "ledger_ok state now' (q @ [(i, now')]) (hm_modify i confirm res)"
      using old True i assms(3) by (auto simp: ledger_ok_def queue_ok_def sorted_append)
    show ?thesis using assms(4) True old gone last
      by (cases outcome) (auto simp: finish_reservation_def)
  qed
qed

lemma insert_ledger:
  assumes "ledger_ok state now q res" "hm_get res i = None" "length res < MAX_CAPACITY_RESERVATIONS"
    "state r = AwaitingProof"
  shows "ledger_ok state now q (hm_insert i r res)"
    "entry_of weight q (hm_insert i r res) = (entry_of weight q res)(i \<mapsto> (weight r, None))"
proof -
  have "i \<notin> fst ` set q" using assms(1,2) by (auto simp: ledger_ok_def queue_ok_def)
  then have n: "map_of q i = None" by (simp add: map_of_eq_None_iff)
  show "ledger_ok state now q (hm_insert i r res)"
    using assms by (auto simp: ledger_ok_def queue_ok_def length_hm_insert)
  show "entry_of weight q (hm_insert i r res) = (entry_of weight q res)(i \<mapsto> (weight r, None))"
    using n by (auto simp: entry_of_def fun_eq_iff)
qed

section \<open>The interface\<close>

text \<open>
  \<open>observed c k\<close> is the observation in force for the key \<open>k\<close>, \<open>scope k\<close> says which reservations it proves, and
  \<open>ok now c\<close> is the invariant at the instant \<open>now\<close>.
\<close>

locale capacity_ledger =
  fixes observe :: "'k \<Rightarrow> 'v \<Rightarrow> instant \<Rightarrow> 'c \<Rightarrow> 'c"
    and reserve :: "string \<Rightarrow> 'w \<Rightarrow> 'c \<Rightarrow> 'c"
    and finish :: "string \<Rightarrow> BrokerCommandOutcome \<Rightarrow> instant \<Rightarrow> 'c \<Rightarrow> 'c"
    and observed :: "'c \<Rightarrow> 'k \<Rightarrow> ('v \<times> instant) option"
    and ledger :: "'c \<Rightarrow> 'w ledger"
    and room :: "'c \<Rightarrow> bool"
    and scope :: "'k \<Rightarrow> 'w \<Rightarrow> bool"
    and ok :: "instant \<Rightarrow> 'c \<Rightarrow> bool"
  assumes observe_ledger: "ok now c \<Longrightarrow> newer t (observed c k) \<Longrightarrow>
      ledger (observe k v t c) = ledger_retire (scope k) t (ledger c)"
    and observe_stale: "\<not> newer t (observed c k) \<Longrightarrow> observe k v t c = c"
    and reserve_ledger: "ok now c \<Longrightarrow> ledger c i = None \<Longrightarrow> room c \<Longrightarrow> ledger (reserve i w c) = (ledger c)(i \<mapsto> (w, None))"
    and finish_ledger: "ok now c \<Longrightarrow> ledger (finish i outcome t c) = ledger_finish i outcome t (ledger c)"
    and ok_observe: "ok now c \<Longrightarrow> ok now (observe k v t c)"
    and ok_reserve: "ok now c \<Longrightarrow> ledger c i = None \<Longrightarrow> room c \<Longrightarrow> ok now (reserve i w c)"
    and ok_finish: "ok now c \<Longrightarrow> now \<le> t \<Longrightarrow> ok t (finish i outcome t c)"
    and ok_later: "ok now c \<Longrightarrow> now \<le> now' \<Longrightarrow> ok now' c"
begin

text \<open>An observation frees nothing that is uncertain or was completed at its instant or later.\<close>

lemma observe_entry:
  assumes "ok now c" "ledger c i = Some (w, d)"
  shows "ledger (observe k v t c) i = Some (w, d)
    \<or> ledger (observe k v t c) i = None \<and> scope k w \<and> (\<exists>x. d = Some x \<and> x < t)"
proof (cases "newer t (observed c k)")
  case True
  then show ?thesis using assms by (cases d) (auto simp: observe_ledger ledger_retire_def)
qed (use assms in \<open>simp add: observe_stale\<close>)

lemma observe_absent: "ok now c \<Longrightarrow> ledger c i = None \<Longrightarrow> ledger (observe k v t c) i = None"
  by (cases "newer t (observed c k)") (auto simp: observe_ledger ledger_retire_def observe_stale)

lemma finish_other: "ok now c \<Longrightarrow> j \<noteq> i \<Longrightarrow> ledger (finish j outcome t c) i = ledger c i"
  by (auto simp: finish_ledger ledger_finish_def split: option.splits)

lemma finish_confirmed: "ok now c \<Longrightarrow> ledger c i = Some (w, Some d) \<Longrightarrow> ledger (finish j outcome t c) i = Some (w, Some d)"
  by (auto simp: finish_ledger ledger_finish_def split: option.splits)

lemma finish_awaiting:
  "ok now c \<Longrightarrow> ledger c i = Some (w, None) \<Longrightarrow> ledger (finish i outcome t c) i =
    (if refuses outcome then None else if confirms outcome then Some (w, Some t) else Some (w, None))"
  by (auto simp: finish_ledger ledger_finish_def)

text \<open>A redelivered completion changes nothing.\<close>

lemma finish_twice:
  assumes "ok now c" "now \<le> t" "\<not> (\<exists>reason. outcome = Ambiguous reason)"
  shows "ledger (finish i outcome' t' (finish i outcome t c)) = ledger (finish i outcome t c)"
proof -
  have "refuses outcome \<or> confirms outcome"
    using assms(3) by (cases outcome) (auto simp: refuses_def confirms_def)
  then show ?thesis using finish_ledger [OF ok_finish [OF assms(1,2)], of i outcome' t' i outcome] finish_ledger [OF assms(1)]
    by (auto simp: ledger_finish_def split: option.splits)
qed

end

lemma ledger_absent: "entry_of weight q res i = None \<longleftrightarrow> hm_get res i = None"
  by (simp add: entry_of_def)

lemma ledger_ok_later: "ledger_ok state now q res \<Longrightarrow> now \<le> now' \<Longrightarrow> ledger_ok state now' q res"
  using queue_ok_later by (auto simp: ledger_ok_def)

lemma ledger_ok_sorted: "ledger_ok state now q res \<Longrightarrow> sorted (map snd q)"
  by (simp add: ledger_ok_def queue_ok_def)

text \<open>Both queues popped from the front meet the law of an observation of everything.\<close>

lemma pop_entries:
  assumes "ledger_ok state now q res" "pop_retired t q res = (q', res')"
  shows "entry_of weight q' res' = ledger_retire (\<lambda>_. True) t (entry_of weight q res)" "ledger_ok state now q' res'"
  using assms(2) retire_entries [OF assms(1), of "\<lambda>(_, d). d < t" "\<lambda>_. True" weight t] retire_ok [OF assms(1), of "\<lambda>(_, d). d < t"]
  by (auto simp: pop_retired_filter [OF ledger_ok_sorted [OF assms(1)]] case_prod_unfold)

definition pending_room :: "PendingCapacity \<Rightarrow> bool" where
  "pending_room c \<longleftrightarrow> length (cap_reservations c) < MAX_CAPACITY_RESERVATIONS"

definition margin_room :: "MarginCapacity \<Rightarrow> bool" where
  "margin_room c \<longleftrightarrow> length (mcap_reservations c) < MAX_CAPACITY_RESERVATIONS"

definition symbol_room :: "SymbolCapacity \<Rightarrow> bool" where
  "symbol_room c \<longleftrightarrow> length (scap_reservations c) < MAX_CAPACITY_RESERVATIONS"

lemma pending_observed: "pending_ok now c \<Longrightarrow> pending_ok now (pending_observe v t c)
    \<and> (newer t (cap_observation c) \<longrightarrow> pending_ledger (pending_observe v t c) = ledger_retire (\<lambda>_. True) t (pending_ledger c))"
  using pop_entries unfolding pending_ok_def pending_ledger_def
  by (cases "pop_retired t (cap_completed c) (cap_reservations c)") (simp add: pending_observe_def, blast)

lemma margin_observed: "margin_ok now c \<Longrightarrow> margin_ok now (margin_observe v t c)
    \<and> (newer t (mcap_observation c) \<longrightarrow> margin_ledger (margin_observe v t c) = ledger_retire (\<lambda>_. True) t (margin_ledger c))"
  using pop_entries unfolding margin_ok_def margin_ledger_def
  by (cases "pop_retired t (mcap_completed c) (mcap_reservations c)") (simp add: margin_observe_def, blast)

lemma filter_removed:
  assumes "distinct (map fst q)"
  shows "filter (\<lambda>(i, _). i \<notin> set (map fst (filter P q))) q = filter (\<lambda>e. \<not> P e) q"
proof (rule filter_cong)
  fix e assume e: "e \<in> set q"
  have "P e" if "e' \<in> set q" "P e'" "fst e' = fst e" for e'
    using assms e that by (metis distinct_map inj_onD)
  then have "fst e \<in> fst ` set (filter P q) \<longleftrightarrow> P e" using e by force
  then show "(case e of (i, _) \<Rightarrow> i \<notin> set (map fst (filter P q))) \<longleftrightarrow> \<not> P e"
    by (simp add: case_prod_unfold)
qed simp

lemma symbol_observed:
  assumes "symbol_ok now c"
  shows "symbol_ok now (symbol_observe k v t c)"
    "newer t (hm_get (scap_observations c) k) \<Longrightarrow>
      symbol_ledger (symbol_observe k v t c) = ledger_retire (\<lambda>(s, _). s = k) t (symbol_ledger c)"
proof -
  let ?P = "\<lambda>(i, d). d < t \<and> (case hm_get (scap_reservations c) i of None \<Rightarrow> False | Some r \<Rightarrow> sres_symbol r = k)"
  let ?q = "scap_completed c" and ?res = "scap_reservations c"
  have ok: "ledger_ok sres_state now ?q ?res" using assms by (simp add: symbol_ok_def)
  have dist: "distinct (map fst ?q)" using ok by (simp add: ledger_ok_def queue_ok_def)
  have kept: "filter (\<lambda>(i, _). i \<notin> set (map fst (filter ?P ?q))) ?q = filter (\<lambda>e. \<not> ?P e) ?q"
    by (rule filter_removed [OF dist])
  have confirmed: "hm_get ?res i \<noteq> None" if "(i, d) \<in> set ?q" for i d
    using ok that by (force simp: ledger_ok_def queue_ok_def)
  have P: "?P (i, d) \<longleftrightarrow> (\<lambda>(s, _). s = k) ((\<lambda>r. (sres_symbol r, sres_quantity r)) (the (hm_get ?res i))) \<and> d < t"
    if "(i, d) \<in> set ?q" for i d
    using confirmed [OF that] by auto
  show "symbol_ok now (symbol_observe k v t c)"
    using retire_ok [OF ok, of ?P] ok kept by (simp add: symbol_observe_def symbol_ok_def symbol_retired_def Let_def)
  show "newer t (hm_get (scap_observations c) k) \<Longrightarrow>
      symbol_ledger (symbol_observe k v t c) = ledger_retire (\<lambda>(s, _). s = k) t (symbol_ledger c)"
    using retire_entries [OF ok, of ?P "\<lambda>(s, _). s = k" "\<lambda>r. (sres_symbol r, sres_quantity r)" t, OF P] kept
    by (simp add: symbol_observe_def symbol_ledger_def symbol_retired_def Let_def)
qed

lemma pending_later: "pending_ok now c \<Longrightarrow> now \<le> now' \<Longrightarrow> pending_ok now' c"
  by (simp add: pending_ok_def ledger_ok_later)

lemma pending_stale: "\<not> newer t (cap_observation c) \<Longrightarrow> pending_observe v t c = c"
  by (simp add: pending_observe_def)

lemma margin_later: "margin_ok now c \<Longrightarrow> now \<le> now' \<Longrightarrow> margin_ok now' c"
  by (simp add: margin_ok_def ledger_ok_later)

lemma margin_stale: "\<not> newer t (mcap_observation c) \<Longrightarrow> margin_observe v t c = c"
  by (simp add: margin_observe_def)

lemma symbol_later: "symbol_ok now c \<Longrightarrow> now \<le> now' \<Longrightarrow> symbol_ok now' c"
  by (simp add: symbol_ok_def ledger_ok_later)

lemma symbol_stale: "\<not> newer t (hm_get (scap_observations c) k) \<Longrightarrow> symbol_observe k v t c = c"
  by (simp add: symbol_observe_def)

lemma pending_inserted:
  assumes "pending_ok now c" "pending_ledger c i = None" "pending_room c"
  shows "pending_ok now (pending_insert i c)" "pending_ledger (pending_insert i c) = (pending_ledger c)(i \<mapsto> ((), None))"
proof -
  have ok: "ledger_ok (\<lambda>s. s) now (cap_completed c) (cap_reservations c)" "hm_get (cap_reservations c) i = None"
    "length (cap_reservations c) < MAX_CAPACITY_RESERVATIONS"
    using assms by (simp_all add: pending_ok_def pending_ledger_def pending_room_def ledger_absent)
  have r: "(\<lambda>s. s) AwaitingProof = AwaitingProof" by simp
  show "pending_ok now (pending_insert i c)" using insert_ledger(1) [OF ok r] by (simp add: pending_ok_def pending_insert_def)
  show "pending_ledger (pending_insert i c) = (pending_ledger c)(i \<mapsto> ((), None))"
    using insert_ledger(2) [OF ok r, of "(\<lambda>_. ())"] by (simp add: pending_ledger_def pending_insert_def)
qed

lemma pending_finished:
  assumes "pending_ok now c"
  shows "now \<le> t \<Longrightarrow> pending_ok t (pending_finish i outcome t c)"
    "pending_ledger (pending_finish i outcome t c) = ledger_finish i outcome t (pending_ledger c)"
proof -
  have ok: "ledger_ok (\<lambda>s. s) now (cap_completed c) (cap_reservations c)" using assms by (simp add: pending_ok_def)
  obtain q res where r: "finish_reservation (\<lambda>s. s) (\<lambda>_. ReservationConfirmed) i outcome t
      (cap_completed c, cap_reservations c) = (q, res)" by fastforce
  show "now \<le> t \<Longrightarrow> pending_ok t (pending_finish i outcome t c)"
    using finish_ok [OF ok _ _ r] by (simp add: pending_ok_def pending_finish_def r)
  show "pending_ledger (pending_finish i outcome t c) = ledger_finish i outcome t (pending_ledger c)"
    using finish_entries [OF ok _ r, of "(\<lambda>_. ())"] by (simp add: pending_ledger_def pending_finish_def r)
qed

lemma margin_inserted:
  assumes "margin_ok now c" "margin_ledger c i = None" "margin_room c"
  shows "margin_ok now (margin_insert i w c)" "margin_ledger (margin_insert i w c) = (margin_ledger c)(i \<mapsto> (w, None))"
proof -
  have ok: "ledger_ok mres_state now (mcap_completed c) (mcap_reservations c)" "hm_get (mcap_reservations c) i = None"
    "length (mcap_reservations c) < MAX_CAPACITY_RESERVATIONS"
    using assms by (simp_all add: margin_ok_def margin_ledger_def margin_room_def ledger_absent)
  have r: "mres_state \<lparr>mres_amount = w, mres_state = AwaitingProof\<rparr> = AwaitingProof" by simp
  show "margin_ok now (margin_insert i w c)" using insert_ledger(1) [OF ok r] by (simp add: margin_ok_def margin_insert_def)
  show "margin_ledger (margin_insert i w c) = (margin_ledger c)(i \<mapsto> (w, None))"
    using insert_ledger(2) [OF ok r, of "mres_amount"] by (simp add: margin_ledger_def margin_insert_def)
qed

lemma margin_finished:
  assumes "margin_ok now c"
  shows "now \<le> t \<Longrightarrow> margin_ok t (margin_finish i outcome t c)"
    "margin_ledger (margin_finish i outcome t c) = ledger_finish i outcome t (margin_ledger c)"
proof -
  have ok: "ledger_ok mres_state now (mcap_completed c) (mcap_reservations c)" using assms by (simp add: margin_ok_def)
  obtain q res where r: "finish_reservation mres_state (\<lambda>r. r\<lparr>mres_state := ReservationConfirmed\<rparr>) i outcome t
      (mcap_completed c, mcap_reservations c) = (q, res)" by fastforce
  show "now \<le> t \<Longrightarrow> margin_ok t (margin_finish i outcome t c)"
    using finish_ok [OF ok _ _ r] by (simp add: margin_ok_def margin_finish_def r)
  show "margin_ledger (margin_finish i outcome t c) = ledger_finish i outcome t (margin_ledger c)"
    using finish_entries [OF ok _ r, of "mres_amount"] by (simp add: margin_ledger_def margin_finish_def r)
qed

lemma symbol_inserted:
  assumes "symbol_ok now c" "symbol_ledger c i = None" "symbol_room c"
  shows "symbol_ok now (symbol_insert i s w c)" "symbol_ledger (symbol_insert i s w c) = (symbol_ledger c)(i \<mapsto> ((s, w), None))"
proof -
  have ok: "ledger_ok sres_state now (scap_completed c) (scap_reservations c)" "hm_get (scap_reservations c) i = None"
    "length (scap_reservations c) < MAX_CAPACITY_RESERVATIONS"
    using assms by (simp_all add: symbol_ok_def symbol_ledger_def symbol_room_def ledger_absent)
  have r: "sres_state \<lparr>sres_symbol = s, sres_quantity = w, sres_state = AwaitingProof\<rparr> = AwaitingProof" by simp
  show "symbol_ok now (symbol_insert i s w c)" using insert_ledger(1) [OF ok r] by (simp add: symbol_ok_def symbol_insert_def)
  show "symbol_ledger (symbol_insert i s w c) = (symbol_ledger c)(i \<mapsto> ((s, w), None))"
    using insert_ledger(2) [OF ok r, of "(\<lambda>r. (sres_symbol r, sres_quantity r))"] by (simp add: symbol_ledger_def symbol_insert_def)
qed

lemma symbol_finished:
  assumes "symbol_ok now c"
  shows "now \<le> t \<Longrightarrow> symbol_ok t (symbol_finish i outcome t c)"
    "symbol_ledger (symbol_finish i outcome t c) = ledger_finish i outcome t (symbol_ledger c)"
proof -
  have ok: "ledger_ok sres_state now (scap_completed c) (scap_reservations c)" using assms by (simp add: symbol_ok_def)
  obtain q res where r: "finish_reservation sres_state (\<lambda>r. r\<lparr>sres_state := ReservationConfirmed\<rparr>) i outcome t
      (scap_completed c, scap_reservations c) = (q, res)" by fastforce
  show "now \<le> t \<Longrightarrow> symbol_ok t (symbol_finish i outcome t c)"
    using finish_ok [OF ok _ _ r] by (simp add: symbol_ok_def symbol_finish_def r)
  show "symbol_ledger (symbol_finish i outcome t c) = ledger_finish i outcome t (symbol_ledger c)"
    using finish_entries [OF ok _ r, of "(\<lambda>r. (sres_symbol r, sres_quantity r))"] by (simp add: symbol_ledger_def symbol_finish_def r)
qed

interpretation pend: capacity_ledger "\<lambda>_::unit. pending_observe" "\<lambda>i _. pending_insert i" pending_finish
  "\<lambda>c _. cap_observation c" pending_ledger pending_room "\<lambda>_ _. True" pending_ok
  by unfold_locales (auto simp: pending_observed pending_stale pending_inserted pending_finished
    pending_later)

interpretation marg: capacity_ledger "\<lambda>_::unit. margin_observe" margin_insert margin_finish
  "\<lambda>c _. mcap_observation c" margin_ledger margin_room "\<lambda>_ _. True" margin_ok
  by unfold_locales (auto simp: margin_observed margin_stale margin_inserted margin_finished
    margin_later)

interpretation symb: capacity_ledger symbol_observe "\<lambda>i (s, q). symbol_insert i s q" symbol_finish
  "\<lambda>c. hm_get (scap_observations c)" symbol_ledger symbol_room "\<lambda>k (s, _). s = k" symbol_ok
  by unfold_locales (auto simp: symbol_observed symbol_stale symbol_inserted symbol_finished
    symbol_later)

end
