(* ===== verification/AccountLane.thy ===== *)
theory AccountLane
  imports CapacityLedger IdSets
begin

text \<open>
  Admission to one broker account (\<open>src/src/core/broker/command_worker/account_lane.rs\<close>): at most one
  mutation at a time, cleanup before ordinary work and first come first served within each, together
  with the capacity ledgers and the process-wide registry of lanes.

  A task that waits keeps a \<open>Waiter\<close>; \<open>acquire\<close> is the part before its first suspension, and each round of its
  loop is \<open>acquire_poll\<close>.  The state is behind a mutex that is held for each of these, so that they
  are steps.  tokio's \<open>Notify\<close> is the parameter \<open>NotifyOps\<close>.
\<close>

section \<open>Notifications\<close>

text \<open>\<open>nt_notified\<close> is one poll of \<open>notified()\<close>: None while it is pending.\<close>

record 'n NotifyOps =
  nt_new :: 'n
  nt_notify_one :: "'n \<Rightarrow> 'n"
  nt_notified :: "'n \<Rightarrow> 'n option"

text \<open>
  What tokio documents: a fresh \<open>Notify\<close> has no permit, \<open>notify_one\<close> stores one when nobody waits, and it
  holds at most one.
\<close>

definition notify_laws :: "'n NotifyOps \<Rightarrow> bool" where
  "notify_laws N \<longleftrightarrow> nt_notified N (nt_new N) = None
     \<and> (\<forall>n. nt_notified N (nt_notify_one N n) \<noteq> None)
     \<and> (\<forall>n n'. nt_notified N n = Some n' \<longrightarrow> nt_notified N n' = None)"

definition permit_flag :: "bool NotifyOps" where
  "permit_flag = \<lparr>nt_new = False, nt_notify_one = (\<lambda>_. True), nt_notified = (\<lambda>b. if b then Some False else None)\<rparr>"

lemma permit_flag_laws: "notify_laws permit_flag"
  by (simp add: notify_laws_def permit_flag_def)

section \<open>Data\<close>

definition MAX_ACCOUNT_LANES :: nat where "MAX_ACCOUNT_LANES = 4096"
definition MAX_WAITERS :: nat where "MAX_WAITERS = 4096"

text \<open>\<open>ad_cleanup\<close> and \<open>ad_normal\<close> are \<open>waiting[0]\<close> and \<open>waiting[1]\<close>, ordered by key.\<close>

record 'n Admission =
  ad_active :: bool
  ad_sequence :: nat
  ad_cleanup :: "(nat \<times> 'n) list"
  ad_normal :: "(nat \<times> 'n) list"
  ad_capacity :: PendingCapacity
  ad_symbol_capacity :: SymbolCapacity
  ad_margin_capacity :: MarginCapacity

definition admission_default :: "'n Admission" where
  "admission_default = \<lparr>ad_active = False, ad_sequence = 0, ad_cleanup = [], ad_normal = [],
     ad_capacity = pending_capacity_default, ad_symbol_capacity = symbol_capacity_default,
     ad_margin_capacity = margin_capacity_default\<rparr>"

record EntryReservation =
  er_pending :: bool
  er_symbol :: bool
  er_margin :: bool

definition entry_reservation_default :: EntryReservation where
  "entry_reservation_default = \<lparr>er_pending = False, er_symbol = False, er_margin = False\<rparr>"

datatype CapacityRejection = RejectPendingOrders | RejectSymbolQuantity | RejectMargin

record Waiter =
  wt_cleanup :: bool
  wt_id :: nat

section \<open>Admission\<close>

definition waiting :: "bool \<Rightarrow> 'n Admission \<Rightarrow> (nat \<times> 'n) list" where
  "waiting cleanup st = (if cleanup then ad_cleanup st else ad_normal st)"

definition set_waiting :: "bool \<Rightarrow> (nat \<times> 'n) list \<Rightarrow> 'n Admission \<Rightarrow> 'n Admission" where
  "set_waiting cleanup q st = (if cleanup then st\<lparr>ad_cleanup := q\<rparr> else st\<lparr>ad_normal := q\<rparr>)"

definition next_waiter :: "'n Admission \<Rightarrow> Waiter option" where
  "next_waiter st = (case ad_cleanup st of
       (i, _) # _ \<Rightarrow> Some \<lparr>wt_cleanup = True, wt_id = i\<rparr>
     | [] \<Rightarrow> (case ad_normal st of (i, _) # _ \<Rightarrow> Some \<lparr>wt_cleanup = False, wt_id = i\<rparr> | [] \<Rightarrow> None))"

definition wake :: "'n NotifyOps \<Rightarrow> 'n Admission \<Rightarrow> 'n Admission" where
  "wake N st = (if ad_active st then st else case next_waiter st of None \<Rightarrow> st
     | Some w \<Rightarrow> set_waiting (wt_cleanup w) (hm_modify (wt_id w) (nt_notify_one N) (waiting (wt_cleanup w) st)) st)"

text \<open>The result of \<open>acquire\<close> when it returns at once, or the waiter it goes on with.\<close>

datatype Acquire = Granted | Refused BrokerCommandError | Waits Waiter

definition acquire :: "'n NotifyOps \<Rightarrow> bool \<Rightarrow> 'n Admission \<Rightarrow> Acquire \<times> 'n Admission" where
  "acquire N cleanup st =
     (if \<not> ad_active st \<and> ad_cleanup st = [] \<and> (cleanup \<or> ad_normal st = [])
      then (Granted, st\<lparr>ad_active := True\<rparr>)
      else if MAX_WAITERS \<le> length (waiting cleanup st) then (Refused CmdQueueFull, st)
      else let i = ad_sequence st in
        if 2 ^ 64 \<le> i + 1 then (Refused CmdQueueFull, st)
        else let st = st\<lparr>ad_sequence := i + 1\<rparr>;
                 st = set_waiting cleanup (bm_insert i (nt_new N) (waiting cleanup st)) st
             in (Waits \<lparr>wt_cleanup = cleanup, wt_id = i\<rparr>, wake N st))"

text \<open>One round of the loop of \<open>acquire\<close>; the result is whether the permit was granted.\<close>

definition acquire_poll :: "'n NotifyOps \<Rightarrow> Waiter \<Rightarrow> 'n Admission \<Rightarrow> bool \<times> 'n Admission" where
  "acquire_poll N w st = (case Option.bind (hm_get (waiting (wt_cleanup w) st) (wt_id w)) (nt_notified N) of
       None \<Rightarrow> (False, st)
     | Some n \<Rightarrow>
        let st = set_waiting (wt_cleanup w) (hm_modify (wt_id w) (\<lambda>_. n) (waiting (wt_cleanup w) st)) st
        in if \<not> ad_active st \<and> next_waiter st = Some w
           then (True, (set_waiting (wt_cleanup w) (hm_remove (wt_id w) (waiting (wt_cleanup w) st)) st)\<lparr>ad_active := True\<rparr>)
           else (False, st))"

text \<open>Dropping the future while it waits, and dropping the permit.\<close>

definition waiter_drop :: "'n NotifyOps \<Rightarrow> Waiter \<Rightarrow> 'n Admission \<Rightarrow> 'n Admission" where
  "waiter_drop N w st = wake N (set_waiting (wt_cleanup w) (hm_remove (wt_id w) (waiting (wt_cleanup w) st)) st)"

definition permit_drop :: "'n NotifyOps \<Rightarrow> 'n Admission \<Rightarrow> 'n Admission" where
  "permit_drop N st = wake N (st\<lparr>ad_active := False\<rparr>)"

section \<open>Capacity\<close>

text \<open>The arguments are limit, count and instant; symbol, request, limit, observed quantity and instant;
  requirement, available margin and instant.\<close>

type_synonym pending_arg = "(nat \<times> nat \<times> instant) option"
type_synonym symbol_arg = "(string \<times> f64 \<times> f64 \<times> f64 \<times> instant) option"
type_synonym margin_arg = "(f64 \<times> f64 \<times> instant) option"

definition observe_entry :: "pending_arg \<Rightarrow> symbol_arg \<Rightarrow> margin_arg \<Rightarrow> 'n Admission \<Rightarrow> 'n Admission" where
  "observe_entry pending symbol margin st = st\<lparr>
     ad_capacity := (case pending of None \<Rightarrow> ad_capacity st
       | Some (_, count, observed) \<Rightarrow> pending_observe count observed (ad_capacity st)),
     ad_symbol_capacity := (case symbol of None \<Rightarrow> ad_symbol_capacity st
       | Some (symbol, _, _, quantity, observed) \<Rightarrow> symbol_observe symbol quantity observed (ad_symbol_capacity st)),
     ad_margin_capacity := (case margin of None \<Rightarrow> ad_margin_capacity st
       | Some (_, available, observed) \<Rightarrow> margin_observe available observed (ad_margin_capacity st))\<rparr>"

definition check_entry :: "string \<Rightarrow> pending_arg \<Rightarrow> symbol_arg \<Rightarrow> margin_arg \<Rightarrow> 'n Admission \<Rightarrow> CapacityRejection option" where
  "check_entry i pending symbol margin st =
     (if (case pending of None \<Rightarrow> False | Some (limit, count, _) \<Rightarrow> \<not> pending_available i limit count (ad_capacity st))
      then Some RejectPendingOrders
      else if (case symbol of None \<Rightarrow> False | Some (symbol, requested, limit, quantity, _) \<Rightarrow>
          \<not> symbol_available i symbol requested limit quantity (ad_symbol_capacity st))
      then Some RejectSymbolQuantity
      else if (case margin of None \<Rightarrow> False | Some (required, available, _) \<Rightarrow>
          \<not> margin_available i required available (ad_margin_capacity st))
      then Some RejectMargin else None)"

definition insert_entry :: "string \<Rightarrow> pending_arg \<Rightarrow> symbol_arg \<Rightarrow> margin_arg \<Rightarrow> 'n Admission \<Rightarrow> 'n Admission" where
  "insert_entry i pending symbol margin st = st\<lparr>
     ad_capacity := (if pending = None then ad_capacity st else pending_insert i (ad_capacity st)),
     ad_symbol_capacity := (case symbol of None \<Rightarrow> ad_symbol_capacity st
       | Some (symbol, requested, _) \<Rightarrow> symbol_insert i symbol requested (ad_symbol_capacity st)),
     ad_margin_capacity := (case margin of None \<Rightarrow> ad_margin_capacity st
       | Some (required, _) \<Rightarrow> margin_insert i required (ad_margin_capacity st))\<rparr>"

definition reserve_entry :: "string \<Rightarrow> pending_arg \<Rightarrow> symbol_arg \<Rightarrow> margin_arg \<Rightarrow> 'n Admission
    \<Rightarrow> (CapacityRejection + EntryReservation) \<times> 'n Admission" where
  "reserve_entry i pending symbol margin st =
     (let st = observe_entry pending symbol margin st
      in case check_entry i pending symbol margin st of Some e \<Rightarrow> (Inl e, st)
       | None \<Rightarrow> (Inr \<lparr>er_pending = pending \<noteq> None, er_symbol = symbol \<noteq> None, er_margin = margin \<noteq> None\<rparr>,
           insert_entry i pending symbol margin st))"

text \<open>Each ledger reads the clock for itself, in this order.\<close>

definition finish_entry :: "string \<Rightarrow> EntryReservation \<Rightarrow> BrokerCommandOutcome \<Rightarrow> instant \<times> instant \<times> instant
    \<Rightarrow> 'n Admission \<Rightarrow> 'n Admission" where
  "finish_entry i r outcome clock st = (case clock of (t1, t2, t3) \<Rightarrow> st\<lparr>
     ad_capacity := (if er_pending r then pending_finish i outcome t1 (ad_capacity st) else ad_capacity st),
     ad_symbol_capacity := (if er_symbol r then symbol_finish i outcome t2 (ad_symbol_capacity st)
       else ad_symbol_capacity st),
     ad_margin_capacity := (if er_margin r then margin_finish i outcome t3 (ad_margin_capacity st)
       else ad_margin_capacity st)\<rparr>)"

definition settle_entry :: "string \<Rightarrow> BrokerCommandOutcome \<Rightarrow> instant \<times> instant \<times> instant
    \<Rightarrow> 'n Admission \<Rightarrow> 'n Admission" where
  "settle_entry i outcome clock st = (case clock of (t1, t2, t3) \<Rightarrow> st\<lparr>
     ad_capacity := pending_finish i outcome t1 (ad_capacity st),
     ad_symbol_capacity := symbol_finish i outcome t2 (ad_symbol_capacity st),
     ad_margin_capacity := margin_finish i outcome t3 (ad_margin_capacity st)\<rparr>)"

section \<open>The registry of lanes\<close>

text \<open>
  A lane is a number, standing for its address; \<open>reg_lanes\<close> holds the \<open>Weak\<close> references by key, \<open>reg_keys\<close>
  the keys of all lanes whose memory exists and \<open>reg_strong\<close> their owners.  A lane without owner is being
  dropped: its destructor still has to take the lock.
\<close>

record Registry =
  reg_lanes :: "(string \<times> string, nat) hmap"
  reg_keys :: "(nat, string \<times> string) hmap"
  reg_strong :: "(nat, nat) hmap"
  reg_fresh :: nat

definition registry_default :: Registry where
  "registry_default = \<lparr>reg_lanes = [], reg_keys = [], reg_strong = [], reg_fresh = 0\<rparr>"

definition strong_count :: "Registry \<Rightarrow> nat \<Rightarrow> nat" where
  "strong_count r lane = unwrap_or (hm_get (reg_strong r) lane) 0"

definition shared :: "string \<Rightarrow> string \<Rightarrow> Registry \<Rightarrow> (BrokerCommandError + nat) \<times> Registry" where
  "shared provider account r =
     (let provider = trim provider; account = trim account in
      if provider = [] \<or> 512 < length provider \<or> account = [] \<or> 512 < length account
      then (Inl (CmdInvalid ''invalid mutation provider/account identity''), r)
      else let key = (provider, account);
               found = (case hm_get (reg_lanes r) key of None \<Rightarrow> None
                 | Some lane \<Rightarrow> if strong_count r lane \<noteq> 0 then Some lane else None)
        in case found of
             Some lane \<Rightarrow> (Inr lane, r\<lparr>reg_strong := hm_insert lane (strong_count r lane + 1) (reg_strong r)\<rparr>)
           | None \<Rightarrow>
              let r = r\<lparr>reg_lanes := filter (\<lambda>(_, lane). strong_count r lane \<noteq> 0) (reg_lanes r)\<rparr>
              in if MAX_ACCOUNT_LANES \<le> length (reg_lanes r) then (Inl CmdQueueFull, r)
                 else let lane = reg_fresh r
                   in (Inr lane, r\<lparr>reg_lanes := hm_insert key lane (reg_lanes r),
                        reg_keys := hm_insert lane key (reg_keys r),
                        reg_strong := hm_insert lane 1 (reg_strong r), reg_fresh := lane + 1\<rparr>))"

text \<open>\<open>Arc::clone\<close>, dropping an owner, and the destructor once no owner is left.\<close>

definition clone_lane :: "nat \<Rightarrow> Registry \<Rightarrow> Registry" where
  "clone_lane lane r = r\<lparr>reg_strong := hm_insert lane (strong_count r lane + 1) (reg_strong r)\<rparr>"

definition drop_owner :: "nat \<Rightarrow> Registry \<Rightarrow> Registry" where
  "drop_owner lane r = r\<lparr>reg_strong := hm_insert lane (strong_count r lane - 1) (reg_strong r)\<rparr>"

definition lane_drop :: "nat \<Rightarrow> Registry \<Rightarrow> Registry" where
  "lane_drop lane r = (case hm_get (reg_keys r) lane of None \<Rightarrow> r
     | Some key \<Rightarrow> r\<lparr>reg_lanes := (if hm_get (reg_lanes r) key = Some lane then hm_remove key (reg_lanes r) else reg_lanes r),
         reg_keys := hm_remove lane (reg_keys r), reg_strong := hm_remove lane (reg_strong r)\<rparr>)"

end
