(* ===== verification/AccountLaneProperties.thy ===== *)
theory AccountLaneProperties
  imports AccountLane
begin

text \<open>
  What the lane of an account guarantees: one mutation at a time and no lost wakeup in every reachable
  state, the order of admission, that every waiter is served, that a reserved slot is kept until the broker
  refused the command or was observed after its completion, and one live lane per account.
\<close>

section \<open>Steps\<close>

record 'n LaneSystem =
  ls_state :: "'n Admission"
  ls_waiters :: "Waiter list"
  ls_permits :: nat

definition lane_initial :: "'n LaneSystem" where
  "lane_initial = \<lparr>ls_state = admission_default, ls_waiters = [], ls_permits = 0\<rparr>"

text \<open>Tasks ask for the permit, poll, are dropped while waiting, and use and return their permit, in any order.\<close>

inductive lane_step :: "'n NotifyOps \<Rightarrow> 'n LaneSystem \<Rightarrow> 'n LaneSystem \<Rightarrow> bool" for N where
  acquired: "acquire N c (ls_state s) = (Granted, st) \<Longrightarrow>
    lane_step N s (s\<lparr>ls_state := st, ls_permits := ls_permits s + 1\<rparr>)"
| refused: "acquire N c (ls_state s) = (Refused e, st) \<Longrightarrow> lane_step N s (s\<lparr>ls_state := st\<rparr>)"
| waits: "acquire N c (ls_state s) = (Waits w, st) \<Longrightarrow>
    lane_step N s (s\<lparr>ls_state := st, ls_waiters := w # ls_waiters s\<rparr>)"
| polled: "w \<in> set (ls_waiters s) \<Longrightarrow> acquire_poll N w (ls_state s) = (False, st) \<Longrightarrow>
    lane_step N s (s\<lparr>ls_state := st\<rparr>)"
| granted: "w \<in> set (ls_waiters s) \<Longrightarrow> acquire_poll N w (ls_state s) = (True, st) \<Longrightarrow>
    lane_step N s (s\<lparr>ls_state := st, ls_waiters := remove1 w (ls_waiters s), ls_permits := ls_permits s + 1\<rparr>)"
| dropped: "w \<in> set (ls_waiters s) \<Longrightarrow>
    lane_step N s (s\<lparr>ls_state := waiter_drop N w (ls_state s), ls_waiters := remove1 w (ls_waiters s)\<rparr>)"
| released: "ls_permits s \<noteq> 0 \<Longrightarrow>
    lane_step N s (s\<lparr>ls_state := permit_drop N (ls_state s), ls_permits := ls_permits s - 1\<rparr>)"
| reserved: "ls_permits s \<noteq> 0 \<Longrightarrow> reserve_entry i pending symbol margin (ls_state s) = (r, st) \<Longrightarrow>
    lane_step N s (s\<lparr>ls_state := st\<rparr>)"
| finished: "ls_permits s \<noteq> 0 \<Longrightarrow> lane_step N s (s\<lparr>ls_state := finish_entry i r outcome clock (ls_state s)\<rparr>)"
| settled: "lane_step N s (s\<lparr>ls_state := settle_entry i outcome clock (ls_state s)\<rparr>)"

inductive lane_reachable :: "'n NotifyOps \<Rightarrow> 'n LaneSystem \<Rightarrow> bool" for N where
  start: "lane_reachable N lane_initial"
| step: "lane_reachable N s \<Longrightarrow> lane_step N s s' \<Longrightarrow> lane_reachable N s'"

section \<open>The scheduling state\<close>

definition keys :: "bool \<Rightarrow> 'n Admission \<Rightarrow> nat list" where
  "keys c st = map fst (waiting c st)"

definition first_of :: "nat list \<Rightarrow> nat list \<Rightarrow> Waiter option" where
  "first_of cs ns = (case cs of i # _ \<Rightarrow> Some \<lparr>wt_cleanup = True, wt_id = i\<rparr>
     | [] \<Rightarrow> (case ns of i # _ \<Rightarrow> Some \<lparr>wt_cleanup = False, wt_id = i\<rparr> | [] \<Rightarrow> None))"

definition permit_ready :: "'n NotifyOps \<Rightarrow> Waiter \<Rightarrow> 'n Admission \<Rightarrow> bool" where
  "permit_ready N w st \<longleftrightarrow> Option.bind (hm_get (waiting (wt_cleanup w) st) (wt_id w)) (nt_notified N) \<noteq> None"

definition armed :: "'n NotifyOps \<Rightarrow> 'n Admission \<Rightarrow> bool" where
  "armed N st \<longleftrightarrow> (\<forall>w. \<not> ad_active st \<longrightarrow> next_waiter st = Some w \<longrightarrow> permit_ready N w st)"

definition lane_inv :: "'n NotifyOps \<Rightarrow> 'n LaneSystem \<Rightarrow> bool" where
  "lane_inv N s \<longleftrightarrow> ls_permits s = (if ad_active (ls_state s) then 1 else 0)
     \<and> (\<forall>c. bt_ok (keys c (ls_state s)) \<and> length (keys c (ls_state s)) \<le> MAX_WAITERS
          \<and> (\<forall>i\<in>set (keys c (ls_state s)). i < ad_sequence (ls_state s)))
     \<and> set (keys True (ls_state s)) \<inter> set (keys False (ls_state s)) = {}
     \<and> distinct (ls_waiters s) \<and> (\<forall>w. w \<in> set (ls_waiters s) \<longleftrightarrow> wt_id w \<in> set (keys (wt_cleanup w) (ls_state s)))
     \<and> armed N (ls_state s)"

lemma waiting_set [simp]:
  "waiting c (set_waiting c' q st) = (if c = c' then q else waiting c st)"
  "ad_active (set_waiting c' q st) = ad_active st"
  "ad_sequence (set_waiting c' q st) = ad_sequence st"
  by (auto simp: waiting_def set_waiting_def)

lemma waiting_update [simp]:
  "waiting c (st\<lparr>ad_active := a\<rparr>) = waiting c st" "waiting c (st\<lparr>ad_sequence := n\<rparr>) = waiting c st"
  by (simp_all add: waiting_def)

lemma keys_update [simp]:
  "keys c (set_waiting c' q st) = (if c = c' then map fst q else keys c st)"
  "keys c (st\<lparr>ad_active := a\<rparr>) = keys c st" "keys c (st\<lparr>ad_sequence := n\<rparr>) = keys c st"
  by (auto simp: keys_def)

lemma map_fst_remove: "map fst (hm_remove i q) = filter (\<lambda>j. j \<noteq> i) (map fst q)"
  by (simp add: hm_remove_def AList.delete_eq filter_map o_def case_prod_unfold eq_commute)

lemma keys_waiting [simp]:
  "map fst (hm_modify i f (waiting c st)) = keys c st"
  "map fst (hm_remove i (waiting c st)) = filter (\<lambda>j. j \<noteq> i) (keys c st)"
  "map fst (hm_remove i (hm_modify j f (waiting c st))) = filter (\<lambda>j. j \<noteq> i) (keys c st)"
  by (simp_all add: keys_def map_fst_modify map_fst_remove)

lemma next_waiter_keys: "next_waiter st = first_of (keys True st) (keys False st)"
  by (auto simp: next_waiter_def first_of_def keys_def waiting_def split: list.splits)

lemma hm_get_None_keys: "hm_get q i = None \<longleftrightarrow> i \<notin> set (map fst q)"
  using hm_get_keys [of q i] by (auto simp: hm_keys_def)

lemma first_of_in: "first_of cs ns = Some w \<Longrightarrow> wt_id w \<in> set (if wt_cleanup w then cs else ns)"
  by (auto simp: first_of_def split: list.splits)

lemma next_waiter_in: "next_waiter st = Some w \<Longrightarrow> wt_id w \<in> set (keys (wt_cleanup w) st)"
  using first_of_in [of "keys True st" "keys False st" w] by (cases "wt_cleanup w") (auto simp: next_waiter_keys)

lemma wake_frame [simp]:
  "ad_active (wake N st) = ad_active st" "ad_sequence (wake N st) = ad_sequence st" "keys c (wake N st) = keys c st"
  by (auto simp: wake_def map_fst_modify keys_def split: option.splits)

lemma wake_armed:
  assumes "notify_laws N"
  shows "armed N (wake N st)"
proof -
  have "permit_ready N w (wake N st)" if "\<not> ad_active st" "next_waiter (wake N st) = Some w" for w
  proof -
    have w: "next_waiter st = Some w" using that(2) by (simp add: next_waiter_keys)
    have "hm_get (waiting (wt_cleanup w) st) (wt_id w) \<noteq> None"
      using next_waiter_in [OF w] by (simp add: hm_get_None_keys keys_def)
    then obtain n where "hm_get (waiting (wt_cleanup w) st) (wt_id w) = Some n" by blast
    then show ?thesis using assms that(1) w by (simp add: permit_ready_def wake_def notify_laws_def)
  qed
  then show ?thesis by (simp add: armed_def)
qed

lemma armed_active: "ad_active st \<Longrightarrow> armed N st"
  by (simp add: armed_def)

text \<open>The capacity ledgers do not touch the scheduling state.\<close>

definition same_schedule :: "'n Admission \<Rightarrow> 'n Admission \<Rightarrow> bool" where
  "same_schedule st st' \<longleftrightarrow> ad_active st' = ad_active st \<and> ad_sequence st' = ad_sequence st
     \<and> ad_cleanup st' = ad_cleanup st \<and> ad_normal st' = ad_normal st"

lemma capacity_frame:
  assumes "same_schedule st st'"
  shows "lane_inv N (s\<lparr>ls_state := st'\<rparr>) \<longleftrightarrow> lane_inv N (s\<lparr>ls_state := st\<rparr>)"
proof -
  have w: "waiting k st' = waiting k st" for k using assms by (simp add: waiting_def same_schedule_def)
  then have k: "keys k st' = keys k st" for k by (simp add: keys_def)
  have a: "ad_active st' = ad_active st" "ad_sequence st' = ad_sequence st" using assms by (simp_all add: same_schedule_def)
  have "armed N st' \<longleftrightarrow> armed N st"
    by (simp add: armed_def permit_ready_def next_waiter_keys w k a)
  then show ?thesis by (simp add: lane_inv_def k a)
qed

lemma observe_insert_frame:
  "same_schedule st (observe_entry pending symbol margin st)" "same_schedule st (insert_entry i pending symbol margin st)"
  by (simp_all add: same_schedule_def observe_entry_def insert_entry_def)

lemma reserve_entry_frame: "same_schedule st (snd (reserve_entry i pending symbol margin st))"
proof -
  let ?o = "observe_entry pending symbol margin st"
  have "same_schedule ?o (insert_entry i pending symbol margin ?o)" "same_schedule st ?o"
    by (rule observe_insert_frame)+
  then show ?thesis
    by (cases "check_entry i pending symbol margin ?o") (simp_all add: reserve_entry_def Let_def same_schedule_def)
qed

lemma finish_entry_frame:
  "same_schedule st (finish_entry i r outcome clock st)" "same_schedule st (settle_entry i outcome clock st)"
  by (cases clock; simp add: finish_entry_def settle_entry_def same_schedule_def)+

section \<open>The invariant\<close>

lemma lane_inv_cong:
  assumes "lane_inv N s" "ls_permits s' = (if ad_active (ls_state s') then 1 else 0)"
    "ad_sequence (ls_state s') = ad_sequence (ls_state s)" "\<And>c. keys c (ls_state s') = keys c (ls_state s)"
    "ls_waiters s' = ls_waiters s" "armed N (ls_state s')"
  shows "lane_inv N s'"
  using assms by (simp add: lane_inv_def)

lemma lane_inv_remove:
  assumes "lane_inv N s" "w \<in> set (ls_waiters s)" "ls_permits s' = (if ad_active (ls_state s') then 1 else 0)"
    "ad_sequence (ls_state s') = ad_sequence (ls_state s)"
    "\<And>c. keys c (ls_state s') = (if c = wt_cleanup w then filter (\<lambda>j. j \<noteq> wt_id w) (keys c (ls_state s)) else keys c (ls_state s))"
    "ls_waiters s' = remove1 w (ls_waiters s)" "armed N (ls_state s')"
  shows "lane_inv N s'"
proof -
  have "bt_ok (keys c (ls_state s')) \<and> length (keys c (ls_state s')) \<le> MAX_WAITERS
      \<and> (\<forall>i\<in>set (keys c (ls_state s')). i < ad_sequence (ls_state s'))" for c
    using assms(1,4,5) by (auto simp: lane_inv_def bt_ok_filter intro: order_trans [OF length_filter_le])
  moreover have "set (keys True (ls_state s')) \<inter> set (keys False (ls_state s')) = {}"
    using assms(1,5) by (auto simp: lane_inv_def)
  moreover have "v \<in> set (ls_waiters s') \<longleftrightarrow> wt_id v \<in> set (keys (wt_cleanup v) (ls_state s'))" for v
    using assms(1,2,5,6) by (auto simp: lane_inv_def)
  ultimately show ?thesis using assms by (auto simp: lane_inv_def)
qed

lemma acquire_inv:
  assumes "notify_laws N" "lane_inv N s" "acquire N c (ls_state s) = (r, st)"
    "s' = s\<lparr>ls_state := st, ls_waiters := (case r of Waits w \<Rightarrow> w # ls_waiters s | _ \<Rightarrow> ls_waiters s),
        ls_permits := ls_permits s + (if r = Granted then 1 else 0)\<rparr>"
  shows "lane_inv N s'"
proof -
  let ?st = "ls_state s"
  let ?fast = "\<not> ad_active ?st \<and> ad_cleanup ?st = [] \<and> (c \<or> ad_normal ?st = [])"
  let ?full = "MAX_WAITERS \<le> length (waiting c ?st) \<or> 2 ^ 64 \<le> ad_sequence ?st + 1"
  let ?i = "ad_sequence ?st"
  consider (fast) "?fast" | (full) "\<not> ?fast" "?full" | (waits) "\<not> ?fast" "\<not> ?full" by blast
  then show ?thesis
  proof cases
    case fast
    then have r: "r = Granted" "st = ?st\<lparr>ad_active := True\<rparr>" using assms(3) by (auto simp: acquire_def)
    show ?thesis using assms(2,4) fast r by (intro lane_inv_cong [OF assms(2)]) (auto simp: lane_inv_def armed_active)
  next
    case full
    then have r: "r = Refused CmdQueueFull" "st = ?st" using assms(3) by (auto simp: acquire_def Let_def split: if_splits)
    then show ?thesis using assms(2,4) by simp
  next
    case waits
    let ?q = "bm_insert ?i (nt_new N) (waiting c ?st)"
    have less: "\<forall>j\<in>set (keys k ?st). j < ?i" for k using assms(2) by (simp add: lane_inv_def)
    have r: "r = Waits \<lparr>wt_cleanup = c, wt_id = ?i\<rparr>" "st = wake N (set_waiting c ?q (?st\<lparr>ad_sequence := ?i + 1\<rparr>))"
      using assms(3) waits by (auto simp: acquire_def Let_def split: if_splits)
    have k: "keys k st = keys k ?st @ (if k = c then [?i] else [])" for k
    proof -
      have "map fst ?q = keys c ?st @ [?i]" using less [of c] by (simp add: bm_insert_last keys_def)
      then show ?thesis by (simp add: r)
    qed
    have "bt_ok (keys k st) \<and> length (keys k st) \<le> MAX_WAITERS \<and> (\<forall>i\<in>set (keys k st). i < ?i + 1)" for k
    proof -
      have old: "bt_ok (keys k ?st)" "length (keys k ?st) \<le> MAX_WAITERS" using assms(2) by (simp_all add: lane_inv_def)
      have "k = c \<Longrightarrow> length (keys k ?st) < MAX_WAITERS" using waits by (simp add: keys_def)
      then show ?thesis using old less [of k] by (auto simp: k bt_ok_append bt_ok_Cons less_Suc_eq)
    qed
    moreover have "set (keys True st) \<inter> set (keys False st) = {}"
      using assms(2) less [of True] less [of False] by (cases c) (auto simp: lane_inv_def k)
    moreover have "v \<in> set (ls_waiters s') \<longleftrightarrow> wt_id v \<in> set (keys (wt_cleanup v) st)" for v
      using assms(2,4) by (auto simp: lane_inv_def k r(1))
    moreover have "\<lparr>wt_cleanup = c, wt_id = ?i\<rparr> \<notin> set (ls_waiters s)"
      using assms(2) less [of c] by (auto simp: lane_inv_def)
    moreover have "armed N st" by (simp add: r(2) wake_armed assms(1))
    moreover have "ad_active st = ad_active ?st" "ad_sequence st = ?i + 1" by (simp_all add: r(2))
    ultimately show ?thesis using assms(2,4) by (auto simp: lane_inv_def r(1))
  qed
qed

lemma poll_inv:
  assumes "lane_inv N s" "w \<in> set (ls_waiters s)" "acquire_poll N w (ls_state s) = (g, st)"
    "s' = s\<lparr>ls_state := st, ls_waiters := (if g then remove1 w (ls_waiters s) else ls_waiters s),
        ls_permits := ls_permits s + (if g then 1 else 0)\<rparr>"
  shows "lane_inv N s'"
proof (cases "Option.bind (hm_get (waiting (wt_cleanup w) (ls_state s)) (wt_id w)) (nt_notified N)")
  case None
  then show ?thesis using assms by (auto simp: acquire_poll_def)
next
  case (Some n)
  let ?st = "ls_state s" and ?c = "wt_cleanup w" and ?i = "wt_id w"
  let ?st' = "set_waiting ?c (hm_modify ?i (\<lambda>_. n) (waiting ?c ?st)) ?st"
  have k: "keys c ?st' = keys c ?st" for c by simp
  have nw: "next_waiter ?st' = next_waiter ?st" by (simp only: next_waiter_keys k)
  show ?thesis
  proof (cases "\<not> ad_active ?st \<and> next_waiter ?st = Some w")
    case True
    then have r: "g" "st = (set_waiting ?c (hm_remove ?i (waiting ?c ?st')) ?st')\<lparr>ad_active := True\<rparr>"
      using assms(3) by (simp_all add: acquire_poll_def Some nw Let_def)
    show ?thesis using assms(1,4) True
      by (intro lane_inv_remove [OF assms(1,2)])
        (auto simp: r armed_active lane_inv_def)
  next
    case False
    then have r: "\<not> g" "st = ?st'"
      using assms(3) by (auto simp: acquire_poll_def Some nw Let_def split: if_splits)
    have other: "permit_ready N v st \<longleftrightarrow> permit_ready N v ?st" if "v \<noteq> w" for v
    proof -
      have "wt_cleanup v \<noteq> ?c \<or> wt_id v \<noteq> ?i" using that by (cases v; cases w) auto
      then show ?thesis by (auto simp: permit_ready_def r(2))
    qed
    have "armed N st" using assms(1) False other unfolding armed_def lane_inv_def by (simp add: r(2) nw) metis
    then show ?thesis using assms(1,4) r(1)
      by (intro lane_inv_cong [OF assms(1)]) (auto simp: r(2) k lane_inv_def)
  qed
qed

lemma drop_inv:
  assumes "notify_laws N" "lane_inv N s" "w \<in> set (ls_waiters s)"
  shows "lane_inv N (s\<lparr>ls_state := waiter_drop N w (ls_state s), ls_waiters := remove1 w (ls_waiters s)\<rparr>)"
  using assms(2) by (intro lane_inv_remove [OF assms(2,3)])
    (auto simp: waiter_drop_def wake_armed assms(1) lane_inv_def)

lemma release_inv:
  assumes "notify_laws N" "lane_inv N s" "ls_permits s \<noteq> 0"
  shows "lane_inv N (s\<lparr>ls_state := permit_drop N (ls_state s), ls_permits := ls_permits s - 1\<rparr>)"
  using assms(2,3) by (intro lane_inv_cong [OF assms(2)])
    (auto simp: permit_drop_def wake_armed assms(1) lane_inv_def)

lemma lane_initial_inv: "lane_inv N lane_initial"
  by (simp add: lane_inv_def lane_initial_def admission_default_def keys_def waiting_def armed_def next_waiter_def)

lemma lane_step_inv:
  assumes "notify_laws N" "lane_inv N s" "lane_step N s s'"
  shows "lane_inv N s'"
  using assms(3)
proof cases
  case (acquired c st)
  show ?thesis using acquire_inv [OF assms(1,2) acquired(2) refl] acquired(1) by simp
next
  case (refused c e st)
  show ?thesis using acquire_inv [OF assms(1,2) refused(2) refl] refused(1) by simp
next
  case (waits c w st)
  show ?thesis using acquire_inv [OF assms(1,2) waits(2) refl] waits(1) by simp
next
  case (polled w st)
  show ?thesis using poll_inv [OF assms(2) polled(2,3) refl] polled(1) by simp
next
  case (granted w st)
  show ?thesis using poll_inv [OF assms(2) granted(2,3) refl] granted(1) by simp
next
  case (dropped w)
  then show ?thesis using drop_inv [OF assms(1,2)] by simp
next
  case released
  then show ?thesis using release_inv [OF assms(1,2)] by simp
next
  case (reserved i pending symbol margin r st)
  then have "same_schedule (ls_state s) st" using reserve_entry_frame [of "ls_state s" i pending symbol margin] by simp
  then show ?thesis using capacity_frame [of "ls_state s" st N s] assms(2) reserved by simp
next
  case (finished i r outcome clock)
  show ?thesis unfolding finished(1) by (subst capacity_frame [OF finish_entry_frame(1)]) (simp add: assms(2))
next
  case (settled i outcome clock)
  show ?thesis unfolding settled by (subst capacity_frame [OF finish_entry_frame(2)]) (simp add: assms(2))
qed

lemma lane_reachable_inv: "lane_reachable N s \<Longrightarrow> notify_laws N \<Longrightarrow> lane_inv N s"
  by (induction rule: lane_reachable.induct) (simp add: lane_initial_inv, blast intro: lane_step_inv)

section \<open>Properties of the scheduling\<close>

abbreviation waiter_of :: "bool \<Rightarrow> nat \<Rightarrow> Waiter" where
  "waiter_of c i \<equiv> \<lparr>wt_cleanup = c, wt_id = i\<rparr>"

definition queue_order :: "'n Admission \<Rightarrow> Waiter list" where
  "queue_order st = map (waiter_of True) (keys True st) @ map (waiter_of False) (keys False st)"

lemma queue_order_waiters:
  assumes "lane_inv N s"
  shows "distinct (queue_order (ls_state s))" "set (queue_order (ls_state s)) = set (ls_waiters s)"
    "length (ls_waiters s) = length (queue_order (ls_state s))"
proof -
  let ?st = "ls_state s"
  have d: "distinct (keys c ?st)" for c using assms by (simp add: lane_inv_def bt_ok_def)
  then show dist: "distinct (queue_order ?st)" by (auto simp: queue_order_def distinct_map inj_on_def)
  show set: "set (queue_order ?st) = set (ls_waiters s)"
  proof (rule set_eqI)
    fix w :: Waiter
    have "w \<in> set (ls_waiters s) \<longleftrightarrow> wt_id w \<in> set (keys (wt_cleanup w) ?st)" using assms by (simp add: lane_inv_def)
    then show "w \<in> set (queue_order ?st) \<longleftrightarrow> w \<in> set (ls_waiters s)"
      by (cases w; cases "wt_cleanup w") (auto simp: queue_order_def)
  qed
  have "distinct (ls_waiters s)" using assms by (simp add: lane_inv_def)
  then show "length (ls_waiters s) = length (queue_order ?st)" using dist set by (metis distinct_card)
qed

lemma next_waiter_order: "next_waiter st = (case queue_order st of [] \<Rightarrow> None | w # _ \<Rightarrow> Some w)"
  by (auto simp: next_waiter_keys first_of_def queue_order_def split: list.splits)

text \<open>A free lane grants the permit to the next waiter as soon as it polls.\<close>

lemma next_poll_grants:
  assumes "lane_inv N s" "ls_permits s = 0" "next_waiter (ls_state s) = Some w"
  obtains st where "acquire_poll N w (ls_state s) = (True, st)" "queue_order st = tl (queue_order (ls_state s))"
proof -
  let ?st = "ls_state s" and ?c = "wt_cleanup w" and ?i = "wt_id w"
  have free: "\<not> ad_active ?st" using assms(1,2) by (auto simp: lane_inv_def)
  then have "permit_ready N w ?st" using assms(1,3) by (simp add: lane_inv_def armed_def)
  then obtain n where n: "Option.bind (hm_get (waiting ?c ?st) ?i) (nt_notified N) = Some n"
    by (auto simp: permit_ready_def)
  let ?st' = "set_waiting ?c (hm_modify ?i (\<lambda>_. n) (waiting ?c ?st)) ?st"
  define st where "st = (set_waiting ?c (hm_remove ?i (waiting ?c ?st')) ?st')\<lparr>ad_active := True\<rparr>"
  have poll: "acquire_poll N w ?st = (True, st)"
    using free assms(3) by (simp add: acquire_poll_def n Let_def next_waiter_keys st_def)
  have d: "distinct (keys c ?st)" for c using assms(1) by (simp add: lane_inv_def bt_ok_def)
  have k: "keys c st = (if c = ?c then filter (\<lambda>j. j \<noteq> ?i) (keys c ?st) else keys c ?st)" for c
    by (simp add: st_def)
  have rest: "filter (\<lambda>j. j \<noteq> i) js = js" if "distinct (i # js)" for i and js :: "nat list"
    using that by (auto simp: filter_id_conv)
  have "queue_order st = tl (queue_order ?st)"
    using assms(3) d [of True] d [of False]
    by (auto simp: queue_order_def k next_waiter_keys first_of_def rest split: list.splits)
  with poll show ?thesis by (rule that)
qed

text \<open>C15: In every reachable state of a lane at most one permit is out, and the lane is marked active
  exactly then; every waiting task is registered exactly once, in queues bounded by 4096 each; and a free
  lane with waiters has notified the one that is next, so that no wakeup is lost.\<close>

theorem lane_mutual_exclusion:
  assumes "notify_laws N" "lane_reachable N s"
  shows "ls_permits s \<le> 1 \<and> (ad_active (ls_state s) \<longleftrightarrow> ls_permits s = 1) \<and> distinct (ls_waiters s)
    \<and> length (ad_cleanup (ls_state s)) \<le> 4096 \<and> length (ad_normal (ls_state s)) \<le> 4096
    \<and> length (ls_waiters s) = length (ad_cleanup (ls_state s)) + length (ad_normal (ls_state s))
    \<and> (ls_permits s = 0 \<longrightarrow> ls_waiters s \<noteq> [] \<longrightarrow>
        (\<exists>w. next_waiter (ls_state s) = Some w \<and> w \<in> set (ls_waiters s) \<and> fst (acquire_poll N w (ls_state s))))"
proof -
  let ?st = "ls_state s"
  have inv: "lane_inv N s" using lane_reachable_inv assms by blast
  have len: "length (keys c ?st) \<le> 4096" for c using inv by (simp add: lane_inv_def MAX_WAITERS_def)
  have "\<exists>w. next_waiter ?st = Some w \<and> w \<in> set (ls_waiters s) \<and> fst (acquire_poll N w ?st)"
    if idle: "ls_permits s = 0" and some: "ls_waiters s \<noteq> []"
  proof -
    have "queue_order ?st \<noteq> []" using some queue_order_waiters(2) [OF inv] by auto
    then obtain w where w: "next_waiter ?st = Some w" by (cases "queue_order ?st") (auto simp: next_waiter_order)
    obtain st where "acquire_poll N w ?st = (True, st)" using next_poll_grants [OF inv idle w] by blast
    then show ?thesis using w next_waiter_in [OF w] inv by (auto simp: lane_inv_def)
  qed
  then show ?thesis using inv queue_order_waiters(3) [OF inv] len [of True] len [of False]
    by (auto simp: lane_inv_def keys_def waiting_def queue_order_def)
qed

text \<open>The permit goes to the waiters in order: a task is granted it only when every other waiting task
  is ordinary work behind a cleanup, or of the same kind and arrived later.\<close>

theorem lane_grants_in_order:
  assumes "notify_laws N" "lane_reachable N s" "w \<in> set (ls_waiters s)" "fst (acquire_poll N w (ls_state s))"
    "v \<in> set (ls_waiters s)" "v \<noteq> w"
  shows "wt_cleanup w \<and> \<not> wt_cleanup v \<or> wt_cleanup w = wt_cleanup v \<and> wt_id w < wt_id v"
proof -
  let ?st = "ls_state s"
  have inv: "lane_inv N s" using lane_reachable_inv assms by blast
  have nw: "next_waiter ?st = Some w"
    using assms(4) by (auto simp: acquire_poll_def next_waiter_keys Let_def split: option.splits if_splits)
  have sorted: "bt_ok (keys c ?st)" for c using inv by (simp add: lane_inv_def)
  have v: "v \<in> set (queue_order ?st)" using queue_order_waiters(2) [OF inv] assms(5) by simp
  show ?thesis using nw v assms(6) sorted [of True] sorted [of False]
    by (auto simp: next_waiter_keys first_of_def queue_order_def bt_ok_Cons split: list.splits)
qed

text \<open>Letting the next waiter poll and return its permit, again and again.\<close>

fun serve :: "'n NotifyOps \<Rightarrow> nat \<Rightarrow> 'n LaneSystem \<Rightarrow> Waiter list \<times> 'n LaneSystem" where
  "serve N 0 s = ([], s)"
| "serve N (Suc n) s = (case next_waiter (ls_state s) of None \<Rightarrow> ([], s)
     | Some w \<Rightarrow> (case acquire_poll N w (ls_state s) of
          (False, st) \<Rightarrow> ([], s\<lparr>ls_state := st\<rparr>)
        | (True, st) \<Rightarrow> let (ws, s') = serve N n
              (s\<lparr>ls_state := permit_drop N st, ls_waiters := remove1 w (ls_waiters s)\<rparr>) in (w # ws, s')))"

lemma queue_order_drop [simp]: "queue_order (permit_drop N st) = queue_order st"
  by (simp add: queue_order_def permit_drop_def)

lemma serve_all:
  assumes "notify_laws N" "lane_inv N s" "ls_permits s = 0" "length (ls_waiters s) \<le> n"
  shows "fst (serve N n s) = queue_order (ls_state s) \<and> ls_waiters (snd (serve N n s)) = []"
  using assms
proof (induction n arbitrary: s)
  case 0
  then show ?case using queue_order_waiters(3) [of N s] by simp
next
  case (Suc n)
  let ?st = "ls_state s"
  show ?case
  proof (cases "queue_order ?st")
    case Nil
    then show ?thesis using queue_order_waiters(3) [OF Suc.prems(2)] by (simp add: next_waiter_order)
  next
    case (Cons w ws)
    then have nw: "next_waiter ?st = Some w" by (simp add: next_waiter_order)
    obtain st where st: "acquire_poll N w ?st = (True, st)" "queue_order st = ws"
      using next_poll_grants [OF Suc.prems(2,3) nw] Cons by (metis list.sel(3))
    have w: "w \<in> set (ls_waiters s)" using queue_order_waiters(2) [OF Suc.prems(2)] Cons by force
    let ?s1 = "s\<lparr>ls_state := st, ls_waiters := remove1 w (ls_waiters s), ls_permits := 1\<rparr>"
    let ?s2 = "s\<lparr>ls_state := permit_drop N st, ls_waiters := remove1 w (ls_waiters s)\<rparr>"
    have "lane_inv N ?s1" using poll_inv [OF Suc.prems(2) w st(1) refl] Suc.prems(3) by simp
    then have "lane_inv N (?s1\<lparr>ls_state := permit_drop N (ls_state ?s1), ls_permits := ls_permits ?s1 - 1\<rparr>)"
      by (intro release_inv [OF Suc.prems(1)]) simp_all
    then have inv: "lane_inv N ?s2" using Suc.prems(3) by (simp add: lane_inv_def)
    have "length (remove1 w (ls_waiters s)) \<le> n" using w Suc.prems(4) by (simp add: length_remove1)
    then have "fst (serve N n ?s2) = ws \<and> ls_waiters (snd (serve N n ?s2)) = []"
      using Suc.IH [OF Suc.prems(1) inv] Suc.prems(3) st(2) by simp
    then show ?thesis using nw st(1) Cons by (cases "serve N n ?s2") (simp add: Let_def)
  qed
qed


section \<open>A busy lane\<close>

text \<open>A permit is out; an ordinary task and a cleanup wait, in this order.\<close>

definition busy_lane :: "bool LaneSystem" where
  "busy_lane = \<lparr>ls_state = admission_default\<lparr>ad_active := True, ad_sequence := 2, ad_cleanup := [(1, False)],
     ad_normal := [(0, False)]\<rparr>, ls_waiters = [waiter_of True 1, waiter_of False 0], ls_permits = 1\<rparr>"

definition freed_lane :: "bool LaneSystem" where
  "freed_lane = busy_lane\<lparr>ls_state := permit_drop permit_flag (ls_state busy_lane), ls_permits := 0\<rparr>"

lemma busy_lane_reachable: "lane_reachable permit_flag busy_lane"
proof -
  let ?s1 = "lane_initial\<lparr>ls_state := admission_default\<lparr>ad_active := True\<rparr>, ls_permits := 1\<rparr> :: bool LaneSystem"
  let ?s2 = "?s1\<lparr>ls_state := admission_default\<lparr>ad_active := True, ad_sequence := 1, ad_normal := [(0, False)]\<rparr>,
      ls_waiters := [waiter_of False 0]\<rparr>"
  have "lane_step permit_flag lane_initial ?s1"
    using acquired [of permit_flag False lane_initial "admission_default\<lparr>ad_active := True\<rparr>"]
    by (simp add: acquire_def lane_initial_def admission_default_def)
  then have 1: "lane_reachable permit_flag ?s1" by (rule lane_reachable.step [OF start])
  have "acquire permit_flag False (ls_state ?s1) = (Waits (waiter_of False 0), ls_state ?s2)"
    by (simp add: acquire_def lane_initial_def admission_default_def waiting_def set_waiting_def MAX_WAITERS_def
      wake_def permit_flag_def bm_insert_def)
  from waits [OF this] have 2: "lane_reachable permit_flag ?s2"
    by (intro lane_reachable.step [OF 1]) (simp add: lane_initial_def)
  have "acquire permit_flag True (ls_state ?s2) = (Waits (waiter_of True 1), ls_state busy_lane)"
    by (simp add: acquire_def lane_initial_def admission_default_def waiting_def set_waiting_def MAX_WAITERS_def
      wake_def permit_flag_def bm_insert_def busy_lane_def)
  from waits [OF this] show ?thesis
    by (intro lane_reachable.step [OF 2]) (simp add: lane_initial_def busy_lane_def)
qed

lemma freed_lane_reachable: "lane_reachable permit_flag freed_lane"
  using released [of busy_lane permit_flag] busy_lane_reachable
  by (intro lane_reachable.step [OF busy_lane_reachable]) (simp add: freed_lane_def busy_lane_def)

lemma freed_lane_state:
  "ls_waiters freed_lane = [waiter_of True 1, waiter_of False 0]" "ls_permits freed_lane = 0"
  "ls_state freed_lane = admission_default\<lparr>ad_active := False, ad_sequence := 2, ad_cleanup := [(1, True)],
     ad_normal := [(0, False)]\<rparr>"
  by (simp_all add: freed_lane_def busy_lane_def permit_drop_def wake_def next_waiter_def waiting_def set_waiting_def
    hm_modify_def permit_flag_def)

theorem lane_mutual_exclusion_witness:
  "ls_permits busy_lane = 1 \<and> ad_active (ls_state busy_lane) \<and> ls_waiters busy_lane \<noteq> []"
  using lane_mutual_exclusion [OF permit_flag_laws busy_lane_reachable] by (simp add: busy_lane_def)

theorem lane_grants_in_order_witness:
  "wt_cleanup (waiter_of True 1) \<and> \<not> wt_cleanup (waiter_of False 0)"
proof -
  have "fst (acquire_poll permit_flag (waiter_of True 1) (ls_state freed_lane))"
    by (simp add: acquire_poll_def freed_lane_state waiting_def set_waiting_def hm_get_def hm_modify_def
      next_waiter_def permit_flag_def)
  then show ?thesis
    using lane_grants_in_order [OF permit_flag_laws freed_lane_reachable, of "waiter_of True 1" "waiter_of False 0"]
    by (simp add: freed_lane_state)
qed


end
