(* ===== verification/AccountCapacity.thy ===== *)
theory AccountCapacity
  imports AccountLane
begin

text \<open>
  What the capacity ledgers of a lane guarantee over whole sequences of admissions and completions, and
  what the registry of lanes guarantees.
\<close>

section \<open>Sequences of operations\<close>

text \<open>The completions carry the three readings of the clock, which never runs backwards.\<close>

datatype LaneOp =
    ReserveOp string pending_arg symbol_arg margin_arg
  | FinishOp string EntryReservation BrokerCommandOutcome "instant \<times> instant \<times> instant"
  | SettleOp string BrokerCommandOutcome "instant \<times> instant \<times> instant"

primrec lane_op :: "LaneOp \<Rightarrow> 'n Admission \<Rightarrow> 'n Admission" where
  "lane_op (ReserveOp i pending symbol margin) st = snd (reserve_entry i pending symbol margin st)"
| "lane_op (FinishOp i r outcome clock) st = finish_entry i r outcome clock st"
| "lane_op (SettleOp i outcome clock) st = settle_entry i outcome clock st"

definition clock_ok :: "instant \<Rightarrow> instant \<times> instant \<times> instant \<Rightarrow> bool" where
  "clock_ok now clock \<longleftrightarrow> (case clock of (t1, t2, t3) \<Rightarrow> now \<le> t1 \<and> t1 \<le> t2 \<and> t2 \<le> t3)"

fun timed :: "instant \<Rightarrow> LaneOp list \<Rightarrow> bool" where
  "timed now [] = True"
| "timed now (ReserveOp _ _ _ _ # ops) = timed now ops"
| "timed now (FinishOp _ _ _ clock # ops) = (clock_ok now clock \<and> timed (snd (snd clock)) ops)"
| "timed now (SettleOp _ _ clock # ops) = (clock_ok now clock \<and> timed (snd (snd clock)) ops)"

definition capacity_ok :: "instant \<Rightarrow> 'n Admission \<Rightarrow> bool" where
  "capacity_ok now st \<longleftrightarrow> pending_ok now (ad_capacity st) \<and> symbol_ok now (ad_symbol_capacity st)
     \<and> margin_ok now (ad_margin_capacity st)"

lemma capacity_ok_default: "capacity_ok now admission_default"
  by (simp add: capacity_ok_def admission_default_def pending_ok_def symbol_ok_def margin_ok_def ledger_ok_def queue_ok_def
    hm_ok_def pending_capacity_default_def symbol_capacity_default_def margin_capacity_default_def)

text \<open>An admission that passes its checks finds the command absent and room for it.\<close>

lemma available_room:
  "pending_available i limit count c \<Longrightarrow> pending_ledger c i = None \<and> pending_room c"
  "symbol_available i symbol requested most quantity c' \<Longrightarrow> symbol_ledger c' i = None \<and> symbol_room c'"
  "margin_available i required available c'' \<Longrightarrow> margin_ledger c'' i = None \<and> margin_room c''"
  by (simp_all add: pending_available_def symbol_available_def margin_available_def Let_def pending_ledger_def
    symbol_ledger_def margin_ledger_def ledger_absent pending_room_def symbol_room_def margin_room_def)

lemma check_entry_None:
  "check_entry i pending symbol margin st = None \<longleftrightarrow>
    (\<forall>limit count t. pending = Some (limit, count, t) \<longrightarrow> pending_available i limit count (ad_capacity st))
    \<and> (\<forall>s requested limit quantity t. symbol = Some (s, requested, limit, quantity, t) \<longrightarrow>
        symbol_available i s requested limit quantity (ad_symbol_capacity st))
    \<and> (\<forall>required available t. margin = Some (required, available, t) \<longrightarrow>
        margin_available i required available (ad_margin_capacity st))"
  by (auto simp: check_entry_def split: option.splits prod.splits)

lemma observe_entry_parts:
  "ad_capacity (observe_entry pending symbol margin st) = (case pending of None \<Rightarrow> ad_capacity st
     | Some (_, count, t) \<Rightarrow> pending_observe count t (ad_capacity st))"
  "ad_symbol_capacity (observe_entry pending symbol margin st) = (case symbol of None \<Rightarrow> ad_symbol_capacity st
     | Some (s, _, _, quantity, t) \<Rightarrow> symbol_observe s quantity t (ad_symbol_capacity st))"
  "ad_margin_capacity (observe_entry pending symbol margin st) = (case margin of None \<Rightarrow> ad_margin_capacity st
     | Some (_, available, t) \<Rightarrow> margin_observe available t (ad_margin_capacity st))"
  by (simp_all add: observe_entry_def)

lemma insert_entry_parts:
  "ad_capacity (insert_entry i pending symbol margin st) =
     (if pending = None then ad_capacity st else pending_insert i (ad_capacity st))"
  "ad_symbol_capacity (insert_entry i pending symbol margin st) = (case symbol of None \<Rightarrow> ad_symbol_capacity st
     | Some (s, requested, _) \<Rightarrow> symbol_insert i s requested (ad_symbol_capacity st))"
  "ad_margin_capacity (insert_entry i pending symbol margin st) = (case margin of None \<Rightarrow> ad_margin_capacity st
     | Some (required, _) \<Rightarrow> margin_insert i required (ad_margin_capacity st))"
  by (simp_all add: insert_entry_def)

lemma reserve_entry_cases:
  obtains (rejected) e where "check_entry i pending symbol margin (observe_entry pending symbol margin st) = Some e"
      "reserve_entry i pending symbol margin st = (Inl e, observe_entry pending symbol margin st)"
    | (admitted) r where "check_entry i pending symbol margin (observe_entry pending symbol margin st) = None"
      "reserve_entry i pending symbol margin st = (Inr r, insert_entry i pending symbol margin (observe_entry pending symbol margin st))"
      "r = \<lparr>er_pending = pending \<noteq> None, er_symbol = symbol \<noteq> None, er_margin = margin \<noteq> None\<rparr>"
  by (cases "check_entry i pending symbol margin (observe_entry pending symbol margin st)")
    (simp_all add: reserve_entry_def Let_def that)

lemma observe_entry_ok: "capacity_ok now st \<Longrightarrow> capacity_ok now (observe_entry pending symbol margin st)"
  by (auto simp: capacity_ok_def observe_entry_parts pend.ok_observe symb.ok_observe marg.ok_observe
    split: option.splits)

lemma insert_entry_ok:
  assumes "capacity_ok now st" "check_entry i pending symbol margin st = None"
  shows "capacity_ok now (insert_entry i pending symbol margin st)"
  using assms available_room
  by (auto simp: capacity_ok_def insert_entry_parts check_entry_None pending_inserted symbol_inserted margin_inserted
    split: option.splits)

lemma reserve_entry_ok: "capacity_ok now st \<Longrightarrow> capacity_ok now (snd (reserve_entry i pending symbol margin st))"
  by (rule reserve_entry_cases [of i pending symbol margin st]) (auto simp: observe_entry_ok insert_entry_ok)

lemma finish_entry_ok:
  assumes "capacity_ok now st" "clock_ok now (t1, t2, t3)"
  shows "capacity_ok t3 (finish_entry i r outcome (t1, t2, t3) st)" "capacity_ok t3 (settle_entry i outcome (t1, t2, t3) st)"
proof -
  have t: "now \<le> t1" "now \<le> t2" "t1 \<le> t3" "t2 \<le> t3" "now \<le> t3" using assms(2) by (auto simp: clock_ok_def)
  have ok: "pending_ok now (ad_capacity st)" "symbol_ok now (ad_symbol_capacity st)" "margin_ok now (ad_margin_capacity st)"
    using assms(1) by (simp_all add: capacity_ok_def)
  have fin: "pending_ok t3 (pending_finish i outcome t1 (ad_capacity st))"
    "symbol_ok t3 (symbol_finish i outcome t2 (ad_symbol_capacity st))"
    "margin_ok t3 (margin_finish i outcome t3 (ad_margin_capacity st))"
    using t ok by (blast intro: pending_finished pending_later symbol_finished symbol_later margin_finished)+
  have old: "pending_ok t3 (ad_capacity st)" "symbol_ok t3 (ad_symbol_capacity st)" "margin_ok t3 (ad_margin_capacity st)"
    using ok t(5) by (blast intro: pending_later symbol_later margin_later)+
  show "capacity_ok t3 (finish_entry i r outcome (t1, t2, t3) st)" "capacity_ok t3 (settle_entry i outcome (t1, t2, t3) st)"
    using fin old by (simp_all add: capacity_ok_def finish_entry_def settle_entry_def)
qed

lemma timed_ok:
  "capacity_ok now st \<Longrightarrow> timed now (op # ops) \<Longrightarrow> \<exists>now'. capacity_ok now' (lane_op op st) \<and> timed now' ops"
  by (cases op) (auto intro: reserve_entry_ok finish_entry_ok)

lemma timed_run_ok:
  "capacity_ok now st \<Longrightarrow> timed now (pre @ ops) \<Longrightarrow> \<exists>now'. capacity_ok now' (fold lane_op pre st) \<and> timed now' ops"
proof (induction pre arbitrary: now st)
  case (Cons op pre)
  then show ?case using timed_ok [of now st op "pre @ ops"] by fastforce
qed auto

section \<open>How long a reservation is held\<close>

text \<open>
  \<open>finish_of sel i op\<close> is the outcome an operation reports for the command \<open>i\<close> to the ledger \<open>sel\<close>.  A
  reservation is \<open>freed\<close> by a refusal, or by a confirmation followed by an observation of the broker taken
  strictly after it.
\<close>

definition finish_of :: "(EntryReservation \<Rightarrow> bool) \<Rightarrow> string \<Rightarrow> LaneOp
    \<Rightarrow> (BrokerCommandOutcome \<times> instant \<times> instant \<times> instant) option" where
  "finish_of sel i op = (case op of ReserveOp _ _ _ _ \<Rightarrow> None
     | FinishOp j r outcome clock \<Rightarrow> if j = i \<and> sel r then Some (outcome, clock) else None
     | SettleOp j outcome clock \<Rightarrow> if j = i then Some (outcome, clock) else None)"

fun freed :: "(EntryReservation \<Rightarrow> bool) \<Rightarrow> (instant \<times> instant \<times> instant \<Rightarrow> instant) \<Rightarrow> (LaneOp \<Rightarrow> instant option)
    \<Rightarrow> string \<Rightarrow> instant option \<Rightarrow> LaneOp list \<Rightarrow> bool" where
  "freed sel rd seen i d [] = False"
| "freed sel rd seen i None (op # ops) = (case finish_of sel i op of
       None \<Rightarrow> freed sel rd seen i None ops
     | Some (outcome, clock) \<Rightarrow> refuses outcome
         \<or> freed sel rd seen i (if confirms outcome then Some (rd clock) else None) ops)"
| "freed sel rd seen i (Some d) (op # ops) = ((case seen op of None \<Rightarrow> False | Some t \<Rightarrow> d < t)
     \<or> freed sel rd seen i (Some d) ops)"

locale slot_history =
  fixes slot :: "'n Admission \<Rightarrow> 'w ledger"
    and sel :: "EntryReservation \<Rightarrow> bool"
    and rd :: "instant \<times> instant \<times> instant \<Rightarrow> instant"
    and seen :: "'w \<Rightarrow> LaneOp \<Rightarrow> instant option"
  assumes awaiting: "capacity_ok now st \<Longrightarrow> slot st i = Some (w, None) \<Longrightarrow>
      slot (lane_op op st) i = (case finish_of sel i op of None \<Rightarrow> Some (w, None)
        | Some (outcome, clock) \<Rightarrow> if refuses outcome then None
            else if confirms outcome then Some (w, Some (rd clock)) else Some (w, None))"
    and confirmed: "capacity_ok now st \<Longrightarrow> slot st i = Some (w, Some d) \<Longrightarrow>
      slot (lane_op op st) i = Some (w, Some d) \<or> (\<exists>t. seen w op = Some t \<and> d < t)"
begin

lemma held:
  assumes "capacity_ok now st" "timed now ops" "slot st i = Some (w, d)" "\<not> freed sel rd (seen w) i d ops"
  shows "\<exists>d'. slot (fold lane_op ops st) i = Some (w, d')"
  using assms
proof (induction ops arbitrary: now st d)
  case (Cons op ops)
  obtain now' where ok: "capacity_ok now' (lane_op op st)" "timed now' ops" using timed_ok [OF Cons.prems(1,2)] by blast
  show ?case
  proof (cases d)
    case None
    show ?thesis
    proof (cases "finish_of sel i op")
      case fo: None
      then have "slot (lane_op op st) i = Some (w, None)" using awaiting [OF Cons.prems(1)] Cons.prems(3) None by simp
      then show ?thesis using Cons.IH [OF ok] Cons.prems(4) None fo by simp
    next
      case (Some oc)
      obtain outcome clock where oc: "oc = (outcome, clock)" by (cases oc) auto
      have "\<not> refuses outcome" "\<not> freed sel rd (seen w) i (if confirms outcome then Some (rd clock) else None) ops"
        using Cons.prems(4) None Some oc by (auto split: if_splits)
      moreover from this have "slot (lane_op op st) i = Some (w, if confirms outcome then Some (rd clock) else None)"
        using awaiting [OF Cons.prems(1), of i w op] Cons.prems(3) None Some oc by simp
      ultimately show ?thesis using Cons.IH [OF ok] by simp
    qed
  next
    case (Some x)
    then have "slot (lane_op op st) i = Some (w, Some x)"
      using confirmed [OF Cons.prems(1), of i w x op] Cons.prems(3,4) by (auto split: option.splits)
    then show ?thesis using Cons.IH [OF ok] Cons.prems(4) Some by simp
  qed
qed auto

end

definition pending_slot :: "'n Admission \<Rightarrow> unit ledger" where "pending_slot st = pending_ledger (ad_capacity st)"
definition symbol_slot :: "'n Admission \<Rightarrow> (string \<times> f64) ledger" where "symbol_slot st = symbol_ledger (ad_symbol_capacity st)"
definition margin_slot :: "'n Admission \<Rightarrow> f64 ledger" where "margin_slot st = margin_ledger (ad_margin_capacity st)"

text \<open>The instant of the observation an admission reports to each ledger.\<close>

definition seen_pending :: "LaneOp \<Rightarrow> instant option" where
  "seen_pending op = (case op of ReserveOp _ (Some (_, _, t)) _ _ \<Rightarrow> Some t | _ \<Rightarrow> None)"

definition seen_symbol :: "string \<Rightarrow> LaneOp \<Rightarrow> instant option" where
  "seen_symbol s op = (case op of ReserveOp _ _ (Some (s', _, _, _, t)) _ \<Rightarrow> if s' = s then Some t else None | _ \<Rightarrow> None)"

definition seen_margin :: "LaneOp \<Rightarrow> instant option" where
  "seen_margin op = (case op of ReserveOp _ _ _ (Some (_, _, t)) \<Rightarrow> Some t | _ \<Rightarrow> None)"

text \<open>An admission keeps every other reservation but those its observations prove.\<close>

lemma observe_slot:
  assumes "capacity_ok now st"
  shows "pending_slot st i = Some (u, d) \<Longrightarrow> pending_slot (observe_entry pending symbol margin st) i = Some (u, d)
      \<or> (\<exists>x t. seen_pending (ReserveOp j pending symbol margin) = Some t \<and> d = Some x \<and> x < t)"
    "symbol_slot st i = Some (v, d) \<Longrightarrow> symbol_slot (observe_entry pending symbol margin st) i = Some (v, d)
      \<or> (\<exists>x t. seen_symbol (fst v) (ReserveOp j pending symbol margin) = Some t \<and> d = Some x \<and> x < t)"
    "margin_slot st i = Some (w, d) \<Longrightarrow> margin_slot (observe_entry pending symbol margin st) i = Some (w, d)
      \<or> (\<exists>x t. seen_margin (ReserveOp j pending symbol margin) = Some t \<and> d = Some x \<and> x < t)"
proof -
  have oks: "pending_ok now (ad_capacity st)" "symbol_ok now (ad_symbol_capacity st)" "margin_ok now (ad_margin_capacity st)"
    using assms by (simp_all add: capacity_ok_def)
  show "pending_slot st i = Some (u, d) \<Longrightarrow> pending_slot (observe_entry pending symbol margin st) i = Some (u, d)
      \<or> (\<exists>x t. seen_pending (ReserveOp j pending symbol margin) = Some t \<and> d = Some x \<and> x < t)"
    using pend.observe_entry [OF oks(1), of i u d]
    by (auto simp: pending_slot_def observe_entry_parts seen_pending_def split: option.splits)
  show "symbol_slot st i = Some (v, d) \<Longrightarrow> symbol_slot (observe_entry pending symbol margin st) i = Some (v, d)
      \<or> (\<exists>x t. seen_symbol (fst v) (ReserveOp j pending symbol margin) = Some t \<and> d = Some x \<and> x < t)"
    using symb.observe_entry [OF oks(2), of i v d]
    by (auto simp: symbol_slot_def observe_entry_parts seen_symbol_def case_prod_unfold split: option.splits)
  show "margin_slot st i = Some (w, d) \<Longrightarrow> margin_slot (observe_entry pending symbol margin st) i = Some (w, d)
      \<or> (\<exists>x t. seen_margin (ReserveOp j pending symbol margin) = Some t \<and> d = Some x \<and> x < t)"
    using marg.observe_entry [OF oks(3), of i w d]
    by (auto simp: margin_slot_def observe_entry_parts seen_margin_def split: option.splits)
qed

lemma insert_slot:
  assumes "capacity_ok now st" "check_entry j pending symbol margin st = None"
  shows "pending_slot st i = Some u \<Longrightarrow> pending_slot (insert_entry j pending symbol margin st) i = Some u"
    "symbol_slot st i = Some v \<Longrightarrow> symbol_slot (insert_entry j pending symbol margin st) i = Some v"
    "margin_slot st i = Some w \<Longrightarrow> margin_slot (insert_entry j pending symbol margin st) i = Some w"
  using assms available_room
  by (auto simp: capacity_ok_def check_entry_None pending_slot_def symbol_slot_def margin_slot_def insert_entry_parts
    pending_inserted symbol_inserted margin_inserted split: option.splits)

lemma entry_room:
  assumes "check_entry j pending symbol margin st = None"
  shows "pending \<noteq> None \<Longrightarrow> pending_ledger (ad_capacity st) j = None \<and> pending_room (ad_capacity st)"
    "symbol \<noteq> None \<Longrightarrow> symbol_ledger (ad_symbol_capacity st) j = None \<and> symbol_room (ad_symbol_capacity st)"
    "margin \<noteq> None \<Longrightarrow> margin_ledger (ad_margin_capacity st) j = None \<and> margin_room (ad_margin_capacity st)"
  using assms available_room unfolding check_entry_None by (metis option.exhaust prod_cases3 prod_cases5)+

lemma insert_new_slot:
  assumes "capacity_ok now st" "check_entry j pending symbol margin st = None"
  shows "pending = Some a \<Longrightarrow> pending_slot (insert_entry j pending symbol margin st) j = Some ((), None)"
    "symbol = Some (s, q, b) \<Longrightarrow> symbol_slot (insert_entry j pending symbol margin st) j = Some ((s, q), None)"
    "margin = Some (m, c) \<Longrightarrow> margin_slot (insert_entry j pending symbol margin st) j = Some (m, None)"
  using assms(1) entry_room [OF assms(2)]
  by (simp_all add: capacity_ok_def pending_slot_def symbol_slot_def margin_slot_def insert_entry_parts
    pending_inserted(2) [of now] symbol_inserted(2) [of now] margin_inserted(2) [of now])

lemma reserve_slot:
  assumes "capacity_ok now st"
  shows "pending_slot st i = Some (u, d) \<Longrightarrow> pending_slot (lane_op (ReserveOp j pending symbol margin) st) i = Some (u, d)
      \<or> (\<exists>x t. seen_pending (ReserveOp j pending symbol margin) = Some t \<and> d = Some x \<and> x < t)"
    "symbol_slot st i = Some (v, d) \<Longrightarrow> symbol_slot (lane_op (ReserveOp j pending symbol margin) st) i = Some (v, d)
      \<or> (\<exists>x t. seen_symbol (fst v) (ReserveOp j pending symbol margin) = Some t \<and> d = Some x \<and> x < t)"
    "margin_slot st i = Some (w, d) \<Longrightarrow> margin_slot (lane_op (ReserveOp j pending symbol margin) st) i = Some (w, d)
      \<or> (\<exists>x t. seen_margin (ReserveOp j pending symbol margin) = Some t \<and> d = Some x \<and> x < t)"
proof -
  let ?op = "ReserveOp j pending symbol margin" and ?o = "observe_entry pending symbol margin st"
  note obs = observe_slot [OF assms]
  note ins = insert_slot [OF observe_entry_ok [OF assms]]
  have state: "lane_op ?op st = ?o \<or> check_entry j pending symbol margin ?o = None \<and> lane_op ?op st = insert_entry j pending symbol margin ?o"
    by (rule reserve_entry_cases [of j pending symbol margin st]) simp_all
  show "pending_slot st i = Some (u, d) \<Longrightarrow> pending_slot (lane_op ?op st) i = Some (u, d)
      \<or> (\<exists>x t. seen_pending ?op = Some t \<and> d = Some x \<and> x < t)"
    using state obs(1) ins(1) by metis
  show "symbol_slot st i = Some (v, d) \<Longrightarrow> symbol_slot (lane_op ?op st) i = Some (v, d)
      \<or> (\<exists>x t. seen_symbol (fst v) ?op = Some t \<and> d = Some x \<and> x < t)"
    using state obs(2) ins(2) by metis
  show "margin_slot st i = Some (w, d) \<Longrightarrow> margin_slot (lane_op ?op st) i = Some (w, d)
      \<or> (\<exists>x t. seen_margin ?op = Some t \<and> d = Some x \<and> x < t)"
    using state obs(3) ins(3) by metis
qed

lemma no_finish_in_reserve [simp]: "finish_of sel i (ReserveOp j pending symbol margin) = None"
  by (simp add: finish_of_def)

lemma no_observation_in_finish [simp]:
  "seen_pending (FinishOp j r outcome clock) = None" "seen_pending (SettleOp j outcome clock) = None"
  "seen_symbol s (FinishOp j r outcome clock) = None" "seen_symbol s (SettleOp j outcome clock) = None"
  "seen_margin (FinishOp j r outcome clock) = None" "seen_margin (SettleOp j outcome clock) = None"
  by (simp_all add: seen_pending_def seen_symbol_def seen_margin_def)

lemma finish_parts:
  "ad_capacity (finish_entry i r outcome clock st) =
     (if er_pending r then pending_finish i outcome (fst clock) (ad_capacity st) else ad_capacity st)"
  "ad_symbol_capacity (finish_entry i r outcome clock st) =
     (if er_symbol r then symbol_finish i outcome (fst (snd clock)) (ad_symbol_capacity st) else ad_symbol_capacity st)"
  "ad_margin_capacity (finish_entry i r outcome clock st) =
     (if er_margin r then margin_finish i outcome (snd (snd clock)) (ad_margin_capacity st) else ad_margin_capacity st)"
  "ad_capacity (settle_entry i outcome clock st) = pending_finish i outcome (fst clock) (ad_capacity st)"
  "ad_symbol_capacity (settle_entry i outcome clock st) = symbol_finish i outcome (fst (snd clock)) (ad_symbol_capacity st)"
  "ad_margin_capacity (settle_entry i outcome clock st) = margin_finish i outcome (snd (snd clock)) (ad_margin_capacity st)"
  by (cases clock; simp add: finish_entry_def settle_entry_def)+

text \<open>The three ledgers of a lane keep their reservations as long as the history demands.\<close>

interpretation pend_hist: slot_history pending_slot er_pending fst "\<lambda>_. seen_pending"
proof (unfold_locales, goal_cases)
  case (1 now st i w op)
  then have ok: "pending_ok now (ad_capacity st)" by (simp add: capacity_ok_def)
  show ?case using 1 reserve_slot(1) [OF 1(1,2)] pend.finish_other [OF ok] pend.finish_awaiting [OF ok]
    by (cases op) (auto simp: pending_slot_def finish_of_def finish_parts)
next
  case (2 now st i w d op)
  then have ok: "pending_ok now (ad_capacity st)" by (simp add: capacity_ok_def)
  show ?case using 2 reserve_slot(1) [OF 2(1,2)] pend.finish_confirmed [OF ok]
    by (cases op) (auto simp: pending_slot_def finish_parts)
qed

interpretation symb_hist: slot_history symbol_slot er_symbol "\<lambda>clock. fst (snd clock)" "\<lambda>w. seen_symbol (fst w)"
proof (unfold_locales, goal_cases)
  case (1 now st i w op)
  then have ok: "symbol_ok now (ad_symbol_capacity st)" by (simp add: capacity_ok_def)
  show ?case using 1 reserve_slot(2) [OF 1(1,2)] symb.finish_other [OF ok] symb.finish_awaiting [OF ok]
    by (cases op) (auto simp: symbol_slot_def finish_of_def finish_parts)
next
  case (2 now st i w d op)
  then have ok: "symbol_ok now (ad_symbol_capacity st)" by (simp add: capacity_ok_def)
  show ?case using 2 reserve_slot(2) [OF 2(1,2)] symb.finish_confirmed [OF ok]
    by (cases op) (auto simp: symbol_slot_def finish_parts)
qed

interpretation marg_hist: slot_history margin_slot er_margin "\<lambda>clock. snd (snd clock)" "\<lambda>_. seen_margin"
proof (unfold_locales, goal_cases)
  case (1 now st i w op)
  then have ok: "margin_ok now (ad_margin_capacity st)" by (simp add: capacity_ok_def)
  show ?case using 1 reserve_slot(3) [OF 1(1,2)] marg.finish_other [OF ok] marg.finish_awaiting [OF ok]
    by (cases op) (auto simp: margin_slot_def finish_of_def finish_parts)
next
  case (2 now st i w d op)
  then have ok: "margin_ok now (ad_margin_capacity st)" by (simp add: capacity_ok_def)
  show ?case using 2 reserve_slot(3) [OF 2(1,2)] marg.finish_confirmed [OF ok]
    by (cases op) (auto simp: margin_slot_def finish_parts)
qed

section \<open>Properties of the capacity\<close>

text \<open>C17: Once an entry is admitted, its order slot, its quantity and its margin stay reserved whatever
  other admissions, completions and observations follow, until the broker refused the command, or until it was
  confirmed and then observed at a strictly later instant; for the quantity only observations of the
  same symbol count.  Timeouts and other uncertain outcomes never free anything.\<close>

theorem reservation_held_until_proof:
  fixes st final :: "'n Admission"
  assumes "timed t0 (pre @ ReserveOp i pending symbol margin # ops)"
    and st: "st = fold lane_op pre admission_default"
    and admitted: "reserve_entry i pending symbol margin st = (Inr r, st')"
    and final: "final = fold lane_op (pre @ ReserveOp i pending symbol margin # ops) admission_default"
  shows "(pending \<noteq> None \<longrightarrow> \<not> freed er_pending fst seen_pending i None ops \<longrightarrow>
        hm_get (cap_reservations (ad_capacity final)) i \<noteq> None)
    \<and> (\<forall>s q rest. symbol = Some (s, q, rest) \<longrightarrow> \<not> freed er_symbol (\<lambda>clock. fst (snd clock)) (seen_symbol s) i None ops \<longrightarrow>
        (\<exists>e. hm_get (scap_reservations (ad_symbol_capacity final)) i = Some e \<and> sres_symbol e = s \<and> sres_quantity e = q))
    \<and> (\<forall>m rest. margin = Some (m, rest) \<longrightarrow> \<not> freed er_margin (\<lambda>clock. snd (snd clock)) seen_margin i None ops \<longrightarrow>
        (\<exists>e. hm_get (mcap_reservations (ad_margin_capacity final)) i = Some e \<and> mres_amount e = m))"
proof -
  let ?o = "observe_entry pending symbol margin st"
  obtain now where ok: "capacity_ok now st" "timed now ops"
    using timed_run_ok [OF capacity_ok_default assms(1)] by (auto simp: st)
  have check: "check_entry i pending symbol margin ?o = None" "st' = insert_entry i pending symbol margin ?o"
    using admitted by (auto intro: reserve_entry_cases [of i pending symbol margin st])
  have ok': "capacity_ok now st'" using reserve_entry_ok [OF ok(1), of i pending symbol margin] admitted by simp
  have fin: "final = fold lane_op ops st'" using admitted by (simp add: final st)
  note new = insert_new_slot [OF observe_entry_ok [OF ok(1)] check(1), folded check(2)]
  have "pending \<noteq> None \<Longrightarrow> \<not> freed er_pending fst seen_pending i None ops \<Longrightarrow> \<exists>d. pending_slot final i = Some ((), d)"
    using pend_hist.held [OF ok' ok(2) new(1)] by (auto simp: fin)
  moreover have "symbol = Some (s, q, rest) \<Longrightarrow> \<not> freed er_symbol (\<lambda>clock. fst (snd clock)) (seen_symbol s) i None ops
      \<Longrightarrow> \<exists>d. symbol_slot final i = Some ((s, q), d)" for s q rest
    using symb_hist.held [OF ok' ok(2) new(2)] by (auto simp: fin)
  moreover have "margin = Some (m, rest) \<Longrightarrow> \<not> freed er_margin (\<lambda>clock. snd (snd clock)) seen_margin i None ops
      \<Longrightarrow> \<exists>d. margin_slot final i = Some (m, d)" for m rest
    using marg_hist.held [OF ok' ok(2) new(3)] by (auto simp: fin)
  ultimately show ?thesis
    by (fastforce simp: pending_slot_def symbol_slot_def margin_slot_def pending_ledger_def symbol_ledger_def
      margin_ledger_def entry_of_def)
qed

text \<open>What the observation in force says, as the checks read it.\<close>

definition count_in_force :: "nat \<Rightarrow> PendingCapacity \<Rightarrow> nat" where
  "count_in_force count c = (case cap_observation c of None \<Rightarrow> count | Some (n, _) \<Rightarrow> n)"

definition quantity_in_force :: "string \<Rightarrow> f64 \<Rightarrow> SymbolCapacity \<Rightarrow> f64" where
  "quantity_in_force symbol observed c = (case hm_get (scap_observations c) symbol of None \<Rightarrow> observed | Some (q, _) \<Rightarrow> q)"

definition margin_in_force :: "f64 \<Rightarrow> MarginCapacity \<Rightarrow> f64" where
  "margin_in_force available c = (case mcap_observation c of None \<Rightarrow> available | Some (v, _) \<Rightarrow> v)"

lemma hm_insert_absent: "hm_get m i = None \<Longrightarrow> hm_insert i v m = m @ [(i, v)]"
  by (induction m) (auto simp: hm_get_def hm_insert_def)

lemma fsum_snoc: "fsum (xs @ [x]) = fsum xs + x"
  by (simp add: fsum_def)

text \<open>C18: An entry is admitted only within the account's capacity, and all or nothing: with the entry
  included, the observed pending orders and the reserved slots stay within the limit, the reserved margin
  within the available one, and the observed, reserved and requested quantity of the symbol within its
  limit.  A refused entry reserves nothing in any ledger.\<close>

theorem admission_within_capacity:
  fixes st st' :: "'n Admission"
  assumes "reserve_entry i pending symbol margin st = (res, st')"
  shows "case res of
      Inl _ \<Rightarrow> st' = observe_entry pending symbol margin st
    | Inr _ \<Rightarrow>
        (\<forall>limit count t. pending = Some (limit, count, t) \<longrightarrow> limit < 2 ^ 64 \<longrightarrow>
          count_in_force count (ad_capacity st') + length (cap_reservations (ad_capacity st')) \<le> limit)
      \<and> (\<forall>s q limit observed t. symbol = Some (s, q, limit, observed, t) \<longrightarrow>
          quantity_in_force s observed (ad_symbol_capacity st')
            + symbol_reserved s (ad_symbol_capacity (observe_entry pending symbol margin st)) + q \<le> limit)
      \<and> (\<forall>m available t. margin = Some (m, available, t) \<longrightarrow>
          margin_reserved (ad_margin_capacity st') \<le> margin_in_force available (ad_margin_capacity st'))"
proof (rule reserve_entry_cases [of i pending symbol margin st])
  fix e
  assume "reserve_entry i pending symbol margin st = (Inl e, observe_entry pending symbol margin st)"
  then show ?thesis using assms by simp
next
  fix r
  let ?o = "observe_entry pending symbol margin st"
  assume check: "check_entry i pending symbol margin ?o = None"
    and r: "reserve_entry i pending symbol margin st = (Inr r, insert_entry i pending symbol margin ?o)"
  have res: "res = Inr r" "st' = insert_entry i pending symbol margin ?o" using assms r by simp_all
  have "count_in_force count (ad_capacity st') + length (cap_reservations (ad_capacity st')) \<le> limit"
    if "pending = Some (limit, count, t)" "limit < 2 ^ 64" for limit count t
  proof -
    have "pending_available i limit count (ad_capacity ?o)" using check that(1) by (simp add: check_entry_None)
    then show ?thesis using that
      by (auto simp: pending_available_def Let_def count_in_force_def res insert_entry_parts pending_insert_def
        hm_insert_absent split: option.splits)
  qed
  moreover have "quantity_in_force s observed (ad_symbol_capacity st') + symbol_reserved s (ad_symbol_capacity ?o) + q \<le> limit"
    if "symbol = Some (s, q, limit, observed, t)" for s q limit observed t
  proof -
    have "symbol_available i s q limit observed (ad_symbol_capacity ?o)" using check that by (simp add: check_entry_None)
    then show ?thesis using that
      by (simp add: symbol_available_def Let_def quantity_in_force_def res insert_entry_parts symbol_insert_def)
  qed
  moreover have "margin_reserved (ad_margin_capacity st') \<le> margin_in_force available (ad_margin_capacity st')"
    if "margin = Some (m, available, t)" for m available t
  proof -
    have "margin_available i m available (ad_margin_capacity ?o)" using check that by (simp add: check_entry_None)
    then show ?thesis using that
      by (simp add: margin_available_def Let_def margin_in_force_def margin_reserved_def res insert_entry_parts
        margin_insert_def hm_insert_absent fsum_snoc)
  qed
  ultimately show ?thesis by (simp add: res)
qed

text \<open>A confirmed slot is not freed by an observation made at the instant of its confirmation.\<close>

definition sample_ops :: "LaneOp list" where
  "sample_ops = [FinishOp ''a'' \<lparr>er_pending = True, er_symbol = False, er_margin = False\<rparr> Acknowledged (6, 6, 6),
     ReserveOp ''b'' (Some (1, 0, 6)) None None]"

theorem reservation_held_until_proof_witness:
  "hm_get (cap_reservations (ad_capacity (fold lane_op (ReserveOp ''a'' (Some (1, 0, 5)) None None # sample_ops)
     (admission_default :: bool Admission)))) ''a'' \<noteq> None"
proof -
  have "timed 0 ([] @ ReserveOp ''a'' (Some (1, 0, 5)) None None # sample_ops)"
    by (simp add: sample_ops_def clock_ok_def)
  moreover obtain r st' where "reserve_entry ''a'' (Some (1, 0, 5)) None None (admission_default :: bool Admission) = (Inr r, st')"
    by (simp add: reserve_entry_def observe_entry_def check_entry_def pending_available_def pending_observe_def newer_def
      admission_default_def pending_capacity_default_def MAX_CAPACITY_RESERVATIONS_def)
  moreover have "\<not> freed er_pending fst seen_pending ''a'' None sample_ops"
    by (simp add: sample_ops_def finish_of_def seen_pending_def refuses_def confirms_def)
  ultimately show ?thesis
    using reservation_held_until_proof [of 0 "[]" "''a''" "Some (1, 0, 5)" None None sample_ops admission_default r st']
    by simp
qed

theorem admission_within_capacity_witness:
  "margin_reserved (ad_margin_capacity (snd (reserve_entry ''a'' None None (Some (Fin 70, Fin 100, 5)) (admission_default :: bool Admission))))
     \<le> margin_in_force (Fin 100) (ad_margin_capacity (snd (reserve_entry ''a'' None None (Some (Fin 70, Fin 100, 5)) (admission_default :: bool Admission))))
   \<and> (\<exists>r. fst (reserve_entry ''a'' None None (Some (Fin 70, Fin 100, 5)) (admission_default :: bool Admission)) = Inr r)"
proof -
  have sum: "0 + Fin 70 \<le> Fin 100" by code_simp
  obtain r st' where r: "reserve_entry ''a'' None None (Some (Fin 70, Fin 100, 5)) (admission_default :: bool Admission) = (Inr r, st')"
    by (simp add: reserve_entry_def observe_entry_def check_entry_def margin_available_def margin_observe_def newer_def
      admission_default_def margin_capacity_default_def MAX_CAPACITY_RESERVATIONS_def margin_reserved_def fsum_def sum)
  show ?thesis using admission_within_capacity [OF r] by (simp add: r)
qed

section \<open>One lane per account\<close>

inductive registry_reachable :: "Registry \<Rightarrow> bool" where
  reg_start: "registry_reachable registry_default"
| reg_shared: "registry_reachable r \<Longrightarrow> registry_reachable (snd (shared provider account r))"
| reg_clone: "registry_reachable r \<Longrightarrow> strong_count r lane \<noteq> 0 \<Longrightarrow> registry_reachable (clone_lane lane r)"
| reg_drop_owner: "registry_reachable r \<Longrightarrow> strong_count r lane \<noteq> 0 \<Longrightarrow> registry_reachable (drop_owner lane r)"
| reg_lane_drop: "registry_reachable r \<Longrightarrow> strong_count r lane = 0 \<Longrightarrow> registry_reachable (lane_drop lane r)"

definition registry_ok :: "Registry \<Rightarrow> bool" where
  "registry_ok r \<longleftrightarrow> hm_ok (reg_lanes r) \<and> length (reg_lanes r) \<le> MAX_ACCOUNT_LANES
     \<and> (\<forall>lane. strong_count r lane \<noteq> 0 \<longrightarrow>
          (\<exists>key. hm_get (reg_keys r) lane = Some key \<and> hm_get (reg_lanes r) key = Some lane))
     \<and> (\<forall>lane. reg_fresh r \<le> lane \<longrightarrow> hm_get (reg_keys r) lane = None)"

lemma registry_live:
  assumes "registry_ok r" "strong_count r lane \<noteq> 0"
  obtains key where "hm_get (reg_keys r) lane = Some key" "hm_get (reg_lanes r) key = Some lane"
  using assms unfolding registry_ok_def by blast

lemma strong_count_insert [simp]:
  "strong_count (r\<lparr>reg_strong := hm_insert lane n (reg_strong r)\<rparr>) l = (if l = lane then n else strong_count r l)"
  "strong_count (r\<lparr>reg_lanes := m\<rparr>) l = strong_count r l"
  by (simp_all add: strong_count_def)

lemma registry_ok_more_owners:
  assumes "registry_ok r" "strong_count r lane \<noteq> 0"
  shows "registry_ok (r\<lparr>reg_strong := hm_insert lane n (reg_strong r)\<rparr>)"
  using assms by (auto simp: registry_ok_def)

lemma hm_get_filter:
  "hm_ok m \<Longrightarrow> hm_get (filter P m) k = (case hm_get m k of None \<Rightarrow> None | Some v \<Rightarrow> if P (k, v) then Some v else None)"
proof (induction m)
  case (Cons e m)
  have "map_of m (fst e) = None" using Cons.prems by (simp add: hm_ok_def map_of_eq_None_iff)
  with Cons show ?case by (cases e) (auto simp: hm_get_def hm_ok_def split: option.splits)
qed simp

lemma new_lane_ok:
  assumes "registry_ok r" "hm_get (reg_lanes r) key = None" "length (reg_lanes r) < MAX_ACCOUNT_LANES"
  shows "registry_ok (r\<lparr>reg_lanes := hm_insert key (reg_fresh r) (reg_lanes r),
    reg_keys := hm_insert (reg_fresh r) key (reg_keys r),
    reg_strong := hm_insert (reg_fresh r) 1 (reg_strong r), reg_fresh := reg_fresh r + 1\<rparr>)" (is "registry_ok ?r")
proof -
  have count: "strong_count ?r l = (if l = reg_fresh r then 1 else strong_count r l)" for l
    by (simp add: strong_count_def)
  have "\<exists>k. hm_get (reg_keys ?r) l = Some k \<and> hm_get (reg_lanes ?r) k = Some l" if "strong_count ?r l \<noteq> 0" for l
  proof (cases "l = reg_fresh r")
    case False
    then have "strong_count r l \<noteq> 0" using that count [of l] by simp
    then obtain k where "hm_get (reg_keys r) l = Some k" "hm_get (reg_lanes r) k = Some l"
      by (rule registry_live [OF assms(1)])
    then show ?thesis using assms(2) False by (intro exI [of _ k]) auto
  qed simp
  then show ?thesis using assms by (simp add: registry_ok_def length_hm_insert hm.ok_ins)
qed

lemma shared_ok:
  assumes "registry_ok r"
  shows "registry_ok (snd (shared provider account r))"
proof -
  let ?key = "(trim provider, trim account)"
  let ?bad = "trim provider = [] \<or> 512 < length (trim provider) \<or> trim account = [] \<or> 512 < length (trim account)"
  let ?found = "case hm_get (reg_lanes r) ?key of None \<Rightarrow> None | Some lane \<Rightarrow> if strong_count r lane \<noteq> 0 then Some lane else None"
  let ?lanes = "filter (\<lambda>(_, lane). strong_count r lane \<noteq> 0) (reg_lanes r)"
  have lanes: "hm_ok ?lanes" using assms by (simp add: registry_ok_def hm_ok_def distinct_map_filter)
  have get: "hm_get ?lanes k = (case hm_get (reg_lanes r) k of None \<Rightarrow> None
      | Some lane \<Rightarrow> if strong_count r lane \<noteq> 0 then Some lane else None)" for k
    using assms by (subst hm_get_filter) (auto simp: registry_ok_def split: option.splits)
  have len: "length ?lanes \<le> MAX_ACCOUNT_LANES"
    using assms by (auto simp: registry_ok_def intro: order_trans [OF length_filter_le])
  consider (bad) "?bad" | (found) lane where "\<not> ?bad" "?found = Some lane" | (new) "\<not> ?bad" "?found = None" by blast
  then show ?thesis
  proof cases
    case bad
    then show ?thesis using assms by (auto simp: shared_def Let_def)
  next
    case (found lane)
    then have "strong_count r lane \<noteq> 0" by (auto split: option.splits if_splits)
    then show ?thesis using found registry_ok_more_owners [OF assms] by (auto simp: shared_def Let_def)
  next
    case new
    have live: "hm_get ?lanes key = Some l" if "strong_count r l \<noteq> 0" "hm_get (reg_lanes r) key = Some l" for l key
      unfolding get using that by simp
    have full: "registry_ok (r\<lparr>reg_lanes := ?lanes\<rparr>)"
      using assms lanes len live unfolding registry_ok_def by (simp del: neq0_conv) blast
    have absent: "hm_get ?lanes ?key = None" using new get by simp
    have "registry_ok (r\<lparr>reg_lanes := hm_insert ?key (reg_fresh r) ?lanes,
        reg_keys := hm_insert (reg_fresh r) ?key (reg_keys r),
        reg_strong := hm_insert (reg_fresh r) 1 (reg_strong r), reg_fresh := reg_fresh r + 1\<rparr>)"
      if "length ?lanes < MAX_ACCOUNT_LANES"
      using new_lane_ok [OF full, of ?key] absent that by simp
    then show ?thesis using new full by (auto simp: shared_def Let_def)
  qed
qed

lemma lane_drop_ok:
  assumes "registry_ok r" "strong_count r lane = 0"
  shows "registry_ok (lane_drop lane r)"
proof (cases "hm_get (reg_keys r) lane")
  case (Some key)
  let ?r = "lane_drop lane r"
  let ?lanes = "if hm_get (reg_lanes r) key = Some lane then hm_remove key (reg_lanes r) else reg_lanes r"
  have r: "reg_lanes ?r = ?lanes" "reg_keys ?r = hm_remove lane (reg_keys r)" "reg_fresh ?r = reg_fresh r"
    "\<And>l. strong_count ?r l = (if l = lane then 0 else strong_count r l)"
    by (simp_all add: lane_drop_def Some strong_count_def)
  have "\<exists>k. hm_get (reg_keys ?r) l = Some k \<and> hm_get (reg_lanes ?r) k = Some l" if "strong_count ?r l \<noteq> 0" for l
  proof -
    have l: "l \<noteq> lane" "strong_count r l \<noteq> 0" using that by (auto simp: r(4) split: if_splits)
    then obtain k where k: "hm_get (reg_keys r) l = Some k" "hm_get (reg_lanes r) k = Some l"
      using registry_live [OF assms(1)] by blast
    then have "hm_get (reg_lanes ?r) k = Some l" using l(1) by (auto simp: r(1))
    then show ?thesis using k(1) l(1) by (simp add: r(2))
  qed
  moreover have "hm_ok ?lanes \<and> length ?lanes \<le> MAX_ACCOUNT_LANES"
    using assms(1) length_hm_remove [of key "reg_lanes r"] by (auto simp: registry_ok_def)
  moreover have "hm_get (reg_keys ?r) l = None" if "reg_fresh ?r \<le> l" for l
    using assms(1) that by (auto simp: r registry_ok_def)
  ultimately show ?thesis by (simp add: registry_ok_def r(1))
qed (use assms in \<open>simp add: lane_drop_def\<close>)

lemma registry_reachable_ok: "registry_reachable r \<Longrightarrow> registry_ok r"
proof (induction rule: registry_reachable.induct)
  case reg_start
  show ?case by (simp add: registry_ok_def registry_default_def hm_ok_def strong_count_def)
qed (simp_all add: shared_ok clone_lane_def drop_owner_def registry_ok_more_owners lane_drop_ok)

text \<open>Two live lanes of the process never serve the same account: in every reachable registry, also
  while destructors of old lanes are still waiting for the lock, lanes with owners have different keys, and
  asking for an account that has a live lane returns exactly that lane.\<close>

theorem one_live_lane_per_account:
  assumes "registry_reachable r" "strong_count r lane \<noteq> 0" "hm_get (reg_keys r) lane = Some (trim provider, trim account)"
  shows "(\<forall>other. strong_count r other \<noteq> 0 \<longrightarrow> hm_get (reg_keys r) other = hm_get (reg_keys r) lane \<longrightarrow> other = lane)
    \<and> (\<forall>found. fst (shared provider account r) = Inr found \<longrightarrow> found = lane)"
proof -
  have ok: "registry_ok r" using assms(1) by (rule registry_reachable_ok)
  have live: "\<exists>key. hm_get (reg_keys r) l = Some key \<and> hm_get (reg_lanes r) key = Some l" if "strong_count r l \<noteq> 0" for l
    using registry_live [OF ok that] by blast
  have get: "hm_get (reg_lanes r) (trim provider, trim account) = Some lane"
    using live [OF assms(2)] assms(3) by simp
  moreover have "other = lane" if "strong_count r other \<noteq> 0" "hm_get (reg_keys r) other = hm_get (reg_keys r) lane" for other
    using live [OF that(1)] that(2) assms(3) get by auto
  ultimately show ?thesis using assms(2) by (auto simp: shared_def Let_def split: if_splits)
qed

definition sample_registry :: Registry where
  "sample_registry = snd (shared ''fixture'' ''account'' registry_default)"

theorem one_live_lane_per_account_witness:
  "strong_count sample_registry 0 = 1 \<and> fst (shared '' fixture'' ''account '' sample_registry) = Inr 0"
proof -
  have r: "sample_registry = \<lparr>reg_lanes = [((''fixture'', ''account''), 0)], reg_keys = [(0, (''fixture'', ''account''))],
      reg_strong = [(0, 1)], reg_fresh = 1\<rparr>" by code_simp
  have reach: "registry_reachable sample_registry" unfolding sample_registry_def by (intro reg_shared reg_start)
  have t: "trim '' fixture'' = ''fixture''" "trim ''account '' = ''account''" by code_simp+
  have "\<exists>found. fst (shared '' fixture'' ''account '' sample_registry) = Inr found"
    by (simp add: shared_def r t hm_get_def strong_count_def Let_def)
  then show ?thesis using one_live_lane_per_account [OF reach, of 0 "'' fixture''" "''account ''"]
    by (auto simp: r t strong_count_def hm_get_def)
qed

end
