(* ===== verification/Pipeline.thy ===== *)
theory Pipeline
  imports InsightOperations QuantitySizing
begin

text \<open>
  The stages an insight passes (\<open>src/src/core/pipeline/mod.rs\<close>, \<open>and_pipe.rs\<close>, \<open>or_pipe.rs\<close>): results and
  deferrals, the wrapper that filters by asset, alpha and scope, and the two composite pipes with
  their suspended continuations and checkpoints.

  A pipe is a tree whose leaves are values of an arbitrary type; what the trait object of a leaf does
  is the record \<open>PipeOps\<close>.  Leaves use the default hooks of the trait, as all pipes of the repository do.  The
  strategy context is an arbitrary state \<open>'x\<close>.
\<close>

section \<open>Texts\<close>

text \<open>\<open>Debug\<close> of an ASCII string.\<close>

definition hex_digit :: "nat \<Rightarrow> char" where
  "hex_digit n = char_of (if n < 10 then 48 + n else 87 + n)"

definition debug_char :: "char \<Rightarrow> string" where
  "debug_char c = (let n = of_char c :: nat; bs = char_of (92::nat) in
     if c = char_of (34::nat) then [bs, c] else if c = bs then [bs, bs]
     else if n = 10 then [bs, CHR ''n''] else if n = 13 then [bs, CHR ''r''] else if n = 9 then [bs, CHR ''t'']
     else if n = 0 then [bs, CHR ''0'']
     else if n < 32 \<or> n = 127 then [bs] @ ''u{'' @ (if n < 16 then [] else [hex_digit (n div 16)]) @ [hex_digit (n mod 16)] @ ''}''
     else [c])"

definition debug_string :: "string \<Rightarrow> string" where
  "debug_string s = [char_of (34::nat)] @ concat (map debug_char s) @ [char_of (34::nat)]"

fun join :: "string \<Rightarrow> string list \<Rightarrow> string" where
  "join sep [] = []"
| "join sep [s] = s"
| "join sep (s # t # ss) = s @ sep @ join sep (t # ss)"

definition debug_strings :: "string list \<Rightarrow> string" where
  "debug_strings ss = ''['' @ join '', '' (map debug_string ss) @ '']''"

definition debug_option :: "string option \<Rightarrow> string" where
  "debug_option m = (case m of None \<Rightarrow> ''None'' | Some s \<Rightarrow> ''Some('' @ debug_string s @ '')'')"

definition snapshot_kind_text :: "SnapshotKind \<Rightarrow> string" where
  "snapshot_kind_text k = (case k of AccountSnapshot \<Rightarrow> ''Account'' | PositionsSnapshot \<Rightarrow> ''Positions''
     | QuoteSnapshot symbol \<Rightarrow> ''Quote { symbol: '' @ debug_string symbol @ '' }'')"

definition unavailable_text :: "SnapshotUnavailable \<Rightarrow> string" where
  "unavailable_text r = ''snapshot unavailable: '' @ (case r of MissingSnapshot \<Rightarrow> ''Missing'' | StaleSnapshot \<Rightarrow> ''Stale''
     | InvalidSnapshot \<Rightarrow> ''Invalid'' | AccountChanged \<Rightarrow> ''AccountChanged'' | UntrackedSymbol \<Rightarrow> ''UntrackedSymbol'')"

definition broker_error_text :: "BrokerError \<Rightarrow> string" where
  "broker_error_text e = (case e of
       SnapshotUnavailable kind reason \<Rightarrow> snapshot_kind_text kind @ '': '' @ unavailable_text reason
     | UnsupportedOperation msg \<Rightarrow> ''Unsupported broker operation: '' @ msg
     | SubmissionRejected msg \<Rightarrow> ''Submission rejected: '' @ msg
     | ConnectionError msg \<Rightarrow> ''Connection error: '' @ msg
     | DisconnectionError msg \<Rightarrow> ''Disconnection error: '' @ msg
     | OrderError msg \<Rightarrow> ''Order error: '' @ msg
     | PositionError msg \<Rightarrow> ''Position error: '' @ msg
     | AccountError msg \<Rightarrow> ''Account error: '' @ msg
     | AssetError msg \<Rightarrow> ''Asset error: '' @ msg
     | TradeError msg \<Rightarrow> ''Trade error: '' @ msg
     | DataFeedError msg \<Rightarrow> ''Data feed error: '' @ msg
     | DataFeedConnectionError msg \<Rightarrow> ''Data feed connection error: '' @ msg
     | DataFeedDisconnectionError msg \<Rightarrow> ''Data feed disconnection error: '' @ msg
     | InvalidTicker msg \<Rightarrow> ''Invalid ticker: '' @ msg
     | OrderCancellationError msg \<Rightarrow> ''Order cancellation error: '' @ msg)"

definition command_error_text :: "BrokerCommandError \<Rightarrow> string" where
  "command_error_text e = (case e of
       CmdDeclined reason \<Rightarrow> ''Broker declined command: '' @ reason
     | CmdInvalid reason \<Rightarrow> ''Invalid broker command: '' @ reason
     | CmdTooLarge \<Rightarrow> ''Broker command exceeds '' @ digits_of MAX_BROKER_COMMAND_BYTES @ '' bytes''
     | CmdQueueFull \<Rightarrow> ''Broker command queue is full; defer and retry admission''
     | CmdAnalyticsBusy \<Rightarrow> ''Analytics reader is busy; defer and retry''
     | CmdAnalyticsQueueFull \<Rightarrow> ''Analytics journal request queue is full; defer and retry''
     | CmdCapturePaused \<Rightarrow> ''New optional analytics capture is paused; no journal receipt was issued''
     | CmdClosed \<Rightarrow> ''Broker command worker is closed''
     | CmdStopping \<Rightarrow> ''Broker entry admission is stopped''
     | CmdIdentityConflict \<Rightarrow> ''Broker command identity conflicts with its durable intent''
     | CmdJournal reason \<Rightarrow> ''Broker command journal: '' @ reason)"

section \<open>Results\<close>

datatype InsightPipeDeferral = DeferCommand BrokerCommandReceipt | DeferGroup BrokerOperationGroup | DeferQueueCapacity
  | DeferAccount | DeferPositions | DeferQuote string

record InsightPipeResult =
  pr_passed :: bool
  pr_success :: bool
  pr_message :: "string option"
  pr_pipe_name :: string
  pr_deferred :: "InsightPipeDeferral option"

definition result_new :: "bool \<Rightarrow> bool \<Rightarrow> string option \<Rightarrow> string \<Rightarrow> InsightPipeResult" where
  "result_new passed success message name =
     (let (passed, success) = (if passed then (True, True) else if \<not> success then (False, False) else (passed, success))
      in \<lparr>pr_passed = passed, pr_success = success, pr_message = message, pr_pipe_name = name, pr_deferred = None\<rparr>)"

definition result_deferred :: "InsightPipeDeferral \<Rightarrow> string \<Rightarrow> InsightPipeResult" where
  "result_deferred dependency name =
     \<lparr>pr_passed = False, pr_success = True, pr_message = None, pr_pipe_name = name, pr_deferred = Some dependency\<rparr>"

definition from_read_error :: "BrokerError \<Rightarrow> string \<Rightarrow> InsightPipeResult" where
  "from_read_error e name = (case e of
       SnapshotUnavailable kind reason \<Rightarrow>
         (result_deferred (case kind of AccountSnapshot \<Rightarrow> DeferAccount | PositionsSnapshot \<Rightarrow> DeferPositions
            | QuoteSnapshot symbol \<Rightarrow> DeferQuote symbol) name)\<lparr>pr_message := Some (unavailable_text reason)\<rparr>
     | _ \<Rightarrow> result_new False False (Some (broker_error_text e)) name)"

definition from_mutation :: "InsightMutationResult \<Rightarrow> string \<Rightarrow> InsightPipeResult" where
  "from_mutation r name = (case r of
       Inr Applied \<Rightarrow> result_new True True None name
     | Inr (PendingReceipt receipt) \<Rightarrow> result_deferred (DeferCommand receipt) name
     | Inl CmdQueueFull \<Rightarrow> result_deferred DeferQueueCapacity name
     | Inl e \<Rightarrow> result_new False False (Some (command_error_text e)) name)"

definition from_exit_mutation :: "InsightMutationResult \<Rightarrow> string \<Rightarrow> InsightPipeResult" where
  "from_exit_mutation r name = (let result = from_mutation r name in
     if pr_success result \<and> pr_deferred result = None then result\<lparr>pr_passed := False\<rparr> else result)"

section \<open>Filters\<close>

definition CHILD_ALPHA_SUFFIX :: string where "CHILD_ALPHA_SUFFIX = ''-CHILD''"

definition strip_suffix :: "string \<Rightarrow> string \<Rightarrow> string option" where
  "strip_suffix suffix s = (let n = length s - length suffix in
     if length suffix \<le> length s \<and> drop n s = suffix then Some (take n s) else None)"

function alpha_is_allowed :: "string list \<Rightarrow> string \<Rightarrow> bool" where
  "alpha_is_allowed allowed candidate =
     (if candidate \<in> set allowed \<or> candidate = ''Testing'' \<and> ''TestEntry'' \<in> set allowed then True
      else case strip_suffix CHILD_ALPHA_SUFFIX candidate of None \<Rightarrow> False
        | Some parent_name \<Rightarrow> alpha_is_allowed allowed parent_name)"
  by pat_completeness auto
termination
  by (relation "measure (\<lambda>(_, s). length s)") (auto simp: strip_suffix_def CHILD_ALPHA_SUFFIX_def Let_def split: if_splits)

declare alpha_is_allowed.simps [simp del]

datatype InsightPipeScope = ParentOnly | ChildOnly | BothScopes

definition scope_allows :: "InsightPipeScope \<Rightarrow> InsightTree \<Rightarrow> bool" where
  "scope_allows s t = (case s of ParentOnly \<Rightarrow> ins_parent_id (tree_row t) = None
     | ChildOnly \<Rightarrow> ins_parent_id (tree_row t) \<noteq> None | BothScopes \<Rightarrow> True)"

record PipeConfig =
  pcf_target_state :: InsightState
  pcf_allow_state_change :: bool
  pcf_allowed_assets :: "string list option"
  pcf_allowed_alphas :: "string list option"
  pcf_scope :: InsightPipeScope

definition matches_asset_and_alpha :: "PipeConfig \<Rightarrow> InsightTree \<Rightarrow> bool" where
  "matches_asset_and_alpha c t \<longleftrightarrow>
     (case pcf_allowed_assets c of None \<Rightarrow> True | Some set' \<Rightarrow> set' = [] \<or> ins_symbol (tree_row t) \<in> set set')
     \<and> (case pcf_allowed_alphas c of None \<Rightarrow> True | Some set' \<Rightarrow> set' = []
          \<or> alpha_is_allowed set' (strategy_label (ins_strategy_type (tree_row t))))"

definition should_run :: "PipeConfig \<Rightarrow> InsightTree \<Rightarrow> bool" where
  "should_run c t \<longleftrightarrow> matches_asset_and_alpha c t \<and> scope_allows (pcf_scope c) t"

section \<open>Pipes\<close>

text \<open>\<open>InsightPipeBuilder\<close>: the configuration a builder starts from.\<close>

definition builder_config :: PipeConfig where
  "builder_config = \<lparr>pcf_target_state = StNew, pcf_allow_state_change = True, pcf_allowed_assets = None,
     pcf_allowed_alphas = None, pcf_scope = ParentOnly\<rparr>"

type_synonym resumed = "(uuid, InsightState \<times> nat) hmap"

datatype 'p Pipe = Leaf 'p | AndPipe "'p Wrapped list" resumed | OrPipe "'p Wrapped list" resumed
  and 'p Wrapped = Wrapped (wp_inner: "'p Pipe") (wp_config: PipeConfig) (wp_runs_count: nat) (wp_passed_count: nat)

record ('p, 'x) PipeOps =
  po_name :: "'p \<Rightarrow> string"
  po_version :: "'p \<Rightarrow> string"
  po_controls_expiration :: "'p \<Rightarrow> bool"
  po_run :: "'p \<Rightarrow> 'x \<Rightarrow> InsightTree \<Rightarrow> InsightPipeResult \<times> 'p \<times> 'x \<times> InsightTree"

definition pipe_name :: "('p, 'x) PipeOps \<Rightarrow> 'p Pipe \<Rightarrow> string" where
  "pipe_name P p = (case p of Leaf l \<Rightarrow> po_name P l | AndPipe _ _ \<Rightarrow> ''AndPipe'' | OrPipe _ _ \<Rightarrow> ''OrPipe'')"

definition pipe_version :: "('p, 'x) PipeOps \<Rightarrow> 'p Pipe \<Rightarrow> string" where
  "pipe_version P p = (case p of Leaf l \<Rightarrow> po_version P l | _ \<Rightarrow> ''1.0'')"

definition controls_expiration :: "('p, 'x) PipeOps \<Rightarrow> 'p Pipe \<Rightarrow> bool" where
  "controls_expiration P p = (case p of Leaf l \<Rightarrow> po_controls_expiration P l | _ \<Rightarrow> False)"

definition builder_build :: "'p Pipe \<Rightarrow> PipeConfig \<Rightarrow> 'p Wrapped" where
  "builder_build inner c = Wrapped inner c 0 0"

definition resume_index :: "resumed \<Rightarrow> uuid \<Rightarrow> InsightState \<Rightarrow> nat" where
  "resume_index r i state = (case hm_get r i of None \<Rightarrow> 0 | Some (previous, index) \<Rightarrow> if previous = state then index else 0)"

text \<open>How the loop over the children of a composite ended.\<close>

datatype LoopEnd = LoopDeferred nat InsightPipeResult | LoopStopped InsightPipeResult "string list" string | LoopDone "string list"

definition add_message :: "InsightPipeResult \<Rightarrow> string list \<Rightarrow> string list" where
  "add_message r msgs = (case pr_message r of None \<Rightarrow> msgs | Some m \<Rightarrow> msgs @ [m])"

definition leaves_turn :: "InsightTree \<Rightarrow> bool" where
  "leaves_turn t \<longleftrightarrow> is_inactive (tree_state t) \<or> ins_closing (tree_row t) \<or> ins_cancelling (tree_row t)"

text \<open>
  The loops over the children of a composite.  Each child comes with the function that runs it; children
  before \<open>start\<close> and those whose wrapper does not apply are skipped.
\<close>

type_synonym ('p, 'x) runner = "'x \<Rightarrow> InsightTree \<Rightarrow> InsightPipeResult \<times> 'p Wrapped \<times> 'x \<times> InsightTree"

fun and_loop :: "nat \<Rightarrow> nat \<Rightarrow> string list \<Rightarrow> ('p Wrapped \<times> ('p, 'x) runner) list \<Rightarrow> 'x \<Rightarrow> InsightTree
    \<Rightarrow> LoopEnd \<times> 'p Wrapped list \<times> 'x \<times> InsightTree" where
  "and_loop i start msgs [] x t = (LoopDone msgs, [], x, t)"
| "and_loop i start msgs ((w, run) # ws) x t =
     (if i < start \<or> \<not> should_run (wp_config w) t
      then let (e, ws', x, t) = and_loop (i + 1) start msgs ws x t in (e, w # ws', x, t)
      else let (r, w, x, t) = run x t in
        if pr_deferred r \<noteq> None then (LoopDeferred i r, w # map fst ws, x, t)
        else let msgs = add_message r msgs in
          if \<not> pr_success r \<or> \<not> pr_passed r then (LoopStopped r msgs [], w # map fst ws, x, t)
          else let (e, ws', x, t) = and_loop (i + 1) start msgs ws x t in (e, w # ws', x, t))"

fun or_loop :: "('p Pipe \<Rightarrow> string) \<Rightarrow> nat \<Rightarrow> nat \<Rightarrow> string list \<Rightarrow> ('p Wrapped \<times> ('p, 'x) runner) list \<Rightarrow> 'x \<Rightarrow> InsightTree
    \<Rightarrow> LoopEnd \<times> 'p Wrapped list \<times> 'x \<times> InsightTree" where
  "or_loop name i start msgs [] x t = (LoopDone msgs, [], x, t)"
| "or_loop name i start msgs ((w, run) # ws) x t =
     (if i < start \<or> \<not> should_run (wp_config w) t
      then let (e, ws', x, t) = or_loop name (i + 1) start msgs ws x t in (e, w # ws', x, t)
      else let (r, w, x, t) = run x t in
        if pr_deferred r \<noteq> None then (LoopDeferred i r, w # map fst ws, x, t)
        else if leaves_turn t then (LoopStopped r msgs [], w # map fst ws, x, t)
        else if \<not> pr_success r
        then let (e, ws', x, t) = or_loop name (i + 1) start (add_message r msgs) ws x t in (e, w # ws', x, t)
        else if pr_passed r then (LoopStopped r msgs (name (wp_inner w)), w # map fst ws, x, t)
        else let (e, ws', x, t) = or_loop name (i + 1) start msgs ws x t in (e, w # ws', x, t))"

definition and_turn :: "('p Wrapped \<times> ('p, 'x) runner) list \<Rightarrow> resumed \<Rightarrow> 'x \<Rightarrow> InsightTree
    \<Rightarrow> InsightPipeResult \<times> 'p Pipe \<times> 'x \<times> InsightTree" where
  "and_turn ws res x t =
     (let i = insight_id t; state = tree_state t; start = resume_index res i state; res = hm_remove i res;
          (e, ws, x, t) = and_loop 0 start [] ws x t
      in case e of
           LoopDeferred index r \<Rightarrow> (r, AndPipe ws (hm_insert i (state, index) res), x, t)
         | LoopStopped _ msgs _ \<Rightarrow>
             (result_new False True (Some (''AndPipe failed: '' @ debug_strings msgs)) ''AndPipe'', AndPipe ws res, x, t)
         | LoopDone msgs \<Rightarrow>
             (result_new True True (Some (''All pipes passed: '' @ debug_strings msgs)) ''AndPipe'', AndPipe ws res, x, t))"

definition or_turn :: "('p Pipe \<Rightarrow> string) \<Rightarrow> ('p Wrapped \<times> ('p, 'x) runner) list \<Rightarrow> resumed \<Rightarrow> 'x \<Rightarrow> InsightTree
    \<Rightarrow> InsightPipeResult \<times> 'p Pipe \<times> 'x \<times> InsightTree" where
  "or_turn name ws res x t =
     (let i = insight_id t; state = tree_state t; start = resume_index res i state; res = hm_remove i res;
          (e, ws, x, t) = or_loop name 0 start [] ws x t
      in case e of
           LoopDeferred index r \<Rightarrow> (r, OrPipe ws (hm_insert i (state, index) res), x, t)
         | LoopStopped r _ passed \<Rightarrow>
             (if leaves_turn t then (r, OrPipe ws res, x, t)
              else (result_new True True (Some (''Pipe '' @ passed @ '' passed: '' @ debug_option (pr_message r))) ''OrPipe'',
                OrPipe ws res, x, t))
         | LoopDone msgs \<Rightarrow>
             (result_new False True (Some (''No pipe passed. Errors: '' @ debug_strings msgs)) ''OrPipe'', OrPipe ws res, x, t))"

primrec run_pipe :: "'p Pipe \<Rightarrow> ('p, 'x) PipeOps \<Rightarrow> 'x \<Rightarrow> InsightTree \<Rightarrow> InsightPipeResult \<times> 'p Pipe \<times> 'x \<times> InsightTree"
  and run_wrapped :: "'p Wrapped \<Rightarrow> ('p, 'x) PipeOps \<Rightarrow> ('p, 'x) runner" where
  "run_pipe (Leaf l) = (\<lambda>P x t. let (r, l', x, t) = po_run P l x t in (r, Leaf l', x, t))"
| "run_pipe (AndPipe ws res) = (\<lambda>P x t. and_turn (zip ws (map (\<lambda>f. f P) (map run_wrapped ws))) res x t)"
| "run_pipe (OrPipe ws res) = (\<lambda>P x t. or_turn (pipe_name P) (zip ws (map (\<lambda>f. f P) (map run_wrapped ws))) res x t)"
| "run_wrapped (Wrapped inner c runs passed) = (\<lambda>P x t.
     let (r, inner, x, t) = run_pipe inner P x t
     in (r, Wrapped inner c (runs + 1) (if pr_passed r then passed + 1 else passed), x, t))"

section \<open>Continuations\<close>

datatype PipeContinuationCheckpoint = Checkpoint (ck_state: InsightState) (ck_index: nat) (ck_nested: "PipeContinuationCheckpoint option")

text \<open>The checkpoint of a suspended composite is its state and index with the checkpoint of the child there.\<close>

definition composite_checkpoint :: "(uuid \<Rightarrow> PipeContinuationCheckpoint option) list \<Rightarrow> resumed \<Rightarrow> uuid \<Rightarrow> PipeContinuationCheckpoint option" where
  "composite_checkpoint cs res i = (case hm_get res i of None \<Rightarrow> None
     | Some (state, index) \<Rightarrow> if index < length cs then Some (Checkpoint state index ((cs ! index) i)) else None)"

primrec execution_checkpoint :: "'p Pipe \<Rightarrow> uuid \<Rightarrow> PipeContinuationCheckpoint option"
  and wrapped_checkpoint :: "'p Wrapped \<Rightarrow> uuid \<Rightarrow> PipeContinuationCheckpoint option" where
  "execution_checkpoint (Leaf l) = (\<lambda>i. None)"
| "execution_checkpoint (AndPipe ws res) = composite_checkpoint (map wrapped_checkpoint ws) res"
| "execution_checkpoint (OrPipe ws res) = composite_checkpoint (map wrapped_checkpoint ws) res"
| "wrapped_checkpoint (Wrapped inner c runs passed) = execution_checkpoint inner"

definition composite_forget :: "('p Wrapped list \<Rightarrow> resumed \<Rightarrow> 'p Pipe) \<Rightarrow> 'p Wrapped list \<Rightarrow> (uuid \<Rightarrow> 'p Wrapped) list
    \<Rightarrow> resumed \<Rightarrow> uuid \<Rightarrow> 'p Pipe" where
  "composite_forget mk ws fs res i = (case hm_get res i of None \<Rightarrow> mk ws res
     | Some (_, index) \<Rightarrow> mk (if index < length ws then ws[index := (fs ! index) i] else ws) (hm_remove i res))"

primrec forget_continuation :: "'p Pipe \<Rightarrow> uuid \<Rightarrow> 'p Pipe"
  and wrapped_forget :: "'p Wrapped \<Rightarrow> uuid \<Rightarrow> 'p Wrapped" where
  "forget_continuation (Leaf l) = (\<lambda>i. Leaf l)"
| "forget_continuation (AndPipe ws res) = composite_forget AndPipe ws (map wrapped_forget ws) res"
| "forget_continuation (OrPipe ws res) = composite_forget OrPipe ws (map wrapped_forget ws) res"
| "wrapped_forget (Wrapped inner c runs passed) = (\<lambda>i. Wrapped (forget_continuation inner i) c runs passed)"

primrec retain_active :: "'p Pipe \<Rightarrow> uuid list \<Rightarrow> 'p Pipe"
  and wrapped_retain :: "'p Wrapped \<Rightarrow> uuid list \<Rightarrow> 'p Wrapped" where
  "retain_active (Leaf l) = (\<lambda>active. Leaf l)"
| "retain_active (AndPipe ws res) = (\<lambda>active. AndPipe (map (\<lambda>f. f active) (map wrapped_retain ws)) (filter (\<lambda>(i, _). i \<in> set active) res))"
| "retain_active (OrPipe ws res) = (\<lambda>active. OrPipe (map (\<lambda>f. f active) (map wrapped_retain ws)) (filter (\<lambda>(i, _). i \<in> set active) res))"
| "wrapped_retain (Wrapped inner c runs passed) = (\<lambda>active. Wrapped (retain_active inner active) c runs passed)"

text \<open>Restoring changes the child first and only then notes the continuation; an error leaves all as it was.\<close>

definition composite_restore :: "('p Wrapped list \<Rightarrow> resumed \<Rightarrow> 'p Pipe) \<Rightarrow> 'p Wrapped list
    \<Rightarrow> (uuid \<Rightarrow> PipeContinuationCheckpoint option \<Rightarrow> string + 'p Wrapped) list
    \<Rightarrow> resumed \<Rightarrow> uuid \<Rightarrow> PipeContinuationCheckpoint option \<Rightarrow> string + 'p Pipe" where
  "composite_restore mk ws fs res i ck = (case ck of None \<Rightarrow> Inr (mk ws (hm_remove i res))
     | Some (Checkpoint state index nested) \<Rightarrow>
        if length ws \<le> index then Inl ''saved composite pipe index is out of range''
        else case (fs ! index) i nested of Inl e \<Rightarrow> Inl e
          | Inr w \<Rightarrow> Inr (mk (ws[index := w]) (hm_insert i (state, index) res)))"

primrec restore_checkpoint :: "'p Pipe \<Rightarrow> uuid \<Rightarrow> PipeContinuationCheckpoint option \<Rightarrow> string + 'p Pipe"
  and wrapped_restore :: "'p Wrapped \<Rightarrow> uuid \<Rightarrow> PipeContinuationCheckpoint option \<Rightarrow> string + 'p Wrapped" where
  "restore_checkpoint (Leaf l) = (\<lambda>i ck. if ck \<noteq> None then Inl ''pipe does not support this saved continuation'' else Inr (Leaf l))"
| "restore_checkpoint (AndPipe ws res) = composite_restore AndPipe ws (map wrapped_restore ws) res"
| "restore_checkpoint (OrPipe ws res) = composite_restore OrPipe ws (map wrapped_restore ws) res"
| "wrapped_restore (Wrapped inner c runs passed) = (\<lambda>i ck. case restore_checkpoint inner i ck of Inl e \<Rightarrow> Inl e
     | Inr inner \<Rightarrow> Inr (Wrapped inner c runs passed))"

section \<open>Layouts\<close>

text \<open>
  The layout of a pipe is a text; \<open>serde_json\<close> writes the tuples it is made of, so the two writers are
  parameters.
\<close>

record LayoutJson =
  lj_composite :: "string \<Rightarrow> string \<Rightarrow> string list \<Rightarrow> string"
  lj_wrapped :: "string \<Rightarrow> InsightState \<Rightarrow> bool \<Rightarrow> string list option \<Rightarrow> string list option \<Rightarrow> InsightPipeScope \<Rightarrow> string"

definition ordered :: "string list option \<Rightarrow> string list option" where
  "ordered values = map_option sort values"

primrec recovery_layout :: "'p Pipe \<Rightarrow> LayoutJson \<Rightarrow> ('p, 'x) PipeOps \<Rightarrow> string"
  and wrapped_layout :: "'p Wrapped \<Rightarrow> LayoutJson \<Rightarrow> ('p, 'x) PipeOps \<Rightarrow> string" where
  "recovery_layout (Leaf l) = (\<lambda>J P. po_name P l @ ''@'' @ po_version P l)"
| "recovery_layout (AndPipe ws res) = (\<lambda>J P. lj_composite J ''AndPipe'' ''1.0'' (map (\<lambda>f. f J P) (map wrapped_layout ws)))"
| "recovery_layout (OrPipe ws res) = (\<lambda>J P. lj_composite J ''OrPipe'' ''1.0'' (map (\<lambda>f. f J P) (map wrapped_layout ws)))"
| "wrapped_layout (Wrapped inner c runs passed) = (\<lambda>J P. lj_wrapped J (recovery_layout inner J P) (pcf_target_state c)
     (pcf_allow_state_change c) (ordered (pcf_allowed_assets c)) (ordered (pcf_allowed_alphas c)) (pcf_scope c))"

text \<open>What the code relies on of JSON: the writers are injective and an array starts with a bracket.\<close>

definition layout_laws :: "LayoutJson \<Rightarrow> bool" where
  "layout_laws J \<longleftrightarrow>
     (\<forall>n v ls n' v' ls'. lj_composite J n v ls = lj_composite J n' v' ls' \<longrightarrow> n = n' \<and> v = v' \<and> ls = ls')
     \<and> (\<forall>l s a f g c l' s' a' f' g' c'. lj_wrapped J l s a f g c = lj_wrapped J l' s' a' f' g' c' \<longrightarrow>
          l = l' \<and> s = s' \<and> a = a' \<and> f = f' \<and> g = g' \<and> c = c')
     \<and> (\<forall>n v ls. take 1 (lj_composite J n v ls) = ''['')"

end
