(* ===== verification/PipelineProperties.thy ===== *)
theory PipelineProperties
  imports Pipeline
begin

text \<open>
  What the composite pipes promise.  Both meet one contract, the locale \<open>composite\<close>: a turn keeps the children
  it skips, suspends at the child that deferred and leaves no continuation otherwise.  From it follow the
  shape of the results, the resumption at the recorded child and the round trip of the checkpoints.
\<close>

section \<open>The loops over the children\<close>

text \<open>\<open>r\<close> and \<open>w\<close> are the result of some run of the child and the child after it.\<close>

definition ran_as :: "('p, 'x) runner \<Rightarrow> InsightPipeResult \<Rightarrow> 'p Wrapped \<Rightarrow> bool" where
  "ran_as run r w \<longleftrightarrow> (\<exists>x t x' t'. run x t = (r, w, x', t'))"

text \<open>How an ending of a loop over \<open>ws\<close>, numbered from \<open>i\<close>, and the children after it are related to the children before.\<close>

definition loop_spec :: "nat \<Rightarrow> nat \<Rightarrow> ('p Wrapped \<times> ('p, 'x) runner) list \<Rightarrow> LoopEnd \<Rightarrow> 'p Wrapped list \<Rightarrow> bool" where
  "loop_spec i start ws e ws' \<longleftrightarrow> length ws' = length ws
     \<and> (\<forall>j<length ws. ws' ! j = fst (ws ! j) \<or> (\<exists>r. ran_as (snd (ws ! j)) r (ws' ! j)))
     \<and> (\<forall>j<length ws. i + j < start \<longrightarrow> ws' ! j = fst (ws ! j))
     \<and> (case e of
          LoopDeferred k r \<Rightarrow> i \<le> k \<and> start \<le> k \<and> k < i + length ws \<and> pr_deferred r \<noteq> None
            \<and> ran_as (snd (ws ! (k - i))) r (ws' ! (k - i)) \<and> (\<forall>j<length ws. k < i + j \<longrightarrow> ws' ! j = fst (ws ! j))
        | LoopStopped r _ _ \<Rightarrow> pr_deferred r = None \<and> (\<exists>j<length ws. ran_as (snd (ws ! j)) r (ws' ! j))
        | LoopDone _ \<Rightarrow> True)"

lemma loop_spec_Nil: "loop_spec i start [] (LoopDone msgs) []"
  by (simp add: loop_spec_def)

text \<open>A child that is skipped, one that was run and passed on, and one that ends the loop.\<close>

lemma loop_spec_Cons:
  assumes rest: "loop_spec (i + 1) start ws e ws'"
    and w': "w' = w \<or> \<not> i < start \<and> (\<exists>r. ran_as run r w')"
  shows "loop_spec i start ((w, run) # ws) e (w' # ws')"
proof (cases e)
  case (LoopDeferred k r)
  then have "k - i = Suc (k - (i + 1))" using rest by (auto simp: loop_spec_def)
  then show ?thesis using rest w' LoopDeferred by (auto simp: loop_spec_def All_less_Suc2)
qed (use rest w' in \<open>auto simp: loop_spec_def All_less_Suc2 Ex_less_Suc2\<close>)

lemma loop_spec_end:
  assumes "\<not> i < start" and "run x t = (r, w', x', t')"
    and "e = LoopDeferred i r \<and> pr_deferred r \<noteq> None \<or> (\<exists>msgs n. e = LoopStopped r msgs n) \<and> pr_deferred r = None"
  shows "loop_spec i start ((w, run) # ws) e (w' # map fst ws)"
proof -
  have "ran_as run r w'" using assms(2) by (auto simp: ran_as_def)
  then show ?thesis using assms(1,3) by (auto simp: loop_spec_def All_less_Suc2 Ex_less_Suc2)
qed

lemma and_loop_spec: "and_loop i start msgs ws x t = (e, ws', x', t') \<Longrightarrow> loop_spec i start ws e ws'"
proof (induction i start msgs ws x t arbitrary: e ws' x' t' rule: and_loop.induct)
  case (2 i start msgs w run ws x t)
  show ?case
  proof (cases "i < start \<or> \<not> should_run (wp_config w) t")
    case True
    then obtain ws1 where "ws' = w # ws1" "and_loop (i + 1) start msgs ws x t = (e, ws1, x', t')"
      using 2(3) by (auto split: prod.splits)
    then show ?thesis using 2(1) [OF True] by (auto intro: loop_spec_Cons)
  next
    case False
    obtain r w1 x1 t1 where run: "run x t = (r, w1, x1, t1)" by (cases "run x t") auto
    have passes: "ran_as run r w1" using run by (auto simp: ran_as_def)
    show ?thesis
    proof (cases "pr_deferred r = None \<and> pr_success r \<and> pr_passed r")
      case True
      then obtain ws1 where "ws' = w1 # ws1" "and_loop (i + 1) start (add_message r msgs) ws x1 t1 = (e, ws1, x', t')"
        using 2(3) False run by (auto simp: Let_def split: prod.splits)
      then show ?thesis
        using 2(2) [OF False run [symmetric] refl refl refl _ refl] True passes False by (auto intro: loop_spec_Cons)
    next
      case stop: False
      then have "ws' = w1 # map fst ws" "e = (if pr_deferred r \<noteq> None then LoopDeferred i r else LoopStopped r (add_message r msgs) [])"
        using 2(3) False run by (auto simp: Let_def split: if_splits)
      then show ?thesis using loop_spec_end [of i start run x t r w1 x1 t1 e w ws] False run by auto
    qed
  qed
qed (auto simp: loop_spec_Nil)

lemma or_loop_spec: "or_loop name i start msgs ws x t = (e, ws', x', t') \<Longrightarrow> loop_spec i start ws e ws'"
proof (induction name i start msgs ws x t arbitrary: e ws' x' t' rule: or_loop.induct)
  case (2 name i start msgs w run ws x t)
  show ?case
  proof (cases "i < start \<or> \<not> should_run (wp_config w) t")
    case True
    then obtain ws1 where "ws' = w # ws1" "or_loop name (i + 1) start msgs ws x t = (e, ws1, x', t')"
      using 2(4) by (auto split: prod.splits)
    then show ?thesis using 2(1) [OF True] by (auto intro: loop_spec_Cons)
  next
    case False
    obtain r w1 x1 t1 where run: "run x t = (r, w1, x1, t1)" by (cases "run x t") auto
    have passes: "ran_as run r w1" using run by (auto simp: ran_as_def)
    show ?thesis
    proof (cases "pr_deferred r = None \<and> \<not> leaves_turn t1 \<and> (pr_success r \<longrightarrow> \<not> pr_passed r)")
      case True
      then obtain ws1 msgs' where "ws' = w1 # ws1" "or_loop name (i + 1) start msgs' ws x1 t1 = (e, ws1, x', t')"
        "msgs' = (if pr_success r then msgs else add_message r msgs)"
        using 2(4) False run by (cases "pr_success r") (auto split: prod.splits)
      then show ?thesis
        using 2(2,3) [OF False run [symmetric] refl refl] True passes False
        by (cases "pr_success r") (auto intro: loop_spec_Cons)
    next
      case stop: False
      then have "ws' = w1 # map fst ws" "e = (if pr_deferred r \<noteq> None then LoopDeferred i r
          else LoopStopped r msgs (if leaves_turn t1 then [] else name (wp_inner w1)))"
        using 2(4) False run by (auto split: if_splits)
      then show ?thesis using loop_spec_end [of i start run x t r w1 x1 t1 e w ws] False run by auto
    qed
  qed
qed (auto simp: loop_spec_Nil)

section \<open>The contract of a composite\<close>

text \<open>The result and the pipe a turn makes of the ending of its loop.\<close>

definition turn_end :: "('p Wrapped list \<Rightarrow> resumed \<Rightarrow> 'p Pipe) \<Rightarrow> resumed \<Rightarrow> InsightTree \<Rightarrow> InsightPipeResult \<Rightarrow> 'p Pipe
    \<Rightarrow> LoopEnd \<Rightarrow> 'p Wrapped list \<Rightarrow> bool" where
  "turn_end mk res t r p e ws' \<longleftrightarrow> (let kept = hm_remove (insight_id t) res in
     case e of LoopDeferred k r' \<Rightarrow> r = r' \<and> p = mk ws' (hm_insert (insight_id t) (tree_state t, k) kept)
     | LoopStopped r' _ _ \<Rightarrow> (r = r' \<or> (\<exists>b m n. r = result_new b True m n)) \<and> p = mk ws' kept
     | LoopDone _ \<Rightarrow> (\<exists>b m n. r = result_new b True m n) \<and> p = mk ws' kept)"

locale composite =
  fixes turn :: "('p Wrapped \<times> ('p, 'x) runner) list \<Rightarrow> resumed \<Rightarrow> 'x \<Rightarrow> InsightTree \<Rightarrow> InsightPipeResult \<times> 'p Pipe \<times> 'x \<times> InsightTree"
    and mk :: "'p Wrapped list \<Rightarrow> resumed \<Rightarrow> 'p Pipe"
  assumes turn_ends: "turn ws res x t = (r, p, x', t') \<Longrightarrow>
    \<exists>e ws'. loop_spec 0 (resume_index res (insight_id t) (tree_state t)) ws e ws' \<and> turn_end mk res t r p e ws'"
begin

text \<open>A turn suspends exactly when its result is deferred, and then at the child that deferred.\<close>

lemma turn_suspends:
  assumes "turn ws res x t = (r, p, x', t')"
  shows "\<exists>ws' res'. p = mk ws' res' \<and> length ws' = length ws
    \<and> (\<forall>j<length ws. j < resume_index res (insight_id t) (tree_state t) \<longrightarrow> ws' ! j = fst (ws ! j))
    \<and> (\<forall>j. j \<noteq> insight_id t \<longrightarrow> hm_get res' j = hm_get res j)
    \<and> (case pr_deferred r of None \<Rightarrow> hm_get res' (insight_id t) = None
       | Some _ \<Rightarrow> \<exists>k<length ws. resume_index res (insight_id t) (tree_state t) \<le> k \<and> hm_get res' (insight_id t) = Some (tree_state t, k)
           \<and> ran_as (snd (ws ! k)) r (ws' ! k) \<and> (\<forall>j<length ws. k < j \<longrightarrow> ws' ! j = fst (ws ! j)))"
proof -
  obtain e ws' where e: "loop_spec 0 (resume_index res (insight_id t) (tree_state t)) ws e ws'" "turn_end mk res t r p e ws'"
    using turn_ends [OF assms] by blast
  let ?kept = "hm_remove (insight_id t) res"
  let ?res = "case e of LoopDeferred k _ \<Rightarrow> hm_insert (insight_id t) (tree_state t, k) ?kept | _ \<Rightarrow> ?kept"
  show ?thesis
    by (rule exI [of _ ws'], rule exI [of _ ?res])
      (use e in \<open>auto simp: loop_spec_def turn_end_def Let_def result_new_def split: LoopEnd.splits\<close>)
qed

text \<open>The children after a turn: each is as before or came out of a run of itself; the result is a new one or a child's.\<close>

lemma turn_children:
  assumes "turn ws res x t = (r, p, x', t')"
  shows "\<exists>ws' res'. p = mk ws' res' \<and> length ws' = length ws
    \<and> (\<forall>j<length ws. ws' ! j = fst (ws ! j) \<or> (\<exists>r. ran_as (snd (ws ! j)) r (ws' ! j)))
    \<and> ((\<exists>b m n. r = result_new b True m n) \<or> (\<exists>j<length ws. ran_as (snd (ws ! j)) r (ws' ! j)))
    \<and> (\<forall>i v. hm_get res' i = Some v \<longrightarrow> hm_get res i = Some v \<or> snd v < length ws)"
proof -
  obtain e ws' where e: "loop_spec 0 (resume_index res (insight_id t) (tree_state t)) ws e ws'" "turn_end mk res t r p e ws'"
    using turn_ends [OF assms] by blast
  let ?kept = "hm_remove (insight_id t) res"
  let ?res = "case e of LoopDeferred k _ \<Rightarrow> hm_insert (insight_id t) (tree_state t, k) ?kept | _ \<Rightarrow> ?kept"
  show ?thesis
    by (rule exI [of _ ws'], rule exI [of _ ?res])
      (use e in \<open>auto simp: loop_spec_def turn_end_def Let_def split: LoopEnd.splits if_splits\<close>)
qed

end

interpretation and_pipe: composite and_turn AndPipe
proof (unfold_locales, goal_cases)
  case (1 ws res x t r p x' t')
  obtain e ws' x1 t1 where l: "and_loop 0 (resume_index res (insight_id t) (tree_state t)) [] ws x t = (e, ws', x1, t1)"
    using prod_cases4 by blast
  have "turn_end AndPipe res t r p e ws'"
    using 1 l by (auto simp: and_turn_def turn_end_def Let_def split: LoopEnd.splits)
  then show ?case using and_loop_spec [OF l] by blast
qed

interpretation or_pipe: composite "or_turn name" OrPipe for name
proof (unfold_locales, goal_cases)
  case (1 ws res x t r p x' t')
  obtain e ws' x1 t1 where l: "or_loop name 0 (resume_index res (insight_id t) (tree_state t)) [] ws x t = (e, ws', x1, t1)"
    using prod_cases4 by blast
  have "turn_end OrPipe res t r p e ws'"
    using 1 l by (auto simp: or_turn_def turn_end_def Let_def split: LoopEnd.splits if_splits)
  then show ?case using or_loop_spec [OF l] by blast
qed

section \<open>Well-formed pipes and results\<close>

text \<open>A result that passed succeeded, and a deferred one has neither passed nor failed.\<close>

definition result_ok :: "InsightPipeResult \<Rightarrow> bool" where
  "result_ok r \<longleftrightarrow> (pr_passed r \<longrightarrow> pr_success r) \<and> (pr_deferred r \<noteq> None \<longrightarrow> \<not> pr_passed r \<and> pr_success r)"

lemma result_ok_new: "result_ok (result_new passed success m n)"
  by (simp add: result_ok_def result_new_def)

lemma result_ok_deferred: "result_ok (result_deferred d n)"
  by (simp add: result_ok_def result_deferred_def)

lemma result_ok_read_error: "result_ok (from_read_error e n)"
proof (cases e)
  case (SnapshotUnavailable kind reason)
  then show ?thesis by (simp add: from_read_error_def result_ok_def result_deferred_def)
qed (simp_all add: from_read_error_def result_ok_new)

lemma result_ok_mutation: "result_ok (from_mutation m n)"
proof (cases m)
  case (Inl e)
  then show ?thesis by (cases e) (simp_all add: from_mutation_def result_ok_new result_ok_deferred)
next
  case (Inr a)
  then show ?thesis by (cases a) (simp_all add: from_mutation_def result_ok_new result_ok_deferred)
qed

lemma result_ok_exit_mutation: "result_ok (from_exit_mutation m n)"
proof -
  have "result_ok (r\<lparr>pr_passed := False\<rparr>)" if "pr_success r \<and> pr_deferred r = None" for r
    using that by (simp add: result_ok_def)
  then show ?thesis using result_ok_mutation [of m n] by (simp add: from_exit_mutation_def Let_def)
qed

lemmas result_ok_intros = result_ok_new result_ok_deferred result_ok_read_error result_ok_mutation result_ok_exit_mutation

text \<open>Every saved index points at a child.\<close>

primrec pipe_ok :: "'p Pipe \<Rightarrow> bool" and wrapped_ok :: "'p Wrapped \<Rightarrow> bool" where
  "pipe_ok (Leaf l) = True"
| "pipe_ok (AndPipe ws res) = ((\<forall>i v. hm_get res i = Some v \<longrightarrow> snd v < length ws) \<and> list_all id (map wrapped_ok ws))"
| "pipe_ok (OrPipe ws res) = ((\<forall>i v. hm_get res i = Some v \<longrightarrow> snd v < length ws) \<and> list_all id (map wrapped_ok ws))"
| "wrapped_ok (Wrapped inner c runs passed) = pipe_ok inner"

text \<open>What is asked of the leaves: their results are made by the constructors' rules, and they keep their name and version.\<close>

definition leaves_ok :: "('p, 'x) PipeOps \<Rightarrow> bool" where
  "leaves_ok P \<longleftrightarrow> (\<forall>l x t r l' x' t'. po_run P l x t = (r, l', x', t') \<longrightarrow>
     result_ok r \<and> po_name P l' = po_name P l \<and> po_version P l' = po_version P l)"

definition keeps :: "LayoutJson \<Rightarrow> ('p, 'x) PipeOps \<Rightarrow> 'p Wrapped \<Rightarrow> 'p Wrapped \<Rightarrow> bool" where
  "keeps J P w w' \<longleftrightarrow> (wrapped_ok w \<longrightarrow> wrapped_ok w') \<and> wrapped_layout w' J P = wrapped_layout w J P"

text \<open>A composite keeps what its children keep.\<close>

lemma composite_ok:
  assumes turn: "composite turn mk"
    and mk: "\<And>ws res. pipe_ok (mk ws res) \<longleftrightarrow> (\<forall>i v. hm_get res i = Some v \<longrightarrow> snd v < length ws) \<and> list_all wrapped_ok ws"
      "\<And>ws res. recovery_layout (mk ws res) J P = lj_composite J n v (map (\<lambda>w. wrapped_layout w J P) ws)"
    and children: "\<And>w r w'. w \<in> set ws \<Longrightarrow> ran_as (run_wrapped w P) r w' \<Longrightarrow> result_ok r \<and> keeps J P w w'"
    and run: "turn (zip ws (map (\<lambda>w. run_wrapped w P) ws)) res x t = (r, p, x', t')"
  shows "result_ok r \<and> (pipe_ok (mk ws res) \<longrightarrow> pipe_ok p) \<and> recovery_layout p J P = recovery_layout (mk ws res) J P"
proof -
  let ?zs = "zip ws (map (\<lambda>w. run_wrapped w P) ws)"
  obtain ws' res' where p: "p = mk ws' res'" "length ws' = length ?zs"
    and each: "\<forall>j<length ?zs. ws' ! j = fst (?zs ! j) \<or> (\<exists>r. ran_as (snd (?zs ! j)) r (ws' ! j))"
    and r: "(\<exists>b m n. r = result_new b True m n) \<or> (\<exists>j<length ?zs. ran_as (snd (?zs ! j)) r (ws' ! j))"
    and res': "\<forall>i v. hm_get res' i = Some v \<longrightarrow> hm_get res i = Some v \<or> snd v < length ?zs"
    using composite.turn_children [OF turn run] by blast
  have child: "ran_as (run_wrapped (ws ! j) P) r (ws' ! j) \<Longrightarrow> result_ok r \<and> keeps J P (ws ! j) (ws' ! j)" if "j < length ws" for r j
    using that children [of "ws ! j"] by simp
  have same: "keeps J P (ws ! j) (ws' ! j)" if "j < length ws" for j
    using that each child by (auto simp: keeps_def)
  have "result_ok r" using r child by (auto simp: result_ok_new)
  moreover have "map (\<lambda>w. wrapped_layout w J P) ws' = map (\<lambda>w. wrapped_layout w J P) ws"
    using same p(2) by (auto simp: keeps_def intro!: nth_equalityI)
  moreover have "list_all wrapped_ok ws \<longrightarrow> list_all wrapped_ok ws'"
    using same p(2) by (auto simp: keeps_def list_all_length)
  moreover have "snd v < length ws" if "\<forall>i v. hm_get res i = Some v \<longrightarrow> snd v < length ws" "hm_get res' i = Some v" for i v
    using res' that by (metis length_map length_zip min.idem)
  ultimately show ?thesis using p by (auto simp: mk)
qed

lemma run_ok:
  assumes leaves: "leaves_ok P"
  shows "run_pipe p P x t = (r, p', x', t') \<Longrightarrow>
      result_ok r \<and> (pipe_ok p \<longrightarrow> pipe_ok p') \<and> recovery_layout p' J P = recovery_layout p J P"
    and "ran_as (run_wrapped w P) r w' \<Longrightarrow> result_ok r \<and> keeps J P w w'"
proof (induction p and w arbitrary: x t r p' x' t' and r w')
  case (Leaf l)
  obtain r1 l1 x1 t1 where "po_run P l x t = (r1, l1, x1, t1)" using prod_cases4 by blast
  moreover from this leaves have "result_ok r1 \<and> po_name P l1 = po_name P l \<and> po_version P l1 = po_version P l"
    unfolding leaves_ok_def by blast
  ultimately show ?case using Leaf by auto
next
  case (AndPipe ws res)
  show ?case
    by (rule composite_ok [OF and_pipe.composite_axioms, where n = "''AndPipe''" and v = "''1.0''"])
      (use AndPipe in \<open>auto simp: list.pred_map comp_def\<close>)
next
  case (OrPipe ws res)
  show ?case
    by (rule composite_ok [OF or_pipe.composite_axioms, where n = "''OrPipe''" and v = "''1.0''"])
      (use OrPipe in \<open>auto simp: list.pred_map comp_def\<close>)
next
  case (Wrapped inner c runs passed)
  obtain x t x2 t2 where eq: "run_wrapped (Wrapped inner c runs passed) P x t = (r, w', x2, t2)"
    using Wrapped.prems by (auto simp: ran_as_def)
  obtain r1 inner' x1 t1 where run: "run_pipe inner P x t = (r1, inner', x1, t1)" using prod_cases4 by blast
  then show ?case using Wrapped.IH [OF run] eq by (auto simp: keeps_def)
qed

text \<open>(\<open>AndPipe::run\<close>, \<open>OrPipe::run\<close>, \<open>InsightPipeResult\<close>) However composites are nested, a
  run of a well-formed pipe gives a well-formed result (one that passed succeeded; a deferred one neither passed nor failed)
  and a well-formed pipe (every saved index points at a child) of the same recovery layout.\<close>

theorem pipe_run_well_formed:
  assumes "leaves_ok P" and "pipe_ok p" and "run_pipe p P x t = (r, p', x', t')"
  shows "result_ok r \<and> pipe_ok p' \<and> recovery_layout p' J P = recovery_layout p J P"
  using run_ok(1) [OF assms(1,3)] assms(2) by blast

text \<open>A writer for the examples: every character is escaped, every text and every array has its own end mark.\<close>

fun sample_text :: "string \<Rightarrow> string" where
  "sample_text [] = '',''"
| "sample_text (c # s) = CHR ''.'' # c # sample_text s"

fun sample_array :: "string list \<Rightarrow> string" where
  "sample_array [] = '']''"
| "sample_array (l # ls) = CHR ''+'' # sample_text l @ sample_array ls"

definition sample_names :: "string list option \<Rightarrow> string" where
  "sample_names names = (case names of None \<Rightarrow> ''n'' | Some ls \<Rightarrow> CHR ''s'' # sample_array ls)"

definition sample_state :: "InsightState \<Rightarrow> string" where
  "sample_state state = (case state of StNew \<Rightarrow> ''N'' | StExecuted \<Rightarrow> ''E'' | StFilled \<Rightarrow> ''F'' | StClosed \<Rightarrow> ''C''
     | StCancelled \<Rightarrow> ''X'' | StRejected \<Rightarrow> ''R'')"

definition sample_scope :: "InsightPipeScope \<Rightarrow> string" where
  "sample_scope c = (case c of ParentOnly \<Rightarrow> ''P'' | ChildOnly \<Rightarrow> ''C'' | BothScopes \<Rightarrow> ''B'')"

definition sample_json :: LayoutJson where
  "sample_json = \<lparr>lj_composite = (\<lambda>n v ls. CHR ''['' # sample_text n @ sample_text v @ sample_array ls),
     lj_wrapped = (\<lambda>l s a f g c. CHR ''['' # sample_text l @ sample_state s @ (if a then ''1'' else ''0'') @ sample_names f
        @ sample_names g @ sample_scope c)\<rparr>"

lemma sample_text_inj [simp]: "sample_text s @ r = sample_text s' @ r' \<longleftrightarrow> s = s' \<and> r = r'"
proof (induction s arbitrary: s')
  case Nil
  then show ?case by (cases s') auto
next
  case (Cons c s)
  then show ?case by (cases s') auto
qed

lemma sample_array_append: "sample_array ls @ r = sample_array ls' @ r' \<longleftrightarrow> ls = ls' \<and> r = r'"
proof (induction ls arbitrary: ls')
  case Nil
  then show ?case by (cases ls') auto
next
  case (Cons l ls)
  then show ?case by (cases ls') auto
qed

lemma sample_array_inj: "sample_array ls = sample_array ls' \<longleftrightarrow> ls = ls'"
  using sample_array_append [of ls "[]" ls' "[]"] by simp

lemma sample_names_append: "sample_names f @ r = sample_names f' @ r' \<longleftrightarrow> f = f' \<and> r = r'"
  by (cases f; cases f') (simp_all add: sample_names_def sample_array_append)

lemma sample_state_append: "sample_state s @ r = sample_state s' @ r' \<longleftrightarrow> s = s' \<and> r = r'"
  by (cases s; cases s') (simp_all add: sample_state_def)

lemma sample_scope_inj: "sample_scope c = sample_scope c' \<longleftrightarrow> c = c'"
  by (cases c; cases c') (simp_all add: sample_scope_def)

lemma sample_json_laws: "layout_laws sample_json"
  by (simp add: layout_laws_def sample_json_def sample_array_inj sample_names_append sample_state_append sample_scope_inj)

text \<open>Leaves for the examples: the first field is the result, the second counts the runs.\<close>

definition sample_pipes :: "(InsightPipeResult \<times> nat, 'x) PipeOps" where
  "sample_pipes = \<lparr>po_name = (\<lambda>l. ''Sample''), po_version = (\<lambda>l. ''1.0''), po_controls_expiration = (\<lambda>l. False),
     po_run = (\<lambda>(r, n) x t. (if result_ok r then r else result_new False False None ''Sample'', (r, n + 1), x, t))\<rparr>"

definition sample_child :: "InsightPipeResult \<Rightarrow> (InsightPipeResult \<times> nat) Wrapped" where
  "sample_child r = builder_build (Leaf (r, 0)) (builder_config\<lparr>pcf_scope := BothScopes\<rparr>)"

definition sample_and :: "(InsightPipeResult \<times> nat) Pipe" where
  "sample_and = AndPipe [sample_child (result_new True True None ''Sample''), sample_child (result_deferred DeferAccount ''Sample'')] []"

lemma sample_leaves: "leaves_ok sample_pipes"
  by (auto simp: leaves_ok_def sample_pipes_def result_ok_new)

theorem pipe_run_well_formed_witness:
  "\<exists>r p' x' t'. run_pipe sample_and sample_pipes (0::nat) (Tree (sample_row ''i'' StNew) [] []) = (r, p', x', t')
    \<and> result_ok r \<and> pipe_ok p' \<and> recovery_layout p' sample_json (sample_pipes :: (InsightPipeResult \<times> nat, nat) PipeOps)
      = recovery_layout sample_and sample_json (sample_pipes :: (InsightPipeResult \<times> nat, nat) PipeOps)"
proof -
  obtain r p' x' t' where run: "run_pipe sample_and sample_pipes (0::nat) (Tree (sample_row ''i'' StNew) [] []) = (r, p', x', t')"
    using prod_cases4 by blast
  have "pipe_ok sample_and" by (simp add: sample_and_def sample_child_def builder_build_def)
  from pipe_run_well_formed [OF sample_leaves this run] run show ?thesis by blast
qed

section \<open>Suspension\<close>

text \<open>C20: (\<open>AndPipe::run\<close>, \<open>OrPipe::run\<close>) A composite whose turn is deferred records the state the turn started in and
  the child that deferred; that child is not before the one it was resumed at, the children before the resumption and
  after the deferral are untouched, and a turn in the same state starts at it again.  A turn that is not deferred leaves no
  continuation.  Continuations of other insights are kept.\<close>

theorem composite_suspends_and_resumes:
  assumes "mk = AndPipe \<or> mk = OrPipe" and "run_pipe (mk ws res) P x t = (r, p, x', t')"
  shows "\<exists>ws' res'. p = mk ws' res' \<and> length ws' = length ws
    \<and> (\<forall>j<resume_index res (insight_id t) (tree_state t). j < length ws \<longrightarrow> ws' ! j = ws ! j)
    \<and> (\<forall>i. i \<noteq> insight_id t \<longrightarrow> hm_get res' i = hm_get res i)
    \<and> (if pr_deferred r = None then hm_get res' (insight_id t) = None
       else \<exists>k<length ws. resume_index res (insight_id t) (tree_state t) \<le> k
          \<and> resume_index res' (insight_id t) (tree_state t) = k \<and> hm_get res' (insight_id t) = Some (tree_state t, k)
          \<and> ran_as (run_wrapped (ws ! k) P) r (ws' ! k)
          \<and> (\<forall>j<length ws. k < j \<longrightarrow> ws' ! j = ws ! j))"
proof -
  let ?zs = "zip ws (map (\<lambda>w. run_wrapped w P) ws)" and ?st = "resume_index res (insight_id t) (tree_state t)"
  have "\<exists>ws' res'. p = mk ws' res' \<and> length ws' = length ?zs
    \<and> (\<forall>j<length ?zs. j < ?st \<longrightarrow> ws' ! j = fst (?zs ! j))
    \<and> (\<forall>j. j \<noteq> insight_id t \<longrightarrow> hm_get res' j = hm_get res j)
    \<and> (case pr_deferred r of None \<Rightarrow> hm_get res' (insight_id t) = None
       | Some _ \<Rightarrow> \<exists>k<length ?zs. ?st \<le> k \<and> hm_get res' (insight_id t) = Some (tree_state t, k)
           \<and> ran_as (snd (?zs ! k)) r (ws' ! k) \<and> (\<forall>j<length ?zs. k < j \<longrightarrow> ws' ! j = fst (?zs ! j)))"
    using assms(1)
  proof
    assume "mk = AndPipe"
    then show ?thesis using assms(2) and_pipe.turn_suspends [of ?zs res x t r p x' t'] by (simp add: comp_def)
  next
    assume "mk = OrPipe"
    then show ?thesis using assms(2) or_pipe.turn_suspends [of "pipe_name P" ?zs res x t r p x' t'] by (simp add: comp_def)
  qed
  then obtain ws' res' where *: "p = mk ws' res'" "length ws' = length ?zs" "\<forall>j<length ?zs. j < ?st \<longrightarrow> ws' ! j = fst (?zs ! j)"
    "\<forall>j. j \<noteq> insight_id t \<longrightarrow> hm_get res' j = hm_get res j"
    "case pr_deferred r of None \<Rightarrow> hm_get res' (insight_id t) = None
       | Some _ \<Rightarrow> \<exists>k<length ?zs. ?st \<le> k \<and> hm_get res' (insight_id t) = Some (tree_state t, k)
           \<and> ran_as (snd (?zs ! k)) r (ws' ! k) \<and> (\<forall>j<length ?zs. k < j \<longrightarrow> ws' ! j = fst (?zs ! j))"
    by blast
  show ?thesis
    by (rule exI [of _ ws'], rule exI [of _ res'])
      (use * in \<open>auto simp: resume_index_def split: option.splits\<close>)
qed

theorem composite_suspends_and_resumes_witness:
  "\<exists>ws' res' k. fst (snd (run_pipe sample_and sample_pipes (0::nat) (Tree (sample_row ''i'' StNew) [] []))) = AndPipe ws' res'
     \<and> hm_get res' ''i'' = Some (StNew, k)"
proof -
  let ?t = "Tree (sample_row ''i'' StNew) [] []"
  define run where "run = run_pipe sample_and sample_pipes (0::nat) ?t"
  have eq: "run_pipe sample_and sample_pipes (0::nat) ?t = (fst run, fst (snd run), fst (snd (snd run)), snd (snd (snd run)))"
    by (simp add: run_def)
  have r: "pr_deferred (fst run) = Some DeferAccount" 
    by (simp add: run_def sample_and_def sample_child_def sample_pipes_def builder_build_def builder_config_def and_turn_def Let_def
      should_run_def matches_asset_and_alpha_def scope_allows_def resume_index_def result_new_def result_deferred_def result_ok_def)
  have t: "insight_id ?t = ''i''" "tree_state ?t = StNew" by (simp_all add: insight_id_def tree_state_def sample_row_def insight_default_def)
  note result = composite_suspends_and_resumes [OF disjI1 [OF refl] eq [unfolded sample_and_def], unfolded t]
  have "\<not> pr_deferred (fst run) = None" using r by simp
  then have "\<exists>ws' res' k. fst (snd run) = AndPipe ws' res' \<and> hm_get res' ''i'' = Some (StNew, k)"
    using result by (simp only: if_False simp_thms) blast
  then show ?thesis by (simp only: run_def)
qed

section \<open>Checkpoints\<close>

text \<open>A checkpoint that was restored is the one that is read again; other insights and the layout do not change.\<close>

lemma composite_restore_read:
  assumes mk: "\<And>ws res. execution_checkpoint (mk ws res) = composite_checkpoint (map wrapped_checkpoint ws) res"
      "\<And>ws res. recovery_layout (mk ws res) J P = lj_composite J n v (map (\<lambda>w. wrapped_layout w J P) ws)"
    and children: "\<And>w ck w'. w \<in> set ws \<Longrightarrow> wrapped_restore w i ck = Inr w' \<Longrightarrow> wrapped_checkpoint w' i = ck
      \<and> (\<forall>j. j \<noteq> i \<longrightarrow> wrapped_checkpoint w' j = wrapped_checkpoint w j) \<and> wrapped_layout w' J P = wrapped_layout w J P"
    and run: "composite_restore mk ws (map wrapped_restore ws) res i ck = Inr p'"
  shows "execution_checkpoint p' i = ck \<and> (\<forall>j. j \<noteq> i \<longrightarrow> execution_checkpoint p' j = execution_checkpoint (mk ws res) j)
    \<and> recovery_layout p' J P = recovery_layout (mk ws res) J P"
proof (cases ck)
  case None
  then show ?thesis using run by (auto simp: composite_restore_def mk composite_checkpoint_def)
next
  case (Some c)
  obtain state index nested where c: "c = Checkpoint state index nested" by (cases c)
  obtain w' where w': "index < length ws" "wrapped_restore (ws ! index) i nested = Inr w'"
    and p': "p' = mk (ws[index := w']) (hm_insert i (state, index) res)"
    using run Some c by (auto simp: composite_restore_def not_le split: if_splits sum.splits)
  have child: "wrapped_checkpoint w' i = nested" "\<And>j. j \<noteq> i \<Longrightarrow> wrapped_checkpoint w' j = wrapped_checkpoint (ws ! index) j"
    "wrapped_layout w' J P = wrapped_layout (ws ! index) J P" using children [of "ws ! index" nested w'] w' by auto
  have "wrapped_checkpoint (ws[index := w'] ! k) j = wrapped_checkpoint (ws ! k) j" if "j \<noteq> i" for j k
    using child(2) [OF that] w'(1) by (cases "k = index") auto
  then have "execution_checkpoint p' j = execution_checkpoint (mk ws res) j" if "j \<noteq> i" for j
    using that by (auto simp: p' mk composite_checkpoint_def split: option.splits)
  moreover have "map (\<lambda>w. wrapped_layout w J P) (ws[index := w']) = map (\<lambda>w. wrapped_layout w J P) ws"
    using child(3) w'(1) by (simp add: map_update list_update_same_conv)
  moreover have "execution_checkpoint p' i = ck" using w'(1) child(1) by (simp add: p' mk composite_checkpoint_def Some c)
  ultimately show ?thesis by (auto simp: p' mk)
qed

lemma restore_read:
  shows "restore_checkpoint p i ck = Inr p' \<Longrightarrow> execution_checkpoint p' i = ck
      \<and> (\<forall>j. j \<noteq> i \<longrightarrow> execution_checkpoint p' j = execution_checkpoint p j) \<and> recovery_layout p' J P = recovery_layout p J P"
    and "wrapped_restore w i ck = Inr w' \<Longrightarrow> wrapped_checkpoint w' i = ck
      \<and> (\<forall>j. j \<noteq> i \<longrightarrow> wrapped_checkpoint w' j = wrapped_checkpoint w j) \<and> wrapped_layout w' J P = wrapped_layout w J P"
proof (induction p and w arbitrary: ck p' and ck w')
  case (Leaf l)
  then show ?case by (auto split: if_splits)
next
  case (AndPipe ws res)
  show ?case
    by (rule composite_restore_read [where n = "''AndPipe''" and v = "''1.0''"]) (use AndPipe in \<open>auto simp: comp_def\<close>)
next
  case (OrPipe ws res)
  show ?case
    by (rule composite_restore_read [where n = "''OrPipe''" and v = "''1.0''"]) (use OrPipe in \<open>auto simp: comp_def\<close>)
next
  case (Wrapped inner c runs passed)
  then show ?case by (auto split: sum.splits)
qed

text \<open>A pipe of the same layout accepts the checkpoint.  Names of leaves do not look like an array.\<close>

definition plain_names :: "('p, 'x) PipeOps \<Rightarrow> bool" where
  "plain_names P \<longleftrightarrow> (\<forall>l. take 1 (po_name P l @ ''@'') \<noteq> ''['')"

lemma layout_lawsD:
  assumes "layout_laws J"
  shows "lj_composite J n v ls = lj_composite J n' v' ls' \<Longrightarrow> n = n' \<and> ls = ls'"
    and "lj_wrapped J l s a f g c = lj_wrapped J l' s' a' f' g' c' \<Longrightarrow> l = l'"
    and "take 1 (lj_composite J n v ls) = ''[''"
proof -
  note laws = assms [unfolded layout_laws_def]
  show "lj_composite J n v ls = lj_composite J n' v' ls' \<Longrightarrow> n = n' \<and> ls = ls'"
    using laws [THEN conjunct1, rule_format, of n v ls n' v' ls'] by simp
  show "lj_wrapped J l s a f g c = lj_wrapped J l' s' a' f' g' c' \<Longrightarrow> l = l'"
    using laws [THEN conjunct2, THEN conjunct1, rule_format, of l s a f g c l' s' a' f' g' c'] by simp
  show "take 1 (lj_composite J n v ls) = ''[''" using laws [THEN conjunct2, THEN conjunct2] by simp
qed

lemma leaf_layout:
  assumes "layout_laws J" "plain_names P"
  shows "po_name P l @ ''@'' @ po_version P l \<noteq> lj_composite J n v ls"
proof
  assume eq: "po_name P l @ ''@'' @ po_version P l = lj_composite J n v ls"
  have "take 1 (po_name P l @ ''@'' @ po_version P l) = take 1 (po_name P l @ ''@'')" by (cases "po_name P l") auto
  then have "take 1 (po_name P l @ ''@'') = ''[''" unfolding eq layout_lawsD(3) [OF assms(1)] by simp
  then show False using assms(2) unfolding plain_names_def by blast
qed

lemma composite_layout:
  assumes laws: "layout_laws J" "plain_names P" and eq: "lj_composite J n ''1.0'' ls = recovery_layout q J P"
  shows "(\<exists>vs res. q = AndPipe vs res \<and> n = ''AndPipe'' \<and> ls = map (\<lambda>w. wrapped_layout w J P) vs)
    \<or> (\<exists>vs res. q = OrPipe vs res \<and> n = ''OrPipe'' \<and> ls = map (\<lambda>w. wrapped_layout w J P) vs)"
proof (cases q)
  case (Leaf l)
  then show ?thesis using eq leaf_layout [OF laws, of l n "''1.0''" ls] by simp
next
  case (AndPipe vs res)
  then have "lj_composite J n ''1.0'' ls = lj_composite J ''AndPipe'' ''1.0'' (map (\<lambda>w. wrapped_layout w J P) vs)"
    using eq by (simp add: comp_def)
  from layout_lawsD(1) [OF laws(1) this] show ?thesis using AndPipe by blast
next
  case (OrPipe vs res)
  then have "lj_composite J n ''1.0'' ls = lj_composite J ''OrPipe'' ''1.0'' (map (\<lambda>w. wrapped_layout w J P) vs)"
    using eq by (simp add: comp_def)
  from layout_lawsD(1) [OF laws(1) this] show ?thesis using OrPipe by blast
qed

lemma composite_restore_total:
  assumes ck: "composite_checkpoint (map wrapped_checkpoint ws) res i = ck"
    and layout: "map (\<lambda>w. wrapped_layout w J P) ws = map (\<lambda>w. wrapped_layout w J P) vs"
    and children: "\<And>w v. w \<in> set ws \<Longrightarrow> wrapped_layout w J P = wrapped_layout v J P \<Longrightarrow>
      \<exists>v'. wrapped_restore v i (wrapped_checkpoint w i) = Inr v'"
  shows "\<exists>p'. composite_restore mk vs (map wrapped_restore vs) res' i ck = Inr p'"
proof (cases ck)
  case None
  then show ?thesis by (simp add: composite_restore_def)
next
  case (Some c)
  then obtain state index where c: "c = Checkpoint state index (wrapped_checkpoint (ws ! index) i)" "index < length ws"
    using ck by (auto simp: composite_checkpoint_def split: option.splits if_splits)
  have len: "length ws = length vs" using layout by (metis length_map)
  have "wrapped_layout (ws ! index) J P = wrapped_layout (vs ! index) J P"
    using arg_cong [OF layout, of "\<lambda>l. l ! index"] c(2) len by simp
  then obtain v' where "wrapped_restore (vs ! index) i (wrapped_checkpoint (ws ! index) i) = Inr v'"
    using children [of "ws ! index" "vs ! index"] c(2) by auto
  then show ?thesis using Some c len by (simp add: composite_restore_def)
qed

lemma restore_total:
  assumes laws: "layout_laws J" "plain_names P"
  shows "recovery_layout p J P = recovery_layout q J P \<Longrightarrow> \<exists>q'. restore_checkpoint q i (execution_checkpoint p i) = Inr q'"
    and "wrapped_layout w J P = wrapped_layout v J P \<Longrightarrow> \<exists>v'. wrapped_restore v i (wrapped_checkpoint w i) = Inr v'"
proof (induction p and w arbitrary: q and v)
  case (Leaf l)
  have "\<exists>l'. q = Leaf l'"
  proof (cases q)
    case (AndPipe vs res)
    then show ?thesis using Leaf leaf_layout [OF laws, of l "''AndPipe''" "''1.0''" "map (\<lambda>w. wrapped_layout w J P) vs"] by (simp add: comp_def)
  next
    case (OrPipe vs res)
    then show ?thesis using Leaf leaf_layout [OF laws, of l "''OrPipe''" "''1.0''" "map (\<lambda>w. wrapped_layout w J P) vs"] by (simp add: comp_def)
  qed simp
  then show ?case by auto
next
  case (AndPipe ws res)
  have "lj_composite J ''AndPipe'' ''1.0'' (map (\<lambda>w. wrapped_layout w J P) ws) = recovery_layout q J P"
    using AndPipe.prems by (simp add: comp_def)
  from composite_layout [OF laws this]
  obtain vs res' where q: "q = AndPipe vs res'" "map (\<lambda>w. wrapped_layout w J P) ws = map (\<lambda>w. wrapped_layout w J P) vs" by auto
  show ?case using composite_restore_total [OF refl q(2), of i AndPipe] AndPipe.IH by (auto simp: q(1))
next
  case (OrPipe ws res)
  have "lj_composite J ''OrPipe'' ''1.0'' (map (\<lambda>w. wrapped_layout w J P) ws) = recovery_layout q J P"
    using OrPipe.prems by (simp add: comp_def)
  from composite_layout [OF laws this]
  obtain vs res' where q: "q = OrPipe vs res'" "map (\<lambda>w. wrapped_layout w J P) ws = map (\<lambda>w. wrapped_layout w J P) vs" by auto
  show ?case using composite_restore_total [OF refl q(2), of i OrPipe] OrPipe.IH by (auto simp: q(1))
next
  case (Wrapped inner c runs passed)
  obtain inner' c' runs' passed' where v: "v = Wrapped inner' c' runs' passed'" by (cases v)
  have "recovery_layout inner J P = recovery_layout inner' J P"
    using Wrapped.prems unfolding v wrapped_layout.simps by (rule layout_lawsD(2) [OF laws(1)])
  from Wrapped.IH [OF this] show ?case by (auto simp: v)
qed

end
