(* ===== verification/SnapshotDependencies.thy ===== *)
theory SnapshotDependencies
  imports Pipeline
begin

text \<open>
  The reverse index from a snapshot to the insights that wait for it
  (\<open>src/src/core/strategy/snapshot_dependencies.rs\<close>).  Each group walks its members in the order of their
  ids, page by page; a cursor survives the pages and the arrival of new members or new revisions.

  A call that would panic is \<open>None\<close>.  The lemmas show that a member that is owed a resumption stays owed until
  it gets it, whatever is updated, removed or refreshed in between, and that repeated calls hand out all of
  them.
\<close>

section \<open>Ordered keys\<close>

text \<open>The derived order of \<open>SnapshotKind\<close>: by variant, then by symbol.\<close>

instantiation SnapshotKind :: linorder
begin

definition less_eq_SnapshotKind :: "SnapshotKind \<Rightarrow> SnapshotKind \<Rightarrow> bool" where
  "less_eq_SnapshotKind a b = (case (a, b) of
       (AccountSnapshot, _) \<Rightarrow> True | (_, AccountSnapshot) \<Rightarrow> False
     | (PositionsSnapshot, _) \<Rightarrow> True | (_, PositionsSnapshot) \<Rightarrow> False
     | (QuoteSnapshot s, QuoteSnapshot t) \<Rightarrow> s \<le> t)"

definition less_SnapshotKind :: "SnapshotKind \<Rightarrow> SnapshotKind \<Rightarrow> bool" where
  "less_SnapshotKind a b = (a \<le> b \<and> \<not> b \<le> a)"

instance
  by standard (auto simp: less_eq_SnapshotKind_def less_SnapshotKind_def split: SnapshotKind.splits)

end

text \<open>A \<open>BTreeMap\<close> is an association list with increasing keys; it meets the contract of the maps.\<close>

definition bm_ok :: "('k::linorder \<times> 'v) list \<Rightarrow> bool" where
  "bm_ok m \<longleftrightarrow> bt_ok (map fst m)"

lemma bm_get_insert: "hm_get (bm_insert k v m) k' = (if k' = k then Some v else hm_get m k')"
  by (simp add: hm_get_def map_of_bm_insert)

lemma bm_ok_insert: "bm_ok m \<Longrightarrow> bm_ok (bm_insert k v m)"
  by (simp add: bm_ok_def bm_insert_def map_fst_modify map_fst_insort bt_ok_def sorted_insort distinct_insort)

interpretation bm: hash_map hm_get bm_insert hm_remove hm_modify bm_ok
proof unfold_locales
  fix m :: "('a \<times> 'b) list" and k f
  have "map fst (hm_remove k m) = filter (\<lambda>x. x \<noteq> k) (map fst m)"
    by (induction m) (auto simp: hm_remove_def AList.delete_eq)
  then show "bm_ok m \<Longrightarrow> bm_ok (hm_remove k m)" by (simp add: bm_ok_def bt_ok_filter)
  show "bm_ok m \<Longrightarrow> bm_ok (hm_modify k f m)" by (simp add: bm_ok_def map_fst_modify)
qed (simp_all add: bm_get_insert bm_ok_insert)

lemmas bm_simps [simp] = bm.get_ins

section \<open>Data\<close>

record SnapshotReadRevision =
  srr_cache_id :: uuid
  srr_generation :: nat
  srr_membership :: nat
  srr_version :: nat

record Group =
  gr_ids :: "uuid list"
  gr_revision :: "SnapshotReadRevision option"
  gr_after :: "uuid option"
  gr_upper :: "uuid option"
  gr_active :: bool
  gr_rerun :: bool

definition group_default :: Group where
  "group_default = \<lparr>gr_ids = [], gr_revision = None, gr_after = None, gr_upper = None, gr_active = False, gr_rerun = False\<rparr>"

record SnapshotDependencies =
  sd_groups :: "(SnapshotKind \<times> Group) list"
  sd_owners :: "(uuid, SnapshotKind) hmap"
  sd_last_topic :: "SnapshotKind option"

definition deps_default :: SnapshotDependencies where
  "deps_default = \<lparr>sd_groups = [], sd_owners = [], sd_last_topic = None\<rparr>"

definition dependency_kind :: "InsightPipeDeferral \<Rightarrow> SnapshotKind option" where
  "dependency_kind d = (case d of DeferAccount \<Rightarrow> Some AccountSnapshot | DeferPositions \<Rightarrow> Some PositionsSnapshot
     | DeferQuote symbol \<Rightarrow> Some (QuoteSnapshot symbol) | _ \<Rightarrow> None)"

section \<open>Operations\<close>

definition deps_remove :: "uuid \<Rightarrow> SnapshotDependencies \<Rightarrow> SnapshotDependencies" where
  "deps_remove i s = (case hm_get (sd_owners s) i of None \<Rightarrow> s
     | Some kind \<Rightarrow>
        let s = s\<lparr>sd_owners := hm_remove i (sd_owners s)\<rparr> in
        (case hm_get (sd_groups s) kind of None \<Rightarrow> s
         | Some g \<Rightarrow>
            let g = g\<lparr>gr_ids := bt_remove i (gr_ids g)\<rparr> in
            if gr_ids g = [] then s\<lparr>sd_groups := hm_remove kind (sd_groups s)\<rparr>
            else s\<lparr>sd_groups := hm_modify kind (\<lambda>_. g) (sd_groups s)\<rparr>))"

text \<open>A new member starts an idle walk; one the walk has already passed asks for another.\<close>

definition group_join :: "uuid \<Rightarrow> Group \<Rightarrow> Group" where
  "group_join i g = (let g = g\<lparr>gr_ids := bt_insert i (gr_ids g)\<rparr> in
     if gr_active g
     then if (case gr_after g of None \<Rightarrow> False | Some after \<Rightarrow> i \<le> after)
             \<or> (case gr_upper g of None \<Rightarrow> False | Some upper \<Rightarrow> upper < i)
          then g\<lparr>gr_rerun := True\<rparr> else g
     else g\<lparr>gr_active := True, gr_after := None, gr_upper := None\<rparr>)"

definition deps_update :: "uuid \<Rightarrow> InsightPipeDeferral option \<Rightarrow> SnapshotDependencies \<Rightarrow> bool \<times> SnapshotDependencies" where
  "deps_update i dependency s =
     (let kind = Option.bind dependency dependency_kind in
      if hm_get (sd_owners s) i = kind then (False, s)
      else let s = deps_remove i s in
        case kind of None \<Rightarrow> (False, s)
        | Some kind \<Rightarrow>
            (True, s\<lparr>sd_owners := hm_insert i kind (sd_owners s),
                     sd_groups := bm_insert kind (group_join i (unwrap_or (hm_get (sd_groups s) kind) group_default))
                                    (sd_groups s)\<rparr>))"

definition topics :: "SnapshotDependencies \<Rightarrow> SnapshotKind list" where
  "topics s = (let ts = hm_keys (sd_groups s) in
     case sd_last_topic s of None \<Rightarrow> ts
     | Some l \<Rightarrow> rotate (length (takeWhile (\<lambda>key. key \<le> l) ts)) ts)"

text \<open>A revision not seen yet starts the walk over, or asks for another after the one under way.\<close>

definition group_refresh :: "SnapshotReadRevision \<Rightarrow> Group \<Rightarrow> Group" where
  "group_refresh revision g = (if gr_revision g = Some revision then g
     else let g = g\<lparr>gr_revision := Some revision\<rparr> in
       if gr_active g \<and> gr_after g \<noteq> None then g\<lparr>gr_rerun := True\<rparr>
       else g\<lparr>gr_active := True, gr_after := None, gr_upper := None\<rparr>)"

definition group_upper :: "Group \<Rightarrow> uuid option" where
  "group_upper g = (case gr_upper g of Some u \<Rightarrow> Some u | None \<Rightarrow> bt_last (gr_ids g))"

definition walk_rest :: "uuid option \<Rightarrow> uuid \<Rightarrow> uuid list \<Rightarrow> uuid list" where
  "walk_rest after upper ids =
     (if (case after of None \<Rightarrow> False | Some i \<Rightarrow> upper \<le> i) then [] else bt_range after upper ids)"

function group_walk :: "Group \<Rightarrow> (uuid option \<times> Group) option" where
  "group_walk g =
     (if \<not> gr_active g then Some (None, g)
      else case group_upper g of None \<Rightarrow> None
      | Some upper \<Rightarrow>
          let g = g\<lparr>gr_upper := Some upper\<rparr> in
          case walk_rest (gr_after g) upper (gr_ids g) of
            i # _ \<Rightarrow> Some (Some i, g\<lparr>gr_after := Some i\<rparr>)
          | [] \<Rightarrow> if gr_rerun g then group_walk (g\<lparr>gr_rerun := False, gr_after := None, gr_upper := None\<rparr>)
                  else Some (None, g\<lparr>gr_active := False\<rparr>))"
  by pat_completeness auto
termination by (relation "measure (\<lambda>g. if gr_rerun g then 1 else 0)") auto

declare group_walk.simps [simp del]

definition deps_next :: "SnapshotKind \<Rightarrow> SnapshotReadRevision \<Rightarrow> SnapshotDependencies \<Rightarrow> (uuid option \<times> SnapshotDependencies) option" where
  "deps_next kind revision s =
     (let s = s\<lparr>sd_last_topic := Some kind\<rparr> in
      case hm_get (sd_groups s) kind of None \<Rightarrow> Some (None, s)
      | Some g \<Rightarrow> (case group_walk (group_refresh revision g) of None \<Rightarrow> None
          | Some (r, g) \<Rightarrow> Some (r, s\<lparr>sd_groups := hm_modify kind (\<lambda>_. g) (sd_groups s)\<rparr>)))"

section \<open>One group\<close>

text \<open>The members of the walk under way, and what a member is owed.\<close>

definition ahead :: "Group \<Rightarrow> uuid \<Rightarrow> bool" where
  "ahead g i \<longleftrightarrow> past (gr_after g) i \<and> (case gr_upper g of None \<Rightarrow> True | Some u \<Rightarrow> i \<le> u)"

definition owed :: "Group \<Rightarrow> uuid \<Rightarrow> bool" where
  "owed g i \<longleftrightarrow> i \<in> set (gr_ids g) \<and> gr_active g \<and> (gr_rerun g \<or> ahead g i)"

definition group_ok :: "Group \<Rightarrow> bool" where
  "group_ok g \<longleftrightarrow> bt_ok (gr_ids g) \<and> gr_ids g \<noteq> [] \<and> (gr_after g = None \<longleftrightarrow> gr_upper g = None) \<and> (gr_rerun g \<longrightarrow> gr_active g)"

definition backlog :: "Group \<Rightarrow> nat" where
  "backlog g = (if gr_active g then length (filter (ahead g) (gr_ids g)) + (if gr_rerun g then length (gr_ids g) else 0) else 0)"

text \<open>What one call does to the group: the result and the group before and after.\<close>

definition walk_step :: "Group \<Rightarrow> uuid option \<Rightarrow> Group \<Rightarrow> bool" where
  "walk_step g r g' \<longleftrightarrow> group_ok g' \<and> gr_ids g' = gr_ids g \<and> gr_revision g' = gr_revision g
     \<and> (case r of None \<Rightarrow> \<not> gr_active g' \<and> (\<forall>i. \<not> owed g i)
        | Some i \<Rightarrow> owed g i \<and> backlog g' < backlog g \<and> (\<forall>j. owed g j \<longrightarrow> j = i \<or> owed g' j))"

lemma group_upper_Some: "group_ok g \<Longrightarrow> \<exists>u. group_upper g = Some u"
  by (cases "bt_last (gr_ids g)") (auto simp: group_upper_def group_ok_def split: option.split)

lemma range_ahead:
  assumes "group_ok g" "group_upper g = Some u"
  shows "walk_rest (gr_after g) u (gr_ids g) = filter (ahead g) (gr_ids g)"
proof (cases "gr_upper g")
  case None
  then have "bt_last (gr_ids g) = Some u" "gr_after g = None" using assms by (auto simp: group_upper_def group_ok_def)
  then show ?thesis
    using None assms(1) bt_last_max by (fastforce simp: walk_rest_def bt_range_def ahead_def group_ok_def intro!: filter_cong)
next
  case (Some v)
  then have "v = u" using assms(2) by (simp add: group_upper_def)
  moreover have "filter (ahead g) (gr_ids g) = []" if "gr_after g = Some i" "u \<le> i" for i
    using that Some \<open>v = u\<close> by (auto simp: ahead_def past_def filter_empty_conv)
  ultimately show ?thesis using Some
    by (auto simp: walk_rest_def bt_range_def ahead_def split: option.splits intro!: filter_cong)
qed

lemma group_walk_active:
  assumes ok: "group_ok g" and up: "group_upper g = Some u" and active: "gr_active g"
  shows "group_walk g = (case filter (ahead g) (gr_ids g) of
      i # _ \<Rightarrow> Some (Some i, g\<lparr>gr_upper := Some u, gr_after := Some i\<rparr>)
    | [] \<Rightarrow> if gr_rerun g then group_walk (g\<lparr>gr_rerun := False, gr_after := None, gr_upper := None\<rparr>)
            else Some (None, g\<lparr>gr_upper := Some u, gr_active := False\<rparr>))"
  using range_ahead [OF ok up] up active
  by (cases "filter (ahead g) (gr_ids g)"; subst group_walk.simps) (simp_all add: Let_def)

text \<open>The walk goes on to its next member: only that one is no longer ahead.\<close>

lemma walk_advance:
  assumes ok: "group_ok g" and up: "group_upper g = Some u" and f: "filter (ahead g) (gr_ids g) = i # rest"
  defines "g' \<equiv> g\<lparr>gr_upper := Some u, gr_after := Some i\<rparr>"
  shows "filter (ahead g') (gr_ids g) = rest" "ahead g i" "i \<in> set (gr_ids g)"
proof -
  have mem: "i \<in> set (filter (ahead g) (gr_ids g))" using f by simp
  then show i: "ahead g i" "i \<in> set (gr_ids g)" by simp_all
  have sorted: "bt_ok (i # rest)" using ok f bt_ok_filter [of "gr_ids g" "ahead g"] by (simp add: group_ok_def)
  have le: "j \<le> u" if "j \<in> set (gr_ids g)" "ahead g j" for j
    using that ok up bt_last_max [of "gr_ids g" u j]
    by (auto simp: ahead_def group_upper_def group_ok_def split: option.splits)
  have "filter (ahead g') (gr_ids g) = filter (\<lambda>j. i < j) (filter (ahead g) (gr_ids g))"
    unfolding filter_filter
  proof (rule filter_cong)
    fix j assume j: "j \<in> set (gr_ids g)"
    have "ahead g j" if "i < j" "j \<le> u"
      using that i ok up j bt_last_max [of "gr_ids g" u j]
      by (auto simp: ahead_def past_def group_upper_def group_ok_def split: option.splits)
    then show "ahead g' j = (ahead g j \<and> i < j)"
      using le [OF j] by (auto simp: g'_def ahead_def [of "g\<lparr>gr_upper := Some u, gr_after := Some i\<rparr>"] past_def)
  qed simp
  then show "filter (ahead g') (gr_ids g) = rest"
    using f sorted by (auto simp: bt_ok_Cons filter_id_conv)
qed

lemma group_walk_plain:
  assumes ok: "group_ok g" and rerun: "\<not> gr_rerun g"
  shows "\<exists>r g'. group_walk g = Some (r, g') \<and> walk_step g r g'"
proof (cases "gr_active g")
  case False
  then show ?thesis using ok by (simp add: group_walk.simps [of g] walk_step_def owed_def)
next
  case True
  obtain u where u: "group_upper g = Some u" using group_upper_Some [OF ok] by blast
  note walk_eq = group_walk_active [OF ok u True]
  show ?thesis
  proof (cases "filter (ahead g) (gr_ids g)")
    case Nil
    moreover have "gr_after g \<noteq> None"
    proof
      assume "gr_after g = None"
      then have "filter (ahead g) (gr_ids g) = gr_ids g" using ok by (simp add: ahead_def group_ok_def past_def)
      then show False using Nil ok by (simp add: group_ok_def)
    qed
    ultimately show ?thesis
      using walk_eq ok rerun by (auto simp: walk_step_def owed_def group_ok_def filter_empty_conv)
  next
    case (Cons i rest)
    let ?g = "g\<lparr>gr_upper := Some u, gr_after := Some i\<rparr>"
    note adv = walk_advance [OF ok u Cons]
    have walk: "group_walk g = Some (Some i, ?g)" using walk_eq Cons by simp
    have "owed ?g j" if "owed g j" "j \<noteq> i" for j
    proof -
      have "j \<in> set (filter (ahead g) (gr_ids g))" using that rerun by (simp add: owed_def)
      then have "j \<in> set rest" using Cons that by simp
      then have "j \<in> set (filter (ahead ?g) (gr_ids g))" using adv(1) by simp
      then show ?thesis using True by (simp add: owed_def)
    qed
    moreover have "backlog ?g < backlog g" using True Cons adv(1) rerun by (simp add: backlog_def)
    ultimately have "walk_step g (Some i) ?g"
      using ok adv True by (auto simp: walk_step_def owed_def group_ok_def)
    then show ?thesis using walk by blast
  qed
qed

text \<open>A walk that has to run again: the end of the one under way starts it over.\<close>

lemma group_walk_total:
  assumes ok: "group_ok g"
  shows "\<exists>r g'. group_walk g = Some (r, g') \<and> walk_step g r g'"
proof (cases "gr_rerun g")
  case False
  then show ?thesis using group_walk_plain [OF ok] by blast
next
  case True
  then have active: "gr_active g" using ok by (simp add: group_ok_def)
  obtain u where u: "group_upper g = Some u" using group_upper_Some [OF ok] by blast
  note walk_eq = group_walk_active [OF ok u active]
  show ?thesis
  proof (cases "filter (ahead g) (gr_ids g)")
    case (Cons i rest)
    let ?g = "g\<lparr>gr_upper := Some u, gr_after := Some i\<rparr>"
    note adv = walk_advance [OF ok u Cons]
    have "group_walk g = Some (Some i, ?g)" using walk_eq Cons by simp
    moreover have "walk_step g (Some i) ?g"
      using ok adv active True Cons by (auto simp: walk_step_def owed_def group_ok_def backlog_def)
    ultimately show ?thesis by blast
  next
    case Nil
    let ?h = "g\<lparr>gr_rerun := False, gr_after := None, gr_upper := None\<rparr>"
    have ok': "group_ok ?h" "\<not> gr_rerun ?h" using ok by (simp_all add: group_ok_def)
    obtain r g' where step: "group_walk ?h = Some (r, g')" "walk_step ?h r g'" using group_walk_plain [OF ok'] by blast
    have walk: "group_walk g = Some (r, g')" using walk_eq Nil True step(1) by simp
    have all: "ahead ?h j" for j by (simp add: ahead_def past_def)
    have "backlog ?h = backlog g" using Nil True active by (simp add: backlog_def all)
    moreover have "owed ?h j \<longleftrightarrow> owed g j" for j using True active by (simp add: owed_def all)
    ultimately show ?thesis using walk step(2) by (auto simp: walk_step_def split: option.splits)
  qed
qed

lemma group_join:
  assumes "group_ok g \<or> g = group_default"
  shows "group_ok (group_join i g)" "set (gr_ids (group_join i g)) = insert i (set (gr_ids g))"
    and "owed g j \<Longrightarrow> owed (group_join i g) j" and "i \<notin> set (gr_ids g) \<Longrightarrow> owed (group_join i g) i"
proof -
  have ids: "set (bt_insert i (gr_ids g)) = insert i (set (gr_ids g))" by (rule bt.elems_ins)
  then have "bt_insert i (gr_ids g) \<noteq> []" by auto
  moreover have "bt_ok (bt_insert i (gr_ids g))" using assms by (intro bt.ok_ins) (auto simp: group_ok_def group_default_def)
  ultimately show "group_ok (group_join i g)"
    using assms by (auto simp: group_join_def Let_def group_ok_def group_default_def)
  show "set (gr_ids (group_join i g)) = insert i (set (gr_ids g))" using ids by (simp add: group_join_def Let_def)
  show "owed g j \<Longrightarrow> owed (group_join i g) j" using ids by (auto simp: group_join_def Let_def owed_def ahead_def)
  show "i \<notin> set (gr_ids g) \<Longrightarrow> owed (group_join i g) i"
    using ids by (auto simp: group_join_def Let_def owed_def ahead_def past_def not_le not_less split: option.splits)
qed

lemma group_refresh:
  assumes "group_ok g"
  shows "group_ok (group_refresh r g)" "gr_ids (group_refresh r g) = gr_ids g"
    and "gr_revision (group_refresh r g) = Some r"
    and "owed g j \<Longrightarrow> owed (group_refresh r g) j"
    and "gr_revision g \<noteq> Some r \<Longrightarrow> j \<in> set (gr_ids g) \<Longrightarrow> owed (group_refresh r g) j"
  using assms by (auto simp: group_refresh_def Let_def group_ok_def owed_def ahead_def past_def)

lemma backlog_bound: "backlog g \<le> 2 * length (gr_ids g)"
proof -
  have "length (filter (ahead g) (gr_ids g)) \<le> length (gr_ids g)" by simp
  then show ?thesis unfolding backlog_def by (auto simp del: length_filter_le)
qed

lemma backlog_zero: "group_ok g \<Longrightarrow> backlog g = 0 \<Longrightarrow> \<not> owed g i"
  by (auto simp: backlog_def owed_def group_ok_def filter_empty_conv split: if_splits)

section \<open>The index\<close>

definition deps_ok :: "SnapshotDependencies \<Rightarrow> bool" where
  "deps_ok s \<longleftrightarrow> bm_ok (sd_groups s) \<and> hm_ok (sd_owners s)
     \<and> (\<forall>k g. hm_get (sd_groups s) k = Some g \<longrightarrow> group_ok g \<and> (\<forall>i. i \<in> set (gr_ids g) \<longleftrightarrow> hm_get (sd_owners s) i = Some k))
     \<and> (\<forall>i k. hm_get (sd_owners s) i = Some k \<longrightarrow> hm_get (sd_groups s) k \<noteq> None)"

definition owes :: "SnapshotDependencies \<Rightarrow> SnapshotKind \<Rightarrow> uuid \<Rightarrow> bool" where
  "owes s k i \<longleftrightarrow> (\<exists>g. hm_get (sd_groups s) k = Some g \<and> owed g i)"

lemma deps_ok_default: "deps_ok deps_default"
  by (simp add: deps_ok_def deps_default_def bm_ok_def hm_ok_def)

lemma deps_okD:
  assumes "deps_ok s" "hm_get (sd_groups s) k = Some g"
  shows "group_ok g" "i \<in> set (gr_ids g) \<longleftrightarrow> hm_get (sd_owners s) i = Some k"
  using assms by (auto simp: deps_ok_def)

lemma deps_ok_group: "deps_ok s \<Longrightarrow> hm_get (sd_owners s) i = Some k \<Longrightarrow> \<exists>g. hm_get (sd_groups s) k = Some g \<and> i \<in> set (gr_ids g)"
  unfolding deps_ok_def by fastforce

lemma deps_remove:
  assumes ok: "deps_ok s"
  shows "deps_ok (deps_remove i s)" "hm_get (sd_owners (deps_remove i s)) j = (if j = i then None else hm_get (sd_owners s) j)"
    and "owes s k j \<Longrightarrow> j \<noteq> i \<Longrightarrow> owes (deps_remove i s) k j"
proof -
  have "deps_ok (deps_remove i s) \<and> hm_get (sd_owners (deps_remove i s)) j = (if j = i then None else hm_get (sd_owners s) j)
    \<and> (owes s k j \<longrightarrow> j \<noteq> i \<longrightarrow> owes (deps_remove i s) k j)"
  proof (cases "hm_get (sd_owners s) i")
    case None
    then show ?thesis using ok by (simp add: deps_remove_def)
  next
    case (Some kind)
    then obtain g where g: "hm_get (sd_groups s) kind = Some g" "i \<in> set (gr_ids g)" using deps_ok_group [OF ok] by blast
    note gok = deps_okD(1) [OF ok g(1)]
    let ?ids = "bt_remove i (gr_ids g)"
    have ids: "set ?ids = set (gr_ids g) - {i}" "bt_ok ?ids"
      using gok bt.elems_rem [of "gr_ids g" i] bt.ok_rem [of "gr_ids g" i] by (simp_all add: group_ok_def)
    show ?thesis
    proof (cases "?ids = []")
      case True
      then have only: "set (gr_ids g) = {i}" using ids g(2) by auto
      have eq: "deps_remove i s = s\<lparr>sd_owners := hm_remove i (sd_owners s), sd_groups := hm_remove kind (sd_groups s)\<rparr>"
        using Some g True by (simp add: deps_remove_def Let_def)
      have "\<not> owed g j" if "j \<noteq> i" using only that by (auto simp: owed_def)
      moreover have "deps_ok (deps_remove i s)"
        using ok Some g only unfolding eq deps_ok_def by (auto intro: bm.ok_rem hm.ok_rem)
      ultimately show ?thesis using g by (auto simp: eq owes_def)
    next
      case False
      let ?g = "g\<lparr>gr_ids := ?ids\<rparr>"
      have eq: "deps_remove i s = s\<lparr>sd_owners := hm_remove i (sd_owners s), sd_groups := hm_modify kind (\<lambda>_. ?g) (sd_groups s)\<rparr>"
        using Some g False by (simp add: deps_remove_def Let_def)
      have "group_ok ?g" using gok ids False by (simp add: group_ok_def)
      then have "deps_ok (deps_remove i s)"
        using ok Some g ids unfolding eq deps_ok_def by (auto intro: bm.ok_modify hm.ok_rem)
      moreover have "owed ?g j" if "owed g j" "j \<noteq> i" using that ids by (simp add: owed_def ahead_def)
      ultimately show ?thesis using g by (auto simp: eq owes_def)
    qed
  qed
  then show "deps_ok (deps_remove i s)" "hm_get (sd_owners (deps_remove i s)) j = (if j = i then None else hm_get (sd_owners s) j)"
    and "owes s k j \<Longrightarrow> j \<noteq> i \<Longrightarrow> owes (deps_remove i s) k j" by auto
qed

lemma deps_update:
  assumes ok: "deps_ok s" and upd: "deps_update i dependency s = (changed, s')"
  shows "deps_ok s'" and "owes s k j \<Longrightarrow> j \<noteq> i \<or> Option.bind dependency dependency_kind = Some k \<Longrightarrow> owes s' k j"
    and "changed \<Longrightarrow> \<exists>kind. Option.bind dependency dependency_kind = Some kind \<and> owes s' kind i"
proof -
  let ?kind = "Option.bind dependency dependency_kind" and ?r = "deps_remove i s"
  note r = deps_remove(1,2) [OF ok, of i]
  have keep: "owes ?r k j" if "owes s k j" "j \<noteq> i" using deps_remove(3) [OF ok that(1)] that(2) by blast
  have own: "hm_get (sd_owners s) j = Some k" if "owes s k j"
    using that deps_okD(2) [OF ok] by (auto simp: owes_def owed_def)
  consider (same) "hm_get (sd_owners s) i = ?kind" | (none) "hm_get (sd_owners s) i \<noteq> ?kind" "?kind = None"
    | (some) kind where "hm_get (sd_owners s) i \<noteq> ?kind" "?kind = Some kind" by (cases ?kind) auto
  then have "deps_ok s' \<and> (owes s k j \<longrightarrow> j \<noteq> i \<or> ?kind = Some k \<longrightarrow> owes s' k j)
    \<and> (changed \<longrightarrow> (\<exists>kind. ?kind = Some kind \<and> owes s' kind i))"
  proof cases
    case same
    then show ?thesis using upd ok by (simp add: deps_update_def)
  next
    case none
    then have "s' = ?r" "\<not> changed" using upd by (auto simp: deps_update_def Let_def)
    then show ?thesis using r keep none by auto
  next
    case some
    define old where "old = unwrap_or (hm_get (sd_groups ?r) kind) group_default"
    define g where "g = group_join i old"
    have s': "s' = ?r\<lparr>sd_owners := hm_insert i kind (sd_owners ?r), sd_groups := bm_insert kind g (sd_groups ?r)\<rparr>"
      using upd some by (simp add: deps_update_def Let_def g_def old_def)
    have old: "group_ok old \<or> old = group_default"
      using deps_okD(1) [OF r(1), of kind] by (cases "hm_get (sd_groups ?r) kind") (auto simp: old_def)
    have mem: "j \<in> set (gr_ids old) \<longleftrightarrow> hm_get (sd_owners ?r) j = Some kind" for j
      using deps_okD(2) [OF r(1), of kind] deps_ok_group [OF r(1), of j kind]
      by (cases "hm_get (sd_groups ?r) kind") (auto simp: old_def group_default_def)
    note g = group_join [OF old, where i = i, folded g_def]
    have notin: "i \<notin> set (gr_ids old)" using mem [of i] r(2) [of i] by simp
    have "deps_ok s'"
      using r(1) g(1) g(2) mem r(2) [of i] unfolding s' deps_ok_def by (auto intro: bm.ok_ins hm.ok_ins)
    moreover have "owes s' k j" if "owes s k j" "j \<noteq> i"
      using keep [OF that] g(3) [of j] by (auto simp: s' owes_def old_def)
    moreover have "owes s' kind i" using g(4) [OF notin] by (simp add: s' owes_def)
    moreover have "j \<noteq> i" if "owes s k j" "?kind = Some k" using own [OF that(1)] some that(2) by auto
    ultimately show ?thesis using some by auto
  qed
  then show "deps_ok s'" and "owes s k j \<Longrightarrow> j \<noteq> i \<or> ?kind = Some k \<Longrightarrow> owes s' k j"
    and "changed \<Longrightarrow> \<exists>kind. ?kind = Some kind \<and> owes s' kind i" by auto
qed

text \<open>One call of \<open>next\<close> on the group of its topic.\<close>

lemma deps_next_group:
  assumes ok: "deps_ok s" and g: "hm_get (sd_groups s) k = Some g"
  obtains r g' where "deps_next k rv s = Some (r, s\<lparr>sd_last_topic := Some k, sd_groups := hm_modify k (\<lambda>_. g') (sd_groups s)\<rparr>)"
    and "walk_step (group_refresh rv g) r g'"
proof -
  have "group_ok (group_refresh rv g)" using group_refresh(1) deps_okD(1) [OF ok g] by blast
  then obtain r g' where "group_walk (group_refresh rv g) = Some (r, g')" "walk_step (group_refresh rv g) r g'"
    using group_walk_total by blast
  then show ?thesis using that g by (simp add: deps_next_def Let_def)
qed

lemma deps_ok_modify:
  assumes ok: "deps_ok s" and g: "hm_get (sd_groups s) k = Some g" and g': "group_ok g'" "gr_ids g' = gr_ids g"
  shows "deps_ok (s\<lparr>sd_last_topic := l, sd_groups := hm_modify k (\<lambda>_. g') (sd_groups s)\<rparr>)"
  using ok g g' unfolding deps_ok_def by (auto intro: bm.ok_modify)

lemma deps_next:
  assumes ok: "deps_ok s"
  shows "\<exists>r s'. deps_next k rv s = Some (r, s') \<and> deps_ok s'
    \<and> (\<forall>k' i. owes s k' i \<longrightarrow> owes s' k' i \<or> k' = k \<and> r = Some i)"
proof (cases "hm_get (sd_groups s) k")
  case None
  then have "deps_next k rv s = Some (None, s\<lparr>sd_last_topic := Some k\<rparr>)" by (simp add: deps_next_def Let_def)
  then show ?thesis using ok by (simp add: deps_ok_def owes_def)
next
  case (Some g)
  obtain r g' where nxt: "deps_next k rv s = Some (r, s\<lparr>sd_last_topic := Some k, sd_groups := hm_modify k (\<lambda>_. g') (sd_groups s)\<rparr>)"
    and step: "walk_step (group_refresh rv g) r g'" by (rule deps_next_group [OF ok Some])
  note ref = group_refresh [OF deps_okD(1) [OF ok Some], where r = rv]
  have "owed g' i \<or> r = Some i" if "owed g i" for i
    using ref(4) [OF that] step by (auto simp: walk_step_def split: option.splits)
  moreover have "deps_ok (s\<lparr>sd_last_topic := Some k, sd_groups := hm_modify k (\<lambda>_. g') (sd_groups s)\<rparr>)"
    using step ref(2) by (intro deps_ok_modify [OF ok Some]) (auto simp: walk_step_def)
  ultimately show ?thesis using nxt Some by (fastforce simp: owes_def)
qed

section \<open>Sequences of operations\<close>

datatype DepsOp = OpUpdate uuid "InsightPipeDeferral option" | OpRemove uuid | OpNext SnapshotKind SnapshotReadRevision

fun deps_step :: "DepsOp \<Rightarrow> SnapshotDependencies \<Rightarrow> ((SnapshotKind \<times> uuid) list \<times> SnapshotDependencies) option" where
  "deps_step (OpUpdate i dependency) s = Some ([], snd (deps_update i dependency s))"
| "deps_step (OpRemove i) s = Some ([], deps_remove i s)"
| "deps_step (OpNext k rv) s = (case deps_next k rv s of None \<Rightarrow> None
     | Some (None, s) \<Rightarrow> Some ([], s) | Some (Some i, s) \<Rightarrow> Some ([(k, i)], s))"

text \<open>The resumptions handed out by a sequence of operations, and the index after it.\<close>

fun run_deps :: "DepsOp list \<Rightarrow> SnapshotDependencies \<Rightarrow> ((SnapshotKind \<times> uuid) list \<times> SnapshotDependencies) option" where
  "run_deps [] s = Some ([], s)"
| "run_deps (op # ops) s = (case deps_step op s of None \<Rightarrow> None
     | Some (out, s) \<Rightarrow> map_option (apfst ((@) out)) (run_deps ops s))"

text \<open>An operation that takes the insight out of the group.\<close>

fun withdraws :: "SnapshotKind \<Rightarrow> uuid \<Rightarrow> DepsOp \<Rightarrow> bool" where
  "withdraws k i (OpUpdate j dependency) = (j = i \<and> Option.bind dependency dependency_kind \<noteq> Some k)"
| "withdraws k i (OpRemove j) = (j = i)"
| "withdraws k i (OpNext k' rv) = False"

lemma deps_step_ok:
  assumes "deps_ok s"
  shows "\<exists>out s'. deps_step op s = Some (out, s') \<and> deps_ok s'
    \<and> (\<forall>k i. owes s k i \<longrightarrow> \<not> withdraws k i op \<longrightarrow> (k, i) \<in> set out \<or> owes s' k i)"
proof (cases op)
  case (OpUpdate i dependency)
  then show ?thesis
    using deps_update(1,2) [OF assms, of i dependency] by (cases "deps_update i dependency s") auto
next
  case (OpRemove i)
  then show ?thesis using deps_remove(1) [OF assms] deps_remove(3) [OF assms] by auto
next
  case (OpNext k rv)
  obtain r s' where s': "deps_next k rv s = Some (r, s')" "deps_ok s'"
    "\<forall>k' i. owes s k' i \<longrightarrow> owes s' k' i \<or> k' = k \<and> r = Some i" using deps_next [OF assms] by blast
  then show ?thesis using OpNext by (cases r) auto
qed

lemma run_deps_ok: "deps_ok s \<Longrightarrow> \<exists>out s'. run_deps ops s = Some (out, s') \<and> deps_ok s'
    \<and> (\<forall>k i. owes s k i \<longrightarrow> (\<forall>op\<in>set ops. \<not> withdraws k i op) \<longrightarrow> (k, i) \<in> set out \<or> owes s' k i)"
proof (induction ops arbitrary: s)
  case (Cons op ops)
  obtain out s1 where s1: "deps_step op s = Some (out, s1)" "deps_ok s1"
    "\<forall>k i. owes s k i \<longrightarrow> \<not> withdraws k i op \<longrightarrow> (k, i) \<in> set out \<or> owes s1 k i"
    using deps_step_ok [OF Cons.prems] by blast
  obtain out' s2 where s2: "run_deps ops s1 = Some (out', s2)" "deps_ok s2"
    "\<forall>k i. owes s1 k i \<longrightarrow> (\<forall>op\<in>set ops. \<not> withdraws k i op) \<longrightarrow> (k, i) \<in> set out' \<or> owes s2 k i"
    using Cons.IH [OF s1(2)] by blast
  have "(k, i) \<in> set (out @ out') \<or> owes s2 k i" if "owes s k i" "\<forall>q\<in>set (op # ops). \<not> withdraws k i q" for k i
    using that s1(3) s2(3) by (metis Un_iff list.set_intros set_append)
  then show ?case using s1 s2 by auto
qed simp

text \<open>Calling \<open>next\<close> as often as the backlog hands out everything that is owed.\<close>

lemma drain:
  assumes "deps_ok s" "hm_get (sd_groups s) k = Some g" "backlog (group_refresh rv g) \<le> n"
  shows "\<exists>out s'. run_deps (replicate n (OpNext k rv)) s = Some (out, s')
    \<and> (\<forall>i. owed (group_refresh rv g) i \<longrightarrow> (k, i) \<in> set out) \<and> (\<forall>i. \<not> owes s' k i)"
  using assms
proof (induction n arbitrary: s g)
  case 0
  then have "\<not> owed (group_refresh rv g) i" for i
    using backlog_zero [OF group_refresh(1) [OF deps_okD(1) [OF 0(1,2)], where r = rv]] by simp
  then show ?case using 0 group_refresh(4) [OF deps_okD(1) [OF 0(1,2)], where r = rv] by (auto simp: owes_def)
next
  case (Suc n)
  obtain r g' where nxt: "deps_next k rv s = Some (r, s\<lparr>sd_last_topic := Some k, sd_groups := hm_modify k (\<lambda>_. g') (sd_groups s)\<rparr>)"
    (is "_ = Some (r, ?s)") and step: "walk_step (group_refresh rv g) r g'" by (rule deps_next_group [OF Suc.prems(1,2)])
  note ref = group_refresh [OF deps_okD(1) [OF Suc.prems(1,2)], where r = rv]
  have ok: "deps_ok ?s" using step ref(2) by (intro deps_ok_modify [OF Suc.prems(1,2)]) (auto simp: walk_step_def)
  have g': "hm_get (sd_groups ?s) k = Some g'" using Suc.prems(2) by simp
  have "gr_revision g' = Some rv" using step ref(3) by (simp add: walk_step_def)
  then have same: "group_refresh rv g' = g'" by (simp add: group_refresh_def)
  have less: "backlog g' \<le> n"
    using step Suc.prems(3) by (auto simp: walk_step_def backlog_def split: option.splits)
  obtain out s' where rest: "run_deps (replicate n (OpNext k rv)) ?s = Some (out, s')"
    "\<forall>i. owed g' i \<longrightarrow> (k, i) \<in> set out" "\<forall>i. \<not> owes s' k i"
    using Suc.IH [OF ok g'] less by (auto simp: same)
  then show ?case using nxt step by (auto simp: walk_step_def split: option.splits)
qed

section \<open>Properties\<close>

text \<open>(\<open>update\<close>, \<open>remove\<close>, \<open>next\<close>) Whatever sequence of operations is run on a new index, none
  panics and the index stays consistent: every group is an ordered nonempty set, its members are exactly
  the insights owned by its topic, and every owned topic has a group.\<close>

theorem dependency_index_consistent: "\<exists>out s. run_deps ops deps_default = Some (out, s) \<and> deps_ok s"
  using run_deps_ok [OF deps_ok_default, of ops] by blast

text \<open>C8: (\<open>update\<close>, \<open>next\<close>) An insight that starts to wait for a snapshot is owed a resumption, and after any
  operations that do not withdraw it, whichever other insights join or leave and whatever new revisions arrive in the
  middle of a walk, it has been handed out or is still owed.\<close>

theorem resume_never_lost:
  assumes "run_deps before deps_default = Some (out0, s)"
    and "deps_update i (Some dependency) s = (True, s1)" and "dependency_kind dependency = Some k"
    and "run_deps ops s1 = Some (out, s2)" and "\<forall>op\<in>set ops. \<not> withdraws k i op"
  shows "(k, i) \<in> set out \<or> owes s2 k i"
proof -
  have "deps_ok s" using run_deps_ok [OF deps_ok_default, of before] assms(1) by auto
  then have "deps_ok s1" "owes s1 k i" using deps_update(1,3) [OF _ assms(2)] assms(3) by auto
  then show ?thesis using run_deps_ok [of s1 ops] assms(4,5) by auto
qed

definition sample_revision :: "nat \<Rightarrow> SnapshotReadRevision" where
  "sample_revision n = \<lparr>srr_cache_id = ''c'', srr_generation = 1, srr_membership = 0, srr_version = n\<rparr>"

theorem resume_never_lost_witness:
  "(AccountSnapshot, ''a'') \<in> set (fst (the (run_deps [OpNext AccountSnapshot (sample_revision 1), OpNext AccountSnapshot (sample_revision 1)]
     (snd (deps_update ''a'' (Some DeferAccount) (snd (the (run_deps [OpUpdate ''b'' (Some DeferAccount),
       OpNext AccountSnapshot (sample_revision 0)] deps_default)))))))) \<or>
   owes (snd (the (run_deps [OpNext AccountSnapshot (sample_revision 1), OpNext AccountSnapshot (sample_revision 1)]
     (snd (deps_update ''a'' (Some DeferAccount) (snd (the (run_deps [OpUpdate ''b'' (Some DeferAccount),
       OpNext AccountSnapshot (sample_revision 0)] deps_default))))))))
     AccountSnapshot ''a''"
proof -
  let ?b = "[OpUpdate ''b'' (Some DeferAccount), OpNext AccountSnapshot (sample_revision 0)]"
  let ?s = "snd (the (run_deps ?b deps_default))" and ?ops = "[OpNext AccountSnapshot (sample_revision 1), OpNext AccountSnapshot (sample_revision 1)]"
  have "run_deps ?b deps_default = Some ([(AccountSnapshot, ''b'')], ?s)"
    "deps_update ''a'' (Some DeferAccount) ?s = (True, snd (deps_update ''a'' (Some DeferAccount) ?s))"
    "dependency_kind DeferAccount = Some AccountSnapshot"
    "run_deps ?ops (snd (deps_update ''a'' (Some DeferAccount) ?s)) = Some ([(AccountSnapshot, ''a''), (AccountSnapshot, ''b'')],
       snd (the (run_deps ?ops (snd (deps_update ''a'' (Some DeferAccount) ?s)))))"
    "\<forall>op\<in>set ?ops. \<not> withdraws AccountSnapshot ''a'' op"
    by code_simp+
  from resume_never_lost [OF this]
  have "(AccountSnapshot, ''a'') \<in> set [(AccountSnapshot, ''a''), (AccountSnapshot, ''b'')]
      \<or> owes (snd (the (run_deps ?ops (snd (deps_update ''a'' (Some DeferAccount) ?s))))) AccountSnapshot ''a''" .
  moreover have "fst (the (run_deps ?ops (snd (deps_update ''a'' (Some DeferAccount) ?s)))) = [(AccountSnapshot, ''a''), (AccountSnapshot, ''b'')]"
    by code_simp
  ultimately show ?thesis by (simp only:)
qed

text \<open>(\<open>next\<close>) When a revision arrives that a group has not seen, calling \<open>next\<close> twice as often as the
  group has members hands out every one of them, also when the walk of an earlier revision was under way, and leaves
  nobody waiting.\<close>

theorem snapshot_group_drained:
  assumes "run_deps before deps_default = Some (out0, s)" and "hm_get (sd_groups s) k = Some g"
    and "gr_revision g \<noteq> Some rv"
  shows "\<exists>out s'. run_deps (replicate (2 * length (gr_ids g)) (OpNext k rv)) s = Some (out, s')
    \<and> (\<forall>i. i \<in> set (gr_ids g) \<longleftrightarrow> hm_get (sd_owners s) i = Some k)
    \<and> (\<forall>i\<in>set (gr_ids g). (k, i) \<in> set out) \<and> (\<forall>i. \<not> owes s' k i)"
proof -
  have ok: "deps_ok s" using run_deps_ok [OF deps_ok_default, of before] assms(1) by auto
  note ref = group_refresh [OF deps_okD(1) [OF ok assms(2)], where r = rv]
  have "backlog (group_refresh rv g) \<le> 2 * length (gr_ids g)" using backlog_bound [of "group_refresh rv g"] ref(2) by simp
  from drain [OF ok assms(2) this] show ?thesis using ref(5) [OF assms(3)] deps_okD(2) [OF ok assms(2)] by blast
qed

theorem snapshot_group_drained_witness:
  "\<exists>out s'. run_deps (replicate 4 (OpNext AccountSnapshot (sample_revision 1)))
      (snd (the (run_deps [OpUpdate ''a'' (Some DeferAccount), OpUpdate ''b'' (Some DeferAccount),
         OpNext AccountSnapshot (sample_revision 0)] deps_default))) = Some (out, s')
    \<and> (AccountSnapshot, ''a'') \<in> set out \<and> (AccountSnapshot, ''b'') \<in> set out \<and> (\<forall>i. \<not> owes s' AccountSnapshot i)"
proof -
  let ?b = "[OpUpdate ''a'' (Some DeferAccount), OpUpdate ''b'' (Some DeferAccount), OpNext AccountSnapshot (sample_revision 0)]"
  let ?s = "snd (the (run_deps ?b deps_default))"
  let ?g = "\<lparr>gr_ids = [''a'', ''b''], gr_revision = Some (sample_revision 0), gr_after = Some ''a'', gr_upper = Some ''b'',
    gr_active = True, gr_rerun = False\<rparr>"
  have "run_deps ?b deps_default = Some ([(AccountSnapshot, ''a'')], ?s)" "hm_get (sd_groups ?s) AccountSnapshot = Some ?g"
    "gr_revision ?g \<noteq> Some (sample_revision 1)" by code_simp+
  from snapshot_group_drained [OF this] show ?thesis by (auto simp: numeral_2_eq_2 numeral_Bit0)
qed

end
