(* ===== verification/InsightWork.thy ===== *)
theory InsightWork
  imports InsightOperations QuantitySizing
begin

text \<open>
  The scheduling of nested execution (\<open>src/src/core/strategy/insight_work.rs\<close>): the queue of requests, the
  permission of an entry by its ancestors, and the bounded turn that works the queue off.

  The state is the part of the strategy these functions touch; what else they reach (the command driver, the
  clock, the universe) is the arbitrary rest.  An operation of the collection that panics makes the result \<open>None\<close>.
  The clock that bounds a turn is the argument \<open>allow\<close>: whether the budget is left after some requests.
\<close>

section \<open>Data\<close>

datatype StrategyStatus = Initialised | Running | Stopping | Paused | Stopped | CompletedStatus

datatype WorkKind = RecoverWork | SubmitWork | CleanupWork | SplitChildren | FilledChildren

record Work =
  wk_id :: uuid
  wk_kind :: WorkKind
  wk_next_child :: nat

record InsightWorkQueue =
  wq_ready :: "Work list"
  wq_recovery :: "uuid list"
  wq_owned :: "(uuid \<times> WorkKind) list"
  wq_waiting :: "(uuid \<times> WorkKind, Work) hmap"
  wq_child_cursors :: "(uuid \<times> WorkKind, nat) hmap"
  wq_admission_blocked :: bool

definition queue_default :: InsightWorkQueue where
  "queue_default = \<lparr>wq_ready = [], wq_recovery = [], wq_owned = [], wq_waiting = [], wq_child_cursors = [],
     wq_admission_blocked = False\<rparr>"

record 'y StrategyRun =
  st_insights :: InsightCollection
  st_work :: InsightWorkQueue
  st_status :: StrategyStatus
  st_shutdown :: bool
  st_rest :: 'y

definition row :: "'y StrategyRun \<Rightarrow> uuid \<Rightarrow> InsightTree option" where
  "row s i = hm_get (ic_insights (st_insights s)) i"

section \<open>The queue\<close>

definition cursor :: "InsightWorkQueue \<Rightarrow> uuid \<Rightarrow> WorkKind \<Rightarrow> nat" where
  "cursor q i kind = unwrap_or (hm_get (wq_child_cursors q) (i, kind)) 0"

definition push :: "uuid \<Rightarrow> WorkKind \<Rightarrow> InsightWorkQueue \<Rightarrow> InsightWorkQueue" where
  "push i kind q =
     (if (i, kind) \<in> set (wq_owned q) then q
      else let work = \<lparr>wk_id = i, wk_kind = kind, wk_next_child = cursor q i kind\<rparr>;
               q = q\<lparr>wq_owned := hs_insert (i, kind) (wq_owned q)\<rparr>
           in if kind = CleanupWork then q\<lparr>wq_admission_blocked := False, wq_ready := work # wq_ready q\<rparr>
              else q\<lparr>wq_ready := wq_ready q @ [work]\<rparr>)"

definition push_children :: "uuid \<Rightarrow> WorkKind \<Rightarrow> nat \<Rightarrow> InsightWorkQueue \<Rightarrow> InsightWorkQueue" where
  "push_children i kind n q = (if cursor q i kind < n then push i kind q else q)"

definition wake_kind :: "uuid \<Rightarrow> WorkKind \<Rightarrow> InsightWorkQueue \<Rightarrow> InsightWorkQueue" where
  "wake_kind i kind q = (case hm_get (wq_waiting q) (i, kind) of None \<Rightarrow> q
     | Some work \<Rightarrow> q\<lparr>wq_waiting := hm_remove (i, kind) (wq_waiting q),
                      wq_ready := (if kind = CleanupWork then work # wq_ready q else wq_ready q @ [work])\<rparr>)"

definition wake :: "uuid \<Rightarrow> InsightWorkQueue \<Rightarrow> InsightWorkQueue" where
  "wake i q = wake_kind i SubmitWork (wake_kind i CleanupWork (q\<lparr>wq_admission_blocked := False\<rparr>))"

definition is_ready :: "InsightWorkQueue \<Rightarrow> bool" where
  "is_ready q \<longleftrightarrow> \<not> wq_admission_blocked q \<and> (wq_ready q \<noteq> [] \<or> wq_recovery q \<noteq> [])"

definition cleanup_ready :: "InsightWorkQueue \<Rightarrow> bool" where
  "cleanup_ready q \<longleftrightarrow> (case wq_ready q of [] \<Rightarrow> False | work # _ \<Rightarrow> wk_kind work = CleanupWork)"

definition is_ready_for_execution :: "bool \<Rightarrow> InsightWorkQueue \<Rightarrow> bool" where
  "is_ready_for_execution recovery_enabled q \<longleftrightarrow> is_ready q \<and> (recovery_enabled \<or> cleanup_ready q)"

definition restore_queue :: "uuid list \<Rightarrow> InsightWorkQueue \<Rightarrow> InsightWorkQueue" where
  "restore_queue recovery q = q\<lparr>wq_recovery := recovery\<rparr>"

definition retire_children :: "uuid \<Rightarrow> InsightWorkQueue \<Rightarrow> InsightWorkQueue" where
  "retire_children i q = q\<lparr>wq_child_cursors := hm_remove (i, FilledChildren) (hm_remove (i, SplitChildren) (wq_child_cursors q))\<rparr>"

definition disown :: "uuid \<Rightarrow> WorkKind \<Rightarrow> InsightWorkQueue \<Rightarrow> InsightWorkQueue" where
  "disown i kind q = q\<lparr>wq_owned := hs_remove (i, kind) (wq_owned q)\<rparr>"

definition await :: "Work \<Rightarrow> InsightWorkQueue \<Rightarrow> InsightWorkQueue" where
  "await work q = q\<lparr>wq_waiting := hm_insert (wk_id work, wk_kind work) work (wq_waiting q)\<rparr>"

abbreviation on_work :: "(InsightWorkQueue \<Rightarrow> InsightWorkQueue) \<Rightarrow> 'y StrategyRun \<Rightarrow> 'y StrategyRun" where
  "on_work f s \<equiv> s\<lparr>st_work := f (st_work s)\<rparr>"

section \<open>Permission\<close>

datatype EntryPermission = PermReady | PermWaiting | PermBlocked

definition insight_execution_enabled :: "'y StrategyRun \<Rightarrow> bool" where
  "insight_execution_enabled s \<longleftrightarrow> st_status s = Running \<or> st_status s = Stopping \<or> st_shutdown s"

definition running :: "'y StrategyRun \<Rightarrow> bool" where
  "running s \<longleftrightarrow> st_status s = Running \<and> \<not> st_shutdown s"

definition entry_gated :: "InsightTree \<Rightarrow> bool" where
  "entry_gated t \<longleftrightarrow> is_inactive (tree_state t) \<or> ins_closing (tree_row t) \<or> ins_cancelling (tree_row t)
     \<or> ins_suppress_child_entries (tree_row t)"

definition submitted_once :: "InsightTree \<Rightarrow> bool" where
  "submitted_once t \<longleftrightarrow> has_pending_submit (tree_row t) \<or> ins_submitted (tree_row t) \<or> ins_order_id (tree_row t) \<noteq> None"

text \<open>At most 64 generations are walked, as in the code.\<close>

fun permission_walk :: "nat \<Rightarrow> 'y StrategyRun \<Rightarrow> uuid \<Rightarrow> bool \<Rightarrow> EntryPermission" where
  "permission_walk 0 s current waiting = PermBlocked"
| "permission_walk (Suc n) s current waiting = (case row s current of None \<Rightarrow> PermBlocked
     | Some r \<Rightarrow>
        if entry_gated r then PermBlocked
        else case ins_parent_id (tree_row r) of None \<Rightarrow> if waiting then PermWaiting else PermReady
        | Some parent_id \<Rightarrow>
            (case row s parent_id of None \<Rightarrow> PermBlocked
             | Some parent \<Rightarrow> permission_walk n s parent_id
                 (waiting \<or> (if ins_is_split_insight (tree_row r) then \<not> submitted_once parent else tree_state parent \<noteq> StFilled))))"

definition insight_entry_permission :: "'y StrategyRun \<Rightarrow> uuid \<Rightarrow> EntryPermission" where
  "insight_entry_permission s i = permission_walk 64 s i False"

section \<open>Scheduling\<close>

definition schedule_insight_children :: "uuid \<Rightarrow> 'y StrategyRun \<Rightarrow> 'y StrategyRun" where
  "schedule_insight_children i s =
     (if \<not> running s then on_work (retire_children i) s
      else case row s i of None \<Rightarrow> s
      | Some t \<Rightarrow>
          if entry_gated t then on_work (retire_children i) s
          else if tree_children t = [] then s
          else if insight_entry_permission s i \<noteq> PermReady then on_work (retire_children i) s
          else let n = length (tree_children t);
                   s = (if submitted_once t then on_work (push_children i SplitChildren n) s else s)
               in if tree_state t = StFilled then on_work (push_children i FilledChildren n) s else s)"

definition schedule_insight_cleanup :: "uuid \<Rightarrow> 'y StrategyRun \<Rightarrow> 'y StrategyRun" where
  "schedule_insight_cleanup i s = on_work (\<lambda>q. wake i (push i CleanupWork q)) s"

definition schedule_descendant_cleanup :: "uuid \<Rightarrow> 'y StrategyRun \<Rightarrow> 'y StrategyRun" where
  "schedule_descendant_cleanup parent_id s =
     fold schedule_insight_cleanup (descendant_ids_for_parents (st_insights s) [parent_id]) s"

section \<open>Working off the queue\<close>

text \<open>
  What the work reaches outside: the strategy context of the insight operations, the calendar of the expiry, the
  JSON of the collection, the hash of a row, the context that is bound to a new row, whether the driver has a
  command of the insight, and the driver's part of \<open>reduce_terminal_command_receipts\<close>.
\<close>

record ('y, 'v) WorkOps =
  wo_context :: "'y StrategyContext"
  wo_calendar :: calendar
  wo_json :: "'v Json"
  wo_fingerprint :: "InsightTree \<Rightarrow> nat"
  wo_insight_context :: "'y \<Rightarrow> InsightStrategyContext"
  wo_has_pending_owner :: "'y \<Rightarrow> uuid \<Rightarrow> bool"
  wo_reduce_terminal :: "uuid \<Rightarrow> string option \<Rightarrow> InsightState \<Rightarrow> 'y \<Rightarrow> 'y"

definition on_row :: "('r \<Rightarrow> unit Insight \<Rightarrow> 'x \<Rightarrow> 'q \<times> unit Insight \<times> 'x) \<Rightarrow> 'r \<Rightarrow> InsightTree \<Rightarrow> 'x \<Rightarrow> 'q \<times> InsightTree \<times> 'x" where
  "on_row f a t x = (case f a (tree_row t) x of (r, i, x) \<Rightarrow> (r, Tree i (tree_data t) (tree_children t), x))"

definition reduce_terminal_command_receipts :: "('y, 'v) WorkOps \<Rightarrow> uuid \<Rightarrow> 'y StrategyRun \<Rightarrow> 'y StrategyRun option" where
  "reduce_terminal_command_receipts W i s = (case row s i of None \<Rightarrow> Some s
     | Some t \<Rightarrow>
        if \<not> is_inactive (tree_state t) then Some s
        else let c = snd (take_for_update i (st_insights s));
                 y = wo_reduce_terminal W i (ins_order_id (tree_row t)) (tree_state t) (st_rest s);
                 (r, y) = poll_terminal_mutations (wo_context W) (tree_row t) y;
                 t' = Tree r (tree_data t) (tree_children t)
             in map_option (\<lambda>c. s\<lparr>st_insights := c, st_rest := y\<rparr>)
                  (restore_after_update (wo_json W) t' (wo_fingerprint W t \<noteq> wo_fingerprint W t') c))"

definition recover_insight_work :: "('y, 'v) WorkOps \<Rightarrow> uuid \<Rightarrow> 'y StrategyRun \<Rightarrow> 'y StrategyRun option" where
  "recover_insight_work W i s = (case row s i of None \<Rightarrow> Some s
     | Some t \<Rightarrow>
        if is_inactive (tree_state t) then reduce_terminal_command_receipts W i s
        else if \<not> running s \<or> insight_entry_permission s i = PermBlocked then Some (schedule_insight_cleanup i s)
        else Some (schedule_insight_children i
               (if has_pending_submit (tree_row t)
                   \<or> ins_parent_id (tree_row t) \<noteq> None \<and> tree_state t = StNew \<and> insight_entry_permission s i = PermReady
                then on_work (push i SubmitWork) s else s)))"

text \<open>One child of a cursor: a template not seen yet becomes a row, a row that was left behind is resumed.\<close>

definition activates :: "Work \<Rightarrow> InsightTree \<Rightarrow> InsightTree \<Rightarrow> bool" where
  "activates work parent child \<longleftrightarrow> ins_parent_id (tree_row child) = Some (wk_id work)
     \<and> ins_is_split_insight (tree_row child) = (wk_kind work = SplitChildren)
     \<and> (if wk_kind work = SplitChildren then submitted_once parent else tree_state parent = StFilled)"

definition existing_child :: "'y StrategyRun \<Rightarrow> Work \<Rightarrow> InsightTree \<Rightarrow> uuid option" where
  "existing_child s work child = (case row s (insight_id child) of None \<Rightarrow> None
     | Some r \<Rightarrow> if \<not> is_inactive (tree_state r) \<and> ins_parent_id (tree_row r) = Some (wk_id work)
                    \<and> ins_is_split_insight (tree_row r) = (wk_kind work = SplitChildren)
                 then Some (insight_id child) else None)"

definition child_step :: "('y, 'v) WorkOps \<Rightarrow> Work \<Rightarrow> 'y StrategyRun \<Rightarrow> 'y StrategyRun option" where
  "child_step W work s =
     (let i = wk_id work; drop = on_work (disown i (wk_kind work)) s in
      if \<not> running s \<or> insight_entry_permission s i \<noteq> PermReady then Some (on_work (retire_children i) drop)
      else case row s i of None \<Rightarrow> Some drop
      | Some parent \<Rightarrow>
          if entry_gated parent then Some drop
          else case nth_opt (tree_children parent) (wk_next_child work) of None \<Rightarrow> Some drop
          | Some child \<Rightarrow>
              let next = work\<lparr>wk_next_child := wk_next_child work + 1\<rparr>;
                  s' = on_work (\<lambda>q. q\<lparr>wq_child_cursors := hm_insert (i, wk_kind work) (wk_next_child next) (wq_child_cursors q),
                                      wq_ready := wq_ready q @ [next]\<rparr>) s
              in if activates work parent child \<and> \<not> was_materialized (st_insights s) (insight_id child)
                 then let c = Tree (bind_context (wo_insight_context W (st_rest s)) (tree_row child)) (tree_data child) (tree_children child)
                      in map_option (\<lambda>ins. on_work (push (insight_id c) SubmitWork) (s'\<lparr>st_insights := ins\<rparr>))
                           (add_insight (wo_json W) c (st_insights s))
                 else if activates work parent child
                 then (case existing_child s work child of None \<Rightarrow> Some s'
                       | Some j \<Rightarrow> Some (schedule_insight_children j
                           (if (case row s j of None \<Rightarrow> False | Some r \<Rightarrow> tree_state r = StNew \<or> has_pending_submit (tree_row r))
                            then on_work (push j SubmitWork) s' else s')))
                 else Some s')"

text \<open>The broker operation of a request, and where the request goes by its result.\<close>

definition entry_mutation :: "('y, 'v) WorkOps \<Rightarrow> bool \<Rightarrow> unit Insight \<Rightarrow> 'y \<Rightarrow> InsightMutationResult \<times> unit Insight \<times> 'y" where
  "entry_mutation W cleanup i y =
     (if \<not> cleanup then submit (wo_calendar W) (wo_context W) i y
      else case ins_state i of
        StNew \<Rightarrow> if \<not> has_pending_submit i \<and> ins_order_id i = None
                 then (Inr Applied, order_cancelled ''Entry cancelled before broker submission during cleanup'' i, y)
                 else cancel (wo_context W) i y
      | StFilled \<Rightarrow> close_insight (wo_context W) i y
      | StExecuted \<Rightarrow> cancel (wo_context W) i y
      | _ \<Rightarrow> poll_pending_submission (wo_context W) i y)"

definition settle_request :: "('y, 'v) WorkOps \<Rightarrow> Work \<Rightarrow> InsightMutationResult \<Rightarrow> InsightTree \<Rightarrow> 'y StrategyRun \<Rightarrow> bool \<times> 'y StrategyRun" where
  "settle_request W work result t s = (case result of
       Inr (PendingReceipt _) \<Rightarrow> (False, on_work (await work) s)
     | Inl CmdQueueFull \<Rightarrow> (True, on_work (\<lambda>q. q\<lparr>wq_ready := work # wq_ready q, wq_admission_blocked := True\<rparr>) s)
     | Inl e \<Rightarrow>
         (False, on_work (if is_inactive (tree_state t) \<and> ins_pending_mutations (tree_row t) = []
                             \<and> \<not> wo_has_pending_owner W (st_rest s) (wk_id work)
                          then disown (wk_id work) (wk_kind work) else await work) s)
     | Inr Applied \<Rightarrow>
         (False, on_work (if wk_kind work = CleanupWork \<and> \<not> is_inactive (tree_state t) then await work
                          else disown (wk_id work) (wk_kind work)) s))"

definition entry_step :: "('y, 'v) WorkOps \<Rightarrow> Work \<Rightarrow> 'y StrategyRun \<Rightarrow> (bool \<times> 'y StrategyRun) option" where
  "entry_step W work s =
     (let i = wk_id work; drop = on_work (disown i (wk_kind work)) s; perm = insight_entry_permission s i in
      if wk_kind work = SubmitWork \<and> running s \<and> perm = PermBlocked then Some (False, schedule_insight_cleanup i drop)
      else if wk_kind work = SubmitWork \<and> running s \<and> perm = PermWaiting
              \<and> (case row s i of None \<Rightarrow> True | Some r \<Rightarrow> \<not> has_pending_submit (tree_row r))
      then Some (False, drop)
      else case take_for_update i (st_insights s) of (None, _) \<Rightarrow> Some (False, drop)
      | (Some t, c) \<Rightarrow>
          let (result, r, y) = entry_mutation W (wk_kind work = CleanupWork \<or> \<not> running s) (tree_row t) (st_rest s);
              t' = Tree r (tree_data t) (tree_children t)
          in (case restore_after_update (wo_json W) t' (wo_fingerprint W t \<noteq> wo_fingerprint W t') c of None \<Rightarrow> None
              | Some c \<Rightarrow>
                  (case settle_request W work result t' (s\<lparr>st_insights := c, st_rest := y\<rparr>) of (stop, s) \<Rightarrow>
                     Some (stop, if \<not> stop \<and> wk_kind work = SubmitWork then schedule_insight_children i s else s))))"

definition next_work :: "InsightWorkQueue \<Rightarrow> (Work \<times> InsightWorkQueue) option" where
  "next_work q = (let pop = (case wq_ready q of [] \<Rightarrow> None | work # rest \<Rightarrow> Some (work, q\<lparr>wq_ready := rest\<rparr>)) in
     if cleanup_ready q then pop
     else case wq_recovery q of
       i # rest \<Rightarrow> Some (\<lparr>wk_id = i, wk_kind = RecoverWork, wk_next_child = 0\<rparr>, q\<lparr>wq_recovery := rest\<rparr>)
     | [] \<Rightarrow> pop)"

definition work_step :: "('y, 'v) WorkOps \<Rightarrow> Work \<Rightarrow> 'y StrategyRun \<Rightarrow> (bool \<times> 'y StrategyRun) option" where
  "work_step W work s = (case wk_kind work of
       RecoverWork \<Rightarrow> map_option (Pair False) (recover_insight_work W (wk_id work) s)
     | SplitChildren \<Rightarrow> map_option (Pair False) (child_step W work s)
     | FilledChildren \<Rightarrow> map_option (Pair False) (child_step W work s)
     | _ \<Rightarrow> entry_step W work s)"

fun process_loop :: "nat \<Rightarrow> ('y, 'v) WorkOps \<Rightarrow> (nat \<Rightarrow> bool) \<Rightarrow> nat \<Rightarrow> 'y StrategyRun \<Rightarrow> (nat \<times> 'y StrategyRun) option" where
  "process_loop 0 W allow processed s = Some (processed, s)"
| "process_loop (Suc n) W allow processed s =
     (if 0 < processed \<and> \<not> allow processed then Some (processed, s)
      else if \<not> is_ready_for_execution (insight_execution_enabled s) (st_work s) then Some (processed, s)
      else case next_work (st_work s) of None \<Rightarrow> Some (processed, s)
      | Some (work, q) \<Rightarrow>
          (case work_step W work (s\<lparr>st_work := q\<rparr>) of None \<Rightarrow> None
           | Some (stop, s) \<Rightarrow> if stop then Some (processed + 1, s) else process_loop n W allow (processed + 1) s))"

definition process_insight_work :: "('y, 'v) WorkOps \<Rightarrow> nat \<Rightarrow> (nat \<Rightarrow> bool) \<Rightarrow> 'y StrategyRun \<Rightarrow> (nat \<times> 'y StrategyRun) option" where
  "process_insight_work W max_work allow s = process_loop (min max_work 256) W allow 0 s"

section \<open>The invariant of the queue\<close>

definition work_key :: "Work \<Rightarrow> uuid \<times> WorkKind" where
  "work_key w = (wk_id w, wk_kind w)"

definition cleanups_first :: "Work list \<Rightarrow> bool" where
  "cleanups_first ws \<longleftrightarrow> (\<forall>w\<in>set (dropWhile (\<lambda>w. wk_kind w = CleanupWork) ws). wk_kind w \<noteq> CleanupWork)"

text \<open>
  Every owned request is in exactly one place: ready, waiting, or \<open>taken\<close> by the turn that took it.  Cleanups are at the front,
  and only entries and cleanups wait.
\<close>

definition queue_inv :: "(uuid \<times> WorkKind) option \<Rightarrow> InsightWorkQueue \<Rightarrow> bool" where
  "queue_inv taken q \<longleftrightarrow> distinct (map work_key (wq_ready q)) \<and> distinct (wq_owned q)
     \<and> (\<forall>k. k \<in> set (wq_owned q) \<longleftrightarrow> k \<in> work_key ` set (wq_ready q) \<or> hm_get (wq_waiting q) k \<noteq> None \<or> taken = Some k)
     \<and> (\<forall>k w. hm_get (wq_waiting q) k = Some w \<longrightarrow> work_key w = k \<and> k \<notin> work_key ` set (wq_ready q)
          \<and> (snd k = SubmitWork \<or> snd k = CleanupWork))
     \<and> (\<forall>k. taken = Some k \<longrightarrow> k \<notin> work_key ` set (wq_ready q) \<and> hm_get (wq_waiting q) k = None)
     \<and> cleanups_first (wq_ready q) \<and> RecoverWork \<notin> wk_kind ` set (wq_ready q)"

abbreviation queue_ok :: "InsightWorkQueue \<Rightarrow> bool" where
  "queue_ok \<equiv> queue_inv None"

lemma queue_invD:
  assumes "queue_inv h q"
  shows "k \<in> set (wq_owned q) \<longleftrightarrow> k \<in> work_key ` set (wq_ready q) \<or> hm_get (wq_waiting q) k \<noteq> None \<or> h = Some k"
    and "hm_get (wq_waiting q) k \<noteq> None \<Longrightarrow> k \<notin> work_key ` set (wq_ready q)"
  using assms unfolding queue_inv_def by blast+

lemma cleanups_first_Cons: "cleanups_first (w # ws) \<longleftrightarrow> (if wk_kind w = CleanupWork then cleanups_first ws else \<forall>v\<in>set ws. wk_kind v \<noteq> CleanupWork)"
  by (auto simp: cleanups_first_def)

lemma cleanups_first_Nil: "cleanups_first []"
  by (simp add: cleanups_first_def)

lemma cleanups_first_snoc: "cleanups_first ws \<Longrightarrow> wk_kind w \<noteq> CleanupWork \<Longrightarrow> cleanups_first (ws @ [w])"
  by (induction ws) (auto simp: cleanups_first_Cons cleanups_first_Nil split: if_splits)

lemma cleanups_first_tl: "cleanups_first (w # ws) \<Longrightarrow> cleanups_first ws"
proof (cases "wk_kind w = CleanupWork")
  case False
  assume "cleanups_first (w # ws)"
  then have "\<forall>v\<in>set ws. wk_kind v \<noteq> CleanupWork" using False by (simp add: cleanups_first_Cons)
  then show ?thesis unfolding cleanups_first_def by (meson set_dropWhileD)
qed (simp add: cleanups_first_Cons)

lemma cleanups_first_head: "cleanups_first (w # ws) \<Longrightarrow> wk_kind w \<noteq> CleanupWork \<Longrightarrow> v \<in> set ws \<Longrightarrow> wk_kind v \<noteq> CleanupWork"
  by (simp add: cleanups_first_Cons)

lemma queue_ok_default: "queue_ok queue_default"
  by (simp add: queue_inv_def queue_default_def cleanups_first_def)

text \<open>The queue only depends on these fields.\<close>

lemma queue_inv_cong:
  "wq_ready q' = wq_ready q \<Longrightarrow> wq_owned q' = wq_owned q \<Longrightarrow> wq_waiting q' = wq_waiting q \<Longrightarrow> queue_inv h q' = queue_inv h q"
  by (simp add: queue_inv_def)

text \<open>A request that is nowhere comes in at the front (a cleanup, or anything before a queue without cleanups) or at the back.\<close>

lemma queue_inv_enqueue:
  assumes inv: "queue_inv h q" and fresh: "work_key w \<notin> work_key ` set (wq_ready q)" "hm_get (wq_waiting q) (work_key w) = None"
    and owned: "distinct (wq_owned q')" "set (wq_owned q') = insert (work_key w) (set (wq_owned q))"
    and h': "\<forall>k. h' = Some k \<longleftrightarrow> h = Some k \<and> k \<noteq> work_key w"
    and kind: "wk_kind w \<noteq> RecoverWork" and waiting: "wq_waiting q' = wq_waiting q"
    and ready: "wq_ready q' = w # wq_ready q \<and> (wk_kind w = CleanupWork \<or> (\<forall>v\<in>set (wq_ready q). wk_kind v \<noteq> CleanupWork))
      \<or> wq_ready q' = wq_ready q @ [w] \<and> wk_kind w \<noteq> CleanupWork"
  shows "queue_inv h' q'"
proof -
  have "set (wq_ready q') = insert w (set (wq_ready q))" "distinct (map work_key (wq_ready q'))" "cleanups_first (wq_ready q')"
    using ready inv fresh(1) by (auto simp: queue_inv_def cleanups_first_Cons cleanups_first_snoc)
  moreover have "k \<notin> work_key ` set (wq_ready q') \<and> hm_get (wq_waiting q') k = None" if "h' = Some k" for k
    using that h' inv waiting \<open>set (wq_ready q') = insert w (set (wq_ready q))\<close> by (auto simp: queue_inv_def)
  ultimately show ?thesis using inv fresh kind owned h' waiting unfolding queue_inv_def by auto
qed

lemma queue_inv_push: "queue_inv h q \<Longrightarrow> kind \<noteq> RecoverWork \<Longrightarrow> queue_inv h (push i kind q)"
proof (cases "(i, kind) \<in> set (wq_owned q)")
  case False
  assume inv: "queue_inv h q" and kind: "kind \<noteq> RecoverWork"
  let ?w = "\<lparr>wk_id = i, wk_kind = kind, wk_next_child = cursor q i kind\<rparr>"
  have fresh: "work_key ?w \<notin> work_key ` set (wq_ready q)" "hm_get (wq_waiting q) (work_key ?w) = None" "h \<noteq> Some (work_key ?w)"
    using inv False by (auto simp: queue_inv_def work_key_def)
  show ?thesis
    by (rule queue_inv_enqueue [OF inv fresh(1,2)])
      (use inv False fresh(3) kind in \<open>auto simp: push_def Let_def hs_insert_def work_key_def queue_inv_def\<close>)
qed (simp add: push_def)

lemma queue_inv_children: "queue_inv h q \<Longrightarrow> kind \<noteq> RecoverWork \<Longrightarrow> queue_inv h (push_children i kind n q)"
  by (simp add: push_children_def queue_inv_push)

lemma queue_inv_wake_kind: "queue_inv h q \<Longrightarrow> kind = SubmitWork \<or> kind = CleanupWork \<Longrightarrow> queue_inv h (wake_kind i kind q)"
proof (cases "hm_get (wq_waiting q) (i, kind)")
  case (Some w)
  assume inv: "queue_inv h q" and kind: "kind = SubmitWork \<or> kind = CleanupWork"
  let ?q = "q\<lparr>wq_waiting := hm_remove (i, kind) (wq_waiting q)\<rparr>"
  have w: "work_key w = (i, kind)" "(i, kind) \<notin> work_key ` set (wq_ready q)" "(i, kind) \<in> set (wq_owned q)" "h \<noteq> Some (i, kind)"
    using inv Some by (auto simp: queue_inv_def)
  have w': "wk_id w = i" "wk_kind w = kind" "wk_kind w \<noteq> RecoverWork" "distinct (wq_owned q)" using w(1) kind inv by (auto simp: work_key_def queue_inv_def)
  have "queue_inv h (?q\<lparr>wq_owned := hs_remove (i, kind) (wq_owned q)\<rparr>)"
    using inv w(2,4) by (auto simp: queue_inv_def hs_remove_def)
  then show ?thesis
    by (rule queue_inv_enqueue [where w = w])
      (use w w' kind Some in \<open>auto simp: wake_kind_def hs_remove_def\<close>)
qed (simp add: wake_kind_def)

lemma queue_inv_wake: "queue_inv h q \<Longrightarrow> queue_inv h (wake i q)"
proof -
  assume "queue_inv h q"
  then have "queue_inv h (q\<lparr>wq_admission_blocked := False\<rparr>)" by (simp add: queue_inv_def)
  then show ?thesis by (simp add: wake_def queue_inv_wake_kind)
qed

lemma queue_inv_retire: "queue_inv h (retire_children i q) = queue_inv h q"
  by (simp add: queue_inv_def retire_children_def)

text \<open>The turn gives its request back, keeps it waiting, or is done with it.\<close>

lemma queue_inv_disown: "queue_inv (Some (i, kind)) q \<Longrightarrow> queue_ok (disown i kind q)"
  by (auto simp: queue_inv_def disown_def hs_remove_def)

lemma queue_inv_await:
  "queue_inv (Some (work_key w)) q \<Longrightarrow> wk_kind w = SubmitWork \<or> wk_kind w = CleanupWork \<Longrightarrow> queue_ok (await w q)"
  by (auto simp: queue_inv_def await_def work_key_def split: if_splits)

section \<open>Turns keep the invariant\<close>

lemma queue_inv_schedule_children: "queue_inv h (st_work s) \<Longrightarrow> queue_inv h (st_work (schedule_insight_children i s))"
  by (auto simp: schedule_insight_children_def Let_def queue_inv_retire queue_inv_children split: option.split)

lemma queue_inv_schedule_cleanup: "queue_inv h (st_work s) \<Longrightarrow> queue_inv h (st_work (schedule_insight_cleanup i s))"
  by (simp add: schedule_insight_cleanup_def queue_inv_wake queue_inv_push)

lemma queue_inv_schedule_descendants: "queue_inv h (st_work s) \<Longrightarrow> queue_inv h (st_work (schedule_descendant_cleanup i s))"
proof -
  have "queue_inv h (st_work s) \<Longrightarrow> queue_inv h (st_work (fold schedule_insight_cleanup is s))" for "is"
    by (induction "is" arbitrary: s) (simp_all add: queue_inv_schedule_cleanup)
  then show "queue_inv h (st_work s) \<Longrightarrow> ?thesis" by (simp add: schedule_descendant_cleanup_def)
qed

lemma reduce_terminal_work: "reduce_terminal_command_receipts W i s = Some s' \<Longrightarrow> st_work s' = st_work s"
  by (auto simp: reduce_terminal_command_receipts_def Let_def split: option.splits if_splits prod.splits)

lemma recover_ok: "queue_ok (st_work s) \<Longrightarrow> recover_insight_work W i s = Some s' \<Longrightarrow> queue_ok (st_work s')"
  by (auto simp: recover_insight_work_def reduce_terminal_work queue_inv_schedule_cleanup queue_inv_push
      intro!: queue_inv_schedule_children split: option.splits if_splits)

text \<open>A child cursor goes back to the end of the queue.\<close>

lemma queue_inv_advance:
  assumes "queue_inv (Some (work_key w)) q" "wk_kind w \<noteq> CleanupWork" "wk_kind w \<noteq> RecoverWork"
    and "w' = w\<lparr>wk_next_child := n\<rparr>"
  shows "queue_ok (q\<lparr>wq_child_cursors := cs, wq_ready := wq_ready q @ [w']\<rparr>)"
proof (rule queue_inv_enqueue [OF assms(1), where w = w'])
  have k: "work_key w' = work_key w" "wk_kind w' = wk_kind w" by (simp_all add: assms(4) work_key_def)
  show "work_key w' \<notin> work_key ` set (wq_ready q)" "hm_get (wq_waiting q) (work_key w') = None" "wk_kind w' \<noteq> RecoverWork"
    using assms(1,3) by (simp_all add: k queue_inv_def)
  show "\<forall>k. None = Some k \<longleftrightarrow> Some (work_key w) = Some k \<and> k \<noteq> work_key w'" by (simp add: k)
  show "set (wq_owned (q\<lparr>wq_child_cursors := cs, wq_ready := wq_ready q @ [w']\<rparr>)) = insert (work_key w') (set (wq_owned q))"
    using queue_invD(1) [OF assms(1), of "work_key w"] by (auto simp: k)
qed (use assms in \<open>auto simp: queue_inv_def\<close>)

lemma child_step_ok:
  assumes inv: "queue_inv (Some (work_key w)) (st_work s)" and kind: "wk_kind w = SplitChildren \<or> wk_kind w = FilledChildren"
    and step: "child_step W w s = Some s'"
  shows "queue_ok (st_work s')"
proof -
  have drop: "queue_ok (disown (wk_id w) (wk_kind w) (st_work s))" using inv by (simp add: queue_inv_disown work_key_def)
  have adv: "queue_ok ((st_work s)\<lparr>wq_child_cursors := cs, wq_ready := wq_ready (st_work s) @ [w\<lparr>wk_next_child := n\<rparr>]\<rparr>)" for cs n
    using queue_inv_advance [OF inv] kind by auto
  show ?thesis
    using step drop
    by (auto simp: child_step_def Let_def queue_inv_retire intro!: adv queue_inv_push queue_inv_schedule_children
        split: option.splits if_splits)
qed

lemma settle_ok:
  assumes inv: "queue_inv (Some (work_key w)) (st_work s)" and kind: "wk_kind w = SubmitWork \<or> wk_kind w = CleanupWork"
    and front: "wk_kind w = CleanupWork \<or> (\<forall>v\<in>set (wq_ready (st_work s)). wk_kind v \<noteq> CleanupWork)"
    and step: "settle_request W w result t s = (stop, s')"
  shows "queue_ok (st_work s')"
proof -
  have drop: "queue_ok (disown (wk_id w) (wk_kind w) (st_work s))" using inv by (simp add: queue_inv_disown work_key_def)
  have wait: "queue_ok (await w (st_work s))" using queue_inv_await [OF inv kind] .
  have front: "queue_ok ((st_work s)\<lparr>wq_ready := w # wq_ready (st_work s), wq_admission_blocked := True\<rparr>)"
    by (rule queue_inv_enqueue [OF inv, where w = w])
      (use inv kind front queue_invD(1) [OF inv, of "work_key w"] in \<open>auto simp: queue_inv_def insert_absorb simp del: split_paired_All\<close>)
  show ?thesis
    using step drop wait front
    by (auto simp: settle_request_def split: sum.splits BrokerCommandError.splits InsightMutationState.splits if_splits)
qed

lemma entry_step_ok:
  assumes inv: "queue_inv (Some (work_key w)) (st_work s)" and kind: "wk_kind w = SubmitWork \<or> wk_kind w = CleanupWork"
    and front: "wk_kind w = CleanupWork \<or> (\<forall>v\<in>set (wq_ready (st_work s)). wk_kind v \<noteq> CleanupWork)"
    and step: "entry_step W w s = Some (stop, s')"
  shows "queue_ok (st_work s')"
proof -
  have drop: "queue_ok (disown (wk_id w) (wk_kind w) (st_work s))" using inv by (simp add: queue_inv_disown work_key_def)
  have settle: "queue_ok (st_work s2)" if "settle_request W w result t (s\<lparr>st_insights := c, st_rest := y\<rparr>) = (b, s2)" for result t c y b s2
    using settle_ok [OF _ kind _ that] inv front by simp
  show ?thesis
    using step drop
    by (auto simp: entry_step_def Let_def intro!: queue_inv_schedule_cleanup queue_inv_schedule_children dest!: settle
        split: option.splits if_splits prod.splits)
qed

lemma next_work_ok:
  assumes "queue_ok q" "next_work q = Some (w, q')"
  shows "if wk_kind w = RecoverWork then queue_ok q'
    else queue_inv (Some (work_key w)) q' \<and> (wk_kind w = CleanupWork \<or> (\<forall>v\<in>set (wq_ready q'). wk_kind v \<noteq> CleanupWork))"
proof (cases "\<not> cleanup_ready q \<and> wq_recovery q \<noteq> []")
  case True
  then obtain i rest where "w = \<lparr>wk_id = i, wk_kind = RecoverWork, wk_next_child = 0\<rparr>" "q' = q\<lparr>wq_recovery := rest\<rparr>"
    using assms(2) by (auto simp: next_work_def neq_Nil_conv)
  then show ?thesis using assms(1) queue_inv_cong [of q' q None] by simp
next
  case False
  then obtain rest where r: "wq_ready q = w # rest" "q' = q\<lparr>wq_ready := rest\<rparr>"
    using assms(2) by (auto simp: next_work_def Let_def split: if_splits list.splits)
  have "wk_kind w \<noteq> RecoverWork" "cleanups_first (w # rest)" using assms(1) r(1) by (auto simp: queue_inv_def)
  then have "cleanups_first rest" "wk_kind w = CleanupWork \<or> (\<forall>v\<in>set rest. wk_kind v \<noteq> CleanupWork)"
    using cleanups_first_tl [of w rest] cleanups_first_head [of w rest] by auto
  moreover have "queue_inv (Some (work_key w)) q'"
  proof -
    have "(\<forall>k. k \<in> set (wq_owned q) \<longleftrightarrow> k = work_key w \<or> k \<in> work_key ` set rest \<or> hm_get (wq_waiting q) k \<noteq> None)"
      "work_key w \<notin> work_key ` set rest" "hm_get (wq_waiting q) (work_key w) = None"
      using queue_invD(1) [OF assms(1)] queue_invD(2) [OF assms(1), of "work_key w"] assms(1) r(1)
      by (auto simp: queue_inv_def simp del: split_paired_All)
    then show ?thesis using assms(1) \<open>cleanups_first rest\<close> unfolding queue_inv_def r by (simp del: split_paired_All) metis
  qed
  ultimately show ?thesis using \<open>wk_kind w \<noteq> RecoverWork\<close> r by simp
qed

lemma work_step_ok:
  assumes "queue_ok (st_work s)" "next_work (st_work s) = Some (w, q)" "work_step W w (s\<lparr>st_work := q\<rparr>) = Some (stop, s')"
  shows "queue_ok (st_work s')"
  using next_work_ok [OF assms(1,2)] assms(3) recover_ok [of "s\<lparr>st_work := q\<rparr>"] child_step_ok [of w "s\<lparr>st_work := q\<rparr>"]
    entry_step_ok [of w "s\<lparr>st_work := q\<rparr>"]
  by (cases "wk_kind w") (auto simp: work_step_def)

lemma process_loop_ok:
  "queue_ok (st_work s) \<Longrightarrow> process_loop n W allow processed s = Some (m, s') \<Longrightarrow> queue_ok (st_work s') \<and> m \<le> processed + n"
proof (induction n W allow processed s rule: process_loop.induct)
  case (2 n W allow processed s)
  show ?case
  proof (cases "(0 < processed \<and> \<not> allow processed) \<or> \<not> is_ready_for_execution (insight_execution_enabled s) (st_work s)
      \<or> next_work (st_work s) = None")
    case True
    then show ?thesis using 2(2,3) by (auto split: if_splits)
  next
    case False
    then obtain w q where w: "next_work (st_work s) = Some (w, q)" by auto
    obtain stop s1 where s1: "work_step W w (s\<lparr>st_work := q\<rparr>) = Some (stop, s1)"
      using 2(3) False w by (cases "work_step W w (s\<lparr>st_work := q\<rparr>)") auto
    have "queue_ok (st_work s1)" using work_step_ok [OF 2(2) w s1] .
    then show ?thesis using 2(1) [OF _ _ w refl s1] 2(3) False w s1 by (auto split: if_splits)
  qed
qed auto

text \<open>
  The states of a strategy: the queue is touched by these operations only, while the insights, the status, the
  shutdown flag and the rest of the strategy change freely in between.
\<close>

inductive work_reachable :: "('y, 'v) WorkOps \<Rightarrow> 'y StrategyRun \<Rightarrow> bool" for W where
  start: "st_work s = queue_default \<Longrightarrow> work_reachable W s"
| elsewhere: "work_reachable W s \<Longrightarrow> st_work s' = st_work s \<Longrightarrow> work_reachable W s'"
| recovery: "work_reachable W s \<Longrightarrow> work_reachable W (on_work (restore_queue ids) s)"
| wakes: "work_reachable W s \<Longrightarrow> work_reachable W (on_work (wake i) s)"
| retires: "work_reachable W s \<Longrightarrow> work_reachable W (on_work (retire_children i) s)"
| children: "work_reachable W s \<Longrightarrow> work_reachable W (schedule_insight_children i s)"
| cleanup: "work_reachable W s \<Longrightarrow> work_reachable W (schedule_insight_cleanup i s)"
| descendants: "work_reachable W s \<Longrightarrow> work_reachable W (schedule_descendant_cleanup i s)"
| turn: "work_reachable W s \<Longrightarrow> process_insight_work W max_work allow s = Some (n, s') \<Longrightarrow> work_reachable W s'"

lemma reachable_queue_ok: "work_reachable W s \<Longrightarrow> queue_ok (st_work s)"
proof (induction rule: work_reachable.induct)
  case (recovery s ids)
  then show ?case by (simp add: restore_queue_def queue_inv_def)
next
  case (turn s max_work allow n s')
  then show ?case using process_loop_ok unfolding process_insight_work_def by blast
qed (simp_all add: queue_ok_default queue_inv_wake queue_inv_retire queue_inv_schedule_children queue_inv_schedule_cleanup
    queue_inv_schedule_descendants)

section \<open>Properties\<close>

text \<open>C21: (\<open>InsightWorkQueue\<close>, \<open>process_insight_work\<close>) In every state the strategy reaches, each request of an insight is
  owned exactly when it is either ready or waiting, never both and never twice, so back-pressure loses no request and repeated
  observations duplicate none; cleanups stand before every other request; and a turn works off at most the bound it was given.\<close>

theorem work_requests_unique:
  assumes "work_reachable W s"
  shows "distinct (map work_key (wq_ready (st_work s)))
    \<and> (\<forall>k. k \<in> set (wq_owned (st_work s)) \<longleftrightarrow> (k \<in> work_key ` set (wq_ready (st_work s))) \<noteq> (hm_get (wq_waiting (st_work s)) k \<noteq> None))
    \<and> cleanups_first (wq_ready (st_work s))
    \<and> (\<forall>max_work allow n s'. process_insight_work W max_work allow s = Some (n, s') \<longrightarrow> n \<le> min max_work 256)"
proof -
  note ok = reachable_queue_ok [OF assms]
  have "n \<le> min max_work 256" if "process_insight_work W max_work allow s = Some (n, s')" for max_work allow n s'
    using process_loop_ok [OF ok that [unfolded process_insight_work_def]] by simp
  moreover have "k \<in> set (wq_owned (st_work s)) \<longleftrightarrow> (k \<in> work_key ` set (wq_ready (st_work s))) \<noteq> (hm_get (wq_waiting (st_work s)) k \<noteq> None)" for k
    using queue_invD [OF ok, of k] by blast
  ultimately show ?thesis using ok by (auto simp: queue_inv_def)
qed

definition idle_context :: "unit StrategyContext" where
  "idle_context = \<lparr>ctx_enqueue_broker_command = (\<lambda>x _ _ _. (Inl CmdQueueFull, x)), ctx_broker_command_progress = (\<lambda>_ _. None),
     ctx_broker_command_reduced = (\<lambda>x _. x), ctx_cancel_pending_entry = (\<lambda>x _. (Inl CmdQueueFull, x)), ctx_current_time = (\<lambda>_. 0),
     ctx_universe = (\<lambda>_ _. None), ctx_can_amend_limit = (\<lambda>_. False), ctx_can_amend_stop = (\<lambda>_. False)\<rparr>"

definition sample_work :: "(unit, uuid list) WorkOps" where
  "sample_work = \<lparr>wo_context = idle_context, wo_calendar = civil_calendar, wo_json = plain_json, wo_fingerprint = (\<lambda>_. 0),
     wo_insight_context = (\<lambda>_. \<lparr>isc_clock = sconst 0, isc_position_reader = None\<rparr>), wo_has_pending_owner = (\<lambda>_ _. False),
     wo_reduce_terminal = (\<lambda>_ _ _ y. y)\<rparr>"

definition sample_run :: "InsightTree list \<Rightarrow> unit StrategyRun" where
  "sample_run ts = \<lparr>st_insights = collection_new\<lparr>ic_insights := map (\<lambda>t. (insight_id t, t)) ts\<rparr>, st_work = queue_default,
     st_status = Running, st_shutdown = False, st_rest = ()\<rparr>"

theorem work_requests_unique_witness:
  "distinct (map work_key (wq_ready (st_work (schedule_insight_cleanup ''i'' (schedule_insight_cleanup ''i'' (sample_run []))))))
   \<and> cleanups_first (wq_ready (st_work (schedule_insight_cleanup ''i'' (schedule_insight_cleanup ''i'' (sample_run [])))))
   \<and> length (wq_ready (st_work (schedule_insight_cleanup ''i'' (schedule_insight_cleanup ''i'' (sample_run []))))) = 1"
proof -
  have "work_reachable sample_work (schedule_insight_cleanup ''i'' (schedule_insight_cleanup ''i'' (sample_run [])))"
    by (intro work_reachable.cleanup work_reachable.start) (simp add: sample_run_def)
  from work_requests_unique [OF this]
  show ?thesis by (simp add: schedule_insight_cleanup_def push_def wake_def wake_kind_def sample_run_def queue_default_def hs_insert_def)
qed

end
