(* ===== verification/InsightTurn.thy ===== *)
theory InsightTurn
  imports PipelineProperties SnapshotDependencies InsightWork
begin

text \<open>
  The pipeline of a strategy and the turn of an insight through it
  (\<open>InsightPipeline\<close> of \<open>src/src/core/strategy/types/mod.rs\<close>, \<open>run_insight_pipeline_budgeted\<close> of
  \<open>src/src/core/strategy/mod.rs\<close>).

  The stages see the strategy without the row they work on, which the turn has taken out.  The clock and the shutdown
  requests that end a live sweep early are arguments.  The sweep is modelled up to the reduction of trade events that
  follows it.
\<close>

section \<open>The pipeline\<close>

record DeferredPipeResume =
  dp_state :: InsightState
  dp_index :: nat
  dp_dependency :: InsightPipeDeferral
  dp_snapshot_attempted :: "SnapshotReadRevision option"

record InsightPipelineCheckpoint =
  ic_state :: InsightState
  ic_index :: nat
  ic_dependency :: InsightPipeDeferral
  ic_layout :: "string list"
  ic_nested :: "PipeContinuationCheckpoint option"

record 'p InsightPipeline =
  pl_pipeline :: "(InsightState, 'p Wrapped list) hmap"
  pl_deferred :: "(uuid \<times> DeferredPipeResume) list"
  pl_snapshot_dependencies :: SnapshotDependencies

definition pipeline_default :: "'p InsightPipeline" where
  "pipeline_default = \<lparr>pl_pipeline = [(StNew, []), (StExecuted, []), (StClosed, []), (StFilled, []), (StCancelled, []), (StRejected, [])],
     pl_deferred = [], pl_snapshot_dependencies = deps_default\<rparr>"

definition add_pipe :: "'p Wrapped \<Rightarrow> 'p InsightPipeline \<Rightarrow> 'p InsightPipeline" where
  "add_pipe w pl = (let state = pcf_target_state (wp_config w) in
     pl\<lparr>pl_pipeline := hm_insert state (unwrap_or (hm_get (pl_pipeline pl) state) [] @ [w]) (pl_pipeline pl)\<rparr>)"

definition add_pipes :: "'p Wrapped list \<Rightarrow> 'p InsightPipeline \<Rightarrow> 'p InsightPipeline" where
  "add_pipes ws pl = fold add_pipe ws pl"

definition pending_deferral :: "'p InsightPipeline \<Rightarrow> uuid \<Rightarrow> InsightPipeDeferral option" where
  "pending_deferral pl i = map_option dp_dependency (hm_get (pl_deferred pl) i)"

definition set_deps :: "SnapshotDependencies \<Rightarrow> 'p InsightPipeline \<Rightarrow> 'p InsightPipeline" where
  "set_deps d pl = pl\<lparr>pl_snapshot_dependencies := d\<rparr>"

definition pipeline_forget :: "uuid \<Rightarrow> 'p InsightPipeline \<Rightarrow> bool \<times> 'p InsightPipeline" where
  "pipeline_forget i pl =
     (let pl = set_deps (deps_remove i (pl_snapshot_dependencies pl)) pl in
      case hm_get (pl_deferred pl) i of None \<Rightarrow> (False, pl)
      | Some resume \<Rightarrow>
          (True, pl\<lparr>pl_deferred := hm_remove i (pl_deferred pl),
                    pl_pipeline := hm_modify (dp_state resume) (\<lambda>ws. case nth_opt ws (dp_index resume) of None \<Rightarrow> ws
                        | Some w \<Rightarrow> ws[dp_index resume := wrapped_forget w i]) (pl_pipeline pl)\<rparr>))"

definition layouts :: "LayoutJson \<Rightarrow> ('p, 'x) PipeOps \<Rightarrow> 'p Wrapped list \<Rightarrow> string list" where
  "layouts J P ws = map (\<lambda>w. wrapped_layout w J P) ws"

definition pipeline_checkpoint :: "LayoutJson \<Rightarrow> ('p, 'x) PipeOps \<Rightarrow> 'p InsightPipeline \<Rightarrow> uuid \<Rightarrow> InsightPipelineCheckpoint option" where
  "pipeline_checkpoint J P pl i = (case hm_get (pl_deferred pl) i of None \<Rightarrow> None
     | Some resume \<Rightarrow> (case hm_get (pl_pipeline pl) (dp_state resume) of None \<Rightarrow> None
        | Some pipes \<Rightarrow> (case nth_opt pipes (dp_index resume) of None \<Rightarrow> None
           | Some w \<Rightarrow> Some \<lparr>ic_state = dp_state resume, ic_index = dp_index resume, ic_dependency = dp_dependency resume,
                ic_layout = layouts J P pipes, ic_nested = wrapped_checkpoint w i\<rparr>)))"

definition pipeline_restore :: "LayoutJson \<Rightarrow> ('p, 'x) PipeOps \<Rightarrow> uuid \<Rightarrow> InsightPipelineCheckpoint \<Rightarrow> 'p InsightPipeline
    \<Rightarrow> string + 'p InsightPipeline" where
  "pipeline_restore J P i ck pl = (case hm_get (pl_pipeline pl) (ic_state ck) of None \<Rightarrow> Inl ''saved pipeline state no longer exists''
     | Some pipes \<Rightarrow>
        if layouts J P pipes \<noteq> ic_layout ck then Inl ''pipeline layout changed since execution checkpoint''
        else case nth_opt pipes (ic_index ck) of None \<Rightarrow> Inl ''saved pipeline index is out of range''
        | Some w \<Rightarrow>
           (case wrapped_restore w i (ic_nested ck) of Inl e \<Rightarrow> Inl e
            | Inr w \<Rightarrow>
                let resume = \<lparr>dp_state = ic_state ck, dp_index = ic_index ck, dp_dependency = ic_dependency ck, dp_snapshot_attempted = None\<rparr>;
                    pl = pl\<lparr>pl_pipeline := hm_modify (ic_state ck) (\<lambda>ws. ws[ic_index ck := w]) (pl_pipeline pl),
                            pl_deferred := bm_insert i resume (pl_deferred pl)\<rparr>
                in Inr (set_deps (snd (deps_update i (Some (ic_dependency ck)) (pl_snapshot_dependencies pl))) pl)))"

section \<open>A turn\<close>

record ('p, 'y, 'v) TurnOps =
  tn_pipes :: "('p, 'y StrategyRun) PipeOps"
  tn_work :: "('y, 'v) WorkOps"
  tn_layout :: LayoutJson

definition on_tree :: "(unit Insight \<Rightarrow> unit Insight) \<Rightarrow> InsightTree \<Rightarrow> InsightTree" where
  "on_tree f t = Tree (f (tree_row t)) (tree_data t) (tree_children t)"

definition state_pipes :: "'p InsightPipeline \<Rightarrow> InsightState \<Rightarrow> 'p Wrapped list" where
  "state_pipes pl state = unwrap_or (hm_get (pl_pipeline pl) state) []"

definition expiration_managed :: "('p, 'x) PipeOps \<Rightarrow> 'p InsightPipeline \<Rightarrow> InsightTree \<Rightarrow> bool" where
  "expiration_managed P pl t \<longleftrightarrow>
     (\<exists>w\<in>set (state_pipes pl (tree_state t)). controls_expiration P (wp_inner w) \<and> matches_asset_and_alpha (wp_config w) t)"

text \<open>What a failed stage does to the insight: an open position stays, a submission is cleaned up, anything else is rejected.\<close>

definition fail_turn :: "uuid \<Rightarrow> string \<Rightarrow> InsightTree \<Rightarrow> 'y StrategyRun \<Rightarrow> InsightTree \<times> 'y StrategyRun" where
  "fail_turn i reason t s =
     (if tree_state t = StFilled
      then (on_tree (state_log (Some (NoteText (''Filled insight pipeline failed; position remains active: '' @ reason)))) t, s)
      else if has_pending_submit (tree_row t) \<or> tree_state t = StExecuted
      then (on_tree (state_log (Some (NoteText (''Insight pipeline failed; broker cleanup requested: '' @ reason)))) t,
            schedule_insight_cleanup i s)
      else if \<not> is_inactive (tree_state t) then (on_tree (order_rejected reason) t, s)
      else (t, s))"

definition failure_reason :: "InsightPipeResult \<Rightarrow> string" where
  "failure_reason r = unwrap_or (pr_message r)
     (''Insight pipe '' @ pr_pipe_name r @ (if pr_success r then '' did not pass'' else '' failed''))"

text \<open>
  The stages of a state are run as the children of an \<open>AndPipe\<close> are: from the resumption on, skipping the ones that do
  not apply, up to the first that defers, fails or does not pass.
\<close>

definition run_stages :: "('p, 'x) PipeOps \<Rightarrow> nat \<Rightarrow> 'p Wrapped list \<Rightarrow> 'x \<Rightarrow> InsightTree \<Rightarrow> LoopEnd \<times> 'p Wrapped list \<times> 'x \<times> InsightTree" where
  "run_stages P start ws x t = and_loop 0 start [] (zip ws (map (\<lambda>w. run_wrapped w P) ws)) x t"

definition touched_by :: "('y, 'v) WorkOps \<Rightarrow> nat option \<Rightarrow> InsightTree \<Rightarrow> bool" where
  "touched_by W before t = (case before of None \<Rightarrow> False | Some h \<Rightarrow> h \<noteq> wo_fingerprint W t)"

definition insight_turn :: "('p, 'y, 'v) TurnOps \<Rightarrow> uuid \<Rightarrow> InsightTree \<Rightarrow> 'p InsightPipeline \<Rightarrow> 'y StrategyRun
    \<Rightarrow> bool \<times> InsightTree \<times> 'p InsightPipeline \<times> 'y StrategyRun" where
  "insight_turn T i t pl s =
     (let P = tn_pipes T; W = tn_work T; state = tree_state t; can = can_expire (tree_row t);
          clear = (state = StFilled \<and> ins_first_on_fill (tree_row t));
          before = (if can \<or> clear then Some (wo_fingerprint W t) else None);
          (expired, t1, y) = (if can \<and> \<not> expiration_managed P pl t
             then on_row (has_expired (wo_calendar W)) (wo_context W) t (st_rest s) else (False, t, st_rest s));
          s = s\<lparr>st_rest := y\<rparr>
      in if expired then (touched_by W before t1, t1, pl, s)
         else let previous = hm_get (pl_deferred pl) i; start = (case previous of None \<Rightarrow> 0 | Some resume \<Rightarrow> dp_index resume);
                  pl = pl\<lparr>pl_deferred := hm_remove i (pl_deferred pl)\<rparr>;
                  before = (if before = None \<and> (\<exists>w\<in>set (state_pipes pl state). should_run (wp_config w) t1)
                            then Some (wo_fingerprint W t1) else before);
                  (e, ws, s, t2) = run_stages P start (state_pipes pl state) s t1;
                  pl = pl\<lparr>pl_pipeline := hm_modify state (\<lambda>_. ws) (pl_pipeline pl)\<rparr>
              in (case e of
                    LoopDeferred k r \<Rightarrow>
                      let dependency = the (pr_deferred r);
                          attempted = (case previous of None \<Rightarrow> None
                            | Some resume \<Rightarrow> if dp_dependency resume = dependency then dp_snapshot_attempted resume else None)
                      in (touched_by W before t2, t2,
                          pl\<lparr>pl_deferred := bm_insert i \<lparr>dp_state = state, dp_index = k, dp_dependency = dependency,
                                                         dp_snapshot_attempted = attempted\<rparr> (pl_deferred pl)\<rparr>, s)
                  | LoopStopped r _ _ \<Rightarrow>
                      if \<not> pr_success r \<or> \<not> leaves_turn t2
                      then let (t3, s) = fail_turn i (failure_reason r) t2 s in (touched_by W before t3, t3, pl, s)
                      else let t3 = (if clear then on_tree (set_first_on_fill False) t2 else t2) in (touched_by W before t3, t3, pl, s)
                  | LoopDone _ \<Rightarrow>
                      let t3 = (if clear then on_tree (set_first_on_fill False) t2 else t2) in (touched_by W before t3, t3, pl, s)))"

section \<open>A sweep\<close>

definition mark_dirty :: "uuid \<Rightarrow> 'y StrategyRun \<Rightarrow> 'y StrategyRun" where
  "mark_dirty i s = s\<lparr>st_insights := mark_execution_dirty i (st_insights s)\<rparr>"

definition forget_dirty :: "uuid \<Rightarrow> 'p InsightPipeline \<Rightarrow> 'y StrategyRun \<Rightarrow> 'p InsightPipeline \<times> 'y StrategyRun" where
  "forget_dirty i pl s = (case pipeline_forget i pl of (found, pl) \<Rightarrow> (pl, if found then mark_dirty i s else s))"

text \<open>
  The bookkeeping after a turn: a changed continuation is written, has attempted no snapshot yet and joins its group anew.  The boolean
  says whether the membership of a group changed.
\<close>

definition settle_turn :: "('p, 'y, 'v) TurnOps \<Rightarrow> uuid \<Rightarrow> InsightPipelineCheckpoint option \<Rightarrow> 'p InsightPipeline \<Rightarrow> 'y StrategyRun
    \<Rightarrow> bool \<times> 'p InsightPipeline \<times> 'y StrategyRun" where
  "settle_turn T i before pl s =
     (let changed = (before \<noteq> pipeline_checkpoint (tn_layout T) (tn_pipes T) pl i);
          s = (if changed then mark_dirty i s else s);
          pl = (if changed then set_deps (deps_remove i (pl_snapshot_dependencies pl))
                  (pl\<lparr>pl_deferred := hm_modify i (\<lambda>r. r\<lparr>dp_snapshot_attempted := None\<rparr>) (pl_deferred pl)\<rparr>) else pl);
          (joined, d) = deps_update i (pending_deferral pl i) (pl_snapshot_dependencies pl)
      in (joined, set_deps d pl, schedule_insight_children i s))"

definition sweep_one :: "('p, 'y, 'v) TurnOps \<Rightarrow> uuid \<Rightarrow> uuid list \<Rightarrow> 'p InsightPipeline \<Rightarrow> 'y StrategyRun
    \<Rightarrow> (bool \<times> uuid list \<times> 'p InsightPipeline \<times> 'y StrategyRun) option" where
  "sweep_one T i touched pl s = (case row s i of
       None \<Rightarrow> (case forget_dirty i pl s of (pl, s) \<Rightarrow> Some (False, touched, pl, s))
     | Some r \<Rightarrow>
        if is_inactive (tree_state r) then (case forget_dirty i pl s of (pl, s) \<Rightarrow> Some (False, touched, pl, s))
        else let (pl, s) = (case hm_get (pl_deferred pl) i of None \<Rightarrow> (pl, s)
                   | Some resume \<Rightarrow> if dp_state resume \<noteq> tree_state r then forget_dirty i pl s else (pl, s));
                 before = pipeline_checkpoint (tn_layout T) (tn_pipes T) pl i;
                 s = s\<lparr>st_insights := snd (take_for_update i (st_insights s))\<rparr>;
                 (hit, t, pl, s) = insight_turn T i r pl s;
                 touched = (if hit then hs_insert i touched else touched)
             in (case restore_after_update (wo_json (tn_work T)) t (i \<in> set touched) (st_insights s) of None \<Rightarrow> None
                 | Some c \<Rightarrow> (case settle_turn T i before pl (s\<lparr>st_insights := c\<rparr>) of (joined, pl, s) \<Rightarrow> Some (joined, touched, pl, s))))"

text \<open>\<open>stop n\<close>: the budget is used up or a shutdown is requested after \<open>n\<close> turns.\<close>

fun sweep :: "('p, 'y, 'v) TurnOps \<Rightarrow> (nat \<Rightarrow> bool) \<Rightarrow> nat \<Rightarrow> uuid list \<Rightarrow> uuid list \<Rightarrow> 'p InsightPipeline \<Rightarrow> 'y StrategyRun
    \<Rightarrow> (bool \<times> uuid option \<times> nat \<times> 'p InsightPipeline \<times> 'y StrategyRun) option" where
  "sweep T stop processed touched [] pl s = Some (False, None, processed, pl, s)"
| "sweep T stop processed touched (i # is) pl s =
     (if stop processed then Some (False, None, processed, pl, s)
      else case sweep_one T i touched pl s of None \<Rightarrow> None
      | Some (joined, touched, pl, s) \<Rightarrow>
          map_option (\<lambda>(j, l, n, pl, s). (joined \<or> j, (case l of None \<Rightarrow> Some i | Some _ \<Rightarrow> l), n, pl, s))
            (sweep T stop (processed + 1) touched is pl s))"

definition stale_continuations :: "uuid list \<Rightarrow> 'p InsightPipeline \<Rightarrow> 'y StrategyRun \<Rightarrow> uuid list" where
  "stale_continuations active pl s = map fst (filter (\<lambda>(i, resume).
     \<not> (case row s i of None \<Rightarrow> False | Some r \<Rightarrow> i \<in> set active \<and> tree_state r = dp_state resume)) (pl_deferred pl))"

definition retain_pipes :: "uuid list \<Rightarrow> 'p InsightPipeline \<Rightarrow> 'p InsightPipeline" where
  "retain_pipes active pl = pl\<lparr>pl_pipeline := map (\<lambda>(state, ws). (state, map (\<lambda>w. wrapped_retain w active) ws)) (pl_pipeline pl)\<rparr>"

definition full_pass_cleanup :: "uuid list \<Rightarrow> 'p InsightPipeline \<Rightarrow> 'y StrategyRun \<Rightarrow> 'p InsightPipeline \<times> 'y StrategyRun" where
  "full_pass_cleanup active pl s =
     (if pl_deferred pl = [] then (pl, s)
      else case fold (\<lambda>i (pl, s). (snd (pipeline_forget i pl), mark_dirty i s)) (stale_continuations active pl s) (pl, s) of
        (pl, s) \<Rightarrow> (retain_pipes active pl, s))"

definition run_insight_pipeline :: "('p, 'y, 'v) TurnOps \<Rightarrow> uuid list option \<Rightarrow> (nat \<Rightarrow> bool) option \<Rightarrow> 'p InsightPipeline \<Rightarrow> 'y StrategyRun
    \<Rightarrow> (bool \<times> uuid option \<times> nat \<times> 'p InsightPipeline \<times> 'y StrategyRun) option" where
  "run_insight_pipeline T selected budget pl s =
     (let ids = unwrap_or selected (ic_active (st_insights s));
          (pl, s) = (if selected = None then full_pass_cleanup ids pl s else (pl, s))
      in sweep T (unwrap_or budget (\<lambda>_. False)) 0 [] ids pl s)"

section \<open>Continuations and the snapshot index agree\<close>

definition waits_for :: "'p InsightPipeline \<Rightarrow> uuid \<Rightarrow> SnapshotKind option" where
  "waits_for pl i = Option.bind (pending_deferral pl i) dependency_kind"

definition pipeline_inv :: "uuid option \<Rightarrow> 'p InsightPipeline \<Rightarrow> bool" where
  "pipeline_inv except pl \<longleftrightarrow> deps_ok (pl_snapshot_dependencies pl)
     \<and> (\<forall>i. except \<noteq> Some i \<longrightarrow> hm_get (sd_owners (pl_snapshot_dependencies pl)) i = waits_for pl i)"

lemma pipeline_inv_default: "pipeline_inv None pipeline_default"
  by (simp add: pipeline_inv_def pipeline_default_def deps_ok_default [unfolded deps_default_def] waits_for_def pending_deferral_def deps_default_def)

lemma deps_update_owners:
  assumes "deps_ok d"
  shows "hm_get (sd_owners (snd (deps_update i dependency d))) j
    = (if j = i then Option.bind dependency dependency_kind else hm_get (sd_owners d) j)"
  using deps_remove(2) [OF assms, of i j]
  by (auto simp: deps_update_def Let_def split: option.split)

lemma deps_update_ok: "deps_ok d \<Longrightarrow> deps_ok (snd (deps_update i dependency d))"
  using deps_update(1) [of d i dependency] by (cases "deps_update i dependency d") auto

text \<open>The invariant depends on these two fields only.\<close>

lemma pipeline_inv_cong:
  "pl_deferred pl' = pl_deferred pl \<Longrightarrow> pl_snapshot_dependencies pl' = pl_snapshot_dependencies pl \<Longrightarrow> pipeline_inv e pl' = pipeline_inv e pl"
  by (simp add: pipeline_inv_def waits_for_def pending_deferral_def)

lemma pipeline_inv_forget: "pipeline_inv None pl \<Longrightarrow> pipeline_inv None (snd (pipeline_forget i pl))"
  using deps_remove(1,2) [of "pl_snapshot_dependencies pl" i]
  by (auto simp: pipeline_inv_def pipeline_forget_def set_deps_def Let_def waits_for_def pending_deferral_def split: option.splits)

lemma pipeline_inv_forget_dirty: "pipeline_inv None pl \<Longrightarrow> forget_dirty i pl s = (pl', s') \<Longrightarrow> pipeline_inv None pl'"
  using pipeline_inv_forget [of pl i] by (auto simp: forget_dirty_def split: prod.splits)

lemma pipeline_inv_join:
  assumes "pipeline_inv (Some i) pl"
  shows "pipeline_inv None (set_deps (snd (deps_update i (pending_deferral pl i) (pl_snapshot_dependencies pl))) pl)"
  using assms deps_update_owners [of "pl_snapshot_dependencies pl"] deps_update_ok [of "pl_snapshot_dependencies pl"]
  by (auto simp: pipeline_inv_def set_deps_def waits_for_def pending_deferral_def)

text \<open>A turn changes the continuation of its insight only.\<close>

lemma insight_turn_frame:
  assumes "insight_turn T i t pl s = (hit, t', pl', s')"
  shows "pl_snapshot_dependencies pl' = pl_snapshot_dependencies pl \<and> (\<forall>j. j \<noteq> i \<longrightarrow> hm_get (pl_deferred pl') j = hm_get (pl_deferred pl) j)"
  using assms by (auto simp: insight_turn_def Let_def split: prod.splits if_splits LoopEnd.splits)

lemma pipeline_inv_turn:
  assumes "pipeline_inv None pl" "insight_turn T i t pl s = (hit, t', pl', s')"
  shows "pipeline_inv (Some i) pl'"
  using assms(1) insight_turn_frame [OF assms(2)] by (auto simp: pipeline_inv_def waits_for_def pending_deferral_def)

lemma pipeline_inv_settle:
  assumes inv: "pipeline_inv (Some i) pl" and step: "settle_turn T i before pl s = (joined, pl', s')"
  shows "pipeline_inv None pl'"
proof -
  define changed where "changed = (before \<noteq> pipeline_checkpoint (tn_layout T) (tn_pipes T) pl i)"
  define pl1 where "pl1 = (if changed then set_deps (deps_remove i (pl_snapshot_dependencies pl))
      (pl\<lparr>pl_deferred := hm_modify i (\<lambda>r. r\<lparr>dp_snapshot_attempted := None\<rparr>) (pl_deferred pl)\<rparr>) else pl)"
  have "pipeline_inv (Some i) pl1"
    using inv deps_remove(1,2) [of "pl_snapshot_dependencies pl" i]
    by (auto simp: pl1_def pipeline_inv_def set_deps_def waits_for_def pending_deferral_def)
  moreover have "pl' = set_deps (snd (deps_update i (pending_deferral pl1 i) (pl_snapshot_dependencies pl1))) pl1"
    using step by (simp add: settle_turn_def Let_def changed_def [symmetric] pl1_def [symmetric] split: prod.splits)
  ultimately show ?thesis using pipeline_inv_join by blast
qed

lemma pipeline_inv_sweep_one:
  assumes inv: "pipeline_inv None pl" and step: "sweep_one T i touched pl s = Some (joined, touched', pl', s')"
  shows "pipeline_inv None pl'"
proof (cases "case row s i of None \<Rightarrow> True | Some r \<Rightarrow> is_inactive (tree_state r)")
  case True
  then show ?thesis
    using step pipeline_inv_forget_dirty [OF inv] by (auto simp: sweep_one_def split: option.splits prod.splits)
next
  case False
  then obtain r where r: "row s i = Some r" "\<not> is_inactive (tree_state r)" by (auto split: option.splits)
  define start where "start = (case hm_get (pl_deferred pl) i of None \<Rightarrow> (pl, s)
     | Some resume \<Rightarrow> if dp_state resume \<noteq> tree_state r then forget_dirty i pl s else (pl, s))"
  obtain pl1 s1 where s1: "start = (pl1, s1)" by (cases start)
  have inv1: "pipeline_inv None pl1"
    using s1 inv pipeline_inv_forget_dirty [OF inv, of i s pl1 s1] by (auto simp: start_def split: option.splits if_splits)
  let ?s = "s1\<lparr>st_insights := snd (take_for_update i (st_insights s1))\<rparr>"
  obtain hit t pl2 s2 where turn: "insight_turn T i r pl1 ?s = (hit, t, pl2, s2)" using prod_cases4 by blast
  obtain c joined' pl3 s3 where "settle_turn T i (pipeline_checkpoint (tn_layout T) (tn_pipes T) pl1 i) pl2 (s2\<lparr>st_insights := c\<rparr>)
      = (joined', pl3, s3)" "pl' = pl3"
    using step r turn s1 by (auto simp: sweep_one_def Let_def start_def [symmetric] split: option.splits prod.splits)
  then show ?thesis using pipeline_inv_settle [OF pipeline_inv_turn [OF inv1 turn]] by blast
qed

lemma pipeline_inv_sweep: "pipeline_inv None pl \<Longrightarrow> sweep T stop n touched is pl s = Some (j, l, m, pl', s') \<Longrightarrow> pipeline_inv None pl'"
proof (induction "is" arbitrary: n touched pl s j l m)
  case (Cons i "is")
  show ?case
  proof (cases "stop n")
    case False
    then obtain joined touched1 pl1 s1 where one: "sweep_one T i touched pl s = Some (joined, touched1, pl1, s1)"
      using Cons.prems(2) by (cases "sweep_one T i touched pl s") auto
    then obtain j1 l1 m1 where "sweep T stop (n + 1) touched1 is pl1 s1 = Some (j1, l1, m1, pl', s')"
      using Cons.prems(2) False by auto
    then show ?thesis using Cons.IH pipeline_inv_sweep_one [OF Cons.prems(1) one] by blast
  qed (use Cons.prems in simp)
qed simp

lemma pipeline_inv_forget_all:
  "pipeline_inv None pl \<Longrightarrow> pipeline_inv None (fst (fold (\<lambda>i (pl, s). (snd (pipeline_forget i pl), mark_dirty i s)) is (pl, s)))"
  by (induction "is" arbitrary: pl s) (simp_all add: pipeline_inv_forget)

lemma pipeline_inv_full_pass:
  assumes "pipeline_inv None pl" "full_pass_cleanup active pl s = (pl', s')"
  shows "pipeline_inv None pl'"
proof (cases "pl_deferred pl = []")
  case False
  obtain pl1 s1 where f: "fold (\<lambda>i (pl, s). (snd (pipeline_forget i pl), mark_dirty i s)) (stale_continuations active pl s) (pl, s) = (pl1, s1)"
    by fastforce
  have "pipeline_inv None pl1" using pipeline_inv_forget_all [OF assms(1), of "stale_continuations active pl s" s] f by simp
  moreover have "pl' = retain_pipes active pl1" using assms(2) False f by (simp add: full_pass_cleanup_def)
  ultimately show ?thesis using pipeline_inv_cong [of pl' pl1 None] by (simp add: retain_pipes_def)
qed (use assms in \<open>simp add: full_pass_cleanup_def\<close>)

lemma pipeline_inv_restore:
  assumes "pipeline_inv None pl" "pipeline_restore J P i ck pl = Inr pl'"
  shows "pipeline_inv None pl'"
proof -
  let ?d = "pl_snapshot_dependencies pl"
  obtain resume where "pl_deferred pl' = bm_insert i resume (pl_deferred pl)" "dp_dependency resume = ic_dependency ck"
    "pl_snapshot_dependencies pl' = snd (deps_update i (Some (ic_dependency ck)) ?d)"
    using assms(2) by (auto simp: pipeline_restore_def set_deps_def Let_def split: option.splits if_splits sum.splits)
  then show ?thesis
    using assms(1) deps_update_owners [of ?d i "Some (ic_dependency ck)"] deps_update_ok [of ?d i "Some (ic_dependency ck)"]
    by (auto simp: pipeline_inv_def waits_for_def pending_deferral_def)
qed

text \<open>The pipelines a strategy reaches.\<close>

inductive pipeline_reachable :: "('p, 'y, 'v) TurnOps \<Rightarrow> 'p InsightPipeline \<Rightarrow> bool" for T where
  fresh: "pipeline_reachable T pipeline_default"
| adds: "pipeline_reachable T pl \<Longrightarrow> pipeline_reachable T (add_pipe w pl)"
| forgets: "pipeline_reachable T pl \<Longrightarrow> pipeline_reachable T (snd (pipeline_forget i pl))"
| restores: "pipeline_reachable T pl \<Longrightarrow> pipeline_restore (tn_layout T) (tn_pipes T) i ck pl = Inr pl' \<Longrightarrow> pipeline_reachable T pl'"
| resumes: "pipeline_reachable T pl \<Longrightarrow> deps_next k rv (pl_snapshot_dependencies pl) = Some (r, d) \<Longrightarrow> pipeline_reachable T (set_deps d pl)"
| runs: "pipeline_reachable T pl \<Longrightarrow> run_insight_pipeline T selected budget pl s = Some (joined, l, n, pl', s') \<Longrightarrow> pipeline_reachable T pl'"

lemma deps_next_owners: "deps_next k rv d = Some (r, d') \<Longrightarrow> sd_owners d' = sd_owners d"
  by (auto simp: deps_next_def Let_def split: option.splits)

lemma pipeline_reachable_inv: "pipeline_reachable T pl \<Longrightarrow> pipeline_inv None pl"
proof (induction rule: pipeline_reachable.induct)
  case (adds pl w)
  then show ?case using pipeline_inv_cong [of "add_pipe w pl" pl None] by (simp add: add_pipe_def Let_def)
next
  case (resumes pl k rv r d)
  then show ?case using deps_next [of "pl_snapshot_dependencies pl" k rv] deps_next_owners [OF resumes(2)]
    by (auto simp: pipeline_inv_def set_deps_def waits_for_def pending_deferral_def)
next
  case (runs pl selected budget s joined l n pl' s')
  show ?case
  proof (cases selected)
    case None
    obtain pl1 s1 where f: "full_pass_cleanup (ic_active (st_insights s)) pl s = (pl1, s1)" by fastforce
    have "sweep T (unwrap_or budget (\<lambda>_. False)) 0 [] (ic_active (st_insights s)) pl1 s1 = Some (joined, l, n, pl', s')"
      using runs(2) by (simp add: run_insight_pipeline_def None f)
    then show ?thesis by (rule pipeline_inv_sweep [OF pipeline_inv_full_pass [OF runs(3) f]])
  next
    case (Some ids)
    have "sweep T (unwrap_or budget (\<lambda>_. False)) 0 [] ids pl s = Some (joined, l, n, pl', s')"
      using runs(2) by (simp add: run_insight_pipeline_def Some)
    then show ?thesis by (rule pipeline_inv_sweep [OF runs(3)])
  qed
qed (simp_all add: pipeline_inv_default pipeline_inv_forget pipeline_inv_restore)

section \<open>Checkpoints of the pipeline\<close>

lemma layouts_update:
  "k < length ws \<Longrightarrow> wrapped_layout w J P = wrapped_layout (ws ! k) J P \<Longrightarrow> layouts J P (ws[k := w]) = layouts J P ws"
  by (simp add: layouts_def map_update list_update_same_conv)

lemma nth_opt_layouts: "layouts J P ws = layouts J P vs \<Longrightarrow> k < length ws \<Longrightarrow>
    k < length vs \<and> wrapped_layout (ws ! k) J P = wrapped_layout (vs ! k) J P"
  unfolding layouts_def by (metis length_map nth_map)

text \<open>Replacing a stage by one that reads the same for an insight does not change its checkpoint.\<close>

lemma pipeline_checkpoint_update:
  assumes pipes: "hm_get (pl_pipeline pl) state = Some ws" "k < length ws"
    and same: "wrapped_layout w J P = wrapped_layout (ws ! k) J P" "wrapped_checkpoint w j = wrapped_checkpoint (ws ! k) j"
    and pl': "hm_get (pl_deferred pl') j = hm_get (pl_deferred pl) j"
      "pl_pipeline pl' = hm_modify state (\<lambda>ws. ws[k := w]) (pl_pipeline pl)"
  shows "pipeline_checkpoint J P pl' j = pipeline_checkpoint J P pl j"
proof (cases "hm_get (pl_deferred pl) j")
  case (Some resume)
  show ?thesis
  proof (cases "dp_state resume = state")
    case True
    then show ?thesis using Some pipes same pl' layouts_update [OF pipes(2) same(1)]
      by (cases "dp_index resume = k") (auto simp: pipeline_checkpoint_def nth_opt_def)
  qed (use Some pl' in \<open>simp add: pipeline_checkpoint_def\<close>)
qed (use pl' in \<open>simp add: pipeline_checkpoint_def\<close>)

lemma pipeline_restores:
  assumes laws: "layout_laws J" "plain_names P" and saved: "pipeline_checkpoint J P pl i = Some ck"
    and pipes: "hm_get (pl_pipeline pl') (ic_state ck) = Some pipes" "layouts J P pipes = ic_layout ck"
  shows "\<exists>pl2. pipeline_restore J P i ck pl' = Inr pl2 \<and> pipeline_checkpoint J P pl2 i = Some ck
    \<and> pending_deferral pl2 i = Some (ic_dependency ck)
    \<and> (\<forall>j. j \<noteq> i \<longrightarrow> pipeline_checkpoint J P pl2 j = pipeline_checkpoint J P pl' j)"
proof -
  obtain ws k where ws: "layouts J P ws = ic_layout ck" "ic_index ck = k" "k < length ws" "ic_nested ck = wrapped_checkpoint (ws ! k) i"
    using saved by (auto simp: pipeline_checkpoint_def nth_opt_def split: option.splits if_splits)
  have k: "k < length pipes" "wrapped_layout (ws ! k) J P = wrapped_layout (pipes ! k) J P"
    using nth_opt_layouts [of J P ws pipes k] ws pipes(2) by simp_all
  obtain v where v: "wrapped_restore (pipes ! k) i (ic_nested ck) = Inr v"
    using restore_total(2) [OF laws k(2), of i] ws(4) by auto
  note v_read = restore_read(2) [OF v, of J P]
  define pl1 where "pl1 = pl'\<lparr>pl_pipeline := hm_modify (ic_state ck) (\<lambda>ws. ws[k := v]) (pl_pipeline pl'),
    pl_deferred := bm_insert i \<lparr>dp_state = ic_state ck, dp_index = k, dp_dependency = ic_dependency ck, dp_snapshot_attempted = None\<rparr>
      (pl_deferred pl')\<rparr>"
  define pl2 where "pl2 = set_deps (snd (deps_update i (Some (ic_dependency ck)) (pl_snapshot_dependencies pl'))) pl1"
  have "pipeline_restore J P i ck pl' = Inr pl2"
    using pipes ws(2) k(1) v by (simp add: pipeline_restore_def nth_opt_def pl2_def pl1_def Let_def)
  moreover have "pipeline_checkpoint J P pl2 i = Some ck"
    using pipes ws(2) k(1) v_read layouts_update [OF k(1), of v J P]
    by (simp add: pipeline_checkpoint_def nth_opt_def pl2_def pl1_def set_deps_def)
  moreover have "pipeline_checkpoint J P pl2 j = pipeline_checkpoint J P pl' j" if "j \<noteq> i" for j
    by (rule pipeline_checkpoint_update [OF pipes(1) k(1), of v])
      (use v_read that in \<open>simp_all add: pl2_def pl1_def set_deps_def\<close>)
  ultimately show ?thesis using pipes by (simp add: pending_deferral_def pl2_def pl1_def set_deps_def)
qed

text \<open>C19: (\<open>InsightPipeline::execution_checkpoint\<close>, \<open>restore_execution_checkpoint\<close>) A checkpoint taken from one pipeline is restored
  into another exactly when that one has stages of the same layout for the saved state.  The checkpoint read again is then the one
  that was saved, down to the innermost composite, the insight waits for the saved dependency and the checkpoints of all other
  insights are unchanged; otherwise the pipeline reports which of the two failed.\<close>

theorem pipeline_checkpoint_roundtrip:
  assumes laws: "layout_laws J" "plain_names P" and saved: "pipeline_checkpoint J P pl i = Some ck"
  shows "case hm_get (pl_pipeline pl') (ic_state ck) of
      None \<Rightarrow> pipeline_restore J P i ck pl' = Inl ''saved pipeline state no longer exists''
    | Some pipes \<Rightarrow> if layouts J P pipes \<noteq> ic_layout ck
        then pipeline_restore J P i ck pl' = Inl ''pipeline layout changed since execution checkpoint''
        else \<exists>pl2. pipeline_restore J P i ck pl' = Inr pl2 \<and> pipeline_checkpoint J P pl2 i = Some ck
          \<and> pending_deferral pl2 i = Some (ic_dependency ck)
          \<and> (\<forall>j. j \<noteq> i \<longrightarrow> pipeline_checkpoint J P pl2 j = pipeline_checkpoint J P pl' j)"
  using pipeline_restores [OF laws saved] by (auto simp: pipeline_restore_def split: option.split)

definition sample_pipeline :: "(InsightPipeResult \<times> nat) InsightPipeline" where
  "sample_pipeline = add_pipe (builder_build (AndPipe [sample_child (result_new True True None ''Sample''),
     sample_child (result_deferred DeferAccount ''Sample'')] [(''i'', StNew, 1)]) builder_config)
     (pipeline_default\<lparr>pl_deferred := [(''i'', \<lparr>dp_state = StNew, dp_index = 0, dp_dependency = DeferAccount, dp_snapshot_attempted = None\<rparr>)]\<rparr>)"

definition sample_checkpoint :: InsightPipelineCheckpoint where
  "sample_checkpoint = \<lparr>ic_state = StNew, ic_index = 0, ic_dependency = DeferAccount,
     ic_layout = layouts sample_json (sample_pipes :: (InsightPipeResult \<times> nat, nat) PipeOps) [builder_build sample_and builder_config],
     ic_nested = Some (Checkpoint StNew 1 None)\<rparr>"

definition sample_fresh :: "(InsightPipeResult \<times> nat) InsightPipeline" where
  "sample_fresh = add_pipe (builder_build sample_and builder_config) pipeline_default"

lemma sample_saved:
  "plain_names sample_pipes"
  "pipeline_checkpoint sample_json sample_pipes sample_pipeline ''i'' = Some sample_checkpoint"
  "hm_get (pl_pipeline sample_fresh) (ic_state sample_checkpoint) = Some [builder_build sample_and builder_config]"
  "layouts sample_json sample_pipes [builder_build sample_and builder_config] = ic_layout sample_checkpoint"
proof -
  note defs = add_pipe_def pipeline_default_def builder_build_def builder_config_def sample_checkpoint_def Let_def hm_get_def hm_insert_def
  show "plain_names sample_pipes" by (simp add: plain_names_def sample_pipes_def)
  show "pipeline_checkpoint sample_json sample_pipes sample_pipeline ''i'' = Some sample_checkpoint"
    by (simp add: pipeline_checkpoint_def sample_pipeline_def defs nth_opt_def layouts_def sample_and_def sample_child_def
      composite_checkpoint_def sample_pipes_def)
  show "hm_get (pl_pipeline sample_fresh) (ic_state sample_checkpoint) = Some [builder_build sample_and builder_config]"
    by (simp add: sample_fresh_def defs)
  show "layouts sample_json sample_pipes [builder_build sample_and builder_config] = ic_layout sample_checkpoint"
    by (simp add: sample_checkpoint_def layouts_def builder_build_def sample_and_def sample_child_def sample_pipes_def)
qed

theorem pipeline_checkpoint_roundtrip_witness:
  "\<exists>pl2. pipeline_restore sample_json (sample_pipes :: (InsightPipeResult \<times> nat, nat) PipeOps) ''i'' sample_checkpoint sample_fresh = Inr pl2
     \<and> pipeline_checkpoint sample_json (sample_pipes :: (InsightPipeResult \<times> nat, nat) PipeOps) pl2 ''i'' = Some sample_checkpoint"
proof -
  let ?P = "sample_pipes :: (InsightPipeResult \<times> nat, nat) PipeOps"
  have "layouts sample_json ?P [builder_build sample_and builder_config] = ic_layout sample_checkpoint" by (rule sample_saved(4))
  then show ?thesis
    using pipeline_checkpoint_roundtrip [where P = ?P, OF sample_json_laws sample_saved(1,2), of sample_fresh] sample_saved(3) by auto
qed

section \<open>Deferred insights are indexed\<close>

text \<open>C6: (\<open>run_insight_pipeline_budgeted\<close>, \<open>forget_continuation\<close>, \<open>restore_execution_checkpoint\<close>) In every pipeline a strategy
  reaches, by running full or selected sweeps, forgetting and restoring continuations and handing out resumptions, an insight is in
  the group of a snapshot exactly when its continuation waits for that snapshot, so no deferred insight is missed when the snapshot
  arrives and none is resumed without a continuation.\<close>

theorem deferred_insights_indexed:
  assumes "pipeline_reachable T pl"
  shows "deps_ok (pl_snapshot_dependencies pl)
    \<and> (Option.bind (pending_deferral pl i) dependency_kind = Some k
       \<longleftrightarrow> (\<exists>g. hm_get (sd_groups (pl_snapshot_dependencies pl)) k = Some g \<and> i \<in> set (gr_ids g)))"
proof -
  have inv: "deps_ok (pl_snapshot_dependencies pl)"
    "hm_get (sd_owners (pl_snapshot_dependencies pl)) i = Option.bind (pending_deferral pl i) dependency_kind"
    using pipeline_reachable_inv [OF assms] by (simp_all add: pipeline_inv_def waits_for_def)
  then show ?thesis using deps_ok_group [OF inv(1), of i k] deps_okD(2) [OF inv(1), of k _ i] by auto
qed

text \<open>A strategy for the examples.\<close>

definition sample_turn :: "(InsightPipeResult \<times> nat, unit, uuid list) TurnOps" where
  "sample_turn = \<lparr>tn_pipes = sample_pipes, tn_work = sample_work, tn_layout = sample_json\<rparr>"

theorem deferred_insights_indexed_witness:
  "\<exists>pl g. pipeline_restore sample_json (tn_pipes sample_turn) ''i'' sample_checkpoint sample_fresh = Inr pl
     \<and> hm_get (sd_groups (pl_snapshot_dependencies pl)) AccountSnapshot = Some g \<and> ''i'' \<in> set (gr_ids g)"
proof -
  obtain pl where pl: "pipeline_restore sample_json (tn_pipes sample_turn) ''i'' sample_checkpoint sample_fresh = Inr pl"
    "pending_deferral pl ''i'' = Some (ic_dependency sample_checkpoint)"
    using pipeline_restores [OF sample_json_laws sample_saved] by (auto simp: sample_turn_def)
  have fresh: "pipeline_reachable sample_turn sample_fresh"
    unfolding sample_fresh_def by (intro pipeline_reachable.adds pipeline_reachable.fresh)
  have "pipeline_reachable sample_turn pl"
    by (rule pipeline_reachable.restores [OF fresh, of "''i''" sample_checkpoint]) (use pl(1) in \<open>simp add: sample_turn_def\<close>)
  from deferred_insights_indexed [OF this, of "''i''" AccountSnapshot] show ?thesis
    using pl by (auto simp: sample_checkpoint_def dependency_kind_def)
qed

end
