(* ===== verification/CommandFlow.thy ===== *)
theory CommandFlow
  imports InsightCommands InsightTurn
begin

text \<open>
  Which operations of an insight put a broker command in flight, and how they say so: the receipt of a new command is the result of
  the operation.  What the work queue and the turns of a pipeline may send follows from it.
\<close>

section \<open>Commands put in flight\<close>

abbreviation in_flight :: "'c Insight \<Rightarrow> PendingInsightMutation set" where
  "in_flight i \<equiv> set (ins_pending_mutations i)"

text \<open>Whatever is new in flight has one of the given kinds, and its receipt is the result.\<close>

definition puts :: "MutationKind set \<Rightarrow> InsightMutationResult \<Rightarrow> 'c Insight \<Rightarrow> 'c Insight \<Rightarrow> bool" where
  "puts K r i j \<longleftrightarrow> (\<forall>m\<in>in_flight j. m \<in> in_flight i \<or> pm_kind m \<in> K \<and> r = Inr (PendingReceipt (pm_receipt m)))"

lemma puts_same: "in_flight j \<subseteq> in_flight i \<Longrightarrow> puts K r i j"
  by (auto simp: puts_def)

lemma puts_trans: "in_flight j \<subseteq> in_flight i \<Longrightarrow> puts K r j k \<Longrightarrow> puts K r i k"
  unfolding puts_def by blast

lemma puts_cong: "ins_pending_mutations k = ins_pending_mutations j \<Longrightarrow> puts K r i k = puts K r i j"
  by (simp add: puts_def)

lemma puts_mono: "puts K r i j \<Longrightarrow> K \<subseteq> L \<Longrightarrow> puts L r i j"
  unfolding puts_def by blast

lemma poll_in_flight:
  assumes "poll_mutation C kind i x = (r, j, y)"
  shows "in_flight j \<subseteq> in_flight i"
proof (cases "take_pending kind (ins_pending_mutations i)")
  case (Some pr)
  obtain p rest where pr: "pr = (p, rest)" by (cases pr)
  have rest: "set rest \<subseteq> in_flight i" using take_pending_split [OF Some [unfolded pr]] by auto
  have settled: "ins_pending_mutations k = rest" if "settle_mutation now kind p outcome (i\<lparr>ins_pending_mutations := rest\<rparr>) = (s, k)" for now outcome s k
    using that pending_settle [of now kind p outcome "i\<lparr>ins_pending_mutations := rest\<rparr>"] by simp
  show ?thesis
  proof (cases "\<exists>c. ctx_broker_command_progress C x (pm_receipt p) = Some (Completed c)")
    case False
    then show ?thesis using assms Some pr
      by (auto simp: poll_mutation_def Let_def split: option.splits BrokerCommandProgress.splits)
  next
    case True
    then obtain c where c: "ctx_broker_command_progress C x (pm_receipt p) = Some (Completed c)" by blast
    obtain s k where "settle_mutation (ctx_current_time C x) kind p (cpl_outcome c) (i\<lparr>ins_pending_mutations := rest\<rparr>) = (s, k)" by fastforce
    with settled [OF this] show ?thesis
      using assms Some pr c rest by (auto simp: poll_mutation_def Let_def split: BrokerCommandOutcome.splits if_splits)
  qed
qed (use assms in \<open>simp add: poll_mutation_def\<close>)

lemma queue_puts: "queue_mutation C kind action effect grp i x = (r, j, y) \<Longrightarrow> puts {kind} r i j"
  by (auto simp: queue_mutation_def puts_def same_pending split: prod.splits sum.splits)

lemma close_puts:
  assumes "try_close_partial C quantity price i x = (r, j, y)"
  shows "puts {KClose} r i j"
proof -
  obtain q k z where poll: "poll_mutation C KClose i x = (q, k, z)" by (cases "poll_mutation C KClose i x")
  note sub = poll_in_flight [OF poll]
  show ?thesis
  proof (cases q)
    case (Some a)
    then show ?thesis using assms poll puts_same [OF sub] by (simp add: try_close_partial_def)
  next
    case None
    show ?thesis
    proof (rule puts_trans [OF sub])
      show "puts {KClose} r k j" using assms poll None queue_puts [of C KClose _ _ _ k z] puts_same [of k k]
        by (auto simp: try_close_partial_def puts_cong [of "m\<lparr>ins_closing := b\<rparr>" m for m b] split: if_splits option.splits prod.splits sum.splits)
    qed
  qed
qed

lemma cancel_submitted_puts:
  assumes "cancel_submitted C i x = (r, j, y)"
  shows "puts {KCancel} r i j"
proof -
  obtain q k z where poll: "poll_mutation C KCancel i x = (q, k, z)" by (cases "poll_mutation C KCancel i x")
  note sub = poll_in_flight [OF poll]
  show ?thesis
  proof (cases q)
    case (Some a)
    then show ?thesis using assms poll puts_same [OF sub] by (simp add: cancel_submitted_def)
  next
    case None
    show ?thesis
    proof (rule puts_trans [OF sub])
      show "puts {KCancel} r k j" using assms poll None queue_puts [of C KCancel _ _ _ k z] puts_same [of k k]
        by (auto simp: cancel_submitted_def puts_cong [of "m\<lparr>ins_cancelling := b, ins_suppress_child_entries := d\<rparr>" m for m b d]
            split: if_splits option.splits prod.splits sum.splits)
    qed
  qed
qed

lemma cancel_puts:
  assumes "cancel C i x = (r, j, y)"
  shows "puts {KCancel} r i j"
proof -
  obtain q k z where poll: "poll_mutation C KSubmit i x = (q, k, z)" by (cases "poll_mutation C KSubmit i x")
  note sub = poll_in_flight [OF poll]
  show ?thesis
  proof (rule puts_trans [OF sub])
    show "puts {KCancel} r k j"
      using assms poll cancel_submitted_puts [of C k z] cancel_submitted_puts [of C "k\<lparr>ins_cancelling := False\<rparr>" z] puts_same [of k k]
        puts_trans [of "k\<lparr>ins_cancelling := False\<rparr>" k]
      by (auto simp: cancel_def puts_cong [of "m\<lparr>ins_suppress_child_entries := d, ins_cancelling := b\<rparr>" m for m b d]
          split: option.splits sum.splits InsightMutationState.splits prod.splits)
  qed
qed

lemma expire_puts:
  assumes "expire_if_due cal C i x = (r, j, y)"
  shows "case r of None \<Rightarrow> j = i \<and> y = x | Some m \<Rightarrow> puts {KCancel, KClose} m i j"
proof (cases "expiry_window i")
  case (Some w)
  obtain anchor periods where w: "w = (anchor, periods)" by (cases w)
  let ?op = "if ins_state i = StNew \<and> \<not> has_pending_submit i \<and> ins_order_id i = None
    then (Inr Applied, order_rejected ''Expired before submission fill window elapsed'' i, x)
    else if ins_state i = StFilled then close_insight C i x else cancel C i x"
  obtain m k z where op: "?op = (m, k, z)" using prod_cases3 by blast
  have "puts {KCancel, KClose} m i k"
    using op puts_mono [OF close_puts [of C "remaining_quantity i" None i x m k z]] puts_mono [OF cancel_puts [of C i x m k z]]
    by (auto simp: close_insight_def puts_def same_pending split: if_splits)
  then show ?thesis using assms Some w op
    by (auto simp: expire_if_due_def Let_def puts_def same_pending simp del: split_paired_Ex split: if_splits)
qed (use assms in \<open>simp add: expire_if_due_def\<close>)

lemma submit_puts:
  assumes "submit cal C i x = (r, j, y)"
  shows "puts {KSubmit} r i j"
proof -
  obtain q k z where poll: "poll_mutation C KSubmit i x = (q, k, z)" by (cases "poll_mutation C KSubmit i x")
  show ?thesis
  proof (cases q)
    case (Some a)
    then show ?thesis using assms poll puts_same [OF poll_in_flight [OF poll]] by (simp add: submit_def)
  next
    case None
    note same = poll_none [OF poll [unfolded None]]
    have free: "\<not> has_pending_submit i"
      using same by (simp add: has_pending_submit_def has_pending_kind_iff pending_kinds_def take_pending_none)
    show ?thesis
    proof (cases "ins_submitted i \<or> ins_order_id i \<noteq> None \<or> ins_state i \<noteq> StNew
        \<or> ins_suppress_child_entries i \<or> ins_cancelling i \<or> ins_closing i")
      case True
      then show ?thesis using assms poll None same by (auto simp: submit_def puts_def split: if_splits)
    next
      case False
      obtain v k' z' where valid: "insight_validate cal C i x = (v, k', z')" by (cases "insight_validate cal C i x")
      have "in_flight k' = in_flight i"
        using valid free False
        by (auto simp: insight_validate_def has_expired_def expire_if_due_def Let_def same_pending split: option.splits if_splits prod.splits)
      then show ?thesis
        using assms poll None same False valid queue_puts [of C KSubmit _ ESubmit None k' z'] puts_trans [of k' i]
        by (auto simp: submit_def puts_def same_pending split: sum.splits)
    qed
  qed
qed

section \<open>Entries of the work queue\<close>

lemma entry_mutation_puts:
  assumes "entry_mutation W cleanup i y = (r, j, y')"
  shows "puts (if cleanup then {KCancel, KClose} else {KSubmit}) r i j"
proof (cases cleanup)
  case False
  then show ?thesis using assms submit_puts by (auto simp: entry_mutation_def)
next
  case True
  have poll: "in_flight j \<subseteq> in_flight i" if "poll_pending_submission (wo_context W) i y = (r, j, y')"
    using that poll_in_flight [of "wo_context W" KSubmit i y] by (auto simp: poll_pending_submission_def split: prod.splits)
  show ?thesis
    using True assms puts_mono [OF cancel_puts [of "wo_context W" i y r j y']] poll
      puts_mono [OF close_puts [of "wo_context W" "remaining_quantity i" None i y r j y']]
    by (auto simp: entry_mutation_def close_insight_def puts_def same_pending split: InsightState.splits if_splits)
qed

text \<open>
  When an entry may be sent: no row on the way to the root is terminal, closing, cancelling or suppressed; the parent of a split leg has
  an entry command, was submitted or has an order; the parent of any other child is filled.
\<close>

inductive may_enter :: "'y StrategyRun \<Rightarrow> uuid \<Rightarrow> bool" for s where
  root: "row s i = Some r \<Longrightarrow> tree_state r \<in> {StNew, StExecuted, StFilled} \<Longrightarrow> \<not> ins_closing (tree_row r)
    \<Longrightarrow> \<not> ins_cancelling (tree_row r) \<Longrightarrow> \<not> ins_suppress_child_entries (tree_row r)
    \<Longrightarrow> ins_parent_id (tree_row r) = None \<Longrightarrow> may_enter s i"
| child: "row s i = Some r \<Longrightarrow> tree_state r \<in> {StNew, StExecuted, StFilled} \<Longrightarrow> \<not> ins_closing (tree_row r)
    \<Longrightarrow> \<not> ins_cancelling (tree_row r) \<Longrightarrow> \<not> ins_suppress_child_entries (tree_row r)
    \<Longrightarrow> ins_parent_id (tree_row r) = Some p \<Longrightarrow> row s p = Some parent
    \<Longrightarrow> (if ins_is_split_insight (tree_row r)
         then (\<exists>m\<in>in_flight (tree_row parent). pm_kind m = KSubmit) \<or> ins_submitted (tree_row parent)
           \<or> ins_order_id (tree_row parent) \<noteq> None
         else tree_state parent = StFilled)
    \<Longrightarrow> may_enter s p \<Longrightarrow> may_enter s i"

lemma entry_gated_iff: "\<not> entry_gated r \<longleftrightarrow> tree_state r \<in> {StNew, StExecuted, StFilled} \<and> \<not> ins_closing (tree_row r)
    \<and> \<not> ins_cancelling (tree_row r) \<and> \<not> ins_suppress_child_entries (tree_row r)"
  by (cases "tree_state r") (auto simp: entry_gated_def is_inactive_def)

lemma submitted_once_iff: "submitted_once t \<longleftrightarrow> (\<exists>m\<in>in_flight (tree_row t). pm_kind m = KSubmit) \<or> ins_submitted (tree_row t)
    \<or> ins_order_id (tree_row t) \<noteq> None"
  by (simp add: submitted_once_def has_pending_submit_def has_pending_kind_def list_ex_iff)

lemma permission_waiting: "permission_walk n s i True \<noteq> PermReady"
  by (induction n arbitrary: i) (auto split: option.splits)

lemma permission_ready: "permission_walk n s i False = PermReady \<Longrightarrow> may_enter s i"
proof (induction n arbitrary: i)
  case (Suc n)
  obtain r where r: "row s i = Some r" and gate: "\<not> entry_gated r" using Suc.prems by (auto split: option.splits if_splits)
  note clear = gate [unfolded entry_gated_iff]
  show ?case
  proof (cases "ins_parent_id (tree_row r)")
    case None
    then show ?thesis using r clear by (intro may_enter.root) auto
  next
    case (Some p)
    then obtain parent where p: "row s p = Some parent" using Suc.prems r gate by (auto split: option.splits)
    define waits where "waits = (if ins_is_split_insight (tree_row r) then \<not> submitted_once parent else tree_state parent \<noteq> StFilled)"
    have walk: "permission_walk n s p waits = PermReady" using Suc.prems r gate Some p by (simp add: waits_def)
    then have "\<not> waits" using permission_waiting [of n s p] by (cases waits) auto
    then show ?thesis
      using Suc.IH [of p] walk clear
      by (intro may_enter.child [OF r _ _ _ _ Some p]) (auto simp: waits_def submitted_once_iff split: if_splits)
  qed
qed simp

lemma schedule_children_insights: "st_insights (schedule_insight_children i s) = st_insights s"
  by (auto simp: schedule_insight_children_def Let_def split: option.split)

lemma settle_insights: "settle_request W w result t s = (stop, s') \<Longrightarrow> st_insights s' = st_insights s"
  by (auto simp: settle_request_def split: sum.splits BrokerCommandError.splits InsightMutationState.splits)

lemma refresh_keeps_insights: "refresh_runtime_tracking J i c = Some c' \<Longrightarrow> ic_insights c' = ic_insights c"
  by (auto simp: refresh_runtime_tracking_def remove_tracking_def Let_def split: option.splits)

lemma restored_row:
  assumes "restore_after_update J t changed (snd (take_for_update i c)) = Some c'" "hm_get (ic_insights c') i = Some r"
  shows "r = t"
proof -
  have "ic_insights c' = hm_insert (insight_id t) t (hm_remove i (ic_insights c))"
    using assms(1) by (auto simp: restore_after_update_def take_for_update_def Let_def dest: refresh_keeps_insights split: if_splits)
  then show ?thesis using assms(2) by (simp add: hm.get_ins hm.get_rem split: if_splits)
qed

text \<open>A step that takes the row of its insight leaves there what the mutation made of it.\<close>

lemma entry_step_row:
  assumes "entry_step W work s = Some (stop, s')" "row s (wk_id work) = Some r" "row s' (wk_id work) = Some r'"
  shows "r' = r \<or> (\<exists>m y. entry_mutation W (wk_kind work = CleanupWork \<or> \<not> running s) (tree_row r) (st_rest s) = (m, tree_row r', y))"
proof (cases "ic_insights (st_insights s') = ic_insights (st_insights s)")
  case True
  then show ?thesis using assms(2,3) by (simp add: row_def)
next
  case False
  let ?i = "wk_id work" and ?c = "snd (take_for_update (wk_id work) (st_insights s))"
  obtain m i y where mut: "entry_mutation W (wk_kind work = CleanupWork \<or> \<not> running s) (tree_row r) (st_rest s) = (m, i, y)"
    using prod_cases3 by blast
  have tk: "take_for_update ?i (st_insights s) = (Some r, ?c)" using assms(2) by (simp add: take_for_update_def row_def)
  let ?t = "Tree i (tree_data r) (tree_children r)"
  obtain c s1 where c: "restore_after_update (wo_json W) ?t (wo_fingerprint W r \<noteq> wo_fingerprint W ?t) ?c = Some c"
    and s1: "settle_request W work m ?t (s\<lparr>st_insights := c, st_rest := y\<rparr>) = (stop, s1)"
    and s': "s' = (if \<not> stop \<and> wk_kind work = SubmitWork then schedule_insight_children ?i s1 else s1)"
    using assms(1) False mut tk
    by (auto simp: entry_step_def Let_def schedule_insight_cleanup_def split: if_splits option.splits prod.splits)
  have "st_insights s' = c" using s' settle_insights [OF s1] by (simp add: schedule_children_insights)
  then have "r' = ?t" using restored_row [OF c] assms(3) by (simp add: row_def)
  then show ?thesis using mut by auto
qed

text \<open>C7: (\<open>process_insight_work\<close>, \<open>insight_entry_permission\<close>) Let the insight of an entry or cleanup request have no entry
  command in flight.  The step puts one in flight only for an entry request of a running strategy whose entry is open along the whole
  way to the root: no ancestor is terminal, closing, cancelling or suppressed, the parent is filled or, for a split leg, submitted.  And
  while the strategy runs, an entry request whose entry is not open leaves every row as it was.\<close>

theorem entry_waits_for_parents:
  assumes "entry_step W work s = Some (stop, s')" and "wk_kind work = SubmitWork \<or> wk_kind work = CleanupWork"
    and "row s (wk_id work) = Some r" and "\<not> has_pending_submit (tree_row r)"
  shows "(row s' (wk_id work) = Some r' \<and> has_pending_submit (tree_row r')
      \<longrightarrow> wk_kind work = SubmitWork \<and> running s \<and> may_enter s (wk_id work))
    \<and> (wk_kind work = SubmitWork \<and> running s \<and> \<not> may_enter s (wk_id work)
      \<longrightarrow> ic_insights (st_insights s') = ic_insights (st_insights s))"
proof (intro conjI impI)
  have kept: "ic_insights (st_insights s') = ic_insights (st_insights s)"
    if "wk_kind work = SubmitWork" "running s" "\<not> may_enter s (wk_id work)"
  proof -
    have "insight_entry_permission s (wk_id work) \<noteq> PermReady"
      using that(3) permission_ready unfolding insight_entry_permission_def by blast
    then show ?thesis using assms that(1,2)
      by (cases "insight_entry_permission s (wk_id work)") (auto simp: entry_step_def Let_def schedule_insight_cleanup_def)
  qed
  then show "ic_insights (st_insights s') = ic_insights (st_insights s)"
    if "wk_kind work = SubmitWork \<and> running s \<and> \<not> may_enter s (wk_id work)" using that by blast
  assume new: "row s' (wk_id work) = Some r' \<and> has_pending_submit (tree_row r')"
  let ?cleanup = "wk_kind work = CleanupWork \<or> \<not> running s"
  have "r' \<noteq> r" using new assms(4) by auto
  then obtain m y where mut: "entry_mutation W ?cleanup (tree_row r) (st_rest s) = (m, tree_row r', y)"
    using entry_step_row [OF assms(1,3)] new by blast
  obtain p where "p \<in> in_flight (tree_row r')" "pm_kind p = KSubmit" "p \<notin> in_flight (tree_row r)"
    using new assms(4) by (auto simp: has_pending_submit_def has_pending_kind_def list_ex_iff)
  then have "\<not> ?cleanup" using entry_mutation_puts [OF mut] by (auto simp: puts_def split: if_splits)
  moreover from this have "wk_kind work = SubmitWork" using assms(2) by blast
  moreover have "ic_insights (st_insights s') \<noteq> ic_insights (st_insights s)"
    using \<open>r' \<noteq> r\<close> new assms(3) by (auto simp: row_def)
  ultimately show "wk_kind work = SubmitWork" "running s" "may_enter s (wk_id work)" using kept by blast+
qed

text \<open>A strategy that trades every symbol and whose broker takes every command; a filled parent and its child.\<close>

definition sample_receipt :: "string \<Rightarrow> BrokerCommandReceipt" where
  "sample_receipt i = \<lparr>rcp_id = ''c'', rcp_insight_id = i, rcp_group = None\<rparr>"

definition open_context :: "'y StrategyContext" where
  "open_context = \<lparr>ctx_enqueue_broker_command = (\<lambda>x i _ _. (Inr (sample_receipt i), x)), ctx_broker_command_progress = (\<lambda>_ _. None),
     ctx_broker_command_reduced = (\<lambda>x _. x), ctx_cancel_pending_entry = (\<lambda>x _. (Inl CmdQueueFull, x)), ctx_current_time = (\<lambda>_. 0),
     ctx_universe = (\<lambda>_ _. Some plain_asset), ctx_can_amend_limit = (\<lambda>_. False), ctx_can_amend_stop = (\<lambda>_. False)\<rparr>"

definition sample_child :: InsightTree where
  "sample_child = Tree ((InsightTree.sample_row ''c'' StNew)\<lparr>ins_parent_id := Some ''p''\<rparr>) [] []"

definition sample_family :: "unit StrategyRun" where
  "sample_family = sample_run [Tree (InsightTree.sample_row ''p'' StFilled) [] [], sample_child]"

lemma family_rows:
  "row sample_family ''c'' = Some sample_child" "row sample_family ''p'' = Some (Tree (InsightTree.sample_row ''p'' StFilled) [] [])"
  by (simp_all add: row_def sample_family_def sample_run_def sample_child_def insight_id_def InsightTree.sample_row_def insight_default_def hm_get_def)

lemma family_permission: "insight_entry_permission sample_family ''c'' = PermReady"
  using family_rows
  by (simp add: insight_entry_permission_def numeral_eq_Suc sample_child_def entry_gated_def tree_state_def is_inactive_def
      InsightTree.sample_row_def insight_default_def)

lemma family_mutation:
  "\<exists>j. entry_mutation (sample_work\<lparr>wo_context := open_context\<rparr>) False (tree_row sample_child) ()
      = (Inr (PendingReceipt (sample_receipt ''c'')), j, ()) \<and> has_pending_submit j \<and> ins_id j = ''c''"
proof -
  have "\<not> Fin 100 \<le> 0" by code_simp
  then show ?thesis
    by (simp add: entry_mutation_def submit_def poll_mutation_def insight_validate_def invalid_entry_def has_expired_def expire_if_due_def
        expiry_window_def has_valid_entry_conditions_def queue_mutation_def sample_child_def sample_work_def open_context_def idle_context_def
        InsightTree.sample_row_def insight_default_def plain_asset_def has_pending_submit_def has_pending_kind_iff pending_kinds_def
        same_pending Let_def)
qed

theorem entry_waits_for_parents_witness:
  "\<exists>stop s' r. entry_step (sample_work\<lparr>wo_context := open_context\<rparr>) \<lparr>wk_id = ''c'', wk_kind = SubmitWork, wk_next_child = 0\<rparr> sample_family
     = Some (stop, s') \<and> row s' ''c'' = Some r \<and> has_pending_submit (tree_row r) \<and> may_enter sample_family ''c''"
proof -
  let ?W = "sample_work\<lparr>wo_context := open_context\<rparr>" and ?w = "\<lparr>wk_id = ''c'', wk_kind = SubmitWork, wk_next_child = 0\<rparr>"
  let ?c = "snd (take_for_update ''c'' (st_insights sample_family))"
  obtain j where j: "entry_mutation ?W False (tree_row sample_child) () = (Inr (PendingReceipt (sample_receipt ''c'')), j, ())"
    "has_pending_submit j" "ins_id j = ''c''" using family_mutation by blast
  let ?t = "Tree j [] []"
  have run: "running sample_family" "st_rest sample_family = ()" by (simp_all add: running_def sample_family_def sample_run_def)
  have tk: "take_for_update ''c'' (st_insights sample_family) = (Some sample_child, ?c)"
    using family_rows(1) by (simp add: take_for_update_def row_def)
  have kids: "tree_data sample_child = []" "tree_children sample_child = []" by (simp_all add: sample_child_def)
  have res: "restore_after_update plain_json ?t False ?c = Some (?c\<lparr>ic_insights := hm_insert ''c'' ?t (ic_insights ?c)\<rparr>)"
    using j(3) by (simp add: restore_after_update_def insight_id_def)
  have "\<exists>stop s'. entry_step ?W ?w sample_family = Some (stop, s') \<and> row s' ''c'' = Some ?t"
    using run family_permission tk j res kids family_rows(1)
    by (auto simp: entry_step_def Let_def settle_request_def row_def hm.get_ins schedule_children_insights sample_work_def split: prod.split)
  then obtain stop s' where step: "entry_step ?W ?w sample_family = Some (stop, s')" and row': "row s' ''c'' = Some ?t" by blast
  have "\<not> has_pending_submit (tree_row sample_child)"
    by (simp add: sample_child_def has_pending_submit_def has_pending_kind_def InsightTree.sample_row_def insight_default_def)
  then have "may_enter sample_family ''c''"
    using entry_waits_for_parents [OF step, of sample_child ?t] family_rows(1) row' j(2) by simp
  then show ?thesis using step row' j(2) by auto
qed

section \<open>Commands of a turn\<close>

text \<open>A stage answers for what it put in flight: its result is deferred until that very command completes.\<close>

definition announced :: "InsightTree \<Rightarrow> InsightTree \<Rightarrow> InsightPipeResult \<Rightarrow> bool" where
  "announced t t' r \<longleftrightarrow> (\<forall>m\<in>in_flight (tree_row t'). m \<in> in_flight (tree_row t) \<or> pr_deferred r = Some (DeferCommand (pm_receipt m)))"

lemma announced_silent: "announced t t' r \<Longrightarrow> pr_deferred r = None \<Longrightarrow> in_flight (tree_row t') \<subseteq> in_flight (tree_row t)"
  by (auto simp: announced_def)

lemma announced_trans: "in_flight (tree_row u) \<subseteq> in_flight (tree_row t) \<Longrightarrow> announced u t' r \<Longrightarrow> announced t t' r"
  unfolding announced_def by blast

lemma announced_same: "in_flight (tree_row t') \<subseteq> in_flight (tree_row t) \<Longrightarrow> announced t t' r"
  unfolding announced_def by blast

text \<open>The loops over children that answer for their commands.\<close>

definition loop_announced :: "InsightTree \<Rightarrow> InsightTree \<Rightarrow> LoopEnd \<Rightarrow> bool" where
  "loop_announced t t' e = (case e of LoopDeferred _ r \<Rightarrow> pr_deferred r \<noteq> None \<and> announced t t' r
     | LoopStopped r _ _ \<Rightarrow> pr_deferred r = None \<and> in_flight (tree_row t') \<subseteq> in_flight (tree_row t)
     | LoopDone _ \<Rightarrow> in_flight (tree_row t') \<subseteq> in_flight (tree_row t))"

lemma loop_announced_trans: "in_flight (tree_row u) \<subseteq> in_flight (tree_row t) \<Longrightarrow> loop_announced u t' e \<Longrightarrow> loop_announced t t' e"
  by (auto simp: loop_announced_def intro: announced_trans split: LoopEnd.splits)

definition answers :: "('p Wrapped \<times> ('p, 'x) runner) list \<Rightarrow> bool" where
  "answers ws \<longleftrightarrow> (\<forall>(w, run)\<in>set ws. \<forall>x t r w' x' t'. run x t = (r, w', x', t') \<longrightarrow> announced t t' r)"

lemma and_loop_announced:
  "and_loop i start msgs ws x t = (e, ws', x', t') \<Longrightarrow> answers ws \<Longrightarrow> loop_announced t t' e"
proof (induction i start msgs ws x t arbitrary: e ws' x' t' rule: and_loop.induct)
  case (2 i start msgs w run ws x t)
  have rest: "answers ws" using 2(4) by (simp add: answers_def)
  show ?case
  proof (cases "i < start \<or> \<not> should_run (wp_config w) t")
    case True
    then show ?thesis using 2(1) [OF True _ rest] 2(3) by (auto split: prod.splits)
  next
    case False
    obtain r w1 x1 t1 where run: "run x t = (r, w1, x1, t1)" using prod_cases4 by blast
    have said: "announced t t1 r" using 2(4) run unfolding answers_def by fastforce
    show ?thesis
    proof (cases "pr_deferred r = None \<and> pr_success r \<and> pr_passed r")
      case True
      then obtain ws1 where "and_loop (i + 1) start (add_message r msgs) ws x1 t1 = (e, ws1, x', t')"
        using 2(3) False run by (auto simp: Let_def split: prod.splits)
      then have "loop_announced t1 t' e" using 2(2) [OF False run [symmetric] refl refl refl _ refl] True rest by auto
      then show ?thesis using loop_announced_trans [OF announced_silent [OF said]] True by simp
    next
      case stop: False
      then have "t' = t1" "e = (if pr_deferred r \<noteq> None then LoopDeferred i r else LoopStopped r (add_message r msgs) [])"
        using 2(3) False run by (auto simp: Let_def split: if_splits)
      then show ?thesis using said announced_silent [OF said] by (simp add: loop_announced_def)
    qed
  qed
qed (auto simp: loop_announced_def)

lemma or_loop_announced:
  "or_loop name i start msgs ws x t = (e, ws', x', t') \<Longrightarrow> answers ws \<Longrightarrow> loop_announced t t' e"
proof (induction name i start msgs ws x t arbitrary: e ws' x' t' rule: or_loop.induct)
  case (2 name i start msgs w run ws x t)
  have rest: "answers ws" using 2(5) by (simp add: answers_def)
  show ?case
  proof (cases "i < start \<or> \<not> should_run (wp_config w) t")
    case True
    then show ?thesis using 2(1) [OF True _ rest] 2(4) by (auto split: prod.splits)
  next
    case False
    obtain r w1 x1 t1 where run: "run x t = (r, w1, x1, t1)" using prod_cases4 by blast
    have said: "announced t t1 r" using 2(5) run unfolding answers_def by fastforce
    note silent = announced_silent [OF said]
    show ?thesis
    proof (cases "pr_deferred r = None \<and> \<not> leaves_turn t1 \<and> \<not> (pr_success r \<and> pr_passed r)")
      case True
      then obtain ws1 msgs' where "or_loop name (i + 1) start msgs' ws x1 t1 = (e, ws1, x', t')"
        "msgs' = (if pr_success r then msgs else add_message r msgs)"
        using 2(4) False run by (cases "pr_success r") (auto split: prod.splits)
      then have "loop_announced t1 t' e"
        using 2(2,3) [OF False run [symmetric] refl refl] True rest by (cases "pr_success r") auto
      then show ?thesis using loop_announced_trans [OF silent] True by simp
    next
      case stop: False
      then have "t' = t1" "(e = LoopDeferred i r \<and> pr_deferred r \<noteq> None) \<or> (\<exists>ms n. e = LoopStopped r ms n \<and> pr_deferred r = None)"
        using 2(4) False run by (auto simp: Let_def split: if_splits)
      then show ?thesis using said silent by (auto simp: loop_announced_def)
    qed
  qed
qed (auto simp: loop_announced_def)

lemma and_turn_announced:
  assumes "and_turn ws res x t = (r, p, x', t')" "answers ws"
  shows "announced t t' r"
proof -
  obtain e ws' y u where loop: "and_loop 0 (resume_index res (insight_id t) (tree_state t)) [] ws x t = (e, ws', y, u)" using prod_cases4 by blast
  show ?thesis using assms(1) loop and_loop_announced [OF loop assms(2)]
    by (cases e) (auto simp: and_turn_def Let_def loop_announced_def intro: announced_same)
qed

lemma or_turn_announced:
  assumes "or_turn name ws res x t = (r, p, x', t')" "answers ws"
  shows "announced t t' r"
proof -
  obtain e ws' y u where loop: "or_loop name 0 (resume_index res (insight_id t) (tree_state t)) [] ws x t = (e, ws', y, u)" using prod_cases4 by blast
  show ?thesis using assms(1) loop or_loop_announced [OF loop assms(2)]
    by (cases e) (auto simp: or_turn_def Let_def loop_announced_def intro: announced_same split: if_splits)
qed

lemma failed_in_flight: "fail_turn i reason t s = (t', s') \<Longrightarrow> in_flight (tree_row t') = in_flight (tree_row t)"
  by (auto simp: fail_turn_def on_tree_def same_pending split: if_splits)

lemma first_on_fill_in_flight: "in_flight (tree_row (on_tree (set_first_on_fill b) t)) = in_flight (tree_row t)"
  by (simp add: on_tree_def set_first_on_fill_def same_pending)

text \<open>
  The contract of leaves that answer for their commands.  Its clients are the nested composites, the stages of a state and the turn of
  an insight.
\<close>

locale announcing_leaves =
  fixes P :: "('p, 'x) PipeOps"
  assumes leaf_announces: "po_run P l x t = (r, l', x', t') \<Longrightarrow> announced t t' r"
begin

lemma run_announces:
  "run_pipe p P x t = (r, p', x', t') \<Longrightarrow> announced t t' r"
  "run_wrapped w P x t = (r, w', x', t') \<Longrightarrow> announced t t' r"
proof (induction p and w arbitrary: x t r p' x' t' and x t r w' x' t')
  case (Leaf l)
  then show ?case using leaf_announces [of l x t] by (auto split: prod.splits)
next
  case (AndPipe ws res)
  have "answers (zip ws (map (\<lambda>f. f P) (map run_wrapped ws)))"
    by (auto simp: answers_def set_zip intro: AndPipe.IH [OF nth_mem])
  then show ?case by (rule and_turn_announced [rotated]) (use AndPipe.prems in \<open>simp del: map_map\<close>)
next
  case (OrPipe ws res)
  have "answers (zip ws (map (\<lambda>f. f P) (map run_wrapped ws)))"
    by (auto simp: answers_def set_zip intro: OrPipe.IH [OF nth_mem])
  then show ?case by (rule or_turn_announced [rotated]) (use OrPipe.prems in \<open>simp del: map_map\<close>)
next
  case (Wrapped inner c runs passed)
  then show ?case by (auto split: prod.splits)
qed

lemma stages_announce:
  assumes "run_stages P start ws x t = (e, ws', x', t')"
  shows "loop_announced t t' e"
proof -
  have "answers (zip ws (map (\<lambda>w. run_wrapped w P) ws))"
    using run_announces(2) by (auto simp: answers_def set_zip)
  then show ?thesis by (rule and_loop_announced [OF assms [unfolded run_stages_def]])
qed

end

text \<open>
  What a turn put in flight is what its pipeline now waits for, unless the turn was the expiry of the insight, which ends it before any
  stage is run.
\<close>

lemma turn_commands:
  fixes T :: "('p, 'y, 'v) TurnOps"
  assumes leaves: "announcing_leaves (tn_pipes T)" and turn: "insight_turn T i t pl s = (hit, t', pl', s')"
  defines "new \<equiv> in_flight (tree_row t') - in_flight (tree_row t)"
  shows "(\<forall>m\<in>new. pending_deferral pl' i = Some (DeferCommand (pm_receipt m)))
    \<or> (\<exists>q y. expire_if_due (wo_calendar (tn_work T)) (wo_context (tn_work T)) (tree_row t) (st_rest s) = (Some q, tree_row t', y)
        \<and> (\<forall>m\<in>new. q = Inr (PendingReceipt (pm_receipt m))))"
proof -
  let ?W = "tn_work T" and ?P = "tn_pipes T"
  obtain q j y where due: "expire_if_due (wo_calendar ?W) (wo_context ?W) (tree_row t) (st_rest s) = (q, j, y)" using prod_cases3 by blast
  note expiry = expire_puts [OF due]
  show ?thesis
  proof (cases "can_expire (tree_row t) \<and> \<not> expiration_managed ?P pl t \<and> q \<noteq> None")
    case True
    then have "tree_row t' = j" using turn due by (auto simp: insight_turn_def Let_def on_row_def has_expired_def)
    then show ?thesis using True due expiry by (auto simp: puts_def new_def)
  next
    case False
    let ?start = "case hm_get (pl_deferred pl) i of None \<Rightarrow> 0 | Some resume \<Rightarrow> dp_index resume"
    obtain e ws s2 t2 where stages: "run_stages ?P ?start (state_pipes (pl\<lparr>pl_deferred := hm_remove i (pl_deferred pl)\<rparr>) (tree_state t)) s t = (e, ws, s2, t2)"
      using prod_cases4 by blast
    note said = announcing_leaves.stages_announce [OF leaves stages]
    have alive: "(if can_expire (tree_row t) \<and> \<not> expiration_managed ?P pl t
        then on_row (has_expired (wo_calendar ?W)) (wo_context ?W) t (st_rest s) else (False, t, st_rest s)) = (False, t, st_rest s)"
      using False due expiry by (auto simp: on_row_def has_expired_def)
    have "case e of LoopDeferred k r \<Rightarrow> t' = t2 \<and> pending_deferral pl' i = pr_deferred r
        | _ \<Rightarrow> in_flight (tree_row t') = in_flight (tree_row t2)"
      using turn stages said failed_in_flight [of i _ t2 s2] first_on_fill_in_flight [of False t2] unfolding insight_turn_def Let_def alive
      by (cases e) (auto simp: bm_get_insert pending_deferral_def loop_announced_def split: prod.splits if_splits)
    then show ?thesis using said by (auto simp: loop_announced_def announced_def new_def split: LoopEnd.splits)
  qed
qed

end
