(* ===== verification/BuiltinPipes.thy ===== *)
theory BuiltinPipes
  imports InsightTurn OrderReducer
begin

text \<open>
  The built-in pipes (\<open>src/src/core/pipeline/*.rs\<close>): protections, exits, entry gates, configuration, position sizing and
  DCA levels.  What they ask the strategy is the record \<open>PipeContext\<close>; a polars frame is its height and the reader of a cell
  (missing columns, other types and nulls read as None).  Identifiers and clocks of new insights are drawn from the context.
\<close>

section \<open>Context\<close>

record Frame =
  fr_height :: nat
  fr_cell :: "string \<Rightarrow> nat \<Rightarrow> f64 option"

record 'y PipeContext =
  pc_base :: "'y StrategyContext"
  pc_calendar :: calendar
  pc_weekday :: "datetime \<Rightarrow> nat"
  pc_live :: "'y \<Rightarrow> bool"
  pc_native_bid_ask :: "'y \<Rightarrow> bool"
  pc_oco :: "'y \<Rightarrow> bool"
  pc_partial_close :: "'y \<Rightarrow> bool"
  pc_leveraged :: "'y \<Rightarrow> bool"
  pc_sizing :: "'y \<Rightarrow> SizingContext"
  pc_history :: "'y \<Rightarrow> string \<Rightarrow> Frame option"
  pc_account :: "'y \<Rightarrow> BrokerError + Account"
  pc_execution_risk :: "'y \<Rightarrow> f64"
  pc_min_reward_risk_ratio :: "'y \<Rightarrow> f64"
  pc_set_min_reward_risk_ratio :: "f64 \<Rightarrow> 'y \<Rightarrow> 'y"
  pc_request_cancellation :: "uuid \<Rightarrow> 'y \<Rightarrow> (BrokerCommandError + bool) \<times> 'y"
  pc_fresh :: "'y \<Rightarrow> (uuid \<times> datetime stream) stream \<times> 'y"

type_synonym 'y piped = "InsightPipeResult \<times> 'y \<times> InsightTree"

definition get_asset :: "'y PipeContext \<Rightarrow> 'y \<Rightarrow> InsightTree \<Rightarrow> Asset option" where
  "get_asset C y t = sc_universe (pc_sizing C y) (ins_symbol (tree_row t))"

definition effective_buying_power_from :: "Account \<Rightarrow> Asset \<Rightarrow> bool \<Rightarrow> f64" where
  "effective_buying_power_from account asset buying_power_is_leveraged =
     (if as_marginable asset \<and> \<not> buying_power_is_leveraged
      then acc_buying_power account * of_integer_f64 (int (max (acc_leverage account) 1)) else acc_buying_power account)"

definition tools_quantity_round :: "'y PipeContext \<Rightarrow> 'y \<Rightarrow> f64 \<Rightarrow> InsightTree \<Rightarrow> f64" where
  "tools_quantity_round C y v t = (case get_asset C y t of None \<Rightarrow> v | Some asset \<Rightarrow> quantity_round_for_asset v asset)"

definition tools_dynamic_round :: "'y PipeContext \<Rightarrow> 'y \<Rightarrow> f64 \<Rightarrow> InsightTree \<Rightarrow> f64" where
  "tools_dynamic_round C y v t = (case get_asset C y t of None \<Rightarrow> v | Some asset \<Rightarrow> dynamic_round_for_asset v asset)"

definition insight_stop_loss :: "InsightTree \<Rightarrow> f64 option" where
  "insight_stop_loss t = first_level (ins_stop_loss_levels (tree_row t))"

definition verdict :: "string \<Rightarrow> bool \<Rightarrow> bool \<Rightarrow> string option \<Rightarrow> 'y \<Rightarrow> InsightTree \<Rightarrow> 'y piped" where
  "verdict name passed success message y t = (result_new passed success message name, y, t)"

definition exit_close :: "string \<Rightarrow> 'y PipeContext \<Rightarrow> 'y \<Rightarrow> InsightTree \<Rightarrow> 'y piped" where
  "exit_close name C y t = (case on_row close_insight (pc_base C) t y of (r, t, y) \<Rightarrow> (from_exit_mutation r name, y, t))"

section \<open>Exits\<close>

datatype ExitTrigger = StopLossTrigger | TakeProfitTrigger

definition rising :: "ExitTrigger \<Rightarrow> OrderSide \<Rightarrow> bool" where
  "rising trigger side \<longleftrightarrow> (trigger = StopLossTrigger \<and> side = Sell \<or> trigger = TakeProfitTrigger \<and> side = Buy)"

text \<open>The price an open position is left at: bid for a long one, ask for a short one.\<close>

definition exit_quote :: "'y PipeContext \<Rightarrow> 'y \<Rightarrow> InsightTree \<Rightarrow> BrokerError + f64" where
  "exit_quote C y t = (let i = tree_row t in case sc_latest_quote (pc_sizing C y) (ins_symbol i) of Inl e \<Rightarrow> Inl e
     | Inr quote \<Rightarrow>
        if qt_symbol quote \<noteq> ins_symbol i \<or> \<not> valid_market_values quote
        then Inl (SnapshotUnavailable (QuoteSnapshot (ins_symbol i)) InvalidSnapshot)
        else Inr (case ins_side i of Buy \<Rightarrow> qt_bid quote | Sell \<Rightarrow> qt_ask quote))"

definition last_cell :: "Frame \<Rightarrow> string \<Rightarrow> f64 option" where
  "last_cell f column = (if fr_height f = 0 then None else fr_cell f column (fr_height f - 1))"

definition reached :: "ExitTrigger \<Rightarrow> 'y PipeContext \<Rightarrow> 'y \<Rightarrow> InsightTree \<Rightarrow> f64 \<Rightarrow> BrokerError + bool" where
  "reached trigger C y t level =
     (let up = rising trigger (ins_side (tree_row t));
          hit = (\<lambda>p. is_finite p \<and> (if up then level \<le> p else p \<le> level))
      in if pc_live C y \<and> pc_native_bid_ask C y
         then (case exit_quote C y t of Inl e \<Rightarrow> Inl e | Inr p \<Rightarrow> Inr (hit p))
         else case pc_history C y (ins_symbol (tree_row t)) of None \<Rightarrow> Inl (DataFeedError ''No history found'')
           | Some f \<Rightarrow> Inr (case last_cell f (if up then ''high'' else ''low'') of None \<Rightarrow> False | Some p \<Rightarrow> hit p))"

definition run_stop_loss :: "'y PipeContext \<Rightarrow> 'y \<Rightarrow> InsightTree \<Rightarrow> 'y piped" where
  "run_stop_loss C y t =
     (let name = ''BasicStopLossPipe'' in
      if has_pending_close (tree_row t) then exit_close name C y t
      else case insight_stop_loss t of
        None \<Rightarrow> verdict name True True (Some ''Insight does not have stop loss set'') y t
      | Some stop_loss \<Rightarrow>
          if pc_oco C y then verdict name True True (Some ''Stop loss is managed by the broker's native OCO protection'') y t
          else if ins_closing (tree_row t) then verdict name False True (Some ''Insight is already being closed'') y t
          else case reached StopLossTrigger C y t stop_loss of
            Inl e \<Rightarrow> (from_read_error e name, y, t)
          | Inr should_close \<Rightarrow> if should_close then exit_close name C y t else verdict name True True None y t)"

text \<open>The part of a take profit that follows the decision to close.\<close>

definition take_profit_close :: "'y PipeContext \<Rightarrow> f64 list \<Rightarrow> 'y \<Rightarrow> InsightTree \<Rightarrow> 'y piped" where
  "take_profit_close C tp_levels y t =
     (let name = ''BasicTakeProfitPipe'' in
      if length tp_levels \<le> 1 \<or> \<not> pc_partial_close C y then exit_close name C y t
      else let quantity_to_close = tools_quantity_round C y (remaining_quantity (tree_row t) / Fin 2) t in
        case on_row (\<lambda>B. try_close_partial B quantity_to_close None) (pc_base C) t y of
          (Inr Applied, t, y) \<Rightarrow>
            verdict name False True (Some (''Partial take profit hit for '' @ ins_symbol (tree_row t))) y
              (on_tree (set_take_profit_levels (Some (drop 1 tp_levels))) t)
        | (r, t, y) \<Rightarrow> (from_mutation r name, y, t))"

definition run_take_profit :: "'y PipeContext \<Rightarrow> 'y \<Rightarrow> InsightTree \<Rightarrow> 'y piped" where
  "run_take_profit C y t =
     (let name = ''BasicTakeProfitPipe''; pending = has_pending_close (tree_row t) in
      case ins_take_profit_levels (tree_row t) of
        None \<Rightarrow> if pending then exit_close name C y t
                else verdict name True True (Some ''Insight does not have take profit set'') y t
      | Some [] \<Rightarrow> if pending then exit_close name C y t else verdict name True True None y t
      | Some (current_tp # later) \<Rightarrow>
          if \<not> pending \<and> pc_oco C y \<and> (later = [] \<or> \<not> pc_partial_close C y)
          then verdict name True True (Some ''Take profit is managed by the broker's native OCO protection'') y t
          else if ins_closing (tree_row t) \<and> \<not> pending
          then verdict name False True (Some ''Insight is already being closed'') y t
          else case (if pending then Inr True else reached TakeProfitTrigger C y t current_tp) of
            Inl e \<Rightarrow> (from_read_error e name, y, t)
          | Inr should_close \<Rightarrow>
              if should_close then take_profit_close C (current_tp # later) y t else verdict name True True None y t)"

definition scale_out_new :: "f64 \<Rightarrow> f64" where
  "scale_out_new p = (if is_finite p then (if p < 0 then 0 else if 1 < p then 1 else p) else p)"

text \<open>A level at its price, or None.\<close>

definition level_hit :: "bool \<Rightarrow> f64 \<Rightarrow> f64 list \<Rightarrow> f64 option" where
  "level_hit up price levels = (case levels of [] \<Rightarrow> None
     | level # _ \<Rightarrow> if (if up then level \<le> price else price \<le> level) then Some level else None)"

text \<open>How much is closed at a level, or the answer when nothing is.\<close>

definition scale_out_quantity :: "'y PipeContext \<Rightarrow> f64 \<Rightarrow> bool \<Rightarrow> 'y \<Rightarrow> InsightTree \<Rightarrow> InsightPipeResult + f64" where
  "scale_out_quantity C fraction final y t =
     (let remaining_qty = remaining_quantity (tree_row t) in
      if final \<or> \<not> pc_partial_close C y then Inr remaining_qty
      else case get_asset C y t of None \<Rightarrow> Inl (result_new False False (Some ''Asset not found'') ''ScaleOutPipe'')
      | Some asset \<Rightarrow>
          let scaled = floor_quantity (remaining_qty * fraction) (limits_from_asset asset) in
          if scaled \<le> 0 then Inl (result_new True True (Some ''Scale-out quantity is below the asset quantity step'') ''ScaleOutPipe'')
          else Inr (fmin scaled remaining_qty))"

definition scale_out_message :: "string \<Rightarrow> string \<Rightarrow> f64 \<Rightarrow> f64 \<Rightarrow> bool \<Rightarrow> string" where
  "scale_out_message level_kind symbol close_qty level_price partial =
     ''Scale out triggered on '' @ level_kind @ '' for '' @ symbol @ '' qty '' @ fmt_fixed 4 close_qty @ '' @ '' @ fmt_fixed 4 level_price
     @ (if partial then '''' else ''; broker does not support partial closes, so the remaining position was closed'')"

text \<open>The close at a level that was hit.\<close>

definition scale_out_close :: "'y PipeContext \<Rightarrow> f64 \<Rightarrow> f64 option \<Rightarrow> f64 list \<Rightarrow> f64 option \<Rightarrow> f64 list \<Rightarrow> string \<Rightarrow> f64 \<Rightarrow> 'y \<Rightarrow> InsightTree
    \<Rightarrow> 'y piped" where
  "scale_out_close C fraction tp_hit tp_levels sl_hit sl_levels level_kind level_price y t =
     (let name = ''ScaleOutPipe''; symbol = ins_symbol (tree_row t); partial = pc_partial_close C y;
          final = (tp_hit \<noteq> None \<and> length tp_levels = 1 \<or> sl_hit \<noteq> None \<and> length sl_levels = 1)
      in if pc_oco C y \<and> final
         then verdict name True True (Some (''Final '' @ level_kind @ '' for '' @ symbol
                @ '' is managed by the broker's native OCO protection'')) y t
         else if pc_oco C y \<and> \<not> partial
         then verdict name True True (Some (''Intermediate '' @ level_kind @ '' for '' @ symbol
                @ '' requires partial-close support; waiting for broker-managed final protection'')) y t
         else case scale_out_quantity C fraction final y t of Inl r \<Rightarrow> (r, y, t)
         | Inr close_qty \<Rightarrow>
             (case on_row (\<lambda>B. try_close_partial B close_qty (Some level_price)) (pc_base C) t y of
                (Inr Applied, t, y) \<Rightarrow>
                  verdict name True False (Some (scale_out_message level_kind symbol close_qty level_price partial)) y
                    (if sl_hit \<noteq> None then on_tree (set_stop_loss_levels (Some (drop 1 sl_levels))) t
                     else on_tree (set_take_profit_levels (Some (drop 1 tp_levels))) t)
              | (r, t, y) \<Rightarrow> (from_mutation r name, y, t)))"

definition run_scale_out :: "f64 \<Rightarrow> 'y PipeContext \<Rightarrow> 'y \<Rightarrow> InsightTree \<Rightarrow> 'y piped" where
  "run_scale_out fraction C y t =
     (let name = ''ScaleOutPipe''; i = tree_row t; pending = has_pending_close i in
      if \<not> pending \<and> (\<not> is_finite fraction \<or> fraction \<le> 0)
      then verdict name False False (Some ''Scale-out fraction must be finite and greater than zero'') y t
      else if ins_state i \<noteq> StFilled then verdict name True True (Some ''Insight is not filled'') y t
      else if ins_closing i \<and> \<not> pending then verdict name False True (Some ''Insight is already closing'') y t
      else if remaining_quantity i \<le> 0 then verdict name False True (Some ''No remaining quantity to scale out'') y t
      else case (case pending_close_price i of Some p \<Rightarrow> Inr p | None \<Rightarrow> exit_quote C y t) of
        Inl e \<Rightarrow> (from_read_error e name, y, t)
      | Inr price \<Rightarrow>
          let tp_levels = unwrap_or (ins_take_profit_levels i) []; sl_levels = unwrap_or (ins_stop_loss_levels i) [];
              tp_hit = level_hit (ins_side i = Buy) price tp_levels; sl_hit = level_hit (ins_side i = Sell) price sl_levels
          in (case (sl_hit, tp_hit) of
                (Some level, _) \<Rightarrow> scale_out_close C fraction tp_hit tp_levels sl_hit sl_levels ''stop loss'' level y t
              | (None, Some level) \<Rightarrow> scale_out_close C fraction tp_hit tp_levels sl_hit sl_levels ''take profit'' level y t
              | (None, None) \<Rightarrow> verdict name True True None y t))"

definition run_close_market_changed :: "'y PipeContext \<Rightarrow> 'y \<Rightarrow> InsightTree \<Rightarrow> 'y piped" where
  "run_close_market_changed C y t =
     (let name = ''CloseMarketChangedPipe'' in
      if has_pending_close (tree_row t) then exit_close name C y t
      else if ins_closing (tree_row t) then verdict name False True (Some ''Insight is already being closed'') y t
      else if ins_market_changed (tree_row t) then exit_close name C y t
      else verdict name True True None y t)"

definition run_reject_expired :: "'y PipeContext \<Rightarrow> 'y \<Rightarrow> InsightTree \<Rightarrow> 'y piped" where
  "run_reject_expired C y t =
     (let name = ''RejectExpiredInsightPipe'' in
      case on_row (expire_if_due (pc_calendar C)) (pc_base C) t y of
        (Some r, t, y) \<Rightarrow> (from_exit_mutation r name, y, t)
      | (None, t, y) \<Rightarrow> verdict name True True None y t)"

section \<open>Gates and configuration\<close>

definition run_submit :: "'y PipeContext \<Rightarrow> 'y \<Rightarrow> InsightTree \<Rightarrow> 'y piped" where
  "run_submit C y t =
     (let name = ''InsightSubmitPipe''; S = pc_sizing C y in
      if has_pending_submit (tree_row t)
      then (case on_row poll_pending_submission (pc_base C) t y of (r, t, y) \<Rightarrow> (from_mutation r name, y, t))
      else if tree_state t = StNew
      then if sc_max_total_orders S \<and> sc_cached_account S = None then (result_deferred DeferAccount name, y, t)
           else (case validate_pending_tree_limits S t of
                   Inl message \<Rightarrow> verdict name False True (Some message) y (log_row message t)
                 | Inr _ \<Rightarrow> (case on_row (submit (pc_calendar C)) (pc_base C) t y of (r, t, y) \<Rightarrow> (from_mutation r name, y, t)))
      else verdict name True True (Some ''Insight submitted'') y t)"

definition run_market_order_entry :: "'y PipeContext \<Rightarrow> 'y \<Rightarrow> InsightTree \<Rightarrow> 'y piped" where
  "run_market_order_entry C y t =
     (let name = ''MarketOrderEntryPipe''; i = tree_row t in
      if ins_limit_price i \<noteq> None \<or> ins_stop_price i \<noteq> None \<or> ins_state i \<noteq> StNew \<or> ins_submitted i \<or> has_pending_submit i
      then verdict name True True (Some ''Insight already has an entry or is no longer editable'') y t
      else case Option.bind (pc_history C y (ins_symbol i)) (\<lambda>f. last_cell f ''close'') of
        Some price \<Rightarrow>
          if is_finite price \<and> 0 < price
          then verdict name True True (Some (''Limit price set to close: '' @ display_f64 price)) y (on_tree (set_limit_price (Some price)) t)
          else verdict name False False (Some ''Failed to get close price for limit'') y t
      | None \<Rightarrow> verdict name False False (Some ''Failed to get close price for limit'') y t)"

definition invalid_target :: "OrderSide \<Rightarrow> f64 \<Rightarrow> f64 \<Rightarrow> bool" where
  "invalid_target side entry level \<longleftrightarrow> \<not> is_finite level \<or> level \<le> 0 \<or> (case side of Buy \<Rightarrow> level \<le> entry | Sell \<Rightarrow> entry \<le> level)"

text \<open>The evaluation of the ratio, after the configured minimum was written to the strategy.\<close>

definition check_reward_risk :: "'y PipeContext \<Rightarrow> 'y \<Rightarrow> InsightTree \<Rightarrow> 'y piped" where
  "check_reward_risk C y t =
     (let name = ''MinimumRiskToRewardPipe''; i = tree_row t; deny = (\<lambda>m. verdict name False False (Some m) y t) in
      case sizing_entry_price (pc_sizing C y) i of
        Inl e \<Rightarrow> (from_read_error e name, y, t)
      | Inr entry \<Rightarrow>
          (case (insight_stop_loss t, ins_take_profit_levels i) of
             (Some stop_loss, Some levels) \<Rightarrow>
               if \<not> is_finite entry \<or> entry \<le> 0 then deny ''Insight does not have limit price, stop loss or take profit set.''
               else let minimum_rr = pc_min_reward_risk_ratio C y in
                 if \<not> is_finite minimum_rr \<or> minimum_rr \<le> 0 then deny ''Minimum reward risk ratio is not configured''
                 else (case validate_stop_for_side i entry stop_loss of Inl m \<Rightarrow> deny m
                   | Inr _ \<Rightarrow>
                       if levels = [] \<or> list_ex (invalid_target (ins_side i) entry) levels
                       then deny ''Take profit is invalid for the insight side''
                       else let take_profit = last levels; risk = \<bar>entry - stop_loss\<bar>; reward = \<bar>take_profit - entry\<bar>;
                                rr = (if 0 < risk then reward / risk else 0)
                            in if rr < minimum_rr
                               then verdict name False True (Some ''Risk to reward ratio below minimum'') y
                                      (on_tree (order_rejected (''Risk to reward ratio '' @ fmt_fixed 2 rr @ '' is below minimum ''
                                         @ fmt_fixed 2 minimum_rr)) t)
                               else verdict name True True None y t)
           | _ \<Rightarrow> deny ''Insight does not have limit price, stop loss or take profit set.''))"

definition run_minimum_rr :: "f64 option \<Rightarrow> 'y PipeContext \<Rightarrow> 'y \<Rightarrow> InsightTree \<Rightarrow> 'y piped" where
  "run_minimum_rr configured C y t = (case configured of
       None \<Rightarrow> check_reward_risk C y t
     | Some minimum_rr \<Rightarrow>
         if \<not> is_finite minimum_rr \<or> minimum_rr \<le> 0
         then verdict ''MinimumRiskToRewardPipe'' False False (Some ''Minimum reward risk ratio must be finite and positive'') y t
         else check_reward_risk C (pc_set_min_reward_risk_ratio C minimum_rr y) t)"

text \<open>\<open>u32::try_from\<close> of an \<open>i64\<close>; zero clears the setting.\<close>

definition normalise_period :: "int \<Rightarrow> nat option" where
  "normalise_period value = (if 0 < value \<and> value < 2 ^ 32 then Some (nat value) else None)"

definition debug_period :: "nat option \<Rightarrow> string" where
  "debug_period p = (case p of None \<Rightarrow> ''None'' | Some n \<Rightarrow> ''Some('' @ digits_of n @ '')'')"

definition ttl_message :: "nat option \<Rightarrow> nat option \<Rightarrow> string" where
  "ttl_message unfilled till_tp = ''Insight TTL configured: period_unfilled='' @ debug_period unfilled @ '', period_till_tp='' @ debug_period till_tp"

definition run_ttl_config :: "nat option \<Rightarrow> nat option \<Rightarrow> 'y \<Rightarrow> InsightTree \<Rightarrow> 'y piped" where
  "run_ttl_config unfilled till_tp y t =
     verdict ''InsightTtlConfigPipe'' True True (Some (ttl_message unfilled till_tp)) y
       (on_tree (\<lambda>i. set_period_till_tp till_tp (set_period_unfilled unfilled i)) t)"

definition opposite_entries :: "'y PipeContext \<Rightarrow> 'y \<Rightarrow> InsightTree \<Rightarrow> uuid list" where
  "opposite_entries C y t = map insight_id (filter (\<lambda>other. ins_symbol (tree_row other) = ins_symbol (tree_row t)
       \<and> ins_side (tree_row other) \<noteq> ins_side (tree_row t) \<and> insight_id other \<noteq> insight_id t
       \<and> (tree_state other = StNew \<or> tree_state other = StExecuted))
     (iter_active_insights (sc_insights (pc_sizing C y))))"

fun request_cancellations :: "'y PipeContext \<Rightarrow> uuid list \<Rightarrow> nat \<Rightarrow> 'y \<Rightarrow> (BrokerCommandError + nat) \<times> 'y" where
  "request_cancellations C [] affected y = (Inr affected, y)"
| "request_cancellations C (i # is) affected y = (case pc_request_cancellation C i y of
       (Inl e, y) \<Rightarrow> (Inl e, y)
     | (Inr done, y) \<Rightarrow> request_cancellations C is (if done then affected + 1 else affected) y)"

definition run_cancel_opposite :: "'y PipeContext \<Rightarrow> 'y \<Rightarrow> InsightTree \<Rightarrow> 'y piped" where
  "run_cancel_opposite C y t =
     (let name = ''CancelOppositePipe'' in
      case request_cancellations C (opposite_entries C y t) 0 y of
        (Inl e, y) \<Rightarrow> (from_mutation (Inl e) name, y, t)
      | (Inr affected, y) \<Rightarrow> verdict name True True (Some (''Requested cancellation of '' @ digits_of affected
            @ '' opposite-side entries for '' @ ins_symbol (tree_row t))) y t)"

text \<open>What the strategy does on such a request.\<close>

definition request_insight_cancellation :: "('y, 'v) WorkOps \<Rightarrow> uuid \<Rightarrow> 'y StrategyRun \<Rightarrow> ((BrokerCommandError + bool) \<times> 'y StrategyRun) option" where
  "request_insight_cancellation W i s = (case row s i of None \<Rightarrow> Some (Inr False, s)
     | Some r \<Rightarrow>
        if tree_state r \<noteq> StNew \<and> tree_state r \<noteq> StExecuted then Some (Inr False, s)
        else case restore_after_update (wo_json W) (on_tree (\<lambda>i. i\<lparr>ins_suppress_child_entries := True\<rparr>) r) True
               (snd (take_for_update i (st_insights s))) of None \<Rightarrow> None
        | Some c \<Rightarrow> Some (Inr True, schedule_descendant_cleanup i (schedule_insight_cleanup i (s\<lparr>st_insights := c\<rparr>))))"

section \<open>Time windows\<close>

text \<open>\<open>str::parse\<close>: an optional sign, digits, and the range of the type.\<close>

definition parse_i64 :: "string \<Rightarrow> int option" where
  "parse_i64 s = (let neg = (take 1 s = ''-''); ds = (if neg \<or> take 1 s = ''+'' then drop 1 s else s);
       v = (if neg then - int (decimal_value ds) else int (decimal_value ds))
     in if ds \<noteq> [] \<and> list_all is_ascii_digit ds \<and> - (2 ^ 63) \<le> v \<and> v < 2 ^ 63 then Some v else None)"

definition parse_u32 :: "string \<Rightarrow> nat option" where
  "parse_u32 s = (let ds = (if take 1 s = ''+'' then drop 1 s else s)
     in if ds \<noteq> [] \<and> list_all is_ascii_digit ds \<and> int (decimal_value ds) < 2 ^ 32 then Some (decimal_value ds) else None)"

fun split_on :: "char \<Rightarrow> string \<Rightarrow> string list" where
  "split_on c [] = [[]]"
| "split_on c (x # xs) = (if x = c then [] # split_on c xs
     else case split_on c xs of w # ws \<Rightarrow> (x # w) # ws | [] \<Rightarrow> [[x]])"

definition split_once :: "char \<Rightarrow> string \<Rightarrow> (string \<times> string) option" where
  "split_once c s = (if c \<in> set s then Some (takeWhile (\<lambda>x. x \<noteq> c) s, drop 1 (dropWhile (\<lambda>x. x \<noteq> c) s)) else None)"

definition pad2 :: "nat \<Rightarrow> string" where
  "pad2 n = (if n < 10 then ''0'' @ digits_of n else digits_of n)"

definition minutes_text :: "int \<Rightarrow> string" where
  "minutes_text m = pad2 (nat (m div 60)) @ '':'' @ pad2 (nat (m mod 60))"

definition minutes_of :: "string \<Rightarrow> string \<Rightarrow> int option" where
  "minutes_of hour minute = (case (parse_i64 hour, parse_i64 minute) of
       (Some h, Some m) \<Rightarrow> if 0 \<le> h \<and> h \<le> 23 \<and> 0 \<le> m \<and> m \<le> 59 then Some (h * 60 + m) else None
     | _ \<Rightarrow> None)"

definition in_window :: "int \<Rightarrow> int \<Rightarrow> int \<Rightarrow> bool" where
  "in_window start finish current \<longleftrightarrow>
     (if start \<le> finish then start \<le> current \<and> current \<le> finish else start \<le> current \<or> current \<le> finish)"

definition minute_of_day :: "'y PipeContext \<Rightarrow> 'y \<Rightarrow> int" where
  "minute_of_day C y = (let now = ctx_current_time (pc_base C) y in
     int (cal_hour (pc_calendar C) now * 60 + cal_minute (pc_calendar C) now))"

record AllowTradingWindow =
  tw_start_utc :: string
  tw_end_utc :: string
  tw_allowed_days :: string

definition parse_minutes :: "string \<Rightarrow> int option" where
  "parse_minutes value = (case split_once (CHR '':'') (trim value) of None \<Rightarrow> None | Some (hour, minute) \<Rightarrow> minutes_of hour minute)"

definition normalize_time :: "string \<Rightarrow> string \<Rightarrow> string" where
  "normalize_time value fallback = (case parse_minutes value of Some m \<Rightarrow> minutes_text m | None \<Rightarrow> fallback)"

definition allowed_day_list :: "string \<Rightarrow> nat list" where
  "allowed_day_list value = filter (\<lambda>day. day \<le> 6) (somes (map (\<lambda>item. parse_u32 (trim item)) (split_on (CHR '','') value)))"

definition normalize_days :: "string \<Rightarrow> string" where
  "normalize_days value = (let days = allowed_day_list value in
     if days = [] then ''0,1,2,3,4,5,6'' else join '','' (map digits_of days))"

definition trading_window_new :: "string \<Rightarrow> string \<Rightarrow> string \<Rightarrow> AllowTradingWindow" where
  "trading_window_new start_utc end_utc allowed_days = \<lparr>tw_start_utc = normalize_time start_utc ''06:00'',
     tw_end_utc = normalize_time end_utc ''20:00'', tw_allowed_days = normalize_days allowed_days\<rparr>"

definition window_allows :: "AllowTradingWindow \<Rightarrow> nat \<Rightarrow> int \<Rightarrow> string + unit" where
  "window_allows w weekday current =
     (let days = allowed_day_list (tw_allowed_days w) in
      if days \<noteq> [] \<and> weekday \<notin> set days then Inl (''Trading not allowed on weekday '' @ digits_of weekday)
      else if in_window (unwrap_or (parse_minutes (tw_start_utc w)) 360) (unwrap_or (parse_minutes (tw_end_utc w)) 1200) current
      then Inr ()
      else Inl (''Outside trading window '' @ tw_start_utc w @ ''-'' @ tw_end_utc w @ '' UTC''))"

definition run_trading_window :: "AllowTradingWindow \<Rightarrow> 'y PipeContext \<Rightarrow> 'y \<Rightarrow> InsightTree \<Rightarrow> InsightPipeResult \<times> AllowTradingWindow" where
  "run_trading_window w C y t =
     (let name = ''AllowTradingWindowPipe''; w = trading_window_new (tw_start_utc w) (tw_end_utc w) (tw_allowed_days w) in
      (case window_allows w (pc_weekday C (ctx_current_time (pc_base C) y)) (minute_of_day C y) of
         Inr _ \<Rightarrow> result_new True True (Some ''Trading window passed'') name
       | Inl reason \<Rightarrow> result_new False True (Some reason) name, w))"

record EndOfDayClose =
  ed_minutes_before :: int
  ed_time_utc :: string

definition normalise_positive_minutes :: "int \<Rightarrow> int \<Rightarrow> int" where
  "normalise_positive_minutes value fallback = (if 0 < value then value else fallback)"

definition parse_utc_time_minutes :: "string \<Rightarrow> int option" where
  "parse_utc_time_minutes value =
     (let trimmed = trim value in
      if trimmed = [] then None
      else case split_once (CHR '':'') trimmed of
        Some (hour, minute) \<Rightarrow> minutes_of (trim hour) (trim minute)
      | None \<Rightarrow> if length trimmed = 4 then minutes_of (take 2 trimmed) (drop 2 trimmed) else None)"

definition normalise_utc_time :: "string \<Rightarrow> string" where
  "normalise_utc_time value = (case parse_utc_time_minutes value of Some m \<Rightarrow> minutes_text (min (max m 0) 1439) | None \<Rightarrow> ''23:45'')"

definition end_of_day_new :: "int \<Rightarrow> string \<Rightarrow> EndOfDayClose" where
  "end_of_day_new minutes time = \<lparr>ed_minutes_before = normalise_positive_minutes minutes 15, ed_time_utc = normalise_utc_time time\<rparr>"

definition end_of_day_minutes :: "EndOfDayClose \<Rightarrow> int" where
  "end_of_day_minutes e = unwrap_or (parse_utc_time_minutes (ed_time_utc e)) 1425"

definition close_window_start_minutes :: "EndOfDayClose \<Rightarrow> int" where
  "close_window_start_minutes e = (end_of_day_minutes e - ed_minutes_before e) mod 1440"

definition is_close_window :: "EndOfDayClose \<Rightarrow> int \<Rightarrow> bool" where
  "is_close_window e current = in_window (close_window_start_minutes e) (end_of_day_minutes e) current"

definition run_end_of_day :: "EndOfDayClose \<Rightarrow> 'y PipeContext \<Rightarrow> 'y \<Rightarrow> InsightTree \<Rightarrow> 'y piped \<times> EndOfDayClose" where
  "run_end_of_day e C y t =
     (let name = ''EndOfDayClosePipe'' in
      if has_pending_close (tree_row t) then (exit_close name C y t, e)
      else if tree_state t \<noteq> StFilled then (verdict name True True None y t, e)
      else if ins_closing (tree_row t) then (verdict name False True (Some ''Insight is already being closed'') y t, e)
      else let e = end_of_day_new (ed_minutes_before e) (ed_time_utc e) in
        (if \<not> is_close_window e (minute_of_day C y) then verdict name True True None y t else exit_close name C y t, e))"

section \<open>Sizing\<close>

definition split_summary :: "QuantitySplitResult \<Rightarrow> string" where
  "split_summary r =
     (if 0 < qsr_child_count r
      then '', parent_qty='' @ fmt_fixed 4 (qsr_parent_quantity r) @ '', children='' @ digits_of (qsr_child_count r)
           @ '', child_qty='' @ fmt_fixed 4 (qsr_child_quantity_total r) @ '', target_qty='' @ fmt_fixed 4 (qsr_target_quantity r)
      else if qsr_parent_quantity r < qsr_target_quantity r then '', capped_from='' @ fmt_fixed 4 (qsr_target_quantity r)
      else '''')"

text \<open>The insight a refused resize leaves behind: only the log lines about a reached limit were written.\<close>

definition resize_left :: "SizingContext \<Rightarrow> InsightTree \<Rightarrow> f64 \<Rightarrow> AssetQuantityLimits \<Rightarrow> InsightTree" where
  "resize_left S t target_quantity limits =
     (if \<exists>c\<in>set (tree_children t). is_split c \<and> (ins_submitted (tree_row c) \<or> tree_state c \<noteq> StNew \<or> tree_children c \<noteq> []) then t
      else let reserved = fsum (map tree_quantity_size (filter (\<lambda>c. \<not> is_split c) (tree_children t))) in
        case cap_asset_total_quantity S t (target_quantity + reserved) limits of Inl _ \<Rightarrow> t
        | Inr (capped_total, t) \<Rightarrow>
          (case available_pending_orders S t of Inl _ \<Rightarrow> t
           | Inr slots \<Rightarrow> snd (snd (split_target t limits (floor_quantity (fmax (capped_total - reserved) 0) limits) slots))))"

definition resize_insight :: "'y PipeContext \<Rightarrow> f64 \<Rightarrow> AssetQuantityLimits \<Rightarrow> 'y \<Rightarrow> InsightTree
    \<Rightarrow> (string + QuantitySplitResult) \<times> 'y \<times> InsightTree" where
  "resize_insight C target limits y t = (case pc_fresh C y of (fresh, y) \<Rightarrow>
     (case apply_max_order_size_with_child_legs (pc_sizing C y) fresh t target limits of
        Inl message \<Rightarrow> (Inl message, y, resize_left (pc_sizing C y) t target limits)
      | Inr (split, t) \<Rightarrow> (Inr split, y, on_tree (set_quantity (Some (qsr_parent_quantity split))) t)))"

text \<open>The end of the three sizing pipes: the quantity is split and set, or the insight is rejected.\<close>

definition size_insight :: "string \<Rightarrow> (QuantitySplitResult \<Rightarrow> string) \<Rightarrow> 'y PipeContext \<Rightarrow> f64 \<Rightarrow> AssetQuantityLimits \<Rightarrow> 'y \<Rightarrow> InsightTree \<Rightarrow> 'y piped" where
  "size_insight name message C target limits y t = (case resize_insight C target limits y t of
       (Inl e, y, t) \<Rightarrow> verdict name False True (Some e) y (on_tree (order_rejected e) t)
     | (Inr split, y, t) \<Rightarrow> verdict name True True (Some (message split)) y t)"

definition positive_entry :: "string \<Rightarrow> 'y PipeContext \<Rightarrow> 'y \<Rightarrow> InsightTree \<Rightarrow> InsightPipeResult + f64" where
  "positive_entry name C y t = (case sizing_entry_price (pc_sizing C y) (tree_row t) of
       Inl e \<Rightarrow> Inl (from_read_error e name)
     | Inr v \<Rightarrow> if is_finite v \<and> 0 < v then Inr v else Inl (result_new False False (Some ''Entry price must be positive'') name))"

definition quantity_message :: "QuantitySplitResult \<Rightarrow> string" where
  "quantity_message split = ''Quantity set to '' @ fmt_fixed 4 (qsr_total_quantity split) @ split_summary split"

text \<open>The rounding step of the full-account and the dynamic pipe.\<close>

definition round_and_size :: "string \<Rightarrow> 'y PipeContext \<Rightarrow> Asset \<Rightarrow> f64 \<Rightarrow> 'y \<Rightarrow> InsightTree \<Rightarrow> 'y piped" where
  "round_and_size name C asset quantity y t =
     (case round_whole_or_fractional_quantity (pc_sizing C y) (ins_symbol (tree_row t)) quantity (as_fractional asset) of
        Inl e \<Rightarrow> verdict name False True (Some e) y (on_tree (order_rejected e) t)
      | Inr target \<Rightarrow> size_insight name quantity_message C target (limits_from_asset asset) y t)"

definition run_full_account :: "'y PipeContext \<Rightarrow> 'y \<Rightarrow> InsightTree \<Rightarrow> 'y piped" where
  "run_full_account C y t =
     (let name = ''FullAccountQuantityToRiskPipe''; i = tree_row t; deny = (\<lambda>m. verdict name False False (Some m) y t) in
      case positive_entry name C y t of Inl r \<Rightarrow> (r, y, t)
      | Inr entry \<Rightarrow> (case insight_stop_loss t of None \<Rightarrow> deny ''Insight does not have stop loss set.''
        | Some stop_loss \<Rightarrow> (case validate_stop_for_side i entry stop_loss of Inl m \<Rightarrow> deny m
          | Inr _ \<Rightarrow> (case get_asset C y t of None \<Rightarrow> deny (''Asset '' @ ins_symbol i @ '' not found'')
            | Some asset \<Rightarrow> (case pc_account C y of Inl e \<Rightarrow> (from_read_error e name, y, t)
              | Inr account \<Rightarrow>
                  let capital = effective_buying_power_from account asset (pc_leveraged C y) in
                  if \<not> is_finite capital \<or> capital \<le> 0 then deny ''Available capital must be positive''
                  else round_and_size name C asset (capital / (entry * contract_multiplier asset)) y t)))))"

text \<open>The dynamic pipe, once asset and account are known.\<close>

definition dynamic_size :: "f64 \<Rightarrow> f64 \<Rightarrow> 'y PipeContext \<Rightarrow> Asset \<Rightarrow> Account \<Rightarrow> f64 \<Rightarrow> f64 \<Rightarrow> 'y \<Rightarrow> InsightTree \<Rightarrow> 'y piped" where
  "dynamic_size maximum minimum C asset account entry stop_loss y t =
     (let name = ''DynamicQuantityToRiskPipe''; i = tree_row t; deny = (\<lambda>m. verdict name False False (Some m) y t);
          capital = effective_buying_power_from account asset (pc_leveraged C y)
            * (of_integer_f64 (int (min (ins_confidence i) 100)) / Fin 100)
      in if \<not> is_finite capital \<or> capital \<le> 0 then deny ''Available capital must be finite and positive''
         else if capital < minimum
         then verdict name False True (Some ''Working capital below minimum cost basis'') y
                (on_tree (order_rejected (''Working capital '' @ fmt_fixed 2 capital @ '' is below minimum cost basis '' @ fmt_fixed 2 minimum)) t)
         else let capital = (if maximum < capital then maximum else capital); multiplier = contract_multiplier asset;
                  risk_per_share = \<bar>entry - stop_loss\<bar> * multiplier
              in if risk_per_share \<le> 0 then deny ''Risk per share must be positive''
                 else round_and_size name C asset
                        (fmin (capital * pc_execution_risk C y / risk_per_share) (capital / (entry * multiplier))) y t)"

definition run_dynamic_quantity :: "f64 \<Rightarrow> f64 \<Rightarrow> 'y PipeContext \<Rightarrow> 'y \<Rightarrow> InsightTree \<Rightarrow> 'y piped" where
  "run_dynamic_quantity maximum minimum C y t =
     (let name = ''DynamicQuantityToRiskPipe''; i = tree_row t; deny = (\<lambda>m. verdict name False False (Some m) y t);
          risk = pc_execution_risk C y in
      case positive_entry name C y t of Inl r \<Rightarrow> (r, y, t)
      | Inr entry \<Rightarrow> (case insight_stop_loss t of None \<Rightarrow> deny ''Insight does not have stop loss set.''
        | Some stop_loss \<Rightarrow>
            if ins_quantity i \<noteq> None then verdict name True True (Some ''Quantity already set'') y t
            else (case validate_stop_for_side i entry stop_loss of Inl m \<Rightarrow> deny m
              | Inr _ \<Rightarrow>
                  if \<not> is_finite maximum \<or> maximum \<le> 0 \<or> \<not> is_finite minimum \<or> minimum < 0 \<or> maximum < minimum
                     \<or> \<not> is_finite risk \<or> \<not> (0 \<le> risk \<and> risk \<le> 1) \<or> risk = 0
                  then deny ''Invalid cost-basis limits or execution risk''
                  else (case get_asset C y t of None \<Rightarrow> deny (''Asset '' @ ins_symbol i @ '' not found'')
                    | Some asset \<Rightarrow> (case pc_account C y of Inl e \<Rightarrow> (from_read_error e name, y, t)
                      | Inr account \<Rightarrow> dynamic_size maximum minimum C asset account entry stop_loss y t)))))"

definition risk_rate :: "int \<Rightarrow> f64" where
  "risk_rate risk_percent = normalised_percent_rate risk_percent DEFAULT_RISK_PERCENT"

definition risk_message :: "f64 \<Rightarrow> f64 \<Rightarrow> QuantitySplitResult \<Rightarrow> string" where
  "risk_message risk_per_unit account_size split =
     (let total = qsr_total_quantity split; amount = risk_per_unit * total
      in ''Position sized: qty='' @ fmt_fixed 4 total @ split_summary split @ '', risk='' @ fmt_fixed 2 amount
         @ '' ('' @ fmt_fixed 2 (amount / account_size * Fin 100) @ ''%)'')"

text \<open>The quantity the risk pipe asks for.\<close>

definition risk_quantity :: "f64 \<Rightarrow> f64 \<Rightarrow> f64 \<Rightarrow> f64 \<Rightarrow> f64 \<Rightarrow> AssetQuantityLimits \<Rightarrow> f64" where
  "risk_quantity risk_amount risk_per_unit capital entry multiplier limits =
     floor_quantity (fmin (risk_amount / risk_per_unit) (capital / (entry * multiplier))) limits"

definition run_percentage_risk :: "int \<Rightarrow> 'y PipeContext \<Rightarrow> 'y \<Rightarrow> InsightTree \<Rightarrow> 'y piped" where
  "run_percentage_risk risk_percent C y t =
     (let name = ''PercentageRiskToQuantityPipe''; i = tree_row t; deny = (\<lambda>m. verdict name False False (Some m) y t) in
      case get_asset C y t of None \<Rightarrow> deny (''Asset '' @ ins_symbol i @ '' not found'')
      | Some asset \<Rightarrow> (case pc_account C y of Inl e \<Rightarrow> (from_read_error e name, y, t)
        | Inr account \<Rightarrow>
            let limits = limits_from_asset asset; multiplier = contract_multiplier asset;
                account_size = account_size_from_equity_or_cash account
            in if \<not> is_finite account_size \<or> account_size \<le> 0 then deny ''Account size must be positive''
               else (case positive_entry name C y t of Inl r \<Rightarrow> (r, y, t)
                 | Inr entry \<Rightarrow> (case insight_stop_loss t of None \<Rightarrow> deny ''Stop loss must be set before position sizing''
                   | Some stop_loss \<Rightarrow>
                       if \<not> 0 < stop_loss then deny ''Stop loss must be positive before position sizing''
                       else (case validate_stop_for_side i entry stop_loss of Inl m \<Rightarrow> deny m
                         | Inr _ \<Rightarrow>
                             let risk_per_unit = \<bar>entry - stop_loss\<bar> * multiplier;
                                 capital = effective_buying_power_from account asset (pc_leveraged C y)
                             in if risk_per_unit \<le> EPSILON then deny ''Entry and stop loss cannot be the same price''
                                else if \<not> is_finite capital \<or> capital \<le> 0 \<or> 1 < risk_rate risk_percent
                                then deny ''Invalid buying power or risk percentage''
                                else size_insight name (risk_message risk_per_unit account_size) C
                                       (risk_quantity (account_size * risk_rate risk_percent) risk_per_unit capital entry multiplier limits)
                                       limits y t)))))"

section \<open>DCA levels\<close>

definition calculate_dca_quantities :: "f64 \<Rightarrow> f64 list \<Rightarrow> f64 list" where
  "calculate_dca_quantities amount price_levels =
     (let denominator = fsum (map (\<lambda>price. 1 / price) price_levels)
      in map (\<lambda>price. amount / denominator * (1 / price)) price_levels)"

definition dca_prices :: "'y PipeContext \<Rightarrow> 'y \<Rightarrow> InsightTree \<Rightarrow> f64 \<Rightarrow> nat \<Rightarrow> f64 \<Rightarrow> f64 list" where
  "dca_prices C y t percentage levels entry = entry # map (\<lambda>level.
     let distance = percentage * of_integer_f64 (int level)
     in tools_dynamic_round C y (case ins_side (tree_row t) of Buy \<Rightarrow> entry * (1 - distance) | Sell \<Rightarrow> entry * (1 + distance)) t)
     [1..<levels + 1]"

text \<open>The insight left behind when the levels cannot be capped.\<close>

definition levels_left :: "SizingContext \<Rightarrow> InsightTree \<Rightarrow> f64 list \<Rightarrow> AssetQuantityLimits \<Rightarrow> InsightTree" where
  "levels_left S t quantities limits =
     (if quantities = [] \<or> (\<exists>q\<in>set quantities. \<not> is_finite q \<or> q \<le> 0) then t
      else let desired = fsum quantities in
        case cap_asset_total_quantity S t desired limits of Inl _ \<Rightarrow> t
        | Inr (capped, t) \<Rightarrow> (case available_pending_orders S t of Inl _ \<Rightarrow> t
          | Inr slots \<Rightarrow> (case slot_scale quantities limits slots (fmin (capped / desired) (Fin 1)) of Inl _ \<Rightarrow> t
            | Inr (scale, reduced) \<Rightarrow> scaled_row slots scale reduced t)))"

fun first_error :: "('a \<Rightarrow> string + 'b) \<Rightarrow> 'a list \<Rightarrow> string option" where
  "first_error f [] = None"
| "first_error f (x # xs) = (case f x of Inl e \<Rightarrow> Some e | Inr _ \<Rightarrow> first_error f xs)"

definition dca_child :: "'y PipeContext \<Rightarrow> f64 \<Rightarrow> 'y \<Rightarrow> InsightTree \<Rightarrow> 'y \<times> InsightTree" where
  "dca_child C level_price y t = (case pc_fresh C y of (fresh, y) \<Rightarrow>
     (let p = tree_row t;
          c = insight_new (fst (shd fresh)) (snd (shd fresh)) (ins_side p) (ins_symbol p) (ins_strategy_type p) (ins_timeframe p)
                (ins_confidence p) (Some (ins_id p));
          c = set_limit_price (Some level_price) c;
          c = set_stop_loss_levels (ins_stop_loss_levels p) c;
          c = set_take_profit_levels (ins_take_profit_levels p) c;
          c = set_execution_depends [case ins_side p of Buy \<Rightarrow> UpStateConfirmationModel | Sell \<Rightarrow> DownStateConfirmationModel] c
      in (y, Tree c [] [])))"

fun dca_children :: "'y PipeContext \<Rightarrow> AssetQuantityLimits \<Rightarrow> (f64 \<times> f64) list \<Rightarrow> nat \<Rightarrow> 'y \<Rightarrow> InsightTree
    \<Rightarrow> (string + nat) \<times> 'y \<times> InsightTree" where
  "dca_children C limits [] fragments y t = (Inr fragments, y, t)"
| "dca_children C limits ((level_price, quantity) # levels) fragments y t =
     (case dca_child C level_price y t of (y, child) \<Rightarrow>
      (case resize_insight C (floor_quantity quantity limits) limits y child of
         (Inl e, y, _) \<Rightarrow> (Inl e, y, on_tree (order_rejected e) t)
       | (Inr split, y, child) \<Rightarrow> dca_children C limits levels (fragments + qsr_child_count split) y (add_child child None t)))"

text \<open>The levels are placed once the whole plan was validated.\<close>

definition dca_place :: "'y PipeContext \<Rightarrow> nat \<Rightarrow> AssetQuantityLimits \<Rightarrow> f64 list \<Rightarrow> f64 list \<Rightarrow> f64 \<Rightarrow> 'y \<Rightarrow> InsightTree \<Rightarrow> 'y piped" where
  "dca_place C levels limits prices quantities dca_stop_loss y t =
     (let name = ''PercentageDcaLevelsPipe'';
          t = Tree (tree_row t) (tree_data t) (filter (\<lambda>c. \<not> is_split c) (tree_children t));
          t = on_tree (set_stop_loss (Some dca_stop_loss)) t
      in case resize_insight C (floor_quantity (hd quantities) limits) limits y t of
           (Inl e, y, t) \<Rightarrow> verdict name False True (Some e) y (on_tree (order_rejected e) t)
         | (Inr split, y, t) \<Rightarrow>
             (case dca_children C limits (zip (tl prices) (tl quantities)) (qsr_child_count split) y t of
                (Inl e, y, t) \<Rightarrow> verdict name False True (Some e) y t
              | (Inr fragments, y, t) \<Rightarrow>
                  (case validate_pending_tree_limits (pc_sizing C y) t of
                     Inl e \<Rightarrow> verdict name False True (Some e) y (log_row e t)
                   | Inr _ \<Rightarrow> verdict name True True (Some (''Added '' @ digits_of levels @ '' DCA levels to insight with ''
                        @ digits_of fragments @ '' broker-size split fragments'')) y t)))"

text \<open>The plan for an entry price and a stop loss.\<close>

definition dca_plan :: "f64 \<Rightarrow> nat \<Rightarrow> 'y PipeContext \<Rightarrow> Asset \<Rightarrow> f64 \<Rightarrow> f64 \<Rightarrow> 'y \<Rightarrow> InsightTree \<Rightarrow> 'y piped" where
  "dca_plan percentage levels C asset entry stop_loss y t =
     (let name = ''PercentageDcaLevelsPipe''; S = pc_sizing C y in
      case cap_asset_total_quantity S t (tree_quantity_size t) (limits_from_asset asset) of
        Inl e \<Rightarrow> verdict name False True (Some e) y t
      | Inr (desired, t) \<Rightarrow>
          let limits = (limits_from_asset asset)\<lparr>lim_max_total_size := None\<rparr>;
              prices = dca_prices C y t percentage levels entry in
          if \<exists>p\<in>set prices. \<not> is_finite p \<or> p \<le> 0 then verdict name False True (Some ''Invalid DCA price levels'') y t
          else let quantities = calculate_dca_quantities desired prices in
            (case cap_quantity_levels S t quantities limits of
               Inl e \<Rightarrow> verdict name False True (Some e) y (levels_left S t quantities limits)
             | Inr (_, quantities, t) \<Rightarrow>
                 let stop = tools_dynamic_round C y (case ins_side (tree_row t) of
                          Buy \<Rightarrow> last prices - (entry - stop_loss) / Fin 2 | Sell \<Rightarrow> last prices + (stop_loss - entry) / Fin 2) t
                 in (case validate_stop_for_side (tree_row t) entry stop_loss of
                       Inl e \<Rightarrow> verdict name False False (Some e) y t
                     | Inr _ \<Rightarrow> (case validate_stop_for_side (tree_row t) (last prices) stop of
                         Inl e \<Rightarrow> verdict name False False (Some e) y t
                       | Inr _ \<Rightarrow> (case first_error (\<lambda>q. plan_quantity_parts q limits None) quantities of
                           Some e \<Rightarrow> verdict name False False (Some e) y t
                         | None \<Rightarrow> dca_place C levels limits prices quantities stop y t)))))"

definition run_dca_levels :: "f64 \<Rightarrow> nat \<Rightarrow> 'y PipeContext \<Rightarrow> 'y \<Rightarrow> InsightTree \<Rightarrow> 'y piped" where
  "run_dca_levels percentage levels C y t =
     (let name = ''PercentageDcaLevelsPipe''; i = tree_row t in
      if \<not> is_finite percentage \<or> percentage \<le> 0 \<or> 1024 < levels
      then verdict name False False (Some ''DCA requires a positive finite spacing and at most 1024 levels'') y t
      else if ins_state i \<noteq> StNew \<or> ins_submitted i \<or> has_pending_submit i
        \<or> (\<exists>c\<in>set (tree_children t). ins_submitted (tree_row c) \<or> has_pending_submit (tree_row c) \<or> ins_order_id (tree_row c) \<noteq> None)
      then verdict name False False (Some ''DCA must be configured before submission'') y t
      else if ins_quantity i = None then verdict name True True (Some ''Insight does not have a desired quantity'') y t
      else if ins_parent_id i \<noteq> None then verdict name True True (Some ''Insight is already a child insight'') y t
      else case (case opt_or (ins_limit_price i) (ins_stop_price i) of Some entry \<Rightarrow> Inr entry
                 | None \<Rightarrow> (case sc_latest_quote (pc_sizing C y) (ins_symbol i) of Inl e \<Rightarrow> Inl e
                     | Inr quote \<Rightarrow> Inr (case ins_side i of Buy \<Rightarrow> qt_ask quote | Sell \<Rightarrow> qt_bid quote))) of
        Inl e \<Rightarrow> (from_read_error e name, y, t)
      | Inr entry \<Rightarrow> (case insight_stop_loss t of
          None \<Rightarrow> verdict name False False (Some ''Insight does not have stop loss set'') y t
        | Some stop_loss \<Rightarrow> (case get_asset C y t of
            None \<Rightarrow> verdict name False False (Some (''Asset '' @ ins_symbol i @ '' is not in the strategy universe'')) y t
          | Some asset \<Rightarrow>
              if \<exists>c\<in>set (tree_children t). \<not> is_split c
              then verdict name True True (Some ''Insight already has DCA child levels'') y t
              else dca_plan percentage levels C asset entry stop_loss y t)))"

section \<open>The built-in leaves\<close>

datatype BuiltinPipe = BasicStopLossPipe | BasicTakeProfitPipe | ScaleOutPipe f64 | InsightSubmitPipe | MarketOrderEntryPipe
  | MinimumRiskToRewardPipe "f64 option" | RejectExpiredInsightPipe | InsightTtlConfigPipe "nat option" "nat option"
  | CancelOppositePipe | CloseMarketChangedPipe | AllowTradingWindowPipe AllowTradingWindow | EndOfDayClosePipe EndOfDayClose
  | FullAccountQuantityToRiskPipe | DynamicQuantityToRiskPipe f64 f64 | PercentageRiskToQuantityPipe int
  | PercentageDcaLevelsPipe f64 nat

definition builtin_name :: "BuiltinPipe \<Rightarrow> string" where
  "builtin_name p = (case p of BasicStopLossPipe \<Rightarrow> ''BasicStopLossPipe'' | BasicTakeProfitPipe \<Rightarrow> ''BasicTakeProfitPipe''
     | ScaleOutPipe _ \<Rightarrow> ''ScaleOutPipe'' | InsightSubmitPipe \<Rightarrow> ''InsightSubmitPipe'' | MarketOrderEntryPipe \<Rightarrow> ''MarketOrderEntryPipe''
     | MinimumRiskToRewardPipe _ \<Rightarrow> ''MinimumRiskToRewardPipe'' | RejectExpiredInsightPipe \<Rightarrow> ''RejectExpiredInsightPipe''
     | InsightTtlConfigPipe _ _ \<Rightarrow> ''InsightTtlConfigPipe'' | CancelOppositePipe \<Rightarrow> ''CancelOppositePipe''
     | CloseMarketChangedPipe \<Rightarrow> ''CloseMarketChangedPipe'' | AllowTradingWindowPipe _ \<Rightarrow> ''AllowTradingWindowPipe''
     | EndOfDayClosePipe _ \<Rightarrow> ''EndOfDayClosePipe'' | FullAccountQuantityToRiskPipe \<Rightarrow> ''FullAccountQuantityToRiskPipe''
     | DynamicQuantityToRiskPipe _ _ \<Rightarrow> ''DynamicQuantityToRiskPipe'' | PercentageRiskToQuantityPipe _ \<Rightarrow> ''PercentageRiskToQuantityPipe''
     | PercentageDcaLevelsPipe _ _ \<Rightarrow> ''PercentageDcaLevelsPipe'')"

definition builtin_version :: "BuiltinPipe \<Rightarrow> string" where
  "builtin_version p = (case p of AllowTradingWindowPipe _ \<Rightarrow> ''1.1'' | _ \<Rightarrow> ''1.0'')"

definition unchanged :: "'p \<Rightarrow> 'y piped \<Rightarrow> InsightPipeResult \<times> 'p \<times> 'y \<times> InsightTree" where
  "unchanged p d = (case d of (r, y, t) \<Rightarrow> (r, p, y, t))"

definition builtin_run :: "'y PipeContext \<Rightarrow> BuiltinPipe \<Rightarrow> 'y \<Rightarrow> InsightTree \<Rightarrow> InsightPipeResult \<times> BuiltinPipe \<times> 'y \<times> InsightTree" where
  "builtin_run C p y t = (case p of
       BasicStopLossPipe \<Rightarrow> unchanged p (run_stop_loss C y t)
     | BasicTakeProfitPipe \<Rightarrow> unchanged p (run_take_profit C y t)
     | ScaleOutPipe fraction \<Rightarrow> unchanged p (run_scale_out fraction C y t)
     | InsightSubmitPipe \<Rightarrow> unchanged p (run_submit C y t)
     | MarketOrderEntryPipe \<Rightarrow> unchanged p (run_market_order_entry C y t)
     | MinimumRiskToRewardPipe rr \<Rightarrow> unchanged p (run_minimum_rr rr C y t)
     | RejectExpiredInsightPipe \<Rightarrow> unchanged p (run_reject_expired C y t)
     | InsightTtlConfigPipe u tp \<Rightarrow> unchanged p (run_ttl_config u tp y t)
     | CancelOppositePipe \<Rightarrow> unchanged p (run_cancel_opposite C y t)
     | CloseMarketChangedPipe \<Rightarrow> unchanged p (run_close_market_changed C y t)
     | AllowTradingWindowPipe w \<Rightarrow> (case run_trading_window w C y t of (r, w) \<Rightarrow> (r, AllowTradingWindowPipe w, y, t))
     | EndOfDayClosePipe e \<Rightarrow> (case run_end_of_day e C y t of ((r, y, t), e) \<Rightarrow> (r, EndOfDayClosePipe e, y, t))
     | FullAccountQuantityToRiskPipe \<Rightarrow> unchanged p (run_full_account C y t)
     | DynamicQuantityToRiskPipe mx mn \<Rightarrow> unchanged p (run_dynamic_quantity mx mn C y t)
     | PercentageRiskToQuantityPipe percent \<Rightarrow> unchanged p (run_percentage_risk percent C y t)
     | PercentageDcaLevelsPipe percentage levels \<Rightarrow> unchanged p (run_dca_levels percentage levels C y t))"

definition builtin_pipes :: "'y PipeContext \<Rightarrow> (BuiltinPipe, 'y) PipeOps" where
  "builtin_pipes C = \<lparr>po_name = builtin_name, po_version = builtin_version,
     po_controls_expiration = (\<lambda>p. p = RejectExpiredInsightPipe), po_run = builtin_run C\<rparr>"

end
