(* ===== verification/BuiltinPipeProperties.thy ===== *)
theory BuiltinPipeProperties
  imports CommandFlow BuiltinPipes
begin

text \<open>
  What the built-in pipes promise: as leaves they meet the contracts the composite pipes, the checkpoints and the turns ask for; then
  the time windows, the commands of a turn and the protections.
\<close>

section \<open>The built-in pipes as leaves\<close>

named_theorems piped_ok

lemma verdict_ok [piped_ok]: "result_ok (fst (verdict name passed success message y t))"
  by (simp add: verdict_def result_ok_def result_new_def)

lemma exit_close_ok [piped_ok]: "result_ok (fst (exit_close name C y t))"
  by (simp add: exit_close_def result_ok_exit_mutation split: prod.split)

declare result_ok_intros [piped_ok]

lemma run_stop_loss_ok [piped_ok]: "result_ok (fst (run_stop_loss C y t))"
  by (simp add: run_stop_loss_def Let_def piped_ok split: option.split sum.split)

lemma take_profit_close_ok [piped_ok]: "result_ok (fst (take_profit_close C levels y t))"
  by (simp add: take_profit_close_def Let_def piped_ok split: prod.split sum.split InsightMutationState.split)

lemma run_take_profit_ok [piped_ok]: "result_ok (fst (run_take_profit C y t))"
proof (cases "ins_take_profit_levels (tree_row t)")
  case (Some levels)
  then show ?thesis
  proof (cases levels)
    case (Cons level later)
    then show ?thesis
      using Some by (cases "reached TakeProfitTrigger C y t level") (simp_all add: run_take_profit_def Let_def piped_ok)
  qed (simp add: run_take_profit_def Let_def piped_ok)
qed (simp add: run_take_profit_def Let_def piped_ok)

lemma scale_out_quantity_ok: "scale_out_quantity C f final y t = Inl r \<Longrightarrow> result_ok r"
  by (auto simp: scale_out_quantity_def Let_def result_ok_new split: option.splits if_splits)

lemma scale_out_close_ok [piped_ok]: "result_ok (fst (scale_out_close C f th tps sh sls k p y t))"
proof -
  let ?final = "th \<noteq> None \<and> length tps = 1 \<or> sh \<noteq> None \<and> length sls = 1"
  show ?thesis
  proof (cases "scale_out_quantity C f ?final y t")
    case (Inl r)
    then show ?thesis using scale_out_quantity_ok [OF Inl] by (simp add: scale_out_close_def Let_def piped_ok)
  next
    case (Inr q)
    obtain r t' y' where "on_row (\<lambda>B. try_close_partial B q (Some p)) (pc_base C) t y = (r, t', y')" using prod_cases3 by blast
    with Inr show ?thesis by (simp add: scale_out_close_def Let_def piped_ok split: sum.split InsightMutationState.split)
  qed
qed

lemma run_scale_out_ok [piped_ok]: "result_ok (fst (run_scale_out f C y t))"
  by (simp add: run_scale_out_def Let_def piped_ok split: prod.split sum.split option.split)

lemma run_simple_ok [piped_ok]:
  "result_ok (fst (run_close_market_changed C y t))" "result_ok (fst (run_reject_expired C y t))"
  "result_ok (fst (run_submit C y t))" "result_ok (fst (run_market_order_entry C y t))"
  "result_ok (fst (run_ttl_config u tp y t))" "result_ok (fst (run_cancel_opposite C y t))"
  "result_ok (fst (run_trading_window w C y t))" "result_ok (fst (fst (run_end_of_day e C y t)))"
  by (simp_all add: run_close_market_changed_def run_reject_expired_def run_submit_def run_market_order_entry_def run_ttl_config_def
    run_cancel_opposite_def run_trading_window_def run_end_of_day_def Let_def piped_ok split: prod.split sum.split option.split)

lemma check_reward_risk_ok [piped_ok]: "result_ok (fst (check_reward_risk C y t))"
  by (simp add: check_reward_risk_def Let_def piped_ok split: sum.split option.split)

lemma run_minimum_rr_ok [piped_ok]: "result_ok (fst (run_minimum_rr rr C y t))"
  by (simp add: run_minimum_rr_def piped_ok split: option.split)

lemma size_insight_ok [piped_ok]: "result_ok (fst (size_insight name m C target limits y t))"
  by (simp add: size_insight_def piped_ok split: prod.split sum.split)

lemma round_and_size_ok [piped_ok]: "result_ok (fst (round_and_size name C asset q y t))"
  by (simp add: round_and_size_def piped_ok split: sum.split)

lemma positive_entry_ok: "positive_entry name C y t = Inl r \<Longrightarrow> result_ok r"
  by (auto simp: positive_entry_def piped_ok split: sum.splits if_splits)

lemma run_full_account_ok [piped_ok]: "result_ok (fst (run_full_account C y t))"
  using positive_entry_ok by (fastforce simp: run_full_account_def Let_def piped_ok split: sum.split option.split)

lemma dynamic_size_ok [piped_ok]: "result_ok (fst (dynamic_size mx mn C asset account entry stop y t))"
  by (simp add: dynamic_size_def Let_def piped_ok)

lemma run_dynamic_ok [piped_ok]: "result_ok (fst (run_dynamic_quantity mx mn C y t))"
  using positive_entry_ok by (fastforce simp: run_dynamic_quantity_def Let_def piped_ok split: sum.split option.split)

lemma run_percentage_risk_ok [piped_ok]: "result_ok (fst (run_percentage_risk p C y t))"
  using positive_entry_ok by (fastforce simp: run_percentage_risk_def Let_def piped_ok split: sum.split option.split)

lemma dca_place_ok [piped_ok]: "result_ok (fst (dca_place C n limits prices quantities stop y t))"
  by (simp add: dca_place_def Let_def piped_ok split: prod.split sum.split)

lemma dca_plan_ok [piped_ok]: "result_ok (fst (dca_plan p n C asset entry stop y t))"
  by (simp add: dca_plan_def Let_def piped_ok split: prod.split sum.split option.split)

lemma run_dca_levels_ok [piped_ok]: "result_ok (fst (run_dca_levels p n C y t))"
  by (simp add: run_dca_levels_def Let_def piped_ok split: sum.split option.split)

lemma unchanged_ok: "result_ok (fst d) \<Longrightarrow> unchanged p d = (r, p', y, t) \<Longrightarrow> result_ok r \<and> p' = p"
  by (auto simp: unchanged_def split: prod.splits)

lemma builtin_run_ok:
  assumes "builtin_run C p y t = (r, p', y', t')"
  shows "result_ok r \<and> builtin_name p' = builtin_name p \<and> builtin_version p' = builtin_version p"
proof -
  have other: ?thesis if "builtin_run C p y t = unchanged p d" "result_ok (fst d)" for d
    using unchanged_ok [OF that(2), of p r p' y' t'] that(1) assms by simp
  show ?thesis
  proof (cases p)
    case (AllowTradingWindowPipe w)
    then show ?thesis
      using assms run_simple_ok(7) [of w C y t]
      by (cases "run_trading_window w C y t") (auto simp: builtin_run_def builtin_name_def builtin_version_def)
  next
    case (EndOfDayClosePipe e)
    then show ?thesis
      using assms run_simple_ok(8) [of e C y t]
      by (cases "run_end_of_day e C y t") (auto simp: builtin_run_def builtin_name_def builtin_version_def split: prod.splits)
  qed (rule other, simp add: builtin_run_def, rule piped_ok)+
qed

text \<open>(all pipes of \<open>src/src/core/pipeline\<close>) Every built-in pipe, on every branch, returns a well-formed result, keeps its
  name and version when it rewrites its configuration, and its name is never mistaken for the layout of a composite.  So the
  theorems on composites and checkpoints hold for all pipelines built from them.\<close>

theorem builtin_pipes_well_formed: "leaves_ok (builtin_pipes C) \<and> plain_names (builtin_pipes C)"
proof
  show "leaves_ok (builtin_pipes C)"
    using builtin_run_ok [of C] by (auto simp: leaves_ok_def builtin_pipes_def)
  show "plain_names (builtin_pipes C)"
    by (simp add: plain_names_def builtin_pipes_def builtin_name_def split: BuiltinPipe.split)
qed

section \<open>Time windows\<close>

text \<open>Two-digit fields read back; they contain neither blanks nor a colon.\<close>

lemma pad2_digits:
  assumes "n < 60"
  shows "\<exists>c d. pad2 n = [c, d] \<and> is_ascii_digit c \<and> is_ascii_digit d" and "parse_i64 (pad2 n) = Some (int n)"
proof -
  have "list_all (\<lambda>n. (case pad2 n of [c, d] \<Rightarrow> is_ascii_digit c \<and> is_ascii_digit d | _ \<Rightarrow> False) \<and> parse_i64 (pad2 n) = Some (int n)) [0..<60]"
    by code_simp
  then have "(case pad2 n of [c, d] \<Rightarrow> is_ascii_digit c \<and> is_ascii_digit d | _ \<Rightarrow> False) \<and> parse_i64 (pad2 n) = Some (int n)"
    using assms by (simp add: list_all_iff)
  then show "\<exists>c d. pad2 n = [c, d] \<and> is_ascii_digit c \<and> is_ascii_digit d" "parse_i64 (pad2 n) = Some (int n)"
    by (auto split: list.splits)
qed

lemma digit_char:
  assumes "is_ascii_digit c"
  shows "\<not> is_space c" "c \<noteq> CHR '':''" "c \<noteq> CHR '',''"
  using assms by (auto simp: is_ascii_digit_def is_space_def Let_def)

lemma minutes_of_pad2: "h < 24 \<Longrightarrow> m < 60 \<Longrightarrow> minutes_of (pad2 h) (pad2 m) = Some (int h * 60 + int m)"
  by (simp add: minutes_of_def pad2_digits(2))

lemma minutes_text_reads:
  assumes "0 \<le> m" "m < 1440"
  shows "parse_minutes (minutes_text m) = Some m" "parse_utc_time_minutes (minutes_text m) = Some m"
proof -
  let ?h = "nat (m div 60)" and ?k = "nat (m mod 60)"
  have hk: "?h < 24" "?k < 60" "int ?h * 60 + int ?k = m" using assms by (auto simp: div_int_pos_iff)
  obtain a b c d where ab: "pad2 ?h = [a, b]" "is_ascii_digit a" "is_ascii_digit b"
    and cd: "pad2 ?k = [c, d]" "is_ascii_digit c" "is_ascii_digit d"
    using pad2_digits(1) [of ?h] pad2_digits(1) [of ?k] hk by auto
  have shown: "minutes_text m = [a, b, CHR '':'', c, d]" by (simp add: minutes_text_def ab cd)
  have trims: "trim [a, b, CHR '':'', c, d] = [a, b, CHR '':'', c, d]" "trim [a, b] = [a, b]" "trim [c, d] = [c, d]"
    using ab cd by (simp_all add: trim_def digit_char)
  have once: "split_once (CHR '':'') [a, b, CHR '':'', c, d] = Some ([a, b], [c, d])"
    using ab cd by (simp add: split_once_def digit_char)
  have "minutes_of [a, b] [c, d] = Some m" using minutes_of_pad2 [OF hk(1,2)] hk(3) by (simp add: ab cd)
  then show "parse_minutes (minutes_text m) = Some m" "parse_utc_time_minutes (minutes_text m) = Some m"
    by (simp_all add: shown trims once parse_minutes_def parse_utc_time_minutes_def)
qed

lemma minutes_of_range: "minutes_of h k = Some m \<Longrightarrow> 0 \<le> m \<and> m < 1440"
  by (auto simp: minutes_of_def split: option.splits if_splits)

lemma parsed_range:
  "parse_minutes value = Some m \<Longrightarrow> 0 \<le> m \<and> m < 1440"
  "parse_utc_time_minutes value = Some m \<Longrightarrow> 0 \<le> m \<and> m < 1440"
  by (auto simp: parse_minutes_def parse_utc_time_minutes_def Let_def split: option.splits if_splits dest: minutes_of_range)

text \<open>A window that may cross midnight is an interval of the clock.\<close>

lemma in_window_clock:
  assumes "0 \<le> start" "start < 1440" "0 \<le> finish" "finish < 1440" "0 \<le> current" "current < 1440"
  shows "in_window start finish current \<longleftrightarrow> (finish - current) mod 1440 \<le> (finish - start) mod 1440"
proof -
  have clock: "x mod 1440 = (if 0 \<le> x then x else x + 1440)" if "- 1440 < x" "x < 1440" for x :: int
    using that mod_pos_pos_trivial [of "x + 1440" 1440] by (auto simp: mod_pos_pos_trivial)
  show ?thesis using assms clock [of "finish - current"] clock [of "finish - start"] by (auto simp: in_window_def)
qed

definition closing_time :: "string \<Rightarrow> int" where
  "closing_time time = unwrap_or (parse_utc_time_minutes time) 1425"

lemma closing_time_range: "0 \<le> closing_time time \<and> closing_time time < 1440"
  using parsed_range(2) [of time] by (cases "parse_utc_time_minutes time") (auto simp: closing_time_def)

lemma default_closing_text: "minutes_text 1425 = ''23:45''"
  by code_simp

lemma end_of_day_reads: "parse_utc_time_minutes (normalise_utc_time time) = Some (closing_time time)"
proof (cases "parse_utc_time_minutes time")
  case None
  then show ?thesis using minutes_text_reads(2) [of 1425] by (simp add: normalise_utc_time_def closing_time_def default_closing_text)
next
  case (Some m)
  then show ?thesis
    using parsed_range(2) [OF Some] minutes_text_reads(2) [of m] by (simp add: normalise_utc_time_def closing_time_def)
qed

lemma end_of_day_window:
  assumes "0 \<le> current" "current < 1440"
  shows "is_close_window (end_of_day_new minutes time) current
    \<longleftrightarrow> (closing_time time - current) mod 1440 \<le> (if 0 < minutes then minutes else 15) mod 1440"
proof -
  let ?e = "end_of_day_new minutes time" and ?n = "if 0 < minutes then minutes else 15"
  have e: "end_of_day_minutes ?e = closing_time time" "ed_minutes_before ?e = ?n"
    by (simp_all add: end_of_day_new_def end_of_day_minutes_def end_of_day_reads normalise_positive_minutes_def)
  have "(closing_time time - (closing_time time - ?n) mod 1440) mod 1440 = ?n mod 1440"
    by (simp add: mod_diff_right_eq)
  then show ?thesis
    using in_window_clock [of "(closing_time time - ?n) mod 1440" "closing_time time" current] closing_time_range [of time] assms
    by (simp add: is_close_window_def close_window_start_minutes_def e)
qed

lemma end_of_day_stable:
  "end_of_day_new (ed_minutes_before (end_of_day_new minutes time)) (ed_time_utc (end_of_day_new minutes time)) = end_of_day_new minutes time"
  using closing_time_range [of time]
  by (simp add: end_of_day_new_def normalise_positive_minutes_def normalise_utc_time_def [of "normalise_utc_time time"] end_of_day_reads)
    (auto simp: normalise_utc_time_def closing_time_def default_closing_text split: option.split dest: parsed_range(2))

text \<open>The minutes before the end of the day count modulo a day: a window of a whole day is a single minute.\<close>

lemma end_of_day_whole_day:
  assumes "0 \<le> current" "current < 1440"
  shows "is_close_window (end_of_day_new 1440 time) current \<longleftrightarrow> current = closing_time time"
proof -
  have "(closing_time time - current) mod 1440 = 0 \<longleftrightarrow> current = closing_time time"
    using closing_time_range [of time] assms mod_pos_pos_trivial [of "closing_time time - current + 1440" 1440]
    by (cases "current \<le> closing_time time") (auto simp: mod_pos_pos_trivial)
  moreover have "0 \<le> (closing_time time - current) mod 1440" by simp
  ultimately show ?thesis using end_of_day_window [OF assms, of 1440 time] by auto
qed

text \<open>C24: (\<open>EndOfDayClosePipe::new\<close>, \<open>is_close_window\<close>) Let the minutes be the configured number, or 15 when it is not positive, taken
  modulo a day, and the closing time the one the text gives, or 23:45.  The pipe closes at a minute of the day exactly when the closing
  time is at most these minutes ahead on the 24-hour clock, across midnight too; the configuration the pipe rewrites in each run is
  stable.\<close>

theorem end_of_day_window_exact:
  assumes "0 \<le> current" "current < 1440"
  shows "(is_close_window (end_of_day_new minutes time) current
      \<longleftrightarrow> (closing_time time - current) mod 1440 \<le> (if 0 < minutes then minutes else 15) mod 1440)
    \<and> end_of_day_new (ed_minutes_before (end_of_day_new minutes time)) (ed_time_utc (end_of_day_new minutes time))
      = end_of_day_new minutes time"
  using end_of_day_window [OF assms] end_of_day_stable by blast

theorem end_of_day_window_exact_witness: "is_close_window (end_of_day_new 10 ''00:05'') 1436"
proof -
  have "closing_time ''00:05'' = 5" by code_simp
  then show ?thesis using end_of_day_window_exact [of 1436 10 "''00:05''"] by simp
qed

text \<open>Lists of days: the normalised text reads back as the days it was made of.\<close>

lemma split_on_plain: "c \<notin> set s \<Longrightarrow> split_on c s = [s]"
  by (induction s) auto

lemma split_on_append: "c \<notin> set s \<Longrightarrow> split_on c (s @ [c] @ r) = s # split_on c r"
  by (induction s) auto

lemma split_on_join: "ss \<noteq> [] \<Longrightarrow> \<forall>s\<in>set ss. c \<notin> set s \<Longrightarrow> split_on c (join [c] ss) = ss"
proof (induction "[c]" ss rule: join.induct)
  case (3 s t ss)
  then show ?case using split_on_append [of c s "join [c] (t # ss)"] by simp
qed (simp_all add: split_on_plain)

lemma day_text:
  assumes "d \<le> 6"
  shows "CHR '','' \<notin> set (digits_of d)" "parse_u32 (trim (digits_of d)) = Some d"
proof -
  have "list_all (\<lambda>d. CHR '','' \<notin> set (digits_of d) \<and> parse_u32 (trim (digits_of d)) = Some d) [0..<7]" by code_simp
  then have "CHR '','' \<notin> set (digits_of d) \<and> parse_u32 (trim (digits_of d)) = Some d" using assms by (simp add: list_all_iff)
  then show "CHR '','' \<notin> set (digits_of d)" "parse_u32 (trim (digits_of d)) = Some d" by blast+
qed

lemma somes_Some: "(\<And>x. x \<in> set xs \<Longrightarrow> f x = Some x) \<Longrightarrow> somes (map f xs) = xs"
  by (induction xs) (auto simp: somes_def)

lemma allowed_day_list_join:
  assumes "ds \<noteq> []" "\<forall>d\<in>set ds. d \<le> 6"
  shows "allowed_day_list (join '','' (map digits_of ds)) = ds"
proof -
  have "split_on (CHR '','') (join '','' (map digits_of ds)) = map digits_of ds"
    using assms day_text(1) by (intro split_on_join) auto
  moreover have "somes (map (\<lambda>d. parse_u32 (trim (digits_of d))) ds) = ds"
    using assms(2) day_text(2) by (intro somes_Some) auto
  ultimately show ?thesis using assms(2) by (simp add: allowed_day_list_def comp_def filter_id_conv)
qed

definition window_days :: "string \<Rightarrow> nat list" where
  "window_days value = (if allowed_day_list value = [] then [0..<7] else allowed_day_list value)"

lemma allowed_day_list_le: "d \<in> set (allowed_day_list value) \<Longrightarrow> d \<le> 6"
  by (simp add: allowed_day_list_def)

lemma normalize_days_reads: "allowed_day_list (normalize_days value) = window_days value"
proof -
  have "''0,1,2,3,4,5,6'' = join '','' (map digits_of [0..<7])" by code_simp
  then show ?thesis
    using allowed_day_list_join [of "[0..<7]"] allowed_day_list_join [of "allowed_day_list value"] allowed_day_list_le [of _ "value"]
    by (auto simp: normalize_days_def window_days_def Let_def)
qed

lemma normalize_time_reads:
  assumes "0 \<le> m" "m < 1440"
  shows "parse_minutes (normalize_time value (minutes_text m)) = Some (unwrap_or (parse_minutes value) m)"
  using minutes_text_reads(1) [OF assms] minutes_text_reads(1) parsed_range(1) [of "value"]
  by (cases "parse_minutes value") (simp_all add: normalize_time_def)

text \<open>C25: (\<open>AllowTradingWindowPipe::new\<close>, \<open>allows\<close>) Whatever texts configure the pipe, it passes exactly on the weekdays that were
  given (on all of them when none was valid) and at the minutes from the start to the end of the window on the 24-hour clock,
  across midnight too; an unreadable start or end is 06:00 or 20:00.\<close>

theorem trading_window_exact:
  assumes "0 \<le> current" "current < 1440"
  shows "window_allows (trading_window_new start_utc end_utc days) weekday current = Inr ()
    \<longleftrightarrow> weekday \<in> set (window_days days)
      \<and> (unwrap_or (parse_minutes end_utc) 1200 - current) mod 1440
        \<le> (unwrap_or (parse_minutes end_utc) 1200 - unwrap_or (parse_minutes start_utc) 360) mod 1440"
proof -
  have texts: "minutes_text 360 = ''06:00''" "minutes_text 1200 = ''20:00''" by code_simp+
  let ?s = "unwrap_or (parse_minutes start_utc) 360" and ?f = "unwrap_or (parse_minutes end_utc) 1200"
  have reads: "parse_minutes (normalize_time start_utc ''06:00'') = Some ?s" "parse_minutes (normalize_time end_utc ''20:00'') = Some ?f"
    using normalize_time_reads [of 360 start_utc] normalize_time_reads [of 1200 end_utc] by (simp_all add: texts)
  have "in_window ?s ?f current \<longleftrightarrow> (?f - current) mod 1440 \<le> (?f - ?s) mod 1440"
    using reads [THEN parsed_range(1)] assms by (intro in_window_clock) auto
  moreover have "window_days days \<noteq> []" by (simp add: window_days_def)
  ultimately show ?thesis
    by (simp add: window_allows_def trading_window_new_def normalize_days_reads reads Let_def)
qed

theorem trading_window_exact_witness: "window_allows (trading_window_new ''22:00'' ''2:30'' ''0, 4, 9'') 4 75 = Inr ()"
proof -
  have "parse_minutes ''2:30'' = Some 150" "parse_minutes ''22:00'' = Some 1320" "window_days ''0, 4, 9'' = [0, 4]" by code_simp+
  then show ?thesis using trading_window_exact [of 75 "''22:00''" "''2:30''" "''0, 4, 9''" 4] by simp
qed

section \<open>Commands of a turn\<close>

text \<open>Every built-in pipe answers for the command it puts in flight.\<close>

definition speaks :: "InsightTree \<Rightarrow> 'y piped \<Rightarrow> bool" where
  "speaks t d \<longleftrightarrow> announced t (snd (snd d)) (fst d)"

named_theorems pipe_speaks

lemma mutation_announced: "puts K r (tree_row t) (tree_row t') \<Longrightarrow> announced t t' (from_mutation r name)"
  by (auto simp: puts_def announced_def from_mutation_def result_deferred_def)

lemma exit_mutation_announced: "puts K r (tree_row t) (tree_row t') \<Longrightarrow> announced t t' (from_exit_mutation r name)"
  using mutation_announced [of K r t t' name] by (auto simp: announced_def from_exit_mutation_def Let_def)

lemma on_tree_in_flight:
  "in_flight (tree_row (on_tree (order_rejected e) t)) = in_flight (tree_row t)"
  "in_flight (tree_row (on_tree (set_quantity q) t)) = in_flight (tree_row t)"
  "in_flight (tree_row (on_tree (set_limit_price v) t)) = in_flight (tree_row t)"
  "in_flight (tree_row (on_tree (set_take_profit_levels l) t)) = in_flight (tree_row t)"
  "in_flight (tree_row (on_tree (set_stop_loss_levels l) t)) = in_flight (tree_row t)"
  "in_flight (tree_row (on_tree (set_stop_loss v) t)) = in_flight (tree_row t)"
  "in_flight (tree_row (on_tree (\<lambda>i. set_period_till_tp a (set_period_unfilled b i)) t)) = in_flight (tree_row t)"
  "in_flight (tree_row (log_row msg t)) = in_flight (tree_row t)"
  by (simp_all add: on_tree_def log_row_def same_pending set_stop_loss_def set_period_till_tp_def set_period_unfilled_def)

lemma speaks_verdict: "in_flight (tree_row t') \<subseteq> in_flight (tree_row t) \<Longrightarrow> speaks t (verdict name passed success message y t')"
  by (simp add: speaks_def verdict_def announced_same)

lemma speaks_still [pipe_speaks]: "speaks t (r, y, t)" "speaks t (verdict name passed success message y t)"
  by (simp_all add: speaks_def verdict_def announced_same)

lemma close_row_puts: "on_row (\<lambda>B. try_close_partial B q p) B t y = (r, t', y') \<Longrightarrow> puts {KClose} r (tree_row t) (tree_row t')"
  using close_puts [of B q p "tree_row t" y] by (auto simp: on_row_def split: prod.splits)

lemma exit_close_speaks [pipe_speaks]: "speaks t (exit_close name C y t)"
  using close_puts [of "pc_base C" "remaining_quantity (tree_row t)" None "tree_row t" y]
  by (auto simp: exit_close_def on_row_def close_insight_def speaks_def intro: exit_mutation_announced split: prod.splits)

lemma run_stop_loss_speaks [pipe_speaks]: "speaks t (run_stop_loss C y t)"
  by (simp add: run_stop_loss_def Let_def pipe_speaks split: option.split sum.split)

text \<open>A partial close: a pending or refused one is answered for, an applied one puts nothing in flight.\<close>

lemma partial_close_speaks:
  assumes "\<And>t y. in_flight (tree_row (snd (snd (f t y)))) = in_flight (tree_row t)"
  shows "speaks t (case on_row (\<lambda>B. try_close_partial B q p) B t y of (Inr Applied, t, y) \<Rightarrow> f t y | (r, t, y) \<Rightarrow> (from_mutation r name, y, t))"
proof -
  obtain r t' y' where run: "on_row (\<lambda>B. try_close_partial B q p) B t y = (r, t', y')" using prod_cases3 by blast
  note close = close_row_puts [OF run]
  show ?thesis
  proof (cases "r = Inr Applied")
    case True
    then have "in_flight (tree_row (snd (snd (f t' y')))) \<subseteq> in_flight (tree_row t)" using close assms by (auto simp: puts_def)
    then show ?thesis using True by (simp add: run speaks_def announced_same)
  next
    case False
    then show ?thesis using mutation_announced [OF close] by (auto simp: run speaks_def split: sum.split InsightMutationState.split)
  qed
qed

lemma take_profit_close_speaks [pipe_speaks]: "speaks t (take_profit_close C levels y t)"
  unfolding take_profit_close_def Let_def
  by (auto intro!: partial_close_speaks exit_close_speaks simp: verdict_def on_tree_in_flight)

lemma run_take_profit_speaks [pipe_speaks]: "speaks t (run_take_profit C y t)"
proof (cases "ins_take_profit_levels (tree_row t)")
  case (Some levels)
  then show ?thesis
  proof (cases levels)
    case (Cons level later)
    then show ?thesis
      using Some by (cases "reached TakeProfitTrigger C y t level") (simp_all add: run_take_profit_def Let_def pipe_speaks)
  qed (simp add: run_take_profit_def Let_def pipe_speaks)
qed (simp add: run_take_profit_def Let_def pipe_speaks)

lemma scale_out_close_speaks [pipe_speaks]: "speaks t (scale_out_close C f th tps sh sls k p y t)"
proof -
  let ?final = "th \<noteq> None \<and> length tps = 1 \<or> sh \<noteq> None \<and> length sls = 1"
  show ?thesis
  proof (cases "scale_out_quantity C f ?final y t")
    case (Inl r)
    then show ?thesis by (simp add: scale_out_close_def Let_def pipe_speaks)
  next
    case (Inr q)
    then show ?thesis unfolding scale_out_close_def Let_def
      by (cases "sh = None") (auto intro!: partial_close_speaks simp: verdict_def on_tree_in_flight pipe_speaks)
  qed
qed

lemma run_scale_out_speaks [pipe_speaks]: "speaks t (run_scale_out f C y t)"
  by (simp add: run_scale_out_def Let_def pipe_speaks split: prod.split sum.split option.split)

lemma run_gates_speak [pipe_speaks]:
  "speaks t (run_close_market_changed C y t)" "speaks t (run_market_order_entry C y t)" "speaks t (run_ttl_config a b y t)"
  "speaks t (run_cancel_opposite C y t)" "speaks t (fst (run_end_of_day e C y t))"
  by (simp_all add: run_close_market_changed_def run_market_order_entry_def run_ttl_config_def run_cancel_opposite_def run_end_of_day_def
    Let_def pipe_speaks speaks_verdict on_tree_in_flight split: prod.split sum.split option.split)

lemma run_reject_expired_speaks [pipe_speaks]: "speaks t (run_reject_expired C y t)"
proof -
  obtain r j y' where due: "expire_if_due (pc_calendar C) (pc_base C) (tree_row t) y = (r, j, y')" using prod_cases3 by blast
  show ?thesis
  proof (cases r)
    case None
    then show ?thesis using due expire_puts [OF due] by (simp add: run_reject_expired_def on_row_def Let_def pipe_speaks)
  next
    case (Some m)
    then show ?thesis using due expire_puts [OF due] exit_mutation_announced [of "{KCancel, KClose}" m t]
      by (simp add: run_reject_expired_def on_row_def Let_def speaks_def)
  qed
qed

lemma run_submit_speaks [pipe_speaks]: "speaks t (run_submit C y t)"
proof -
  have poll: "speaks t (case on_row poll_pending_submission (pc_base C) t y of (r, t, y) \<Rightarrow> (from_mutation r name, y, t))" for name
    using poll_in_flight [of "pc_base C" KSubmit "tree_row t" y]
    by (auto simp: on_row_def poll_pending_submission_def speaks_def intro!: announced_same split: prod.split)
  have send: "speaks t (case on_row (submit (pc_calendar C)) (pc_base C) t y of (r, t, y) \<Rightarrow> (from_mutation r name, y, t))" for name
    using submit_puts [of "pc_calendar C" "pc_base C" "tree_row t" y] mutation_announced [of "{KSubmit}" _ t]
    by (auto simp: on_row_def speaks_def split: prod.split)
  show ?thesis
    by (simp add: run_submit_def Let_def poll send pipe_speaks speaks_verdict on_tree_in_flight split: sum.split)
qed

lemma reward_risk_speaks [pipe_speaks]: "speaks t (check_reward_risk C y t)" "speaks t (run_minimum_rr rr C y t)"
  by (simp_all add: run_minimum_rr_def check_reward_risk_def Let_def pipe_speaks speaks_verdict on_tree_in_flight split: sum.split option.split)

text \<open>Sizing writes quantities, children and log lines; none of them touches the commands of the row.\<close>

lemma created_in_flight: "in_flight (tree_row (create_children fresh qs t)) = in_flight (tree_row t)"
  by (induction fresh qs t rule: create_children.induct) (simp_all add: create_child_insight_def add_child_def Let_def)

lemma capped_in_flight: "cap_asset_total_quantity S t q limits = Inr (c, t') \<Longrightarrow> in_flight (tree_row t') = in_flight (tree_row t)"
  using cap_asset_total_Inr(2) [of S t q limits c t'] by (auto simp: on_tree_in_flight)

lemma split_target_in_flight: "in_flight (tree_row (snd (snd (split_target t limits target slots)))) = in_flight (tree_row t)"
  by (simp add: split_target_def Let_def on_tree_in_flight split: option.split)

lemma split_in_flight: "split_target t limits target slots = (q, n, t') \<Longrightarrow> in_flight (tree_row t') = in_flight (tree_row t)"
  using split_target_in_flight [of t limits target slots] by simp

lemma resized_in_flight:
  "apply_max_order_size_with_child_legs S fresh t target limits = Inr (r, t') \<Longrightarrow> in_flight (tree_row t') = in_flight (tree_row t)"
  by (auto simp: apply_max_order_size_with_child_legs_def Let_def created_in_flight split: if_splits sum.splits prod.splits list.splits
      dest!: capped_in_flight split_in_flight)

lemma resize_left_in_flight: "in_flight (tree_row (resize_left S t target limits)) = in_flight (tree_row t)"
proof -
  let ?q = "target + fsum (map tree_quantity_size (filter (\<lambda>c. \<not> is_split c) (tree_children t)))"
  show ?thesis
  proof (cases "cap_asset_total_quantity S t ?q limits")
    case (Inr ct)
    then show ?thesis using capped_in_flight [of S t ?q limits "fst ct" "snd ct"]
      by (cases ct) (simp add: resize_left_def Let_def split_target_in_flight split: sum.split)
  qed (simp add: resize_left_def Let_def)
qed

lemma resize_insight_in_flight:
  assumes "resize_insight C target limits y t = (r, y', t')"
  shows "in_flight (tree_row t') = in_flight (tree_row t)"
proof -
  obtain fresh z where f: "pc_fresh C y = (fresh, z)" by fastforce
  show ?thesis
  proof (cases "apply_max_order_size_with_child_legs (pc_sizing C z) fresh t target limits")
    case (Inl e)
    then show ?thesis using assms f resize_left_in_flight [of "pc_sizing C z" t target limits] by (auto simp: resize_insight_def)
  next
    case (Inr st)
    then have "t' = on_tree (set_quantity (Some (qsr_parent_quantity (fst st)))) (snd st)"
      using assms f by (cases st) (simp add: resize_insight_def)
    then show ?thesis using Inr resized_in_flight [of "pc_sizing C z" fresh t target limits "fst st" "snd st"]
      by (simp add: on_tree_in_flight)
  qed
qed

lemma size_insight_speaks [pipe_speaks]: "speaks t (size_insight name m C target limits y t)"
proof -
  obtain r y' t' where run: "resize_insight C target limits y t = (r, y', t')" using prod_cases3 by blast
  show ?thesis using resize_insight_in_flight [OF run] by (cases r) (simp_all add: size_insight_def run speaks_verdict on_tree_in_flight)
qed

lemma round_and_size_speaks [pipe_speaks]: "speaks t (round_and_size name C asset q y t)"
  by (simp add: round_and_size_def pipe_speaks speaks_verdict on_tree_in_flight split: sum.split)

lemma run_sizing_speaks [pipe_speaks]:
  "speaks t (run_full_account C y t)" "speaks t (run_dynamic_quantity mx mn C y t)" "speaks t (run_percentage_risk p C y t)"
  by (simp_all add: run_full_account_def run_dynamic_quantity_def dynamic_size_def run_percentage_risk_def Let_def pipe_speaks
    speaks_verdict on_tree_in_flight split: sum.split option.split)

lemma levels_left_in_flight: "in_flight (tree_row (levels_left S t quantities limits)) = in_flight (tree_row t)"
  by (auto simp: levels_left_def Let_def scaled_row_def on_tree_in_flight split: sum.split prod.split dest!: capped_in_flight)

lemma cap_levels_in_flight:
  "cap_quantity_levels S t quantities limits = Inr (a, b, t') \<Longrightarrow> in_flight (tree_row t') = in_flight (tree_row t)"
  by (auto simp: cap_quantity_levels_def Let_def scaled_row_def on_tree_in_flight split: if_splits sum.splits prod.splits dest!: capped_in_flight)

lemma dca_children_in_flight:
  "dca_children C limits levels n y t = (r, y', t') \<Longrightarrow> in_flight (tree_row t') = in_flight (tree_row t)"
proof (induction C limits levels n y t arbitrary: r y' t' rule: dca_children.induct)
  case (2 C limits level_price quantity levels fragments y t)
  then show ?case by (auto simp: add_child_def Let_def on_tree_in_flight split: prod.splits sum.splits)
qed simp

lemma dca_place_speaks: "speaks t (dca_place C n limits prices quantities stop y t)"
proof -
  let ?t = "on_tree (set_stop_loss (Some stop)) (Tree (tree_row t) (tree_data t) (filter (\<lambda>c. \<not> is_split c) (tree_children t)))"
  obtain r y1 t1 where size: "resize_insight C (floor_quantity (hd quantities) limits) limits y ?t = (r, y1, t1)" using prod_cases3 by blast
  have one: "in_flight (tree_row t1) = in_flight (tree_row t)" using resize_insight_in_flight [OF size] by (simp add: on_tree_in_flight)
  show ?thesis
  proof (cases r)
    case (Inl e)
    then show ?thesis using one by (simp add: dca_place_def Let_def size speaks_verdict on_tree_in_flight)
  next
    case (Inr split)
    obtain q y2 t2 where kids: "dca_children C limits (zip (tl prices) (tl quantities)) (qsr_child_count split) y1 t1 = (q, y2, t2)"
      using prod_cases3 by blast
    show ?thesis using one dca_children_in_flight [OF kids] Inr
      by (cases q) (simp_all add: dca_place_def Let_def size kids speaks_verdict on_tree_in_flight split: sum.split)
  qed
qed

lemma speaks_trans: "in_flight (tree_row u) = in_flight (tree_row t) \<Longrightarrow> speaks u d \<Longrightarrow> speaks t d"
  unfolding speaks_def using announced_trans by blast

lemma dca_plan_speaks: "speaks t (dca_plan p n C asset entry stop y t)"
proof (cases "cap_asset_total_quantity (pc_sizing C y) t (tree_quantity_size t) (limits_from_asset asset)")
  case (Inr cu)
  obtain desired u where cu: "cu = (desired, u)" by (cases cu)
  let ?limits = "(limits_from_asset asset)\<lparr>lim_max_total_size := None\<rparr>" and ?prices = "dca_prices C y u p n entry"
  let ?qs = "calculate_dca_quantities desired ?prices"
  have u: "in_flight (tree_row u) = in_flight (tree_row t)" using capped_in_flight Inr cu by blast
  show ?thesis
  proof (cases "cap_quantity_levels (pc_sizing C y) u ?qs ?limits")
    case (Inl e)
    then show ?thesis using Inr cu u levels_left_in_flight [of "pc_sizing C y" u ?qs ?limits]
      by (simp add: dca_plan_def Let_def speaks_verdict)
  next
    case levels: (Inr lv)
    obtain a quantities v where lv: "lv = (a, quantities, v)" by (cases lv)
    have v: "in_flight (tree_row v) = in_flight (tree_row t)" using cap_levels_in_flight levels lv u by blast
    then have still: "speaks t (verdict name passed success message y v)" for name passed success message by (simp add: speaks_verdict)
    have "speaks t (dca_place C n ?limits ?prices quantities st y v)" for st by (rule speaks_trans [OF v dca_place_speaks])
    then show ?thesis using Inr cu u levels lv still
      by (simp add: dca_plan_def Let_def speaks_verdict split: sum.split option.split)
  qed
qed (simp add: dca_plan_def Let_def pipe_speaks)

lemma run_dca_levels_speaks [pipe_speaks]: "speaks t (run_dca_levels p n C y t)"
  by (simp add: run_dca_levels_def Let_def pipe_speaks dca_plan_speaks split: sum.split option.split)

lemma builtin_announces:
  assumes "builtin_run C p y t = (r, p', y', t')"
  shows "announced t t' r"
proof -
  have other: ?thesis if "builtin_run C p y t = unchanged p d" "speaks t d" for d
    using that assms by (cases d) (auto simp: unchanged_def speaks_def)
  show ?thesis
  proof (cases p)
    case (AllowTradingWindowPipe w)
    then show ?thesis using assms by (auto simp: builtin_run_def announced_same split: prod.splits)
  next
    case (EndOfDayClosePipe e)
    then show ?thesis using assms run_gates_speak(5) [of t e C y]
      by (cases "run_end_of_day e C y t") (auto simp: builtin_run_def speaks_def)
  qed (rule other, simp add: builtin_run_def, rule pipe_speaks)+
qed

interpretation builtin: announcing_leaves "builtin_pipes C" for C
  by unfold_locales (auto simp: builtin_pipes_def builtin_announces)

text \<open>A strategy whose broker takes every command and whose last bar trades between 90 and 110.\<close>

definition sample_strategy :: "'y PipeContext" where
  "sample_strategy = \<lparr>pc_base = open_context,
     pc_calendar = civil_calendar, pc_weekday = (\<lambda>_. 0), pc_live = (\<lambda>_. False), pc_native_bid_ask = (\<lambda>_. False),
     pc_oco = (\<lambda>_. False), pc_partial_close = (\<lambda>_. True), pc_leveraged = (\<lambda>_. False), pc_sizing = (\<lambda>_. sample_context True),
     pc_history = (\<lambda>_ _. Some \<lparr>fr_height = 1, fr_cell = (\<lambda>column _. Some (if column = ''high'' then Fin 110 else Fin 90))\<rparr>),
     pc_account = (\<lambda>_. Inl (DataFeedError ''No account'')), pc_execution_risk = (\<lambda>_. Fin 1),
     pc_min_reward_risk_ratio = (\<lambda>_. Fin 1), pc_set_min_reward_risk_ratio = (\<lambda>_ y. y),
     pc_request_cancellation = (\<lambda>_ y. (Inr True, y)), pc_fresh = (\<lambda>y. (sconst (''n'', sconst 0), y))\<rparr>"

definition protected_tree :: InsightTree where
  "protected_tree = Tree ((InsightTree.sample_row ''i'' StFilled)\<lparr>ins_order_id := Some ''o'', ins_stop_loss_levels := Some [Fin 95]\<rparr>) [] []"

text \<open>C22: (\<open>run_insight_pipeline_budgeted\<close>, \<open>AndPipe\<close>, \<open>OrPipe\<close>, all built-in pipes) One turn of an insight through stages of built-in
  pipes, nested in composites in any way, puts at most one broker command in flight.  When it put one in flight, the pipeline of the
  insight waits for exactly the receipt of that command, or the turn was the expiry of the insight and the receipt is its result.\<close>

theorem one_command_per_turn:
  assumes "insight_turn T i t pl s = (hit, t', pl', s')" and "tn_pipes T = builtin_pipes C"
  shows "\<exists>receipt. pm_receipt ` (set (ins_pending_mutations (tree_row t')) - set (ins_pending_mutations (tree_row t))) \<subseteq> {receipt}
    \<and> (set (ins_pending_mutations (tree_row t')) \<subseteq> set (ins_pending_mutations (tree_row t))
       \<or> pending_deferral pl' i = Some (DeferCommand receipt)
       \<or> (\<exists>y. expire_if_due (wo_calendar (tn_work T)) (wo_context (tn_work T)) (tree_row t) (st_rest s)
             = (Some (Inr (PendingReceipt receipt)), tree_row t', y)))"
proof -
  let ?new = "in_flight (tree_row t') - in_flight (tree_row t)"
  have said: "(\<forall>m\<in>?new. pending_deferral pl' i = Some (DeferCommand (pm_receipt m)))
    \<or> (\<exists>q y. expire_if_due (wo_calendar (tn_work T)) (wo_context (tn_work T)) (tree_row t) (st_rest s) = (Some q, tree_row t', y)
        \<and> (\<forall>m\<in>?new. q = Inr (PendingReceipt (pm_receipt m))))"
    using turn_commands [OF _ assms(1)] builtin.announcing_leaves_axioms [of C] assms(2) by simp
  show ?thesis
  proof (cases "?new = {}")
    case False
    then obtain m where m: "m \<in> ?new" by blast
    have "pm_receipt n = pm_receipt m" if "n \<in> ?new" for n
      using said
    proof
      assume "\<forall>m\<in>?new. pending_deferral pl' i = Some (DeferCommand (pm_receipt m))"
      with m that have "Some (DeferCommand (pm_receipt n)) = Some (DeferCommand (pm_receipt m))" by metis
      then show ?thesis by simp
    next
      assume "\<exists>q y. expire_if_due (wo_calendar (tn_work T)) (wo_context (tn_work T)) (tree_row t) (st_rest s) = (Some q, tree_row t', y)
        \<and> (\<forall>m\<in>?new. q = Inr (PendingReceipt (pm_receipt m)))"
      with m that have "(Inr (PendingReceipt (pm_receipt n)) :: InsightMutationResult) = Inr (PendingReceipt (pm_receipt m))" by metis
      then show ?thesis by simp
    qed
    then have "pm_receipt ` ?new \<subseteq> {pm_receipt m}" by blast
    then show ?thesis using said m by (intro exI [of _ "pm_receipt m"]) auto
  qed auto
qed

definition sample_turns :: "(BuiltinPipe, unit, uuid list) TurnOps" where
  "sample_turns = \<lparr>tn_pipes = builtin_pipes sample_strategy, tn_work = sample_work, tn_layout = sample_json\<rparr>"

definition stop_pipeline :: "BuiltinPipe InsightPipeline" where
  "stop_pipeline = add_pipe (builder_build (Leaf BasicStopLossPipe) (builder_config\<lparr>pcf_target_state := StFilled\<rparr>)) pipeline_default"

lemma protected_row:
  "ins_state (tree_row protected_tree) = StFilled" "\<not> ins_closing (tree_row protected_tree)" "ins_pending_mutations (tree_row protected_tree) = []"
  "ins_order_id (tree_row protected_tree) = Some ''o''" "ins_stop_loss_levels (tree_row protected_tree) = Some [Fin 95]"
  "ins_side (tree_row protected_tree) = Buy" "remaining_quantity (tree_row protected_tree) = Fin 100" "ins_id (tree_row protected_tree) = ''i''"
  "\<not> can_expire (tree_row protected_tree)" "ins_parent_id (tree_row protected_tree) = None"
proof -
  have "fmax (Fin 100 - 0) 0 = Fin 100" by code_simp
  then show "remaining_quantity (tree_row protected_tree) = Fin 100"
    by (simp add: protected_tree_def InsightTree.sample_row_def insight_default_def remaining_quantity_def)
qed (simp_all add: protected_tree_def InsightTree.sample_row_def insight_default_def can_expire_def)

lemma protected_close:
  "\<exists>t'. run_stop_loss sample_strategy y protected_tree = (result_deferred (DeferCommand (sample_receipt ''i'')) ''BasicStopLossPipe'', y, t')
    \<and> ins_closing (tree_row t') \<and> pm_receipt ` in_flight (tree_row t') = {sample_receipt ''i''}"
proof -
  have cmp: "Fin 90 \<le> Fin 95" "\<not> Fin 100 \<le> 0" "\<not> Fin 100 < Fin 100" by code_simp+
  have "reached StopLossTrigger sample_strategy y protected_tree (Fin 95) = Inr True"
    using protected_row cmp by (simp add: reached_def rising_def sample_strategy_def last_cell_def)
  then show ?thesis
    using protected_row cmp by (simp add: run_stop_loss_def insight_stop_loss_def first_level_def has_pending_close_def has_pending_kind_def
      exit_close_def on_row_def close_insight_def try_close_partial_def poll_mutation_def queue_mutation_def is_inactive_def same_pending
      sample_strategy_def open_context_def from_exit_mutation_def from_mutation_def result_deferred_def Let_def)
qed

theorem one_command_per_turn_witness:
  "\<exists>hit t' pl' s'. insight_turn sample_turns ''i'' protected_tree stop_pipeline (sample_run []) = (hit, t', pl', s')
     \<and> ins_closing (tree_row t') \<and> pending_deferral pl' ''i'' = Some (DeferCommand (sample_receipt ''i''))"
proof -
  let ?s = "sample_run []"
  from protected_close [of ?s] obtain u where u: "run_stop_loss sample_strategy ?s protected_tree = (result_deferred (DeferCommand (sample_receipt ''i'')) ''BasicStopLossPipe'', ?s, u)"
    "ins_closing (tree_row u)" "pm_receipt ` in_flight (tree_row u) = {sample_receipt ''i''}" by blast
  have runs: "should_run (builder_config\<lparr>pcf_target_state := StFilled\<rparr>) protected_tree"
    using protected_row by (simp add: should_run_def matches_asset_and_alpha_def builder_config_def scope_allows_def)
  have rest: "?s\<lparr>st_rest := x\<rparr> = ?s" for x by (simp add: sample_run_def)
  have "\<exists>hit pl' s'. insight_turn sample_turns ''i'' protected_tree stop_pipeline ?s = (hit, u, pl', s')"
    using protected_row u(1) runs
    by (auto simp: rest insight_turn_def Let_def sample_turns_def run_stages_def stop_pipeline_def add_pipe_def builder_build_def builder_config_def
        pipeline_default_def state_pipes_def tree_state_def hm_get_def hm_insert_def builtin_pipes_def builtin_run_def unchanged_def result_deferred_def)
  then obtain hit pl' s' where turn: "insight_turn sample_turns ''i'' protected_tree stop_pipeline ?s = (hit, u, pl', s')" by blast
  have none: "expire_if_due c C (tree_row protected_tree) x = (None, tree_row protected_tree, x)" for c and C :: "unit StrategyContext" and x
    by (simp add: expire_if_due_def expiry_window_def protected_tree_def InsightTree.sample_row_def insight_default_def)
  obtain m where m: "m \<in> in_flight (tree_row u)" "pm_receipt m = sample_receipt ''i''" using u(3) by blast
  have "pending_deferral pl' ''i'' = Some (DeferCommand (sample_receipt ''i''))"
    using one_command_per_turn [OF turn, of sample_strategy] protected_row(3) u(3) m by (auto simp: sample_turns_def none)
  then show ?thesis using turn u(2) by blast
qed

section \<open>Protections\<close>

text \<open>The two protections, their levels, and the price the decision is taken on.\<close>

definition protect :: "ExitTrigger \<Rightarrow> 'y PipeContext \<Rightarrow> 'y \<Rightarrow> InsightTree \<Rightarrow> 'y piped" where
  "protect trigger C y t = (case trigger of StopLossTrigger \<Rightarrow> run_stop_loss C y t | TakeProfitTrigger \<Rightarrow> run_take_profit C y t)"

definition protection_level :: "ExitTrigger \<Rightarrow> InsightTree \<Rightarrow> f64 option" where
  "protection_level trigger t = (case trigger of StopLossTrigger \<Rightarrow> insight_stop_loss t
     | TakeProfitTrigger \<Rightarrow> first_level (ins_take_profit_levels (tree_row t)))"

definition decision_price :: "ExitTrigger \<Rightarrow> 'y PipeContext \<Rightarrow> 'y \<Rightarrow> InsightTree \<Rightarrow> f64 option" where
  "decision_price trigger C y t =
     (if pc_live C y \<and> pc_native_bid_ask C y then (case exit_quote C y t of Inl _ \<Rightarrow> None | Inr p \<Rightarrow> Some p)
      else Option.bind (pc_history C y (ins_symbol (tree_row t)))
             (\<lambda>f. last_cell f (if rising trigger (ins_side (tree_row t)) then ''high'' else ''low'')))"

lemma reached_price:
  assumes "reached trigger C y t level = Inr True"
  shows "\<exists>p. decision_price trigger C y t = Some p \<and> is_finite p
    \<and> (if rising trigger (ins_side (tree_row t)) then level \<le> p else p \<le> level)"
  using assms by (auto simp: reached_def decision_price_def Let_def split: if_splits sum.splits option.splits)

lemma verdict_still: "verdict name passed success message y t = (r, y', t') \<Longrightarrow> y' = y \<and> t' = t"
  by (simp add: verdict_def)

lemma protect_reached:
  assumes run: "protect trigger C y t = (r, y', t')" and free: "\<not> has_pending_close (tree_row t)" and moved: "(y', t') \<noteq> (y, t)"
  shows "\<exists>level. protection_level trigger t = Some level \<and> \<not> ins_closing (tree_row t) \<and> reached trigger C y t level = Inr True"
proof (cases trigger)
  case StopLossTrigger
  then have "run_stop_loss C y t = (r, y', t')" using run by (simp add: protect_def)
  then show ?thesis using free moved StopLossTrigger
    by (auto simp: run_stop_loss_def protection_level_def Let_def split: option.splits if_splits sum.splits dest: verdict_still)
next
  case TakeProfitTrigger
  then have tp: "run_take_profit C y t = (r, y', t')" using run by (simp add: protect_def)
  show ?thesis
  proof (cases "ins_take_profit_levels (tree_row t)")
    case (Some levels)
    then show ?thesis
    proof (cases levels)
      case (Cons level later)
      then show ?thesis using Some tp free moved TakeProfitTrigger
        by (cases "reached TakeProfitTrigger C y t level")
          (auto simp: run_take_profit_def protection_level_def first_level_def Let_def split: if_splits dest: verdict_still)
    qed (use Some tp free moved in \<open>auto simp: run_take_profit_def Let_def dest: verdict_still\<close>)
  qed (use tp free moved in \<open>auto simp: run_take_profit_def Let_def dest: verdict_still\<close>)
qed

text \<open>C23: (\<open>BasicStopLossPipe\<close>, \<open>BasicTakeProfitPipe\<close>, \<open>ExitTrigger::reached\<close>) Without a close under way, a protection touches the
  insight or the strategy only when the price has reached its level, on the side the position is left at: the bid or the
  ask of a valid live quote, or the extreme of the last bar.  An insight that is closing already is left alone.\<close>

theorem protection_needs_breach:
  assumes "protect trigger C y t = (r, y', t')" and "\<not> has_pending_close (tree_row t)" and "(y', t') \<noteq> (y, t)"
  shows "\<exists>level price. protection_level trigger t = Some level \<and> decision_price trigger C y t = Some price \<and> is_finite price
    \<and> (if rising trigger (ins_side (tree_row t)) then level \<le> price else price \<le> level) \<and> \<not> ins_closing (tree_row t)"
proof -
  obtain level where l: "protection_level trigger t = Some level" "\<not> ins_closing (tree_row t)" "reached trigger C y t level = Inr True"
    using protect_reached [OF assms] by blast
  obtain price where "decision_price trigger C y t = Some price" "is_finite price"
    "if rising trigger (ins_side (tree_row t)) then level \<le> price else price \<le> level"
    using reached_price [OF l(3)] by blast
  with l show ?thesis by auto
qed

theorem protection_needs_breach_witness:
  "\<exists>level price. protection_level StopLossTrigger protected_tree = Some level
     \<and> decision_price StopLossTrigger sample_strategy () protected_tree = Some price \<and> price \<le> level"
proof -
  from protected_close [of "()"] obtain t' where run: "protect StopLossTrigger sample_strategy () protected_tree
      = (result_deferred (DeferCommand (sample_receipt ''i'')) ''BasicStopLossPipe'', (), t')" and now: "ins_closing (tree_row t')"
    by (auto simp: protect_def)
  have "\<not> has_pending_close (tree_row protected_tree)" using protected_row(3) by (simp add: has_pending_close_def has_pending_kind_def)
  then show ?thesis using protection_needs_breach [OF run] now protected_row(2,6) by (auto simp: rising_def)
qed

text \<open>What is closed at a take profit is half the rest rounded to the nearest step: 3/8 of a unit is rounded to nothing, and the
  close is refused in every turn.\<close>

lemma take_profit_below_step:
  assumes "get_asset C y t = Some asset" "as_quantity_base asset = None" "as_min_order_size asset = None"
    and "remaining_quantity (tree_row t) = Fin (3 / 8)" "tree_state t = StFilled" "\<not> ins_closing (tree_row t)"
    and "ins_pending_mutations (tree_row t) = []" "pc_partial_close C y" "1 < length levels"
  shows "\<exists>r. take_profit_close C levels y t = (r, y, t) \<and> \<not> pr_success r"
proof -
  have half: "Fin (3 / 8) / Fin 2 = Fin (3 / 16)" by code_simp
  have "\<not> (1 :: f64) \<le> 0" "fround (Fin (3 / 16) / 1) * 1 = 0" by code_simp+
  then have "quantity_round_for_asset (Fin (3 / 16)) asset = 0"
    using assms(2,3) by (simp add: quantity_round_for_asset_def round_to_increment_def)
  then have q: "tools_quantity_round C y (remaining_quantity (tree_row t) / Fin 2) t = 0"
    using assms(1,4) by (simp add: tools_quantity_round_def half)
  have "(0 :: f64) \<le> 0" by code_simp
  moreover have "poll_mutation (pc_base C) KClose (tree_row t) y = (None, tree_row t, y)" using assms(7) by (simp add: poll_mutation_def)
  ultimately have "on_row (\<lambda>B. try_close_partial B 0 None) (pc_base C) t y
      = (Inl (CmdInvalid ''close requires a positive quantity within the filled remainder''), t, y)"
    using assms(5,6) by (simp add: on_row_def try_close_partial_def tree_state_def is_inactive_def)
  then show ?thesis
    using assms(8,9) by (simp add: take_profit_close_def q Let_def from_mutation_def result_new_def)
qed

end
