(* ===== verification/Spec2Isabelle.thy ===== *)
theory Spec2Isabelle
  imports MarketReplay PositionEvidence InsightPaper InsightCommands QuantitySizing
    AccountLaneProperties AccountCapacity BuiltinPipeProperties
begin

text \<open>
  A verification of the order and replay core of the AlgoQuant engine (\<open>aq-engine\<close>, Rust).

  \<^bold>\<open>The program.\<close>  A backtest or paper run has three cooperating parts.  The \<^emph>\<open>backtest state\<close>
  (\<open>src/src/core/broker/backtest_state.rs\<close>, \<open>src/src/core/events.rs\<close>) holds the loaded bars of every
  market stream and merges the streams into market steps by time.  The \<^emph>\<open>paper broker\<close>
  (\<open>src/src/core/broker/paper_broker.rs\<close> with \<open>paper_broker/execution.rs\<close>) is an order management
  system: it takes order requests, fills them against bars, tracks positions, bracket legs and an
  account, and reports what happened through an event queue and subscribers.  The \<^emph>\<open>unified broker\<close>
  (\<open>src/src/core/broker/mod.rs\<close>) drives both: a step takes the next bars from the state, hands them to
  the broker and records the account.  The facts the broker emits are the \<^emph>\<open>execution facts\<close> of the
  sync protocol (\<open>src/live-sync-protocol/src/execution_fill.rs\<close>, \<open>position_accounting.rs\<close>).

  A strategy trades through \<^emph>\<open>insights\<close> (\<open>src/src/core/insight\<close>): an insight is one trade idea with its
  state, levels, fills and history.  Its operations never call a broker; they enqueue a \<^emph>\<open>broker command\<close>
  (\<open>src/src/core/broker/commands.rs\<close>) and keep the receipt.  The \<^emph>\<open>command driver\<close>
  (\<open>src/src/core/strategy/command_driver.rs\<close>) owns the commands: it admits them, has them saved with the
  checkpoint of their insight, hands durable ones to the worker task, takes the completions, and forgets a
  command when the checkpoint that reduced it was acknowledged.  What the broker reports about orders reaches
  the insight through the \<^emph>\<open>order reducer\<close> (\<open>src/src/core/strategy/order_reducer.rs\<close>).

  The insights of a strategy live in the \<^emph>\<open>insight collection\<close>
  (\<open>src/src/core/insight/mod.rs\<close> with its recovery views), which keeps indexes by activity, state,
  symbol, parent and order, and reference-counted copies of what an active insight needs for its recovery
  after its relatives were pruned.  \<^emph>\<open>Quantity sizing\<close> (\<open>src/src/core/utils/quantity_sizing.rs\<close>) brings
  the quantity of an insight to what the asset and the broker take: rounded to the grid, split into several
  orders, and capped to the exposure the collection has not reserved already.

  Once per turn the strategy \<^emph>\<open>sweeps\<close> its insights (\<open>src/src/core/strategy/mod.rs\<close>): each active insight
  runs through the stages its state has in the \<^emph>\<open>pipeline\<close> (\<open>strategy/types/mod.rs\<close>, \<open>src/src/core/pipeline\<close>).
  A stage may defer the insight until a command completes or a snapshot arrives; the \<^emph>\<open>snapshot dependencies\<close>
  (\<open>strategy/snapshot_dependencies.rs\<close>) index who waits for which snapshot.  Entries of children, cleanups and
  restored insights are requests in the \<^emph>\<open>insight work queue\<close> (\<open>strategy/insight_work.rs\<close>).  Commands of all
  strategies on one broker account pass its \<^emph>\<open>account lane\<close> (\<open>broker/command_worker/account_lane.rs\<close>), which
  admits one at a time and reserves order slots, quantity and margin.

  \<^bold>\<open>The theories.\<close>
  \<^item> \<open>Prelude\<close>: hash maps as association lists with the interface \<open>hash_map\<close> and its interpretation,
    option and list helpers.
  \<^item> \<open>F64\<close>: IEEE 754 binary64 as executable HOL: NaN, the infinities and rationals rounded to nearest
    even after every operation, comparisons with Rust's treatment of NaN, \<open>min\<close>, \<open>max\<close>, rounding and
    printing (\<open>{:.n}\<close> and the shortest decimal of \<open>Display\<close>).  The two zeros are one value.
  \<^item> \<open>ExecutionFill\<close>: fills, their cash, invalidations, position-close accounting and their
    validation functions.
  \<^item> \<open>BrokerTypes\<close>: the data of \<open>src/src/core/broker/types/mod.rs\<close> with the fee functions, and the
    order request of \<open>commands.rs\<close>.
  \<^item> \<open>TimeFrame\<close>: \<open>src/src/core/utils/timeframe.rs\<close>.  The \<open>chrono\<close> calendar is a parameter with the
    hypotheses \<open>utc_calendar\<close>, which the proleptic Gregorian calendar \<open>civil_calendar\<close> satisfies.
  \<^item> \<open>BacktestState\<close>: the state, its loaders, the scheduler and the cursors, one definition per
    function.  The binary heap of the standard library is the interface \<open>min_queue\<close>, interpreted by a
    sorted list.  The second loop of \<open>next_market_step\<close> may run for ever and is a partial function
    whose value None is that divergence; the first loop is a function with a termination proof.
  \<^item> \<open>MarketReplay\<close>: the invariant of the scheduler and the properties of whole replays.  The number
    of loop iterations of \<open>replay\<close> is bounded by the number of loaded bars, and the theorem shows
    that this bound is enough.
  \<^item> \<open>PaperBroker\<close>: the state of the paper broker and all its operations, in the order of the source:
    history, executions and events, fills, active orders, settlement, valuation, queues, steps,
    requests, reads, results, and the replay functions of the unified broker.  Random identifiers and
    the wall clock are parameters (\<open>Env\<close>); locks are held for whole operations, so that operations
    are functions on states; callbacks are logged.
  \<^item> \<open>PaperFrame\<close>: what each helper leaves unchanged.
  \<^item> \<open>PaperFills\<close>: prices of entries, protective legs, trailing stops, and that fills never overdraw.
  \<^item> \<open>PaperInvariant\<close>: the invariant that ties orders, positions, the pending queue and the tracked
    brackets together, the step relation \<open>paper_op\<close> of all operations, the reachable states and the
    invariant by rule induction.
  \<^item> \<open>PaperClose\<close>: settlement of closes, duplicated requests, the event queue, trade counts.
  \<^item> \<open>PaperRequests\<close>: contracts of the requests and the bar loop.
  \<^item> \<open>PositionEvidence\<close>: fill histories with their validation (\<open>fill_history.rs\<close>), the comparison with the
    broker's quantity, position valuations and their freshness, and the two readers of the paper broker.
  \<^item> \<open>Commands\<close>: broker commands with identity, validation and encoding; SHA-256, UUIDs and the JSON
    encoder are parameters.
  \<^item> \<open>InsightTypes\<close>, \<open>Insight\<close>: the insight record and its operations (\<open>insight.rs\<close>, \<open>position.rs\<close>,
    \<open>position_accounting.rs\<close>).  Messages of the history are the datatype \<open>Note\<close>; the clock is a stream of
    readings; the type of the children is a parameter of the record, which \<open>InsightTree\<close> instantiates.
  \<^item> \<open>InsightOperations\<close>: the operations of \<open>operations.rs\<close> with expiry and validation, over an arbitrary
    \<open>StrategyContext\<close>.
  \<^item> \<open>OrderReducer\<close>: \<open>reduce_broker_order\<close> with the functions it calls, and the abstract lifecycle it
    refines.  \<open>InsightExposure\<close>: quantities under exits and cancellations.  \<open>InsightPaper\<close>: the reducer fed
    by the paper broker.
  \<^item> \<open>CommandDriver\<close>: the driver, the sender side of the worker and the checkpoint batch rules.  A failing
    \<open>expect\<close> is the result \<open>Panic\<close>.  \<open>CommandDriverInvariant\<close>: its invariant, the step relation
    \<open>driver_step\<close> with the environment's moves and the reachable states.  \<open>CommandDriverProperties\<close>: what
    follows.  A parent chain is followed for 64 rows, as in the source.
  \<^item> \<open>InsightCommands\<close>: the interface \<open>command_ledger\<close> an insight relies on, its client lemmas, and its
    interpretation by the strategy runtime with the driver.
  \<^item> \<open>IdSets\<close>: the hash sets and ordered sets of identifiers behind one interface \<open>id_set\<close>, with an
    interpretation for each.
  \<^item> \<open>InsightTree\<close>: an insight with its children and its recovery data (\<open>execution_data.rs\<close>).  JSON values
    are the parameter \<open>Json\<close> with the hypotheses \<open>json_laws\<close>, which \<open>plain_json\<close> satisfies.  The walks over
    the tree terminate by the size of their stack.
  \<^item> \<open>RecoveryViews\<close>: the reference-counted recovery copies.  \<open>InsightCollection\<close>: the collection and its
    operations.  \<open>InsightCollectionInvariant\<close>: its invariant, the step relation \<open>coll_step\<close> and the reachable
    states.  \<open>InsightCollectionProperties\<close>: what follows.  \<open>InsightQuantity\<close>: the walk that adds up reserved
    quantities.
  \<^item> \<open>QuantitySizing\<close>: all of \<open>quantity_sizing.rs\<close> over a \<open>SizingContext\<close> of what it asks the strategy.  The
    bisection runs 48 times and a plan has at most 65536 parts, as in the source.
  \<^item> \<open>CapacityLedger\<close>: the three capacity ledgers of the account lane behind one interface of reservations.
    \<open>AccountLane\<close>: the lane with its waiters and permits and the registry of lanes.  The notification of
    \<open>tokio\<close> is the parameter \<open>NotifyOps\<close> with the hypotheses \<open>notify_laws\<close>.  \<open>AccountLaneProperties\<close>: mutual
    exclusion and service.  \<open>AccountCapacity\<close>: reservations and the registry.
  \<^item> \<open>Pipeline\<close>: results, filters, the wrapper and the composite pipes with continuations, checkpoints and
    layouts.  What a leaf does is the parameter \<open>PipeOps\<close>; the JSON texts of layouts are the parameter
    \<open>LayoutJson\<close> with the hypotheses \<open>layout_laws\<close>, which \<open>sample_json\<close> satisfies.
    \<open>PipelineProperties\<close>: the contract \<open>composite\<close> of both composites, its interpretations and what follows.
  \<^item> \<open>SnapshotDependencies\<close>: the groups of waiting insights; the loop of \<open>next\<close> has a termination proof.
  \<^item> \<open>InsightWork\<close>: the work queue, the entry permission (64 generations, as in the source) and the turns that
    work it off (at most 256 requests each); the clock is an argument.
  \<^item> \<open>InsightTurn\<close>: the pipeline of a strategy, the turn of an insight, and the sweep with its cleanup.
  \<^item> \<open>CommandFlow\<close>: which operations put a broker command in flight; what the work queue may send; the contract
    \<open>announcing_leaves\<close> of pipes that answer for their commands, and what it gives for composites, stages and turns.
  \<^item> \<open>BuiltinPipes\<close>: the sixteen pipes of \<open>src/src/core/pipeline\<close> (stops, take profits, scale-outs, expiry, windows,
    entries, sizing, DCA levels) and the datatype of their configurations as leaves of the pipeline.  What they ask the
    strategy is the record \<open>PipeContext\<close>; a history frame of polars is its height with a reader of cells, and fresh ids
    come from the context.  \<open>BuiltinPipeProperties\<close>: what they promise.

  \<^bold>\<open>What the theorems show.\<close>  For replays: every loaded bar is delivered exactly once, in order, and in
  increasing time.  For the broker, in every reachable state: a filled order owns a position of exactly
  its size, queued entries have none, the history respects its bounds.  For settlement: exact cash on
  whole amounts, bounded commission shares, closes settle once.  For requests: what is accepted, and that
  refusals change nothing.  For insights: broker evidence moves an insight along its lifecycle, a closed one
  is final, fills are counted once, exits shrink the exposure by what they close, executed quantity survives
  a cancelled remainder.  For commands: nothing is dispatched before it is durable or twice, nothing is
  forgotten before it is acknowledged, the bookkeeping is exact and no \<open>expect\<close> fails, acknowledged
  checkpoints drain, and an insight holds at most one command per kind, all known to the driver.  For the
  collection: the indexes agree with the insights in every reachable state, no operation panics, the recovery
  data is bounded, a sweep reads every id once, descendants come before their parents.  For sizing: plans keep the limits, whole
  units are split exactly, capped levels fit the broker's slots, reservations count every insight once.  For the
  account lane: one permit at a time, everybody is served, a reservation is held until there is proof, one live lane
  for each account.  For the sweep: pipes keep well-formed, suspend and resume at the same child, checkpoints are read
  back as they were saved, a waiting insight is indexed under its snapshot and never missed, requests are unique and
  an entry waits for its parents.  For the built-in pipes: they meet the contracts of leaves, so a turn puts at most one
  command in flight and then waits for it; protections act only on a reached level, and the time windows are the intervals of the
  clock their configuration gives.
  Some theorems state behaviour that surprises: a duplicated scheduler entry
  makes the replay loop, stop-limit entries fill outside the bar, a close request without a bar is lost, a
  dust rest of a position is orphaned, the last bars are not processed by the bar loop, partial exits are
  miscounted, unaligned interval boundaries exist, a partial profit enters the profit of an insight twice, a
  redelivered cumulative exit can be taken again after rounding, a quantity just below a grid point is refused, a take
  profit on a rest below one step never closes it, and an end-of-day window of a whole day is one minute.

  \<^bold>\<open>Not modelled.\<close>  Insight snapshots, the metrics of the results, replayed quotes, the live brokers and
  feeds (network), the worker task, the command journal and the sync outbox (databases), the live and backtest
  loops of the strategy with the trade events they reduce, the snapshot caches, alphas and
  universes (computations over polars frames), the indicators and the user interface.  Strings are ASCII, so that lengths
  are byte lengths.  Iteration over a concurrent map is in insertion order.
\<close>

end
